(* ===== verification/Prelude.thy ===== *)
theory Prelude
  imports Main
    "HOL-Library.Multiset"
    "HOL-Library.AList"
    "HOL-Library.List_Lexorder"
    "HOL-Library.Char_ord"
    "HOL-Library.Product_Lexorder"
    "HOL-Library.While_Combinator"
begin

text \<open>
  Prelude: the parts of Python and of its standard library that every component of the engine
  uses, and the lemmas about them that the component theories share.

  \<^item> \<open>error\<close> and \<open>result\<close>: a raised exception is the left value of a sum; \<open>try_in\<close> runs the rest of
    a function body when no exception was raised, \<open>traverse\<close> is a loop whose body may raise.
  \<^item> \<open>dict\<close>: a Python dictionary as an association list in insertion order. \<open>AList.update\<close> is item
    assignment (a present key keeps its position, a new one goes to the end), \<open>map_of\<close> is \<open>get\<close>,
    \<open>group_by\<close> is the \<open>setdefault(key, []).append(item)\<close> loop and \<open>unique\<close> is the
    \<open>unique[item] = None\<close> loop that drops duplicates and keeps first occurrences.
  \<^item> \<open>sort_key\<close> is \<open>sorted(..., key=...)\<close>: both are stable. Strings are compared by code point and
    tuples lexicographically (List_Lexorder, Char_ord, Product_Lexorder).
  \<^item> strings: \<open>string\<close> holds code points 0 to 255; \<open>strip\<close>, \<open>split_on\<close>, \<open>join\<close>, \<open>startswith\<close>, \<open>str_int\<close>.
  \<^item> the locale \<open>canonical_key\<close>: an injective sort key. Its lemmas say that deduplicating and sorting
    by the key gives a list that depends on the set of items only; each canonical-bytes function of
    the engine is an interpretation.
\<close>

section \<open>Lemma collections\<close>

named_theorems split_result \<open>case splits for results of fallible code\<close>
named_theorems wf_intro \<open>introduction rules for well-formedness predicates\<close>

section \<open>Exceptions as values\<close>

record diagnostic =
  d_code :: string
  d_path :: string
  d_message :: string

datatype error =
    ValueError string
  | TypeError string
  | KeyError string
  | IndexError
  | AssertionError
  | AttributeError
  | MappingError string
  | BatchingError string
  | ImportCompileError string
  | ImportCollisionError string
  | AdapterError string string
  | Diagnostics string "diagnostic list"

type_synonym 'a result = "error + 'a"

definition diagnostic_error :: "string \<Rightarrow> string \<Rightarrow> string \<Rightarrow> diagnostic" where
  "diagnostic_error c p m = \<lparr>d_code = c, d_path = p, d_message = m\<rparr>"

definition try_in :: "'e + 'a \<Rightarrow> ('a \<Rightarrow> 'e + 'b) \<Rightarrow> 'e + 'b" where
  "try_in r f = (case r of Inl e \<Rightarrow> Inl e | Inr x \<Rightarrow> f x)"

lemma try_in_simps [simp]:
  "try_in (Inl e) f = Inl e"
  "try_in (Inr x) f = f x"
  by (simp_all add: try_in_def)

lemma try_in_Inr [split_result]:
  "try_in r f = Inr y \<longleftrightarrow> (\<exists>x. r = Inr x \<and> f x = Inr y)"
  by (cases r) auto

lemma try_in_Inl [split_result]:
  "try_in r f = Inl e \<longleftrightarrow> r = Inl e \<or> (\<exists>x. r = Inr x \<and> f x = Inl e)"
  by (cases r) auto

fun traverse :: "('a \<Rightarrow> 'e + 'b) \<Rightarrow> 'a list \<Rightarrow> 'e + 'b list" where
  "traverse f [] = Inr []"
| "traverse f (x # xs) = try_in (f x) (\<lambda>y. try_in (traverse f xs) (\<lambda>ys. Inr (y # ys)))"

lemma traverse_Inr_iff:
  "traverse f xs = Inr ys \<longleftrightarrow> list_all2 (\<lambda>x y. f x = Inr y) xs ys"
  by (induction xs arbitrary: ys) (auto simp: split_result list_all2_Cons1)

lemma traverse_Inr_map:
  "(\<And>x. x \<in> set xs \<Longrightarrow> f x = Inr (g x)) \<Longrightarrow> traverse f xs = Inr (map g xs)"
  by (induction xs) auto

lemma traverse_Inr_when:
  "(\<And>x y. x \<in> set xs \<Longrightarrow> f x = Inr y \<longleftrightarrow> Q x \<and> y = g x) \<Longrightarrow>
   traverse f xs = Inr ys \<longleftrightarrow> (\<forall>x \<in> set xs. Q x) \<and> ys = map g xs"
  by (induction xs arbitrary: ys) (auto simp: split_result)

lemma list_all2_map_eq:
  "list_all2 R xs ys \<Longrightarrow> (\<And>x y. x \<in> set xs \<Longrightarrow> R x y \<Longrightarrow> f y = x) \<Longrightarrow> map f ys = xs"
  by (induction rule: list_all2_induct) auto

lemma traverse_Inl:
  "traverse f xs = Inl e \<Longrightarrow> \<exists>x \<in> set xs. f x = Inl e"
  by (induction xs) (auto simp: split_result)

lemma traverse_cong [fundef_cong]:
  "xs = ys \<Longrightarrow> (\<And>x. x \<in> set ys \<Longrightarrow> f x = g x) \<Longrightarrow> traverse f xs = traverse g ys"
  by (induction ys arbitrary: xs) auto

text \<open>A loop that updates a state and whose body may raise.\<close>

fun fold_in :: "('s \<Rightarrow> 'a \<Rightarrow> 'e + 's) \<Rightarrow> 's \<Rightarrow> 'a list \<Rightarrow> 'e + 's" where
  "fold_in f s [] = Inr s"
| "fold_in f s (x # xs) = try_in (f s x) (\<lambda>t. fold_in f t xs)"

lemma fold_in_append: "fold_in f s (xs @ ys) = try_in (fold_in f s xs) (\<lambda>t. fold_in f t ys)"
  by (induction xs arbitrary: s) (auto simp: try_in_def split: sum.splits)

text \<open>An invariant over the items already seen carries through the loop, which then does not raise.\<close>

lemma fold_in_invariant:
  assumes "I [] s" and step: "\<And>ys x t. (\<exists>zs. xs = ys @ x # zs) \<Longrightarrow> I ys t \<Longrightarrow> \<exists>u. f t x = Inr u \<and> I (ys @ [x]) u"
  shows "\<exists>u. fold_in f s xs = Inr u \<and> I xs u"
  using step
proof (induction xs rule: rev_induct)
  case Nil
  then show ?case using assms(1) by simp
next
  case (snoc x xs)
  have "\<exists>u. fold_in f s xs = Inr u \<and> I xs u"
  proof (rule snoc.IH)
    show "\<exists>u. f t z = Inr u \<and> I (ys @ [z]) u" if "\<exists>zs. xs = ys @ z # zs" "I ys t" for ys z t
      using that by (intro snoc.prems) auto
  qed
  then obtain u where u: "fold_in f s xs = Inr u" "I xs u" by blast
  obtain v where "f u x = Inr v" "I (xs @ [x]) v" using snoc.prems [of xs x u] u by auto
  then show ?case using u by (simp add: fold_in_append)
qed

text \<open>A loop that only checks its items: the first failing check is raised.\<close>

fun check_each :: "('a \<Rightarrow> unit result) \<Rightarrow> 'a list \<Rightarrow> unit result" where
  "check_each f [] = Inr ()"
| "check_each f (x # xs) = try_in (f x) (\<lambda>_. check_each f xs)"

lemma check_each_ok [simp]:
  "check_each f xs = Inr u \<longleftrightarrow> (\<forall>x \<in> set xs. f x = Inr ())"
  by (induction xs) (auto simp: split_result)

lemma isl_check_each: "isl (check_each f xs) \<longleftrightarrow> (\<exists>x \<in> set xs. isl (f x))"
  by (induction xs) (auto simp: try_in_def split: sum.splits)

definition require :: "bool \<Rightarrow> error \<Rightarrow> unit result" where
  "require b e = (if b then Inr () else Inl e)"

lemma require_simps [simp]:
  "require b e = Inr u \<longleftrightarrow> b"
  "require b e = Inl e' \<longleftrightarrow> \<not> b \<and> e' = e"
  "isl (require b e) \<longleftrightarrow> \<not> b"
  by (auto simp: require_def)

section \<open>Dictionaries in insertion order\<close>

type_synonym ('k, 'v) dict = "('k \<times> 'v) list"

abbreviation keys :: "('k, 'v) dict \<Rightarrow> 'k list" where
  "keys d \<equiv> map fst d"

abbreviation vals :: "('k, 'v) dict \<Rightarrow> 'v list" where
  "vals d \<equiv> map snd d"

definition get_list :: "('k, 'v list) dict \<Rightarrow> 'k \<Rightarrow> 'v list" where
  "get_list d k = (case map_of d k of None \<Rightarrow> [] | Some vs \<Rightarrow> vs)"

text \<open>\<open>d.setdefault(k, []).extend(vs)\<close>\<close>

definition dict_extend :: "'k \<Rightarrow> 'v list \<Rightarrow> ('k, 'v list) dict \<Rightarrow> ('k, 'v list) dict" where
  "dict_extend k vs d = AList.update k (get_list d k @ vs) d"

definition group_by :: "('a \<Rightarrow> 'k) \<Rightarrow> 'a list \<Rightarrow> ('k, 'a list) dict" where
  "group_by f xs = foldl (\<lambda>d x. dict_extend (f x) [x] d) [] xs"

definition unique :: "'a list \<Rightarrow> 'a list" where
  "unique xs = foldl (\<lambda>acc x. if x \<in> set acc then acc else acc @ [x]) [] xs"

text \<open>A dictionary comprehension or a loop of item assignments: later items win.\<close>

definition dict_of :: "('k \<times> 'v) list \<Rightarrow> ('k, 'v) dict" where
  "dict_of kvs = foldl (\<lambda>d (k, v). AList.update k v d) [] kvs"

lemma keys_update: "keys (AList.update k v d) = (if k \<in> set (keys d) then keys d else keys d @ [k])"
  by (rule update_keys)

lemma map_of_update [simp]: "map_of (AList.update k v d) = (map_of d)(k \<mapsto> v)"
  by (rule update_conv')

lemma distinct_keys_update: "distinct (keys (AList.update k v d)) = distinct (keys d)"
  by (simp add: keys_update)

lemma map_of_Some_iff_distinct:
  "distinct (keys d) \<Longrightarrow> map_of d k = Some v \<longleftrightarrow> (k, v) \<in> set d"
  by (auto intro: map_of_is_SomeI dest: map_of_SomeD)

lemma map_of_None_iff: "map_of d k = None \<longleftrightarrow> k \<notin> set (keys d)"
  by (simp add: map_of_eq_None_iff)

lemma unique_snoc:
  "unique (xs @ [x]) = (if x \<in> set (unique xs) then unique xs else unique xs @ [x])"
  by (simp add: unique_def)

lemma unique_Nil [simp]: "unique [] = []"
  by (simp add: unique_def)

lemma set_unique [simp]: "set (unique xs) = set xs"
  by (induction xs rule: rev_induct) (auto simp: unique_snoc)

lemma distinct_unique [simp]: "distinct (unique xs)"
  by (induction xs rule: rev_induct) (auto simp: unique_snoc)

lemma unique_distinct: "distinct xs \<Longrightarrow> unique xs = xs"
  by (induction xs rule: rev_induct) (auto simp: unique_snoc)

lemma unique_eq_Nil [simp]: "unique xs = [] \<longleftrightarrow> xs = []"
  using set_unique [of xs] by (metis set_empty)

lemma group_by_snoc: "group_by f (xs @ [x]) = dict_extend (f x) [x] (group_by f xs)"
  by (simp add: group_by_def)

lemma keys_group_by: "keys (group_by f xs) = unique (map f xs)"
proof (induction xs rule: rev_induct)
  case Nil
  then show ?case by (simp add: group_by_def)
next
  case (snoc x xs)
  then show ?case
    by (simp add: group_by_snoc dict_extend_def keys_update unique_snoc)
qed

lemma get_group_by: "get_list (group_by f xs) k = filter (\<lambda>x. f x = k) xs"
proof (induction xs rule: rev_induct)
  case Nil
  then show ?case by (simp add: group_by_def get_list_def)
next
  case (snoc x xs)
  then show ?case by (auto simp: group_by_snoc dict_extend_def get_list_def)
qed

lemma distinct_keys_group_by [simp]: "distinct (keys (group_by f xs))"
  by (simp add: keys_group_by)

lemma dict_by_keys:
  assumes "distinct (keys d)"
  shows "d = map (\<lambda>k. (k, the (map_of d k))) (keys d)"
proof -
  have "map (\<lambda>p. (fst p, the (map_of d (fst p)))) d = d"
    using assms by (intro map_idI) force
  then show ?thesis by (simp add: comp_def)
qed

lemma group_by_eq:
  "group_by f xs = map (\<lambda>k. (k, filter (\<lambda>x. f x = k) xs)) (unique (map f xs))"
proof -
  have "the (map_of (group_by f xs) k) = filter (\<lambda>x. f x = k) xs"
    if "k \<in> set (keys (group_by f xs))" for k
    using that get_group_by [of f xs k]
    by (auto simp: get_list_def map_of_eq_None_iff split: option.splits)
  then have "map (\<lambda>k. (k, the (map_of (group_by f xs) k))) (keys (group_by f xs)) =
      map (\<lambda>k. (k, filter (\<lambda>x. f x = k) xs)) (keys (group_by f xs))"
    by (intro map_cong) auto
  then show ?thesis
    using dict_by_keys [OF distinct_keys_group_by, of f xs] unfolding keys_group_by by simp
qed

lemma group_by_nonempty: "(k, g) \<in> set (group_by f xs) \<Longrightarrow> g \<noteq> []"
  by (auto simp: group_by_eq filter_empty_conv)

lemma group_by_member:
  "(k, g) \<in> set (group_by f xs) \<longleftrightarrow> k \<in> f ` set xs \<and> g = filter (\<lambda>x. f x = k) xs"
  by (auto simp: group_by_eq)

lemma group_by_mem: "(k, g) \<in> set (group_by f xs) \<Longrightarrow> x \<in> set g \<Longrightarrow> x \<in> set xs \<and> f x = k"
  by (auto simp: group_by_member)

lemma set_update_subset: "set (AList.update k v d) \<subseteq> insert (k, v) (set d)"
  by (induction d) auto

lemma dict_of_snoc: "dict_of (kvs @ [(k, v)]) = AList.update k v (dict_of kvs)"
  by (simp add: dict_of_def)

lemma dict_of_Nil [simp]: "dict_of [] = []"
  by (simp add: dict_of_def)

lemma map_of_dict_of: "map_of (dict_of kvs) k = map_of (rev kvs) k"
proof (induction kvs rule: rev_induct)
  case (snoc x kvs)
  then show ?case by (cases x) (simp add: dict_of_snoc)
qed simp

lemma keys_dict_of: "keys (dict_of kvs) = unique (keys kvs)"
proof (induction kvs rule: rev_induct)
  case (snoc kv kvs)
  then show ?case by (cases kv) (simp add: dict_of_snoc keys_update unique_snoc)
qed simp

lemma distinct_keys_dict_of [simp]: "distinct (keys (dict_of kvs))"
  by (simp add: keys_dict_of)

lemma map_of_dict_of_const: "map_of (dict_of (map (\<lambda>r. (r, c)) xs)) n = (if n \<in> set xs then Some c else None)"
  by (induction xs rule: rev_induct) (auto simp: dict_of_snoc)

text \<open>Items indexed by a key that identifies them: nothing is overwritten by something else.\<close>

lemma dict_of_keyed:
  "(k, x) \<in> set (dict_of (map (\<lambda>x. (f x, x)) xs)) \<Longrightarrow> x \<in> set xs \<and> k = f x"
proof (induction xs rule: rev_induct)
  case (snoc y ys)
  then show ?case using set_update_subset [of "f y" y "dict_of (map (\<lambda>x. (f x, x)) ys)"]
    by (auto simp: dict_of_snoc)
qed simp

lemma keys_dict_of_keyed:
  "map f (vals (dict_of (map (\<lambda>x. (f x, x)) xs))) = keys (dict_of (map (\<lambda>x. (f x, x)) xs))"
  by (auto dest: dict_of_keyed)

lemma distinct_vals_dict_of_keyed: "distinct (map f (vals (dict_of (map (\<lambda>x. (f x, x)) xs))))"
  unfolding keys_dict_of_keyed by (rule distinct_keys_dict_of)

lemma set_vals_dict_of_keyed:
  assumes "inj_on f (set xs)"
  shows "set (vals (dict_of (map (\<lambda>x. (f x, x)) xs))) = set xs"
proof -
  let ?d = "dict_of (map (\<lambda>x. (f x, x)) xs)"
  have sub: "set (vals ?d) \<subseteq> set xs" by (auto dest: dict_of_keyed)
  have "f ` set (vals ?d) = set (keys ?d)" using keys_dict_of_keyed [of f xs] by (metis set_map)
  also have "\<dots> = f ` set xs" unfolding keys_dict_of set_unique by (simp add: image_image)
  finally show ?thesis using inj_on_image_eq_iff [OF assms sub subset_refl] by blast
qed

text \<open>The loop \<open>d.setdefault(f(x), []).extend(g(x))\<close>.\<close>

definition extend_by :: "('a \<Rightarrow> 'k) \<Rightarrow> ('a \<Rightarrow> 'v list) \<Rightarrow> 'a list \<Rightarrow> ('k, 'v list) dict" where
  "extend_by f g xs = foldl (\<lambda>d x. dict_extend (f x) (g x) d) [] xs"

lemma extend_by_snoc: "extend_by f g (xs @ [x]) = dict_extend (f x) (g x) (extend_by f g xs)"
  by (simp add: extend_by_def)

lemma keys_extend_by: "keys (extend_by f g xs) = unique (map f xs)"
proof (induction xs rule: rev_induct)
  case Nil
  then show ?case by (simp add: extend_by_def)
next
  case (snoc x xs)
  then show ?case by (simp add: extend_by_snoc dict_extend_def keys_update unique_snoc)
qed

lemma get_extend_by: "get_list (extend_by f g xs) k = concat (map g (filter (\<lambda>x. f x = k) xs))"
proof (induction xs rule: rev_induct)
  case Nil
  then show ?case by (simp add: extend_by_def get_list_def)
next
  case (snoc x xs)
  then show ?case by (auto simp: extend_by_snoc dict_extend_def get_list_def)
qed

lemma extend_by_eq: "extend_by f g xs = map (\<lambda>(k, grp). (k, concat (map g grp))) (group_by f xs)"
proof -
  have "the (map_of (extend_by f g xs) k) = concat (map g (filter (\<lambda>x. f x = k) xs))"
    if "k \<in> set (keys (extend_by f g xs))" for k
    using that get_extend_by [of f g xs k]
    by (auto simp: get_list_def map_of_eq_None_iff split: option.splits)
  then have "map (\<lambda>k. (k, the (map_of (extend_by f g xs) k))) (keys (extend_by f g xs)) =
      map (\<lambda>k. (k, concat (map g (filter (\<lambda>x. f x = k) xs)))) (keys (extend_by f g xs))"
    by (intro map_cong) auto
  moreover have "distinct (keys (extend_by f g xs))" by (simp add: keys_extend_by)
  ultimately show ?thesis
    using dict_by_keys [of "extend_by f g xs"] unfolding keys_extend_by by (simp add: group_by_eq)
qed

section \<open>Sorting and canonical order\<close>

lemma sorted_sort_key_map [simp]: "sorted (map f (sort_key f xs))"
  by simp

lemma sort_key_id: "sorted (map f xs) \<Longrightarrow> sort_key f xs = xs"
  by (rule sort_key_id_if_sorted)

lemma sort_key_perm:
  "mset xs = mset ys \<Longrightarrow> inj_on f (set xs) \<Longrightarrow> sort_key f xs = sort_key f ys"
  by (rule sort_key_eq_sort_key)

lemma distinct_map_sort_key [simp]: "distinct (map f (sort_key g xs)) = distinct (map f xs)"
  by (rule mset_eq_imp_distinct_iff) simp

lemma strictly_sorted_keys:
  "distinct (keys kvs) \<Longrightarrow> sorted_wrt (<) (keys (sort_key fst kvs))"
  for kvs :: "('k::linorder \<times> 'v) list"
  by (simp add: strict_sorted_iff)

lemma list_all_sort_key [simp]: "list_all P (sort_key f xs) = list_all P xs"
  by (simp add: list_all_iff)

lemma mset_eq_distinct:
  "distinct xs \<Longrightarrow> distinct ys \<Longrightarrow> set xs = set ys \<Longrightarrow> mset xs = mset ys"
  by (simp add: set_eq_iff_mset_eq_distinct)

text \<open>Deduplicate, then sort by a key: \<open>tuple(sorted(unique.keys(), key=...))\<close>.\<close>

definition canon_set :: "('a \<Rightarrow> 'k::linorder) \<Rightarrow> 'a list \<Rightarrow> 'a list" where
  "canon_set key xs = sort_key key (unique xs)"

lemma set_canon_set [simp]: "set (canon_set key xs) = set xs"
  by (simp add: canon_set_def)

lemma distinct_canon_set [simp]: "distinct (canon_set key xs)"
  by (simp add: canon_set_def)

lemma canon_set_Nil [simp]: "canon_set key [] = []"
  by (simp add: canon_set_def)

lemma canon_set_eq_Nil [simp]: "canon_set key xs = [] \<longleftrightarrow> xs = []"
  by (metis set_canon_set set_empty)

locale canonical_key =
  fixes key :: "'a \<Rightarrow> 'k::linorder" and valid :: "'a \<Rightarrow> bool"
  assumes key_inj: "valid x \<Longrightarrow> valid y \<Longrightarrow> key x = key y \<Longrightarrow> x = y"
begin

lemma inj_on_key: "list_all valid xs \<Longrightarrow> inj_on key (set xs)"
  by (auto intro!: inj_onI key_inj simp: list_all_iff)

lemma sort_distinct_cong:
  "list_all valid xs \<Longrightarrow> distinct xs \<Longrightarrow> distinct ys \<Longrightarrow> set xs = set ys \<Longrightarrow>
   sort_key key xs = sort_key key ys"
  by (rule sort_key_perm [OF mset_eq_distinct inj_on_key])

lemma canon_set_cong:
  "list_all valid xs \<Longrightarrow> set xs = set ys \<Longrightarrow> canon_set key xs = canon_set key ys"
  unfolding canon_set_def by (rule sort_distinct_cong) (simp_all add: list_all_iff)

lemma strictly_sorted_canon_set:
  "list_all valid xs \<Longrightarrow> sorted_wrt (<) (map key (canon_set key xs))"
  unfolding canon_set_def
  using inj_on_key [of "unique xs"]
  by (simp add: strict_sorted_iff distinct_map list_all_iff)

lemma canon_set_canonical:
  "sorted_wrt (<) (map key xs) \<Longrightarrow> canon_set key xs = xs"
  unfolding canon_set_def
  by (auto simp: strict_sorted_iff distinct_map unique_distinct sort_key_id)

lemma canon_set_idem [simp]: "canon_set key (canon_set key xs) = canon_set key xs"
  unfolding canon_set_def by (simp add: unique_distinct sort_key_id)

lemma canonical_unique:
  assumes "list_all valid xs" "sorted_wrt (<) (map key xs)" "sorted_wrt (<) (map key ys)" "set xs = set ys"
  shows "xs = ys"
  using assms by (metis canon_set_canonical canon_set_cong)

end

section \<open>Strings\<close>

text \<open>\<open>str.isspace\<close> on code points 0 to 255 (tab to carriage return, the four separators, blank, NEL,
  no-break space), and \<open>str.strip\<close>.\<close>

definition is_space :: "char \<Rightarrow> bool" where
  "is_space c = (let n = (of_char c :: nat)
     in (9 \<le> n \<and> n \<le> 13) \<or> (28 \<le> n \<and> n \<le> 32) \<or> n = 133 \<or> n = 160)"

definition lstrip :: "string \<Rightarrow> string" where
  "lstrip s = dropWhile is_space s"

definition strip :: "string \<Rightarrow> string" where
  "strip s = rev (lstrip (rev (lstrip s)))"

definition startswith :: "string \<Rightarrow> string \<Rightarrow> bool" where
  "startswith p s = (take (length p) s = p)"

fun join :: "string \<Rightarrow> string list \<Rightarrow> string" where
  "join sep [] = []"
| "join sep [x] = x"
| "join sep (x # y # ys) = x @ sep @ join sep (y # ys)"

text \<open>\<open>s.split(c)\<close> for a one-character separator: never empty.\<close>

fun split_on :: "char \<Rightarrow> string \<Rightarrow> string list" where
  "split_on c [] = [[]]"
| "split_on c (x # xs) =
     (if x = c then [] # split_on c xs
      else (case split_on c xs of [] \<Rightarrow> [[x]] | p # ps \<Rightarrow> (x # p) # ps))"

text \<open>\<open>s.replace(c, t)\<close> for a one-character pattern.\<close>

definition replace_char :: "char \<Rightarrow> string \<Rightarrow> string \<Rightarrow> string" where
  "replace_char c t s = concat (map (\<lambda>x. if x = c then t else [x]) s)"

lemma replace_char_simps [simp]:
  "replace_char c t [] = []"
  "replace_char c t (x # xs) = (if x = c then t else [x]) @ replace_char c t xs"
  "replace_char c t (xs @ ys) = replace_char c t xs @ replace_char c t ys"
  by (simp_all add: replace_char_def)

lemma startswith_iff: "startswith p s \<longleftrightarrow> (\<exists>t. s = p @ t)"
  unfolding startswith_def by (metis append_take_drop_id append_eq_conv_conj)

lemma split_on_nonempty [simp]: "split_on c s \<noteq> []"
  by (cases s) (auto split: list.splits)

lemma split_on_no_sep: "c \<notin> set s \<Longrightarrow> split_on c s = [s]"
  by (induction s) auto

lemma split_on_append_sep: "c \<notin> set s \<Longrightarrow> split_on c (s @ c # t) = s # split_on c t"
  by (induction s) auto

lemma split_on_join:
  "ss \<noteq> [] \<Longrightarrow> \<forall>s \<in> set ss. c \<notin> set s \<Longrightarrow> split_on c (join [c] ss) = ss"
  by (induction "[c]" ss rule: join.induct) (auto simp: split_on_no_sep split_on_append_sep)

lemma join_split_on: "join [c] (split_on c s) = s"
proof (induction s)
  case (Cons x xs)
  show ?case
  proof (cases "x = c")
    case True
    with Cons show ?thesis by (cases "split_on c xs") auto
  next
    case False
    obtain p ps where "split_on c xs = p # ps" by (cases "split_on c xs") auto
    with Cons False show ?thesis by (cases ps) auto
  qed
qed simp

lemma split_on_pieces: "p \<in> set (split_on c s) \<Longrightarrow> c \<notin> set p"
  by (induction s arbitrary: p) (auto split: if_splits list.splits)

lemma lstrip_idem [simp]: "lstrip (lstrip s) = lstrip s"
  by (simp add: lstrip_def)

lemma lstrip_prefix_stable:
  assumes "lstrip s = s" shows "lstrip (rev (lstrip (rev s))) = rev (lstrip (rev s))"
proof (cases s)
  case Nil
  then show ?thesis by (simp add: lstrip_def)
next
  case (Cons x xs)
  with assms have x: "\<not> is_space x"
    by (metis dropWhile_eq_Cons_conv lstrip_def)
  have "rev (dropWhile is_space (rev xs @ [x])) = x # rev (dropWhile is_space (rev xs))"
    using x by (simp add: dropWhile_append dropWhile_eq_Nil_conv)
  then show ?thesis using Cons x by (simp add: lstrip_def)
qed

lemma lstrip_strip [simp]: "lstrip (strip s) = strip s"
  by (simp add: strip_def lstrip_prefix_stable)

lemma lstrip_rev_strip [simp]: "lstrip (rev (strip s)) = rev (strip s)"
  by (simp add: strip_def)

lemma strip_idem [simp]: "strip (strip s) = strip s"
  by (simp add: strip_def [of "strip s"])

text \<open>\<open>value or ""\<close> for an optional string.\<close>

definition or_empty :: "string option \<Rightarrow> string" where
  "or_empty v = (case v of None \<Rightarrow> [] | Some s \<Rightarrow> s)"

text \<open>\<open>str.lower\<close> on code points 0 to 255.\<close>

definition lower_char :: "char \<Rightarrow> char" where
  "lower_char c = (let n = (of_char c :: nat) in
     if (65 \<le> n \<and> n \<le> 90) \<or> (192 \<le> n \<and> n \<le> 222 \<and> n \<noteq> 215) then char_of (n + 32) else c)"

definition py_lower :: "string \<Rightarrow> string" where
  "py_lower s = map lower_char s"

text \<open>A value that \<open>isinstance(value, str) and value.strip()\<close> accepts.\<close>

definition non_blank :: "string \<Rightarrow> bool" where
  "non_blank s \<longleftrightarrow> strip s \<noteq> []"

lemma non_blank_strip [simp]: "non_blank (strip s) = non_blank s"
  by (simp add: non_blank_def)

lemma non_blank_not_Nil: "non_blank s \<Longrightarrow> s \<noteq> []"
  by (auto simp: non_blank_def strip_def lstrip_def)

text \<open>Two texts of which neither can be continued to the other are ordered by what they are, whatever
  follows them.\<close>

lemma less_append_independent:
  fixes x y :: "'a::linorder list"
  assumes "\<And>r s. x @ r = y @ s \<Longrightarrow> x = y" "x \<noteq> y"
  shows "x @ a < y @ b \<longleftrightarrow> x < y"
  using assms
proof (induction x arbitrary: y)
  case Nil
  then show ?case using Nil.prems(1) [of y "[]"] by simp
next
  case (Cons c x)
  show ?case
  proof (cases y)
    case Nil
    then show ?thesis using Cons.prems(1) [of "[]" "c # x"] Cons.prems(2) by simp
  next
    case (Cons d y')
    have "x = y'" if "c = d" "x @ r = y' @ s" for r s
      using Cons.prems(1) [of r s] that Cons by simp
    then show ?thesis using Cons.IH [of y'] Cons.prems(2) Cons by auto
  qed
qed

section \<open>Decimal numerals\<close>

definition digit_char :: "nat \<Rightarrow> char" where
  "digit_char n = char_of (48 + n)"

fun str_nat :: "nat \<Rightarrow> string" where
  "str_nat n = (if n < 10 then [digit_char n] else str_nat (n div 10) @ [digit_char (n mod 10)])"

declare str_nat.simps [simp del]

definition str_int :: "int \<Rightarrow> string" where
  "str_int i = (if i < 0 then CHR ''-'' # str_nat (nat (- i)) else str_nat (nat i))"

definition is_digit :: "char \<Rightarrow> bool" where
  "is_digit c = (let n = (of_char c :: nat) in 48 \<le> n \<and> n \<le> 57)"

fun nat_of_digits :: "nat \<Rightarrow> string \<Rightarrow> nat" where
  "nat_of_digits acc [] = acc"
| "nat_of_digits acc (c # cs) = nat_of_digits (10 * acc + (of_char c - 48)) cs"

lemma of_digit_char: "n < 10 \<Longrightarrow> (of_char (digit_char n) :: nat) = 48 + n"
  by (simp add: digit_char_def)

lemma is_digit_digit_char: "n < 10 \<Longrightarrow> is_digit (digit_char n)"
  by (simp add: is_digit_def of_digit_char Let_def)

lemma nat_of_digits_append:
  "nat_of_digits acc (xs @ ys) = nat_of_digits (nat_of_digits acc xs) ys"
  by (induction xs arbitrary: acc) auto

lemma nat_of_str_nat: "nat_of_digits 0 (str_nat n) = n"
proof (induction n rule: str_nat.induct)
  case (1 n)
  then show ?case
    by (cases "n < 10") (auto simp: str_nat.simps [of n] nat_of_digits_append of_digit_char)
qed

lemma str_nat_inj [simp]: "str_nat m = str_nat n \<longleftrightarrow> m = n"
  by (metis nat_of_str_nat)

lemma str_nat_digits: "c \<in> set (str_nat n) \<Longrightarrow> is_digit c"
proof (induction n rule: str_nat.induct)
  case (1 n)
  then show ?case
    by (cases "n < 10") (auto simp: str_nat.simps [of n] is_digit_digit_char)
qed

lemma str_nat_not_Nil [simp]: "str_nat n \<noteq> []"
  by (simp add: str_nat.simps [of n])

lemma is_digit_minus [simp]: "\<not> is_digit CHR ''-''"
  by (simp add: is_digit_def)

lemma str_nat_no_minus [simp]: "str_nat n = CHR ''-'' # s \<longleftrightarrow> False" "CHR ''-'' # s = str_nat n \<longleftrightarrow> False"
proof -
  have "CHR ''-'' \<notin> set (str_nat n)" using str_nat_digits [of "CHR ''-''" n] by auto
  then have "str_nat n \<noteq> CHR ''-'' # s" by auto
  then show "str_nat n = CHR ''-'' # s \<longleftrightarrow> False" "CHR ''-'' # s = str_nat n \<longleftrightarrow> False" by auto
qed

lemma str_int_inj [simp]: "str_int i = str_int j \<longleftrightarrow> i = j"
  by (auto simp: str_int_def eq_nat_nat_iff)

lemma str_int_chars: "c \<in> set (str_int i) \<Longrightarrow> is_digit c \<or> c = CHR ''-''"
  by (auto simp: str_int_def dest: str_nat_digits split: if_splits)

lemma str_int_not_Nil [simp]: "str_int i \<noteq> []"
  by (simp add: str_int_def)

end
