(* ===== verification/Json.thy ===== *)
theory Json
  imports Prelude
begin

text \<open>
  \<open>identity/canonicalize.py\<close>, \<open>identity/json_values.py\<close> and \<open>identity/hashing.py\<close>: raw Python
  values, their canonical (tagged) form, plain JSON values, the compact deterministic serialization
  and the domain-separated hash preimages.

  \<open>pyvalue\<close> is what reaches the engine from a parsed file or a caller; \<open>cjson\<close> is the tagged form
  (\<open>CanonicalObject\<close>, \<open>CanonicalArray\<close>); \<open>json\<close> is the plain form that is serialized. A finite
  float is named by its \<open>repr\<close>, the text \<open>json.dumps\<close> writes for it. An object is an association
  list in insertion order; \<open>wf_json\<close> says that its keys are distinct, as those of a dictionary are.

  Main fact: \<open>canonical_json_bytes\<close> is injective up to key order (\<open>canonical_json_bytes_eq_iff\<close>), and
  even prefix-free (\<open>dumps_cancel\<close>), so the byte strings the engine sorts, groups and hashes by
  identify the values themselves.
\<close>

section \<open>Values\<close>

datatype json =
    JNull | JBool bool | JInt int | JFloat string | JStr string
  | JArray "json list" | JObject "(string \<times> json) list"

datatype cjson =
    CNull | CBool bool | CInt int | CFloat string | CStr string
  | CanonicalArray "cjson list" | CanonicalObject "(string \<times> cjson) list"

datatype pykey = KeyStr string | KeyOther

datatype pyfloat = Finite string | NonFinite

datatype pyvalue =
    PyNone | PyBool bool | PyInt int | PyFloat pyfloat | PyStr string
  | PyDict "(pykey \<times> pyvalue) list" | PyList "pyvalue list" | PyOther

lemma json_induct [case_names Null Bool Int Float Str Array Object]:
  assumes "P JNull" "\<And>b. P (JBool b)" "\<And>i. P (JInt i)" "\<And>t. P (JFloat t)" "\<And>s. P (JStr s)"
    and "\<And>vs. (\<And>v. v \<in> set vs \<Longrightarrow> P v) \<Longrightarrow> P (JArray vs)"
    and "\<And>kvs. (\<And>k v. (k, v) \<in> set kvs \<Longrightarrow> P v) \<Longrightarrow> P (JObject kvs)"
  shows "P v"
proof (induction v)
  case (JObject kvs)
  then have "\<And>k v. (k, v) \<in> set kvs \<Longrightarrow> P v" by force
  then show ?case by (rule assms(7))
qed (auto intro: assms)

section \<open>Canonicalization\<close>

fun canonicalize_json_value :: "pyvalue \<Rightarrow> cjson result" where
  "canonicalize_json_value PyNone = Inr CNull"
| "canonicalize_json_value (PyBool b) = Inr (CBool b)"
| "canonicalize_json_value (PyInt i) = Inr (CInt i)"
| "canonicalize_json_value (PyFloat f) =
     (case f of
        NonFinite \<Rightarrow> Inl (ValueError ''float attributes must be finite'')
      | Finite t \<Rightarrow> Inr (CFloat t))"
| "canonicalize_json_value (PyStr s) = Inr (CStr s)"
| "canonicalize_json_value (PyDict items) =
     try_in (traverse (\<lambda>(k, v). case k of
               KeyStr s \<Rightarrow> try_in (canonicalize_json_value v) (\<lambda>c. Inr (s, c))
             | KeyOther \<Rightarrow> Inl (TypeError ''JSON object keys must be strings'')) items)
       (\<lambda>its. Inr (CanonicalObject (sort_key fst its)))"
| "canonicalize_json_value (PyList items) =
     try_in (traverse canonicalize_json_value items) (\<lambda>its. Inr (CanonicalArray its))"
| "canonicalize_json_value PyOther = Inl (TypeError ''unsupported JSON attribute type'')"

fun canonical_json_to_plain :: "cjson \<Rightarrow> json" where
  "canonical_json_to_plain CNull = JNull"
| "canonical_json_to_plain (CBool b) = JBool b"
| "canonical_json_to_plain (CInt i) = JInt i"
| "canonical_json_to_plain (CFloat t) = JFloat t"
| "canonical_json_to_plain (CStr s) = JStr s"
| "canonical_json_to_plain (CanonicalArray vs) = JArray (map canonical_json_to_plain vs)"
| "canonical_json_to_plain (CanonicalObject kvs) =
     JObject (map (\<lambda>(k, v). (k, canonical_json_to_plain v)) kvs)"

definition normalize_json_value :: "pyvalue \<Rightarrow> json result" where
  "normalize_json_value v =
     try_in (canonicalize_json_value v) (\<lambda>c. Inr (canonical_json_to_plain c))"

text \<open>The attributes of a node or an edge: a missing value is the empty object, an object that is
  already canonical is kept, anything but a mapping is refused.\<close>

datatype attributes_arg = NoAttributes | CanonicalAttributes "(string \<times> cjson) list" | RawAttributes pyvalue

fun canonicalize_attributes_object :: "attributes_arg \<Rightarrow> cjson result" where
  "canonicalize_attributes_object NoAttributes = Inr (CanonicalObject [])"
| "canonicalize_attributes_object (CanonicalAttributes items) = Inr (CanonicalObject items)"
| "canonicalize_attributes_object (RawAttributes v) =
     (case v of
        PyNone \<Rightarrow> Inr (CanonicalObject [])
      | PyDict items \<Rightarrow> canonicalize_json_value (PyDict items)
      | _ \<Rightarrow> Inl (TypeError ''attributes root must be a JSON object (mapping)''))"

text \<open>\<open>validate_json_value\<close>: the same checks without building a value.\<close>

fun validate_json_value :: "pyvalue \<Rightarrow> unit result" where
  "validate_json_value PyNone = Inr ()"
| "validate_json_value (PyBool b) = Inr ()"
| "validate_json_value (PyInt i) = Inr ()"
| "validate_json_value (PyFloat f) =
     (case f of NonFinite \<Rightarrow> Inl (ValueError ''float values must be finite'') | Finite t \<Rightarrow> Inr ())"
| "validate_json_value (PyStr s) = Inr ()"
| "validate_json_value (PyDict items) =
     try_in (traverse (\<lambda>(k, v). case k of
               KeyStr s \<Rightarrow> validate_json_value v
             | KeyOther \<Rightarrow> Inl (TypeError ''JSON object keys must be strings'')) items)
       (\<lambda>_. Inr ())"
| "validate_json_value (PyList items) = try_in (traverse validate_json_value items) (\<lambda>_. Inr ())"
| "validate_json_value PyOther = Inl (TypeError ''unsupported JSON value type'')"

section \<open>Serialization\<close>

text \<open>String escapes of \<open>json.dumps(..., ensure_ascii=True)\<close>.\<close>

definition hex_char :: "nat \<Rightarrow> char" where
  "hex_char n = (if n < 10 then char_of (48 + n) else char_of (87 + n))"

definition escape_char :: "char \<Rightarrow> string" where
  "escape_char c =
     (if c = CHR 0x22 then [CHR 0x5C, CHR 0x22]
      else if c = CHR 0x5C then [CHR 0x5C, CHR 0x5C]
      else if c = CHR 0x0A then CHR 0x5C # ''n''
      else if c = CHR 0x0D then CHR 0x5C # ''r''
      else if c = CHR 0x09 then CHR 0x5C # ''t''
      else if c = CHR 0x0C then CHR 0x5C # ''f''
      else if c = CHR 0x08 then CHR 0x5C # ''b''
      else (let n = (of_char c :: nat) in
        if 32 \<le> n \<and> n \<le> 126 then [c]
        else CHR 0x5C # ''u00'' @ [hex_char (n div 16), hex_char (n mod 16)]))"

definition json_string :: "string \<Rightarrow> string" where
  "json_string s = CHR 0x22 # concat (map escape_char s) @ [CHR 0x22]"

definition member_text :: "string \<times> string \<Rightarrow> string" where
  "member_text kv = json_string (fst kv) @ CHR '':'' # snd kv"

fun canonical_json_bytes :: "json \<Rightarrow> string" where
  "canonical_json_bytes JNull = ''null''"
| "canonical_json_bytes (JBool b) = (if b then ''true'' else ''false'')"
| "canonical_json_bytes (JInt i) = str_int i"
| "canonical_json_bytes (JFloat t) = t"
| "canonical_json_bytes (JStr s) = json_string s"
| "canonical_json_bytes (JArray vs) =
     ''['' @ join '','' (map canonical_json_bytes vs) @ '']''"
| "canonical_json_bytes (JObject kvs) =
     ''{'' @ join '','' (map member_text (sort_key fst (map (\<lambda>(k, v). (k, canonical_json_bytes v)) kvs))) @ ''}''"

definition canonical_value_fingerprint :: "json \<Rightarrow> string" where
  "canonical_value_fingerprint v = canonical_json_bytes v"

definition tagged_fingerprint :: "cjson \<Rightarrow> string" where
  "tagged_fingerprint c = canonical_value_fingerprint (canonical_json_to_plain c)"

section \<open>Well-formed values\<close>

definition number_char :: "char \<Rightarrow> bool" where
  "number_char c \<longleftrightarrow> is_digit c \<or> c \<in> {CHR ''-'', CHR ''+'', CHR ''.'', CHR ''e''}"

definition wf_float :: "string \<Rightarrow> bool" where
  "wf_float t \<longleftrightarrow> t \<noteq> [] \<and> (is_digit (hd t) \<or> hd t = CHR ''-'') \<and> list_all number_char t \<and>
     (CHR ''.'' \<in> set t \<or> CHR ''e'' \<in> set t)"

fun wf_json :: "json \<Rightarrow> bool" where
  "wf_json (JFloat t) = wf_float t"
| "wf_json (JArray vs) = list_all wf_json vs"
| "wf_json (JObject kvs) = (distinct (keys kvs) \<and> list_all (\<lambda>(k, v). wf_json v) kvs)"
| "wf_json _ = True"

fun wf_py :: "pyvalue \<Rightarrow> bool" where
  "wf_py (PyFloat (Finite t)) = wf_float t"
| "wf_py (PyList vs) = list_all wf_py vs"
| "wf_py (PyDict kvs) = (distinct (keys kvs) \<and> list_all (\<lambda>(k, v). wf_py v) kvs)"
| "wf_py _ = True"

text \<open>\<open>canon\<close> forgets the insertion order of dictionaries: two plain values are equal in Python (up to
  the bool/int distinction the fingerprint keeps) when their \<open>canon\<close> is.\<close>

fun canon :: "json \<Rightarrow> json" where
  "canon JNull = JNull"
| "canon (JBool b) = JBool b"
| "canon (JInt i) = JInt i"
| "canon (JFloat t) = JFloat t"
| "canon (JStr s) = JStr s"
| "canon (JArray vs) = JArray (map canon vs)"
| "canon (JObject kvs) = JObject (sort_key fst (map (\<lambda>(k, v). (k, canon v)) kvs))"

fun sorted_json :: "json \<Rightarrow> bool" where
  "sorted_json (JArray vs) = list_all sorted_json vs"
| "sorted_json (JObject kvs) = (sorted_wrt (<) (keys kvs) \<and> list_all (\<lambda>(k, v). sorted_json v) kvs)"
| "sorted_json _ = True"

section \<open>Injectivity of the serialization\<close>

definition unhex :: "char \<Rightarrow> nat" where
  "unhex c = (let n = of_char c in if n < 58 then n - 48 else n - 87)"

lemma unhex_hex_char: "n < 16 \<Longrightarrow> unhex (hex_char n) = n"
  by (auto simp: unhex_def hex_char_def Let_def)

text \<open>A decoder for one escaped character shows that escapes are prefix-free.\<close>

definition unescape_short :: "char \<Rightarrow> char" where
  "unescape_short c =
     (if c = CHR ''n'' then CHR 0x0A else if c = CHR ''r'' then CHR 0x0D
      else if c = CHR ''t'' then CHR 0x09 else if c = CHR ''f'' then CHR 0x0C
      else if c = CHR ''b'' then CHR 0x08 else c)"

definition unescape :: "string \<Rightarrow> char \<times> string" where
  "unescape s =
     (if hd s \<noteq> CHR 0x5C then (hd s, tl s)
      else if s ! 1 \<noteq> CHR ''u'' then (unescape_short (s ! 1), drop 2 s)
      else (char_of (16 * unhex (s ! 4) + unhex (s ! 5)), drop 6 s))"

lemma unescape_escape: "unescape (escape_char c @ r) = (c, r)"
proof -
  consider "c \<in> {CHR 0x22, CHR 0x5C, CHR 0x0A, CHR 0x0D, CHR 0x09, CHR 0x0C, CHR 0x08}"
    | "c \<notin> {CHR 0x22, CHR 0x5C, CHR 0x0A, CHR 0x0D, CHR 0x09, CHR 0x0C, CHR 0x08}" by blast
  then show ?thesis
  proof cases
    case 1
    then show ?thesis
      by (elim insertE) (simp_all add: escape_char_def unescape_def unescape_short_def)
  next
    case 2
    show ?thesis
    proof (cases "32 \<le> (of_char c :: nat) \<and> (of_char c :: nat) \<le> 126")
      case True
      with 2 show ?thesis by (simp add: escape_char_def unescape_def)
    next
      case False
      have "(of_char c :: nat) < 256" by simp
      then have "(of_char c :: nat) div 16 < 16" "(of_char c :: nat) mod 16 < 16" by linarith+
      then have "unhex (hex_char (of_char c div 16)) = of_char c div 16"
        "unhex (hex_char (of_char c mod 16)) = of_char c mod 16" by (simp_all add: unhex_hex_char)
      moreover have "escape_char c =
          [CHR 0x5C, CHR ''u'', CHR ''0'', CHR ''0'', hex_char (of_char c div 16), hex_char (of_char c mod 16)]"
        using 2 False by (simp add: escape_char_def Let_def)
      ultimately show ?thesis by (simp add: unescape_def)
    qed
  qed
qed

lemma escape_char_cancel: "escape_char c @ r = escape_char d @ s \<Longrightarrow> c = d \<and> r = s"
  by (metis Pair_inject unescape_escape)

lemma escape_char_not_quote: "escape_char c \<noteq> [] \<and> hd (escape_char c) \<noteq> CHR 0x22"
  by (simp add: escape_char_def Let_def)

lemma json_string_body_cancel:
  "concat (map escape_char s) @ CHR 0x22 # r = concat (map escape_char t) @ CHR 0x22 # r' \<Longrightarrow>
   s = t \<and> r = r'"
proof (induction s arbitrary: t)
  case Nil
  then show ?case
  proof (cases t)
    case (Cons d t')
    with Nil escape_char_not_quote [of d] show ?thesis by (cases "escape_char d") auto
  qed (use Nil in simp)
next
  case (Cons c s)
  show ?case
  proof (cases t)
    case Nil
    with Cons.prems escape_char_not_quote [of c] show ?thesis by (cases "escape_char c") auto
  next
    case (Cons d t')
    with Cons.prems have "escape_char c @ concat (map escape_char s) @ CHR 0x22 # r =
        escape_char d @ concat (map escape_char t') @ CHR 0x22 # r'" by simp
    then have "c = d" "concat (map escape_char s) @ CHR 0x22 # r =
        concat (map escape_char t') @ CHR 0x22 # r'"
      using escape_char_cancel by blast+
    with Cons.IH Cons show ?thesis by blast
  qed
qed

lemma json_string_cancel: "json_string s @ r = json_string t @ r' \<Longrightarrow> s = t \<and> r = r'"
  using json_string_body_cancel [of s r t r'] by (simp add: json_string_def)

lemma json_string_inj: "json_string s = json_string t \<longleftrightarrow> s = t"
  using json_string_cancel [of s "[]" t "[]"] by auto

text \<open>What may follow a value inside a document: nothing, or a separator.\<close>

definition sep_next :: "string \<Rightarrow> bool" where
  "sep_next r \<longleftrightarrow> r = [] \<or> hd r \<in> {CHR '','', CHR '']'', CHR ''}''}"

lemma sep_next_simps [simp]:
  "sep_next []" "sep_next (CHR '','' # r)" "sep_next (CHR '']'' # r)" "sep_next (CHR ''}'' # r)"
  by (simp_all add: sep_next_def)

lemma takeWhile_number_sep: "list_all number_char t \<Longrightarrow> sep_next r \<Longrightarrow> takeWhile number_char (t @ r) = t"
  by (induction t) (cases r, auto simp: sep_next_def number_char_def is_digit_def)

lemma number_cancel:
  "list_all number_char t \<Longrightarrow> list_all number_char u \<Longrightarrow> sep_next r \<Longrightarrow> sep_next s \<Longrightarrow>
   t @ r = u @ s \<Longrightarrow> t = u \<and> r = s"
  by (metis append_same_eq same_append_eq takeWhile_number_sep)

lemma str_int_number: "list_all number_char (str_int i)"
  by (auto simp: list_all_iff number_char_def dest: str_int_chars)

lemma str_int_not_float: "wf_float t \<Longrightarrow> str_int i \<noteq> t"
  by (auto simp: wf_float_def is_digit_def dest: str_int_chars)

lemma hd_str_int: "is_digit (hd (str_int i)) \<or> hd (str_int i) = CHR ''-''"
  by (meson hd_in_set str_int_chars str_int_not_Nil)

text \<open>A list of items, printed with separators and closed by \<open>c\<close>, when the item printer \<open>p\<close> cancels.\<close>

lemma join_cancel:
  assumes cancel: "\<And>x y r s. x \<in> set xs \<Longrightarrow> y \<in> set ys \<Longrightarrow> sep_next r \<Longrightarrow> sep_next s \<Longrightarrow>
      p x @ r = p y @ s \<Longrightarrow> x = y \<and> r = s"
    and first: "\<And>x. x \<in> set xs \<union> set ys \<Longrightarrow> p x \<noteq> [] \<and> hd (p x) \<notin> {CHR '','', CHR '']'', CHR ''}''}"
    and c: "c \<in> {CHR '']'', CHR ''}''}"
    and eq: "join '','' (map p xs) @ c # r = join '','' (map p ys) @ c # s"
  shows "xs = ys \<and> r = s"
  using assms
proof (induction xs arbitrary: ys)
  case Nil
  show ?case
  proof (cases ys)
    case (Cons y ys')
    with Nil(2) [of y] obtain h t where "p y = h # t" "h \<noteq> c" using Nil(3) by (cases "p y") auto
    with Nil(4) Cons have False by (cases ys') auto
    then show ?thesis ..
  qed (use Nil in auto)
next
  case (Cons x xs)
  have x: "p x \<noteq> []" "hd (p x) \<noteq> c" using Cons.prems(2) [of x] Cons.prems(3) by auto
  show ?case
  proof (cases ys)
    case Nil
    with Cons.prems(4) x show ?thesis by (cases xs) (auto simp: neq_Nil_conv)
  next
    case ys: (Cons y ys')
    define R where "R = (case xs of [] \<Rightarrow> c # r | _ \<Rightarrow> CHR '','' # join '','' (map p xs) @ c # r)"
    define S where "S = (case ys' of [] \<Rightarrow> c # s | _ \<Rightarrow> CHR '','' # join '','' (map p ys') @ c # s)"
    have eq': "p x @ R = p y @ S"
      using Cons.prems(4) ys by (auto simp: R_def S_def split: list.splits)
    have "sep_next R" "sep_next S"
      using Cons.prems(3) by (auto simp: R_def S_def split: list.splits)
    then have xy: "x = y" "R = S" using Cons.prems(1) [OF _ _ _ _ eq'] ys by auto
    show ?thesis
    proof (cases "xs = [] \<or> ys' = []")
      case True
      with xy(2) Cons.prems(3) have "xs = []" "ys' = []" "r = s"
        by (auto simp: R_def S_def split: list.splits)
      with xy(1) ys show ?thesis by simp
    next
      case False
      with xy(2) have "join '','' (map p xs) @ c # r = join '','' (map p ys') @ c # s"
        by (auto simp: R_def S_def split: list.splits)
      from Cons.IH [OF _ _ Cons.prems(3) this] Cons.prems(1,2) ys
      have "xs = ys' \<and> r = s" by auto
      with xy(1) ys show ?thesis by simp
    qed
  qed
qed

lemma fst_comp_map_snd [simp]: "fst \<circ> (\<lambda>(k, v). (k, f v)) = fst"
  by auto

lemma keys_map_snd [simp]: "keys (map (\<lambda>(k, v). (k, f v)) kvs) = keys kvs"
  by (induction kvs) auto

lemma sort_key_fst_canonical: "sorted_wrt (<) (keys kvs) \<Longrightarrow> sort_key fst kvs = kvs"
  for kvs :: "('k::linorder \<times> 'v) list"
  by (rule sort_key_id_if_sorted) (simp add: strict_sorted_iff)

lemma canonical_json_bytes_sorted_object:
  "sorted_json (JObject kvs) \<Longrightarrow> canonical_json_bytes (JObject kvs) =
     ''{'' @ join '','' (map (\<lambda>(k, v). json_string k @ CHR '':'' # canonical_json_bytes v) kvs) @ ''}''"
  by (simp add: sort_key_fst_canonical member_text_def comp_def case_prod_beta')

definition starts_value :: "char \<Rightarrow> bool" where
  "starts_value c \<longleftrightarrow> is_digit c \<or> c \<in> {CHR ''-'', CHR ''n'', CHR ''t'', CHR ''f'', CHR 0x22, CHR ''['', CHR ''{''}"

lemma hd_canonical_json_bytes:
  "wf_json v \<Longrightarrow> canonical_json_bytes v \<noteq> [] \<and> starts_value (hd (canonical_json_bytes v))"
  using hd_str_int by (cases v) (auto simp: starts_value_def json_string_def wf_float_def)

lemma starts_value_not_sep: "starts_value c \<Longrightarrow> c \<notin> {CHR '','', CHR '']'', CHR ''}''}"
  by (auto simp: starts_value_def is_digit_def)

lemma hd_not_sep:
  "wf_json v \<Longrightarrow> canonical_json_bytes v \<noteq> [] \<and>
     hd (canonical_json_bytes v) \<notin> {CHR '','', CHR '']'', CHR ''}''}"
  using hd_canonical_json_bytes starts_value_not_sep by blast


text \<open>The first character tells the kind of a value, up to the numbers.\<close>

definition lead :: "json \<Rightarrow> char" where
  "lead v = (case v of JNull \<Rightarrow> CHR ''n'' | JBool b \<Rightarrow> (if b then CHR ''t'' else CHR ''f'')
     | JInt i \<Rightarrow> CHR ''0'' | JFloat t \<Rightarrow> CHR ''0'' | JStr s \<Rightarrow> CHR 0x22
     | JArray vs \<Rightarrow> CHR ''['' | JObject kvs \<Rightarrow> CHR ''{'')"

definition lead_class :: "char \<Rightarrow> char" where
  "lead_class c = (if is_digit c \<or> c = CHR ''-'' then CHR ''0'' else c)"

lemma lead_class_hd: "wf_json v \<Longrightarrow> lead_class (hd (canonical_json_bytes v)) = lead v"
  using hd_str_int by (cases v) (auto simp: lead_class_def lead_def json_string_def wf_float_def is_digit_def)

lemma same_lead:
  assumes "wf_json v" "wf_json w" "canonical_json_bytes v @ r = canonical_json_bytes w @ s"
  shows "lead v = lead w"
  using assms by (metis hd_append2 hd_canonical_json_bytes lead_class_hd)

theorem dumps_cancel:
  "wf_json v \<Longrightarrow> wf_json w \<Longrightarrow> sorted_json v \<Longrightarrow> sorted_json w \<Longrightarrow> sep_next r \<Longrightarrow> sep_next s \<Longrightarrow>
   canonical_json_bytes v @ r = canonical_json_bytes w @ s \<Longrightarrow> v = w \<and> r = s"
proof (induction v arbitrary: w r s rule: json_induct)
  case Null
  from same_lead [OF Null.prems(1,2,7)] Null.prems show ?case
    by (cases w) (auto simp: lead_def split: if_splits)
next
  case (Bool b)
  from same_lead [OF Bool.prems(1,2,7)] Bool.prems show ?case
    by (cases w) (auto simp: lead_def split: if_splits)
next
  case (Int i)
  from same_lead [OF Int.prems(1,2,7)] consider j where "w = JInt j" | t where "w = JFloat t"
    by (cases w) (auto simp: lead_def split: if_splits)
  then show ?case
  proof cases
    case 1
    with Int.prems number_cancel [OF str_int_number str_int_number Int.prems(5,6), of i j]
    show ?thesis by simp
  next
    case 2
    with Int.prems number_cancel [OF str_int_number _ Int.prems(5,6), of t i] str_int_not_float [of t i]
    show ?thesis by (auto simp: wf_float_def)
  qed
next
  case (Float t)
  from same_lead [OF Float.prems(1,2,7)] consider j where "w = JInt j" | u where "w = JFloat u"
    by (cases w) (auto simp: lead_def split: if_splits)
  then show ?case
  proof cases
    case 1
    with Float.prems number_cancel [OF _ str_int_number Float.prems(5,6), of t j] str_int_not_float [of t j]
    show ?thesis by (auto simp: wf_float_def)
  next
    case 2
    with Float.prems number_cancel [OF _ _ Float.prems(5,6), of t u]
    show ?thesis by (simp add: wf_float_def)
  qed
next
  case (Str t)
  from same_lead [OF Str.prems(1,2,7)] Str.prems show ?case
    by (cases w) (auto simp: lead_def dest: json_string_cancel split: if_splits)
next
  case (Array vs)
  from same_lead [OF Array.prems(1,2,7)] obtain ws where w: "w = JArray ws"
    by (cases w) (auto simp: lead_def split: if_splits)
  have "vs = ws \<and> r = s"
  proof (rule join_cancel [where p = canonical_json_bytes and c = "CHR '']''"])
    show "x = y \<and> r = s" if "x \<in> set vs" "y \<in> set ws" "sep_next r" "sep_next s"
      "canonical_json_bytes x @ r = canonical_json_bytes y @ s" for x y r s
      using that Array.prems w by (intro Array.IH) (auto simp: list_all_iff)
    show "canonical_json_bytes x \<noteq> [] \<and> hd (canonical_json_bytes x) \<notin> {CHR '','', CHR '']'', CHR ''}''}"
      if "x \<in> set vs \<union> set ws" for x
      using that Array.prems w by (intro hd_not_sep) (auto simp: list_all_iff)
  qed (use Array.prems w in auto)
  with w show ?case by simp
next
  case (Object kvs)
  from same_lead [OF Object.prems(1,2,7)] obtain ws where w: "w = JObject ws"
    by (cases w) (auto simp: lead_def split: if_splits)
  let ?p = "\<lambda>(k, v). json_string k @ CHR '':'' # canonical_json_bytes v"
  have "kvs = ws \<and> r = s"
  proof (rule join_cancel [where p = ?p and c = "CHR ''}''"])
    show "x = y \<and> r = s" if "x \<in> set kvs" "y \<in> set ws" "sep_next r" "sep_next s" "?p x @ r = ?p y @ s"
      for x y r s
    proof -
      obtain k v l u where xy: "x = (k, v)" "y = (l, u)" by (cases x, cases y)
      with that(5) have "k = l" "canonical_json_bytes v @ r = canonical_json_bytes u @ s"
        using json_string_cancel [of k _ l] by auto
      moreover have "v = u \<and> r = s"
        using that Object.prems w xy calculation(2)
        by (intro Object.IH [of k v]) (auto simp: list_all_iff)
      ultimately show ?thesis using xy by simp
    qed
    show "?p x \<noteq> [] \<and> hd (?p x) \<notin> {CHR '','', CHR '']'', CHR ''}''}" for x
      by (cases x) (simp add: json_string_def)
    show "join '','' (map ?p kvs) @ CHR ''}'' # r = join '','' (map ?p ws) @ CHR ''}'' # s"
      using Object.prems(7) w canonical_json_bytes_sorted_object [OF Object.prems(3)]
        canonical_json_bytes_sorted_object [OF Object.prems(4) [unfolded w]] by simp
  qed simp
  with w show ?case by simp
qed

text \<open>Arrays close themselves: nothing is asked of the text that follows them.\<close>

lemma array_dump_cancel:
  assumes "wf_json (JArray vs)" "wf_json (JArray ws)" "sorted_json (JArray vs)" "sorted_json (JArray ws)"
    and eq: "canonical_json_bytes (JArray vs) @ r = canonical_json_bytes (JArray ws) @ s"
  shows "vs = ws \<and> r = s"
proof (rule join_cancel [where p = canonical_json_bytes and c = "CHR '']''"])
  show "x = y \<and> r = s" if "x \<in> set vs" "y \<in> set ws" "sep_next r" "sep_next s"
    "canonical_json_bytes x @ r = canonical_json_bytes y @ s" for x y r s
    using that assms by (intro dumps_cancel) (auto simp: list_all_iff)
  show "canonical_json_bytes x \<noteq> [] \<and> hd (canonical_json_bytes x) \<notin> {CHR '','', CHR '']'', CHR ''}''}"
    if "x \<in> set vs \<union> set ws" for x
    using that assms by (intro hd_not_sep) (auto simp: list_all_iff)
  show "join '','' (map canonical_json_bytes vs) @ CHR '']'' # r =
      join '','' (map canonical_json_bytes ws) @ CHR '']'' # s" using eq by simp
qed simp

section \<open>Key order\<close>

lemma insort_key_map_snd:
  "insort_key fst (k, f v) (map (\<lambda>(k, v). (k, f v)) xs) = map (\<lambda>(k, v). (k, f v)) (insort_key fst (k, v) xs)"
  by (induction xs) auto

lemma sort_key_map_snd:
  "sort_key fst (map (\<lambda>(k, v). (k, f v)) xs) = map (\<lambda>(k, v). (k, f v)) (sort_key fst xs)"
  by (induction xs) (auto simp: insort_key_map_snd)

lemma sort_key_idem: "sort_key f (sort_key f xs) = sort_key f xs"
  by (simp add: sort_key_id)

lemma canonical_json_bytes_canon: "canonical_json_bytes (canon v) = canonical_json_bytes v"
proof (induction v rule: json_induct)
  case (Object kvs)
  let ?B = "map (\<lambda>(k, v). (k, canonical_json_bytes v))" and ?C = "map (\<lambda>(k, v). (k, canon v))"
  have "?B (?C kvs) = ?B kvs" using Object by auto
  moreover have "sort_key fst (?B (sort_key fst (?C kvs))) = sort_key fst (?B (?C kvs))"
    by (simp only: sort_key_map_snd sort_key_idem)
  ultimately show ?case by (simp only: canon.simps canonical_json_bytes.simps)
qed (simp_all cong: map_cong)

lemma wf_json_canon [simp]: "wf_json v \<Longrightarrow> wf_json (canon v)"
  by (induction v rule: json_induct) (auto simp: list_all_iff)

lemma sorted_json_canon [simp]: "wf_json v \<Longrightarrow> sorted_json (canon v)"
  by (induction v rule: json_induct) (auto simp: list_all_iff sort_key_map_snd strictly_sorted_keys)

lemma canon_sorted: "sorted_json v \<Longrightarrow> canon v = v"
proof (induction v rule: json_induct)
  case (Object kvs)
  then have "map (\<lambda>(k, v). (k, canon v)) kvs = kvs" by (intro map_idI) (auto simp: list_all_iff)
  with Object.prems show ?case by (simp add: sort_key_fst_canonical)
qed (auto simp: list_all_iff intro: map_idI)

lemma canon_canon [simp]: "wf_json v \<Longrightarrow> canon (canon v) = canon v"
  by (simp add: canon_sorted)

theorem canonical_json_bytes_eq_iff:
  assumes "wf_json v" "wf_json w"
  shows "canonical_json_bytes v = canonical_json_bytes w \<longleftrightarrow> canon v = canon w"
  using assms dumps_cancel [of "canon v" "canon w" "[]" "[]"]
  by (metis append_Nil2 canonical_json_bytes_canon sep_next_simps(1) sorted_json_canon wf_json_canon)

lemma canonical_json_bytes_inj:
  "wf_json v \<Longrightarrow> wf_json w \<Longrightarrow> sorted_json v \<Longrightarrow> sorted_json w \<Longrightarrow>
   canonical_json_bytes v = canonical_json_bytes w \<Longrightarrow> v = w"
  by (simp add: canonical_json_bytes_eq_iff canon_sorted)

section \<open>Canonicalized values\<close>

definition wf_cjson :: "cjson \<Rightarrow> bool" where
  "wf_cjson c \<longleftrightarrow> wf_json (canonical_json_to_plain c) \<and> sorted_json (canonical_json_to_plain c)"

definition canonicalize_item :: "pykey \<times> pyvalue \<Rightarrow> (string \<times> cjson) result" where
  "canonicalize_item = (\<lambda>(k, v). case k of KeyStr s \<Rightarrow> try_in (canonicalize_json_value v) (\<lambda>c. Inr (s, c))
     | KeyOther \<Rightarrow> Inl (TypeError ''JSON object keys must be strings''))"

lemma canonicalize_item_Inr:
  "canonicalize_item x = Inr (s, d) \<longleftrightarrow> (\<exists>v. x = (KeyStr s, v) \<and> canonicalize_json_value v = Inr d)"
  by (cases x) (auto simp: canonicalize_item_def split_result split: pykey.splits)

lemma canonicalize_items_keys:
  "list_all2 (\<lambda>x y. canonicalize_item x = Inr y) items its \<Longrightarrow> keys items = map KeyStr (keys its)"
  by (induction rule: list_all2_induct) (auto simp: canonicalize_item_Inr)

lemma list_all2_right:
  "list_all2 R xs ys \<Longrightarrow> y \<in> set ys \<Longrightarrow> \<exists>x \<in> set xs. R x y"
  by (induction rule: list_all2_induct) auto

lemma canonicalize_wf:
  "wf_py v \<Longrightarrow> canonicalize_json_value v = Inr c \<Longrightarrow> wf_cjson c"
proof (induction v arbitrary: c rule: canonicalize_json_value.induct)
  case (6 items)
  from "6.prems" obtain its where its: "list_all2 (\<lambda>x y. canonicalize_item x = Inr y) items its"
    and c: "c = CanonicalObject (sort_key fst its)"
    by (auto simp: split_result traverse_Inr_iff canonicalize_item_def)
  have "wf_cjson d" if member: "(s, d) \<in> set its" for s d
  proof -
    obtain v where v: "(KeyStr s, v) \<in> set items" "canonicalize_json_value v = Inr d"
      using list_all2_right [OF its member] by (auto simp: canonicalize_item_Inr)
    then have "wf_py v" using "6.prems"(1) by (auto simp: list_all_iff)
    with v show ?thesis by (intro "6.IH") auto
  qed
  moreover have "distinct (keys its)"
    using canonicalize_items_keys [OF its] "6.prems"(1) by (metis distinct_map wf_py.simps(3))
  ultimately show ?case
    by (auto simp: c wf_cjson_def list_all_iff strictly_sorted_keys)
next
  case (7 items)
  then obtain its where its: "list_all2 (\<lambda>x y. canonicalize_json_value x = Inr y) items its"
    and c: "c = CanonicalArray its"
    by (auto simp: split_result traverse_Inr_iff)
  have "wf_cjson d" if member: "d \<in> set its" for d
  proof -
    obtain v where "v \<in> set items" "canonicalize_json_value v = Inr d"
      using list_all2_right [OF its member] by auto
    then show ?thesis using "7.IH" "7.prems"(1) by (auto simp: list_all_iff)
  qed
  then show ?case by (auto simp: c wf_cjson_def list_all_iff)
qed (auto simp: wf_cjson_def split: pyfloat.splits)


fun tag_json :: "json \<Rightarrow> cjson" where
  "tag_json JNull = CNull"
| "tag_json (JBool b) = CBool b"
| "tag_json (JInt i) = CInt i"
| "tag_json (JFloat t) = CFloat t"
| "tag_json (JStr s) = CStr s"
| "tag_json (JArray vs) = CanonicalArray (map tag_json vs)"
| "tag_json (JObject kvs) = CanonicalObject (map (\<lambda>(k, v). (k, tag_json v)) kvs)"

lemma tag_plain: "tag_json (canonical_json_to_plain c) = c"
  by (induction c rule: canonical_json_to_plain.induct) (auto intro: map_idI)

lemma canonical_json_to_plain_inj: "canonical_json_to_plain c = canonical_json_to_plain d \<Longrightarrow> c = d"
  by (metis tag_plain)

text \<open>On canonical values the fingerprint comparison of \<open>CanonicalObject.__eq__\<close> is equality.\<close>

theorem tagged_fingerprint_eq_iff:
  "wf_cjson c \<Longrightarrow> wf_cjson d \<Longrightarrow> tagged_fingerprint c = tagged_fingerprint d \<longleftrightarrow> c = d"
  by (auto simp: tagged_fingerprint_def canonical_value_fingerprint_def wf_cjson_def
      dest: canonical_json_bytes_inj canonical_json_to_plain_inj)

text \<open>Plain values read back as raw Python values.\<close>

fun py_of_json :: "json \<Rightarrow> pyvalue" where
  "py_of_json JNull = PyNone"
| "py_of_json (JBool b) = PyBool b"
| "py_of_json (JInt i) = PyInt i"
| "py_of_json (JFloat t) = PyFloat (Finite t)"
| "py_of_json (JStr s) = PyStr s"
| "py_of_json (JArray vs) = PyList (map py_of_json vs)"
| "py_of_json (JObject kvs) = PyDict (map (\<lambda>(k, v). (KeyStr k, py_of_json v)) kvs)"

lemma plain_tag_json [simp]: "canonical_json_to_plain (tag_json v) = v"
  by (induction v rule: json_induct) (auto intro: map_idI)

lemma traverse_map: "traverse f (map g xs) = traverse (f \<circ> g) xs"
  by (induction xs) auto

lemma canonicalize_py_of_json: "canonicalize_json_value (py_of_json v) = Inr (tag_json (canon v))"
proof (induction v rule: json_induct)
  case (Array vs)
  then show ?case
    by (simp add: traverse_map) (subst traverse_Inr_map [where g = "tag_json \<circ> canon"], auto)
next
  case (Object kvs)
  then have "traverse (canonicalize_item \<circ> (\<lambda>(k, v). (KeyStr k, py_of_json v))) kvs =
      Inr (map (\<lambda>(k, v). (k, tag_json (canon v))) kvs)"
    by (intro traverse_Inr_map) (auto simp: canonicalize_item_def)
  moreover have "map (\<lambda>(k, v). (k, tag_json (canon v))) kvs =
      map (\<lambda>(k, v). (k, tag_json v)) (map (\<lambda>(k, v). (k, canon v)) kvs)" by auto
  ultimately show ?case
    by (simp only: py_of_json.simps canonicalize_json_value.simps canonicalize_item_def [symmetric]
        traverse_map try_in_simps canon.simps tag_json.simps sort_key_map_snd)
qed auto

theorem normalize_py_of_json: "normalize_json_value (py_of_json v) = Inr (canon v)"
  by (simp add: normalize_json_value_def canonicalize_py_of_json)

lemma normalize_wf:
  "wf_py v \<Longrightarrow> normalize_json_value v = Inr j \<Longrightarrow> wf_json j \<and> sorted_json j"
  using canonicalize_wf by (auto simp: normalize_json_value_def split_result wf_cjson_def)

theorem normalize_idempotent:
  "wf_py v \<Longrightarrow> normalize_json_value v = Inr j \<Longrightarrow> normalize_json_value (py_of_json j) = Inr j"
  using normalize_wf by (auto simp: normalize_py_of_json canon_sorted)

section \<open>Content identities\<close>

record ContentIdentity =
  ci_algorithm :: string
  ci_hashing_contract_version :: string
  ci_digest :: string

definition content_identity_dict :: "ContentIdentity \<Rightarrow> json" where
  "content_identity_dict c = JObject
     [(''algorithm'', JStr (ci_algorithm c)), (''digest'', JStr (ci_digest c)),
      (''hashing_contract_version'', JStr (ci_hashing_contract_version c))]"

datatype identity_kind =
    Config | ConfigV2 | SnapshotId | MappingId | PolicyId | AuthorityId | PropertyObservationsId
  | PropertyConflictsId | RemoteStateId | TargetContextId | PlanId | PlanV2Id | GraphId
  | ImpactResultId | ReconciliationAssumptionsId | ExplainResultId | SnapshotComparisonId
  | DriftPolicyId | DriftResultId | HistoryId | HistoryEntryStateId | HistoryEvolutionId | CiReviewId

fun identity_name :: "identity_kind \<Rightarrow> string" where
  "identity_name Config = ''gov-config-v1''"
| "identity_name ConfigV2 = ''gov-config-v2''"
| "identity_name SnapshotId = ''gov-snapshot-v1''"
| "identity_name MappingId = ''gov-mapping-v1''"
| "identity_name PolicyId = ''gov-policy-v1''"
| "identity_name AuthorityId = ''gov-authority-v1''"
| "identity_name PropertyObservationsId = ''gov-property-observations-v1''"
| "identity_name PropertyConflictsId = ''gov-property-conflicts-v1''"
| "identity_name RemoteStateId = ''gov-remote-state-v1''"
| "identity_name TargetContextId = ''gov-target-context-v1''"
| "identity_name PlanId = ''gov-plan-v1''"
| "identity_name PlanV2Id = ''gov-plan-v2''"
| "identity_name GraphId = ''gov-graph-v1''"
| "identity_name ImpactResultId = ''gov-impact-result-v1''"
| "identity_name ReconciliationAssumptionsId = ''gov-reconciliation-assumptions-v1''"
| "identity_name ExplainResultId = ''gov-explain-result-v1''"
| "identity_name SnapshotComparisonId = ''gov-snapshot-comparison-v1''"
| "identity_name DriftPolicyId = ''gov-drift-policy-v1''"
| "identity_name DriftResultId = ''gov-drift-result-v1''"
| "identity_name HistoryId = ''gov-history-v1''"
| "identity_name HistoryEntryStateId = ''gov-history-entry-state-v1''"
| "identity_name HistoryEvolutionId = ''gov-history-evolution-v1''"
| "identity_name CiReviewId = ''gov-ci-review-v1''"

definition identity_prefix :: "identity_kind \<Rightarrow> string" where
  "identity_prefix k = identity_name k @ [CHR 0x0A]"

text \<open>The bytes that are hashed; \<open>sha\<close> stands for \<open>hashlib.sha256(...).hexdigest()\<close>.\<close>

definition identity_preimage :: "identity_kind \<Rightarrow> json \<Rightarrow> string" where
  "identity_preimage k payload = identity_prefix k @ canonical_json_bytes payload"

definition sha256_identity :: "(string \<Rightarrow> string) \<Rightarrow> identity_kind \<Rightarrow> json \<Rightarrow> ContentIdentity" where
  "sha256_identity sha k payload =
     \<lparr>ci_algorithm = ''sha256'', ci_hashing_contract_version = ''1'',
      ci_digest = sha (identity_preimage k payload)\<rparr>"

text \<open>\<open>plan_identity\<close> picks the prefix from the plan version and refuses any other version.\<close>

definition plan_identity :: "(string \<Rightarrow> string) \<Rightarrow> string \<Rightarrow> json \<Rightarrow> ContentIdentity result" where
  "plan_identity sha plan_version payload =
     (if plan_version = ''1'' then Inr (sha256_identity sha PlanId payload)
      else if plan_version = ''2'' then Inr (sha256_identity sha PlanV2Id payload)
      else Inl (ValueError ''unsupported plan_version for plan_identity''))"

lemma identity_name_no_newline: "CHR 0x0A \<notin> set (identity_name k)"
  by (cases k) simp_all

lemma identity_name_inj: "identity_name k = identity_name l \<Longrightarrow> k = l"
  by (cases k; cases l) simp_all

lemma identity_prefix_cancel:
  assumes "identity_prefix k @ p = identity_prefix l @ q" shows "k = l \<and> p = q"
proof -
  have tw: "takeWhile (\<lambda>c. c \<noteq> CHR 0x0A) (identity_prefix k @ p) = identity_name k" for k p
    using identity_name_no_newline [of k]
    by (simp add: identity_prefix_def) (subst takeWhile_append2, auto)
  have "identity_name k = identity_name l" using tw [of k p] tw [of l q] assms by simp
  with assms show ?thesis by (auto dest: identity_name_inj)
qed

theorem identity_preimage_eq_iff:
  "wf_json p \<Longrightarrow> wf_json q \<Longrightarrow>
   identity_preimage k p = identity_preimage l q \<longleftrightarrow> k = l \<and> canon p = canon q"
  by (auto simp: identity_preimage_def canonical_json_bytes_eq_iff dest: identity_prefix_cancel)

section \<open>Reading dictionaries\<close>

text \<open>\<open>payload[key]\<close>, \<open>payload.get(key)\<close> and \<open>payload.get(key, default)\<close> of a parsed object.\<close>

definition item :: "(string \<times> json) list \<Rightarrow> string \<Rightarrow> json result" where
  "item payload key = (case map_of payload key of None \<Rightarrow> Inl (KeyError key) | Some v \<Rightarrow> Inr v)"

definition get_item :: "(string \<times> json) list \<Rightarrow> string \<Rightarrow> json" where
  "get_item payload key = (case map_of payload key of None \<Rightarrow> JNull | Some v \<Rightarrow> v)"

definition get_or :: "(string \<times> json) list \<Rightarrow> string \<Rightarrow> json \<Rightarrow> json" where
  "get_or payload key fallback = (case map_of payload key of None \<Rightarrow> fallback | Some v \<Rightarrow> v)"

end
