(* ===== verification/Merge.thy ===== *)
theory Merge
  imports Prelude
begin

text \<open>
  The merge pattern of the domain layer. Graph nodes, graph edges, property observations and
  authority rules are all normalized the same way: group the items by an identity in a dictionary,
  replace every group by its first member with the union of the members' parts (provenance records,
  declarations), deduplicated and sorted, and sort the merged items by the canonical bytes of the
  identity (or of the whole item). \<open>merge_group\<close> and \<open>merged_by\<close> are that pattern; the locale \<open>keyed_merge\<close> states what
  the items must satisfy and proves once that the result does not depend on the order or the
  multiplicity of the inputs, that it is a normal form, and that merging is associative.
\<close>

definition merge_group ::
  "('p \<Rightarrow> 'q::linorder) \<Rightarrow> ('a \<Rightarrow> 'p list) \<Rightarrow> ('p list \<Rightarrow> 'a \<Rightarrow> 'a) \<Rightarrow> 'a list \<Rightarrow> 'a" where
  "merge_group pkey parts with_parts g =
     with_parts (canon_set pkey (concat (map parts g))) (hd g)"

definition merged_by ::
  "('p \<Rightarrow> 'q::linorder) \<Rightarrow> ('a \<Rightarrow> 'i) \<Rightarrow> ('a \<Rightarrow> 's::linorder) \<Rightarrow> ('a \<Rightarrow> 'p list) \<Rightarrow>
   ('p list \<Rightarrow> 'a \<Rightarrow> 'a) \<Rightarrow> 'a list \<Rightarrow> 'a list" where
  "merged_by pkey ident skey parts with_parts xs =
     sort_key skey
       (map (\<lambda>(k, g). merge_group pkey parts with_parts g) (group_by ident xs))"

definition compatible_by :: "('a \<Rightarrow> 'i) \<Rightarrow> ('p list \<Rightarrow> 'a \<Rightarrow> 'a) \<Rightarrow> 'a list \<Rightarrow> bool" where
  "compatible_by ident with_parts xs \<longleftrightarrow>
     (\<forall>x \<in> set xs. \<forall>y \<in> set xs. ident x = ident y \<longrightarrow> with_parts [] x = with_parts [] y)"

definition normal_by ::
  "('p \<Rightarrow> 'q::linorder) \<Rightarrow> ('a \<Rightarrow> 'i) \<Rightarrow> ('a \<Rightarrow> 's::linorder) \<Rightarrow> ('a \<Rightarrow> 'p list) \<Rightarrow> 'a list \<Rightarrow> bool" where
  "normal_by pkey ident skey parts xs \<longleftrightarrow>
     sorted_wrt (<) (map skey xs) \<and> distinct (map ident xs) \<and>
     list_all (\<lambda>x. sorted_wrt (<) (map pkey (parts x))) xs"

lemma compatible_by_cong:
  "set xs = set ys \<Longrightarrow> compatible_by ident wp xs = compatible_by ident wp ys"
  by (simp add: compatible_by_def)

lemma compatible_byD:
  "compatible_by ident wp xs \<Longrightarrow> x \<in> set xs \<Longrightarrow> y \<in> set xs \<Longrightarrow> ident x = ident y \<Longrightarrow> wp [] x = wp [] y"
  unfolding compatible_by_def by blast

lemma filter_distinct_key:
  "x \<in> set xs \<Longrightarrow> distinct (map f xs) \<Longrightarrow> filter (\<lambda>y. f y = f x) xs = [x]"
proof (induction xs)
  case (Cons a xs)
  show ?case
  proof (cases "x = a")
    case True
    have "filter (\<lambda>y. f y = f a) xs = []"
      using Cons.prems(2) by (auto simp: filter_empty_conv image_iff)
    with True show ?thesis by simp
  next
    case False
    with Cons show ?thesis by (auto simp: image_iff)
  qed
qed simp

text \<open>All members of a group must agree with the first one, which is what the code checks.\<close>

lemma compatible_by_groups:
  "compatible_by ident wp xs \<longleftrightarrow>
   (\<forall>(k, g) \<in> set (group_by ident xs). \<forall>y \<in> set g. wp [] y = wp [] (hd g))"
proof
  assume c: "compatible_by ident wp xs"
  have "wp [] y = wp [] (hd g)" if m: "(k, g) \<in> set (group_by ident xs)" "y \<in> set g" for k g y
  proof -
    have "hd g \<in> set g" using m(2) by (cases g) auto
    then show ?thesis using m c by (auto simp: group_by_member intro: compatible_byD)
  qed
  then show "\<forall>(k, g) \<in> set (group_by ident xs). \<forall>y \<in> set g. wp [] y = wp [] (hd g)" by blast
next
  assume h: "\<forall>(k, g) \<in> set (group_by ident xs). \<forall>y \<in> set g. wp [] y = wp [] (hd g)"
  have "wp [] x = wp [] y" if m: "x \<in> set xs" "y \<in> set xs" "ident x = ident y" for x y
  proof -
    let ?g = "filter (\<lambda>z. ident z = ident x) xs"
    have "(ident x, ?g) \<in> set (group_by ident xs)" using m by (auto simp: group_by_member)
    with h have "\<forall>z \<in> set ?g. wp [] z = wp [] (hd ?g)" by fast
    moreover have "x \<in> set ?g" "y \<in> set ?g" using m by auto
    ultimately show ?thesis by metis
  qed
  then show "compatible_by ident wp xs" unfolding compatible_by_def by blast
qed

text \<open>A loop over the groups that merges each of them, and may raise, computes \<open>merged_by\<close>.\<close>

lemma traverse_groups:
  assumes "\<And>k g y. (k, g) \<in> set (group_by ident xs) \<Longrightarrow>
    f (k, g) = Inr y \<longleftrightarrow> P k \<and> (\<forall>z \<in> set g. wp [] z = wp [] (hd g)) \<and> y = merge_group pkey parts wp g"
  shows "traverse f (group_by ident xs) = Inr ys \<longleftrightarrow>
    (\<forall>x \<in> set xs. P (ident x)) \<and> compatible_by ident wp xs \<and>
    ys = map (\<lambda>(k, g). merge_group pkey parts wp g) (group_by ident xs)"
proof -
  let ?ok = "\<lambda>(k, g). P k \<and> (\<forall>z \<in> set g. wp [] z = wp [] (hd g))"
  have "f p = Inr y \<longleftrightarrow> ?ok p \<and> y = (\<lambda>(k, g). merge_group pkey parts wp g) p"
    if "p \<in> set (group_by ident xs)" for p y
    using assms [of "fst p" "snd p" y] that by (simp add: case_prod_beta)
  then have "traverse f (group_by ident xs) = Inr ys \<longleftrightarrow> (\<forall>p \<in> set (group_by ident xs). ?ok p) \<and>
      ys = map (\<lambda>(k, g). merge_group pkey parts wp g) (group_by ident xs)"
    by (rule traverse_Inr_when)
  moreover have "(\<forall>x \<in> set xs. P (ident x)) \<longleftrightarrow> (\<forall>p \<in> set (group_by ident xs). P (fst p))"
    by (simp add: group_by_eq)
  ultimately show ?thesis unfolding compatible_by_groups by (simp add: case_prod_beta ball_conj_distrib)
qed

locale keyed_merge = canonical_key pkey pvalid
  for pkey :: "'p \<Rightarrow> 'q::linorder" and pvalid :: "'p \<Rightarrow> bool" +
  fixes ident :: "'a \<Rightarrow> 'i" and skey :: "'a \<Rightarrow> 's::linorder"
    and parts :: "'a \<Rightarrow> 'p list" and with_parts :: "'p list \<Rightarrow> 'a \<Rightarrow> 'a" and good :: "'a \<Rightarrow> bool"
  assumes skey_inj: "good x \<Longrightarrow> good y \<Longrightarrow> skey x = skey y \<Longrightarrow> ident x = ident y"
    and good_parts: "good x \<Longrightarrow> list_all pvalid (parts x)"
    and good_with: "good x \<Longrightarrow> list_all pvalid ps \<Longrightarrow> ps \<noteq> [] \<or> parts x = [] \<Longrightarrow> good (with_parts ps x)"
    and ident_with: "ident (with_parts ps x) = ident x"
    and parts_with: "parts (with_parts ps x) = ps"
    and with_with: "with_parts ps (with_parts qs x) = with_parts ps x"
    and with_own: "with_parts (parts x) x = x"
begin

lemma with_cong: "with_parts [] x = with_parts [] y \<Longrightarrow> with_parts ps x = with_parts ps y"
  by (metis with_with)

lemma group_members: "(k, g) \<in> set (group_by ident xs) \<Longrightarrow> g \<noteq> [] \<and> hd g \<in> set xs \<and> ident (hd g) = k"
proof -
  assume m: "(k, g) \<in> set (group_by ident xs)"
  have "g \<noteq> []" by (rule group_by_nonempty [OF m])
  moreover have "set g = {x \<in> set xs. ident x = k}" using m by (auto simp: group_by_member)
  ultimately show ?thesis using hd_in_set [of g] by auto
qed

lemma ident_merge_group: "(k, g) \<in> set (group_by ident xs) \<Longrightarrow> ident (merge_group pkey parts with_parts g) = k"
  using group_members by (auto simp: merge_group_def ident_with)

lemma idents_merged:
  "map ident (map (\<lambda>(k, g). merge_group pkey parts with_parts g) (group_by ident xs)) = unique (map ident xs)"
proof -
  have "map (\<lambda>(k, g). ident (merge_group pkey parts with_parts g)) (group_by ident xs) = keys (group_by ident xs)"
    by (rule map_cong) (auto simp: ident_merge_group)
  then show ?thesis by (simp add: keys_group_by comp_def case_prod_beta')
qed

lemma set_merged: "set (merged_by pkey ident skey parts with_parts xs) =
    (\<lambda>k. merge_group pkey parts with_parts (filter (\<lambda>x. ident x = k) xs)) ` ident ` set xs"
  by (auto simp: merged_by_def group_by_eq)

lemma ident_set_merged: "ident ` set (merged_by pkey ident skey parts with_parts xs) = ident ` set xs"
proof -
  have "ident ` set (merged_by pkey ident skey parts with_parts xs) =
      set (map ident (map (\<lambda>(k, g). merge_group pkey parts with_parts g) (group_by ident xs)))"
    by (simp add: merged_by_def image_image)
  then show ?thesis by (simp only: idents_merged set_unique set_map)
qed

lemma distinct_idents_merged: "distinct (map ident (merged_by pkey ident skey parts with_parts xs))"
  unfolding merged_by_def distinct_map_sort_key by (simp only: idents_merged distinct_unique)

lemma good_merged:
  assumes "list_all good xs" "y \<in> set (merged_by pkey ident skey parts with_parts xs)"
  shows "good y"
proof -
  obtain k where k: "k \<in> ident ` set xs"
    and y: "y = merge_group pkey parts with_parts (filter (\<lambda>x. ident x = k) xs)"
    using assms(2) by (auto simp: set_merged)
  let ?g = "filter (\<lambda>x. ident x = k) xs"
  have g: "?g \<noteq> []" "list_all good ?g" using k assms(1) by (auto simp: filter_empty_conv list_all_iff)
  then have "good (hd ?g)" "hd ?g \<in> set ?g" by (auto simp: list_all_iff simp del: set_filter)
  moreover have "list_all pvalid (concat (map parts ?g))"
    using g good_parts by (auto simp: list_all_iff)
  ultimately show ?thesis
    unfolding y merge_group_def by (intro good_with) (auto simp: list_all_iff)
qed

lemma inj_skey_merged:
  assumes "list_all good xs"
  shows "inj_on skey (set (merged_by pkey ident skey parts with_parts xs))"
proof (rule inj_onI)
  fix x y assume xy: "x \<in> set (merged_by pkey ident skey parts with_parts xs)"
    "y \<in> set (merged_by pkey ident skey parts with_parts xs)" "skey x = skey y"
  then have "ident x = ident y" using good_merged [OF assms] skey_inj by blast
  with xy(1,2) distinct_idents_merged [of xs] show "x = y" by (simp add: distinct_map inj_on_def)
qed

lemma sorted_merged:
  assumes "list_all good xs"
  shows "sorted_wrt (<) (map skey (merged_by pkey ident skey parts with_parts xs))"
proof -
  have "distinct (map skey (merged_by pkey ident skey parts with_parts xs))"
    using inj_skey_merged [OF assms] distinct_idents_merged [of xs]
    by (simp add: distinct_map)
  then show ?thesis by (simp add: strict_sorted_iff) (simp add: merged_by_def)
qed

lemma parts_merged:
  "y \<in> set (merged_by pkey ident skey parts with_parts xs) \<Longrightarrow>
   parts y = canon_set pkey (concat (map parts (filter (\<lambda>x. ident x = ident y) xs)))"
proof -
  assume "y \<in> set (merged_by pkey ident skey parts with_parts xs)"
  then obtain k g where kg: "(k, g) \<in> set (group_by ident xs)" "y = merge_group pkey parts with_parts g"
    by (auto simp: merged_by_def)
  then have "ident y = k" by (simp add: ident_merge_group)
  moreover have "g = filter (\<lambda>x. ident x = k) xs" using kg(1) by (simp add: group_by_member)
  ultimately show ?thesis using kg(2) by (simp add: merge_group_def parts_with)
qed

text \<open>Only the parts of a merged item are new: the rest is what all its occurrences agree on.\<close>

lemma merged_content:
  assumes "compatible_by ident with_parts xs" "y \<in> set (merged_by pkey ident skey parts with_parts xs)"
    and "x \<in> set xs" "ident x = ident y"
  shows "with_parts (parts y) x = y"
proof -
  obtain k g where kg: "(k, g) \<in> set (group_by ident xs)" "y = merge_group pkey parts with_parts g"
    using assms(2) by (auto simp: merged_by_def)
  then have hd: "hd g \<in> set xs" "ident (hd g) = ident y" using group_members ident_merge_group by fastforce+
  have "with_parts [] x = with_parts [] (hd g)"
    by (rule compatible_byD [OF assms(1,3) hd(1)]) (simp add: assms(4) hd(2))
  from with_cong [OF this] show ?thesis using kg(2) by (simp add: merge_group_def parts_with)
qed

lemma normal_merged:
  assumes "list_all good xs"
  shows "normal_by pkey ident skey parts (merged_by pkey ident skey parts with_parts xs)"
proof -
  have "sorted_wrt (<) (map pkey (parts y))" if "y \<in> set (merged_by pkey ident skey parts with_parts xs)" for y
    unfolding parts_merged [OF that]
    using assms good_parts by (intro strictly_sorted_canon_set) (auto simp: list_all_iff)
  then show ?thesis using sorted_merged [OF assms] distinct_idents_merged [of xs] by (simp add: normal_by_def list_all_iff)
qed

lemma merge_group_cong:
  assumes "list_all good xs" "compatible_by ident with_parts xs" "set xs = set ys" "k \<in> ident ` set xs"
  shows "merge_group pkey parts with_parts (filter (\<lambda>x. ident x = k) xs) =
         merge_group pkey parts with_parts (filter (\<lambda>x. ident x = k) ys)"
proof -
  let ?f = "filter (\<lambda>x. ident x = k)"
  have sets: "set (?f xs) = set (?f ys)" and ne: "?f xs \<noteq> []" "?f ys \<noteq> []"
    using assms(3,4) by (auto simp: filter_empty_conv)
  then have hds: "hd (?f xs) \<in> set (?f xs)" "hd (?f ys) \<in> set (?f xs)"
    using hd_in_set by (blast, metis hd_in_set)
  then have "with_parts [] (hd (?f xs)) = with_parts [] (hd (?f ys))"
    using assms(2) by (auto intro: compatible_byD)
  moreover have "canon_set pkey (concat (map parts (?f xs))) = canon_set pkey (concat (map parts (?f ys)))"
    using assms(1,3) good_parts by (intro canon_set_cong) (auto simp: list_all_iff)
  ultimately show ?thesis unfolding merge_group_def by (metis with_cong)
qed

lemma merged_cong:
  assumes "list_all good xs" "compatible_by ident with_parts xs" "set xs = set ys"
  shows "merged_by pkey ident skey parts with_parts xs = merged_by pkey ident skey parts with_parts ys"
proof -
  let ?m = "\<lambda>xs. map (\<lambda>(k, g). merge_group pkey parts with_parts g) (group_by ident xs)"
  have "set (?m xs) = set (?m ys)"
    using merge_group_cong [OF assms] assms(3) by (force simp: group_by_eq image_iff)
  moreover have "distinct (?m zs)" for zs
    using idents_merged [of zs] by (metis distinct_map distinct_unique)
  ultimately have "mset (?m xs) = mset (?m ys)" by (intro mset_eq_distinct)
  moreover have "inj_on skey (set (?m xs))"
    using inj_skey_merged [OF assms(1)] by (simp add: merged_by_def)
  ultimately show ?thesis unfolding merged_by_def by (rule sort_key_perm)
qed

lemma merged_normal:
  assumes "normal_by pkey ident skey parts xs"
  shows "merged_by pkey ident skey parts with_parts xs = xs"
proof -
  have srt: "sorted_wrt (<) (map skey xs)" and dist: "distinct (map ident xs)"
    and ps: "\<And>x. x \<in> set xs \<Longrightarrow> sorted_wrt (<) (map pkey (parts x))"
    using assms by (auto simp: normal_by_def list_all_iff)
  have "merge_group pkey parts with_parts (filter (\<lambda>y. ident y = ident x) xs) = x" if x: "x \<in> set xs" for x
  proof -
    have "filter (\<lambda>y. ident y = ident x) xs = [x]"
      using x dist by (rule filter_distinct_key)
    then show ?thesis
      using ps [OF x] by (simp add: merge_group_def canon_set_canonical with_own)
  qed
  then have "map (\<lambda>k. merge_group pkey parts with_parts (filter (\<lambda>y. ident y = k) xs)) (map ident xs) = xs"
    by (auto intro: map_idI)
  then have "map (\<lambda>(k, g). merge_group pkey parts with_parts g) (group_by ident xs) = xs"
    by (simp add: group_by_eq unique_distinct [OF dist] comp_def)
  then show ?thesis
    unfolding merged_by_def using srt by (simp add: sort_key_id strict_sorted_iff)
qed

lemma merged_idem:
  "list_all good xs \<Longrightarrow>
   merged_by pkey ident skey parts with_parts (merged_by pkey ident skey parts with_parts xs) =
   merged_by pkey ident skey parts with_parts xs"
  by (rule merged_normal) (rule normal_merged)

text \<open>Merging in two rounds gives what merging at once gives.\<close>

lemma merged_filter:
  "k \<in> ident ` set xs \<Longrightarrow> filter (\<lambda>x. ident x = k) (merged_by pkey ident skey parts with_parts xs) =
    [merge_group pkey parts with_parts (filter (\<lambda>x. ident x = k) xs)]"
proof -
  assume k: "k \<in> ident ` set xs"
  let ?y = "merge_group pkey parts with_parts (filter (\<lambda>x. ident x = k) xs)"
  have y: "?y \<in> set (merged_by pkey ident skey parts with_parts xs)" using k by (auto simp: set_merged)
  have "ident ?y = k" using k by (intro ident_merge_group) (auto simp: group_by_member)
  then show ?thesis using filter_distinct_key [OF y distinct_idents_merged] by simp
qed

lemma merge_group_append:
  assumes "list_all good xs" "list_all good ys" "k \<in> ident ` set (xs @ ys)"
  shows "merge_group pkey parts with_parts
      (filter (\<lambda>x. ident x = k) (merged_by pkey ident skey parts with_parts xs @ ys)) =
    merge_group pkey parts with_parts (filter (\<lambda>x. ident x = k) (xs @ ys))"
proof (cases "k \<in> ident ` set xs")
  case True
  let ?f = "filter (\<lambda>x. ident x = k)"
  have ne: "?f xs \<noteq> []" using True by (auto simp: filter_empty_conv)
  have "canon_set pkey (canon_set pkey (concat (map parts (?f xs))) @ concat (map parts (?f ys))) =
      canon_set pkey (concat (map parts (?f xs)) @ concat (map parts (?f ys)))"
    using assms(1,2) good_parts by (intro canon_set_cong) (auto simp: list_all_iff)
  with ne show ?thesis
    by (simp add: merged_filter [OF True]) (simp add: merge_group_def parts_with with_with)
next
  case False
  then have "filter (\<lambda>x. ident x = k) xs = []" by (auto simp: filter_empty_conv)
  moreover have "filter (\<lambda>x. ident x = k) (merged_by pkey ident skey parts with_parts xs) = []"
    using False ident_set_merged [of xs] by (auto simp: filter_empty_conv)
  ultimately show ?thesis by simp
qed

lemma merged_append:
  assumes "list_all good xs" "list_all good ys"
  shows "merged_by pkey ident skey parts with_parts (merged_by pkey ident skey parts with_parts xs @ ys) =
    merged_by pkey ident skey parts with_parts (xs @ ys)"
proof -
  let ?m = "\<lambda>xs. map (\<lambda>(k, g). merge_group pkey parts with_parts g) (group_by ident xs)"
  let ?l = "merged_by pkey ident skey parts with_parts xs @ ys"
  have ids: "ident ` set ?l = ident ` set (xs @ ys)" using ident_set_merged [of xs] by (simp add: image_Un)
  have "set (?m zs) = (\<lambda>k. merge_group pkey parts with_parts (filter (\<lambda>x. ident x = k) zs)) ` ident ` set zs"
    for zs by (auto simp: group_by_eq)
  moreover have "(\<lambda>k. merge_group pkey parts with_parts (filter (\<lambda>x. ident x = k) ?l)) ` ident ` set ?l =
      (\<lambda>k. merge_group pkey parts with_parts (filter (\<lambda>x. ident x = k) (xs @ ys))) ` ident ` set (xs @ ys)"
    unfolding ids by (rule image_cong [OF refl]) (rule merge_group_append [OF assms])
  ultimately have "set (?m ?l) = set (?m (xs @ ys))" by (simp only:)
  moreover have "distinct (?m zs)" for zs
    using idents_merged [of zs] by (metis distinct_map distinct_unique)
  ultimately have "mset (?m ?l) = mset (?m (xs @ ys))" by (intro mset_eq_distinct)
  moreover have "list_all good ?l" using good_merged [OF assms(1)] assms(2) by (auto simp: list_all_iff)
  then have "inj_on skey (set (merged_by pkey ident skey parts with_parts ?l))"
    by (rule inj_skey_merged)
  then have "inj_on skey (set (?m ?l))"
    by (subst (asm) (1) merged_by_def) (simp only: set_sort)
  ultimately have "sort_key skey (?m ?l) = sort_key skey (?m (xs @ ys))"
    by (rule sort_key_perm)
  then show ?thesis by (simp only: merged_by_def [symmetric])
qed

end

end
