(* ===== verification/Graph.thy ===== *)
theory Graph
  imports Json Merge
begin

text \<open>
  \<open>domain/graph.py\<close>: node identities, provenance records, nodes, edges, and the normalization that every
  \<open>GovernanceGraph\<close> goes through. A constructor with its \<open>__post_init__\<close> checks is a function \<open>mk_...\<close>
  that returns the value or the exception; the type tests (\<open>isinstance\<close>) are the HOL types. The
  invariants the constructors establish are the \<open>wf_...\<close> predicates; \<open>wf_graph\<close> is the normal form of
  a graph, and the interpretations of \<open>keyed_merge\<close> at the end of the theory carry its theorems.
\<close>

section \<open>Identities\<close>

datatype GraphNodeIdentity =
  GraphNodeIdentity (gi_namespace: string) (gi_kind: string) (gi_logical_id: string)
    (gi_parent: "GraphNodeIdentity option")

definition NODE_KIND_DATA_SOURCE :: string where "NODE_KIND_DATA_SOURCE = ''data_source''"
definition NODE_KIND_DATASET :: string where "NODE_KIND_DATASET = ''dataset''"
definition NODE_KIND_TABLE :: string where "NODE_KIND_TABLE = ''table''"
definition NODE_KIND_COLUMN :: string where "NODE_KIND_COLUMN = ''column''"
definition NODE_KIND_CONTRACT :: string where "NODE_KIND_CONTRACT = ''contract''"
definition NODE_KIND_TRANSFORMATION :: string where "NODE_KIND_TRANSFORMATION = ''transformation''"
definition EDGE_KIND_CONTAINS :: string where "EDGE_KIND_CONTAINS = ''contains''"
definition EDGE_KIND_DEPENDS_ON :: string where "EDGE_KIND_DEPENDS_ON = ''depends_on''"
definition EDGE_KIND_GOVERNS :: string where "EDGE_KIND_GOVERNS = ''governs''"

lemmas kind_defs = NODE_KIND_DATA_SOURCE_def NODE_KIND_DATASET_def NODE_KIND_TABLE_def
  NODE_KIND_COLUMN_def NODE_KIND_CONTRACT_def NODE_KIND_TRANSFORMATION_def
  EDGE_KIND_CONTAINS_def EDGE_KIND_DEPENDS_ON_def EDGE_KIND_GOVERNS_def

definition require_non_empty_str :: "string \<Rightarrow> string \<Rightarrow> string result" where
  "require_non_empty_str value field_name =
     (if strip value = [] then Inl (ValueError (field_name @ '' is required'')) else Inr (strip value))"

definition mk_node_identity ::
  "string \<Rightarrow> string \<Rightarrow> string \<Rightarrow> GraphNodeIdentity option \<Rightarrow> GraphNodeIdentity result" where
  "mk_node_identity namespace kind logical_id parent =
     try_in (require_non_empty_str namespace ''namespace'') (\<lambda>ns.
     try_in (require_non_empty_str kind ''kind'') (\<lambda>k.
     try_in (require_non_empty_str logical_id ''logical_id'') (\<lambda>l.
       if k = NODE_KIND_COLUMN \<and> parent = None
       then Inl (ValueError ''column identity requires parent'')
       else Inr (GraphNodeIdentity ns k l parent))))"

fun to_canonical_list :: "GraphNodeIdentity \<Rightarrow> json" where
  "to_canonical_list (GraphNodeIdentity ns k l p) =
     JArray [JStr ns, JStr k, JStr l, (case p of None \<Rightarrow> JNull | Some q \<Rightarrow> to_canonical_list q)]"

definition canonical_bytes :: "GraphNodeIdentity \<Rightarrow> string" where
  "canonical_bytes i = canonical_json_bytes (to_canonical_list i)"

fun identity_to_dict :: "GraphNodeIdentity \<Rightarrow> json" where
  "identity_to_dict (GraphNodeIdentity ns k l p) =
     JObject [(''kind'', JStr k), (''logical_id'', JStr l), (''namespace'', JStr ns),
       (''parent'', (case p of None \<Rightarrow> JNull | Some q \<Rightarrow> identity_to_dict q))]"

text \<open>The loop over the parents, with the set of identities already seen.\<close>

function ancestors_loop :: "GraphNodeIdentity option \<Rightarrow> GraphNodeIdentity list \<Rightarrow> GraphNodeIdentity list" where
  "ancestors_loop None seen = []"
| "ancestors_loop (Some c) seen =
     (if c \<in> set seen then [] else c # ancestors_loop (gi_parent c) (c # seen))"
  by pat_completeness auto
termination
  by (relation "measure (\<lambda>(c, seen). size_option size c)") (simp, case_tac c, simp)

definition ancestors :: "GraphNodeIdentity \<Rightarrow> GraphNodeIdentity list" where
  "ancestors i = ancestors_loop (gi_parent i) []"

section \<open>Provenance\<close>

record ProvenanceRecord =
  pr_provider_type :: string
  pr_source_ref :: string
  pr_source_version :: "string option"
  pr_observation_mode :: string

definition OBSERVATION_MODES :: "string list" where
  "OBSERVATION_MODES = [''declared'', ''observed'', ''derived'']"

definition mk_provenance :: "string \<Rightarrow> string \<Rightarrow> string option \<Rightarrow> string \<Rightarrow> ProvenanceRecord result" where
  "mk_provenance provider_type source_ref source_version observation_mode =
     try_in (require_non_empty_str provider_type ''provider_type'') (\<lambda>p.
     try_in (require_non_empty_str source_ref ''source_ref'') (\<lambda>s.
     try_in (case source_version of
               None \<Rightarrow> Inr None
             | Some v \<Rightarrow> if strip v = []
                 then Inl (ValueError ''source_version must be None or a non-empty string'')
                 else Inr (Some (strip v))) (\<lambda>v.
     try_in (require_non_empty_str observation_mode ''observation_mode'') (\<lambda>m.
       if m \<notin> set OBSERVATION_MODES
       then Inl (ValueError ''observation_mode must be one of: declared, observed, derived'')
       else Inr \<lparr>pr_provider_type = p, pr_source_ref = s, pr_source_version = v,
                 pr_observation_mode = m\<rparr>))))"

definition opt_str :: "string option \<Rightarrow> json" where
  "opt_str v = (case v of None \<Rightarrow> JNull | Some s \<Rightarrow> JStr s)"

definition provenance_canonical_list :: "ProvenanceRecord \<Rightarrow> json" where
  "provenance_canonical_list r = JArray [JStr (pr_provider_type r), JStr (pr_source_ref r),
     opt_str (pr_source_version r), JStr (pr_observation_mode r)]"

definition canonical_sort_key :: "ProvenanceRecord \<Rightarrow> string" where
  "canonical_sort_key r = canonical_json_bytes (provenance_canonical_list r)"

definition provenance_to_dict :: "ProvenanceRecord \<Rightarrow> json" where
  "provenance_to_dict r = JObject [(''observation_mode'', JStr (pr_observation_mode r)),
     (''provider_type'', JStr (pr_provider_type r)), (''source_ref'', JStr (pr_source_ref r)),
     (''source_version'', opt_str (pr_source_version r))]"

definition merge_provenance :: "ProvenanceRecord list \<Rightarrow> ProvenanceRecord list" where
  "merge_provenance records = canon_set canonical_sort_key records"

section \<open>Nodes and edges\<close>

record GraphNode =
  gn_identity :: GraphNodeIdentity
  gn_name :: string
  gn_description :: "string option"
  gn_attributes :: cjson
  gn_provenance :: "ProvenanceRecord list"

definition mk_graph_node ::
  "GraphNodeIdentity \<Rightarrow> string \<Rightarrow> string option \<Rightarrow> attributes_arg \<Rightarrow> ProvenanceRecord list \<Rightarrow> GraphNode result" where
  "mk_graph_node identity name description attributes provenance =
     try_in (require_non_empty_str name ''name'') (\<lambda>n.
     try_in (canonicalize_attributes_object attributes) (\<lambda>a.
       Inr \<lparr>gn_identity = identity, gn_name = n, gn_description = description, gn_attributes = a,
            gn_provenance = merge_provenance provenance\<rparr>))"

text \<open>\<open>material_payload() == material_payload()\<close>: the attributes are compared by fingerprint.\<close>

definition same_material_payload :: "GraphNode \<Rightarrow> GraphNode \<Rightarrow> bool" where
  "same_material_payload a b \<longleftrightarrow> gn_name a = gn_name b \<and> gn_description a = gn_description b \<and>
     tagged_fingerprint (gn_attributes a) = tagged_fingerprint (gn_attributes b)"

definition node_to_dict :: "GraphNode \<Rightarrow> json" where
  "node_to_dict n = JObject [(''attributes'', canonical_json_to_plain (gn_attributes n)),
     (''description'', opt_str (gn_description n)), (''identity'', identity_to_dict (gn_identity n)),
     (''name'', JStr (gn_name n)), (''provenance'', JArray (map provenance_to_dict (gn_provenance n)))]"

type_synonym logical_edge = "GraphNodeIdentity \<times> string \<times> GraphNodeIdentity"

record GraphEdge =
  ge_source :: GraphNodeIdentity
  ge_target :: GraphNodeIdentity
  ge_kind :: string
  ge_attributes :: cjson
  ge_provenance :: "ProvenanceRecord list"

definition mk_graph_edge ::
  "GraphNodeIdentity \<Rightarrow> GraphNodeIdentity \<Rightarrow> string \<Rightarrow> attributes_arg \<Rightarrow> ProvenanceRecord list \<Rightarrow> GraphEdge result" where
  "mk_graph_edge source target kind attributes provenance =
     try_in (require_non_empty_str kind ''kind'') (\<lambda>k.
     try_in (canonicalize_attributes_object attributes) (\<lambda>a.
       Inr \<lparr>ge_source = source, ge_target = target, ge_kind = k, ge_attributes = a,
            ge_provenance = merge_provenance provenance\<rparr>))"

definition logical_identity :: "GraphEdge \<Rightarrow> logical_edge" where
  "logical_identity e = (ge_source e, ge_kind e, ge_target e)"

definition logical_key :: "logical_edge \<Rightarrow> string" where
  "logical_key = (\<lambda>(source, kind, target). canonical_json_bytes
     (JArray [to_canonical_list source, JStr kind, to_canonical_list target]))"

definition logical_sort_key :: "GraphEdge \<Rightarrow> string" where
  "logical_sort_key e = canonical_json_bytes
     (JArray [to_canonical_list (ge_source e), JStr (ge_kind e), to_canonical_list (ge_target e)])"

definition edge_to_dict :: "GraphEdge \<Rightarrow> json" where
  "edge_to_dict e = JObject [(''attributes'', canonical_json_to_plain (ge_attributes e)),
     (''kind'', JStr (ge_kind e)), (''provenance'', JArray (map provenance_to_dict (ge_provenance e))),
     (''source'', identity_to_dict (ge_source e)), (''target'', identity_to_dict (ge_target e))]"

section \<open>Normalization\<close>

definition plain_attributes :: "cjson \<Rightarrow> attributes_arg" where
  "plain_attributes a = RawAttributes (py_of_json (canonical_json_to_plain a))"

definition node_sort_key :: "GraphNode \<Rightarrow> string" where
  "node_sort_key n = canonical_bytes (gn_identity n)"

definition merge_node_group :: "GraphNodeIdentity \<times> GraphNode list \<Rightarrow> GraphNode result" where
  "merge_node_group = (\<lambda>(identity, group). case group of
      [] \<Rightarrow> Inl IndexError
    | base # others \<Rightarrow>
        if list_ex (\<lambda>other. \<not> same_material_payload other base) others
        then Inl (ValueError ''conflicting GraphNode payload for identity'')
        else mk_graph_node identity (gn_name base) (gn_description base)
               (plain_attributes (gn_attributes base))
               (merge_provenance (concat (map gn_provenance group))))"

definition check_parents :: "GraphNodeIdentity list \<Rightarrow> GraphNode \<Rightarrow> unit result" where
  "check_parents index node = check_each
     (\<lambda>ancestor. require (ancestor \<in> set index) (ValueError ''parent identity not present in graph''))
     (ancestors (gn_identity node))"

definition merge_edge_group ::
  "GraphNodeIdentity list \<Rightarrow> logical_edge \<times> GraphEdge list \<Rightarrow> GraphEdge result" where
  "merge_edge_group index = (\<lambda>((source, kind, target), group).
     if source \<notin> set index then Inl (ValueError ''edge source not present in graph'')
     else if target \<notin> set index then Inl (ValueError ''edge target not present in graph'')
     else (case group of
        [] \<Rightarrow> Inl IndexError
      | base # others \<Rightarrow>
          if list_ex (\<lambda>other. tagged_fingerprint (ge_attributes other) \<noteq> tagged_fingerprint (ge_attributes base)) others
          then Inl (ValueError ''conflicting GraphEdge attributes for logical edge'')
          else mk_graph_edge source target kind (plain_attributes (ge_attributes base))
                 (merge_provenance (concat (map ge_provenance group)))))"

record GovernanceGraph =
  gg_nodes :: "GraphNode list"
  gg_edges :: "GraphEdge list"

definition normalize_governance_graph :: "GraphNode list \<Rightarrow> GraphEdge list \<Rightarrow> GovernanceGraph result" where
  "normalize_governance_graph nodes edges =
     try_in (traverse merge_node_group (group_by gn_identity nodes)) (\<lambda>merged_nodes.
       let index = map gn_identity merged_nodes in
       try_in (check_each (check_parents index) merged_nodes) (\<lambda>_.
       try_in (traverse (merge_edge_group index) (group_by logical_identity edges)) (\<lambda>merged_edges.
         Inr \<lparr>gg_nodes = sort_key node_sort_key merged_nodes,
              gg_edges = sort_key logical_sort_key merged_edges\<rparr>)))"

definition from_parts :: "GraphNode list \<Rightarrow> GraphEdge list \<Rightarrow> GovernanceGraph result" where
  "from_parts nodes edges = normalize_governance_graph nodes edges"

definition canonical_dict_without_identity :: "GovernanceGraph \<Rightarrow> json" where
  "canonical_dict_without_identity g = JObject
     [(''edges'', JArray (map edge_to_dict (gg_edges g))), (''nodes'', JArray (map node_to_dict (gg_nodes g)))]"

definition graph_content_identity :: "(string \<Rightarrow> string) \<Rightarrow> GovernanceGraph \<Rightarrow> ContentIdentity" where
  "graph_content_identity sha g = sha256_identity sha GraphId (canonical_dict_without_identity g)"

section \<open>Invariants of the constructors\<close>

definition stripped :: "string \<Rightarrow> bool" where
  "stripped s \<longleftrightarrow> strip s = s \<and> s \<noteq> []"

fun wf_identity :: "GraphNodeIdentity \<Rightarrow> bool" where
  "wf_identity (GraphNodeIdentity ns k l p) \<longleftrightarrow> stripped ns \<and> stripped k \<and> stripped l \<and>
     (k = NODE_KIND_COLUMN \<longrightarrow> p \<noteq> None) \<and> (case p of None \<Rightarrow> True | Some q \<Rightarrow> wf_identity q)"

definition wf_provenance :: "ProvenanceRecord \<Rightarrow> bool" where
  "wf_provenance r \<longleftrightarrow> stripped (pr_provider_type r) \<and> stripped (pr_source_ref r) \<and>
     (case pr_source_version r of None \<Rightarrow> True | Some v \<Rightarrow> stripped v) \<and>
     pr_observation_mode r \<in> set OBSERVATION_MODES"

definition wf_attributes :: "cjson \<Rightarrow> bool" where
  "wf_attributes a \<longleftrightarrow> wf_cjson a \<and> (\<exists>kvs. a = CanonicalObject kvs)"

definition wf_node :: "GraphNode \<Rightarrow> bool" where
  "wf_node n \<longleftrightarrow> wf_identity (gn_identity n) \<and> stripped (gn_name n) \<and> wf_attributes (gn_attributes n) \<and>
     list_all wf_provenance (gn_provenance n)"

definition wf_edge :: "GraphEdge \<Rightarrow> bool" where
  "wf_edge e \<longleftrightarrow> wf_identity (ge_source e) \<and> wf_identity (ge_target e) \<and> stripped (ge_kind e) \<and>
     wf_attributes (ge_attributes e) \<and> list_all wf_provenance (ge_provenance e)"

section \<open>Canonical keys\<close>

lemma wf_to_canonical_list [simp]: "wf_json (to_canonical_list i)" "sorted_json (to_canonical_list i)"
  by (induction i rule: to_canonical_list.induct) (auto split: option.splits)

lemma to_canonical_list_not_null [simp]: "to_canonical_list i \<noteq> JNull" "JNull \<noteq> to_canonical_list i"
  by (cases i, simp)+

lemma to_canonical_list_inj: "to_canonical_list i = to_canonical_list j \<Longrightarrow> i = j"
proof (induction i arbitrary: j rule: to_canonical_list.induct)
  case (1 ns k l p)
  then show ?case by (cases j) (auto split: option.splits)
qed

lemma to_canonical_list_eq [simp]: "to_canonical_list i = to_canonical_list j \<longleftrightarrow> i = j"
  using to_canonical_list_inj by blast

lemma canonical_bytes_eq [simp]: "canonical_bytes i = canonical_bytes j \<longleftrightarrow> i = j"
  by (auto simp: canonical_bytes_def dest: canonical_json_bytes_inj [rotated -1])

lemma opt_str_eq [simp]: "opt_str u = opt_str v \<longleftrightarrow> u = v"
  by (auto simp: opt_str_def split: option.splits)

lemma wf_opt_str [simp]: "wf_json (opt_str v)" "sorted_json (opt_str v)"
  by (simp_all add: opt_str_def split: option.splits)

lemma canonical_sort_key_eq [simp]: "canonical_sort_key r = canonical_sort_key s \<longleftrightarrow> r = s"
proof
  assume "canonical_sort_key r = canonical_sort_key s"
  then have "provenance_canonical_list r = provenance_canonical_list s"
    unfolding canonical_sort_key_def
    by (rule canonical_json_bytes_inj [rotated -1]) (simp_all add: provenance_canonical_list_def)
  then show "r = s" by (simp add: provenance_canonical_list_def)
qed simp

lemma logical_key_eq [simp]: "logical_key x = logical_key y \<longleftrightarrow> x = y"
proof
  assume a: "logical_key x = logical_key y"
  obtain s k t s' k' t' where xy: "x = (s, k, t)" "y = (s', k', t')" by (cases x, cases y)
  have "JArray [to_canonical_list s, JStr k, to_canonical_list t] =
      JArray [to_canonical_list s', JStr k', to_canonical_list t']"
    using a unfolding xy logical_key_def prod.case by (rule canonical_json_bytes_inj [rotated -1]) simp_all
  with xy show "x = y" by simp
qed simp

lemma logical_sort_key: "logical_sort_key e = logical_key (logical_identity e)"
  by (simp add: logical_sort_key_def logical_key_def logical_identity_def)

interpretation provenance_key: canonical_key canonical_sort_key wf_provenance
  by unfold_locales simp

interpretation identity_key: canonical_key canonical_bytes "\<lambda>_. True"
  by unfold_locales simp

interpretation node_merge: keyed_merge canonical_sort_key wf_provenance gn_identity node_sort_key
  gn_provenance "\<lambda>ps n. n\<lparr>gn_provenance := ps\<rparr>" wf_node
  by unfold_locales (auto simp: wf_node_def node_sort_key_def)

interpretation edge_merge: keyed_merge canonical_sort_key wf_provenance logical_identity logical_sort_key
  ge_provenance "\<lambda>ps e. e\<lparr>ge_provenance := ps\<rparr>" wf_edge
  by unfold_locales (auto simp: wf_edge_def logical_sort_key logical_identity_def)

definition merged_nodes :: "GraphNode list \<Rightarrow> GraphNode list" where
  "merged_nodes = merged_by canonical_sort_key gn_identity node_sort_key gn_provenance
     (\<lambda>ps n. n\<lparr>gn_provenance := ps\<rparr>)"

definition merged_edges :: "GraphEdge list \<Rightarrow> GraphEdge list" where
  "merged_edges = merged_by canonical_sort_key logical_identity logical_sort_key ge_provenance
     (\<lambda>ps e. e\<lparr>ge_provenance := ps\<rparr>)"

definition compatible_nodes :: "GraphNode list \<Rightarrow> bool" where
  "compatible_nodes ns \<longleftrightarrow> (\<forall>x \<in> set ns. \<forall>y \<in> set ns. gn_identity x = gn_identity y \<longrightarrow>
     gn_name x = gn_name y \<and> gn_description x = gn_description y \<and> gn_attributes x = gn_attributes y)"

definition compatible_edges :: "GraphEdge list \<Rightarrow> bool" where
  "compatible_edges es \<longleftrightarrow> (\<forall>x \<in> set es. \<forall>y \<in> set es. logical_identity x = logical_identity y \<longrightarrow>
     ge_attributes x = ge_attributes y)"

definition normal_nodes :: "GraphNode list \<Rightarrow> bool" where
  "normal_nodes = normal_by canonical_sort_key gn_identity node_sort_key gn_provenance"

definition normal_edges :: "GraphEdge list \<Rightarrow> bool" where
  "normal_edges = normal_by canonical_sort_key logical_identity logical_sort_key ge_provenance"

text \<open>The references of a graph: ancestors of a node and the ends of an edge are nodes of the graph.\<close>

definition closed_parts :: "GraphNode list \<Rightarrow> GraphEdge list \<Rightarrow> bool" where
  "closed_parts ns es \<longleftrightarrow> (let ids = gn_identity ` set ns in
     (\<forall>n \<in> set ns. set (ancestors (gn_identity n)) \<subseteq> ids) \<and>
     (\<forall>e \<in> set es. ge_source e \<in> ids \<and> ge_target e \<in> ids))"

lemma node_with_eq [simp]:
  "a\<lparr>gn_provenance := ps\<rparr> = b\<lparr>gn_provenance := ps\<rparr> \<longleftrightarrow> gn_identity a = gn_identity b \<and>
   gn_name a = gn_name b \<and> gn_description a = gn_description b \<and> gn_attributes a = gn_attributes b"
  for a b :: GraphNode
  by (cases a, cases b) auto

lemma edge_with_eq [simp]:
  "a\<lparr>ge_provenance := ps\<rparr> = b\<lparr>ge_provenance := ps\<rparr> \<longleftrightarrow>
   logical_identity a = logical_identity b \<and> ge_attributes a = ge_attributes b" for a b :: GraphEdge
  by (cases a, cases b) (auto simp: logical_identity_def)

lemma compatible_nodes_by:
  "compatible_nodes ns = compatible_by gn_identity (\<lambda>ps n. n\<lparr>gn_provenance := ps\<rparr>) ns"
  unfolding compatible_nodes_def compatible_by_def by (intro ball_cong refl) auto

lemma compatible_edges_by:
  "compatible_edges es = compatible_by logical_identity (\<lambda>ps e. e\<lparr>ge_provenance := ps\<rparr>) es"
  unfolding compatible_edges_def compatible_by_def by (intro ball_cong refl) auto

lemma canonicalize_plain_attributes:
  "wf_attributes a \<Longrightarrow> canonicalize_attributes_object (plain_attributes a) = Inr a"
proof -
  assume a: "wf_attributes a"
  then obtain kvs where k: "a = CanonicalObject kvs" by (auto simp: wf_attributes_def)
  have "canonicalize_json_value (py_of_json (canonical_json_to_plain a)) = Inr a"
    using a by (simp add: canonicalize_py_of_json wf_attributes_def wf_cjson_def canon_sorted tag_plain)
  then show ?thesis by (simp add: plain_attributes_def k del: canonicalize_json_value.simps)
qed

lemma require_stripped [simp]: "stripped s \<Longrightarrow> require_non_empty_str s f = Inr s"
  by (simp add: require_non_empty_str_def stripped_def)

lemma merge_provenance_idem [simp]: "merge_provenance (merge_provenance rs) = merge_provenance rs"
  by (simp add: merge_provenance_def)

lemma same_material_payload_wf:
  "wf_node a \<Longrightarrow> wf_node b \<Longrightarrow> gn_identity a = gn_identity b \<Longrightarrow>
   same_material_payload a b \<longleftrightarrow> a\<lparr>gn_provenance := []\<rparr> = b\<lparr>gn_provenance := []\<rparr>"
  by (auto simp: same_material_payload_def wf_node_def wf_attributes_def tagged_fingerprint_eq_iff)

lemma fingerprint_wf_attributes:
  "wf_attributes a \<Longrightarrow> wf_attributes b \<Longrightarrow> tagged_fingerprint a = tagged_fingerprint b \<longleftrightarrow> a = b"
  by (auto simp: wf_attributes_def tagged_fingerprint_eq_iff)

section \<open>Normalization, characterized\<close>

lemma merge_node_group_iff:
  assumes "(k, g) \<in> set (group_by gn_identity ns)" "list_all wf_node ns"
  shows "merge_node_group (k, g) = Inr y \<longleftrightarrow>
    True \<and> (\<forall>z \<in> set g. z\<lparr>gn_provenance := []\<rparr> = (hd g)\<lparr>gn_provenance := []\<rparr>) \<and>
    y = merge_group canonical_sort_key gn_provenance (\<lambda>ps n. n\<lparr>gn_provenance := ps\<rparr>) g"
proof -
  have mem: "\<And>z. z \<in> set g \<Longrightarrow> wf_node z \<and> gn_identity z = k"
    using assms by (auto simp: group_by_member list_all_iff)
  obtain base others where g: "g = base # others" using group_by_nonempty [OF assms(1)] by (cases g) auto
  have wf: "wf_node base" "gn_identity base = k" using mem g by auto
  have "mk_graph_node k (gn_name base) (gn_description base) (plain_attributes (gn_attributes base))
      (merge_provenance ps) = Inr (base\<lparr>gn_provenance := canon_set canonical_sort_key ps\<rparr>)" for ps
    using wf by (simp add: mk_graph_node_def wf_node_def canonicalize_plain_attributes)
      (simp add: merge_provenance_def)
  moreover have "\<And>z. z \<in> set others \<Longrightarrow>
      same_material_payload z base \<longleftrightarrow> z\<lparr>gn_provenance := []\<rparr> = base\<lparr>gn_provenance := []\<rparr>"
    using mem g wf same_material_payload_wf by auto
  then have "list_ex (\<lambda>z. \<not> same_material_payload z base) others \<longleftrightarrow>
      \<not> (\<forall>z \<in> set others. z\<lparr>gn_provenance := []\<rparr> = base\<lparr>gn_provenance := []\<rparr>)"
    by (auto simp: list_ex_iff)
  ultimately show ?thesis by (auto simp: merge_node_group_def g merge_group_def)
qed

lemma merge_edge_group_iff:
  assumes "(k, g) \<in> set (group_by logical_identity es)" "list_all wf_edge es"
  shows "merge_edge_group index (k, g) = Inr y \<longleftrightarrow>
    (fst k \<in> set index \<and> snd (snd k) \<in> set index) \<and>
    (\<forall>z \<in> set g. z\<lparr>ge_provenance := []\<rparr> = (hd g)\<lparr>ge_provenance := []\<rparr>) \<and>
    y = merge_group canonical_sort_key ge_provenance (\<lambda>ps e. e\<lparr>ge_provenance := ps\<rparr>) g"
proof -
  have mem: "\<And>z. z \<in> set g \<Longrightarrow> wf_edge z \<and> logical_identity z = k"
    using assms by (auto simp: group_by_member list_all_iff)
  obtain base others where g: "g = base # others" using group_by_nonempty [OF assms(1)] by (cases g) auto
  have wf: "wf_edge base" "logical_identity base = k" using mem g by auto
  then have k: "k = (ge_source base, ge_kind base, ge_target base)" by (simp add: logical_identity_def)
  have "mk_graph_edge (ge_source base) (ge_target base) (ge_kind base) (plain_attributes (ge_attributes base))
      (merge_provenance ps) = Inr (base\<lparr>ge_provenance := canon_set canonical_sort_key ps\<rparr>)" for ps
    using wf(1) by (simp add: mk_graph_edge_def wf_edge_def canonicalize_plain_attributes)
      (simp add: merge_provenance_def)
  moreover have "\<And>z. z \<in> set others \<Longrightarrow> tagged_fingerprint (ge_attributes z) = tagged_fingerprint (ge_attributes base)
      \<longleftrightarrow> z\<lparr>ge_provenance := []\<rparr> = base\<lparr>ge_provenance := []\<rparr>"
    using mem g wf fingerprint_wf_attributes by (auto simp: wf_edge_def)
  then have "list_ex (\<lambda>z. tagged_fingerprint (ge_attributes z) \<noteq> tagged_fingerprint (ge_attributes base)) others \<longleftrightarrow>
      \<not> (\<forall>z \<in> set others. z\<lparr>ge_provenance := []\<rparr> = base\<lparr>ge_provenance := []\<rparr>)"
    by (auto simp: list_ex_iff)
  ultimately show ?thesis by (auto simp: merge_edge_group_def g merge_group_def k)
qed

lemma check_parents_ok:
  "check_parents index n = Inr u \<longleftrightarrow> set (ancestors (gn_identity n)) \<subseteq> set index"
  by (auto simp: check_parents_def)

definition wf_graph :: "GovernanceGraph \<Rightarrow> bool" where
  "wf_graph g \<longleftrightarrow> list_all wf_node (gg_nodes g) \<and> list_all wf_edge (gg_edges g) \<and>
     normal_nodes (gg_nodes g) \<and> normal_edges (gg_edges g) \<and> closed_parts (gg_nodes g) (gg_edges g)"

lemma traverse_nodes:
  assumes "list_all wf_node ns"
  shows "traverse merge_node_group (group_by gn_identity ns) = Inr ys \<longleftrightarrow> compatible_nodes ns \<and>
    ys = map (\<lambda>(k, g). merge_group canonical_sort_key gn_provenance (\<lambda>ps n. n\<lparr>gn_provenance := ps\<rparr>) g)
      (group_by gn_identity ns)"
  using traverse_groups [OF merge_node_group_iff [OF _ assms], where ys = ys] by (simp add: compatible_nodes_by)

lemma traverse_edges:
  assumes "list_all wf_edge es"
  shows "traverse (merge_edge_group index) (group_by logical_identity es) = Inr ys \<longleftrightarrow>
    (\<forall>e \<in> set es. ge_source e \<in> set index \<and> ge_target e \<in> set index) \<and> compatible_edges es \<and>
    ys = map (\<lambda>(k, g). merge_group canonical_sort_key ge_provenance (\<lambda>ps e. e\<lparr>ge_provenance := ps\<rparr>) g)
      (group_by logical_identity es)"
  using traverse_groups [OF merge_edge_group_iff [OF _ assms, of _ _ index], where ys = ys]
  by (simp add: compatible_edges_by logical_identity_def)

lemma index_nodes:
  "set (map gn_identity (map (\<lambda>(k, g). merge_group canonical_sort_key gn_provenance
     (\<lambda>ps n. n\<lparr>gn_provenance := ps\<rparr>) g) (group_by gn_identity ns))) = gn_identity ` set ns"
  for ns :: "GraphNode list"
  by (subst arg_cong [OF node_merge.idents_merged, of set]) simp

lemma normalize_iff:
  assumes "list_all wf_node ns" "list_all wf_edge es"
  shows "normalize_governance_graph ns es = Inr g \<longleftrightarrow>
    compatible_nodes ns \<and> compatible_edges es \<and> closed_parts ns es \<and>
    g = \<lparr>gg_nodes = merged_nodes ns, gg_edges = merged_edges es\<rparr>"
proof -
  let ?ns = "map (\<lambda>(k, g). merge_group canonical_sort_key gn_provenance
     (\<lambda>ps n. n\<lparr>gn_provenance := ps\<rparr>) g) (group_by gn_identity ns)"
  let ?es = "map (\<lambda>(k, g). merge_group canonical_sort_key ge_provenance
     (\<lambda>ps e. e\<lparr>ge_provenance := ps\<rparr>) g) (group_by logical_identity es)"
  have parents: "(\<forall>n \<in> set ?ns. set (ancestors (gn_identity n)) \<subseteq> S) \<longleftrightarrow>
      (\<forall>n \<in> set ns. set (ancestors (gn_identity n)) \<subseteq> S)" for S
  proof -
    have "(\<forall>n \<in> set ?ns. set (ancestors (gn_identity n)) \<subseteq> S) \<longleftrightarrow>
        (\<forall>i \<in> set (map gn_identity ?ns). set (ancestors i) \<subseteq> S)"
      unfolding set_map [of gn_identity] ball_simps ..
    then show ?thesis unfolding index_nodes by simp
  qed
  have sorted: "sort_key node_sort_key ?ns = merged_nodes ns" "sort_key logical_sort_key ?es = merged_edges es"
    unfolding merged_nodes_def merged_edges_def merged_by_def node_sort_key_def [abs_def]
    by (simp_all only: logical_sort_key [abs_def])
  have "normalize_governance_graph ns es = Inr g \<longleftrightarrow> compatible_nodes ns \<and>
     (\<forall>n \<in> set ?ns. set (ancestors (gn_identity n)) \<subseteq> set (map gn_identity ?ns)) \<and>
     (\<forall>e \<in> set es. ge_source e \<in> set (map gn_identity ?ns) \<and> ge_target e \<in> set (map gn_identity ?ns)) \<and>
     compatible_edges es \<and> g = \<lparr>gg_nodes = sort_key node_sort_key ?ns, gg_edges = sort_key logical_sort_key ?es\<rparr>"
    unfolding normalize_governance_graph_def Let_def
    by (simp add: split_result traverse_nodes [OF assms(1)] traverse_edges [OF assms(2)] check_parents_ok del: set_map) blast
  then show ?thesis
    unfolding parents index_nodes sorted closed_parts_def Let_def by blast
qed

lemma merged_nodes_ids: "gn_identity ` set (merged_nodes ns) = gn_identity ` set ns"
  unfolding merged_nodes_def by (rule node_merge.ident_set_merged)

lemma merged_edges_ids: "logical_identity ` set (merged_edges es) = logical_identity ` set es"
  unfolding merged_edges_def by (rule edge_merge.ident_set_merged)

lemma closed_parts_ids:
  "closed_parts ns es \<longleftrightarrow>
   (\<forall>i \<in> gn_identity ` set ns. set (ancestors i) \<subseteq> gn_identity ` set ns) \<and>
   (\<forall>(s, k, t) \<in> logical_identity ` set es. s \<in> gn_identity ` set ns \<and> t \<in> gn_identity ` set ns)"
  by (auto simp: closed_parts_def Let_def logical_identity_def)

lemma closed_merged: "closed_parts (merged_nodes ns) (merged_edges es) = closed_parts ns es"
  unfolding closed_parts_ids merged_nodes_ids merged_edges_ids ..

lemma good_merged_nodes: "list_all wf_node ns \<Longrightarrow> list_all wf_node (merged_nodes ns)"
  using node_merge.good_merged by (auto simp: merged_nodes_def list_all_iff)

lemma good_merged_edges: "list_all wf_edge es \<Longrightarrow> list_all wf_edge (merged_edges es)"
  using edge_merge.good_merged by (auto simp: merged_edges_def list_all_iff)

lemma normal_merged_nodes: "list_all wf_node ns \<Longrightarrow> normal_nodes (merged_nodes ns)"
  unfolding normal_nodes_def merged_nodes_def by (rule node_merge.normal_merged)

lemma normal_merged_edges: "list_all wf_edge es \<Longrightarrow> normal_edges (merged_edges es)"
  unfolding normal_edges_def merged_edges_def by (rule edge_merge.normal_merged)

lemma merged_nodes_normal: "normal_nodes ns \<Longrightarrow> merged_nodes ns = ns" for ns :: "GraphNode list"
  unfolding normal_nodes_def merged_nodes_def by (rule node_merge.merged_normal)

lemma merged_edges_normal: "normal_edges es \<Longrightarrow> merged_edges es = es" for es :: "GraphEdge list"
  unfolding normal_edges_def merged_edges_def by (rule edge_merge.merged_normal)

lemma normal_by_distinct: "normal_by pkey ident skey parts xs \<Longrightarrow> distinct (map ident xs)"
  by (auto simp: normal_by_def strict_sorted_iff distinct_map inj_on_def)

lemma normal_compatible:
  "normal_nodes ns \<Longrightarrow> compatible_nodes ns" "normal_edges es \<Longrightarrow> compatible_edges es"
  using normal_by_distinct unfolding normal_nodes_def normal_edges_def compatible_nodes_def compatible_edges_def
  by (fastforce simp: distinct_map inj_on_def)+

lemma from_parts_wf:
  "list_all wf_node ns \<Longrightarrow> list_all wf_edge es \<Longrightarrow> from_parts ns es = Inr g \<Longrightarrow> wf_graph g"
  by (auto simp: from_parts_def normalize_iff wf_graph_def good_merged_nodes good_merged_edges
      normal_merged_nodes normal_merged_edges closed_merged)

lemma from_parts_normal: "wf_graph g \<Longrightarrow> from_parts (gg_nodes g) (gg_edges g) = Inr g"
  by (cases g) (simp add: from_parts_def wf_graph_def normalize_iff normal_compatible
      merged_nodes_normal merged_edges_normal)

lemma from_parts_perm:
  assumes "list_all wf_node ns" "list_all wf_edge es" "set ns' = set ns" "set es' = set es"
    and "from_parts ns es = Inr g"
  shows "from_parts ns' es' = Inr g"
proof -
  have "list_all wf_node ns'" "list_all wf_edge es'" using assms by (simp_all add: list_all_iff)
  moreover have "compatible_nodes ns" "compatible_edges es" "closed_parts ns es"
    using assms by (simp_all add: from_parts_def normalize_iff)
  then have "compatible_nodes ns'" "compatible_edges es'" "closed_parts ns' es'"
    unfolding compatible_nodes_def compatible_edges_def closed_parts_def assms(3,4) by this+
  moreover have "merged_nodes ns = merged_nodes ns'" unfolding merged_nodes_def
    by (rule node_merge.merged_cong [OF assms(1) \<open>compatible_nodes ns\<close> [unfolded compatible_nodes_by]])
      (simp add: assms(3))
  moreover have "merged_edges es = merged_edges es'" unfolding merged_edges_def
    by (rule edge_merge.merged_cong [OF assms(2) \<open>compatible_edges es\<close> [unfolded compatible_edges_by]])
      (simp add: assms(4))
  ultimately show ?thesis using assms(1,2,5) by (simp add: from_parts_def normalize_iff)
qed

section \<open>What the constructors guarantee\<close>

lemma strip_idem_stripped: "strip s \<noteq> [] \<Longrightarrow> stripped (strip s)"
  by (simp add: stripped_def)

lemma require_non_empty_str_ok [split_result]:
  "require_non_empty_str v f = Inr s \<longleftrightarrow> s = strip v \<and> stripped s"
  by (auto simp: require_non_empty_str_def stripped_def split: if_splits)

lemma mk_node_identity_wf:
  "mk_node_identity ns k l p = Inr i \<Longrightarrow> (case p of None \<Rightarrow> True | Some q \<Rightarrow> wf_identity q) \<Longrightarrow> wf_identity i"
  by (auto simp: mk_node_identity_def split_result split: if_splits option.splits)

lemma mk_provenance_wf: "mk_provenance pt sr sv m = Inr r \<Longrightarrow> wf_provenance r"
  by (auto simp: mk_provenance_def split_result wf_provenance_def strip_idem_stripped
      split: if_splits option.splits)

lemma attributes_wf:
  assumes "wf_py (PyDict kvs)" "canonicalize_attributes_object (RawAttributes (PyDict kvs)) = Inr a"
  shows "wf_attributes a"
  using assms canonicalize_wf [OF assms(1)] by (auto simp: wf_attributes_def split_result)

lemma mk_graph_node_wf:
  "wf_identity i \<Longrightarrow> wf_py (PyDict kvs) \<Longrightarrow> list_all wf_provenance ps \<Longrightarrow>
   mk_graph_node i nm d (RawAttributes (PyDict kvs)) ps = Inr n \<Longrightarrow>
   wf_node n \<and> sorted_wrt (<) (map canonical_sort_key (gn_provenance n))"
  using attributes_wf [of kvs]
  by (auto simp: mk_graph_node_def split_result wf_node_def merge_provenance_def list_all_iff
      simp del: canonicalize_attributes_object.simps wf_py.simps
      intro!: provenance_key.strictly_sorted_canon_set)

text \<open>The \<open>seen\<close> guard of \<open>ancestors\<close> never stops the loop: an identity is finite, so its parents are
  all different and the result is the whole chain.\<close>

fun parent_chain :: "GraphNodeIdentity \<Rightarrow> GraphNodeIdentity list" where
  "parent_chain (GraphNodeIdentity ns k l p) = (case p of None \<Rightarrow> [] | Some q \<Rightarrow> q # parent_chain q)"

lemma ancestors_loop_chain:
  "(\<forall>x \<in> set seen. size_option size c < Suc (size x)) \<Longrightarrow>
   ancestors_loop c seen = (case c of None \<Rightarrow> [] | Some q \<Rightarrow> q # parent_chain q)"
proof (induction c seen rule: ancestors_loop.induct)
  case (2 c seen)
  have sz: "size_option size (gi_parent c) < Suc (size c)" by (cases c) simp
  have "c \<notin> set seen" using "2.prems" by fastforce
  moreover have "\<forall>x \<in> set (c # seen). size_option size (gi_parent c) < Suc (size x)"
    using "2.prems" sz by fastforce
  moreover have "parent_chain c = (case gi_parent c of None \<Rightarrow> [] | Some q \<Rightarrow> q # parent_chain q)"
    by (cases c) simp
  ultimately show ?case using "2.IH" by simp
qed simp

lemma ancestors_eq: "ancestors i = parent_chain i"
proof -
  have "parent_chain i = (case gi_parent i of None \<Rightarrow> [] | Some q \<Rightarrow> q # parent_chain q)" by (cases i) simp
  then show ?thesis unfolding ancestors_def by (subst ancestors_loop_chain) simp_all
qed

section \<open>Content identity\<close>

lemma wf_identity_to_dict [simp]: "wf_json (identity_to_dict i)" "sorted_json (identity_to_dict i)"
  by (induction i rule: identity_to_dict.induct) (auto split: option.splits)

lemma identity_to_dict_not_null [simp]: "identity_to_dict i \<noteq> JNull" "JNull \<noteq> identity_to_dict i"
  by (cases i, simp)+

lemma identity_to_dict_inj: "identity_to_dict i = identity_to_dict j \<Longrightarrow> i = j"
proof (induction i arbitrary: j rule: identity_to_dict.induct)
  case (1 ns k l p)
  then show ?case by (cases j) (auto split: option.splits)
qed

lemma provenance_to_dict_inj: "provenance_to_dict r = provenance_to_dict s \<Longrightarrow> r = s"
  by (simp add: provenance_to_dict_def)

lemma wf_provenance_to_dict [simp]: "wf_json (provenance_to_dict r)" "sorted_json (provenance_to_dict r)"
  by (simp_all add: provenance_to_dict_def)

lemma map_inj_eq: "map f xs = map f ys \<Longrightarrow> (\<And>x y. f x = f y \<Longrightarrow> x = y) \<Longrightarrow> xs = ys"
  by (metis injI map_injective)

lemma map_provenance_to_dict_eq [simp]:
  "map provenance_to_dict rs = map provenance_to_dict ss \<longleftrightarrow> rs = ss"
  using map_inj_eq [of provenance_to_dict rs ss] provenance_to_dict_inj by blast

lemma identity_to_dict_eq [simp]: "identity_to_dict i = identity_to_dict j \<longleftrightarrow> i = j"
  using identity_to_dict_inj by blast

lemma node_to_dict_inj: "node_to_dict m = node_to_dict n \<Longrightarrow> m = n"
  by (auto simp: node_to_dict_def intro!: GraphNode.equality
      dest: canonical_json_to_plain_inj)

lemma edge_to_dict_inj: "edge_to_dict m = edge_to_dict n \<Longrightarrow> m = n"
  by (auto simp: edge_to_dict_def intro!: GraphEdge.equality
      dest: canonical_json_to_plain_inj)

lemma wf_node_to_dict: "wf_node n \<Longrightarrow> wf_json (node_to_dict n) \<and> sorted_json (node_to_dict n)"
  by (auto simp: node_to_dict_def wf_node_def wf_attributes_def wf_cjson_def list_all_iff)

lemma wf_edge_to_dict: "wf_edge e \<Longrightarrow> wf_json (edge_to_dict e) \<and> sorted_json (edge_to_dict e)"
  by (auto simp: edge_to_dict_def wf_edge_def wf_attributes_def wf_cjson_def list_all_iff)

lemma wf_graph_dict:
  "wf_graph g \<Longrightarrow> wf_json (canonical_dict_without_identity g) \<and> sorted_json (canonical_dict_without_identity g)"
  using wf_node_to_dict wf_edge_to_dict
  by (simp add: canonical_dict_without_identity_def wf_graph_def list_all_iff)

section \<open>Properties\<close>

text \<open>
  C14 (functional). Building a graph from well-formed parts succeeds exactly when nodes of one identity
  agree on name, description and attributes, edges of one logical identity agree on attributes, every
  ancestor of a node is a node and both ends of every edge are nodes. Every other input is refused.
\<close>

theorem from_parts_succeeds_iff:
  "list_all wf_node ns \<Longrightarrow> list_all wf_edge es \<Longrightarrow>
   (\<exists>g. from_parts ns es = Inr g) \<longleftrightarrow> compatible_nodes ns \<and> compatible_edges es \<and> closed_parts ns es"
  by (simp add: from_parts_def normalize_iff)

theorem from_parts_succeeds_iff_witness:
  "\<exists>e. from_parts [\<lparr>gn_identity = GraphNodeIdentity ''n'' ''column'' ''c'' (Some (GraphNodeIdentity ''n'' ''table'' ''t'' None)),
      gn_name = ''c'', gn_description = None, gn_attributes = CanonicalObject [], gn_provenance = []\<rparr>] [] = Inl e"
proof -
  let ?n = "\<lparr>gn_identity = GraphNodeIdentity ''n'' ''column'' ''c'' (Some (GraphNodeIdentity ''n'' ''table'' ''t'' None)),
      gn_name = ''c'', gn_description = None, gn_attributes = CanonicalObject [], gn_provenance = []\<rparr>"
  have "list_all wf_node [?n]"
    by (simp add: wf_node_def stripped_def wf_attributes_def wf_cjson_def kind_defs) code_simp
  moreover have "\<not> closed_parts [?n] []" by (simp add: closed_parts_def ancestors_eq)
  ultimately have "\<not> (\<exists>g. from_parts [?n] [] = Inr g)"
    by (subst from_parts_succeeds_iff) simp_all
  then show ?thesis by (cases "from_parts [?n] []") auto
qed

text \<open>Two tables and a dependency between them, one table and the dependency observed by two providers.\<close>

definition example_record :: "string \<Rightarrow> ProvenanceRecord" where
  "example_record provider = \<lparr>pr_provider_type = provider, pr_source_ref = ''a'', pr_source_version = None, pr_observation_mode = ''observed''\<rparr>"

definition example_part :: "string \<Rightarrow> string list \<Rightarrow> GraphNode" where
  "example_part t providers = \<lparr>gn_identity = GraphNodeIdentity ''n'' ''table'' t None, gn_name = t, gn_description = Some ''d'',
     gn_attributes = CanonicalObject [(''rows'', CInt 3)], gn_provenance = map example_record providers\<rparr>"

definition example_link :: "string list \<Rightarrow> GraphEdge" where
  "example_link providers = \<lparr>ge_source = GraphNodeIdentity ''n'' ''table'' ''u'' None, ge_target = GraphNodeIdentity ''n'' ''table'' ''t'' None,
     ge_kind = ''depends_on'', ge_attributes = CanonicalObject [], ge_provenance = map example_record providers\<rparr>"

lemma example_parts_wf: "wf_node (example_part ''t'' [p])" "wf_node (example_part ''u'' [p])" "wf_edge (example_link [p])"
  if "p \<in> {''dbt'', ''odcs''}"
proof -
  have "wf_provenance (example_record p)" using that by (auto simp: wf_provenance_def example_record_def) code_simp+
  then show "wf_node (example_part ''t'' [p])" "wf_node (example_part ''u'' [p])" "wf_edge (example_link [p])"
    by (simp_all add: wf_node_def wf_edge_def stripped_def wf_attributes_def wf_cjson_def kind_defs example_part_def example_link_def) code_simp+
qed

lemma example_parts_build:
  "from_parts [example_part ''u'' [''dbt''], example_part ''t'' [''odcs''], example_part ''t'' [''dbt'']]
     [example_link [''odcs''], example_link [''dbt'']] =
   Inr \<lparr>gg_nodes = [example_part ''t'' [''dbt'', ''odcs''], example_part ''u'' [''dbt'']], gg_edges = [example_link [''dbt'', ''odcs'']]\<rparr>"
  by code_simp

text \<open>
  C13 (invariant). A graph that was built is in normal form and holds what was put in. Its nodes and edges are well formed,
  strictly sorted by canonical bytes (so there are no duplicates), with sorted provenance and with every ancestor
  and edge end present. No identity of the input was lost or added. A node has the name, the description and the attributes
  of all its occurrences in the input, an edge the attributes, and each carries exactly the provenance records of
  its occurrences.
\<close>

theorem from_parts_normal_form:
  assumes "list_all wf_node ns" "list_all wf_edge es" "from_parts ns es = Inr g"
  shows "wf_graph g \<and> gn_identity ` set (gg_nodes g) = gn_identity ` set ns \<and>
    logical_identity ` set (gg_edges g) = logical_identity ` set es \<and>
    (\<forall>n \<in> set (gg_nodes g). \<forall>m \<in> set ns. gn_identity m = gn_identity n \<longrightarrow>
      gn_name m = gn_name n \<and> gn_description m = gn_description n \<and> gn_attributes m = gn_attributes n) \<and>
    (\<forall>n \<in> set (gg_nodes g). set (gn_provenance n) =
      (\<Union>m \<in> {m \<in> set ns. gn_identity m = gn_identity n}. set (gn_provenance m))) \<and>
    (\<forall>e \<in> set (gg_edges g). \<forall>f \<in> set es. logical_identity f = logical_identity e \<longrightarrow> ge_attributes f = ge_attributes e) \<and>
    (\<forall>e \<in> set (gg_edges g). set (ge_provenance e) =
      (\<Union>f \<in> {f \<in> set es. logical_identity f = logical_identity e}. set (ge_provenance f)))"
proof -
  have g: "g = \<lparr>gg_nodes = merged_nodes ns, gg_edges = merged_edges es\<rparr>" "compatible_nodes ns" "compatible_edges es"
    using assms by (simp_all add: from_parts_def normalize_iff)
  have "m\<lparr>gn_provenance := gn_provenance n\<rparr> = n" if "n \<in> set (merged_nodes ns)" "m \<in> set ns" "gn_identity m = gn_identity n" for n m
    using node_merge.merged_content [OF g(2) [unfolded compatible_nodes_by]] that unfolding merged_nodes_def by blast
  then have nodes: "\<forall>n \<in> set (merged_nodes ns). \<forall>m \<in> set ns. gn_identity m = gn_identity n \<longrightarrow>
      gn_name m = gn_name n \<and> gn_description m = gn_description n \<and> gn_attributes m = gn_attributes n"
    by (metis GraphNode.select_convs(2-4) GraphNode.surjective GraphNode.update_convs(5))
  have "f\<lparr>ge_provenance := ge_provenance e\<rparr> = e" if "e \<in> set (merged_edges es)" "f \<in> set es" "logical_identity f = logical_identity e" for e f
    using edge_merge.merged_content [OF g(3) [unfolded compatible_edges_by]] that unfolding merged_edges_def by blast
  then have edges: "\<forall>e \<in> set (merged_edges es). \<forall>f \<in> set es. logical_identity f = logical_identity e \<longrightarrow> ge_attributes f = ge_attributes e"
    by (metis GraphEdge.select_convs(4) GraphEdge.surjective GraphEdge.update_convs(5))
  have parts: "\<forall>n \<in> set (merged_nodes ns). set (gn_provenance n) =
      (\<Union>m \<in> {m \<in> set ns. gn_identity m = gn_identity n}. set (gn_provenance m))"
    using node_merge.parts_merged [of _ ns] unfolding merged_nodes_def by (intro ballI) auto
  have edge_parts: "\<forall>e \<in> set (merged_edges es). set (ge_provenance e) =
      (\<Union>f \<in> {f \<in> set es. logical_identity f = logical_identity e}. set (ge_provenance f))"
    using edge_merge.parts_merged [of _ es] unfolding merged_edges_def by (intro ballI) auto
  have "wf_graph \<lparr>gg_nodes = merged_nodes ns, gg_edges = merged_edges es\<rparr>" using from_parts_wf [OF assms] g(1) by simp
  then show ?thesis
    unfolding g(1) GovernanceGraph.simps using merged_nodes_ids [of ns] merged_edges_ids [of es] nodes edges parts edge_parts
    by (intro conjI)
qed

theorem from_parts_normal_form_witness:
  "wf_graph \<lparr>gg_nodes = [example_part ''t'' [''dbt'', ''odcs''], example_part ''u'' [''dbt'']], gg_edges = [example_link [''dbt'', ''odcs'']]\<rparr> \<and>
   set (gn_provenance (example_part ''t'' [''dbt'', ''odcs''])) =
     set (gn_provenance (example_part ''t'' [''odcs''])) \<union> set (gn_provenance (example_part ''t'' [''dbt'']))"
proof -
  have "list_all wf_node [example_part ''u'' [''dbt''], example_part ''t'' [''odcs''], example_part ''t'' [''dbt'']]"
    "list_all wf_edge [example_link [''odcs''], example_link [''dbt'']]" using example_parts_wf by simp_all
  note built = from_parts_normal_form [OF this example_parts_build]
  show ?thesis
  proof
    show "wf_graph \<lparr>gg_nodes = [example_part ''t'' [''dbt'', ''odcs''], example_part ''u'' [''dbt'']], gg_edges = [example_link [''dbt'', ''odcs'']]\<rparr>"
      by (rule conjunct1 [OF built])
  qed (simp add: example_part_def insert_commute)
qed

text \<open>A graph in normal form is a fixed point: rebuilding it from its own nodes and edges
  gives the same graph.
\<close>

theorem from_parts_fixed_point:
  "wf_graph g \<Longrightarrow> from_parts (gg_nodes g) (gg_edges g) = Inr g"
  by (rule from_parts_normal)

theorem from_parts_fixed_point_witness:
  "from_parts [] [] = Inr \<lparr>gg_nodes = [], gg_edges = []\<rparr>"
  using from_parts_fixed_point [of "\<lparr>gg_nodes = [], gg_edges = []\<rparr>"]
  by (simp add: wf_graph_def normal_nodes_def normal_edges_def normal_by_def closed_parts_def)

text \<open>
  C15 (equivalence). The graph does not depend on the order or on repetitions of the parts it is built
  from: inputs with the same sets of nodes and edges give the same graph.
\<close>

theorem from_parts_order_independent:
  "list_all wf_node ns \<Longrightarrow> list_all wf_edge es \<Longrightarrow> set ns' = set ns \<Longrightarrow> set es' = set es \<Longrightarrow>
   from_parts ns' es' = Inr g \<longleftrightarrow> from_parts ns es = Inr g"
  by (metis from_parts_perm list_all_iff)

theorem from_parts_order_independent_witness:
  "\<exists>a b. a \<noteq> b \<and> (\<exists>g. from_parts [a, b, a] [] = Inr g \<and> from_parts [b, a] [] = Inr g)"
proof -
  let ?n = "\<lambda>t. \<lparr>gn_identity = GraphNodeIdentity ''n'' ''table'' t None,
      gn_name = t, gn_description = None, gn_attributes = CanonicalObject [], gn_provenance = []\<rparr>"
  have w: "list_all wf_node [?n ''a'', ?n ''b'']"
    by (simp add: wf_node_def stripped_def wf_attributes_def wf_cjson_def kind_defs) code_simp
  have base: "from_parts [?n ''a'', ?n ''b''] [] = Inr \<lparr>gg_nodes = [?n ''a'', ?n ''b''], gg_edges = []\<rparr>"
    by code_simp
  have perm: "from_parts ns [] = Inr \<lparr>gg_nodes = [?n ''a'', ?n ''b''], gg_edges = []\<rparr>"
    if same: "set ns = set [?n ''a'', ?n ''b'']" for ns
    by (rule from_parts_order_independent [OF w _ same refl, THEN iffD2, OF _ base]) simp
  show ?thesis
  proof (intro exI conjI)
    show "?n ''a'' \<noteq> ?n ''b''" by simp
    show "from_parts [?n ''a'', ?n ''b'', ?n ''a''] [] = Inr \<lparr>gg_nodes = [?n ''a'', ?n ''b''], gg_edges = []\<rparr>"
      by (rule perm) auto
    show "from_parts [?n ''b'', ?n ''a''] [] = Inr \<lparr>gg_nodes = [?n ''a'', ?n ''b''], gg_edges = []\<rparr>"
      by (rule perm) auto
  qed
qed

text \<open>The bytes that are hashed for the content identity of a graph determine the graph:
  two graphs in normal form have the same preimage only if they are equal, so equal content identities
  of different graphs would be a SHA-256 collision.
\<close>

theorem graph_identity_faithful:
  assumes "wf_graph g" "wf_graph h"
  shows "identity_preimage GraphId (canonical_dict_without_identity g) =
     identity_preimage GraphId (canonical_dict_without_identity h) \<longleftrightarrow> g = h"
proof -
  have "g = h" if eq: "canonical_dict_without_identity g = canonical_dict_without_identity h"
  proof -
    have "map node_to_dict (gg_nodes g) = map node_to_dict (gg_nodes h)"
      "map edge_to_dict (gg_edges g) = map edge_to_dict (gg_edges h)"
      using eq by (simp_all add: canonical_dict_without_identity_def)
    then have "gg_nodes g = gg_nodes h" "gg_edges g = gg_edges h"
      using map_inj_eq [OF _ node_to_dict_inj] map_inj_eq [OF _ edge_to_dict_inj] by blast+
    then show ?thesis by simp
  qed
  then show ?thesis
    using wf_graph_dict [OF assms(1)] wf_graph_dict [OF assms(2)]
    by (auto simp: identity_preimage_eq_iff canon_sorted)
qed

theorem graph_identity_faithful_witness:
  "identity_preimage GraphId (canonical_dict_without_identity \<lparr>gg_nodes = [], gg_edges = []\<rparr>) \<noteq>
   identity_preimage GraphId (canonical_dict_without_identity
     \<lparr>gg_nodes = [\<lparr>gn_identity = GraphNodeIdentity ''n'' ''table'' ''t'' None, gn_name = ''t'',
        gn_description = None, gn_attributes = CanonicalObject [], gn_provenance = []\<rparr>], gg_edges = []\<rparr>)"
proof -
  let ?n = "\<lparr>gn_identity = GraphNodeIdentity ''n'' ''table'' ''t'' None,
      gn_name = ''t'', gn_description = None, gn_attributes = CanonicalObject [], gn_provenance = []\<rparr>"
  have "wf_node ?n"
    by (simp add: wf_node_def stripped_def wf_attributes_def wf_cjson_def kind_defs) code_simp
  then have w: "wf_graph \<lparr>gg_nodes = [?n], gg_edges = []\<rparr>" "wf_graph \<lparr>gg_nodes = [], gg_edges = []\<rparr>"
    by (simp_all add: wf_graph_def normal_nodes_def normal_edges_def normal_by_def closed_parts_def ancestors_eq)
  show ?thesis by (subst graph_identity_faithful [OF w(2,1)]) simp
qed

end
