(* ===== verification/Observations.thy ===== *)
theory Observations
  imports Graph
begin

text \<open>
  \<open>domain/observations.py\<close>: JSON-pointer property paths, property observations, their normalization
  into an observation set, and the builder the mappers fill. A \<open>PropertyPath\<close> is its tuple of
  segments; a stored value is the plain JSON value \<open>normalize_json_value\<close> returns.
\<close>

section \<open>Property paths\<close>

type_synonym PropertyPath = "string list"

definition mk_property_path :: "string list \<Rightarrow> PropertyPath result" where
  "mk_property_path segments =
     (if segments = [] then Inl (ValueError ''PropertyPath requires at least one segment'')
      else Inr segments)"

text \<open>The inner loop of \<open>parse\<close>: one escape consumes two characters.\<close>

fun decode_segment :: "string \<Rightarrow> string result" where
  "decode_segment [] = Inr []"
| "decode_segment (c # cs) =
     (if c = CHR 0x7E then
        (case cs of
           [] \<Rightarrow> Inl (ValueError ''invalid JSON Pointer escape'')
         | d # ds \<Rightarrow>
             if d = CHR ''0'' then try_in (decode_segment ds) (\<lambda>r. Inr (CHR 0x7E # r))
             else if d = CHR ''1'' then try_in (decode_segment ds) (\<lambda>r. Inr (CHR ''/'' # r))
             else Inl (ValueError ''invalid JSON Pointer escape''))
      else try_in (decode_segment cs) (\<lambda>r. Inr (c # r)))"

definition parse_path :: "string \<Rightarrow> PropertyPath result" where
  "parse_path pointer =
     (if pointer = [] then Inl (ValueError ''root pointer is not a valid PropertyPath'')
      else if \<not> startswith ''/'' pointer then Inl (ValueError (''JSON Pointer must start with '' @ [CHR 0x27, CHR ''/'', CHR 0x27]))
      else try_in (traverse decode_segment (split_on CHR ''/'' (drop 1 pointer))) mk_property_path)"

definition escape_segment :: "string \<Rightarrow> string" where
  "escape_segment s = replace_char CHR ''/'' [CHR 0x7E, CHR ''1'']
     (replace_char CHR 0x7E [CHR 0x7E, CHR ''0''] s)"

definition to_pointer :: "PropertyPath \<Rightarrow> string" where
  "to_pointer p = ''/'' @ join ''/'' (map escape_segment p)"

lemma escape_segment_simps [simp]:
  "escape_segment [] = []"
  "escape_segment (c # cs) = (if c = CHR 0x7E then [CHR 0x7E, CHR ''0'']
     else if c = CHR ''/'' then [CHR 0x7E, CHR ''1''] else [c]) @ escape_segment cs"
  by (simp_all add: escape_segment_def)

lemma decode_escape: "decode_segment (escape_segment s) = Inr s"
  by (induction s) auto

lemma escape_no_slash: "CHR ''/'' \<notin> set (escape_segment s)"
  by (induction s) auto

lemma escape_decode: "CHR ''/'' \<notin> set r \<Longrightarrow> decode_segment r = Inr s \<Longrightarrow> escape_segment s = r"
proof (induction r arbitrary: s rule: length_induct)
  case (1 r)
  show ?case
  proof (cases r)
    case Nil
    with 1 show ?thesis by simp
  next
    case (Cons c cs)
    show ?thesis
    proof (cases "c = CHR 0x7E")
      case False
      then obtain t where "decode_segment cs = Inr t" "s = c # t"
        using "1.prems"(2) by (auto simp: Cons split_result)
      with 1 Cons False show ?thesis by auto
    next
      case True
      then obtain d ds t where "cs = d # ds" "decode_segment ds = Inr t"
        "d = CHR ''0'' \<and> s = CHR 0x7E # t \<or> d = CHR ''1'' \<and> s = CHR ''/'' # t"
        using "1.prems"(2) by (cases cs) (auto simp: Cons split_result split: if_splits)
      with 1 Cons True show ?thesis by auto
    qed
  qed
qed

lemma parse_to_pointer:
  assumes "p \<noteq> []" shows "parse_path (to_pointer p) = Inr p"
proof -
  have "split_on CHR ''/'' (join ''/'' (map escape_segment p)) = map escape_segment p"
    using assms escape_no_slash by (intro split_on_join) auto
  moreover have "traverse decode_segment (map escape_segment p) = Inr p"
    using traverse_Inr_map [of p "decode_segment \<circ> escape_segment" "\<lambda>x. x"]
    by (simp add: traverse_map decode_escape)
  ultimately show ?thesis
    using assms by (simp add: parse_path_def to_pointer_def startswith_def mk_property_path_def)
qed

lemma to_pointer_parse:
  assumes "parse_path s = Inr p" shows "p \<noteq> [] \<and> to_pointer p = s"
proof -
  obtain t where s: "s = CHR ''/'' # t"
    using assms by (cases s) (auto simp: parse_path_def startswith_def split: if_splits)
  have p: "p \<noteq> []" "traverse decode_segment (split_on CHR ''/'' t) = Inr p"
    using assms by (auto simp: parse_path_def s split_result mk_property_path_def startswith_def split: if_splits)
  have "map escape_segment p = split_on CHR ''/'' t"
    using p(2) unfolding traverse_Inr_iff
  proof (rule list_all2_map_eq)
    show "escape_segment y = x" if "x \<in> set (split_on CHR ''/'' t)" "decode_segment x = Inr y" for x y
      using that split_on_pieces escape_decode by blast
  qed
  then show ?thesis using p(1) by (simp add: to_pointer_def s join_split_on)
qed

lemma to_pointer_eq:
  "p \<noteq> [] \<Longrightarrow> q \<noteq> [] \<Longrightarrow> to_pointer p = to_pointer q \<longleftrightarrow> p = q"
  by (metis parse_to_pointer sum.inject(2))

section \<open>Observations\<close>

record PropertyObservation =
  ob_object_identity :: GraphNodeIdentity
  ob_property_path :: PropertyPath
  ob_value :: json
  ob_provenance :: "ProvenanceRecord list"

definition mk_observation ::
  "GraphNodeIdentity \<Rightarrow> PropertyPath \<Rightarrow> pyvalue \<Rightarrow> ProvenanceRecord list \<Rightarrow> PropertyObservation result" where
  "mk_observation object_identity property_path value provenance =
     try_in (normalize_json_value value) (\<lambda>v.
       if provenance = [] then Inl (ValueError ''PropertyObservation.provenance must be non-empty'')
       else Inr \<lparr>ob_object_identity = object_identity, ob_property_path = property_path, ob_value = v,
                 ob_provenance = merge_provenance provenance\<rparr>)"

definition value_fingerprint :: "PropertyObservation \<Rightarrow> string" where
  "value_fingerprint ob = canonical_value_fingerprint (ob_value ob)"

definition grouping_key :: "PropertyObservation \<Rightarrow> string \<times> string \<times> string" where
  "grouping_key ob = (canonical_bytes (ob_object_identity ob), to_pointer (ob_property_path ob), value_fingerprint ob)"

definition to_identity_entry :: "PropertyObservation \<Rightarrow> json" where
  "to_identity_entry ob = JObject [(''object'', identity_to_dict (ob_object_identity ob)),
     (''property'', JStr (to_pointer (ob_property_path ob))),
     (''provenance'', JArray (map provenance_to_dict (ob_provenance ob))), (''value'', ob_value ob)]"

definition to_value_group_dict :: "PropertyObservation \<Rightarrow> json" where
  "to_value_group_dict ob = JObject
     [(''provenance'', JArray (map provenance_to_dict (ob_provenance ob))), (''value'', ob_value ob)]"

definition merge_observation_group ::
  "(string \<times> string \<times> string) \<times> PropertyObservation list \<Rightarrow> PropertyObservation result" where
  "merge_observation_group = (\<lambda>(key, group). case group of
      [] \<Rightarrow> Inl IndexError
    | base # _ \<Rightarrow> mk_observation (ob_object_identity base) (ob_property_path base)
        (py_of_json (ob_value base)) (merge_provenance (concat (map ob_provenance group))))"

definition observation_sort_key :: "PropertyObservation \<Rightarrow> string" where
  "observation_sort_key ob = canonical_json_bytes (to_identity_entry ob)"

definition normalize_observations :: "PropertyObservation list \<Rightarrow> PropertyObservation list result" where
  "normalize_observations observations =
     try_in (traverse merge_observation_group (group_by grouping_key observations)) (\<lambda>merged.
       Inr (sort_key observation_sort_key merged))"

record PropertyObservationSet =
  os_observations :: "PropertyObservation list"

definition from_observations :: "PropertyObservation list \<Rightarrow> PropertyObservationSet result" where
  "from_observations observations =
     try_in (normalize_observations observations) (\<lambda>obs. Inr \<lparr>os_observations = obs\<rparr>)"

definition merge_sets :: "PropertyObservationSet list \<Rightarrow> PropertyObservationSet result" where
  "merge_sets sets =
     (if sets = [] then Inr \<lparr>os_observations = []\<rparr>
      else from_observations (concat (map os_observations sets)))"

definition observation_set_dict :: "PropertyObservationSet \<Rightarrow> json" where
  "observation_set_dict s = JObject
     [(''observation_schema'', JStr ''governance-property-observations''),
      (''observation_version'', JStr ''1''),
      (''observations'', JArray (map to_identity_entry (os_observations s)))]"

definition observation_set_identity :: "(string \<Rightarrow> string) \<Rightarrow> PropertyObservationSet \<Rightarrow> ContentIdentity" where
  "observation_set_identity sha s = sha256_identity sha PropertyObservationsId (observation_set_dict s)"

text \<open>\<open>PropertyObservationBuilder\<close>: the pending list and its two operations.\<close>

type_synonym pending = "(GraphNodeIdentity \<times> PropertyPath \<times> pyvalue \<times> ProvenanceRecord) list"

definition observe ::
  "GraphNodeIdentity \<Rightarrow> PropertyPath \<Rightarrow> pyvalue \<Rightarrow> ProvenanceRecord \<Rightarrow> pending \<Rightarrow> pending" where
  "observe object_identity property_path value provenance p =
     p @ [(object_identity, property_path, value, provenance)]"

definition build :: "pending \<Rightarrow> PropertyObservationSet result" where
  "build p = try_in (traverse (\<lambda>(i, path, v, r). mk_observation i path v [r]) p) from_observations"

section \<open>Normalization, characterized\<close>

definition wf_observation :: "PropertyObservation \<Rightarrow> bool" where
  "wf_observation ob \<longleftrightarrow> wf_identity (ob_object_identity ob) \<and> ob_property_path ob \<noteq> [] \<and>
     wf_json (ob_value ob) \<and> sorted_json (ob_value ob) \<and> ob_provenance ob \<noteq> [] \<and>
     list_all wf_provenance (ob_provenance ob)"

lemma wf_to_identity_entry:
  "wf_observation ob \<Longrightarrow> wf_json (to_identity_entry ob) \<and> sorted_json (to_identity_entry ob)"
  by (simp add: wf_observation_def to_identity_entry_def list_all_iff)

lemma to_identity_entry_inj:
  assumes "wf_observation x" "wf_observation y" "to_identity_entry x = to_identity_entry y"
  shows "x = y"
proof (rule PropertyObservation.equality)
  show "ob_object_identity x = ob_object_identity y" "ob_value x = ob_value y"
    using assms(3) by (simp_all add: to_identity_entry_def)
  show "ob_property_path x = ob_property_path y"
    using assms by (auto simp: to_identity_entry_def wf_observation_def to_pointer_eq)
  show "ob_provenance x = ob_provenance y"
    using assms(3) by (simp add: to_identity_entry_def)
qed simp

lemma observation_sort_key_inj:
  assumes "wf_observation x" "wf_observation y" "observation_sort_key x = observation_sort_key y"
  shows "x = y"
  using wf_to_identity_entry [OF assms(1)] wf_to_identity_entry [OF assms(2)] assms
  by (auto simp: observation_sort_key_def intro: to_identity_entry_inj canonical_json_bytes_inj)

text \<open>The grouping key identifies object, path and value.\<close>

lemma grouping_key_eq:
  assumes "wf_observation x" "wf_observation y"
  shows "grouping_key x = grouping_key y \<longleftrightarrow> x\<lparr>ob_provenance := []\<rparr> = y\<lparr>ob_provenance := []\<rparr>"
proof -
  have "canonical_json_bytes (ob_value x) = canonical_json_bytes (ob_value y) \<longleftrightarrow> ob_value x = ob_value y"
    using assms by (auto simp: wf_observation_def intro: canonical_json_bytes_inj)
  moreover have "to_pointer (ob_property_path x) = to_pointer (ob_property_path y) \<longleftrightarrow>
      ob_property_path x = ob_property_path y"
    using assms by (simp add: wf_observation_def to_pointer_eq)
  ultimately show ?thesis
    by (cases x, cases y) (simp add: grouping_key_def value_fingerprint_def canonical_value_fingerprint_def)
qed

interpretation observation_merge: keyed_merge canonical_sort_key wf_provenance grouping_key
  observation_sort_key ob_provenance "\<lambda>ps ob. ob\<lparr>ob_provenance := ps\<rparr>" wf_observation
proof unfold_locales
  show "grouping_key x = grouping_key y"
    if "wf_observation x" "wf_observation y" "observation_sort_key x = observation_sort_key y" for x y
    using observation_sort_key_inj [OF that] by simp
qed (auto simp: wf_observation_def grouping_key_def value_fingerprint_def)

definition merged_observations :: "PropertyObservation list \<Rightarrow> PropertyObservation list" where
  "merged_observations = merged_by canonical_sort_key grouping_key observation_sort_key ob_provenance
     (\<lambda>ps ob. ob\<lparr>ob_provenance := ps\<rparr>)"

definition normal_observations :: "PropertyObservation list \<Rightarrow> bool" where
  "normal_observations = normal_by canonical_sort_key grouping_key observation_sort_key ob_provenance"

lemma mk_observation_wf_value:
  "wf_json v \<Longrightarrow> sorted_json v \<Longrightarrow> ps \<noteq> [] \<Longrightarrow> mk_observation i path (py_of_json v) ps =
   Inr \<lparr>ob_object_identity = i, ob_property_path = path, ob_value = v, ob_provenance = merge_provenance ps\<rparr>"
  by (simp add: mk_observation_def normalize_py_of_json canon_sorted)

lemma merge_observation_group_eq:
  assumes "(k, g) \<in> set (group_by grouping_key obs)" "list_all wf_observation obs"
  shows "merge_observation_group (k, g) =
    Inr (merge_group canonical_sort_key ob_provenance (\<lambda>ps ob. ob\<lparr>ob_provenance := ps\<rparr>) g)"
proof -
  obtain base rest where g: "g = base # rest" using group_by_nonempty [OF assms(1)] by (cases g) auto
  have "set g \<subseteq> set obs" using assms(1) by (auto simp: group_by_member)
  then have "wf_observation base" using assms(2) by (auto simp: g list_all_iff)
  then show ?thesis
    by (simp add: merge_observation_group_def g merge_group_def mk_observation_wf_value wf_observation_def
        merge_provenance_def)
qed

lemma normalize_observations_eq:
  assumes "list_all wf_observation obs"
  shows "normalize_observations obs = Inr (merged_observations obs)"
proof -
  have "traverse merge_observation_group (group_by grouping_key obs) =
      Inr (map (\<lambda>(k, g). merge_group canonical_sort_key ob_provenance (\<lambda>ps ob. ob\<lparr>ob_provenance := ps\<rparr>) g)
        (group_by grouping_key obs))"
    by (rule traverse_Inr_map) (auto simp: merge_observation_group_eq [OF _ assms])
  then show ?thesis by (simp add: normalize_observations_def merged_observations_def merged_by_def)
qed

lemma from_observations_eq:
  "list_all wf_observation obs \<Longrightarrow> from_observations obs = Inr \<lparr>os_observations = merged_observations obs\<rparr>"
  by (simp add: from_observations_def normalize_observations_eq)

lemma compatible_observations:
  "list_all wf_observation obs \<Longrightarrow> compatible_by grouping_key (\<lambda>ps ob. ob\<lparr>ob_provenance := ps\<rparr>) obs"
  unfolding compatible_by_def list_all_iff using grouping_key_eq by blast

lemma good_merged_observations:
  "list_all wf_observation obs \<Longrightarrow> list_all wf_observation (merged_observations obs)"
  using observation_merge.good_merged by (auto simp: merged_observations_def list_all_iff)

lemma normal_merged_observations:
  "list_all wf_observation obs \<Longrightarrow> normal_observations (merged_observations obs)"
  unfolding normal_observations_def merged_observations_def by (rule observation_merge.normal_merged)

lemma merged_observations_cong:
  "list_all wf_observation xs \<Longrightarrow> set xs = set ys \<Longrightarrow> merged_observations xs = merged_observations ys"
  unfolding merged_observations_def by (rule observation_merge.merged_cong [OF _ compatible_observations])

lemma merged_observations_append:
  "list_all wf_observation xs \<Longrightarrow> list_all wf_observation ys \<Longrightarrow>
   merged_observations (merged_observations xs @ ys) = merged_observations (xs @ ys)"
  unfolding merged_observations_def by (rule observation_merge.merged_append)

definition wf_observation_set :: "PropertyObservationSet \<Rightarrow> bool" where
  "wf_observation_set s \<longleftrightarrow> list_all wf_observation (os_observations s) \<and>
     normal_observations (os_observations s)"

lemma from_observations_wf:
  "list_all wf_observation obs \<Longrightarrow> from_observations obs = Inr s \<Longrightarrow> wf_observation_set s"
  by (auto simp: from_observations_eq wf_observation_set_def good_merged_observations normal_merged_observations)

lemma merged_observations_normal:
  "normal_observations obs \<Longrightarrow> merged_observations obs = obs" for obs :: "PropertyObservation list"
  unfolding normal_observations_def merged_observations_def by (rule observation_merge.merged_normal)

text \<open>Every (object, path, value) of a normal set occurs once.\<close>

lemma normal_observations_distinct:
  "normal_observations obs \<Longrightarrow> distinct (map grouping_key obs)" for obs :: "PropertyObservation list"
  unfolding normal_observations_def by (rule normal_by_distinct)

lemma merge_sets_two:
  assumes "list_all wf_observation xs" "list_all wf_observation ys"
  shows "merge_sets [\<lparr>os_observations = merged_observations xs\<rparr>, \<lparr>os_observations = merged_observations ys\<rparr>] =
    Inr \<lparr>os_observations = merged_observations (xs @ ys)\<rparr>"
proof -
  note good = good_merged_observations [OF assms(1)] good_merged_observations [OF assms(2)]
  have "merged_observations (merged_observations xs @ merged_observations ys) =
      merged_observations (merged_observations ys @ xs)"
    using assms good merged_observations_append [OF assms(1) good(2)]
      merged_observations_cong [of "xs @ merged_observations ys" "merged_observations ys @ xs"]
    by (simp add: Un_commute)
  also have "\<dots> = merged_observations (xs @ ys)"
    using assms merged_observations_append [OF assms(2,1)]
      merged_observations_cong [of "ys @ xs" "xs @ ys"] by (simp add: Un_commute)
  finally show ?thesis using good by (simp add: merge_sets_def from_observations_eq)
qed

lemma merged_observations_content:
  assumes "list_all wf_observation obs"
  shows "(\<exists>x \<in> set (merged_observations obs). x\<lparr>ob_provenance := []\<rparr> = y \<and> r \<in> set (ob_provenance x)) \<longleftrightarrow>
    (\<exists>x \<in> set obs. x\<lparr>ob_provenance := []\<rparr> = y \<and> r \<in> set (ob_provenance x))"
proof -
  note good = good_merged_observations [OF assms]
  have wf: "wf_observation x" if "x \<in> set (merged_observations obs) \<union> set obs" for x
    using that assms good by (auto simp: list_all_iff)
  have parts: "set (ob_provenance x) = (\<Union>z \<in> {z \<in> set obs. grouping_key z = grouping_key x}. set (ob_provenance z))"
    if member: "x \<in> set (merged_observations obs)" for x
    using observation_merge.parts_merged [OF member [unfolded merged_observations_def]] by auto
  have keys: "grouping_key ` set (merged_observations obs) = grouping_key ` set obs"
    unfolding merged_observations_def by (rule observation_merge.ident_set_merged)
  show ?thesis
  proof
    assume "\<exists>x \<in> set (merged_observations obs). x\<lparr>ob_provenance := []\<rparr> = y \<and> r \<in> set (ob_provenance x)"
    then obtain x where x: "x \<in> set (merged_observations obs)" "x\<lparr>ob_provenance := []\<rparr> = y" "r \<in> set (ob_provenance x)"
      by blast
    then obtain z where "z \<in> set obs" "grouping_key z = grouping_key x" "r \<in> set (ob_provenance z)"
      using parts by blast
    then show "\<exists>x \<in> set obs. x\<lparr>ob_provenance := []\<rparr> = y \<and> r \<in> set (ob_provenance x)"
      using grouping_key_eq wf x by blast
  next
    assume "\<exists>x \<in> set obs. x\<lparr>ob_provenance := []\<rparr> = y \<and> r \<in> set (ob_provenance x)"
    then obtain z where z: "z \<in> set obs" "z\<lparr>ob_provenance := []\<rparr> = y" "r \<in> set (ob_provenance z)" by blast
    then have "grouping_key z \<in> grouping_key ` set (merged_observations obs)" unfolding keys by blast
    then obtain x where x: "x \<in> set (merged_observations obs)" "grouping_key z = grouping_key x" by blast
    then have "x\<lparr>ob_provenance := []\<rparr> = y" using grouping_key_eq [of z x] wf z by simp
    moreover have "r \<in> set (ob_provenance x)" using parts x z by blast
    ultimately show "\<exists>x \<in> set (merged_observations obs). x\<lparr>ob_provenance := []\<rparr> = y \<and> r \<in> set (ob_provenance x)"
      using x by blast
  qed
qed

fun wf_pending :: "GraphNodeIdentity \<times> PropertyPath \<times> pyvalue \<times> ProvenanceRecord \<Rightarrow> bool" where
  "wf_pending (i, path, v, r) \<longleftrightarrow> wf_identity i \<and> path \<noteq> [] \<and> wf_py v \<and> wf_provenance r"

lemma mk_observation_single:
  "mk_observation i path raw [r] = Inr x \<longleftrightarrow> (\<exists>v. normalize_json_value raw = Inr v \<and>
     x = \<lparr>ob_object_identity = i, ob_property_path = path, ob_value = v, ob_provenance = [r]\<rparr>)"
  by (auto simp: mk_observation_def split_result merge_provenance_def canon_set_def unique_def)

lemma build_observations:
  assumes "traverse (\<lambda>(i, path, v, r). mk_observation i path v [r]) p = Inr obs" "list_all wf_pending p"
  shows "list_all wf_observation obs"
    and "(\<exists>x \<in> set obs. x\<lparr>ob_provenance := []\<rparr> =
           \<lparr>ob_object_identity = i, ob_property_path = path, ob_value = v, ob_provenance = []\<rparr> \<and>
           r \<in> set (ob_provenance x)) \<longleftrightarrow>
         (\<exists>raw. (i, path, raw, r) \<in> set p \<and> normalize_json_value raw = Inr v)"
proof -
  let ?f = "\<lambda>(i, path, v, r). mk_observation i path v [r]"
  have all: "list_all2 (\<lambda>x y. ?f x = Inr y) p obs" using assms(1) by (simp add: traverse_Inr_iff)
  have right: "\<exists>z \<in> set p. ?f z = Inr x" if "x \<in> set obs" for x
    using list_all2_right [OF all that] .
  have left: "\<exists>x \<in> set obs. ?f z = Inr x" if "z \<in> set p" for z
    using all that by (induction rule: list_all2_induct) auto
  show "list_all wf_observation obs"
    unfolding list_all_iff
  proof
    fix x assume "x \<in> set obs"
    then obtain i path raw r where "(i, path, raw, r) \<in> set p" "mk_observation i path raw [r] = Inr x"
      using right by fastforce
    moreover have "wf_pending (i, path, raw, r)" using calculation(1) assms(2) by (auto simp: list_all_iff)
    ultimately show "wf_observation x"
      using normalize_wf [of raw] by (auto simp: mk_observation_single wf_observation_def)
  qed
  show "(\<exists>x \<in> set obs. x\<lparr>ob_provenance := []\<rparr> =
           \<lparr>ob_object_identity = i, ob_property_path = path, ob_value = v, ob_provenance = []\<rparr> \<and>
           r \<in> set (ob_provenance x)) \<longleftrightarrow>
         (\<exists>raw. (i, path, raw, r) \<in> set p \<and> normalize_json_value raw = Inr v)" (is "?L \<longleftrightarrow> ?R")
  proof
    assume ?L
    then obtain x where x: "x \<in> set obs" "x\<lparr>ob_provenance := []\<rparr> =
        \<lparr>ob_object_identity = i, ob_property_path = path, ob_value = v, ob_provenance = []\<rparr>"
      "r \<in> set (ob_provenance x)" by blast
    then obtain j q raw s where "(j, q, raw, s) \<in> set p" "mk_observation j q raw [s] = Inr x"
      using right by fastforce
    then show ?R using x by (auto simp: mk_observation_single)
  next
    assume ?R
    then obtain raw where raw: "(i, path, raw, r) \<in> set p" "normalize_json_value raw = Inr v" by blast
    then have "\<lparr>ob_object_identity = i, ob_property_path = path, ob_value = v, ob_provenance = [r]\<rparr> \<in> set obs"
      using left [OF raw(1)] by (auto simp: mk_observation_single)
    then show ?L by (intro bexI) auto
  qed
qed

lemma wf_observation_set_dict:
  "wf_observation_set s \<Longrightarrow> wf_json (observation_set_dict s) \<and> sorted_json (observation_set_dict s)"
  using wf_to_identity_entry by (simp add: observation_set_dict_def wf_observation_set_def list_all_iff)

section \<open>Properties\<close>

text \<open>
  C16 (roundtrip). JSON pointers and non-empty segment lists correspond one to one: \<open>parse\<close> accepts
  exactly the texts \<open>to_pointer\<close> writes, and returns the segments they were written from.
\<close>

theorem pointer_bijection:
  "parse_path s = Inr p \<longleftrightarrow> p \<noteq> [] \<and> to_pointer p = s"
  using parse_to_pointer to_pointer_parse by blast

text \<open>What a builder builds: a well-formed normal observation set that records, for every
  object, path and value, exactly the provenance records observed with a value that normalizes to it.
\<close>

theorem build_content:
  assumes "list_all wf_pending p" "build p = Inr s"
  shows "wf_observation_set s \<and>
    (\<forall>i path v r. (\<exists>x \<in> set (os_observations s). ob_object_identity x = i \<and> ob_property_path x = path \<and>
        ob_value x = v \<and> r \<in> set (ob_provenance x)) \<longleftrightarrow>
      (\<exists>raw. (i, path, raw, r) \<in> set p \<and> normalize_json_value raw = Inr v))"
proof -
  obtain obs where obs: "traverse (\<lambda>(i, path, v, r). mk_observation i path v [r]) p = Inr obs"
    "from_observations obs = Inr s"
    using assms(2) by (auto simp: build_def split_result)
  note good = build_observations(1) [OF obs(1) assms(1)]
  have s: "os_observations s = merged_observations obs"
    using obs(2) from_observations_eq [OF good] by auto
  have eq: "x\<lparr>ob_provenance := []\<rparr> = \<lparr>ob_object_identity = i, ob_property_path = path, ob_value = v, ob_provenance = []\<rparr>
      \<longleftrightarrow> ob_object_identity x = i \<and> ob_property_path x = path \<and> ob_value x = v" for x :: PropertyObservation and i path v
    by (cases x) auto
  have "(\<exists>x \<in> set (os_observations s). x\<lparr>ob_provenance := []\<rparr> =
        \<lparr>ob_object_identity = i, ob_property_path = path, ob_value = v, ob_provenance = []\<rparr> \<and> r \<in> set (ob_provenance x)) \<longleftrightarrow>
      (\<exists>raw. (i, path, raw, r) \<in> set p \<and> normalize_json_value raw = Inr v)" for i path v r
    unfolding s merged_observations_content [OF good] by (rule build_observations(2) [OF obs(1) assms(1)])
  then show ?thesis using from_observations_wf [OF good obs(2)] by (simp only: eq conj_assoc) simp
qed

theorem build_content_witness:
  "\<exists>s. build [(GraphNodeIdentity ''n'' ''table'' ''t'' None, [''owner''], PyStr ''ann'',
      \<lparr>pr_provider_type = ''dbt'', pr_source_ref = ''a'', pr_source_version = None, pr_observation_mode = ''observed''\<rparr>)]
      = Inr s \<and> wf_observation_set s"
proof -
  let ?p = "[(GraphNodeIdentity ''n'' ''table'' ''t'' None, [''owner''], PyStr ''ann'',
      \<lparr>pr_provider_type = ''dbt'', pr_source_ref = ''a'', pr_source_version = None, pr_observation_mode = ''observed''\<rparr>)]"
  have w: "list_all wf_pending ?p" by code_simp
  have "\<not> isl (build ?p)" by code_simp
  then obtain s where "build ?p = Inr s" by (cases "build ?p") auto
  with build_content [OF w this] show ?thesis by blast
qed

text \<open>
  C17 (equivalence). Merging the sets built from two lists of observations is the set built from both
  lists together: what is stored does not depend on how the observations were split up. The lists hold well-formed
  observations.
\<close>

theorem merge_sets_append:
  "list_all wf_observation xs \<Longrightarrow> list_all wf_observation ys \<Longrightarrow>
   from_observations xs = Inr s \<Longrightarrow> from_observations ys = Inr t \<Longrightarrow>
   merge_sets [s, t] = from_observations (xs @ ys)"
  using merge_sets_two [of xs ys] by (auto simp: from_observations_eq)

definition example_observed :: "string \<Rightarrow> string list \<Rightarrow> PropertyObservation" where
  "example_observed v providers = \<lparr>ob_object_identity = GraphNodeIdentity ''n'' ''table'' ''t'' None, ob_property_path = [''owner''],
     ob_value = JStr v, ob_provenance = map example_record providers\<rparr>"

text \<open>One value is seen by both providers and is recorded once, with both.\<close>

theorem merge_sets_append_witness:
  "merge_sets [\<lparr>os_observations = [example_observed ''ann'' [''dbt''], example_observed ''bob'' [''dbt'']]\<rparr>,
     \<lparr>os_observations = [example_observed ''ann'' [''odcs'']]\<rparr>] =
   Inr \<lparr>os_observations = [example_observed ''ann'' [''dbt'', ''odcs''], example_observed ''bob'' [''dbt'']]\<rparr>"
proof -
  have wf: "list_all wf_observation [example_observed ''ann'' [''dbt''], example_observed ''bob'' [''dbt'']]"
    "list_all wf_observation [example_observed ''ann'' [''odcs'']]" by code_simp+
  have normal: "normal_observations [example_observed ''ann'' [''dbt''], example_observed ''bob'' [''dbt'']]"
    "normal_observations [example_observed ''ann'' [''odcs'']]" by code_simp+
  have "merge_sets [\<lparr>os_observations = [example_observed ''ann'' [''dbt''], example_observed ''bob'' [''dbt'']]\<rparr>,
      \<lparr>os_observations = [example_observed ''ann'' [''odcs'']]\<rparr>] =
    from_observations ([example_observed ''ann'' [''dbt''], example_observed ''bob'' [''dbt'']] @ [example_observed ''ann'' [''odcs'']])"
  proof (rule merge_sets_append)
    show "list_all wf_observation [example_observed ''ann'' [''dbt''], example_observed ''bob'' [''dbt'']]" by (rule wf)
    show "list_all wf_observation [example_observed ''ann'' [''odcs'']]" by (rule wf)
    show "from_observations [example_observed ''ann'' [''dbt''], example_observed ''bob'' [''dbt'']] =
        Inr \<lparr>os_observations = [example_observed ''ann'' [''dbt''], example_observed ''bob'' [''dbt'']]\<rparr>"
      using wf normal by (simp add: from_observations_eq merged_observations_normal)
    show "from_observations [example_observed ''ann'' [''odcs'']] = Inr \<lparr>os_observations = [example_observed ''ann'' [''odcs'']]\<rparr>"
      using wf normal by (simp add: from_observations_eq merged_observations_normal)
  qed
  also have "\<dots> = Inr \<lparr>os_observations = [example_observed ''ann'' [''dbt'', ''odcs''], example_observed ''bob'' [''dbt'']]\<rparr>"
  proof -
    have "list_all wf_observation ([example_observed ''ann'' [''dbt''], example_observed ''bob'' [''dbt'']] @ [example_observed ''ann'' [''odcs'']])"
      using wf by simp
    moreover have "merged_observations ([example_observed ''ann'' [''dbt''], example_observed ''bob'' [''dbt'']] @ [example_observed ''ann'' [''odcs'']]) =
        [example_observed ''ann'' [''dbt'', ''odcs''], example_observed ''bob'' [''dbt'']]" by code_simp
    ultimately show ?thesis by (simp only: from_observations_eq)
  qed
  finally show ?thesis .
qed

text \<open>The bytes hashed for the identity of an observation set determine the set.
\<close>

theorem observation_identity_faithful:
  assumes "wf_observation_set s" "wf_observation_set t"
  shows "identity_preimage PropertyObservationsId (observation_set_dict s) =
     identity_preimage PropertyObservationsId (observation_set_dict t) \<longleftrightarrow> s = t"
proof -
  have "s = t" if eq: "observation_set_dict s = observation_set_dict t"
  proof -
    have m: "map to_identity_entry (os_observations s) = map to_identity_entry (os_observations t)"
      using eq by (simp add: observation_set_dict_def)
    moreover have "inj_on to_identity_entry (set (os_observations s) \<union> set (os_observations t))"
      using assms to_identity_entry_inj by (auto simp: wf_observation_set_def list_all_iff inj_on_def)
    ultimately have "os_observations s = os_observations t" by (simp add: inj_on_map_eq_map)
    then show ?thesis by simp
  qed
  then show ?thesis
    using wf_observation_set_dict [OF assms(1)] wf_observation_set_dict [OF assms(2)]
    by (auto simp: identity_preimage_eq_iff canon_sorted)
qed

theorem observation_identity_faithful_witness:
  "identity_preimage PropertyObservationsId (observation_set_dict \<lparr>os_observations = []\<rparr>) \<noteq>
   identity_preimage PropertyObservationsId (observation_set_dict \<lparr>os_observations =
     [\<lparr>ob_object_identity = GraphNodeIdentity ''n'' ''table'' ''t'' None, ob_property_path = [''owner''],
       ob_value = JStr ''ann'', ob_provenance = [\<lparr>pr_provider_type = ''dbt'', pr_source_ref = ''a'',
         pr_source_version = None, pr_observation_mode = ''observed''\<rparr>]\<rparr>]\<rparr>)"
proof -
  let ?o = "\<lparr>ob_object_identity = GraphNodeIdentity ''n'' ''table'' ''t'' None, ob_property_path = [''owner''],
       ob_value = JStr ''ann'', ob_provenance = [\<lparr>pr_provider_type = ''dbt'', pr_source_ref = ''a'',
         pr_source_version = None, pr_observation_mode = ''observed''\<rparr>]\<rparr>"
  have "wf_observation ?o" by code_simp
  then have w: "wf_observation_set \<lparr>os_observations = [?o]\<rparr>" "wf_observation_set \<lparr>os_observations = []\<rparr>"
    by (simp_all add: wf_observation_set_def normal_observations_def normal_by_def)
  show ?thesis by (subst observation_identity_faithful [OF w(2,1)]) simp
qed

end
