(* ===== verification/Authority.thy ===== *)
theory Authority
  imports Observations
begin

text \<open>
  \<open>domain/authority.py\<close>: which provider is authoritative for a property. A selector picks objects by
  kind, property path and optionally namespace; a target picks provenance records by provider and
  optionally source. The normalized policy set collapses rules with equal keys and unions their
  declarations: one more interpretation of \<open>keyed_merge\<close>.
\<close>

section \<open>Rules\<close>

record AuthoritySelector =
  as_kind :: string
  as_property_path :: PropertyPath
  as_namespace :: "string option"

record AuthorityTarget =
  at_provider_type :: string
  at_source_ref :: "string option"

record AuthorityRuleKey =
  rk_selector :: AuthoritySelector
  rk_authority :: AuthorityTarget

record AuthorityDeclaration =
  ad_config_id :: string
  ad_description :: "string option"

record NormalizedAuthorityRule =
  nr_key :: AuthorityRuleKey
  nr_declarations :: "AuthorityDeclaration list"

definition AUTHORITY_NODE_KINDS :: "string list" where
  "AUTHORITY_NODE_KINDS = [NODE_KIND_DATA_SOURCE, NODE_KIND_DATASET, NODE_KIND_TABLE, NODE_KIND_COLUMN,
     NODE_KIND_CONTRACT, NODE_KIND_TRANSFORMATION]"

definition require_optional_str :: "string option \<Rightarrow> string \<Rightarrow> string option result" where
  "require_optional_str v field_name =
     (case v of None \<Rightarrow> Inr None
      | Some s \<Rightarrow> try_in (require_non_empty_str s field_name) (\<lambda>t. Inr (Some t)))"

definition mk_selector :: "string \<Rightarrow> PropertyPath \<Rightarrow> string option \<Rightarrow> AuthoritySelector result" where
  "mk_selector kind property_path namespace =
     try_in (require_non_empty_str kind ''kind'') (\<lambda>k.
       if k \<notin> set AUTHORITY_NODE_KINDS then Inl (ValueError (''unsupported authority kind: '' @ k))
       else try_in (require_optional_str namespace ''namespace'') (\<lambda>n.
         Inr \<lparr>as_kind = k, as_property_path = property_path, as_namespace = n\<rparr>))"

definition specificity_rank :: "AuthoritySelector \<Rightarrow> nat" where
  "specificity_rank s = (if as_namespace s \<noteq> None then 2 else 1)"

definition selector_matches :: "AuthoritySelector \<Rightarrow> GraphNodeIdentity \<Rightarrow> PropertyPath \<Rightarrow> bool" where
  "selector_matches s identity property_path =
     (if gi_kind identity \<noteq> as_kind s then False
      else if property_path \<noteq> as_property_path s then False
      else as_namespace s = None \<or> as_namespace s = Some (gi_namespace identity))"

definition selector_to_dict :: "AuthoritySelector \<Rightarrow> json" where
  "selector_to_dict s = JObject ([(''kind'', JStr (as_kind s)),
     (''property'', JStr (to_pointer (as_property_path s)))] @
     (case as_namespace s of None \<Rightarrow> [] | Some n \<Rightarrow> [(''namespace'', JStr n)]))"

definition mk_target :: "string \<Rightarrow> string option \<Rightarrow> AuthorityTarget result" where
  "mk_target provider_type source_ref =
     try_in (require_non_empty_str provider_type ''provider_type'') (\<lambda>p.
     try_in (require_optional_str source_ref ''source_ref'') (\<lambda>s.
       Inr \<lparr>at_provider_type = p, at_source_ref = s\<rparr>))"

definition target_matches :: "AuthorityTarget \<Rightarrow> ProvenanceRecord \<Rightarrow> bool" where
  "target_matches t record =
     (if pr_provider_type record \<noteq> at_provider_type t then False
      else at_source_ref t = None \<or> at_source_ref t = Some (pr_source_ref record))"

definition target_to_dict :: "AuthorityTarget \<Rightarrow> json" where
  "target_to_dict t = JObject ([(''provider_type'', JStr (at_provider_type t))] @
     (case at_source_ref t of None \<Rightarrow> [] | Some s \<Rightarrow> [(''source_ref'', JStr s)]))"

definition rule_key_to_dict :: "AuthorityRuleKey \<Rightarrow> json" where
  "rule_key_to_dict k = JObject [(''authority'', target_to_dict (rk_authority k)),
     (''select'', selector_to_dict (rk_selector k))]"

definition rule_key_bytes :: "AuthorityRuleKey \<Rightarrow> string" where
  "rule_key_bytes k = canonical_json_bytes (rule_key_to_dict k)"

definition mk_declaration :: "string \<Rightarrow> string option \<Rightarrow> AuthorityDeclaration result" where
  "mk_declaration config_id description =
     try_in (require_non_empty_str config_id ''config_id'') (\<lambda>c.
     try_in (require_optional_str description ''description'') (\<lambda>d.
       Inr \<lparr>ad_config_id = c, ad_description = d\<rparr>))"

definition declaration_sort_key :: "AuthorityDeclaration \<Rightarrow> string \<times> string" where
  "declaration_sort_key d = (ad_config_id d, case ad_description d of None \<Rightarrow> [] | Some t \<Rightarrow> t)"

definition mk_rule :: "AuthorityRuleKey \<Rightarrow> AuthorityDeclaration list \<Rightarrow> NormalizedAuthorityRule result" where
  "mk_rule key declarations =
     (if declarations = [] then Inl (ValueError ''NormalizedAuthorityRule.declarations must be non-empty'')
      else Inr \<lparr>nr_key = key, nr_declarations = canon_set declaration_sort_key declarations\<rparr>)"

section \<open>The normalized set\<close>

definition rule_sort_key :: "NormalizedAuthorityRule \<Rightarrow> string" where
  "rule_sort_key r = rule_key_bytes (nr_key r)"

definition normalize_authority_rules ::
  "NormalizedAuthorityRule list \<Rightarrow> NormalizedAuthorityRule list result" where
  "normalize_authority_rules rules =
     try_in (traverse (\<lambda>(key, declarations). mk_rule key declarations)
        (extend_by nr_key nr_declarations rules)) (\<lambda>collapsed.
       Inr (sort_key rule_sort_key collapsed))"

record NormalizedAuthorityPolicySet =
  ps_rules :: "NormalizedAuthorityRule list"

definition mk_policy_set :: "NormalizedAuthorityRule list \<Rightarrow> NormalizedAuthorityPolicySet result" where
  "mk_policy_set rules = try_in (normalize_authority_rules rules) (\<lambda>rs. Inr \<lparr>ps_rules = rs\<rparr>)"

definition policy_set_dict :: "NormalizedAuthorityPolicySet \<Rightarrow> json" where
  "policy_set_dict s = JObject [(''authority_schema'', JStr ''governance-authority''),
     (''authority_version'', JStr ''1''),
     (''rules'', JArray (map (\<lambda>r. rule_key_to_dict (nr_key r)) (ps_rules s)))]"

definition authority_content_identity :: "(string \<Rightarrow> string) \<Rightarrow> NormalizedAuthorityPolicySet \<Rightarrow> ContentIdentity" where
  "authority_content_identity sha s = sha256_identity sha AuthorityId (policy_set_dict s)"

definition matching_rules ::
  "NormalizedAuthorityPolicySet \<Rightarrow> GraphNodeIdentity \<Rightarrow> PropertyPath \<Rightarrow> NormalizedAuthorityRule list" where
  "matching_rules s identity property_path =
     filter (\<lambda>rule. selector_matches (rk_selector (nr_key rule)) identity property_path) (ps_rules s)"

section \<open>Canonical keys\<close>

definition wf_optional :: "string option \<Rightarrow> bool" where
  "wf_optional v \<longleftrightarrow> (case v of None \<Rightarrow> True | Some s \<Rightarrow> stripped s)"

definition wf_rule_key :: "AuthorityRuleKey \<Rightarrow> bool" where
  "wf_rule_key k \<longleftrightarrow> as_kind (rk_selector k) \<in> set AUTHORITY_NODE_KINDS \<and>
     as_property_path (rk_selector k) \<noteq> [] \<and> wf_optional (as_namespace (rk_selector k)) \<and>
     stripped (at_provider_type (rk_authority k)) \<and> wf_optional (at_source_ref (rk_authority k))"

definition wf_declaration :: "AuthorityDeclaration \<Rightarrow> bool" where
  "wf_declaration d \<longleftrightarrow> stripped (ad_config_id d) \<and> wf_optional (ad_description d)"

definition wf_rule :: "NormalizedAuthorityRule \<Rightarrow> bool" where
  "wf_rule r \<longleftrightarrow> wf_rule_key (nr_key r) \<and> nr_declarations r \<noteq> [] \<and> list_all wf_declaration (nr_declarations r)"

lemma wf_rule_key_to_dict [simp]: "wf_json (rule_key_to_dict k)"
  by (simp add: rule_key_to_dict_def target_to_dict_def selector_to_dict_def split: option.splits)

lemma canon_target_inj: "canon (target_to_dict t) = canon (target_to_dict u) \<longleftrightarrow> t = u"
  by (cases t, cases u) (auto simp: target_to_dict_def split: option.splits)

lemma canon_selector_inj:
  "as_property_path s \<noteq> [] \<Longrightarrow> as_property_path u \<noteq> [] \<Longrightarrow>
   canon (selector_to_dict s) = canon (selector_to_dict u) \<longleftrightarrow> s = u"
  by (cases s, cases u) (auto simp: selector_to_dict_def to_pointer_eq split: option.splits)

lemma rule_key_bytes_inj:
  assumes "wf_rule_key k" "wf_rule_key l" "rule_key_bytes k = rule_key_bytes l" shows "k = l"
proof -
  have "canon (rule_key_to_dict k) = canon (rule_key_to_dict l)"
    using assms(3) by (simp add: rule_key_bytes_def canonical_json_bytes_eq_iff)
  then have "canon (target_to_dict (rk_authority k)) = canon (target_to_dict (rk_authority l))"
    "canon (selector_to_dict (rk_selector k)) = canon (selector_to_dict (rk_selector l))"
    by (simp_all add: rule_key_to_dict_def)
  with assms(1,2) show ?thesis
    by (auto simp: canon_target_inj canon_selector_inj wf_rule_key_def intro!: AuthorityRuleKey.equality)
qed

lemma declaration_sort_key_inj:
  "wf_declaration d \<Longrightarrow> wf_declaration e \<Longrightarrow> declaration_sort_key d = declaration_sort_key e \<Longrightarrow> d = e"
  by (cases d, cases e)
    (auto simp: wf_declaration_def declaration_sort_key_def wf_optional_def stripped_def split: option.splits)

interpretation rule_merge: keyed_merge declaration_sort_key wf_declaration nr_key rule_sort_key
  nr_declarations "\<lambda>ps r. r\<lparr>nr_declarations := ps\<rparr>" wf_rule
proof unfold_locales
  show "x = y" if "wf_declaration x" "wf_declaration y" "declaration_sort_key x = declaration_sort_key y" for x y
    using that by (rule declaration_sort_key_inj)
  show "nr_key x = nr_key y" if "wf_rule x" "wf_rule y" "rule_sort_key x = rule_sort_key y" for x y
    using that rule_key_bytes_inj by (auto simp: wf_rule_def rule_sort_key_def)
qed (auto simp: wf_rule_def)

definition merged_rules :: "NormalizedAuthorityRule list \<Rightarrow> NormalizedAuthorityRule list" where
  "merged_rules = merged_by declaration_sort_key nr_key rule_sort_key nr_declarations
     (\<lambda>ps r. r\<lparr>nr_declarations := ps\<rparr>)"

lemma rule_with_eq [simp]: "a\<lparr>nr_declarations := ps\<rparr> = b\<lparr>nr_declarations := ps\<rparr> \<longleftrightarrow> nr_key a = nr_key b"
  for a b :: NormalizedAuthorityRule
  by (cases a, cases b) auto

lemma compatible_rules: "compatible_by nr_key (\<lambda>ps r. r\<lparr>nr_declarations := ps\<rparr>) rs"
  for rs :: "NormalizedAuthorityRule list"
  by (simp add: compatible_by_def)

lemma normalize_authority_rules_eq:
  assumes "list_all wf_rule rules"
  shows "normalize_authority_rules rules = Inr (merged_rules rules)"
proof -
  let ?m = "\<lambda>(k, g). merge_group declaration_sort_key nr_declarations (\<lambda>ps r. r\<lparr>nr_declarations := ps\<rparr>) g"
  have "(case p of (k, g) \<Rightarrow> mk_rule k (concat (map nr_declarations g))) = Inr (?m p)"
    if member: "p \<in> set (group_by nr_key rules)" for p
  proof -
    obtain k g where p: "p = (k, g)" by (cases p)
    obtain base rest where g: "g = base # rest" using group_by_nonempty [OF member [unfolded p]] by (cases g) auto
    have "base \<in> set rules" "nr_key base = k" using group_by_mem [OF member [unfolded p]] by (auto simp: g)
    with assms have "wf_rule base" by (simp add: list_all_iff)
    then show ?thesis using \<open>nr_key base = k\<close>
      by (auto simp: p g mk_rule_def merge_group_def wf_rule_def intro!: NormalizedAuthorityRule.equality)
  qed
  then have "traverse (\<lambda>(k, g). mk_rule k (concat (map nr_declarations g))) (group_by nr_key rules) =
      Inr (map ?m (group_by nr_key rules))"
    by (rule traverse_Inr_map)
  then have "traverse (\<lambda>(k, ds). mk_rule k ds) (extend_by nr_key nr_declarations rules) =
      Inr (map ?m (group_by nr_key rules))"
    by (simp add: extend_by_eq traverse_map comp_def case_prod_beta')
  then show ?thesis by (simp only: normalize_authority_rules_def merged_rules_def merged_by_def try_in_simps)
qed

definition wf_policy_set :: "NormalizedAuthorityPolicySet \<Rightarrow> bool" where
  "wf_policy_set s \<longleftrightarrow> list_all wf_rule (ps_rules s) \<and>
     normal_by declaration_sort_key nr_key rule_sort_key nr_declarations (ps_rules s)"

lemma mk_policy_set_eq:
  "list_all wf_rule rules \<Longrightarrow> mk_policy_set rules = Inr \<lparr>ps_rules = merged_rules rules\<rparr>"
  by (simp add: mk_policy_set_def normalize_authority_rules_eq)

lemma mk_policy_set_wf:
  "list_all wf_rule rules \<Longrightarrow> mk_policy_set rules = Inr s \<Longrightarrow> wf_policy_set s"
  using rule_merge.good_merged [of rules] rule_merge.normal_merged [of rules]
  by (auto simp: mk_policy_set_eq wf_policy_set_def merged_rules_def list_all_iff)

lemma distinct_rule_keys: "wf_policy_set s \<Longrightarrow> distinct (map nr_key (ps_rules s))"
  by (simp add: wf_policy_set_def normal_by_def)

lemma matching_rules_keys: "wf_policy_set s \<Longrightarrow> distinct (map nr_key (matching_rules s i p))"
  unfolding matching_rules_def by (rule distinct_map_filter) (rule distinct_rule_keys)

section \<open>Properties\<close>

text \<open>
  C19 (equivalence). A policy set depends only on the set of rules it is made from: rules may be given in
  any order and repeatedly, equal keys are collapsed to one rule with the union of the declarations, and
  no rule is lost.
\<close>

theorem policy_set_canonical:
  assumes "list_all wf_rule rules" "set rules' = set rules"
  shows "mk_policy_set rules' = mk_policy_set rules \<and>
    (\<exists>s. mk_policy_set rules = Inr s \<and> wf_policy_set s \<and> nr_key ` set (ps_rules s) = nr_key ` set rules \<and>
      (\<forall>r \<in> set (ps_rules s). set (nr_declarations r) =
        (\<Union>q \<in> {q \<in> set rules. nr_key q = nr_key r}. set (nr_declarations q))))"
proof -
  have "list_all wf_rule rules'" using assms unfolding list_all_iff by blast
  moreover have "merged_rules rules = merged_rules rules'"
    unfolding merged_rules_def by (rule rule_merge.merged_cong [OF assms(1) compatible_rules assms(2) [symmetric]])
  moreover have "nr_key ` set (merged_rules rules) = nr_key ` set rules"
    unfolding merged_rules_def by (rule rule_merge.ident_set_merged)
  moreover have "set (nr_declarations r) = (\<Union>q \<in> {q \<in> set rules. nr_key q = nr_key r}. set (nr_declarations q))"
    if member: "r \<in> set (merged_rules rules)" for r
    using rule_merge.parts_merged [OF member [unfolded merged_rules_def]] by auto
  ultimately show ?thesis
    using mk_policy_set_wf [OF assms(1)] assms(1) by (simp add: mk_policy_set_eq)
qed

theorem policy_set_canonical_witness:
  "mk_policy_set [\<lparr>nr_key = \<lparr>rk_selector = \<lparr>as_kind = ''table'', as_property_path = [''owner''], as_namespace = None\<rparr>,
       rk_authority = \<lparr>at_provider_type = ''dbt'', at_source_ref = None\<rparr>\<rparr>,
     nr_declarations = [\<lparr>ad_config_id = ''a'', ad_description = None\<rparr>]\<rparr>, \<lparr>nr_key = \<lparr>rk_selector = \<lparr>as_kind = ''table'', as_property_path = [''owner''], as_namespace = None\<rparr>,
       rk_authority = \<lparr>at_provider_type = ''dbt'', at_source_ref = None\<rparr>\<rparr>,
     nr_declarations = [\<lparr>ad_config_id = ''a'', ad_description = None\<rparr>]\<rparr>] =
   mk_policy_set [\<lparr>nr_key = \<lparr>rk_selector = \<lparr>as_kind = ''table'', as_property_path = [''owner''], as_namespace = None\<rparr>,
       rk_authority = \<lparr>at_provider_type = ''dbt'', at_source_ref = None\<rparr>\<rparr>,
     nr_declarations = [\<lparr>ad_config_id = ''a'', ad_description = None\<rparr>]\<rparr>]"
proof -
  let ?r = "\<lparr>nr_key = \<lparr>rk_selector = \<lparr>as_kind = ''table'', as_property_path = [''owner''], as_namespace = None\<rparr>,
       rk_authority = \<lparr>at_provider_type = ''dbt'', at_source_ref = None\<rparr>\<rparr>,
     nr_declarations = [\<lparr>ad_config_id = ''a'', ad_description = None\<rparr>]\<rparr>"
  have "list_all wf_rule [?r]" by code_simp
  then show ?thesis by (rule policy_set_canonical [THEN conjunct1]) simp
qed

end
