(* ===== verification/Conflicts.thy ===== *)
theory Conflicts
  imports Authority
begin

text \<open>
  \<open>domain/conflicts.py\<close>: the analysis of property observations against the authority rules. Each
  observed (object, path) gets one result; \<open>analyze_group\<close> is the decision, branch by branch.
\<close>

section \<open>Results\<close>

datatype ConflictState =
    SINGLE_OBSERVATION | AGREEMENT | RESOLVED_BY_AUTHORITY | UNRESOLVED_CONFLICT
  | INVALID_OR_AMBIGUOUS_AUTHORITY

datatype ConflictReason =
    SingleObservation | Agreement | ResolvedByAuthority | NO_AUTHORITY_RULE
  | AUTHORITATIVE_SOURCE_NOT_OBSERVED | AUTHORITATIVE_SOURCE_CONFLICTED | InvalidOrAmbiguousAuthority

fun state_name :: "ConflictState \<Rightarrow> string" where
  "state_name SINGLE_OBSERVATION = ''SINGLE_OBSERVATION''"
| "state_name AGREEMENT = ''AGREEMENT''"
| "state_name RESOLVED_BY_AUTHORITY = ''RESOLVED_BY_AUTHORITY''"
| "state_name UNRESOLVED_CONFLICT = ''UNRESOLVED_CONFLICT''"
| "state_name INVALID_OR_AMBIGUOUS_AUTHORITY = ''INVALID_OR_AMBIGUOUS_AUTHORITY''"

fun reason_name :: "ConflictReason \<Rightarrow> string" where
  "reason_name SingleObservation = ''SINGLE_OBSERVATION''"
| "reason_name Agreement = ''AGREEMENT''"
| "reason_name ResolvedByAuthority = ''RESOLVED_BY_AUTHORITY''"
| "reason_name NO_AUTHORITY_RULE = ''NO_AUTHORITY_RULE''"
| "reason_name AUTHORITATIVE_SOURCE_NOT_OBSERVED = ''AUTHORITATIVE_SOURCE_NOT_OBSERVED''"
| "reason_name AUTHORITATIVE_SOURCE_CONFLICTED = ''AUTHORITATIVE_SOURCE_CONFLICTED''"
| "reason_name InvalidOrAmbiguousAuthority = ''INVALID_OR_AMBIGUOUS_AUTHORITY''"

text \<open>\<open>None\<close> as \<open>effective_value\<close> is \<open>JNull\<close>; \<open>has_effective_value\<close> tells the two apart.\<close>

record PropertyConflictResult =
  cr_object_identity :: GraphNodeIdentity
  cr_property_path :: PropertyPath
  cr_state :: ConflictState
  cr_reason :: ConflictReason
  cr_value_groups :: "PropertyObservation list"
  cr_effective_value :: json
  cr_has_effective_value :: bool
  cr_winning_rule_key :: "AuthorityRuleKey option"

definition mk_conflict_result ::
  "GraphNodeIdentity \<Rightarrow> PropertyPath \<Rightarrow> ConflictState \<Rightarrow> ConflictReason \<Rightarrow> PropertyObservation list \<Rightarrow>
   json option \<Rightarrow> AuthorityRuleKey option \<Rightarrow> PropertyConflictResult" where
  "mk_conflict_result i p st re value_groups effective winning =
     \<lparr>cr_object_identity = i, cr_property_path = p, cr_state = st, cr_reason = re,
      cr_value_groups = sort_key value_fingerprint value_groups,
      cr_effective_value = (case effective of None \<Rightarrow> JNull | Some v \<Rightarrow> v),
      cr_has_effective_value = (effective \<noteq> None), cr_winning_rule_key = winning\<rparr>"

definition conflict_result_dict :: "PropertyConflictResult \<Rightarrow> json" where
  "conflict_result_dict r = JObject ([(''object'', identity_to_dict (cr_object_identity r)),
     (''property'', JStr (to_pointer (cr_property_path r))), (''reason'', JStr (reason_name (cr_reason r))),
     (''state'', JStr (state_name (cr_state r))),
     (''value_groups'', JArray (map to_value_group_dict (cr_value_groups r)))] @
     (if cr_has_effective_value r then [(''effective_value'', cr_effective_value r)] else []) @
     (case cr_winning_rule_key r of None \<Rightarrow> [] | Some k \<Rightarrow> [(''winning_rule_key'', rule_key_to_dict k)]))"

section \<open>Analysis\<close>

definition analyze_group ::
  "PropertyObservation list \<Rightarrow> NormalizedAuthorityPolicySet \<Rightarrow> PropertyConflictResult" where
  "analyze_group grp authority =
     (let base = hd grp; i = ob_object_identity base; p = ob_property_path base;
          value_groups = sort_key value_fingerprint grp
      in if length value_groups = 1 then
           (let observation = hd value_groups
            in if length (ob_provenance observation) = 1
               then mk_conflict_result i p SINGLE_OBSERVATION SingleObservation value_groups
                      (Some (ob_value observation)) None
               else mk_conflict_result i p AGREEMENT Agreement value_groups
                      (Some (ob_value observation)) None)
         else
           (let matching = matching_rules authority i p
            in if matching = []
               then mk_conflict_result i p UNRESOLVED_CONFLICT NO_AUTHORITY_RULE value_groups None None
               else
                 (let max_rank = Max (set (map (\<lambda>r. specificity_rank (rk_selector (nr_key r))) matching));
                      winners = filter (\<lambda>r. specificity_rank (rk_selector (nr_key r)) = max_rank) matching
                  in if 1 < length (unique (map nr_key winners))
                     then mk_conflict_result i p INVALID_OR_AMBIGUOUS_AUTHORITY
                            InvalidOrAmbiguousAuthority value_groups None None
                     else
                       (let winning_key = nr_key (hd winners);
                            authorized = filter (\<lambda>observation. list_ex
                              (target_matches (rk_authority winning_key)) (ob_provenance observation)) value_groups
                        in case authorized of
                             [] \<Rightarrow> mk_conflict_result i p UNRESOLVED_CONFLICT
                                    AUTHORITATIVE_SOURCE_NOT_OBSERVED value_groups None (Some winning_key)
                           | [observation] \<Rightarrow> mk_conflict_result i p RESOLVED_BY_AUTHORITY
                                    ResolvedByAuthority value_groups (Some (ob_value observation)) (Some winning_key)
                           | _ \<Rightarrow> mk_conflict_result i p UNRESOLVED_CONFLICT
                                    AUTHORITATIVE_SOURCE_CONFLICTED value_groups None (Some winning_key)))))"

definition conflict_key :: "PropertyObservation \<Rightarrow> string \<times> string" where
  "conflict_key ob = (canonical_bytes (ob_object_identity ob), to_pointer (ob_property_path ob))"

record PropertyConflictReport =
  rep_results :: "PropertyConflictResult list"

definition result_sort_key :: "PropertyConflictResult \<Rightarrow> string \<times> string" where
  "result_sort_key r = (canonical_bytes (cr_object_identity r), to_pointer (cr_property_path r))"

definition analyze_property_conflicts ::
  "PropertyObservationSet \<Rightarrow> NormalizedAuthorityPolicySet \<Rightarrow> PropertyConflictReport" where
  "analyze_property_conflicts observations authority =
     \<lparr>rep_results = sort_key result_sort_key
        (map (\<lambda>(k, group). analyze_group group authority)
          (group_by conflict_key (os_observations observations)))\<rparr>"

definition conflict_report_dict :: "PropertyConflictReport \<Rightarrow> json" where
  "conflict_report_dict r = JObject
     [(''conflict_schema'', JStr ''governance-property-conflicts''), (''conflict_version'', JStr ''1''),
      (''results'', JArray (map conflict_result_dict (rep_results r)))]"

definition conflict_report_identity :: "(string \<Rightarrow> string) \<Rightarrow> PropertyConflictReport \<Rightarrow> ContentIdentity" where
  "conflict_report_identity sha r = sha256_identity sha PropertyConflictsId (conflict_report_dict r)"

section \<open>The decision, specified\<close>

text \<open>
  The rules that govern a property: those whose selector matches with the highest rank. A value is
  authorized by a rule when one of its provenance records matches the rule's target.
\<close>

definition governing_keys :: "NormalizedAuthorityPolicySet \<Rightarrow> GraphNodeIdentity \<Rightarrow> PropertyPath \<Rightarrow> AuthorityRuleKey set" where
  "governing_keys authority i p =
     (let matching = {k \<in> nr_key ` set (ps_rules authority). selector_matches (rk_selector k) i p}
      in {k \<in> matching. \<forall>l \<in> matching. specificity_rank (rk_selector l) \<le> specificity_rank (rk_selector k)})"

definition authorized_by :: "AuthorityRuleKey \<Rightarrow> PropertyObservation \<Rightarrow> bool" where
  "authorized_by k ob \<longleftrightarrow> (\<exists>r \<in> set (ob_provenance ob). pr_provider_type r = at_provider_type (rk_authority k) \<and>
     at_source_ref (rk_authority k) \<in> {None, Some (pr_source_ref r)})"

text \<open>The same rules without ranks: the rules for the kind and path in the namespace of the object, if there are any, else
  those without a namespace.\<close>

definition rules_for ::
  "NormalizedAuthorityPolicySet \<Rightarrow> string \<Rightarrow> PropertyPath \<Rightarrow> string option \<Rightarrow> AuthorityRuleKey set" where
  "rules_for authority kind path namespace = {k \<in> nr_key ` set (ps_rules authority).
     as_kind (rk_selector k) = kind \<and> as_property_path (rk_selector k) = path \<and> as_namespace (rk_selector k) = namespace}"

definition governing_rules :: "NormalizedAuthorityPolicySet \<Rightarrow> GraphNodeIdentity \<Rightarrow> PropertyPath \<Rightarrow> AuthorityRuleKey set" where
  "governing_rules authority i p =
     (let own = rules_for authority (gi_kind i) p (Some (gi_namespace i))
      in if own \<noteq> {} then own else rules_for authority (gi_kind i) p None)"

lemma governing_keys_rules: "governing_keys authority i p = governing_rules authority i p"
proof -
  let ?own = "rules_for authority (gi_kind i) p (Some (gi_namespace i))" and ?any = "rules_for authority (gi_kind i) p None"
  have matching: "{k \<in> nr_key ` set (ps_rules authority). selector_matches (rk_selector k) i p} = ?own \<union> ?any"
    by (auto simp: rules_for_def selector_matches_def)
  have own: "specificity_rank (rk_selector k) = 2" if "k \<in> ?own" for k using that by (simp add: rules_for_def specificity_rank_def)
  have any: "specificity_rank (rk_selector k) = 1" if "k \<in> ?any" for k using that by (simp add: rules_for_def specificity_rank_def)
  have "{k \<in> ?own \<union> ?any. \<forall>l \<in> ?own \<union> ?any. specificity_rank (rk_selector l) \<le> specificity_rank (rk_selector k)} =
      (if ?own \<noteq> {} then ?own else ?any)"
  proof (cases "?own = {}")
    case True
    then show ?thesis by (auto simp: any)
  next
    case False
    then obtain k where k: "k \<in> ?own" by blast
    have "x \<in> ?own" if "x \<in> ?own \<union> ?any" "specificity_rank (rk_selector k) \<le> specificity_rank (rk_selector x)" for x
      using that own [OF k] any [of x] by auto
    moreover have "specificity_rank (rk_selector l) \<le> specificity_rank (rk_selector x)" if "x \<in> ?own" "l \<in> ?own \<union> ?any" for x l
      using that own [of x] own [of l] any [of l] by auto
    ultimately show ?thesis using k False by (simp only: if_True not_False_eq_True) blast
  qed
  then show ?thesis by (simp add: governing_keys_def governing_rules_def Let_def matching)
qed

lemma mk_conflict_result_simps [simp]:
  "cr_object_identity (mk_conflict_result i p st re g e w) = i"
  "cr_property_path (mk_conflict_result i p st re g e w) = p"
  "cr_state (mk_conflict_result i p st re g e w) = st"
  "cr_reason (mk_conflict_result i p st re g e w) = re"
  "cr_value_groups (mk_conflict_result i p st re g e w) = sort_key value_fingerprint g"
  "cr_has_effective_value (mk_conflict_result i p st re g e w) = (e \<noteq> None)"
  "cr_effective_value (mk_conflict_result i p st re g e w) = (case e of None \<Rightarrow> JNull | Some v \<Rightarrow> v)"
  "cr_winning_rule_key (mk_conflict_result i p st re g e w) = w"
  by (simp_all add: mk_conflict_result_def)

lemma winners_governing:
  assumes "matching_rules authority i p \<noteq> []"
  shows "nr_key ` set (filter (\<lambda>r. specificity_rank (rk_selector (nr_key r)) =
      Max (set (map (\<lambda>r. specificity_rank (rk_selector (nr_key r))) (matching_rules authority i p))))
      (matching_rules authority i p)) = governing_keys authority i p"
proof -
  let ?rank = "\<lambda>r. specificity_rank (rk_selector (nr_key r))"
  let ?m = "set (matching_rules authority i p)"
  have max: "Max (?rank ` ?m) = ?rank r \<longleftrightarrow> (\<forall>q \<in> ?m. ?rank q \<le> ?rank r)" if "r \<in> ?m" for r
    using that by (subst Max_eq_iff) auto
  have m: "nr_key ` ?m = {k \<in> nr_key ` set (ps_rules authority). selector_matches (rk_selector k) i p}"
    by (auto simp: matching_rules_def)
  have "nr_key ` {r \<in> ?m. ?rank r = Max (?rank ` ?m)} =
      {k \<in> nr_key ` ?m. \<forall>l \<in> nr_key ` ?m. specificity_rank (rk_selector l) \<le> specificity_rank (rk_selector k)}"
    using max by (auto simp: image_iff) (metis+)
  then show ?thesis by (simp add: governing_keys_def Let_def m)
qed

lemma no_matching_governing: "matching_rules authority i p = [] \<longleftrightarrow> governing_keys authority i p = {}"
proof
  assume "matching_rules authority i p = []"
  then show "governing_keys authority i p = {}"
    by (auto simp: matching_rules_def governing_keys_def Let_def filter_empty_conv)
next
  assume none: "governing_keys authority i p = {}"
  show "matching_rules authority i p = []"
  proof (rule ccontr)
    assume ne: "matching_rules authority i p \<noteq> []"
    let ?rank = "\<lambda>r. specificity_rank (rk_selector (nr_key r))"
    have "Max (?rank ` set (matching_rules authority i p)) \<in> ?rank ` set (matching_rules authority i p)"
      using ne by (intro Max_in) auto
    then show False using winners_governing [OF ne] none by auto
  qed
qed

text \<open>The decision reads the policy only through the governing keys.\<close>

definition decide :: "PropertyObservation list \<Rightarrow> AuthorityRuleKey set \<Rightarrow> PropertyConflictResult" where
  "decide grp K =
     (let i = ob_object_identity (hd grp); p = ob_property_path (hd grp); vs = sort_key value_fingerprint grp
      in if length grp = 1 then
           (if length (ob_provenance (hd vs)) = 1
            then mk_conflict_result i p SINGLE_OBSERVATION SingleObservation vs (Some (ob_value (hd vs))) None
            else mk_conflict_result i p AGREEMENT Agreement vs (Some (ob_value (hd vs))) None)
         else if K = {} then mk_conflict_result i p UNRESOLVED_CONFLICT NO_AUTHORITY_RULE vs None None
         else if \<not> is_singleton K
         then mk_conflict_result i p INVALID_OR_AMBIGUOUS_AUTHORITY InvalidOrAmbiguousAuthority vs None None
         else (case filter (authorized_by (the_elem K)) vs of
             [] \<Rightarrow> mk_conflict_result i p UNRESOLVED_CONFLICT AUTHORITATIVE_SOURCE_NOT_OBSERVED vs None (Some (the_elem K))
           | [x] \<Rightarrow> mk_conflict_result i p RESOLVED_BY_AUTHORITY ResolvedByAuthority vs (Some (ob_value x)) (Some (the_elem K))
           | _ \<Rightarrow> mk_conflict_result i p UNRESOLVED_CONFLICT AUTHORITATIVE_SOURCE_CONFLICTED vs None (Some (the_elem K))))"

lemma unique_length_singleton:
  "xs \<noteq> [] \<Longrightarrow> 1 < length (unique xs) \<longleftrightarrow> \<not> is_singleton (set xs)"
proof -
  assume ne: "xs \<noteq> []"
  have card: "card (set xs) = length (unique xs)" using distinct_card [OF distinct_unique [of xs]] by simp
  have "0 < card (set xs)" using ne by (simp add: card_gt_0_iff)
  then show ?thesis unfolding is_singleton_altdef card by linarith
qed

lemma analyze_group_decide:
  "analyze_group grp a = decide grp (governing_keys a (ob_object_identity (hd grp)) (ob_property_path (hd grp)))"
proof -
  let ?i = "ob_object_identity (hd grp)" and ?p = "ob_property_path (hd grp)"
  let ?K = "governing_keys a ?i ?p" and ?m = "matching_rules a ?i ?p"
  let ?rank = "\<lambda>r. specificity_rank (rk_selector (nr_key r))"
  let ?w = "filter (\<lambda>r. ?rank r = Max (set (map ?rank ?m))) ?m"
  show ?thesis
  proof (cases "?m = []")
    case True
    then show ?thesis
      using no_matching_governing [of a ?i ?p] by (simp add: analyze_group_def decide_def Let_def)
  next
    case False
    then have keys: "set (map nr_key ?w) = ?K" using winners_governing [OF False] by simp
    have ne: "?K \<noteq> {}" using False no_matching_governing by blast
    then have "map nr_key ?w \<noteq> []" using keys by fastforce
    then have one: "1 < length (unique (map nr_key ?w)) \<longleftrightarrow> \<not> is_singleton ?K"
      using unique_length_singleton keys by metis
    have hd: "nr_key (hd ?w) = the_elem ?K" if "is_singleton ?K"
    proof -
      have "nr_key (hd ?w) \<in> ?K" using keys \<open>map nr_key ?w \<noteq> []\<close> by (metis hd_in_set hd_map map_is_Nil_conv)
      with that show ?thesis by (auto simp: is_singleton_def)
    qed
    have auth: "list_ex (target_matches (rk_authority k)) (ob_provenance x) = authorized_by k x" for k x
      by (auto simp: authorized_by_def list_ex_iff target_matches_def)
    show ?thesis
    proof (cases "is_singleton ?K")
      case True
      show ?thesis
        unfolding analyze_group_def decide_def Let_def length_sort auth one hd [OF True]
        using False ne True by simp
    next
      case not_one: False
      then show ?thesis
        unfolding analyze_group_def decide_def Let_def length_sort auth one using False ne by simp
    qed
  qed
qed

lemma conflict_key_eq:
  "wf_observation x \<Longrightarrow> wf_observation y \<Longrightarrow> conflict_key x = conflict_key y \<longleftrightarrow>
   ob_object_identity x = ob_object_identity y \<and> ob_property_path x = ob_property_path y"
  by (simp add: conflict_key_def wf_observation_def to_pointer_eq)

text \<open>What a group of observations \<open>G\<close> governed by the rules \<open>K\<close> is decided to: state, reason, effective value, winning rule.\<close>

inductive decided_as ::
  "PropertyObservation set \<Rightarrow> AuthorityRuleKey set \<Rightarrow> ConflictState \<Rightarrow> ConflictReason \<Rightarrow> json option \<Rightarrow> AuthorityRuleKey option \<Rightarrow> bool"
  for G K where
  one_record: "G = {x} \<Longrightarrow> length (ob_provenance x) = 1 \<Longrightarrow>
    decided_as G K SINGLE_OBSERVATION SingleObservation (Some (ob_value x)) None"
| one_value: "G = {x} \<Longrightarrow> length (ob_provenance x) \<noteq> 1 \<Longrightarrow> decided_as G K AGREEMENT Agreement (Some (ob_value x)) None"
| no_rule: "1 < card G \<Longrightarrow> K = {} \<Longrightarrow> decided_as G K UNRESOLVED_CONFLICT NO_AUTHORITY_RULE None None"
| ambiguous: "1 < card G \<Longrightarrow> k \<in> K \<Longrightarrow> l \<in> K \<Longrightarrow> k \<noteq> l \<Longrightarrow>
    decided_as G K INVALID_OR_AMBIGUOUS_AUTHORITY InvalidOrAmbiguousAuthority None None"
| not_observed: "1 < card G \<Longrightarrow> K = {k} \<Longrightarrow> {y \<in> G. authorized_by k y} = {} \<Longrightarrow>
    decided_as G K UNRESOLVED_CONFLICT AUTHORITATIVE_SOURCE_NOT_OBSERVED None (Some k)"
| resolved: "1 < card G \<Longrightarrow> K = {k} \<Longrightarrow> {y \<in> G. authorized_by k y} = {x} \<Longrightarrow>
    decided_as G K RESOLVED_BY_AUTHORITY ResolvedByAuthority (Some (ob_value x)) (Some k)"
| conflicted: "1 < card G \<Longrightarrow> K = {k} \<Longrightarrow> 1 < card {y \<in> G. authorized_by k y} \<Longrightarrow>
    decided_as G K UNRESOLVED_CONFLICT AUTHORITATIVE_SOURCE_CONFLICTED None (Some k)"

definition spec_result :: "PropertyConflictResult \<Rightarrow> AuthorityRuleKey set \<Rightarrow> bool" where
  "spec_result r K \<longleftrightarrow>
     decided_as (set (cr_value_groups r)) K (cr_state r) (cr_reason r)
       (if cr_has_effective_value r then Some (cr_effective_value r) else None) (cr_winning_rule_key r) \<and>
     (\<not> cr_has_effective_value r \<longrightarrow> cr_effective_value r = JNull)"

lemma decide_spec:
  assumes "grp \<noteq> []" "distinct grp"
  shows "set (cr_value_groups (decide grp K)) = set grp \<and> spec_result (decide grp K) K"
proof -
  let ?vs = "sort_key value_fingerprint grp"
  have card: "card (set grp) = length grp" using assms(2) by (rule distinct_card)
  show ?thesis
  proof (cases "length grp = 1")
    case True
    then obtain x where "grp = [x]" by (auto simp: length_Suc_conv)
    then show ?thesis by (simp add: decide_def Let_def spec_result_def decided_as.simps)
  next
    case False
    then have two: "1 < card (set grp)" using assms(1) card by (cases grp) auto
    consider "K = {}" | "K \<noteq> {}" "\<not> is_singleton K" | k where "K = {k}"
      by (auto simp: is_singleton_def)
    then show ?thesis
    proof cases
      case 1
      then show ?thesis using False two by (simp add: decide_def Let_def spec_result_def decided_as.no_rule)
    next
      case 2
      then obtain k l where "k \<in> K" "l \<in> K" "k \<noteq> l" unfolding is_singleton_def by blast
      note ambiguous = decided_as.ambiguous [OF two this]
      then show ?thesis using 2 False by (simp add: decide_def Let_def spec_result_def)
    next
      case 3
      have auth: "set (filter (authorized_by k) ?vs) = {y \<in> set grp. authorized_by k y}" by simp
      moreover have "distinct (filter (authorized_by k) ?vs)" using assms(2) by simp
      ultimately have cardA: "card {y \<in> set grp. authorized_by k y} = length (filter (authorized_by k) ?vs)"
        by (metis distinct_card)
      show ?thesis
      proof (cases "filter (authorized_by k) ?vs")
        case Nil
        then show ?thesis using 3 False two auth cardA
          by (simp add: decide_def Let_def spec_result_def is_singleton_def decided_as.not_observed)
      next
        case (Cons x xs)
        then show ?thesis using 3 False two auth cardA
          by (cases xs) (simp_all add: decide_def Let_def spec_result_def is_singleton_def decided_as.resolved decided_as.conflicted)
      qed
    qed
  qed
qed

lemma decide_groups:
  "sorted (map value_fingerprint (cr_value_groups (decide grp K)))" "distinct (cr_value_groups (decide grp K)) = distinct grp"
  by (simp_all add: decide_def Let_def split: list.split)

section \<open>The report\<close>

lemma report_members:
  assumes "wf_observation_set s" "r \<in> set (rep_results (analyze_property_conflicts s a))"
  shows "\<exists>grp. grp \<noteq> [] \<and> distinct grp \<and> r = analyze_group grp a \<and>
    cr_object_identity r = ob_object_identity (hd grp) \<and> cr_property_path r = ob_property_path (hd grp) \<and>
    set grp = {x \<in> set (os_observations s). ob_object_identity x = cr_object_identity r \<and>
      ob_property_path x = cr_property_path r}"
proof -
  let ?obs = "os_observations s"
  obtain k grp where kg: "(k, grp) \<in> set (group_by conflict_key ?obs)" "r = analyze_group grp a"
    using assms(2) by (auto simp: analyze_property_conflicts_def)
  have ne: "grp \<noteq> []" by (rule group_by_nonempty [OF kg(1)])
  have g: "grp = filter (\<lambda>x. conflict_key x = k) ?obs" using kg(1) by (simp add: group_by_member)
  have wf: "\<And>x. x \<in> set ?obs \<Longrightarrow> wf_observation x" and dist: "distinct ?obs"
    using assms(1) normal_observations_distinct [of ?obs]
    by (auto simp: wf_observation_set_def list_all_iff distinct_map)
  have hd: "hd grp \<in> set ?obs" "conflict_key (hd grp) = k"
    using group_by_mem [OF kg(1) hd_in_set [OF ne]] by auto
  have ip: "cr_object_identity r = ob_object_identity (hd grp)" "cr_property_path r = ob_property_path (hd grp)"
    unfolding kg(2) analyze_group_decide by (auto simp: decide_def Let_def split: list.splits)
  have "set grp = {x \<in> set ?obs. ob_object_identity x = cr_object_identity r \<and> ob_property_path x = cr_property_path r}"
  proof -
    have "set grp = {x \<in> set ?obs. conflict_key x = k}" by (simp add: g)
    also have "\<dots> = {x \<in> set ?obs. conflict_key x = conflict_key (hd grp)}" by (simp add: hd(2))
    finally show ?thesis unfolding ip using conflict_key_eq [OF wf wf [OF hd(1)]] by auto
  qed
  then show ?thesis using ne dist ip kg(2) g by (metis distinct_filter)
qed

definition conflict_keys :: "PropertyObservation list \<Rightarrow> (GraphNodeIdentity \<times> PropertyPath) set" where
  "conflict_keys obs = (\<lambda>x. (ob_object_identity x, ob_property_path x)) ` set obs"

lemma decide_key:
  "cr_object_identity (decide g K) = ob_object_identity (hd g)"
  "cr_property_path (decide g K) = ob_property_path (hd g)"
  by (auto simp: decide_def Let_def split: list.splits)

lemma result_keys:
  "map result_sort_key (map (\<lambda>(k, grp). analyze_group grp a) (group_by conflict_key obs)) =
   unique (map conflict_key obs)"
proof -
  have "result_sort_key (analyze_group g a) = k" if member: "(k, g) \<in> set (group_by conflict_key obs)" for k g
  proof -
    have "conflict_key (hd g) = k"
      using group_by_mem [OF member hd_in_set [OF group_by_nonempty [OF member]]] by simp
    then show ?thesis by (simp add: result_sort_key_def analyze_group_decide decide_key conflict_key_def)
  qed
  then have "map (\<lambda>(k, g). result_sort_key (analyze_group g a)) (group_by conflict_key obs) =
      keys (group_by conflict_key obs)"
    by (intro map_cong) auto
  then show ?thesis by (simp add: keys_group_by comp_def case_prod_beta')
qed

lemma report_keys:
  "map result_sort_key (rep_results (analyze_property_conflicts s a)) = sort (unique (map conflict_key (os_observations s)))"
proof -
  have map_sort: "map f (sort_key f xs) = sort (map f xs)" for f :: "'x \<Rightarrow> 'k::linorder" and xs
    by (rule properties_for_sort [symmetric]) simp_all
  show ?thesis by (simp only: analyze_property_conflicts_def PropertyConflictReport.simps map_sort result_keys)
qed

section \<open>An example\<close>

text \<open>Two providers disagree on the owner of a table, one of them knows its description. The rule for the namespace of the
  table overrides the one without a namespace.\<close>

definition example_table_id :: GraphNodeIdentity where
  "example_table_id = GraphNodeIdentity ''n'' ''table'' ''t'' None"

definition example_observation :: "string \<Rightarrow> string \<Rightarrow> string \<Rightarrow> PropertyObservation" where
  "example_observation path provider v = \<lparr>ob_object_identity = example_table_id, ob_property_path = [path], ob_value = JStr v,
     ob_provenance = [example_record provider]\<rparr>"

definition example_observations :: PropertyObservationSet where
  "example_observations = \<lparr>os_observations = [example_observation ''description'' ''dbt'' ''x'',
     example_observation ''owner'' ''dbt'' ''ann'', example_observation ''owner'' ''odcs'' ''bob'']\<rparr>"

definition example_rule :: "string option \<Rightarrow> string \<Rightarrow> NormalizedAuthorityRule" where
  "example_rule namespace provider = \<lparr>nr_key = \<lparr>rk_selector = \<lparr>as_kind = ''table'', as_property_path = [''owner''], as_namespace = namespace\<rparr>,
     rk_authority = \<lparr>at_provider_type = provider, at_source_ref = None\<rparr>\<rparr>, nr_declarations = []\<rparr>"

definition example_authority :: NormalizedAuthorityPolicySet where
  "example_authority = \<lparr>ps_rules = [example_rule None ''dbt'', example_rule (Some ''n'') ''odcs'']\<rparr>"

lemma example_observations_wf: "wf_observation_set example_observations"
  by code_simp

lemma example_report:
  "rep_results (analyze_property_conflicts example_observations example_authority) =
   [mk_conflict_result example_table_id [''description''] SINGLE_OBSERVATION SingleObservation
      [example_observation ''description'' ''dbt'' ''x''] (Some (JStr ''x'')) None,
    mk_conflict_result example_table_id [''owner''] RESOLVED_BY_AUTHORITY ResolvedByAuthority
      [example_observation ''owner'' ''dbt'' ''ann'', example_observation ''owner'' ''odcs'' ''bob'']
      (Some (JStr ''bob'')) (Some (nr_key (example_rule (Some ''n'') ''odcs'')))]"
  by code_simp

section \<open>Properties\<close>

text \<open>
  C12 (functional). Every result of the analysis is the right one: its value groups are all observations of its object
  and path, once each, by fingerprint, and the state, the reason, the effective value and the winning rule are all
  determined by them and the governing rules (those for the kind and path in the namespace of the object, or, when there are
  none, those without a namespace). One value: it is effective, SINGLE_OBSERVATION or AGREEMENT by the number of its
  provenance records, and no rule wins. Several values: no governing rule, UNRESOLVED_CONFLICT for that reason; two
  different ones, INVALID_OR_AMBIGUOUS_AUTHORITY and no rule wins; one, which then is the winning rule, with the outcome by
  the number of values it authorizes: none or several leave the conflict unresolved, exactly one resolves it and is the
  effective value. Nothing else ever has an effective value.
\<close>

theorem conflict_decision:
  assumes "wf_observation_set s" "r \<in> set (rep_results (analyze_property_conflicts s a))"
  shows "set (cr_value_groups r) = {x \<in> set (os_observations s). ob_object_identity x = cr_object_identity r \<and>
      ob_property_path x = cr_property_path r} \<and>
    sorted (map value_fingerprint (cr_value_groups r)) \<and> distinct (cr_value_groups r) \<and>
    spec_result r (governing_rules a (cr_object_identity r) (cr_property_path r))"
proof -
  obtain grp where grp: "grp \<noteq> []" "distinct grp" "r = analyze_group grp a"
    "cr_object_identity r = ob_object_identity (hd grp)" "cr_property_path r = ob_property_path (hd grp)"
    "set grp = {x \<in> set (os_observations s). ob_object_identity x = cr_object_identity r \<and>
      ob_property_path x = cr_property_path r}"
    using report_members [OF assms] by blast
  then show ?thesis
    using decide_spec [OF grp(1,2)] decide_groups [of grp] unfolding grp(4,5)
    by (simp add: analyze_group_decide flip: governing_keys_rules)
qed

theorem conflict_decision_witness:
  "\<exists>r \<in> set (rep_results (analyze_property_conflicts example_observations example_authority)).
     cr_state r = RESOLVED_BY_AUTHORITY \<and> cr_effective_value r = JStr ''bob'' \<and>
     spec_result r {nr_key (example_rule (Some ''n'') ''odcs'')}"
proof -
  let ?r = "mk_conflict_result example_table_id [''owner''] RESOLVED_BY_AUTHORITY ResolvedByAuthority
      [example_observation ''owner'' ''dbt'' ''ann'', example_observation ''owner'' ''odcs'' ''bob'']
      (Some (JStr ''bob'')) (Some (nr_key (example_rule (Some ''n'') ''odcs'')))"
  have member: "?r \<in> set (rep_results (analyze_property_conflicts example_observations example_authority))"
    by (simp add: example_report)
  have "rules_for example_authority ''table'' [''owner''] (Some ''n'') = {nr_key (example_rule (Some ''n'') ''odcs'')}"
    by (auto simp: rules_for_def example_authority_def example_rule_def)
  then have "governing_rules example_authority example_table_id [''owner''] = {nr_key (example_rule (Some ''n'') ''odcs'')}"
    by (simp add: governing_rules_def example_table_id_def)
  then have "spec_result ?r {nr_key (example_rule (Some ''n'') ''odcs'')}"
    using conflict_decision [OF example_observations_wf member] by simp
  then show ?thesis by (intro bexI [OF _ member]) simp
qed

text \<open>
  C18 (invariant). The report covers the observations exactly: its results are strictly sorted, one for each
  observed object and path and none for anything else.
\<close>

theorem report_complete:
  assumes "wf_observation_set s"
  shows "sorted_wrt (<) (map result_sort_key (rep_results (analyze_property_conflicts s a))) \<and>
    (\<lambda>r. (cr_object_identity r, cr_property_path r)) ` set (rep_results (analyze_property_conflicts s a)) =
      conflict_keys (os_observations s)"
proof
  show "sorted_wrt (<) (map result_sort_key (rep_results (analyze_property_conflicts s a)))"
    unfolding report_keys by (simp add: strict_sorted_iff)
  let ?obs = "os_observations s" and ?R = "set (rep_results (analyze_property_conflicts s a))"
  have "(cr_object_identity r, cr_property_path r) \<in> conflict_keys ?obs" if member: "r \<in> ?R" for r
    using report_members [OF assms member] hd_in_set unfolding conflict_keys_def by fastforce
  moreover have "(i, p) \<in> (\<lambda>r. (cr_object_identity r, cr_property_path r)) ` ?R" if member: "(i, p) \<in> conflict_keys ?obs" for i p
  proof -
    obtain x where x: "x \<in> set ?obs" "i = ob_object_identity x" "p = ob_property_path x"
      using member by (auto simp: conflict_keys_def)
    have "conflict_key x \<in> set (map result_sort_key (rep_results (analyze_property_conflicts s a)))"
      unfolding report_keys using x(1) by simp
    then obtain r where r: "r \<in> ?R" "result_sort_key r = conflict_key x" by auto
    then obtain grp where grp: "grp \<noteq> []" "cr_object_identity r = ob_object_identity (hd grp)"
      "cr_property_path r = ob_property_path (hd grp)" "set grp \<subseteq> set ?obs"
      using report_members [OF assms r(1)] by auto
    then have "wf_observation (hd grp)" "wf_observation x" "conflict_key (hd grp) = conflict_key x"
      using assms x r grp(2,3) subsetD [OF grp(4) hd_in_set [OF grp(1)]]
      by (auto simp: wf_observation_set_def list_all_iff conflict_key_def result_sort_key_def)
    then show ?thesis using r grp x by (auto simp: conflict_key_eq intro!: image_eqI [of _ _ r])
  qed
  ultimately show "(\<lambda>r. (cr_object_identity r, cr_property_path r)) ` ?R = conflict_keys ?obs" by auto
qed

theorem report_complete_witness:
  "(\<lambda>r. (cr_object_identity r, cr_property_path r)) ` set (rep_results (analyze_property_conflicts example_observations example_authority)) =
     {(example_table_id, [''description'']), (example_table_id, [''owner''])} \<and>
   length (rep_results (analyze_property_conflicts example_observations example_authority)) = 2"
proof
  show "(\<lambda>r. (cr_object_identity r, cr_property_path r)) ` set (rep_results (analyze_property_conflicts example_observations example_authority)) =
     {(example_table_id, [''description'']), (example_table_id, [''owner''])}"
    using report_complete [OF example_observations_wf, of example_authority]
    by (simp add: conflict_keys_def example_observations_def example_observation_def)
  show "length (rep_results (analyze_property_conflicts example_observations example_authority)) = 2"
    by (simp add: example_report)
qed

text \<open>Rules that do not govern a property cannot influence it: two policies with the same most
  specific matching rules decide every group of observations alike. In particular a rule with a namespace
  overrides all rules without one, and the order of the rules never matters.
\<close>

theorem governing_rules_decide:
  "governing_keys a (ob_object_identity (hd grp)) (ob_property_path (hd grp)) =
   governing_keys b (ob_object_identity (hd grp)) (ob_property_path (hd grp)) \<Longrightarrow>
   analyze_group grp a = analyze_group grp b"
  by (simp add: analyze_group_decide)

theorem governing_rules_decide_witness:
  "let x = \<lparr>ob_object_identity = GraphNodeIdentity ''n'' ''table'' ''t'' None, ob_property_path = [''owner''],
         ob_value = JStr ''ann'', ob_provenance = []\<rparr>;
       k = \<lambda>n t. \<lparr>nr_key = \<lparr>rk_selector = \<lparr>as_kind = ''table'', as_property_path = [''owner''], as_namespace = n\<rparr>,
         rk_authority = \<lparr>at_provider_type = t, at_source_ref = None\<rparr>\<rparr>, nr_declarations = []\<rparr>
   in analyze_group [x] \<lparr>ps_rules = [k None ''dbt'', k (Some ''n'') ''odcs'']\<rparr> =
      analyze_group [x] \<lparr>ps_rules = [k (Some ''n'') ''odcs'']\<rparr>"
  unfolding Let_def
  by (rule governing_rules_decide) code_simp

end
