(* ===== verification/Impact.thy ===== *)
theory Impact
  imports Graph
begin

text \<open>
  \<open>domain/impact.py\<close> and \<open>domain/lineage.py\<close>: the downstream blast radius of changed nodes, a
  breadth-first search in layers that keeps for every affected node a canonical shortest path, and the
  column lineage edges. The \<open>while frontier\<close> loop is a \<open>while_option\<close>: \<open>None\<close> would be a run that
  never ends. A Python set that is iterated is a list of its members here; every result built from such
  an iteration is sorted by an injective key.
\<close>

section \<open>Hops, steps and paths\<close>

datatype TraversalMode = forward | reverse

fun traversal_name :: "TraversalMode \<Rightarrow> string" where
  "traversal_name forward = ''forward''"
| "traversal_name reverse = ''reverse''"

record EffectiveHop =
  h_from_node :: GraphNodeIdentity
  h_to_node :: GraphNodeIdentity
  h_edge :: GraphEdge
  h_traversal :: TraversalMode

definition hop_neighbor_sort_key :: "EffectiveHop \<Rightarrow> string \<times> string \<times> string" where
  "hop_neighbor_sort_key hop = (canonical_bytes (h_to_node hop), logical_sort_key (h_edge hop),
     traversal_name (h_traversal hop))"

definition validate_impact_step_direction ::
  "GraphNodeIdentity \<Rightarrow> GraphNodeIdentity \<Rightarrow> GraphEdge \<Rightarrow> TraversalMode \<Rightarrow> unit result" where
  "validate_impact_step_direction from_node to_node edge traversal =
     (if ge_kind edge = EDGE_KIND_DEPENDS_ON then
        (if traversal \<noteq> reverse \<or> from_node \<noteq> ge_target edge \<or> to_node \<noteq> ge_source edge
         then Inl (ValueError ''impact step traversal incompatible with edge kind'') else Inr ())
      else if ge_kind edge = EDGE_KIND_CONTAINS \<or> ge_kind edge = EDGE_KIND_GOVERNS then
        (if traversal \<noteq> forward \<or> from_node \<noteq> ge_source edge \<or> to_node \<noteq> ge_target edge
         then Inl (ValueError ''impact step traversal incompatible with edge kind'') else Inr ())
      else Inl (ValueError ''impact step traversal incompatible with edge kind''))"

record ImpactStep =
  is_from_node :: GraphNodeIdentity
  is_to_node :: GraphNodeIdentity
  is_edge :: GraphEdge
  is_traversal :: TraversalMode

definition mk_impact_step ::
  "GraphNodeIdentity \<Rightarrow> GraphNodeIdentity \<Rightarrow> GraphEdge \<Rightarrow> TraversalMode \<Rightarrow> ImpactStep result" where
  "mk_impact_step from_node to_node edge traversal =
     try_in (validate_impact_step_direction from_node to_node edge traversal) (\<lambda>_.
       Inr \<lparr>is_from_node = from_node, is_to_node = to_node, is_edge = edge, is_traversal = traversal\<rparr>)"

definition impact_step_to_dict :: "ImpactStep \<Rightarrow> json" where
  "impact_step_to_dict s = JObject [(''edge'', edge_to_dict (is_edge s)),
     (''from_node'', identity_to_dict (is_from_node s)), (''to_node'', identity_to_dict (is_to_node s)),
     (''traversal'', JStr (traversal_name (is_traversal s)))]"

record ImpactPath =
  ip_root :: GraphNodeIdentity
  ip_target :: GraphNodeIdentity
  ip_steps :: "ImpactStep list"

fun contiguous :: "ImpactStep list \<Rightarrow> bool" where
  "contiguous (s # t # ss) \<longleftrightarrow> is_to_node s = is_from_node t \<and> contiguous (t # ss)"
| "contiguous _ \<longleftrightarrow> True"

definition mk_impact_path ::
  "GraphNodeIdentity \<Rightarrow> GraphNodeIdentity \<Rightarrow> ImpactStep list \<Rightarrow> ImpactPath result" where
  "mk_impact_path root target steps =
     (if steps = [] then Inl (ValueError ''impact path requires at least one step'')
      else if is_from_node (hd steps) \<noteq> root then Inl (ValueError ''impact path must start at root'')
      else if is_to_node (last steps) \<noteq> target then Inl (ValueError ''impact path must end at target'')
      else if \<not> contiguous steps then Inl (ValueError ''impact path steps must be contiguous'')
      else Inr \<lparr>ip_root = root, ip_target = target, ip_steps = steps\<rparr>)"

definition path_distance :: "ImpactPath \<Rightarrow> nat" where
  "path_distance p = length (ip_steps p)"

definition impact_path_to_dict :: "ImpactPath \<Rightarrow> json" where
  "impact_path_to_dict p = JObject [(''distance'', JInt (int (path_distance p))),
     (''root'', identity_to_dict (ip_root p)), (''steps'', JArray (map impact_step_to_dict (ip_steps p))),
     (''target'', identity_to_dict (ip_target p))]"

definition step_key_list :: "ImpactStep \<Rightarrow> json" where
  "step_key_list s = JArray [to_canonical_list (is_from_node s), to_canonical_list (is_to_node s),
     to_canonical_list (ge_source (is_edge s)), JStr (ge_kind (is_edge s)),
     to_canonical_list (ge_target (is_edge s)), JStr (traversal_name (is_traversal s))]"

definition path_sort_key :: "ImpactPath \<Rightarrow> string" where
  "path_sort_key p = canonical_json_bytes
     (JArray [to_canonical_list (ip_root p), JArray (map step_key_list (ip_steps p))])"

section \<open>Results\<close>

record GovernanceImpactResult =
  ir_changed_nodes :: "GraphNodeIdentity list"
  ir_direct_nodes :: "GraphNodeIdentity list"
  ir_transitive_nodes :: "GraphNodeIdentity list"
  ir_affected_edges :: "GraphEdge list"
  ir_paths :: "ImpactPath list"
  ir_associated_contracts :: "GraphNodeIdentity list"
  ir_governance_assets :: "GraphNodeIdentity list"
  ir_policy_relevant_nodes :: "GraphNodeIdentity list"

definition normalize_identity_tuple :: "GraphNodeIdentity list \<Rightarrow> GraphNodeIdentity list" where
  "normalize_identity_tuple values = canon_set canonical_bytes values"

definition canonical_attributes :: "cjson \<Rightarrow> attributes_arg" where
  "canonical_attributes a = (case a of CanonicalObject items \<Rightarrow> CanonicalAttributes items | _ \<Rightarrow> plain_attributes a)"

definition merge_affected_group :: "logical_edge \<times> GraphEdge list \<Rightarrow> GraphEdge result" where
  "merge_affected_group = (\<lambda>(key, edges). case edges of
      [] \<Rightarrow> Inl IndexError
    | base # others \<Rightarrow>
        if list_ex (\<lambda>other. tagged_fingerprint (ge_attributes other) \<noteq> tagged_fingerprint (ge_attributes base)) others
        then Inl (ValueError ''conflicting GraphEdge attributes for logical edge'')
        else mk_graph_edge (ge_source base) (ge_target base) (ge_kind base)
               (canonical_attributes (ge_attributes base)) (concat (map ge_provenance edges)))"

definition normalize_affected_edges :: "GraphEdge list \<Rightarrow> GraphEdge list result" where
  "normalize_affected_edges values =
     try_in (traverse merge_affected_group (group_by logical_identity values)) (\<lambda>merged.
       Inr (sort_key logical_sort_key merged))"

definition normalize_paths :: "ImpactPath list \<Rightarrow> ImpactPath list result" where
  "normalize_paths values =
     try_in (fold_in (\<lambda>by_target path.
        if ip_target path \<in> set (keys by_target) then Inl (ValueError ''duplicate impact path target'')
        else Inr (AList.update (ip_target path) path by_target)) [] values) (\<lambda>by_target.
       Inr (sort_key (\<lambda>path. canonical_bytes (ip_target path)) (vals by_target)))"

definition mk_impact_result :: "GovernanceImpactResult \<Rightarrow> GovernanceImpactResult result" where
  "mk_impact_result r =
     try_in (normalize_affected_edges (ir_affected_edges r)) (\<lambda>es.
     try_in (normalize_paths (ir_paths r)) (\<lambda>ps.
       Inr \<lparr>ir_changed_nodes = normalize_identity_tuple (ir_changed_nodes r),
            ir_direct_nodes = normalize_identity_tuple (ir_direct_nodes r),
            ir_transitive_nodes = normalize_identity_tuple (ir_transitive_nodes r),
            ir_affected_edges = es, ir_paths = ps,
            ir_associated_contracts = normalize_identity_tuple (ir_associated_contracts r),
            ir_governance_assets = normalize_identity_tuple (ir_governance_assets r),
            ir_policy_relevant_nodes = normalize_identity_tuple (ir_policy_relevant_nodes r)\<rparr>))"

definition impact_result_to_dict :: "GovernanceImpactResult \<Rightarrow> json" where
  "impact_result_to_dict r = JObject
     [(''affected_edges'', JArray (map edge_to_dict (ir_affected_edges r))),
      (''associated_contracts'', JArray (map identity_to_dict (ir_associated_contracts r))),
      (''changed_nodes'', JArray (map identity_to_dict (ir_changed_nodes r))),
      (''direct_nodes'', JArray (map identity_to_dict (ir_direct_nodes r))),
      (''governance_assets'', JArray (map identity_to_dict (ir_governance_assets r))),
      (''paths'', JArray (map impact_path_to_dict (ir_paths r))),
      (''policy_relevant_nodes'', JArray (map identity_to_dict (ir_policy_relevant_nodes r))),
      (''transitive_nodes'', JArray (map identity_to_dict (ir_transitive_nodes r)))]"

section \<open>Adjacency and roots\<close>

definition effective_hop :: "GraphEdge \<Rightarrow> EffectiveHop option" where
  "effective_hop edge =
     (if ge_kind edge = EDGE_KIND_DEPENDS_ON then
        Some \<lparr>h_from_node = ge_target edge, h_to_node = ge_source edge, h_edge = edge, h_traversal = reverse\<rparr>
      else if ge_kind edge = EDGE_KIND_CONTAINS \<or> ge_kind edge = EDGE_KIND_GOVERNS then
        Some \<lparr>h_from_node = ge_source edge, h_to_node = ge_target edge, h_edge = edge, h_traversal = forward\<rparr>
      else None)"

type_synonym adjacency = "(GraphNodeIdentity, EffectiveHop list) dict"

definition build_effective_adjacency :: "GovernanceGraph \<Rightarrow> adjacency" where
  "build_effective_adjacency graph =
     map (\<lambda>(node, hops). (node, sort_key hop_neighbor_sort_key hops))
       (group_by h_from_node (List.map_filter effective_hop (gg_edges graph)))"

definition hops_from :: "adjacency \<Rightarrow> GraphNodeIdentity \<Rightarrow> EffectiveHop list" where
  "hops_from adjacency node = get_list adjacency node"

definition normalize_changed_roots ::
  "GovernanceGraph \<Rightarrow> GraphNodeIdentity list \<Rightarrow> GraphNodeIdentity list result" where
  "normalize_changed_roots graph changed_nodes =
     (if unique changed_nodes = [] then Inl (ValueError ''changed_nodes must not be empty'')
      else try_in (check_each (\<lambda>node. require (node \<in> gn_identity ` set (gg_nodes graph))
             (ValueError ''changed node not present in graph'')) (unique changed_nodes)) (\<lambda>_.
        Inr (sort_key canonical_bytes (unique changed_nodes))))"

definition make_step :: "EffectiveHop \<Rightarrow> ImpactStep result" where
  "make_step hop = mk_impact_step (h_from_node hop) (h_to_node hop) (h_edge hop) (h_traversal hop)"

definition extend_path ::
  "GraphNodeIdentity \<Rightarrow> ImpactPath option \<Rightarrow> EffectiveHop \<Rightarrow> ImpactPath result" where
  "extend_path parent parent_path hop =
     try_in (make_step hop) (\<lambda>step. case parent_path of
         None \<Rightarrow> mk_impact_path parent (h_to_node hop) [step]
       | Some p \<Rightarrow> mk_impact_path (ip_root p) (h_to_node hop) (ip_steps p @ [step]))"

section \<open>The search\<close>

record search =
  s_distance :: "(GraphNodeIdentity, nat) dict"
  s_best_path :: "(GraphNodeIdentity, ImpactPath) dict"
  s_next :: "(GraphNodeIdentity, ImpactPath) dict"
  s_frontier :: "GraphNodeIdentity list"

text \<open>First scan of a layer: one hop of one frontier node. Reading \<open>distance[node]\<close> or
  \<open>best_path[target]\<close> for an absent key raises \<open>KeyError\<close>.\<close>

definition lookup :: "('k, 'v) dict \<Rightarrow> 'k \<Rightarrow> 'v result" where
  "lookup d k = (case map_of d k of None \<Rightarrow> Inl (KeyError ''missing key'') | Some v \<Rightarrow> Inr v)"

definition visit_hop ::
  "GraphNodeIdentity list \<Rightarrow> GraphNodeIdentity \<Rightarrow> ImpactPath option \<Rightarrow> search \<Rightarrow> EffectiveHop \<Rightarrow> search result" where
  "visit_hop roots node parent_path st hop =
     (let target = h_to_node hop in
      if target \<in> set roots then Inr st
      else try_in (extend_path node parent_path hop) (\<lambda>candidate.
           try_in (lookup (s_distance st) node) (\<lambda>dist.
           let new_distance = dist + 1; existing = map_of (s_distance st) target in
           if (case existing of None \<Rightarrow> False | Some e \<Rightarrow> new_distance > e) then Inr st
           else if existing = Some new_distance then
             try_in (lookup (s_best_path st) target) (\<lambda>current_best.
               if path_sort_key candidate \<ge> path_sort_key current_best then Inr st
               else Inr (st\<lparr>s_best_path := AList.update target candidate (s_best_path st)\<rparr>))
           else Inr (st\<lparr>s_distance := AList.update target new_distance (s_distance st),
                        s_best_path := AList.update target candidate (s_best_path st),
                        s_next := AList.update target candidate (s_next st)\<rparr>))))"

text \<open>Second scan: prefer the canonical path among equal-distance arrivals.\<close>

definition rescan_hop ::
  "GraphNodeIdentity \<Rightarrow> ImpactPath option \<Rightarrow> search \<Rightarrow> EffectiveHop \<Rightarrow> search result" where
  "rescan_hop node parent_path st hop =
     (let target = h_to_node hop in
      if target \<notin> set (keys (s_next st)) then Inr st
      else try_in (extend_path node parent_path hop) (\<lambda>candidate.
           try_in (lookup (s_distance st) node) (\<lambda>dist.
           if map_of (s_distance st) target \<noteq> Some (dist + 1) then Inr st
           else try_in (lookup (s_best_path st) target) (\<lambda>current_best.
             if path_sort_key candidate < path_sort_key current_best
             then Inr (st\<lparr>s_best_path := AList.update target candidate (s_best_path st),
                          s_next := AList.update target candidate (s_next st)\<rparr>)
             else Inr st))))"

definition visit_node ::
  "adjacency \<Rightarrow> GraphNodeIdentity list \<Rightarrow> search \<Rightarrow> GraphNodeIdentity \<Rightarrow> search result" where
  "visit_node adjacency roots st node =
     fold_in (visit_hop roots node (map_of (s_best_path st) node)) st (hops_from adjacency node)"

definition rescan_node :: "adjacency \<Rightarrow> search \<Rightarrow> GraphNodeIdentity \<Rightarrow> search result" where
  "rescan_node adjacency st node =
     fold_in (rescan_hop node (map_of (s_best_path st) node)) st (hops_from adjacency node)"

definition search_layer :: "adjacency \<Rightarrow> GraphNodeIdentity list \<Rightarrow> search \<Rightarrow> search result" where
  "search_layer adjacency roots st =
     try_in (fold_in (visit_node adjacency roots) (st\<lparr>s_next := []\<rparr>)
        (sort_key canonical_bytes (s_frontier st))) (\<lambda>st1.
     try_in (fold_in (rescan_node adjacency) st1 (sort_key canonical_bytes (s_frontier st))) (\<lambda>st2.
       Inr (st2\<lparr>s_frontier := sort_key canonical_bytes (keys (s_next st2))\<rparr>)))"

definition initial_search :: "GraphNodeIdentity list \<Rightarrow> search" where
  "initial_search roots = \<lparr>s_distance = dict_of (map (\<lambda>r. (r, 0)) roots), s_best_path = [], s_next = [],
     s_frontier = roots\<rparr>"

definition run_search :: "adjacency \<Rightarrow> GraphNodeIdentity list \<Rightarrow> search result option" where
  "run_search adjacency roots =
     while_option (\<lambda>r. case r of Inl e \<Rightarrow> False | Inr st \<Rightarrow> s_frontier st \<noteq> [])
       (\<lambda>r. try_in r (search_layer adjacency roots)) (Inr (initial_search roots))"

section \<open>Associations\<close>

definition collect_affected_edges :: "adjacency \<Rightarrow> GraphNodeIdentity list \<Rightarrow> GraphEdge list" where
  "collect_affected_edges adjacency closure =
     sort_key logical_sort_key (vals (dict_of (map (\<lambda>hop. (logical_identity (h_edge hop), h_edge hop))
       (filter (\<lambda>hop. h_to_node hop \<in> set closure) (concat (map (hops_from adjacency) closure))))))"

definition associate_governance_assets ::
  "GovernanceGraph \<Rightarrow> GraphNodeIdentity list \<Rightarrow> GraphNodeIdentity list" where
  "associate_governance_assets graph impact_core =
     canon_set canonical_bytes (concat (map (\<lambda>node.
       if gi_kind node = NODE_KIND_CONTRACT then []
       else node # filter (\<lambda>a. a \<in> gn_identity ` set (gg_nodes graph) \<and> gi_kind a \<noteq> NODE_KIND_CONTRACT)
              (ancestors node)) impact_core))"

definition governs_by_target ::
  "GovernanceGraph \<Rightarrow> (GraphNodeIdentity, GraphNodeIdentity list) dict" where
  "governs_by_target graph = extend_by ge_target (\<lambda>e. [ge_source e])
     (filter (\<lambda>e. ge_kind e = EDGE_KIND_GOVERNS \<and> gi_kind (ge_source e) = NODE_KIND_CONTRACT \<and>
        ge_source e \<in> gn_identity ` set (gg_nodes graph)) (gg_edges graph))"

definition associate_contracts ::
  "GovernanceGraph \<Rightarrow> GraphNodeIdentity list \<Rightarrow> GraphNodeIdentity list" where
  "associate_contracts graph impact_core =
     canon_set canonical_bytes
       (filter (\<lambda>node. gi_kind node = NODE_KIND_CONTRACT) impact_core @
        concat (map (\<lambda>node. concat (map (get_list (governs_by_target graph)) (node # ancestors node))) impact_core))"

definition POLICY_RELEVANT_KINDS :: "string list" where
  "POLICY_RELEVANT_KINDS = [NODE_KIND_DATA_SOURCE, NODE_KIND_DATASET, NODE_KIND_TABLE, NODE_KIND_COLUMN]"

definition policy_relevant_nodes :: "GraphNodeIdentity list \<Rightarrow> GraphNodeIdentity list" where
  "policy_relevant_nodes governance_assets =
     sort_key canonical_bytes (filter (\<lambda>node. gi_kind node \<in> set POLICY_RELEVANT_KINDS) governance_assets)"

definition impact_of_search ::
  "GovernanceGraph \<Rightarrow> adjacency \<Rightarrow> GraphNodeIdentity list \<Rightarrow> search \<Rightarrow> GovernanceImpactResult result" where
  "impact_of_search graph adjacency roots st =
     (let direct = sort_key canonical_bytes (map fst (filter (\<lambda>(node, d). d = 1) (s_distance st)));
          transitive = sort_key canonical_bytes (map fst (filter (\<lambda>(node, d). 2 \<le> d) (s_distance st)));
          core = unique (roots @ direct @ transitive);
          assets = associate_governance_assets graph core
      in try_in (traverse (lookup (s_best_path st)) (direct @ transitive)) (\<lambda>paths.
         mk_impact_result
           \<lparr>ir_changed_nodes = roots, ir_direct_nodes = direct, ir_transitive_nodes = transitive,
            ir_affected_edges = collect_affected_edges adjacency core,
            ir_paths = sort_key (\<lambda>path. canonical_bytes (ip_target path)) paths,
            ir_associated_contracts = associate_contracts graph core,
            ir_governance_assets = assets,
            ir_policy_relevant_nodes = policy_relevant_nodes assets\<rparr>))"

definition analyze_downstream_impact ::
  "GovernanceGraph \<Rightarrow> GraphNodeIdentity list \<Rightarrow> GovernanceImpactResult result option" where
  "analyze_downstream_impact graph changed_nodes =
     (case normalize_changed_roots graph changed_nodes of
        Inl e \<Rightarrow> Some (Inl e)
      | Inr roots \<Rightarrow>
          (let adjacency = build_effective_adjacency graph
           in map_option (\<lambda>r. try_in r (impact_of_search graph adjacency roots)) (run_search adjacency roots)))"

section \<open>The order of paths\<close>

text \<open>\<open>path_sort_key\<close> compares root and steps one after the other. Two paths with the same number of
  steps are ordered alike after both are extended by the same step: the canonical choice among the
  shortest paths to a node never has to be revised for the nodes behind it.\<close>

definition steps_text :: "ImpactStep list \<Rightarrow> string" where
  "steps_text ss = join '','' (map (\<lambda>s. canonical_json_bytes (step_key_list s)) ss)"

definition path_text :: "ImpactPath \<Rightarrow> string" where
  "path_text p = ''['' @ canonical_json_bytes (to_canonical_list (ip_root p)) @ '',['' @ steps_text (ip_steps p)"

lemma path_sort_key_text: "path_sort_key p = path_text p @ '']]''"
  by (simp add: path_sort_key_def path_text_def steps_text_def comp_def)

lemma step_key_list_array [simp]:
  "wf_json (step_key_list s)" "sorted_json (step_key_list s)"
  by (simp_all add: step_key_list_def)

lemma steps_text_snoc:
  "ss \<noteq> [] \<Longrightarrow> steps_text (ss @ [s]) = steps_text ss @ '','' @ canonical_json_bytes (step_key_list s)"
proof -
  have "join sep (xs @ [x]) = join sep xs @ sep @ x" if "xs \<noteq> []" for sep x :: string and xs
    using that by (induction sep xs rule: join.induct) auto
  then show "ss \<noteq> [] \<Longrightarrow> ?thesis" by (simp add: steps_text_def)
qed

lemma step_key_cancel:
  "canonical_json_bytes (step_key_list s) @ r = canonical_json_bytes (step_key_list t) @ r' \<Longrightarrow>
   canonical_json_bytes (step_key_list s) = canonical_json_bytes (step_key_list t) \<and> r = r'"
  using array_dump_cancel [of _ _ r r'] step_key_list_array [of s] step_key_list_array [of t]
  unfolding step_key_list_def by blast

lemma steps_text_cancel:
  "length ss = length ts \<Longrightarrow> steps_text ss @ r = steps_text ts @ r' \<Longrightarrow> steps_text ss = steps_text ts"
proof (induction ss ts arbitrary: r r' rule: list_induct2)
  case (Cons s ss t ts)
  show ?case
  proof (cases ss)
    case Nil
    with Cons show ?thesis using step_key_cancel [of s r t r'] by (simp add: steps_text_def)
  next
    case (Cons u us)
    with Cons.hyps obtain v vs where ts: "ts = v # vs" by (cases ts) auto
    have split: "steps_text (x # y # ys) = canonical_json_bytes (step_key_list x) @ CHR '','' # steps_text (y # ys)"
      for x y ys by (simp add: steps_text_def)
    from Cons.prems have "canonical_json_bytes (step_key_list s) @ CHR '','' # steps_text ss @ r =
        canonical_json_bytes (step_key_list t) @ CHR '','' # steps_text ts @ r'"
      unfolding Cons ts split by simp
    from step_key_cancel [OF this] have "canonical_json_bytes (step_key_list s) = canonical_json_bytes (step_key_list t)"
      "steps_text ss @ r = steps_text ts @ r'" by simp_all
    then show ?thesis using Cons.IH unfolding Cons ts split by (metis Cons ts)
  qed
qed simp

lemma path_text_cancel:
  assumes "length (ip_steps p) = length (ip_steps q)" "path_text p @ r = path_text q @ r'"
  shows "path_text p = path_text q"
proof -
  have "canonical_json_bytes (to_canonical_list (ip_root p)) @ '',['' @ steps_text (ip_steps p) @ r =
      canonical_json_bytes (to_canonical_list (ip_root q)) @ '',['' @ steps_text (ip_steps q) @ r'"
    using assms(2) by (simp add: path_text_def)
  from dumps_cancel [OF _ _ _ _ _ _ this]
  have "ip_root p = ip_root q" "steps_text (ip_steps p) @ r = steps_text (ip_steps q) @ r'" by simp_all
  then show ?thesis using steps_text_cancel [OF assms(1)] by (simp add: path_text_def)
qed

definition snoc_path :: "ImpactPath \<Rightarrow> ImpactStep \<Rightarrow> ImpactPath" where
  "snoc_path p s = \<lparr>ip_root = ip_root p, ip_target = is_to_node s, ip_steps = ip_steps p @ [s]\<rparr>"

lemma path_text_snoc:
  "ip_steps p \<noteq> [] \<Longrightarrow> path_text (snoc_path p s) = path_text p @ '','' @ canonical_json_bytes (step_key_list s)"
  by (simp add: path_text_def snoc_path_def steps_text_snoc)

lemma path_sort_key_mono:
  assumes len: "length (ip_steps p) = length (ip_steps q)" and ne: "ip_steps p \<noteq> []"
    and le: "path_sort_key p \<le> path_sort_key q"
  shows "path_sort_key (snoc_path p s) \<le> path_sort_key (snoc_path q s)"
proof (cases "path_text p = path_text q")
  case True
  have "ip_steps q \<noteq> []" using len ne by auto
  with True show ?thesis using ne by (simp add: path_sort_key_text path_text_snoc)
next
  case False
  have "ip_steps q \<noteq> []" using len ne by auto
  then have "path_sort_key (snoc_path p s) < path_sort_key (snoc_path q s) \<longleftrightarrow> path_text p < path_text q"
    unfolding path_sort_key_text path_text_snoc [OF ne] path_text_snoc [OF \<open>ip_steps q \<noteq> []\<close>] append_assoc
    by (intro less_append_independent [OF path_text_cancel [OF len] False])
  moreover have "path_sort_key p < path_sort_key q \<longleftrightarrow> path_text p < path_text q"
    unfolding path_sort_key_text by (intro less_append_independent [OF path_text_cancel [OF len] False])
  moreover have "path_sort_key p \<noteq> path_sort_key q" using False by (simp add: path_sort_key_text)
  ultimately show ?thesis using le by (metis le_neq_trans less_imp_le)
qed

section \<open>Walks\<close>

text \<open>\<open>H\<close> is the set of hops, \<open>R\<close> the set of roots. \<open>paths_to H R k n\<close> are the paths of \<open>k\<close> steps from a
  root to \<open>n\<close>, \<open>reach H R k\<close> the nodes that a walk of \<open>k\<close> hops reaches, \<open>level H R k\<close> those of them that no
  shorter walk reaches.\<close>

definition step_of :: "EffectiveHop \<Rightarrow> ImpactStep" where
  "step_of h = \<lparr>is_from_node = h_from_node h, is_to_node = h_to_node h, is_edge = h_edge h,
     is_traversal = h_traversal h\<rparr>"

definition valid_hop :: "EffectiveHop \<Rightarrow> bool" where
  "valid_hop h \<longleftrightarrow> effective_hop (h_edge h) = Some h"

primrec reach :: "EffectiveHop set \<Rightarrow> GraphNodeIdentity set \<Rightarrow> nat \<Rightarrow> GraphNodeIdentity set" where
  "reach H R 0 = R"
| "reach H R (Suc k) = {h_to_node h |h. h \<in> H \<and> h_from_node h \<in> reach H R k}"

definition level :: "EffectiveHop set \<Rightarrow> GraphNodeIdentity set \<Rightarrow> nat \<Rightarrow> GraphNodeIdentity \<Rightarrow> bool" where
  "level H R k n \<longleftrightarrow> n \<in> reach H R k \<and> (\<forall>j < k. n \<notin> reach H R j)"

inductive paths_to :: "EffectiveHop set \<Rightarrow> GraphNodeIdentity set \<Rightarrow> nat \<Rightarrow> GraphNodeIdentity \<Rightarrow> ImpactPath \<Rightarrow> bool"
  for H R where
  first: "h \<in> H \<Longrightarrow> h_from_node h \<in> R \<Longrightarrow>
    paths_to H R 1 (h_to_node h) \<lparr>ip_root = h_from_node h, ip_target = h_to_node h, ip_steps = [step_of h]\<rparr>"
| snoc: "paths_to H R k m p \<Longrightarrow> h \<in> H \<Longrightarrow> h_from_node h = m \<Longrightarrow>
    paths_to H R (Suc k) (h_to_node h) (snoc_path p (step_of h))"

inductive_cases paths_to_cases: "paths_to H R k n p"

lemma level_unique: "level H R j n \<Longrightarrow> level H R k n \<Longrightarrow> j = k"
  by (metis level_def linorder_neqE_nat)

lemma reach_level: "n \<in> reach H R k \<Longrightarrow> \<exists>j \<le> k. level H R j n"
proof (induction k rule: less_induct)
  case (less k)
  then show ?case
    by (cases "\<exists>j < k. n \<in> reach H R j") (auto simp: level_def intro: less_imp_le, meson less_imp_le order_trans)
qed

lemma level_Suc:
  "level H R (Suc d) n \<longleftrightarrow> (\<forall>j \<le> d. \<not> level H R j n) \<and> (\<exists>h \<in> H. h_to_node h = n \<and> level H R d (h_from_node h))"
proof
  assume l: "level H R (Suc d) n"
  then obtain h where h: "h \<in> H" "h_to_node h = n" "h_from_node h \<in> reach H R d" by (auto simp: level_def)
  have "h_from_node h \<notin> reach H R j" if "j < d" for j
  proof
    assume "h_from_node h \<in> reach H R j"
    then have "n \<in> reach H R (Suc j)" using h by auto
    moreover have "n \<notin> reach H R (Suc j)" using l that unfolding level_def by blast
    ultimately show False by blast
  qed
  then show "(\<forall>j \<le> d. \<not> level H R j n) \<and> (\<exists>h \<in> H. h_to_node h = n \<and> level H R d (h_from_node h))"
    using l h by (auto simp: level_def)
next
  assume r: "(\<forall>j \<le> d. \<not> level H R j n) \<and> (\<exists>h \<in> H. h_to_node h = n \<and> level H R d (h_from_node h))"
  then have "n \<in> reach H R (Suc d)" by (auto simp: level_def)
  moreover have "n \<notin> reach H R j" if "j < Suc d" for j
    using reach_level [of n H R j] r that by (meson le_trans less_Suc_eq_le)
  ultimately show "level H R (Suc d) n" by (simp add: level_def)
qed

lemma level_0: "level H R 0 n \<longleftrightarrow> n \<in> R"
  by (simp add: level_def)

lemma paths_to_shape:
  "paths_to H R k n p \<Longrightarrow> ip_target p = n \<and> length (ip_steps p) = k \<and> ip_root p \<in> R \<and> 0 < k"
  by (induction rule: paths_to.induct) (auto simp: snoc_path_def step_of_def)

lemma paths_to_reach: "paths_to H R k n p \<Longrightarrow> n \<in> reach H R k"
  by (induction rule: paths_to.induct) auto

lemma reach_paths_to: "n \<in> reach H R (Suc k) \<Longrightarrow> \<exists>p. paths_to H R (Suc k) n p"
proof (induction k arbitrary: n)
  case 0
  then obtain h where h: "h \<in> H" "h_from_node h \<in> R" "n = h_to_node h" by auto
  then show ?case using paths_to.first [of h H R] by auto
next
  case (Suc k)
  then obtain h where h: "h \<in> H" "h_from_node h \<in> reach H R (Suc k)" "n = h_to_node h" by auto
  then obtain p where "paths_to H R (Suc k) (h_from_node h) p" using Suc.IH by blast
  then show ?case using h by (auto intro: paths_to.snoc)
qed

text \<open>The constructors of a step and of an extended path accept every hop of the graph.\<close>

lemma make_step_valid: "valid_hop h \<Longrightarrow> make_step h = Inr (step_of h)"
  by (cases h) (auto simp: valid_hop_def effective_hop_def make_step_def mk_impact_step_def step_of_def
      validate_impact_step_direction_def kind_defs split: if_splits)

lemma contiguous_snoc:
  "ss \<noteq> [] \<Longrightarrow> contiguous (ss @ [s]) \<longleftrightarrow> contiguous ss \<and> is_to_node (last ss) = is_from_node s"
  by (induction ss rule: contiguous.induct) auto

definition path_valid :: "ImpactPath \<Rightarrow> bool" where
  "path_valid p \<longleftrightarrow> mk_impact_path (ip_root p) (ip_target p) (ip_steps p) = Inr p"

lemma path_valid_iff:
  "path_valid p \<longleftrightarrow> ip_steps p \<noteq> [] \<and> is_from_node (hd (ip_steps p)) = ip_root p \<and>
    is_to_node (last (ip_steps p)) = ip_target p \<and> contiguous (ip_steps p)"
  by (auto simp: path_valid_def mk_impact_path_def)

lemma paths_to_valid: "paths_to H R k n p \<Longrightarrow> path_valid p"
proof (induction rule: paths_to.induct)
  case (snoc k m p h)
  then show ?case using paths_to_shape [OF snoc.hyps(1)]
    by (auto simp: path_valid_iff snoc_path_def contiguous_snoc step_of_def)
qed (auto simp: path_valid_iff step_of_def)

definition extended :: "GraphNodeIdentity \<Rightarrow> ImpactPath option \<Rightarrow> EffectiveHop \<Rightarrow> ImpactPath" where
  "extended m pp h = (case pp of
      None \<Rightarrow> \<lparr>ip_root = m, ip_target = h_to_node h, ip_steps = [step_of h]\<rparr>
    | Some p \<Rightarrow> snoc_path p (step_of h))"

lemma extend_path_ok:
  assumes "valid_hop h" "h_from_node h = m" "\<forall>p. pp = Some p \<longrightarrow> path_valid p \<and> ip_target p = m"
  shows "extend_path m pp h = Inr (extended m pp h)"
proof (cases pp)
  case None
  then show ?thesis using assms(1,2)
    by (simp add: extend_path_def make_step_valid extended_def mk_impact_path_def step_of_def)
next
  case (Some p)
  with assms have "path_valid p" "ip_target p = m" by auto
  then show ?thesis using assms(1,2) Some
    by (auto simp: extend_path_def make_step_valid extended_def mk_impact_path_def path_valid_iff
        contiguous_snoc snoc_path_def step_of_def)
qed

lemma ip_target_extended [simp]: "ip_target (extended m pp h) = h_to_node h"
  by (auto simp: extended_def snoc_path_def step_of_def split: option.splits)

section \<open>One layer of the search\<close>

definition best_at :: "EffectiveHop set \<Rightarrow> GraphNodeIdentity set \<Rightarrow> nat \<Rightarrow> GraphNodeIdentity \<Rightarrow> ImpactPath \<Rightarrow> bool" where
  "best_at H R k n p \<longleftrightarrow> paths_to H R k n p \<and> (\<forall>q. paths_to H R k n q \<longrightarrow> path_sort_key p \<le> path_sort_key q)"

definition search_inv :: "EffectiveHop set \<Rightarrow> GraphNodeIdentity set \<Rightarrow> nat \<Rightarrow> search \<Rightarrow> bool" where
  "search_inv H R d st \<longleftrightarrow>
     (\<forall>n j. map_of (s_distance st) n = Some j \<longleftrightarrow> level H R j n \<and> j \<le> d) \<and>
     (\<forall>n. map_of (s_best_path st) n = None \<longleftrightarrow> \<not> (\<exists>j. 1 \<le> j \<and> j \<le> d \<and> level H R j n)) \<and>
     (\<forall>n p. map_of (s_best_path st) n = Some p \<longrightarrow> (\<exists>j. 1 \<le> j \<and> j \<le> d \<and> level H R j n \<and> best_at H R j n p)) \<and>
     set (s_frontier st) = {n. level H R d n} \<and> distinct (s_frontier st) \<and> distinct (keys (s_distance st))"

definition cand :: "search \<Rightarrow> EffectiveHop \<Rightarrow> ImpactPath" where
  "cand st0 h = extended (h_from_node h) (map_of (s_best_path st0) (h_from_node h)) h"

definition cands :: "search \<Rightarrow> EffectiveHop set \<Rightarrow> GraphNodeIdentity \<Rightarrow> ImpactPath set" where
  "cands st0 P n = cand st0 ` {h \<in> P. h_to_node h = n}"

definition layer_inv :: "search \<Rightarrow> nat \<Rightarrow> EffectiveHop set \<Rightarrow> search \<Rightarrow> bool" where
  "layer_inv st0 d P st \<longleftrightarrow>
     s_frontier st = s_frontier st0 \<and>
     (\<forall>n. map_of (s_distance st) n = (case map_of (s_distance st0) n of Some j \<Rightarrow> Some j
        | None \<Rightarrow> if n \<in> h_to_node ` P then Some (Suc d) else None)) \<and>
     (\<forall>n. map_of (s_distance st0) n \<noteq> None \<or> n \<notin> h_to_node ` P \<longrightarrow>
        map_of (s_best_path st) n = map_of (s_best_path st0) n) \<and>
     (\<forall>n. map_of (s_distance st0) n = None \<and> n \<in> h_to_node ` P \<longrightarrow>
        (\<exists>p \<in> cands st0 P n. map_of (s_best_path st) n = Some p \<and>
           (\<forall>q \<in> cands st0 P n. path_sort_key p \<le> path_sort_key q))) \<and>
     set (keys (s_next st)) = {n. map_of (s_distance st0) n = None \<and> n \<in> h_to_node ` P} \<and>
     distinct (keys (s_next st)) \<and> distinct (keys (s_distance st))"

lemma cands_insert:
  "cands st0 (insert h P) n = (if h_to_node h = n then insert (cand st0 h) (cands st0 P n) else cands st0 P n)"
  by (auto simp: cands_def)

lemma layer_inv_known:
  "layer_inv st0 d P st \<Longrightarrow> map_of (s_distance st0) (h_to_node h) \<noteq> None \<Longrightarrow> layer_inv st0 d (insert h P) st"
  unfolding layer_inv_def cands_insert by (auto split: option.splits)

lemma layer_inv_new:
  assumes "layer_inv st0 d P st" "map_of (s_distance st0) (h_to_node h) = None" "h_to_node h \<notin> h_to_node ` P"
  shows "layer_inv st0 d (insert h P)
    (st\<lparr>s_distance := AList.update (h_to_node h) (Suc d) (s_distance st),
        s_best_path := AList.update (h_to_node h) (cand st0 h) (s_best_path st),
        s_next := AList.update (h_to_node h) c (s_next st)\<rparr>)"
proof -
  have "cands st0 P (h_to_node h) = {}" using assms(3) unfolding cands_def by (metis (mono_tags, lifting) empty_Collect_eq image_empty image_eqI)
  then show ?thesis
    using assms unfolding layer_inv_def cands_insert
    by (auto simp: distinct_keys_update keys_update split: option.splits)
qed

lemma layer_inv_better:
  assumes "layer_inv st0 d P st" "map_of (s_distance st0) (h_to_node h) = None" "h_to_node h \<in> h_to_node ` P"
    and "map_of (s_best_path st) (h_to_node h) = Some b"
  shows "path_sort_key b \<le> path_sort_key (cand st0 h) \<Longrightarrow> layer_inv st0 d (insert h P) st"
    and "path_sort_key (cand st0 h) < path_sort_key b \<Longrightarrow> layer_inv st0 d (insert h P)
      (st\<lparr>s_best_path := AList.update (h_to_node h) (cand st0 h) (s_best_path st)\<rparr>)"
proof -
  let ?t = "h_to_node h"
  have img: "h_to_node ` insert h P = h_to_node ` P" using assms(3) by auto
  have b: "b \<in> cands st0 P ?t" "\<forall>q \<in> cands st0 P ?t. path_sort_key b \<le> path_sort_key q"
    using assms unfolding layer_inv_def by auto
  show "layer_inv st0 d (insert h P) st" if "path_sort_key b \<le> path_sort_key (cand st0 h)"
    using assms that b unfolding layer_inv_def img cands_insert by auto
  show "layer_inv st0 d (insert h P)
      (st\<lparr>s_best_path := AList.update ?t (cand st0 h) (s_best_path st)\<rparr>)"
    if "path_sort_key (cand st0 h) < path_sort_key b"
    using assms that b unfolding layer_inv_def img cands_insert by fastforce
qed

lemma cand_extend:
  assumes inv: "search_inv H R d st0" and h: "valid_hop h"
  shows "extend_path (h_from_node h) (map_of (s_best_path st0) (h_from_node h)) h = Inr (cand st0 h)"
proof -
  have "path_valid p \<and> ip_target p = h_from_node h" if some: "map_of (s_best_path st0) (h_from_node h) = Some p" for p
  proof -
    obtain j where "paths_to H R j (h_from_node h) p"
      using inv some unfolding search_inv_def best_at_def by blast
    then show ?thesis using paths_to_valid paths_to_shape by blast
  qed
  then show ?thesis unfolding cand_def using h by (intro extend_path_ok) auto
qed

lemma visit_hop_step:
  assumes inv: "search_inv H R d st0" and lay: "layer_inv st0 d P st"
    and h: "valid_hop h" "level H R d (h_from_node h)" and R: "set roots = R"
  shows "\<exists>u. visit_hop roots (h_from_node h) (map_of (s_best_path st0) (h_from_node h)) st h = Inr u \<and>
    layer_inv st0 d (insert h P) u"
proof -
  let ?t = "h_to_node h" and ?m = "h_from_node h"
  have D0m: "map_of (s_distance st0) ?m = Some d" using inv h(2) by (simp add: search_inv_def)
  then have m: "lookup (s_distance st) ?m = Inr d" using lay by (simp add: layer_inv_def lookup_def)
  have le: "e \<le> d" if "map_of (s_distance st0) n = Some e" for n e using inv that by (simp add: search_inv_def)
  show ?thesis
  proof (cases "map_of (s_distance st0) ?t")
    case (Some e)
    then have "map_of (s_distance st) ?t = Some e" using lay by (simp add: layer_inv_def)
    then have "visit_hop roots ?m (map_of (s_best_path st0) ?m) st h = Inr st"
      using le [OF Some] by (simp add: visit_hop_def Let_def cand_extend [OF inv h(1)] m)
    then show ?thesis using layer_inv_known [OF lay] Some by auto
  next
    case None
    have root: "?t \<notin> set roots" using None inv R unfolding search_inv_def by (metis level_0 option.distinct(1) zero_le)
    show ?thesis
    proof (cases "?t \<in> h_to_node ` P")
      case False
      then have "map_of (s_distance st) ?t = None" using lay None by (simp add: layer_inv_def)
      then have "visit_hop roots ?m (map_of (s_best_path st0) ?m) st h =
          Inr (st\<lparr>s_distance := AList.update ?t (Suc d) (s_distance st),
            s_best_path := AList.update ?t (cand st0 h) (s_best_path st),
            s_next := AList.update ?t (cand st0 h) (s_next st)\<rparr>)"
        using root by (simp add: visit_hop_def Let_def cand_extend [OF inv h(1)] m)
      then show ?thesis using layer_inv_new [OF lay None False] by blast
    next
      case True
      then have dist: "map_of (s_distance st) ?t = Some (Suc d)" using lay None by (simp add: layer_inv_def)
      obtain b where b: "map_of (s_best_path st) ?t = Some b" using lay None True unfolding layer_inv_def by blast
      then have "lookup (s_best_path st) ?t = Inr b" by (simp add: lookup_def)
      then have "visit_hop roots ?m (map_of (s_best_path st0) ?m) st h =
          Inr (if path_sort_key b \<le> path_sort_key (cand st0 h) then st
               else st\<lparr>s_best_path := AList.update ?t (cand st0 h) (s_best_path st)\<rparr>)"
        using root dist by (simp add: visit_hop_def Let_def cand_extend [OF inv h(1)] m)
      then show ?thesis using layer_inv_better [OF lay None True b] by (auto simp: not_le)
    qed
  qed
qed

text \<open>The second scan finds nothing to improve.\<close>

lemma rescan_hop_step:
  assumes inv: "search_inv H R d st0" and lay: "layer_inv st0 d P st" and h: "valid_hop h" "h \<in> P"
  shows "\<exists>u. rescan_hop (h_from_node h) (map_of (s_best_path st0) (h_from_node h)) st h = Inr u \<and> u = st
    \<or> map_of (s_distance st0) (h_from_node h) = None"
proof (cases "map_of (s_distance st0) (h_from_node h)")
  case None
  then show ?thesis by simp
next
  case (Some d')
  let ?t = "h_to_node h" and ?m = "h_from_node h"
  have m: "lookup (s_distance st) ?m = Inr d'" using lay Some by (simp add: layer_inv_def lookup_def)
  show ?thesis
  proof (cases "?t \<in> set (keys (s_next st))")
    case True
    then have None: "map_of (s_distance st0) ?t = None" "?t \<in> h_to_node ` P" using lay by (auto simp: layer_inv_def)
    then obtain b where b: "map_of (s_best_path st) ?t = Some b" "\<forall>q \<in> cands st0 P ?t. path_sort_key b \<le> path_sort_key q"
      using lay unfolding layer_inv_def by blast
    then have "path_sort_key b \<le> path_sort_key (cand st0 h)" using h(2) by (auto simp: cands_def)
    moreover have "lookup (s_best_path st) ?t = Inr b" using b(1) by (simp add: lookup_def)
    ultimately show ?thesis
      by (simp add: rescan_hop_def Let_def cand_extend [OF inv h(1)] m leD)
  qed (simp add: rescan_hop_def Let_def)
qed

definition adjacency_of :: "adjacency \<Rightarrow> EffectiveHop set \<Rightarrow> bool" where
  "adjacency_of adj H \<longleftrightarrow> (\<forall>h \<in> H. valid_hop h) \<and> (\<forall>m. set (hops_from adj m) = {h \<in> H. h_from_node h = m})"

lemma visit_node_step:
  assumes adj: "adjacency_of adj H" and inv: "search_inv H R d st0" and lay: "layer_inv st0 d P st"
    and m: "level H R d m" and R: "set roots = R"
  shows "\<exists>u. visit_node adj roots st m = Inr u \<and> layer_inv st0 d (P \<union> {h \<in> H. h_from_node h = m}) u"
proof -
  have "map_of (s_distance st0) m = Some d" using inv m by (simp add: search_inv_def)
  then have pp: "map_of (s_best_path st) m = map_of (s_best_path st0) m" using lay by (simp add: layer_inv_def)
  have "\<exists>u. fold_in (visit_hop roots m (map_of (s_best_path st0) m)) st (hops_from adj m) = Inr u \<and>
      layer_inv st0 d (P \<union> set (hops_from adj m)) u"
  proof (rule fold_in_invariant)
    show "layer_inv st0 d (P \<union> set []) st" using lay by simp
    show "\<exists>u. visit_hop roots m (map_of (s_best_path st0) m) t h = Inr u \<and> layer_inv st0 d (P \<union> set (ys @ [h])) u"
      if split: "\<exists>zs. hops_from adj m = ys @ h # zs" and t: "layer_inv st0 d (P \<union> set ys) t" for ys h t
    proof -
      have "h \<in> set (hops_from adj m)" using split by auto
      then have h: "valid_hop h" "h_from_node h = m" using adj by (auto simp: adjacency_of_def)
      then show ?thesis using visit_hop_step [OF inv t h(1) _ R] m by auto
    qed
  qed
  then show ?thesis using adj by (simp add: visit_node_def pp adjacency_of_def)
qed

lemma rescan_node_step:
  assumes adj: "adjacency_of adj H" and inv: "search_inv H R d st0" and lay: "layer_inv st0 d P st"
    and m: "level H R d m" and P: "{h \<in> H. h_from_node h = m} \<subseteq> P"
  shows "rescan_node adj st m = Inr st"
proof -
  have D0: "map_of (s_distance st0) m = Some d" using inv m by (simp add: search_inv_def)
  then have pp: "map_of (s_best_path st) m = map_of (s_best_path st0) m" using lay by (simp add: layer_inv_def)
  have "\<exists>u. fold_in (rescan_hop m (map_of (s_best_path st0) m)) st (hops_from adj m) = Inr u \<and> u = st"
  proof (rule fold_in_invariant)
    show "\<exists>u. rescan_hop m (map_of (s_best_path st0) m) t h = Inr u \<and> u = st"
      if split: "\<exists>zs. hops_from adj m = ys @ h # zs" and t: "t = st" for ys h t
    proof -
      have "h \<in> set (hops_from adj m)" using split by auto
      then have h: "valid_hop h" "h_from_node h = m" "h \<in> P" using adj P by (auto simp: adjacency_of_def)
      then show ?thesis using rescan_hop_step [OF inv lay h(1,3)] D0 t by auto
    qed
  qed simp
  then show ?thesis by (auto simp: rescan_node_def pp)
qed

lemma level_pred:
  assumes "level H R (Suc d) (h_to_node h)" "h \<in> H" "h_from_node h \<in> reach H R d"
  shows "level H R d (h_from_node h)"
proof -
  have "h_from_node h \<notin> reach H R j" if "j < d" for j
  proof
    assume "h_from_node h \<in> reach H R j"
    then have "h_to_node h \<in> reach H R (Suc j)" using assms(2) by auto
    moreover have "h_to_node h \<notin> reach H R (Suc j)" using assms(1) that unfolding level_def by blast
    ultimately show False by blast
  qed
  then show ?thesis using assms(3) by (simp add: level_def)
qed

lemma cand_paths_to:
  assumes "search_inv H R d st0" "h \<in> H" "level H R d (h_from_node h)"
  shows "paths_to H R (Suc d) (h_to_node h) (cand st0 h)"
proof (cases d)
  case 0
  then have "map_of (s_best_path st0) (h_from_node h) = None" using assms(1) by (simp add: search_inv_def)
  then show ?thesis using paths_to.first [of h H R] assms 0 by (simp add: cand_def extended_def level_0)
next
  case (Suc e)
  then have "map_of (s_best_path st0) (h_from_node h) \<noteq> None" using assms unfolding search_inv_def by auto
  then obtain p where p: "map_of (s_best_path st0) (h_from_node h) = Some p" by blast
  then obtain j where "level H R j (h_from_node h)" "paths_to H R j (h_from_node h) p"
    using assms(1) unfolding search_inv_def best_at_def by blast
  then have "paths_to H R d (h_from_node h) p" using level_unique assms(3) by blast
  then show ?thesis using paths_to.snoc assms(2) p by (auto simp: cand_def extended_def)
qed

text \<open>The candidate of a hop is at least as good as any path that ends with the hop.\<close>

lemma cand_least:
  assumes inv: "search_inv H R d st0" and n: "level H R (Suc d) n" and q: "paths_to H R (Suc d) n q"
  shows "\<exists>h \<in> H. h_to_node h = n \<and> level H R d (h_from_node h) \<and> path_sort_key (cand st0 h) \<le> path_sort_key q"
  using q
proof (cases rule: paths_to.cases)
  case (first h)
  then have "level H R d (h_from_node h)" by (simp add: level_0)
  moreover have "map_of (s_best_path st0) (h_from_node h) = None"
    using inv first by (simp add: search_inv_def)
  ultimately show ?thesis using first by (auto simp: cand_def extended_def)
next
  case (snoc m q' h)
  have lev: "level H R d (h_from_node h)"
    using level_pred [of H R d h] n snoc paths_to_reach by auto
  have d: "1 \<le> d" using paths_to_shape [OF snoc(3)] by simp
  then have "map_of (s_best_path st0) (h_from_node h) \<noteq> None" using inv lev unfolding search_inv_def by auto
  then obtain p where p: "map_of (s_best_path st0) (h_from_node h) = Some p" by blast
  then obtain j where "level H R j (h_from_node h)" "best_at H R j (h_from_node h) p"
    using inv unfolding search_inv_def by blast
  then have best: "best_at H R d (h_from_node h) p" using level_unique lev by blast
  have "paths_to H R d (h_from_node h) q'" using snoc by simp
  then have "path_sort_key p \<le> path_sort_key q'" "length (ip_steps p) = length (ip_steps q')" "ip_steps p \<noteq> []"
    using best paths_to_shape d unfolding best_at_def by (blast, metis, fastforce)
  then have "path_sort_key (snoc_path p (step_of h)) \<le> path_sort_key (snoc_path q' (step_of h))"
    by (intro path_sort_key_mono)
  then show ?thesis using snoc lev p by (auto simp: cand_def extended_def)
qed

lemma layer_done:
  assumes inv: "search_inv H R d st0" and P: "P = {h \<in> H. level H R d (h_from_node h)}"
    and lay: "layer_inv st0 d P st"
  shows "search_inv H R (Suc d) (st\<lparr>s_frontier := sort_key canonical_bytes (keys (s_next st))\<rparr>)"
proof -
  have D0: "map_of (s_distance st0) n = Some j \<longleftrightarrow> level H R j n \<and> j \<le> d" for n j
    using inv by (simp add: search_inv_def)
  have none: "map_of (s_distance st0) n = None \<longleftrightarrow> (\<forall>j \<le> d. \<not> level H R j n)" for n
    using D0 [of n] by (metis option.exhaust option.distinct(1))
  have new: "map_of (s_distance st0) n = None \<and> n \<in> h_to_node ` P \<longleftrightarrow> level H R (Suc d) n" for n
    unfolding none level_Suc P by auto
  have dist: "map_of (s_distance st) n = Some j \<longleftrightarrow> level H R j n \<and> j \<le> Suc d" for n j
  proof (cases "map_of (s_distance st0) n")
    case None
    then have "map_of (s_distance st) n = (if level H R (Suc d) n then Some (Suc d) else None)"
      using lay new [of n] by (simp add: layer_inv_def)
    then show ?thesis using None unfolding none by (auto simp: le_Suc_eq dest: level_unique)
  next
    case (Some i)
    then have "map_of (s_distance st) n = Some i" using lay by (simp add: layer_inv_def)
    then show ?thesis using Some D0 level_unique by (metis le_SucI option.inject)
  qed
  have old_best: "map_of (s_best_path st) n = map_of (s_best_path st0) n" if "\<not> level H R (Suc d) n" for n
    using lay new [of n] that unfolding layer_inv_def by blast
  have new_best: "\<exists>p. map_of (s_best_path st) n = Some p \<and> best_at H R (Suc d) n p" if lev: "level H R (Suc d) n" for n
  proof -
    obtain p where p: "p \<in> cands st0 P n" "map_of (s_best_path st) n = Some p"
      "\<forall>q \<in> cands st0 P n. path_sort_key p \<le> path_sort_key q"
      using lay new [of n] lev unfolding layer_inv_def by blast
    then have "paths_to H R (Suc d) n p" using cand_paths_to [OF inv] by (auto simp: cands_def P)
    moreover have "path_sort_key p \<le> path_sort_key q" if path: "paths_to H R (Suc d) n q" for q
    proof -
      obtain h where "h \<in> P" "h_to_node h = n" "path_sort_key (cand st0 h) \<le> path_sort_key q"
        using cand_least [OF inv lev path] P by blast
      then show ?thesis using p(3) order_trans unfolding cands_def by blast
    qed
    ultimately show ?thesis using p by (auto simp: best_at_def)
  qed
  have none_best: "map_of (s_best_path st) n = None \<longleftrightarrow> \<not> (\<exists>j. 1 \<le> j \<and> j \<le> Suc d \<and> level H R j n)" for n
  proof (cases "level H R (Suc d) n")
    case True
    then show ?thesis using new_best by fastforce
  next
    case False
    then show ?thesis using old_best [OF False] inv unfolding search_inv_def by (metis le_Suc_eq)
  qed
  have some_best: "\<exists>j. 1 \<le> j \<and> j \<le> Suc d \<and> level H R j n \<and> best_at H R j n p"
    if some: "map_of (s_best_path st) n = Some p" for n p
  proof (cases "level H R (Suc d) n")
    case True
    then show ?thesis using new_best [OF True] some by (intro exI [of _ "Suc d"]) auto
  next
    case False
    then show ?thesis using old_best [OF False] inv some unfolding search_inv_def by (metis le_SucI)
  qed
  show ?thesis
    using dist none_best some_best new lay
    unfolding search_inv_def layer_inv_def by simp
qed

lemma search_layer_step:
  assumes adj: "adjacency_of adj H" and inv: "search_inv H R d st" and R: "set roots = R"
  shows "\<exists>u. search_layer adj roots st = Inr u \<and> search_inv H R (Suc d) u"
proof -
  let ?F = "sort_key canonical_bytes (s_frontier st)"
  let ?st0 = "st\<lparr>s_next := []\<rparr>"
  have inv0: "search_inv H R d ?st0" using inv by (simp add: search_inv_def)
  have F: "set ?F = {n. level H R d n}" using inv by (simp add: search_inv_def)
  have "\<exists>u. fold_in (visit_node adj roots) ?st0 ?F = Inr u \<and> layer_inv ?st0 d {h \<in> H. h_from_node h \<in> set ?F} u"
  proof (rule fold_in_invariant)
    show "layer_inv ?st0 d {h \<in> H. h_from_node h \<in> set []} ?st0"
      using inv by (simp add: layer_inv_def search_inv_def split: option.split)
    show "\<exists>u. visit_node adj roots t m = Inr u \<and> layer_inv ?st0 d {h \<in> H. h_from_node h \<in> set (ys @ [m])} u"
      if split: "\<exists>zs. ?F = ys @ m # zs" and t: "layer_inv ?st0 d {h \<in> H. h_from_node h \<in> set ys} t" for ys m t
    proof -
      have "m \<in> set ?F" using split by (metis in_set_conv_decomp)
      then have "level H R d m" using F by blast
      then have "\<exists>u. visit_node adj roots t m = Inr u \<and>
          layer_inv ?st0 d ({h \<in> H. h_from_node h \<in> set ys} \<union> {h \<in> H. h_from_node h = m}) u"
        by (rule visit_node_step [OF adj inv0 t _ R])
      moreover have "{h \<in> H. h_from_node h \<in> set ys} \<union> {h \<in> H. h_from_node h = m} = {h \<in> H. h_from_node h \<in> set (ys @ [m])}"
        by auto
      ultimately show ?thesis by (simp only:)
    qed
  qed
  then obtain st1 where st1: "fold_in (visit_node adj roots) ?st0 ?F = Inr st1"
    "layer_inv ?st0 d {h \<in> H. level H R d (h_from_node h)} st1" unfolding F by auto
  have "\<exists>u. fold_in (rescan_node adj) st1 ?F = Inr u \<and> u = st1"
  proof (rule fold_in_invariant)
    show "\<exists>u. rescan_node adj t m = Inr u \<and> u = st1" if split: "\<exists>zs. ?F = ys @ m # zs" and t: "t = st1" for ys m t
    proof -
      have "m \<in> set ?F" using split by (metis in_set_conv_decomp)
      then have "level H R d m" using F by blast
      then show ?thesis using rescan_node_step [OF adj inv0 st1(2)] t by auto
    qed
  qed simp
  then have "search_layer adj roots st =
      Inr (st1\<lparr>s_frontier := sort_key canonical_bytes (keys (s_next st1))\<rparr>)"
    by (simp add: search_layer_def st1(1))
  then show ?thesis using layer_done [OF inv0 refl st1(2)] by blast
qed

section \<open>The whole search\<close>

definition search_ok :: "EffectiveHop set \<Rightarrow> GraphNodeIdentity set \<Rightarrow> search result \<Rightarrow> bool" where
  "search_ok H R r \<longleftrightarrow> (\<exists>st d. r = Inr st \<and> search_inv H R d st)"

definition search_measure :: "GraphNodeIdentity set \<Rightarrow> search result \<Rightarrow> nat" where
  "search_measure V r = (case r of Inl e \<Rightarrow> 0 | Inr st \<Rightarrow>
     2 * card (V - dom (map_of (s_distance st))) + (if s_frontier st = [] then 0 else 1))"

lemma search_progress:
  assumes "search_inv H R d st" "search_inv H R (Suc d) u" "s_frontier st \<noteq> []" "finite V" "h_to_node ` H \<subseteq> V"
  shows "search_measure V (Inr u) < search_measure V (Inr st)"
proof -
  have dom: "dom (map_of (s_distance st)) = {n. \<exists>j \<le> d. level H R j n}"
    "dom (map_of (s_distance u)) = {n. \<exists>j \<le> Suc d. level H R j n}"
    using assms(1,2) by (auto simp: search_inv_def)
  have sub: "V - dom (map_of (s_distance u)) \<subseteq> V - dom (map_of (s_distance st))" unfolding dom by fastforce
  show ?thesis
  proof (cases "s_frontier u = []")
    case True
    then show ?thesis using assms(3,4) card_mono [OF _ sub] by (simp add: search_measure_def)
  next
    case False
    then obtain n where n: "level H R (Suc d) n"
      using assms(2) unfolding search_inv_def by (metis hd_in_set mem_Collect_eq)
    have "n \<in> V" using n assms(5) by (auto simp: level_Suc)
    moreover have "n \<notin> dom (map_of (s_distance st))" unfolding dom using n level_Suc by blast
    moreover have "n \<in> dom (map_of (s_distance u))" unfolding dom using n by blast
    ultimately have "n \<in> V - dom (map_of (s_distance st))" "n \<notin> V - dom (map_of (s_distance u))" by blast+
    then have "V - dom (map_of (s_distance u)) \<subset> V - dom (map_of (s_distance st))" using sub by blast
    then have "card (V - dom (map_of (s_distance u))) < card (V - dom (map_of (s_distance st)))"
      using assms(4) by (intro psubset_card_mono) auto
    then show ?thesis using assms(3) by (simp add: search_measure_def)
  qed
qed

lemma initial_search_inv:
  "set roots = R \<Longrightarrow> distinct roots \<Longrightarrow> search_inv H R 0 (initial_search roots)"
  by (auto simp: search_inv_def initial_search_def map_of_dict_of_const level_0
      simp del: One_nat_def intro: gr0I)

lemma level_bound: "(\<And>n. \<not> level H R d n) \<Longrightarrow> level H R j n \<Longrightarrow> j < d"
proof (induction j arbitrary: n)
  case 0
  then show ?case by (cases d) auto
next
  case (Suc j)
  then obtain m where "level H R j m" unfolding level_Suc by blast
  then have "j < d" using Suc by blast
  then show ?case using Suc.prems by (metis Suc_lessI)
qed

definition search_final :: "EffectiveHop set \<Rightarrow> GraphNodeIdentity set \<Rightarrow> search \<Rightarrow> bool" where
  "search_final H R st \<longleftrightarrow> distinct (keys (s_distance st)) \<and>
     (\<forall>n j. map_of (s_distance st) n = Some j \<longleftrightarrow> level H R j n) \<and>
     (\<forall>n j. 1 \<le> j \<and> level H R j n \<longrightarrow> (\<exists>p. map_of (s_best_path st) n = Some p \<and> best_at H R j n p))"

lemma run_search_final:
  assumes adj: "adjacency_of adj H" and R: "set roots = R" "distinct roots" and fin: "finite H"
  shows "\<exists>st. run_search adj roots = Some (Inr st) \<and> search_final H R st"
proof -
  let ?b = "\<lambda>r. case r of Inl e \<Rightarrow> False | Inr st \<Rightarrow> s_frontier st \<noteq> []"
  let ?c = "\<lambda>r. try_in r (search_layer adj roots)"
  let ?V = "h_to_node ` H"
  have "search_ok H R (?c r) \<and> search_measure ?V (?c r) < search_measure ?V r"
    if "search_ok H R r" "?b r" for r
  proof -
    obtain st d where st: "r = Inr st" "search_inv H R d st" using \<open>search_ok H R r\<close> by (auto simp: search_ok_def)
    obtain u where u: "search_layer adj roots st = Inr u" "search_inv H R (Suc d) u"
      using search_layer_step [OF adj st(2) R(1)] by blast
    then show ?thesis
      using search_progress [OF st(2) u(2) _ _ subset_refl] \<open>?b r\<close> fin st(1) by (auto simp: search_ok_def)
  qed
  note step = this
  have init: "search_ok H R (Inr (initial_search roots))"
    using initial_search_inv [OF R] by (auto simp: search_ok_def)
  have "\<exists>r. while_option ?b ?c (Inr (initial_search roots)) = Some r"
    by (rule measure_while_option_Some [where P = "search_ok H R" and f = "search_measure ?V", OF step init])
  then obtain r where r: "run_search adj roots = Some r" unfolding run_search_def by blast
  have "search_ok H R r"
    by (rule while_option_rule [where P = "search_ok H R", OF _ r [unfolded run_search_def] init])
      (use step in blast)
  then obtain st d where st: "r = Inr st" "search_inv H R d st" unfolding search_ok_def by blast
  have "\<not> ?b r" using r unfolding run_search_def by (rule while_option_stop)
  then have "\<not> level H R d n" for n using st by (auto simp: search_inv_def)
  then have bound: "j < d" if "level H R j n" for j n using level_bound that by blast
  have dist: "map_of (s_distance st) n = Some j \<longleftrightarrow> level H R j n" for n j
    using st(2) bound [of j n] by (auto simp: search_inv_def)
  have "\<exists>p. map_of (s_best_path st) n = Some p \<and> best_at H R j n p" if lev: "1 \<le> j" "level H R j n" for n j
  proof -
    have "map_of (s_best_path st) n \<noteq> None"
      using st(2) lev bound [OF lev(2)] unfolding search_inv_def by (meson less_imp_le)
    then obtain p where p: "map_of (s_best_path st) n = Some p" by blast
    then obtain i where "level H R i n" "best_at H R i n p" using st(2) unfolding search_inv_def by blast
    then show ?thesis using p lev(2) level_unique by blast
  qed
  then have "search_final H R st" using st(2) dist by (simp add: search_final_def search_inv_def)
  then show ?thesis using r st(1) by blast
qed

section \<open>The graph's hops\<close>

definition hops_of :: "GovernanceGraph \<Rightarrow> EffectiveHop set" where
  "hops_of g = set (List.map_filter effective_hop (gg_edges g))"

lemma effective_hop_edge: "effective_hop e = Some h \<Longrightarrow> h_edge h = e"
  by (auto simp: effective_hop_def split: if_splits)

lemma hops_of_iff: "h \<in> hops_of g \<longleftrightarrow> h_edge h \<in> set (gg_edges g) \<and> effective_hop (h_edge h) = Some h"
proof -
  have "h \<in> hops_of g \<longleftrightarrow> (\<exists>e \<in> set (gg_edges g). effective_hop e = Some h)"
    by (auto simp: hops_of_def map_filter_def image_iff)
  then show ?thesis using effective_hop_edge by blast
qed

lemma get_list_map_snd:
  "get_list (map (\<lambda>(k, v). (k, sort_key f v)) d) m = sort_key f (get_list d m)"
  by (induction d) (auto simp: get_list_def)

lemma set_hops_from:
  "set (hops_from (build_effective_adjacency g) m) = {h \<in> hops_of g. h_from_node h = m}"
proof -
  have "hops_from (build_effective_adjacency g) m = sort_key hop_neighbor_sort_key
      (filter (\<lambda>h. h_from_node h = m) (List.map_filter effective_hop (gg_edges g)))"
    unfolding hops_from_def build_effective_adjacency_def get_list_map_snd get_group_by ..
  then show ?thesis unfolding hops_of_def by (simp only: set_sort set_filter)
qed

lemma build_adjacency: "adjacency_of (build_effective_adjacency g) (hops_of g)"
  unfolding adjacency_of_def set_hops_from using hops_of_iff valid_hop_def by blast

lemma finite_hops_of: "finite (hops_of g)"
  by (simp add: hops_of_def)

lemma wf_graph_edge: "wf_graph g \<Longrightarrow> e \<in> set (gg_edges g) \<Longrightarrow> wf_edge e"
  by (simp add: wf_graph_def list_all_iff)

lemma wf_graph_distinct_edges: "wf_graph g \<Longrightarrow> distinct (map logical_identity (gg_edges g))"
  using normal_by_distinct unfolding wf_graph_def normal_edges_def by blast

section \<open>Assembling the result\<close>

lemma canonical_attributes_wf [simp]:
  "wf_attributes a \<Longrightarrow> canonicalize_attributes_object (canonical_attributes a) = Inr a"
  by (auto simp: wf_attributes_def canonical_attributes_def)

lemma merge_affected_group_iff:
  assumes "(k, g) \<in> set (group_by logical_identity es)" "list_all wf_edge es"
  shows "merge_affected_group (k, g) = Inr y \<longleftrightarrow>
    True \<and> (\<forall>z \<in> set g. z\<lparr>ge_provenance := []\<rparr> = (hd g)\<lparr>ge_provenance := []\<rparr>) \<and>
    y = merge_group canonical_sort_key ge_provenance (\<lambda>ps e. e\<lparr>ge_provenance := ps\<rparr>) g"
proof -
  have mem: "\<And>z. z \<in> set g \<Longrightarrow> wf_edge z \<and> logical_identity z = k"
    using assms(2) group_by_mem [OF assms(1)] by (auto simp: list_all_iff)
  obtain base others where g: "g = base # others" using group_by_nonempty [OF assms(1)] by (cases g) auto
  have wf: "wf_edge base" "logical_identity base = k" using mem g by auto
  have "mk_graph_edge (ge_source base) (ge_target base) (ge_kind base) (canonical_attributes (ge_attributes base)) ps =
      Inr (base\<lparr>ge_provenance := canon_set canonical_sort_key ps\<rparr>)" for ps
    using wf(1) by (simp add: mk_graph_edge_def wf_edge_def) (simp add: merge_provenance_def)
  moreover have "\<And>z. z \<in> set others \<Longrightarrow> tagged_fingerprint (ge_attributes z) = tagged_fingerprint (ge_attributes base)
      \<longleftrightarrow> z\<lparr>ge_provenance := []\<rparr> = base\<lparr>ge_provenance := []\<rparr>"
    using mem g wf fingerprint_wf_attributes by (auto simp: wf_edge_def)
  then have "list_ex (\<lambda>z. tagged_fingerprint (ge_attributes z) \<noteq> tagged_fingerprint (ge_attributes base)) others \<longleftrightarrow>
      \<not> (\<forall>z \<in> set others. z\<lparr>ge_provenance := []\<rparr> = base\<lparr>ge_provenance := []\<rparr>)"
    by (auto simp: list_ex_iff)
  ultimately show ?thesis by (auto simp: merge_affected_group_def g merge_group_def)
qed

lemma normalize_affected_edges_iff:
  assumes "list_all wf_edge es"
  shows "normalize_affected_edges es = Inr ys \<longleftrightarrow> compatible_edges es \<and> ys = merged_edges es"
  using traverse_groups [OF merge_affected_group_iff [OF _ assms]]
  by (simp add: normalize_affected_edges_def split_result compatible_edges_by merged_edges_def merged_by_def) auto

lemma distinct_compatible_edges: "distinct (map logical_identity es) \<Longrightarrow> compatible_edges es"
  unfolding compatible_edges_def by (auto simp: distinct_map inj_on_def)


definition affected :: "GovernanceGraph \<Rightarrow> GraphNodeIdentity set \<Rightarrow> GraphEdge \<Rightarrow> bool" where
  "affected g core e \<longleftrightarrow> e \<in> set (gg_edges g) \<and>
     (\<exists>h. effective_hop e = Some h \<and> h_from_node h \<in> core \<and> h_to_node h \<in> core)"

lemma collected_edges:
  assumes "wf_graph g"
  shows "set (collect_affected_edges (build_effective_adjacency g) core) = {e. affected g (set core) e}"
    and "distinct (map logical_identity (collect_affected_edges (build_effective_adjacency g) core))"
    and "sorted (map logical_sort_key (collect_affected_edges (build_effective_adjacency g) core))"
proof -
  let ?adj = "build_effective_adjacency g"
  let ?es = "map h_edge (filter (\<lambda>hop. h_to_node hop \<in> set core) (concat (map (hops_from ?adj) core)))"
  have collect: "collect_affected_edges ?adj core =
      sort_key logical_sort_key (vals (dict_of (map (\<lambda>e. (logical_identity e, e)) ?es)))"
    by (simp add: collect_affected_edges_def comp_def)
  have "set ?es = h_edge ` {h \<in> hops_of g. h_from_node h \<in> set core \<and> h_to_node h \<in> set core}"
    unfolding set_map set_filter set_concat image_image set_hops_from by blast
  also have "\<dots> = {e. affected g (set core) e}"
    unfolding affected_def using effective_hop_edge by (auto simp: hops_of_iff image_iff)
  finally have es: "set ?es = {e. affected g (set core) e}" .
  have "inj_on logical_identity (set (gg_edges g))"
    using wf_graph_distinct_edges [OF assms] by (simp add: distinct_map)
  then have "inj_on logical_identity (set ?es)" unfolding es by (rule inj_on_subset) (auto simp: affected_def)
  then have "set (vals (dict_of (map (\<lambda>e. (logical_identity e, e)) ?es))) = set ?es"
    by (rule set_vals_dict_of_keyed)
  then show "set (collect_affected_edges ?adj core) = {e. affected g (set core) e}"
    unfolding collect es by simp
  show "distinct (map logical_identity (collect_affected_edges ?adj core))"
    unfolding collect distinct_map_sort_key by (rule distinct_vals_dict_of_keyed)
  show "sorted (map logical_sort_key (collect_affected_edges ?adj core))" unfolding collect by simp
qed

lemma normal_collected:
  assumes "wf_graph g"
  shows "normal_edges (collect_affected_edges (build_effective_adjacency g) core)"
    and "list_all wf_edge (collect_affected_edges (build_effective_adjacency g) core)"
proof -
  let ?es = "collect_affected_edges (build_effective_adjacency g) core"
  have sub: "e \<in> set (gg_edges g)" if "e \<in> set ?es" for e
    using that collected_edges(1) [OF assms] by (auto simp: affected_def)
  then show "list_all wf_edge ?es" using wf_graph_edge [OF assms] by (simp add: list_all_iff)
  have "inj_on logical_sort_key (set ?es)"
    using collected_edges(2) [OF assms] by (auto simp: distinct_map inj_on_def logical_sort_key)
  then have "distinct (map logical_sort_key ?es)"
    using collected_edges(2) [OF assms, of core] by (simp add: distinct_map)
  then have "sorted_wrt (<) (map logical_sort_key ?es)"
    using collected_edges(3) [OF assms] by (simp add: strict_sorted_iff)
  moreover have "sorted_wrt (<) (map canonical_sort_key (ge_provenance e))" if "e \<in> set ?es" for e
    using sub [OF that] assms by (auto simp: wf_graph_def normal_edges_def normal_by_def list_all_iff)
  ultimately show "normal_edges ?es"
    using collected_edges(2) [OF assms] by (simp add: normal_edges_def normal_by_def list_all_iff)
qed

lemma normalize_collected:
  assumes "wf_graph g"
  shows "normalize_affected_edges (collect_affected_edges (build_effective_adjacency g) core) =
    Inr (collect_affected_edges (build_effective_adjacency g) core)"
  using normal_collected [OF assms, of core] collected_edges(2) [OF assms, of core]
  by (simp add: normalize_affected_edges_iff distinct_compatible_edges merged_edges_normal)

lemma normalize_paths_distinct:
  assumes "distinct (map ip_target ps)"
  shows "normalize_paths ps = Inr (sort_key (\<lambda>path. canonical_bytes (ip_target path)) ps)"
proof -
  let ?f = "\<lambda>d path. if ip_target path \<in> set (keys d) then Inl (ValueError ''duplicate impact path target'')
    else Inr (AList.update (ip_target path) path d)"
  have fresh: "k \<notin> set (keys d) \<Longrightarrow> AList.update k v d = d @ [(k, v)]" for k v and d :: "(GraphNodeIdentity, ImpactPath) dict"
    by (induction d) auto
  have "fold_in ?f d ps = Inr (d @ map (\<lambda>p. (ip_target p, p)) ps)" if "distinct (keys d @ map ip_target ps)" for d
    using that
  proof (induction ps arbitrary: d)
    case (Cons p ps)
    then have "ip_target p \<notin> set (keys d)" by auto
    moreover have "fold_in ?f (d @ [(ip_target p, p)]) ps = Inr ((d @ [(ip_target p, p)]) @ map (\<lambda>p. (ip_target p, p)) ps)"
      using Cons.prems by (intro Cons.IH) auto
    ultimately show ?case by (simp add: fresh)
  qed simp
  from this [of "[]"] show ?thesis using assms by (simp add: normalize_paths_def comp_def)
qed

definition impact_core :: "GovernanceImpactResult \<Rightarrow> GraphNodeIdentity set" where
  "impact_core r = set (ir_changed_nodes r) \<union> set (ir_direct_nodes r) \<union> set (ir_transitive_nodes r)"

definition impact_spec :: "GovernanceGraph \<Rightarrow> GraphNodeIdentity set \<Rightarrow> GovernanceImpactResult \<Rightarrow> bool" where
  "impact_spec g R r \<longleftrightarrow> (let H = hops_of g in
     set (ir_changed_nodes r) = R \<and>
     set (ir_direct_nodes r) = {n. level H R 1 n} \<and>
     set (ir_transitive_nodes r) = {n. \<exists>k \<ge> 2. level H R k n})"

definition paths_spec :: "GovernanceGraph \<Rightarrow> GraphNodeIdentity set \<Rightarrow> GovernanceImpactResult \<Rightarrow> bool" where
  "paths_spec g R r \<longleftrightarrow> (let H = hops_of g in
     distinct (map ip_target (ir_paths r)) \<and>
     (\<forall>n k. 1 \<le> k \<and> level H R k n \<longrightarrow> (\<exists>p \<in> set (ir_paths r). ip_target p = n)) \<and>
     (\<forall>p \<in> set (ir_paths r). path_valid p \<and>
        level H R (path_distance p) (ip_target p) \<and> best_at H R (path_distance p) (ip_target p) p))"

definition associations_spec :: "GovernanceGraph \<Rightarrow> GovernanceImpactResult \<Rightarrow> bool" where
  "associations_spec g r \<longleftrightarrow> (let core = impact_core r; present = gn_identity ` set (gg_nodes g) in
     set (ir_affected_edges r) = {e. affected g core e} \<and>
     set (ir_governance_assets r) = {n. gi_kind n \<noteq> NODE_KIND_CONTRACT \<and>
        (n \<in> core \<or> n \<in> present \<and> (\<exists>m \<in> core. gi_kind m \<noteq> NODE_KIND_CONTRACT \<and> n \<in> set (ancestors m)))} \<and>
     set (ir_associated_contracts r) = {n. gi_kind n = NODE_KIND_CONTRACT \<and>
        (n \<in> core \<or> (\<exists>e \<in> set (gg_edges g). ge_kind e = EDGE_KIND_GOVERNS \<and> ge_source e = n \<and>
           (\<exists>m \<in> core. ge_target e = m \<or> ge_target e \<in> set (ancestors m))))} \<and>
     set (ir_policy_relevant_nodes r) = {n \<in> set (ir_governance_assets r). gi_kind n \<in> set POLICY_RELEVANT_KINDS})"

lemma set_assets:
  "set (associate_governance_assets g core) = {n. gi_kind n \<noteq> NODE_KIND_CONTRACT \<and>
     (n \<in> set core \<or> n \<in> gn_identity ` set (gg_nodes g) \<and>
       (\<exists>m \<in> set core. gi_kind m \<noteq> NODE_KIND_CONTRACT \<and> n \<in> set (ancestors m)))}"
  unfolding associate_governance_assets_def set_canon_set by (auto split: if_splits)

lemma set_contracts:
  assumes "wf_graph g"
  shows "set (associate_contracts g core) = {n. gi_kind n = NODE_KIND_CONTRACT \<and>
     (n \<in> set core \<or> (\<exists>e \<in> set (gg_edges g). ge_kind e = EDGE_KIND_GOVERNS \<and> ge_source e = n \<and>
        (\<exists>m \<in> set core. ge_target e = m \<or> ge_target e \<in> set (ancestors m))))}"
proof -
  have present: "ge_source e \<in> gn_identity ` set (gg_nodes g)" if "e \<in> set (gg_edges g)" for e
    using assms that by (simp add: wf_graph_def closed_parts_def Let_def)
  have gov: "set (get_list (governs_by_target g) t) = {ge_source e |e. e \<in> set (gg_edges g) \<and>
      ge_kind e = EDGE_KIND_GOVERNS \<and> gi_kind (ge_source e) = NODE_KIND_CONTRACT \<and> ge_target e = t}" for t
    unfolding governs_by_target_def get_extend_by using present by auto
  show ?thesis
    unfolding associate_contracts_def set_canon_set set_append set_concat set_filter set_map image_image gov
    by (auto; blast)
qed

lemma set_by_distance:
  "distinct (keys d) \<Longrightarrow> set (map fst (filter (\<lambda>(n, k). P k) d)) = {n. \<exists>k. map_of d n = Some k \<and> P k}"
  by (force simp: map_of_Some_iff_distinct image_iff)

lemma canon_set_sorted_distinct:
  "distinct xs \<Longrightarrow> canon_set f (sort_key f xs) = sort_key f xs"
  by (simp add: canon_set_def unique_distinct sort_key_id)

lemma traverse_lookup:
  assumes "\<And>n. n \<in> set ns \<Longrightarrow> \<exists>p. map_of d n = Some p"
  shows "traverse (lookup d) ns = Inr (map (\<lambda>n. the (map_of d n)) ns)"
  using assms by (intro traverse_Inr_map) (auto simp: lookup_def split: option.splits)

lemma impact_of_search_ok:
  assumes g: "wf_graph g" and fin: "search_final (hops_of g) (set roots) st"
  shows "\<exists>r. impact_of_search g (build_effective_adjacency g) roots st = Inr r \<and>
    impact_spec g (set roots) r \<and> paths_spec g (set roots) r \<and> associations_spec g r"
proof -
  let ?H = "hops_of g" and ?R = "set roots" and ?adj = "build_effective_adjacency g"
  let ?direct = "sort_key canonical_bytes (map fst (filter (\<lambda>(n, d). d = 1) (s_distance st)))"
  let ?trans = "sort_key canonical_bytes (map fst (filter (\<lambda>(n, d). 2 \<le> d) (s_distance st)))"
  let ?core = "unique (roots @ ?direct @ ?trans)"
  have dk: "distinct (keys (s_distance st))"
    and dist: "\<And>n j. map_of (s_distance st) n = Some j \<longleftrightarrow> level ?H ?R j n"
    and best: "\<And>n j. 1 \<le> j \<Longrightarrow> level ?H ?R j n \<Longrightarrow> \<exists>p. map_of (s_best_path st) n = Some p \<and> best_at ?H ?R j n p"
    using fin by (auto simp: search_final_def)
  have direct: "set ?direct = {n. level ?H ?R 1 n}"
    unfolding set_sort set_by_distance [OF dk] dist by simp
  have trans: "set ?trans = {n. \<exists>k \<ge> 2. level ?H ?R k n}"
    unfolding set_sort set_by_distance [OF dk] dist by blast
  have distinct: "distinct (?direct @ ?trans)"
  proof -
    have d: "distinct (map fst (filter P (s_distance st)))" for P by (rule distinct_map_filter [OF dk])
    have "set ?direct \<inter> set ?trans = {}" unfolding direct trans using level_unique by fastforce
    then show ?thesis using d by simp
  qed
  have some: "\<exists>k p. 1 \<le> k \<and> level ?H ?R k n \<and> map_of (s_best_path st) n = Some p \<and> best_at ?H ?R k n p"
    if "n \<in> set (?direct @ ?trans)" for n
  proof -
    have "level ?H ?R 1 n \<or> (\<exists>k. 2 \<le> k \<and> level ?H ?R k n)"
      using \<open>n \<in> set (?direct @ ?trans)\<close> unfolding set_append direct trans by blast
    then obtain k where "1 \<le> k" "level ?H ?R k n" by (metis le_numeral_extra(4) one_le_numeral order_trans)
    then show ?thesis using best by blast
  qed
  let ?ps = "map (\<lambda>n. the (map_of (s_best_path st) n)) (?direct @ ?trans)"
  have paths: "traverse (lookup (s_best_path st)) (?direct @ ?trans) = Inr ?ps"
    using some by (intro traverse_lookup) blast
  have target: "ip_target (the (map_of (s_best_path st) n)) = n" if "n \<in> set (?direct @ ?trans)" for n
    using some [OF that] paths_to_shape by (fastforce simp: best_at_def)
  have targets: "map ip_target ?ps = ?direct @ ?trans"
    unfolding map_map comp_def using target by (intro map_idI) blast
  let ?key = "\<lambda>path. canonical_bytes (ip_target path)"
  have nps: "normalize_paths (sort_key ?key ?ps) = Inr (sort_key ?key ?ps)"
    using normalize_paths_distinct [of "sort_key ?key ?ps"] distinct targets
    by (simp only: distinct_map_sort_key sort_key_id sorted_sort_key)
  let ?r = "\<lparr>ir_changed_nodes = canon_set canonical_bytes roots, ir_direct_nodes = canon_set canonical_bytes ?direct,
    ir_transitive_nodes = canon_set canonical_bytes ?trans,
    ir_affected_edges = collect_affected_edges ?adj ?core, ir_paths = sort_key ?key ?ps,
    ir_associated_contracts = canon_set canonical_bytes (associate_contracts g ?core),
    ir_governance_assets = canon_set canonical_bytes (associate_governance_assets g ?core),
    ir_policy_relevant_nodes = canon_set canonical_bytes (policy_relevant_nodes (associate_governance_assets g ?core))\<rparr>"
  have r: "impact_of_search g ?adj roots st = Inr ?r"
    unfolding impact_of_search_def Let_def paths try_in_simps
    by (simp only: mk_impact_result_def GovernanceImpactResult.simps normalize_collected [OF g] nps try_in_simps
        normalize_identity_tuple_def)
  have core: "impact_core ?r = set ?core" unfolding impact_core_def GovernanceImpactResult.simps by auto
  have spec: "impact_spec g ?R ?r"
    unfolding impact_spec_def Let_def GovernanceImpactResult.simps set_canon_set direct trans by blast
  have pspec: "paths_spec g ?R ?r"
    unfolding paths_spec_def Let_def GovernanceImpactResult.simps
  proof (intro conjI allI impI ballI)
    show "distinct (map ip_target (sort_key ?key ?ps))" unfolding distinct_map_sort_key targets by (rule distinct)
    show "\<exists>p \<in> set (sort_key ?key ?ps). ip_target p = n" if lev: "1 \<le> k \<and> level ?H ?R k n" for n k
    proof -
      have "n \<in> set (?direct @ ?trans)"
        unfolding set_append direct trans using lev by (cases "k = 1") auto
      then have "n \<in> set (map ip_target ?ps)" unfolding targets .
      then show ?thesis unfolding set_sort set_map by blast
    qed
    fix p assume "p \<in> set (sort_key ?key ?ps)"
    then obtain n where n: "n \<in> set (?direct @ ?trans)" "p = the (map_of (s_best_path st) n)"
      unfolding set_sort set_map by blast
    then obtain k where k: "level ?H ?R k n" "best_at ?H ?R k n p" using some [OF n(1)] by auto
    then have "paths_to ?H ?R k n p" by (simp add: best_at_def)
    then have "path_valid p" "path_distance p = k" "ip_target p = n"
      using paths_to_valid paths_to_shape by (auto simp: path_distance_def)
    then show "path_valid p" "level ?H ?R (path_distance p) (ip_target p)"
      "best_at ?H ?R (path_distance p) (ip_target p) p" using k by auto
  qed
  have aspec: "associations_spec g ?r"
    unfolding associations_spec_def Let_def core
    unfolding GovernanceImpactResult.simps set_canon_set collected_edges(1) [OF g] set_assets set_contracts [OF g]
      policy_relevant_nodes_def set_sort set_filter by blast
  show ?thesis using r spec pspec aspec by blast
qed

lemma normalize_changed_roots_iff:
  "normalize_changed_roots g changed = Inr roots \<longleftrightarrow> changed \<noteq> [] \<and>
   set changed \<subseteq> gn_identity ` set (gg_nodes g) \<and> roots = sort_key canonical_bytes (unique changed)"
  by (auto simp: normalize_changed_roots_def split_result)

lemma analyze_ok:
  assumes "wf_graph g" "changed \<noteq> []" "set changed \<subseteq> gn_identity ` set (gg_nodes g)"
  shows "\<exists>r. analyze_downstream_impact g changed = Some (Inr r) \<and> impact_spec g (set changed) r \<and>
    paths_spec g (set changed) r \<and> associations_spec g r"
proof -
  let ?roots = "sort_key canonical_bytes (unique changed)"
  have n: "normalize_changed_roots g changed = Inr ?roots"
    using assms(2,3) by (simp add: normalize_changed_roots_iff)
  obtain st where st: "run_search (build_effective_adjacency g) ?roots = Some (Inr st)"
    "search_final (hops_of g) (set changed) st"
    using run_search_final [OF build_adjacency _ _ finite_hops_of, of ?roots "set changed" g] by auto
  have "search_final (hops_of g) (set ?roots) st" using st(2) by simp
  from impact_of_search_ok [OF assms(1) this] show ?thesis
    using n st(1) by (auto simp: analyze_downstream_impact_def Let_def)
qed

lemma analyze_error:
  "\<not> (changed \<noteq> [] \<and> set changed \<subseteq> gn_identity ` set (gg_nodes g)) \<Longrightarrow>
   \<exists>e. analyze_downstream_impact g changed = Some (Inl e)"
  using normalize_changed_roots_iff [of g changed]
  by (cases "normalize_changed_roots g changed") (auto simp: analyze_downstream_impact_def)

section \<open>Column lineage\<close>

record ColumnLineageAssertion =
  la_output_column :: GraphNodeIdentity
  la_input_column :: GraphNodeIdentity
  la_provenance :: "ProvenanceRecord list"

definition mk_lineage_assertion ::
  "GraphNodeIdentity \<Rightarrow> GraphNodeIdentity \<Rightarrow> ProvenanceRecord list \<Rightarrow> ColumnLineageAssertion result" where
  "mk_lineage_assertion output_column input_column provenance =
     (if gi_kind output_column \<noteq> NODE_KIND_COLUMN
      then Inl (ValueError ''column lineage assertion requires column endpoints'')
      else if gi_kind input_column \<noteq> NODE_KIND_COLUMN
      then Inl (ValueError ''column lineage assertion requires column endpoints'')
      else Inr \<lparr>la_output_column = output_column, la_input_column = input_column,
                la_provenance = merge_provenance provenance\<rparr>)"

definition materialize_column_lineage_edges :: "ColumnLineageAssertion list \<Rightarrow> GraphEdge list result" where
  "materialize_column_lineage_edges assertions =
     try_in (traverse (\<lambda>((output_column, input_column), records).
        mk_graph_edge output_column input_column EDGE_KIND_DEPENDS_ON (RawAttributes (PyDict [])) records)
        (extend_by (\<lambda>a. (la_output_column a, la_input_column a)) la_provenance assertions)) (\<lambda>edges.
       Inr (sort_key logical_sort_key edges))"

definition lineage_edge :: "ColumnLineageAssertion \<Rightarrow> GraphEdge" where
  "lineage_edge a = \<lparr>ge_source = la_output_column a, ge_target = la_input_column a,
     ge_kind = EDGE_KIND_DEPENDS_ON, ge_attributes = CanonicalObject [], ge_provenance = la_provenance a\<rparr>"

lemma unique_map_inj:
  "inj_on f (set xs) \<Longrightarrow> unique (map f xs) = map f (unique xs)"
proof (induction xs rule: rev_induct)
  case (snoc x xs)
  then have "f x \<in> f ` set xs \<longleftrightarrow> x \<in> set xs" by (auto simp: inj_on_def)
  then show ?case using snoc by (auto simp: unique_snoc)
qed simp

lemma materialize_merged:
  "materialize_column_lineage_edges as = Inr (merged_edges (map lineage_edge as))"
proof -
  let ?k = "\<lambda>a. (la_output_column a, la_input_column a)"
  let ?id = "\<lambda>(s, t). (s, EDGE_KIND_DEPENDS_ON, t)"
  let ?wp = "\<lambda>ps e. e\<lparr>ge_provenance := ps\<rparr>"
  have key: "logical_identity (lineage_edge a) = ?id (?k a)" for a
    by (simp add: logical_identity_def lineage_edge_def)
  have ids: "unique (map logical_identity (map lineage_edge as)) = map ?id (unique (map ?k as))"
  proof -
    have eq: "map logical_identity (map lineage_edge as) = map ?id (map ?k as)" by (simp add: key)
    have inj: "inj_on ?id (set (map ?k as))" by (rule inj_onI) (auto split: prod.splits)
    show ?thesis unfolding eq by (rule unique_map_inj [OF inj])
  qed
  have grp: "merge_group canonical_sort_key ge_provenance ?wp
      (filter (\<lambda>e. logical_identity e = ?id k) (map lineage_edge as)) =
      (case k of (s, t) \<Rightarrow> \<lparr>ge_source = s, ge_target = t, ge_kind = EDGE_KIND_DEPENDS_ON,
        ge_attributes = CanonicalObject [],
        ge_provenance = canon_set canonical_sort_key (concat (map la_provenance (filter (\<lambda>a. ?k a = k) as)))\<rparr>)"
    if k: "k \<in> ?k ` set as" for k
  proof -
    have f: "filter (\<lambda>e. logical_identity e = ?id k) (map lineage_edge as) = map lineage_edge (filter (\<lambda>a. ?k a = k) as)"
      by (induction as) (auto simp: key split: prod.splits)
    have ne: "filter (\<lambda>a. ?k a = k) as \<noteq> []" using k by (auto simp: filter_empty_conv)
    have "?k (hd (filter (\<lambda>a. ?k a = k) as)) = k" using hd_in_set [OF ne] unfolding set_filter by blast
    then show ?thesis unfolding f merge_group_def using ne
      by (cases k) (simp add: hd_map lineage_edge_def comp_def)
  qed
  let ?edge = "\<lambda>k. merge_group canonical_sort_key ge_provenance ?wp
      (filter (\<lambda>e. logical_identity e = ?id k) (map lineage_edge as))"
  let ?f = "\<lambda>((s, t), rs). mk_graph_edge s t EDGE_KIND_DEPENDS_ON (RawAttributes (PyDict [])) rs"
  have "?f x = Inr ((\<lambda>(k, rs). ?edge k) x)" if member: "x \<in> set (extend_by ?k la_provenance as)" for x
  proof -
    obtain k where k: "k \<in> ?k ` set as" "x = (k, concat (map la_provenance (filter (\<lambda>a. ?k a = k) as)))"
      using member by (auto simp: extend_by_eq group_by_eq)
    have "stripped EDGE_KIND_DEPENDS_ON" by (simp add: stripped_def kind_defs) code_simp
    then show ?thesis
      unfolding k(2) prod.case grp [OF k(1)]
      by (cases k) (simp add: mk_graph_edge_def merge_provenance_def)
  qed
  then have "traverse ?f (extend_by ?k la_provenance as) = Inr (map (\<lambda>(k, rs). ?edge k) (extend_by ?k la_provenance as))"
    by (rule traverse_Inr_map)
  moreover have "map (\<lambda>(k, rs). ?edge k) (extend_by ?k la_provenance as) =
      map (\<lambda>(k, g). merge_group canonical_sort_key ge_provenance ?wp g) (group_by logical_identity (map lineage_edge as))"
    unfolding extend_by_eq group_by_eq ids by (simp add: comp_def)
  ultimately show ?thesis
    unfolding materialize_column_lineage_edges_def merged_edges_def merged_by_def by (simp only: try_in_simps)
qed

section \<open>An example\<close>

text \<open>A table, a table derived from it, and the edge between them.\<close>

definition example_table :: "string \<Rightarrow> GraphNode" where
  "example_table t = \<lparr>gn_identity = GraphNodeIdentity ''n'' ''table'' t None, gn_name = t,
     gn_description = None, gn_attributes = CanonicalObject [], gn_provenance = []\<rparr>"

definition example_graph :: GovernanceGraph where
  "example_graph = \<lparr>gg_nodes = [example_table ''t'', example_table ''u''],
     gg_edges = [\<lparr>ge_source = GraphNodeIdentity ''n'' ''table'' ''u'' None,
       ge_target = GraphNodeIdentity ''n'' ''table'' ''t'' None, ge_kind = ''depends_on'',
       ge_attributes = CanonicalObject [], ge_provenance = []\<rparr>]\<rparr>"

lemma example_graph_wf: "wf_graph example_graph"
proof -
  have "list_all wf_node (gg_nodes example_graph)" "list_all wf_edge (gg_edges example_graph)"
    by (simp_all add: wf_node_def wf_edge_def stripped_def wf_attributes_def wf_cjson_def kind_defs
        example_graph_def example_table_def) code_simp+
  moreover have "node_sort_key (example_table ''t'') < node_sort_key (example_table ''u'')" by code_simp
  then have "normal_nodes (gg_nodes example_graph)"
    by (simp add: normal_nodes_def normal_by_def example_graph_def) (simp add: example_table_def)
  ultimately show ?thesis
    by (simp add: wf_graph_def normal_edges_def normal_by_def closed_parts_def ancestors_eq example_graph_def)
      (simp add: example_table_def)
qed

lemma example_impact:
  "\<exists>r. analyze_downstream_impact example_graph [GraphNodeIdentity ''n'' ''table'' ''t'' None] = Some (Inr r)"
  using analyze_ok [OF example_graph_wf, of "[GraphNodeIdentity ''n'' ''table'' ''t'' None]"]
  by (auto simp: example_graph_def example_table_def)

lemma example_hops: "hops_of example_graph = {\<lparr>h_from_node = GraphNodeIdentity ''n'' ''table'' ''t'' None,
  h_to_node = GraphNodeIdentity ''n'' ''table'' ''u'' None, h_edge = hd (gg_edges example_graph), h_traversal = reverse\<rparr>}"
  by (simp add: hops_of_def example_graph_def effective_hop_def map_filter_def kind_defs)

section \<open>Properties\<close>

text \<open>
  C11 (termination). On a graph in normal form the search always ends and the analysis always returns: a result when there is at
  least one changed node and all changed nodes are in the graph, an exception otherwise. No step, path or result
  constructor ever refuses what the search builds.
\<close>

theorem impact_returns:
  assumes "wf_graph g"
  shows "\<exists>res. analyze_downstream_impact g changed = Some res \<and>
    ((\<exists>r. res = Inr r) \<longleftrightarrow> changed \<noteq> [] \<and> set changed \<subseteq> gn_identity ` set (gg_nodes g))"
  using analyze_ok [OF assms, of changed] analyze_error [of changed g] by fastforce

text \<open>The search of the example takes a step and returns; from a node that is not in the graph it refuses.\<close>

theorem impact_returns_witness:
  "(\<exists>r. analyze_downstream_impact example_graph [GraphNodeIdentity ''n'' ''table'' ''t'' None] = Some (Inr r)) \<and>
   (\<exists>e. analyze_downstream_impact example_graph [GraphNodeIdentity ''n'' ''table'' ''x'' None] = Some (Inl e))"
proof -
  have "gn_identity ` set (gg_nodes example_graph) = {GraphNodeIdentity ''n'' ''table'' ''t'' None, GraphNodeIdentity ''n'' ''table'' ''u'' None}"
    by (simp add: example_graph_def example_table_def)
  note nodes = this
  have "\<exists>r. analyze_downstream_impact example_graph [GraphNodeIdentity ''n'' ''table'' ''t'' None] = Some (Inr r)"
    using impact_returns [OF example_graph_wf, of "[GraphNodeIdentity ''n'' ''table'' ''t'' None]"] by (auto simp: nodes)
  moreover obtain res where res: "analyze_downstream_impact example_graph [GraphNodeIdentity ''n'' ''table'' ''x'' None] = Some res" "\<nexists>r. res = Inr r"
    using impact_returns [OF example_graph_wf, of "[GraphNodeIdentity ''n'' ''table'' ''x'' None]"] by (auto simp: nodes)
  then have "\<exists>e. analyze_downstream_impact example_graph [GraphNodeIdentity ''n'' ''table'' ''x'' None] = Some (Inl e)" by (cases res) auto
  ultimately show ?thesis by blast
qed

text \<open>
  C9 (functional). The blast radius is exact: the direct nodes are the nodes that one hop reaches from a
  changed node (and that are not changed themselves), the transitive nodes those whose shortest walk has two
  hops or more; a node that no walk reaches is not reported and none that is reached is missing.
\<close>

theorem impact_exact:
  assumes "wf_graph g" "analyze_downstream_impact g changed = Some (Inr r)"
  shows "impact_spec g (set changed) r \<and>
    impact_core r = (\<Union>k. reach (hops_of g) (set changed) k)"
proof -
  have "changed \<noteq> [] \<and> set changed \<subseteq> gn_identity ` set (gg_nodes g)"
    using assms analyze_error [of changed g] by fastforce
  then have spec: "impact_spec g (set changed) r" using analyze_ok [OF assms(1), of changed] assms(2) by auto
  have "impact_core r = {n. \<exists>k. level (hops_of g) (set changed) k n}"
  proof -
    have "(\<exists>k. level H R k n) \<longleftrightarrow> n \<in> R \<or> level H R 1 n \<or> (\<exists>k \<ge> 2. level H R k n)" for H R n
      by (metis One_nat_def Suc_1 level_0 less_2_cases not_less)
    then show ?thesis using spec unfolding impact_core_def impact_spec_def Let_def by auto
  qed
  also have "\<dots> = (\<Union>k. reach (hops_of g) (set changed) k)"
    using reach_level by (fastforce simp: level_def)
  finally show ?thesis using spec by blast
qed

theorem impact_exact_witness:
  "\<exists>r. analyze_downstream_impact example_graph [GraphNodeIdentity ''n'' ''table'' ''t'' None] = Some (Inr r) \<and>
     GraphNodeIdentity ''n'' ''table'' ''u'' None \<in> set (ir_direct_nodes r)"
proof -
  obtain r where r: "analyze_downstream_impact example_graph [GraphNodeIdentity ''n'' ''table'' ''t'' None] = Some (Inr r)"
    using example_impact by blast
  have "level (hops_of example_graph) {GraphNodeIdentity ''n'' ''table'' ''t'' None} 1 (GraphNodeIdentity ''n'' ''table'' ''u'' None)"
    by (simp add: level_def example_hops)
  then show ?thesis using r impact_exact [OF example_graph_wf r] by (auto simp: impact_spec_def Let_def)
qed

text \<open>
  C10 (functional). Every affected node is explained by exactly one path, and the path is the canonical one:
  its length is the distance of the node, its hops are edges of the graph in impact direction from a changed
  node to the node, and among all shortest paths it is the one with the least sort key.
\<close>

theorem impact_paths_canonical:
  assumes "wf_graph g" "analyze_downstream_impact g changed = Some (Inr r)"
  shows "paths_spec g (set changed) r"
proof -
  have "changed \<noteq> [] \<and> set changed \<subseteq> gn_identity ` set (gg_nodes g)"
    using assms analyze_error [of changed g] by fastforce
  then show ?thesis using analyze_ok [OF assms(1), of changed] assms(2) by auto
qed

theorem impact_paths_canonical_witness:
  "\<exists>r. analyze_downstream_impact example_graph [GraphNodeIdentity ''n'' ''table'' ''t'' None] = Some (Inr r) \<and>
     (\<exists>p \<in> set (ir_paths r). ip_target p = GraphNodeIdentity ''n'' ''table'' ''u'' None)"
proof -
  obtain r where r: "analyze_downstream_impact example_graph [GraphNodeIdentity ''n'' ''table'' ''t'' None] = Some (Inr r)"
    using example_impact by blast
  have "level (hops_of example_graph) {GraphNodeIdentity ''n'' ''table'' ''t'' None} 1 (GraphNodeIdentity ''n'' ''table'' ''u'' None)"
    by (simp add: level_def example_hops)
  then show ?thesis using r impact_paths_canonical [OF example_graph_wf r] by (auto simp: paths_spec_def Let_def)
qed

text \<open>What is reported along with the affected nodes: exactly the impact edges between them, the
  non-contract nodes among them with their non-contract ancestors, the contracts among them and the
  contracts that govern one of them or one of its ancestors, and the assets of policy-relevant kinds.
\<close>

theorem impact_associations:
  assumes "wf_graph g" "analyze_downstream_impact g changed = Some (Inr r)"
  shows "associations_spec g r"
proof -
  have "changed \<noteq> [] \<and> set changed \<subseteq> gn_identity ` set (gg_nodes g)"
    using assms analyze_error [of changed g] by fastforce
  then show ?thesis using analyze_ok [OF assms(1), of changed] assms(2) by auto
qed

theorem impact_associations_witness:
  "\<exists>r. analyze_downstream_impact example_graph [GraphNodeIdentity ''n'' ''table'' ''t'' None] = Some (Inr r) \<and>
     associations_spec example_graph r"
proof -
  obtain r where r: "analyze_downstream_impact example_graph [GraphNodeIdentity ''n'' ''table'' ''t'' None] = Some (Inr r)"
    using example_impact by blast
  then show ?thesis using impact_associations [OF example_graph_wf r] by blast
qed

text \<open>Column lineage edges are the normalized \<open>depends_on\<close> edges of the assertions: assertions of
  the same pair of columns are merged with the union of their provenance, and the result does not depend on
  the order or repetition of the assertions.
\<close>

theorem lineage_edges_canonical:
  assumes "list_all wf_edge (map lineage_edge as)" "set bs = set as"
  shows "materialize_column_lineage_edges as = Inr (merged_edges (map lineage_edge as)) \<and>
    materialize_column_lineage_edges bs = materialize_column_lineage_edges as"
proof -
  have "compatible_edges (map lineage_edge as)"
    by (simp add: compatible_edges_def) (simp add: lineage_edge_def)
  then have "merged_edges (map lineage_edge as) = merged_edges (map lineage_edge bs)"
    unfolding merged_edges_def compatible_edges_by
    by (rule edge_merge.merged_cong [OF assms(1)]) (simp add: assms(2))
  then show ?thesis by (simp add: materialize_merged)
qed

theorem lineage_edges_canonical_witness:
  "let t = GraphNodeIdentity ''n'' ''table'' ''t'' None;
       a = \<lparr>la_output_column = GraphNodeIdentity ''n'' ''column'' ''a'' (Some t),
            la_input_column = GraphNodeIdentity ''n'' ''column'' ''b'' (Some t), la_provenance = []\<rparr>
   in materialize_column_lineage_edges [a, a] = materialize_column_lineage_edges [a]"
  unfolding Let_def
  by (rule lineage_edges_canonical [THEN conjunct2])
    (simp_all add: wf_edge_def lineage_edge_def stripped_def wf_attributes_def wf_cjson_def kind_defs, code_simp)

end
