(* ===== verification/Model.thy ===== *)
theory Model
  imports Json
begin

text \<open>
  \<open>domain/models.py\<close>: the vendor-neutral physical model (data sources, databases, schemas, tables,
  columns, keys, relationships), the identifiers of its objects and its JSON form. Every constructor
  checks its fields and sorts its children. Values of \<open>technical_attributes\<close> are JSON values.
\<close>

section \<open>Identifiers\<close>

definition require_non_empty :: "string \<Rightarrow> string \<Rightarrow> string result" where
  "require_non_empty value field_name =
     (if strip value = [] then Inl (ValueError (field_name @ '' is required'')) else Inr value)"

text \<open>The f-strings evaluate their parts from left to right: the first blank part is reported.\<close>

definition id_path :: "string \<Rightarrow> (string \<times> string) list \<Rightarrow> string result" where
  "id_path prefix parts =
     try_in (traverse (\<lambda>(value, field_name). require_non_empty value field_name) parts)
       (\<lambda>values. Inr (prefix @ join ''/'' values))"

definition make_datasource_id :: "string \<Rightarrow> string result" where
  "make_datasource_id name = id_path ''ds:'' [(name, ''name'')]"

definition make_database_id :: "string \<Rightarrow> string \<Rightarrow> string result" where
  "make_database_id datasource_name database_name =
     id_path ''db:'' [(datasource_name, ''datasource_name''), (database_name, ''database_name'')]"

definition make_schema_id :: "string \<Rightarrow> string \<Rightarrow> string \<Rightarrow> string result" where
  "make_schema_id datasource_name database_name schema_name =
     id_path ''sch:'' [(datasource_name, ''datasource_name''), (database_name, ''database_name''),
       (schema_name, ''schema_name'')]"

definition make_table_id :: "string \<Rightarrow> string \<Rightarrow> string \<Rightarrow> string \<Rightarrow> string result" where
  "make_table_id datasource_name database_name schema_name table_name =
     id_path ''tbl:'' [(datasource_name, ''datasource_name''), (database_name, ''database_name''),
       (schema_name, ''schema_name''), (table_name, ''table_name'')]"

definition make_column_id :: "string \<Rightarrow> string \<Rightarrow> string \<Rightarrow> string \<Rightarrow> string \<Rightarrow> string result" where
  "make_column_id datasource_name database_name schema_name table_name column_name =
     id_path ''col:'' [(datasource_name, ''datasource_name''), (database_name, ''database_name''),
       (schema_name, ''schema_name''), (table_name, ''table_name''), (column_name, ''column_name'')]"

definition make_primary_key_id :: "string \<Rightarrow> string \<Rightarrow> string result" where
  "make_primary_key_id table_id constraint_name =
     id_path ''pk:'' [(table_id, ''table_id''), (constraint_name, ''constraint_name'')]"

definition make_foreign_key_id :: "string \<Rightarrow> string \<Rightarrow> string result" where
  "make_foreign_key_id table_id constraint_name =
     id_path ''fk:'' [(table_id, ''table_id''), (constraint_name, ''constraint_name'')]"

definition make_relationship_id :: "string \<Rightarrow> string result" where
  "make_relationship_id name = id_path ''rel:'' [(name, ''name'')]"

section \<open>Objects\<close>

text \<open>A description is whatever JSON value a snapshot holds (\<open>Any\<close>); scanners give a string or \<open>None\<close>.\<close>

type_synonym technical_attributes = "(string \<times> json) list"

record Ownership =
  ow_owner_name :: string
  ow_owner_type :: string

definition require_all :: "(string \<times> string) list \<Rightarrow> unit result" where
  "require_all parts = check_each (\<lambda>(value, field_name).
     try_in (require_non_empty value field_name) (\<lambda>_. Inr ())) parts"

definition mk_ownership :: "string \<Rightarrow> string \<Rightarrow> Ownership result" where
  "mk_ownership owner_name owner_type =
     try_in (require_all [(owner_name, ''owner_name''), (owner_type, ''owner_type'')]) (\<lambda>_.
       Inr \<lparr>ow_owner_name = owner_name, ow_owner_type = owner_type\<rparr>)"

definition ownership_to_dict :: "Ownership \<Rightarrow> json" where
  "ownership_to_dict w = JObject [(''owner_name'', JStr (ow_owner_name w)), (''owner_type'', JStr (ow_owner_type w))]"

definition opt_dict :: "('a \<Rightarrow> json) \<Rightarrow> 'a option \<Rightarrow> json" where
  "opt_dict f v = (case v of None \<Rightarrow> JNull | Some x \<Rightarrow> f x)"

definition attributes_dict :: "technical_attributes \<Rightarrow> json" where
  "attributes_dict attrs = JObject (sort_key fst attrs)"

record Column =
  c_id :: string
  c_name :: string
  c_data_type :: string
  c_ordinal_position :: int
  c_nullable :: bool
  c_description :: json
  c_technical_attributes :: technical_attributes

text \<open>A constructor takes the fields as given and returns the object it becomes.\<close>

definition mk_column :: "Column \<Rightarrow> Column result" where
  "mk_column c =
     try_in (require_all [(c_id c, ''id''), (c_name c, ''name''), (c_data_type c, ''data_type'')]) (\<lambda>_.
       if c_ordinal_position c < 1 then Inl (ValueError ''ordinal_position must be >= 1'') else Inr c)"

definition column_to_dict :: "Column \<Rightarrow> json" where
  "column_to_dict c = JObject [(''id'', JStr (c_id c)), (''name'', JStr (c_name c)),
     (''data_type'', JStr (c_data_type c)), (''ordinal_position'', JInt (c_ordinal_position c)),
     (''nullable'', JBool (c_nullable c)), (''description'', c_description c),
     (''technical_attributes'', attributes_dict (c_technical_attributes c))]"

record PrimaryKey =
  pk_id :: string
  pk_name :: string
  pk_table_id :: string
  pk_column_ids :: "string list"

definition mk_primary_key :: "PrimaryKey \<Rightarrow> PrimaryKey result" where
  "mk_primary_key k =
     try_in (require_all [(pk_id k, ''id''), (pk_name k, ''name''), (pk_table_id k, ''table_id'')]) (\<lambda>_.
       if pk_column_ids k = [] then Inl (ValueError ''column_ids must not be empty'')
       else try_in (require_all (map (\<lambda>c. (c, ''column_id'')) (pk_column_ids k))) (\<lambda>_. Inr k))"

definition primary_key_to_dict :: "PrimaryKey \<Rightarrow> json" where
  "primary_key_to_dict k = JObject [(''id'', JStr (pk_id k)), (''name'', JStr (pk_name k)),
     (''table_id'', JStr (pk_table_id k)), (''column_ids'', JArray (map JStr (pk_column_ids k)))]"

record ForeignKey =
  fk_id :: string
  fk_name :: string
  fk_table_id :: string
  fk_column_ids :: "string list"
  fk_referenced_table_id :: string
  fk_referenced_column_ids :: "string list"

definition mk_foreign_key :: "ForeignKey \<Rightarrow> ForeignKey result" where
  "mk_foreign_key k =
     try_in (require_all [(fk_id k, ''id''), (fk_name k, ''name''), (fk_table_id k, ''table_id''),
        (fk_referenced_table_id k, ''referenced_table_id'')]) (\<lambda>_.
       if fk_column_ids k = [] then Inl (ValueError ''column_ids must not be empty'')
       else if fk_referenced_column_ids k = [] then Inl (ValueError ''referenced_column_ids must not be empty'')
       else if length (fk_column_ids k) \<noteq> length (fk_referenced_column_ids k)
       then Inl (ValueError ''column_ids and referenced_column_ids must have equal length'')
       else Inr k)"

definition foreign_key_to_dict :: "ForeignKey \<Rightarrow> json" where
  "foreign_key_to_dict k = JObject [(''id'', JStr (fk_id k)), (''name'', JStr (fk_name k)),
     (''table_id'', JStr (fk_table_id k)), (''column_ids'', JArray (map JStr (fk_column_ids k))),
     (''referenced_table_id'', JStr (fk_referenced_table_id k)),
     (''referenced_column_ids'', JArray (map JStr (fk_referenced_column_ids k)))]"

record Relationship =
  rl_id :: string
  rl_name :: string
  rl_from_table_id :: string
  rl_to_table_id :: string
  rl_foreign_key_id :: "string option"
  rl_description :: json

definition mk_relationship :: "Relationship \<Rightarrow> Relationship result" where
  "mk_relationship r =
     try_in (require_all [(rl_id r, ''id''), (rl_name r, ''name''), (rl_from_table_id r, ''from_table_id''),
        (rl_to_table_id r, ''to_table_id'')]) (\<lambda>_. Inr r)"

definition relationship_to_dict :: "Relationship \<Rightarrow> json" where
  "relationship_to_dict r = JObject [(''id'', JStr (rl_id r)), (''name'', JStr (rl_name r)),
     (''from_table_id'', JStr (rl_from_table_id r)), (''to_table_id'', JStr (rl_to_table_id r)),
     (''foreign_key_id'', opt_dict JStr (rl_foreign_key_id r)),
     (''description'', rl_description r)]"

record Table =
  t_id :: string
  t_name :: string
  t_schema_id :: string
  t_columns :: "Column list"
  t_primary_key :: "PrimaryKey option"
  t_foreign_keys :: "ForeignKey list"
  t_description :: json
  t_ownership :: "Ownership option"
  t_technical_attributes :: technical_attributes

definition mk_table :: "Table \<Rightarrow> Table result" where
  "mk_table t =
     try_in (require_all [(t_id t, ''id''), (t_name t, ''name''), (t_schema_id t, ''schema_id'')]) (\<lambda>_.
       if t_columns t = [] then Inl (ValueError ''columns must not be empty'')
       else Inr (t\<lparr>t_columns := sort_key (\<lambda>c. (c_ordinal_position c, c_id c)) (t_columns t),
                   t_foreign_keys := sort_key fk_id (t_foreign_keys t)\<rparr>))"

definition table_to_dict :: "Table \<Rightarrow> json" where
  "table_to_dict t = JObject [(''id'', JStr (t_id t)), (''name'', JStr (t_name t)),
     (''schema_id'', JStr (t_schema_id t)), (''columns'', JArray (map column_to_dict (t_columns t))),
     (''primary_key'', opt_dict primary_key_to_dict (t_primary_key t)),
     (''foreign_keys'', JArray (map foreign_key_to_dict (t_foreign_keys t))),
     (''description'', t_description t),
     (''ownership'', opt_dict ownership_to_dict (t_ownership t)),
     (''technical_attributes'', attributes_dict (t_technical_attributes t))]"

record Schema =
  sc_id :: string
  sc_name :: string
  sc_database_id :: string
  sc_tables :: "Table list"
  sc_description :: json
  sc_ownership :: "Ownership option"

definition mk_schema :: "Schema \<Rightarrow> Schema result" where
  "mk_schema s =
     try_in (require_all [(sc_id s, ''id''), (sc_name s, ''name''), (sc_database_id s, ''database_id'')]) (\<lambda>_.
       Inr (s\<lparr>sc_tables := sort_key t_id (sc_tables s)\<rparr>))"

definition schema_to_dict :: "Schema \<Rightarrow> json" where
  "schema_to_dict s = JObject [(''id'', JStr (sc_id s)), (''name'', JStr (sc_name s)),
     (''database_id'', JStr (sc_database_id s)), (''tables'', JArray (map table_to_dict (sc_tables s))),
     (''description'', sc_description s),
     (''ownership'', opt_dict ownership_to_dict (sc_ownership s))]"

record Database =
  db_id :: string
  db_name :: string
  db_datasource_id :: string
  db_schemas :: "Schema list"
  db_description :: json
  db_ownership :: "Ownership option"

definition mk_database :: "Database \<Rightarrow> Database result" where
  "mk_database d =
     try_in (require_all [(db_id d, ''id''), (db_name d, ''name''), (db_datasource_id d, ''datasource_id'')]) (\<lambda>_.
       Inr (d\<lparr>db_schemas := sort_key sc_id (db_schemas d)\<rparr>))"

definition database_to_dict :: "Database \<Rightarrow> json" where
  "database_to_dict d = JObject [(''id'', JStr (db_id d)), (''name'', JStr (db_name d)),
     (''datasource_id'', JStr (db_datasource_id d)), (''schemas'', JArray (map schema_to_dict (db_schemas d))),
     (''description'', db_description d),
     (''ownership'', opt_dict ownership_to_dict (db_ownership d))]"

record DataSource =
  ds_id :: string
  ds_name :: string
  ds_system_type :: string
  ds_databases :: "Database list"
  ds_description :: json
  ds_ownership :: "Ownership option"
  ds_technical_attributes :: technical_attributes

definition mk_data_source :: "DataSource \<Rightarrow> DataSource result" where
  "mk_data_source d =
     try_in (require_all [(ds_id d, ''id''), (ds_name d, ''name''), (ds_system_type d, ''system_type'')]) (\<lambda>_.
       Inr (d\<lparr>ds_databases := sort_key db_id (ds_databases d)\<rparr>))"

definition data_source_to_dict :: "DataSource \<Rightarrow> json" where
  "data_source_to_dict d = JObject [(''id'', JStr (ds_id d)), (''name'', JStr (ds_name d)),
     (''system_type'', JStr (ds_system_type d)), (''databases'', JArray (map database_to_dict (ds_databases d))),
     (''description'', ds_description d),
     (''ownership'', opt_dict ownership_to_dict (ds_ownership d)),
     (''technical_attributes'', attributes_dict (ds_technical_attributes d))]"

record GovernanceModel =
  gm_data_sources :: "DataSource list"
  gm_relationships :: "Relationship list"

definition mk_governance_model :: "DataSource list \<Rightarrow> Relationship list \<Rightarrow> GovernanceModel result" where
  "mk_governance_model data_sources relationships =
     (if data_sources = [] then Inl (ValueError ''data_sources must not be empty'')
      else Inr \<lparr>gm_data_sources = sort_key ds_id data_sources, gm_relationships = sort_key rl_id relationships\<rparr>)"

definition model_to_dict :: "GovernanceModel \<Rightarrow> json" where
  "model_to_dict m = JObject [(''data_sources'', JArray (map data_source_to_dict (gm_data_sources m))),
     (''relationships'', JArray (map relationship_to_dict (gm_relationships m)))]"

definition model_to_json :: "GovernanceModel \<Rightarrow> string" where
  "model_to_json m = canonical_json_bytes (model_to_dict m)"

section \<open>Identifiers name one object\<close>

definition plain_name :: "string \<Rightarrow> bool" where
  "plain_name s \<longleftrightarrow> strip s \<noteq> [] \<and> CHR ''/'' \<notin> set s"

lemma require_non_empty_ok [split_result]: "require_non_empty v f = Inr s \<longleftrightarrow> s = v \<and> strip v \<noteq> []"
  by (auto simp: require_non_empty_def)

lemma id_path_ok:
  "id_path prefix parts = Inr s \<longleftrightarrow> (\<forall>(v, f) \<in> set parts. strip v \<noteq> []) \<and> s = prefix @ join ''/'' (map fst parts)"
proof -
  have "traverse (\<lambda>(value, field_name). require_non_empty value field_name) parts = Inr vs \<longleftrightarrow>
      (\<forall>p \<in> set parts. strip (fst p) \<noteq> []) \<and> vs = map fst parts" for vs
    by (rule traverse_Inr_when) (auto simp: split_result)
  then show ?thesis by (auto simp: id_path_def split_result case_prod_beta)
qed

lemma join_slash_inj:
  "vs \<noteq> [] \<Longrightarrow> ws \<noteq> [] \<Longrightarrow> \<forall>v \<in> set vs. CHR ''/'' \<notin> set v \<Longrightarrow> \<forall>w \<in> set ws. CHR ''/'' \<notin> set w \<Longrightarrow>
   join ''/'' vs = join ''/'' ws \<Longrightarrow> vs = ws"
  by (metis split_on_join)

text \<open>The identifier of a column names its path: two identifiers are equal only when data
  source, database, schema, table and column names are, as long as no name contains a slash.
\<close>

theorem column_id_injective:
  assumes "list_all plain_name [a, b, c, d, e]" "list_all plain_name [a', b', c', d', e']"
    and "make_column_id a b c d e = make_column_id a' b' c' d' e'"
  shows "a = a' \<and> b = b' \<and> c = c' \<and> d = d' \<and> e = e'"
proof -
  have "make_column_id a b c d e = Inr (''col:'' @ join ''/'' [a, b, c, d, e])"
    "make_column_id a' b' c' d' e' = Inr (''col:'' @ join ''/'' [a', b', c', d', e'])"
    using assms(1,2) by (simp_all add: make_column_id_def id_path_ok plain_name_def)
  then have "join ''/'' [a, b, c, d, e] = join ''/'' [a', b', c', d', e']" using assms(3) by simp
  then have "[a, b, c, d, e] = [a', b', c', d', e']"
    by (rule join_slash_inj [rotated -1]) (use assms(1,2) in \<open>auto simp: plain_name_def\<close>)
  then show ?thesis by simp
qed

theorem column_id_injective_witness:
  "make_column_id ''s'' ''d'' ''p'' ''t'' ''a'' \<noteq> make_column_id ''s'' ''d'' ''p'' ''t'' ''b''"
proof
  assume "make_column_id ''s'' ''d'' ''p'' ''t'' ''a'' = make_column_id ''s'' ''d'' ''p'' ''t'' ''b''"
  moreover have "list_all plain_name [''s'', ''d'', ''p'', ''t'', ''a'']" "list_all plain_name [''s'', ''d'', ''p'', ''t'', ''b'']"
    by code_simp+
  ultimately have "''a'' = ''b''" using column_id_injective by blast
  then show False by simp
qed

text \<open>A slash in a name breaks that: the names below are different and the identifier is the same.\<close>

lemma schema_id_collision: "make_schema_id ''a/b'' ''c'' ''d'' = make_schema_id ''a'' ''b/c'' ''d''"
  by code_simp

section \<open>Children are kept in canonical order\<close>

text \<open>The order in which children are given does not matter: constructors given the same
  children in another order, with distinct sort keys, build the same table, schema, database, data source
  and model.
\<close>

theorem children_order_irrelevant:
  assumes "distinct (map (\<lambda>c. (c_ordinal_position c, c_id c)) (t_columns t))" "mset cs = mset (t_columns t)"
    and "distinct (map fk_id (t_foreign_keys t))" "mset fks = mset (t_foreign_keys t)"
    and "distinct (map t_id (sc_tables s))" "mset ts = mset (sc_tables s)"
    and "distinct (map sc_id (db_schemas d))" "mset scs = mset (db_schemas d)"
    and "distinct (map db_id (ds_databases ds))" "mset dbs = mset (ds_databases ds)"
    and "distinct (map ds_id dss)" "mset dss' = mset dss" and "distinct (map rl_id rs)" "mset rs' = mset rs"
  shows "mk_table (t\<lparr>t_columns := cs, t_foreign_keys := fks\<rparr>) = mk_table t \<and>
    mk_schema (s\<lparr>sc_tables := ts\<rparr>) = mk_schema s \<and> mk_database (d\<lparr>db_schemas := scs\<rparr>) = mk_database d \<and>
    mk_data_source (ds\<lparr>ds_databases := dbs\<rparr>) = mk_data_source ds \<and>
    mk_governance_model dss' rs' = mk_governance_model dss rs"
proof -
  have perm: "sort_key f xs = sort_key f ys" if "mset xs = mset ys" "distinct (map f ys)"
    for f :: "'x \<Rightarrow> 'k::linorder" and xs ys
    using that by (intro sort_key_perm) (auto simp: distinct_map dest: mset_eq_setD)
  have nil: "cs = [] \<longleftrightarrow> t_columns t = []" "dss' = [] \<longleftrightarrow> dss = []" using assms(2,12) by auto
  show ?thesis
    unfolding mk_table_def mk_schema_def mk_database_def mk_data_source_def mk_governance_model_def
    using perm [OF assms(2,1)] perm [OF assms(4,3)] perm [OF assms(6,5)] perm [OF assms(8,7)]
      perm [OF assms(10,9)] perm [OF assms(12,11)] perm [OF assms(14,13)] nil by simp
qed

theorem children_order_irrelevant_witness:
  "let r = \<lambda>i. \<lparr>rl_id = i, rl_name = i, rl_from_table_id = ''a'', rl_to_table_id = ''b'', rl_foreign_key_id = None, rl_description = JNull\<rparr>;
       x = \<lparr>ds_id = ''ds:x'', ds_name = ''x'', ds_system_type = ''pg'', ds_databases = [], ds_description = JNull,
            ds_ownership = None, ds_technical_attributes = []\<rparr>
   in mk_governance_model [x] [r ''2'', r ''1''] = mk_governance_model [x] [r ''1'', r ''2'']"
  unfolding Let_def
  by (rule children_order_irrelevant [where t = "undefined\<lparr>t_columns := [], t_foreign_keys := []\<rparr>" and cs = "[]"
        and fks = "[]" and s = "undefined\<lparr>sc_tables := []\<rparr>" and ts = "[]" and d = "undefined\<lparr>db_schemas := []\<rparr>"
        and scs = "[]" and ds = "undefined\<lparr>ds_databases := []\<rparr>" and dbs = "[]",
      THEN conjunct2, THEN conjunct2, THEN conjunct2, THEN conjunct2]) simp_all

end
