(* ===== verification/Collibra.thy ===== *)
theory Collibra
  imports Model
begin

text \<open>
  \<open>integrations/collibra/models.py\<close>: the desired state, the managed remote state, and the
  synchronization plan with its JSON form. A plan has no delete action: the type has none, and
  \<open>action_from_dict\<close> refuses one. \<open>py_str\<close> is Python's \<open>str(...)\<close> of a parsed JSON value.
\<close>

section \<open>Text of a JSON value\<close>

definition repr_char :: "char \<Rightarrow> char \<Rightarrow> string" where
  "repr_char q c =
     (if c = q \<or> c = CHR 0x5C then [CHR 0x5C, c]
      else if c = CHR 0x0A then [CHR 0x5C, CHR ''n'']
      else if c = CHR 0x0D then [CHR 0x5C, CHR ''r'']
      else if c = CHR 0x09 then [CHR 0x5C, CHR ''t'']
      else (let n = (of_char c :: nat) in
        if n < 32 \<or> (127 \<le> n \<and> n \<le> 160) \<or> n = 173
        then [CHR 0x5C, CHR ''x'', hex_char (n div 16), hex_char (n mod 16)] else [c]))"

definition repr_str :: "string \<Rightarrow> string" where
  "repr_str s = (let q = (if CHR 0x27 \<in> set s \<and> CHR 0x22 \<notin> set s then CHR 0x22 else CHR 0x27)
     in q # concat (map (repr_char q) s) @ [q])"

fun py_repr :: "json \<Rightarrow> string" where
  "py_repr JNull = ''None''"
| "py_repr (JBool b) = (if b then ''True'' else ''False'')"
| "py_repr (JInt i) = str_int i"
| "py_repr (JFloat t) = t"
| "py_repr (JStr s) = repr_str s"
| "py_repr (JArray vs) = ''['' @ join '', '' (map py_repr vs) @ '']''"
| "py_repr (JObject kvs) = ''{'' @ join '', '' (map (\<lambda>(k, v). repr_str k @ '': '' @ py_repr v) kvs) @ ''}''"

definition py_str :: "json \<Rightarrow> string" where
  "py_str v = (case v of JStr s \<Rightarrow> s | _ \<Rightarrow> py_repr v)"

text \<open>\<open>None if payload.get(key) is None else str(payload[key])\<close> and \<open>str(payload[key])\<close>.\<close>

definition opt_item :: "(string \<times> json) list \<Rightarrow> string \<Rightarrow> string option" where
  "opt_item payload key = (case get_item payload key of JNull \<Rightarrow> None | v \<Rightarrow> Some (py_str v))"

definition str_item :: "(string \<times> json) list \<Rightarrow> string \<Rightarrow> string result" where
  "str_item payload key = try_in (item payload key) (\<lambda>v. Inr (py_str v))"

text \<open>\<open>payload.get(key) or []\<close>, which must then be a list.\<close>

definition falsy :: "json \<Rightarrow> bool" where
  "falsy v = (case v of JNull \<Rightarrow> True | JBool b \<Rightarrow> \<not> b | JInt i \<Rightarrow> i = 0 | JFloat t \<Rightarrow> t = ''0.0'' \<or> t = ''-0.0''
     | JStr s \<Rightarrow> s = [] | JArray vs \<Rightarrow> vs = [] | JObject kvs \<Rightarrow> kvs = [])"

definition list_item :: "(string \<times> json) list \<Rightarrow> string \<Rightarrow> string \<Rightarrow> json list result" where
  "list_item payload key message =
     (let v = get_item payload key in
      if falsy v then Inr [] else (case v of JArray vs \<Rightarrow> Inr vs | _ \<Rightarrow> Inl (ValueError message)))"

definition opt_to_json :: "string option \<Rightarrow> json" where
  "opt_to_json v = (case v of None \<Rightarrow> JNull | Some s \<Rightarrow> JStr s)"

section \<open>Desired state\<close>

record CollibraAttributeSpec =
  at_attribute_type_ref :: string
  at_value :: string

definition mk_attribute :: "string \<Rightarrow> string \<Rightarrow> CollibraAttributeSpec result" where
  "mk_attribute attribute_type_ref value =
     try_in (require_all [(attribute_type_ref, ''attribute_type_ref'')]) (\<lambda>_.
       Inr \<lparr>at_attribute_type_ref = attribute_type_ref, at_value = value\<rparr>)"

definition attribute_to_dict :: "CollibraAttributeSpec \<Rightarrow> json" where
  "attribute_to_dict a = JObject [(''attribute_type_ref'', JStr (at_attribute_type_ref a)), (''value'', JStr (at_value a))]"

definition attribute_from_dict :: "json \<Rightarrow> CollibraAttributeSpec result" where
  "attribute_from_dict payload =
     (case payload of
        JObject kvs \<Rightarrow>
          try_in (str_item kvs ''attribute_type_ref'') (\<lambda>t.
          try_in (str_item kvs ''value'') (\<lambda>v. mk_attribute t v))
      | _ \<Rightarrow> Inl (ValueError ''attribute payload must be a mapping''))"

record CollibraAssetSpec =
  as_local_id :: string
  as_name :: string
  as_asset_type_ref :: string
  as_domain_ref :: string
  as_display_name :: "string option"
  as_attributes :: "CollibraAttributeSpec list"

definition mk_asset :: "CollibraAssetSpec \<Rightarrow> CollibraAssetSpec result" where
  "mk_asset a =
     try_in (require_all [(as_local_id a, ''local_id''), (as_name a, ''name''),
        (as_asset_type_ref a, ''asset_type_ref''), (as_domain_ref a, ''domain_ref'')]) (\<lambda>_.
       if (case as_display_name a of None \<Rightarrow> False | Some n \<Rightarrow> strip n = [])
       then Inl (ValueError ''display_name must not be empty when provided'')
       else Inr (a\<lparr>as_attributes := sort_key at_attribute_type_ref (as_attributes a)\<rparr>))"

definition asset_to_dict :: "CollibraAssetSpec \<Rightarrow> json" where
  "asset_to_dict a = JObject [(''asset_type_ref'', JStr (as_asset_type_ref a)),
     (''attributes'', JArray (map attribute_to_dict (as_attributes a))),
     (''display_name'', opt_to_json (as_display_name a)), (''domain_ref'', JStr (as_domain_ref a)),
     (''local_id'', JStr (as_local_id a)), (''name'', JStr (as_name a))]"

definition asset_from_dict :: "json \<Rightarrow> CollibraAssetSpec result" where
  "asset_from_dict payload =
     (case payload of
        JObject kvs \<Rightarrow>
          try_in (list_item kvs ''attributes'' ''attributes must be an array'') (\<lambda>raw.
          try_in (traverse attribute_from_dict raw) (\<lambda>attributes.
          try_in (str_item kvs ''local_id'') (\<lambda>local_id.
          try_in (str_item kvs ''name'') (\<lambda>name.
          try_in (str_item kvs ''asset_type_ref'') (\<lambda>asset_type_ref.
          try_in (str_item kvs ''domain_ref'') (\<lambda>domain_ref.
            mk_asset \<lparr>as_local_id = local_id, as_name = name, as_asset_type_ref = asset_type_ref,
              as_domain_ref = domain_ref, as_display_name = opt_item kvs ''display_name'',
              as_attributes = attributes\<rparr>))))))
      | _ \<Rightarrow> Inl (ValueError ''desired_asset payload must be a mapping''))"

record CollibraRelationshipSpec =
  rs_local_key :: string
  rs_source_local_id :: string
  rs_target_local_id :: string
  rs_relation_type_ref :: string

definition mk_relationship_spec :: "CollibraRelationshipSpec \<Rightarrow> CollibraRelationshipSpec result" where
  "mk_relationship_spec r =
     try_in (require_all [(rs_local_key r, ''local_key''), (rs_source_local_id r, ''source_local_id''),
        (rs_target_local_id r, ''target_local_id''), (rs_relation_type_ref r, ''relation_type_ref'')]) (\<lambda>_. Inr r)"

definition relationship_spec_to_dict :: "CollibraRelationshipSpec \<Rightarrow> json" where
  "relationship_spec_to_dict r = JObject [(''local_key'', JStr (rs_local_key r)),
     (''relation_type_ref'', JStr (rs_relation_type_ref r)),
     (''source_local_id'', JStr (rs_source_local_id r)), (''target_local_id'', JStr (rs_target_local_id r))]"

definition relationship_spec_from_dict :: "json \<Rightarrow> CollibraRelationshipSpec result" where
  "relationship_spec_from_dict payload =
     (case payload of
        JObject kvs \<Rightarrow>
          try_in (str_item kvs ''local_key'') (\<lambda>local_key.
          try_in (str_item kvs ''source_local_id'') (\<lambda>source_local_id.
          try_in (str_item kvs ''target_local_id'') (\<lambda>target_local_id.
          try_in (str_item kvs ''relation_type_ref'') (\<lambda>relation_type_ref.
            mk_relationship_spec \<lparr>rs_local_key = local_key, rs_source_local_id = source_local_id,
              rs_target_local_id = target_local_id, rs_relation_type_ref = relation_type_ref\<rparr>))))
      | _ \<Rightarrow> Inl (ValueError ''desired_relationship payload must be a mapping''))"

record CollibraDesiredState =
  des_assets :: "CollibraAssetSpec list"
  des_relationships :: "CollibraRelationshipSpec list"

definition mk_desired_state ::
  "CollibraAssetSpec list \<Rightarrow> CollibraRelationshipSpec list \<Rightarrow> CollibraDesiredState" where
  "mk_desired_state assets relationships =
     \<lparr>des_assets = sort_key as_local_id assets, des_relationships = sort_key rs_local_key relationships\<rparr>"

definition desired_state_to_dict :: "CollibraDesiredState \<Rightarrow> json" where
  "desired_state_to_dict d = JObject [(''assets'', JArray (map asset_to_dict (des_assets d))),
     (''relationships'', JArray (map relationship_spec_to_dict (des_relationships d)))]"

section \<open>Managed remote state\<close>

record CollibraRemoteAttribute =
  ra_attribute_type_ref :: string
  ra_value :: string
  ra_remote_attribute_id :: "string option"

definition mk_remote_attribute :: "CollibraRemoteAttribute \<Rightarrow> CollibraRemoteAttribute result" where
  "mk_remote_attribute a =
     try_in (require_all [(ra_attribute_type_ref a, ''attribute_type_ref'')]) (\<lambda>_. Inr a)"

record CollibraRemoteAsset =
  rm_remote_id :: string
  rm_local_id :: string
  rm_name :: string
  rm_asset_type_ref :: string
  rm_domain_ref :: string
  rm_display_name :: "string option"
  rm_managed_attributes :: "CollibraRemoteAttribute list"

definition mk_remote_asset :: "CollibraRemoteAsset \<Rightarrow> CollibraRemoteAsset result" where
  "mk_remote_asset a =
     try_in (require_all [(rm_remote_id a, ''remote_id''), (rm_local_id a, ''local_id''), (rm_name a, ''name''),
        (rm_asset_type_ref a, ''asset_type_ref''), (rm_domain_ref a, ''domain_ref'')]) (\<lambda>_.
       Inr (a\<lparr>rm_managed_attributes := sort_key ra_attribute_type_ref (rm_managed_attributes a)\<rparr>))"

record CollibraRemoteRelationship =
  rr_remote_id :: string
  rr_source_remote_id :: string
  rr_target_remote_id :: string
  rr_source_local_id :: string
  rr_target_local_id :: string
  rr_relation_type_ref :: string
  rr_local_key :: "string option"

definition mk_remote_relationship :: "CollibraRemoteRelationship \<Rightarrow> CollibraRemoteRelationship result" where
  "mk_remote_relationship r =
     try_in (require_all [(rr_remote_id r, ''remote_id''), (rr_source_remote_id r, ''source_remote_id''),
        (rr_target_remote_id r, ''target_remote_id''), (rr_source_local_id r, ''source_local_id''),
        (rr_target_local_id r, ''target_local_id''), (rr_relation_type_ref r, ''relation_type_ref'')]) (\<lambda>_. Inr r)"

record CollibraRemoteState =
  rem_assets :: "CollibraRemoteAsset list"
  rem_relationships :: "CollibraRemoteRelationship list"
  rem_unmanaged_assets_ignored :: nat
  rem_unmanaged_relationships_ignored :: nat

definition mk_remote_state ::
  "CollibraRemoteAsset list \<Rightarrow> CollibraRemoteRelationship list \<Rightarrow> nat \<Rightarrow> nat \<Rightarrow> CollibraRemoteState" where
  "mk_remote_state assets relationships ua ur =
     \<lparr>rem_assets = sort_key rm_local_id assets,
      rem_relationships = sort_key (\<lambda>r. (or_empty (rr_local_key r), rr_source_local_id r, rr_target_local_id r,
        rr_relation_type_ref r, rr_remote_id r)) relationships,
      rem_unmanaged_assets_ignored = ua, rem_unmanaged_relationships_ignored = ur\<rparr>"

definition remote_attribute_to_dict :: "CollibraRemoteAttribute \<Rightarrow> json" where
  "remote_attribute_to_dict a = JObject [(''attribute_type_ref'', JStr (ra_attribute_type_ref a)),
     (''remote_attribute_id'', opt_to_json (ra_remote_attribute_id a)), (''value'', JStr (ra_value a))]"

definition remote_asset_to_dict :: "CollibraRemoteAsset \<Rightarrow> json" where
  "remote_asset_to_dict a = JObject [(''asset_type_ref'', JStr (rm_asset_type_ref a)),
     (''display_name'', opt_to_json (rm_display_name a)), (''domain_ref'', JStr (rm_domain_ref a)),
     (''local_id'', JStr (rm_local_id a)),
     (''managed_attributes'', JArray (map remote_attribute_to_dict (rm_managed_attributes a))),
     (''name'', JStr (rm_name a)), (''remote_id'', JStr (rm_remote_id a))]"

definition remote_relationship_to_dict :: "CollibraRemoteRelationship \<Rightarrow> json" where
  "remote_relationship_to_dict r = JObject [(''local_key'', opt_to_json (rr_local_key r)),
     (''relation_type_ref'', JStr (rr_relation_type_ref r)), (''remote_id'', JStr (rr_remote_id r)),
     (''source_local_id'', JStr (rr_source_local_id r)), (''source_remote_id'', JStr (rr_source_remote_id r)),
     (''target_local_id'', JStr (rr_target_local_id r)), (''target_remote_id'', JStr (rr_target_remote_id r))]"

definition remote_state_to_dict :: "CollibraRemoteState \<Rightarrow> json" where
  "remote_state_to_dict s = JObject [(''assets'', JArray (map remote_asset_to_dict (rem_assets s))),
     (''relationships'', JArray (map remote_relationship_to_dict (rem_relationships s))),
     (''unmanaged_assets_ignored'', JInt (int (rem_unmanaged_assets_ignored s))),
     (''unmanaged_relationships_ignored'', JInt (int (rem_unmanaged_relationships_ignored s)))]"

section \<open>Synchronization plans\<close>

datatype SyncActionType = CREATE | UPDATE | UNCHANGED | REMOTE_ONLY

fun action_type_value :: "SyncActionType \<Rightarrow> string" where
  "action_type_value CREATE = ''create''"
| "action_type_value UPDATE = ''update''"
| "action_type_value UNCHANGED = ''unchanged''"
| "action_type_value REMOTE_ONLY = ''remote_only''"

datatype SyncObjectKind = ASSET | RELATIONSHIP

fun object_kind_value :: "SyncObjectKind \<Rightarrow> string" where
  "object_kind_value ASSET = ''asset''"
| "object_kind_value RELATIONSHIP = ''relationship''"

record SyncAction =
  sa_action_type :: SyncActionType
  sa_object_kind :: SyncObjectKind
  sa_local_id :: "string option"
  sa_remote_id :: "string option"
  sa_reason :: string
  sa_desired_asset :: "CollibraAssetSpec option"
  sa_desired_relationship :: "CollibraRelationshipSpec option"
  sa_changed_fields :: "string list"

definition mk_sync_action :: "SyncAction \<Rightarrow> SyncAction result" where
  "mk_sync_action a =
     (if sa_action_type a = REMOTE_ONLY \<and> or_empty (sa_remote_id a) = []
      then Inl (ValueError ''REMOTE_ONLY actions require remote_id'')
      else if sa_action_type a = CREATE \<and> sa_object_kind a = ASSET \<and> sa_desired_asset a = None
      then Inl (ValueError ''CREATE asset actions require desired_asset'')
      else if sa_action_type a = CREATE \<and> sa_object_kind a = RELATIONSHIP \<and> sa_desired_relationship a = None
      then Inl (ValueError ''CREATE relationship actions require desired_relationship'')
      else if sa_action_type a = UPDATE \<and> (sa_remote_id a = None \<or> sa_desired_asset a = None)
      then Inl (ValueError ''UPDATE actions require remote_id and desired_asset'')
      else Inr (a\<lparr>sa_changed_fields := sort (sa_changed_fields a)\<rparr>))"

definition action_to_dict :: "SyncAction \<Rightarrow> json" where
  "action_to_dict a = JObject [(''action_type'', JStr (action_type_value (sa_action_type a))),
     (''changed_fields'', JArray (map JStr (sa_changed_fields a))),
     (''desired_asset'', (case sa_desired_asset a of None \<Rightarrow> JNull | Some d \<Rightarrow> asset_to_dict d)),
     (''desired_relationship'', (case sa_desired_relationship a of None \<Rightarrow> JNull | Some d \<Rightarrow> relationship_spec_to_dict d)),
     (''local_id'', opt_to_json (sa_local_id a)), (''object_kind'', JStr (object_kind_value (sa_object_kind a))),
     (''reason'', JStr (sa_reason a)), (''remote_id'', opt_to_json (sa_remote_id a))]"

definition parse_action_type :: "json \<Rightarrow> SyncActionType result" where
  "parse_action_type raw =
     (let s = py_str raw in
      if s = ''create'' then Inr CREATE else if s = ''update'' then Inr UPDATE
      else if s = ''unchanged'' then Inr UNCHANGED else if s = ''remote_only'' then Inr REMOTE_ONLY
      else Inl (ValueError (''unsupported action_type: '' @ py_str raw)))"

definition parse_object_kind :: "json \<Rightarrow> SyncObjectKind result" where
  "parse_object_kind raw =
     (let s = py_str raw in
      if s = ''asset'' then Inr ASSET else if s = ''relationship'' then Inr RELATIONSHIP
      else Inl (ValueError (''unsupported object_kind: '' @ py_str raw)))"

definition opt_from_dict :: "(json \<Rightarrow> 'a result) \<Rightarrow> json \<Rightarrow> 'a option result" where
  "opt_from_dict f v = (case v of JNull \<Rightarrow> Inr None | _ \<Rightarrow> try_in (f v) (\<lambda>x. Inr (Some x)))"

definition action_from_dict :: "json \<Rightarrow> SyncAction result" where
  "action_from_dict payload =
     (case payload of
        JObject kvs \<Rightarrow>
          (let action_type_raw = get_item kvs ''action_type'' in
           if action_type_raw = JStr ''delete'' then Inl (ValueError ''DELETE actions are unsupported'')
           else try_in (parse_action_type action_type_raw) (\<lambda>action_type.
                try_in (parse_object_kind (get_item kvs ''object_kind'')) (\<lambda>object_kind.
                try_in (list_item kvs ''changed_fields'' ''changed_fields must be an array'') (\<lambda>changed.
                try_in (opt_from_dict asset_from_dict (get_item kvs ''desired_asset'')) (\<lambda>desired_asset.
                try_in (opt_from_dict relationship_spec_from_dict (get_item kvs ''desired_relationship'')) (\<lambda>desired_relationship.
                  mk_sync_action \<lparr>sa_action_type = action_type, sa_object_kind = object_kind,
                    sa_local_id = opt_item kvs ''local_id'', sa_remote_id = opt_item kvs ''remote_id'',
                    sa_reason = or_empty (opt_item kvs ''reason''), sa_desired_asset = desired_asset,
                    sa_desired_relationship = desired_relationship, sa_changed_fields = map py_str changed\<rparr>))))))
      | _ \<Rightarrow> Inl (ValueError ''action payload must be a mapping''))"

record SyncPlan =
  sp_actions :: "SyncAction list"

definition sync_action_sort_key :: "SyncAction \<Rightarrow> string \<times> string \<times> string \<times> string" where
  "sync_action_sort_key a = (action_type_value (sa_action_type a), object_kind_value (sa_object_kind a),
     or_empty (sa_local_id a), or_empty (sa_remote_id a))"

definition mk_sync_plan :: "SyncAction list \<Rightarrow> SyncPlan" where
  "mk_sync_plan actions = \<lparr>sp_actions = sort_key sync_action_sort_key actions\<rparr>"

definition plan_of_type :: "SyncActionType \<Rightarrow> SyncPlan \<Rightarrow> SyncAction list" where
  "plan_of_type t plan = filter (\<lambda>a. sa_action_type a = t) (sp_actions plan)"

definition plan_to_dict :: "SyncPlan \<Rightarrow> json" where
  "plan_to_dict p = JObject [(''actions'', JArray (map action_to_dict (sp_actions p)))]"

definition plan_from_dict :: "json \<Rightarrow> SyncPlan result" where
  "plan_from_dict payload =
     (case payload of
        JObject kvs \<Rightarrow>
          (case get_item kvs ''actions'' of
             JArray raw \<Rightarrow> try_in (traverse action_from_dict raw) (\<lambda>actions. Inr (mk_sync_plan actions))
           | _ \<Rightarrow> Inl (ValueError ''actions must be an array''))
      | _ \<Rightarrow> Inl (ValueError ''plan payload must be a mapping''))"

record SyncResult =
  sr_success :: bool
  sr_dry_run :: bool
  sr_applied_count :: nat
  sr_unchanged_count :: nat
  sr_failed_action :: "SyncAction option"
  sr_error :: "string option"
  sr_plan :: "SyncPlan option"

definition sync_result_to_dict :: "SyncResult \<Rightarrow> json" where
  "sync_result_to_dict r = JObject [(''applied_count'', JInt (int (sr_applied_count r))),
     (''dry_run'', JBool (sr_dry_run r)), (''error'', opt_to_json (sr_error r)),
     (''failed_action'', (case sr_failed_action r of None \<Rightarrow> JNull | Some a \<Rightarrow> action_to_dict a)),
     (''plan'', (case sr_plan r of None \<Rightarrow> JNull | Some p \<Rightarrow> plan_to_dict p)),
     (''success'', JBool (sr_success r)), (''unchanged_count'', JInt (int (sr_unchanged_count r)))]"

section \<open>Saved plans\<close>

lemma py_str_JStr [simp]: "py_str (JStr s) = s"
  by (simp add: py_str_def)

lemma traverse_map_inverse:
  "(\<And>x. x \<in> set xs \<Longrightarrow> f (g x) = Inr x) \<Longrightarrow> traverse f (map g xs) = Inr xs"
  using traverse_Inr_map [of xs "f \<circ> g" "\<lambda>x. x"] by (simp add: traverse_map)

lemma require_all_ok [split_result]:
  "require_all parts = Inr u \<longleftrightarrow> (\<forall>(v, f) \<in> set parts. strip v \<noteq> [])"
  by (auto simp: require_all_def split_result)

definition wf_attribute :: "CollibraAttributeSpec \<Rightarrow> bool" where
  "wf_attribute a \<longleftrightarrow> strip (at_attribute_type_ref a) \<noteq> []"

definition wf_asset :: "CollibraAssetSpec \<Rightarrow> bool" where
  "wf_asset a \<longleftrightarrow> mk_asset a = Inr a \<and> list_all wf_attribute (as_attributes a)"

definition wf_relationship_spec :: "CollibraRelationshipSpec \<Rightarrow> bool" where
  "wf_relationship_spec r \<longleftrightarrow> mk_relationship_spec r = Inr r"

definition wf_sync_action :: "SyncAction \<Rightarrow> bool" where
  "wf_sync_action a \<longleftrightarrow> mk_sync_action a = Inr a \<and>
     (case sa_desired_asset a of None \<Rightarrow> True | Some d \<Rightarrow> wf_asset d) \<and>
     (case sa_desired_relationship a of None \<Rightarrow> True | Some r \<Rightarrow> wf_relationship_spec r)"

definition wf_sync_plan :: "SyncPlan \<Rightarrow> bool" where
  "wf_sync_plan p \<longleftrightarrow> list_all wf_sync_action (sp_actions p) \<and> sorted (map sync_action_sort_key (sp_actions p))"

lemma record_eta [simp]:
  "\<lparr>as_local_id = as_local_id d, as_name = as_name d, as_asset_type_ref = as_asset_type_ref d,
     as_domain_ref = as_domain_ref d, as_display_name = as_display_name d, as_attributes = as_attributes d\<rparr> = d"
  "\<lparr>rs_local_key = rs_local_key r, rs_source_local_id = rs_source_local_id r,
     rs_target_local_id = rs_target_local_id r, rs_relation_type_ref = rs_relation_type_ref r\<rparr> = r"
  "\<lparr>sa_action_type = sa_action_type a, sa_object_kind = sa_object_kind a, sa_local_id = sa_local_id a,
     sa_remote_id = sa_remote_id a, sa_reason = sa_reason a, sa_desired_asset = sa_desired_asset a,
     sa_desired_relationship = sa_desired_relationship a, sa_changed_fields = sa_changed_fields a\<rparr> = a"
  by simp_all

lemma attribute_roundtrip: "wf_attribute a \<Longrightarrow> attribute_from_dict (attribute_to_dict a) = Inr a"
  by (simp add: attribute_from_dict_def attribute_to_dict_def str_item_def item_def mk_attribute_def wf_attribute_def
      require_all_def require_non_empty_def)

lemma list_item_array:
  "map_of kvs k = Some (JArray vs) \<Longrightarrow> list_item kvs k m = Inr vs"
  by (simp add: list_item_def get_item_def falsy_def Let_def)

lemma opt_item_opt: "map_of kvs k = Some (opt_to_json v) \<Longrightarrow> opt_item kvs k = v"
  by (simp add: opt_item_def get_item_def opt_to_json_def split: option.splits)

lemma asset_roundtrip: "wf_asset a \<Longrightarrow> asset_from_dict (asset_to_dict a) = Inr a"
proof -
  assume a: "wf_asset a"
  then have "traverse attribute_from_dict (map attribute_to_dict (as_attributes a)) = Inr (as_attributes a)"
    by (intro traverse_map_inverse attribute_roundtrip) (simp add: wf_asset_def list_all_iff)
  with a show ?thesis
    by (simp add: asset_from_dict_def asset_to_dict_def str_item_def item_def list_item_array opt_item_opt wf_asset_def)
qed

lemma relationship_spec_roundtrip:
  "wf_relationship_spec r \<Longrightarrow> relationship_spec_from_dict (relationship_spec_to_dict r) = Inr r"
  by (simp add: relationship_spec_from_dict_def relationship_spec_to_dict_def str_item_def item_def wf_relationship_spec_def)

lemma action_type_roundtrip:
  "parse_action_type (JStr (action_type_value t)) = Inr t" "action_type_value t \<noteq> ''delete''"
  by (cases t; simp add: parse_action_type_def)+

lemma object_kind_roundtrip: "parse_object_kind (JStr (object_kind_value k)) = Inr k"
  by (cases k; simp add: parse_object_kind_def)

lemma asset_to_dict_object: "asset_to_dict d \<noteq> JNull" "relationship_spec_to_dict r \<noteq> JNull"
  by (simp_all add: asset_to_dict_def relationship_spec_to_dict_def)

lemma opt_from_dict_object: "v \<noteq> JNull \<Longrightarrow> opt_from_dict f v = try_in (f v) (\<lambda>x. Inr (Some x))"
  by (cases v) (simp_all add: opt_from_dict_def)

lemma opt_from_dict_option:
  assumes "\<And>d. v = Some d \<Longrightarrow> f (g d) = Inr d" "\<And>d. g d \<noteq> JNull"
  shows "opt_from_dict f (case v of None \<Rightarrow> JNull | Some d \<Rightarrow> g d) = Inr v"
  using assms by (cases v) (simp_all add: opt_from_dict_object, simp add: opt_from_dict_def)

lemma action_roundtrip: "wf_sync_action a \<Longrightarrow> action_from_dict (action_to_dict a) = Inr a"
proof -
  assume a: "wf_sync_action a"
  have d: "opt_from_dict asset_from_dict (case sa_desired_asset a of None \<Rightarrow> JNull | Some d \<Rightarrow> asset_to_dict d) =
      Inr (sa_desired_asset a)"
    using a asset_to_dict_object(1) by (intro opt_from_dict_option asset_roundtrip) (simp_all add: wf_sync_action_def)
  have r: "opt_from_dict relationship_spec_from_dict
      (case sa_desired_relationship a of None \<Rightarrow> JNull | Some d \<Rightarrow> relationship_spec_to_dict d) = Inr (sa_desired_relationship a)"
    using a asset_to_dict_object(2)
    by (intro opt_from_dict_option relationship_spec_roundtrip) (simp_all add: wf_sync_action_def)
  have o1: "opt_item kvs ''reason'' = Some (sa_reason a)" if "map_of kvs ''reason'' = Some (JStr (sa_reason a))" for kvs
    using that by (simp add: opt_item_def get_item_def)
  show ?thesis
    using a by (simp add: action_from_dict_def action_to_dict_def get_item_def [of _ "''action_type''"]
        get_item_def [of _ "''object_kind''"] get_item_def [of _ "''desired_asset''"]
        get_item_def [of _ "''desired_relationship''"] action_type_roundtrip object_kind_roundtrip
        list_item_array opt_item_opt o1 or_empty_def d r wf_sync_action_def comp_def)
qed

lemma plan_roundtrip: "wf_sync_plan p \<Longrightarrow> plan_from_dict (plan_to_dict p) = Inr p"
proof -
  assume p: "wf_sync_plan p"
  then have "traverse action_from_dict (map action_to_dict (sp_actions p)) = Inr (sp_actions p)"
    by (intro traverse_map_inverse action_roundtrip) (simp add: wf_sync_plan_def list_all_iff)
  with p show ?thesis
    by (simp add: plan_from_dict_def plan_to_dict_def get_item_def mk_sync_plan_def wf_sync_plan_def sort_key_id)
qed

lemma mk_sync_action_Inr:
  "mk_sync_action a = Inr b \<Longrightarrow> b = a\<lparr>sa_changed_fields := sort (sa_changed_fields a)\<rparr>"
  unfolding mk_sync_action_def by (simp split: if_split_asm)

lemma mk_sync_action_fixed: "mk_sync_action a = Inr b \<Longrightarrow> mk_sync_action b = Inr b"
  using mk_sync_action_Inr [of a b] by (simp add: mk_sync_action_def sort_key_id split: if_split_asm)

text \<open>Every parsed plan is well-formed, so that reading a saved plan and saving it again changes nothing
  any more.\<close>

lemma mk_asset_fixed: "mk_asset a = Inr b \<Longrightarrow> mk_asset b = Inr b \<and> set (as_attributes b) = set (as_attributes a)"
  by (auto simp: mk_asset_def split_result sort_key_id split: if_splits)

lemma attribute_from_dict_wf: "attribute_from_dict v = Inr a \<Longrightarrow> wf_attribute a"
  by (auto simp: attribute_from_dict_def mk_attribute_def wf_attribute_def split_result split: json.splits)

lemma traverse_all: "traverse f xs = Inr ys \<Longrightarrow> (\<And>x y. f x = Inr y \<Longrightarrow> P y) \<Longrightarrow> list_all P ys"
  by (induction xs arbitrary: ys) (auto simp: split_result)

lemma asset_from_dict_wf: "asset_from_dict v = Inr a \<Longrightarrow> wf_asset a"
proof -
  assume "asset_from_dict v = Inr a"
  then obtain raw ats b where *: "traverse attribute_from_dict raw = Inr ats" "mk_asset b = Inr a" "as_attributes b = ats"
    by (cases v) (auto simp: asset_from_dict_def split_result)
  show ?thesis using mk_asset_fixed [OF *(2)] *(3) traverse_all [OF *(1) attribute_from_dict_wf]
    by (simp add: wf_asset_def list_all_iff)
qed

lemma relationship_spec_from_dict_wf: "relationship_spec_from_dict v = Inr r \<Longrightarrow> wf_relationship_spec r"
  by (auto simp: relationship_spec_from_dict_def wf_relationship_spec_def mk_relationship_spec_def split_result
      split: json.splits)

lemma opt_from_dict_wf:
  "opt_from_dict f v = Inr r \<Longrightarrow> (\<And>v x. f v = Inr x \<Longrightarrow> P x) \<Longrightarrow> (case r of None \<Rightarrow> True | Some x \<Rightarrow> P x)"
  by (cases v) (auto simp: opt_from_dict_def split_result)

lemma action_from_dict_wf: "action_from_dict v = Inr a \<Longrightarrow> wf_sync_action a"
proof -
  assume "action_from_dict v = Inr a"
  then obtain kvs b where *: "v = JObject kvs" "mk_sync_action b = Inr a"
    "opt_from_dict asset_from_dict (get_item kvs ''desired_asset'') = Inr (sa_desired_asset b)"
    "opt_from_dict relationship_spec_from_dict (get_item kvs ''desired_relationship'') = Inr (sa_desired_relationship b)"
    by (cases v) (auto simp: action_from_dict_def split_result Let_def split: if_split_asm)
  show ?thesis
    using mk_sync_action_fixed [OF *(2)] opt_from_dict_wf [OF *(3) asset_from_dict_wf]
      opt_from_dict_wf [OF *(4) relationship_spec_from_dict_wf]
    by (simp add: wf_sync_action_def mk_sync_action_Inr [OF *(2)])
qed

lemma plan_from_dict_wf: "plan_from_dict v = Inr p \<Longrightarrow> wf_sync_plan p"
proof -
  assume "plan_from_dict v = Inr p"
  then obtain raw acts where *: "traverse action_from_dict raw = Inr acts" "p = mk_sync_plan acts"
    by (cases v) (auto simp: plan_from_dict_def split_result split: json.splits)
  show ?thesis using traverse_all [OF *(1) action_from_dict_wf] *(2) by (simp add: wf_sync_plan_def mk_sync_plan_def)
qed

text \<open>A saved plan loads to what was saved. For every well-formed plan (its actions accepted
  by the constructors, and in plan order) \<open>from_dict\<close> of its \<open>to_dict\<close> is that plan; and every plan that
  \<open>from_dict\<close> accepts from any JSON (unsorted actions, values that are not strings, absent optional
  fields) is well-formed, so that one load and save reaches the fixed form.
\<close>

theorem saved_plan_roundtrip:
  assumes "wf_sync_plan p \<or> plan_from_dict v = Inr p"
  shows "wf_sync_plan p \<and> plan_from_dict (plan_to_dict p) = Inr p"
  using assms plan_roundtrip plan_from_dict_wf by blast

theorem saved_plan_roundtrip_witness:
  "\<exists>p. sp_actions p \<noteq> [] \<and> wf_sync_plan p \<and> plan_from_dict (plan_to_dict p) = Inr p"
proof -
  let ?p = "\<lparr>sp_actions = [
    \<lparr>sa_action_type = CREATE, sa_object_kind = ASSET, sa_local_id = Some ''db:a/b'', sa_remote_id = None, sa_reason = ''new'',
     sa_desired_asset = Some \<lparr>as_local_id = ''db:a/b'', as_name = ''b'', as_asset_type_ref = ''t'', as_domain_ref = ''d'',
       as_display_name = None, as_attributes = [\<lparr>at_attribute_type_ref = ''x'', at_value = ''1''\<rparr>]\<rparr>,
     sa_desired_relationship = None, sa_changed_fields = []\<rparr>,
    \<lparr>sa_action_type = REMOTE_ONLY, sa_object_kind = RELATIONSHIP, sa_local_id = None, sa_remote_id = Some ''7'',
     sa_reason = ''old'', sa_desired_asset = None, sa_desired_relationship = None, sa_changed_fields = []\<rparr>]\<rparr>"
  have "wf_sync_plan ?p" by code_simp
  then have "wf_sync_plan ?p \<and> plan_from_dict (plan_to_dict ?p) = Inr ?p" by (rule saved_plan_roundtrip [OF disjI1])
  then show ?thesis by (intro exI [of _ ?p]) simp
qed

text \<open>A saved plan with a delete action never loads: an action object whose type is ''delete'' is
  refused with its own message, and a plan whose \<open>actions\<close> array holds such an object raises, whatever
  the other actions are.
\<close>

theorem delete_actions_refused:
  assumes "get_item kvs ''actions'' = JArray raw" "JObject action \<in> set raw"
    "get_item action ''action_type'' = JStr ''delete''"
  shows "action_from_dict (JObject action) = Inl (ValueError ''DELETE actions are unsupported'') \<and>
     isl (plan_from_dict (JObject kvs))"
proof -
  have *: "action_from_dict (JObject action) = Inl (ValueError ''DELETE actions are unsupported'')"
    using assms(3) by (simp add: action_from_dict_def)
  with assms(1,2) show ?thesis
    by (cases "traverse action_from_dict raw")
      (auto simp: plan_from_dict_def traverse_Inr_iff list_all2_conv_all_nth in_set_conv_nth)
qed

theorem delete_actions_refused_witness:
  "isl (plan_from_dict (JObject [(''actions'', JArray [JObject [(''action_type'', JStr ''delete'')]])]))"
  by (rule delete_actions_refused [where raw = "[JObject [(''action_type'', JStr ''delete'')]]"
        and action = "[(''action_type'', JStr ''delete'')]", THEN conjunct2]) (simp_all add: get_item_def)

end
