(* ===== verification/Collibra_Mapping.thy ===== *)
theory Collibra_Mapping
  imports Collibra
begin

text \<open>
  \<open>integrations/collibra/mapping.py\<close>: the mapping configuration and the translation of a physical
  model into the desired Collibra state. The lists \<open>assets\<close> and \<open>relationships\<close> and the set
  \<open>asset_ids\<close> that the functions of the file extend in place are the record \<open>mapping_state\<close>.
\<close>

section \<open>Configuration\<close>

definition ASSET_TYPE_KEYS :: "string list" where
  "ASSET_TYPE_KEYS = [''database'', ''schema'', ''table'', ''column'']"

definition RELATION_TYPE_KEYS :: "string list" where
  "RELATION_TYPE_KEYS = [''database_schema'', ''schema_table'', ''table_column'', ''table_fk'']"

definition ATTRIBUTE_TYPE_KEYS :: "string list" where
  "ATTRIBUTE_TYPE_KEYS = [''local_id'', ''description'', ''owner'', ''data_type'', ''nullable'', ''ordinal_position'']"

record CollibraMappingConfig =
  mc_domain_ref :: string
  mc_asset_type_refs :: "(string, string) dict"
  mc_relation_type_refs :: "(string, string) dict"
  mc_attribute_type_refs :: "(string, string) dict"

definition validate_ref :: "string \<Rightarrow> (string \<times> json) list \<Rightarrow> string \<Rightarrow> (string \<times> string) result" where
  "validate_ref field_name kvs key =
     (case get_item kvs key of
        JStr value \<Rightarrow> if strip value = [] then Inl (MappingError (field_name @ ''['' @ repr_str key @ ''] must be a non-empty string''))
          else Inr (key, value)
      | _ \<Rightarrow> Inl (MappingError (field_name @ ''['' @ repr_str key @ ''] must be a non-empty string'')))"

definition validate_ref_map :: "json \<Rightarrow> string list \<Rightarrow> string \<Rightarrow> (string, string) dict result" where
  "validate_ref_map refs required_keys field_name =
     (case refs of
        JObject kvs \<Rightarrow>
          (let missing = filter (\<lambda>key. map_of kvs key = None) required_keys in
           if missing \<noteq> [] then Inl (MappingError (field_name @ '' missing required keys: '' @ join '', '' missing))
           else try_in (traverse (validate_ref field_name kvs) required_keys) (\<lambda>kvs. Inr (dict_of kvs)))
      | _ \<Rightarrow> Inl (MappingError (field_name @ '' must be a mapping'')))"

definition mk_mapping_config :: "json \<Rightarrow> json \<Rightarrow> json \<Rightarrow> json \<Rightarrow> CollibraMappingConfig result" where
  "mk_mapping_config domain_ref asset_type_refs relation_type_refs attribute_type_refs =
     (case domain_ref of
        JStr d \<Rightarrow>
          if strip d = [] then Inl (MappingError ''domain_ref is required'')
          else try_in (validate_ref_map asset_type_refs ASSET_TYPE_KEYS ''asset_type_refs'') (\<lambda>assets.
               try_in (validate_ref_map relation_type_refs RELATION_TYPE_KEYS ''relation_type_refs'') (\<lambda>relations.
               try_in (validate_ref_map attribute_type_refs ATTRIBUTE_TYPE_KEYS ''attribute_type_refs'') (\<lambda>attributes.
                 Inr \<lparr>mc_domain_ref = d, mc_asset_type_refs = assets, mc_relation_type_refs = relations,
                   mc_attribute_type_refs = attributes\<rparr>)))
      | _ \<Rightarrow> Inl (MappingError ''domain_ref is required''))"

definition refs_dict :: "(string, string) dict \<Rightarrow> json" where
  "refs_dict d = JObject (map (\<lambda>(k, v). (k, JStr v)) (sort_key fst d))"

definition config_identity_dict :: "CollibraMappingConfig \<Rightarrow> json" where
  "config_identity_dict c = JObject [(''attribute_type_refs'', refs_dict (mc_attribute_type_refs c)),
     (''asset_type_refs'', refs_dict (mc_asset_type_refs c)), (''domain_ref'', JStr (mc_domain_ref c)),
     (''relation_type_refs'', refs_dict (mc_relation_type_refs c))]"

definition mock_mapping_config :: "CollibraMappingConfig result" where
  "mock_mapping_config = mk_mapping_config (JStr ''mock:domain:governance'')
     (JObject [(''database'', JStr ''mock:asset-type:database''), (''schema'', JStr ''mock:asset-type:schema''),
       (''table'', JStr ''mock:asset-type:table''), (''column'', JStr ''mock:asset-type:column'')])
     (JObject [(''database_schema'', JStr ''mock:relation-type:database-schema''),
       (''schema_table'', JStr ''mock:relation-type:schema-table''),
       (''table_column'', JStr ''mock:relation-type:table-column''), (''table_fk'', JStr ''mock:relation-type:table-fk'')])
     (JObject [(''local_id'', JStr ''mock:attribute-type:local-id''),
       (''description'', JStr ''mock:attribute-type:description''), (''owner'', JStr ''mock:attribute-type:owner''),
       (''data_type'', JStr ''mock:attribute-type:data-type''), (''nullable'', JStr ''mock:attribute-type:nullable''),
       (''ordinal_position'', JStr ''mock:attribute-type:ordinal-position'')])"

text \<open>\<open>load_mapping_config_file\<close> after \<open>json.loads\<close>; None stands for a text that is not JSON or cannot be read.\<close>

definition load_mapping_config :: "json option \<Rightarrow> CollibraMappingConfig result" where
  "load_mapping_config payload =
     (case payload of
        Some (JObject kvs) \<Rightarrow>
          (case (map_of kvs ''domain_ref'', map_of kvs ''asset_type_refs'', map_of kvs ''relation_type_refs'',
                 map_of kvs ''attribute_type_refs'') of
             (Some d, Some a, Some r, Some t) \<Rightarrow> mk_mapping_config d a r t
           | _ \<Rightarrow> Inl (MappingError ''invalid Collibra mapping configuration''))
      | _ \<Rightarrow> Inl (MappingError ''invalid Collibra mapping configuration''))"

text \<open>\<open>re.compile(r"<[^>]+>").search(value)\<close>: a \<open><\<close>, at least one other character than \<open>>\<close>, and a \<open>>\<close>.\<close>

fun has_placeholder :: "string \<Rightarrow> bool" where
  "has_placeholder [] = False"
| "has_placeholder (c # cs) =
     (if c = CHR ''<'' \<and> takeWhile (\<lambda>x. x \<noteq> CHR ''>'') cs \<noteq> [] \<and> CHR ''>'' \<in> set cs then True else has_placeholder cs)"

definition mapping_contains_example_placeholders :: "CollibraMappingConfig \<Rightarrow> bool" where
  "mapping_contains_example_placeholders c = list_ex has_placeholder
     (mc_domain_ref c # vals (mc_asset_type_refs c) @ vals (mc_relation_type_refs c) @ vals (mc_attribute_type_refs c))"

text \<open>\<open>config.asset_type_refs[key]\<close>\<close>

definition ref :: "(string, string) dict \<Rightarrow> string \<Rightarrow> string result" where
  "ref d key = (case map_of d key of None \<Rightarrow> Inl (KeyError key) | Some v \<Rightarrow> Inr v)"

section \<open>Translation\<close>

record mapping_state =
  ms_assets :: "CollibraAssetSpec list"
  ms_relationships :: "CollibraRelationshipSpec list"
  ms_asset_ids :: "string set"

definition add_asset :: "mapping_state \<Rightarrow> CollibraAssetSpec \<Rightarrow> mapping_state result" where
  "add_asset s asset =
     (if as_local_id asset \<in> ms_asset_ids s then Inl (MappingError (''duplicate local asset ID: '' @ as_local_id asset))
      else Inr (s\<lparr>ms_asset_ids := insert (as_local_id asset) (ms_asset_ids s), ms_assets := ms_assets s @ [asset]\<rparr>))"

definition add_relationship :: "mapping_state \<Rightarrow> CollibraRelationshipSpec \<Rightarrow> mapping_state result" where
  "add_relationship s r = try_in (mk_relationship_spec r) (\<lambda>r. Inr (s\<lparr>ms_relationships := ms_relationships s @ [r]\<rparr>))"

definition config_attribute :: "CollibraMappingConfig \<Rightarrow> string \<Rightarrow> string \<Rightarrow> CollibraAttributeSpec result" where
  "config_attribute config key value = try_in (ref (mc_attribute_type_refs config) key) (\<lambda>t. mk_attribute t value)"

definition common_attributes ::
  "CollibraMappingConfig \<Rightarrow> string \<Rightarrow> json \<Rightarrow> Ownership option \<Rightarrow> CollibraAttributeSpec list result" where
  "common_attributes config local_id description ownership =
     try_in (config_attribute config ''local_id'' local_id) (\<lambda>a.
     try_in (case description of
         JNull \<Rightarrow> Inr []
       | JStr d \<Rightarrow> if strip d = [] then Inr []
           else try_in (config_attribute config ''description'' d) (\<lambda>x. Inr [x])
       | _ \<Rightarrow> Inl AttributeError) (\<lambda>ds.
     try_in (case ownership of
         None \<Rightarrow> Inr []
       | Some w \<Rightarrow> try_in (config_attribute config ''owner'' (ow_owner_name w)) (\<lambda>x. Inr [x])) (\<lambda>ws.
       Inr (a # ds @ ws))))"

definition contains_key :: "string \<Rightarrow> string \<Rightarrow> string" where
  "contains_key parent child = ''rel:contains:'' @ parent @ ''->'' @ child"

definition map_asset ::
  "CollibraMappingConfig \<Rightarrow> string \<Rightarrow> string \<Rightarrow> string \<Rightarrow> string \<Rightarrow> CollibraAttributeSpec list result \<Rightarrow>
   mapping_state \<Rightarrow> mapping_state result" where
  "map_asset config kind local_id name display_name attributes s =
     try_in (ref (mc_asset_type_refs config) kind) (\<lambda>asset_type_ref.
     try_in attributes (\<lambda>attributes.
     try_in (mk_asset \<lparr>as_local_id = local_id, as_name = name, as_asset_type_ref = asset_type_ref,
         as_domain_ref = mc_domain_ref config, as_display_name = Some display_name, as_attributes = attributes\<rparr>)
       (add_asset s)))"

definition map_contains ::
  "CollibraMappingConfig \<Rightarrow> string \<Rightarrow> string \<Rightarrow> string \<Rightarrow> mapping_state \<Rightarrow> mapping_state result" where
  "map_contains config kind parent child s =
     try_in (ref (mc_relation_type_refs config) kind) (\<lambda>relation_type_ref.
       add_relationship s \<lparr>rs_local_key = contains_key parent child, rs_source_local_id = parent,
         rs_target_local_id = child, rs_relation_type_ref = relation_type_ref\<rparr>)"

definition bool_text :: "bool \<Rightarrow> string" where
  "bool_text b = (if b then ''true'' else ''false'')"

definition map_column :: "CollibraMappingConfig \<Rightarrow> string \<Rightarrow> string \<Rightarrow> Table \<Rightarrow> mapping_state \<Rightarrow> Column \<Rightarrow> mapping_state result" where
  "map_column config database_name schema_name table s column =
     try_in (common_attributes config (c_id column) (c_description column) None) (\<lambda>attributes.
     try_in (config_attribute config ''data_type'' (c_data_type column)) (\<lambda>data_type.
     try_in (config_attribute config ''nullable'' (bool_text (c_nullable column))) (\<lambda>nullable.
     try_in (config_attribute config ''ordinal_position'' (str_int (c_ordinal_position column))) (\<lambda>ordinal.
     try_in (map_asset config ''column'' (c_id column)
         (join ''.'' [database_name, schema_name, t_name table, c_name column]) (c_name column)
         (Inr (attributes @ [data_type, nullable, ordinal])) s)
       (map_contains config ''table_column'' (t_id table) (c_id column))))))"

definition map_table :: "CollibraMappingConfig \<Rightarrow> Database \<Rightarrow> Schema \<Rightarrow> mapping_state \<Rightarrow> Table \<Rightarrow> mapping_state result" where
  "map_table config database schema s table =
     try_in (map_asset config ''table'' (t_id table) (join ''.'' [db_name database, sc_name schema, t_name table])
         (t_name table) (common_attributes config (t_id table) (t_description table) (t_ownership table)) s) (\<lambda>s.
     try_in (map_contains config ''schema_table'' (sc_id schema) (t_id table) s) (\<lambda>s.
       fold_in (map_column config (db_name database) (sc_name schema) table) s (t_columns table)))"

definition map_schema :: "CollibraMappingConfig \<Rightarrow> Database \<Rightarrow> mapping_state \<Rightarrow> Schema \<Rightarrow> mapping_state result" where
  "map_schema config database s schema =
     try_in (map_asset config ''schema'' (sc_id schema) (join ''.'' [db_name database, sc_name schema])
         (sc_name schema) (common_attributes config (sc_id schema) (sc_description schema) (sc_ownership schema)) s) (\<lambda>s.
     try_in (map_contains config ''database_schema'' (db_id database) (sc_id schema) s) (\<lambda>s.
       fold_in (map_table config database schema) s (sc_tables schema)))"

definition map_database :: "CollibraMappingConfig \<Rightarrow> mapping_state \<Rightarrow> Database \<Rightarrow> mapping_state result" where
  "map_database config s database =
     try_in (map_asset config ''database'' (db_id database) (db_name database) (db_name database)
         (common_attributes config (db_id database) (db_description database) (db_ownership database)) s) (\<lambda>s.
       fold_in (map_schema config database) s (db_schemas database))"

definition map_foreign_key :: "CollibraMappingConfig \<Rightarrow> mapping_state \<Rightarrow> Relationship \<Rightarrow> mapping_state result" where
  "map_foreign_key config s r =
     (if rl_from_table_id r \<notin> ms_asset_ids s
      then Inl (MappingError (''relationship source asset missing: '' @ rl_from_table_id r))
      else if rl_to_table_id r \<notin> ms_asset_ids s
      then Inl (MappingError (''relationship target asset missing: '' @ rl_to_table_id r))
      else try_in (ref (mc_relation_type_refs config) ''table_fk'') (\<lambda>relation_type_ref.
        add_relationship s \<lparr>rs_local_key = rl_id r, rs_source_local_id = rl_from_table_id r,
          rs_target_local_id = rl_to_table_id r, rs_relation_type_ref = relation_type_ref\<rparr>))"

definition assert_unique_relationship_keys :: "CollibraRelationshipSpec list \<Rightarrow> string set result" where
  "assert_unique_relationship_keys relationships = fold_in (\<lambda>seen r.
     if rs_local_key r \<in> seen then Inl (MappingError (''duplicate relationship key: '' @ rs_local_key r))
     else Inr (insert (rs_local_key r) seen)) {} relationships"

definition map_to_desired_state :: "GovernanceModel \<Rightarrow> CollibraMappingConfig \<Rightarrow> CollibraDesiredState result" where
  "map_to_desired_state model config =
     try_in (fold_in (\<lambda>s data_source. fold_in (map_database config) s (ds_databases data_source))
         \<lparr>ms_assets = [], ms_relationships = [], ms_asset_ids = {}\<rparr> (gm_data_sources model)) (\<lambda>s.
     try_in (fold_in (map_foreign_key config) s (gm_relationships model)) (\<lambda>s.
     try_in (assert_unique_relationship_keys (ms_relationships s)) (\<lambda>_.
       Inr (mk_desired_state (ms_assets s) (ms_relationships s)))))"

section \<open>The accepted configurations\<close>

definition refs_ok :: "string list \<Rightarrow> (string, string) dict \<Rightarrow> bool" where
  "refs_ok required d \<longleftrightarrow> list_all (\<lambda>k. case map_of d k of None \<Rightarrow> False | Some v \<Rightarrow> strip v \<noteq> []) required"

definition config_ok :: "CollibraMappingConfig \<Rightarrow> bool" where
  "config_ok c \<longleftrightarrow> strip (mc_domain_ref c) \<noteq> [] \<and> refs_ok ASSET_TYPE_KEYS (mc_asset_type_refs c) \<and>
     refs_ok RELATION_TYPE_KEYS (mc_relation_type_refs c) \<and> refs_ok ATTRIBUTE_TYPE_KEYS (mc_attribute_type_refs c)"

lemma validate_ref_map_ok:
  assumes "validate_ref_map refs required name = Inr d"
  shows "refs_ok required d \<and> set (keys d) = set required"
proof -
  obtain kvs out where *: "traverse (validate_ref name kvs) required = Inr out" "d = dict_of out"
    using assms by (auto simp: validate_ref_map_def split_result Let_def split: json.splits if_splits)
  have step: "fst p = k \<and> strip (snd p) \<noteq> []" if "validate_ref name kvs k = Inr p" for k p
    using that by (auto simp: validate_ref_def split: json.splits if_splits)
  have keys: "keys out = required"
    using *(1) unfolding traverse_Inr_iff by (rule list_all2_map_eq) (use step in blast)
  have "strip v \<noteq> []" if mem: "(k, v) \<in> set out" for k v
  proof -
    obtain i where "i < length out" "out ! i = (k, v)" using mem by (auto simp: in_set_conv_nth)
    then have "validate_ref name kvs (required ! i) = Inr (k, v)"
      using *(1) by (auto simp: traverse_Inr_iff list_all2_conv_all_nth)
    then show ?thesis using step by fastforce
  qed
  moreover have "\<exists>v. map_of (rev out) k = Some v \<and> (k, v) \<in> set out" if "k \<in> set required" for k
  proof -
    have "map_of (rev out) k \<noteq> None" using that keys [symmetric] by (simp add: map_of_eq_None_iff)
    then show ?thesis using map_of_SomeD [of "rev out" k] by auto
  qed
  ultimately have "refs_ok required d"
    unfolding refs_ok_def list_all_iff *(2) map_of_dict_of by fastforce
  then show ?thesis using keys by (simp add: *(2) keys_dict_of)
qed

lemma mk_mapping_config_ok: "mk_mapping_config d a r t = Inr c \<Longrightarrow> config_ok c"
  by (auto simp: mk_mapping_config_def config_ok_def split_result validate_ref_map_ok split: json.splits if_splits)

definition the_ref :: "(string, string) dict \<Rightarrow> string \<Rightarrow> string" where
  "the_ref d k = (case map_of d k of None \<Rightarrow> [] | Some v \<Rightarrow> v)"

lemma ref_ok: "refs_ok required d \<Longrightarrow> k \<in> set required \<Longrightarrow> ref d k = Inr (the_ref d k) \<and> strip (the_ref d k) \<noteq> []"
  by (auto simp: refs_ok_def list_all_iff ref_def the_ref_def split: option.splits)

section \<open>What a model translates to\<close>

text \<open>The assets and relationships of a model, written without checks and without state.\<close>

definition attribute_spec :: "CollibraMappingConfig \<Rightarrow> string \<Rightarrow> string \<Rightarrow> CollibraAttributeSpec" where
  "attribute_spec cfg key value = \<lparr>at_attribute_type_ref = the_ref (mc_attribute_type_refs cfg) key, at_value = value\<rparr>"

definition common_spec :: "CollibraMappingConfig \<Rightarrow> string \<Rightarrow> json \<Rightarrow> Ownership option \<Rightarrow> CollibraAttributeSpec list" where
  "common_spec cfg i description ownership = attribute_spec cfg ''local_id'' i #
     (case description of JStr d \<Rightarrow> if strip d = [] then [] else [attribute_spec cfg ''description'' d] | _ \<Rightarrow> []) @
     (case ownership of Some w \<Rightarrow> [attribute_spec cfg ''owner'' (ow_owner_name w)] | None \<Rightarrow> [])"

definition asset_spec ::
  "CollibraMappingConfig \<Rightarrow> string \<Rightarrow> string \<Rightarrow> string list \<Rightarrow> string \<Rightarrow> CollibraAttributeSpec list \<Rightarrow> CollibraAssetSpec" where
  "asset_spec cfg kind i path display attributes =
     \<lparr>as_local_id = i, as_name = join ''.'' path, as_asset_type_ref = the_ref (mc_asset_type_refs cfg) kind,
      as_domain_ref = mc_domain_ref cfg, as_display_name = Some display,
      as_attributes = sort_key at_attribute_type_ref attributes\<rparr>"

definition contains_spec :: "CollibraMappingConfig \<Rightarrow> string \<Rightarrow> string \<Rightarrow> string \<Rightarrow> CollibraRelationshipSpec" where
  "contains_spec cfg kind parent child = \<lparr>rs_local_key = contains_key parent child, rs_source_local_id = parent,
     rs_target_local_id = child, rs_relation_type_ref = the_ref (mc_relation_type_refs cfg) kind\<rparr>"

definition column_asset :: "CollibraMappingConfig \<Rightarrow> string \<Rightarrow> string \<Rightarrow> Table \<Rightarrow> Column \<Rightarrow> CollibraAssetSpec" where
  "column_asset cfg db sc t c = asset_spec cfg ''column'' (c_id c) [db, sc, t_name t, c_name c] (c_name c)
     (common_spec cfg (c_id c) (c_description c) None @ [attribute_spec cfg ''data_type'' (c_data_type c),
       attribute_spec cfg ''nullable'' (bool_text (c_nullable c)),
       attribute_spec cfg ''ordinal_position'' (str_int (c_ordinal_position c))])"

definition table_assets :: "CollibraMappingConfig \<Rightarrow> Database \<Rightarrow> Schema \<Rightarrow> Table \<Rightarrow> CollibraAssetSpec list" where
  "table_assets cfg db sc t =
     asset_spec cfg ''table'' (t_id t) [db_name db, sc_name sc, t_name t] (t_name t)
       (common_spec cfg (t_id t) (t_description t) (t_ownership t)) #
     map (column_asset cfg (db_name db) (sc_name sc) t) (t_columns t)"

definition schema_assets :: "CollibraMappingConfig \<Rightarrow> Database \<Rightarrow> Schema \<Rightarrow> CollibraAssetSpec list" where
  "schema_assets cfg db sc =
     asset_spec cfg ''schema'' (sc_id sc) [db_name db, sc_name sc] (sc_name sc)
       (common_spec cfg (sc_id sc) (sc_description sc) (sc_ownership sc)) #
     concat (map (table_assets cfg db sc) (sc_tables sc))"

definition database_assets :: "CollibraMappingConfig \<Rightarrow> Database \<Rightarrow> CollibraAssetSpec list" where
  "database_assets cfg db =
     asset_spec cfg ''database'' (db_id db) [db_name db] (db_name db)
       (common_spec cfg (db_id db) (db_description db) (db_ownership db)) #
     concat (map (schema_assets cfg db) (db_schemas db))"

definition model_assets :: "CollibraMappingConfig \<Rightarrow> GovernanceModel \<Rightarrow> CollibraAssetSpec list" where
  "model_assets cfg m = concat (map (\<lambda>ds. concat (map (database_assets cfg) (ds_databases ds))) (gm_data_sources m))"

definition table_rels :: "CollibraMappingConfig \<Rightarrow> Schema \<Rightarrow> Table \<Rightarrow> CollibraRelationshipSpec list" where
  "table_rels cfg sc t = contains_spec cfg ''schema_table'' (sc_id sc) (t_id t) #
     map (\<lambda>c. contains_spec cfg ''table_column'' (t_id t) (c_id c)) (t_columns t)"

definition schema_rels :: "CollibraMappingConfig \<Rightarrow> Database \<Rightarrow> Schema \<Rightarrow> CollibraRelationshipSpec list" where
  "schema_rels cfg db sc = contains_spec cfg ''database_schema'' (db_id db) (sc_id sc) #
     concat (map (table_rels cfg sc) (sc_tables sc))"

definition model_rels :: "CollibraMappingConfig \<Rightarrow> GovernanceModel \<Rightarrow> CollibraRelationshipSpec list" where
  "model_rels cfg m =
     concat (map (\<lambda>ds. concat (map (\<lambda>db. concat (map (schema_rels cfg db) (db_schemas db))) (ds_databases ds)))
       (gm_data_sources m)) @
     map (\<lambda>r. \<lparr>rs_local_key = rl_id r, rs_source_local_id = rl_from_table_id r, rs_target_local_id = rl_to_table_id r,
       rs_relation_type_ref = the_ref (mc_relation_type_refs cfg) ''table_fk''\<rparr>) (gm_relationships m)"

text \<open>A model all of whose objects came out of their constructors, with descriptions that are strings or
  absent (\<open>strip\<close> raises on any other value).\<close>

definition text_description :: "json \<Rightarrow> bool" where
  "text_description d \<longleftrightarrow> (case d of JNull \<Rightarrow> True | JStr _ \<Rightarrow> True | _ \<Rightarrow> False)"

definition built_table :: "Table \<Rightarrow> bool" where
  "built_table t \<longleftrightarrow> mk_table t = Inr t \<and> text_description (t_description t) \<and>
     list_all (\<lambda>c. mk_column c = Inr c \<and> text_description (c_description c)) (t_columns t)"

definition built_schema :: "Schema \<Rightarrow> bool" where
  "built_schema s \<longleftrightarrow> mk_schema s = Inr s \<and> text_description (sc_description s) \<and> list_all built_table (sc_tables s)"

definition built_database :: "Database \<Rightarrow> bool" where
  "built_database d \<longleftrightarrow> mk_database d = Inr d \<and> text_description (db_description d) \<and> list_all built_schema (db_schemas d)"

definition built_model :: "GovernanceModel \<Rightarrow> bool" where
  "built_model m \<longleftrightarrow> mk_governance_model (gm_data_sources m) (gm_relationships m) = Inr m \<and>
     list_all (\<lambda>ds. mk_data_source ds = Inr ds \<and> list_all built_database (ds_databases ds)) (gm_data_sources m) \<and>
     list_all (\<lambda>r. mk_relationship r = Inr r) (gm_relationships m)"

text \<open>A state extended by new assets with new identifiers, and by relationships.\<close>

definition extends ::
  "CollibraAssetSpec list \<Rightarrow> CollibraRelationshipSpec list \<Rightarrow> mapping_state \<Rightarrow> mapping_state \<Rightarrow> bool" where
  "extends assets rels s t \<longleftrightarrow> ms_assets t = ms_assets s @ assets \<and> ms_relationships t = ms_relationships s @ rels \<and>
     ms_asset_ids t = ms_asset_ids s \<union> as_local_id ` set assets \<and>
     distinct (map as_local_id assets) \<and> as_local_id ` set assets \<inter> ms_asset_ids s = {}"

lemma extends_Nil [simp]: "extends [] [] s t \<longleftrightarrow> t = s"
  by (cases s; cases t) (auto simp: extends_def)

lemma extends_append:
  "extends (as @ bs) (rs @ qs) s u \<longleftrightarrow> (\<exists>t. extends as rs s t \<and> extends bs qs t u)"
proof
  assume "extends (as @ bs) (rs @ qs) s u"
  then show "\<exists>t. extends as rs s t \<and> extends bs qs t u"
    by (intro exI [of _ "s\<lparr>ms_assets := ms_assets s @ as, ms_relationships := ms_relationships s @ rs,
      ms_asset_ids := ms_asset_ids s \<union> as_local_id ` set as\<rparr>"]) (auto simp: extends_def)
qed (auto simp: extends_def distinct_append, (metis IntI UnCI empty_iff imageI)?)

lemma fold_in_extends:
  assumes "\<And>x s t. x \<in> set xs \<Longrightarrow> f s x = Inr t \<longleftrightarrow> extends (A x) (R x) s t"
  shows "fold_in f s xs = Inr t \<longleftrightarrow> extends (concat (map A xs)) (concat (map R xs)) s t"
  using assms by (induction xs arbitrary: s) (auto simp: split_result extends_append)

section \<open>The mock configuration and a small model\<close>

definition mock_config :: CollibraMappingConfig where
  "mock_config = \<lparr>mc_domain_ref = ''mock:domain:governance'',
     mc_asset_type_refs = [(''database'', ''mock:asset-type:database''), (''schema'', ''mock:asset-type:schema''),
       (''table'', ''mock:asset-type:table''), (''column'', ''mock:asset-type:column'')],
     mc_relation_type_refs = [(''database_schema'', ''mock:relation-type:database-schema''),
       (''schema_table'', ''mock:relation-type:schema-table''),
       (''table_column'', ''mock:relation-type:table-column''), (''table_fk'', ''mock:relation-type:table-fk'')],
     mc_attribute_type_refs = [(''local_id'', ''mock:attribute-type:local-id''),
       (''description'', ''mock:attribute-type:description''), (''owner'', ''mock:attribute-type:owner''),
       (''data_type'', ''mock:attribute-type:data-type''), (''nullable'', ''mock:attribute-type:nullable''),
       (''ordinal_position'', ''mock:attribute-type:ordinal-position'')]\<rparr>"

lemma mock_mapping_config_value: "mock_mapping_config = Inr mock_config"
  by code_simp

lemmas mock_config_accepted = mock_mapping_config_value [unfolded mock_mapping_config_def]

definition example_model :: GovernanceModel where
  "example_model = \<lparr>gm_data_sources = [\<lparr>ds_id = ''ds:s'', ds_name = ''s'', ds_system_type = ''pg'', ds_databases =
     [\<lparr>db_id = ''db:s/d'', db_name = ''d'', db_datasource_id = ''ds:s'', db_schemas =
       [\<lparr>sc_id = ''sch:s/d/p'', sc_name = ''p'', sc_database_id = ''db:s/d'', sc_tables =
         [\<lparr>t_id = ''tbl:s/d/p/t'', t_name = ''t'', t_schema_id = ''sch:s/d/p'', t_columns =
           [\<lparr>c_id = ''col:s/d/p/t/c'', c_name = ''c'', c_data_type = ''int'', c_ordinal_position = 1, c_nullable = False,
             c_description = JStr ''key'', c_technical_attributes = []\<rparr>],
           t_primary_key = None, t_foreign_keys = [], t_description = JNull,
           t_ownership = Some \<lparr>ow_owner_name = ''ann'', ow_owner_type = ''user''\<rparr>, t_technical_attributes = []\<rparr>],
         sc_description = JNull, sc_ownership = None\<rparr>], db_description = JNull, db_ownership = None\<rparr>],
     ds_description = JNull, ds_ownership = None, ds_technical_attributes = []\<rparr>], gm_relationships = []\<rparr>"

lemma example_model_built: "built_model example_model"
  by code_simp

section \<open>The translation is that list\<close>

lemma dropWhile_spaces: "lstrip s = [] \<longleftrightarrow> (\<forall>c \<in> set s. is_space c)"
  by (simp add: lstrip_def dropWhile_eq_Nil_conv)

lemma strip_Nil_iff: "strip s = [] \<longleftrightarrow> (\<forall>c \<in> set s. is_space c)"
proof
  assume "strip s = []"
  then have "\<forall>c \<in> set (lstrip s). is_space c" by (simp add: strip_def dropWhile_spaces)
  then show "\<forall>c \<in> set s. is_space c"
    unfolding lstrip_def by (metis dropWhile_spaces lstrip_def lstrip_idem)
next
  assume "\<forall>c \<in> set s. is_space c"
  then show "strip s = []" by (simp add: strip_def dropWhile_spaces [THEN iffD2])
qed

lemma not_space [simp]: "\<not> is_space CHR ''.''" "\<not> is_space CHR '':''"
  by code_simp+

lemma config_attribute_ok:
  assumes "config_ok cfg" "key \<in> set ATTRIBUTE_TYPE_KEYS"
  shows "config_attribute cfg key v = Inr (attribute_spec cfg key v)"
  using ref_ok [of ATTRIBUTE_TYPE_KEYS "mc_attribute_type_refs cfg" key] assms
  by (simp add: config_ok_def config_attribute_def attribute_spec_def mk_attribute_def require_all_def require_non_empty_def)

lemma common_attributes_ok:
  "config_ok cfg \<Longrightarrow> text_description d \<Longrightarrow> common_attributes cfg i d w = Inr (common_spec cfg i d w)"
  by (cases d) (simp_all add: common_attributes_def common_spec_def text_description_def config_attribute_ok
      ATTRIBUTE_TYPE_KEYS_def split: option.splits)

lemma add_asset_ok: "add_asset s a = Inr t \<longleftrightarrow> extends [a] [] s t"
  by (cases s; cases t) (auto simp: add_asset_def extends_def)

lemma map_asset_ok:
  assumes "config_ok cfg" "kind \<in> set ASSET_TYPE_KEYS" "strip i \<noteq> []" "strip (join ''.'' path) \<noteq> []" "strip n \<noteq> []"
  shows "map_asset cfg kind i (join ''.'' path) n (Inr ats) s = Inr t \<longleftrightarrow> extends [asset_spec cfg kind i path n ats] [] s t"
proof -
  have "mk_asset \<lparr>as_local_id = i, as_name = join ''.'' path, as_asset_type_ref = the_ref (mc_asset_type_refs cfg) kind,
      as_domain_ref = mc_domain_ref cfg, as_display_name = Some n, as_attributes = ats\<rparr> = Inr (asset_spec cfg kind i path n ats)"
    using ref_ok [of ASSET_TYPE_KEYS "mc_asset_type_refs cfg" kind] assms
    by (simp add: mk_asset_def require_all_def require_non_empty_def config_ok_def asset_spec_def)
  then show ?thesis
    using ref_ok [of ASSET_TYPE_KEYS "mc_asset_type_refs cfg" kind] assms
    by (simp add: map_asset_def config_ok_def add_asset_ok)
qed

lemma add_relationship_ok:
  assumes "strip (rs_local_key r) \<noteq> []" "strip (rs_source_local_id r) \<noteq> []" "strip (rs_target_local_id r) \<noteq> []"
    "strip (rs_relation_type_ref r) \<noteq> []"
  shows "add_relationship s r = Inr t \<longleftrightarrow> extends [] [r] s t"
  using assms by (cases s; cases t)
    (auto simp: add_relationship_def mk_relationship_spec_def require_all_def require_non_empty_def extends_def)

lemma map_contains_ok:
  assumes "config_ok cfg" "kind \<in> set RELATION_TYPE_KEYS" "strip p \<noteq> []" "strip c \<noteq> []"
  shows "map_contains cfg kind p c s = Inr t \<longleftrightarrow> extends [] [contains_spec cfg kind p c] s t"
proof -
  have "strip (contains_key p c) \<noteq> []" unfolding strip_Nil_iff by (auto simp: contains_key_def)
  then show ?thesis
    using ref_ok [of RELATION_TYPE_KEYS "mc_relation_type_refs cfg" kind] assms
    by (simp add: map_contains_def config_ok_def contains_spec_def add_relationship_ok)
qed

lemma path_not_blank: "strip (join ''.'' (x # y # ys)) \<noteq> []"
  unfolding strip_Nil_iff by auto

lemma built_parts:
  "mk_column c = Inr d \<Longrightarrow> strip (c_id c) \<noteq> [] \<and> strip (c_name c) \<noteq> []"
  "mk_table t = Inr u \<Longrightarrow> strip (t_id t) \<noteq> [] \<and> strip (t_name t) \<noteq> []"
  "mk_schema s = Inr u' \<Longrightarrow> strip (sc_id s) \<noteq> [] \<and> strip (sc_name s) \<noteq> []"
  "mk_database b = Inr u'' \<Longrightarrow> strip (db_id b) \<noteq> [] \<and> strip (db_name b) \<noteq> []"
  by (auto simp: mk_column_def mk_table_def mk_schema_def mk_database_def split_result split: if_splits)

lemma seq_extends:
  assumes "\<And>t. r = Inr t \<longleftrightarrow> extends as rs s t" "\<And>t u. g t = Inr u \<longleftrightarrow> extends bs qs t u"
  shows "try_in r g = Inr u \<longleftrightarrow> extends (as @ bs) (rs @ qs) s u"
  using assms by (simp add: try_in_Inr extends_append)

lemma map_column_ok:
  assumes "config_ok cfg" "strip (t_id t) \<noteq> []" "mk_column c = Inr c" "text_description (c_description c)"
  shows "map_column cfg db sc t s c = Inr u \<longleftrightarrow>
    extends [column_asset cfg db sc t c] [contains_spec cfg ''table_column'' (t_id t) (c_id c)] s u"
proof -
  note c = built_parts(1) [OF assms(3)]
  have a: "map_asset cfg ''column'' (c_id c) (join ''.'' [db, sc, t_name t, c_name c]) (c_name c)
      (Inr (common_spec cfg (c_id c) (c_description c) None @ [attribute_spec cfg ''data_type'' (c_data_type c),
       attribute_spec cfg ''nullable'' (bool_text (c_nullable c)),
       attribute_spec cfg ''ordinal_position'' (str_int (c_ordinal_position c))])) s = Inr v \<longleftrightarrow>
      extends [column_asset cfg db sc t c] [] s v" for v
    unfolding column_asset_def using assms c by (intro map_asset_ok path_not_blank) (auto simp: ASSET_TYPE_KEYS_def)
  have b: "map_contains cfg ''table_column'' (t_id t) (c_id c) v = Inr u \<longleftrightarrow>
      extends [] [contains_spec cfg ''table_column'' (t_id t) (c_id c)] v u" for v u
    using assms c by (intro map_contains_ok) (auto simp: RELATION_TYPE_KEYS_def)
  show ?thesis
    using seq_extends [OF a b, of u] assms(1,4) unfolding map_column_def
    by (simp add: common_attributes_ok config_attribute_ok ATTRIBUTE_TYPE_KEYS_def del: join.simps)
qed

text \<open>An object, its containment relationship and its children.\<close>

lemma map_object_ok:
  assumes "config_ok cfg" "kind \<in> set ASSET_TYPE_KEYS" "strip i \<noteq> []" "strip n \<noteq> []" "strip (join ''.'' path) \<noteq> []"
    and "rel \<in> set RELATION_TYPE_KEYS" "strip parent \<noteq> []" "text_description d"
    and "\<And>v. fold_in step v xs = Inr u \<longleftrightarrow> extends as rs v u"
  shows "try_in (map_asset cfg kind i (join ''.'' path) n (common_attributes cfg i d w) s) (\<lambda>s.
      try_in (map_contains cfg rel parent i s) (\<lambda>s. fold_in step s xs)) = Inr u \<longleftrightarrow>
    extends (asset_spec cfg kind i path n (common_spec cfg i d w) # as) (contains_spec cfg rel parent i # rs) s u"
proof -
  have "extends ([asset_spec cfg kind i path n (common_spec cfg i d w)] @ as) ([] @ contains_spec cfg rel parent i # rs) s u
      \<longleftrightarrow> (\<exists>t v. extends [asset_spec cfg kind i path n (common_spec cfg i d w)] [] s t \<and>
        extends [] [contains_spec cfg rel parent i] t v \<and> extends as rs v u)"
    unfolding extends_append extends_append [of "[]" as "[contains_spec cfg rel parent i]" rs, simplified] by blast
  then show ?thesis
    using assms by (simp add: common_attributes_ok map_asset_ok map_contains_ok try_in_Inr del: join.simps)
qed

lemma map_table_ok:
  assumes "config_ok cfg" "strip (sc_id sc) \<noteq> []" "built_table t"
  shows "map_table cfg db sc s t = Inr u \<longleftrightarrow> extends (table_assets cfg db sc t) (table_rels cfg sc t) s u"
proof -
  have t: "strip (t_id t) \<noteq> []" "strip (t_name t) \<noteq> []" "text_description (t_description t)"
    using assms(3) built_parts(2) by (auto simp: built_table_def)
  have "fold_in (map_column cfg (db_name db) (sc_name sc) t) v (t_columns t) = Inr u \<longleftrightarrow>
      extends (concat (map (\<lambda>c. [column_asset cfg (db_name db) (sc_name sc) t c]) (t_columns t)))
        (concat (map (\<lambda>c. [contains_spec cfg ''table_column'' (t_id t) (c_id c)]) (t_columns t))) v u" for v
    using assms(1,3) t by (intro fold_in_extends map_column_ok) (auto simp: built_table_def list_all_iff)
  then show ?thesis
    unfolding map_table_def table_assets_def table_rels_def using assms(1,2) t
    by (intro map_object_ok path_not_blank) (auto simp: ASSET_TYPE_KEYS_def RELATION_TYPE_KEYS_def concat_map_singleton)
qed

lemma map_schema_ok:
  assumes "config_ok cfg" "strip (db_id db) \<noteq> []" "built_schema sc"
  shows "map_schema cfg db s sc = Inr u \<longleftrightarrow> extends (schema_assets cfg db sc) (schema_rels cfg db sc) s u"
proof -
  have sc: "strip (sc_id sc) \<noteq> []" "strip (sc_name sc) \<noteq> []" "text_description (sc_description sc)"
    using assms(3) built_parts(3) by (auto simp: built_schema_def)
  have "fold_in (map_table cfg db sc) v (sc_tables sc) = Inr u \<longleftrightarrow>
      extends (concat (map (table_assets cfg db sc) (sc_tables sc))) (concat (map (table_rels cfg sc) (sc_tables sc))) v u" for v
    using assms(1,3) sc by (intro fold_in_extends map_table_ok) (auto simp: built_schema_def list_all_iff)
  then show ?thesis
    unfolding map_schema_def schema_assets_def schema_rels_def using assms(1,2) sc
    by (intro map_object_ok path_not_blank) (auto simp: ASSET_TYPE_KEYS_def RELATION_TYPE_KEYS_def)
qed

lemma map_database_ok:
  assumes "config_ok cfg" "built_database db"
  shows "map_database cfg s db = Inr u \<longleftrightarrow>
    extends (database_assets cfg db) (concat (map (schema_rels cfg db) (db_schemas db))) s u"
proof -
  have db: "strip (db_id db) \<noteq> []" "strip (db_name db) \<noteq> []" "text_description (db_description db)"
    using assms(2) built_parts(4) by (auto simp: built_database_def)
  have a: "map_asset cfg ''database'' (db_id db) (join ''.'' [db_name db]) (db_name db)
       (Inr (common_spec cfg (db_id db) (db_description db) (db_ownership db))) s = Inr v \<longleftrightarrow>
     extends [asset_spec cfg ''database'' (db_id db) [db_name db] (db_name db)
       (common_spec cfg (db_id db) (db_description db) (db_ownership db))] [] s v" for v
    using assms db by (intro map_asset_ok) (auto simp: ASSET_TYPE_KEYS_def)
  have b: "fold_in (map_schema cfg db) v (db_schemas db) = Inr u \<longleftrightarrow>
      extends (concat (map (schema_assets cfg db) (db_schemas db))) (concat (map (schema_rels cfg db) (db_schemas db))) v u" for v u
    using assms db by (intro fold_in_extends map_schema_ok) (auto simp: built_database_def list_all_iff)
  show ?thesis using seq_extends [OF a b, of u] assms(1) db
    by (simp add: map_database_def database_assets_def common_attributes_ok)
qed

lemma map_objects_ok:
  assumes "config_ok cfg" "built_model m"
  shows "fold_in (\<lambda>s ds. fold_in (map_database cfg) s (ds_databases ds)) s (gm_data_sources m) = Inr u \<longleftrightarrow>
    extends (model_assets cfg m)
      (concat (map (\<lambda>ds. concat (map (\<lambda>db. concat (map (schema_rels cfg db) (db_schemas db))) (ds_databases ds)))
        (gm_data_sources m))) s u"
  unfolding model_assets_def using assms
  by (intro fold_in_extends map_database_ok) (auto simp: built_model_def list_all_iff)

definition foreign_key_spec :: "CollibraMappingConfig \<Rightarrow> Relationship \<Rightarrow> CollibraRelationshipSpec" where
  "foreign_key_spec cfg r = \<lparr>rs_local_key = rl_id r, rs_source_local_id = rl_from_table_id r,
     rs_target_local_id = rl_to_table_id r, rs_relation_type_ref = the_ref (mc_relation_type_refs cfg) ''table_fk''\<rparr>"

lemma map_foreign_keys_ok:
  assumes "config_ok cfg" "list_all (\<lambda>r. mk_relationship r = Inr r) rels"
  shows "fold_in (map_foreign_key cfg) s rels = Inr u \<longleftrightarrow>
    (\<forall>r \<in> set rels. rl_from_table_id r \<in> ms_asset_ids s \<and> rl_to_table_id r \<in> ms_asset_ids s) \<and>
    extends [] (map (foreign_key_spec cfg) rels) s u"
  using assms(2)
proof (induction rels arbitrary: s)
  case (Cons r rels)
  have "strip (rl_id r) \<noteq> []" "strip (rl_from_table_id r) \<noteq> []" "strip (rl_to_table_id r) \<noteq> []"
    using Cons.prems by (auto simp: mk_relationship_def split_result)
  then have "add_relationship s (foreign_key_spec cfg r) = Inr t \<longleftrightarrow> extends [] [foreign_key_spec cfg r] s t" for t
    using assms(1) ref_ok [of RELATION_TYPE_KEYS "mc_relation_type_refs cfg" "''table_fk''"]
    by (intro add_relationship_ok) (auto simp: foreign_key_spec_def config_ok_def RELATION_TYPE_KEYS_def)
  then have step: "map_foreign_key cfg s r = Inr t \<longleftrightarrow> rl_from_table_id r \<in> ms_asset_ids s \<and>
      rl_to_table_id r \<in> ms_asset_ids s \<and> extends [] [foreign_key_spec cfg r] s t" for t
    using assms(1) ref_ok [of RELATION_TYPE_KEYS "mc_relation_type_refs cfg" "''table_fk''"]
    by (simp add: map_foreign_key_def foreign_key_spec_def config_ok_def RELATION_TYPE_KEYS_def)
  have ids: "extends [] [foreign_key_spec cfg r] s t \<Longrightarrow> ms_asset_ids t = ms_asset_ids s" for t
    by (simp add: extends_def)
  have "extends [] (foreign_key_spec cfg r # map (foreign_key_spec cfg) rels) s u \<longleftrightarrow>
      (\<exists>t. extends [] [foreign_key_spec cfg r] s t \<and> extends [] (map (foreign_key_spec cfg) rels) t u)"
    using extends_append [of "[]" "[]" "[foreign_key_spec cfg r]" "map (foreign_key_spec cfg) rels" s u] by simp
  moreover have "fold_in (map_foreign_key cfg) s (r # rels) = Inr u \<longleftrightarrow>
      (\<exists>t. map_foreign_key cfg s r = Inr t \<and> fold_in (map_foreign_key cfg) t rels = Inr u)" by (simp add: try_in_Inr)
  moreover have "fold_in (map_foreign_key cfg) t rels = Inr u \<longleftrightarrow>
      (\<forall>r \<in> set rels. rl_from_table_id r \<in> ms_asset_ids t \<and> rl_to_table_id r \<in> ms_asset_ids t) \<and>
      extends [] (map (foreign_key_spec cfg) rels) t u" for t
    using Cons.prems by (intro Cons.IH) simp
  ultimately show ?case using ids unfolding step by (simp, metis)
qed auto

lemma assert_unique_ok:
  "(\<exists>u. assert_unique_relationship_keys rels = Inr u) \<longleftrightarrow> distinct (map rs_local_key rels)"
proof -
  have "(\<exists>u. fold_in (\<lambda>seen r. if rs_local_key r \<in> seen then Inl (MappingError (''duplicate relationship key: '' @ rs_local_key r))
     else Inr (insert (rs_local_key r) seen)) S rels = Inr u) \<longleftrightarrow>
     distinct (map rs_local_key rels) \<and> rs_local_key ` set rels \<inter> S = {}" for S
    by (induction rels arbitrary: S) (auto simp: split_result)
  from this [of "{}"] show ?thesis by (simp add: assert_unique_relationship_keys_def)
qed

lemma map_to_desired_state_iff:
  assumes "mk_mapping_config jd ja jr jt = Inr cfg" "built_model m"
  shows "map_to_desired_state m cfg = Inr d \<longleftrightarrow>
    distinct (map as_local_id (model_assets cfg m)) \<and>
    (\<forall>r \<in> set (gm_relationships m). {rl_from_table_id r, rl_to_table_id r} \<subseteq> as_local_id ` set (model_assets cfg m)) \<and>
    distinct (map rs_local_key (model_rels cfg m)) \<and>
    d = mk_desired_state (model_assets cfg m) (model_rels cfg m)"
proof -
  have cfg: "config_ok cfg" using assms(1) by (rule mk_mapping_config_ok)
  have rels: "list_all (\<lambda>r. mk_relationship r = Inr r) (gm_relationships m)" using assms(2) by (simp add: built_model_def)
  let ?contains = "concat (map (\<lambda>ds. concat (map (\<lambda>db. concat (map (schema_rels cfg db) (db_schemas db))) (ds_databases ds)))
        (gm_data_sources m))"
  let ?s = "\<lparr>ms_assets = [], ms_relationships = [], ms_asset_ids = {}\<rparr>"
  have model_rels: "model_rels cfg m = ?contains @ map (foreign_key_spec cfg) (gm_relationships m)"
    by (simp add: model_rels_def foreign_key_spec_def [abs_def])
  have ids: "extends (model_assets cfg m) ?contains ?s t \<Longrightarrow> ms_asset_ids t = as_local_id ` set (model_assets cfg m)" for t
    by (simp add: extends_def)
  have whole: "(\<exists>t. extends (model_assets cfg m) ?contains ?s t \<and> extends [] (map (foreign_key_spec cfg) (gm_relationships m)) t u) \<longleftrightarrow>
      extends (model_assets cfg m) (model_rels cfg m) ?s u" for u
    using extends_append [of "model_assets cfg m" "[]" ?contains] by (simp add: model_rels)
  have ends: "extends (model_assets cfg m) (model_rels cfg m) ?s u \<longleftrightarrow> distinct (map as_local_id (model_assets cfg m)) \<and>
      u = \<lparr>ms_assets = model_assets cfg m, ms_relationships = model_rels cfg m,
        ms_asset_ids = as_local_id ` set (model_assets cfg m)\<rparr>" for u
    by (cases u) (auto simp: extends_def)
  let ?E = "extends (model_assets cfg m) ?contains ?s"
  let ?F = "\<lambda>t u. extends [] (map (foreign_key_spec cfg) (gm_relationships m)) t u"
  let ?P = "\<lambda>S. \<forall>r \<in> set (gm_relationships m). rl_from_table_id r \<in> S \<and> rl_to_table_id r \<in> S"
  let ?Q = "\<lambda>u. (\<exists>v. assert_unique_relationship_keys (ms_relationships u) = Inr v) \<and>
      mk_desired_state (ms_assets u) (ms_relationships u) = d"
  have "map_to_desired_state m cfg = Inr d \<longleftrightarrow> (\<exists>t. ?E t \<and> (\<exists>u. (?P (ms_asset_ids t) \<and> ?F t u) \<and> ?Q u))"
    unfolding map_to_desired_state_def try_in_Inr map_objects_ok [OF cfg assms(2)] map_foreign_keys_ok [OF cfg rels]
    by simp
  also have "\<dots> \<longleftrightarrow> (\<exists>t. ?E t \<and> (\<exists>u. (?P (as_local_id ` set (model_assets cfg m)) \<and> ?F t u) \<and> ?Q u))"
    using ids by (intro ex_cong1 conj_cong refl) simp
  also have "\<dots> \<longleftrightarrow> ?P (as_local_id ` set (model_assets cfg m)) \<and> (\<exists>u. (\<exists>t. ?E t \<and> ?F t u) \<and> ?Q u)" by blast
  finally show ?thesis unfolding whole ends assert_unique_ok by auto
qed

text \<open>
  C28 (functional). The translation into the desired state is exact. For a configuration accepted by its
  constructor and a model whose objects came out of theirs, with textual or no descriptions, it succeeds exactly when no two objects share
  an identifier, every relationship joins two objects of the model and no two relationships share a key;
  and the result then holds one asset per database, schema, table and column and one relationship per
  containment and per relationship of the model, with the configured types, names and attributes, in
  canonical order.
\<close>

theorem mapping_exact:
  assumes "mk_mapping_config jd ja jr jt = Inr cfg" "built_model m"
  shows "map_to_desired_state m cfg = Inr d \<longleftrightarrow>
    distinct (map as_local_id (model_assets cfg m)) \<and>
    (\<forall>r \<in> set (gm_relationships m). {rl_from_table_id r, rl_to_table_id r} \<subseteq> as_local_id ` set (model_assets cfg m)) \<and>
    distinct (map rs_local_key (model_rels cfg m)) \<and>
    d = mk_desired_state (model_assets cfg m) (model_rels cfg m)"
  by (rule map_to_desired_state_iff [OF assms])

theorem mapping_exact_witness:
  "\<exists>d. map_to_desired_state example_model mock_config = Inr d \<and> length (des_assets d) = 4 \<and> length (des_relationships d) = 3"
proof -
  have "map_to_desired_state example_model mock_config =
      Inr (mk_desired_state (model_assets mock_config example_model) (model_rels mock_config example_model))"
    by (rule mapping_exact [OF mock_config_accepted example_model_built, THEN iffD2]) code_simp
  moreover have "length (model_assets mock_config example_model) = 4" "length (model_rels mock_config example_model) = 3"
    by code_simp+
  ultimately show ?thesis by (simp add: mk_desired_state_def)
qed

section \<open>A desired state is closed\<close>

text \<open>What synchronization relies on: an asset as the mapping makes it, and a desired state.\<close>

definition managed_asset :: "CollibraMappingConfig \<Rightarrow> CollibraAssetSpec \<Rightarrow> bool" where
  "managed_asset cfg a \<longleftrightarrow> wf_asset a \<and> as_domain_ref a = mc_domain_ref cfg \<and>
     as_asset_type_ref a \<in> set (vals (mc_asset_type_refs cfg)) \<and>
     attribute_spec cfg ''local_id'' (as_local_id a) \<in> set (as_attributes a) \<and>
     (\<forall>x \<in> set (as_attributes a). at_attribute_type_ref x \<in> set (vals (mc_attribute_type_refs cfg)))"

definition closed_state :: "CollibraMappingConfig \<Rightarrow> CollibraDesiredState \<Rightarrow> bool" where
  "closed_state cfg d \<longleftrightarrow> distinct (map as_local_id (des_assets d)) \<and> sorted (map as_local_id (des_assets d)) \<and>
     distinct (map rs_local_key (des_relationships d)) \<and> sorted (map rs_local_key (des_relationships d)) \<and>
     list_all (managed_asset cfg) (des_assets d) \<and>
     (\<forall>r \<in> set (des_relationships d). wf_relationship_spec r \<and>
        rs_relation_type_ref r \<in> set (vals (mc_relation_type_refs cfg)) \<and>
        {rs_source_local_id r, rs_target_local_id r} \<subseteq> as_local_id ` set (des_assets d))"

lemma the_ref_in: "refs_ok required d \<Longrightarrow> k \<in> set required \<Longrightarrow> the_ref d k \<in> set (vals d)"
  by (auto simp: refs_ok_def list_all_iff the_ref_def split: option.splits) (metis map_of_SomeD image_eqI snd_conv)

lemma attribute_spec_ok:
  assumes "config_ok cfg" "k \<in> set ATTRIBUTE_TYPE_KEYS"
  shows "wf_attribute (attribute_spec cfg k v) \<and> at_attribute_type_ref (attribute_spec cfg k v) \<in> set (vals (mc_attribute_type_refs cfg))"
  using ref_ok [of ATTRIBUTE_TYPE_KEYS "mc_attribute_type_refs cfg" k] the_ref_in [of ATTRIBUTE_TYPE_KEYS "mc_attribute_type_refs cfg" k] assms
  by (simp add: config_ok_def wf_attribute_def attribute_spec_def)

lemma common_spec_ok:
  assumes "config_ok cfg" "x \<in> set (common_spec cfg i d w)"
  shows "wf_attribute x \<and> at_attribute_type_ref x \<in> set (vals (mc_attribute_type_refs cfg))"
  using assms by (auto simp: common_spec_def ATTRIBUTE_TYPE_KEYS_def dest: attribute_spec_ok
      intro!: attribute_spec_ok [THEN conjunct1] attribute_spec_ok [THEN conjunct2] split: option.splits if_splits)

lemma asset_spec_ok:
  assumes "config_ok cfg" "kind \<in> set ASSET_TYPE_KEYS" "strip i \<noteq> []" "strip (join ''.'' path) \<noteq> []" "strip n \<noteq> []"
    and "set ats = set (common_spec cfg i d w) \<union> X" "\<forall>x \<in> X. \<exists>k v. k \<in> set ATTRIBUTE_TYPE_KEYS \<and> x = attribute_spec cfg k v"
  shows "managed_asset cfg (asset_spec cfg kind i path n ats)"
proof -
  have "wf_attribute x \<and> at_attribute_type_ref x \<in> set (vals (mc_attribute_type_refs cfg))" if "x \<in> set ats" for x
    using that assms(1,6,7) common_spec_ok attribute_spec_ok by (metis Un_iff)
  moreover have "attribute_spec cfg ''local_id'' i \<in> set ats" using assms(6) by (simp add: common_spec_def)
  moreover have "mk_asset (asset_spec cfg kind i path n ats) = Inr (asset_spec cfg kind i path n ats)"
    using ref_ok [of ASSET_TYPE_KEYS "mc_asset_type_refs cfg" kind] assms
    by (simp add: mk_asset_def require_all_def require_non_empty_def config_ok_def asset_spec_def sort_key_id)
  ultimately show ?thesis
    using the_ref_in [of ASSET_TYPE_KEYS "mc_asset_type_refs cfg" kind] assms(1,2)
    by (auto simp: managed_asset_def wf_asset_def asset_spec_def config_ok_def list_all_iff)
qed

lemma table_assets_managed:
  assumes "config_ok cfg" "built_table t" "a \<in> set (table_assets cfg db sc t)"
  shows "managed_asset cfg a"
proof -
  have t: "strip (t_id t) \<noteq> [] \<and> strip (t_name t) \<noteq> []"
    using assms(2) built_parts(2) by (auto simp: built_table_def)
  consider (table) "a = asset_spec cfg ''table'' (t_id t) [db_name db, sc_name sc, t_name t] (t_name t)
       (common_spec cfg (t_id t) (t_description t) (t_ownership t))"
    | (column) c where "c \<in> set (t_columns t)" "a = column_asset cfg (db_name db) (sc_name sc) t c"
    using assms(3) by (auto simp: table_assets_def)
  then show ?thesis
  proof cases
    case table
    then show ?thesis using assms(1) t
      by (auto intro!: asset_spec_ok [where X = "{}"] path_not_blank simp: ASSET_TYPE_KEYS_def simp del: join.simps)
  next
    case column
    then have c: "strip (c_id c) \<noteq> [] \<and> strip (c_name c) \<noteq> []"
      using assms(2) built_parts(1) by (auto simp: built_table_def list_all_iff)
    let ?X = "{attribute_spec cfg ''data_type'' (c_data_type c), attribute_spec cfg ''nullable'' (bool_text (c_nullable c)),
        attribute_spec cfg ''ordinal_position'' (str_int (c_ordinal_position c))}"
    have X: "\<forall>x \<in> ?X. \<exists>k v. k \<in> set ATTRIBUTE_TYPE_KEYS \<and> x = attribute_spec cfg k v"
      by (auto simp: ATTRIBUTE_TYPE_KEYS_def)
    have kind: "''column'' \<in> set ASSET_TYPE_KEYS" by (simp add: ASSET_TYPE_KEYS_def)
    show ?thesis unfolding column(2) column_asset_def
      by (rule asset_spec_ok [OF assms(1) kind c [THEN conjunct1] path_not_blank c [THEN conjunct2] _ X]) simp
  qed
qed

lemma schema_assets_managed:
  assumes "config_ok cfg" "built_schema sc" "a \<in> set (schema_assets cfg db sc)"
  shows "managed_asset cfg a"
proof -
  have sc: "strip (sc_id sc) \<noteq> [] \<and> strip (sc_name sc) \<noteq> []"
    using assms(2) built_parts(3) by (auto simp: built_schema_def)
  consider (schema) "a = asset_spec cfg ''schema'' (sc_id sc) [db_name db, sc_name sc] (sc_name sc)
       (common_spec cfg (sc_id sc) (sc_description sc) (sc_ownership sc))"
    | (table) t where "t \<in> set (sc_tables sc)" "a \<in> set (table_assets cfg db sc t)"
    using assms(3) by (auto simp: schema_assets_def)
  then show ?thesis
  proof cases
    case schema
    then show ?thesis using assms(1) sc
      by (auto intro!: asset_spec_ok [where X = "{}"] path_not_blank simp: ASSET_TYPE_KEYS_def simp del: join.simps)
  next
    case table
    then show ?thesis using assms(1,2) table_assets_managed by (auto simp: built_schema_def list_all_iff)
  qed
qed

lemma model_assets_managed:
  assumes "config_ok cfg" "built_model m" "a \<in> set (model_assets cfg m)"
  shows "managed_asset cfg a"
proof -
  obtain ds db where ds: "ds \<in> set (gm_data_sources m)" "db \<in> set (ds_databases ds)" "a \<in> set (database_assets cfg db)"
    using assms(3) by (auto simp: model_assets_def)
  have built: "built_database db" using assms(2) ds by (auto simp: built_model_def list_all_iff)
  then have db: "strip (db_id db) \<noteq> [] \<and> strip (db_name db) \<noteq> []" using built_parts(4) by (auto simp: built_database_def)
  consider (database) "a = asset_spec cfg ''database'' (db_id db) [db_name db] (db_name db)
       (common_spec cfg (db_id db) (db_description db) (db_ownership db))"
    | (schema) sc where "sc \<in> set (db_schemas db)" "a \<in> set (schema_assets cfg db sc)"
    using ds(3) by (auto simp: database_assets_def)
  then show ?thesis
  proof cases
    case database
    then show ?thesis using assms(1) db
      by (auto intro!: asset_spec_ok [where X = "{}"] simp: ASSET_TYPE_KEYS_def)
  next
    case schema
    then show ?thesis using assms(1) built schema_assets_managed by (auto simp: built_database_def list_all_iff)
  qed
qed

lemma asset_ids:
  "as_local_id ` set (table_assets cfg db sc t) = insert (t_id t) (c_id ` set (t_columns t))"
  "sc_id sc \<in> as_local_id ` set (schema_assets cfg db sc)"
  "db_id db \<in> as_local_id ` set (database_assets cfg db)"
  by (auto simp: table_assets_def schema_assets_def database_assets_def asset_spec_def column_asset_def image_image)

lemma schema_rels_ends:
  assumes "r \<in> set (schema_rels cfg db sc)"
  shows "{rs_source_local_id r, rs_target_local_id r} \<subseteq> insert (db_id db) (as_local_id ` set (schema_assets cfg db sc)) \<and>
    rs_relation_type_ref r \<in> the_ref (mc_relation_type_refs cfg) ` set RELATION_TYPE_KEYS"
proof -
  have sub: "as_local_id ` set (table_assets cfg db sc t) \<subseteq> as_local_id ` set (schema_assets cfg db sc)"
    if "t \<in> set (sc_tables sc)" for t using that by (auto simp: schema_assets_def)
  consider (schema) "r = contains_spec cfg ''database_schema'' (db_id db) (sc_id sc)"
    | (table) t where "t \<in> set (sc_tables sc)" "r = contains_spec cfg ''schema_table'' (sc_id sc) (t_id t)"
    | (column) t c where "t \<in> set (sc_tables sc)" "c \<in> set (t_columns t)" "r = contains_spec cfg ''table_column'' (t_id t) (c_id c)"
    using assms by (auto simp: schema_rels_def table_rels_def)
  then show ?thesis
  proof cases
    case schema
    then show ?thesis using asset_ids(2) [of sc cfg db] by (simp add: contains_spec_def RELATION_TYPE_KEYS_def)
  next
    case table
    then show ?thesis using asset_ids(2) [of sc cfg db] sub [OF table(1)] asset_ids(1) [of cfg db sc t]
      by (auto simp: contains_spec_def RELATION_TYPE_KEYS_def)
  next
    case column
    then show ?thesis using sub [OF column(1)] asset_ids(1) [of cfg db sc t]
      by (auto simp: contains_spec_def RELATION_TYPE_KEYS_def)
  qed
qed

lemma schema_rels_key: "r \<in> set (schema_rels cfg db sc) \<Longrightarrow> strip (rs_local_key r) \<noteq> []"
  unfolding strip_Nil_iff by (auto simp: schema_rels_def table_rels_def contains_spec_def contains_key_def)

lemma the_ref_ok:
  "config_ok cfg \<Longrightarrow> k \<in> set RELATION_TYPE_KEYS \<Longrightarrow>
   the_ref (mc_relation_type_refs cfg) k \<in> set (vals (mc_relation_type_refs cfg)) \<and> strip (the_ref (mc_relation_type_refs cfg) k) \<noteq> []"
  using the_ref_in ref_ok unfolding config_ok_def by blast

lemma model_rels_ok:
  assumes "config_ok cfg" "built_model m" "r \<in> set (model_rels cfg m)"
    and fks: "\<forall>r \<in> set (gm_relationships m). {rl_from_table_id r, rl_to_table_id r} \<subseteq> as_local_id ` set (model_assets cfg m)"
  shows "wf_relationship_spec r \<and> rs_relation_type_ref r \<in> set (vals (mc_relation_type_refs cfg)) \<and>
    {rs_source_local_id r, rs_target_local_id r} \<subseteq> as_local_id ` set (model_assets cfg m)"
proof -
  have ids: "strip i \<noteq> []" if "i \<in> as_local_id ` set (model_assets cfg m)" for i
    using that model_assets_managed [OF assms(1,2)]
    by (auto simp: managed_asset_def wf_asset_def mk_asset_def split_result)
  have "strip (rs_local_key r) \<noteq> [] \<and> (\<exists>k \<in> set RELATION_TYPE_KEYS. rs_relation_type_ref r = the_ref (mc_relation_type_refs cfg) k) \<and>
    {rs_source_local_id r, rs_target_local_id r} \<subseteq> as_local_id ` set (model_assets cfg m)"
  proof (cases "r \<in> foreign_key_spec cfg ` set (gm_relationships m)")
    case True
    then obtain q where q: "q \<in> set (gm_relationships m)" "r = foreign_key_spec cfg q" by auto
    have "mk_relationship q = Inr q" using assms(2) q(1) by (simp add: built_model_def list_all_iff)
    then have "strip (rl_id q) \<noteq> []" by (auto simp: mk_relationship_def split_result)
    then show ?thesis using q fks by (auto simp: foreign_key_spec_def RELATION_TYPE_KEYS_def)
  next
    case False
    then obtain ds db sc where *: "ds \<in> set (gm_data_sources m)" "db \<in> set (ds_databases ds)" "sc \<in> set (db_schemas db)"
      "r \<in> set (schema_rels cfg db sc)"
      using assms(3) by (auto simp: model_rels_def foreign_key_spec_def)
    have "as_local_id ` set (schema_assets cfg db sc) \<subseteq> as_local_id ` set (database_assets cfg db)"
      "as_local_id ` set (database_assets cfg db) \<subseteq> as_local_id ` set (model_assets cfg m)"
      using *(1-3) by (auto simp: model_assets_def database_assets_def)
    then have "insert (db_id db) (as_local_id ` set (schema_assets cfg db sc)) \<subseteq> as_local_id ` set (model_assets cfg m)"
      using asset_ids(3) [of db cfg] by blast
    then show ?thesis using schema_rels_ends [OF *(4)] schema_rels_key [OF *(4)] by blast
  qed
  then show ?thesis using ids the_ref_ok [OF assms(1)]
    by (auto simp: wf_relationship_spec_def mk_relationship_spec_def require_all_def require_non_empty_def)
qed

lemma mapped_closed:
  assumes "mk_mapping_config jd ja jr jt = Inr cfg" "built_model m" "map_to_desired_state m cfg = Inr d"
  shows "closed_state cfg d"
proof -
  have cfg: "config_ok cfg" using assms(1) by (rule mk_mapping_config_ok)
  from assms(3) have *: "distinct (map as_local_id (model_assets cfg m))" "distinct (map rs_local_key (model_rels cfg m))"
    "\<forall>r \<in> set (gm_relationships m). {rl_from_table_id r, rl_to_table_id r} \<subseteq> as_local_id ` set (model_assets cfg m)"
    "d = mk_desired_state (model_assets cfg m) (model_rels cfg m)"
    unfolding map_to_desired_state_iff [OF assms(1,2)] by auto
  show ?thesis
    using *(1,2) model_assets_managed [OF cfg assms(2)] model_rels_ok [OF cfg assms(2) _ *(3)]
    by (auto simp: closed_state_def *(4) mk_desired_state_def list_all_iff)
qed

text \<open>A desired state made by the mapping is closed: its assets and its relationships are
  strictly sorted by their identifiers, both ends of each relationship are assets of the state, and each
  asset is accepted by its constructor, lies in the configured domain, has a configured type, names its
  local identifier in the configured attribute and has configured attribute types only.
\<close>

theorem desired_state_closed:
  assumes "mk_mapping_config jd ja jr jt = Inr cfg" "built_model m" "map_to_desired_state m cfg = Inr d"
  shows "closed_state cfg d"
  by (rule mapped_closed [OF assms])

theorem desired_state_closed_witness:
  "\<exists>d. map_to_desired_state example_model mock_config = Inr d \<and> closed_state mock_config d"
proof -
  have "map_to_desired_state example_model mock_config =
      Inr (mk_desired_state (model_assets mock_config example_model) (model_rels mock_config example_model))"
    by (rule map_to_desired_state_iff [OF mock_config_accepted example_model_built, THEN iffD2]) code_simp
  then show ?thesis using desired_state_closed [OF mock_config_accepted example_model_built] by blast
qed

end
