(* ===== verification/Sync.thy ===== *)
theory Sync
  imports Collibra_Mapping
begin

text \<open>
  \<open>integrations/collibra/sync.py\<close> and the adapter contract of \<open>adapters.py\<close>: planning by comparing the
  desired with the managed remote state, and the execution of a plan. An adapter is a record of its
  operations on a state of any type; an operation returns its result or what it raises, and the state it
  leaves, also when it raises.
\<close>

section \<open>The adapter contract\<close>

record 's CollibraAdapter =
  ad_read_remote_state :: "CollibraDesiredState \<Rightarrow> 's \<Rightarrow> CollibraRemoteState result \<times> 's"
  ad_create_asset :: "CollibraAssetSpec \<Rightarrow> 's \<Rightarrow> string result \<times> 's"
  ad_update_asset :: "string \<Rightarrow> CollibraAssetSpec \<Rightarrow> bool \<Rightarrow> bool \<Rightarrow> 's \<Rightarrow> unit result \<times> 's"
  ad_create_relationship :: "CollibraRelationshipSpec \<Rightarrow> string \<Rightarrow> string \<Rightarrow> 's \<Rightarrow> string result \<times> 's"

text \<open>\<open>CollibraAdapterError(message, operation=..., status_code=..., endpoint_path=..., ...)\<close>: the text
  is what \<open>str(exc)\<close> returns.\<close>

definition error_part :: "string \<Rightarrow> string option \<Rightarrow> string list" where
  "error_part name v = (case v of None \<Rightarrow> [] | Some x \<Rightarrow> [name @ ''='' @ x])"

definition adapter_error ::
  "string \<Rightarrow> string \<Rightarrow> int option \<Rightarrow> string option \<Rightarrow> string option \<Rightarrow> int option \<Rightarrow> bool option \<Rightarrow> error" where
  "adapter_error message operation status_code endpoint_path endpoint_family attempt exhausted =
     AdapterError (join ''; '' ([message, ''operation='' @ operation] @
       error_part ''status_code'' (map_option str_int status_code) @ error_part ''endpoint_path'' endpoint_path @
       error_part ''endpoint_family'' endpoint_family @ error_part ''attempt'' (map_option str_int attempt) @
       error_part ''exhausted'' (map_option (\<lambda>b. if b then ''True'' else ''False'') exhausted))) operation"

section \<open>Planning\<close>

definition or_none :: "string option \<Rightarrow> string option" where
  "or_none v = (case v of Some [] \<Rightarrow> None | _ \<Rightarrow> v)"

text \<open>Equality of dictionaries does not depend on the order of the items.\<close>

definition dict_eq :: "('k, 'v) dict \<Rightarrow> ('k, 'v) dict \<Rightarrow> bool" where
  "dict_eq a b \<longleftrightarrow> set a = set b"

definition desired_attrs :: "CollibraAssetSpec \<Rightarrow> (string, string) dict" where
  "desired_attrs d = dict_of (map (\<lambda>a. (at_attribute_type_ref a, at_value a)) (as_attributes d))"

definition remote_attrs :: "CollibraRemoteAsset \<Rightarrow> (string, string) dict" where
  "remote_attrs r = dict_of (map (\<lambda>a. (ra_attribute_type_ref a, ra_value a)) (rm_managed_attributes r))"

definition asset_changed_fields :: "CollibraAssetSpec \<Rightarrow> CollibraRemoteAsset \<Rightarrow> string list" where
  "asset_changed_fields desired remote =
     (if as_name desired \<noteq> rm_name remote then [''name''] else []) @
     (if or_none (as_display_name desired) \<noteq> or_none (rm_display_name remote) then [''display_name''] else []) @
     (if \<not> dict_eq (desired_attrs desired) (remote_attrs remote) then [''managed_attributes''] else [])"

definition blank_action :: SyncAction where
  "blank_action = \<lparr>sa_action_type = UNCHANGED, sa_object_kind = ASSET, sa_local_id = None, sa_remote_id = None,
     sa_reason = [], sa_desired_asset = None, sa_desired_relationship = None, sa_changed_fields = []\<rparr>"

definition desired_asset_action :: "(string, CollibraRemoteAsset) dict \<Rightarrow> string \<times> CollibraAssetSpec \<Rightarrow> SyncAction result" where
  "desired_asset_action remote_assets entry =
     (let (local_id, desired) = entry in
      case map_of remote_assets local_id of
        None \<Rightarrow> mk_sync_action (blank_action\<lparr>sa_action_type := CREATE, sa_local_id := Some local_id,
          sa_reason := ''desired asset has no managed remote match'', sa_desired_asset := Some desired\<rparr>)
      | Some remote \<Rightarrow>
          (let changed = asset_changed_fields desired remote in
           if changed = [] then mk_sync_action (blank_action\<lparr>sa_action_type := UNCHANGED, sa_local_id := Some local_id,
             sa_remote_id := Some (rm_remote_id remote), sa_reason := ''supported asset state equivalent'',
             sa_desired_asset := Some desired\<rparr>)
           else mk_sync_action (blank_action\<lparr>sa_action_type := UPDATE, sa_local_id := Some local_id,
             sa_remote_id := Some (rm_remote_id remote), sa_reason := ''supported asset metadata differs'',
             sa_desired_asset := Some desired, sa_changed_fields := changed\<rparr>)))"

definition remote_asset_action :: "string \<times> CollibraRemoteAsset \<Rightarrow> SyncAction result" where
  "remote_asset_action entry = mk_sync_action (blank_action\<lparr>sa_action_type := REMOTE_ONLY, sa_local_id := Some (fst entry),
     sa_remote_id := Some (rm_remote_id (snd entry)), sa_reason := ''managed remote asset absent from desired state''\<rparr>)"

type_synonym relationship_key = "string \<times> string \<times> string"

definition relationship_key :: "string \<Rightarrow> string \<Rightarrow> string \<Rightarrow> relationship_key" where
  "relationship_key source_local_id target_local_id relation_type_ref = (source_local_id, target_local_id, relation_type_ref)"

definition remote_key :: "CollibraRemoteRelationship \<Rightarrow> relationship_key" where
  "remote_key r = relationship_key (rr_source_local_id r) (rr_target_local_id r) (rr_relation_type_ref r)"

definition desired_key :: "CollibraRelationshipSpec \<Rightarrow> relationship_key" where
  "desired_key r = relationship_key (rs_source_local_id r) (rs_target_local_id r) (rs_relation_type_ref r)"

definition desired_relationship_action ::
  "(relationship_key, CollibraRemoteRelationship) dict \<Rightarrow> relationship_key \<times> CollibraRelationshipSpec \<Rightarrow> SyncAction result" where
  "desired_relationship_action remote_relationships entry =
     (let (key, desired) = entry in
      case map_of remote_relationships key of
        None \<Rightarrow> mk_sync_action (blank_action\<lparr>sa_action_type := CREATE, sa_object_kind := RELATIONSHIP,
          sa_local_id := Some (rs_local_key desired), sa_reason := ''desired relationship missing remotely'',
          sa_desired_relationship := Some desired\<rparr>)
      | Some remote \<Rightarrow> mk_sync_action (blank_action\<lparr>sa_action_type := UNCHANGED, sa_object_kind := RELATIONSHIP,
          sa_local_id := Some (rs_local_key desired), sa_remote_id := Some (rr_remote_id remote),
          sa_reason := ''managed relationship equivalent'', sa_desired_relationship := Some desired\<rparr>))"

definition remote_relationship_action :: "relationship_key \<times> CollibraRemoteRelationship \<Rightarrow> SyncAction result" where
  "remote_relationship_action entry = mk_sync_action (blank_action\<lparr>sa_action_type := REMOTE_ONLY,
     sa_object_kind := RELATIONSHIP, sa_local_id := rr_local_key (snd entry), sa_remote_id := Some (rr_remote_id (snd entry)),
     sa_reason := ''managed remote relationship absent from desired state''\<rparr>)"

text \<open>A list indexed by a key: \<open>{key(x): x for x in xs}\<close>.\<close>

definition index_by :: "('a \<Rightarrow> 'k) \<Rightarrow> 'a list \<Rightarrow> ('k, 'a) dict" where
  "index_by f xs = dict_of (map (\<lambda>x. (f x, x)) xs)"

definition absent_from :: "('k, 'v) dict \<Rightarrow> ('k, 'w) dict \<Rightarrow> ('k, 'v) dict" where
  "absent_from d e = filter (\<lambda>(k, v). k \<notin> set (keys e)) d"

definition build_sync_plan :: "CollibraDesiredState \<Rightarrow> CollibraRemoteState \<Rightarrow> SyncPlan result" where
  "build_sync_plan desired remote =
     (let remote_assets = index_by rm_local_id (rem_assets remote);
          desired_assets = index_by as_local_id (des_assets desired);
          remote_relationships = index_by remote_key (rem_relationships remote);
          desired_relationships = index_by desired_key (des_relationships desired) in
      try_in (traverse (desired_asset_action remote_assets) desired_assets) (\<lambda>a.
      try_in (traverse remote_asset_action (absent_from remote_assets desired_assets)) (\<lambda>b.
      try_in (traverse (desired_relationship_action remote_relationships) desired_relationships) (\<lambda>c.
      try_in (traverse remote_relationship_action (absent_from remote_relationships desired_relationships)) (\<lambda>e.
        Inr (mk_sync_plan (a @ b @ c @ e)))))))"

section \<open>Execution\<close>

definition seed_remote_ids_from_plan :: "SyncPlan \<Rightarrow> (string, string) dict" where
  "seed_remote_ids_from_plan plan = foldl (\<lambda>mapping action.
     case (sa_local_id action, sa_remote_id action) of
       (Some local_id, Some remote_id) \<Rightarrow>
         if sa_object_kind action = ASSET \<and> local_id \<noteq> [] \<and> remote_id \<noteq> [] \<and>
           sa_action_type action \<in> {UPDATE, UNCHANGED, REMOTE_ONLY}
         then AList.update local_id remote_id mapping else mapping
     | _ \<Rightarrow> mapping) [] (sp_actions plan)"

definition ASSET_CREATE_ORDER :: "string list" where
  "ASSET_CREATE_ORDER = [''db:'', ''sch:'', ''tbl:'', ''col:'']"

fun prefix_rank :: "nat \<Rightarrow> string list \<Rightarrow> string \<Rightarrow> nat" where
  "prefix_rank index [] local_id = index"
| "prefix_rank index (p # ps) local_id = (if startswith p local_id then index else prefix_rank (Suc index) ps local_id)"

definition asset_rank :: "SyncAction \<Rightarrow> nat \<times> string" where
  "asset_rank action = (let local_id = or_empty (sa_local_id action) in (prefix_rank 0 ASSET_CREATE_ORDER local_id, local_id))"

definition is_action :: "SyncActionType \<Rightarrow> SyncObjectKind \<Rightarrow> SyncAction \<Rightarrow> bool" where
  "is_action t k a \<longleftrightarrow> sa_action_type a = t \<and> sa_object_kind a = k"

definition ordered_mutating_actions :: "SyncAction list \<Rightarrow> SyncAction list" where
  "ordered_mutating_actions actions =
     sort_key asset_rank (filter (is_action CREATE ASSET) actions) @
     sort_key (\<lambda>a. or_empty (sa_local_id a)) (filter (is_action UPDATE ASSET) actions) @
     sort_key (\<lambda>a. or_empty (sa_local_id a)) (filter (is_action CREATE RELATIONSHIP) actions)"

text \<open>One turn of the loop: the new \<open>local_to_remote\<close> and whether \<open>applied\<close> is incremented, or what it raises.\<close>

definition apply_action ::
  "'s CollibraAdapter \<Rightarrow> (string, string) dict \<Rightarrow> SyncAction \<Rightarrow> 's \<Rightarrow> ((string, string) dict \<times> nat) result \<times> 's" where
  "apply_action adapter local_to_remote action s =
     (case (sa_object_kind action, sa_action_type action) of
        (ASSET, CREATE) \<Rightarrow>
          (case sa_desired_asset action of
             None \<Rightarrow> (Inl AssertionError, s)
           | Some asset \<Rightarrow> (case ad_create_asset adapter asset s of
               (Inl e, t) \<Rightarrow> (Inl e, t)
             | (Inr remote_id, t) \<Rightarrow> (Inr (AList.update (as_local_id asset) remote_id local_to_remote, 1), t)))
      | (ASSET, UPDATE) \<Rightarrow>
          (case (sa_desired_asset action, sa_remote_id action) of
             (Some asset, Some remote_id) \<Rightarrow>
               (case ad_update_asset adapter remote_id asset (''name'' \<in> set (sa_changed_fields action))
                   (''display_name'' \<in> set (sa_changed_fields action)) s of
                  (Inl e, t) \<Rightarrow> (Inl e, t)
                | (Inr _, t) \<Rightarrow> (Inr (AList.update (as_local_id asset) remote_id local_to_remote, 1), t))
           | _ \<Rightarrow> (Inl AssertionError, s))
      | (RELATIONSHIP, CREATE) \<Rightarrow>
          (case sa_desired_relationship action of
             None \<Rightarrow> (Inl AssertionError, s)
           | Some relationship \<Rightarrow>
               (case (map_of local_to_remote (rs_source_local_id relationship),
                      map_of local_to_remote (rs_target_local_id relationship)) of
                  (Some source_remote, Some target_remote) \<Rightarrow>
                    (case ad_create_relationship adapter relationship source_remote target_remote s of
                       (Inl e, t) \<Rightarrow> (Inl e, t)
                     | (Inr _, t) \<Rightarrow> (Inr (local_to_remote, 1), t))
                | _ \<Rightarrow> (Inl (adapter_error ''relationship endpoints unresolved'' ''create_relationship'' None
                    (Some ''/sync/relationships'') None None None), s)))
      | _ \<Rightarrow> (Inr (local_to_remote, 0), s))"

fun apply_loop ::
  "'s CollibraAdapter \<Rightarrow> SyncPlan \<Rightarrow> nat \<Rightarrow> (string, string) dict \<Rightarrow> nat \<Rightarrow> SyncAction list \<Rightarrow> 's \<Rightarrow> SyncResult result \<times> 's" where
  "apply_loop adapter plan unchanged_count local_to_remote applied [] s =
     (Inr \<lparr>sr_success = True, sr_dry_run = False, sr_applied_count = applied, sr_unchanged_count = unchanged_count,
        sr_failed_action = None, sr_error = None, sr_plan = Some plan\<rparr>, s)"
| "apply_loop adapter plan unchanged_count local_to_remote applied (action # actions) s =
     (case apply_action adapter local_to_remote action s of
        (Inr (m, n), t) \<Rightarrow> apply_loop adapter plan unchanged_count m (applied + n) actions t
      | (Inl (AdapterError text operation), t) \<Rightarrow>
          (Inr \<lparr>sr_success = False, sr_dry_run = False, sr_applied_count = applied, sr_unchanged_count = unchanged_count,
             sr_failed_action = Some action, sr_error = Some text, sr_plan = Some plan\<rparr>, t)
      | (Inl e, t) \<Rightarrow> (Inl e, t))"

definition dry_run_sync_result :: "SyncPlan \<Rightarrow> SyncResult" where
  "dry_run_sync_result plan = \<lparr>sr_success = True, sr_dry_run = True, sr_applied_count = 0,
     sr_unchanged_count = length (plan_of_type UNCHANGED plan), sr_failed_action = None, sr_error = None, sr_plan = Some plan\<rparr>"

definition execute_sync_plan :: "'s CollibraAdapter \<Rightarrow> SyncPlan \<Rightarrow> bool \<Rightarrow> 's \<Rightarrow> SyncResult result \<times> 's" where
  "execute_sync_plan adapter plan apply s =
     (let unchanged_count = length (plan_of_type UNCHANGED plan);
          mutating = filter (\<lambda>a. sa_action_type a \<in> {CREATE, UPDATE}) (sp_actions plan) in
      if \<not> apply then (Inr (dry_run_sync_result plan), s)
      else apply_loop adapter plan unchanged_count (seed_remote_ids_from_plan plan) 0 (ordered_mutating_actions mutating) s)"

section \<open>The plan is the comparison\<close>

text \<open>The verdict on one local identifier, given the last desired and the last remote asset that carry it.\<close>

definition same_asset :: "CollibraAssetSpec \<Rightarrow> CollibraRemoteAsset \<Rightarrow> bool" where
  "same_asset x y \<longleftrightarrow> as_name x = rm_name y \<and> or_none (as_display_name x) = or_none (rm_display_name y) \<and>
     map_of (desired_attrs x) = map_of (remote_attrs y)"

fun asset_verdict :: "string \<Rightarrow> CollibraAssetSpec option \<Rightarrow> CollibraRemoteAsset option \<Rightarrow> SyncAction option" where
  "asset_verdict i None None = None"
| "asset_verdict i (Some x) None = Some (blank_action\<lparr>sa_action_type := CREATE, sa_local_id := Some i,
     sa_reason := ''desired asset has no managed remote match'', sa_desired_asset := Some x\<rparr>)"
| "asset_verdict i (Some x) (Some y) = Some (blank_action\<lparr>sa_local_id := Some i, sa_remote_id := Some (rm_remote_id y),
     sa_desired_asset := Some x,
     sa_action_type := (if same_asset x y then UNCHANGED else UPDATE),
     sa_reason := (if same_asset x y then ''supported asset state equivalent'' else ''supported asset metadata differs''),
     sa_changed_fields := sort (asset_changed_fields x y)\<rparr>)"
| "asset_verdict i None (Some y) = Some (blank_action\<lparr>sa_action_type := REMOTE_ONLY, sa_local_id := Some i,
     sa_remote_id := Some (rm_remote_id y), sa_reason := ''managed remote asset absent from desired state''\<rparr>)"

fun relationship_verdict :: "CollibraRelationshipSpec option \<Rightarrow> CollibraRemoteRelationship option \<Rightarrow> SyncAction option" where
  "relationship_verdict None None = None"
| "relationship_verdict (Some x) None = Some (blank_action\<lparr>sa_action_type := CREATE, sa_object_kind := RELATIONSHIP,
     sa_local_id := Some (rs_local_key x), sa_reason := ''desired relationship missing remotely'', sa_desired_relationship := Some x\<rparr>)"
| "relationship_verdict (Some x) (Some y) = Some (blank_action\<lparr>sa_object_kind := RELATIONSHIP,
     sa_local_id := Some (rs_local_key x), sa_remote_id := Some (rr_remote_id y), sa_reason := ''managed relationship equivalent'',
     sa_desired_relationship := Some x\<rparr>)"
| "relationship_verdict None (Some y) = Some (blank_action\<lparr>sa_action_type := REMOTE_ONLY, sa_object_kind := RELATIONSHIP,
     sa_local_id := rr_local_key y, sa_remote_id := Some (rr_remote_id y),
     sa_reason := ''managed remote relationship absent from desired state''\<rparr>)"

definition last_with :: "('a \<Rightarrow> 'k) \<Rightarrow> 'k \<Rightarrow> 'a list \<Rightarrow> 'a option" where
  "last_with f k xs = find (\<lambda>x. f x = k) (rev xs)"

lemma map_of_index_by: "map_of (index_by f xs) k = last_with f k xs"
  unfolding index_by_def last_with_def
  by (induction xs rule: rev_induct) (auto simp: dict_of_snoc)

lemma index_by_key: "(k, x) \<in> set (index_by f xs) \<Longrightarrow> x \<in> set xs \<and> k = f x"
  unfolding index_by_def by (rule dict_of_keyed)

lemma distinct_index_by [simp]: "distinct (keys (index_by f xs))"
  by (simp add: index_by_def)

lemma set_index_by: "set (index_by f xs) = {(k, x). last_with f k xs = Some x}"
  by (auto simp: map_of_index_by [symmetric] map_of_Some_iff_distinct)

lemma last_with_Some: "last_with f k xs = Some x \<Longrightarrow> x \<in> set xs \<and> f x = k"
  by (auto simp: last_with_def find_Some_iff) (metis nth_mem set_rev length_rev)

lemma last_with_None: "last_with f k xs = None \<longleftrightarrow> k \<notin> f ` set xs"
  by (auto simp: last_with_def find_None_iff)

lemma last_with_distinct:
  "distinct (map f xs) \<Longrightarrow> last_with f k xs = Some x \<longleftrightarrow> x \<in> set xs \<and> f x = k"
proof
  assume "distinct (map f xs)" "x \<in> set xs \<and> f x = k"
  then show "last_with f k xs = Some x"
    by (cases "last_with f k xs") (auto simp: last_with_None dest!: last_with_Some simp: distinct_map dest: inj_onD)
qed (rule last_with_Some)

lemma dict_eq_iff: "distinct (keys a) \<Longrightarrow> distinct (keys b) \<Longrightarrow> dict_eq a b \<longleftrightarrow> map_of a = map_of b"
  unfolding dict_eq_def by (rule map_of_inject_set [symmetric])

lemma changed_fields_Nil: "asset_changed_fields x y = [] \<longleftrightarrow> same_asset x y"
  using dict_eq_iff [of "desired_attrs x" "remote_attrs y"]
  by (auto simp: asset_changed_fields_def same_asset_def desired_attrs_def remote_attrs_def)

lemma desired_asset_action_ok:
  "desired_asset_action remote_assets (i, x) = Inr (the (asset_verdict i (Some x) (map_of remote_assets i)))"
  by (cases "map_of remote_assets i")
    (auto simp: desired_asset_action_def mk_sync_action_def blank_action_def changed_fields_Nil [symmetric])

lemma remote_asset_action_ok:
  "rm_remote_id y \<noteq> [] \<Longrightarrow> remote_asset_action (i, y) = Inr (the (asset_verdict i None (Some y)))"
  by (simp add: remote_asset_action_def mk_sync_action_def blank_action_def or_empty_def)

lemma desired_relationship_action_ok:
  "desired_relationship_action remote_rels (k, x) = Inr (the (relationship_verdict (Some x) (map_of remote_rels k)))"
  by (cases "map_of remote_rels k") (auto simp: desired_relationship_action_def mk_sync_action_def blank_action_def)

lemma remote_relationship_action_ok:
  "rr_remote_id y \<noteq> [] \<Longrightarrow> remote_relationship_action (k, y) = Inr (the (relationship_verdict None (Some y)))"
  by (simp add: remote_relationship_action_def mk_sync_action_def blank_action_def or_empty_def)

text \<open>Both halves of a comparison together: the entries of one index, then the entries only in the other.\<close>

lemma compare_indexes:
  fixes D :: "('k, 'v) dict" and R :: "('k, 'w) dict"
  assumes "distinct (keys D)" "distinct (keys R)"
    and "\<And>k x. (k, x) \<in> set D \<Longrightarrow> f (k, x) = Inr (the (V k (Some x) (map_of R k)))"
    and "\<And>k y. (k, y) \<in> set R \<Longrightarrow> g (k, y) = Inr (the (V k None (Some y)))"
    and V: "\<And>k. V k None None = None" "\<And>k x y. V k (Some x) y \<noteq> None" "\<And>k y. V k None (Some y) \<noteq> None"
  shows "\<exists>as bs. traverse f D = Inr as \<and> traverse g (absent_from R D) = Inr bs \<and>
    set (as @ bs) = {a. \<exists>k. V k (map_of D k) (map_of R k) = Some a} \<and>
    length (as @ bs) = card (dom (map_of D) \<union> dom (map_of R))"
proof (intro exI conjI)
  let ?F = "\<lambda>(k, x). the (V k (Some x) (map_of R k))"
  let ?G = "\<lambda>(k, y). the (V k None (Some y))"
  show "traverse f D = Inr (map ?F D)" using assms(3) by (intro traverse_Inr_map) auto
  show "traverse g (absent_from R D) = Inr (map ?G (absent_from R D))"
    using assms(4) by (intro traverse_Inr_map) (auto simp: absent_from_def)
  have D: "(k, x) \<in> set D \<longleftrightarrow> map_of D k = Some x" for k x using assms(1) by (simp add: map_of_Some_iff_distinct)
  have R: "(k, x) \<in> set R \<longleftrightarrow> map_of R k = Some x" for k x using assms(2) by (simp add: map_of_Some_iff_distinct)
  have none: "map_of D k = None \<longleftrightarrow> k \<notin> set (keys D)" for k by (rule map_of_None_iff)
  have set_F: "set (map ?F D) = {the (V k (Some x) (map_of R k)) | k x. (k, x) \<in> set D}" by force
  have set_G: "set (map ?G (absent_from R D)) = {the (V k None (Some y)) | k y. (k, y) \<in> set R \<and> k \<notin> set (keys D)}"
    by (force simp: absent_from_def)
  show "set (map ?F D @ map ?G (absent_from R D)) = {a. \<exists>k. V k (map_of D k) (map_of R k) = Some a}" (is "?L = ?S")
  proof (rule set_eqI)
    fix a
    have "a \<in> ?L \<longleftrightarrow> (\<exists>k x. map_of D k = Some x \<and> a = the (V k (Some x) (map_of R k))) \<or>
        (\<exists>k y. map_of R k = Some y \<and> map_of D k = None \<and> a = the (V k None (Some y)))"
      unfolding set_append Un_iff set_F set_G none by (auto simp: D R)
    also have "\<dots> \<longleftrightarrow> (\<exists>k. V k (map_of D k) (map_of R k) = Some a)" (is "?l \<longleftrightarrow> ?r")
    proof
      assume ?l
      then show ?r
      proof (elim disjE exE conjE)
        fix k x assume "map_of D k = Some x" "a = the (V k (Some x) (map_of R k))"
        then show ?r using V(2) [of k x "map_of R k"] by (intro exI [of _ k]) auto
      next
        fix k y assume "map_of R k = Some y" "map_of D k = None" "a = the (V k None (Some y))"
        then show ?r using V(3) [of k y] by (intro exI [of _ k]) auto
      qed
    next
      assume ?r
      then obtain k where k: "V k (map_of D k) (map_of R k) = Some a" ..
      show ?l
      proof (cases "map_of D k")
        case None
        then obtain y where "map_of R k = Some y" using k V(1) by (cases "map_of R k") auto
        then show ?thesis using None k by (intro disjI2 exI [of _ k] exI [of _ y]) simp
      next
        case (Some x)
        then show ?thesis using k by (intro disjI1 exI [of _ k] exI [of _ x]) simp
      qed
    qed
    finally show "a \<in> ?L \<longleftrightarrow> a \<in> ?S" by simp
  qed
  have "length (absent_from R D) = card (set (keys (absent_from R D)))"
    using assms(2) by (metis absent_from_def distinct_card distinct_map_filter length_map)
  also have "set (keys (absent_from R D)) = set (keys R) - set (keys D)" by (force simp: absent_from_def)
  finally have "length D + length (absent_from R D) = card (set (keys D)) + card (set (keys R) - set (keys D))"
    using assms(1) by (metis distinct_card length_map)
  also have "\<dots> = card (set (keys D) \<union> set (keys R))"
    by (subst card_Un_disjoint [symmetric]) (auto intro: arg_cong [where f = card])
  finally show "length (map ?F D @ map ?G (absent_from R D)) = card (dom (map_of D) \<union> dom (map_of R))"
    by (simp add: dom_map_of_conv_image_fst)
qed

lemma asset_verdict_None: "asset_verdict i (Some x) y \<noteq> None" "asset_verdict i None (Some z) \<noteq> None"
  by (cases y) auto

lemma relationship_verdict_None: "relationship_verdict (Some x) y \<noteq> None" "relationship_verdict None (Some z) \<noteq> None"
  by (cases y) auto

lemma build_sync_plan_exact:
  assumes "\<forall>y \<in> set (rem_assets r). rm_remote_id y \<noteq> []" "\<forall>y \<in> set (rem_relationships r). rr_remote_id y \<noteq> []"
  shows "\<exists>p. build_sync_plan d r = Inr p \<and> sorted (map sync_action_sort_key (sp_actions p)) \<and>
    set (sp_actions p) =
      {a. \<exists>i. asset_verdict i (last_with as_local_id i (des_assets d)) (last_with rm_local_id i (rem_assets r)) = Some a} \<union>
      {a. \<exists>k. relationship_verdict (last_with desired_key k (des_relationships d))
                (last_with remote_key k (rem_relationships r)) = Some a} \<and>
    length (sp_actions p) = card (as_local_id ` set (des_assets d) \<union> rm_local_id ` set (rem_assets r)) +
      card (desired_key ` set (des_relationships d) \<union> remote_key ` set (rem_relationships r))"
proof -
  let ?D = "index_by as_local_id (des_assets d)" and ?R = "index_by rm_local_id (rem_assets r)"
  let ?D' = "index_by desired_key (des_relationships d)" and ?R' = "index_by remote_key (rem_relationships r)"
  have dom: "dom (map_of (index_by f xs)) = f ` set xs" for f :: "'x \<Rightarrow> 'k" and xs
    by (rule set_eqI) (simp add: dom_def map_of_index_by, metis last_with_None not_None_eq)
  have "\<exists>a b. traverse (desired_asset_action ?R) ?D = Inr a \<and> traverse remote_asset_action (absent_from ?R ?D) = Inr b \<and>
    set (a @ b) = {a. \<exists>i. asset_verdict i (map_of ?D i) (map_of ?R i) = Some a} \<and>
    length (a @ b) = card (dom (map_of ?D) \<union> dom (map_of ?R))"
    by (rule compare_indexes [where V = asset_verdict])
      (use assms(1) in \<open>auto simp del: asset_verdict.simps simp: desired_asset_action_ok asset_verdict_None asset_verdict.simps(1)
        intro!: remote_asset_action_ok dest!: index_by_key\<close>)
  then obtain a b where ab: "traverse (desired_asset_action ?R) ?D = Inr a" "traverse remote_asset_action (absent_from ?R ?D) = Inr b"
    "set (a @ b) = {a. \<exists>i. asset_verdict i (map_of ?D i) (map_of ?R i) = Some a}"
    "length (a @ b) = card (dom (map_of ?D) \<union> dom (map_of ?R))" by (elim exE conjE)
  have "\<exists>c e. traverse (desired_relationship_action ?R') ?D' = Inr c \<and>
    traverse remote_relationship_action (absent_from ?R' ?D') = Inr e \<and>
    set (c @ e) = {a. \<exists>k. relationship_verdict (map_of ?D' k) (map_of ?R' k) = Some a} \<and>
    length (c @ e) = card (dom (map_of ?D') \<union> dom (map_of ?R'))"
    by (rule compare_indexes [where V = "\<lambda>k. relationship_verdict"])
      (use assms(2) in \<open>auto simp del: relationship_verdict.simps simp: desired_relationship_action_ok relationship_verdict_None
        relationship_verdict.simps(1) intro!: remote_relationship_action_ok dest!: index_by_key\<close>)
  then obtain c e where ce: "traverse (desired_relationship_action ?R') ?D' = Inr c"
    "traverse remote_relationship_action (absent_from ?R' ?D') = Inr e"
    "set (c @ e) = {a. \<exists>k. relationship_verdict (map_of ?D' k) (map_of ?R' k) = Some a}"
    "length (c @ e) = card (dom (map_of ?D') \<union> dom (map_of ?R'))" by (elim exE conjE)
  have "build_sync_plan d r = Inr (mk_sync_plan (a @ b @ c @ e))"
    by (simp add: build_sync_plan_def ab(1,2) ce(1,2))
  moreover have "set (a @ b @ c @ e) = set (a @ b) \<union> set (c @ e)" "length (a @ b @ c @ e) = length (a @ b) + length (c @ e)"
    by auto
  ultimately show ?thesis unfolding ab(3,4) ce(3,4) dom map_of_index_by
    by (intro exI [of _ "mk_sync_plan (a @ b @ c @ e)"]) (simp add: mk_sync_plan_def)
qed

section \<open>Execution fails fast\<close>

text \<open>A run in which every action of a list succeeds, with the identifiers and the state it leaves.\<close>

inductive performs ::
  "'s CollibraAdapter \<Rightarrow> (string, string) dict \<Rightarrow> 's \<Rightarrow> SyncAction list \<Rightarrow> (string, string) dict \<Rightarrow> 's \<Rightarrow> bool"
  for adapter :: "'s CollibraAdapter" where
  performs_Nil: "performs adapter m s [] m s"
| performs_Cons: "apply_action adapter m a s = (Inr (m1, n), t) \<Longrightarrow> performs adapter m1 t as m' s' \<Longrightarrow>
    performs adapter m s (a # as) m' s'"

inductive_simps performs_Nil_iff [simp]: "performs adapter m s [] m' s'"
inductive_simps performs_Cons_iff: "performs adapter m s (a # as) m' s'"

definition mutating :: "SyncAction \<Rightarrow> bool" where
  "mutating a \<longleftrightarrow> is_action CREATE ASSET a \<or> is_action UPDATE ASSET a \<or> is_action CREATE RELATIONSHIP a"

lemma apply_action_count:
  "mutating a \<Longrightarrow> apply_action ad m a s = (Inr (m1, n), t) \<Longrightarrow> n = 1"
  unfolding mutating_def is_action_def
  by (elim disjE conjE) (auto simp: apply_action_def split: option.splits prod.splits sum.splits)

lemma apply_loop_ok:
  "list_all mutating as \<Longrightarrow> performs ad m s as m' t \<Longrightarrow>
   apply_loop ad plan u m k as s = (Inr \<lparr>sr_success = True, sr_dry_run = False, sr_applied_count = k + length as,
     sr_unchanged_count = u, sr_failed_action = None, sr_error = None, sr_plan = Some plan\<rparr>, t)"
proof (induction as arbitrary: k m s)
  case (Cons a as)
  then obtain m1 n t1 where a: "apply_action ad m a s = (Inr (m1, n), t1)" "performs ad m1 t1 as m' t"
    by (auto simp: performs_Cons_iff)
  with Cons show ?case using apply_action_count [of a ad m s m1 n t1] by simp
qed simp

lemma apply_loop_failed:
  assumes "list_all mutating (pre @ a # post)" "performs ad m s pre m' s'" "apply_action ad m' a s' = (Inl e, t)"
  shows "apply_loop ad plan u m k (pre @ a # post) s = (case e of AdapterError text operation \<Rightarrow>
      Inr \<lparr>sr_success = False, sr_dry_run = False, sr_applied_count = k + length pre, sr_unchanged_count = u,
        sr_failed_action = Some a, sr_error = Some text, sr_plan = Some plan\<rparr> | _ \<Rightarrow> Inl e, t)"
  using assms
proof (induction pre arbitrary: k m s)
  case Nil
  then show ?case by (cases e) auto
next
  case (Cons b pre)
  then obtain m1 n t1 where b: "apply_action ad m b s = (Inr (m1, n), t1)" "performs ad m1 t1 pre m' s'"
    by (auto simp: performs_Cons_iff)
  have "n = 1" using Cons.prems(1) b(1) by (intro apply_action_count) auto
  with Cons.IH [of m1 t1 "Suc k"] Cons.prems b show ?case by (cases e) simp_all
qed

lemma performs_or_fails:
  "(\<exists>m' t. performs ad m s as m' t) \<or>
   (\<exists>pre a post m' s' e t. as = pre @ a # post \<and> performs ad m s pre m' s' \<and> apply_action ad m' a s' = (Inl e, t))"
proof (induction as arbitrary: m s)
  case Nil
  then show ?case by simp
next
  case (Cons a as)
  obtain r t where a: "apply_action ad m a s = (r, t)" by (cases "apply_action ad m a s") auto
  show ?case
  proof (cases r)
    case (Inl e)
    then show ?thesis using a performs_Nil [of ad m s] by (intro disjI2) (metis append_Nil)
  next
    case (Inr p)
    obtain m1 n where p: "p = (m1, n)" by (cases p)
    note step = performs_Cons [OF a [unfolded Inr p]]
    from Cons [of m1 t] show ?thesis
    proof (elim disjE exE conjE)
      fix m' t' assume "performs ad m1 t as m' t'"
      then show ?thesis using step by blast
    next
      fix pre b post m' s' e t'
      assume "as = pre @ b # post" "performs ad m1 t pre m' s'" "apply_action ad m' b s' = (Inl e, t')"
      then show ?thesis using step by (intro disjI2) (metis append_Cons)
    qed
  qed
qed

text \<open>The order of execution: assets are created parents first, then assets are updated, then relationships
  are created.\<close>

definition execution_key :: "SyncAction \<Rightarrow> nat \<times> nat \<times> string" where
  "execution_key a = (let i = or_empty (sa_local_id a) in
     if is_action CREATE ASSET a then (0, prefix_rank 0 ASSET_CREATE_ORDER i, i)
     else if is_action UPDATE ASSET a then (1, 0, i) else (2, 0, i))"

lemma sorted_ordered_mutating: "sorted (map execution_key (ordered_mutating_actions as))"
proof -
  let ?c = "sort_key asset_rank (filter (is_action CREATE ASSET) as)"
  let ?u = "sort_key (\<lambda>a. or_empty (sa_local_id a)) (filter (is_action UPDATE ASSET) as)"
  let ?r = "sort_key (\<lambda>a. or_empty (sa_local_id a)) (filter (is_action CREATE RELATIONSHIP) as)"
  have c: "map execution_key ?c = map (Pair 0) (map asset_rank ?c)" by (auto simp: execution_key_def asset_rank_def Let_def)
  have u: "map execution_key ?u = map (\<lambda>i. (1, 0, i)) (map (\<lambda>a. or_empty (sa_local_id a)) ?u)"
    by (auto simp: execution_key_def is_action_def)
  have r: "map execution_key ?r = map (\<lambda>i. (2, 0, i)) (map (\<lambda>a. or_empty (sa_local_id a)) ?r)"
    by (auto simp: execution_key_def is_action_def)
  have mono: "sorted xs \<Longrightarrow> (\<And>x y. x \<le> y \<Longrightarrow> f x \<le> f y) \<Longrightarrow> sorted (map f xs)" for f :: "'x::linorder \<Rightarrow> 'y::linorder" and xs
    by (simp add: sorted_wrt_map) (erule sorted_wrt_mono_rel [rotated], blast)
  have "sorted (map execution_key ?c)" unfolding c by (rule mono) (auto simp: less_eq_prod_def)
  moreover have "sorted (map execution_key ?u)" unfolding u by (rule mono) (auto simp: less_eq_prod_def)
  moreover have "sorted (map execution_key ?r)" unfolding r by (rule mono) (auto simp: less_eq_prod_def)
  ultimately show ?thesis unfolding ordered_mutating_actions_def
    by (auto simp: sorted_append execution_key_def is_action_def Let_def less_eq_prod_def)
qed

lemma mset_ordered_mutating: "mset (ordered_mutating_actions as) = mset (filter mutating as)"
proof (induction as)
  case (Cons a as)
  then show ?case
    by (auto simp: ordered_mutating_actions_def mutating_def is_action_def simp del: mset_filter)
qed (simp add: ordered_mutating_actions_def)

lemma mutating_actions: "filter mutating (filter (\<lambda>a. sa_action_type a \<in> {CREATE, UPDATE}) as) = filter mutating as"
  by (auto simp: mutating_def is_action_def intro: filter_cong)

definition plan_actions :: "SyncPlan \<Rightarrow> SyncAction list" where
  "plan_actions plan = ordered_mutating_actions (filter (\<lambda>a. sa_action_type a \<in> {CREATE, UPDATE}) (sp_actions plan))"

lemma mset_plan_actions: "mset (plan_actions p) = mset (filter mutating (sp_actions p))"
  unfolding plan_actions_def mset_ordered_mutating mutating_actions ..

lemma set_plan_actions: "set (plan_actions p) = {a \<in> set (sp_actions p). mutating a}"
  using mset_eq_setD [OF mset_plan_actions] by simp

lemma plan_actions_mutating: "list_all mutating (plan_actions p)"
  by (simp add: list_all_iff set_plan_actions)

lemma execute_runs:
  "(\<exists>m' t. performs ad (seed_remote_ids_from_plan p) s (plan_actions p) m' t \<and>
      execute_sync_plan ad p True s = (Inr \<lparr>sr_success = True, sr_dry_run = False, sr_applied_count = length (plan_actions p),
        sr_unchanged_count = length (plan_of_type UNCHANGED p), sr_failed_action = None, sr_error = None, sr_plan = Some p\<rparr>, t)) \<or>
   (\<exists>pre a post m' s' e t. plan_actions p = pre @ a # post \<and> performs ad (seed_remote_ids_from_plan p) s pre m' s' \<and>
      apply_action ad m' a s' = (Inl e, t) \<and>
      execute_sync_plan ad p True s = (case e of AdapterError text operation \<Rightarrow>
        Inr \<lparr>sr_success = False, sr_dry_run = False, sr_applied_count = length pre,
          sr_unchanged_count = length (plan_of_type UNCHANGED p), sr_failed_action = Some a, sr_error = Some text, sr_plan = Some p\<rparr>
        | _ \<Rightarrow> Inl e, t))"
proof -
  have run: "execute_sync_plan ad p True s =
      apply_loop ad p (length (plan_of_type UNCHANGED p)) (seed_remote_ids_from_plan p) 0 (plan_actions p) s"
    by (simp add: execute_sync_plan_def plan_actions_def Let_def)
  show ?thesis
    using performs_or_fails [of ad "seed_remote_ids_from_plan p" s "plan_actions p"]
  proof (elim disjE exE conjE)
    fix m' t assume r: "performs ad (seed_remote_ids_from_plan p) s (plan_actions p) m' t"
    then show ?thesis
      unfolding run using apply_loop_ok [OF plan_actions_mutating r, of p "length (plan_of_type UNCHANGED p)" 0] by (intro disjI1 exI [of _ m'] exI [of _ t] conjI) simp_all
  next
    fix pre a post m' s' e t
    assume *: "plan_actions p = pre @ a # post" "performs ad (seed_remote_ids_from_plan p) s pre m' s'"
      "apply_action ad m' a s' = (Inl e, t)"
    have "execute_sync_plan ad p True s = (case e of AdapterError text operation \<Rightarrow>
        Inr \<lparr>sr_success = False, sr_dry_run = False, sr_applied_count = length pre,
          sr_unchanged_count = length (plan_of_type UNCHANGED p), sr_failed_action = Some a, sr_error = Some text, sr_plan = Some p\<rparr>
        | _ \<Rightarrow> Inl e, t)"
      using apply_loop_failed [OF plan_actions_mutating [of p, unfolded *(1)] *(2,3), of p "length (plan_of_type UNCHANGED p)" 0]
      by (simp only: run *(1) add_0)
    then show ?thesis using * by blast
  qed
qed

section \<open>Relationship ends are known\<close>

lemma performs_append:
  "performs ad m s (as @ bs) m' s' \<longleftrightarrow> (\<exists>m1 t. performs ad m s as m1 t \<and> performs ad m1 t bs m' s')"
  by (induction as arbitrary: m s) (auto simp: performs_Cons_iff, blast+)

lemma apply_action_ids:
  assumes "apply_action ad m a s = (Inr (m1, n), t)"
  shows "dom (map_of m) \<subseteq> dom (map_of m1)"
    and "mutating a \<Longrightarrow> sa_object_kind a = ASSET \<Longrightarrow> \<exists>d. sa_desired_asset a = Some d \<and> as_local_id d \<in> dom (map_of m1)"
  using assms by (auto simp: apply_action_def mutating_def is_action_def
      split: option.splits prod.splits sum.splits SyncObjectKind.splits SyncActionType.splits)

lemma performs_ids:
  assumes "performs ad m s as m' t"
  shows "dom (map_of m) \<subseteq> dom (map_of m') \<and>
    (\<forall>a \<in> set as. mutating a \<longrightarrow> sa_object_kind a = ASSET \<longrightarrow> (\<exists>d. sa_desired_asset a = Some d \<and> as_local_id d \<in> dom (map_of m')))"
  using assms
proof (induction rule: performs.induct)
  case (performs_Cons m a s m1 n t as m' s')
  from performs_Cons.IH apply_action_ids [OF performs_Cons.hyps(1)] show ?case by (auto, blast+)
qed simp

lemma seed_snoc:
  "seed_remote_ids_from_plan \<lparr>sp_actions = as @ [a]\<rparr> =
     (let m = seed_remote_ids_from_plan \<lparr>sp_actions = as\<rparr> in
      case (sa_local_id a, sa_remote_id a) of
       (Some local_id, Some remote_id) \<Rightarrow>
         if sa_object_kind a = ASSET \<and> local_id \<noteq> [] \<and> remote_id \<noteq> [] \<and> sa_action_type a \<in> {UPDATE, UNCHANGED, REMOTE_ONLY}
         then AList.update local_id remote_id m else m
     | _ \<Rightarrow> m)"
  by (simp add: seed_remote_ids_from_plan_def Let_def)

definition seeds :: "SyncAction \<Rightarrow> string \<Rightarrow> string \<Rightarrow> bool" where
  "seeds a i r \<longleftrightarrow> sa_local_id a = Some i \<and> sa_remote_id a = Some r \<and> i \<noteq> [] \<and> r \<noteq> [] \<and> sa_object_kind a = ASSET \<and>
     sa_action_type a \<in> {UPDATE, UNCHANGED, REMOTE_ONLY}"

lemma seed_entries:
  "(map_of (seed_remote_ids_from_plan \<lparr>sp_actions = as\<rparr>) i = Some r \<longrightarrow> (\<exists>a \<in> set as. seeds a i r)) \<and>
   ((\<exists>a \<in> set as. seeds a i r) \<longrightarrow> i \<in> dom (map_of (seed_remote_ids_from_plan \<lparr>sp_actions = as\<rparr>)))"
proof (induction as rule: rev_induct)
  case Nil
  then show ?case by (simp add: seed_remote_ids_from_plan_def)
next
  case (snoc a as)
  show ?case
  proof (cases "\<exists>j q. seeds a j q")
    case True
    then obtain j q where a: "seeds a j q" by blast
    then have "seed_remote_ids_from_plan \<lparr>sp_actions = as @ [a]\<rparr> = AList.update j q (seed_remote_ids_from_plan \<lparr>sp_actions = as\<rparr>)"
      by (simp add: seed_snoc seeds_def)
    moreover have "seeds a i r \<longleftrightarrow> i = j \<and> r = q" using a by (auto simp: seeds_def)
    ultimately show ?thesis using snoc by auto
  next
    case False
    then have "seed_remote_ids_from_plan \<lparr>sp_actions = as @ [a]\<rparr> = seed_remote_ids_from_plan \<lparr>sp_actions = as\<rparr>"
      by (auto simp: seed_snoc seeds_def Let_def split: option.splits)
    then show ?thesis using snoc False by auto
  qed
qed

lemma seed_Some: "map_of (seed_remote_ids_from_plan p) i = Some r \<Longrightarrow> \<exists>a \<in> set (sp_actions p). seeds a i r"
  using seed_entries [of "sp_actions p" i r] by (cases p) simp

lemma seed_dom: "a \<in> set (sp_actions p) \<Longrightarrow> seeds a i r \<Longrightarrow> i \<in> dom (map_of (seed_remote_ids_from_plan p))"
  using seed_entries [of "sp_actions p" i r] by (cases p) auto

text \<open>
  In the order of execution no asset comes after a relationship, so that every asset of the plan has its
  remote identifier when the first relationship is created.
\<close>

lemma assets_first:
  assumes "plan_actions p = pre @ a # post" "sa_object_kind a = RELATIONSHIP" "b \<in> set (plan_actions p)" "sa_object_kind b = ASSET"
  shows "b \<in> set pre"
proof (rule ccontr)
  assume "b \<notin> set pre"
  with assms have b: "b \<in> set post" by auto
  have "sorted (map execution_key (pre @ a # post))"
    using sorted_ordered_mutating assms(1) unfolding plan_actions_def by metis
  with b have "execution_key a \<le> execution_key b" by (auto simp: sorted_append)
  moreover have "mutating b" using assms(3) by (simp add: set_plan_actions)
  ultimately show False using assms(2,4)
    by (auto simp: execution_key_def mutating_def is_action_def Let_def less_eq_prod_def split: if_splits)
qed

lemma verdict_in_plan:
  assumes "build_sync_plan d r = Inr p" "\<forall>y \<in> set (rem_assets r). rm_remote_id y \<noteq> []"
    "\<forall>y \<in> set (rem_relationships r). rr_remote_id y \<noteq> []"
  shows "set (sp_actions p) =
      {a. \<exists>i. asset_verdict i (last_with as_local_id i (des_assets d)) (last_with rm_local_id i (rem_assets r)) = Some a} \<union>
      {a. \<exists>k. relationship_verdict (last_with desired_key k (des_relationships d))
                (last_with remote_key k (rem_relationships r)) = Some a}"
  using build_sync_plan_exact [OF assms(2,3), of d] assms(1) by auto

lemma asset_verdict_desired:
  "asset_verdict i (Some x) y = Some a \<Longrightarrow> sa_object_kind a = ASSET \<and> sa_local_id a = Some i \<and> sa_desired_asset a = Some x \<and>
   (mutating a \<or> sa_action_type a = UNCHANGED \<and> (\<exists>z. y = Some z \<and> sa_remote_id a = Some (rm_remote_id z)))"
  by (cases y) (auto simp: mutating_def is_action_def blank_action_def split: if_splits)

lemma ends_before:
  assumes plan: "build_sync_plan d r = Inr p"
    and remote: "\<forall>y \<in> set (rem_assets r). rm_remote_id y \<noteq> []" "\<forall>y \<in> set (rem_relationships r). rr_remote_id y \<noteq> []"
    and ids: "\<forall>x \<in> set (des_assets d). as_local_id x \<noteq> []"
    and run: "plan_actions p = pre @ a # post" "sa_object_kind a = RELATIONSHIP" and i: "i \<in> as_local_id ` set (des_assets d)"
  shows "i \<in> dom (map_of (seed_remote_ids_from_plan p)) \<or>
    (\<exists>b \<in> set pre. mutating b \<and> sa_object_kind b = ASSET \<and> (\<exists>x. sa_desired_asset b = Some x \<and> as_local_id x = i))"
proof -
  obtain x where x: "last_with as_local_id i (des_assets d) = Some x" "as_local_id x = i" "x \<in> set (des_assets d)"
    using i last_with_None [of as_local_id i "des_assets d"] by (cases "last_with as_local_id i (des_assets d)") (auto dest: last_with_Some)
  define y where "y = last_with rm_local_id i (rem_assets r)"
  obtain b where b: "asset_verdict i (Some x) y = Some b" using asset_verdict_None(1) by blast
  then have "b \<in> set (sp_actions p)"
    using x(1) unfolding verdict_in_plan [OF plan remote] y_def by (intro UnI1 CollectI exI [of _ i]) simp
  note b = this asset_verdict_desired [OF b]
  show ?thesis
  proof (cases "mutating b")
    case True
    with b have "b \<in> set pre" by (intro assets_first [OF run]) (auto simp: set_plan_actions)
    with True b x(2) show ?thesis by auto
  next
    case False
    with b obtain z where z: "y = Some z" "sa_remote_id b = Some (rm_remote_id z)" "sa_action_type b = UNCHANGED" by auto
    have "z \<in> set (rem_assets r)" using z(1) unfolding y_def by (auto dest: last_with_Some)
    then have "seeds b i (rm_remote_id z)" using z b remote(1) ids x by (auto simp: seeds_def)
    then show ?thesis using b(1) seed_dom by blast
  qed
qed

lemma ends_known:
  assumes "build_sync_plan d r = Inr p"
    and "\<forall>y \<in> set (rem_assets r). rm_remote_id y \<noteq> []" "\<forall>y \<in> set (rem_relationships r). rr_remote_id y \<noteq> []"
    and "\<forall>x \<in> set (des_assets d). as_local_id x \<noteq> []"
    and "plan_actions p = pre @ a # post" "performs ad (seed_remote_ids_from_plan p) s pre m' s'"
    and "sa_object_kind a = RELATIONSHIP" "i \<in> as_local_id ` set (des_assets d)"
  shows "i \<in> dom (map_of m')"
  using ends_before [OF assms(1-5,7,8)] performs_ids [OF assms(6)] by auto

lemma relationship_action:
  assumes "build_sync_plan d r = Inr p"
    and "\<forall>y \<in> set (rem_assets r). rm_remote_id y \<noteq> []" "\<forall>y \<in> set (rem_relationships r). rr_remote_id y \<noteq> []"
    and "a \<in> set (plan_actions p)" "sa_object_kind a = RELATIONSHIP"
  shows "sa_action_type a = CREATE \<and> (\<exists>q \<in> set (des_relationships d). sa_desired_relationship a = Some q)"
proof -
  have a: "a \<in> set (sp_actions p)" "mutating a" using assms(4) by (simp_all add: set_plan_actions)
  then have create: "sa_action_type a = CREATE" using assms(5) by (auto simp: mutating_def is_action_def)
  have "\<not> (\<exists>i. asset_verdict i x y = Some a)" for x y
    using assms(5) by (cases x; cases y) (auto simp: blank_action_def)
  then obtain k where "relationship_verdict (last_with desired_key k (des_relationships d)) (last_with remote_key k (rem_relationships r)) = Some a"
    using a(1) unfolding verdict_in_plan [OF assms(1-3)] by fastforce
  then obtain q where "last_with desired_key k (des_relationships d) = Some q" "sa_desired_relationship a = Some q"
    using create by (cases "last_with desired_key k (des_relationships d)"; cases "last_with remote_key k (rem_relationships r)")
      (auto simp: blank_action_def)
  then show ?thesis using create by (auto dest: last_with_Some)
qed

text \<open>Each asset occurs in one action only.\<close>

lemma traverse_map_eq:
  "traverse f xs = Inr ys \<Longrightarrow> (\<And>x y. f x = Inr y \<Longrightarrow> g y = h x) \<Longrightarrow> map g ys = map h xs"
  by (induction xs arbitrary: ys) (auto simp: try_in_Inr)

lemma mk_sync_action_same:
  "mk_sync_action a = Inr b \<Longrightarrow> sa_object_kind b = sa_object_kind a \<and> sa_local_id b = sa_local_id a"
  using mk_sync_action_Inr [of a b] by simp

lemma action_of_entry:
  "desired_asset_action R e = Inr a \<Longrightarrow> sa_object_kind a = ASSET \<and> sa_local_id a = Some (fst e)"
  "remote_asset_action e2 = Inr a \<Longrightarrow> sa_object_kind a = ASSET \<and> sa_local_id a = Some (fst e2)"
  "desired_relationship_action R' e3 = Inr a \<Longrightarrow> sa_object_kind a = RELATIONSHIP"
  "remote_relationship_action e4 = Inr a \<Longrightarrow> sa_object_kind a = RELATIONSHIP"
  by (auto simp: desired_asset_action_def remote_asset_action_def desired_relationship_action_def remote_relationship_action_def
      Let_def blank_action_def dest!: mk_sync_action_same split: prod.splits option.splits if_splits)

lemma distinct_asset_actions:
  assumes "build_sync_plan d r = Inr p"
  shows "distinct (map sa_local_id (filter (\<lambda>a. sa_object_kind a = ASSET) (sp_actions p)))"
proof -
  let ?D = "index_by as_local_id (des_assets d)" and ?R = "index_by rm_local_id (rem_assets r)"
  obtain a b c e R where *: "traverse (desired_asset_action ?R) ?D = Inr a" "traverse remote_asset_action (absent_from ?R ?D) = Inr b"
    "traverse (desired_relationship_action R) (index_by desired_key (des_relationships d)) = Inr c"
    "traverse remote_relationship_action (absent_from R (index_by desired_key (des_relationships d))) = Inr e"
    "p = mk_sync_plan (a @ b @ c @ e)"
    using assms unfolding build_sync_plan_def Let_def try_in_Inr by blast
  have "map sa_local_id a = map (Some \<circ> fst) ?D" "map sa_local_id b = map (Some \<circ> fst) (absent_from ?R ?D)"
    by (rule traverse_map_eq [OF *(1)], simp add: action_of_entry, rule traverse_map_eq [OF *(2)], simp add: action_of_entry)
  moreover have "list_all (\<lambda>a. sa_object_kind a = ASSET) a" by (rule traverse_all [OF *(1)]) (simp add: action_of_entry)
  moreover have "list_all (\<lambda>a. sa_object_kind a = ASSET) b" by (rule traverse_all [OF *(2)]) (simp add: action_of_entry)
  moreover have "list_all (\<lambda>a. sa_object_kind a = RELATIONSHIP) c" by (rule traverse_all [OF *(3)]) (rule action_of_entry)
  moreover have "list_all (\<lambda>a. sa_object_kind a = RELATIONSHIP) e" by (rule traverse_all [OF *(4)]) (rule action_of_entry)
  ultimately have f: "filter (\<lambda>a. sa_object_kind a = ASSET) (a @ b @ c @ e) = a @ b"
    "map sa_local_id (a @ b) = map Some (keys ?D @ keys (absent_from ?R ?D))"
    by (auto simp: list_all_iff filter_id_conv filter_empty_conv)
  have "distinct (keys ?D @ keys (absent_from ?R ?D))"
    by (force simp: absent_from_def distinct_map_filter)
  then have "distinct (map sa_local_id (a @ b))" unfolding f(2) by (rule distinct_map [THEN iffD2, OF conjI]) simp
  moreover have "mset (map sa_local_id (filter (\<lambda>a. sa_object_kind a = ASSET) (sp_actions p))) = mset (map sa_local_id (a @ b))"
    using f(1) by (metis *(5) SyncPlan.select_convs(1) mk_sync_plan_def mset_filter mset_map mset_sort)
  ultimately show ?thesis by (metis mset_eq_imp_distinct_iff)
qed

text \<open>
  C23 (safety). Relationship ends are always resolved. When a plan is built from a desired state each of
  whose relationships joins two of its assets and is then executed, every relationship creation that is
  reached finds the remote identifiers of both of its ends, because all assets come before it: the
  executor's own error "relationship endpoints unresolved" never occurs, and whatever fails there is the
  adapter's call.
\<close>

theorem relationship_ends_resolved:
  assumes "build_sync_plan d r = Inr p"
    and "\<forall>y \<in> set (rem_assets r). rm_remote_id y \<noteq> []" "\<forall>y \<in> set (rem_relationships r). rr_remote_id y \<noteq> []"
    and "\<forall>x \<in> set (des_assets d). as_local_id x \<noteq> []"
    and "\<forall>q \<in> set (des_relationships d). {rs_source_local_id q, rs_target_local_id q} \<subseteq> as_local_id ` set (des_assets d)"
    and "plan_actions p = pre @ a # post" "performs ad (seed_remote_ids_from_plan p) s pre m' s'"
    and "sa_object_kind a = RELATIONSHIP"
  shows "\<exists>q source target. sa_desired_relationship a = Some q \<and> q \<in> set (des_relationships d) \<and>
    map_of m' (rs_source_local_id q) = Some source \<and> map_of m' (rs_target_local_id q) = Some target \<and>
    apply_action ad m' a s' = (case ad_create_relationship ad q source target s' of
      (Inl e, t) \<Rightarrow> (Inl e, t) | (Inr remote_id, t) \<Rightarrow> (Inr (m', 1), t))"
proof -
  have "a \<in> set (plan_actions p)" using assms(6) by simp
  from relationship_action [OF assms(1-3) this assms(8)] obtain q
    where create: "sa_action_type a = CREATE" and mem: "q \<in> set (des_relationships d)" and q: "sa_desired_relationship a = Some q"
    by blast
  have "rs_source_local_id q \<in> as_local_id ` set (des_assets d)" "rs_target_local_id q \<in> as_local_id ` set (des_assets d)"
    using assms(5) mem by auto
  then have "rs_source_local_id q \<in> dom (map_of m')" "rs_target_local_id q \<in> dom (map_of m')"
    using ends_known [OF assms(1-4,6-8)] by auto
  then obtain source target where "map_of m' (rs_source_local_id q) = Some source" "map_of m' (rs_target_local_id q) = Some target"
    by auto
  then show ?thesis using q mem create assms(8)
    by (auto simp: apply_action_def split: prod.splits sum.splits)
qed

definition silent_adapter :: "unit CollibraAdapter" where
  "silent_adapter = \<lparr>ad_read_remote_state = \<lambda>_ s. (Inr (mk_remote_state [] [] 0 0), s),
     ad_create_asset = \<lambda>d s. (Inr (''r'' @ as_local_id d), s), ad_update_asset = \<lambda>_ _ _ _ s. (Inr (), s),
     ad_create_relationship = \<lambda>_ _ _ s. (Inr ''r'', s)\<rparr>"

theorem relationship_ends_resolved_witness:
  "let d = \<lparr>des_assets = [\<lparr>as_local_id = ''db:a'', as_name = ''a'', as_asset_type_ref = ''t'', as_domain_ref = ''d'',
         as_display_name = None, as_attributes = []\<rparr>],
       des_relationships = [\<lparr>rs_local_key = ''k'', rs_source_local_id = ''db:a'', rs_target_local_id = ''db:a'', rs_relation_type_ref = ''t''\<rparr>]\<rparr>
   in \<exists>p a. build_sync_plan d (mk_remote_state [] [] 0 0) = Inr p \<and> a \<in> set (sp_actions p) \<and> sa_object_kind a = RELATIONSHIP \<and>
     (\<exists>q. sa_desired_relationship a = Some q \<and> q \<in> set (des_relationships d))"
proof -
  let ?x = "\<lparr>as_local_id = ''db:a'', as_name = ''a'', as_asset_type_ref = ''t'', as_domain_ref = ''d'',
         as_display_name = None, as_attributes = []\<rparr>"
  let ?q = "\<lparr>rs_local_key = ''k'', rs_source_local_id = ''db:a'', rs_target_local_id = ''db:a'', rs_relation_type_ref = ''t''\<rparr>"
  let ?d = "\<lparr>des_assets = [?x], des_relationships = [?q]\<rparr>" and ?r = "mk_remote_state [] [] 0 0"
  let ?a = "blank_action\<lparr>sa_action_type := CREATE, sa_local_id := Some ''db:a'',
     sa_reason := ''desired asset has no managed remote match'', sa_desired_asset := Some ?x\<rparr>"
  let ?b = "blank_action\<lparr>sa_action_type := CREATE, sa_object_kind := RELATIONSHIP, sa_local_id := Some ''k'',
     sa_reason := ''desired relationship missing remotely'', sa_desired_relationship := Some ?q\<rparr>"
  let ?p = "\<lparr>sp_actions = [?a, ?b]\<rparr>"
  have plan: "build_sync_plan ?d ?r = Inr ?p" by code_simp
  have acts: "plan_actions ?p = [?a] @ ?b # []" by code_simp
  have "performs silent_adapter (seed_remote_ids_from_plan ?p) () [?a] [(''db:a'', ''rdb:a'')] ()"
    by (simp add: performs_Cons_iff apply_action_def silent_adapter_def seed_remote_ids_from_plan_def blank_action_def)
  from relationship_ends_resolved [OF plan _ _ _ _ acts this]
  have "\<exists>q. sa_desired_relationship ?b = Some q \<and> q \<in> set (des_relationships ?d)"
    by (simp add: blank_action_def mk_remote_state_def)
  then have "build_sync_plan ?d ?r = Inr ?p \<and> ?b \<in> set (sp_actions ?p) \<and> sa_object_kind ?b = RELATIONSHIP \<and>
      (\<exists>q. sa_desired_relationship ?b = Some q \<and> q \<in> set (des_relationships ?d))"
    using plan by simp
  then show ?thesis unfolding Let_def by blast
qed

text \<open>
  C21 (functional). Execution fails fast. A dry run leaves the adapter's state as it is. An applying run goes
  through the creations and updates of the plan, each exactly once, in a fixed order (assets parents first,
  updates, relationships); either every action succeeds and all are counted, or the run stops at the first
  action that raises: the actions before it are counted, the failing one is reported with the adapter's
  text, what comes after it is never tried, and an exception that is not an adapter error propagates.
\<close>

theorem execution_fails_fast:
  "execute_sync_plan ad p False s = (Inr (dry_run_sync_result p), s) \<and>
   mset (plan_actions p) = mset (filter mutating (sp_actions p)) \<and> sorted (map execution_key (plan_actions p)) \<and>
   ((\<exists>m' t. performs ad (seed_remote_ids_from_plan p) s (plan_actions p) m' t \<and>
      execute_sync_plan ad p True s = (Inr \<lparr>sr_success = True, sr_dry_run = False, sr_applied_count = length (plan_actions p),
        sr_unchanged_count = length (plan_of_type UNCHANGED p), sr_failed_action = None, sr_error = None, sr_plan = Some p\<rparr>, t)) \<or>
    (\<exists>pre a post m' s' e t. plan_actions p = pre @ a # post \<and> performs ad (seed_remote_ids_from_plan p) s pre m' s' \<and>
      apply_action ad m' a s' = (Inl e, t) \<and>
      execute_sync_plan ad p True s = (case e of AdapterError text operation \<Rightarrow>
        Inr \<lparr>sr_success = False, sr_dry_run = False, sr_applied_count = length pre,
          sr_unchanged_count = length (plan_of_type UNCHANGED p), sr_failed_action = Some a, sr_error = Some text, sr_plan = Some p\<rparr>
        | _ \<Rightarrow> Inl e, t)))"
  using execute_runs [of ad p s] sorted_ordered_mutating mset_plan_actions [of p]
  by (simp add: execute_sync_plan_def plan_actions_def)

text \<open>
  C20 (functional). The plan is the comparison of the two states. When the remote objects have identifiers,
  planning never raises; the plan holds exactly one action per local asset identifier and one per
  relationship key that occur on either side: create for what is only desired, remote-only for what is
  only remote, and for an asset on both sides unchanged when name, display name and managed attributes
  agree, update with the fields that differ otherwise. Nothing is ever deleted.
\<close>

theorem sync_plan_exact:
  assumes "\<forall>y \<in> set (rem_assets r). rm_remote_id y \<noteq> []" "\<forall>y \<in> set (rem_relationships r). rr_remote_id y \<noteq> []"
  shows "\<exists>p. build_sync_plan d r = Inr p \<and> sorted (map sync_action_sort_key (sp_actions p)) \<and>
    set (sp_actions p) =
      {a. \<exists>i. asset_verdict i (last_with as_local_id i (des_assets d)) (last_with rm_local_id i (rem_assets r)) = Some a} \<union>
      {a. \<exists>k. relationship_verdict (last_with desired_key k (des_relationships d))
                (last_with remote_key k (rem_relationships r)) = Some a} \<and>
    length (sp_actions p) = card (as_local_id ` set (des_assets d) \<union> rm_local_id ` set (rem_assets r)) +
      card (desired_key ` set (des_relationships d) \<union> remote_key ` set (rem_relationships r))"
  by (rule build_sync_plan_exact [OF assms])

definition example_remote :: CollibraRemoteState where
  "example_remote = \<lparr>rem_assets = [\<lparr>rm_remote_id = ''7'', rm_local_id = ''db:s/d'', rm_name = ''old'', rm_asset_type_ref = ''t'',
       rm_domain_ref = ''x'', rm_display_name = None, rm_managed_attributes = []\<rparr>,
     \<lparr>rm_remote_id = ''8'', rm_local_id = ''db:s/e'', rm_name = ''e'', rm_asset_type_ref = ''t'',
       rm_domain_ref = ''x'', rm_display_name = None, rm_managed_attributes = []\<rparr>],
     rem_relationships = [], rem_unmanaged_assets_ignored = 0, rem_unmanaged_relationships_ignored = 0\<rparr>"

theorem sync_plan_exact_witness:
  "\<exists>p. build_sync_plan \<lparr>des_assets = model_assets mock_config example_model, des_relationships = []\<rparr> example_remote = Inr p \<and>
    length (sp_actions p) = 5"
proof -
  let ?d = "\<lparr>des_assets = model_assets mock_config example_model, des_relationships = []\<rparr>"
  have "card (as_local_id ` set (des_assets ?d) \<union> rm_local_id ` set (rem_assets example_remote)) +
      card (desired_key ` set (des_relationships ?d) \<union> remote_key ` set (rem_relationships example_remote)) = 5"
    by code_simp
  moreover have "\<exists>p. build_sync_plan ?d example_remote = Inr p \<and> length (sp_actions p) =
      card (as_local_id ` set (des_assets ?d) \<union> rm_local_id ` set (rem_assets example_remote)) +
      card (desired_key ` set (des_relationships ?d) \<union> remote_key ` set (rem_relationships example_remote))"
    using sync_plan_exact [of example_remote ?d] unfolding example_remote_def by auto
  ultimately show ?thesis by simp
qed

end
