(* ===== verification/Adapter.thy ===== *)
theory Adapter
  imports Sync
begin

text \<open>
  What plan execution relies on from an adapter, as locales. \<open>adapter_contract\<close>: every call keeps an
  invariant and loses nothing, and raises adapter errors only; then an execution of a plan never raises
  and loses nothing either. \<open>settling_adapter\<close> adds what a successful call achieves and that calls for one
  asset do not disturb another; then a successful execution leaves every created or updated asset current
  and every created relationship in place. The mock adapter is an interpretation of both.
\<close>

section \<open>Nothing is lost\<close>

definition is_adapter_error :: "error \<Rightarrow> bool" where
  "is_adapter_error e \<longleftrightarrow> (case e of AdapterError text operation \<Rightarrow> True | _ \<Rightarrow> False)"

definition raises_adapter_errors :: "'a result \<Rightarrow> bool" where
  "raises_adapter_errors r \<longleftrightarrow> (case r of Inl e \<Rightarrow> is_adapter_error e | Inr _ \<Rightarrow> True)"

lemma raises_adapter_errors_simps [simp]:
  "raises_adapter_errors (Inl e) = is_adapter_error e" "raises_adapter_errors (Inr x)"
  by (simp_all add: raises_adapter_errors_def)

lemma adapter_error_is [simp]: "is_adapter_error (adapter_error m op c p f a x)"
  by (simp add: is_adapter_error_def adapter_error_def)

lemma mk_sync_action_needs:
  assumes "mk_sync_action a = Inr b"
  shows "sa_object_kind a = ASSET \<Longrightarrow> sa_action_type a = CREATE \<Longrightarrow> \<exists>d. sa_desired_asset a = Some d"
    "sa_action_type a = UPDATE \<Longrightarrow> \<exists>d i. sa_desired_asset a = Some d \<and> sa_remote_id a = Some i"
    "sa_object_kind a = RELATIONSHIP \<Longrightarrow> sa_action_type a = CREATE \<Longrightarrow> \<exists>q. sa_desired_relationship a = Some q"
  using assms by (auto simp: mk_sync_action_def split: if_splits)

lemma case_adapter_error:
  "is_adapter_error e \<Longrightarrow> \<exists>x. (case e of AdapterError text operation \<Rightarrow> Inr (f text operation) | _ \<Rightarrow> Inl e) = Inr x"
  by (cases e) (simp_all add: is_adapter_error_def)

locale adapter_contract =
  fixes ad :: "'s CollibraAdapter" and inv :: "'s \<Rightarrow> bool" and keeps :: "'s \<Rightarrow> 's \<Rightarrow> bool"
  assumes keeps_refl: "keeps s s"
    and keeps_trans: "keeps s t \<Longrightarrow> keeps t u \<Longrightarrow> keeps s u"
    and create_safe: "inv s \<Longrightarrow> wf_asset d \<Longrightarrow> ad_create_asset ad d s = (r, t) \<Longrightarrow> inv t \<and> keeps s t \<and> raises_adapter_errors r"
    and update_safe: "inv s \<Longrightarrow> wf_asset d \<Longrightarrow> ad_update_asset ad i d pn pd s = (r', t) \<Longrightarrow> inv t \<and> keeps s t \<and> raises_adapter_errors r'"
    and relate_safe: "inv s \<Longrightarrow> wf_relationship_spec q \<Longrightarrow> ad_create_relationship ad q i j s = (r, t) \<Longrightarrow> inv t \<and> keeps s t \<and> raises_adapter_errors r"
begin

lemma action_safe:
  assumes "inv s" "wf_sync_action a" "apply_action ad m a s = (r, t)"
  shows "inv t \<and> keeps s t \<and> raises_adapter_errors r"
proof -
  have mk: "mk_sync_action a = Inr a" using assms(2) by (simp add: wf_sync_action_def)
  consider (create) "sa_object_kind a = ASSET" "sa_action_type a = CREATE" | (update) "sa_object_kind a = ASSET" "sa_action_type a = UPDATE"
    | (relate) "sa_object_kind a = RELATIONSHIP" "sa_action_type a = CREATE"
    | (none) "r = Inr (m, 0)" "t = s"
    using assms(3) by (cases "sa_object_kind a"; cases "sa_action_type a") (auto simp: apply_action_def)
  then show ?thesis
  proof cases
    case create
    then obtain d where d: "sa_desired_asset a = Some d" using mk_sync_action_needs(1) [OF mk] by blast
    then have wf: "wf_asset d" using assms(2) by (simp add: wf_sync_action_def)
    obtain q u where call: "ad_create_asset ad d s = (q, u)" by (cases "ad_create_asset ad d s")
    from create_safe [OF assms(1) wf call] show ?thesis
      using assms(3) create d call by (auto simp: apply_action_def split: sum.splits)
  next
    case update
    then obtain d i where d: "sa_desired_asset a = Some d" "sa_remote_id a = Some i" using mk_sync_action_needs(2) [OF mk] by blast
    then have wf: "wf_asset d" using assms(2) by (simp add: wf_sync_action_def)
    obtain q u where call: "ad_update_asset ad i d (''name'' \<in> set (sa_changed_fields a)) (''display_name'' \<in> set (sa_changed_fields a)) s = (q, u)"
      by (cases "ad_update_asset ad i d (''name'' \<in> set (sa_changed_fields a)) (''display_name'' \<in> set (sa_changed_fields a)) s")
    from update_safe [OF assms(1) wf call] show ?thesis
      using assms(3) update d call by (auto simp: apply_action_def split: sum.splits)
  next
    case relate
    then obtain q where q: "sa_desired_relationship a = Some q" using mk_sync_action_needs(3) [OF mk] by blast
    then have wf: "wf_relationship_spec q" using assms(2) by (simp add: wf_sync_action_def)
    show ?thesis
    proof (cases "\<exists>i j. map_of m (rs_source_local_id q) = Some i \<and> map_of m (rs_target_local_id q) = Some j")
      case True
      then obtain i j where ij: "map_of m (rs_source_local_id q) = Some i" "map_of m (rs_target_local_id q) = Some j" by blast
      obtain x u where call: "ad_create_relationship ad q i j s = (x, u)" by (cases "ad_create_relationship ad q i j s")
      from relate_safe [OF assms(1) wf call] show ?thesis
        using assms(3) relate q ij call by (auto simp: apply_action_def split: sum.splits)
    next
      case False
      then show ?thesis using assms(1,3) relate q keeps_refl by (auto simp: apply_action_def split: option.splits)
    qed
  next
    case none
    then show ?thesis using assms(1) keeps_refl by simp
  qed
qed

lemma performs_safe:
  "performs ad m s as m' t \<Longrightarrow> inv s \<Longrightarrow> \<forall>a \<in> set as. wf_sync_action a \<Longrightarrow> inv t \<and> keeps s t"
proof (induction rule: performs.induct)
  case (performs_Cons m a s m1 n t as m' s')
  then have "inv t \<and> keeps s t" using action_safe by fastforce
  with performs_Cons show ?case using keeps_trans by (meson list.set_intros(2))
qed (simp add: keeps_refl)

lemma execute_safe:
  assumes "inv s" "\<forall>a \<in> set (sp_actions p). wf_sync_action a"
  shows "\<exists>result t. execute_sync_plan ad p wet s = (Inr result, t) \<and> inv t \<and> keeps s t"
proof (cases wet)
  case False
  then show ?thesis using assms(1) keeps_refl by (simp add: execute_sync_plan_def Let_def)
next
  case True
  have acts: "\<forall>a \<in> set (plan_actions p). wf_sync_action a" using assms(2) by (simp add: set_plan_actions)
  from execute_runs [of ad p s] show ?thesis
  proof (elim disjE exE conjE)
    fix m' t assume "performs ad (seed_remote_ids_from_plan p) s (plan_actions p) m' t"
      and "execute_sync_plan ad p True s = (Inr \<lparr>sr_success = True, sr_dry_run = False, sr_applied_count = length (plan_actions p),
        sr_unchanged_count = length (plan_of_type UNCHANGED p), sr_failed_action = None, sr_error = None, sr_plan = Some p\<rparr>, t)"
    then show ?thesis using performs_safe assms(1) acts True by simp
  next
    fix pre a post m' s' e t
    assume *: "plan_actions p = pre @ a # post" "performs ad (seed_remote_ids_from_plan p) s pre m' s'"
      "apply_action ad m' a s' = (Inl e, t)"
      and run: "execute_sync_plan ad p True s = (case e of AdapterError text operation \<Rightarrow>
        Inr \<lparr>sr_success = False, sr_dry_run = False, sr_applied_count = length pre,
          sr_unchanged_count = length (plan_of_type UNCHANGED p), sr_failed_action = Some a, sr_error = Some text, sr_plan = Some p\<rparr>
        | _ \<Rightarrow> Inl e, t)"
    have "inv s' \<and> keeps s s'" using performs_safe [OF *(2) assms(1)] acts *(1) by simp
    moreover have "wf_sync_action a" using acts *(1) by auto
    ultimately have "inv t \<and> keeps s t \<and> is_adapter_error e"
      using action_safe [of s' a m' "Inl e" t] *(3) keeps_trans by auto
    then show ?thesis using run True case_adapter_error [of e] by (cases e) (auto simp: is_adapter_error_def)
  qed
qed

end

section \<open>What is applied is there\<close>

text \<open>A step that concerns the assets with addresses in \<open>I\<close> leaves alone what is known about the others.
  \<open>ready None d\<close> says that \<open>d\<close> can be created, \<open>ready (Some (pn, pd)) d\<close> that it can be updated with its
  name patched if \<open>pn\<close> and its display name if \<open>pd\<close>.\<close>

type_synonym patch = "(bool \<times> bool) option"

definition undisturbed ::
  "(string \<Rightarrow> string) \<Rightarrow> (CollibraAssetSpec \<Rightarrow> 's \<Rightarrow> bool) \<Rightarrow> (patch \<Rightarrow> CollibraAssetSpec \<Rightarrow> 's \<Rightarrow> bool) \<Rightarrow> (relationship_key \<Rightarrow> 's \<Rightarrow> bool) \<Rightarrow>
   (string \<Rightarrow> 's \<Rightarrow> bool) \<Rightarrow> string set \<Rightarrow> 's \<Rightarrow> 's \<Rightarrow> bool" where
  "undisturbed addr current ready linked present I s t \<longleftrightarrow>
     (\<forall>d. addr (as_local_id d) \<notin> I \<longrightarrow> (current d s \<longrightarrow> current d t) \<and> (\<forall>p. ready p d s \<longrightarrow> ready p d t)) \<and>
     (\<forall>k. linked k s \<longrightarrow> linked k t) \<and> (\<forall>j. present j s \<longrightarrow> present j t)"

lemma undisturbed_refl: "undisturbed addr current ready linked present I s s"
  by (simp add: undisturbed_def)

lemma undisturbed_trans:
  "undisturbed addr current ready linked present I s t \<Longrightarrow> undisturbed addr current ready linked present J t u \<Longrightarrow>
   undisturbed addr current ready linked present (I \<union> J) s u"
  by (simp add: undisturbed_def)

text \<open>An action for which the state is ready, and what it means that an action is settled.\<close>

definition asset_ids_of :: "SyncAction \<Rightarrow> string set" where
  "asset_ids_of a = (case (sa_object_kind a, sa_desired_asset a) of (ASSET, Some d) \<Rightarrow> {as_local_id d} | _ \<Rightarrow> {})"

definition patch_of :: "SyncAction \<Rightarrow> patch" where
  "patch_of a = (if sa_action_type a = CREATE then None
     else Some (''name'' \<in> set (sa_changed_fields a), ''display_name'' \<in> set (sa_changed_fields a)))"

definition prepared ::
  "(string \<Rightarrow> string) \<Rightarrow> (CollibraAssetSpec \<Rightarrow> bool) \<Rightarrow> (patch \<Rightarrow> CollibraAssetSpec \<Rightarrow> 's \<Rightarrow> bool) \<Rightarrow> SyncAction \<Rightarrow> 's \<Rightarrow> bool" where
  "prepared addr good ready a s \<longleftrightarrow> mutating a \<and> wf_sync_action a \<and>
     (sa_object_kind a = ASSET \<longrightarrow> (\<exists>d. sa_desired_asset a = Some d \<and> good d \<and> ready (patch_of a) d s \<and>
        (sa_action_type a = UPDATE \<longrightarrow> sa_remote_id a = Some (addr (as_local_id d)))))"

definition settled ::
  "(CollibraAssetSpec \<Rightarrow> 's \<Rightarrow> bool) \<Rightarrow> (relationship_key \<Rightarrow> 's \<Rightarrow> bool) \<Rightarrow> SyncAction \<Rightarrow> 's \<Rightarrow> bool" where
  "settled current linked a s \<longleftrightarrow>
     (case sa_object_kind a of
        ASSET \<Rightarrow> (\<exists>d. sa_desired_asset a = Some d \<and> current d s)
      | RELATIONSHIP \<Rightarrow> (\<exists>q. sa_desired_relationship a = Some q \<and> linked (desired_key q) s))"

text \<open>Two actions of a plan never concern the same asset.\<close>

lemma sorted_wrt_distinct:
  "distinct (map f xs) \<Longrightarrow> (\<And>x y. x \<in> set xs \<Longrightarrow> y \<in> set xs \<Longrightarrow> f x \<noteq> f y \<Longrightarrow> P x y) \<Longrightarrow> sorted_wrt P xs"
  by (induction xs) auto

lemma sorted_wrt_filterD:
  "sorted_wrt P (filter A xs) \<Longrightarrow> (\<And>x y. \<not> A x \<Longrightarrow> P x y \<and> P y x) \<Longrightarrow> sorted_wrt P xs"
  by (induction xs) (auto split: if_splits)

lemma action_asset_id:
  assumes "build_sync_plan d r = Inr p" "\<forall>y \<in> set (rem_assets r). rm_remote_id y \<noteq> []"
    "\<forall>y \<in> set (rem_relationships r). rr_remote_id y \<noteq> []" "a \<in> set (sp_actions p)" "asset_ids_of a \<noteq> {}"
  shows "sa_object_kind a = ASSET \<and> (\<exists>x. sa_desired_asset a = Some x \<and> sa_local_id a = Some (as_local_id x) \<and> asset_ids_of a = {as_local_id x})"
proof -
  obtain x where x: "sa_object_kind a = ASSET" "sa_desired_asset a = Some x" "asset_ids_of a = {as_local_id x}"
    using assms(5) by (auto simp: asset_ids_of_def split: SyncObjectKind.splits option.splits)
  have "relationship_verdict v w \<noteq> Some a" for v w using x(1) by (cases v; cases w) (auto simp: blank_action_def)
  then obtain i where i: "asset_verdict i (last_with as_local_id i (des_assets d)) (last_with rm_local_id i (rem_assets r)) = Some a"
    using assms(4) unfolding verdict_in_plan [OF assms(1-3)] by auto
  then have "last_with as_local_id i (des_assets d) = Some x \<and> sa_local_id a = Some i"
    using x(2) by (cases "last_with as_local_id i (des_assets d)"; cases "last_with rm_local_id i (rem_assets r)")
      (auto simp: blank_action_def)
  then show ?thesis using x last_with_Some by fastforce
qed

lemma disjoint_asset_actions:
  assumes "build_sync_plan d r = Inr p" "\<forall>y \<in> set (rem_assets r). rm_remote_id y \<noteq> []"
    "\<forall>y \<in> set (rem_relationships r). rr_remote_id y \<noteq> []"
  shows "sorted_wrt (\<lambda>a b. asset_ids_of a \<inter> asset_ids_of b = {}) (plan_actions p)"
proof -
  let ?A = "\<lambda>a. sa_object_kind a = ASSET"
  have perm: "mset (filter ?A (plan_actions p)) = mset (filter mutating (filter ?A (sp_actions p)))"
    by (simp add: mset_plan_actions filter_filter_mset conj_commute)
  have "distinct (map sa_local_id (filter mutating (filter ?A (sp_actions p))))"
    by (rule distinct_map_filter [OF distinct_asset_actions [OF assms(1)]])
  then have dist: "distinct (map sa_local_id (filter ?A (plan_actions p)))"
    using perm by (metis mset_eq_imp_distinct_iff mset_map)
  have mem: "a \<in> set (sp_actions p)" if "a \<in> set (plan_actions p)" for a using that by (simp add: set_plan_actions)
  have "sorted_wrt (\<lambda>a b. asset_ids_of a \<inter> asset_ids_of b = {}) (filter ?A (plan_actions p))"
  proof (rule sorted_wrt_distinct [OF dist])
    fix a b assume "a \<in> set (filter ?A (plan_actions p))" "b \<in> set (filter ?A (plan_actions p))" "sa_local_id a \<noteq> sa_local_id b"
    then show "asset_ids_of a \<inter> asset_ids_of b = {}"
      using action_asset_id [OF assms, of a] action_asset_id [OF assms, of b] mem by (cases "asset_ids_of a = {}"; cases "asset_ids_of b = {}") auto
  qed
  then show ?thesis by (rule sorted_wrt_filterD) (auto simp: asset_ids_of_def split: SyncObjectKind.splits)
qed

text \<open>Remote identifiers are the addresses of assets that are there.\<close>

definition sound_ids :: "(string \<Rightarrow> string) \<Rightarrow> (string \<Rightarrow> 's \<Rightarrow> bool) \<Rightarrow> (string, string) dict \<Rightarrow> 's \<Rightarrow> bool" where
  "sound_ids addr present m s \<longleftrightarrow> (\<forall>i r. map_of m i = Some r \<longrightarrow> r = addr i \<and> present i s)"

lemma prepared_stable:
  "prepared addr good ready a s \<Longrightarrow> undisturbed addr current ready linked present I s t \<Longrightarrow> addr ` asset_ids_of a \<inter> I = {} \<Longrightarrow>
   prepared addr good ready a t"
  by (auto simp: prepared_def undisturbed_def asset_ids_of_def simp del: split_paired_All)

lemma settled_stable:
  "settled current linked a s \<Longrightarrow> undisturbed addr current ready linked present I s t \<Longrightarrow> addr ` asset_ids_of a \<inter> I = {} \<Longrightarrow>
   settled current linked a t"
  by (auto simp: settled_def undisturbed_def asset_ids_of_def simp del: split_paired_All split: SyncObjectKind.splits)

lemma sound_ids_stable:
  "sound_ids addr present m s \<Longrightarrow> undisturbed addr current ready linked present I s t \<Longrightarrow> sound_ids addr present m t"
  by (auto simp: sound_ids_def undisturbed_def)

lemma sound_ids_update:
  "sound_ids addr present m t \<Longrightarrow> present i t \<Longrightarrow> sound_ids addr present (AList.update i (addr i) m) t"
  by (auto simp: sound_ids_def)

locale settling_adapter = adapter_contract ad inv keeps
  for ad :: "'s CollibraAdapter" and inv :: "'s \<Rightarrow> bool" and keeps :: "'s \<Rightarrow> 's \<Rightarrow> bool" +
  fixes addr :: "string \<Rightarrow> string"
    and good :: "CollibraAssetSpec \<Rightarrow> bool"
    and current :: "CollibraAssetSpec \<Rightarrow> 's \<Rightarrow> bool"
    and ready :: "patch \<Rightarrow> CollibraAssetSpec \<Rightarrow> 's \<Rightarrow> bool"
    and linked :: "relationship_key \<Rightarrow> 's \<Rightarrow> bool"
    and present :: "string \<Rightarrow> 's \<Rightarrow> bool"
  assumes current_present: "current d s \<Longrightarrow> present (as_local_id d) s"
    and create_settles: "inv s \<Longrightarrow> good d \<Longrightarrow> ready None d s \<Longrightarrow>
      \<exists>t. ad_create_asset ad d s = (Inr (addr (as_local_id d)), t) \<and> current d t \<and>
        undisturbed addr current ready linked present {addr (as_local_id d)} s t"
    and update_settles: "inv s \<Longrightarrow> good d \<Longrightarrow> ready (Some (pn, pd)) d s \<Longrightarrow>
      \<exists>u t. ad_update_asset ad (addr (as_local_id d)) d pn pd s = (Inr u, t) \<and> current d t \<and>
        undisturbed addr current ready linked present {addr (as_local_id d)} s t"
    and relate_settles: "inv s \<Longrightarrow> present (rs_source_local_id q) s \<Longrightarrow> present (rs_target_local_id q) s \<Longrightarrow>
      \<exists>r t. ad_create_relationship ad q (addr (rs_source_local_id q)) (addr (rs_target_local_id q)) s = (Inr r, t) \<and>
        linked (desired_key q) t \<and> undisturbed addr current ready linked present {} s t"
begin

lemma action_settles:
  assumes "inv s" "prepared addr good ready a s" "sound_ids addr present m s"
    and ends: "\<forall>q. sa_object_kind a = RELATIONSHIP \<longrightarrow> sa_desired_relationship a = Some q \<longrightarrow>
      {rs_source_local_id q, rs_target_local_id q} \<subseteq> dom (map_of m)"
  shows "\<exists>m1 t. apply_action ad m a s = (Inr (m1, 1), t) \<and> settled current linked a t \<and>
    undisturbed addr current ready linked present (addr ` asset_ids_of a) s t \<and> sound_ids addr present m1 t"
proof -
  from assms(2) have "mutating a" by (simp add: prepared_def)
  then consider (create) "sa_object_kind a = ASSET" "sa_action_type a = CREATE"
    | (update) "sa_object_kind a = ASSET" "sa_action_type a = UPDATE"
    | (relate) "sa_object_kind a = RELATIONSHIP" "sa_action_type a = CREATE" by (auto simp: mutating_def is_action_def)
  then show ?thesis
  proof cases
    case create
    then obtain d where d: "sa_desired_asset a = Some d" "good d" "ready None d s"
      using assms(2) by (auto simp: prepared_def patch_of_def)
    obtain t where t: "ad_create_asset ad d s = (Inr (addr (as_local_id d)), t)" "current d t"
      "undisturbed addr current ready linked present {addr (as_local_id d)} s t" using create_settles [OF assms(1) d(2,3)] by blast
    then show ?thesis using create d(1) sound_ids_update [OF sound_ids_stable [OF assms(3) t(3)] current_present [OF t(2)]]
      by (simp add: apply_action_def settled_def asset_ids_of_def)
  next
    case update
    then obtain d where d: "sa_desired_asset a = Some d" "good d" "sa_remote_id a = Some (addr (as_local_id d))"
      "ready (Some (''name'' \<in> set (sa_changed_fields a), ''display_name'' \<in> set (sa_changed_fields a))) d s"
      using assms(2) by (auto simp: prepared_def patch_of_def)
    obtain u t where t: "ad_update_asset ad (addr (as_local_id d)) d (''name'' \<in> set (sa_changed_fields a))
        (''display_name'' \<in> set (sa_changed_fields a)) s = (Inr u, t)" "current d t"
      "undisturbed addr current ready linked present {addr (as_local_id d)} s t" using update_settles [OF assms(1) d(2,4)] by blast
    then show ?thesis using update d sound_ids_update [OF sound_ids_stable [OF assms(3) t(3)] current_present [OF t(2)]]
      by (simp add: apply_action_def settled_def asset_ids_of_def)
  next
    case relate
    then obtain q where q: "sa_desired_relationship a = Some q"
      using assms(2) mk_sync_action_needs(3) [of a a] by (auto simp: prepared_def wf_sync_action_def)
    then have "{rs_source_local_id q, rs_target_local_id q} \<subseteq> dom (map_of m)" using ends relate(1) by simp
    then have m: "map_of m (rs_source_local_id q) = Some (addr (rs_source_local_id q))" "present (rs_source_local_id q) s"
      "map_of m (rs_target_local_id q) = Some (addr (rs_target_local_id q))" "present (rs_target_local_id q) s"
      using assms(3) by (auto simp: sound_ids_def)
    obtain r t where t: "ad_create_relationship ad q (addr (rs_source_local_id q)) (addr (rs_target_local_id q)) s = (Inr r, t)"
      "linked (desired_key q) t" "undisturbed addr current ready linked present {} s t"
      using relate_settles [OF assms(1) m(2,4)] by blast
    then show ?thesis using relate q m sound_ids_stable [OF assms(3) t(3)]
      by (simp add: apply_action_def settled_def asset_ids_of_def)
  qed
qed

text \<open>A list of prepared actions for different assets all of whose relationship ends have been mapped, or are
  mapped by an earlier action of the list, runs to its end.\<close>

lemma performs_settles:
  assumes "inv s" "\<forall>a \<in> set as. prepared addr good ready a s" "sound_ids addr present m s"
    and "sorted_wrt (\<lambda>a b. addr ` asset_ids_of a \<inter> addr ` asset_ids_of b = {}) as"
    and "\<And>pre a post q. as = pre @ a # post \<Longrightarrow> sa_object_kind a = RELATIONSHIP \<Longrightarrow> sa_desired_relationship a = Some q \<Longrightarrow>
      {rs_source_local_id q, rs_target_local_id q} \<subseteq> dom (map_of m) \<union> \<Union> (asset_ids_of ` set pre)"
  shows "\<exists>m' t. performs ad m s as m' t \<and> inv t \<and> (\<forall>a \<in> set as. settled current linked a t) \<and>
    undisturbed addr current ready linked present (\<Union> ((`) addr ` asset_ids_of ` set as)) s t"
  using assms
proof (induction as arbitrary: m s)
  case Nil
  then show ?case by (simp add: undisturbed_refl)
next
  case (Cons a as)
  have "\<exists>m1 t. apply_action ad m a s = (Inr (m1, 1), t) \<and> settled current linked a t \<and>
    undisturbed addr current ready linked present (addr ` asset_ids_of a) s t \<and> sound_ids addr present m1 t"
    using Cons.prems(2) Cons.prems(5) [of "[]" a as]
    by (intro action_settles [OF Cons.prems(1) _ Cons.prems(3)]) auto
  then obtain m1 t where a: "apply_action ad m a s = (Inr (m1, 1), t)" "settled current linked a t"
    "undisturbed addr current ready linked present (addr ` asset_ids_of a) s t" "sound_ids addr present m1 t" by blast
  have prep: "prepared addr good ready a s" using Cons.prems(2) by simp
  have inv: "inv t" using action_safe [OF Cons.prems(1) _ a(1)] prep by (auto simp: prepared_def)
  have others: "\<forall>b \<in> set as. prepared addr good ready b t"
    using Cons.prems(2,4) prepared_stable [OF _ a(3)] by (auto simp: Int_commute)
  have grow: "dom (map_of m) \<union> asset_ids_of a \<subseteq> dom (map_of m1)"
    using apply_action_ids [OF a(1)] prep by (auto simp: asset_ids_of_def prepared_def split: SyncObjectKind.splits option.splits)
  have "\<exists>m' u. performs ad m1 t as m' u \<and> inv u \<and> (\<forall>a \<in> set as. settled current linked a u) \<and>
    undisturbed addr current ready linked present (\<Union> ((`) addr ` asset_ids_of ` set as)) t u"
  proof (rule Cons.IH [OF inv others a(4)])
    show "sorted_wrt (\<lambda>a b. addr ` asset_ids_of a \<inter> addr ` asset_ids_of b = {}) as" using Cons.prems(4) by simp
    show "{rs_source_local_id q, rs_target_local_id q} \<subseteq> dom (map_of m1) \<union> \<Union> (asset_ids_of ` set pre)"
      if "as = pre @ b # post" "sa_object_kind b = RELATIONSHIP" "sa_desired_relationship b = Some q" for pre b post q
      using Cons.prems(5) [of "a # pre" b post q] that grow by auto
  qed
  then obtain m' u where rest: "performs ad m1 t as m' u" "inv u" "\<forall>a \<in> set as. settled current linked a u"
    "undisturbed addr current ready linked present (\<Union> ((`) addr ` asset_ids_of ` set as)) t u" by blast
  have "addr ` asset_ids_of a \<inter> \<Union> ((`) addr ` asset_ids_of ` set as) = {}" using Cons.prems(4) by auto
  then have "settled current linked a u" using settled_stable [OF a(2) rest(4)] by blast
  then show ?case using rest undisturbed_trans [OF a(3) rest(4)] performs_Cons [OF a(1) rest(1)]
    by (intro exI [of _ m'] exI [of _ u]) simp
qed

lemma plan_settles:
  assumes "inv s" "inj_on addr (\<Union> (asset_ids_of ` set (plan_actions p)))" "build_sync_plan d r = Inr p"
    and remote: "\<forall>y \<in> set (rem_assets r). rm_remote_id y \<noteq> []" "\<forall>y \<in> set (rem_relationships r). rr_remote_id y \<noteq> []"
    and ids: "\<forall>x \<in> set (des_assets d). as_local_id x \<noteq> []"
    and ends: "\<forall>q \<in> set (des_relationships d). {rs_source_local_id q, rs_target_local_id q} \<subseteq> as_local_id ` set (des_assets d)"
    and prep: "\<forall>a \<in> set (plan_actions p). prepared addr good ready a s"
    and sound: "sound_ids addr present (seed_remote_ids_from_plan p) s"
  shows "\<exists>t. execute_sync_plan ad p True s = (Inr \<lparr>sr_success = True, sr_dry_run = False, sr_applied_count = length (plan_actions p),
        sr_unchanged_count = length (plan_of_type UNCHANGED p), sr_failed_action = None, sr_error = None, sr_plan = Some p\<rparr>, t) \<and>
    inv t \<and> (\<forall>a \<in> set (plan_actions p). settled current linked a t) \<and>
    undisturbed addr current ready linked present (addr ` \<Union> (asset_ids_of ` set (plan_actions p))) s t"
proof -
  have ends_ok: "{rs_source_local_id q, rs_target_local_id q} \<subseteq>
      dom (map_of (seed_remote_ids_from_plan p)) \<union> \<Union> (asset_ids_of ` set pre)"
    if pre: "plan_actions p = pre @ a # post" "sa_object_kind a = RELATIONSHIP" "sa_desired_relationship a = Some q" for pre a post q
  proof -
    have "q \<in> set (des_relationships d)" using relationship_action [OF assms(3) remote _ pre(2)] pre by auto
    then have "{rs_source_local_id q, rs_target_local_id q} \<subseteq> as_local_id ` set (des_assets d)" using ends by blast
    moreover have "i \<in> dom (map_of (seed_remote_ids_from_plan p)) \<union> \<Union> (asset_ids_of ` set pre)"
      if "i \<in> as_local_id ` set (des_assets d)" for i
      using ends_before [OF assms(3) remote ids pre(1,2) that]
    proof (elim disjE bexE conjE exE)
      fix b x assume "b \<in> set pre" "sa_object_kind b = ASSET" "sa_desired_asset b = Some x" "as_local_id x = i"
      then show ?thesis by (intro UnI2 UN_I [of b]) (simp_all add: asset_ids_of_def)
    qed simp
    ultimately show ?thesis by blast
  qed
  have eq: "addr ` \<Union> (asset_ids_of ` set (plan_actions p)) = \<Union> ((`) addr ` asset_ids_of ` set (plan_actions p))" by blast
  have "\<exists>m' t. performs ad (seed_remote_ids_from_plan p) s (plan_actions p) m' t \<and> inv t \<and>
    (\<forall>a \<in> set (plan_actions p). settled current linked a t) \<and>
    undisturbed addr current ready linked present (addr ` \<Union> (asset_ids_of ` set (plan_actions p))) s t"
    unfolding eq
  proof (rule performs_settles [OF assms(1) prep sound])
    have "addr ` asset_ids_of a \<inter> addr ` asset_ids_of b = {}"
      if "a \<in> set (plan_actions p)" "b \<in> set (plan_actions p)" "asset_ids_of a \<inter> asset_ids_of b = {}" for a b
      using that inj_on_image_Int [OF assms(2), of "asset_ids_of a" "asset_ids_of b"] by blast
    then show "sorted_wrt (\<lambda>a b. addr ` asset_ids_of a \<inter> addr ` asset_ids_of b = {}) (plan_actions p)"
      by (rule sorted_wrt_mono_rel [OF _ disjoint_asset_actions [OF assms(3) remote]])
  qed (rule ends_ok)
  then obtain m' t where *: "performs ad (seed_remote_ids_from_plan p) s (plan_actions p) m' t" "inv t"
    "\<forall>a \<in> set (plan_actions p). settled current linked a t"
    "undisturbed addr current ready linked present (addr ` \<Union> (asset_ids_of ` set (plan_actions p))) s t"
    by blast
  have "execute_sync_plan ad p True s = (Inr \<lparr>sr_success = True, sr_dry_run = False, sr_applied_count = length (plan_actions p),
        sr_unchanged_count = length (plan_of_type UNCHANGED p), sr_failed_action = None, sr_error = None, sr_plan = Some p\<rparr>, t)"
    using apply_loop_ok [OF plan_actions_mutating *(1), of p "length (plan_of_type UNCHANGED p)" 0]
    by (simp add: execute_sync_plan_def plan_actions_def Let_def)
  then show ?thesis using * by blast
qed

end

end
