(* ===== verification/Mock.thy ===== *)
theory Mock
  imports Adapter
begin

text \<open>
  \<open>integrations/collibra/mock.py\<close>: the in-process adapter. Its attributes are the record \<open>MockState\<close>, its
  configuration the parameter \<open>cfg\<close>. \<open>mock_remote_id\<close>, a version-5 UUID (a SHA-1 hash) of the local
  identifier, is the parameter \<open>rid\<close>. Stored assets are only reached through the dictionary of assets, so
  that an update in place is the update of that entry.
\<close>

section \<open>State\<close>

record StoredAttribute =
  st_attribute_type_ref :: string
  st_value :: string
  st_remote_attribute_id :: string
  st_managed :: bool

record StoredAsset =
  so_remote_id :: string
  so_name :: string
  so_display_name :: "string option"
  so_asset_type_ref :: string
  so_domain_ref :: string
  so_attributes :: "(string, StoredAttribute) dict"
  so_local_id :: "string option"

record StoredRelationship =
  sl_remote_id :: string
  sl_source_remote_id :: string
  sl_target_remote_id :: string
  sl_relation_type_ref :: string
  sl_local_key :: "string option"

record MockState =
  mo_assets :: "(string, StoredAsset) dict"
  mo_relationships :: "(string, StoredRelationship) dict"
  mo_actions :: "json list"
  mo_fail_next :: "string option"
  mo_attr_seq :: nat
  mo_rel_seq :: nat

definition mock_init :: MockState where
  "mock_init = \<lparr>mo_assets = [], mo_relationships = [], mo_actions = [], mo_fail_next = None, mo_attr_seq = 0, mo_rel_seq = 0\<rparr>"

definition clear_actions :: "MockState \<Rightarrow> MockState" where
  "clear_actions s = s\<lparr>mo_actions := []\<rparr>"

definition fail_next :: "string \<Rightarrow> MockState \<Rightarrow> MockState" where
  "fail_next operation s = s\<lparr>mo_fail_next := Some operation\<rparr>"

definition next_attr_id :: "string \<Rightarrow> string \<Rightarrow> MockState \<Rightarrow> string \<times> MockState" where
  "next_attr_id remote_id attribute_type_ref s =
     (''mock-attr-'' @ str_nat (Suc (mo_attr_seq s)) @ '':'' @ remote_id @ '':'' @ attribute_type_ref,
      s\<lparr>mo_attr_seq := Suc (mo_attr_seq s)\<rparr>)"

definition record_action :: "string \<Rightarrow> (string \<times> json) list \<Rightarrow> MockState \<Rightarrow> MockState" where
  "record_action operation payload s = s\<lparr>mo_actions := mo_actions s @ [JObject ((''operation'', JStr operation) # payload)]\<rparr>"

definition maybe_fail :: "string \<Rightarrow> MockState \<Rightarrow> unit result \<times> MockState" where
  "maybe_fail operation s =
     (if mo_fail_next s = Some operation
      then (Inl (adapter_error ''injected mock failure'' operation None (Some (''/mock/'' @ operation)) None None None),
            s\<lparr>mo_fail_next := None\<rparr>)
      else (Inr (), s))"

text \<open>\<open>_record\<close> and \<open>_maybe_fail\<close> open every operation; \<open>body\<close> runs when no failure was injected.\<close>

definition operation ::
  "string \<Rightarrow> (string \<times> json) list \<Rightarrow> (MockState \<Rightarrow> 'a result \<times> MockState) \<Rightarrow> MockState \<Rightarrow> 'a result \<times> MockState" where
  "operation name payload body s =
     (case maybe_fail name (record_action name payload s) of
        (Inl e, t) \<Rightarrow> (Inl e, t)
      | (Inr _, t) \<Rightarrow> body t)"

section \<open>Seeds of tenant objects\<close>

text \<open>The loop \<open>stored.attributes[type_ref] = _StoredAttribute(...)\<close>, with fresh attribute identifiers.\<close>

definition store_attribute :: "bool \<Rightarrow> string \<Rightarrow> StoredAsset \<times> MockState \<Rightarrow> string \<times> string \<Rightarrow> StoredAsset \<times> MockState" where
  "store_attribute managed remote_id state entry =
     (let (stored, s) = state; (type_ref, value) = entry; (attr_id, t) = next_attr_id remote_id type_ref s in
      (stored\<lparr>so_attributes := AList.update type_ref \<lparr>st_attribute_type_ref = type_ref, st_value = value,
         st_remote_attribute_id = attr_id, st_managed = managed\<rparr> (so_attributes stored)\<rparr>, t))"

definition or_default :: "string option \<Rightarrow> string result \<Rightarrow> string result" where
  "or_default v d = (case or_none v of Some x \<Rightarrow> Inr x | None \<Rightarrow> d)"

definition seed_unmanaged_asset ::
  "CollibraMappingConfig \<Rightarrow> string \<Rightarrow> string \<Rightarrow> string option \<Rightarrow> string option \<Rightarrow> string option \<Rightarrow> (string, string) dict \<Rightarrow>
   MockState \<Rightarrow> unit result \<times> MockState" where
  "seed_unmanaged_asset cfg remote_id name asset_type_ref domain_ref display_name custom_attributes s =
     (case or_default asset_type_ref (ref (mc_asset_type_refs cfg) ''table'') of
        Inl e \<Rightarrow> (Inl e, s)
      | Inr type_ref \<Rightarrow>
          (let stored = \<lparr>so_remote_id = remote_id, so_name = name, so_display_name = display_name, so_asset_type_ref = type_ref,
                 so_domain_ref = (case or_none domain_ref of Some d \<Rightarrow> d | None \<Rightarrow> mc_domain_ref cfg),
                 so_attributes = [], so_local_id = None\<rparr>;
               (stored, t) = foldl (store_attribute False remote_id) (stored, s) custom_attributes in
           (Inr (), t\<lparr>mo_assets := AList.update remote_id stored (mo_assets t)\<rparr>)))"

definition seed_unmanaged_relationship :: "string \<Rightarrow> string \<Rightarrow> string \<Rightarrow> string \<Rightarrow> MockState \<Rightarrow> MockState" where
  "seed_unmanaged_relationship remote_id source_remote_id target_remote_id relation_type_ref s =
     s\<lparr>mo_relationships := AList.update remote_id \<lparr>sl_remote_id = remote_id, sl_source_remote_id = source_remote_id,
       sl_target_remote_id = target_remote_id, sl_relation_type_ref = relation_type_ref, sl_local_key = None\<rparr>
       (mo_relationships s)\<rparr>"

definition seed_custom_attribute :: "string \<Rightarrow> string \<Rightarrow> string \<Rightarrow> MockState \<Rightarrow> unit result \<times> MockState" where
  "seed_custom_attribute remote_id attribute_type_ref value s =
     (case map_of (mo_assets s) remote_id of
        None \<Rightarrow> (Inl (KeyError remote_id), s)
      | Some asset \<Rightarrow>
          (let (attr_id, t) = next_attr_id remote_id attribute_type_ref s;
               stored = asset\<lparr>so_attributes := AList.update attribute_type_ref \<lparr>st_attribute_type_ref = attribute_type_ref,
                 st_value = value, st_remote_attribute_id = attr_id, st_managed = False\<rparr> (so_attributes asset)\<rparr> in
           (Inr (), t\<lparr>mo_assets := AList.update remote_id stored (mo_assets t)\<rparr>)))"

section \<open>Reading\<close>

text \<open>The three \<open>continue\<close> branches: an asset is managed when its domain and type are configured and its
  attribute for the local identifier is not blank.\<close>

definition managed_local_id :: "CollibraMappingConfig \<Rightarrow> StoredAsset \<Rightarrow> string option" where
  "managed_local_id cfg asset =
     (if so_domain_ref asset \<noteq> mc_domain_ref cfg then None
      else if so_asset_type_ref asset \<notin> set (vals (mc_asset_type_refs cfg)) then None
      else case map_of (so_attributes asset) (the_ref (mc_attribute_type_refs cfg) ''local_id'') of
        None \<Rightarrow> None
      | Some attr \<Rightarrow> if strip (st_value attr) = [] then None else Some (st_value attr))"

definition remote_asset_of :: "CollibraMappingConfig \<Rightarrow> StoredAsset \<times> string \<Rightarrow> CollibraRemoteAsset result" where
  "remote_asset_of cfg entry =
     (let (asset, local_id) = entry in
      try_in (traverse (\<lambda>attr. mk_remote_attribute \<lparr>ra_attribute_type_ref = st_attribute_type_ref attr, ra_value = st_value attr,
            ra_remote_attribute_id = Some (st_remote_attribute_id attr)\<rparr>)
          (filter (\<lambda>attr. st_attribute_type_ref attr \<in> set (vals (mc_attribute_type_refs cfg)))
             (sort_key st_attribute_type_ref (vals (so_attributes asset))))) (\<lambda>attributes.
        mk_remote_asset \<lparr>rm_remote_id = so_remote_id asset, rm_local_id = local_id, rm_name = so_name asset,
          rm_asset_type_ref = so_asset_type_ref asset, rm_domain_ref = so_domain_ref asset,
          rm_display_name = so_display_name asset, rm_managed_attributes = attributes\<rparr>))"

definition managed_entries :: "CollibraMappingConfig \<Rightarrow> MockState \<Rightarrow> (StoredAsset \<times> string) list" where
  "managed_entries cfg s = List.map_filter (\<lambda>asset. map_option (Pair asset) (managed_local_id cfg asset)) (vals (mo_assets s))"

definition remote_relationship_of ::
  "CollibraMappingConfig \<Rightarrow> (string, string) dict \<Rightarrow> StoredRelationship \<Rightarrow> CollibraRemoteRelationship option" where
  "remote_relationship_of cfg remote_to_local r =
     (if sl_relation_type_ref r \<notin> set (vals (mc_relation_type_refs cfg)) then None
      else case (map_of remote_to_local (sl_source_remote_id r), map_of remote_to_local (sl_target_remote_id r)) of
        (Some source_local, Some target_local) \<Rightarrow>
          Some \<lparr>rr_remote_id = sl_remote_id r, rr_source_remote_id = sl_source_remote_id r,
            rr_target_remote_id = sl_target_remote_id r, rr_source_local_id = source_local, rr_target_local_id = target_local,
            rr_relation_type_ref = sl_relation_type_ref r, rr_local_key = sl_local_key r\<rparr>
      | _ \<Rightarrow> None)"

definition read_body :: "CollibraMappingConfig \<Rightarrow> MockState \<Rightarrow> CollibraRemoteState result" where
  "read_body cfg s =
     (let entries = managed_entries cfg s;
          remote_to_local = dict_of (map (\<lambda>(asset, local_id). (so_remote_id asset, local_id)) entries);
          relationships = List.map_filter (remote_relationship_of cfg remote_to_local) (vals (mo_relationships s)) in
      try_in (traverse (remote_asset_of cfg) entries) (\<lambda>assets.
      try_in (traverse mk_remote_relationship relationships) (\<lambda>rels.
        Inr (mk_remote_state assets rels (length (mo_assets s) - length entries)
          (length (mo_relationships s) - length relationships)))))"

definition read_remote_state :: "CollibraMappingConfig \<Rightarrow> CollibraDesiredState \<Rightarrow> MockState \<Rightarrow> CollibraRemoteState result \<times> MockState" where
  "read_remote_state cfg desired = operation ''read_remote_state'' [] (\<lambda>s. (read_body cfg s, s))"

section \<open>Writing\<close>

definition create_asset :: "(string \<Rightarrow> string) \<Rightarrow> CollibraAssetSpec \<Rightarrow> MockState \<Rightarrow> string result \<times> MockState" where
  "create_asset rid asset =
     operation ''create_asset'' [(''local_id'', JStr (as_local_id asset)), (''name'', JStr (as_name asset))] (\<lambda>s.
       let remote_id = rid (as_local_id asset) in
       if map_of (mo_assets s) remote_id \<noteq> None
       then (Inl (adapter_error ''mock asset already exists'' ''create_asset'' None (Some ''/mock/assets'') None None None), s)
       else
         (let stored = \<lparr>so_remote_id = remote_id, so_name = as_name asset, so_display_name = as_display_name asset,
                so_asset_type_ref = as_asset_type_ref asset, so_domain_ref = as_domain_ref asset, so_attributes = [],
                so_local_id = Some (as_local_id asset)\<rparr>;
              (stored, t) = foldl (store_attribute True remote_id) (stored, s)
                (map (\<lambda>a. (at_attribute_type_ref a, at_value a)) (as_attributes asset)) in
          (Inr remote_id, t\<lparr>mo_assets := AList.update remote_id stored (mo_assets t)\<rparr>)))"

definition patch_attribute ::
  "CollibraMappingConfig \<Rightarrow> string \<Rightarrow> StoredAsset \<times> MockState \<Rightarrow> CollibraAttributeSpec \<Rightarrow> StoredAsset \<times> MockState" where
  "patch_attribute cfg remote_id state attribute =
     (let (stored, s) = state; t = at_attribute_type_ref attribute in
      if t \<notin> set (vals (mc_attribute_type_refs cfg)) then (stored, s)
      else case map_of (so_attributes stored) t of
        None \<Rightarrow>
          (let (stored', s') = store_attribute True remote_id (stored, s) (t, at_value attribute) in
           (stored', record_action ''create_attribute'' [(''remote_id'', JStr remote_id), (''attribute_type_ref'', JStr t)] s'))
      | Some existing \<Rightarrow>
          if st_value existing \<noteq> at_value attribute
          then (stored\<lparr>so_attributes := AList.update t (existing\<lparr>st_value := at_value attribute\<rparr>) (so_attributes stored)\<rparr>,
                record_action ''patch_attribute'' [(''remote_id'', JStr remote_id), (''attribute_type_ref'', JStr t),
                  (''remote_attribute_id'', JStr (st_remote_attribute_id existing))] s)
          else (stored, s))"

definition update_asset ::
  "CollibraMappingConfig \<Rightarrow> string \<Rightarrow> CollibraAssetSpec \<Rightarrow> bool \<Rightarrow> bool \<Rightarrow> MockState \<Rightarrow> unit result \<times> MockState" where
  "update_asset cfg remote_id asset patch_name patch_display_name =
     operation ''update_asset'' [(''remote_id'', JStr remote_id), (''local_id'', JStr (as_local_id asset)),
         (''patch_name'', JBool patch_name), (''patch_display_name'', JBool patch_display_name)] (\<lambda>s.
       case map_of (mo_assets s) remote_id of
         None \<Rightarrow> (Inl (adapter_error ''mock asset not found'' ''update_asset'' None (Some (''/mock/assets/'' @ remote_id)) None None None), s)
       | Some stored \<Rightarrow>
           (let (stored, s) = (if patch_name then (stored\<lparr>so_name := as_name asset\<rparr>,
                  record_action ''patch_asset_name'' [(''remote_id'', JStr remote_id)] s) else (stored, s));
                (stored, s) = (if patch_display_name then (stored\<lparr>so_display_name := as_display_name asset\<rparr>,
                  record_action ''patch_asset_display_name'' [(''remote_id'', JStr remote_id)] s) else (stored, s));
                (stored, s) = foldl (patch_attribute cfg remote_id) (stored, s) (as_attributes asset) in
            (Inr (), s\<lparr>mo_assets := AList.update remote_id stored (mo_assets s)\<rparr>)))"

definition create_relationship ::
  "CollibraRelationshipSpec \<Rightarrow> string \<Rightarrow> string \<Rightarrow> MockState \<Rightarrow> string result \<times> MockState" where
  "create_relationship relationship source_remote_id target_remote_id =
     operation ''create_relationship'' [(''local_key'', JStr (rs_local_key relationship)),
         (''source_remote_id'', JStr source_remote_id), (''target_remote_id'', JStr target_remote_id)] (\<lambda>s.
       if map_of (mo_assets s) source_remote_id = None \<or> map_of (mo_assets s) target_remote_id = None
       then (Inl (adapter_error ''mock relationship endpoints missing'' ''create_relationship'' None
               (Some ''/mock/relations'') None None None), s)
       else
         (let remote_id = ''mock-rel-'' @ str_nat (mo_rel_seq s) in
          (Inr remote_id, s\<lparr>mo_rel_seq := Suc (mo_rel_seq s), mo_relationships := AList.update remote_id
             \<lparr>sl_remote_id = remote_id, sl_source_remote_id = source_remote_id, sl_target_remote_id = target_remote_id,
              sl_relation_type_ref = rs_relation_type_ref relationship, sl_local_key = Some (rs_local_key relationship)\<rparr>
             (mo_relationships s)\<rparr>)))"

definition get_stored_attribute_value :: "string \<Rightarrow> string \<Rightarrow> MockState \<Rightarrow> string option" where
  "get_stored_attribute_value remote_id attribute_type_ref s =
     (case map_of (mo_assets s) remote_id of
        None \<Rightarrow> None
      | Some asset \<Rightarrow> map_option st_value (map_of (so_attributes asset) attribute_type_ref))"

definition mock_adapter :: "(string \<Rightarrow> string) \<Rightarrow> CollibraMappingConfig \<Rightarrow> MockState CollibraAdapter" where
  "mock_adapter rid cfg = \<lparr>ad_read_remote_state = read_remote_state cfg, ad_create_asset = create_asset rid,
     ad_update_asset = update_asset cfg, ad_create_relationship = create_relationship\<rparr>"

section \<open>Attribute values\<close>

definition values_of :: "StoredAsset \<Rightarrow> string \<Rightarrow> string option" where
  "values_of a t = map_option st_value (map_of (so_attributes a) t)"

definition managed_types :: "CollibraMappingConfig \<Rightarrow> string set" where
  "managed_types cfg = set (vals (mc_attribute_type_refs cfg))"

definition wf_asset_store :: "StoredAsset \<Rightarrow> bool" where
  "wf_asset_store a \<longleftrightarrow> distinct (keys (so_attributes a)) \<and>
     (\<forall>t x. map_of (so_attributes a) t = Some x \<longrightarrow> st_attribute_type_ref x = t)"

text \<open>Two states that differ in the log and in the attribute numbering only.\<close>

definition same_store :: "MockState \<Rightarrow> MockState \<Rightarrow> bool" where
  "same_store s t \<longleftrightarrow> mo_assets t = mo_assets s \<and> mo_relationships t = mo_relationships s \<and>
     mo_fail_next t = mo_fail_next s \<and> mo_rel_seq t = mo_rel_seq s"

lemma same_store_refl [simp]: "same_store s s"
  by (simp add: same_store_def)

lemma same_store_trans: "same_store s t \<Longrightarrow> same_store t u \<Longrightarrow> same_store s u"
  by (simp add: same_store_def)

lemma same_store_steps [simp]:
  "same_store s (record_action op payload s)" "same_store s (snd (next_attr_id i t s))"
  by (simp_all add: same_store_def record_action_def next_attr_id_def)

text \<open>What no operation changes about a stored asset.\<close>

definition same_attribute :: "StoredAttribute \<Rightarrow> StoredAttribute \<Rightarrow> bool" where
  "same_attribute x y \<longleftrightarrow> st_attribute_type_ref y = st_attribute_type_ref x \<and>
     st_remote_attribute_id y = st_remote_attribute_id x \<and> st_managed y = st_managed x"

definition asset_kept :: "CollibraMappingConfig \<Rightarrow> StoredAsset \<Rightarrow> StoredAsset \<Rightarrow> bool" where
  "asset_kept cfg a b \<longleftrightarrow> so_remote_id b = so_remote_id a \<and> so_asset_type_ref b = so_asset_type_ref a \<and>
     so_domain_ref b = so_domain_ref a \<and> so_local_id b = so_local_id a \<and>
     (\<forall>t. t \<notin> managed_types cfg \<longrightarrow> map_of (so_attributes b) t = map_of (so_attributes a) t) \<and>
     (\<forall>t x. map_of (so_attributes a) t = Some x \<longrightarrow> (\<exists>y. map_of (so_attributes b) t = Some y \<and> same_attribute x y))"

lemma asset_kept_refl [simp]: "asset_kept cfg a a"
  by (simp add: asset_kept_def same_attribute_def)

lemma asset_kept_trans: "asset_kept cfg a b \<Longrightarrow> asset_kept cfg b c \<Longrightarrow> asset_kept cfg a c"
  unfolding asset_kept_def same_attribute_def by (auto simp del: map_of_eq_Some_iff, metis)

text \<open>One attribute of an update.\<close>

lemma patch_attribute_effect:
  assumes "patch_attribute cfg rem (a, s) x = (b, t)" "wf_asset_store a"
  shows "wf_asset_store b \<and> same_store s t \<and> asset_kept cfg a b \<and> so_name b = so_name a \<and> so_display_name b = so_display_name a \<and>
    values_of b = (if at_attribute_type_ref x \<in> managed_types cfg
      then (values_of a)(at_attribute_type_ref x \<mapsto> at_value x) else values_of a)"
proof -
  let ?t = "at_attribute_type_ref x"
  consider (skip) "?t \<notin> managed_types cfg" | (new) "?t \<in> managed_types cfg" "map_of (so_attributes a) ?t = None"
    | (old) e where "?t \<in> managed_types cfg" "map_of (so_attributes a) ?t = Some e" by (cases "map_of (so_attributes a) ?t") auto
  then show ?thesis
  proof cases
    case skip
    then show ?thesis using assms by (simp add: patch_attribute_def managed_types_def)
  next
    case new
    then have *: "b = a\<lparr>so_attributes := AList.update ?t \<lparr>st_attribute_type_ref = ?t, st_value = at_value x,
        st_remote_attribute_id = fst (next_attr_id rem ?t s), st_managed = True\<rparr> (so_attributes a)\<rparr>"
      "t = record_action ''create_attribute'' [(''remote_id'', JStr rem), (''attribute_type_ref'', JStr ?t)] (snd (next_attr_id rem ?t s))"
      using assms(1) by (simp_all add: patch_attribute_def managed_types_def store_attribute_def Let_def split_beta)
    have "same_store s t" unfolding *(2) by (rule same_store_trans [OF same_store_steps(2) same_store_steps(1)])
    then show ?thesis using new assms(2) unfolding *(1)
      by (auto simp: wf_asset_store_def distinct_keys_update asset_kept_def same_attribute_def values_of_def fun_eq_iff
          simp del: map_of_eq_Some_iff)
  next
    case old
    then have *: "b = (if st_value e = at_value x then a else a\<lparr>so_attributes := AList.update ?t (e\<lparr>st_value := at_value x\<rparr>) (so_attributes a)\<rparr>)"
      "same_store s t"
      using assms(1) by (auto simp: patch_attribute_def managed_types_def Let_def split: if_splits)
    then show ?thesis using old assms(2)
      by (auto simp: wf_asset_store_def distinct_keys_update asset_kept_def same_attribute_def values_of_def fun_eq_iff
          simp del: map_of_eq_Some_iff)
  qed
qed

text \<open>The overwriting of one map by another, as a loop of item assignments does it.\<close>

definition overwrite :: "(string, string) dict \<Rightarrow> (string \<Rightarrow> string option) \<Rightarrow> string \<Rightarrow> string option" where
  "overwrite d f t = (case map_of d t of None \<Rightarrow> f t | Some v \<Rightarrow> Some v)"

lemma overwrite_snoc: "overwrite (dict_of (kvs @ [(k, v)])) f = (overwrite (dict_of kvs) f)(k \<mapsto> v)"
  by (auto simp: overwrite_def dict_of_snoc)

lemma overwrite_Nil [simp]: "overwrite [] f = f"
  by (simp add: overwrite_def [abs_def])

lemma patch_attributes_effect:
  assumes "foldl (patch_attribute cfg rem) (a, s) xs = (b, t)" "wf_asset_store a"
    "\<forall>x \<in> set xs. at_attribute_type_ref x \<in> managed_types cfg"
  shows "wf_asset_store b \<and> same_store s t \<and> asset_kept cfg a b \<and> so_name b = so_name a \<and> so_display_name b = so_display_name a \<and>
    values_of b = overwrite (dict_of (map (\<lambda>x. (at_attribute_type_ref x, at_value x)) xs)) (values_of a)"
  using assms
proof (induction xs arbitrary: b t rule: rev_induct)
  case Nil
  then show ?case by simp
next
  case (snoc x xs)
  obtain b1 t1 where b1: "foldl (patch_attribute cfg rem) (a, s) xs = (b1, t1)" by (cases "foldl (patch_attribute cfg rem) (a, s) xs")
  have "patch_attribute cfg rem (b1, t1) x = (b, t)" using snoc.prems(1) b1 by simp
  from patch_attribute_effect [OF this] snoc.IH [OF b1 snoc.prems(2)] snoc.prems(3)
  show ?case using same_store_trans asset_kept_trans by (auto simp: overwrite_snoc)
qed

lemma patch_attributes_kept:
  assumes "foldl (patch_attribute cfg rem) (a, s) xs = (b, t)" "wf_asset_store a"
  shows "wf_asset_store b \<and> same_store s t \<and> asset_kept cfg a b \<and> so_name b = so_name a \<and> so_display_name b = so_display_name a"
  using assms
proof (induction xs arbitrary: b t rule: rev_induct)
  case (snoc x xs)
  obtain b1 t1 where b1: "foldl (patch_attribute cfg rem) (a, s) xs = (b1, t1)" by (cases "foldl (patch_attribute cfg rem) (a, s) xs")
  have "patch_attribute cfg rem (b1, t1) x = (b, t)" using snoc.prems(1) b1 by simp
  from patch_attribute_effect [OF this] snoc.IH [OF b1 snoc.prems(2)]
  show ?case using same_store_trans asset_kept_trans by metis
qed simp

lemma store_attribute_effect:
  assumes "store_attribute man rem (a, s) (k, v) = (b, t)" "wf_asset_store a"
  shows "wf_asset_store b \<and> same_store s t \<and> b\<lparr>so_attributes := so_attributes a\<rparr> = a \<and> values_of b = (values_of a)(k \<mapsto> v)"
proof -
  have *: "b = a\<lparr>so_attributes := AList.update k \<lparr>st_attribute_type_ref = k, st_value = v,
      st_remote_attribute_id = fst (next_attr_id rem k s), st_managed = man\<rparr> (so_attributes a)\<rparr>" "t = snd (next_attr_id rem k s)"
    using assms(1) by (simp_all add: store_attribute_def Let_def split_beta)
  show ?thesis using assms(2) unfolding *
    by (auto simp: wf_asset_store_def distinct_keys_update values_of_def fun_eq_iff simp del: map_of_eq_Some_iff)
qed

lemma store_attributes_effect:
  assumes "foldl (store_attribute man rem) (a, s) kvs = (b, t)" "wf_asset_store a"
  shows "wf_asset_store b \<and> same_store s t \<and> b\<lparr>so_attributes := so_attributes a\<rparr> = a \<and>
    values_of b = overwrite (dict_of kvs) (values_of a)"
  using assms
proof (induction kvs arbitrary: b t rule: rev_induct)
  case Nil
  then show ?case by simp
next
  case (snoc x xs)
  obtain k v where x: "x = (k, v)" by (cases x)
  obtain b1 t1 where b1: "foldl (store_attribute man rem) (a, s) xs = (b1, t1)" by (cases "foldl (store_attribute man rem) (a, s) xs")
  have "store_attribute man rem (b1, t1) (k, v) = (b, t)" using snoc.prems(1) b1 x by simp
  note step = store_attribute_effect [OF this] snoc.IH [OF b1 snoc.prems(2)]
  moreover from step have "b\<lparr>so_attributes := so_attributes a\<rparr> = a"
    by (metis StoredAsset.update_convs(6) StoredAsset.surjective)
  ultimately show ?case using same_store_trans x by (auto simp: overwrite_snoc)
qed

section \<open>Nothing is lost\<close>

definition same_objects :: "MockState \<Rightarrow> MockState \<Rightarrow> bool" where
  "same_objects s t \<longleftrightarrow> mo_assets t = mo_assets s \<and> mo_relationships t = mo_relationships s \<and> mo_rel_seq t = mo_rel_seq s"

definition mock_rel_id :: "nat \<Rightarrow> string" where
  "mock_rel_id n = ''mock-rel-'' @ str_nat n"

text \<open>The remote state can be read back: no stored name and no stored identifier is blank.\<close>

definition legible :: "MockState \<Rightarrow> bool" where
  "legible s \<longleftrightarrow> (\<forall>k a. map_of (mo_assets s) k = Some a \<longrightarrow> strip k \<noteq> [] \<and> strip (so_name a) \<noteq> []) \<and>
     (\<forall>k r. map_of (mo_relationships s) k = Some r \<longrightarrow> strip (sl_remote_id r) \<noteq> [] \<and>
        strip (sl_source_remote_id r) \<noteq> [] \<and> strip (sl_target_remote_id r) \<noteq> [])"

definition no_blank_ids :: "(string \<Rightarrow> string) \<Rightarrow> bool" where
  "no_blank_ids rid \<longleftrightarrow> (\<forall>i. strip (rid i) \<noteq> [])"

definition wf_mock :: "(string \<Rightarrow> string) \<Rightarrow> MockState \<Rightarrow> bool" where
  "wf_mock rid s \<longleftrightarrow> (no_blank_ids rid \<longrightarrow> legible s) \<and> distinct (keys (mo_assets s)) \<and> distinct (keys (mo_relationships s)) \<and>
     (\<forall>k a. map_of (mo_assets s) k = Some a \<longrightarrow> so_remote_id a = k \<and> wf_asset_store a) \<and>
     (\<forall>k r. map_of (mo_relationships s) k = Some r \<longrightarrow> sl_remote_id r = k) \<and>
     (\<forall>n \<ge> mo_rel_seq s. map_of (mo_relationships s) (mock_rel_id n) = None)"

definition mock_keeps :: "CollibraMappingConfig \<Rightarrow> MockState \<Rightarrow> MockState \<Rightarrow> bool" where
  "mock_keeps cfg s t \<longleftrightarrow>
     (\<forall>k a. map_of (mo_assets s) k = Some a \<longrightarrow> (\<exists>b. map_of (mo_assets t) k = Some b \<and> asset_kept cfg a b)) \<and>
     (\<forall>k r. map_of (mo_relationships s) k = Some r \<longrightarrow> map_of (mo_relationships t) k = Some r)"

lemma mock_keeps_refl: "mock_keeps cfg s s"
  by (simp add: mock_keeps_def)

lemma mock_keeps_trans: "mock_keeps cfg s t \<Longrightarrow> mock_keeps cfg t u \<Longrightarrow> mock_keeps cfg s u"
  unfolding mock_keeps_def using asset_kept_trans by meson

lemma same_objects_safe: "same_objects s t \<Longrightarrow> wf_mock rid s \<Longrightarrow> wf_mock rid t \<and> mock_keeps cfg s t"
  by (auto simp: same_objects_def wf_mock_def legible_def mock_keeps_def simp del: map_of_eq_Some_iff)

lemma same_store_objects: "same_store s t \<Longrightarrow> same_objects s t"
  by (simp add: same_store_def same_objects_def)

lemma operation_body: "mo_fail_next s \<noteq> Some name \<Longrightarrow> operation name payload body s = body (record_action name payload s)"
  by (simp add: operation_def maybe_fail_def) (simp add: record_action_def)

lemma operation_cases:
  assumes "operation name payload body s = (r, t)"
  obtains (injected) "mo_fail_next s = Some name" "same_objects s t" "mo_fail_next t = None"
      "r = Inl (adapter_error ''injected mock failure'' name None (Some (''/mock/'' @ name)) None None None)"
    | (body) u where "mo_fail_next s \<noteq> Some name" "same_store s u" "body u = (r, t)"
proof (cases "mo_fail_next s = Some name")
  case True
  then show thesis using assms
    by (intro injected) (auto simp: operation_def maybe_fail_def record_action_def same_objects_def)
next
  case False
  then have "body (record_action name payload s) = (r, t)" using assms operation_body by metis
  then show thesis using body [OF False same_store_steps(1)] by blast
qed

text \<open>One entry of the store of assets is set.\<close>

definition sets_entry :: "string \<Rightarrow> StoredAsset \<Rightarrow> MockState \<Rightarrow> MockState \<Rightarrow> bool" where
  "sets_entry k b s t \<longleftrightarrow> mo_assets t = AList.update k b (mo_assets s) \<and> mo_relationships t = mo_relationships s \<and>
     mo_fail_next t = mo_fail_next s \<and> mo_rel_seq t = mo_rel_seq s"

lemma sets_entry_safe:
  assumes "sets_entry k b s t" "wf_mock rid s" "so_remote_id b = k" "wf_asset_store b"
    "\<forall>a. map_of (mo_assets s) k = Some a \<longrightarrow> asset_kept cfg a b" "no_blank_ids rid \<longrightarrow> strip k \<noteq> [] \<and> strip (so_name b) \<noteq> []"
  shows "wf_mock rid t \<and> mock_keeps cfg s t"
proof -
  have "no_blank_ids rid \<longrightarrow> legible t"
    using assms(1,2,6) by (auto simp: sets_entry_def wf_mock_def legible_def simp del: map_of_eq_Some_iff)
  then show ?thesis
    using assms(1-5) by (auto simp: sets_entry_def wf_mock_def mock_keeps_def distinct_keys_update simp del: map_of_eq_Some_iff)
qed

text \<open>What each writing operation does when no failure is injected.\<close>

lemma create_asset_effect:
  assumes "mo_fail_next s \<noteq> Some ''create_asset''" "create_asset rid d s = (r, t)"
  shows "if map_of (mo_assets s) (rid (as_local_id d)) \<noteq> None
     then r = Inl (adapter_error ''mock asset already exists'' ''create_asset'' None (Some ''/mock/assets'') None None None) \<and> same_store s t
     else r = Inr (rid (as_local_id d)) \<and> (\<exists>b. sets_entry (rid (as_local_id d)) b s t \<and> so_remote_id b = rid (as_local_id d) \<and>
       wf_asset_store b \<and> so_name b = as_name d \<and> so_display_name b = as_display_name d \<and>
       so_asset_type_ref b = as_asset_type_ref d \<and> so_domain_ref b = as_domain_ref d \<and> values_of b = map_of (desired_attrs d))"
proof -
  let ?k = "rid (as_local_id d)"
  define u where "u = record_action ''create_asset'' [(''local_id'', JStr (as_local_id d)), (''name'', JStr (as_name d))] s"
  have u: "same_store s u" by (simp add: u_def)
  have body: "(if map_of (mo_assets u) ?k \<noteq> None
       then (Inl (adapter_error ''mock asset already exists'' ''create_asset'' None (Some ''/mock/assets'') None None None), u)
       else let (stored, t) = foldl (store_attribute True ?k)
              (\<lparr>so_remote_id = ?k, so_name = as_name d, so_display_name = as_display_name d, so_asset_type_ref = as_asset_type_ref d,
                so_domain_ref = as_domain_ref d, so_attributes = [], so_local_id = Some (as_local_id d)\<rparr>, u)
              (map (\<lambda>a. (at_attribute_type_ref a, at_value a)) (as_attributes d))
            in (Inr ?k, t\<lparr>mo_assets := AList.update ?k stored (mo_assets t)\<rparr>)) = (r, t)"
    using assms(2) unfolding create_asset_def operation_body [OF assms(1)] u_def Let_def .
  show ?thesis
  proof (cases "map_of (mo_assets s) ?k = None")
    case False
    then show ?thesis using u body by (auto simp: same_store_def simp del: map_of_eq_Some_iff)
  next
    case True
    let ?a = "\<lparr>so_remote_id = ?k, so_name = as_name d, so_display_name = as_display_name d, so_asset_type_ref = as_asset_type_ref d,
                so_domain_ref = as_domain_ref d, so_attributes = [], so_local_id = Some (as_local_id d)\<rparr>"
    obtain b v where b: "foldl (store_attribute True ?k) (?a, u) (map (\<lambda>a. (at_attribute_type_ref a, at_value a)) (as_attributes d)) = (b, v)"
      by (cases "foldl (store_attribute True ?k) (?a, u) (map (\<lambda>a. (at_attribute_type_ref a, at_value a)) (as_attributes d))")
    have "map_of (mo_assets u) ?k = None" using True u by (simp add: same_store_def)
    then have t: "r = Inr ?k" "t = v\<lparr>mo_assets := AList.update ?k b (mo_assets v)\<rparr>" using body b by (auto simp: Let_def)
    have eff: "wf_asset_store b \<and> same_store u v \<and> b\<lparr>so_attributes := so_attributes ?a\<rparr> = ?a \<and>
        values_of b = overwrite (desired_attrs d) (values_of ?a)"
      unfolding desired_attrs_def by (rule store_attributes_effect [OF b]) (simp add: wf_asset_store_def)
    have "overwrite m (values_of ?a) = map_of m" for m by (rule ext) (simp add: overwrite_def values_of_def split: option.split)
    moreover have "so_remote_id b = ?k \<and> so_name b = as_name d \<and> so_display_name b = as_display_name d \<and>
        so_asset_type_ref b = as_asset_type_ref d \<and> so_domain_ref b = as_domain_ref d"
      using eff by (cases b) auto
    moreover have "sets_entry ?k b s t" using u eff by (simp add: t sets_entry_def same_store_def)
    ultimately show ?thesis using True eff t(1) by auto
  qed
qed

lemma update_asset_effect:
  assumes "mo_fail_next s \<noteq> Some ''update_asset''" "update_asset cfg k d pn pd s = (r, t)" "wf_mock rid s"
  shows "case map_of (mo_assets s) k of
     None \<Rightarrow> r = Inl (adapter_error ''mock asset not found'' ''update_asset'' None (Some (''/mock/assets/'' @ k)) None None None) \<and> same_store s t
   | Some a \<Rightarrow> r = Inr () \<and> (\<exists>b. sets_entry k b s t \<and> wf_asset_store b \<and> asset_kept cfg a b \<and>
       so_name b = (if pn then as_name d else so_name a) \<and>
       so_display_name b = (if pd then as_display_name d else so_display_name a) \<and>
       ((\<forall>x \<in> set (as_attributes d). at_attribute_type_ref x \<in> managed_types cfg) \<longrightarrow>
         values_of b = overwrite (desired_attrs d) (values_of a)))"
proof -
  let ?log = "\<lambda>op s. record_action op [(''remote_id'', JStr k)] s"
  let ?body = "\<lambda>u. case map_of (mo_assets u) k of
         None \<Rightarrow> (Inl (adapter_error ''mock asset not found'' ''update_asset'' None (Some (''/mock/assets/'' @ k)) None None None), u)
       | Some stored \<Rightarrow>
           (let (stored, s) = (if pn then (stored\<lparr>so_name := as_name d\<rparr>, ?log ''patch_asset_name'' u) else (stored, u));
                (stored, s) = (if pd then (stored\<lparr>so_display_name := as_display_name d\<rparr>, ?log ''patch_asset_display_name'' s) else (stored, s));
                (stored, s) = foldl (patch_attribute cfg k) (stored, s) (as_attributes d) in
            (Inr (), s\<lparr>mo_assets := AList.update k stored (mo_assets s)\<rparr>))"
  define u where "u = record_action ''update_asset'' [(''remote_id'', JStr k), (''local_id'', JStr (as_local_id d)),
         (''patch_name'', JBool pn), (''patch_display_name'', JBool pd)] s"
  have u: "same_store s u" by (simp add: u_def)
  have body: "?body u = (r, t)"
    using assms(2) unfolding update_asset_def operation_body [OF assms(1)] u_def .
  have assets: "mo_assets u = mo_assets s" using u by (simp add: same_store_def)
  show ?thesis
  proof (cases "map_of (mo_assets s) k")
    case None
    then show ?thesis using u body assets by simp
  next
    case (Some a)
    let ?a = "a\<lparr>so_name := (if pn then as_name d else so_name a), so_display_name := (if pd then as_display_name d else so_display_name a)\<rparr>"
    define v where "v = (let s = (if pn then ?log ''patch_asset_name'' u else u) in if pd then ?log ''patch_asset_display_name'' s else s)"
    obtain b w where b: "foldl (patch_attribute cfg k) (?a, v) (as_attributes d) = (b, w)" by (cases "foldl (patch_attribute cfg k) (?a, v) (as_attributes d)")
    have "?body u = (let (stored, s) = foldl (patch_attribute cfg k) (?a, v) (as_attributes d) in
        (Inr (), s\<lparr>mo_assets := AList.update k stored (mo_assets s)\<rparr>))"
      using Some assets by (simp add: v_def Let_def)
    then have t: "r = Inr ()" "t = w\<lparr>mo_assets := AList.update k b (mo_assets w)\<rparr>" using body b by auto
    have "wf_asset_store a" using assms(3) Some by (simp add: wf_mock_def)
    then have wf: "wf_asset_store ?a" by (simp add: wf_asset_store_def)
    have v: "same_store s v" using u by (simp add: v_def Let_def same_store_def record_action_def)
    have kept: "wf_asset_store b \<and> same_store v w \<and> asset_kept cfg ?a b \<and> so_name b = so_name ?a \<and> so_display_name b = so_display_name ?a" by (rule patch_attributes_kept [OF b wf])
    moreover have "asset_kept cfg a ?a" by (simp add: asset_kept_def same_attribute_def)
    ultimately have "asset_kept cfg a b" using asset_kept_trans by blast
    moreover have "sets_entry k b s t" using v kept by (simp add: t sets_entry_def same_store_def)
    moreover have "values_of b = overwrite (desired_attrs d) (values_of a)"
      if "\<forall>x \<in> set (as_attributes d). at_attribute_type_ref x \<in> managed_types cfg"
    proof -
      have "values_of ?a = values_of a" by (simp add: values_of_def [abs_def])
      then show ?thesis using patch_attributes_effect [OF b wf that] unfolding desired_attrs_def by simp
    qed
    ultimately show ?thesis using Some t(1) kept by auto
  qed
qed

lemma create_relationship_effect:
  assumes "mo_fail_next s \<noteq> Some ''create_relationship''" "create_relationship q i j s = (r, t)"
  shows "if map_of (mo_assets s) i = None \<or> map_of (mo_assets s) j = None
     then r = Inl (adapter_error ''mock relationship endpoints missing'' ''create_relationship'' None
               (Some ''/mock/relations'') None None None) \<and> same_store s t
     else r = Inr (mock_rel_id (mo_rel_seq s)) \<and> mo_assets t = mo_assets s \<and> mo_fail_next t = mo_fail_next s \<and>
       mo_rel_seq t = Suc (mo_rel_seq s) \<and> mo_relationships t = AList.update (mock_rel_id (mo_rel_seq s))
         \<lparr>sl_remote_id = mock_rel_id (mo_rel_seq s), sl_source_remote_id = i, sl_target_remote_id = j,
          sl_relation_type_ref = rs_relation_type_ref q, sl_local_key = Some (rs_local_key q)\<rparr> (mo_relationships s)"
  using assms(2) unfolding create_relationship_def operation_body [OF assms(1)]
  by (auto simp: record_action_def same_store_def mock_rel_id_def Let_def)

lemma operation_failed:
  "mo_fail_next s = Some name \<Longrightarrow> operation name payload body s = (r, t) \<Longrightarrow>
   same_objects s t \<and> mo_fail_next t = None \<and>
   r = Inl (adapter_error ''injected mock failure'' name None (Some (''/mock/'' @ name)) None None None)"
  by (auto simp: operation_def maybe_fail_def record_action_def same_objects_def)

lemma wf_asset_name: "wf_asset d \<Longrightarrow> strip (as_name d) \<noteq> []"
  by (auto simp: wf_asset_def mk_asset_def split_result)

lemma create_asset_safe:
  assumes "wf_mock rid s" "wf_asset d" "create_asset rid d s = (r, t)"
  shows "wf_mock rid t \<and> mock_keeps cfg s t \<and> raises_adapter_errors r"
proof (cases "mo_fail_next s = Some ''create_asset''")
  case True
  then show ?thesis using operation_failed [OF True] assms same_objects_safe unfolding create_asset_def by fastforce
next
  case False
  show ?thesis
  proof (cases "map_of (mo_assets s) (rid (as_local_id d)) = None")
    case True
    then show ?thesis using create_asset_effect [OF False assms(3)] sets_entry_safe [OF _ assms(1), of "rid (as_local_id d)" _ t cfg] wf_asset_name [OF assms(2)]
      by (auto simp: no_blank_ids_def)
  next
    case f: False
    then show ?thesis using create_asset_effect [OF False assms(3)] same_objects_safe [OF same_store_objects assms(1)] by auto
  qed
qed

lemma update_asset_safe:
  assumes "wf_mock rid s" "wf_asset d" "update_asset cfg k d pn pd s = (r, t)"
  shows "wf_mock rid t \<and> mock_keeps cfg s t \<and> raises_adapter_errors r"
proof (cases "mo_fail_next s = Some ''update_asset''")
  case True
  then show ?thesis using operation_failed [OF True] assms same_objects_safe unfolding update_asset_def by fastforce
next
  case False
  note eff = update_asset_effect [OF False assms(3,1)]
  show ?thesis
  proof (cases "map_of (mo_assets s) k")
    case None
    then show ?thesis using eff same_objects_safe [OF same_store_objects assms(1)] by auto
  next
    case (Some a)
    then obtain b where b: "r = Inr ()" "sets_entry k b s t" "wf_asset_store b" "asset_kept cfg a b"
      "so_name b = (if pn then as_name d else so_name a)" using eff by auto
    have "so_remote_id b = k" using b(4) Some assms(1) by (simp add: asset_kept_def wf_mock_def)
    moreover have "no_blank_ids rid \<longrightarrow> strip k \<noteq> [] \<and> strip (so_name b) \<noteq> []"
      using assms(1) Some wf_asset_name [OF assms(2)] by (auto simp: b(5) wf_mock_def legible_def simp del: map_of_eq_Some_iff)
    ultimately show ?thesis using sets_entry_safe [OF b(2) assms(1) _ b(3)] b(1,4) Some by simp
  qed
qed

lemma mock_rel_id_inj [simp]: "mock_rel_id m = mock_rel_id n \<longleftrightarrow> m = n"
  by (simp add: mock_rel_id_def)

lemma strip_mock_rel_id: "strip (mock_rel_id n) \<noteq> []"
  unfolding strip_Nil_iff mock_rel_id_def by (auto simp: is_space_def)

lemma create_relationship_safe:
  assumes "wf_mock rid s" "create_relationship q i j s = (r, t)"
  shows "wf_mock rid t \<and> mock_keeps cfg s t \<and> raises_adapter_errors r"
proof (cases "mo_fail_next s = Some ''create_relationship''")
  case True
  then show ?thesis using operation_failed [OF True] assms same_objects_safe unfolding create_relationship_def by fastforce
next
  case False
  note eff = create_relationship_effect [OF False assms(2)]
  show ?thesis
  proof (cases "map_of (mo_assets s) i = None \<or> map_of (mo_assets s) j = None")
    case True
    then show ?thesis using eff same_objects_safe [OF same_store_objects assms(1)] by auto
  next
    case f: False
    have "map_of (mo_relationships s) (mock_rel_id (mo_rel_seq s)) = None" using assms(1) by (simp add: wf_mock_def)
    moreover have "no_blank_ids rid \<longrightarrow> legible t"
      using eff f assms(1) strip_mock_rel_id by (auto simp: wf_mock_def legible_def simp del: map_of_eq_Some_iff)
    ultimately show ?thesis using eff f assms(1)
      by (auto simp: wf_mock_def mock_keeps_def distinct_keys_update simp del: map_of_eq_Some_iff)
  qed
qed

interpretation mock_safe: adapter_contract "mock_adapter rid cfg" "wf_mock rid" "mock_keeps cfg" for rid cfg
  by unfold_locales
    (auto simp: mock_adapter_def mock_keeps_refl intro: mock_keeps_trans dest: create_asset_safe update_asset_safe create_relationship_safe)

section \<open>What is applied is there\<close>

text \<open>The asset with a local identifier lives at its address; nothing else claims that identifier.\<close>

definition local_ref :: "CollibraMappingConfig \<Rightarrow> string" where
  "local_ref cfg = the_ref (mc_attribute_type_refs cfg) ''local_id''"

definition lives_at :: "(string \<Rightarrow> string) \<Rightarrow> CollibraMappingConfig \<Rightarrow> string \<Rightarrow> MockState \<Rightarrow> StoredAsset \<Rightarrow> bool" where
  "lives_at rid cfg i s a \<longleftrightarrow> map_of (mo_assets s) (rid i) = Some a \<and> managed_local_id cfg a = Some i"

definition unclaimed :: "(string \<Rightarrow> string) \<Rightarrow> CollibraMappingConfig \<Rightarrow> string \<Rightarrow> MockState \<Rightarrow> bool" where
  "unclaimed rid cfg i s \<longleftrightarrow> (\<forall>k b. map_of (mo_assets s) k = Some b \<longrightarrow> managed_local_id cfg b = Some i \<longrightarrow> k = rid i)"

definition good_asset :: "CollibraMappingConfig \<Rightarrow> CollibraAssetSpec \<Rightarrow> bool" where
  "good_asset cfg d \<longleftrightarrow> managed_asset cfg d \<and>
     (\<forall>x \<in> set (as_attributes d). at_attribute_type_ref x = local_ref cfg \<longrightarrow> at_value x = as_local_id d)"

definition agrees :: "CollibraMappingConfig \<Rightarrow> CollibraAssetSpec \<Rightarrow> StoredAsset \<Rightarrow> bool" where
  "agrees cfg d a \<longleftrightarrow> so_name a = as_name d \<and> or_none (so_display_name a) = or_none (as_display_name d) \<and>
     (\<forall>t \<in> managed_types cfg. values_of a t = map_of (desired_attrs d) t)"

definition mock_current :: "(string \<Rightarrow> string) \<Rightarrow> CollibraMappingConfig \<Rightarrow> CollibraAssetSpec \<Rightarrow> MockState \<Rightarrow> bool" where
  "mock_current rid cfg d s \<longleftrightarrow> unclaimed rid cfg (as_local_id d) s \<and> (\<exists>a. lives_at rid cfg (as_local_id d) s a \<and> agrees cfg d a)"

definition mock_ready :: "(string \<Rightarrow> string) \<Rightarrow> CollibraMappingConfig \<Rightarrow> patch \<Rightarrow> CollibraAssetSpec \<Rightarrow> MockState \<Rightarrow> bool" where
  "mock_ready rid cfg p d s \<longleftrightarrow> unclaimed rid cfg (as_local_id d) s \<and>
     (case p of
        None \<Rightarrow> map_of (mo_assets s) (rid (as_local_id d)) = None
      | Some (pn, pd) \<Rightarrow> (\<exists>a. lives_at rid cfg (as_local_id d) s a \<and> (pn \<or> so_name a = as_name d) \<and>
          (pd \<or> or_none (so_display_name a) = or_none (as_display_name d)) \<and>
          (\<forall>t \<in> managed_types cfg. values_of a t \<noteq> None \<longrightarrow> map_of (desired_attrs d) t \<noteq> None)))"

definition mock_linked :: "(string \<Rightarrow> string) \<Rightarrow> relationship_key \<Rightarrow> MockState \<Rightarrow> bool" where
  "mock_linked rid k s \<longleftrightarrow> (\<exists>i r. map_of (mo_relationships s) i = Some r \<and>
     (case k of (source, target, t) \<Rightarrow> sl_source_remote_id r = rid source \<and> sl_target_remote_id r = rid target \<and> sl_relation_type_ref r = t))"

definition mock_present :: "(string \<Rightarrow> string) \<Rightarrow> CollibraMappingConfig \<Rightarrow> string \<Rightarrow> MockState \<Rightarrow> bool" where
  "mock_present rid cfg i s \<longleftrightarrow> (\<exists>a. lives_at rid cfg i s a)"

lemma managed_local_id_iff:
  "managed_local_id cfg a = Some i \<longleftrightarrow> so_domain_ref a = mc_domain_ref cfg \<and>
     so_asset_type_ref a \<in> set (vals (mc_asset_type_refs cfg)) \<and> values_of a (local_ref cfg) = Some i \<and> strip i \<noteq> []"
  by (auto simp: managed_local_id_def values_of_def local_ref_def split: option.splits)

lemma desired_local_ref:
  assumes "good_asset cfg d" shows "map_of (desired_attrs d) (local_ref cfg) = Some (as_local_id d)"
proof -
  have "(local_ref cfg, as_local_id d) \<in> (\<lambda>x. (at_attribute_type_ref x, at_value x)) ` set (as_attributes d)"
    using assms unfolding good_asset_def managed_asset_def attribute_spec_def local_ref_def by force
  then have "local_ref cfg \<in> dom (map_of (rev (map (\<lambda>x. (at_attribute_type_ref x, at_value x)) (as_attributes d))))"
    by (auto simp: dom_map_of_conv_image_fst image_image)
  then obtain v where v: "map_of (desired_attrs d) (local_ref cfg) = Some v"
    unfolding desired_attrs_def map_of_dict_of by blast
  then have "(local_ref cfg, v) \<in> set (rev (map (\<lambda>x. (at_attribute_type_ref x, at_value x)) (as_attributes d)))"
    unfolding desired_attrs_def map_of_dict_of by (rule map_of_SomeD)
  then show ?thesis using assms v by (auto simp: good_asset_def)
qed

lemma good_id: "good_asset cfg d \<Longrightarrow> strip (as_local_id d) \<noteq> []"
  by (auto simp: good_asset_def managed_asset_def wf_asset_def mk_asset_def split_result)

text \<open>Setting the entry at an address to an asset with the identifier of that address.\<close>

lemma sets_entry_undisturbed:
  assumes "sets_entry (rid i) b s t" "managed_local_id cfg b = Some i"
    and "\<And>a. map_of (mo_assets s) (rid i) = Some a \<Longrightarrow> managed_local_id cfg a = Some i"
  shows "undisturbed rid (mock_current rid cfg) (mock_ready rid cfg) (mock_linked rid) (mock_present rid cfg) {rid i} s t \<and>
    (unclaimed rid cfg i s \<longrightarrow> unclaimed rid cfg i t) \<and> lives_at rid cfg i t b"
proof -
  have assets: "map_of (mo_assets t) = (map_of (mo_assets s))(rid i \<mapsto> b)" and rels: "mo_relationships t = mo_relationships s"
    using assms(1) by (simp_all add: sets_entry_def)
  have lives: "lives_at rid cfg j t a \<longleftrightarrow> lives_at rid cfg j s a" if "rid j \<noteq> rid i" for j a
    using that by (simp add: lives_at_def assets)
  have un: "unclaimed rid cfg j s \<Longrightarrow> unclaimed rid cfg j t" for j
    using assms(2) by (auto simp: unclaimed_def assets)
  have b: "lives_at rid cfg i t b" using assms(2) by (simp add: lives_at_def assets)
  have "mock_present rid cfg j t" if "mock_present rid cfg j s" for j
  proof (cases "rid j = rid i")
    case True
    with that assms(3) have "j = i" by (auto simp: mock_present_def lives_at_def)
    then show ?thesis using b by (auto simp: mock_present_def)
  next
    case False
    then show ?thesis using that by (simp add: mock_present_def lives)
  qed
  moreover have "mock_current rid cfg d t" if "mock_current rid cfg d s" "rid (as_local_id d) \<noteq> rid i" for d
    using that un by (simp add: mock_current_def lives)
  moreover have "mock_ready rid cfg p d t" if "mock_ready rid cfg p d s" "rid (as_local_id d) \<noteq> rid i" for p d
    using that un by (cases p) (auto simp: mock_ready_def lives assets)
  ultimately show ?thesis using un b rels by (simp add: undisturbed_def mock_linked_def)
qed

lemma agrees_overwrite:
  assumes "\<forall>t \<in> managed_types cfg. f t \<noteq> None \<longrightarrow> map_of m t \<noteq> None" "t \<in> managed_types cfg"
  shows "overwrite m f t = map_of m t"
  using assms by (auto simp: overwrite_def split: option.split)

lemma managed_attribute_types: "good_asset cfg d \<Longrightarrow> \<forall>x \<in> set (as_attributes d). at_attribute_type_ref x \<in> managed_types cfg"
  by (simp add: good_asset_def managed_asset_def managed_types_def)

lemma create_settles:
  assumes "mo_fail_next s = None" "good_asset cfg d" "mock_ready rid cfg None d s"
  shows "\<exists>t. create_asset rid d s = (Inr (rid (as_local_id d)), t) \<and> mock_current rid cfg d t \<and>
    undisturbed rid (mock_current rid cfg) (mock_ready rid cfg) (mock_linked rid) (mock_present rid cfg) {rid (as_local_id d)} s t"
proof -
  obtain r t where t: "create_asset rid d s = (r, t)" by (cases "create_asset rid d s")
  have ready: "unclaimed rid cfg (as_local_id d) s" "map_of (mo_assets s) (rid (as_local_id d)) = None"
    using assms(3) by (simp_all add: mock_ready_def)
  obtain b where b: "r = Inr (rid (as_local_id d))" "sets_entry (rid (as_local_id d)) b s t" "so_name b = as_name d"
    "so_display_name b = as_display_name d" "so_asset_type_ref b = as_asset_type_ref d" "so_domain_ref b = as_domain_ref d"
    "values_of b = map_of (desired_attrs d)"
    using create_asset_effect [OF _ t] assms(1) ready(2) by auto
  have "managed_local_id cfg b = Some (as_local_id d)"
    using assms(2) desired_local_ref [OF assms(2)] good_id [OF assms(2)] b
    by (simp add: managed_local_id_iff good_asset_def managed_asset_def)
  from sets_entry_undisturbed [where rid = rid and cfg = cfg and i = "as_local_id d", OF b(2) this] ready b show ?thesis
    by (auto simp: t mock_current_def agrees_def)
qed

lemma update_settles:
  assumes "wf_mock rid s" "mo_fail_next s = None" "good_asset cfg d" "mock_ready rid cfg (Some (pn, pd)) d s"
  shows "\<exists>u t. update_asset cfg (rid (as_local_id d)) d pn pd s = (Inr u, t) \<and> mock_current rid cfg d t \<and>
    undisturbed rid (mock_current rid cfg) (mock_ready rid cfg) (mock_linked rid) (mock_present rid cfg) {rid (as_local_id d)} s t"
proof -
  let ?k = "rid (as_local_id d)"
  obtain r t where t: "update_asset cfg ?k d pn pd s = (r, t)" by (cases "update_asset cfg ?k d pn pd s")
  obtain a where a: "unclaimed rid cfg (as_local_id d) s" "map_of (mo_assets s) ?k = Some a" "managed_local_id cfg a = Some (as_local_id d)"
    "pn \<or> so_name a = as_name d" "pd \<or> or_none (so_display_name a) = or_none (as_display_name d)"
    "\<forall>t \<in> managed_types cfg. values_of a t \<noteq> None \<longrightarrow> map_of (desired_attrs d) t \<noteq> None"
    using assms(4) by (auto simp: mock_ready_def lives_at_def)
  obtain b where b: "r = Inr ()" "sets_entry ?k b s t" "asset_kept cfg a b" "so_name b = (if pn then as_name d else so_name a)"
    "so_display_name b = (if pd then as_display_name d else so_display_name a)" "values_of b = overwrite (desired_attrs d) (values_of a)"
    using update_asset_effect [OF _ t assms(1)] assms(2) a(2) managed_attribute_types [OF assms(3)] by auto
  have "managed_local_id cfg b = Some (as_local_id d)"
    using desired_local_ref [OF assms(3)] good_id [OF assms(3)] a(3) b(3,6)
    by (simp add: managed_local_id_iff overwrite_def asset_kept_def)
  moreover have "agrees cfg d b" unfolding agrees_def using a(4,5) b(4,5) agrees_overwrite [OF a(6)] b(6) by auto
  ultimately show ?thesis
    using sets_entry_undisturbed [where rid = rid and cfg = cfg and i = "as_local_id d", OF b(2)] a(1-3) b(1) by (auto simp: t mock_current_def)
qed

lemma same_assets:
  assumes "mo_assets t = mo_assets s"
  shows "unclaimed rid cfg i t = unclaimed rid cfg i s" "mock_current rid cfg d t = mock_current rid cfg d s"
    "mock_ready rid cfg p d t = mock_ready rid cfg p d s" "mock_present rid cfg i t = mock_present rid cfg i s"
    "lives_at rid cfg i t a = lives_at rid cfg i s a"
  unfolding unclaimed_def mock_current_def mock_ready_def mock_present_def lives_at_def assms by (rule refl)+

lemma relate_settles:
  assumes "wf_mock rid s" "mo_fail_next s = None" "mock_present rid cfg (rs_source_local_id q) s" "mock_present rid cfg (rs_target_local_id q) s"
  shows "\<exists>r t. create_relationship q (rid (rs_source_local_id q)) (rid (rs_target_local_id q)) s = (Inr r, t) \<and>
    mock_linked rid (desired_key q) t \<and>
    undisturbed rid (mock_current rid cfg) (mock_ready rid cfg) (mock_linked rid) (mock_present rid cfg) {} s t"
proof -
  obtain r t where t: "create_relationship q (rid (rs_source_local_id q)) (rid (rs_target_local_id q)) s = (r, t)"
    by (cases "create_relationship q (rid (rs_source_local_id q)) (rid (rs_target_local_id q)) s")
  let ?i = "mock_rel_id (mo_rel_seq s)"
  have eff: "r = Inr ?i" "mo_assets t = mo_assets s" "mo_relationships t = AList.update ?i
         \<lparr>sl_remote_id = ?i, sl_source_remote_id = rid (rs_source_local_id q), sl_target_remote_id = rid (rs_target_local_id q),
          sl_relation_type_ref = rs_relation_type_ref q, sl_local_key = Some (rs_local_key q)\<rparr> (mo_relationships s)"
  proof -
    have "map_of (mo_assets s) (rid (rs_source_local_id q)) \<noteq> None" "map_of (mo_assets s) (rid (rs_target_local_id q)) \<noteq> None"
      using assms(3,4) by (auto simp: mock_present_def lives_at_def)
    moreover have "mo_fail_next s \<noteq> Some ''create_relationship''" using assms(2) by simp
    ultimately show "r = Inr ?i" "mo_assets t = mo_assets s" "mo_relationships t = AList.update ?i
         \<lparr>sl_remote_id = ?i, sl_source_remote_id = rid (rs_source_local_id q), sl_target_remote_id = rid (rs_target_local_id q),
          sl_relation_type_ref = rs_relation_type_ref q, sl_local_key = Some (rs_local_key q)\<rparr> (mo_relationships s)"
      using create_relationship_effect [of s q "rid (rs_source_local_id q)" "rid (rs_target_local_id q)", OF _ t] by (simp_all only: if_False simp_thms)
  qed
  have new: "map_of (mo_relationships s) ?i = None" using assms(1) by (simp add: wf_mock_def)
  have "mock_linked rid k t" if "mock_linked rid k s" for k
  proof -
    obtain i r where i: "map_of (mo_relationships s) i = Some r" "case k of (source, target, t) \<Rightarrow> sl_source_remote_id r = rid source \<and>
        sl_target_remote_id r = rid target \<and> sl_relation_type_ref r = t" using \<open>mock_linked rid k s\<close> unfolding mock_linked_def by blast
    then have "i \<noteq> ?i" using new by auto
    then show ?thesis using i unfolding mock_linked_def eff(3) by (intro exI [of _ i] exI [of _ r]) simp
  qed
  moreover have linked: "mock_linked rid (desired_key q) t"
    unfolding mock_linked_def eff(3) by (intro exI [of _ ?i]) (simp add: desired_key_def relationship_key_def)
  ultimately have "undisturbed rid (mock_current rid cfg) (mock_ready rid cfg) (mock_linked rid) (mock_present rid cfg) {} s t"
    unfolding undisturbed_def by (simp only: same_assets [OF eff(2)]) blast
  then show ?thesis using linked unfolding t eff(1) by blast
qed

definition calm :: "(string \<Rightarrow> string) \<Rightarrow> MockState \<Rightarrow> bool" where
  "calm rid s \<longleftrightarrow> wf_mock rid s \<and> mo_fail_next s = None"

lemma calm_kept:
  assumes "calm rid s"
  shows "wf_asset d \<Longrightarrow> create_asset rid d s = (r, t) \<Longrightarrow> calm rid t" "wf_asset d \<Longrightarrow> update_asset cfg k d pn pd s = (r', t) \<Longrightarrow> calm rid t"
    "create_relationship q i j s = (r'', t) \<Longrightarrow> calm rid t"
proof -
  have s: "wf_mock rid s" "mo_fail_next s = None" using assms by (simp_all add: calm_def)
  show "calm rid t" if "wf_asset d" "create_asset rid d s = (r, t)"
    using create_asset_safe [OF s(1) that] create_asset_effect [OF _ that(2)] s(2)
    by (auto simp: calm_def same_store_def sets_entry_def split: if_splits)
  show "calm rid t" if "wf_asset d" "update_asset cfg k d pn pd s = (r', t)"
    using update_asset_safe [OF s(1) that] update_asset_effect [OF _ that(2) s(1)] s(2)
    by (auto simp: calm_def same_store_def sets_entry_def split: option.splits)
  show "calm rid t" if "create_relationship q i j s = (r'', t)"
    using create_relationship_safe [OF s(1) that] create_relationship_effect [OF _ that] s(2)
    by (auto simp: calm_def same_store_def split: if_splits)
qed

interpretation mock_settles: settling_adapter "mock_adapter rid cfg" "calm rid" "mock_keeps cfg" rid "good_asset cfg"
  "mock_current rid cfg" "mock_ready rid cfg" "mock_linked rid" "mock_present rid cfg" for rid cfg
proof (unfold_locales, goal_cases)
  case (1 s)
  then show ?case by (rule mock_keeps_refl)
next
  case (2 s t u)
  then show ?case by (rule mock_keeps_trans)
next
  case (3 s d r t)
  then have "create_asset rid d s = (r, t)" "wf_mock rid s" by (simp_all add: mock_adapter_def calm_def)
  then show ?case using calm_kept(1) [OF 3(1,2)] 3(2) create_asset_safe [of rid s d r t cfg] by blast
next
  case (4 s d i pn pd r t)
  then have "update_asset cfg i d pn pd s = (r, t)" "wf_mock rid s" by (simp_all add: mock_adapter_def calm_def)
  then show ?case using calm_kept(2) [OF 4(1,2)] 4(2) update_asset_safe [of rid s d cfg i pn pd r t] by blast
next
  case (5 s q i j r t)
  then have "create_relationship q i j s = (r, t)" "wf_mock rid s" by (simp_all add: mock_adapter_def calm_def)
  then show ?case using calm_kept(3) [OF 5(1)] create_relationship_safe [of rid s q i j r t cfg] by blast
next
  case (6 d s)
  then show ?case by (auto simp: mock_current_def mock_present_def)
next
  case (7 s d)
  then show ?case using create_settles by (simp add: mock_adapter_def calm_def)
next
  case (8 s d pn pd)
  then show ?case using update_settles by (simp add: mock_adapter_def calm_def)
next
  case (9 s q)
  then show ?case using relate_settles by (simp add: mock_adapter_def calm_def)
qed

section \<open>What is read\<close>

definition filled_config :: "CollibraMappingConfig \<Rightarrow> bool" where
  "filled_config c \<longleftrightarrow> strip (mc_domain_ref c) \<noteq> [] \<and> list_all (\<lambda>v. strip v \<noteq> []) (vals (mc_asset_type_refs c)) \<and>
     list_all (\<lambda>v. strip v \<noteq> []) (vals (mc_relation_type_refs c)) \<and> list_all (\<lambda>v. strip v \<noteq> []) (vals (mc_attribute_type_refs c))"

lemma validate_ref_map_filled: "validate_ref_map refs required name = Inr d \<Longrightarrow> list_all (\<lambda>v. strip v \<noteq> []) (vals d)"
  unfolding list_all_iff
proof
  fix v
  assume ref: "validate_ref_map refs required name = Inr d" and v: "v \<in> set (vals d)"
  then have ok: "refs_ok required d" "set (keys d) = set required" using validate_ref_map_ok by blast+
  have "distinct (keys d)"
    using ref
    by (auto simp: validate_ref_map_def split_result Let_def split: json.splits if_splits)
  moreover obtain k where k: "(k, v) \<in> set d" using v by auto
  ultimately have "map_of d k = Some v" by simp
  moreover have "k \<in> set required" using ok(2) k by (metis fst_conv image_eqI list.set_map)
  ultimately show "strip v \<noteq> []" using ok(1) by (auto simp: refs_ok_def list_all_iff split: option.splits)
qed

lemma mk_mapping_config_filled: "mk_mapping_config jd ja jr jt = Inr c \<Longrightarrow> filled_config c"
  by (auto simp: mk_mapping_config_def filled_config_def split_result split: json.splits if_splits intro: validate_ref_map_filled)

lemma dict_of_distinct: "distinct (keys kvs) \<Longrightarrow> dict_of kvs = kvs"
proof (induction kvs rule: rev_induct)
  case (snoc kv kvs)
  have "AList.update k v d = d @ [(k, v)]" if "k \<notin> fst ` set d" for k :: 'a and v :: 'b and d using that by (induction d) auto
  then show ?case using snoc by (cases kv) (simp add: dict_of_snoc)
qed simp

lemma map_of_same_set:
  "distinct (keys a) \<Longrightarrow> distinct (keys b) \<Longrightarrow> set a = set b \<Longrightarrow> map_of a = map_of b"
  by (rule map_of_inject_set [THEN iffD2])

text \<open>The remote asset that a stored asset is read as.\<close>

definition read_attribute :: "StoredAttribute \<Rightarrow> CollibraRemoteAttribute" where
  "read_attribute x = \<lparr>ra_attribute_type_ref = st_attribute_type_ref x, ra_value = st_value x,
     ra_remote_attribute_id = Some (st_remote_attribute_id x)\<rparr>"

definition read_asset :: "CollibraMappingConfig \<Rightarrow> StoredAsset \<times> string \<Rightarrow> CollibraRemoteAsset" where
  "read_asset cfg e = \<lparr>rm_remote_id = so_remote_id (fst e), rm_local_id = snd e, rm_name = so_name (fst e),
     rm_asset_type_ref = so_asset_type_ref (fst e), rm_domain_ref = so_domain_ref (fst e), rm_display_name = so_display_name (fst e),
     rm_managed_attributes = map read_attribute (filter (\<lambda>x. st_attribute_type_ref x \<in> managed_types cfg)
       (sort_key st_attribute_type_ref (vals (so_attributes (fst e)))))\<rparr>"

lemma managed_entry:
  assumes "(a, i) \<in> set (managed_entries cfg s)" "wf_mock rid s"
  shows "managed_local_id cfg a = Some i \<and> map_of (mo_assets s) (so_remote_id a) = Some a"
proof -
  obtain k where k: "(k, a) \<in> set (mo_assets s)" "managed_local_id cfg a = Some i"
    using assms(1) by (auto simp: managed_entries_def List.map_filter_def)
  have "distinct (keys (mo_assets s))" using assms(2) by (simp add: wf_mock_def)
  then have "map_of (mo_assets s) k = Some a" using k(1) by simp
  then show ?thesis using k(2) assms(2) by (auto simp: wf_mock_def simp del: map_of_eq_Some_iff)
qed

lemma managed_entry_of:
  "map_of (mo_assets s) k = Some a \<Longrightarrow> managed_local_id cfg a = Some i \<Longrightarrow> (a, i) \<in> set (managed_entries cfg s)"
  by (force simp: managed_entries_def List.map_filter_def dest!: map_of_SomeD)

lemma remote_asset_of_ok:
  assumes "filled_config cfg" "legible s" "wf_mock rid s" "(a, i) \<in> set (managed_entries cfg s)"
  shows "remote_asset_of cfg (a, i) = Inr (read_asset cfg (a, i))"
proof -
  note m = managed_entry [OF assms(4,3)]
  let ?xs = "filter (\<lambda>x. st_attribute_type_ref x \<in> managed_types cfg) (sort_key st_attribute_type_ref (vals (so_attributes a)))"
  have "traverse (\<lambda>x. mk_remote_attribute (read_attribute x)) ?xs = Inr (map read_attribute ?xs)"
    using assms(1) by (intro traverse_Inr_map)
      (auto simp: mk_remote_attribute_def read_attribute_def require_all_def require_non_empty_def filled_config_def managed_types_def list_all_iff)
  moreover have "sorted (map st_attribute_type_ref (filter P (sort_key st_attribute_type_ref xs)))" for P xs
    by (rule sorted_filter) simp
  then have "sorted (map ra_attribute_type_ref (map read_attribute ?xs))" by (simp add: read_attribute_def comp_def)
  moreover have "strip (so_remote_id a) \<noteq> []" "strip (so_name a) \<noteq> []" using m assms(2) by (auto simp: legible_def)
  moreover have "strip (so_asset_type_ref a) \<noteq> []" "strip (so_domain_ref a) \<noteq> []" "strip i \<noteq> []"
    using m assms(1) by (auto simp: managed_local_id_iff filled_config_def list_all_iff)
  moreover have "remote_asset_of cfg (a, i) = try_in (traverse (\<lambda>x. mk_remote_attribute (read_attribute x)) ?xs) (\<lambda>attributes.
      mk_remote_asset \<lparr>rm_remote_id = so_remote_id a, rm_local_id = i, rm_name = so_name a, rm_asset_type_ref = so_asset_type_ref a,
        rm_domain_ref = so_domain_ref a, rm_display_name = so_display_name a, rm_managed_attributes = attributes\<rparr>)"
    by (simp only: remote_asset_of_def read_attribute_def managed_types_def Let_def prod.case)
  ultimately show ?thesis
    by (simp add: mk_remote_asset_def require_all_def require_non_empty_def read_asset_def sort_key_id)
qed

lemma option_eq_by: "(\<And>v. x = Some v \<longleftrightarrow> y = Some v) \<Longrightarrow> x = y"
  by (metis not_None_eq)

lemma read_asset_attrs:
  assumes "wf_asset_store a"
  shows "map_of (remote_attrs (read_asset cfg (a, i))) t = (if t \<in> managed_types cfg then values_of a t else None)"
proof -
  let ?xs = "filter (\<lambda>x. st_attribute_type_ref x \<in> managed_types cfg) (vals (so_attributes a))"
  let ?L = "map (\<lambda>y. (ra_attribute_type_ref y, ra_value y)) (rm_managed_attributes (read_asset cfg (a, i)))"
  have types: "map st_attribute_type_ref (vals (so_attributes a)) = keys (so_attributes a)"
    using assms by (auto simp: wf_asset_store_def)
  have "mset (keys ?L) = mset (map st_attribute_type_ref ?xs)"
    by (simp add: read_asset_def read_attribute_def comp_def filter_sort [symmetric])
  then have L: "distinct (keys ?L) = distinct (map st_attribute_type_ref ?xs)" by (rule mset_eq_imp_distinct_iff)
  have "distinct (map st_attribute_type_ref (vals (so_attributes a)))"
    unfolding types using assms by (simp add: wf_asset_store_def)
  then have "distinct (map st_attribute_type_ref ?xs)" by (rule distinct_map_filter)
  then have "distinct (keys ?L)" unfolding L .
  then have 1: "map_of (remote_attrs (read_asset cfg (a, i))) t = Some v \<longleftrightarrow> (t, v) \<in> set ?L" for v
    unfolding remote_attrs_def by (simp add: dict_of_distinct)
  have 2: "(t, v) \<in> set ?L \<longleftrightarrow> (\<exists>x \<in> set (vals (so_attributes a)). st_attribute_type_ref x = t \<and> st_value x = v \<and> t \<in> managed_types cfg)" for v
    by (auto simp: read_asset_def read_attribute_def)
  have "(x \<in> set (vals (so_attributes a)) \<and> st_attribute_type_ref x = t) \<longleftrightarrow> map_of (so_attributes a) t = Some x" for x
    using assms by (force simp: wf_asset_store_def)
  then have 3: "(\<exists>x \<in> set (vals (so_attributes a)). st_attribute_type_ref x = t \<and> st_value x = v \<and> t \<in> managed_types cfg) \<longleftrightarrow>
      t \<in> managed_types cfg \<and> values_of a t = Some v" for v
    unfolding values_of_def by blast
  show ?thesis by (rule option_eq_by) (simp only: 1 2 3, simp)
qed

lemma map_filter_set: "y \<in> set (List.map_filter f xs) \<longleftrightarrow> (\<exists>x \<in> set xs. f x = Some y)"
  by (auto simp: List.map_filter_def image_iff)

definition ids_of_store :: "CollibraMappingConfig \<Rightarrow> MockState \<Rightarrow> (string, string) dict" where
  "ids_of_store cfg s = dict_of (map (\<lambda>(asset, local_id). (so_remote_id asset, local_id)) (managed_entries cfg s))"

lemma map_of_ids_of_store:
  assumes "wf_mock rid s"
  shows "map_of (ids_of_store cfg s) k = (case map_of (mo_assets s) k of None \<Rightarrow> None | Some a \<Rightarrow> managed_local_id cfg a)"
proof -
  let ?L = "map (\<lambda>(asset, local_id). (so_remote_id asset, local_id)) (managed_entries cfg s)"
  have ids: "map so_remote_id (vals (mo_assets s)) = keys (mo_assets s)" and keys: "distinct (keys (mo_assets s))"
    using assms by (auto simp: wf_mock_def)
  have "keys ?L = map so_remote_id (filter (\<lambda>a. managed_local_id cfg a \<noteq> None) (vals (mo_assets s)))"
    unfolding managed_entries_def List.map_filter_def by (auto simp: split_beta)
  then have "distinct (keys ?L)" using distinct_map_filter [of so_remote_id "vals (mo_assets s)"] ids keys by metis
  then have 1: "map_of (ids_of_store cfg s) k = Some i \<longleftrightarrow> (k, i) \<in> set ?L" for i by (simp add: ids_of_store_def dict_of_distinct)
  have 2: "(k, i) \<in> set ?L \<longleftrightarrow> (\<exists>a. map_of (mo_assets s) k = Some a \<and> managed_local_id cfg a = Some i)" for i
  proof
    assume "(k, i) \<in> set ?L"
    then obtain a where "(a, i) \<in> set (managed_entries cfg s)" "k = so_remote_id a" by auto
    then show "\<exists>a. map_of (mo_assets s) k = Some a \<and> managed_local_id cfg a = Some i" using managed_entry [OF _ assms] by blast
  next
    assume "\<exists>a. map_of (mo_assets s) k = Some a \<and> managed_local_id cfg a = Some i"
    then obtain a where a: "map_of (mo_assets s) k = Some a" "managed_local_id cfg a = Some i" by blast
    then have "(a, i) \<in> set (managed_entries cfg s)" "so_remote_id a = k"
      using managed_entry_of assms by (auto simp: wf_mock_def simp del: map_of_eq_Some_iff)
    then show "(k, i) \<in> set ?L" by force
  qed
  show ?thesis by (rule option_eq_by) (simp only: 1 2, cases "map_of (mo_assets s) k", simp_all)
qed

lemma read_body_ok:
  assumes "filled_config cfg" "legible s" "wf_mock rid s"
  shows "\<exists>r. read_body cfg s = Inr r \<and> set (rem_assets r) = read_asset cfg ` set (managed_entries cfg s) \<and>
    set (rem_relationships r) = {y. \<exists>k q. map_of (mo_relationships s) k = Some q \<and> remote_relationship_of cfg (ids_of_store cfg s) q = Some y}"
proof -
  let ?rels = "List.map_filter (remote_relationship_of cfg (ids_of_store cfg s)) (vals (mo_relationships s))"
  have a: "traverse (remote_asset_of cfg) (managed_entries cfg s) = Inr (map (read_asset cfg) (managed_entries cfg s))"
    using remote_asset_of_ok [OF assms] by (intro traverse_Inr_map) auto
  have rel: "\<exists>k. map_of (mo_relationships s) k = Some q" if "q \<in> set (vals (mo_relationships s))" for q
    using that assms(3) by (auto simp: wf_mock_def)
  have "mk_remote_relationship y = Inr y" if mem: "y \<in> set ?rels" for y
  proof -
    obtain q where q: "q \<in> set (vals (mo_relationships s))" "remote_relationship_of cfg (ids_of_store cfg s) q = Some y"
      using mem unfolding map_filter_set by blast
    obtain k where k: "map_of (mo_relationships s) k = Some q" using rel [OF q(1)] ..
    have blank: "strip (sl_remote_id q) \<noteq> []" "strip (sl_source_remote_id q) \<noteq> []" "strip (sl_target_remote_id q) \<noteq> []"
      using k assms(2) by (auto simp: legible_def simp del: map_of_eq_Some_iff)
    obtain i j where y: "map_of (ids_of_store cfg s) (sl_source_remote_id q) = Some i" "map_of (ids_of_store cfg s) (sl_target_remote_id q) = Some j"
      "sl_relation_type_ref q \<in> set (vals (mc_relation_type_refs cfg))" "rr_remote_id y = sl_remote_id q"
      "rr_source_remote_id y = sl_source_remote_id q" "rr_target_remote_id y = sl_target_remote_id q"
      "rr_source_local_id y = i" "rr_target_local_id y = j" "rr_relation_type_ref y = sl_relation_type_ref q"
      using q(2) by (auto simp: remote_relationship_of_def split: if_splits option.splits)
    have "strip i \<noteq> []" "strip j \<noteq> []"
      using y(1,2) unfolding map_of_ids_of_store [OF assms(3)] by (auto simp: managed_local_id_iff split: option.splits)
    then show ?thesis using blank y(3) assms(1)
      by (auto simp add: mk_remote_relationship_def require_all_def require_non_empty_def y(4-9) filled_config_def list_all_iff)
  qed
  then have b: "traverse mk_remote_relationship ?rels = Inr ?rels" using traverse_Inr_map [of ?rels mk_remote_relationship id] by simp
  have c: "set ?rels = {y. \<exists>k q. map_of (mo_relationships s) k = Some q \<and> remote_relationship_of cfg (ids_of_store cfg s) q = Some y}"
    using rel by (auto simp: map_filter_set dest!: map_of_SomeD) (metis (no_types) image_eqI map_of_SomeD snd_conv)+
  have "read_body cfg s = Inr (mk_remote_state (map (read_asset cfg) (managed_entries cfg s)) ?rels
      (length (mo_assets s) - length (managed_entries cfg s)) (length (mo_relationships s) - length ?rels))"
    using a b by (simp add: read_body_def Let_def ids_of_store_def)
  then show ?thesis using c by (intro exI conjI) (assumption, simp_all add: mk_remote_state_def)
qed

text \<open>
  C22 (safety). A synchronization loses nothing. Executing any plan of well-formed actions on the mock
  adapter, dry or applying, with or without injected failures, never raises and keeps the store
  well-formed; every stored asset and relationship is still there afterwards, with its remote identifier,
  its type, its domain, the identifiers of all its attributes, and every attribute of an unmanaged type
  exactly as it was.
\<close>

theorem mock_sync_loses_nothing:
  assumes "wf_mock rid s" "\<forall>a \<in> set (sp_actions p). wf_sync_action a"
  shows "\<exists>result t. execute_sync_plan (mock_adapter rid cfg) p wet s = (Inr result, t) \<and> wf_mock rid t \<and> mock_keeps cfg s t"
  by (rule mock_safe.execute_safe [OF assms])

lemma wf_mock_init: "wf_mock rid mock_init"
  by (simp add: wf_mock_def mock_init_def legible_def)

text \<open>A stored table with a description, which is managed, and a steward, which is not; the plan changes its name and its description.\<close>

definition stored_table :: StoredAsset where
  "stored_table = \<lparr>so_remote_id = ''m:t'', so_name = ''old'', so_display_name = None, so_asset_type_ref = ''mock:asset-type:table'',
     so_domain_ref = ''mock:domain:governance'', so_attributes =
       [(''mock:attribute-type:description'', \<lparr>st_attribute_type_ref = ''mock:attribute-type:description'', st_value = ''before'',
           st_remote_attribute_id = ''1'', st_managed = True\<rparr>),
        (''steward'', \<lparr>st_attribute_type_ref = ''steward'', st_value = ''ann'', st_remote_attribute_id = ''2'', st_managed = False\<rparr>)],
     so_local_id = Some ''t''\<rparr>"

definition stored_example :: MockState where
  "stored_example = mock_init\<lparr>mo_assets := [(''m:t'', stored_table)]\<rparr>"

definition renaming_action :: SyncAction where
  "renaming_action = blank_action\<lparr>sa_action_type := UPDATE, sa_local_id := Some ''t'', sa_remote_id := Some ''m:t'',
     sa_changed_fields := [''attributes'', ''name''], sa_desired_asset := Some \<lparr>as_local_id = ''t'', as_name = ''new'',
       as_asset_type_ref = ''mock:asset-type:table'', as_domain_ref = ''mock:domain:governance'', as_display_name = None,
       as_attributes = [\<lparr>at_attribute_type_ref = ''mock:attribute-type:description'', at_value = ''after''\<rparr>]\<rparr>\<rparr>"

lemma stored_example_wf: "wf_mock rid stored_example"
proof -
  have "strip ''m:t'' \<noteq> []" "strip ''old'' \<noteq> []" by code_simp+
  then show ?thesis
    by (auto simp: wf_mock_def stored_example_def mock_init_def legible_def stored_table_def wf_asset_store_def)
qed

theorem mock_sync_loses_nothing_witness:
  "\<exists>result t b. execute_sync_plan (mock_adapter (\<lambda>i. ''m:'' @ i) mock_config) \<lparr>sp_actions = [renaming_action]\<rparr> True stored_example = (Inr result, t) \<and>
     sr_applied_count result = 1 \<and> map_of (mo_assets t) ''m:t'' = Some b \<and> asset_kept mock_config stored_table b \<and>
     so_name b = ''new'' \<and> map_option st_value (map_of (so_attributes b) ''mock:attribute-type:description'') = Some ''after''"
proof -
  let ?run = "execute_sync_plan (mock_adapter (\<lambda>i. ''m:'' @ i) mock_config) \<lparr>sp_actions = [renaming_action]\<rparr> True stored_example"
  have "wf_sync_action renaming_action" by code_simp
  then obtain result t where run: "?run = (Inr result, t)" and kept: "mock_keeps mock_config stored_example t"
    using mock_sync_loses_nothing [OF stored_example_wf, of "\<lparr>sp_actions = [renaming_action]\<rparr>" "\<lambda>i. ''m:'' @ i" mock_config True] by auto
  have "map_of (mo_assets stored_example) ''m:t'' = Some stored_table" by (simp add: stored_example_def)
  then obtain b where b: "map_of (mo_assets t) ''m:t'' = Some b" "asset_kept mock_config stored_table b"
    using kept unfolding mock_keeps_def by blast
  have "map_option sr_applied_count (case fst ?run of Inr r \<Rightarrow> Some r | _ \<Rightarrow> None) = Some 1 \<and>
      map_option (\<lambda>b. (so_name b, map_option st_value (map_of (so_attributes b) ''mock:attribute-type:description'')))
        (map_of (mo_assets (snd ?run)) ''m:t'') = Some (''new'', Some ''after'')" by code_simp
  then show ?thesis using run b by auto
qed

end
