(* ===== verification/Convergence.thy ===== *)
theory Convergence
  imports Mock
begin

text \<open>
  Planning, execution and the mock adapter together: a plan built from what the mock returns is executed
  to its end, and planning again from what the mock then returns gives no creation and no update.
\<close>

section \<open>A second plan is empty\<close>

text \<open>Managed assets live at their addresses, and nothing else lives at an address of the desired state.\<close>

definition addressed :: "(string \<Rightarrow> string) \<Rightarrow> CollibraMappingConfig \<Rightarrow> CollibraDesiredState \<Rightarrow> MockState \<Rightarrow> bool" where
  "addressed rid cfg d s \<longleftrightarrow> (\<forall>k a. map_of (mo_assets s) k = Some a \<longrightarrow>
     (case managed_local_id cfg a of Some i \<Rightarrow> k = rid i | None \<Rightarrow> k \<notin> rid ` as_local_id ` set (des_assets d)))"

text \<open>No stored asset of the desired state has a managed attribute that is not desired any more.\<close>

definition no_extra_attributes :: "(string \<Rightarrow> string) \<Rightarrow> CollibraMappingConfig \<Rightarrow> CollibraDesiredState \<Rightarrow> MockState \<Rightarrow> bool" where
  "no_extra_attributes rid cfg d s \<longleftrightarrow> (\<forall>x \<in> set (des_assets d). \<forall>a. lives_at rid cfg (as_local_id x) s a \<longrightarrow>
     (\<forall>t \<in> managed_types cfg. values_of a t \<noteq> None \<longrightarrow> map_of (desired_attrs x) t \<noteq> None))"

lemma addressed_unclaimed: "addressed rid cfg d s \<Longrightarrow> unclaimed rid cfg i s"
  by (auto simp: addressed_def unclaimed_def simp del: map_of_eq_Some_iff split: option.splits)

lemma last_remote:
  assumes "wf_mock rid s" "unclaimed rid cfg i s" "set (rem_assets r) = read_asset cfg ` set (managed_entries cfg s)"
  shows "case last_with rm_local_id i (rem_assets r) of
      None \<Rightarrow> \<forall>a. \<not> lives_at rid cfg i s a
    | Some y \<Rightarrow> \<exists>a. lives_at rid cfg i s a \<and> y = read_asset cfg (a, i) \<and> wf_asset_store a"
proof (cases "last_with rm_local_id i (rem_assets r)")
  case None
  then have "i \<notin> rm_local_id ` set (rem_assets r)" by (simp add: last_with_None)
  moreover have "rm_local_id (read_asset cfg (a, i)) = i" for a by (simp add: read_asset_def)
  ultimately have "(a, i) \<notin> set (managed_entries cfg s)" for a unfolding assms(3) by (metis image_eqI)
  then show ?thesis using None by (auto simp: lives_at_def dest: managed_entry_of [where cfg = cfg])
next
  case (Some y)
  then have y: "y \<in> set (rem_assets r)" "rm_local_id y = i" using last_with_Some [OF Some] by simp_all
  then obtain e where e: "e \<in> set (managed_entries cfg s)" "y = read_asset cfg e" using assms(3) by auto
  obtain a where a: "e = (a, i)" using y(2) e(2) by (cases e) (simp add: read_asset_def)
  have "managed_local_id cfg a = Some i" "map_of (mo_assets s) (so_remote_id a) = Some a"
    using managed_entry [OF _ assms(1)] e(1) a by blast+
  moreover from this have "so_remote_id a = rid i" using assms(2) by (auto simp: unclaimed_def simp del: map_of_eq_Some_iff)
  ultimately have "lives_at rid cfg i s a" "wf_asset_store a" using assms(1) by (auto simp: lives_at_def wf_mock_def simp del: map_of_eq_Some_iff)
  then show ?thesis using Some e(2) a by auto
qed

lemma same_asset_agrees:
  assumes "wf_asset_store a" "good_asset cfg x"
  shows "same_asset x (read_asset cfg (a, i)) \<longleftrightarrow> agrees cfg x a"
proof -
  have none: "map_of (desired_attrs x) t = None" if "t \<notin> managed_types cfg" for t
    using that managed_attribute_types [OF assms(2)]
    by (force simp: desired_attrs_def map_of_dict_of map_of_eq_None_iff)
  have "map_of (desired_attrs x) = map_of (remote_attrs (read_asset cfg (a, i))) \<longleftrightarrow>
      (\<forall>t \<in> managed_types cfg. values_of a t = map_of (desired_attrs x) t)"
    unfolding fun_eq_iff read_asset_attrs [OF assms(1)] using none by (metis (no_types))
  then show ?thesis by (auto simp: same_asset_def agrees_def read_asset_def)
qed

text \<open>Every action of a plan built from what was read is prepared, and its seeds are addresses.\<close>

lemma changed_fields_flags:
  "''name'' \<in> set (asset_changed_fields x y) \<longleftrightarrow> as_name x \<noteq> rm_name y"
  "''display_name'' \<in> set (asset_changed_fields x y) \<longleftrightarrow> or_none (as_display_name x) \<noteq> or_none (rm_display_name y)"
  by (auto simp: asset_changed_fields_def)

lemma action_of_desired:
  assumes "build_sync_plan d r = Inr p" "\<forall>y \<in> set (rem_assets r). rm_remote_id y \<noteq> []"
    "\<forall>y \<in> set (rem_relationships r). rr_remote_id y \<noteq> []" "a \<in> set (sp_actions p)" "sa_object_kind a = ASSET" "mutating a"
  shows "\<exists>i x. last_with as_local_id i (des_assets d) = Some x \<and> as_local_id x = i \<and> sa_desired_asset a = Some x \<and>
    sa_local_id a = Some i \<and> asset_verdict i (Some x) (last_with rm_local_id i (rem_assets r)) = Some a"
proof -
  have "relationship_verdict v w \<noteq> Some a" for v w using assms(5) by (cases v; cases w) (auto simp: blank_action_def)
  then obtain i where i: "asset_verdict i (last_with as_local_id i (des_assets d)) (last_with rm_local_id i (rem_assets r)) = Some a"
    using assms(4) unfolding verdict_in_plan [OF assms(1-3)] by auto
  have "last_with as_local_id i (des_assets d) \<noteq> None"
  proof
    assume "last_with as_local_id i (des_assets d) = None"
    with i assms(6) show False
      by (cases "last_with rm_local_id i (rem_assets r)") (auto simp: mutating_def is_action_def blank_action_def)
  qed
  then obtain x where x: "last_with as_local_id i (des_assets d) = Some x" by blast
  then show ?thesis using i asset_verdict_desired [of i x "last_with rm_local_id i (rem_assets r)" a] last_with_Some by fastforce
qed

lemma built_action_fixed:
  assumes "build_sync_plan d r = Inr p" "a \<in> set (sp_actions p)"
  shows "mk_sync_action a = Inr a"
proof -
  have fixed: "desired_asset_action R e = Inr b \<Longrightarrow> mk_sync_action b = Inr b" "remote_asset_action e2 = Inr b \<Longrightarrow> mk_sync_action b = Inr b"
    "desired_relationship_action R2 e3 = Inr b \<Longrightarrow> mk_sync_action b = Inr b"
    "remote_relationship_action e4 = Inr b \<Longrightarrow> mk_sync_action b = Inr b" for R e e2 R2 e3 e4 b
    unfolding desired_asset_action_def remote_asset_action_def desired_relationship_action_def remote_relationship_action_def Let_def
    by (auto dest: mk_sync_action_fixed split: prod.splits option.splits if_splits)
  obtain w x y z R R2 where *: "traverse (desired_asset_action R) (index_by as_local_id (des_assets d)) = Inr w"
    "traverse remote_asset_action (absent_from R (index_by as_local_id (des_assets d))) = Inr x"
    "traverse (desired_relationship_action R2) (index_by desired_key (des_relationships d)) = Inr y"
    "traverse remote_relationship_action (absent_from R2 (index_by desired_key (des_relationships d))) = Inr z"
    "p = mk_sync_plan (w @ x @ y @ z)"
    using assms(1) unfolding build_sync_plan_def Let_def try_in_Inr by blast
  have "list_all (\<lambda>a. mk_sync_action a = Inr a) w" by (rule traverse_all [OF *(1)]) (rule fixed)
  moreover have "list_all (\<lambda>a. mk_sync_action a = Inr a) x" by (rule traverse_all [OF *(2)]) (rule fixed)
  moreover have "list_all (\<lambda>a. mk_sync_action a = Inr a) y" by (rule traverse_all [OF *(3)]) (rule fixed)
  moreover have "list_all (\<lambda>a. mk_sync_action a = Inr a) z" by (rule traverse_all [OF *(4)]) (rule fixed)
  ultimately show ?thesis using assms(2) by (auto simp: *(5) mk_sync_plan_def list_all_iff)
qed

lemma built_action_wf:
  assumes "build_sync_plan d r = Inr p" "\<forall>y \<in> set (rem_assets r). rm_remote_id y \<noteq> []"
    "\<forall>y \<in> set (rem_relationships r). rr_remote_id y \<noteq> []" "\<forall>x \<in> set (des_assets d). wf_asset x"
    "\<forall>q \<in> set (des_relationships d). wf_relationship_spec q" "a \<in> set (sp_actions p)" "mutating a"
  shows "wf_sync_action a"
proof -
  have fixed: "mk_sync_action a = Inr a" by (rule built_action_fixed [OF assms(1,6)])
  show ?thesis
  proof (cases "sa_object_kind a")
    case ASSET
    from action_of_desired [OF assms(1-3,6) ASSET assms(7)] obtain i x
      where x: "last_with as_local_id i (des_assets d) = Some x" "asset_verdict i (Some x) (last_with rm_local_id i (rem_assets r)) = Some a"
        "sa_desired_asset a = Some x" by blast
    then have "x \<in> set (des_assets d)" by (auto dest: last_with_Some)
    moreover have "sa_desired_relationship a = None"
      using x(2) by (cases "last_with rm_local_id i (rem_assets r)") (auto simp: blank_action_def)
    ultimately show ?thesis using fixed x(3) assms(4) by (simp add: wf_sync_action_def)
  next
    case RELATIONSHIP
    have "asset_verdict i v w \<noteq> Some a" for i v w using RELATIONSHIP by (cases v; cases w) (auto simp: blank_action_def)
    then obtain k where k: "relationship_verdict (last_with desired_key k (des_relationships d)) (last_with remote_key k (rem_relationships r)) = Some a"
      using assms(6) unfolding verdict_in_plan [OF assms(1-3)] by auto
    have "sa_desired_asset a = None"
      using k by (cases "last_with desired_key k (des_relationships d)"; cases "last_with remote_key k (rem_relationships r)") (auto simp: blank_action_def)
    moreover have "a \<in> set (plan_actions p)" using assms(6,7) by (simp add: set_plan_actions)
    ultimately show ?thesis using fixed relationship_action [OF assms(1-3) _ RELATIONSHIP] assms(5) by (auto simp: wf_sync_action_def)
  qed
qed

text \<open>What holds of the store when a plan is made.\<close>

definition syncable :: "(string \<Rightarrow> string) \<Rightarrow> CollibraMappingConfig \<Rightarrow> CollibraDesiredState \<Rightarrow> MockState \<Rightarrow> bool" where
  "syncable rid cfg d s \<longleftrightarrow> calm rid s \<and> addressed rid cfg d s \<and> no_extra_attributes rid cfg d s"

text \<open>The local identifiers that matter: those of the desired state and those of the managed assets in the store.\<close>

definition ids_at_hand :: "CollibraMappingConfig \<Rightarrow> CollibraDesiredState \<Rightarrow> MockState \<Rightarrow> string set" where
  "ids_at_hand cfg d s = as_local_id ` set (des_assets d) \<union>
     {i. \<exists>k a. map_of (mo_assets s) k = Some a \<and> managed_local_id cfg a = Some i}"

text \<open>What the mapping gives: a closed state with good assets.\<close>

definition good_state :: "CollibraMappingConfig \<Rightarrow> CollibraDesiredState \<Rightarrow> bool" where
  "good_state cfg d \<longleftrightarrow> closed_state cfg d \<and> (\<forall>x \<in> set (des_assets d). good_asset cfg x)"

definition reads_as :: "CollibraMappingConfig \<Rightarrow> MockState \<Rightarrow> CollibraRemoteState \<Rightarrow> bool" where
  "reads_as cfg s r \<longleftrightarrow> set (rem_assets r) = read_asset cfg ` set (managed_entries cfg s) \<and>
    set (rem_relationships r) = {y. \<exists>k q. map_of (mo_relationships s) k = Some q \<and> remote_relationship_of cfg (ids_of_store cfg s) q = Some y}"

lemma reads_as_ids:
  assumes "reads_as cfg s r" "calm rid s" "no_blank_ids rid"
  shows "\<forall>y \<in> set (rem_assets r). rm_remote_id y \<noteq> []" "\<forall>y \<in> set (rem_relationships r). rr_remote_id y \<noteq> []"
proof -
  have s: "wf_mock rid s" "legible s" using assms(2,3) by (auto simp: calm_def wf_mock_def)
  have blank: "k \<noteq> []" if "strip k \<noteq> []" for k using that by (auto simp: strip_Nil_iff)
  show "\<forall>y \<in> set (rem_assets r). rm_remote_id y \<noteq> []"
  proof
    fix y assume "y \<in> set (rem_assets r)"
    then obtain a i where "(a, i) \<in> set (managed_entries cfg s)" "y = read_asset cfg (a, i)" using assms(1) by (auto simp: reads_as_def)
    then show "rm_remote_id y \<noteq> []" using managed_entry [OF _ s(1)] s(2) blank by (auto simp: read_asset_def legible_def simp del: map_of_eq_Some_iff)
  qed
  show "\<forall>y \<in> set (rem_relationships r). rr_remote_id y \<noteq> []"
  proof
    fix y assume "y \<in> set (rem_relationships r)"
    then obtain k q where "map_of (mo_relationships s) k = Some q" "remote_relationship_of cfg (ids_of_store cfg s) q = Some y"
      using assms(1) by (auto simp: reads_as_def)
    then show "rr_remote_id y \<noteq> []" using s(2) blank
      by (auto simp: remote_relationship_of_def legible_def simp del: map_of_eq_Some_iff split: if_splits option.splits)
  qed
qed

lemma plan_prepared:
  assumes r: "reads_as cfg s r" and s: "syncable rid cfg d s" "no_blank_ids rid" and d: "good_state cfg d"
    and plan: "build_sync_plan d r = Inr p" and a: "a \<in> set (plan_actions p)" and inj: "inj_on rid (ids_at_hand cfg d s)"
  shows "prepared rid (good_asset cfg) (mock_ready rid cfg) a s"
proof -
  have calm: "calm rid s" and wf: "wf_mock rid s" and addr: "addressed rid cfg d s" and extra: "no_extra_attributes rid cfg d s"
    using s(1) by (auto simp: syncable_def calm_def)
  note ids = reads_as_ids [OF r calm s(2)]
  have mem: "a \<in> set (sp_actions p)" "mutating a" using a by (simp_all add: set_plan_actions)
  have wfa: "wf_sync_action a"
    by (rule built_action_wf [OF plan ids _ _ mem])
      (use d in \<open>auto simp: good_state_def closed_state_def managed_asset_def list_all_iff\<close>)
  show ?thesis
  proof (cases "sa_object_kind a")
    case RELATIONSHIP
    then show ?thesis using wfa mem(2) by (simp add: prepared_def)
  next
    case ASSET
    from action_of_desired [OF plan ids mem(1) ASSET mem(2)] obtain i x
      where x: "last_with as_local_id i (des_assets d) = Some x" "as_local_id x = i" "sa_desired_asset a = Some x"
        "asset_verdict i (Some x) (last_with rm_local_id i (rem_assets r)) = Some a" by blast
    then have x_in: "x \<in> set (des_assets d)" by (auto dest: last_with_Some)
    then have good: "good_asset cfg x" using d by (simp add: good_state_def)
    have un: "unclaimed rid cfg i s" by (rule addressed_unclaimed [OF addr])
    note last = last_remote [OF wf un r [unfolded reads_as_def, THEN conjunct1]]
    have "mock_ready rid cfg (patch_of a) x s \<and> (sa_action_type a = UPDATE \<longrightarrow> sa_remote_id a = Some (rid i))"
    proof (cases "last_with rm_local_id i (rem_assets r)")
      case None
      with x(4) have a_eq: "sa_action_type a = CREATE" by (auto simp: blank_action_def)
      have "map_of (mo_assets s) (rid i) = None"
      proof (rule ccontr)
        assume "map_of (mo_assets s) (rid i) \<noteq> None"
        then obtain b where b: "map_of (mo_assets s) (rid i) = Some b" by blast
        have here: "case managed_local_id cfg b of Some j \<Rightarrow> rid i = rid j | None \<Rightarrow> rid i \<notin> rid ` as_local_id ` set (des_assets d)"
          using addr b unfolding addressed_def by blast
        have free: "\<not> lives_at rid cfg i s b" using last None by simp
        show False
        proof (cases "managed_local_id cfg b")
          case None
          then show False using here x_in x(2) by auto
        next
          case (Some j)
          then have "rid i = rid j" using here by simp
          moreover have "i \<in> ids_at_hand cfg d s" "j \<in> ids_at_hand cfg d s"
            using x_in x(2) b Some by (auto simp: ids_at_hand_def simp del: map_of_eq_Some_iff)
          ultimately have "j = i" using inj by (auto dest: inj_onD)
          then show False using free Some b by (simp add: lives_at_def del: map_of_eq_Some_iff)
        qed
      qed
      then show ?thesis using un x(2) a_eq by (simp add: mock_ready_def patch_of_def)
    next
      case (Some y)
      with last obtain b where b: "lives_at rid cfg i s b" "y = read_asset cfg (b, i)" "wf_asset_store b" by auto
      have "so_remote_id b = rid i" using b(1) wf by (auto simp: lives_at_def wf_mock_def simp del: map_of_eq_Some_iff)
      moreover have type: "sa_action_type a = UPDATE" "sa_remote_id a = Some (rm_remote_id y)"
        "sa_changed_fields a = sort (asset_changed_fields x y)"
        using x(4) Some mem(2) by (auto simp: blank_action_def mutating_def is_action_def split: if_splits)
      moreover have "\<forall>t \<in> managed_types cfg. values_of b t \<noteq> None \<longrightarrow> map_of (desired_attrs x) t \<noteq> None"
        using extra x_in b(1) x(2) by (auto simp: no_extra_attributes_def)
      ultimately show ?thesis using un x(2) b(1)
        by (auto simp: mock_ready_def patch_of_def changed_fields_flags b(2) read_asset_def intro!: exI [of _ b])
    qed
    then show ?thesis using wfa mem(2) x(2,3) good by (simp add: prepared_def)
  qed
qed

lemma plan_seeds_sound:
  assumes r: "reads_as cfg s r" and s: "syncable rid cfg d s" "no_blank_ids rid" and plan: "build_sync_plan d r = Inr p"
  shows "sound_ids rid (mock_present rid cfg) (seed_remote_ids_from_plan p) s"
  unfolding sound_ids_def
proof (intro allI impI)
  fix i q assume "map_of (seed_remote_ids_from_plan p) i = Some q"
  then obtain a where a: "a \<in> set (sp_actions p)" "seeds a i q" using seed_Some by blast
  have calm: "calm rid s" and wf: "wf_mock rid s" and addr: "addressed rid cfg d s" using s(1) by (auto simp: syncable_def calm_def)
  have "relationship_verdict v w \<noteq> Some a" for v w using a(2) by (cases v; cases w) (auto simp: seeds_def blank_action_def)
  then obtain j where j: "asset_verdict j (last_with as_local_id j (des_assets d)) (last_with rm_local_id j (rem_assets r)) = Some a"
    using a(1) unfolding verdict_in_plan [OF plan reads_as_ids [OF r calm s(2)]] by auto
  obtain y where y: "last_with rm_local_id i (rem_assets r) = Some y" "rm_remote_id y = q"
    using j a(2) by (cases "last_with as_local_id j (des_assets d)"; cases "last_with rm_local_id j (rem_assets r)")
      (auto simp: seeds_def blank_action_def)
  obtain b where b: "lives_at rid cfg i s b" "y = read_asset cfg (b, i)"
    using last_remote [OF wf addressed_unclaimed [OF addr] r [unfolded reads_as_def, THEN conjunct1], of i] y(1) by auto
  then have "so_remote_id b = rid i" using wf by (auto simp: lives_at_def wf_mock_def simp del: map_of_eq_Some_iff)
  then show "q = rid i \<and> mock_present rid cfg i s" using b y(2) by (auto simp: read_asset_def mock_present_def)
qed

text \<open>After the run every desired asset is current and every desired relationship is linked.\<close>

lemma plan_ids_at_hand:
  assumes "reads_as cfg s r" "calm rid s" "no_blank_ids rid" "build_sync_plan d r = Inr p"
  shows "\<Union> (asset_ids_of ` set (plan_actions p)) \<subseteq> ids_at_hand cfg d s"
proof
  fix i assume "i \<in> \<Union> (asset_ids_of ` set (plan_actions p))"
  then obtain c where c: "c \<in> set (sp_actions p)" "mutating c" "i \<in> asset_ids_of c" by (auto simp: set_plan_actions)
  note ids = reads_as_ids [OF assms(1-3)]
  have kind: "sa_object_kind c = ASSET" using action_asset_id [OF assms(4) ids c(1)] c(3) by auto
  from action_of_desired [OF assms(4) ids c(1) kind c(2)] obtain z
    where "last_with as_local_id (as_local_id z) (des_assets d) = Some z" "sa_desired_asset c = Some z" by blast
  then show "i \<in> ids_at_hand cfg d s" using c(3) kind by (auto simp: asset_ids_of_def ids_at_hand_def dest: last_with_Some)
qed

lemma assets_current_after:
  assumes r: "reads_as cfg s r" and s: "syncable rid cfg d s" "no_blank_ids rid" "inj_on rid (ids_at_hand cfg d s)" and d: "good_state cfg d"
    and plan: "build_sync_plan d r = Inr p"
    and settled: "\<forall>a \<in> set (plan_actions p). settled (mock_current rid cfg) (mock_linked rid) a t"
    and kept: "undisturbed rid (mock_current rid cfg) (mock_ready rid cfg) (mock_linked rid) (mock_present rid cfg)
      (rid ` \<Union> (asset_ids_of ` set (plan_actions p))) s t"
    and x: "x \<in> set (des_assets d)"
  shows "mock_current rid cfg x t"
proof -
  have calm: "calm rid s" and wf: "wf_mock rid s" and addr: "addressed rid cfg d s" using s(1) by (auto simp: syncable_def calm_def)
  note ids = reads_as_ids [OF r calm s(2)]
  define i where "i = as_local_id x"
  have last: "last_with as_local_id i (des_assets d) = Some x"
    using d x by (simp add: i_def last_with_distinct good_state_def closed_state_def)
  obtain a where a: "asset_verdict i (Some x) (last_with rm_local_id i (rem_assets r)) = Some a" using asset_verdict_None(1) by blast
  then have mem: "a \<in> set (sp_actions p)"
    using last unfolding verdict_in_plan [OF plan ids] by (intro UnI1 CollectI exI [of _ i]) simp
  note kind = asset_verdict_desired [OF a]
  show ?thesis
  proof (cases "mutating a")
    case True
    then have "settled (mock_current rid cfg) (mock_linked rid) a t" using settled mem by (simp add: set_plan_actions)
    then show ?thesis using kind by (simp add: settled_def)
  next
    case False
    then obtain y where y: "last_with rm_local_id i (rem_assets r) = Some y" using kind by blast
    have same: "same_asset x y" using False a y by (auto simp: blank_action_def mutating_def is_action_def split: if_splits)
    obtain b where b: "lives_at rid cfg i s b" "y = read_asset cfg (b, i)" "wf_asset_store b"
      using last_remote [OF wf addressed_unclaimed [OF addr] r [unfolded reads_as_def, THEN conjunct1], of i] y by auto
    have "good_asset cfg x" using d x by (simp add: good_state_def)
    then have "agrees cfg x b" using same same_asset_agrees b(2,3) by simp
    then have cur: "mock_current rid cfg x s" using b(1) addressed_unclaimed [OF addr] by (auto simp: mock_current_def i_def)
    have "i \<notin> asset_ids_of c" if c: "c \<in> set (plan_actions p)" for c
    proof
      assume i: "i \<in> asset_ids_of c"
      have c': "c \<in> set (sp_actions p)" "mutating c" using c by (simp_all add: set_plan_actions)
      have ac: "sa_object_kind c = ASSET" using action_asset_id [OF plan ids c'(1)] i by auto
      from action_of_desired [OF plan ids c'(1) ac c'(2)] obtain j z
        where z: "last_with as_local_id j (des_assets d) = Some z" "as_local_id z = j" "sa_desired_asset c = Some z"
          "asset_verdict j (Some z) (last_with rm_local_id j (rem_assets r)) = Some c" by blast
      have "j = i" using i ac z(2,3) by (simp add: asset_ids_of_def)
      then have "c = a" using z(1,4) last a by simp
      then show False using c'(2) False by simp
    qed
    then have "i \<notin> \<Union> (asset_ids_of ` set (plan_actions p))" by blast
    moreover have "i \<in> ids_at_hand cfg d s" using x by (auto simp: i_def ids_at_hand_def)
    ultimately have "rid i \<notin> rid ` \<Union> (asset_ids_of ` set (plan_actions p))"
      using inj_on_image_mem_iff [OF s(3) _ plan_ids_at_hand [OF r calm s(2) plan]] by blast
    then show ?thesis using kept cur by (simp add: undisturbed_def i_def)
  qed
qed

lemma relationships_linked_after:
  assumes r: "reads_as cfg s r" and s: "syncable rid cfg d s" "no_blank_ids rid"
    and plan: "build_sync_plan d r = Inr p"
    and settled: "\<forall>a \<in> set (plan_actions p). settled (mock_current rid cfg) (mock_linked rid) a t"
    and kept: "\<forall>k. mock_linked rid k s \<longrightarrow> mock_linked rid k t"
    and q: "q \<in> set (des_relationships d)"
  shows "mock_linked rid (desired_key q) t"
proof -
  have calm: "calm rid s" and wf: "wf_mock rid s" and addr: "addressed rid cfg d s" using s(1) by (auto simp: syncable_def calm_def)
  note ids = reads_as_ids [OF r calm s(2)]
  define k where "k = desired_key q"
  obtain z where z: "last_with desired_key k (des_relationships d) = Some z" "desired_key z = k"
    using q last_with_None [of desired_key k "des_relationships d"] by (cases "last_with desired_key k (des_relationships d)")
      (auto simp: k_def dest: last_with_Some)
  show ?thesis
  proof (cases "last_with remote_key k (rem_relationships r)")
    case None
    let ?a = "blank_action\<lparr>sa_action_type := CREATE, sa_object_kind := RELATIONSHIP,
      sa_local_id := Some (rs_local_key z), sa_reason := ''desired relationship missing remotely'', sa_desired_relationship := Some z\<rparr>"
    have "?a \<in> set (sp_actions p)" unfolding verdict_in_plan [OF plan ids]
      by (intro UnI2 CollectI exI [of _ k]) (simp add: z(1) None)
    then have "settled (mock_current rid cfg) (mock_linked rid) ?a t"
      using settled by (simp add: set_plan_actions mutating_def is_action_def)
    then show ?thesis using z(2) by (simp add: settled_def k_def)
  next
    case (Some y)
    then have "y \<in> set (rem_relationships r)" "remote_key y = k" using last_with_Some [OF Some] by simp_all
    then obtain j st where st: "map_of (mo_relationships s) j = Some st" "remote_relationship_of cfg (ids_of_store cfg s) st = Some y"
      using r by (auto simp: reads_as_def)
    have resolve: "n = rid i" if n: "map_of (ids_of_store cfg s) n = Some i" for n i
    proof -
      obtain a where a: "map_of (mo_assets s) n = Some a" "managed_local_id cfg a = Some i"
        using n unfolding map_of_ids_of_store [OF wf] by (auto split: option.splits)
      have "case managed_local_id cfg a of Some j \<Rightarrow> n = rid j | None \<Rightarrow> n \<notin> rid ` as_local_id ` set (des_assets d)"
        using addr a(1) unfolding addressed_def by blast
      then show ?thesis using a(2) by simp
    qed
    have "sl_source_remote_id st = rid (rr_source_local_id y) \<and> sl_target_remote_id st = rid (rr_target_local_id y) \<and>
      sl_relation_type_ref st = rr_relation_type_ref y"
      using st(2) resolve by (auto simp: remote_relationship_of_def split: if_splits option.splits)
    moreover have "k = (rr_source_local_id y, rr_target_local_id y, rr_relation_type_ref y)"
      using \<open>remote_key y = k\<close> by (simp add: remote_key_def relationship_key_def)
    ultimately have "mock_linked rid k s" using st(1) by (auto simp: mock_linked_def simp del: map_of_eq_Some_iff)
    then show ?thesis using kept unfolding k_def by blast
  qed
qed

text \<open>A plan for a store where everything is in place changes nothing.\<close>

lemma nothing_to_do:
  assumes r: "reads_as cfg t r" and t: "calm rid t" "no_blank_ids rid" and d: "good_state cfg d"
    and current: "\<forall>x \<in> set (des_assets d). mock_current rid cfg x t"
    and linked: "\<forall>q \<in> set (des_relationships d). mock_linked rid (desired_key q) t"
    and plan: "build_sync_plan d r = Inr p" and a: "a \<in> set (sp_actions p)"
  shows "\<not> mutating a"
proof
  assume m: "mutating a"
  have wf: "wf_mock rid t" using t(1) by (simp add: calm_def)
  note ids = reads_as_ids [OF r t]
  note a_in = a [unfolded verdict_in_plan [OF plan ids]]
  show False
  proof (cases "sa_object_kind a")
    case ASSET
    from action_of_desired [OF plan ids a ASSET m] obtain i x
      where x: "last_with as_local_id i (des_assets d) = Some x" "as_local_id x = i"
        "asset_verdict i (Some x) (last_with rm_local_id i (rem_assets r)) = Some a" by blast
    then have mem: "x \<in> set (des_assets d)" by (auto dest: last_with_Some)
    then have "mock_current rid cfg x t" and good: "good_asset cfg x" using current d by (auto simp: good_state_def)
    then obtain b where b: "unclaimed rid cfg i t" "lives_at rid cfg i t b" "agrees cfg x b" using x(2) by (auto simp: mock_current_def)
    note last = last_remote [OF wf b(1) r [unfolded reads_as_def, THEN conjunct1]]
    obtain y c where y: "last_with rm_local_id i (rem_assets r) = Some y" "lives_at rid cfg i t c" "y = read_asset cfg (c, i)" "wf_asset_store c"
      using last b(2) by (auto split: option.splits)
    then have "c = b" using b(2) by (simp add: lives_at_def del: map_of_eq_Some_iff)
    then have "same_asset x y" using y(3,4) b(3) same_asset_agrees good by simp
    then show False using x(3) y(1) m by (auto simp: blank_action_def mutating_def is_action_def)
  next
    case RELATIONSHIP
    have "a \<in> set (plan_actions p)" using a m by (simp add: set_plan_actions)
    then have create: "sa_action_type a = CREATE" using relationship_action [OF plan ids _ RELATIONSHIP] by simp
    have "asset_verdict i v w \<noteq> Some a" for i v w using RELATIONSHIP by (cases v; cases w) (auto simp: blank_action_def)
    then obtain k where k: "relationship_verdict (last_with desired_key k (des_relationships d))
        (last_with remote_key k (rem_relationships r)) = Some a" using a_in by auto
    then obtain q where q: "last_with desired_key k (des_relationships d) = Some q" "last_with remote_key k (rem_relationships r) = None"
      using create by (cases "last_with desired_key k (des_relationships d)"; cases "last_with remote_key k (rem_relationships r)")
        (auto simp: blank_action_def)
    then have mem: "q \<in> set (des_relationships d)" "desired_key q = k" by (auto dest: last_with_Some)
    obtain j st where st: "map_of (mo_relationships t) j = Some st" "sl_source_remote_id st = rid (rs_source_local_id q)"
      "sl_target_remote_id st = rid (rs_target_local_id q)" "sl_relation_type_ref st = rs_relation_type_ref q"
      using linked mem(1) by (auto simp: mock_linked_def desired_key_def relationship_key_def)
    have known: "map_of (ids_of_store cfg t) (rid i) = Some i" if i: "i \<in> as_local_id ` set (des_assets d)" for i
    proof -
      obtain b where "lives_at rid cfg i t b" using i current by (auto simp: mock_current_def)
      then show ?thesis unfolding map_of_ids_of_store [OF wf] by (auto simp: lives_at_def simp del: map_of_eq_Some_iff)
    qed
    have ends: "{rs_source_local_id q, rs_target_local_id q} \<subseteq> as_local_id ` set (des_assets d)"
      and type: "rs_relation_type_ref q \<in> set (vals (mc_relation_type_refs cfg))"
      using d mem(1) by (auto simp: good_state_def closed_state_def)
    have "map_of (ids_of_store cfg t) (sl_source_remote_id st) = Some (rs_source_local_id q)"
      "map_of (ids_of_store cfg t) (sl_target_remote_id st) = Some (rs_target_local_id q)" using ends known st(2,3) by auto
    then obtain y where y: "remote_relationship_of cfg (ids_of_store cfg t) st = Some y" "remote_key y = k"
      using type st(4) mem(2) by (simp add: remote_relationship_of_def remote_key_def desired_key_def relationship_key_def)
    then have "y \<in> set (rem_relationships r)" using r st(1) by (auto simp: reads_as_def)
    then show False using q(2) y(2) by (auto simp: last_with_None)
  qed
qed

section \<open>Synchronization converges\<close>

text \<open>The mapping gives good assets when the configured attribute types are different.\<close>

lemma the_ref_inj:
  assumes "refs_ok required d" "distinct (vals d)" "j \<in> set required" "k \<in> set required" "the_ref d j = the_ref d k"
  shows "j = k"
proof -
  have "map_of d j \<noteq> None" "map_of d k \<noteq> None"
    using assms(1,3,4) by (auto simp: refs_ok_def list_all_iff simp del: map_of_eq_Some_iff split: option.splits)
  then obtain v w where v: "map_of d j = Some v" "map_of d k = Some w" by blast
  then have "(j, v) \<in> set d" "(k, v) \<in> set d" using assms(5) by (auto simp: the_ref_def dest!: map_of_SomeD)
  then show ?thesis using assms(2) inj_onD [of snd "set d" "(j, v)" "(k, v)"] by (simp add: distinct_map)
qed

definition own_attribute :: "CollibraMappingConfig \<Rightarrow> string \<Rightarrow> CollibraAttributeSpec \<Rightarrow> bool" where
  "own_attribute cfg i a \<longleftrightarrow> (\<exists>k v. k \<in> set ATTRIBUTE_TYPE_KEYS \<and> a = attribute_spec cfg k v \<and> (k = ''local_id'' \<longrightarrow> v = i))"

definition own_local_id :: "CollibraMappingConfig \<Rightarrow> CollibraAssetSpec \<Rightarrow> bool" where
  "own_local_id cfg x \<longleftrightarrow> (\<forall>a \<in> set (as_attributes x). own_attribute cfg (as_local_id x) a)"

lemma own_attributeI:
  "k \<in> set ATTRIBUTE_TYPE_KEYS \<Longrightarrow> k = ''local_id'' \<longrightarrow> v = i \<Longrightarrow> own_attribute cfg i (attribute_spec cfg k v)"
  unfolding own_attribute_def by blast

lemma own_attribute_keys:
  "own_attribute cfg i (attribute_spec cfg ''local_id'' i)" "own_attribute cfg i (attribute_spec cfg ''description'' v)"
  "own_attribute cfg i (attribute_spec cfg ''owner'' v)" "own_attribute cfg i (attribute_spec cfg ''data_type'' v)"
  "own_attribute cfg i (attribute_spec cfg ''nullable'' v)" "own_attribute cfg i (attribute_spec cfg ''ordinal_position'' v)"
  by (rule own_attributeI; simp add: ATTRIBUTE_TYPE_KEYS_def)+

lemma own_common: "a \<in> set (common_spec cfg i d w) \<Longrightarrow> own_attribute cfg i a"
  by (auto simp: common_spec_def own_attribute_keys split: option.splits if_splits json.splits)

lemma own_local_id_asset:
  "(\<And>a. a \<in> set ats \<Longrightarrow> own_attribute cfg i a) \<Longrightarrow> own_local_id cfg (asset_spec cfg kind i path n ats)"
  by (simp add: own_local_id_def asset_spec_def)

lemma own_local_id_common: "own_local_id cfg (asset_spec cfg kind i path n (common_spec cfg i d w))"
  by (rule own_local_id_asset) (rule own_common)

lemma own_local_id_column: "own_local_id cfg (column_asset cfg db sc t c)"
  unfolding column_asset_def by (rule own_local_id_asset) (auto simp: own_attribute_keys dest: own_common)

lemma model_assets_own: "x \<in> set (model_assets cfg m) \<Longrightarrow> own_local_id cfg x"
  by (auto simp: model_assets_def database_assets_def schema_assets_def table_assets_def own_local_id_common own_local_id_column)

lemma mapped_good:
  assumes "mk_mapping_config jd ja jr jt = Inr cfg" "built_model m" "map_to_desired_state m cfg = Inr d"
    and "distinct (vals (mc_attribute_type_refs cfg))"
  shows "good_state cfg d"
proof -
  have closed: "closed_state cfg d" by (rule mapped_closed [OF assms(1-3)])
  have refs: "refs_ok ATTRIBUTE_TYPE_KEYS (mc_attribute_type_refs cfg)"
    using mk_mapping_config_ok [OF assms(1)] by (simp add: config_ok_def)
  have "good_asset cfg x" if x: "x \<in> set (des_assets d)" for x
  proof -
    have "x \<in> set (model_assets cfg m)"
      using x assms(3) unfolding map_to_desired_state_iff [OF assms(1,2)] by (auto simp: mk_desired_state_def)
    then have own: "own_local_id cfg x" by (rule model_assets_own)
    have "at_value a = as_local_id x" if a: "a \<in> set (as_attributes x)" "at_attribute_type_ref a = local_ref cfg" for a
    proof -
      obtain k v where k: "k \<in> set ATTRIBUTE_TYPE_KEYS" "a = attribute_spec cfg k v" "k = ''local_id'' \<longrightarrow> v = as_local_id x"
        using own a(1) by (auto simp: own_local_id_def own_attribute_def)
      have "the_ref (mc_attribute_type_refs cfg) k = the_ref (mc_attribute_type_refs cfg) ''local_id''"
        using a(2) k(2) by (simp add: attribute_spec_def local_ref_def)
      from the_ref_inj [OF refs assms(4) k(1) _ this] have "k = ''local_id''" by (simp add: ATTRIBUTE_TYPE_KEYS_def)
      then show ?thesis using k by (simp add: attribute_spec_def)
    qed
    then show ?thesis using closed x by (auto simp: good_asset_def closed_state_def list_all_iff)
  qed
  then show ?thesis using closed by (simp add: good_state_def)
qed

lemma read_calm:
  assumes "filled_config cfg" "calm rid s" "no_blank_ids rid"
  shows "\<exists>r t. read_remote_state cfg d s = (Inr r, t) \<and> reads_as cfg s r \<and> same_store s t"
proof -
  let ?t = "record_action ''read_remote_state'' [] s"
  have t: "legible s" "wf_mock rid s" using assms(2,3) by (auto simp: calm_def wf_mock_def)
  obtain r where r: "read_body cfg s = Inr r" "reads_as cfg s r"
    using read_body_ok [OF assms(1) t] unfolding reads_as_def by blast
  have "read_body cfg ?t = read_body cfg s" by (simp add: read_body_def record_action_def managed_entries_def)
  moreover have "mo_fail_next s \<noteq> Some ''read_remote_state''" using assms(2) by (simp add: calm_def)
  ultimately have "read_remote_state cfg d s = (Inr r, ?t)" using r(1) by (simp add: read_remote_state_def operation_body)
  then show ?thesis using r(2) by (auto simp: same_store_def record_action_def)
qed

lemma same_store_syncable: "same_store s t \<Longrightarrow> syncable rid cfg d s \<Longrightarrow> syncable rid cfg d t"
  by (auto simp: syncable_def calm_def wf_mock_def legible_def addressed_def no_extra_attributes_def lives_at_def same_store_def
      simp del: map_of_eq_Some_iff)

lemma same_store_reads: "same_store s t \<Longrightarrow> reads_as cfg s r \<Longrightarrow> reads_as cfg t r"
  by (simp add: reads_as_def same_store_def managed_entries_def ids_of_store_def del: map_of_eq_Some_iff)

lemma planned_mutations:
  assumes "build_sync_plan d r = Inr p" "\<forall>y \<in> set (rem_assets r). rm_remote_id y \<noteq> []"
    "\<forall>y \<in> set (rem_relationships r). rr_remote_id y \<noteq> []" "a \<in> set (sp_actions p)"
  shows "mutating a \<longleftrightarrow> sa_action_type a = CREATE \<or> sa_action_type a = UPDATE"
proof -
  have "asset_verdict i v w = Some a \<Longrightarrow> sa_object_kind a = ASSET" for i v w
    by (cases v; cases w) (auto simp: blank_action_def)
  moreover have "relationship_verdict v w = Some a \<Longrightarrow> sa_object_kind a = RELATIONSHIP \<and> sa_action_type a \<noteq> UPDATE" for v w
    by (cases v; cases w) (auto simp: blank_action_def)
  ultimately have "sa_object_kind a = ASSET \<or> sa_object_kind a = RELATIONSHIP \<and> sa_action_type a \<noteq> UPDATE"
    using assms(4) unfolding verdict_in_plan [OF assms(1-3)] by blast
  then show ?thesis by (auto simp: mutating_def is_action_def)
qed

lemma planned_count:
  assumes "build_sync_plan d r = Inr p" "\<forall>y \<in> set (rem_assets r). rm_remote_id y \<noteq> []"
    "\<forall>y \<in> set (rem_relationships r). rr_remote_id y \<noteq> []"
  shows "length (plan_actions p) = length (plan_of_type CREATE p @ plan_of_type UPDATE p)"
proof -
  have "filter mutating (sp_actions p) = filter (\<lambda>a. sa_action_type a = CREATE \<or> sa_action_type a = UPDATE) (sp_actions p)"
    by (rule filter_cong) (simp_all add: planned_mutations [OF assms])
  moreover have "length (filter (\<lambda>a. sa_action_type a = CREATE \<or> sa_action_type a = UPDATE) xs) =
      length (filter (\<lambda>a. sa_action_type a = CREATE) xs) + length (filter (\<lambda>a. sa_action_type a = UPDATE) xs)" for xs
    by (induction xs) auto
  ultimately show ?thesis using mset_plan_actions [THEN mset_eq_length, of p] by (simp add: plan_of_type_def)
qed

text \<open>
  C5 (liveness). Synchronization converges. Take a configuration accepted by its constructor with different
  attribute types, the desired state of a model, and a mock tenant in which managed assets live at their
  addresses, no asset of the desired state has managed attributes that are not desired, and no failure is
  injected, whose remote identifiers are never blank and do not collide on the local identifiers of the desired
  state and of the stored managed assets. Then reading, planning and applying the plan all succeed, every action being applied; and
  reading and planning again gives a plan without any creation or update.
\<close>

theorem sync_converges:
  assumes "mk_mapping_config jd ja jr jt = Inr cfg" "distinct (vals (mc_attribute_type_refs cfg))"
    and "built_model m" "map_to_desired_state m cfg = Inr d"
    and "inj_on rid (ids_at_hand cfg d s)" "no_blank_ids rid" "syncable rid cfg d s"
  shows "\<exists>r s1 p t r2 t2 p2 result.
    read_remote_state cfg d s = (Inr r, s1) \<and> build_sync_plan d r = Inr p \<and>
    execute_sync_plan (mock_adapter rid cfg) p True s1 = (Inr result, t) \<and>
    sr_success result \<and> sr_applied_count result = length (plan_of_type CREATE p @ plan_of_type UPDATE p) \<and>
    read_remote_state cfg d t = (Inr r2, t2) \<and> build_sync_plan d r2 = Inr p2 \<and>
    plan_of_type CREATE p2 = [] \<and> plan_of_type UPDATE p2 = []"
proof -
  have filled: "filled_config cfg" by (rule mk_mapping_config_filled [OF assms(1)])
  have good: "good_state cfg d" by (rule mapped_good [OF assms(1,3,4,2)])
  have calm: "calm rid s" using assms(7) by (simp add: syncable_def)
  obtain r s1 where r: "read_remote_state cfg d s = (Inr r, s1)" "reads_as cfg s1 r" and store: "same_store s s1"
    using read_calm [OF filled calm assms(6), of d] same_store_reads by blast
  have s1: "syncable rid cfg d s1" by (rule same_store_syncable [OF store assms(7)])
  then have calm1: "calm rid s1" by (simp add: syncable_def)
  have inj: "inj_on rid (ids_at_hand cfg d s1)" using assms(5) store by (simp add: ids_at_hand_def same_store_def)
  note ids = reads_as_ids [OF r(2) calm1 assms(6)]
  obtain p where p: "build_sync_plan d r = Inr p" using build_sync_plan_exact [OF ids] by blast
  have "as_local_id x \<noteq> []" if "good_asset cfg x" for x using good_id [OF that] by (auto simp: strip_Nil_iff)
  then have nonempty: "\<forall>x \<in> set (des_assets d). as_local_id x \<noteq> []" using good by (simp add: good_state_def)
  have ends: "\<forall>q \<in> set (des_relationships d). {rs_source_local_id q, rs_target_local_id q} \<subseteq> as_local_id ` set (des_assets d)"
    using good by (simp add: good_state_def closed_state_def)
  have prep: "\<forall>a \<in> set (plan_actions p). prepared rid (good_asset cfg) (mock_ready rid cfg) a s1"
    using plan_prepared [OF r(2) s1 assms(6) good p _ inj] by blast
  obtain t where t: "execute_sync_plan (mock_adapter rid cfg) p True s1 = (Inr \<lparr>sr_success = True, sr_dry_run = False,
        sr_applied_count = length (plan_actions p), sr_unchanged_count = length (plan_of_type UNCHANGED p), sr_failed_action = None,
        sr_error = None, sr_plan = Some p\<rparr>, t)" "calm rid t"
      "\<forall>a \<in> set (plan_actions p). settled (mock_current rid cfg) (mock_linked rid) a t"
      "undisturbed rid (mock_current rid cfg) (mock_ready rid cfg) (mock_linked rid) (mock_present rid cfg)
        (rid ` \<Union> (asset_ids_of ` set (plan_actions p))) s1 t"
    using mock_settles.plan_settles [OF calm1 inj_on_subset [OF inj plan_ids_at_hand [OF r(2) calm1 assms(6) p]] p ids nonempty ends prep plan_seeds_sound [OF r(2) s1 assms(6) p]] by blast
  have current: "\<forall>x \<in> set (des_assets d). mock_current rid cfg x t"
    using assets_current_after [OF r(2) s1 assms(6) inj good p t(3,4)] by blast
  have linked: "\<forall>q \<in> set (des_relationships d). mock_linked rid (desired_key q) t"
    using relationships_linked_after [OF r(2) s1 assms(6) p t(3)] t(4) by (simp add: undisturbed_def)
  obtain r2 t2 where r2: "read_remote_state cfg d t = (Inr r2, t2)" "reads_as cfg t r2"
    using read_calm [OF filled t(2) assms(6), of d] by blast
  obtain p2 where p2: "build_sync_plan d r2 = Inr p2" using build_sync_plan_exact [OF reads_as_ids [OF r2(2) t(2) assms(6)]] by blast
  have "\<forall>a \<in> set (sp_actions p2). \<not> mutating a"
    using nothing_to_do [OF r2(2) t(2) assms(6) good current linked p2] by blast
  then have none: "plan_of_type CREATE p2 = []" "plan_of_type UPDATE p2 = []"
    using planned_mutations [OF p2 reads_as_ids [OF r2(2) t(2) assms(6)]] by (auto simp: plan_of_type_def filter_empty_conv)
  let ?result = "\<lparr>sr_success = True, sr_dry_run = False, sr_applied_count = length (plan_actions p),
    sr_unchanged_count = length (plan_of_type UNCHANGED p), sr_failed_action = None, sr_error = None, sr_plan = Some p\<rparr>"
  have "sr_success ?result" "sr_applied_count ?result = length (plan_of_type CREATE p @ plan_of_type UPDATE p)"
    by (simp_all add: planned_count [OF p ids] del: length_append)
  then show ?thesis using r(1) p t(1) r2(1) p2 none by blast
qed

lemma syncable_init: "syncable rid cfg d mock_init"
  using wf_mock_init [of rid]
  by (simp add: syncable_def calm_def addressed_def no_extra_attributes_def lives_at_def) (simp add: mock_init_def)

theorem sync_converges_witness:
  "\<exists>d r s1 p t r2 t2 p2 result. map_to_desired_state example_model mock_config = Inr d \<and>
    read_remote_state mock_config d mock_init = (Inr r, s1) \<and> build_sync_plan d r = Inr p \<and>
    execute_sync_plan (mock_adapter (\<lambda>i. ''m:'' @ i) mock_config) p True s1 = (Inr result, t) \<and>
    sr_success result \<and> sr_applied_count result = length (plan_of_type CREATE p @ plan_of_type UPDATE p) \<and>
    read_remote_state mock_config d t = (Inr r2, t2) \<and> build_sync_plan d r2 = Inr p2 \<and>
    plan_of_type CREATE p2 = [] \<and> plan_of_type UPDATE p2 = []"
proof -
  have d: "map_to_desired_state example_model mock_config =
      Inr (mk_desired_state (model_assets mock_config example_model) (model_rels mock_config example_model))"
    by (rule map_to_desired_state_iff [OF mock_config_accepted example_model_built, THEN iffD2]) code_simp
  have types: "distinct (vals (mc_attribute_type_refs mock_config))" by code_simp
  have inj: "inj_on (\<lambda>i. ''m:'' @ i) S" for S by (simp add: inj_on_def)
  have filled: "no_blank_ids (\<lambda>i. ''m:'' @ i)" by (auto simp: no_blank_ids_def strip_Nil_iff)
  show ?thesis using sync_converges [OF mock_config_accepted types example_model_built d inj filled syncable_init] d by blast
qed

end
