(* ===== verification/Snapshot.thy ===== *)
theory Snapshot
  imports Model
begin

text \<open>
  \<open>snapshots/models.py\<close>, \<open>snapshots/validate.py\<close> and \<open>snapshots/load.py\<close>: the snapshot artifact, the
  strict parser of its payload and the loading path from the parsed JSON on.

  The parser walks the payload in the order of the code and threads the identifiers it has seen; the
  first failing check is the result. SHA-256 and the JSON Schema validator (the \<open>jsonschema\<close> package) are
  parameters; recursion depth is not modelled.
\<close>

section \<open>The artifact\<close>

definition SNAPSHOT_SCHEMA :: string where "SNAPSHOT_SCHEMA = ''governance-snapshot''"
definition SNAPSHOT_VERSION :: string where "SNAPSHOT_VERSION = ''1''"
definition SCANNER_CONTRACT_VERSION :: string where "SCANNER_CONTRACT_VERSION = ''1''"

record GovernanceSnapshot =
  sn_model :: GovernanceModel
  sn_source_name :: string
  sn_database_name :: string
  sn_system_type :: string
  sn_scanner :: string
  sn_scanner_contract_version :: string

definition snapshot_from_model :: "GovernanceModel \<Rightarrow> GovernanceSnapshot result" where
  "snapshot_from_model model =
     (case gm_data_sources model of
        [data_source] \<Rightarrow>
          (case ds_databases data_source of
             [database] \<Rightarrow> Inr \<lparr>sn_model = model, sn_source_name = ds_name data_source, sn_database_name = db_name database,
               sn_system_type = ds_system_type data_source, sn_scanner = ds_system_type data_source,
               sn_scanner_contract_version = SCANNER_CONTRACT_VERSION\<rparr>
           | _ \<Rightarrow> Inl (ValueError ''DataSource must contain exactly one Database''))
      | _ \<Rightarrow> Inl (ValueError ''GovernanceModel must contain exactly one DataSource''))"

definition snapshot_items :: "GovernanceSnapshot \<Rightarrow> (string \<times> json) list" where
  "snapshot_items s =
     [(''governance'', model_to_dict (sn_model s)),
      (''scan'', JObject [(''scanner'', JStr (sn_scanner s)),
         (''scanner_contract_version'', JStr (sn_scanner_contract_version s))]),
      (''snapshot_schema'', JStr SNAPSHOT_SCHEMA),
      (''snapshot_version'', JStr SNAPSHOT_VERSION),
      (''source'', JObject [(''database'', JStr (sn_database_name s)), (''name'', JStr (sn_source_name s)),
         (''system_type'', JStr (sn_system_type s))])]"

definition snapshot_content_identity :: "(string \<Rightarrow> string) \<Rightarrow> GovernanceSnapshot \<Rightarrow> ContentIdentity" where
  "snapshot_content_identity sha s = sha256_identity sha SnapshotId (JObject (snapshot_items s))"

definition snapshot_to_dict :: "(string \<Rightarrow> string) \<Rightarrow> GovernanceSnapshot \<Rightarrow> json" where
  "snapshot_to_dict sha s = JObject (snapshot_items s @
     [(''content_identity'', content_identity_dict (snapshot_content_identity sha s))])"

section \<open>Checked reading\<close>

definition snapshot_error :: "string \<Rightarrow> string \<Rightarrow> string \<Rightarrow> error" where
  "snapshot_error message code path = Diagnostics ''SnapshotError'' [diagnostic_error code path message]"

definition payload_error :: "string \<Rightarrow> string \<Rightarrow> error" where
  "payload_error message path = snapshot_error message ''invalid_snapshot_payload'' path"

definition require_str :: "json \<Rightarrow> string \<Rightarrow> string result" where
  "require_str value path = (case value of JStr s \<Rightarrow> Inr s | _ \<Rightarrow> Inl (payload_error ''value must be a string'' path))"

definition require_non_empty_text :: "json \<Rightarrow> string \<Rightarrow> string result" where
  "require_non_empty_text value path = try_in (require_str value path) (\<lambda>text.
     if text = [] then Inl (payload_error ''string must be non-empty'' path) else Inr text)"

definition require_int :: "json \<Rightarrow> string \<Rightarrow> int result" where
  "require_int value path = (case value of JInt i \<Rightarrow> Inr i | _ \<Rightarrow> Inl (payload_error ''value must be an integer'' path))"

definition require_bool :: "json \<Rightarrow> string \<Rightarrow> bool result" where
  "require_bool value path = (case value of JBool b \<Rightarrow> Inr b | _ \<Rightarrow> Inl (payload_error ''value must be a boolean'' path))"

definition require_mapping :: "json \<Rightarrow> string \<Rightarrow> (string \<times> json) list result" where
  "require_mapping value path = (case value of JObject kvs \<Rightarrow> Inr kvs | _ \<Rightarrow> Inl (payload_error ''value must be a mapping'' path))"

definition require_list :: "json \<Rightarrow> string \<Rightarrow> json list result" where
  "require_list value path = (case value of JArray vs \<Rightarrow> Inr vs | _ \<Rightarrow> Inl (payload_error ''value must be an array'' path))"

text \<open>A parsed JSON value passes \<open>validate_json_value\<close>, so only the normalization is left.\<close>

definition description_from_value :: "json \<Rightarrow> json" where
  "description_from_value value = canon value"

definition ownership_from_dict :: "json \<Rightarrow> string \<Rightarrow> Ownership option result" where
  "ownership_from_dict raw path =
     (if raw = JNull then Inr None
      else try_in (require_mapping raw path) (\<lambda>mapping.
           try_in (require_non_empty_text (get_item mapping ''owner_name'') (path @ ''/owner_name'')) (\<lambda>owner_name.
           try_in (require_non_empty_text (get_or mapping ''owner_type'' (JStr ''role'')) (path @ ''/owner_type'')) (\<lambda>owner_type.
           try_in (mk_ownership owner_name owner_type) (\<lambda>w. Inr (Some w))))))"

definition technical_attributes_from_dict :: "json \<Rightarrow> string \<Rightarrow> technical_attributes result" where
  "technical_attributes_from_dict raw path = require_mapping raw path"

definition register_id :: "string list \<Rightarrow> string \<Rightarrow> string \<Rightarrow> string list result" where
  "register_id seen object_id path =
     (if object_id \<in> set seen then Inl (payload_error (''duplicate snapshot object id: '' @ object_id) path)
      else Inr (seen @ [object_id]))"

text \<open>\<open>for index, item in enumerate(items)\<close> with a body that returns an item and updates a state.\<close>

fun scan_items :: "(nat \<Rightarrow> 's \<Rightarrow> 'a \<Rightarrow> ('b \<times> 's) result) \<Rightarrow> nat \<Rightarrow> 's \<Rightarrow> 'a list \<Rightarrow> ('b list \<times> 's) result" where
  "scan_items f i s [] = Inr ([], s)"
| "scan_items f i s (x # xs) =
     try_in (f i s x) (\<lambda>(y, t). try_in (scan_items f (Suc i) t xs) (\<lambda>(ys, u). Inr (y # ys, u)))"

definition at_index :: "string \<Rightarrow> nat \<Rightarrow> string" where
  "at_index path i = path @ ''/'' @ str_nat i"

section \<open>Objects\<close>

definition column_from_dict :: "string \<Rightarrow> nat \<Rightarrow> string list \<Rightarrow> json \<Rightarrow> (Column \<times> string list) result" where
  "column_from_dict columns_path i seen raw =
     (let path = at_index columns_path i in
      try_in (require_mapping raw path) (\<lambda>mapping.
      try_in (require_non_empty_text (get_item mapping ''id'') (path @ ''/id'')) (\<lambda>column_id.
      try_in (register_id seen column_id (path @ ''/id'')) (\<lambda>seen.
      try_in (require_non_empty_text (get_item mapping ''name'') (path @ ''/name'')) (\<lambda>name.
      try_in (require_non_empty_text (get_item mapping ''data_type'') (path @ ''/data_type'')) (\<lambda>data_type.
      try_in (require_int (get_item mapping ''ordinal_position'') (path @ ''/ordinal_position'')) (\<lambda>ordinal_position.
      try_in (require_bool (get_item mapping ''nullable'') (path @ ''/nullable'')) (\<lambda>nullable.
      try_in (technical_attributes_from_dict (get_or mapping ''technical_attributes'' (JObject []))
          (path @ ''/technical_attributes'')) (\<lambda>technical_attributes.
      try_in (mk_column \<lparr>c_id = column_id, c_name = name, c_data_type = data_type, c_ordinal_position = ordinal_position,
          c_nullable = nullable, c_description = description_from_value (get_item mapping ''description''),
          c_technical_attributes = technical_attributes\<rparr>) (\<lambda>c.
        Inr (c, seen)))))))))))"

text \<open>A list of identifiers each of which must belong to a set of columns.\<close>

definition column_refs :: "string \<Rightarrow> string list \<Rightarrow> string \<Rightarrow> json list \<Rightarrow> string list result" where
  "column_refs path columns message raw =
     try_in (scan_items (\<lambda>i _ item.
         try_in (require_non_empty_text item (at_index path i)) (\<lambda>column_id.
           if column_id \<notin> set columns then Inl (payload_error message (at_index path i)) else Inr (column_id, ()))) 0 () raw)
       (\<lambda>(ids, _). Inr ids)"

definition primary_key_from_dict ::
  "string \<Rightarrow> string \<Rightarrow> string list \<Rightarrow> string list \<Rightarrow> json \<Rightarrow> (PrimaryKey \<times> string list) result" where
  "primary_key_from_dict path table_id column_ids seen raw =
     try_in (require_mapping raw path) (\<lambda>mapping.
     try_in (require_non_empty_text (get_item mapping ''id'') (path @ ''/id'')) (\<lambda>pk_id.
     try_in (register_id seen pk_id (path @ ''/id'')) (\<lambda>seen.
     try_in (require_non_empty_text (get_item mapping ''table_id'') (path @ ''/table_id'')) (\<lambda>pk_table_id.
     if pk_table_id \<noteq> table_id
     then Inl (payload_error ''primary_key.table_id does not resolve to containing table'' (path @ ''/table_id''))
     else
       try_in (require_list (get_item mapping ''column_ids'') (path @ ''/column_ids'')) (\<lambda>raw_column_ids.
       try_in (column_refs (path @ ''/column_ids'') column_ids ''primary_key column_id does not resolve on containing table''
           raw_column_ids) (\<lambda>parsed_column_ids.
       try_in (require_non_empty_text (get_item mapping ''name'') (path @ ''/name'')) (\<lambda>name.
       try_in (mk_primary_key \<lparr>pk_id = pk_id, pk_name = name, pk_table_id = pk_table_id, pk_column_ids = parsed_column_ids\<rparr>)
         (\<lambda>k. Inr (k, seen)))))))))"

definition foreign_key_from_dict ::
  "string list \<Rightarrow> (string, string list) dict \<Rightarrow> string \<Rightarrow> string \<Rightarrow> string list \<Rightarrow> string list \<Rightarrow> json \<Rightarrow>
   (ForeignKey \<times> string list) result" where
  "foreign_key_from_dict table_ids columns_by_table path table_id column_ids seen raw =
     try_in (require_mapping raw path) (\<lambda>mapping.
     try_in (require_non_empty_text (get_item mapping ''id'') (path @ ''/id'')) (\<lambda>fk_id.
     try_in (register_id seen fk_id (path @ ''/id'')) (\<lambda>seen.
     try_in (require_non_empty_text (get_item mapping ''table_id'') (path @ ''/table_id'')) (\<lambda>fk_table_id.
     if fk_table_id \<noteq> table_id
     then Inl (payload_error ''foreign_key.table_id does not resolve to containing table'' (path @ ''/table_id''))
     else
       try_in (require_list (get_item mapping ''column_ids'') (path @ ''/column_ids'')) (\<lambda>raw_column_ids.
       try_in (column_refs (path @ ''/column_ids'') column_ids ''foreign_key column_id does not resolve on containing table''
           raw_column_ids) (\<lambda>parsed_column_ids.
       try_in (require_non_empty_text (get_item mapping ''referenced_table_id'') (path @ ''/referenced_table_id'')) (\<lambda>referenced_table_id.
       if referenced_table_id \<notin> set table_ids
       then Inl (payload_error ''referenced_table_id does not resolve to a table'' (path @ ''/referenced_table_id''))
       else
         try_in (require_list (get_item mapping ''referenced_column_ids'') (path @ ''/referenced_column_ids'')) (\<lambda>raw_ref_column_ids.
         try_in (column_refs (path @ ''/referenced_column_ids'') (get_list columns_by_table referenced_table_id)
             ''referenced_column_id does not resolve on referenced table'' raw_ref_column_ids) (\<lambda>parsed_ref_column_ids.
         if length parsed_column_ids \<noteq> length parsed_ref_column_ids
         then Inl (payload_error ''column_ids and referenced_column_ids length mismatch'' path)
         else
           try_in (require_non_empty_text (get_item mapping ''name'') (path @ ''/name'')) (\<lambda>name.
           try_in (mk_foreign_key \<lparr>fk_id = fk_id, fk_name = name, fk_table_id = fk_table_id, fk_column_ids = parsed_column_ids,
               fk_referenced_table_id = referenced_table_id, fk_referenced_column_ids = parsed_ref_column_ids\<rparr>)
             (\<lambda>k. Inr (k, seen))))))))))))"

text \<open>The first pass over the tables: identifiers seen, the tables, their columns and the foreign keys to be
  resolved once all tables are known.\<close>

record parse_state =
  pt_seen :: "string list"
  pt_table_ids :: "string list"
  pt_columns_by_table :: "(string, string list) dict"
  pt_pending_fks :: "(string \<times> json \<times> string) list"

definition optional_primary_key ::
  "string \<Rightarrow> string \<Rightarrow> string list \<Rightarrow> string list \<Rightarrow> json \<Rightarrow> (PrimaryKey option \<times> string list) result" where
  "optional_primary_key path table_id column_ids seen pk_raw =
     (if pk_raw = JNull then Inr (None, seen)
      else try_in (primary_key_from_dict path table_id column_ids seen pk_raw) (\<lambda>(k, seen). Inr (Some k, seen)))"

definition table_from_dict :: "string \<Rightarrow> string \<Rightarrow> nat \<Rightarrow> parse_state \<Rightarrow> json \<Rightarrow> (Table \<times> parse_state) result" where
  "table_from_dict tables_path schema_id i st raw =
     (let path = at_index tables_path i in
      try_in (require_mapping raw path) (\<lambda>mapping.
      try_in (require_non_empty_text (get_item mapping ''id'') (path @ ''/id'')) (\<lambda>table_id.
      try_in (register_id (pt_seen st) table_id (path @ ''/id'')) (\<lambda>seen.
      try_in (require_non_empty_text (get_item mapping ''schema_id'') (path @ ''/schema_id'')) (\<lambda>resolved_schema_id.
      if resolved_schema_id \<noteq> schema_id
      then Inl (payload_error ''table.schema_id does not resolve to containing schema'' (path @ ''/schema_id''))
      else
        try_in (require_list (get_item mapping ''columns'') (path @ ''/columns'')) (\<lambda>columns_raw.
        try_in (scan_items (column_from_dict (path @ ''/columns'')) 0 seen columns_raw) (\<lambda>(columns, seen).
        let column_ids = map c_id columns; pk_raw = get_item mapping ''primary_key'' in
        try_in (optional_primary_key (path @ ''/primary_key'') table_id column_ids seen pk_raw) (\<lambda>(primary_key, seen).
        try_in (require_list (get_item mapping ''foreign_keys'') (path @ ''/foreign_keys'')) (\<lambda>fks_raw.
        try_in (require_non_empty_text (get_item mapping ''name'') (path @ ''/name'')) (\<lambda>name.
        try_in (ownership_from_dict (get_item mapping ''ownership'') (path @ ''/ownership'')) (\<lambda>ownership.
        try_in (technical_attributes_from_dict (get_or mapping ''technical_attributes'' (JObject []))
            (path @ ''/technical_attributes'')) (\<lambda>technical_attributes.
        try_in (mk_table \<lparr>t_id = table_id, t_name = name, t_schema_id = resolved_schema_id, t_columns = columns,
            t_primary_key = primary_key, t_foreign_keys = [],
            t_description = description_from_value (get_item mapping ''description''), t_ownership = ownership,
            t_technical_attributes = technical_attributes\<rparr>) (\<lambda>table.
          Inr (table, \<lparr>pt_seen = seen, pt_table_ids = pt_table_ids st @ [table_id],
            pt_columns_by_table = AList.update table_id column_ids (pt_columns_by_table st),
            pt_pending_fks = pt_pending_fks st @
              map (\<lambda>(k, fk). (table_id, fk, at_index (path @ ''/foreign_keys'') k)) (enumerate 0 fks_raw)\<rparr>))))))))))))))"

definition schema_from_dict :: "string \<Rightarrow> string \<Rightarrow> nat \<Rightarrow> parse_state \<Rightarrow> json \<Rightarrow> (Schema \<times> parse_state) result" where
  "schema_from_dict schemas_path database_id i st raw =
     (let path = at_index schemas_path i in
      try_in (require_mapping raw path) (\<lambda>mapping.
      try_in (require_non_empty_text (get_item mapping ''id'') (path @ ''/id'')) (\<lambda>schema_id.
      try_in (register_id (pt_seen st) schema_id (path @ ''/id'')) (\<lambda>seen.
      try_in (require_non_empty_text (get_item mapping ''database_id'') (path @ ''/database_id'')) (\<lambda>resolved_database_id.
      if resolved_database_id \<noteq> database_id
      then Inl (payload_error ''schema.database_id does not resolve to database'' (path @ ''/database_id''))
      else
        try_in (require_list (get_item mapping ''tables'') (path @ ''/tables'')) (\<lambda>tables_raw.
        try_in (scan_items (table_from_dict (path @ ''/tables'') schema_id) 0 (st\<lparr>pt_seen := seen\<rparr>) tables_raw) (\<lambda>(tables, st).
        try_in (require_non_empty_text (get_item mapping ''name'') (path @ ''/name'')) (\<lambda>name.
        try_in (ownership_from_dict (get_item mapping ''ownership'') (path @ ''/ownership'')) (\<lambda>ownership.
        try_in (mk_schema \<lparr>sc_id = schema_id, sc_name = name, sc_database_id = resolved_database_id, sc_tables = tables,
            sc_description = description_from_value (get_item mapping ''description''), sc_ownership = ownership\<rparr>) (\<lambda>schema.
          Inr (schema, st)))))))))))"

text \<open>The second pass: the pending foreign keys, each with the table it belongs to, and the tables rebuilt
  with their foreign keys.\<close>

definition pending_fk_from_dict ::
  "parse_state \<Rightarrow> nat \<Rightarrow> string list \<Rightarrow> string \<times> json \<times> string \<Rightarrow> ((string \<times> ForeignKey) \<times> string list) result" where
  "pending_fk_from_dict st i seen entry =
     (let (table_id, raw, path) = entry in
      case map_of (pt_columns_by_table st) table_id of
        None \<Rightarrow> Inl (KeyError table_id)
      | Some columns \<Rightarrow>
          try_in (foreign_key_from_dict (pt_table_ids st) (pt_columns_by_table st) path table_id columns seen raw)
            (\<lambda>(k, seen). Inr ((table_id, k), seen)))"

definition rebuild_table :: "(string \<times> ForeignKey) list \<Rightarrow> Table \<Rightarrow> Table result" where
  "rebuild_table fks table = mk_table (table\<lparr>t_foreign_keys := map snd (filter (\<lambda>e. fst e = t_id table) fks)\<rparr>)"

definition rebuild_schema :: "(string \<times> ForeignKey) list \<Rightarrow> Schema \<Rightarrow> Schema result" where
  "rebuild_schema fks schema =
     try_in (traverse (rebuild_table fks) (sc_tables schema)) (\<lambda>tables. mk_schema (schema\<lparr>sc_tables := tables\<rparr>))"

definition catch_value_error :: "string \<Rightarrow> 'a result \<Rightarrow> 'a result" where
  "catch_value_error path r = (case r of Inl (ValueError m) \<Rightarrow> Inl (payload_error m path) | _ \<Rightarrow> r)"

definition check_relationship_fk ::
  "(string, ForeignKey) dict \<Rightarrow> string \<Rightarrow> string \<Rightarrow> string \<Rightarrow> json \<Rightarrow> string option result" where
  "check_relationship_fk foreign_keys_by_id path from_table_id to_table_id raw =
     (if raw = JNull then Inr None
      else try_in (require_non_empty_text raw (path @ ''/foreign_key_id'')) (\<lambda>foreign_key_id.
        case map_of foreign_keys_by_id foreign_key_id of
          None \<Rightarrow> Inl (payload_error ''relationship.foreign_key_id does not resolve to a foreign_key'' (path @ ''/foreign_key_id''))
        | Some fk \<Rightarrow>
            if fk_table_id fk \<noteq> from_table_id
            then Inl (payload_error ''foreign_key source table does not match relationship.from_table_id'' (path @ ''/foreign_key_id''))
            else if fk_referenced_table_id fk \<noteq> to_table_id
            then Inl (payload_error ''foreign_key referenced table does not match relationship.to_table_id'' (path @ ''/foreign_key_id''))
            else Inr (Some foreign_key_id)))"

definition relationship_from_dict ::
  "string list \<Rightarrow> (string, ForeignKey) dict \<Rightarrow> nat \<Rightarrow> string list \<Rightarrow> json \<Rightarrow> (Relationship \<times> string list) result" where
  "relationship_from_dict table_ids foreign_keys_by_id i seen raw =
     (let path = at_index ''/governance/relationships'' i in
      try_in (require_mapping raw path) (\<lambda>rel.
      try_in (require_non_empty_text (get_item rel ''id'') (path @ ''/id'')) (\<lambda>rel_id.
      try_in (register_id seen rel_id (path @ ''/id'')) (\<lambda>seen.
      try_in (require_non_empty_text (get_item rel ''from_table_id'') (path @ ''/from_table_id'')) (\<lambda>from_table_id.
      try_in (require_non_empty_text (get_item rel ''to_table_id'') (path @ ''/to_table_id'')) (\<lambda>to_table_id.
      if from_table_id \<notin> set table_ids
      then Inl (payload_error ''relationship.from_table_id does not resolve'' (path @ ''/from_table_id''))
      else if to_table_id \<notin> set table_ids
      then Inl (payload_error ''relationship.to_table_id does not resolve to a table'' (path @ ''/to_table_id''))
      else
        try_in (check_relationship_fk foreign_keys_by_id path from_table_id to_table_id (get_item rel ''foreign_key_id'')) (\<lambda>foreign_key_id.
        try_in (catch_value_error path
            (try_in (require_non_empty_text (get_item rel ''name'') (path @ ''/name'')) (\<lambda>name.
             mk_relationship \<lparr>rl_id = rel_id, rl_name = name, rl_from_table_id = from_table_id, rl_to_table_id = to_table_id,
               rl_foreign_key_id = foreign_key_id, rl_description = description_from_value (get_item rel ''description'')\<rparr>))) (\<lambda>r.
          Inr (r, seen)))))))))"

section \<open>The payload\<close>

text \<open>The data source and its database, with all tables and foreign keys.\<close>

definition ds_path :: string where "ds_path = ''/governance/data_sources/0''"
definition db_path :: string where "db_path = ds_path @ ''/databases/0''"

definition sole_item :: "json \<Rightarrow> string \<Rightarrow> string \<Rightarrow> json result" where
  "sole_item raw path message = try_in (require_list raw path) (\<lambda>vs.
     case vs of [v] \<Rightarrow> Inr v | _ \<Rightarrow> Inl (payload_error message path))"

definition database_from_dict :: "string \<Rightarrow> string list \<Rightarrow> json \<Rightarrow> (Database \<times> (string \<times> ForeignKey) list \<times> parse_state) result" where
  "database_from_dict datasource_id seen raw =
     try_in (require_mapping raw db_path) (\<lambda>db_raw.
     try_in (require_non_empty_text (get_item db_raw ''id'') (db_path @ ''/id'')) (\<lambda>db_id.
     try_in (register_id seen db_id (db_path @ ''/id'')) (\<lambda>seen.
     try_in (require_non_empty_text (get_item db_raw ''name'') (db_path @ ''/name'')) (\<lambda>db_name.
     try_in (require_non_empty_text (get_item db_raw ''datasource_id'') (db_path @ ''/datasource_id'')) (\<lambda>db_datasource_id.
     if db_datasource_id \<noteq> datasource_id
     then Inl (payload_error ''database.datasource_id does not resolve to data_source'' (db_path @ ''/datasource_id''))
     else
       try_in (require_list (get_item db_raw ''schemas'') (db_path @ ''/schemas'')) (\<lambda>schemas_raw.
       try_in (scan_items (schema_from_dict (db_path @ ''/schemas'') db_id) 0
           \<lparr>pt_seen = seen, pt_table_ids = [], pt_columns_by_table = [], pt_pending_fks = []\<rparr> schemas_raw) (\<lambda>(schemas, st).
       try_in (scan_items (pending_fk_from_dict st) 0 (pt_seen st) (pt_pending_fks st)) (\<lambda>(fks, seen).
       try_in (traverse (rebuild_schema fks) schemas) (\<lambda>schemas.
       try_in (ownership_from_dict (get_item db_raw ''ownership'') (db_path @ ''/ownership'')) (\<lambda>ownership.
       try_in (mk_database \<lparr>db_id = db_id, db_name = db_name, db_datasource_id = db_datasource_id, db_schemas = schemas,
           db_description = description_from_value (get_item db_raw ''description''), db_ownership = ownership\<rparr>) (\<lambda>db.
         Inr (db, fks, st\<lparr>pt_seen := seen\<rparr>))))))))))))"

definition data_source_from_dict :: "json \<Rightarrow> (DataSource \<times> (string \<times> ForeignKey) list \<times> parse_state) result" where
  "data_source_from_dict raw =
     try_in (require_mapping raw ds_path) (\<lambda>ds_raw.
     try_in (require_non_empty_text (get_item ds_raw ''id'') (ds_path @ ''/id'')) (\<lambda>ds_id.
     try_in (register_id [] ds_id (ds_path @ ''/id'')) (\<lambda>seen.
     try_in (require_non_empty_text (get_item ds_raw ''name'') (ds_path @ ''/name'')) (\<lambda>ds_name.
     try_in (require_non_empty_text (get_item ds_raw ''system_type'') (ds_path @ ''/system_type'')) (\<lambda>ds_system_type.
     try_in (sole_item (get_item ds_raw ''databases'') (ds_path @ ''/databases'') ''snapshot must contain exactly one database'') (\<lambda>raw_database.
     try_in (database_from_dict ds_id seen raw_database) (\<lambda>(database, fks, st).
     try_in (ownership_from_dict (get_item ds_raw ''ownership'') (ds_path @ ''/ownership'')) (\<lambda>ownership.
     try_in (technical_attributes_from_dict (get_or ds_raw ''technical_attributes'' (JObject []))
         (ds_path @ ''/technical_attributes'')) (\<lambda>technical_attributes.
     try_in (mk_data_source \<lparr>ds_id = ds_id, ds_name = ds_name, ds_system_type = ds_system_type, ds_databases = [database],
         ds_description = description_from_value (get_item ds_raw ''description''), ds_ownership = ownership,
         ds_technical_attributes = technical_attributes\<rparr>) (\<lambda>ds.
       Inr (ds, fks, st)))))))))))"

definition parse_snapshot_payload :: "(string \<times> json) list \<Rightarrow> GovernanceSnapshot result" where
  "parse_snapshot_payload payload =
     try_in (require_mapping (get_item payload ''source'') ''/source'') (\<lambda>source.
     try_in (require_mapping (get_item payload ''scan'') ''/scan'') (\<lambda>scan.
     try_in (require_mapping (get_item payload ''governance'') ''/governance'') (\<lambda>governance.
     try_in (require_non_empty_text (get_item source ''name'') ''/source/name'') (\<lambda>source_name.
     try_in (require_non_empty_text (get_item source ''database'') ''/source/database'') (\<lambda>database_name.
     try_in (require_non_empty_text (get_item source ''system_type'') ''/source/system_type'') (\<lambda>system_type.
     try_in (require_non_empty_text (get_item scan ''scanner'') ''/scan/scanner'') (\<lambda>scanner.
     try_in (require_non_empty_text (get_item scan ''scanner_contract_version'') ''/scan/scanner_contract_version'') (\<lambda>scanner_contract_version.
     if scanner_contract_version \<noteq> SCANNER_CONTRACT_VERSION
     then Inl (payload_error (''scanner_contract_version must be '' @ [CHR 0x27] @ SCANNER_CONTRACT_VERSION @ [CHR 0x27])
            ''/scan/scanner_contract_version'')
     else
       try_in (sole_item (get_item governance ''data_sources'') ''/governance/data_sources''
           ''snapshot must contain exactly one data_source'') (\<lambda>raw_data_source.
       try_in (data_source_from_dict raw_data_source) (\<lambda>(data_source, fks, st).
       if source_name \<noteq> ds_name data_source
       then Inl (payload_error ''envelope source name does not match model data_source.name'' ''/source/name'')
       else if [database_name] \<noteq> map db_name (ds_databases data_source)
       then Inl (payload_error ''envelope database name does not match model database.name'' ''/source/database'')
       else if system_type \<noteq> ds_system_type data_source
       then Inl (payload_error ''envelope system_type does not match model data_source.system_type'' ''/source/system_type'')
       else
         try_in (require_list (get_item governance ''relationships'') ''/governance/relationships'') (\<lambda>relationships_raw.
         try_in (scan_items (relationship_from_dict (pt_table_ids st) (dict_of (map (\<lambda>(_, k). (fk_id k, k)) fks))) 0
             (pt_seen st) relationships_raw) (\<lambda>(relationships, seen).
         try_in (catch_value_error ''/governance'' (mk_governance_model [data_source] relationships)) (\<lambda>model.
           Inr \<lparr>sn_model = model, sn_source_name = source_name, sn_database_name = database_name, sn_system_type = system_type,
             sn_scanner = scanner, sn_scanner_contract_version = scanner_contract_version\<rparr>)))))))))))))"

section \<open>Loading\<close>

text \<open>\<open>load_snapshot_artifact\<close> after the text has been parsed; \<open>first_schema_error\<close> is the least error that the
  JSON Schema validator reports, as validator name and path.\<close>

definition load_snapshot_payload ::
  "(string \<Rightarrow> string) \<Rightarrow> (json \<Rightarrow> (string \<times> string) option) \<Rightarrow> json \<Rightarrow> GovernanceSnapshot result" where
  "load_snapshot_payload sha first_schema_error payload =
     (case payload of
        JObject kvs \<Rightarrow>
          if get_item kvs ''snapshot_schema'' \<noteq> JStr SNAPSHOT_SCHEMA
          then Inl (snapshot_error ''unsupported snapshot schema'' ''unsupported_snapshot_schema'' ''/snapshot_schema'')
          else if get_item kvs ''snapshot_version'' \<noteq> JStr SNAPSHOT_VERSION
          then Inl (snapshot_error ''unsupported snapshot version'' ''unsupported_snapshot_version'' ''/snapshot_version'')
          else (case get_item kvs ''content_identity'' of
            JObject identity_raw \<Rightarrow>
              (case first_schema_error payload of
                 Some (validator, path) \<Rightarrow>
                   Inl (payload_error (''invalid snapshot payload ('' @ validator @ '')'') path)
               | None \<Rightarrow>
                   (let expected = sha256_identity sha SnapshotId (JObject (filter (\<lambda>(k, _). k \<noteq> ''content_identity'') kvs));
                        mismatch = snapshot_error ''snapshot content_identity mismatch'' ''integrity_mismatch'' ''/content_identity'' in
                    case (get_item identity_raw ''algorithm'', get_item identity_raw ''hashing_contract_version'', get_item identity_raw ''digest'') of
                      (JStr algorithm, JStr version, JStr digest) \<Rightarrow>
                        if \<lparr>ci_algorithm = algorithm, ci_hashing_contract_version = version, ci_digest = digest\<rparr> \<noteq> expected
                        then Inl mismatch
                        else parse_snapshot_payload kvs
                    | _ \<Rightarrow> Inl mismatch))
          | _ \<Rightarrow> Inl (snapshot_error ''snapshot content_identity is required'' ''missing_content_identity'' ''/content_identity''))
      | _ \<Rightarrow> Inl (snapshot_error ''snapshot root must be a mapping'' ''invalid_snapshot_root'' ''/''))"

section \<open>Coherent snapshots\<close>

text \<open>What the parser promises, stated without it: every object comes out of its constructor, contained objects
  name their container, keys refer to columns of the right tables, relationships follow their foreign keys,
  the envelope repeats the model, and no two objects of whatever kind share an identifier.\<close>

definition table_parts :: "Table \<Rightarrow> string list" where
  "table_parts t = t_id t # map c_id (t_columns t) @ (case t_primary_key t of None \<Rightarrow> [] | Some k \<Rightarrow> [pk_id k])"

definition schema_parts :: "Schema \<Rightarrow> string list" where
  "schema_parts sc = sc_id sc # concat (map table_parts (sc_tables sc))"

definition database_tables :: "Database \<Rightarrow> Table list" where
  "database_tables db = concat (map sc_tables (db_schemas db))"

definition table_keys :: "Table list \<Rightarrow> ForeignKey list" where
  "table_keys ts = concat (map t_foreign_keys ts)"

definition all_ids :: "DataSource \<Rightarrow> Database \<Rightarrow> Relationship list \<Rightarrow> string list" where
  "all_ids ds db rels = ds_id ds # db_id db # concat (map schema_parts (db_schemas db)) @
     map fk_id (table_keys (database_tables db)) @ map rl_id rels"

definition coherent_ownership :: "Ownership option \<Rightarrow> bool" where
  "coherent_ownership w \<longleftrightarrow> (case w of None \<Rightarrow> True | Some v \<Rightarrow> mk_ownership (ow_owner_name v) (ow_owner_type v) = Inr v)"

definition coherent_columns :: "Table \<Rightarrow> bool" where
  "coherent_columns t \<longleftrightarrow> list_all (\<lambda>c. mk_column c = Inr c) (t_columns t) \<and> coherent_ownership (t_ownership t) \<and>
     (case t_primary_key t of None \<Rightarrow> True
      | Some k \<Rightarrow> mk_primary_key k = Inr k \<and> pk_table_id k = t_id t \<and> set (pk_column_ids k) \<subseteq> c_id ` set (t_columns t))"

definition coherent_key :: "Table list \<Rightarrow> Table \<Rightarrow> ForeignKey \<Rightarrow> bool" where
  "coherent_key ts t k \<longleftrightarrow> mk_foreign_key k = Inr k \<and> fk_table_id k = t_id t \<and> set (fk_column_ids k) \<subseteq> c_id ` set (t_columns t) \<and>
     (\<exists>u \<in> set ts. fk_referenced_table_id k = t_id u \<and> set (fk_referenced_column_ids k) \<subseteq> c_id ` set (t_columns u))"

definition coherent_table :: "Table list \<Rightarrow> Schema \<Rightarrow> Table \<Rightarrow> bool" where
  "coherent_table ts sc t \<longleftrightarrow> mk_table t = Inr t \<and> t_schema_id t = sc_id sc \<and> coherent_columns t \<and>
     list_all (coherent_key ts t) (t_foreign_keys t)"

definition coherent_schema :: "Table list \<Rightarrow> Database \<Rightarrow> Schema \<Rightarrow> bool" where
  "coherent_schema ts db sc \<longleftrightarrow> mk_schema sc = Inr sc \<and> sc_database_id sc = db_id db \<and> coherent_ownership (sc_ownership sc) \<and>
     list_all (coherent_table ts sc) (sc_tables sc)"

definition coherent_relationship :: "Table list \<Rightarrow> Relationship \<Rightarrow> bool" where
  "coherent_relationship ts r \<longleftrightarrow> mk_relationship r = Inr r \<and> {rl_from_table_id r, rl_to_table_id r} \<subseteq> t_id ` set ts \<and>
     (case rl_foreign_key_id r of None \<Rightarrow> True
      | Some i \<Rightarrow> i \<noteq> [] \<and> (\<exists>k \<in> set (table_keys ts). fk_id k = i \<and> fk_table_id k = rl_from_table_id r \<and>
          fk_referenced_table_id k = rl_to_table_id r))"

definition coherent_snapshot :: "GovernanceSnapshot \<Rightarrow> bool" where
  "coherent_snapshot sn \<longleftrightarrow> (\<exists>ds db. gm_data_sources (sn_model sn) = [ds] \<and> ds_databases ds = [db] \<and>
     mk_governance_model [ds] (gm_relationships (sn_model sn)) = Inr (sn_model sn) \<and>
     mk_data_source ds = Inr ds \<and> coherent_ownership (ds_ownership ds) \<and>
     mk_database db = Inr db \<and> coherent_ownership (db_ownership db) \<and> db_datasource_id db = ds_id ds \<and>
     list_all (coherent_schema (database_tables db) db) (db_schemas db) \<and>
     list_all (coherent_relationship (database_tables db)) (gm_relationships (sn_model sn)) \<and>
     distinct (all_ids ds db (gm_relationships (sn_model sn))) \<and>
     sn_source_name sn = ds_name ds \<and> sn_database_name sn = db_name db \<and> sn_system_type sn = ds_system_type ds \<and>
     sn_scanner sn \<noteq> [] \<and> sn_scanner_contract_version sn = SCANNER_CONTRACT_VERSION)"

section \<open>What is parsed is coherent\<close>

lemma scan_items_induct:
  assumes "scan_items f i s xs = Inr (ys, t)" "\<And>s. Q s [] s"
    and "\<And>i s x y u ys t. f i s x = Inr (y, u) \<Longrightarrow> Q u ys t \<Longrightarrow> Q s (y # ys) t"
  shows "Q s ys t"
  using assms(1)
proof (induction xs arbitrary: i s ys)
  case Nil
  then show ?case using assms(2) by simp
next
  case (Cons x xs)
  then show ?case using assms(3) by (auto simp: split_result)
qed

lemma require_texts:
  "require_str v p = Inr x \<longleftrightarrow> v = JStr x" "require_non_empty_text v p = Inr x \<longleftrightarrow> v = JStr x \<and> x \<noteq> []"
  "require_int v p = Inr k \<longleftrightarrow> v = JInt k" "require_bool v p = Inr b \<longleftrightarrow> v = JBool b"
  "require_mapping v p = Inr kvs \<longleftrightarrow> v = JObject kvs" "require_list v p = Inr vs \<longleftrightarrow> v = JArray vs"
  by (auto simp: require_str_def require_non_empty_text_def require_int_def require_bool_def require_mapping_def
      require_list_def split_result split: json.splits if_splits)

lemma register_id_Inr: "register_id seen x p = Inr t \<longleftrightarrow> x \<notin> set seen \<and> t = seen @ [x]"
  by (auto simp: register_id_def)

lemma constructors_fixed:
  "mk_column c = Inr c' \<Longrightarrow> c' = c" "mk_primary_key k = Inr k' \<Longrightarrow> k' = k" "mk_foreign_key f = Inr f' \<Longrightarrow> f' = f"
  "mk_relationship r = Inr r' \<Longrightarrow> r' = r"
  by (auto simp: mk_column_def mk_primary_key_def mk_foreign_key_def mk_relationship_def split_result split: if_splits)

lemma ownership_sound:
  assumes "ownership_from_dict raw p = Inr w" shows "coherent_ownership w"
proof (cases w)
  case (Some v)
  then obtain n y where *: "mk_ownership n y = Inr v" using assms by (auto simp: ownership_from_dict_def split_result split: if_splits)
  then have "ow_owner_name v = n" "ow_owner_type v = y" by (auto simp: mk_ownership_def split_result)
  then show ?thesis using Some * by (simp add: coherent_ownership_def)
qed (simp add: coherent_ownership_def)

lemma column_sound:
  assumes "column_from_dict p i seen raw = Inr (c, seen')"
  shows "mk_column c = Inr c \<and> seen' = seen @ [c_id c] \<and> c_id c \<notin> set seen"
proof -
  obtain c0 where c0: "mk_column c0 = Inr c" "seen' = seen @ [c_id c0]" "c_id c0 \<notin> set seen"
    using assms unfolding column_from_dict_def Let_def by (auto simp: split_result register_id_Inr)
  then show ?thesis using constructors_fixed(1) [OF c0(1)] by simp
qed

text \<open>Identifiers are only added to what has been seen, and each only once.\<close>

definition adds :: "string list \<Rightarrow> string list \<Rightarrow> string list \<Rightarrow> bool" where
  "adds seen ids seen' \<longleftrightarrow> mset seen' = mset seen + mset ids \<and> (distinct seen \<longrightarrow> distinct seen')"

lemma adds_refl [simp]: "adds seen [] seen"
  by (simp add: adds_def)

lemma adds_one: "x \<notin> set seen \<Longrightarrow> adds seen [x] (seen @ [x])"
  by (simp add: adds_def)

lemma adds_trans: "adds s xs t \<Longrightarrow> adds t ys u \<Longrightarrow> adds s (xs @ ys) u"
  by (simp add: adds_def)

lemma adds_perm: "adds s xs t \<Longrightarrow> mset ys = mset xs \<Longrightarrow> adds s ys t"
  by (simp add: adds_def)

lemma columns_sound:
  assumes "scan_items (column_from_dict p) i seen raw = Inr (cs, seen')"
  shows "list_all (\<lambda>c. mk_column c = Inr c) cs \<and> adds seen (map c_id cs) seen'"
  using assms
proof (rule scan_items_induct)
  fix i s x y u ys t
  assume run: "column_from_dict p i s x = Inr (y, u)" and rest: "list_all (\<lambda>c. mk_column c = Inr c) ys \<and> adds u (map c_id ys) t"
  have y: "mk_column y = Inr y" "adds s [c_id y] u" using column_sound [OF run] adds_one [of "c_id y" s] by auto
  then show "list_all (\<lambda>c. mk_column c = Inr c) (y # ys) \<and> adds s (map c_id (y # ys)) t"
    using rest adds_trans [OF y(2), of "map c_id ys" t] by simp
qed simp

lemma column_refs_sound:
  assumes "column_refs p columns m raw = Inr ids"
  shows "set ids \<subseteq> set columns"
proof -
  obtain t where "scan_items (\<lambda>i _ item. try_in (require_non_empty_text item (at_index p i)) (\<lambda>column_id.
      if column_id \<notin> set columns then Inl (payload_error m (at_index p i)) else Inr (column_id, ()))) 0 () raw = Inr (ids, t)"
    using assms by (auto simp: column_refs_def split_result)
  then show ?thesis by (rule scan_items_induct) (auto simp: split_result split: if_splits)
qed

lemma primary_key_sound:
  assumes "primary_key_from_dict p tid cols seen raw = Inr (k, seen')"
  shows "mk_primary_key k = Inr k \<and> pk_table_id k = tid \<and> set (pk_column_ids k) \<subseteq> set cols \<and> adds seen [pk_id k] seen'"
proof -
  obtain k0 m raw_ids where *: "mk_primary_key k0 = Inr k" "pk_table_id k0 = tid" "seen' = seen @ [pk_id k0]" "pk_id k0 \<notin> set seen"
    "column_refs (p @ ''/column_ids'') cols m raw_ids = Inr (pk_column_ids k0)"
    using assms unfolding primary_key_from_dict_def by (auto simp: split_result register_id_Inr split: if_splits)
  then show ?thesis using constructors_fixed(2) [OF *(1)] column_refs_sound [OF *(5)] adds_one by simp
qed

lemma foreign_key_sound:
  assumes "foreign_key_from_dict tids cbt p tid cols seen raw = Inr (k, seen')"
  shows "mk_foreign_key k = Inr k \<and> fk_table_id k = tid \<and> set (fk_column_ids k) \<subseteq> set cols \<and> adds seen [fk_id k] seen' \<and>
    set (fk_referenced_column_ids k) \<subseteq> set (get_list cbt (fk_referenced_table_id k)) \<and> fk_referenced_table_id k \<in> set tids"
proof -
  obtain k0 m raw_ids m' raw_ids' where *: "mk_foreign_key k0 = Inr k" "fk_table_id k0 = tid" "seen' = seen @ [fk_id k0]" "fk_id k0 \<notin> set seen"
    "column_refs (p @ ''/column_ids'') cols m raw_ids = Inr (fk_column_ids k0)" "fk_referenced_table_id k0 \<in> set tids"
    "column_refs (p @ ''/referenced_column_ids'') (get_list cbt (fk_referenced_table_id k0)) m' raw_ids' = Inr (fk_referenced_column_ids k0)"
    using assms unfolding foreign_key_from_dict_def by (auto simp: split_result register_id_Inr split: if_splits)
  then show ?thesis using constructors_fixed(3) [OF *(1)] column_refs_sound [OF *(5)] column_refs_sound [OF *(7)] adds_one by simp
qed

text \<open>What a pass over tables does to the parse state.\<close>

definition grows :: "parse_state \<Rightarrow> string list \<Rightarrow> Table list \<Rightarrow> parse_state \<Rightarrow> bool" where
  "grows st ids ts st' \<longleftrightarrow> adds (pt_seen st) ids (pt_seen st') \<and> pt_table_ids st' = pt_table_ids st @ map t_id ts \<and>
     (\<forall>i cs. map_of (pt_columns_by_table st') i = Some cs \<longrightarrow> map_of (pt_columns_by_table st) i = Some cs \<or>
        (\<exists>t \<in> set ts. t_id t = i \<and> set cs = c_id ` set (t_columns t))) \<and>
     fst ` set (pt_pending_fks st') \<subseteq> fst ` set (pt_pending_fks st) \<union> t_id ` set ts"

lemma grows_refl [simp]: "grows st [] [] st"
  by (simp add: grows_def)

lemma grows_trans:
  assumes "grows s xs ts t" "grows t ys us u" shows "grows s (xs @ ys) (ts @ us) u"
proof -
  have 1: "adds (pt_seen s) (xs @ ys) (pt_seen u)"
    by (rule adds_trans [of _ _ "pt_seen t"]) (use assms in \<open>simp_all add: grows_def\<close>)
  have 2: "pt_table_ids u = pt_table_ids s @ map t_id (ts @ us)" using assms by (simp add: grows_def)
  have cols: "map_of (pt_columns_by_table s) i = Some cs \<or> (\<exists>t \<in> set (ts @ us). t_id t = i \<and> set cs = c_id ` set (t_columns t))"
    if i: "map_of (pt_columns_by_table u) i = Some cs" for i cs
  proof (cases "map_of (pt_columns_by_table t) i = Some cs")
    case True
    then show ?thesis using assms(1) unfolding grows_def set_append by blast
  next
    case False
    then show ?thesis using i assms(2) unfolding grows_def set_append by blast
  qed
  have "fst ` set (pt_pending_fks u) \<subseteq> fst ` set (pt_pending_fks t) \<union> t_id ` set us"
    "fst ` set (pt_pending_fks t) \<subseteq> fst ` set (pt_pending_fks s) \<union> t_id ` set ts" using assms by (simp_all add: grows_def)
  then have 3: "fst ` set (pt_pending_fks u) \<subseteq> fst ` set (pt_pending_fks s) \<union> t_id ` set (ts @ us)"
    unfolding set_append image_Un by blast
  show ?thesis unfolding grows_def using 1 2 3 cols by blast
qed

definition bare_table :: "string \<Rightarrow> Table \<Rightarrow> bool" where
  "bare_table sid t \<longleftrightarrow> mk_table t = Inr t \<and> t_schema_id t = sid \<and> coherent_columns t"

lemma sort_key_Nil_iff [simp]: "sort_key f xs = [] \<longleftrightarrow> xs = []"
  by (metis length_0_conv length_sort)

lemma guard_Inr: "(if b then Inl e else r) = Inr x \<longleftrightarrow> \<not> b \<and> r = Inr x"
  by simp

lemma mk_table_sorted:
  "mk_table t = Inr u \<Longrightarrow> mk_table u = Inr u \<and>
   u = t\<lparr>t_columns := sort_key (\<lambda>c. (c_ordinal_position c, c_id c)) (t_columns t), t_foreign_keys := sort_key fk_id (t_foreign_keys t)\<rparr>"
  by (auto simp: mk_table_def split_result sort_key_idem split: if_splits)

lemma primary_key_item_sound:
  assumes "optional_primary_key p tid cols seen raw = Inr (pk, seen')"
  shows "adds seen (case pk of None \<Rightarrow> [] | Some k \<Rightarrow> [pk_id k]) seen' \<and>
    (case pk of None \<Rightarrow> True | Some k \<Rightarrow> mk_primary_key k = Inr k \<and> pk_table_id k = tid \<and> set (pk_column_ids k) \<subseteq> set cols)"
proof (cases "raw = JNull")
  case False
  then obtain k where "primary_key_from_dict p tid cols seen raw = Inr (k, seen')" "pk = Some k" using assms by (auto simp: optional_primary_key_def split_result)
  then show ?thesis using primary_key_sound by auto
qed (use assms in \<open>auto simp: optional_primary_key_def\<close>)

lemma table_sound:
  assumes "table_from_dict p sid i st raw = Inr (t, st')"
  shows "bare_table sid t \<and> grows st (table_parts t) [t] st'"
proof -
  obtain tid raw_cols cs seen1 raw_pk pk seen2 name raw_w w d attrs fks_raw where
    *: "tid \<notin> set (pt_seen st)"
      "scan_items (column_from_dict (at_index p i @ ''/columns'')) 0 (pt_seen st @ [tid]) raw_cols = Inr (cs, seen1)"
      "optional_primary_key (at_index p i @ ''/primary_key'') tid (map c_id cs) seen1 raw_pk = Inr (pk, seen2)"
      "ownership_from_dict raw_w (at_index p i @ ''/ownership'') = Inr w"
      "mk_table \<lparr>t_id = tid, t_name = name, t_schema_id = sid, t_columns = cs, t_primary_key = pk, t_foreign_keys = [],
         t_description = d, t_ownership = w, t_technical_attributes = attrs\<rparr> = Inr t"
      "st' = \<lparr>pt_seen = seen2, pt_table_ids = pt_table_ids st @ [tid],
        pt_columns_by_table = AList.update tid (map c_id cs) (pt_columns_by_table st),
        pt_pending_fks = pt_pending_fks st @
          map (\<lambda>(k, fk). (tid, fk, at_index (at_index p i @ ''/foreign_keys'') k)) (enumerate 0 fks_raw)\<rparr>"
    using assms unfolding table_from_dict_def Let_def by (auto simp: split_result guard_Inr register_id_Inr)
  note t = mk_table_sorted [OF *(5)]
  have cs: "list_all (\<lambda>c. mk_column c = Inr c) cs" "adds (pt_seen st @ [tid]) (map c_id cs) seen1" using columns_sound [OF *(2)] by auto
  note pk = primary_key_item_sound [OF *(3)]
  have "coherent_columns t" using t cs(1) pk ownership_sound [OF *(4)]
    by (auto simp: coherent_columns_def split: option.splits)
  moreover have "adds (pt_seen st) (table_parts t) seen2"
  proof (rule adds_perm)
    show "adds (pt_seen st) ([tid] @ map c_id cs @ (case pk of None \<Rightarrow> [] | Some k \<Rightarrow> [pk_id k])) seen2"
      by (rule adds_trans [OF adds_one [OF *(1)] adds_trans [OF cs(2) conjunct1 [OF pk]]])
    show "mset (table_parts t) = mset ([tid] @ map c_id cs @ (case pk of None \<Rightarrow> [] | Some k \<Rightarrow> [pk_id k]))"
      using t by (simp add: table_parts_def)
  qed
  ultimately show ?thesis using t by (auto simp: bare_table_def grows_def *(6))
qed

lemma tables_sound:
  assumes "scan_items (table_from_dict p sid) i st raw = Inr (ts, st')"
  shows "list_all (bare_table sid) ts \<and> grows st (concat (map table_parts ts)) ts st'"
  using assms
proof (rule scan_items_induct)
  fix i s x y u ys t
  assume run: "table_from_dict p sid i s x = Inr (y, u)"
    and rest: "list_all (bare_table sid) ys \<and> grows u (concat (map table_parts ys)) ys t"
  show "list_all (bare_table sid) (y # ys) \<and> grows s (concat (map table_parts (y # ys))) (y # ys) t"
    using table_sound [OF run] rest grows_trans [of s "table_parts y" "[y]" u "concat (map table_parts ys)" ys t] by simp
qed simp

definition bare_schema :: "string \<Rightarrow> Schema \<Rightarrow> bool" where
  "bare_schema did sc \<longleftrightarrow> mk_schema sc = Inr sc \<and> sc_database_id sc = did \<and> coherent_ownership (sc_ownership sc) \<and>
     list_all (bare_table (sc_id sc)) (sc_tables sc)"

lemma mk_schema_sorted:
  "mk_schema s = Inr u \<Longrightarrow> mk_schema u = Inr u \<and> u = s\<lparr>sc_tables := sort_key t_id (sc_tables s)\<rparr>"
  by (auto simp: mk_schema_def split_result sort_key_idem)

lemma mset_concat_map: "mset xs = mset ys \<Longrightarrow> mset (concat (map f xs)) = mset (concat (map f ys))"
proof -
  have "mset (concat (map f zs)) = \<Sum>\<^sub># (image_mset (\<lambda>x. mset (f x)) (mset zs))" for zs by (induction zs) simp_all
  then show "mset xs = mset ys \<Longrightarrow> mset (concat (map f xs)) = mset (concat (map f ys))" by simp
qed

lemma grows_perm: "grows s xs ts t \<Longrightarrow> mset ys = mset xs \<Longrightarrow> grows s ys ts t"
  by (auto simp: grows_def intro: adds_perm)

lemma schema_sound:
  assumes "schema_from_dict p did i st raw = Inr (sc, st')"
  shows "bare_schema did sc \<and> (\<exists>ts. mset ts = mset (sc_tables sc) \<and> grows st (schema_parts sc) ts st')"
proof -
  obtain sid raw_tables ts name raw_w w d where
    *: "sid \<notin> set (pt_seen st)"
      "scan_items (table_from_dict (at_index p i @ ''/tables'') sid) 0 (st\<lparr>pt_seen := pt_seen st @ [sid]\<rparr>) raw_tables = Inr (ts, st')"
      "ownership_from_dict raw_w (at_index p i @ ''/ownership'') = Inr w"
      "mk_schema \<lparr>sc_id = sid, sc_name = name, sc_database_id = did, sc_tables = ts, sc_description = d, sc_ownership = w\<rparr> = Inr sc"
    using assms unfolding schema_from_dict_def Let_def by (auto simp: split_result guard_Inr register_id_Inr)
  note sc = mk_schema_sorted [OF *(4)]
  note ts = tables_sound [OF *(2)]
  have perm: "mset ts = mset (sc_tables sc)" using sc by simp
  have "grows st [sid] [] (st\<lparr>pt_seen := pt_seen st @ [sid]\<rparr>)" using *(1) by (simp add: grows_def adds_one)
  from grows_trans [OF this conjunct2 [OF ts]] have "grows st (sid # concat (map table_parts ts)) ts st'" by simp
  moreover have "sc_id sc = sid" using sc by simp
  then have "mset (schema_parts sc) = mset (sid # concat (map table_parts ts))"
    unfolding schema_parts_def using mset_concat_map [OF perm, of table_parts] by simp
  ultimately have "grows st (schema_parts sc) ts st'" by (rule grows_perm)
  moreover have "list_all (bare_table (sc_id sc)) (sc_tables sc)" using ts sc by simp
  moreover have "mk_schema sc = Inr sc" using sc by blast
  moreover have "sc_database_id sc = did" "sc_ownership sc = w" using sc by simp_all
  ultimately show ?thesis using perm ownership_sound [OF *(3)] unfolding bare_schema_def by blast
qed

lemma schemas_sound:
  assumes "scan_items (schema_from_dict p did) i st raw = Inr (scs, st')"
  shows "list_all (bare_schema did) scs \<and>
    (\<exists>ts. mset ts = mset (concat (map sc_tables scs)) \<and> grows st (concat (map schema_parts scs)) ts st')"
  using assms
proof (rule scan_items_induct)
  fix i s x y u ys t
  assume run: "schema_from_dict p did i s x = Inr (y, u)"
    and rest: "list_all (bare_schema did) ys \<and> (\<exists>ts. mset ts = mset (concat (map sc_tables ys)) \<and> grows u (concat (map schema_parts ys)) ts t)"
  obtain ts where ts: "bare_schema did y" "mset ts = mset (sc_tables y)" "grows s (schema_parts y) ts u" using schema_sound [OF run] by blast
  obtain us where us: "mset us = mset (concat (map sc_tables ys))" "grows u (concat (map schema_parts ys)) us t" using rest by blast
  show "list_all (bare_schema did) (y # ys) \<and>
    (\<exists>ts. mset ts = mset (concat (map sc_tables (y # ys))) \<and> grows s (concat (map schema_parts (y # ys))) ts t)"
    using rest ts(1,2) us(1) grows_trans [OF ts(3) us(2)] by (intro conjI exI [of _ "ts @ us"]) simp_all
next
  fix s
  show "list_all (bare_schema did) [] \<and>
    (\<exists>ts. mset ts = mset (concat (map sc_tables [])) \<and> grows s (concat (map schema_parts [])) ts s)"
    by (intro conjI exI [of _ "[]"]) simp_all
qed

text \<open>The second pass gives each table its keys.\<close>

definition sound_entry :: "parse_state \<Rightarrow> string \<times> ForeignKey \<Rightarrow> bool" where
  "sound_entry st e \<longleftrightarrow> mk_foreign_key (snd e) = Inr (snd e) \<and> fk_table_id (snd e) = fst e \<and>
     (\<exists>cs. map_of (pt_columns_by_table st) (fst e) = Some cs \<and> set (fk_column_ids (snd e)) \<subseteq> set cs) \<and>
     set (fk_referenced_column_ids (snd e)) \<subseteq> set (get_list (pt_columns_by_table st) (fk_referenced_table_id (snd e)))"

lemma pending_fks_sound:
  assumes "scan_items (pending_fk_from_dict st) i seen ps = Inr (es, seen')"
  shows "list_all (sound_entry st) es \<and> map fst es = map fst ps \<and> adds seen (map (\<lambda>e. fk_id (snd e)) es) seen'"
  using assms
proof (induction ps arbitrary: i seen es)
  case (Cons p ps)
  obtain tid raw path where p: "p = (tid, raw, path)" by (cases p)
  from Cons.prems obtain e u es' where run: "pending_fk_from_dict st i seen p = Inr (e, u)"
    "scan_items (pending_fk_from_dict st) (Suc i) u ps = Inr (es', seen')" "es = e # es'" by (auto simp: split_result)
  from run(1) obtain cs k where k: "map_of (pt_columns_by_table st) tid = Some cs" "e = (tid, k)"
    "foreign_key_from_dict (pt_table_ids st) (pt_columns_by_table st) path tid cs seen raw = Inr (k, u)"
    by (auto simp: pending_fk_from_dict_def p split_result split: option.splits)
  have "sound_entry st e" "adds seen [fk_id k] u" using foreign_key_sound [OF k(3)] k(1,2) by (auto simp: sound_entry_def)
  then show ?case using Cons.IH [OF run(2)] run(3) k(2) p adds_trans [of seen "[fk_id k]" u] by simp
qed simp

definition with_keys :: "(string \<times> ForeignKey) list \<Rightarrow> Table \<Rightarrow> Table" where
  "with_keys fks t = t\<lparr>t_foreign_keys := sort_key fk_id (map snd (filter (\<lambda>e. fst e = t_id t) fks))\<rparr>"

lemma with_keys_simps [simp]:
  "t_id (with_keys fks t) = t_id t" "t_columns (with_keys fks t) = t_columns t" "t_schema_id (with_keys fks t) = t_schema_id t"
  "table_parts (with_keys fks t) = table_parts t" "coherent_columns (with_keys fks t) = coherent_columns t"
  by (simp_all add: with_keys_def table_parts_def coherent_columns_def split: option.split)

lemma sorted_fixed: "sort_key f xs = xs \<Longrightarrow> sorted (map f xs)"
  by (metis sorted_sort_key_map)

lemma rebuild_table_ok: "mk_table t = Inr t \<Longrightarrow> rebuild_table fks t = Inr (with_keys fks t) \<and> mk_table (with_keys fks t) = Inr (with_keys fks t)"
  by (cases t) (auto simp: rebuild_table_def mk_table_def with_keys_def split_result sort_key_idem split: if_splits)

definition schema_with_keys :: "(string \<times> ForeignKey) list \<Rightarrow> Schema \<Rightarrow> Schema" where
  "schema_with_keys fks sc = sc\<lparr>sc_tables := map (with_keys fks) (sc_tables sc)\<rparr>"

lemma rebuild_schema_ok:
  assumes "mk_schema sc = Inr sc" "list_all (\<lambda>t. mk_table t = Inr t) (sc_tables sc)"
  shows "rebuild_schema fks sc = Inr (schema_with_keys fks sc) \<and> mk_schema (schema_with_keys fks sc) = Inr (schema_with_keys fks sc)"
proof -
  have "sort_key t_id (sc_tables sc) = sc_tables sc" using assms(1) by (cases sc) (auto simp: mk_schema_def split_result)
  then have "sort_key t_id (map (with_keys fks) (sc_tables sc)) = map (with_keys fks) (sc_tables sc)"
    by (intro sort_key_id) (simp add: comp_def sorted_fixed)
  then have "mk_schema (schema_with_keys fks sc) = Inr (schema_with_keys fks sc)"
    using assms(1) by (cases sc) (auto simp: mk_schema_def schema_with_keys_def split_result)
  moreover have "traverse (rebuild_table fks) (sc_tables sc) = Inr (map (with_keys fks) (sc_tables sc))"
    using assms(2) rebuild_table_ok by (intro traverse_Inr_map) (auto simp: list_all_iff)
  ultimately show ?thesis by (simp add: rebuild_schema_def schema_with_keys_def)
qed

lemma mset_concat_filter:
  "distinct is \<Longrightarrow> g ` set xs \<subseteq> set is \<Longrightarrow> mset (concat (map (\<lambda>i. map h (filter (\<lambda>e. g e = i) xs)) is)) = mset (map h xs)"
proof (induction xs)
  case Nil
  then show ?case by (induction "is") auto
next
  case (Cons x xs)
  have one: "mset (concat (map (\<lambda>i. map h (filter (\<lambda>e. g e = i) (x # xs))) js)) =
      mset (concat (map (\<lambda>i. map h (filter (\<lambda>e. g e = i) xs)) js)) + (if g x \<in> set js then {#h x#} else {#})" if "distinct js" for js
    using that by (induction js) auto
  show ?case using Cons one [OF Cons.prems(1)] by simp
qed

lemma distinct_concat_tail: "(\<And>x. f x = a x # g x) \<Longrightarrow> distinct (concat (map f xs)) \<Longrightarrow> distinct (concat (map g xs))"
proof (induction xs)
  case (Cons x xs)
  have "set (concat (map g ys)) \<subseteq> set (concat (map f ys))" for ys using Cons.prems(1) by fastforce
  then have "set (concat (map g xs)) \<subseteq> set (concat (map f xs))" .
  then show ?case using Cons by auto
qed simp

lemma distinct_parts_ids: "distinct (concat (map f xs)) \<Longrightarrow> (\<And>x. g x \<in> set (f x)) \<Longrightarrow> distinct (map g xs)"
proof (induction xs)
  case (Cons a xs)
  have "g a \<noteq> g x" if "x \<in> set xs" for x
  proof
    assume "g a = g x"
    then have "g a \<in> set (f a)" "g a \<in> set (f x)" using Cons.prems(2) [of a] Cons.prems(2) [of x] by simp_all
    then show False using Cons.prems(1) that by auto
  qed
  then show ?case using Cons by auto
qed simp

lemma mset_keys:
  assumes "distinct (map t_id ts)" "fst ` set fks \<subseteq> t_id ` set ts"
  shows "mset (table_keys (map (with_keys fks) ts)) = mset (map snd fks)"
proof -
  have "mset (table_keys (map (with_keys fks) us)) = mset (concat (map (\<lambda>i. map snd (filter (\<lambda>e. fst e = i) fks)) (map t_id us)))" for us
    by (induction us) (simp_all add: table_keys_def with_keys_def)
  also have "mset (concat (map (\<lambda>i. map snd (filter (\<lambda>e. fst e = i) fks)) (map t_id ts))) = mset (map snd fks)"
    using assms by (intro mset_concat_filter) simp_all
  finally show ?thesis .
qed

lemma keys_coherent:
  assumes "list_all (sound_entry st) fks" "grows st0 ids ts st" "pt_columns_by_table st0 = []" "t \<in> set us"
    and us: "set us = with_keys fks ` set ts" and ids: "distinct (map t_id ts)"
  shows "list_all (coherent_key us t) (t_foreign_keys t)"
  unfolding list_all_iff
proof
  fix k assume k: "k \<in> set (t_foreign_keys t)"
  have cols: "\<exists>u \<in> set us. t_id u = i \<and> set cs = c_id ` set (t_columns u)"
    if c: "map_of (pt_columns_by_table st) i = Some cs" for i cs
    using c assms(2,3) us unfolding grows_def by fastforce
  obtain t0 where t0: "t0 \<in> set ts" "t = with_keys fks t0" using assms(4) us by auto
  then obtain e where e: "e \<in> set fks" "fst e = t_id t" "k = snd e" using k by (auto simp: with_keys_def)
  then have s: "sound_entry st e" using assms(1) by (auto simp: list_all_iff)
  then obtain cs where cs: "map_of (pt_columns_by_table st) (t_id t) = Some cs" "set (fk_column_ids k) \<subseteq> set cs"
    using e by (auto simp: sound_entry_def)
  obtain u where u: "u \<in> set us" "t_id u = t_id t" "set cs = c_id ` set (t_columns u)" using cols [OF cs(1)] by blast
  obtain u0 where "u0 \<in> set ts" "u = with_keys fks u0" using u(1) us by auto
  then have "u = t" using u(2) t0 ids by (auto simp: distinct_map dest: inj_onD)
  then have own: "set (fk_column_ids k) \<subseteq> c_id ` set (t_columns t)" using cs(2) u(3) by simp
  have "fk_referenced_column_ids k \<noteq> []"
    using s e by (auto simp: sound_entry_def mk_foreign_key_def split_result split: if_splits)
  then have "get_list (pt_columns_by_table st) (fk_referenced_table_id k) \<noteq> []"
    using s e by (auto simp: sound_entry_def)
  then obtain rs where rs: "map_of (pt_columns_by_table st) (fk_referenced_table_id k) = Some rs"
    by (auto simp: get_list_def split: option.splits)
  moreover obtain v where "v \<in> set us" "t_id v = fk_referenced_table_id k" "set rs = c_id ` set (t_columns v)" using cols [OF rs] by blast
  ultimately have "\<exists>u \<in> set us. fk_referenced_table_id k = t_id u \<and> set (fk_referenced_column_ids k) \<subseteq> c_id ` set (t_columns u)"
    using s e by (intro bexI [of _ v]) (auto simp: sound_entry_def get_list_def)
  then show "coherent_key us t k" using s e own by (simp add: coherent_key_def sound_entry_def)
qed

lemma schema_with_keys_simps [simp]:
  "sc_id (schema_with_keys fks sc) = sc_id sc" "sc_database_id (schema_with_keys fks sc) = sc_database_id sc"
  "sc_ownership (schema_with_keys fks sc) = sc_ownership sc" "sc_tables (schema_with_keys fks sc) = map (with_keys fks) (sc_tables sc)"
  "schema_parts (schema_with_keys fks sc) = schema_parts sc"
  by (simp_all add: schema_with_keys_def schema_parts_def comp_def)

lemma rebuild_schemas_ok:
  assumes "list_all (bare_schema did) scs"
  shows "traverse (rebuild_schema fks) scs = Inr (map (schema_with_keys fks) scs)"
  using assms rebuild_schema_ok by (intro traverse_Inr_map) (auto simp: list_all_iff bare_schema_def bare_table_def)

lemma mk_database_sorted:
  "mk_database d = Inr u \<Longrightarrow> mk_database u = Inr u \<and> u = d\<lparr>db_schemas := sort_key sc_id (db_schemas d)\<rparr>"
  by (auto simp: mk_database_def split_result sort_key_idem)

lemma distinct_table_ids:
  assumes "distinct (concat (map schema_parts scs))" shows "distinct (map t_id (concat (map sc_tables scs)))"
proof -
  have "distinct (concat (map (\<lambda>sc. concat (map table_parts (sc_tables sc))) scs))"
    by (rule distinct_concat_tail [OF _ assms]) (rule schema_parts_def)
  moreover have "concat (map table_parts (concat (map sc_tables xs))) = concat (map (\<lambda>sc. concat (map table_parts (sc_tables sc))) xs)" for xs
    by (induction xs) simp_all
  ultimately have "distinct (concat (map table_parts (concat (map sc_tables scs))))" by metis
  then show ?thesis by (rule distinct_parts_ids) (simp add: table_parts_def)
qed

lemma database_sound:
  assumes run: "database_from_dict dsid seen raw = Inr (db, fks, st)" and seen: "distinct seen"
  shows "mk_database db = Inr db \<and> coherent_ownership (db_ownership db) \<and> db_datasource_id db = dsid \<and>
    list_all (coherent_schema (database_tables db) db) (db_schemas db) \<and>
    adds seen (db_id db # concat (map schema_parts (db_schemas db)) @ map fk_id (table_keys (database_tables db))) (pt_seen st) \<and>
    set (pt_table_ids st) = t_id ` set (database_tables db) \<and> snd ` set fks = set (table_keys (database_tables db))"
proof -
  obtain did raw_scs scs st1 seen2 raw_w w name d scs2 where
    *: "did \<notin> set seen"
      "scan_items (schema_from_dict (db_path @ ''/schemas'') did) 0
         \<lparr>pt_seen = seen @ [did], pt_table_ids = [], pt_columns_by_table = [], pt_pending_fks = []\<rparr> raw_scs = Inr (scs, st1)"
      "scan_items (pending_fk_from_dict st1) 0 (pt_seen st1) (pt_pending_fks st1) = Inr (fks, seen2)"
      "traverse (rebuild_schema fks) scs = Inr scs2"
      "ownership_from_dict raw_w (db_path @ ''/ownership'') = Inr w"
      "mk_database \<lparr>db_id = did, db_name = name, db_datasource_id = dsid, db_schemas = scs2, db_description = d,
         db_ownership = w\<rparr> = Inr db" and st: "st = st1\<lparr>pt_seen := seen2\<rparr>"
    using run unfolding database_from_dict_def by (auto simp: split_result guard_Inr register_id_Inr)
  let ?st0 = "\<lparr>pt_seen = seen @ [did], pt_table_ids = [], pt_columns_by_table = [], pt_pending_fks = []\<rparr>"
  obtain ts where scs: "list_all (bare_schema did) scs" and ts: "mset ts = mset (concat (map sc_tables scs))"
    "grows ?st0 (concat (map schema_parts scs)) ts st1" using schemas_sound [OF *(2)] by blast
  have scs2: "scs2 = map (schema_with_keys fks) scs" using *(4) rebuild_schemas_ok [OF scs] by simp
  have db_rec: "db = \<lparr>db_id = did, db_name = name, db_datasource_id = dsid, db_schemas = sort_key sc_id scs2, db_description = d,
    db_ownership = w\<rparr>" and db_mk: "mk_database db = Inr db" using mk_database_sorted [OF *(6)] by (simp, blast)
  note fks = pending_fks_sound [OF *(3)]
  have perm: "mset (db_schemas db) = mset (map (schema_with_keys fks) scs)" by (simp add: db_rec scs2)
  have tables: "mset (database_tables db) = mset (map (with_keys fks) ts)"
  proof -
    have "mset (database_tables db) = mset (concat (map sc_tables (map (schema_with_keys fks) scs)))"
      unfolding database_tables_def by (rule mset_concat_map [OF perm])
    also have "concat (map sc_tables (map (schema_with_keys fks) scs)) = map (with_keys fks) (concat (map sc_tables scs))"
      by (simp add: comp_def map_concat)
    also have "mset (map (with_keys fks) (concat (map sc_tables scs))) = mset (map (with_keys fks) ts)" using ts(1) by simp
    finally show ?thesis .
  qed
  have parts: "mset (concat (map schema_parts (db_schemas db))) = mset (concat (map schema_parts scs))"
    using mset_concat_map [OF perm, of schema_parts] by (simp add: comp_def)
  have adds1: "adds (seen @ [did]) (concat (map schema_parts scs)) (pt_seen st1)" using ts(2) by (simp add: grows_def)
  then have "distinct (pt_seen st1)" "mset (pt_seen st1) = mset (seen @ [did]) + mset (concat (map schema_parts scs))"
    using seen *(1) by (auto simp: adds_def)
  then have dist_parts: "distinct (concat (map schema_parts scs))" by (metis distinct_append mset_append mset_eq_imp_distinct_iff)
  have "distinct (map t_id (concat (map sc_tables scs)))" by (rule distinct_table_ids [OF dist_parts])
  then have ids: "distinct (map t_id ts)" using ts(1) by (metis mset_eq_imp_distinct_iff mset_map)
  have "fst ` set fks = fst ` set (pt_pending_fks st1)" using fks by (metis list.set_map)
  then have cover: "fst ` set fks \<subseteq> t_id ` set ts" using ts(2) by (auto simp: grows_def)
  have keys: "mset (table_keys (database_tables db)) = mset (map snd fks)"
    using mset_concat_map [OF tables, of t_foreign_keys] mset_keys [OF ids cover] by (simp add: table_keys_def)
  have set_tables: "set (database_tables db) = with_keys fks ` set ts" using tables by (metis list.set_map mset_eq_setD)
  have "list_all (coherent_schema (database_tables db) db) (db_schemas db)"
    unfolding list_all_iff
  proof
    fix sc assume "sc \<in> set (db_schemas db)"
    moreover have "set (db_schemas db) = schema_with_keys fks ` set scs" using perm by (metis list.set_map mset_eq_setD)
    ultimately obtain sc0 where sc0: "sc0 \<in> set scs" "sc = schema_with_keys fks sc0" by auto
    then have bare: "bare_schema did sc0" using scs by (simp add: list_all_iff)
    then have "mk_schema sc = Inr sc" using rebuild_schema_ok [of sc0 fks] sc0(2) by (auto simp: bare_schema_def bare_table_def list_all_iff)
    moreover have "coherent_table (database_tables db) sc t" if t: "t \<in> set (sc_tables sc)" for t
    proof -
      obtain t0 where t0: "t0 \<in> set (sc_tables sc0)" "t = with_keys fks t0" using t sc0(2) by auto
      have b: "bare_table (sc_id sc0) t0" using bare t0(1) by (simp add: bare_schema_def list_all_iff)
      have "t \<in> set (database_tables db)" using \<open>sc \<in> set (db_schemas db)\<close> t by (auto simp: database_tables_def)
      then have "list_all (coherent_key (database_tables db) t) (t_foreign_keys t)"
        using fks by (intro keys_coherent [OF _ ts(2) _ _ set_tables ids]) simp_all
      then show ?thesis using b rebuild_table_ok [of t0 fks] t0(2) sc0(2) by (simp add: coherent_table_def bare_table_def)
    qed
    ultimately show "coherent_schema (database_tables db) db sc"
      using bare sc0(2) by (simp add: coherent_schema_def bare_schema_def db_rec list_all_iff)
  qed
  moreover have "adds seen (db_id db # concat (map schema_parts (db_schemas db)) @ map fk_id (table_keys (database_tables db))) (pt_seen st)"
  proof (rule adds_perm)
    show "adds seen ([did] @ concat (map schema_parts scs) @ map (\<lambda>e. fk_id (snd e)) fks) (pt_seen st)"
      using adds_trans [OF adds_one [OF *(1)] adds_trans [OF adds1]] fks st by simp
    have "mset (map fk_id (table_keys (database_tables db))) = mset (map fk_id (map snd fks))" using keys by (metis mset_map)
    then have "mset (map fk_id (table_keys (database_tables db))) = mset (map (\<lambda>e. fk_id (snd e)) fks)" by (simp only: map_map comp_def)
    then show "mset (db_id db # concat (map schema_parts (db_schemas db)) @ map fk_id (table_keys (database_tables db))) =
      mset ([did] @ concat (map schema_parts scs) @ map (\<lambda>e. fk_id (snd e)) fks)"
      using parts by (simp only: mset_append mset.simps append_Cons append_Nil) (simp add: db_rec)
  qed
  moreover have "t_id ` with_keys fks ` set ts = t_id ` set ts" by (simp add: image_image)
  then have "set (pt_table_ids st) = t_id ` set (database_tables db)" using ts(2) st set_tables by (simp add: grows_def)
  moreover have "snd ` set fks = set (table_keys (database_tables db))" using keys by (metis list.set_map mset_eq_setD)
  moreover have "coherent_ownership (db_ownership db)" using ownership_sound [OF *(5)] by (simp add: db_rec)
  moreover have "db_datasource_id db = dsid" by (simp add: db_rec)
  ultimately show ?thesis using db_mk by blast
qed

lemma catch_value_error_Inr: "catch_value_error p r = Inr x \<longleftrightarrow> r = Inr x"
  by (auto simp: catch_value_error_def split: sum.splits error.splits)

lemma relationship_sound:
  assumes "relationship_from_dict tids by_id i seen raw = Inr (r, seen')"
  shows "mk_relationship r = Inr r \<and> {rl_from_table_id r, rl_to_table_id r} \<subseteq> set tids \<and> adds seen [rl_id r] seen' \<and>
    (case rl_foreign_key_id r of None \<Rightarrow> True
     | Some k \<Rightarrow> k \<noteq> [] \<and> (\<exists>fk. map_of by_id k = Some fk \<and> fk_table_id fk = rl_from_table_id r \<and> fk_referenced_table_id fk = rl_to_table_id r))"
proof -
  obtain rid a b path raw_fk fk name d where
    *: "rid \<notin> set seen" "a \<in> set tids" "b \<in> set tids" "check_relationship_fk by_id path a b raw_fk = Inr fk"
      "mk_relationship \<lparr>rl_id = rid, rl_name = name, rl_from_table_id = a, rl_to_table_id = b, rl_foreign_key_id = fk,
         rl_description = d\<rparr> = Inr r" "seen' = seen @ [rid]"
    using assms unfolding relationship_from_dict_def Let_def
    by (auto simp: split_result guard_Inr register_id_Inr catch_value_error_Inr)
  then show ?thesis using constructors_fixed(4) [OF *(5)] adds_one [OF *(1)]
    by (auto simp: check_relationship_fk_def require_texts split_result guard_Inr split: if_splits option.splits)
qed

lemma relationships_sound:
  assumes "scan_items (relationship_from_dict tids by_id) i seen raws = Inr (rs, seen')"
  shows "list_all (\<lambda>r. mk_relationship r = Inr r \<and> {rl_from_table_id r, rl_to_table_id r} \<subseteq> set tids \<and>
    (case rl_foreign_key_id r of None \<Rightarrow> True
     | Some k \<Rightarrow> k \<noteq> [] \<and> (\<exists>fk. map_of by_id k = Some fk \<and> fk_table_id fk = rl_from_table_id r \<and> fk_referenced_table_id fk = rl_to_table_id r))) rs \<and>
    adds seen (map rl_id rs) seen'"
  using assms
proof (induction raws arbitrary: i seen rs)
  case (Cons raw raws)
  from Cons.prems obtain r u rs' where run: "relationship_from_dict tids by_id i seen raw = Inr (r, u)"
    "scan_items (relationship_from_dict tids by_id) (Suc i) u raws = Inr (rs', seen')" "rs = r # rs'" by (auto simp: split_result)
  show ?case using Cons.IH [OF run(2)] relationship_sound [OF run(1)] run(3) adds_trans [of seen "[rl_id r]" u] by simp
qed simp

lemma mk_data_source_sorted:
  "mk_data_source d = Inr u \<Longrightarrow> mk_data_source u = Inr u \<and> u = d\<lparr>ds_databases := sort_key db_id (ds_databases d)\<rparr>"
  by (auto simp: mk_data_source_def split_result sort_key_idem)

lemma data_source_sound:
  assumes "data_source_from_dict raw = Inr (ds, fks, st)"
  shows "\<exists>db. ds_databases ds = [db] \<and> mk_data_source ds = Inr ds \<and> coherent_ownership (ds_ownership ds) \<and>
    mk_database db = Inr db \<and> coherent_ownership (db_ownership db) \<and> db_datasource_id db = ds_id ds \<and>
    list_all (coherent_schema (database_tables db) db) (db_schemas db) \<and>
    adds [] (ds_id ds # db_id db # concat (map schema_parts (db_schemas db)) @ map fk_id (table_keys (database_tables db))) (pt_seen st) \<and>
    set (pt_table_ids st) = t_id ` set (database_tables db) \<and> snd ` set fks = set (table_keys (database_tables db))"
proof -
  obtain dsid raw_db db raw_w w name sys attrs d where
    *: "database_from_dict dsid [dsid] raw_db = Inr (db, fks, st)" "ownership_from_dict raw_w (ds_path @ ''/ownership'') = Inr w"
      "mk_data_source \<lparr>ds_id = dsid, ds_name = name, ds_system_type = sys, ds_databases = [db], ds_description = d,
         ds_ownership = w, ds_technical_attributes = attrs\<rparr> = Inr ds"
    using assms unfolding data_source_from_dict_def by (auto simp: split_result guard_Inr register_id_Inr)
  have ds: "ds_databases ds = [db]" "ds_id ds = dsid" "ds_ownership ds = w" using mk_data_source_sorted [OF *(3)] by simp_all
  have mk: "mk_data_source ds = Inr ds" using mk_data_source_sorted [OF *(3)] by blast
  note db = database_sound [OF *(1)]
  have "adds [] (ds_id ds # db_id db # concat (map schema_parts (db_schemas db)) @ map fk_id (table_keys (database_tables db))) (pt_seen st)"
    using adds_trans [OF adds_one [of dsid "[]"], of "db_id db # concat (map schema_parts (db_schemas db)) @ map fk_id (table_keys (database_tables db))"]
      db ds(2) by simp
  then show ?thesis using db ds mk ownership_sound [OF *(2)] by simp
qed

lemma parse_sound:
  assumes "parse_snapshot_payload kvs = Inr sn"
  shows "coherent_snapshot sn"
proof -
  obtain raw_ds ds fks st raw_rels rels seen model scanner source_name database_name system_type where
    *: "data_source_from_dict raw_ds = Inr (ds, fks, st)" "source_name = ds_name ds" "[database_name] = map db_name (ds_databases ds)"
      "system_type = ds_system_type ds"
      "scan_items (relationship_from_dict (pt_table_ids st) (dict_of (map (\<lambda>(_, k). (fk_id k, k)) fks))) 0 (pt_seen st) raw_rels = Inr (rels, seen)"
      "mk_governance_model [ds] rels = Inr model" "scanner \<noteq> []"
      "sn = \<lparr>sn_model = model, sn_source_name = source_name, sn_database_name = database_name, sn_system_type = system_type,
         sn_scanner = scanner, sn_scanner_contract_version = SCANNER_CONTRACT_VERSION\<rparr>"
    using assms unfolding parse_snapshot_payload_def
    by (auto simp: split_result guard_Inr catch_value_error_Inr require_texts)
  obtain db where db: "ds_databases ds = [db]" "mk_data_source ds = Inr ds" "coherent_ownership (ds_ownership ds)"
    "mk_database db = Inr db" "coherent_ownership (db_ownership db)" "db_datasource_id db = ds_id ds"
    "list_all (coherent_schema (database_tables db) db) (db_schemas db)"
    "adds [] (ds_id ds # db_id db # concat (map schema_parts (db_schemas db)) @ map fk_id (table_keys (database_tables db))) (pt_seen st)"
    "set (pt_table_ids st) = t_id ` set (database_tables db)" "snd ` set fks = set (table_keys (database_tables db))"
    using data_source_sound [OF *(1)] by blast
  note rels = relationships_sound [OF *(5)]
  have model: "gm_data_sources model = [ds]" "gm_relationships model = sort_key rl_id rels" using *(6) by (auto simp: mk_governance_model_def)
  have mk: "mk_governance_model [ds] (gm_relationships model) = Inr model"
    using *(6) by (auto simp: mk_governance_model_def sort_key_idem)
  have by_id: "\<exists>k \<in> set (table_keys (database_tables db)). fk_id k = i \<and> k = fk"
    if fk: "map_of (dict_of (map (\<lambda>(_, k). (fk_id k, k)) fks)) i = Some fk" for i fk
  proof -
    have "map_of (rev (map (\<lambda>(_, k). (fk_id k, k)) fks)) i = Some fk" using fk unfolding map_of_dict_of .
    then have "(i, fk) \<in> set (rev (map (\<lambda>(_, k). (fk_id k, k)) fks))" by (rule map_of_SomeD)
    then obtain e where "e \<in> set fks" "fk_id (snd e) = i" "snd e = fk" by auto
    then show ?thesis using db(10) by (intro bexI [of _ fk]) auto
  qed
  have "coherent_relationship (database_tables db) r" if r: "r \<in> set rels" for r
  proof (cases "rl_foreign_key_id r")
    case None
    then show ?thesis using rels r db(9) by (auto simp: list_all_iff coherent_relationship_def)
  next
    case (Some i)
    from bspec [OF conjunct1 [OF rels, unfolded list_all_iff] r] Some obtain fk where
      fk: "i \<noteq> []" "map_of (dict_of (map (\<lambda>(_, k). (fk_id k, k)) fks)) i = Some fk" "fk_table_id fk = rl_from_table_id r"
        "fk_referenced_table_id fk = rl_to_table_id r" and r': "mk_relationship r = Inr r"
        "{rl_from_table_id r, rl_to_table_id r} \<subseteq> set (pt_table_ids st)"
      by (simp only: option.case) blast
    show ?thesis using by_id [OF fk(2)] fk(1,3,4) r' db(9) Some by (auto simp: coherent_relationship_def)
  qed
  then have "list_all (coherent_relationship (database_tables db)) rels" by (simp add: list_all_iff)
  then have "list_all (coherent_relationship (database_tables db)) (gm_relationships model)" by (simp add: model)
  moreover have "distinct (all_ids ds db (gm_relationships model))"
  proof -
    have "adds [] ((ds_id ds # db_id db # concat (map schema_parts (db_schemas db)) @ map fk_id (table_keys (database_tables db))) @ map rl_id rels) seen"
      by (rule adds_trans [OF db(8)]) (use rels in simp)
    then have "distinct seen" "mset seen = mset (all_ids ds db (gm_relationships model))" by (auto simp: adds_def all_ids_def model)
    then show ?thesis by (metis mset_eq_imp_distinct_iff)
  qed
  ultimately show ?thesis unfolding coherent_snapshot_def using db model mk *(2-4,7,8) by (intro exI [of _ ds] exI [of _ db]) simp
qed

end
