(* ===== verification/Snapshot_Roundtrip.thy ===== *)
theory Snapshot_Roundtrip
  imports Snapshot
begin

text \<open>
  \<open>snapshot_to_dict\<close> of \<open>snapshots/models.py\<close> is undone by the loader of \<open>snapshots/load.py\<close> and
  \<open>snapshots/validate.py\<close>: one round trip per object, from the columns up to the artifact.
\<close>

section \<open>Coherent snapshots are parsed back\<close>

text \<open>Values as the parser leaves them: normalized descriptions, attributes in key order.\<close>

definition sorted_attributes :: "technical_attributes \<Rightarrow> bool" where
  "sorted_attributes attrs \<longleftrightarrow> sort_key fst attrs = attrs"

definition canonical_table :: "Table \<Rightarrow> bool" where
  "canonical_table t \<longleftrightarrow> canon (t_description t) = t_description t \<and> sorted_attributes (t_technical_attributes t) \<and>
     list_all (\<lambda>c. canon (c_description c) = c_description c \<and> sorted_attributes (c_technical_attributes c)) (t_columns t)"

definition canonical_schema :: "Schema \<Rightarrow> bool" where
  "canonical_schema sc \<longleftrightarrow> canon (sc_description sc) = sc_description sc \<and> list_all canonical_table (sc_tables sc)"

definition canonical_snapshot :: "GovernanceSnapshot \<Rightarrow> bool" where
  "canonical_snapshot sn \<longleftrightarrow> list_all (\<lambda>ds. canon (ds_description ds) = ds_description ds \<and> sorted_attributes (ds_technical_attributes ds) \<and>
       list_all (\<lambda>db. canon (db_description db) = db_description db \<and> list_all canonical_schema (db_schemas db)) (ds_databases ds))
     (gm_data_sources (sn_model sn)) \<and>
     list_all (\<lambda>r. canon (rl_description r) = rl_description r) (gm_relationships (sn_model sn))"

lemma scan_items_total:
  assumes "I [] s" "\<And>ys x zs i t. xs = ys @ x # zs \<Longrightarrow> I ys t \<Longrightarrow> \<exists>u. f i t (g x) = Inr (h x, u) \<and> I (ys @ [x]) u"
  shows "\<exists>t. scan_items f i s (map g xs) = Inr (map h xs, t) \<and> I xs t"
proof -
  have "\<exists>t. scan_items f i s (map g zs) = Inr (map h zs, t) \<and> I (ys @ zs) t" if "xs = ys @ zs" "I ys s" for ys zs i s
    using that
  proof (induction zs arbitrary: ys i s)
    case (Cons z zs)
    obtain u where u: "f i s (g z) = Inr (h z, u)" "I (ys @ [z]) u" using assms(2) [OF Cons.prems] by blast
    obtain t where "scan_items f (Suc i) u (map g zs) = Inr (map h zs, t)" "I ((ys @ [z]) @ zs) t"
      using Cons.IH [of "ys @ [z]" u] Cons.prems(1) u(2) by auto
    then show ?case using u(1) by auto
  qed simp
  from this [of "[]"] show ?thesis using assms(1) by simp
qed

lemma get_item_Cons: "get_item ((k, v) # kvs) i = (if k = i then v else get_item kvs i)"
  by (simp add: get_item_def)

lemma get_or_Cons: "get_or ((k, v) # kvs) i d = (if k = i then v else get_or kvs i d)"
  by (simp add: get_or_def)

lemmas reading = get_item_Cons get_or_Cons require_texts register_id_Inr technical_attributes_from_dict_def description_from_value_def

lemma require_simps' [simp]:
  "require_mapping (JObject kvs) p = Inr kvs" "require_list (JArray vs) p = Inr vs" "require_int (JInt k) p = Inr k"
  "require_bool (JBool b) p = Inr b" "require_str (JStr x) p = Inr x" "x \<noteq> [] \<Longrightarrow> require_non_empty_text (JStr x) p = Inr x"
  by (simp_all add: require_texts)

lemma register_id_new [simp]: "x \<notin> set seen \<Longrightarrow> register_id seen x p = Inr (seen @ [x])"
  by (simp add: register_id_Inr)

lemma mk_ownership_texts: "mk_ownership n y = Inr v \<Longrightarrow> n \<noteq> [] \<and> y \<noteq> []"
  by (auto simp: mk_ownership_def require_all_def require_non_empty_def strip_def lstrip_def split: if_splits)

lemma ownership_roundtrip:
  assumes "coherent_ownership w" shows "ownership_from_dict (opt_dict ownership_to_dict w) p = Inr w"
proof (cases w)
  case (Some v)
  then have v: "mk_ownership (ow_owner_name v) (ow_owner_type v) = Inr v" using assms by (simp add: coherent_ownership_def)
  then show ?thesis using mk_ownership_texts [OF v] Some
    by (simp add: ownership_from_dict_def opt_dict_def ownership_to_dict_def get_item_Cons get_or_Cons)
qed (simp add: ownership_from_dict_def opt_dict_def)

lemma texts_present:
  "mk_column c = Inr c' \<Longrightarrow> c_id c \<noteq> [] \<and> c_name c \<noteq> [] \<and> c_data_type c \<noteq> []"
  "mk_primary_key k = Inr k' \<Longrightarrow> pk_id k \<noteq> [] \<and> pk_name k \<noteq> [] \<and> pk_table_id k \<noteq> [] \<and> [] \<notin> set (pk_column_ids k)"
  "mk_foreign_key f = Inr f' \<Longrightarrow> fk_id f \<noteq> [] \<and> fk_name f \<noteq> [] \<and> fk_table_id f \<noteq> [] \<and> fk_referenced_table_id f \<noteq> [] \<and>
     length (fk_column_ids f) = length (fk_referenced_column_ids f)"
  "mk_relationship r = Inr r' \<Longrightarrow> rl_id r \<noteq> [] \<and> rl_name r \<noteq> [] \<and> rl_from_table_id r \<noteq> [] \<and> rl_to_table_id r \<noteq> []"
  "mk_table t = Inr t' \<Longrightarrow> t_id t \<noteq> [] \<and> t_name t \<noteq> [] \<and> t_schema_id t \<noteq> []"
  "mk_schema s = Inr s' \<Longrightarrow> sc_id s \<noteq> [] \<and> sc_name s \<noteq> [] \<and> sc_database_id s \<noteq> []"
  "mk_database d = Inr d' \<Longrightarrow> db_id d \<noteq> [] \<and> db_name d \<noteq> [] \<and> db_datasource_id d \<noteq> []"
  "mk_data_source x = Inr x' \<Longrightarrow> ds_id x \<noteq> [] \<and> ds_name x \<noteq> [] \<and> ds_system_type x \<noteq> []"
  by (auto simp: mk_column_def mk_primary_key_def mk_foreign_key_def mk_relationship_def mk_table_def mk_schema_def mk_database_def
      mk_data_source_def require_all_def require_non_empty_def strip_def lstrip_def split_result split: if_splits)

lemma column_roundtrip:
  assumes "mk_column c = Inr c" "canon (c_description c) = c_description c" "sorted_attributes (c_technical_attributes c)"
    and "c_id c \<notin> set seen"
  shows "column_from_dict p i seen (column_to_dict c) = Inr (c, seen @ [c_id c])"
  using assms texts_present(1) [OF assms(1)]
  by (cases c) (simp add: column_from_dict_def column_to_dict_def Let_def get_item_Cons get_or_Cons attributes_dict_def
      sorted_attributes_def description_from_value_def technical_attributes_from_dict_def)

lemma columns_roundtrip:
  assumes "list_all (\<lambda>c. mk_column c = Inr c \<and> canon (c_description c) = c_description c \<and> sorted_attributes (c_technical_attributes c)) cs"
    and "distinct (seen @ map c_id cs)"
  shows "scan_items (column_from_dict p) 0 seen (map column_to_dict cs) = Inr (cs, seen @ map c_id cs)"
proof -
  have "\<exists>t. scan_items (column_from_dict p) 0 seen (map column_to_dict cs) = Inr (map id cs, t) \<and> t = seen @ map c_id cs"
  proof (rule scan_items_total)
    fix ys x zs i t assume "cs = ys @ x # zs" "t = seen @ map c_id ys"
    then show "\<exists>u. column_from_dict p i t (column_to_dict x) = Inr (id x, u) \<and> u = seen @ map c_id (ys @ [x])"
      using assms by (simp add: column_roundtrip)
  qed simp
  then show ?thesis by simp
qed

lemma column_refs_roundtrip:
  assumes "set ids \<subseteq> set cols" "[] \<notin> set cols"
  shows "column_refs p cols m (map JStr ids) = Inr ids"
proof -
  let ?f = "\<lambda>i _ item. try_in (require_non_empty_text item (at_index p i)) (\<lambda>column_id.
      if column_id \<notin> set cols then Inl (payload_error m (at_index p i)) else Inr (column_id, ()))"
  have "\<exists>t. scan_items ?f 0 () (map JStr ids) = Inr (map id ids, t) \<and> True"
  proof (rule scan_items_total)
    fix ys x zs i and t :: unit assume "ids = ys @ x # zs"
    then have "x \<in> set cols" "x \<noteq> []" using assms by auto
    then show "\<exists>u. ?f i t (JStr x) = Inr (id x, u) \<and> True" by simp
  qed simp
  then show ?thesis by (auto simp: column_refs_def)
qed

lemma primary_key_roundtrip:
  assumes "mk_primary_key k = Inr k" "pk_table_id k = tid" "set (pk_column_ids k) \<subseteq> set cols" "[] \<notin> set cols" "pk_id k \<notin> set seen"
  shows "primary_key_from_dict p tid cols seen (primary_key_to_dict k) = Inr (k, seen @ [pk_id k])"
  using assms texts_present(2) [OF assms(1)] column_refs_roundtrip [OF assms(3,4)]
  by (cases k) (simp add: primary_key_from_dict_def primary_key_to_dict_def get_item_Cons)

lemma foreign_key_roundtrip:
  assumes "mk_foreign_key k = Inr k" "fk_table_id k = tid" "set (fk_column_ids k) \<subseteq> set cols" "[] \<notin> set cols" "fk_id k \<notin> set seen"
    and "fk_referenced_table_id k \<in> set tids" "set (fk_referenced_column_ids k) \<subseteq> set (get_list cbt (fk_referenced_table_id k))"
    "[] \<notin> set (get_list cbt (fk_referenced_table_id k))"
  shows "foreign_key_from_dict tids cbt p tid cols seen (foreign_key_to_dict k) = Inr (k, seen @ [fk_id k])"
  using assms texts_present(3) [OF assms(1)] column_refs_roundtrip [OF assms(3,4)] column_refs_roundtrip [OF assms(7,8)]
  by (cases k) (simp add: foreign_key_from_dict_def foreign_key_to_dict_def get_item_Cons)

text \<open>What the first pass leaves when it walks over the tables of a coherent snapshot.\<close>

definition pending_entry :: "(Table \<times> ForeignKey) \<times> string \<Rightarrow> string \<times> json \<times> string" where
  "pending_entry z = (t_id (fst (fst z)), foreign_key_to_dict (snd (fst z)), snd z)"

definition owned_keys :: "Table list \<Rightarrow> (Table \<times> ForeignKey) list" where
  "owned_keys ts = concat (map (\<lambda>t. map (Pair t) (t_foreign_keys t)) ts)"

definition walked :: "parse_state \<Rightarrow> string list \<Rightarrow> Table list \<Rightarrow> parse_state \<Rightarrow> bool" where
  "walked st ids ts st' \<longleftrightarrow> pt_seen st' = pt_seen st @ ids \<and> pt_table_ids st' = pt_table_ids st @ map t_id ts \<and>
     pt_columns_by_table st' = foldl (\<lambda>d t. AList.update (t_id t) (map c_id (t_columns t)) d) (pt_columns_by_table st) ts \<and>
     (\<exists>zs. pt_pending_fks st' = pt_pending_fks st @ map pending_entry zs \<and> map fst zs = owned_keys ts)"

lemma walked_refl [simp]: "walked st [] [] st"
  by (simp add: walked_def owned_keys_def)

lemma walked_trans:
  assumes "walked s xs ts t" "walked t ys us u" shows "walked s (xs @ ys) (ts @ us) u"
proof -
  obtain zs where zs: "pt_pending_fks t = pt_pending_fks s @ map pending_entry zs" "map fst zs = owned_keys ts"
    using assms(1) by (auto simp: walked_def)
  obtain ws where ws: "pt_pending_fks u = pt_pending_fks t @ map pending_entry ws" "map fst ws = owned_keys us"
    using assms(2) by (auto simp: walked_def)
  have "pt_pending_fks u = pt_pending_fks s @ map pending_entry (zs @ ws)" "map fst (zs @ ws) = owned_keys (ts @ us)"
    using zs ws by (simp_all add: owned_keys_def)
  then show ?thesis using assms unfolding walked_def by (intro conjI exI [of _ "zs @ ws"]) simp_all
qed

lemma optional_primary_key_roundtrip:
  assumes "case pk of None \<Rightarrow> True | Some k \<Rightarrow> mk_primary_key k = Inr k \<and> pk_table_id k = tid \<and> set (pk_column_ids k) \<subseteq> set cols"
    and "[] \<notin> set cols" "distinct (seen @ (case pk of None \<Rightarrow> [] | Some k \<Rightarrow> [pk_id k]))"
  shows "optional_primary_key p tid cols seen (opt_dict primary_key_to_dict pk) = Inr (pk, seen @ (case pk of None \<Rightarrow> [] | Some k \<Rightarrow> [pk_id k]))"
proof (cases pk)
  case (Some k)
  then have "primary_key_from_dict p tid cols seen (primary_key_to_dict k) = Inr (k, seen @ [pk_id k])"
    using assms by (intro primary_key_roundtrip) auto
  then show ?thesis using Some by (simp add: optional_primary_key_def opt_dict_def primary_key_to_dict_def)
qed (simp add: optional_primary_key_def opt_dict_def)

lemma enumerate_map: "enumerate n (map f xs) = map (\<lambda>(k, x). (k, f x)) (enumerate n xs)"
  by (induction xs arbitrary: n) simp_all

lemma map_snd_of_enumerate: "map (\<lambda>x. f (snd x)) (enumerate n xs) = map f xs"
  by (induction xs arbitrary: n) simp_all

lemma table_roundtrip:
  assumes t: "bare_table sid t" "canonical_table t" and seen: "distinct (pt_seen st @ table_parts t)"
  shows "\<exists>st'. table_from_dict p sid i st (table_to_dict t) = Inr (t\<lparr>t_foreign_keys := []\<rparr>, st') \<and> walked st (table_parts t) [t] st'"
proof -
  have mk: "mk_table t = Inr t" "t_schema_id t = sid" "coherent_columns t" using t(1) by (simp_all add: bare_table_def)
  have cols: "list_all (\<lambda>c. mk_column c = Inr c \<and> canon (c_description c) = c_description c \<and> sorted_attributes (c_technical_attributes c)) (t_columns t)"
    using mk(3) t(2) by (auto simp: coherent_columns_def canonical_table_def list_all_iff)
  then have blank: "[] \<notin> set (map c_id (t_columns t))" using texts_present(1) by (fastforce simp: list_all_iff)
  let ?path = "at_index p i"
  let ?seen = "(pt_seen st @ [t_id t]) @ map c_id (t_columns t)"
  have run1: "scan_items (column_from_dict (?path @ ''/columns'')) 0 (pt_seen st @ [t_id t]) (map column_to_dict (t_columns t)) =
      Inr (t_columns t, ?seen)"
    using seen by (intro columns_roundtrip [OF cols]) (auto simp: table_parts_def)
  have run2: "optional_primary_key (?path @ ''/primary_key'') (t_id t) (map c_id (t_columns t)) ?seen (opt_dict primary_key_to_dict (t_primary_key t)) =
      Inr (t_primary_key t, ?seen @ (case t_primary_key t of None \<Rightarrow> [] | Some k \<Rightarrow> [pk_id k]))"
  proof (rule optional_primary_key_roundtrip [OF _ blank])
    show "case t_primary_key t of None \<Rightarrow> True
      | Some k \<Rightarrow> mk_primary_key k = Inr k \<and> pk_table_id k = t_id t \<and> set (pk_column_ids k) \<subseteq> set (map c_id (t_columns t))"
      using mk(3) by (simp add: coherent_columns_def split: option.splits)
  qed (use seen in \<open>simp add: table_parts_def\<close>)
  have run3: "ownership_from_dict (opt_dict ownership_to_dict (t_ownership t)) (?path @ ''/ownership'') = Inr (t_ownership t)"
    using mk(3) by (intro ownership_roundtrip) (simp add: coherent_columns_def)
  have bare: "mk_table (t\<lparr>t_foreign_keys := []\<rparr>) = Inr (t\<lparr>t_foreign_keys := []\<rparr>)"
    using mk(1) by (cases t) (auto simp: mk_table_def split_result split: if_splits)
  then have run4: "mk_table \<lparr>t_id = t_id t, t_name = t_name t, t_schema_id = t_schema_id t, t_columns = t_columns t,
      t_primary_key = t_primary_key t, t_foreign_keys = [], t_description = t_description t, t_ownership = t_ownership t,
      t_technical_attributes = t_technical_attributes t\<rparr> = Inr (t\<lparr>t_foreign_keys := []\<rparr>)" by (cases t) simp
  let ?pending = "map (\<lambda>(k, fk). (t_id t, fk, at_index (?path @ ''/foreign_keys'') k)) (enumerate 0 (map foreign_key_to_dict (t_foreign_keys t)))"
  let ?st = "\<lparr>pt_seen = ?seen @ (case t_primary_key t of None \<Rightarrow> [] | Some k \<Rightarrow> [pk_id k]), pt_table_ids = pt_table_ids st @ [t_id t],
     pt_columns_by_table = AList.update (t_id t) (map c_id (t_columns t)) (pt_columns_by_table st), pt_pending_fks = pt_pending_fks st @ ?pending\<rparr>"
  have "t_id t \<notin> set (pt_seen st)" using seen by (auto simp: table_parts_def)
  then have run: "table_from_dict p sid i st (table_to_dict t) = Inr (t\<lparr>t_foreign_keys := []\<rparr>, ?st)"
    using texts_present(5) [OF mk(1)] mk(2) run1 run2 run3 run4 t(2)
    by (simp add: table_from_dict_def table_to_dict_def Let_def get_item_Cons get_or_Cons technical_attributes_from_dict_def
        attributes_dict_def description_from_value_def canonical_table_def sorted_attributes_def)
  have "\<exists>zs. ?pending = map pending_entry zs \<and> map fst zs = owned_keys [t]"
  proof (intro exI conjI)
    let ?zs = "map (\<lambda>(k, fk). ((t, fk), at_index (?path @ ''/foreign_keys'') k)) (enumerate 0 (t_foreign_keys t))"
    show "?pending = map pending_entry ?zs" by (simp add: enumerate_map pending_entry_def comp_def split_beta)
    have "map fst ?zs = map (Pair t) (t_foreign_keys t)" by (simp add: comp_def split_beta map_snd_of_enumerate)
    then show "map fst ?zs = owned_keys [t]" by (simp add: owned_keys_def)
  qed
  then have "walked st (table_parts t) [t] ?st" by (simp add: walked_def table_parts_def)
  then show ?thesis using run by blast
qed

lemma tables_roundtrip:
  assumes "list_all (bare_table sid) ts" "list_all canonical_table ts" "distinct (pt_seen st @ concat (map table_parts ts))"
  shows "\<exists>st'. scan_items (table_from_dict p sid) 0 st (map table_to_dict ts) = Inr (map (t_foreign_keys_update (\<lambda>_. [])) ts, st') \<and>
    walked st (concat (map table_parts ts)) ts st'"
proof (rule scan_items_total)
  fix ys x zs i t
  assume ts: "ts = ys @ x # zs" and t: "walked st (concat (map table_parts ys)) ys t"
  have "distinct (pt_seen t @ table_parts x)" using assms(3) t by (auto simp: ts walked_def)
  from table_roundtrip [OF _ _ this, of sid p i] obtain u where
    "table_from_dict p sid i t (table_to_dict x) = Inr (t_foreign_keys_update (\<lambda>_. []) x, u)" "walked t (table_parts x) [x] u"
    using assms(1,2) ts by auto
  then show "\<exists>u. table_from_dict p sid i t (table_to_dict x) = Inr (t_foreign_keys_update (\<lambda>_. []) x, u) \<and>
    walked st (concat (map table_parts (ys @ [x]))) (ys @ [x]) u"
    using walked_trans [OF t] by auto
qed simp

definition bare_schema_of :: "Schema \<Rightarrow> Schema" where
  "bare_schema_of sc = sc\<lparr>sc_tables := map (t_foreign_keys_update (\<lambda>_. [])) (sc_tables sc)\<rparr>"

lemma schema_roundtrip:
  assumes sc: "bare_schema did sc" "canonical_schema sc" and seen: "distinct (pt_seen st @ schema_parts sc)"
  shows "\<exists>st'. schema_from_dict p did i st (schema_to_dict sc) = Inr (bare_schema_of sc, st') \<and> walked st (schema_parts sc) (sc_tables sc) st'"
proof -
  let ?path = "at_index p i"
  let ?st = "st\<lparr>pt_seen := pt_seen st @ [sc_id sc]\<rparr>"
  have mk: "mk_schema sc = Inr sc" "sc_database_id sc = did" "coherent_ownership (sc_ownership sc)" "list_all (bare_table (sc_id sc)) (sc_tables sc)"
    using sc(1) by (simp_all add: bare_schema_def)
  have can: "canon (sc_description sc) = sc_description sc" "list_all canonical_table (sc_tables sc)" using sc(2) by (simp_all add: canonical_schema_def)
  have dist: "distinct (pt_seen ?st @ concat (map table_parts (sc_tables sc)))" using seen by (auto simp: schema_parts_def)
  obtain st' where run: "scan_items (table_from_dict (?path @ ''/tables'') (sc_id sc)) 0 ?st (map table_to_dict (sc_tables sc)) =
      Inr (map (t_foreign_keys_update (\<lambda>_. [])) (sc_tables sc), st')" and w: "walked ?st (concat (map table_parts (sc_tables sc))) (sc_tables sc) st'"
    using tables_roundtrip [OF mk(4) can(2) dist] by blast
  have "sort_key t_id (sc_tables sc) = sc_tables sc" using mk(1) by (cases sc) (auto simp: mk_schema_def split_result)
  then have "sorted (map t_id (sc_tables sc))" by (rule sorted_fixed)
  then have "sort_key t_id (map (t_foreign_keys_update (\<lambda>_. [])) (sc_tables sc)) = map (t_foreign_keys_update (\<lambda>_. [])) (sc_tables sc)"
    by (intro sort_key_id) (simp add: comp_def)
  then have bare: "mk_schema \<lparr>sc_id = sc_id sc, sc_name = sc_name sc, sc_database_id = sc_database_id sc,
      sc_tables = map (t_foreign_keys_update (\<lambda>_. [])) (sc_tables sc), sc_description = sc_description sc, sc_ownership = sc_ownership sc\<rparr> =
      Inr (bare_schema_of sc)"
    using mk(1) by (cases sc) (auto simp: mk_schema_def bare_schema_of_def split_result)
  have fresh: "sc_id sc \<notin> set (pt_seen st)" using seen by (auto simp: schema_parts_def)
  have "schema_from_dict p did i st (schema_to_dict sc) = Inr (bare_schema_of sc, st')"
    using texts_present(6) [OF mk(1)] mk(2) fresh run bare can(1) ownership_roundtrip [OF mk(3)]
    by (simp add: schema_from_dict_def schema_to_dict_def Let_def get_item_Cons description_from_value_def)
  moreover have "walked st [sc_id sc] [] ?st" by (simp add: walked_def owned_keys_def)
  then have "walked st (schema_parts sc) (sc_tables sc) st'" using walked_trans [OF _ w] by (fastforce simp: schema_parts_def)
  ultimately show ?thesis by blast
qed

lemma schemas_roundtrip:
  assumes "list_all (bare_schema did) scs" "list_all canonical_schema scs" "distinct (pt_seen st @ concat (map schema_parts scs))"
  shows "\<exists>st'. scan_items (schema_from_dict p did) 0 st (map schema_to_dict scs) = Inr (map bare_schema_of scs, st') \<and>
    walked st (concat (map schema_parts scs)) (concat (map sc_tables scs)) st'"
proof (rule scan_items_total)
  fix ys x zs i t
  assume scs: "scs = ys @ x # zs" and t: "walked st (concat (map schema_parts ys)) (concat (map sc_tables ys)) t"
  have "distinct (pt_seen t @ schema_parts x)" using assms(3) t by (auto simp: scs walked_def)
  from schema_roundtrip [OF _ _ this, of did p i] obtain u where
    "schema_from_dict p did i t (schema_to_dict x) = Inr (bare_schema_of x, u)" "walked t (schema_parts x) (sc_tables x) u"
    using assms(1,2) scs by auto
  then show "\<exists>u. schema_from_dict p did i t (schema_to_dict x) = Inr (bare_schema_of x, u) \<and>
    walked st (concat (map schema_parts (ys @ [x]))) (concat (map sc_tables (ys @ [x]))) u"
    using walked_trans [OF t] by auto
qed simp

lemma foldl_update_dict: "foldl (\<lambda>d t. AList.update (f t) (g t) d) d xs = foldl (\<lambda>d (k, v). AList.update k v d) d (map (\<lambda>t. (f t, g t)) xs)"
  by (induction xs arbitrary: d) simp_all

lemma columns_known:
  assumes "walked st ids ts st'" "pt_columns_by_table st = []" "distinct (map t_id ts)" "t \<in> set ts"
  shows "map_of (pt_columns_by_table st') (t_id t) = Some (map c_id (t_columns t))"
proof -
  have "pt_columns_by_table st' = dict_of (map (\<lambda>t. (t_id t, map c_id (t_columns t))) ts)"
    using assms(1,2) by (simp add: walked_def dict_of_def foldl_update_dict)
  moreover have "map_of (rev (map (\<lambda>t. (t_id t, map c_id (t_columns t))) ts)) (t_id t) = Some (map c_id (t_columns t))"
    using assms(3,4) by (intro map_of_is_SomeI) (auto simp: comp_def rev_map [symmetric])
  ultimately show ?thesis by (simp only: map_of_dict_of)
qed

text \<open>The second pass over the keys of a coherent list of tables.\<close>

lemma pending_roundtrip:
  assumes st: "pt_columns_by_table st0 = []" "pt_pending_fks st0 = []" "pt_table_ids st0 = []" "walked st0 ids ts st"
    and ids: "distinct (map t_id ts)" and blank: "\<forall>t \<in> set ts. [] \<notin> c_id ` set (t_columns t)"
    and keys: "\<forall>t \<in> set ts. list_all (coherent_key ts t) (t_foreign_keys t)"
    and seen: "distinct (pt_seen st @ map fk_id (table_keys ts))"
  shows "scan_items (pending_fk_from_dict st) 0 (pt_seen st) (pt_pending_fks st) =
    Inr (map (\<lambda>(t, k). (t_id t, k)) (owned_keys ts), pt_seen st @ map fk_id (table_keys ts))"
proof -
  obtain zs where zs: "pt_pending_fks st = map pending_entry zs" "map fst zs = owned_keys ts"
    using st(2,4) by (auto simp: walked_def)
  have tids: "set (pt_table_ids st) = t_id ` set ts" using st(3,4) by (simp add: walked_def)
  have key_ids: "map (\<lambda>z. fk_id (snd (fst z))) zs = map fk_id (table_keys ts)"
  proof -
    have "map (\<lambda>z. fk_id (snd (fst z))) zs = map (fk_id \<circ> snd) (map fst zs)" by simp
    also have "\<dots> = map fk_id (table_keys ts)" unfolding zs(2) owned_keys_def table_keys_def by (induction ts) simp_all
    finally show ?thesis .
  qed
  have "\<exists>t. scan_items (pending_fk_from_dict st) 0 (pt_seen st) (map pending_entry zs) =
      Inr (map (\<lambda>z. (t_id (fst (fst z)), snd (fst z))) zs, t) \<and> t = pt_seen st @ map (\<lambda>z. fk_id (snd (fst z))) zs"
  proof (rule scan_items_total)
    fix ys x ws i u assume split: "zs = ys @ x # ws" and u: "u = pt_seen st @ map (\<lambda>z. fk_id (snd (fst z))) ys"
    obtain t k path where x: "x = ((t, k), path)" by (metis surj_pair)
    have "(t, k) \<in> set (owned_keys ts)" unfolding zs(2) [symmetric] split x by simp
    then have t: "t \<in> set ts" "k \<in> set (t_foreign_keys t)" by (auto simp: owned_keys_def)
    then have k: "coherent_key ts t k" using keys by (simp add: list_all_iff)
    then obtain v where v: "v \<in> set ts" "fk_referenced_table_id k = t_id v" "set (fk_referenced_column_ids k) \<subseteq> c_id ` set (t_columns v)"
      by (auto simp: coherent_key_def)
    have own: "map_of (pt_columns_by_table st) (t_id t) = Some (map c_id (t_columns t))"
      and ref: "get_list (pt_columns_by_table st) (fk_referenced_table_id k) = map c_id (t_columns v)"
      using columns_known [OF st(4,1) ids] t(1) v(1,2) by (simp_all add: get_list_def del: map_of_eq_Some_iff)
    have "fk_id k \<notin> set u"
      using seen unfolding key_ids [symmetric] split u x by auto
    then have "foreign_key_from_dict (pt_table_ids st) (pt_columns_by_table st) path (t_id t) (map c_id (t_columns t)) u (foreign_key_to_dict k) =
        Inr (k, u @ [fk_id k])"
      using k v t(1) blank tids ref by (intro foreign_key_roundtrip) (auto simp: coherent_key_def)
    then show "\<exists>u'. pending_fk_from_dict st i u (pending_entry x) = Inr ((t_id (fst (fst x)), snd (fst x)), u') \<and>
        u' = pt_seen st @ map (\<lambda>z. fk_id (snd (fst z))) (ys @ [x])"
      using own by (simp add: x pending_fk_from_dict_def pending_entry_def u del: map_of_eq_Some_iff)
  qed simp
  moreover have "map (\<lambda>z. (t_id (fst (fst z)), snd (fst z))) zs = map (\<lambda>(t, k). (t_id t, k)) (map fst zs)" by (simp add: split_beta)
  ultimately show ?thesis unfolding zs key_ids by simp
qed

lemma keys_restored:
  assumes "distinct (map t_id ts)" "t \<in> set ts" "mk_table t = Inr t"
  shows "with_keys (map (\<lambda>(t, k). (t_id t, k)) (owned_keys ts)) (t\<lparr>t_foreign_keys := []\<rparr>) = t"
proof -
  have "filter (\<lambda>e. fst e = t_id t) (map (\<lambda>(t, k). (t_id t, k)) (owned_keys us)) =
      concat (map (\<lambda>u. if t_id u = t_id t then map (Pair (t_id u)) (t_foreign_keys u) else []) us)" for us
    by (induction us) (auto simp: owned_keys_def comp_def)
  moreover have "concat (map (\<lambda>u. if t_id u = t_id t then map (Pair (t_id u)) (t_foreign_keys u) else []) us) =
      (if t \<in> set us then map (Pair (t_id t)) (t_foreign_keys t) else [])" if "distinct (map t_id us)" "set us \<subseteq> set ts" for us
    using that
  proof (induction us)
    case (Cons u us)
    have "u = t" if "t_id u = t_id t" using that Cons.prems(2) assms(1,2) by (auto simp: distinct_map dest: inj_onD)
    then show ?case using Cons by (auto simp: distinct_map)
  qed simp
  ultimately have "filter (\<lambda>e. fst e = t_id t) (map (\<lambda>(t, k). (t_id t, k)) (owned_keys ts)) = map (Pair (t_id t)) (t_foreign_keys t)"
    using assms(1,2) by simp
  moreover have "sort_key fk_id (t_foreign_keys t) = t_foreign_keys t"
    using assms(3) by (cases t) (auto simp: mk_table_def split_result split: if_splits)
  ultimately show ?thesis by (cases t) (simp add: with_keys_def comp_def)
qed

lemma bare_table_without_keys:
  assumes "mk_table t = Inr t" shows "mk_table (t\<lparr>t_foreign_keys := []\<rparr>) = Inr (t\<lparr>t_foreign_keys := []\<rparr>)"
  using assms by (cases t) (auto simp: mk_table_def split_result split: if_splits)

lemma bare_schema_of_bare:
  assumes "bare_schema did sc" shows "bare_schema did (bare_schema_of sc)"
proof -
  have mk: "mk_schema sc = Inr sc" and ts: "list_all (bare_table (sc_id sc)) (sc_tables sc)" using assms by (simp_all add: bare_schema_def)
  have "sort_key t_id (sc_tables sc) = sc_tables sc" using mk by (cases sc) (auto simp: mk_schema_def split_result)
  then have "sorted (map t_id (sc_tables sc))" by (rule sorted_fixed)
  then have "sort_key t_id (map (t_foreign_keys_update (\<lambda>_. [])) (sc_tables sc)) = map (t_foreign_keys_update (\<lambda>_. [])) (sc_tables sc)"
    by (intro sort_key_id) (simp add: comp_def)
  then have "mk_schema (bare_schema_of sc) = Inr (bare_schema_of sc)"
    using mk by (cases sc) (auto simp: mk_schema_def bare_schema_of_def split_result)
  moreover have "bare_table (sc_id sc) (t\<lparr>t_foreign_keys := []\<rparr>)" if "bare_table (sc_id sc) t" for t
    using that bare_table_without_keys [of t] by (simp add: bare_table_def coherent_columns_def split: option.splits)
  ultimately show ?thesis using assms ts by (auto simp: bare_schema_def bare_schema_of_def list_all_iff)
qed

lemma schemas_restored:
  assumes ids: "distinct (map t_id (concat (map sc_tables scs)))" and scs: "list_all (bare_schema did) scs"
  shows "map (schema_with_keys (map (\<lambda>(t, k). (t_id t, k)) (owned_keys (concat (map sc_tables scs))))) (map bare_schema_of scs) = scs"
    (is "map (schema_with_keys ?fks) _ = _")
proof -
  have "schema_with_keys ?fks (bare_schema_of sc) = sc" if sc: "sc \<in> set scs" for sc
  proof -
    have "with_keys ?fks (t\<lparr>t_foreign_keys := []\<rparr>) = t" if "t \<in> set (sc_tables sc)" for t
      using that sc scs by (intro keys_restored [OF ids]) (auto simp: list_all_iff bare_schema_def bare_table_def)
    then have "map (\<lambda>t. with_keys ?fks (t\<lparr>t_foreign_keys := []\<rparr>)) (sc_tables sc) = sc_tables sc" by (simp add: map_idI)
    then show ?thesis by (cases sc) (simp add: schema_with_keys_def bare_schema_of_def comp_def)
  qed
  then show ?thesis by (simp add: map_idI)
qed

lemma coherent_schema_bare: "coherent_schema ts db sc \<Longrightarrow> bare_schema (db_id db) sc"
  by (auto simp: coherent_schema_def bare_schema_def coherent_table_def bare_table_def list_all_iff)

definition canonical_database :: "Database \<Rightarrow> bool" where
  "canonical_database db \<longleftrightarrow> canon (db_description db) = db_description db \<and> list_all canonical_schema (db_schemas db)"

lemma database_roundtrip:
  assumes db: "mk_database db = Inr db" "coherent_ownership (db_ownership db)" "db_datasource_id db = dsid"
      "list_all (coherent_schema (database_tables db) db) (db_schemas db)" "canonical_database db"
    and seen: "distinct (seen @ db_id db # concat (map schema_parts (db_schemas db)) @ map fk_id (table_keys (database_tables db)))"
  shows "\<exists>st. database_from_dict dsid seen (database_to_dict db) =
      Inr (db, map (\<lambda>(t, k). (t_id t, k)) (owned_keys (database_tables db)), st) \<and>
    pt_seen st = seen @ db_id db # concat (map schema_parts (db_schemas db)) @ map fk_id (table_keys (database_tables db)) \<and>
    pt_table_ids st = map t_id (database_tables db)"
proof -
  let ?scs = "db_schemas db" and ?ts = "database_tables db"
  let ?fks = "map (\<lambda>(t, k). (t_id t, k)) (owned_keys ?ts)"
  let ?st0 = "\<lparr>pt_seen = seen @ [db_id db], pt_table_ids = [], pt_columns_by_table = [], pt_pending_fks = []\<rparr>"
  have bare: "list_all (bare_schema (db_id db)) ?scs" using db(4) coherent_schema_bare by (auto simp: list_all_iff)
  have can: "list_all canonical_schema ?scs" "canon (db_description db) = db_description db" using db(5) by (simp_all add: canonical_database_def)
  have "distinct (pt_seen ?st0 @ concat (map schema_parts ?scs))" using seen by auto
  from schemas_roundtrip [OF bare can(1) this] obtain st where
    run1: "scan_items (schema_from_dict (db_path @ ''/schemas'') (db_id db)) 0 ?st0 (map schema_to_dict ?scs) = Inr (map bare_schema_of ?scs, st)"
    and w: "walked ?st0 (concat (map schema_parts ?scs)) ?ts st" by (auto simp: database_tables_def)
  have seen': "pt_seen st = seen @ db_id db # concat (map schema_parts ?scs)" "pt_table_ids st = map t_id ?ts"
    using w by (simp_all add: walked_def)
  have "distinct (concat (map schema_parts ?scs))" using seen by simp
  then have ids: "distinct (map t_id ?ts)" unfolding database_tables_def by (rule distinct_table_ids)
  have tables: "mk_table t = Inr t \<and> coherent_columns t \<and> list_all (coherent_key ?ts t) (t_foreign_keys t)" if "t \<in> set ?ts" for t
    using that db(4) by (auto simp: database_tables_def list_all_iff coherent_schema_def coherent_table_def)
  have run2: "scan_items (pending_fk_from_dict st) 0 (pt_seen st) (pt_pending_fks st) = Inr (?fks, pt_seen st @ map fk_id (table_keys ?ts))"
  proof (rule pending_roundtrip [OF _ _ _ w ids])
    show "\<forall>t \<in> set ?ts. [] \<notin> c_id ` set (t_columns t)"
      using tables texts_present(1) by (fastforce simp: coherent_columns_def list_all_iff)
    show "distinct (pt_seen st @ map fk_id (table_keys ?ts))" using seen by (simp add: seen')
  qed (use tables in auto)
  have "list_all (bare_schema (db_id db)) (map bare_schema_of ?scs)" using bare bare_schema_of_bare by (auto simp: list_all_iff)
  from rebuild_schemas_ok [OF this, of ?fks] have run3: "traverse (rebuild_schema ?fks) (map bare_schema_of ?scs) = Inr ?scs"
    using schemas_restored [OF ids [unfolded database_tables_def] bare] by (simp add: database_tables_def)
  have mk: "mk_database \<lparr>db_id = db_id db, db_name = db_name db, db_datasource_id = db_datasource_id db, db_schemas = ?scs,
     db_description = db_description db, db_ownership = db_ownership db\<rparr> = Inr db" using db(1) by (cases db) simp
  have fresh: "db_id db \<notin> set seen" using seen by simp
  have "database_from_dict dsid seen (database_to_dict db) = Inr (db, ?fks, st\<lparr>pt_seen := pt_seen st @ map fk_id (table_keys ?ts)\<rparr>)"
    using texts_present(7) [OF db(1)] db(3) fresh run1 run2 run3 mk can(2) ownership_roundtrip [OF db(2)]
    by (simp add: database_from_dict_def database_to_dict_def get_item_Cons description_from_value_def)
  then show ?thesis using seen' by simp
qed

lemma data_source_roundtrip:
  assumes ds: "mk_data_source ds = Inr ds" "coherent_ownership (ds_ownership ds)" "ds_databases ds = [db]"
      "canon (ds_description ds) = ds_description ds" "sorted_attributes (ds_technical_attributes ds)"
    and db: "mk_database db = Inr db" "coherent_ownership (db_ownership db)" "db_datasource_id db = ds_id ds"
      "list_all (coherent_schema (database_tables db) db) (db_schemas db)" "canonical_database db"
    and seen: "distinct (ds_id ds # db_id db # concat (map schema_parts (db_schemas db)) @ map fk_id (table_keys (database_tables db)))"
  shows "\<exists>st. data_source_from_dict (data_source_to_dict ds) =
      Inr (ds, map (\<lambda>(t, k). (t_id t, k)) (owned_keys (database_tables db)), st) \<and>
    pt_seen st = ds_id ds # db_id db # concat (map schema_parts (db_schemas db)) @ map fk_id (table_keys (database_tables db)) \<and>
    pt_table_ids st = map t_id (database_tables db)"
proof -
  have "distinct ([ds_id ds] @ db_id db # concat (map schema_parts (db_schemas db)) @ map fk_id (table_keys (database_tables db)))"
    using seen by simp
  from database_roundtrip [OF db this] obtain st where run: "database_from_dict (ds_id ds) [ds_id ds] (database_to_dict db) =
      Inr (db, map (\<lambda>(t, k). (t_id t, k)) (owned_keys (database_tables db)), st)"
    and st: "pt_seen st = ds_id ds # db_id db # concat (map schema_parts (db_schemas db)) @ map fk_id (table_keys (database_tables db))"
    "pt_table_ids st = map t_id (database_tables db)" by auto
  have mk: "mk_data_source \<lparr>ds_id = ds_id ds, ds_name = ds_name ds, ds_system_type = ds_system_type ds, ds_databases = [db],
     ds_description = ds_description ds, ds_ownership = ds_ownership ds, ds_technical_attributes = ds_technical_attributes ds\<rparr> = Inr ds"
    using ds(1,3) by (cases ds) simp
  have "data_source_from_dict (data_source_to_dict ds) = Inr (ds, map (\<lambda>(t, k). (t_id t, k)) (owned_keys (database_tables db)), st)"
    using texts_present(8) [OF ds(1)] ds(3-5) run mk ownership_roundtrip [OF ds(2)]
    by (simp add: data_source_from_dict_def data_source_to_dict_def get_item_Cons get_or_Cons description_from_value_def
        sole_item_def technical_attributes_from_dict_def attributes_dict_def sorted_attributes_def)
  then show ?thesis using st by blast
qed

lemma check_relationship_fk_roundtrip:
  assumes "case fk of None \<Rightarrow> True | Some i \<Rightarrow> i \<noteq> [] \<and>
    (\<exists>k. map_of by_id i = Some k \<and> fk_table_id k = a \<and> fk_referenced_table_id k = b)"
  shows "check_relationship_fk by_id p a b (opt_dict JStr fk) = Inr fk"
  using assms by (cases fk) (auto simp: check_relationship_fk_def opt_dict_def)

lemma relationship_roundtrip:
  assumes r: "mk_relationship r = Inr r" "rl_from_table_id r \<in> set tids" "rl_to_table_id r \<in> set tids" "canon (rl_description r) = rl_description r"
    and fk: "case rl_foreign_key_id r of None \<Rightarrow> True | Some i \<Rightarrow> i \<noteq> [] \<and>
      (\<exists>k. map_of by_id i = Some k \<and> fk_table_id k = rl_from_table_id r \<and> fk_referenced_table_id k = rl_to_table_id r)"
    and new: "rl_id r \<notin> set seen"
  shows "relationship_from_dict tids by_id i seen (relationship_to_dict r) = Inr (r, seen @ [rl_id r])"
proof -
  have mk: "mk_relationship \<lparr>rl_id = rl_id r, rl_name = rl_name r, rl_from_table_id = rl_from_table_id r, rl_to_table_id = rl_to_table_id r,
      rl_foreign_key_id = rl_foreign_key_id r, rl_description = rl_description r\<rparr> = Inr r" using r(1) by (cases r) simp
  show ?thesis using mk texts_present(4) [OF r(1)] r(2-4) new check_relationship_fk_roundtrip [OF fk]
    by (simp add: relationship_from_dict_def relationship_to_dict_def Let_def get_item_Cons description_from_value_def catch_value_error_def)
qed

lemma relationships_roundtrip:
  assumes "list_all (\<lambda>r. mk_relationship r = Inr r \<and> rl_from_table_id r \<in> set tids \<and> rl_to_table_id r \<in> set tids \<and>
      canon (rl_description r) = rl_description r \<and> (case rl_foreign_key_id r of None \<Rightarrow> True | Some i \<Rightarrow> i \<noteq> [] \<and>
      (\<exists>k. map_of by_id i = Some k \<and> fk_table_id k = rl_from_table_id r \<and> fk_referenced_table_id k = rl_to_table_id r))) rels"
    and "distinct (seen @ map rl_id rels)"
  shows "scan_items (relationship_from_dict tids by_id) 0 seen (map relationship_to_dict rels) = Inr (rels, seen @ map rl_id rels)"
proof -
  have "\<exists>t. scan_items (relationship_from_dict tids by_id) 0 seen (map relationship_to_dict rels) = Inr (map id rels, t) \<and>
      t = seen @ map rl_id rels"
  proof (rule scan_items_total)
    fix ys x zs i t assume "rels = ys @ x # zs" "t = seen @ map rl_id ys"
    then have "relationship_from_dict tids by_id i t (relationship_to_dict x) = Inr (x, t @ [rl_id x])"
      using assms by (intro relationship_roundtrip) auto
    then show "\<exists>u. relationship_from_dict tids by_id i t (relationship_to_dict x) = Inr (id x, u) \<and> u = seen @ map rl_id (ys @ [x])"
      using \<open>t = _\<close> by simp
  qed simp
  then show ?thesis by simp
qed

lemma foreign_keys_by_id:
  assumes "distinct (map fk_id (table_keys ts))" "k \<in> set (table_keys ts)"
  shows "map_of (dict_of (map (\<lambda>(_, k). (fk_id k, k)) (map (\<lambda>(t, k). (t_id t, k)) (owned_keys ts)))) (fk_id k) = Some k"
proof -
  have "map (\<lambda>(_, k). (fk_id k, k)) (map (\<lambda>(t, k). (t_id t, k)) (owned_keys us)) = map (\<lambda>k. (fk_id k, k)) (table_keys us)" for us
    by (induction us) (simp_all add: owned_keys_def table_keys_def)
  moreover have "map_of (rev (map (\<lambda>k. (fk_id k, k)) (table_keys ts))) (fk_id k) = Some k"
    using assms by (intro map_of_is_SomeI) (auto simp: comp_def rev_map [symmetric])
  ultimately show ?thesis by (simp only: map_of_dict_of)
qed

text \<open>The envelope.\<close>

lemma parse_roundtrip:
  assumes sn: "coherent_snapshot sn" "canonical_snapshot sn"
  shows "parse_snapshot_payload (snapshot_items sn @ tail) = Inr sn"
proof -
  let ?m = "sn_model sn"
  obtain ds db where m: "gm_data_sources ?m = [ds]" "ds_databases ds = [db]" "mk_governance_model [ds] (gm_relationships ?m) = Inr ?m"
    and ds: "mk_data_source ds = Inr ds" "coherent_ownership (ds_ownership ds)"
    and db: "mk_database db = Inr db" "coherent_ownership (db_ownership db)" "db_datasource_id db = ds_id ds"
      "list_all (coherent_schema (database_tables db) db) (db_schemas db)"
    and rels: "list_all (coherent_relationship (database_tables db)) (gm_relationships ?m)"
    and ids: "distinct (all_ids ds db (gm_relationships ?m))"
    and env: "sn_source_name sn = ds_name ds" "sn_database_name sn = db_name db" "sn_system_type sn = ds_system_type ds"
      "sn_scanner sn \<noteq> []" "sn_scanner_contract_version sn = SCANNER_CONTRACT_VERSION"
    using sn(1) unfolding coherent_snapshot_def by blast
  have can: "canon (ds_description ds) = ds_description ds" "sorted_attributes (ds_technical_attributes ds)" "canonical_database db"
    "list_all (\<lambda>r. canon (rl_description r) = rl_description r) (gm_relationships ?m)"
    using sn(2) m(1,2) by (simp_all add: canonical_snapshot_def canonical_database_def)
  let ?fks = "map (\<lambda>(t, k). (t_id t, k)) (owned_keys (database_tables db))"
  have "distinct (ds_id ds # db_id db # concat (map schema_parts (db_schemas db)) @ map fk_id (table_keys (database_tables db)))"
    using ids by (auto simp: all_ids_def)
  from data_source_roundtrip [OF ds m(2) can(1,2) db can(3) this] obtain st where
    run1: "data_source_from_dict (data_source_to_dict ds) = Inr (ds, ?fks, st)"
    and st: "pt_seen st = ds_id ds # db_id db # concat (map schema_parts (db_schemas db)) @ map fk_id (table_keys (database_tables db))"
      "pt_table_ids st = map t_id (database_tables db)" by blast
  have keys: "distinct (map fk_id (table_keys (database_tables db)))" using ids by (simp add: all_ids_def)
  have "coherent_relationship (database_tables db) r \<Longrightarrow> canon (rl_description r) = rl_description r \<Longrightarrow>
      mk_relationship r = Inr r \<and> rl_from_table_id r \<in> set (pt_table_ids st) \<and> rl_to_table_id r \<in> set (pt_table_ids st) \<and>
      canon (rl_description r) = rl_description r \<and> (case rl_foreign_key_id r of None \<Rightarrow> True | Some i \<Rightarrow> i \<noteq> [] \<and>
      (\<exists>k. map_of (dict_of (map (\<lambda>(_, k). (fk_id k, k)) ?fks)) i = Some k \<and> fk_table_id k = rl_from_table_id r \<and>
        fk_referenced_table_id k = rl_to_table_id r))" for r
    using foreign_keys_by_id [OF keys]
    by (auto simp: coherent_relationship_def st(2) split: option.splits simp del: map_of_eq_Some_iff map_map)
  then have run2: "scan_items (relationship_from_dict (pt_table_ids st) (dict_of (map (\<lambda>(_, k). (fk_id k, k)) ?fks))) 0 (pt_seen st)
      (map relationship_to_dict (gm_relationships ?m)) = Inr (gm_relationships ?m, pt_seen st @ map rl_id (gm_relationships ?m))"
    using rels can(4) ids by (intro relationships_roundtrip) (auto simp: list_all_iff st(1) all_ids_def)
  have texts: "ds_name ds \<noteq> []" "ds_system_type ds \<noteq> []" "db_name db \<noteq> []" using texts_present(7) [OF db(1)] texts_present(8) [OF ds(1)] by simp_all
  have run3: "catch_value_error ''/governance'' (mk_governance_model [ds] (gm_relationships ?m)) = Inr ?m" using m(3) by (simp add: catch_value_error_def)
  show ?thesis
    using env texts m(1,2) run1 run2 run3
    by (cases sn) (simp add: parse_snapshot_payload_def snapshot_items_def model_to_dict_def get_item_Cons sole_item_def SCANNER_CONTRACT_VERSION_def)
qed

lemma load_saved:
  assumes "coherent_snapshot sn" "canonical_snapshot sn" "err (snapshot_to_dict sha sn) = None"
  shows "load_snapshot_payload sha err (snapshot_to_dict sha sn) = Inr sn"
proof -
  have rest: "filter (\<lambda>(k, _). k \<noteq> ''content_identity'') (snapshot_items sn) = snapshot_items sn"
    by (simp add: snapshot_items_def)
  have head: "get_item (snapshot_items sn @ [(''content_identity'', v)]) ''snapshot_schema'' = JStr SNAPSHOT_SCHEMA"
    "get_item (snapshot_items sn @ [(''content_identity'', v)]) ''snapshot_version'' = JStr SNAPSHOT_VERSION"
    "get_item (snapshot_items sn @ [(''content_identity'', v)]) ''content_identity'' = v" for v
    by (simp_all add: snapshot_items_def get_item_Cons)
  show ?thesis
    using assms(3) parse_roundtrip [OF assms(1,2)]
    by (simp add: load_snapshot_payload_def snapshot_to_dict_def rest head snapshot_content_identity_def content_identity_dict_def
        get_item_Cons sha256_identity_def Let_def)
qed

section \<open>Properties\<close>

definition small_snapshot :: GovernanceSnapshot where
  "small_snapshot =
     (let column = \<lparr>c_id = ''c1'', c_name = ''id'', c_data_type = ''int'', c_ordinal_position = 1, c_nullable = False,
            c_description = JNull, c_technical_attributes = [(''size'', JInt 4)]\<rparr>;
          key = \<lparr>fk_id = ''f1'', fk_name = ''self'', fk_table_id = ''t1'', fk_column_ids = [''c1''],
            fk_referenced_table_id = ''t1'', fk_referenced_column_ids = [''c1'']\<rparr>;
          table = \<lparr>t_id = ''t1'', t_name = ''orders'', t_schema_id = ''s1'', t_columns = [column],
            t_primary_key = Some \<lparr>pk_id = ''p1'', pk_name = ''pk'', pk_table_id = ''t1'', pk_column_ids = [''c1'']\<rparr>,
            t_foreign_keys = [key], t_description = JStr ''Orders'', t_ownership = Some \<lparr>ow_owner_name = ''sales'', ow_owner_type = ''role''\<rparr>,
            t_technical_attributes = []\<rparr>;
          schema = \<lparr>sc_id = ''s1'', sc_name = ''public'', sc_database_id = ''d1'', sc_tables = [table], sc_description = JNull,
            sc_ownership = None\<rparr>;
          db = \<lparr>db_id = ''d1'', db_name = ''shop'', db_datasource_id = ''x1'', db_schemas = [schema], db_description = JNull,
            db_ownership = None\<rparr>;
          source = \<lparr>ds_id = ''x1'', ds_name = ''main'', ds_system_type = ''postgresql'', ds_databases = [db], ds_description = JNull,
            ds_ownership = None, ds_technical_attributes = []\<rparr>;
          rel = \<lparr>rl_id = ''r1'', rl_name = ''self'', rl_from_table_id = ''t1'', rl_to_table_id = ''t1'',
            rl_foreign_key_id = Some ''f1'', rl_description = JNull\<rparr> in
      \<lparr>sn_model = \<lparr>gm_data_sources = [source], gm_relationships = [rel]\<rparr>, sn_source_name = ''main'', sn_database_name = ''shop'',
       sn_system_type = ''postgresql'', sn_scanner = ''postgresql'', sn_scanner_contract_version = ''1''\<rparr>)"

lemma small_snapshot_coherent: "coherent_snapshot small_snapshot"
proof -
  let ?ds = "hd (gm_data_sources (sn_model small_snapshot))"
  let ?db = "hd (ds_databases ?ds)"
  have "gm_data_sources (sn_model small_snapshot) = [?ds]" "ds_databases ?ds = [?db]"
    "mk_governance_model [?ds] (gm_relationships (sn_model small_snapshot)) = Inr (sn_model small_snapshot)"
    "mk_data_source ?ds = Inr ?ds" "coherent_ownership (ds_ownership ?ds)" "mk_database ?db = Inr ?db"
    "coherent_ownership (db_ownership ?db)" "db_datasource_id ?db = ds_id ?ds"
    "list_all (coherent_schema (database_tables ?db) ?db) (db_schemas ?db)"
    "list_all (coherent_relationship (database_tables ?db)) (gm_relationships (sn_model small_snapshot))"
    "distinct (all_ids ?ds ?db (gm_relationships (sn_model small_snapshot)))"
    "sn_source_name small_snapshot = ds_name ?ds" "sn_database_name small_snapshot = db_name ?db"
    "sn_system_type small_snapshot = ds_system_type ?ds"
    "sn_scanner small_snapshot \<noteq> []" "sn_scanner_contract_version small_snapshot = SCANNER_CONTRACT_VERSION" by code_simp+
  then show ?thesis unfolding coherent_snapshot_def by blast
qed

lemma small_snapshot_canonical: "canonical_snapshot small_snapshot"
  by code_simp

lemma load_Inr:
  assumes "load_snapshot_payload sha err payload = Inr sn"
  shows "\<exists>kvs identity. payload = JObject kvs \<and> err payload = None \<and> get_item kvs ''content_identity'' = JObject identity \<and>
    get_item identity ''digest'' = JStr (sha (identity_preimage SnapshotId (JObject (filter (\<lambda>(k, _). k \<noteq> ''content_identity'') kvs)))) \<and>
    parse_snapshot_payload kvs = Inr sn"
  using assms by (auto simp: load_snapshot_payload_def sha256_identity_def Let_def split: json.splits if_splits option.splits)

text \<open>C33 (invariant). Whatever \<open>load_snapshot_artifact\<close> accepts carries the digest of the rest of its payload, passed the schema, and
  the snapshot read from it is coherent: one data source with one database, every object is one its constructor
  accepts, contained objects name their container, keys name columns of the right tables, relationships
  follow the foreign key they cite, the envelope repeats the model, and all identifiers are distinct.\<close>

theorem loaded_snapshot_coherent:
  assumes "load_snapshot_payload sha err payload = Inr sn"
  shows "coherent_snapshot sn \<and> err payload = None \<and> (\<exists>kvs identity. payload = JObject kvs \<and>
    get_item kvs ''content_identity'' = JObject identity \<and>
    get_item identity ''digest'' = JStr (sha (identity_preimage SnapshotId (JObject (filter (\<lambda>(k, _). k \<noteq> ''content_identity'') kvs)))))"
  using load_Inr [OF assms] parse_sound by blast

lemma loaded_snapshot_coherent_witness:
  "\<exists>sn. load_snapshot_payload (\<lambda>s. s) (\<lambda>_. None) (snapshot_to_dict (\<lambda>s. s) small_snapshot) = Inr sn \<and> coherent_snapshot sn"
proof -
  have "load_snapshot_payload (\<lambda>s. s) (\<lambda>_. None) (snapshot_to_dict (\<lambda>s. s) small_snapshot) = Inr small_snapshot"
    by (rule load_saved [OF small_snapshot_coherent small_snapshot_canonical]) simp
  with loaded_snapshot_coherent [OF this] show ?thesis by blast
qed

text \<open>C34 (roundtrip). Saving is undone by loading: a coherent snapshot whose values are normalized, written with \<open>to_dict\<close>
  and accepted by the JSON schema, is read back as the same snapshot, whatever the hash function is.\<close>

theorem saved_snapshot_roundtrip:
  assumes "coherent_snapshot sn" "canonical_snapshot sn" "err (snapshot_to_dict sha sn) = None"
  shows "load_snapshot_payload sha err (snapshot_to_dict sha sn) = Inr sn"
  using assms by (rule load_saved)

lemma saved_snapshot_roundtrip_witness:
  "coherent_snapshot small_snapshot \<and> canonical_snapshot small_snapshot \<and>
   load_snapshot_payload (\<lambda>s. ''d'') (\<lambda>_. None) (snapshot_to_dict (\<lambda>s. ''d'') small_snapshot) = Inr small_snapshot"
  using small_snapshot_coherent small_snapshot_canonical
    saved_snapshot_roundtrip [of small_snapshot "\<lambda>_. None" "\<lambda>_. ''d''"] by simp

end
