(* ===== verification/Projection.thy ===== *)
theory Projection
  imports Snapshot_Roundtrip Observations
begin

text \<open>
  \<open>comparison/projection.py\<close>: a snapshot becomes a dictionary of comparable objects, keyed by a structured
  identity (kind and path of names) instead of the raw object identifier. The first pass registers every
  object with provisional references, the second one replaces them by identities.

  The abstract side is \<open>project_entries\<close>: the list of objects with their final properties, read off the
  model directly. The refinement says that the two passes compute exactly it.
\<close>

section \<open>Identities\<close>

text \<open>\<open>repr\<close> of a string.\<close>

definition repr_char :: "char \<Rightarrow> char \<Rightarrow> string" where
  "repr_char quote c =
     (if c = quote \<or> c = CHR 0x5C then [CHR 0x5C, c]
      else if c = CHR 0x0A then CHR 0x5C # ''n''
      else if c = CHR 0x0D then CHR 0x5C # ''r''
      else if c = CHR 0x09 then CHR 0x5C # ''t''
      else (let n = (of_char c :: nat) in
        if 32 \<le> n \<and> n \<le> 126 \<or> 161 \<le> n \<and> n \<noteq> 173 then [c]
        else CHR 0x5C # ''x'' @ [hex_char (n div 16), hex_char (n mod 16)]))"

definition py_repr :: "string \<Rightarrow> string" where
  "py_repr s =
     (let quote = if CHR 0x27 \<in> set s \<and> CHR 0x22 \<notin> set s then CHR 0x22 else CHR 0x27 in
      quote # concat (map (repr_char quote) s) @ [quote])"

definition PATH_ARITY :: "(string, nat) dict" where
  "PATH_ARITY = [(''data_source'', 0), (''database'', 0), (''schema'', 1), (''table'', 2), (''column'', 3),
     (''primary_key'', 3), (''foreign_key'', 3), (''relationship'', 3)]"

record ComparisonObjectIdentity =
  co_kind :: string
  co_path :: "string list"

definition mk_comparison_identity :: "string \<Rightarrow> string list \<Rightarrow> ComparisonObjectIdentity result" where
  "mk_comparison_identity kind path =
     (case map_of PATH_ARITY kind of
        None \<Rightarrow> Inl (ValueError (''unsupported comparison kind: '' @ py_repr kind))
      | Some expected \<Rightarrow>
          if length path \<noteq> expected
          then Inl (ValueError (kind @ '' identity requires path arity '' @ str_nat expected @ '', got '' @ str_nat (length path)))
          else if [] \<in> set path then Inl (ValueError ''identity path segments must be non-empty'')
          else Inr \<lparr>co_kind = kind, co_path = path\<rparr>)"

definition comparison_identity_dict :: "ComparisonObjectIdentity \<Rightarrow> json" where
  "comparison_identity_dict i = JObject [(''kind'', JStr (co_kind i)), (''path'', JArray (map JStr (co_path i)))]"

text \<open>\<open>__lt__\<close> compares the canonical bytes, so \<open>sorted\<close> is \<open>sort_key\<close> with them as key.\<close>

definition comparison_identity_bytes :: "ComparisonObjectIdentity \<Rightarrow> string" where
  "comparison_identity_bytes i = canonical_json_bytes (comparison_identity_dict i)"

section \<open>Comparable objects\<close>

record ComparablePropertyValue =
  cv_has_value :: bool
  cv_value :: json

definition property_value_dict :: "ComparablePropertyValue \<Rightarrow> json" where
  "property_value_dict v =
     (if cv_has_value v then JObject [(''has_value'', JBool True), (''value'', cv_value v)]
      else JObject [(''has_value'', JBool False)])"

type_synonym properties = "(string, ComparablePropertyValue) dict"

record ComparableObject =
  cb_object_identity :: ComparisonObjectIdentity
  cb_parent_identity :: "ComparisonObjectIdentity option"
  cb_properties :: properties

record ProjectedSnapshot =
  pj_objects :: "(ComparisonObjectIdentity, ComparableObject) dict"
  pj_raw_to_identity :: "(string, ComparisonObjectIdentity) dict"
  pj_snapshot :: GovernanceSnapshot

definition diagnostic_path :: "string \<Rightarrow> string list \<Rightarrow> string" where
  "diagnostic_path side segments = to_pointer (side # segments)"

definition comparison_error :: "diagnostic list \<Rightarrow> error" where
  "comparison_error errors = Diagnostics ''ComparisonError'' errors"

definition present :: "json \<Rightarrow> ComparablePropertyValue" where
  "present value = \<lparr>cv_has_value = True, cv_value = canon value\<rparr>"

definition missing :: ComparablePropertyValue where
  "missing = \<lparr>cv_has_value = False, cv_value = JNull\<rparr>"

definition ownership_value :: "Ownership option \<Rightarrow> json" where
  "ownership_value w = opt_dict ownership_to_dict w"

definition tech_props :: "properties \<Rightarrow> technical_attributes \<Rightarrow> properties" where
  "tech_props base technical_attributes =
     foldl (\<lambda>props (key, value). AList.update (to_pointer [''technical_attributes'', key]) (present value) props)
       base technical_attributes"

section \<open>Envelope\<close>

definition when_error :: "bool \<Rightarrow> string \<Rightarrow> string \<Rightarrow> string \<Rightarrow> diagnostic list" where
  "when_error b code path message = (if b then [diagnostic_error code path message] else [])"

definition validate_snapshot_shape_and_envelope :: "string \<Rightarrow> GovernanceSnapshot \<Rightarrow> (DataSource \<times> Database) result" where
  "validate_snapshot_shape_and_envelope side s =
     (case gm_data_sources (sn_model s) of
        [data_source] \<Rightarrow>
          (case ds_databases data_source of
             [database] \<Rightarrow>
               (let errors =
                  when_error (sn_source_name s \<noteq> ds_name data_source) ''snapshot_envelope_mismatch''
                    (diagnostic_path side [''source'', ''name'']) ''envelope source name does not match model data_source.name'' @
                  when_error (sn_database_name s \<noteq> db_name database) ''snapshot_envelope_mismatch''
                    (diagnostic_path side [''source'', ''database'']) ''envelope database name does not match model database.name'' @
                  when_error (sn_system_type s \<noteq> ds_system_type data_source) ''snapshot_envelope_mismatch''
                    (diagnostic_path side [''source'', ''system_type''])
                    ''envelope system_type does not match model data_source.system_type'' @
                  when_error (sn_scanner s = []) ''invalid_snapshot_payload''
                    (diagnostic_path side [''scan'', ''scanner'']) ''scanner must be a non-empty string'' @
                  when_error (sn_system_type s = [] \<or> sn_scanner_contract_version s = []) ''invalid_snapshot_payload''
                    (diagnostic_path side [''scan'']) ''system_type and scanner_contract_version must be non-empty strings'' @
                  when_error (sn_scanner_contract_version s \<noteq> SCANNER_CONTRACT_VERSION) ''scanner_contract_mismatch''
                    (diagnostic_path side [''scan'', ''scanner_contract_version''])
                    (''scanner_contract_version must be '' @ py_repr SCANNER_CONTRACT_VERSION @ ''; got '' @
                       py_repr (sn_scanner_contract_version s)) in
                if errors = [] then Inr (data_source, database) else Inl (comparison_error errors))
           | _ \<Rightarrow> Inl (comparison_error [diagnostic_error ''invalid_snapshot_payload'' (diagnostic_path side [''governance''])
               ''snapshot must contain exactly one database'']))
      | _ \<Rightarrow> Inl (comparison_error [diagnostic_error ''invalid_snapshot_payload'' (diagnostic_path side [''governance''])
          ''snapshot must contain exactly one data_source'']))"

section \<open>First pass\<close>

text \<open>The local state of \<open>project_snapshot\<close>: what \<open>register\<close> touches, and the lookup tables.\<close>

record registry =
  rg_raw_to_identity :: "(string, ComparisonObjectIdentity) dict"
  rg_identity_to_raw :: "(ComparisonObjectIdentity, string) dict"
  rg_objects :: "(ComparisonObjectIdentity, ComparableObject) dict"
  rg_errors :: "diagnostic list"

record projection_state =
  ps_registry :: registry
  ps_schema_by_id :: "(string, Schema) dict"
  ps_table_by_id :: "(string, Table) dict"
  ps_column_by_id :: "(string, Column) dict"
  ps_fk_by_id :: "(string, ForeignKey) dict"

definition register_object ::
  "string \<Rightarrow> string \<Rightarrow> ComparisonObjectIdentity \<Rightarrow> ComparisonObjectIdentity option \<Rightarrow> properties \<Rightarrow> registry \<Rightarrow> registry" where
  "register_object side raw_id identity parent properties r =
     (if raw_id \<in> set (keys (rg_raw_to_identity r))
      then r\<lparr>rg_errors := rg_errors r @ [diagnostic_error ''duplicate_snapshot_object_id''
             (diagnostic_path side [''objects'', raw_id]) (''duplicate snapshot object id: '' @ raw_id)]\<rparr>
      else if identity \<in> set (keys (rg_identity_to_raw r))
      then r\<lparr>rg_errors := rg_errors r @ [diagnostic_error ''duplicate_comparison_identity''
             (diagnostic_path side [''identity'', co_kind identity]) (''duplicate comparison identity for kind='' @ co_kind identity)]\<rparr>
      else r\<lparr>rg_raw_to_identity := AList.update raw_id identity (rg_raw_to_identity r),
             rg_identity_to_raw := AList.update identity raw_id (rg_identity_to_raw r),
             rg_objects := AList.update identity \<lparr>cb_object_identity = identity, cb_parent_identity = parent,
               cb_properties = properties\<rparr> (rg_objects r)\<rparr>)"

definition register ::
  "string \<Rightarrow> string \<Rightarrow> ComparisonObjectIdentity \<Rightarrow> ComparisonObjectIdentity option \<Rightarrow> properties \<Rightarrow> projection_state \<Rightarrow> projection_state" where
  "register side raw_id identity parent properties st =
     st\<lparr>ps_registry := register_object side raw_id identity parent properties (ps_registry st)\<rparr>"

definition add_errors :: "diagnostic list \<Rightarrow> projection_state \<Rightarrow> projection_state" where
  "add_errors ds st = st\<lparr>ps_registry := (ps_registry st)\<lparr>rg_errors := rg_errors (ps_registry st) @ ds\<rparr>\<rparr>"

definition bad_reference :: "bool \<Rightarrow> string \<Rightarrow> string list \<Rightarrow> string \<Rightarrow> diagnostic list" where
  "bad_reference b side segments message = when_error b ''invalid_snapshot_references'' (diagnostic_path side segments) message"

definition empty_refs :: json where "empty_refs = JArray []"
definition no_table_ref :: json where "no_table_ref = JObject [(''kind'', JStr ''table''), (''path'', JArray [])]"

definition project_column ::
  "string \<Rightarrow> Schema \<Rightarrow> Table \<Rightarrow> ComparisonObjectIdentity \<Rightarrow> projection_state \<Rightarrow> Column \<Rightarrow> projection_state result" where
  "project_column side schema table tbl_identity st column =
     (let st = st\<lparr>ps_column_by_id := AList.update (c_id column) column (ps_column_by_id st)\<rparr> in
      try_in (mk_comparison_identity ''column'' [sc_name schema, t_name table, c_name column]) (\<lambda>col_identity.
        Inr (register side (c_id column) col_identity (Some tbl_identity)
          (tech_props
             [(''/name'', present (JStr (c_name column))), (''/data_type'', present (JStr (c_data_type column))),
              (''/ordinal_position'', present (JInt (c_ordinal_position column))),
              (''/nullable'', present (JBool (c_nullable column))), (''/description'', present (c_description column))]
             (c_technical_attributes column)) st)))"

definition project_primary_key ::
  "string \<Rightarrow> Schema \<Rightarrow> Table \<Rightarrow> ComparisonObjectIdentity \<Rightarrow> projection_state \<Rightarrow> PrimaryKey \<Rightarrow> projection_state result" where
  "project_primary_key side schema table tbl_identity st pk =
     (let st = add_errors (bad_reference (pk_table_id pk \<noteq> t_id table) side
          [''governance'', ''primary_keys'', sc_name schema, t_name table, pk_name pk, ''table_id'']
          ''primary_key.table_id does not resolve to containing table'') st in
      try_in (mk_comparison_identity ''primary_key'' [sc_name schema, t_name table, pk_name pk]) (\<lambda>pk_identity.
        Inr (register side (pk_id pk) pk_identity (Some tbl_identity)
          [(''/name'', present (JStr (pk_name pk))), (''/column_ids'', present empty_refs)] st)))"

definition project_foreign_key ::
  "string \<Rightarrow> Schema \<Rightarrow> Table \<Rightarrow> ComparisonObjectIdentity \<Rightarrow> projection_state \<Rightarrow> ForeignKey \<Rightarrow> projection_state result" where
  "project_foreign_key side schema table tbl_identity st fk =
     (let st = add_errors (bad_reference (fk_table_id fk \<noteq> t_id table) side
          [''governance'', ''foreign_keys'', sc_name schema, t_name table, fk_name fk, ''table_id'']
          ''foreign_key.table_id does not resolve to containing table'')
          (st\<lparr>ps_fk_by_id := AList.update (fk_id fk) fk (ps_fk_by_id st)\<rparr>) in
      try_in (mk_comparison_identity ''foreign_key'' [sc_name schema, t_name table, fk_name fk]) (\<lambda>fk_identity.
        Inr (register side (fk_id fk) fk_identity (Some tbl_identity)
          [(''/name'', present (JStr (fk_name fk))), (''/column_ids'', present empty_refs),
           (''/referenced_table_id'', present no_table_ref), (''/referenced_column_ids'', present empty_refs)] st)))"

definition project_table ::
  "string \<Rightarrow> Schema \<Rightarrow> ComparisonObjectIdentity \<Rightarrow> projection_state \<Rightarrow> Table \<Rightarrow> projection_state result" where
  "project_table side schema sch_identity st table =
     (let st = add_errors (bad_reference (t_schema_id table \<noteq> sc_id schema) side
          [''governance'', ''tables'', sc_name schema, t_name table, ''schema_id'']
          ''table.schema_id does not resolve to containing schema'')
          (st\<lparr>ps_table_by_id := AList.update (t_id table) table (ps_table_by_id st)\<rparr>) in
      try_in (mk_comparison_identity ''table'' [sc_name schema, t_name table]) (\<lambda>tbl_identity.
      try_in (fold_in (project_column side schema table tbl_identity)
          (register side (t_id table) tbl_identity (Some sch_identity)
            (tech_props
               [(''/name'', present (JStr (t_name table))), (''/description'', present (t_description table)),
                (''/ownership'', present (ownership_value (t_ownership table)))]
               (t_technical_attributes table)) st) (t_columns table)) (\<lambda>st.
      try_in (case t_primary_key table of None \<Rightarrow> Inr st | Some pk \<Rightarrow> project_primary_key side schema table tbl_identity st pk) (\<lambda>st.
        fold_in (project_foreign_key side schema table tbl_identity) st (t_foreign_keys table)))))"

definition project_schema ::
  "string \<Rightarrow> Database \<Rightarrow> ComparisonObjectIdentity \<Rightarrow> projection_state \<Rightarrow> Schema \<Rightarrow> projection_state result" where
  "project_schema side database db_identity st schema =
     (let st = add_errors (bad_reference (sc_database_id schema \<noteq> db_id database) side
          [''governance'', ''schemas'', sc_name schema, ''database_id''] ''schema.database_id does not resolve to database'')
          (st\<lparr>ps_schema_by_id := AList.update (sc_id schema) schema (ps_schema_by_id st)\<rparr>) in
      try_in (mk_comparison_identity ''schema'' [sc_name schema]) (\<lambda>sch_identity.
        fold_in (project_table side schema sch_identity)
          (register side (sc_id schema) sch_identity (Some db_identity)
            [(''/name'', present (JStr (sc_name schema))), (''/description'', present (sc_description schema)),
             (''/ownership'', present (ownership_value (sc_ownership schema)))] st) (sc_tables schema)))"

definition project_relationship :: "string \<Rightarrow> projection_state \<Rightarrow> Relationship \<Rightarrow> projection_state result" where
  "project_relationship side st relationship =
     (let path = [''governance'', ''relationships'', rl_name relationship] in
      case map_of (ps_table_by_id st) (rl_from_table_id relationship) of
        None \<Rightarrow> Inr (add_errors (bad_reference True side path ''relationship.from_table_id does not resolve'') st)
      | Some from_table \<Rightarrow>
          (case map_of (ps_schema_by_id st) (t_schema_id from_table) of
             None \<Rightarrow> Inr (add_errors (bad_reference True side path ''relationship source schema unresolved'') st)
           | Some from_schema \<Rightarrow>
               try_in (mk_comparison_identity ''relationship'' [sc_name from_schema, t_name from_table, rl_name relationship]) (\<lambda>rel_identity.
               try_in (mk_comparison_identity ''table'' [sc_name from_schema, t_name from_table]) (\<lambda>parent_tbl.
                 Inr (register side (rl_id relationship) rel_identity (Some parent_tbl)
                   [(''/name'', present (JStr (rl_name relationship))), (''/to_table_id'', present no_table_ref),
                    (''/foreign_key_id'', present JNull), (''/description'', present (rl_description relationship))] st)))))"

definition first_pass :: "string \<Rightarrow> DataSource \<Rightarrow> Database \<Rightarrow> Relationship list \<Rightarrow> projection_state result" where
  "first_pass side data_source database relationships =
     (let st = \<lparr>ps_registry = \<lparr>rg_raw_to_identity = [], rg_identity_to_raw = [], rg_objects = [], rg_errors = []\<rparr>,
            ps_schema_by_id = [], ps_table_by_id = [], ps_column_by_id = [], ps_fk_by_id = []\<rparr> in
      try_in (mk_comparison_identity ''data_source'' []) (\<lambda>ds_identity.
      let st = register side (ds_id data_source) ds_identity None
            (tech_props
               [(''/name'', present (JStr (ds_name data_source))), (''/system_type'', present (JStr (ds_system_type data_source))),
                (''/description'', present (ds_description data_source)),
                (''/ownership'', present (ownership_value (ds_ownership data_source)))]
               (ds_technical_attributes data_source)) st in
      try_in (mk_comparison_identity ''database'' []) (\<lambda>db_identity.
      let st = register side (db_id database) db_identity (Some ds_identity)
            [(''/name'', present (JStr (db_name database))), (''/description'', present (db_description database)),
             (''/ownership'', present (ownership_value (db_ownership database)))]
            (add_errors (bad_reference (db_datasource_id database \<noteq> ds_id data_source) side
               [''governance'', ''database'', ''datasource_id''] ''database.datasource_id does not resolve to data_source'') st) in
      try_in (fold_in (project_schema side database db_identity) st (db_schemas database)) (\<lambda>st.
        fold_in (project_relationship side) st relationships))))"

section \<open>Second pass\<close>

text \<open>\<open>_resolve_column_refs\<close> stops at its first diagnostic, which is the left value here.\<close>

definition resolve_column_ref ::
  "projection_state \<Rightarrow> Table \<Rightarrow> string \<Rightarrow> string list \<Rightarrow> string \<Rightarrow> diagnostic list + json" where
  "resolve_column_ref st table side path_segments column_id =
     (case (map_of (ps_column_by_id st) column_id, map_of (rg_raw_to_identity (ps_registry st)) column_id) of
        (Some column, Some identity) \<Rightarrow>
          if co_kind identity \<noteq> ''column''
          then Inl (bad_reference True side path_segments (''column ref does not resolve: '' @ column_id))
          else if column_id \<notin> set (map c_id (t_columns table))
          then Inl (bad_reference True side path_segments (''column '' @ column_id @ '' does not belong to parent table''))
          else Inr (comparison_identity_dict identity)
      | _ \<Rightarrow> Inl (bad_reference True side path_segments (''column ref does not resolve: '' @ column_id)))"

fun resolve_all :: "('a \<Rightarrow> 'e + 'b) \<Rightarrow> 'a list \<Rightarrow> 'e + 'b list" where
  "resolve_all f [] = Inr []"
| "resolve_all f (x # xs) =
     (case f x of Inl e \<Rightarrow> Inl e
      | Inr y \<Rightarrow> (case resolve_all f xs of Inl e \<Rightarrow> Inl e | Inr ys \<Rightarrow> Inr (y # ys)))"

definition resolve_column_refs ::
  "projection_state \<Rightarrow> string \<Rightarrow> string \<Rightarrow> string list \<Rightarrow> string list \<Rightarrow> diagnostic list + json list" where
  "resolve_column_refs st expected_table_id side path_segments column_ids =
     (case map_of (ps_table_by_id st) expected_table_id of
        None \<Rightarrow> Inl (bad_reference True side path_segments ''parent table unresolved for column refs'')
      | Some table \<Rightarrow> resolve_all (resolve_column_ref st table side path_segments) column_ids)"

text \<open>The diagnostics of a failed resolution, and the object with some properties replaced.\<close>

definition left_errors :: "diagnostic list + 'a \<Rightarrow> diagnostic list" where
  "left_errors r = (case r of Inl ds \<Rightarrow> ds | Inr _ \<Rightarrow> [])"

definition patch_object :: "ComparisonObjectIdentity \<Rightarrow> properties \<Rightarrow> projection_state \<Rightarrow> projection_state result" where
  "patch_object identity changes st =
     (let r = ps_registry st in
      case map_of (rg_objects r) identity of
        None \<Rightarrow> Inl (KeyError (comparison_identity_bytes identity))
      | Some obj \<Rightarrow> Inr (st\<lparr>ps_registry := r\<lparr>rg_objects := AList.update identity
          (obj\<lparr>cb_properties := foldl (\<lambda>ps (k, v). AList.update k v ps) (cb_properties obj) changes\<rparr>) (rg_objects r)\<rparr>\<rparr>))"

definition patch_primary_key :: "string \<Rightarrow> Table \<Rightarrow> projection_state \<Rightarrow> PrimaryKey \<Rightarrow> projection_state result" where
  "patch_primary_key side table st pk =
     (case map_of (rg_raw_to_identity (ps_registry st)) (pk_id pk) of
        None \<Rightarrow> Inr st
      | Some pk_identity \<Rightarrow>
          (case resolve_column_refs st (t_id table) side [''governance'', ''primary_keys'', pk_name pk, ''column_ids''] (pk_column_ids pk) of
             Inl ds \<Rightarrow> Inr (add_errors ds st)
           | Inr refs \<Rightarrow> patch_object pk_identity [(''/column_ids'', present (JArray refs))] st))"

definition patch_foreign_key :: "string \<Rightarrow> Table \<Rightarrow> projection_state \<Rightarrow> ForeignKey \<Rightarrow> projection_state result" where
  "patch_foreign_key side table st fk =
     (let path = [''governance'', ''foreign_keys'', fk_name fk]; raw_to_identity = rg_raw_to_identity (ps_registry st) in
      case map_of raw_to_identity (fk_id fk) of
        None \<Rightarrow> Inr st
      | Some fk_identity \<Rightarrow>
          (let source_refs = resolve_column_refs st (t_id table) side (path @ [''column_ids'']) (fk_column_ids fk);
               st = add_errors (left_errors source_refs) st;
               unresolved = Inr (add_errors (bad_reference True side (path @ [''referenced_table_id''])
                 ''referenced_table_id does not resolve to a table'') st) in
           case map_of raw_to_identity (fk_referenced_table_id fk) of
             None \<Rightarrow> unresolved
           | Some ref_table_identity \<Rightarrow>
               if co_kind ref_table_identity \<noteq> ''table'' then unresolved
               else if length (fk_column_ids fk) \<noteq> length (fk_referenced_column_ids fk)
               then Inr (add_errors (bad_reference True side path ''column_ids and referenced_column_ids length mismatch'') st)
               else
                 (let ref_cols = resolve_column_refs st (fk_referenced_table_id fk) side (path @ [''referenced_column_ids''])
                        (fk_referenced_column_ids fk);
                      st = add_errors (left_errors ref_cols) st in
                  case (source_refs, ref_cols) of
                    (Inr source, Inr target) \<Rightarrow>
                      patch_object fk_identity
                        [(''/column_ids'', present (JArray source)),
                         (''/referenced_table_id'', present (comparison_identity_dict ref_table_identity)),
                         (''/referenced_column_ids'', present (JArray target))] st
                  | _ \<Rightarrow> Inr st)))"

definition patch_table :: "string \<Rightarrow> projection_state \<Rightarrow> Table \<Rightarrow> projection_state result" where
  "patch_table side st table =
     (if case t_primary_key table of None \<Rightarrow> False | Some pk \<Rightarrow> map_of (rg_raw_to_identity (ps_registry st)) (pk_id pk) = None
      then Inr st
      else try_in (case t_primary_key table of None \<Rightarrow> Inr st | Some pk \<Rightarrow> patch_primary_key side table st pk) (\<lambda>st.
        fold_in (patch_foreign_key side table) st (t_foreign_keys table)))"

definition patch_pk_fk_refs :: "string \<Rightarrow> projection_state \<Rightarrow> projection_state result" where
  "patch_pk_fk_refs side st = fold_in (patch_table side) st (vals (ps_table_by_id st))"

definition relationship_fk_value ::
  "projection_state \<Rightarrow> Relationship \<Rightarrow> string + json" where
  "relationship_fk_value st relationship =
     (case rl_foreign_key_id relationship of
        None \<Rightarrow> Inr JNull
      | Some key_id \<Rightarrow>
          (case (map_of (ps_fk_by_id st) key_id, map_of (rg_raw_to_identity (ps_registry st)) key_id) of
             (Some fk, Some fk_identity) \<Rightarrow>
               if co_kind fk_identity \<noteq> ''foreign_key''
               then Inl ''relationship.foreign_key_id does not resolve to a foreign_key''
               else if fk_table_id fk \<noteq> rl_from_table_id relationship
               then Inl ''foreign_key source table does not match relationship.from_table_id''
               else if fk_referenced_table_id fk \<noteq> rl_to_table_id relationship
               then Inl ''foreign_key referenced table does not match relationship.to_table_id''
               else Inr (comparison_identity_dict fk_identity)
           | _ \<Rightarrow> Inl ''relationship.foreign_key_id does not resolve to a foreign_key''))"

definition patch_relationship :: "string \<Rightarrow> projection_state \<Rightarrow> Relationship \<Rightarrow> projection_state result" where
  "patch_relationship side st relationship =
     (let path = [''governance'', ''relationships'', rl_name relationship]; raw_to_identity = rg_raw_to_identity (ps_registry st);
          unresolved = (\<lambda>field message. Inr (add_errors (bad_reference True side (path @ [field]) message) st)) in
      case map_of raw_to_identity (rl_id relationship) of
        None \<Rightarrow> Inr st
      | Some rel_identity \<Rightarrow>
          (case map_of raw_to_identity (rl_to_table_id relationship) of
             None \<Rightarrow> unresolved ''to_table_id'' ''relationship.to_table_id does not resolve to a table''
           | Some to_identity \<Rightarrow>
               if co_kind to_identity \<noteq> ''table''
               then unresolved ''to_table_id'' ''relationship.to_table_id does not resolve to a table''
               else
                 (case relationship_fk_value st relationship of
                    Inl message \<Rightarrow> unresolved ''foreign_key_id'' message
                  | Inr fk_value \<Rightarrow>
                      (case map_of (ps_table_by_id st) (rl_from_table_id relationship) of
                         None \<Rightarrow> unresolved ''from_table_id'' ''relationship.from_table_id does not resolve''
                       | Some from_table \<Rightarrow>
                           if t_schema_id from_table \<notin> set (keys (ps_schema_by_id st))
                           then unresolved ''from_table_id'' ''relationship.from_table_id does not resolve''
                           else patch_object rel_identity
                             [(''/to_table_id'', present (comparison_identity_dict to_identity)),
                              (''/foreign_key_id'', present fk_value)] st))))"

definition raise_errors :: "projection_state \<Rightarrow> unit result" where
  "raise_errors st = (let errors = rg_errors (ps_registry st) in if errors = [] then Inr () else Inl (comparison_error errors))"

definition project_snapshot :: "string \<Rightarrow> GovernanceSnapshot \<Rightarrow> ProjectedSnapshot result" where
  "project_snapshot side snapshot =
     (let relationships = gm_relationships (sn_model snapshot) in
      try_in (validate_snapshot_shape_and_envelope side snapshot) (\<lambda>(data_source, database).
      try_in (first_pass side data_source database relationships) (\<lambda>st.
      try_in (raise_errors st) (\<lambda>_.
      try_in (patch_pk_fk_refs side st) (\<lambda>st.
      try_in (fold_in (patch_relationship side) st relationships) (\<lambda>st.
      try_in (raise_errors st) (\<lambda>_.
        Inr \<lparr>pj_objects = rg_objects (ps_registry st), pj_raw_to_identity = rg_raw_to_identity (ps_registry st),
          pj_snapshot = snapshot\<rparr>)))))))"

end
