(* ===== verification/Projection_Spec.thy ===== *)
theory Projection_Spec
  imports Projection
begin

text \<open>
  The abstract projection and the proof that the two passes of \<open>comparison/projection.py\<close> compute it on
  coherent snapshots. An entry is one object: its raw identifier, its structured identity, its parent, the
  properties it is registered with and the references it holds, still as raw identifiers.
\<close>

section \<open>The abstract projection\<close>

datatype reference = Nothing | One string | Many "string list"

record entry =
  en_raw :: string
  en_identity :: ComparisonObjectIdentity
  en_parent :: "ComparisonObjectIdentity option"
  en_first :: properties
  en_refs :: "(string \<times> reference) list"

type_synonym index = "(string, ComparisonObjectIdentity) dict"

definition ref_of :: "index \<Rightarrow> string \<Rightarrow> json" where
  "ref_of d i = (case map_of d i of None \<Rightarrow> JNull | Some j \<Rightarrow> comparison_identity_dict j)"

fun resolve_ref :: "index \<Rightarrow> reference \<Rightarrow> json" where
  "resolve_ref d Nothing = JNull"
| "resolve_ref d (One i) = ref_of d i"
| "resolve_ref d (Many ids) = JArray (map (ref_of d) ids)"

definition with_properties :: "properties \<Rightarrow> properties \<Rightarrow> properties" where
  "with_properties base changes = foldl (\<lambda>ps (k, v). AList.update k v ps) base changes"

definition first_object :: "entry \<Rightarrow> ComparableObject" where
  "first_object e = \<lparr>cb_object_identity = en_identity e, cb_parent_identity = en_parent e, cb_properties = en_first e\<rparr>"

definition ref_changes :: "index \<Rightarrow> entry \<Rightarrow> properties" where
  "ref_changes d e = map (\<lambda>(p, r). (p, present (resolve_ref d r))) (en_refs e)"

definition final_object :: "index \<Rightarrow> entry \<Rightarrow> ComparableObject" where
  "final_object d e = \<lparr>cb_object_identity = en_identity e, cb_parent_identity = en_parent e,
     cb_properties = with_properties (en_first e) (ref_changes d e)\<rparr>"

definition ci :: "string \<Rightarrow> string list \<Rightarrow> ComparisonObjectIdentity" where
  "ci kind path = \<lparr>co_kind = kind, co_path = path\<rparr>"

definition column_entry :: "Schema \<Rightarrow> Table \<Rightarrow> Column \<Rightarrow> entry" where
  "column_entry sc t c = \<lparr>en_raw = c_id c, en_identity = ci ''column'' [sc_name sc, t_name t, c_name c],
     en_parent = Some (ci ''table'' [sc_name sc, t_name t]),
     en_first = tech_props
       [(''/name'', present (JStr (c_name c))), (''/data_type'', present (JStr (c_data_type c))),
        (''/ordinal_position'', present (JInt (c_ordinal_position c))), (''/nullable'', present (JBool (c_nullable c))),
        (''/description'', present (c_description c))] (c_technical_attributes c),
     en_refs = []\<rparr>"

definition primary_key_entry :: "Schema \<Rightarrow> Table \<Rightarrow> PrimaryKey \<Rightarrow> entry" where
  "primary_key_entry sc t k = \<lparr>en_raw = pk_id k, en_identity = ci ''primary_key'' [sc_name sc, t_name t, pk_name k],
     en_parent = Some (ci ''table'' [sc_name sc, t_name t]),
     en_first = [(''/name'', present (JStr (pk_name k))), (''/column_ids'', present empty_refs)],
     en_refs = [(''/column_ids'', Many (pk_column_ids k))]\<rparr>"

definition foreign_key_entry :: "Schema \<Rightarrow> Table \<Rightarrow> ForeignKey \<Rightarrow> entry" where
  "foreign_key_entry sc t k = \<lparr>en_raw = fk_id k, en_identity = ci ''foreign_key'' [sc_name sc, t_name t, fk_name k],
     en_parent = Some (ci ''table'' [sc_name sc, t_name t]),
     en_first = [(''/name'', present (JStr (fk_name k))), (''/column_ids'', present empty_refs),
       (''/referenced_table_id'', present no_table_ref), (''/referenced_column_ids'', present empty_refs)],
     en_refs = [(''/column_ids'', Many (fk_column_ids k)), (''/referenced_table_id'', One (fk_referenced_table_id k)),
       (''/referenced_column_ids'', Many (fk_referenced_column_ids k))]\<rparr>"

definition key_entries :: "Schema \<Rightarrow> Table \<Rightarrow> entry list" where
  "key_entries sc t = (case t_primary_key t of None \<Rightarrow> [] | Some k \<Rightarrow> [primary_key_entry sc t k]) @
     map (foreign_key_entry sc t) (t_foreign_keys t)"

definition table_entry :: "Schema \<Rightarrow> Table \<Rightarrow> entry" where
  "table_entry sc t = \<lparr>en_raw = t_id t, en_identity = ci ''table'' [sc_name sc, t_name t],
     en_parent = Some (ci ''schema'' [sc_name sc]),
     en_first = tech_props [(''/name'', present (JStr (t_name t))), (''/description'', present (t_description t)),
       (''/ownership'', present (ownership_value (t_ownership t)))] (t_technical_attributes t),
     en_refs = []\<rparr>"

definition table_entries :: "Schema \<Rightarrow> Table \<Rightarrow> entry list" where
  "table_entries sc t = table_entry sc t # map (column_entry sc t) (t_columns t) @ key_entries sc t"

definition schema_entry :: "Schema \<Rightarrow> entry" where
  "schema_entry sc = \<lparr>en_raw = sc_id sc, en_identity = ci ''schema'' [sc_name sc], en_parent = Some (ci ''database'' []),
     en_first = [(''/name'', present (JStr (sc_name sc))), (''/description'', present (sc_description sc)),
       (''/ownership'', present (ownership_value (sc_ownership sc)))],
     en_refs = []\<rparr>"

definition schema_entries :: "Schema \<Rightarrow> entry list" where
  "schema_entries sc = schema_entry sc # concat (map (table_entries sc) (sc_tables sc))"

text \<open>Where a table lives: the names of its schema and of itself.\<close>

definition table_places :: "Database \<Rightarrow> (string, string list) dict" where
  "table_places db = concat (map (\<lambda>sc. map (\<lambda>t. (t_id t, [sc_name sc, t_name t])) (sc_tables sc)) (db_schemas db))"

definition relationship_entry :: "Database \<Rightarrow> Relationship \<Rightarrow> entry" where
  "relationship_entry db r =
     (let place = get_list (table_places db) (rl_from_table_id r) in
      \<lparr>en_raw = rl_id r, en_identity = ci ''relationship'' (place @ [rl_name r]), en_parent = Some (ci ''table'' place),
       en_first = [(''/name'', present (JStr (rl_name r))), (''/to_table_id'', present no_table_ref),
         (''/foreign_key_id'', present JNull), (''/description'', present (rl_description r))],
       en_refs = [(''/to_table_id'', One (rl_to_table_id r)),
         (''/foreign_key_id'', case rl_foreign_key_id r of None \<Rightarrow> Nothing | Some i \<Rightarrow> One i)]\<rparr>)"

definition data_source_entry :: "DataSource \<Rightarrow> entry" where
  "data_source_entry ds = \<lparr>en_raw = ds_id ds, en_identity = ci ''data_source'' [], en_parent = None,
     en_first = tech_props [(''/name'', present (JStr (ds_name ds))), (''/system_type'', present (JStr (ds_system_type ds))),
       (''/description'', present (ds_description ds)), (''/ownership'', present (ownership_value (ds_ownership ds)))]
       (ds_technical_attributes ds),
     en_refs = []\<rparr>"

definition database_entry :: "Database \<Rightarrow> entry" where
  "database_entry db = \<lparr>en_raw = db_id db, en_identity = ci ''database'' [], en_parent = Some (ci ''data_source'' []),
     en_first = [(''/name'', present (JStr (db_name db))), (''/description'', present (db_description db)),
       (''/ownership'', present (ownership_value (db_ownership db)))],
     en_refs = []\<rparr>"

definition project_entries :: "DataSource \<Rightarrow> Database \<Rightarrow> Relationship list \<Rightarrow> entry list" where
  "project_entries ds db rels = data_source_entry ds # database_entry db #
     concat (map schema_entries (db_schemas db)) @ map (relationship_entry db) rels"

definition index_of :: "entry list \<Rightarrow> index" where
  "index_of es = map (\<lambda>e. (en_raw e, en_identity e)) es"

definition spec_projection :: "GovernanceSnapshot \<Rightarrow> entry list \<Rightarrow> ProjectedSnapshot" where
  "spec_projection sn es = \<lparr>pj_objects = map (\<lambda>e. (en_identity e, final_object (index_of es) e)) es,
     pj_raw_to_identity = index_of es, pj_snapshot = sn\<rparr>"

lemmas entry_defs = column_entry_def primary_key_entry_def foreign_key_entry_def table_entry_def schema_entry_def
  data_source_entry_def database_entry_def

section \<open>Registration\<close>

definition register_entry :: "string \<Rightarrow> registry \<Rightarrow> entry \<Rightarrow> registry" where
  "register_entry side r e = register_object side (en_raw e) (en_identity e) (en_parent e) (en_first e) r"

definition registered :: "entry list \<Rightarrow> registry" where
  "registered es = \<lparr>rg_raw_to_identity = index_of es, rg_identity_to_raw = map (\<lambda>e. (en_identity e, en_raw e)) es,
     rg_objects = map (\<lambda>e. (en_identity e, first_object e)) es, rg_errors = []\<rparr>"

definition no_objects :: registry where
  "no_objects = \<lparr>rg_raw_to_identity = [], rg_identity_to_raw = [], rg_objects = [], rg_errors = []\<rparr>"

lemma update_fresh: "k \<notin> set (keys d) \<Longrightarrow> AList.update k v d = d @ [(k, v)]"
  by (induction d) auto

lemma register_all:
  assumes "distinct (map en_raw es)" "distinct (map en_identity es)"
  shows "foldl (register_entry side) no_objects es = registered es"
  using assms
proof (induction es rule: rev_induct)
  case (snoc e es)
  then have "en_raw e \<notin> set (keys (index_of es))" "en_identity e \<notin> set (keys (map (\<lambda>e. (en_identity e, en_raw e)) es))"
    "en_identity e \<notin> set (keys (map (\<lambda>e. (en_identity e, first_object e)) es))" by (auto simp: index_of_def)
  then have "register_entry side (registered es) e = registered (es @ [e])"
    by (simp add: register_entry_def register_object_def registered_def update_fresh) (simp add: index_of_def first_object_def)
  then show ?case using snoc by simp
qed (simp add: no_objects_def registered_def index_of_def)

text \<open>When identities clash, every clash is reported and nothing else is.\<close>

definition clashing :: "registry \<Rightarrow> entry list \<Rightarrow> bool" where
  "clashing r es \<longleftrightarrow> fst ` set (rg_raw_to_identity r) \<subseteq> en_raw ` set es \<and> fst ` set (rg_identity_to_raw r) = en_identity ` set es \<and>
    (rg_errors r = [] \<longleftrightarrow> distinct (map en_identity es)) \<and>
    list_all (\<lambda>d. d_code d = ''duplicate_comparison_identity'') (rg_errors r)"

lemma clashing_step:
  assumes r: "clashing r es" and new: "en_raw e \<notin> en_raw ` set es"
  shows "clashing (register_entry side r e) (es @ [e])"
proof -
  have raw: "en_raw e \<notin> fst ` set (rg_raw_to_identity r)" using assms by (auto simp: clashing_def)
  show ?thesis
  proof (cases "en_identity e \<in> en_identity ` set es")
    case True
    then have "en_identity e \<in> fst ` set (rg_identity_to_raw r)" using r by (simp add: clashing_def)
    then have "register_entry side r e = r\<lparr>rg_errors := rg_errors r @ [diagnostic_error ''duplicate_comparison_identity''
        (diagnostic_path side [''identity'', co_kind (en_identity e)]) (''duplicate comparison identity for kind='' @ co_kind (en_identity e))]\<rparr>"
      using raw by (simp add: register_entry_def register_object_def)
    then show ?thesis using r True by (auto simp: clashing_def diagnostic_error_def)
  next
    case False
    then have id: "en_identity e \<notin> fst ` set (rg_identity_to_raw r)" using r by (simp add: clashing_def)
    then have "register_entry side r e = r\<lparr>rg_raw_to_identity := rg_raw_to_identity r @ [(en_raw e, en_identity e)],
        rg_identity_to_raw := rg_identity_to_raw r @ [(en_identity e, en_raw e)],
        rg_objects := AList.update (en_identity e) (first_object e) (rg_objects r)\<rparr>"
      using raw by (simp add: register_entry_def register_object_def first_object_def update_fresh)
    then show ?thesis using r False by (auto simp: clashing_def)
  qed
qed

lemma register_clash: "distinct (map en_raw es) \<Longrightarrow> clashing (foldl (register_entry side) no_objects es) es"
  by (induction es rule: rev_induct) (simp_all add: clashing_step, simp add: clashing_def no_objects_def)

text \<open>What a part of the first pass does to the state: it registers entries and extends the lookup tables.\<close>

definition keyed :: "('a \<Rightarrow> string) \<Rightarrow> (string, 'a) dict \<Rightarrow> 'a list \<Rightarrow> (string, 'a) dict" where
  "keyed f d xs = foldl (\<lambda>d x. AList.update (f x) x d) d xs"

lemma keyed_simps [simp]: "keyed f d [] = d" "keyed f d (x # xs) = keyed f (AList.update (f x) x d) xs"
  "keyed f d (xs @ ys) = keyed f (keyed f d xs) ys"
  by (simp_all add: keyed_def)

lemma keyed_distinct: "distinct (map f xs) \<Longrightarrow> keyed f [] xs = map (\<lambda>x. (f x, x)) xs"
  by (induction xs rule: rev_induct) (auto simp: keyed_def update_fresh)

definition passed :: "string \<Rightarrow> projection_state \<Rightarrow> entry list \<Rightarrow> Schema list \<Rightarrow> Table list \<Rightarrow> Column list \<Rightarrow> ForeignKey list \<Rightarrow> projection_state" where
  "passed side st es scs ts cs ks = \<lparr>ps_registry = foldl (register_entry side) (ps_registry st) es,
     ps_schema_by_id = keyed sc_id (ps_schema_by_id st) scs, ps_table_by_id = keyed t_id (ps_table_by_id st) ts,
     ps_column_by_id = keyed c_id (ps_column_by_id st) cs, ps_fk_by_id = keyed fk_id (ps_fk_by_id st) ks\<rparr>"

lemma passed_refl [simp]: "passed side st [] [] [] [] [] = st"
  by (simp add: passed_def)

lemma passed_passed [simp]:
  "passed side (passed side st es scs ts cs ks) es' scs' ts' cs' ks' = passed side st (es @ es') (scs @ scs') (ts @ ts') (cs @ cs') (ks @ ks')"
  by (simp add: passed_def)

lemma fold_in_passed:
  assumes "\<And>x st. x \<in> set xs \<Longrightarrow> f st x = Inr (passed side st (e x) (a x) (b x) (c x) (d x))"
  shows "fold_in f st xs = Inr (passed side st (concat (map e xs)) (concat (map a xs)) (concat (map b xs)) (concat (map c xs)) (concat (map d xs)))"
  using assms by (induction xs arbitrary: st) simp_all

lemma bad_reference_False [simp]: "bad_reference False side segments message = []" "add_errors [] st = st"
  by (simp_all add: bad_reference_def when_error_def add_errors_def)

lemma mk_comparison_identity_ok:
  "mk_comparison_identity ''data_source'' [] = Inr (ci ''data_source'' [])" "mk_comparison_identity ''database'' [] = Inr (ci ''database'' [])"
  "a \<noteq> [] \<Longrightarrow> mk_comparison_identity ''schema'' [a] = Inr (ci ''schema'' [a])"
  "a \<noteq> [] \<Longrightarrow> b \<noteq> [] \<Longrightarrow> mk_comparison_identity ''table'' [a, b] = Inr (ci ''table'' [a, b])"
  "a \<noteq> [] \<Longrightarrow> b \<noteq> [] \<Longrightarrow> c \<noteq> [] \<Longrightarrow> k \<in> {''column'', ''primary_key'', ''foreign_key'', ''relationship''} \<Longrightarrow>
     mk_comparison_identity k [a, b, c] = Inr (ci k [a, b, c])"
  by (auto simp: mk_comparison_identity_def PATH_ARITY_def ci_def)

lemma register_passed: "register side i j p ps st =
    passed side st [\<lparr>en_raw = i, en_identity = j, en_parent = p, en_first = ps, en_refs = rs\<rparr>] [] [] [] []"
  by (simp add: register_def passed_def register_entry_def)

section \<open>First pass\<close>

lemma project_column_passed:
  assumes "sc_name sc \<noteq> []" "t_name t \<noteq> []" "c_name c \<noteq> []"
  shows "project_column side sc t (ci ''table'' [sc_name sc, t_name t]) st c = Inr (passed side st [column_entry sc t c] [] [] [c] [])"
  using assms by (simp add: project_column_def Let_def mk_comparison_identity_ok passed_def register_def register_entry_def column_entry_def)

lemma project_primary_key_passed:
  assumes "sc_name sc \<noteq> []" "t_name t \<noteq> []" "pk_name k \<noteq> []" "pk_table_id k = t_id t"
  shows "project_primary_key side sc t (ci ''table'' [sc_name sc, t_name t]) st k = Inr (passed side st [primary_key_entry sc t k] [] [] [] [])"
  using assms by (simp add: project_primary_key_def Let_def mk_comparison_identity_ok passed_def register_def register_entry_def primary_key_entry_def)

lemma project_foreign_key_passed:
  assumes "sc_name sc \<noteq> []" "t_name t \<noteq> []" "fk_name k \<noteq> []" "fk_table_id k = t_id t"
  shows "project_foreign_key side sc t (ci ''table'' [sc_name sc, t_name t]) st k = Inr (passed side st [foreign_key_entry sc t k] [] [] [] [k])"
  using assms by (simp add: project_foreign_key_def Let_def mk_comparison_identity_ok passed_def register_def register_entry_def foreign_key_entry_def)

lemma concat_singles [simp]: "concat (map (\<lambda>x. [f x]) xs) = map f xs" "concat (map (\<lambda>x. []) xs) = []"
  by (induction xs) simp_all

lemma project_table_passed:
  assumes t: "mk_table t = Inr t" "t_schema_id t = sc_id sc" "coherent_columns t" and sc: "sc_name sc \<noteq> []"
    and keys: "list_all (coherent_key ts t) (t_foreign_keys t)"
  shows "project_table side sc (ci ''schema'' [sc_name sc]) st t =
    Inr (passed side st (table_entries sc t) [] [t] (t_columns t) (t_foreign_keys t))"
proof -
  note name = texts_present(5) [OF t(1)]
  have cols: "fold_in (project_column side sc t (ci ''table'' [sc_name sc, t_name t])) s (t_columns t) =
      Inr (passed side s (map (column_entry sc t) (t_columns t)) [] [] (t_columns t) [])" for s
  proof -
    have "project_column side sc t (ci ''table'' [sc_name sc, t_name t]) s c = Inr (passed side s [column_entry sc t c] [] [] [c] [])"
      if "c \<in> set (t_columns t)" for c s
      using that t(3) name sc texts_present(1) by (intro project_column_passed) (auto simp: coherent_columns_def list_all_iff)
    from fold_in_passed [of "t_columns t" _ side "\<lambda>c. [column_entry sc t c]" "\<lambda>_. []" "\<lambda>_. []" "\<lambda>c. [c]" "\<lambda>_. []", OF this] show ?thesis by simp
  qed
  have pk: "(case t_primary_key t of None \<Rightarrow> Inr s | Some k \<Rightarrow> project_primary_key side sc t (ci ''table'' [sc_name sc, t_name t]) s k) =
      Inr (passed side s (case t_primary_key t of None \<Rightarrow> [] | Some k \<Rightarrow> [primary_key_entry sc t k]) [] [] [] [])" for s
    using t(3) name sc texts_present(2) by (auto simp: coherent_columns_def project_primary_key_passed split: option.splits)
  have fks: "fold_in (project_foreign_key side sc t (ci ''table'' [sc_name sc, t_name t])) s (t_foreign_keys t) =
      Inr (passed side s (map (foreign_key_entry sc t) (t_foreign_keys t)) [] [] [] (t_foreign_keys t))" for s
  proof -
    have "project_foreign_key side sc t (ci ''table'' [sc_name sc, t_name t]) s k = Inr (passed side s [foreign_key_entry sc t k] [] [] [] [k])"
      if "k \<in> set (t_foreign_keys t)" for k s
      using that keys name sc texts_present(3) by (intro project_foreign_key_passed) (auto simp: coherent_key_def list_all_iff)
    from fold_in_passed [of "t_foreign_keys t" _ side "\<lambda>k. [foreign_key_entry sc t k]" "\<lambda>_. []" "\<lambda>_. []" "\<lambda>_. []" "\<lambda>k. [k]", OF this] show ?thesis by simp
  qed
  have "register side (t_id t) (ci ''table'' [sc_name sc, t_name t]) (Some (ci ''schema'' [sc_name sc])) (en_first (table_entry sc t))
      (st\<lparr>ps_table_by_id := AList.update (t_id t) t (ps_table_by_id st)\<rparr>) = passed side st [table_entry sc t] [] [t] [] []"
    by (simp add: register_def passed_def register_entry_def table_entry_def)
  then show ?thesis
    using t(2) name sc cols pk fks
    by (simp add: project_table_def Let_def mk_comparison_identity_ok table_entry_def table_entries_def key_entries_def)
qed

lemma project_schema_passed:
  assumes sc: "coherent_schema ts db sc"
  shows "project_schema side db (ci ''database'' []) st sc = Inr (passed side st (schema_entries sc) [sc] (sc_tables sc)
    (concat (map t_columns (sc_tables sc))) (concat (map t_foreign_keys (sc_tables sc))))"
proof -
  have name: "sc_name sc \<noteq> []" using sc texts_present(6) by (auto simp: coherent_schema_def)
  have tabs: "fold_in (project_table side sc (ci ''schema'' [sc_name sc])) s (sc_tables sc) =
      Inr (passed side s (concat (map (table_entries sc) (sc_tables sc))) [] (sc_tables sc)
        (concat (map t_columns (sc_tables sc))) (concat (map t_foreign_keys (sc_tables sc))))" for s
  proof -
    have "project_table side sc (ci ''schema'' [sc_name sc]) s t = Inr (passed side s (table_entries sc t) [] [t] (t_columns t) (t_foreign_keys t))"
      if "t \<in> set (sc_tables sc)" for t s
      using that sc name by (intro project_table_passed [where ts = ts]) (auto simp: coherent_schema_def coherent_table_def list_all_iff)
    from fold_in_passed [of "sc_tables sc" _ side "table_entries sc" "\<lambda>_. []" "\<lambda>t. [t]" t_columns t_foreign_keys, OF this] show ?thesis by simp
  qed
  have "register side (sc_id sc) (ci ''schema'' [sc_name sc]) (Some (ci ''database'' [])) (en_first (schema_entry sc))
      (st\<lparr>ps_schema_by_id := AList.update (sc_id sc) sc (ps_schema_by_id st)\<rparr>) = passed side st [schema_entry sc] [sc] [] [] []"
    by (simp add: register_def passed_def register_entry_def schema_entry_def)
  then show ?thesis using sc name tabs
    by (simp add: project_schema_def Let_def mk_comparison_identity_ok schema_entry_def schema_entries_def coherent_schema_def)
qed

text \<open>What a coherent snapshot offers to the projection.\<close>

definition projectable :: "DataSource \<Rightarrow> Database \<Rightarrow> Relationship list \<Rightarrow> bool" where
  "projectable ds db rels \<longleftrightarrow> db_datasource_id db = ds_id ds \<and>
     list_all (coherent_schema (database_tables db) db) (db_schemas db) \<and>
     list_all (coherent_relationship (database_tables db)) rels \<and> distinct (all_ids ds db rels)"

lemma table_place:
  assumes "distinct (map t_id (database_tables db))" "sc \<in> set (db_schemas db)" "t \<in> set (sc_tables sc)"
  shows "get_list (table_places db) (t_id t) = [sc_name sc, t_name t]"
proof -
  have "map fst (table_places db) = map t_id (database_tables db)"
    unfolding table_places_def database_tables_def by (induction "db_schemas db") (simp_all add: map_concat comp_def)
  moreover have "(t_id t, [sc_name sc, t_name t]) \<in> set (table_places db)" using assms by (auto simp: table_places_def)
  ultimately have "map_of (table_places db) (t_id t) = Some [sc_name sc, t_name t]" using assms(1) by (intro map_of_is_SomeI) simp_all
  then show ?thesis by (simp add: get_list_def)
qed

lemma distinct_schema_ids:
  assumes "distinct (concat (map schema_parts scs))" shows "distinct (map sc_id scs)"
  using assms by (rule distinct_parts_ids) (simp add: schema_parts_def)

lemma map_of_keyed:
  assumes "distinct (map f xs)" "x \<in> set xs" shows "map_of (keyed f [] xs) (f x) = Some x"
  using assms by (subst keyed_distinct) (auto intro!: map_of_is_SomeI simp: comp_def)

lemma project_relationship_passed:
  assumes p: "projectable ds db rels" and r: "r \<in> set rels"
    and st: "ps_table_by_id st = keyed t_id [] (database_tables db)" "ps_schema_by_id st = keyed sc_id [] (db_schemas db)"
  shows "project_relationship side st r = Inr (passed side st [relationship_entry db r] [] [] [] [])"
proof -
  have ids: "distinct (map t_id (database_tables db))" "distinct (map sc_id (db_schemas db))"
    using p distinct_table_ids distinct_schema_ids by (auto simp: projectable_def all_ids_def database_tables_def)
  have rel: "coherent_relationship (database_tables db) r" using p r by (simp add: projectable_def list_all_iff)
  then obtain t where t: "t \<in> set (database_tables db)" "t_id t = rl_from_table_id r" by (auto simp: coherent_relationship_def)
  then obtain sc where sc: "sc \<in> set (db_schemas db)" "t \<in> set (sc_tables sc)" by (auto simp: database_tables_def)
  have co: "coherent_schema (database_tables db) db sc" using p sc(1) by (simp add: projectable_def list_all_iff)
  then have tab: "coherent_table (database_tables db) sc t" using sc(2) by (simp add: coherent_schema_def list_all_iff)
  have names: "sc_name sc \<noteq> []" "t_name t \<noteq> []" "rl_name r \<noteq> []"
    using co tab rel texts_present(4,5,6) by (auto simp: coherent_schema_def coherent_table_def coherent_relationship_def)
  have "map_of (ps_table_by_id st) (rl_from_table_id r) = Some t" using map_of_keyed [OF ids(1) t(1)] by (simp only: st t(2))
  moreover have "map_of (ps_schema_by_id st) (t_schema_id t) = Some sc"
    using map_of_keyed [OF ids(2) sc(1)] tab by (simp only: st coherent_table_def)
  ultimately show ?thesis
    using names table_place [OF ids(1) sc]
    by (simp add: project_relationship_def Let_def mk_comparison_identity_ok relationship_entry_def passed_def register_def
        register_entry_def t(2) del: map_of_eq_Some_iff)
qed

lemma first_pass_passed:
  assumes p: "projectable ds db rels"
  shows "first_pass side ds db rels = Inr \<lparr>ps_registry = foldl (register_entry side) no_objects (project_entries ds db rels),
    ps_schema_by_id = keyed sc_id [] (db_schemas db), ps_table_by_id = keyed t_id [] (database_tables db),
    ps_column_by_id = keyed c_id [] (concat (map t_columns (database_tables db))), ps_fk_by_id = keyed fk_id [] (table_keys (database_tables db))\<rparr>"
proof -
  let ?st = "\<lparr>ps_registry = no_objects, ps_schema_by_id = [], ps_table_by_id = [], ps_column_by_id = [], ps_fk_by_id = []\<rparr>"
  have flat: "concat (map (\<lambda>sc. concat (map f (sc_tables sc))) scs) = concat (map f (concat (map sc_tables scs)))" for f scs
    by (induction scs) simp_all
  have scs: "fold_in (project_schema side db (ci ''database'' [])) s (db_schemas db) =
      Inr (passed side s (concat (map schema_entries (db_schemas db))) (db_schemas db) (database_tables db)
        (concat (map t_columns (database_tables db))) (table_keys (database_tables db)))" for s
  proof -
    have "project_schema side db (ci ''database'' []) s sc = Inr (passed side s (schema_entries sc) [sc] (sc_tables sc)
        (concat (map t_columns (sc_tables sc))) (concat (map t_foreign_keys (sc_tables sc))))" if "sc \<in> set (db_schemas db)" for s sc
      using that p by (intro project_schema_passed [where ts = "database_tables db"]) (simp add: projectable_def list_all_iff)
    from fold_in_passed [of "db_schemas db" _ side schema_entries "\<lambda>sc. [sc]" sc_tables, OF this] show ?thesis
      by (simp add: flat database_tables_def table_keys_def)
  qed
  have rels: "fold_in (project_relationship side) s xs = Inr (passed side s (map (relationship_entry db) xs) [] [] [] [])"
    if "ps_table_by_id s = keyed t_id [] (database_tables db)" "ps_schema_by_id s = keyed sc_id [] (db_schemas db)" "set xs \<subseteq> set rels" for s xs
    using that
  proof (induction xs arbitrary: s)
    case (Cons x xs)
    have "project_relationship side s x = Inr (passed side s [relationship_entry db x] [] [] [] [])"
      using Cons.prems by (intro project_relationship_passed [OF p]) auto
    moreover have "fold_in (project_relationship side) (passed side s [relationship_entry db x] [] [] [] []) xs =
        Inr (passed side (passed side s [relationship_entry db x] [] [] [] []) (map (relationship_entry db) xs) [] [] [] [])"
      using Cons.prems by (intro Cons.IH) (auto simp: passed_def)
    ultimately show ?case by simp
  qed simp
  have start: "register side (db_id db) (ci ''database'' []) (Some (ci ''data_source'' [])) (en_first (database_entry db))
      (register side (ds_id ds) (ci ''data_source'' []) None (en_first (data_source_entry ds)) ?st) =
      passed side ?st [data_source_entry ds, database_entry db] [] [] [] []"
    by (simp add: passed_def register_def register_entry_def data_source_entry_def database_entry_def)
  show ?thesis
    using p scs rels start
    by (simp add: first_pass_def Let_def mk_comparison_identity_ok data_source_entry_def database_entry_def projectable_def
        no_objects_def [symmetric]) (simp add: passed_def project_entries_def data_source_entry_def database_entry_def)
qed

section \<open>Second pass\<close>

definition patching :: "entry list \<Rightarrow> Database \<Rightarrow> (ComparisonObjectIdentity, ComparableObject) dict \<Rightarrow> projection_state" where
  "patching es db objs = \<lparr>ps_registry = (registered es)\<lparr>rg_objects := objs\<rparr>,
     ps_schema_by_id = keyed sc_id [] (db_schemas db), ps_table_by_id = keyed t_id [] (database_tables db),
     ps_column_by_id = keyed c_id [] (concat (map t_columns (database_tables db))), ps_fk_by_id = keyed fk_id [] (table_keys (database_tables db))\<rparr>"

definition put :: "index \<Rightarrow> (ComparisonObjectIdentity, ComparableObject) dict \<Rightarrow> entry \<Rightarrow> (ComparisonObjectIdentity, ComparableObject) dict" where
  "put d objs e = AList.update (en_identity e) (final_object d e) objs"

definition untouched :: "(ComparisonObjectIdentity, ComparableObject) dict \<Rightarrow> entry list \<Rightarrow> bool" where
  "untouched objs es \<longleftrightarrow> list_all (\<lambda>e. map_of objs (en_identity e) = Some (first_object e)) es"

lemma patch_object_put:
  assumes "map_of objs (en_identity e) = Some (first_object e)"
  shows "patch_object (en_identity e) (ref_changes d e) (patching es db objs) = Inr (patching es db (put d objs e))"
  using assms by (simp add: patch_object_def Let_def patching_def put_def final_object_def first_object_def with_properties_def)

lemma untouched_put:
  assumes "untouched objs es" "en_identity e \<notin> en_identity ` set es" shows "untouched (put d objs e) es"
  unfolding untouched_def list_all_iff
proof
  fix x assume x: "x \<in> set es"
  then have "en_identity x \<noteq> en_identity e" using assms(2) by (metis imageI)
  then show "map_of (put d objs e) (en_identity x) = Some (first_object x)"
    using assms(1) x by (simp add: untouched_def list_all_iff put_def del: map_of_eq_Some_iff)
qed

lemma untouched_puts:
  "untouched objs es \<Longrightarrow> en_identity ` set es \<inter> en_identity ` set qs = {} \<Longrightarrow> untouched (foldl (put d) objs qs) es"
  by (induction qs arbitrary: objs) (auto simp: untouched_put)

lemma fold_in_patched:
  assumes step: "\<And>x objs. x \<in> set xs \<Longrightarrow> untouched objs (g x) \<Longrightarrow> f (patching es db objs) x = Inr (patching es db (foldl (put d) objs (g x)))"
    and ids: "distinct (map en_identity (concat (map g xs)))" and objs: "untouched objs (concat (map g xs))"
  shows "fold_in f (patching es db objs) xs = Inr (patching es db (foldl (put d) objs (concat (map g xs))))"
  using assms
proof (induction xs arbitrary: objs)
  case (Cons x xs)
  have "untouched objs (g x)" "untouched objs (concat (map g xs))" using Cons.prems(3) by (simp_all add: untouched_def)
  moreover have "en_identity ` set (concat (map g xs)) \<inter> en_identity ` set (g x) = {}" using Cons.prems(2) by auto
  ultimately have "untouched (foldl (put d) objs (g x)) (concat (map g xs))" by (intro untouched_puts) simp_all
  moreover have "f (patching es db objs) x = Inr (patching es db (foldl (put d) objs (g x)))"
    using Cons.prems(1) \<open>untouched objs (g x)\<close> by simp
  ultimately show ?case using Cons.IH Cons.prems by simp
qed simp

lemma put_present:
  assumes "e \<in> set es" "distinct (map en_identity es)"
  shows "put d (map (\<lambda>x. (en_identity x, F x)) es) e = map (\<lambda>x. (en_identity x, if x = e then final_object d e else F x)) es"
  using assms
proof (induction es)
  case (Cons x es)
  show ?case
  proof (cases "x = e")
    case True
    then have "e \<notin> set es" using Cons.prems(2) by auto
    then show ?thesis using True by (auto simp: put_def)
  next
    case False
    then have "e \<in> set es" "en_identity x \<noteq> en_identity e" using Cons.prems by auto
    then show ?thesis using Cons False by (simp add: put_def)
  qed
qed simp

lemma puts_present:
  assumes "set qs \<subseteq> set es" "distinct (map en_identity es)"
  shows "foldl (put d) (map (\<lambda>e. (en_identity e, first_object e)) es) qs =
    map (\<lambda>e. (en_identity e, if e \<in> set qs then final_object d e else first_object e)) es"
  using assms
proof (induction qs rule: rev_induct)
  case (snoc q qs)
  then show ?case using put_present [of q es d "\<lambda>e. if e \<in> set qs then final_object d e else first_object e"] by auto
qed simp

lemma no_refs_final: "en_refs e = [] \<Longrightarrow> final_object d e = first_object e"
  by (simp add: final_object_def first_object_def ref_changes_def with_properties_def)

text \<open>Lookups in the state of the second pass.\<close>

lemma index_lookup: "distinct (map en_raw es) \<Longrightarrow> e \<in> set es \<Longrightarrow> map_of (index_of es) (en_raw e) = Some (en_identity e)"
  unfolding index_of_def by (intro map_of_is_SomeI) (auto simp: comp_def)

lemma patching_simps:
  "rg_raw_to_identity (ps_registry (patching es db objs)) = index_of es" "rg_objects (ps_registry (patching es db objs)) = objs"
  "ps_column_by_id (patching es db objs) = keyed c_id [] (concat (map t_columns (database_tables db)))"
  "ps_table_by_id (patching es db objs) = keyed t_id [] (database_tables db)"
  "ps_schema_by_id (patching es db objs) = keyed sc_id [] (db_schemas db)"
  "ps_fk_by_id (patching es db objs) = keyed fk_id [] (table_keys (database_tables db))"
  "rg_errors (ps_registry (patching es db objs)) = []"
  by (simp_all add: patching_def registered_def)

lemma keys_keyed: "fst ` set (keyed f d xs) = fst ` set d \<union> f ` set xs"
proof (induction xs arbitrary: d)
  case (Cons x xs)
  have "fst ` set (AList.update (f x) x d) = insert (f x) (fst ` set d)"
    unfolding set_map [symmetric] keys_update by auto
  then show ?case using Cons [of "AList.update (f x) x d"] by simp
qed simp

lemma entries_of_table:
  assumes "sc \<in> set (db_schemas db)" "t \<in> set (sc_tables sc)"
  shows "set (table_entries sc t) \<subseteq> set (project_entries ds db rels)"
  using assms by (auto simp: project_entries_def schema_entries_def)

lemma resolve_all_Inr: "(\<And>x. x \<in> set xs \<Longrightarrow> f x = Inr (g x)) \<Longrightarrow> resolve_all f xs = Inr (map g xs)"
  by (induction xs) simp_all

lemma column_refs_resolved:
  assumes raws: "distinct (map en_raw (project_entries ds db rels))" and tids: "distinct (map t_id (database_tables db))"
    and t: "sc \<in> set (db_schemas db)" "t \<in> set (sc_tables sc)" and ids: "set ids \<subseteq> c_id ` set (t_columns t)"
  shows "resolve_column_refs (patching (project_entries ds db rels) db objs) (t_id t) side path ids =
    Inr (map (ref_of (index_of (project_entries ds db rels))) ids)"
proof -
  let ?es = "project_entries ds db rels"
  have mem: "t \<in> set (database_tables db)" using t by (auto simp: database_tables_def)
  have "resolve_column_ref (patching ?es db objs) t side path i = Inr (ref_of (index_of ?es) i)" if "i \<in> set ids" for i
  proof -
    have "i \<in> c_id ` set (t_columns t)" using ids that by blast
    then obtain c where c: "c \<in> set (t_columns t)" "c_id c = i" by blast
    have "column_entry sc t c \<in> set (table_entries sc t)" using c(1) by (auto simp: table_entries_def)
    then have "column_entry sc t c \<in> set ?es" using entries_of_table [OF t] by blast
    from index_lookup [OF raws this] have lookup: "map_of (index_of ?es) i = Some (ci ''column'' [sc_name sc, t_name t, c_name c])"
      by (simp add: column_entry_def c(2) del: map_of_eq_Some_iff)
    have "i \<in> c_id ` set (concat (map t_columns (database_tables db)))" using c mem by auto
    then have "i \<in> set (keys (keyed c_id [] (concat (map t_columns (database_tables db)))))" by (simp only: set_map keys_keyed) simp
    then obtain x where "map_of (keyed c_id [] (concat (map t_columns (database_tables db)))) i = Some x"
      by (meson map_of_None_iff not_None_eq)
    then show ?thesis using lookup c
      by (auto simp: resolve_column_ref_def patching_simps ref_of_def ci_def simp del: map_of_eq_Some_iff)
  qed
  then have "resolve_all (resolve_column_ref (patching ?es db objs) t side path) ids = Inr (map (ref_of (index_of ?es)) ids)"
    by (rule resolve_all_Inr)
  then show ?thesis using map_of_keyed [OF tids mem]
    by (simp add: resolve_column_refs_def patching_simps del: map_of_eq_Some_iff)
qed

lemma patch_primary_key_put:
  assumes raws: "distinct (map en_raw (project_entries ds db rels))" and tids: "distinct (map t_id (database_tables db))"
    and t: "sc \<in> set (db_schemas db)" "t \<in> set (sc_tables sc)" and k: "t_primary_key t = Some k" "set (pk_column_ids k) \<subseteq> c_id ` set (t_columns t)"
    and objs: "map_of objs (en_identity (primary_key_entry sc t k)) = Some (first_object (primary_key_entry sc t k))"
  shows "patch_primary_key side t (patching (project_entries ds db rels) db objs) k =
    Inr (patching (project_entries ds db rels) db (put (index_of (project_entries ds db rels)) objs (primary_key_entry sc t k)))"
proof -
  let ?es = "project_entries ds db rels" and ?e = "primary_key_entry sc t k"
  have "?e \<in> set (table_entries sc t)" using k(1) by (auto simp: table_entries_def key_entries_def)
  then have "?e \<in> set ?es" using entries_of_table [OF t] by blast
  from index_lookup [OF raws this] have "map_of (index_of ?es) (pk_id k) = Some (en_identity ?e)"
    by (simp add: primary_key_entry_def del: map_of_eq_Some_iff)
  moreover have "ref_changes (index_of ?es) ?e = [(''/column_ids'', present (JArray (map (ref_of (index_of ?es)) (pk_column_ids k))))]"
    by (simp add: ref_changes_def primary_key_entry_def)
  ultimately show ?thesis
    using patch_object_put [OF objs, of "index_of ?es" ?es db] column_refs_resolved [OF raws tids t k(2)]
    by (simp add: patch_primary_key_def patching_simps del: map_of_eq_Some_iff)
qed

lemma patch_foreign_key_put:
  assumes raws: "distinct (map en_raw (project_entries ds db rels))" and tids: "distinct (map t_id (database_tables db))"
    and t: "sc \<in> set (db_schemas db)" "t \<in> set (sc_tables sc)"
    and k: "k \<in> set (t_foreign_keys t)" "coherent_key (database_tables db) t k"
    and objs: "map_of objs (en_identity (foreign_key_entry sc t k)) = Some (first_object (foreign_key_entry sc t k))"
  shows "patch_foreign_key side t (patching (project_entries ds db rels) db objs) k =
    Inr (patching (project_entries ds db rels) db (put (index_of (project_entries ds db rels)) objs (foreign_key_entry sc t k)))"
proof -
  let ?es = "project_entries ds db rels" and ?e = "foreign_key_entry sc t k"
  let ?d = "index_of ?es"
  obtain u where u: "u \<in> set (database_tables db)" "fk_referenced_table_id k = t_id u"
    "set (fk_referenced_column_ids k) \<subseteq> c_id ` set (t_columns u)" using k(2) by (auto simp: coherent_key_def)
  then obtain su where su: "su \<in> set (db_schemas db)" "u \<in> set (sc_tables su)" by (auto simp: database_tables_def)
  have "?e \<in> set (table_entries sc t)" using k(1) by (auto simp: table_entries_def key_entries_def)
  then have "?e \<in> set ?es" using entries_of_table [OF t] by blast
  from index_lookup [OF raws this] have own: "map_of ?d (fk_id k) = Some (en_identity ?e)"
    by (simp add: foreign_key_entry_def del: map_of_eq_Some_iff)
  have "table_entry su u \<in> set ?es" using entries_of_table [OF su] by (auto simp: table_entries_def)
  from index_lookup [OF raws this] have ref: "map_of ?d (fk_referenced_table_id k) = Some (ci ''table'' [sc_name su, t_name u])"
    by (simp add: table_entry_def u(2) del: map_of_eq_Some_iff)
  have len: "length (fk_column_ids k) = length (fk_referenced_column_ids k)"
    using k(2) texts_present(3) by (auto simp: coherent_key_def)
  have "ref_changes ?d ?e = [(''/column_ids'', present (JArray (map (ref_of ?d) (fk_column_ids k)))),
      (''/referenced_table_id'', present (comparison_identity_dict (ci ''table'' [sc_name su, t_name u]))),
      (''/referenced_column_ids'', present (JArray (map (ref_of ?d) (fk_referenced_column_ids k))))]"
    using ref by (simp add: ref_changes_def foreign_key_entry_def ref_of_def del: map_of_eq_Some_iff)
  moreover have "set (fk_column_ids k) \<subseteq> c_id ` set (t_columns t)" using k(2) by (simp add: coherent_key_def)
  ultimately show ?thesis
    using own ref len patch_object_put [OF objs, of ?d ?es db] column_refs_resolved [OF raws tids t]
      column_refs_resolved [OF raws tids su u(3)]
    by (simp add: patch_foreign_key_def Let_def patching_simps left_errors_def ci_def u(2) del: map_of_eq_Some_iff)
qed

lemma fold_in_map: "fold_in f s (map g xs) = fold_in (\<lambda>s x. f s (g x)) s xs"
  by (induction xs arbitrary: s) (simp_all add: try_in_def split: sum.splits)

lemma untouched_append [simp]: "untouched objs (xs @ ys) \<longleftrightarrow> untouched objs xs \<and> untouched objs ys"
  "untouched objs [] = True" "untouched objs (x # xs) \<longleftrightarrow> map_of objs (en_identity x) = Some (first_object x) \<and> untouched objs xs"
  by (simp_all add: untouched_def)

lemma patch_table_put:
  assumes raws: "distinct (map en_raw (project_entries ds db rels))" and tids: "distinct (map t_id (database_tables db))"
    and t: "sc \<in> set (db_schemas db)" "t \<in> set (sc_tables sc)" and co: "coherent_table (database_tables db) sc t"
    and ids: "distinct (map en_identity (key_entries sc t))" and objs: "untouched objs (key_entries sc t)"
  shows "patch_table side (patching (project_entries ds db rels) db objs) t =
    Inr (patching (project_entries ds db rels) db (foldl (put (index_of (project_entries ds db rels))) objs (key_entries sc t)))"
proof -
  let ?es = "project_entries ds db rels"
  let ?d = "index_of ?es" and ?fks = "map (foreign_key_entry sc t) (t_foreign_keys t)"
  have fks: "fold_in (patch_foreign_key side t) (patching ?es db ob) (t_foreign_keys t) = Inr (patching ?es db (foldl (put ?d) ob ?fks))"
    if "untouched ob ?fks" for ob
  proof -
    have "patch_foreign_key side t (patching ?es db ob') k = Inr (patching ?es db (foldl (put ?d) ob' [foreign_key_entry sc t k]))"
      if "k \<in> set (t_foreign_keys t)" "untouched ob' [foreign_key_entry sc t k]" for k ob'
      using that co patch_foreign_key_put [OF raws tids t that(1)]
      by (simp add: coherent_table_def list_all_iff del: map_of_eq_Some_iff)
    from fold_in_patched [of "t_foreign_keys t" "\<lambda>k. [foreign_key_entry sc t k]", OF this] show ?thesis
      using that ids by (simp add: key_entries_def)
  qed
  show ?thesis
  proof (cases "t_primary_key t")
    case None
    then show ?thesis using fks objs by (simp add: patch_table_def key_entries_def)
  next
    case (Some k)
    let ?e = "primary_key_entry sc t k"
    have "set (pk_column_ids k) \<subseteq> c_id ` set (t_columns t)" using co Some by (simp add: coherent_table_def coherent_columns_def)
    then have pk: "patch_primary_key side t (patching ?es db objs) k = Inr (patching ?es db (put ?d objs ?e))"
      using objs Some by (intro patch_primary_key_put [OF raws tids t Some]) (simp_all add: key_entries_def del: map_of_eq_Some_iff)
    have "untouched (put ?d objs ?e) ?fks" using ids objs Some by (intro untouched_put) (simp_all add: key_entries_def image_image)
    moreover have "map_of ?d (pk_id k) = Some (en_identity ?e)"
    proof -
      have "?e \<in> set (table_entries sc t)" using Some by (auto simp: table_entries_def key_entries_def)
      then have "?e \<in> set ?es" using entries_of_table [OF t] by blast
      from index_lookup [OF raws this] show ?thesis by (simp add: primary_key_entry_def del: map_of_eq_Some_iff)
    qed
    ultimately show ?thesis using pk fks Some by (simp add: patch_table_def key_entries_def patching_simps del: map_of_eq_Some_iff)
  qed
qed

definition owned_tables :: "Database \<Rightarrow> (Schema \<times> Table) list" where
  "owned_tables db = concat (map (\<lambda>sc. map (Pair sc) (sc_tables sc)) (db_schemas db))"

definition all_key_entries :: "Database \<Rightarrow> entry list" where
  "all_key_entries db = concat (map (\<lambda>(sc, t). key_entries sc t) (owned_tables db))"

lemma owned_tables_simps: "map snd (owned_tables db) = database_tables db"
  "(sc, t) \<in> set (owned_tables db) \<longleftrightarrow> sc \<in> set (db_schemas db) \<and> t \<in> set (sc_tables sc)"
  unfolding owned_tables_def database_tables_def by (auto simp: map_concat comp_def)

lemma patch_keys_put:
  assumes raws: "distinct (map en_raw (project_entries ds db rels))" and p: "projectable ds db rels"
    and ids: "distinct (map en_identity (all_key_entries db))" and objs: "untouched objs (all_key_entries db)"
  shows "patch_pk_fk_refs side (patching (project_entries ds db rels) db objs) =
    Inr (patching (project_entries ds db rels) db (foldl (put (index_of (project_entries ds db rels))) objs (all_key_entries db)))"
proof -
  let ?es = "project_entries ds db rels"
  have tids: "distinct (map t_id (database_tables db))"
    using p distinct_table_ids by (auto simp: projectable_def all_ids_def database_tables_def)
  have step: "(\<lambda>st x. patch_table side st (snd x)) (patching ?es db ob) x =
      Inr (patching ?es db (foldl (put (index_of ?es)) ob ((\<lambda>(sc, t). key_entries sc t) x)))"
    if x: "x \<in> set (owned_tables db)" and ob: "untouched ob ((\<lambda>(sc, t). key_entries sc t) x)" for x ob
  proof -
    obtain sc t where sc: "x = (sc, t)" "sc \<in> set (db_schemas db)" "t \<in> set (sc_tables sc)" using x owned_tables_simps(2) by (metis surj_pair)
    then have "coherent_table (database_tables db) sc t" using p by (simp add: projectable_def list_all_iff coherent_schema_def)
    moreover have "distinct (map en_identity (key_entries sc t))"
    proof -
      obtain ys zs where "owned_tables db = ys @ (sc, t) # zs" using x sc(1) by (metis split_list)
      then show ?thesis using ids by (simp add: all_key_entries_def)
    qed
    ultimately show ?thesis using sc patch_table_put [OF raws tids sc(2,3)] ob by simp
  qed
  have "vals (keyed t_id [] (database_tables db)) = map snd (owned_tables db)"
    using tids by (simp add: keyed_distinct owned_tables_simps(1) comp_def)
  then show ?thesis
    using fold_in_patched [of "owned_tables db" "\<lambda>(sc, t). key_entries sc t", OF step] ids objs
    by (simp add: patch_pk_fk_refs_def patching_simps fold_in_map all_key_entries_def)
qed

lemma patch_relationship_put:
  assumes raws: "distinct (map en_raw (project_entries ds db rels))" and p: "projectable ds db rels" and r: "r \<in> set rels"
    and objs: "map_of objs (en_identity (relationship_entry db r)) = Some (first_object (relationship_entry db r))"
  shows "patch_relationship side (patching (project_entries ds db rels) db objs) r =
    Inr (patching (project_entries ds db rels) db (put (index_of (project_entries ds db rels)) objs (relationship_entry db r)))"
proof -
  let ?es = "project_entries ds db rels" and ?e = "relationship_entry db r"
  let ?d = "index_of ?es" and ?ts = "database_tables db"
  have tids: "distinct (map t_id ?ts)" and sids: "distinct (map sc_id (db_schemas db))" and kids: "distinct (map fk_id (table_keys ?ts))"
    using p distinct_table_ids distinct_schema_ids by (auto simp: projectable_def all_ids_def database_tables_def)
  have rel: "coherent_relationship ?ts r" using p r by (simp add: projectable_def list_all_iff)
  obtain t u where t: "t \<in> set ?ts" "t_id t = rl_from_table_id r" and u: "u \<in> set ?ts" "t_id u = rl_to_table_id r"
    using rel by (auto simp: coherent_relationship_def)
  obtain st where st: "st \<in> set (db_schemas db)" "t \<in> set (sc_tables st)" using t(1) by (auto simp: database_tables_def)
  obtain su where su: "su \<in> set (db_schemas db)" "u \<in> set (sc_tables su)" using u(1) by (auto simp: database_tables_def)
  have "t_schema_id t = sc_id st" using p st by (auto simp: projectable_def list_all_iff coherent_schema_def coherent_table_def)
  then have schema: "t_schema_id t \<in> fst ` set (keyed sc_id [] (db_schemas db))" using st(1) by (simp add: keys_keyed)
  have "?e \<in> set ?es" using r by (simp add: project_entries_def)
  from index_lookup [OF raws this] have own: "map_of ?d (rl_id r) = Some (en_identity ?e)"
    by (simp add: relationship_entry_def Let_def del: map_of_eq_Some_iff)
  have "table_entry su u \<in> set ?es" using entries_of_table [OF su] by (auto simp: table_entries_def)
  from index_lookup [OF raws this] have to: "map_of ?d (rl_to_table_id r) = Some (ci ''table'' [sc_name su, t_name u])"
    by (simp add: table_entry_def u(2) del: map_of_eq_Some_iff)
  have fk: "relationship_fk_value (patching ?es db objs) r =
      Inr (resolve_ref ?d (case rl_foreign_key_id r of None \<Rightarrow> Nothing | Some i \<Rightarrow> One i))"
  proof (cases "rl_foreign_key_id r")
    case (Some i)
    then obtain k where k: "k \<in> set (table_keys ?ts)" "fk_id k = i" "fk_table_id k = rl_from_table_id r" "fk_referenced_table_id k = rl_to_table_id r"
      using rel by (auto simp: coherent_relationship_def)
    then obtain v where v: "v \<in> set ?ts" "k \<in> set (t_foreign_keys v)" by (auto simp: table_keys_def)
    then obtain sv where sv: "sv \<in> set (db_schemas db)" "v \<in> set (sc_tables sv)" by (auto simp: database_tables_def)
    have "foreign_key_entry sv v k \<in> set (table_entries sv v)" using v(2) by (simp add: table_entries_def key_entries_def)
    then have "foreign_key_entry sv v k \<in> set ?es" using entries_of_table [OF sv] by blast
    from index_lookup [OF raws this] have "map_of ?d i = Some (ci ''foreign_key'' [sc_name sv, t_name v, fk_name k])"
      by (simp add: foreign_key_entry_def k(2) del: map_of_eq_Some_iff)
    moreover have "map_of (keyed fk_id [] (table_keys ?ts)) i = Some k" using map_of_keyed [OF kids k(1)] by (simp only: k(2))
    ultimately show ?thesis using Some k(3,4) by (simp add: relationship_fk_value_def patching_simps ref_of_def ci_def del: map_of_eq_Some_iff)
  qed (simp add: relationship_fk_value_def)
  have "ref_changes ?d ?e = [(''/to_table_id'', present (comparison_identity_dict (ci ''table'' [sc_name su, t_name u]))),
      (''/foreign_key_id'', present (resolve_ref ?d (case rl_foreign_key_id r of None \<Rightarrow> Nothing | Some i \<Rightarrow> One i)))]"
    using to by (simp add: ref_changes_def relationship_entry_def Let_def ref_of_def del: map_of_eq_Some_iff)
  moreover have "map_of (keyed t_id [] ?ts) (rl_from_table_id r) = Some t" using map_of_keyed [OF tids t(1)] by (simp only: t(2))
  ultimately show ?thesis
    using own to fk schema patch_object_put [OF objs, of ?d ?es db]
    by (simp add: patch_relationship_def Let_def patching_simps ci_def del: map_of_eq_Some_iff)
qed

section \<open>The refinement\<close>

lemma raw_ids: "mset (map en_raw (project_entries ds db rels)) = mset (all_ids ds db rels)"
proof -
  have tab: "mset (map en_raw (table_entries sc t)) = mset (table_parts t) + mset (map fk_id (t_foreign_keys t))" for sc t
    by (simp add: table_entries_def key_entries_def table_parts_def entry_defs comp_def split: option.split)
  have tabs: "mset (map en_raw (concat (map (table_entries sc) ts))) = mset (concat (map table_parts ts)) + mset (map fk_id (table_keys ts))" for sc ts
    by (induction ts) (use tab in \<open>simp_all add: table_keys_def\<close>)
  have keys: "table_keys (xs @ ys) = table_keys xs @ table_keys ys" for xs ys by (simp add: table_keys_def)
  have "mset (map en_raw (concat (map schema_entries scs))) = mset (concat (map schema_parts scs)) + mset (map fk_id (table_keys (concat (map sc_tables scs))))" for scs
  proof (induction scs)
    case (Cons sc scs)
    then show ?case by (simp add: keys schema_entries_def schema_parts_def tabs [simplified] schema_entry_def)
  qed (simp add: table_keys_def)
  then show ?thesis
    by (simp add: project_entries_def all_ids_def data_source_entry_def database_entry_def database_tables_def
        relationship_entry_def Let_def comp_def)
qed

definition linked_entries :: "Database \<Rightarrow> Relationship list \<Rightarrow> entry list" where
  "linked_entries db rels = all_key_entries db @ map (relationship_entry db) rels"

lemma linked_or_final:
  assumes "e \<in> set (project_entries ds db rels)" "e \<notin> set (linked_entries db rels)"
  shows "final_object d e = first_object e"
proof (rule no_refs_final)
  have "e \<in> set (key_entries sc t) \<Longrightarrow> sc \<in> set (db_schemas db) \<Longrightarrow> t \<in> set (sc_tables sc) \<Longrightarrow> e \<in> set (all_key_entries db)" for sc t
    using owned_tables_simps(2) by (force simp: all_key_entries_def)
  then show "en_refs e = []"
    using assms by (auto simp: project_entries_def linked_entries_def schema_entries_def table_entries_def data_source_entry_def
        database_entry_def schema_entry_def table_entry_def column_entry_def)
qed

lemma linked_subset: "set (linked_entries db rels) \<subseteq> set (project_entries ds db rels)"
proof -
  have "set (all_key_entries db) \<subseteq> set (project_entries ds db rels)"
  proof
    fix e assume "e \<in> set (all_key_entries db)"
    then obtain sc t where "(sc, t) \<in> set (owned_tables db)" "e \<in> set (key_entries sc t)" by (auto simp: all_key_entries_def)
    then have "sc \<in> set (db_schemas db)" "t \<in> set (sc_tables sc)" "e \<in> set (table_entries sc t)"
      using owned_tables_simps(2) by (auto simp: table_entries_def)
    then show "e \<in> set (project_entries ds db rels)" using entries_of_table by blast
  qed
  then show ?thesis by (auto simp: linked_entries_def project_entries_def)
qed

lemma distinct_concat_suffix:
  assumes "distinct (map h (concat (map g xs)))" and tail: "\<And>x. \<exists>ys. g x = ys @ f x"
  shows "distinct (map h (concat (map f xs)))"
  using assms(1)
proof (induction xs)
  case (Cons x xs)
  obtain ys where ys: "g x = ys @ f x" using tail by blast
  have "set (f y) \<subseteq> set (g y)" for y using tail [of y] by auto
  then have "set (concat (map f xs)) \<subseteq> set (concat (map g xs))" by auto
  then have "h ` set (concat (map f xs)) \<subseteq> h ` set (concat (map g xs))" by (rule image_mono)
  moreover have "h ` set (f x) \<inter> h ` set (concat (map g xs)) = {}" using Cons.prems ys by auto
  ultimately have "h ` set (f x) \<inter> h ` set (concat (map f xs)) = {}" by blast
  then show ?case using Cons ys by simp
qed simp

lemma linked_distinct:
  assumes "distinct (map en_identity (project_entries ds db rels))"
  shows "distinct (map en_identity (linked_entries db rels))"
proof -
  have flat: "concat (map (\<lambda>(sc, t). f sc t) (owned_tables db)) = concat (map (\<lambda>sc. concat (map (f sc) (sc_tables sc))) (db_schemas db))" for f :: "Schema \<Rightarrow> Table \<Rightarrow> entry list"
  proof -
    have "concat (map (\<lambda>(sc, t). f sc t) (concat (map (\<lambda>sc. map (Pair sc) (sc_tables sc)) scs))) =
        concat (map (\<lambda>sc. concat (map (f sc) (sc_tables sc))) scs)" for scs
      by (induction scs) (simp_all add: comp_def)
    then show ?thesis by (simp only: owned_tables_def)
  qed
  have "distinct (map en_identity (concat (map (\<lambda>sc. concat (map (table_entries sc) (sc_tables sc))) (db_schemas db))))"
  proof (rule distinct_concat_suffix [where g = schema_entries])
    show "distinct (map en_identity (concat (map schema_entries (db_schemas db))))"
      using assms by (simp add: project_entries_def)
    show "\<exists>ys. schema_entries sc = ys @ concat (map (table_entries sc) (sc_tables sc))" for sc
      by (rule exI [of _ "[schema_entry sc]"]) (simp add: schema_entries_def)
  qed
  then have "distinct (map en_identity (concat (map (\<lambda>(sc, t). table_entries sc t) (owned_tables db))))" by (simp only: flat)
  then have "distinct (map en_identity (all_key_entries db))"
    unfolding all_key_entries_def 
  proof (rule distinct_concat_suffix)
    show "\<exists>ys. (case x of (sc, t) \<Rightarrow> table_entries sc t) = ys @ (case x of (sc, t) \<Rightarrow> key_entries sc t)" for x
      by (cases x) (auto simp: table_entries_def intro: exI [of _ "table_entry (fst x) (snd x) # map (column_entry (fst x) (snd x)) (t_columns (snd x))"])
  qed
  moreover have "en_identity ` set (all_key_entries db) \<subseteq> en_identity ` set (concat (map schema_entries (db_schemas db)))"
  proof (rule image_mono)
    show "set (all_key_entries db) \<subseteq> set (concat (map schema_entries (db_schemas db)))"
    proof
      fix e assume "e \<in> set (all_key_entries db)"
      then obtain sc t where "(sc, t) \<in> set (owned_tables db)" "e \<in> set (key_entries sc t)" by (auto simp: all_key_entries_def)
      then have "sc \<in> set (db_schemas db)" "t \<in> set (sc_tables sc)" "e \<in> set (table_entries sc t)"
        using owned_tables_simps(2) by (auto simp: table_entries_def)
      then show "e \<in> set (concat (map schema_entries (db_schemas db)))" by (auto simp: schema_entries_def)
    qed
  qed
  moreover have "distinct (map en_identity (map (relationship_entry db) rels))"
    "en_identity ` set (concat (map schema_entries (db_schemas db))) \<inter> en_identity ` set (map (relationship_entry db) rels) = {}"
    using assms unfolding project_entries_def by (simp_all only: list.map map_append distinct.simps distinct_append set_map)
  ultimately show ?thesis unfolding linked_entries_def map_append distinct_append set_map by blast
qed

lemma coherent_projectable:
  assumes "coherent_snapshot sn"
  obtains ds db where "validate_snapshot_shape_and_envelope side sn = Inr (ds, db)" "gm_data_sources (sn_model sn) = [ds]"
    "ds_databases ds = [db]" "projectable ds db (gm_relationships (sn_model sn))"
proof -
  obtain ds db where *: "gm_data_sources (sn_model sn) = [ds]" "ds_databases ds = [db]" "mk_data_source ds = Inr ds"
    "db_datasource_id db = ds_id ds" "list_all (coherent_schema (database_tables db) db) (db_schemas db)"
    "list_all (coherent_relationship (database_tables db)) (gm_relationships (sn_model sn))"
    "distinct (all_ids ds db (gm_relationships (sn_model sn)))"
    "sn_source_name sn = ds_name ds" "sn_database_name sn = db_name db" "sn_system_type sn = ds_system_type ds"
    "sn_scanner sn \<noteq> []" "sn_scanner_contract_version sn = SCANNER_CONTRACT_VERSION"
    using assms unfolding coherent_snapshot_def by blast
  have "validate_snapshot_shape_and_envelope side sn = Inr (ds, db)"
    using * texts_present(8) [OF *(3)]
    by (simp add: validate_snapshot_shape_and_envelope_def Let_def when_error_def SCANNER_CONTRACT_VERSION_def)
  then show thesis using that * by (simp add: projectable_def)
qed

lemma projection_eq:
  assumes p: "projectable ds db rels" and v: "validate_snapshot_shape_and_envelope side sn = Inr (ds, db)" and r: "gm_relationships (sn_model sn) = rels"
  shows "if distinct (map en_identity (project_entries ds db rels))
    then project_snapshot side sn = Inr (spec_projection sn (project_entries ds db rels))
    else \<exists>errors. project_snapshot side sn = Inl (comparison_error errors) \<and> errors \<noteq> [] \<and>
      list_all (\<lambda>d. d_code d = ''duplicate_comparison_identity'') errors"
proof -
  let ?es = "project_entries ds db rels"
  let ?d = "index_of ?es"
  have raws: "distinct (map en_raw ?es)" using p raw_ids mset_eq_imp_distinct_iff by (metis projectable_def)
  show ?thesis
  proof (cases "distinct (map en_identity ?es)")
    case True
    let ?objs = "map (\<lambda>e. (en_identity e, first_object e)) ?es"
    have pass: "first_pass side ds db rels = Inr (patching ?es db ?objs)"
      using first_pass_passed [OF p] register_all [OF raws True] by (simp add: patching_def registered_def)
    have all: "untouched ?objs (linked_entries db rels)"
      unfolding untouched_def list_all_iff
    proof
      fix e assume "e \<in> set (linked_entries db rels)"
      then have "e \<in> set ?es" using linked_subset by blast
      then show "map_of ?objs (en_identity e) = Some (first_object e)"
        using True by (intro map_of_is_SomeI) (auto simp: comp_def)
    qed
    have ids: "distinct (map en_identity (linked_entries db rels))" by (rule linked_distinct [OF True])
    have keys: "patch_pk_fk_refs side (patching ?es db ?objs) = Inr (patching ?es db (foldl (put ?d) ?objs (all_key_entries db)))"
      using ids all by (intro patch_keys_put [OF raws p]) (simp_all add: linked_entries_def)
    let ?mid = "foldl (put ?d) ?objs (all_key_entries db)"
    have "untouched ?mid (map (relationship_entry db) rels)"
      using ids all by (intro untouched_puts) (auto simp: linked_entries_def)
    moreover have "patch_relationship side (patching ?es db ob) x = Inr (patching ?es db (foldl (put ?d) ob [relationship_entry db x]))"
      if "x \<in> set rels" "untouched ob [relationship_entry db x]" for x ob
      using patch_relationship_put [OF raws p that(1)] that(2) by (simp del: map_of_eq_Some_iff)
    ultimately have rel: "fold_in (patch_relationship side) (patching ?es db ?mid) rels =
        Inr (patching ?es db (foldl (put ?d) ?mid (map (relationship_entry db) rels)))"
      using fold_in_patched [of rels "\<lambda>r. [relationship_entry db r]" "patch_relationship side" ?es db ?d ?mid] ids
      by (simp add: linked_entries_def)
    have "foldl (put ?d) ?mid (map (relationship_entry db) rels) = foldl (put ?d) ?objs (linked_entries db rels)"
      by (simp add: linked_entries_def)
    also have "\<dots> = map (\<lambda>e. (en_identity e, final_object ?d e)) ?es"
      unfolding puts_present [OF linked_subset True] using linked_or_final by (intro map_cong) auto
    finally show ?thesis using True v r pass keys rel
      by (simp add: project_snapshot_def Let_def raise_errors_def patching_simps spec_projection_def)
  next
    case False
    let ?r = "foldl (register_entry side) no_objects ?es"
    have "clashing ?r ?es" by (rule register_clash [OF raws])
    then have "rg_errors ?r \<noteq> []" "list_all (\<lambda>d. d_code d = ''duplicate_comparison_identity'') (rg_errors ?r)"
      using False by (auto simp: clashing_def)
    then show ?thesis using False v r first_pass_passed [OF p]
      by (auto simp: project_snapshot_def Let_def raise_errors_def)
  qed
qed

text \<open>Identity dictionaries as sort keys.\<close>

lemma comparison_identity_bytes_inj: "comparison_identity_bytes i = comparison_identity_bytes j \<longleftrightarrow> i = j"
proof
  assume "comparison_identity_bytes i = comparison_identity_bytes j"
  moreover have "wf_json (comparison_identity_dict k)" "sorted_json (comparison_identity_dict k)" for k
    by (auto simp: comparison_identity_dict_def list_all_iff)
  ultimately have "comparison_identity_dict i = comparison_identity_dict j"
    unfolding comparison_identity_bytes_def by (intro canonical_json_bytes_inj) auto
  then show "i = j" by (cases i, cases j) (simp add: comparison_identity_dict_def inj_map_eq_map inj_def)
qed simp

interpretation comparison_key: canonical_key comparison_identity_bytes "\<lambda>_. True"
  by unfold_locales (simp add: comparison_identity_bytes_inj)

section \<open>Properties\<close>

text \<open>C29 (refinement). The projection of a coherent snapshot is the abstract one: \<open>project_snapshot\<close> succeeds exactly
  when the structured identities of all objects differ, and then its dictionaries hold every object in model
  order, with its parent and with all key and relationship references replaced by identities. When two
  objects share an identity it reports only \<open>duplicate_comparison_identity\<close> diagnostics; none of its
  reference checks can fail on a snapshot that was loaded.\<close>

theorem projection_refines_spec:
  assumes "coherent_snapshot sn"
  shows "\<exists>ds db. gm_data_sources (sn_model sn) = [ds] \<and> ds_databases ds = [db] \<and>
    (let es = project_entries ds db (gm_relationships (sn_model sn)) in
     if distinct (map en_identity es) then project_snapshot side sn = Inr (spec_projection sn es)
     else \<exists>errors. project_snapshot side sn = Inl (comparison_error errors) \<and> errors \<noteq> [] \<and>
       list_all (\<lambda>d. d_code d = ''duplicate_comparison_identity'') errors)"
proof -
  obtain ds db where *: "validate_snapshot_shape_and_envelope side sn = Inr (ds, db)" "gm_data_sources (sn_model sn) = [ds]"
    "ds_databases ds = [db]" "projectable ds db (gm_relationships (sn_model sn))" by (rule coherent_projectable [OF assms])
  show ?thesis using projection_eq [OF *(4,1) refl] *(2,3) by (simp add: Let_def)
qed

lemma projection_refines_spec_witness:
  "\<exists>p. project_snapshot ''baseline'' small_snapshot = Inr p \<and> length (pj_objects p) = 8"
proof -
  let ?ds = "hd (gm_data_sources (sn_model small_snapshot))"
  let ?es = "project_entries ?ds (hd (ds_databases ?ds)) (gm_relationships (sn_model small_snapshot))"
  have "distinct (map en_identity ?es)" "length ?es = 8" by code_simp+
  then show ?thesis using projection_refines_spec [OF small_snapshot_coherent, of "''baseline''"]
    by (auto simp: Let_def spec_projection_def)
qed

end
