(* ===== verification/Comparison.thy ===== *)
theory Comparison
  imports Projection_Spec
begin

text \<open>
  \<open>comparison/align.py\<close>, \<open>comparison/compare.py\<close>, \<open>comparison/result.py\<close> and \<open>comparison/properties.py\<close>: the
  directional comparison of two projected snapshots, its result, the check that two results are inverse to
  each other, and the validator of property changes that loaded comparison artifacts pass through.
\<close>

section \<open>Root alignment\<close>

record RootAlignmentAck =
  align_source_roots :: bool
  align_database_roots :: bool

type_synonym alignment_block = "(string \<times> string) option"

record RootAlignmentResult =
  ra_source :: alignment_block
  ra_database :: alignment_block

definition alignment_block_dict :: "alignment_block \<Rightarrow> json" where
  "alignment_block_dict b = opt_dict (\<lambda>(x, y). JObject [(''baseline'', JStr x), (''candidate'', JStr y)]) b"

definition root_alignment_dict :: "RootAlignmentResult \<Rightarrow> json" where
  "root_alignment_dict r = JObject [(''database'', alignment_block_dict (ra_database r)), (''source'', alignment_block_dict (ra_source r))]"

definition resolve_root_alignment ::
  "GovernanceSnapshot \<Rightarrow> GovernanceSnapshot \<Rightarrow> RootAlignmentAck \<Rightarrow> RootAlignmentResult result" where
  "resolve_root_alignment baseline candidate ack =
     (let source_differs = sn_source_name baseline \<noteq> sn_source_name candidate;
          database_differs = sn_database_name baseline \<noteq> sn_database_name candidate;
          errors =
            when_error (source_differs \<and> \<not> align_source_roots ack) ''root_alignment_required'' ''/root_alignment/source''
              ''source names differ; pass --align-source-roots to acknowledge matching'' @
            when_error (database_differs \<and> \<not> align_database_roots ack) ''root_alignment_required'' ''/root_alignment/database''
              ''database names differ; pass --align-database-roots to acknowledge matching'' in
      if errors \<noteq> [] then Inl (comparison_error errors)
      else Inr \<lparr>ra_source = (if source_differs then Some (sn_source_name baseline, sn_source_name candidate) else None),
             ra_database = (if database_differs then Some (sn_database_name baseline, sn_database_name candidate) else None)\<rparr>)"

section \<open>Comparison of projections\<close>

definition comparable_values_equal :: "json \<Rightarrow> json \<Rightarrow> bool" where
  "comparable_values_equal left right \<longleftrightarrow> canonical_value_fingerprint left = canonical_value_fingerprint right"

definition property_values_equal :: "ComparablePropertyValue \<Rightarrow> ComparablePropertyValue \<Rightarrow> bool" where
  "property_values_equal left right =
     (if cv_has_value left \<noteq> cv_has_value right then False
      else if \<not> cv_has_value left then True
      else comparable_values_equal (cv_value left) (cv_value right))"

record property_change =
  pc_baseline :: ComparablePropertyValue
  pc_candidate :: ComparablePropertyValue
  pc_property :: string

definition property_or_missing :: "properties \<Rightarrow> string \<Rightarrow> ComparablePropertyValue" where
  "property_or_missing ps key = (case map_of ps key of None \<Rightarrow> missing | Some v \<Rightarrow> v)"

definition diff_properties :: "ComparableObject \<Rightarrow> ComparableObject \<Rightarrow> property_change list" where
  "diff_properties baseline candidate =
     (let left = property_or_missing (cb_properties baseline); right = property_or_missing (cb_properties candidate) in
      map (\<lambda>key. \<lparr>pc_baseline = left key, pc_candidate = right key, pc_property = key\<rparr>)
        (filter (\<lambda>key. \<not> property_values_equal (left key) (right key))
          (canon_set (\<lambda>k. k) (keys (cb_properties baseline) @ keys (cb_properties candidate)))))"

datatype change_kind = Added | Removed | Changed

fun change_name :: "change_kind \<Rightarrow> string" where
  "change_name Added = ''added''"
| "change_name Removed = ''removed''"
| "change_name Changed = ''changed''"

fun CHANGE_RANK :: "change_kind \<Rightarrow> nat" where
  "CHANGE_RANK Added = 0"
| "CHANGE_RANK Removed = 1"
| "CHANGE_RANK Changed = 2"

record object_change =
  oc_change :: change_kind
  oc_object_identity :: ComparisonObjectIdentity
  oc_parent_identity :: "ComparisonObjectIdentity option"
  oc_property_changes :: "property_change list"

definition property_change_dict :: "property_change \<Rightarrow> json" where
  "property_change_dict c = JObject [(''baseline'', property_value_dict (pc_baseline c)),
     (''candidate'', property_value_dict (pc_candidate c)), (''property'', JStr (pc_property c))]"

definition object_change_dict :: "object_change \<Rightarrow> json" where
  "object_change_dict c = JObject [(''change'', JStr (change_name (oc_change c))),
     (''object_identity'', comparison_identity_dict (oc_object_identity c)),
     (''parent_identity'', opt_dict comparison_identity_dict (oc_parent_identity c)),
     (''property_changes'', JArray (map property_change_dict (oc_property_changes c)))]"

record comparison_summary =
  sm_added :: nat
  sm_removed :: nat
  sm_changed :: nat
  sm_unchanged :: nat
  sm_property_changes :: nat

definition summary_dict :: "comparison_summary \<Rightarrow> json" where
  "summary_dict s = JObject [(''added'', JInt (int (sm_added s))), (''removed'', JInt (int (sm_removed s))),
     (''changed'', JInt (int (sm_changed s))), (''unchanged'', JInt (int (sm_unchanged s))),
     (''property_changes'', JInt (int (sm_property_changes s)))]"

text \<open>The sorted identifier sets are lists of items here: an identity with its object, or with both objects.\<close>

definition unmatched :: "ProjectedSnapshot \<Rightarrow> ProjectedSnapshot \<Rightarrow> (ComparisonObjectIdentity \<times> ComparableObject) list" where
  "unmatched here there = sort_key (\<lambda>(i, _). comparison_identity_bytes i)
     (filter (\<lambda>(i, _). i \<notin> set (keys (pj_objects there))) (pj_objects here))"

definition matched :: "ProjectedSnapshot \<Rightarrow> ProjectedSnapshot \<Rightarrow>
    (ComparisonObjectIdentity \<times> ComparableObject \<times> ComparableObject) list" where
  "matched baseline candidate = sort_key (\<lambda>(i, _). comparison_identity_bytes i)
     (concat (map (\<lambda>(i, left). case map_of (pj_objects candidate) i of None \<Rightarrow> [] | Some right \<Rightarrow> [(i, left, right)])
       (pj_objects baseline)))"

definition unmatched_change :: "change_kind \<Rightarrow> ComparisonObjectIdentity \<times> ComparableObject \<Rightarrow> object_change" where
  "unmatched_change k pair = \<lparr>oc_change = k, oc_object_identity = fst pair, oc_parent_identity = cb_parent_identity (snd pair),
     oc_property_changes = []\<rparr>"

record matched_loop =
  ml_changes :: "object_change list"
  ml_changed :: nat
  ml_property_changes :: nat
  ml_unchanged :: nat

definition compare_matched ::
  "matched_loop \<Rightarrow> ComparisonObjectIdentity \<times> ComparableObject \<times> ComparableObject \<Rightarrow> matched_loop" where
  "compare_matched s pair =
     (let (identity, left, right) = pair; prop_changes = diff_properties left right in
      if prop_changes = [] then s\<lparr>ml_unchanged := Suc (ml_unchanged s)\<rparr>
      else s\<lparr>ml_changed := Suc (ml_changed s), ml_property_changes := ml_property_changes s + length prop_changes,
        ml_changes := ml_changes s @ [\<lparr>oc_change = Changed, oc_object_identity = identity,
          oc_parent_identity = cb_parent_identity left, oc_property_changes = prop_changes\<rparr>]\<rparr>)"

definition change_sort_key :: "object_change \<Rightarrow> nat \<times> string" where
  "change_sort_key c = (CHANGE_RANK (oc_change c), comparison_identity_bytes (oc_object_identity c))"

definition compare_projected :: "ProjectedSnapshot \<Rightarrow> ProjectedSnapshot \<Rightarrow> object_change list \<times> comparison_summary" where
  "compare_projected baseline candidate =
     (let added = unmatched candidate baseline; removed = unmatched baseline candidate;
          s = foldl compare_matched \<lparr>ml_changes = map (unmatched_change Added) added @ map (unmatched_change Removed) removed,
                ml_changed = 0, ml_property_changes = 0, ml_unchanged = 0\<rparr> (matched baseline candidate) in
      (sort_key change_sort_key (ml_changes s),
       \<lparr>sm_added = length added, sm_removed = length removed, sm_changed = ml_changed s, sm_unchanged = ml_unchanged s,
        sm_property_changes = ml_property_changes s\<rparr>))"

section \<open>The result\<close>

definition artifact_metadata :: "(string \<Rightarrow> string) \<Rightarrow> GovernanceSnapshot \<Rightarrow> json" where
  "artifact_metadata sha s = JObject [(''content_identity'', content_identity_dict (snapshot_content_identity sha s)),
     (''database_name'', JStr (sn_database_name s)), (''scanner'', JStr (sn_scanner s)),
     (''scanner_contract_version'', JStr (sn_scanner_contract_version s)), (''source_name'', JStr (sn_source_name s)),
     (''system_type'', JStr (sn_system_type s))]"

definition validate_pairwise_scanner :: "GovernanceSnapshot \<Rightarrow> GovernanceSnapshot \<Rightarrow> unit result" where
  "validate_pairwise_scanner baseline candidate =
     (let errors =
            when_error (sn_system_type baseline \<noteq> sn_system_type candidate) ''system_type_mismatch'' ''/system_type''
              (''baseline system_type '' @ py_repr (sn_system_type baseline) @ '' != candidate '' @ py_repr (sn_system_type candidate)) @
            when_error (sn_scanner baseline \<noteq> sn_scanner candidate) ''scanner_mismatch'' ''/scanner''
              (''baseline scanner '' @ py_repr (sn_scanner baseline) @ '' != candidate '' @ py_repr (sn_scanner candidate)) in
      if errors = [] then Inr () else Inl (comparison_error errors))"

record comparison_result =
  cr_baseline :: json
  cr_candidate :: json
  cr_object_changes :: "object_change list"
  cr_root_alignment :: RootAlignmentResult
  cr_status :: string
  cr_summary :: comparison_summary

definition comparison_without_identity :: "comparison_result \<Rightarrow> (string \<times> json) list" where
  "comparison_without_identity r = [(''baseline'', cr_baseline r), (''candidate'', cr_candidate r),
     (''comparison_schema'', JStr ''governance-snapshot-comparison''), (''comparison_version'', JStr ''1''),
     (''direction'', JStr ''baseline_to_candidate''), (''object_changes'', JArray (map object_change_dict (cr_object_changes r))),
     (''root_alignment'', root_alignment_dict (cr_root_alignment r)), (''status'', JStr (cr_status r)),
     (''summary'', summary_dict (cr_summary r)), (''writes_performed'', JInt 0)]"

definition comparison_result_dict :: "(string \<Rightarrow> string) \<Rightarrow> comparison_result \<Rightarrow> json" where
  "comparison_result_dict sha r = JObject (comparison_without_identity r @
     [(''content_identity'', content_identity_dict (sha256_identity sha SnapshotComparisonId (JObject (comparison_without_identity r))))])"

definition build_comparison_result ::
  "(string \<Rightarrow> string) \<Rightarrow> GovernanceSnapshot \<Rightarrow> GovernanceSnapshot \<Rightarrow> RootAlignmentAck \<Rightarrow> comparison_result result" where
  "build_comparison_result sha baseline candidate ack =
     try_in (project_snapshot ''baseline'' baseline) (\<lambda>projected_baseline.
     try_in (project_snapshot ''candidate'' candidate) (\<lambda>projected_candidate.
     try_in (validate_pairwise_scanner baseline candidate) (\<lambda>_.
     try_in (resolve_root_alignment baseline candidate ack) (\<lambda>alignment.
       let (object_changes, summary) = compare_projected projected_baseline projected_candidate;
           status = if sm_added summary = 0 \<and> sm_removed summary = 0 \<and> sm_changed summary = 0 then ''identical'' else ''different'' in
       if sm_changed summary = 0 \<and> sm_property_changes summary \<noteq> 0
       then Inl (ValueError ''inconsistent summary: changed=0 but property_changes!=0'')
       else Inr \<lparr>cr_baseline = artifact_metadata sha baseline, cr_candidate = artifact_metadata sha candidate,
         cr_object_changes = object_changes, cr_root_alignment = alignment, cr_status = status, cr_summary = summary\<rparr>))))"

section \<open>Inverse results\<close>

definition swap_alignment :: "alignment_block \<Rightarrow> alignment_block" where
  "swap_alignment b = map_option (\<lambda>(x, y). (y, x)) b"

type_synonym change_key = "change_kind \<times> string \<times> string list"

definition change_key_of :: "object_change \<Rightarrow> change_key" where
  "change_key_of c = (oc_change c, co_kind (oc_object_identity c), co_path (oc_object_identity c))"

fun inverse_kind :: "change_kind \<Rightarrow> change_kind" where
  "inverse_kind Added = Removed"
| "inverse_kind Removed = Added"
| "inverse_kind Changed = Changed"

definition assert_inverse_property :: "(string, property_change) dict \<Rightarrow> string \<times> property_change \<Rightarrow> unit result" where
  "assert_inverse_property right_props entry =
     (case map_of right_props (fst entry) of
        None \<Rightarrow> Inl (KeyError (fst entry))
      | Some right_change \<Rightarrow>
          require (pc_baseline (snd entry) = pc_candidate right_change \<and> pc_candidate (snd entry) = pc_baseline right_change) AssertionError)"

definition props_by_name :: "object_change \<Rightarrow> (string, property_change) dict" where
  "props_by_name c = dict_of (map (\<lambda>p. (pc_property p, p)) (oc_property_changes c))"

definition assert_inverse_change :: "(change_key, object_change) dict \<Rightarrow> change_key \<times> object_change \<Rightarrow> unit result" where
  "assert_inverse_change right_by_key entry =
     (let ((change, key), pair) = entry in
      case map_of right_by_key (inverse_kind change, key) of
        None \<Rightarrow> Inl (KeyError (fst key))
      | Some opposite \<Rightarrow>
          if change \<noteq> Changed then require (oc_property_changes opposite = []) AssertionError
          else
            try_in (require (length (oc_property_changes pair) = length (oc_property_changes opposite)) AssertionError) (\<lambda>_.
            let left_props = props_by_name pair; right_props = props_by_name opposite in
            try_in (require (set (keys left_props) = set (keys right_props)) AssertionError) (\<lambda>_.
              check_each (assert_inverse_property right_props) left_props)))"

definition assert_inverse :: "comparison_result \<Rightarrow> comparison_result \<Rightarrow> unit result" where
  "assert_inverse left right =
     try_in (require (cr_baseline left = cr_candidate right \<and> cr_candidate left = cr_baseline right \<and>
         sm_added (cr_summary left) = sm_removed (cr_summary right) \<and> sm_removed (cr_summary left) = sm_added (cr_summary right) \<and>
         sm_changed (cr_summary left) = sm_changed (cr_summary right) \<and> sm_unchanged (cr_summary left) = sm_unchanged (cr_summary right) \<and>
         sm_property_changes (cr_summary left) = sm_property_changes (cr_summary right) \<and>
         ra_source (cr_root_alignment left) = swap_alignment (ra_source (cr_root_alignment right)) \<and>
         ra_database (cr_root_alignment left) = swap_alignment (ra_database (cr_root_alignment right))) AssertionError) (\<lambda>_.
     let by_key = (\<lambda>r. dict_of (map (\<lambda>c. (change_key_of c, c)) (cr_object_changes r))) in
     check_each (assert_inverse_change (by_key right)) (by_key left))"

section \<open>What a comparison contains\<close>

definition objects_of :: "ProjectedSnapshot \<Rightarrow> ComparisonObjectIdentity \<rightharpoonup> ComparableObject" where
  "objects_of p = map_of (pj_objects p)"

definition well_keyed :: "ProjectedSnapshot \<Rightarrow> bool" where
  "well_keyed p \<longleftrightarrow> distinct (keys (pj_objects p))"

definition change_of :: "change_kind \<Rightarrow> ComparisonObjectIdentity \<Rightarrow> ComparableObject \<Rightarrow> property_change list \<Rightarrow> object_change" where
  "change_of k i obj ps = \<lparr>oc_change = k, oc_object_identity = i, oc_parent_identity = cb_parent_identity obj, oc_property_changes = ps\<rparr>"

text \<open>The set of changes between two projections, stated by lookups only.\<close>

definition specified_changes :: "ProjectedSnapshot \<Rightarrow> ProjectedSnapshot \<Rightarrow> object_change set" where
  "specified_changes b c =
     {change_of Added i y [] |i y. objects_of b i = None \<and> objects_of c i = Some y} \<union>
     {change_of Removed i x [] |i x. objects_of b i = Some x \<and> objects_of c i = None} \<union>
     {change_of Changed i x (diff_properties x y) |i x y. objects_of b i = Some x \<and> objects_of c i = Some y \<and> diff_properties x y \<noteq> []}"

definition specified_diff :: "ComparableObject \<Rightarrow> ComparableObject \<Rightarrow> property_change set" where
  "specified_diff x y = {\<lparr>pc_baseline = l, pc_candidate = r, pc_property = k\<rparr> |l r k.
     l = property_or_missing (cb_properties x) k \<and> r = property_or_missing (cb_properties y) k \<and> \<not> property_values_equal l r}"

lemma property_values_equal_refl [simp]: "property_values_equal v v"
  by (simp add: property_values_equal_def comparable_values_equal_def)

lemma property_values_equal_sym: "property_values_equal v w \<longleftrightarrow> property_values_equal w v"
  by (auto simp: property_values_equal_def comparable_values_equal_def)

interpretation name_key: canonical_key "\<lambda>k :: string. k" "\<lambda>_. True"
  by unfold_locales

lemma diff_properties_spec:
  "set (diff_properties x y) = specified_diff x y \<and> sorted_wrt (<) (map pc_property (diff_properties x y))"
proof
  let ?ks = "canon_set (\<lambda>k. k) (keys (cb_properties x) @ keys (cb_properties y))"
  have "property_values_equal (property_or_missing (cb_properties x) k) (property_or_missing (cb_properties y) k)" if "k \<notin> set ?ks" for k
  proof -
    have "map_of (cb_properties x) k = None" "map_of (cb_properties y) k = None" using that by (simp_all add: map_of_eq_None_iff)
    then show ?thesis by (simp add: property_or_missing_def)
  qed
  then show "set (diff_properties x y) = specified_diff x y"
    unfolding diff_properties_def Let_def specified_diff_def set_map set_filter by blast
  have "sorted_wrt (<) (map (\<lambda>k. k) ?ks)" by (rule name_key.strictly_sorted_canon_set) (simp add: list_all_iff)
  then have "sorted_wrt (<) (filter P ?ks)" for P by (simp add: sorted_wrt_filter)
  then show "sorted_wrt (<) (map pc_property (diff_properties x y))" by (simp add: diff_properties_def Let_def comp_def)
qed

lemma compare_matched_loop:
  "foldl compare_matched s xs = s\<lparr>
     ml_changes := ml_changes s @ map (\<lambda>(i, x, y). change_of Changed i x (diff_properties x y)) (filter (\<lambda>(i, x, y). diff_properties x y \<noteq> []) xs),
     ml_changed := ml_changed s + length (filter (\<lambda>(i, x, y). diff_properties x y \<noteq> []) xs),
     ml_property_changes := ml_property_changes s + sum_list (map (\<lambda>(i, x, y). length (diff_properties x y)) xs),
     ml_unchanged := ml_unchanged s + length (filter (\<lambda>(i, x, y). diff_properties x y = []) xs)\<rparr>"
  by (induction xs arbitrary: s) (auto simp: compare_matched_def Let_def change_of_def)

definition raw_changes :: "ProjectedSnapshot \<Rightarrow> ProjectedSnapshot \<Rightarrow> object_change list" where
  "raw_changes b c = map (unmatched_change Added) (unmatched c b) @ map (unmatched_change Removed) (unmatched b c) @
     map (\<lambda>(i, x, y). change_of Changed i x (diff_properties x y)) (filter (\<lambda>(i, x, y). diff_properties x y \<noteq> []) (matched b c))"

lemma set_unmatched:
  "well_keyed p \<Longrightarrow> (i, x) \<in> set (unmatched p q) \<longleftrightarrow> objects_of p i = Some x \<and> objects_of q i = None"
  by (auto simp: unmatched_def objects_of_def well_keyed_def map_of_eq_None_iff)

lemma set_matched:
  "well_keyed b \<Longrightarrow> (i, x, y) \<in> set (matched b c) \<longleftrightarrow> objects_of b i = Some x \<and> objects_of c i = Some y"
  by (force simp: matched_def objects_of_def well_keyed_def split: option.splits)

lemma set_raw_changes:
  assumes "well_keyed b" "well_keyed c" shows "set (raw_changes b c) = specified_changes b c"
proof -
  have u: "set (unmatched p q) = {(i, x). objects_of p i = Some x \<and> objects_of q i = None}" if "well_keyed p" for p q
    using set_unmatched [OF that] by auto
  have m: "set (matched b c) = {(i, x, y). objects_of b i = Some x \<and> objects_of c i = Some y}"
    using set_matched [OF assms(1)] by auto
  have un: "unmatched_change k ` {(i, x). P i x} = {change_of k i x [] |i x. P i x}" for k P
    by (auto simp: unmatched_change_def change_of_def image_iff)
  have ma: "(\<lambda>(i, x, y). change_of Changed i x (diff_properties x y)) ` {z \<in> {(i, x, y). P i x y}. case z of (i, x, y) \<Rightarrow> diff_properties x y \<noteq> []} =
      {change_of Changed i x (diff_properties x y) |i x y. P i x y \<and> diff_properties x y \<noteq> []}" for P
    by (auto simp: image_iff) blast
  show ?thesis
    unfolding raw_changes_def specified_changes_def set_append set_map set_filter u [OF assms(1)] u [OF assms(2)] m un ma
    by auto
qed

text \<open>No two changes share rank and identity, so the order of the changes is determined.\<close>

lemma change_sort_key_eq: "change_sort_key c = change_sort_key d \<longleftrightarrow> oc_change c = oc_change d \<and> oc_object_identity c = oc_object_identity d"
  by (cases "oc_change c"; cases "oc_change d") (auto simp: change_sort_key_def comparison_identity_bytes_inj)

lemma specified_changes_keys: "c \<in> specified_changes x y \<Longrightarrow> d \<in> specified_changes x y \<Longrightarrow> oc_object_identity c = oc_object_identity d \<Longrightarrow> c = d"
  unfolding specified_changes_def by (auto simp: change_of_def)

lemma distinct_matched:
  assumes "well_keyed b" shows "distinct (keys (matched b c))"
proof -
  have "map fst (concat (map (\<lambda>(i, left). case map_of (pj_objects c) i of None \<Rightarrow> [] | Some right \<Rightarrow> [(i, left, right)]) xs)) =
      filter (\<lambda>i. map_of (pj_objects c) i \<noteq> None) (keys xs)" for xs :: "(ComparisonObjectIdentity \<times> ComparableObject) list"
    by (induction xs) (auto split: option.split)
  then show ?thesis using assms unfolding matched_def by (simp only: distinct_map_sort_key) (simp add: well_keyed_def)
qed

lemma distinct_unmatched:
  assumes "well_keyed p" shows "distinct (keys (unmatched p q))"
proof -
  have "keys (filter (\<lambda>(i, _). P i) xs) = filter P (keys xs)" for P and xs :: "(ComparisonObjectIdentity \<times> ComparableObject) list"
    by (induction xs) auto
  then show ?thesis using assms by (simp add: unmatched_def well_keyed_def distinct_map_sort_key)
qed

lemma length_matched:
  assumes "well_keyed b" shows "length (matched b c) = card (dom (objects_of b) \<inter> dom (objects_of c))"
proof -
  have "length (matched b c) = card (set (keys (matched b c)))" using distinct_matched [OF assms] by (metis distinct_card length_map)
  also have "set (keys (matched b c)) = dom (objects_of b) \<inter> dom (objects_of c)"
    using set_matched [OF assms] by (force simp: dom_def)
  finally show ?thesis .
qed

lemma distinct_raw_changes:
  assumes "well_keyed b" "well_keyed c" shows "distinct (map oc_object_identity (raw_changes b c))"
proof -
  have mapped: "map oc_object_identity (map (unmatched_change k) xs) = keys xs" for k xs
    by (simp add: unmatched_change_def comp_def)
  have changed: "map oc_object_identity (map (\<lambda>(i, x, y). change_of Changed i x (diff_properties x y)) xs) = keys xs" for xs
    by (induction xs) (auto simp: change_of_def)
  have kept: "distinct (keys (filter P xs))" "set (keys (filter P xs)) \<subseteq> set (keys xs)" if "distinct (keys xs)"
    for P and xs :: "(ComparisonObjectIdentity \<times> ComparableObject \<times> ComparableObject) list"
    using that by (auto simp: distinct_map_filter)
  have sets: "set (keys (unmatched c b)) \<inter> set (keys (unmatched b c)) = {}" "set (keys (unmatched c b)) \<inter> set (keys (matched b c)) = {}"
    "set (keys (unmatched b c)) \<inter> set (keys (matched b c)) = {}"
    by (auto simp: set_unmatched [OF assms(1)] set_unmatched [OF assms(2)] set_matched [OF assms(1)])
  show ?thesis
    unfolding raw_changes_def map_append mapped changed distinct_append set_append
    using distinct_unmatched [OF assms(1)] distinct_unmatched [OF assms(2)] kept [OF distinct_matched [OF assms(1)]] sets by blast
qed

lemma compare_projected_eq:
  "compare_projected b c = (sort_key change_sort_key (raw_changes b c),
     \<lparr>sm_added = length (unmatched c b), sm_removed = length (unmatched b c),
      sm_changed = length (filter (\<lambda>(i, x, y). diff_properties x y \<noteq> []) (matched b c)),
      sm_unchanged = length (filter (\<lambda>(i, x, y). diff_properties x y = []) (matched b c)),
      sm_property_changes = sum_list (map (\<lambda>(i, x, y). length (diff_properties x y)) (matched b c))\<rparr>)"
  by (simp add: compare_projected_def Let_def compare_matched_loop raw_changes_def)

text \<open>The specification of a comparison: its changes in order, and the counts.\<close>

definition exact_comparison :: "ProjectedSnapshot \<Rightarrow> ProjectedSnapshot \<Rightarrow> object_change list \<Rightarrow> comparison_summary \<Rightarrow> bool" where
  "exact_comparison b c changes summary \<longleftrightarrow>
     set changes = specified_changes b c \<and> sorted_wrt (<) (map change_sort_key changes) \<and>
     sm_added summary = length (filter (\<lambda>x. oc_change x = Added) changes) \<and>
     sm_removed summary = length (filter (\<lambda>x. oc_change x = Removed) changes) \<and>
     sm_changed summary = length (filter (\<lambda>x. oc_change x = Changed) changes) \<and>
     sm_changed summary + sm_unchanged summary = card (dom (objects_of b) \<inter> dom (objects_of c)) \<and>
     sm_property_changes summary = sum_list (map (\<lambda>x. length (oc_property_changes x)) changes)"

lemma compare_projected_exact:
  assumes "well_keyed b" "well_keyed c"
  shows "exact_comparison b c (fst (compare_projected b c)) (snd (compare_projected b c))"
proof -
  let ?raw = "raw_changes b c"
  have count: "length (filter P (sort_key change_sort_key ?raw)) = length (filter P ?raw)" for P
    by (metis mset_filter mset_sort size_mset)
  have sum: "sum_list (map f (sort_key change_sort_key ?raw)) = sum_list (map f ?raw)" for f :: "object_change \<Rightarrow> nat"
    by (metis mset_map mset_sort sum_mset_sum_list)
  have "distinct (map change_sort_key ?raw)"
  proof -
    have "inj_on change_sort_key (set ?raw)" unfolding set_raw_changes [OF assms]
      by (rule inj_onI) (auto simp: change_sort_key_eq dest: specified_changes_keys)
    moreover have "distinct ?raw" using distinct_raw_changes [OF assms] by (simp add: distinct_map)
    ultimately show ?thesis by (simp add: distinct_map)
  qed
  then have "sorted_wrt (<) (map change_sort_key (sort_key change_sort_key ?raw))" by (simp add: strict_sorted_iff)
  moreover have "set (sort_key change_sort_key ?raw) = specified_changes b c" using set_raw_changes [OF assms] by simp
  moreover note order = this
  have kinds: "filter (\<lambda>x. oc_change x = k) (map (unmatched_change l) xs) = (if k = l then map (unmatched_change l) xs else [])" for k l xs
    by (induction xs) (auto simp: unmatched_change_def)
  have kinds': "filter (\<lambda>x. oc_change x = k) (map (\<lambda>(i, x, y). change_of Changed i x (diff_properties x y)) xs) =
      (if k = Changed then map (\<lambda>(i, x, y). change_of Changed i x (diff_properties x y)) xs else [])" for k xs
    by (induction xs) (auto simp: change_of_def)
  have "length (filter (\<lambda>(i, x, y). diff_properties x y \<noteq> []) xs) + length (filter (\<lambda>(i, x, y). diff_properties x y = []) xs) = length xs"
    for xs :: "(ComparisonObjectIdentity \<times> ComparableObject \<times> ComparableObject) list"
    by (induction xs) auto
  then have "length (filter (\<lambda>(i, x, y). diff_properties x y \<noteq> []) (matched b c)) + length (filter (\<lambda>(i, x, y). diff_properties x y = []) (matched b c)) =
      card (dom (objects_of b) \<inter> dom (objects_of c))" unfolding length_matched [OF assms(1), symmetric] .
  moreover have "sum_list (map (\<lambda>x. length (oc_property_changes x)) ?raw) = sum_list (map (\<lambda>(i, x, y). length (diff_properties x y)) (matched b c))"
  proof -
    have "sum_list (map (\<lambda>x. length (oc_property_changes x)) (map (\<lambda>(i, x, y). change_of Changed i x (diff_properties x y))
        (filter (\<lambda>(i, x, y). diff_properties x y \<noteq> []) xs))) = sum_list (map (\<lambda>(i, x, y). length (diff_properties x y)) xs)" for xs
      by (induction xs) (auto simp: change_of_def)
    moreover have "sum_list (map (\<lambda>x. length (oc_property_changes x)) (map (unmatched_change k) xs)) = 0" for k xs
      by (induction xs) (auto simp: unmatched_change_def)
    ultimately show ?thesis unfolding raw_changes_def map_append sum_list_append by (simp only: add_0)
  qed
  ultimately show ?thesis
    unfolding exact_comparison_def compare_projected_eq fst_conv snd_conv count sum
    by (simp add: raw_changes_def kinds kinds')
qed

section \<open>Swapping the sides\<close>

definition swap_change :: "property_change \<Rightarrow> property_change" where
  "swap_change p = \<lparr>pc_baseline = pc_candidate p, pc_candidate = pc_baseline p, pc_property = pc_property p\<rparr>"

lemma diff_properties_swap: "diff_properties y x = map swap_change (diff_properties x y)"
proof -
  have "canon_set (\<lambda>k. k) (keys (cb_properties y) @ keys (cb_properties x)) = canon_set (\<lambda>k. k) (keys (cb_properties x) @ keys (cb_properties y))"
    by (rule name_key.canon_set_cong) (auto simp: list_all_iff)
  then show ?thesis
    by (simp add: diff_properties_def Let_def comp_def swap_change_def property_values_equal_sym)
qed

lemma diff_properties_Nil_swap: "diff_properties y x = [] \<longleftrightarrow> diff_properties x y = []"
  by (simp add: diff_properties_swap [of y x])

lemma matched_swap:
  assumes "well_keyed b" "well_keyed c"
  shows "mset (matched c b) = mset (map (\<lambda>(i, x, y). (i, y, x)) (matched b c))"
proof (rule mset_eq_distinct)
  show "distinct (matched c b)" using distinct_matched [OF assms(2)] by (simp add: distinct_map)
  have "distinct (matched b c)" using distinct_matched [OF assms(1)] by (simp add: distinct_map)
  then show "distinct (map (\<lambda>(i, x, y). (i, y, x)) (matched b c))" by (auto simp: distinct_map inj_on_def)
  show "set (matched c b) = set (map (\<lambda>(i, x, y). (i, y, x)) (matched b c))"
    using set_matched [OF assms(1)] set_matched [OF assms(2)] by (auto simp: image_iff) (metis case_prod_conv)
qed

lemma summary_swap:
  assumes "well_keyed b" "well_keyed c"
  shows "snd (compare_projected c b) = (snd (compare_projected b c))\<lparr>sm_added := sm_removed (snd (compare_projected b c)),
    sm_removed := sm_added (snd (compare_projected b c))\<rparr>"
proof -
  let ?swap = "\<lambda>(i, x, y). (i, y, x)"
  have len: "length (filter P (matched c b)) = length (filter (P \<circ> ?swap) (matched b c))" for P
  proof -
    have "length (filter P (matched c b)) = length (filter P (map ?swap (matched b c)))"
      using matched_swap [OF assms] by (metis mset_filter size_mset)
    then show ?thesis by (simp add: filter_map)
  qed
  have total: "sum_list (map f (matched c b)) = sum_list (map (f \<circ> ?swap) (matched b c))" for f :: "_ \<Rightarrow> nat"
  proof -
    have "mset (map f (matched c b)) = mset (map f (map ?swap (matched b c)))" using matched_swap [OF assms] by (simp only: mset_map)
    then have "sum_list (map f (matched c b)) = sum_list (map f (map ?swap (matched b c)))" by (metis sum_mset_sum_list)
    then show ?thesis by simp
  qed
  have comps: "(\<lambda>(i, x, y). diff_properties x y \<noteq> []) \<circ> ?swap = (\<lambda>(i, x, y). diff_properties x y \<noteq> [])"
    "(\<lambda>(i, x, y). diff_properties x y = []) \<circ> ?swap = (\<lambda>(i, x, y). diff_properties x y = [])"
    "(\<lambda>(i, x, y). length (diff_properties x y)) \<circ> ?swap = (\<lambda>(i, x, y). length (diff_properties x y))"
    by (auto simp: fun_eq_iff diff_properties_Nil_swap) (metis diff_properties_swap length_map)
  show ?thesis unfolding compare_projected_eq snd_conv len total comps by simp
qed

text \<open>The change of the other direction.\<close>

lemma specified_changes_swap:
  assumes "x \<in> specified_changes b c"
  shows "\<exists>y \<in> specified_changes c b. oc_change y = inverse_kind (oc_change x) \<and> oc_object_identity y = oc_object_identity x \<and>
    oc_property_changes y = map swap_change (oc_property_changes x) \<and> (oc_change x \<noteq> Changed \<longrightarrow> oc_property_changes x = [])"
proof -
  consider i y where "x = change_of Added i y []" "objects_of b i = None" "objects_of c i = Some y"
    | i y where "x = change_of Removed i y []" "objects_of b i = Some y" "objects_of c i = None"
    | i l r where "x = change_of Changed i l (diff_properties l r)" "objects_of b i = Some l" "objects_of c i = Some r" "diff_properties l r \<noteq> []"
    using assms unfolding specified_changes_def by blast
  then show ?thesis
  proof cases
    case 1
    then have "change_of Removed i y [] \<in> specified_changes c b" unfolding specified_changes_def by blast
    then show ?thesis using 1 by (intro bexI) (simp_all add: change_of_def)
  next
    case 2
    then have "change_of Added i y [] \<in> specified_changes c b" unfolding specified_changes_def by blast
    then show ?thesis using 2 by (intro bexI) (simp_all add: change_of_def)
  next
    case 3
    then have "diff_properties r l \<noteq> []" using diff_properties_Nil_swap by simp
    then have "change_of Changed i r (diff_properties r l) \<in> specified_changes c b" using 3 unfolding specified_changes_def by blast
    then show ?thesis using 3 by (intro bexI) (simp_all add: change_of_def diff_properties_swap [of r l])
  qed
qed

lemma dict_of_lookup:
  assumes "distinct (map f xs)" "x \<in> set xs" shows "map_of (dict_of (map (\<lambda>x. (f x, x)) xs)) (f x) = Some x"
proof -
  have "map_of (rev (map (\<lambda>x. (f x, x)) xs)) (f x) = Some x"
    using assms by (intro map_of_is_SomeI) (auto simp: comp_def rev_map [symmetric])
  then show ?thesis by (simp only: map_of_dict_of)
qed

lemma assert_properties_swapped:
  assumes "sorted_wrt (<) (map pc_property (oc_property_changes x))" "oc_property_changes y = map swap_change (oc_property_changes x)"
  shows "check_each (assert_inverse_property (props_by_name y)) (props_by_name x) = Inr () \<and> set (keys (props_by_name x)) = set (keys (props_by_name y))"
proof
  have dist: "distinct (map pc_property (oc_property_changes y))"
    using assms by (simp add: strict_sorted_iff comp_def swap_change_def)
  have "assert_inverse_property (props_by_name y) e = Inr ()" if "e \<in> set (props_by_name x)" for e
  proof -
    obtain k p where e: "e = (k, p)" by (cases e)
    have "(k, p) \<in> set (dict_of (map (\<lambda>p. (pc_property p, p)) (oc_property_changes x)))" using that unfolding e props_by_name_def .
    then have p: "p \<in> set (oc_property_changes x)" "k = pc_property p" using dict_of_keyed [of k p pc_property "oc_property_changes x"] by blast+
    then have "swap_change p \<in> set (oc_property_changes y)" using assms(2) by simp
    from dict_of_lookup [OF dist this] have "map_of (props_by_name y) k = Some (swap_change p)"
      unfolding props_by_name_def by (simp add: swap_change_def p(2) del: map_of_eq_Some_iff)
    then show ?thesis by (simp add: assert_inverse_property_def e swap_change_def del: map_of_eq_Some_iff)
  qed
  then show "check_each (assert_inverse_property (props_by_name y)) (props_by_name x) = Inr ()" by simp
  show "set (keys (props_by_name x)) = set (keys (props_by_name y))"
    unfolding props_by_name_def keys_dict_of by (simp add: assms(2) comp_def swap_change_def image_image)
qed

lemma assert_inverse_changes:
  assumes keyed: "well_keyed b" "well_keyed c"
    and left: "set xs = specified_changes b c" and right: "set ys = specified_changes c b" "sorted_wrt (<) (map change_sort_key ys)"
  shows "check_each (assert_inverse_change (dict_of (map (\<lambda>c. (change_key_of c, c)) ys))) (dict_of (map (\<lambda>c. (change_key_of c, c)) xs)) = Inr ()"
proof -
  have dist: "distinct (map change_key_of ys)"
  proof -
    have "distinct (map change_sort_key ys)" using right(2) by (simp add: strict_sorted_iff)
    then have "distinct ys" by (simp add: distinct_map)
    moreover have "inj_on change_key_of (set ys)"
      unfolding right(1) by (rule inj_onI) (rule specified_changes_keys, auto simp: change_key_of_def intro: ComparisonObjectIdentity.equality)
    ultimately show ?thesis by (simp add: distinct_map)
  qed
  have "assert_inverse_change (dict_of (map (\<lambda>c. (change_key_of c, c)) ys)) e = Inr ()"
    if e: "e \<in> set (dict_of (map (\<lambda>c. (change_key_of c, c)) xs))" for e
  proof -
    obtain k x where kx: "e = (k, x)" by (cases e)
    then have "x \<in> set xs \<and> k = change_key_of x" using e dict_of_keyed [of k x change_key_of xs] by blast
    then have x: "x \<in> specified_changes b c" "e = (change_key_of x, x)" using kx left by simp_all
    from specified_changes_swap [OF x(1)] obtain y where y: "y \<in> set ys" "oc_change y = inverse_kind (oc_change x)"
      "oc_object_identity y = oc_object_identity x" "oc_property_changes y = map swap_change (oc_property_changes x)"
      "oc_change x \<noteq> Changed \<longrightarrow> oc_property_changes x = []" using right(1) by blast
    have "map_of (dict_of (map (\<lambda>c. (change_key_of c, c)) ys)) (change_key_of y) = Some y" by (rule dict_of_lookup [OF dist y(1)])
    then have lookup: "map_of (dict_of (map (\<lambda>c. (change_key_of c, c)) ys)) (inverse_kind (oc_change x), co_kind (oc_object_identity x), co_path (oc_object_identity x)) = Some y"
      using y(2,3) by (simp add: change_key_of_def del: map_of_eq_Some_iff)
    have "sorted_wrt (<) (map pc_property (oc_property_changes x))"
      using x(1) diff_properties_spec by (auto simp: specified_changes_def change_of_def)
    note props = assert_properties_swapped [OF this y(4)]
    show ?thesis
      using lookup props y(4,5) unfolding x(2)
      by (simp add: assert_inverse_change_def change_key_of_def Let_def require_def del: map_of_eq_Some_iff check_each_ok)
  qed
  then show ?thesis by simp
qed

section \<open>Snapshots that were loaded\<close>

lemma spec_projection_keyed: "distinct (map en_identity es) \<Longrightarrow> well_keyed (spec_projection sn es)"
  by (simp add: well_keyed_def spec_projection_def comp_def)

lemma projection_side:
  assumes "coherent_snapshot sn" "project_snapshot side sn = Inr p"
  shows "well_keyed p \<and> project_snapshot side' sn = Inr p"
proof -
  obtain ds db where v: "validate_snapshot_shape_and_envelope side sn = Inr (ds, db)" "gm_data_sources (sn_model sn) = [ds]"
    "ds_databases ds = [db]" and p: "projectable ds db (gm_relationships (sn_model sn))" by (rule coherent_projectable [OF assms(1)])
  obtain ds' db' where v': "validate_snapshot_shape_and_envelope side' sn = Inr (ds', db')" "gm_data_sources (sn_model sn) = [ds']"
    "ds_databases ds' = [db']" by (rule coherent_projectable [OF assms(1)])
  have same: "ds' = ds" "db' = db" using v(2,3) v'(2,3) by simp_all
  let ?es = "project_entries ds db (gm_relationships (sn_model sn))"
  have dist: "distinct (map en_identity ?es)" using projection_eq [OF p v(1) refl] assms(2) by (auto split: if_splits)
  then have "p = spec_projection sn ?es" using projection_eq [OF p v(1) refl] assms(2) by simp
  moreover have "project_snapshot side' sn = Inr (spec_projection sn ?es)"
    using projection_eq [OF p v'(1) [unfolded same] refl] dist by simp
  ultimately show ?thesis using spec_projection_keyed [OF dist] by simp
qed

lemma build_Inr:
  "build_comparison_result sha baseline candidate ack = Inr r \<longleftrightarrow>
   (\<exists>b c alignment. project_snapshot ''baseline'' baseline = Inr b \<and> project_snapshot ''candidate'' candidate = Inr c \<and>
     validate_pairwise_scanner baseline candidate = Inr () \<and> resolve_root_alignment baseline candidate ack = Inr alignment \<and>
     r = \<lparr>cr_baseline = artifact_metadata sha baseline, cr_candidate = artifact_metadata sha candidate,
       cr_object_changes = fst (compare_projected b c), cr_root_alignment = alignment,
       cr_status = (let s = snd (compare_projected b c) in
         if sm_added s = 0 \<and> sm_removed s = 0 \<and> sm_changed s = 0 then ''identical'' else ''different''),
       cr_summary = snd (compare_projected b c)\<rparr>)"
proof -
  have never: "\<not> (sm_changed (snd (compare_projected b c)) = 0 \<and> sm_property_changes (snd (compare_projected b c)) \<noteq> 0)" for b c
  proof -
    have "filter (\<lambda>(i, x, y). diff_properties x y \<noteq> []) xs = [] \<Longrightarrow> sum_list (map (\<lambda>(i, x, y). length (diff_properties x y)) xs) = 0"
      for xs :: "(ComparisonObjectIdentity \<times> ComparableObject \<times> ComparableObject) list"
      by (induction xs) (auto split: if_splits)
    then show ?thesis by (simp add: compare_projected_eq)
  qed
  show ?thesis
  proof (cases "project_snapshot ''baseline'' baseline")
    case b: (Inr b)
    show ?thesis
    proof (cases "project_snapshot ''candidate'' candidate")
      case c: (Inr c)
      have "validate_pairwise_scanner baseline candidate = Inr () \<or> (\<exists>e. validate_pairwise_scanner baseline candidate = Inl e)"
        by (cases "validate_pairwise_scanner baseline candidate") auto
      moreover have "(\<exists>a. resolve_root_alignment baseline candidate ack = Inr a) \<or> (\<exists>e. resolve_root_alignment baseline candidate ack = Inl e)"
        by (cases "resolve_root_alignment baseline candidate ack") auto
      ultimately show ?thesis
        using never [of b c] unfolding build_comparison_result_def split_beta Let_def b c by (elim disjE exE) auto
    qed (simp add: build_comparison_result_def b)
  qed (simp add: build_comparison_result_def)
qed

definition empty_ack :: RootAlignmentAck where
  "empty_ack = \<lparr>align_source_roots = False, align_database_roots = False\<rparr>"

lemma alignment_swap:
  assumes "resolve_root_alignment x y ack = Inr a"
  shows "resolve_root_alignment y x ack = Inr \<lparr>ra_source = swap_alignment (ra_source a), ra_database = swap_alignment (ra_database a)\<rparr>"
  using assms by (auto simp: resolve_root_alignment_def Let_def when_error_def swap_alignment_def split: if_splits)

lemma scanner_swap: "validate_pairwise_scanner x y = Inr () \<Longrightarrow> validate_pairwise_scanner y x = Inr ()"
  by (auto simp: validate_pairwise_scanner_def Let_def when_error_def split: if_splits)

lemma build_swap:
  assumes x: "coherent_snapshot x" and y: "coherent_snapshot y" and r: "build_comparison_result sha x y ack = Inr r"
  shows "\<exists>r'. build_comparison_result sha y x ack = Inr r' \<and> assert_inverse r r' = Inr ()"
proof -
  obtain b c a where *: "project_snapshot ''baseline'' x = Inr b" "project_snapshot ''candidate'' y = Inr c"
    "validate_pairwise_scanner x y = Inr ()" "resolve_root_alignment x y ack = Inr a"
    and r_eq: "r = \<lparr>cr_baseline = artifact_metadata sha x, cr_candidate = artifact_metadata sha y,
       cr_object_changes = fst (compare_projected b c), cr_root_alignment = a,
       cr_status = (let s = snd (compare_projected b c) in
         if sm_added s = 0 \<and> sm_removed s = 0 \<and> sm_changed s = 0 then ''identical'' else ''different''),
       cr_summary = snd (compare_projected b c)\<rparr>" using r unfolding build_Inr by blast
  have keyed: "well_keyed b" "well_keyed c" and other: "project_snapshot ''candidate'' x = Inr b" "project_snapshot ''baseline'' y = Inr c"
    using projection_side [OF x *(1)] projection_side [OF y *(2)] by blast+
  define r' where "r' = \<lparr>cr_baseline = artifact_metadata sha y, cr_candidate = artifact_metadata sha x,
       cr_object_changes = fst (compare_projected c b),
       cr_root_alignment = \<lparr>ra_source = swap_alignment (ra_source a), ra_database = swap_alignment (ra_database a)\<rparr>,
       cr_status = (let s = snd (compare_projected c b) in
         if sm_added s = 0 \<and> sm_removed s = 0 \<and> sm_changed s = 0 then ''identical'' else ''different''),
       cr_summary = snd (compare_projected c b)\<rparr>"
  have "build_comparison_result sha y x ack = Inr r'"
    unfolding build_Inr r'_def using other scanner_swap [OF *(3)] alignment_swap [OF *(4)] by blast
  moreover have "assert_inverse r r' = Inr ()"
  proof -
    have "set (fst (compare_projected b c)) = specified_changes b c" "set (fst (compare_projected c b)) = specified_changes c b"
      "sorted_wrt (<) (map change_sort_key (fst (compare_projected c b)))"
      using compare_projected_exact [OF keyed] compare_projected_exact [OF keyed(2,1)] by (simp_all add: exact_comparison_def)
    note changes = assert_inverse_changes [OF keyed this]
    have "swap_alignment (swap_alignment d) = d" for d by (cases d) (auto simp: swap_alignment_def)
    then show ?thesis using changes summary_swap [OF keyed]
      by (simp add: assert_inverse_def r_eq r'_def Let_def require_def del: check_each_ok)
  qed
  ultimately show ?thesis by blast
qed

text \<open>A second snapshot: the table has lost its description and the column may be null.\<close>

definition edited_snapshot :: GovernanceSnapshot where
  "edited_snapshot = (let m = sn_model small_snapshot; ds = hd (gm_data_sources m); db = hd (ds_databases ds);
       sc = hd (db_schemas db); t = hd (sc_tables sc); c = hd (t_columns t);
       t' = t\<lparr>t_description := JNull, t_columns := [c\<lparr>c_nullable := True\<rparr>]\<rparr> in
     small_snapshot\<lparr>sn_model := m\<lparr>gm_data_sources := [ds\<lparr>ds_databases := [db\<lparr>db_schemas := [sc\<lparr>sc_tables := [t']\<rparr>]\<rparr>]\<rparr>]\<rparr>\<rparr>)"

lemma edited_snapshot_coherent: "coherent_snapshot edited_snapshot"
proof -
  let ?ds = "hd (gm_data_sources (sn_model edited_snapshot))"
  let ?db = "hd (ds_databases ?ds)"
  have "gm_data_sources (sn_model edited_snapshot) = [?ds]" "ds_databases ?ds = [?db]"
    "mk_governance_model [?ds] (gm_relationships (sn_model edited_snapshot)) = Inr (sn_model edited_snapshot)"
    "mk_data_source ?ds = Inr ?ds" "coherent_ownership (ds_ownership ?ds)" "mk_database ?db = Inr ?db"
    "coherent_ownership (db_ownership ?db)" "db_datasource_id ?db = ds_id ?ds"
    "list_all (coherent_schema (database_tables ?db) ?db) (db_schemas ?db)"
    "list_all (coherent_relationship (database_tables ?db)) (gm_relationships (sn_model edited_snapshot))"
    "distinct (all_ids ?ds ?db (gm_relationships (sn_model edited_snapshot)))"
    "sn_source_name edited_snapshot = ds_name ?ds" "sn_database_name edited_snapshot = db_name ?db"
    "sn_system_type edited_snapshot = ds_system_type ?ds"
    "sn_scanner edited_snapshot \<noteq> []" "sn_scanner_contract_version edited_snapshot = SCANNER_CONTRACT_VERSION" by code_simp+
  then show ?thesis unfolding coherent_snapshot_def by blast
qed

lemma projects_when_distinct:
  assumes "coherent_snapshot sn"
    and "distinct (map en_identity (project_entries (hd (gm_data_sources (sn_model sn))) (hd (ds_databases (hd (gm_data_sources (sn_model sn)))))
      (gm_relationships (sn_model sn))))"
  shows "\<exists>p. project_snapshot side sn = Inr p"
proof -
  obtain ds db where v: "validate_snapshot_shape_and_envelope side sn = Inr (ds, db)" "gm_data_sources (sn_model sn) = [ds]"
    "ds_databases ds = [db]" and p: "projectable ds db (gm_relationships (sn_model sn))" by (rule coherent_projectable [OF assms(1)])
  show ?thesis using projection_eq [OF p v(1) refl] assms(2) v(2,3) by simp
qed

lemma example_comparison: "\<exists>r. build_comparison_result sha small_snapshot edited_snapshot empty_ack = Inr r"
proof -
  have "\<exists>p. project_snapshot ''baseline'' small_snapshot = Inr p"
    by (rule projects_when_distinct [OF small_snapshot_coherent]) code_simp
  moreover have "\<exists>p. project_snapshot ''candidate'' edited_snapshot = Inr p"
    by (rule projects_when_distinct [OF edited_snapshot_coherent]) code_simp
  moreover have "validate_pairwise_scanner small_snapshot edited_snapshot = Inr ()" by code_simp
  moreover have "resolve_root_alignment small_snapshot edited_snapshot empty_ack = Inr \<lparr>ra_source = None, ra_database = None\<rparr>" by code_simp
  ultimately show ?thesis unfolding build_Inr by blast
qed

section \<open>Properties\<close>

text \<open>C30 (functional). A comparison result says exactly how two loaded snapshots differ. Its changes are strictly sorted
  by kind and identity and are precisely: an addition for each object only the candidate has, a removal for
  each object only the baseline has, and a change for each common object with some differing property, with
  one entry per property whose presence or normalized value differs, sorted by property. The summary
  counts them, and the status is identical exactly when there is no change.\<close>

theorem comparison_exact:
  assumes "coherent_snapshot x" "coherent_snapshot y" "build_comparison_result sha x y ack = Inr r"
  shows "\<exists>b c. project_snapshot ''baseline'' x = Inr b \<and> project_snapshot ''candidate'' y = Inr c \<and>
    exact_comparison b c (cr_object_changes r) (cr_summary r) \<and>
    (\<forall>l m. set (diff_properties l m) = specified_diff l m \<and> sorted_wrt (<) (map pc_property (diff_properties l m))) \<and>
    (cr_status r = ''identical'' \<longleftrightarrow> cr_object_changes r = [])"
proof -
  obtain b c a where *: "project_snapshot ''baseline'' x = Inr b" "project_snapshot ''candidate'' y = Inr c"
    and r: "cr_object_changes r = fst (compare_projected b c)" "cr_summary r = snd (compare_projected b c)"
      "cr_status r = (let s = snd (compare_projected b c) in
         if sm_added s = 0 \<and> sm_removed s = 0 \<and> sm_changed s = 0 then ''identical'' else ''different'')"
    using assms(3) unfolding build_Inr by auto
  have "well_keyed b" "well_keyed c" using projection_side [OF assms(1) *(1)] projection_side [OF assms(2) *(2)] by blast+
  note exact = compare_projected_exact [OF this]
  have none: "xs = [] \<longleftrightarrow> filter (\<lambda>x. oc_change x = Added) xs = [] \<and> filter (\<lambda>x. oc_change x = Removed) xs = [] \<and>
    filter (\<lambda>x. oc_change x = Changed) xs = []" for xs :: "object_change list"
  proof (cases xs)
    case (Cons c cs)
    then show ?thesis by (cases "oc_change c") simp_all
  qed simp
  have "cr_status r = ''identical'' \<longleftrightarrow> cr_object_changes r = []"
    using exact unfolding r none [of "fst (compare_projected b c)"] by (auto simp: exact_comparison_def Let_def)
  then show ?thesis using * exact diff_properties_spec unfolding r by blast
qed

lemma comparison_exact_witness:
  "\<exists>r b c. build_comparison_result (\<lambda>_. ''d'') small_snapshot edited_snapshot empty_ack = Inr r \<and>
    exact_comparison b c (cr_object_changes r) (cr_summary r)"
proof -
  obtain r where r: "build_comparison_result (\<lambda>_. ''d'') small_snapshot edited_snapshot empty_ack = Inr r"
    using example_comparison by blast
  show ?thesis using comparison_exact [OF small_snapshot_coherent edited_snapshot_coherent r] r by blast
qed

text \<open>C31 (equivalence). Comparison is directional and invertible: when comparing two loaded snapshots succeeds, so does
  comparing them the other way round, with the same acknowledgement, and \<open>assert_inverse\<close> accepts the two
  results: metadata and alignment are swapped, additions and removals exchanged, the counts agree and every
  property change has its sides swapped.\<close>

theorem comparison_invertible:
  assumes "coherent_snapshot x" "coherent_snapshot y" "build_comparison_result sha x y ack = Inr r"
  shows "\<exists>r'. build_comparison_result sha y x ack = Inr r' \<and> assert_inverse r r' = Inr ()"
  using assms by (rule build_swap)

lemma comparison_invertible_witness:
  "\<exists>r r'. build_comparison_result (\<lambda>_. ''d'') small_snapshot edited_snapshot empty_ack = Inr r \<and>
    build_comparison_result (\<lambda>_. ''d'') edited_snapshot small_snapshot empty_ack = Inr r' \<and> assert_inverse r r' = Inr ()"
proof -
  obtain r where r: "build_comparison_result (\<lambda>_. ''d'') small_snapshot edited_snapshot empty_ack = Inr r"
    using example_comparison by blast
  show ?thesis using comparison_invertible [OF small_snapshot_coherent edited_snapshot_coherent r] r by blast
qed

end
