(* ===== verification/Comparison_Types.thy ===== *)
theory Comparison_Types
  imports Comparison
begin

text \<open>
  \<open>comparison/properties.py\<close>: which property may change on which kind of object and what its values look
  like. Comparison artifacts are validated with it when they are loaded; the theorem at the end says that
  whatever \<open>build_comparison_result\<close> produces passes.
\<close>

section \<open>The validator\<close>

definition FIXED_PATHS :: "(string, string list) dict" where
  "FIXED_PATHS =
     [(''data_source'', [''/name'', ''/system_type'', ''/description'', ''/ownership'']),
      (''database'', [''/name'', ''/description'', ''/ownership'']),
      (''schema'', [''/name'', ''/description'', ''/ownership'']),
      (''table'', [''/name'', ''/description'', ''/ownership'']),
      (''column'', [''/name'', ''/data_type'', ''/ordinal_position'', ''/nullable'', ''/description'']),
      (''primary_key'', [''/name'', ''/column_ids'']),
      (''foreign_key'', [''/name'', ''/column_ids'', ''/referenced_table_id'', ''/referenced_column_ids'']),
      (''relationship'', [''/name'', ''/to_table_id'', ''/foreign_key_id'', ''/description''])]"

definition TECHNICAL_ATTRIBUTES_KINDS :: "string list" where
  "TECHNICAL_ATTRIBUTES_KINDS = [''data_source'', ''table'', ''column'']"

definition NAME_ALLOWED_KINDS :: "string list" where
  "NAME_ALLOWED_KINDS = [''data_source'', ''database'']"

definition is_technical_attribute_pointer :: "string \<Rightarrow> bool" where
  "is_technical_attribute_pointer pointer = startswith ''/technical_attributes/'' pointer"

definition property_path_compatible_with_kind :: "string \<Rightarrow> string \<Rightarrow> bool" where
  "property_path_compatible_with_kind kind pointer =
     (if startswith ''/technical_attributes/'' pointer
      then kind \<in> set TECHNICAL_ATTRIBUTES_KINDS \<and>
        (case parse_path pointer of Inl _ \<Rightarrow> False
         | Inr segments \<Rightarrow> length segments = 2 \<and> hd segments = ''technical_attributes'')
      else pointer \<in> set (get_list FIXED_PATHS kind))"

definition comparison_change_property_compatible_with_kind :: "string \<Rightarrow> string \<Rightarrow> bool" where
  "comparison_change_property_compatible_with_kind kind pointer =
     (if kind = ''data_source'' \<and> pointer = ''/system_type'' then False
      else if pointer = ''/name'' \<and> kind \<notin> set NAME_ALLOWED_KINDS then False
      else property_path_compatible_with_kind kind pointer)"

definition non_whitespace_string :: "json \<Rightarrow> bool" where
  "non_whitespace_string value = (case value of JStr s \<Rightarrow> strip s \<noteq> [] | _ \<Rightarrow> False)"

definition str_of :: "json \<Rightarrow> string option" where
  "str_of v = (case v of JStr s \<Rightarrow> Some s | _ \<Rightarrow> None)"

definition parse_identity_dict :: "json \<Rightarrow> ComparisonObjectIdentity option" where
  "parse_identity_dict raw =
     (case raw of
        JObject kvs \<Rightarrow>
          if set (keys kvs) \<noteq> {''kind'', ''path''} then None
          else (case (get_item kvs ''kind'', get_item kvs ''path'') of
             (JStr kind, JArray path) \<Rightarrow>
               if list_all (\<lambda>v. str_of v \<noteq> None) path
               then (case mk_comparison_identity kind (map (\<lambda>v. case v of JStr s \<Rightarrow> s | _ \<Rightarrow> []) path) of
                  Inl _ \<Rightarrow> None | Inr i \<Rightarrow> Some i)
               else None
           | _ \<Rightarrow> None)
      | _ \<Rightarrow> None)"

definition valid_strict_json_value :: "json \<Rightarrow> bool" where
  "valid_strict_json_value value = (case validate_json_value (py_of_json value) of Inl _ \<Rightarrow> False | Inr _ \<Rightarrow> True)"

definition valid_ownership_value :: "json \<Rightarrow> bool" where
  "valid_ownership_value value =
     (case value of
        JNull \<Rightarrow> True
      | JObject kvs \<Rightarrow> set (keys kvs) = {''owner_name'', ''owner_type''} \<and>
          non_whitespace_string (get_item kvs ''owner_name'') \<and> non_whitespace_string (get_item kvs ''owner_type'')
      | _ \<Rightarrow> False)"

text \<open>The loop keeps the prefix of the first column when all must agree.\<close>

fun valid_column_items :: "string list option \<Rightarrow> bool \<Rightarrow> string list option \<Rightarrow> json list \<Rightarrow> bool" where
  "valid_column_items required same shared [] = True"
| "valid_column_items required same shared (v # vs) =
     (case parse_identity_dict v of
        None \<Rightarrow> False
      | Some identity \<Rightarrow>
          if co_kind identity \<noteq> ''column'' then False
          else if required \<noteq> None \<and> Some (take 2 (co_path identity)) \<noteq> required then False
          else if same \<and> shared \<noteq> None \<and> Some (take 2 (co_path identity)) \<noteq> shared then False
          else valid_column_items required same
            (if same \<and> shared = None then Some (take 2 (co_path identity)) else shared) vs)"

definition valid_column_identity_list :: "json \<Rightarrow> bool \<Rightarrow> string list option \<Rightarrow> bool \<Rightarrow> bool" where
  "valid_column_identity_list value needs_item required_table_prefix require_same_table_prefix =
     (case value of
        JArray vs \<Rightarrow> \<not> (needs_item \<and> vs = []) \<and> valid_column_items required_table_prefix require_same_table_prefix None vs
      | _ \<Rightarrow> False)"

definition valid_table_identity :: "json \<Rightarrow> bool" where
  "valid_table_identity value = (case parse_identity_dict value of None \<Rightarrow> False | Some i \<Rightarrow> co_kind i = ''table'')"

definition valid_foreign_key_identity :: "json \<Rightarrow> string list option \<Rightarrow> bool" where
  "valid_foreign_key_identity value relationship_table_prefix =
     (if value = JNull then True
      else case parse_identity_dict value of
             None \<Rightarrow> False
           | Some i \<Rightarrow> co_kind i = ''foreign_key'' \<and>
               (relationship_table_prefix = None \<or> Some (take 2 (co_path i)) = relationship_table_prefix))"

definition valid_fixed_value :: "string \<Rightarrow> json \<Rightarrow> ComparisonObjectIdentity \<Rightarrow> bool" where
  "valid_fixed_value pointer value identity =
     (if pointer = ''/name'' then non_whitespace_string value
      else if pointer = ''/description'' then valid_strict_json_value value
      else if pointer = ''/ownership'' then valid_ownership_value value
      else if pointer = ''/data_type'' then non_whitespace_string value
      else if pointer = ''/ordinal_position'' then (case value of JInt i \<Rightarrow> 1 \<le> i | _ \<Rightarrow> False)
      else if pointer = ''/nullable'' then (case value of JBool _ \<Rightarrow> True | _ \<Rightarrow> False)
      else if pointer = ''/column_ids'' then valid_column_identity_list value True (Some (take 2 (co_path identity))) False
      else if pointer = ''/referenced_table_id'' then valid_table_identity value
      else if pointer = ''/referenced_column_ids'' then valid_column_identity_list value True None True
      else if pointer = ''/to_table_id'' then valid_table_identity value
      else if pointer = ''/foreign_key_id'' then valid_foreign_key_identity value (Some (take 2 (co_path identity)))
      else False)"

definition comparable_change_value_compatible :: "ComparisonObjectIdentity \<Rightarrow> string \<Rightarrow> json \<Rightarrow> bool" where
  "comparable_change_value_compatible identity pointer side =
     (case side of
        JObject kvs \<Rightarrow>
          (case get_item kvs ''has_value'' of
             JBool True \<Rightarrow>
               if ''value'' \<notin> set (keys kvs) \<or> length kvs \<noteq> 2 then False
               else (let value = get_item kvs ''value'' in
                 if is_technical_attribute_pointer pointer then valid_strict_json_value value
                 else if \<not> comparison_change_property_compatible_with_kind (co_kind identity) pointer then False
                 else valid_fixed_value pointer value identity)
           | JBool False \<Rightarrow>
               if length kvs \<noteq> 1 \<or> ''value'' \<in> set (keys kvs) then False else is_technical_attribute_pointer pointer
           | _ \<Rightarrow> False)
      | _ \<Rightarrow> False)"

text \<open>\<open>_item.get(...)\<close> on a change that is a mapping; \<open>not side.get("has_value")\<close> is Python's truth test.\<close>

definition field_of :: "json \<Rightarrow> string \<Rightarrow> json" where
  "field_of v k = (case v of JObject kvs \<Rightarrow> get_item kvs k | _ \<Rightarrow> JNull)"

fun truthy :: "json \<Rightarrow> bool" where
  "truthy JNull = False"
| "truthy (JBool b) = b"
| "truthy (JInt i) = (i \<noteq> 0)"
| "truthy (JFloat t) = (t \<noteq> ''0.0'' \<and> t \<noteq> ''-0.0'')"
| "truthy (JStr s) = (s \<noteq> [])"
| "truthy (JArray vs) = (vs \<noteq> [])"
| "truthy (JObject kvs) = (kvs \<noteq> [])"

definition reference_side_coherent :: "json \<Rightarrow> json \<Rightarrow> bool" where
  "reference_side_coherent table_side column_side =
     (case (table_side, column_side) of
        (JObject ts, JObject cs) \<Rightarrow>
          if \<not> truthy (get_item ts ''has_value'') \<or> \<not> truthy (get_item cs ''has_value'') then True
          else (case parse_identity_dict (get_item ts ''value'') of
             None \<Rightarrow> False
           | Some table_identity \<Rightarrow>
               (case get_item cs ''value'' of
                  JArray vs \<Rightarrow> list_all (\<lambda>v. case parse_identity_dict v of None \<Rightarrow> False
                    | Some column_identity \<Rightarrow> take 2 (co_path column_identity) = co_path table_identity) vs
                | _ \<Rightarrow> False))
      | _ \<Rightarrow> False)"

definition foreign_key_reference_sides_coherent :: "json list \<Rightarrow> bool" where
  "foreign_key_reference_sides_coherent property_changes =
     (case (find (\<lambda>c. field_of c ''property'' = JStr ''/referenced_table_id'') property_changes,
            find (\<lambda>c. field_of c ''property'' = JStr ''/referenced_column_ids'') property_changes) of
        (Some table_change, Some column_change) \<Rightarrow>
          list_all (\<lambda>side. reference_side_coherent (field_of table_change side) (field_of column_change side))
            [''baseline'', ''candidate'']
      | _ \<Rightarrow> True)"

section \<open>What the producer writes\<close>

lemma validate_py_of_json [simp]: "validate_json_value (py_of_json v) = Inr ()"
proof (induction v rule: json_induct)
  case (Array vs)
  then have "traverse validate_json_value (map py_of_json vs) = Inr (map (\<lambda>_. ()) vs)"
    unfolding traverse_map by (intro traverse_Inr_map) simp
  then show ?case by simp
next
  case (Object kvs)
  let ?f = "\<lambda>(k, v). case k of KeyStr s \<Rightarrow> validate_json_value v | KeyOther \<Rightarrow> Inl (TypeError ''JSON object keys must be strings'')"
  have "traverse ?f (map (\<lambda>(k, v). (KeyStr k, py_of_json v)) kvs) = Inr (map (\<lambda>_. ()) kvs)"
    unfolding traverse_map by (intro traverse_Inr_map) (use Object in auto)
  then show ?case by simp
qed simp_all

lemma valid_strict [simp]: "valid_strict_json_value v"
  by (simp add: valid_strict_json_value_def)

text \<open>References as they are written.\<close>

definition valid_identity :: "ComparisonObjectIdentity \<Rightarrow> bool" where
  "valid_identity i \<longleftrightarrow> mk_comparison_identity (co_kind i) (co_path i) = Inr i"

lemma get_item_simps [simp]:
  "get_item ((k, v) # kvs) i = (if k = i then v else get_item kvs i)" "get_item [] i = JNull"
  by (simp_all add: get_item_def)

lemma parse_identity_roundtrip [simp]: "valid_identity i \<Longrightarrow> parse_identity_dict (comparison_identity_dict i) = Some i"
  by (auto simp: parse_identity_dict_def comparison_identity_dict_def valid_identity_def str_of_def comp_def list_all_iff)

lemma canon_identity [simp]: "canon (comparison_identity_dict i) = comparison_identity_dict i"
  by (simp add: comparison_identity_dict_def comp_def)

lemma present_simps [simp]: "cv_has_value (present v) = True" "cv_value (present v) = canon v"
  by (simp_all add: present_def)

lemma valid_column_items_same:
  assumes "list_all (\<lambda>i. valid_identity i \<and> co_kind i = ''column'' \<and> take 2 (co_path i) = pre) is"
    and "required = None \<or> required = Some pre" "shared = None \<or> shared = Some pre"
  shows "valid_column_items required same shared (map comparison_identity_dict is)"
  using assms by (induction "is" arbitrary: shared) auto

text \<open>Properties of one object: every value has the type of its path, the fixed paths are all there, and a
  name that is part of the identity repeats it. (The system type never changes, so its value is not judged.)\<close>

definition typed_value :: "ComparisonObjectIdentity \<Rightarrow> string \<Rightarrow> ComparablePropertyValue \<Rightarrow> bool" where
  "typed_value i p v \<longleftrightarrow> cv_has_value v \<and> property_path_compatible_with_kind (co_kind i) p \<and>
     (is_technical_attribute_pointer p \<or> p = ''/system_type'' \<or> valid_fixed_value p (cv_value v) i)"

definition typed_properties :: "ComparisonObjectIdentity \<Rightarrow> properties \<Rightarrow> bool" where
  "typed_properties i ps \<longleftrightarrow> (\<forall>p v. map_of ps p = Some v \<longrightarrow> typed_value i p v) \<and>
     (\<forall>p \<in> set (get_list FIXED_PATHS (co_kind i)). map_of ps p \<noteq> None) \<and>
     (co_kind i \<notin> set NAME_ALLOWED_KINDS \<longrightarrow> map_of ps ''/name'' = Some (present (JStr (last (co_path i)))))"

lemma technical_pointer: "to_pointer [''technical_attributes'', k] = ''/technical_attributes/'' @ escape_segment k"
  by (simp add: to_pointer_def escape_segment_simps)

lemma technical_pointer_typed:
  assumes "co_kind i \<in> set TECHNICAL_ATTRIBUTES_KINDS"
  shows "typed_value i (to_pointer [''technical_attributes'', k]) (present v)"
proof -
  have "startswith ''/technical_attributes/'' (to_pointer [''technical_attributes'', k])"
    unfolding technical_pointer startswith_iff by blast
  moreover have "parse_path (to_pointer [''technical_attributes'', k]) = Inr [''technical_attributes'', k]" by (rule parse_to_pointer) simp
  ultimately show ?thesis using assms by (simp add: typed_value_def property_path_compatible_with_kind_def is_technical_attribute_pointer_def)
qed

lemma fixed_not_technical: "p \<in> set (get_list FIXED_PATHS k) \<Longrightarrow> p \<noteq> to_pointer [''technical_attributes'', x]"
  unfolding technical_pointer by (auto simp: FIXED_PATHS_def get_list_def split: if_splits)

lemma tech_props_typed:
  assumes "typed_properties i ps" "co_kind i \<in> set TECHNICAL_ATTRIBUTES_KINDS"
  shows "typed_properties i (tech_props ps attrs)"
  using assms(1)
proof (induction attrs arbitrary: ps)
  case (Cons a attrs)
  obtain k v where a: "a = (k, v)" by (cases a)
  let ?p = "to_pointer [''technical_attributes'', k]"
  have name: "''/name'' \<noteq> ?p" unfolding technical_pointer by simp
  have "typed_properties i (AList.update ?p (present v) ps)"
    using Cons.prems technical_pointer_typed [OF assms(2), of k v] fixed_not_technical [of _ "co_kind i" k] name
    unfolding typed_properties_def map_of_update by auto
  from Cons.IH [OF this] show ?case by (simp add: tech_props_def a)
qed (simp add: tech_props_def)

lemma texts_non_blank:
  "mk_column c = Inr c' \<Longrightarrow> strip (c_name c) \<noteq> [] \<and> strip (c_data_type c) \<noteq> [] \<and> 1 \<le> c_ordinal_position c"
  "mk_primary_key k = Inr k' \<Longrightarrow> strip (pk_name k) \<noteq> [] \<and> pk_column_ids k \<noteq> []"
  "mk_foreign_key f = Inr f' \<Longrightarrow> strip (fk_name f) \<noteq> [] \<and> fk_column_ids f \<noteq> [] \<and> fk_referenced_column_ids f \<noteq> []"
  "mk_relationship r = Inr r' \<Longrightarrow> strip (rl_name r) \<noteq> []"
  "mk_table t = Inr t' \<Longrightarrow> strip (t_name t) \<noteq> []"
  "mk_schema s = Inr s' \<Longrightarrow> strip (sc_name s) \<noteq> []"
  "mk_database d = Inr d' \<Longrightarrow> strip (db_name d) \<noteq> []"
  "mk_data_source x = Inr x' \<Longrightarrow> strip (ds_name x) \<noteq> [] \<and> strip (ds_system_type x) \<noteq> []"
  by (auto simp: mk_column_def mk_primary_key_def mk_foreign_key_def mk_relationship_def mk_table_def mk_schema_def mk_database_def
      mk_data_source_def require_all_def require_non_empty_def split_result split: if_splits)

lemma ownership_valid: "coherent_ownership w \<Longrightarrow> valid_ownership_value (canon (ownership_value w))"
  by (cases w) (auto simp: coherent_ownership_def ownership_value_def opt_dict_def ownership_to_dict_def valid_ownership_value_def
      non_whitespace_string_def mk_ownership_def require_all_def require_non_empty_def split_result split: if_splits)

lemma typed_propertiesI:
  assumes "list_all (\<lambda>(p, v). typed_value i p v) ps" "set (get_list FIXED_PATHS (co_kind i)) \<subseteq> fst ` set ps"
    and "co_kind i \<notin> set NAME_ALLOWED_KINDS \<Longrightarrow> map_of ps ''/name'' = Some (present (JStr (last (co_path i))))"
  shows "typed_properties i ps"
  unfolding typed_properties_def
proof (intro conjI allI ballI impI)
  fix p v assume "map_of ps p = Some v"
  then show "typed_value i p v" using assms(1) by (auto dest: map_of_SomeD simp: list_all_iff)
next
  fix p assume "p \<in> set (get_list FIXED_PATHS (co_kind i))"
  then show "map_of ps p \<noteq> None" using assms(2) by (auto simp: map_of_eq_None_iff)
qed (rule assms(3))

lemma typed_fixed:
  assumes "pointer \<in> set (get_list FIXED_PATHS (co_kind i))" "pointer = ''/system_type'' \<or> valid_fixed_value pointer (canon v) i"
  shows "typed_value i pointer (present v)"
proof -
  have "\<not> startswith ''/technical_attributes/'' pointer"
    using assms(1) by (auto simp: FIXED_PATHS_def get_list_def startswith_def split: if_splits)
  then show ?thesis using assms by (simp add: typed_value_def property_path_compatible_with_kind_def)
qed

lemma fixed_paths [simp]:
  "get_list FIXED_PATHS ''data_source'' = [''/name'', ''/system_type'', ''/description'', ''/ownership'']"
  "get_list FIXED_PATHS ''database'' = [''/name'', ''/description'', ''/ownership'']"
  "get_list FIXED_PATHS ''schema'' = [''/name'', ''/description'', ''/ownership'']"
  "get_list FIXED_PATHS ''table'' = [''/name'', ''/description'', ''/ownership'']"
  "get_list FIXED_PATHS ''column'' = [''/name'', ''/data_type'', ''/ordinal_position'', ''/nullable'', ''/description'']"
  "get_list FIXED_PATHS ''primary_key'' = [''/name'', ''/column_ids'']"
  "get_list FIXED_PATHS ''foreign_key'' = [''/name'', ''/column_ids'', ''/referenced_table_id'', ''/referenced_column_ids'']"
  "get_list FIXED_PATHS ''relationship'' = [''/name'', ''/to_table_id'', ''/foreign_key_id'', ''/description'']"
  by (simp_all add: FIXED_PATHS_def get_list_def)

lemma ci_simps [simp]: "co_kind (ci k p) = k" "co_path (ci k p) = p"
  by (simp_all add: ci_def)

lemma column_entry_typed:
  assumes "mk_column c = Inr c" shows "typed_properties (en_identity (column_entry sc t c)) (en_first (column_entry sc t c))"
  unfolding column_entry_def entry.simps
  using texts_non_blank(1) [OF assms]
  by (intro tech_props_typed typed_propertiesI)
    (auto simp: list_all_iff NAME_ALLOWED_KINDS_def TECHNICAL_ATTRIBUTES_KINDS_def valid_fixed_value_def non_whitespace_string_def intro!: typed_fixed)

lemma table_entry_typed:
  assumes "mk_table t = Inr t" "coherent_ownership (t_ownership t)"
  shows "typed_properties (en_identity (table_entry sc t)) (en_first (table_entry sc t))"
  unfolding table_entry_def entry.simps
  using texts_non_blank(5) [OF assms(1)] ownership_valid [OF assms(2)]
  by (intro tech_props_typed typed_propertiesI)
    (auto simp: list_all_iff NAME_ALLOWED_KINDS_def TECHNICAL_ATTRIBUTES_KINDS_def valid_fixed_value_def non_whitespace_string_def intro!: typed_fixed)

lemma schema_entry_typed:
  assumes "mk_schema sc = Inr sc" "coherent_ownership (sc_ownership sc)"
  shows "typed_properties (en_identity (schema_entry sc)) (en_first (schema_entry sc))"
  unfolding schema_entry_def entry.simps
  using texts_non_blank(6) [OF assms(1)] ownership_valid [OF assms(2)]
  by (intro typed_propertiesI)
    (auto simp: list_all_iff NAME_ALLOWED_KINDS_def valid_fixed_value_def non_whitespace_string_def intro!: typed_fixed)

lemma database_entry_typed:
  assumes "mk_database db = Inr db" "coherent_ownership (db_ownership db)"
  shows "typed_properties (en_identity (database_entry db)) (en_first (database_entry db))"
  unfolding database_entry_def entry.simps
  using texts_non_blank(7) [OF assms(1)] ownership_valid [OF assms(2)]
  by (intro typed_propertiesI)
    (auto simp: list_all_iff NAME_ALLOWED_KINDS_def valid_fixed_value_def non_whitespace_string_def intro!: typed_fixed)

lemma data_source_entry_typed:
  assumes "mk_data_source ds = Inr ds" "coherent_ownership (ds_ownership ds)"
  shows "typed_properties (en_identity (data_source_entry ds)) (en_first (data_source_entry ds)) \<and>
    map_of (en_first (data_source_entry ds)) ''/system_type'' = Some (present (JStr (ds_system_type ds)))"
proof
  show "typed_properties (en_identity (data_source_entry ds)) (en_first (data_source_entry ds))"
    unfolding data_source_entry_def entry.simps
    using texts_non_blank(8) [OF assms(1)] ownership_valid [OF assms(2)]
    by (intro tech_props_typed typed_propertiesI)
      (auto simp: list_all_iff NAME_ALLOWED_KINDS_def TECHNICAL_ATTRIBUTES_KINDS_def valid_fixed_value_def non_whitespace_string_def intro!: typed_fixed)
  have "map_of (tech_props ps attrs) ''/system_type'' = map_of ps ''/system_type''" for ps attrs
    by (induction attrs arbitrary: ps) (auto simp: tech_props_def technical_pointer)
  then show "map_of (en_first (data_source_entry ds)) ''/system_type'' = Some (present (JStr (ds_system_type ds)))"
    by (simp add: data_source_entry_def)
qed

text \<open>References of the entries of a coherent snapshot.\<close>

lemma schema_names:
  assumes "projectable ds db rels" "sc \<in> set (db_schemas db)" "t \<in> set (sc_tables sc)"
  shows "sc_name sc \<noteq> []" "t_name t \<noteq> []" "coherent_table (database_tables db) sc t"
  using assms texts_present(5,6) by (auto simp: projectable_def list_all_iff coherent_schema_def coherent_table_def)

lemma ref_of_entry:
  assumes "distinct (map en_raw es)" "e \<in> set es" shows "ref_of (index_of es) (en_raw e) = comparison_identity_dict (en_identity e)"
  using index_lookup [OF assms] by (simp add: ref_of_def del: map_of_eq_Some_iff)

lemma table_ref:
  assumes p: "projectable ds db rels" and raws: "distinct (map en_raw (project_entries ds db rels))"
    and t: "sc \<in> set (db_schemas db)" "t \<in> set (sc_tables sc)"
  shows "ref_of (index_of (project_entries ds db rels)) (t_id t) = comparison_identity_dict (ci ''table'' [sc_name sc, t_name t]) \<and>
    valid_identity (ci ''table'' [sc_name sc, t_name t])"
proof -
  have "table_entry sc t \<in> set (project_entries ds db rels)" using entries_of_table [OF t] by (auto simp: table_entries_def)
  from ref_of_entry [OF raws this] show ?thesis using schema_names [OF p t]
    by (simp add: table_entry_def valid_identity_def mk_comparison_identity_ok)
qed

lemma column_refs_identities:
  assumes p: "projectable ds db rels" and raws: "distinct (map en_raw (project_entries ds db rels))"
    and t: "sc \<in> set (db_schemas db)" "t \<in> set (sc_tables sc)" and ids: "set ids \<subseteq> c_id ` set (t_columns t)"
  shows "\<exists>is. map (ref_of (index_of (project_entries ds db rels))) ids = map comparison_identity_dict is \<and> length is = length ids \<and>
    list_all (\<lambda>i. valid_identity i \<and> co_kind i = ''column'' \<and> take 2 (co_path i) = [sc_name sc, t_name t]) is"
  using ids
proof (induction ids)
  case (Cons x ids)
  then have "x \<in> c_id ` set (t_columns t)" by simp
  then obtain c where c: "c \<in> set (t_columns t)" "x = c_id c" by blast
  have "c_name c \<noteq> []" using c(1) schema_names(3) [OF p t] texts_present(1) by (auto simp: coherent_table_def coherent_columns_def list_all_iff)
  then have valid: "valid_identity (ci ''column'' [sc_name sc, t_name t, c_name c])"
    using schema_names [OF p t] by (simp add: valid_identity_def mk_comparison_identity_ok)
  have "column_entry sc t c \<in> set (table_entries sc t)" using c(1) by (simp add: table_entries_def)
  then have "column_entry sc t c \<in> set (project_entries ds db rels)" using entries_of_table [OF t] by blast
  from ref_of_entry [OF raws this] have "ref_of (index_of (project_entries ds db rels)) x = comparison_identity_dict (ci ''column'' [sc_name sc, t_name t, c_name c])"
    by (simp add: column_entry_def c(2))
  moreover obtain "is" where "map (ref_of (index_of (project_entries ds db rels))) ids = map comparison_identity_dict is" "length is = length ids"
    "list_all (\<lambda>i. valid_identity i \<and> co_kind i = ''column'' \<and> take 2 (co_path i) = [sc_name sc, t_name t]) is" using Cons by auto
  ultimately show ?case using valid by (intro exI [of _ "ci ''column'' [sc_name sc, t_name t, c_name c] # is"]) simp
qed (auto intro: exI [of _ "[]"])

definition referenced_alike :: "properties \<Rightarrow> bool" where
  "referenced_alike ps \<longleftrightarrow> (\<exists>path is. map_of ps ''/referenced_table_id'' = Some (present (comparison_identity_dict (ci ''table'' path))) \<and>
     valid_identity (ci ''table'' path) \<and> map_of ps ''/referenced_column_ids'' = Some (present (JArray (map comparison_identity_dict is))) \<and>
     list_all (\<lambda>i. valid_identity i \<and> take 2 (co_path i) = path) is)"

lemma canon_identities [simp]: "canon (JArray (map comparison_identity_dict is)) = JArray (map comparison_identity_dict is)"
  by (simp add: comp_def)

lemma primary_key_final_typed:
  assumes p: "projectable ds db rels" and raws: "distinct (map en_raw (project_entries ds db rels))"
    and t: "sc \<in> set (db_schemas db)" "t \<in> set (sc_tables sc)" and k: "t_primary_key t = Some k"
  shows "typed_properties (en_identity (primary_key_entry sc t k)) (cb_properties (final_object (index_of (project_entries ds db rels)) (primary_key_entry sc t k)))"
proof -
  have mk: "mk_primary_key k = Inr k" and ids: "set (pk_column_ids k) \<subseteq> c_id ` set (t_columns t)"
    using schema_names(3) [OF p t] k by (simp_all add: coherent_table_def coherent_columns_def)
  obtain "is" where "is": "map (ref_of (index_of (project_entries ds db rels))) (pk_column_ids k) = map comparison_identity_dict is"
    "length is = length (pk_column_ids k)"
    "list_all (\<lambda>i. valid_identity i \<and> co_kind i = ''column'' \<and> take 2 (co_path i) = [sc_name sc, t_name t]) is"
    using column_refs_identities [OF p raws t ids] by blast
  have items: "valid_column_items (Some [sc_name sc, t_name t]) False None (map comparison_identity_dict is)"
    using "is"(3) by (rule valid_column_items_same) simp_all
  have "is \<noteq> []" using "is"(2) texts_non_blank(2) [OF mk] by auto
  then show ?thesis
    using items texts_non_blank(2) [OF mk]
    unfolding final_object_def ComparableObject.simps ref_changes_def primary_key_entry_def entry.simps
    by (intro typed_propertiesI)
      (auto simp: with_properties_def "is"(1) NAME_ALLOWED_KINDS_def valid_fixed_value_def non_whitespace_string_def
        valid_column_identity_list_def comp_def intro!: typed_fixed)
qed

lemma foreign_key_final_typed:
  assumes p: "projectable ds db rels" and raws: "distinct (map en_raw (project_entries ds db rels))"
    and t: "sc \<in> set (db_schemas db)" "t \<in> set (sc_tables sc)" and k: "k \<in> set (t_foreign_keys t)"
  shows "typed_properties (en_identity (foreign_key_entry sc t k)) (cb_properties (final_object (index_of (project_entries ds db rels)) (foreign_key_entry sc t k)))
    \<and> referenced_alike (cb_properties (final_object (index_of (project_entries ds db rels)) (foreign_key_entry sc t k)))"
proof -
  let ?d = "index_of (project_entries ds db rels)"
  have co: "coherent_key (database_tables db) t k" using schema_names(3) [OF p t] k by (simp add: coherent_table_def list_all_iff)
  then have mk: "mk_foreign_key k = Inr k" and ids: "set (fk_column_ids k) \<subseteq> c_id ` set (t_columns t)" by (simp_all add: coherent_key_def)
  obtain u where u: "u \<in> set (database_tables db)" "fk_referenced_table_id k = t_id u" "set (fk_referenced_column_ids k) \<subseteq> c_id ` set (t_columns u)"
    using co by (auto simp: coherent_key_def)
  obtain su where su: "su \<in> set (db_schemas db)" "u \<in> set (sc_tables su)" using u(1) by (auto simp: database_tables_def)
  obtain "is" where "is": "map (ref_of ?d) (fk_column_ids k) = map comparison_identity_dict is" "length is = length (fk_column_ids k)"
    "list_all (\<lambda>i. valid_identity i \<and> co_kind i = ''column'' \<and> take 2 (co_path i) = [sc_name sc, t_name t]) is"
    using column_refs_identities [OF p raws t ids] by blast
  obtain js where js: "map (ref_of ?d) (fk_referenced_column_ids k) = map comparison_identity_dict js" "length js = length (fk_referenced_column_ids k)"
    "list_all (\<lambda>i. valid_identity i \<and> co_kind i = ''column'' \<and> take 2 (co_path i) = [sc_name su, t_name u]) js"
    using column_refs_identities [OF p raws su u(3)] by blast
  note tab = table_ref [OF p raws su, folded u(2)]
  have items: "valid_column_items (Some [sc_name sc, t_name t]) False None (map comparison_identity_dict is)"
    "valid_column_items None True None (map comparison_identity_dict js)"
    by (rule valid_column_items_same [OF "is"(3)], simp_all) (rule valid_column_items_same [OF js(3)], simp_all)
  have ne: "is \<noteq> []" "js \<noteq> []" using "is"(2) js(2) texts_non_blank(3) [OF mk] by auto
  have props: "cb_properties (final_object ?d (foreign_key_entry sc t k)) =
      [(''/name'', present (JStr (fk_name k))), (''/column_ids'', present (JArray (map comparison_identity_dict is))),
       (''/referenced_table_id'', present (comparison_identity_dict (ci ''table'' [sc_name su, t_name u]))),
       (''/referenced_column_ids'', present (JArray (map comparison_identity_dict js)))]"
    by (simp add: final_object_def ref_changes_def foreign_key_entry_def with_properties_def "is"(1) js(1) tab)
  have "typed_properties (en_identity (foreign_key_entry sc t k)) (cb_properties (final_object ?d (foreign_key_entry sc t k)))"
    unfolding props unfolding foreign_key_entry_def entry.simps
    using items ne texts_non_blank(3) [OF mk] tab
    by (intro typed_propertiesI)
      (auto simp: NAME_ALLOWED_KINDS_def valid_fixed_value_def non_whitespace_string_def valid_table_identity_def
        valid_column_identity_list_def comp_def intro!: typed_fixed)
  moreover have "list_all (\<lambda>i. valid_identity i \<and> take 2 (co_path i) = [sc_name su, t_name u]) js" using js(3) by (auto simp: list_all_iff)
  then have "referenced_alike (cb_properties (final_object ?d (foreign_key_entry sc t k)))"
    unfolding props referenced_alike_def using tab by (intro exI [of _ "[sc_name su, t_name u]"] exI [of _ js]) simp
  ultimately show ?thesis by blast
qed

lemma relationship_final_typed:
  assumes p: "projectable ds db rels" and raws: "distinct (map en_raw (project_entries ds db rels))" and r: "r \<in> set rels"
  shows "typed_properties (en_identity (relationship_entry db r)) (cb_properties (final_object (index_of (project_entries ds db rels)) (relationship_entry db r)))"
proof -
  let ?d = "index_of (project_entries ds db rels)" and ?ts = "database_tables db"
  have tids: "distinct (map t_id ?ts)" using p distinct_table_ids by (auto simp: projectable_def all_ids_def database_tables_def)
  have rel: "coherent_relationship ?ts r" using p r by (simp add: projectable_def list_all_iff)
  then obtain t u where t: "t \<in> set ?ts" "t_id t = rl_from_table_id r" and u: "u \<in> set ?ts" "t_id u = rl_to_table_id r" and mk: "mk_relationship r = Inr r"
    by (auto simp: coherent_relationship_def)
  obtain st where st: "st \<in> set (db_schemas db)" "t \<in> set (sc_tables st)" using t(1) by (auto simp: database_tables_def)
  obtain su where su: "su \<in> set (db_schemas db)" "u \<in> set (sc_tables su)" using u(1) by (auto simp: database_tables_def)
  have place: "get_list (table_places db) (rl_from_table_id r) = [sc_name st, t_name t]" using table_place [OF tids st] by (simp add: t(2))
  note tab = table_ref [OF p raws su, unfolded u(2)]
  have fk: "valid_foreign_key_identity (canon (resolve_ref ?d (case rl_foreign_key_id r of None \<Rightarrow> Nothing | Some i \<Rightarrow> One i))) (Some [sc_name st, t_name t])"
  proof (cases "rl_foreign_key_id r")
    case (Some i)
    then obtain k where k: "k \<in> set (table_keys ?ts)" "fk_id k = i" "fk_table_id k = rl_from_table_id r" using rel by (auto simp: coherent_relationship_def)
    then obtain v where v: "v \<in> set ?ts" "k \<in> set (t_foreign_keys v)" by (auto simp: table_keys_def)
    then obtain sv where sv: "sv \<in> set (db_schemas db)" "v \<in> set (sc_tables sv)" by (auto simp: database_tables_def)
    have co: "coherent_key ?ts v k" using schema_names(3) [OF p sv] v(2) by (simp add: coherent_table_def list_all_iff)
    then have "t_id v = t_id t" using k(3) t(2) by (simp add: coherent_key_def)
    then have same: "v = t" using tids v(1) t(1) by (auto simp: distinct_map dest: inj_onD)
    then have "[sc_name sv, t_name v] = [sc_name st, t_name t]" using table_place [OF tids sv] table_place [OF tids st] by simp
    have "foreign_key_entry sv v k \<in> set (table_entries sv v)" using v(2) by (simp add: table_entries_def key_entries_def)
    then have "foreign_key_entry sv v k \<in> set (project_entries ds db rels)" using entries_of_table [OF sv] by blast
    from ref_of_entry [OF raws this] have ref: "ref_of ?d i = comparison_identity_dict (ci ''foreign_key'' [sc_name sv, t_name v, fk_name k])"
      by (simp add: foreign_key_entry_def k(2))
    have "fk_name k \<noteq> []" using co texts_present(3) by (auto simp: coherent_key_def)
    then have "valid_identity (ci ''foreign_key'' [sc_name sv, t_name v, fk_name k])"
      using schema_names [OF p sv] by (simp add: valid_identity_def mk_comparison_identity_ok)
    moreover have "comparison_identity_dict j \<noteq> JNull" for j by (simp add: comparison_identity_dict_def)
    ultimately show ?thesis using Some ref \<open>[sc_name sv, t_name v] = _\<close> by (simp add: valid_foreign_key_identity_def)
  qed (simp add: valid_foreign_key_identity_def)
  have props: "cb_properties (final_object ?d (relationship_entry db r)) =
      [(''/name'', present (JStr (rl_name r))), (''/to_table_id'', present (comparison_identity_dict (ci ''table'' [sc_name su, t_name u]))),
       (''/foreign_key_id'', present (resolve_ref ?d (case rl_foreign_key_id r of None \<Rightarrow> Nothing | Some i \<Rightarrow> One i))),
       (''/description'', present (rl_description r))]"
    by (simp add: final_object_def ref_changes_def relationship_entry_def Let_def with_properties_def tab)
  show ?thesis
    unfolding props unfolding relationship_entry_def Let_def entry.simps place
    using fk texts_non_blank(4) [OF mk] tab
    by (intro typed_propertiesI)
      (auto simp: NAME_ALLOWED_KINDS_def valid_fixed_value_def non_whitespace_string_def valid_table_identity_def intro!: typed_fixed)
qed

text \<open>All objects of a projected snapshot.\<close>

definition typed_object :: "GovernanceSnapshot \<Rightarrow> ComparisonObjectIdentity \<Rightarrow> ComparableObject \<Rightarrow> bool" where
  "typed_object sn i obj \<longleftrightarrow> typed_properties i (cb_properties obj) \<and>
     (co_kind i = ''foreign_key'' \<longrightarrow> referenced_alike (cb_properties obj)) \<and>
     (co_kind i = ''data_source'' \<longrightarrow> map_of (cb_properties obj) ''/system_type'' = Some (present (JStr (sn_system_type sn))))"

lemma typed_object_plain:
  assumes "en_refs e = []" "co_kind (en_identity e) \<noteq> ''foreign_key''" "co_kind (en_identity e) \<noteq> ''data_source''"
    and "typed_properties (en_identity e) (en_first e)"
  shows "typed_object sn (en_identity e) (final_object d e)"
  using assms by (simp add: typed_object_def no_refs_final first_object_def)

lemma entry_kinds [simp]:
  "en_refs (database_entry db) = []" "co_kind (en_identity (database_entry db)) = ''database''"
  "en_refs (schema_entry sc) = []" "co_kind (en_identity (schema_entry sc)) = ''schema''"
  "en_refs (table_entry sc t) = []" "co_kind (en_identity (table_entry sc t)) = ''table''"
  "en_refs (column_entry sc t c) = []" "co_kind (en_identity (column_entry sc t c)) = ''column''"
  "en_refs (data_source_entry ds) = []" "co_kind (en_identity (data_source_entry ds)) = ''data_source''"
  "co_kind (en_identity (primary_key_entry sc t k)) = ''primary_key''" "co_kind (en_identity (foreign_key_entry sc t f)) = ''foreign_key''"
  "co_kind (en_identity (relationship_entry db r)) = ''relationship''"
  by (simp_all add: entry_defs relationship_entry_def Let_def)

lemma projected_typed:
  assumes sn: "coherent_snapshot sn" and run: "project_snapshot side sn = Inr pr" and obj: "objects_of pr i = Some obj"
  shows "typed_object sn i obj"
proof -
  obtain ds db where v: "validate_snapshot_shape_and_envelope side sn = Inr (ds, db)" "gm_data_sources (sn_model sn) = [ds]"
    "ds_databases ds = [db]" and p: "projectable ds db (gm_relationships (sn_model sn))" by (rule coherent_projectable [OF sn])
  let ?rels = "gm_relationships (sn_model sn)"
  let ?es = "project_entries ds db ?rels"
  let ?d = "index_of ?es"
  have raws: "distinct (map en_raw ?es)" using p raw_ids mset_eq_imp_distinct_iff by (metis projectable_def)
  have dist: "distinct (map en_identity ?es)" and pr: "pr = spec_projection sn ?es"
    using projection_eq [OF p v(1) refl] run by (auto split: if_splits)
  obtain e where e: "e \<in> set ?es" "i = en_identity e" "obj = final_object ?d e"
    using obj unfolding pr by (auto simp: objects_of_def spec_projection_def dest!: map_of_SomeD)
  have top: "mk_data_source ds = Inr ds" "coherent_ownership (ds_ownership ds)" "mk_database db = Inr db" "coherent_ownership (db_ownership db)"
    "sn_system_type sn = ds_system_type ds" using sn v(2,3) unfolding coherent_snapshot_def by auto
  consider "e = data_source_entry ds" | "e = database_entry db"
    | sc where "sc \<in> set (db_schemas db)" "e = schema_entry sc"
    | sc t where "sc \<in> set (db_schemas db)" "t \<in> set (sc_tables sc)" "e \<in> set (table_entries sc t)"
    | r where "r \<in> set ?rels" "e = relationship_entry db r"
    using e(1) by (auto simp: project_entries_def schema_entries_def)
  then show ?thesis
  proof cases
    case 1
    then have "final_object ?d e = first_object e" by (intro no_refs_final) simp
    then show ?thesis using data_source_entry_typed [OF top(1,2)] 1 e top(5) by (simp add: typed_object_def first_object_def)
  next
    case 2
    then show ?thesis using database_entry_typed [OF top(3,4)] e by (simp add: typed_object_plain)
  next
    case 3
    then have "mk_schema sc = Inr sc" "coherent_ownership (sc_ownership sc)" using p by (auto simp: projectable_def list_all_iff coherent_schema_def)
    then show ?thesis using schema_entry_typed [of sc] e 3 by (simp add: typed_object_plain)
  next
    case 4
    note tab = schema_names(3) [OF p 4(1,2)]
    then have mk: "mk_table t = Inr t" "coherent_ownership (t_ownership t)" "list_all (\<lambda>c. mk_column c = Inr c) (t_columns t)"
      by (simp_all add: coherent_table_def coherent_columns_def)
    consider "e = table_entry sc t" | c where "c \<in> set (t_columns t)" "e = column_entry sc t c"
      | k where "t_primary_key t = Some k" "e = primary_key_entry sc t k"
      | k where "k \<in> set (t_foreign_keys t)" "e = foreign_key_entry sc t k"
      using 4(3) by (cases "t_primary_key t") (auto simp: table_entries_def key_entries_def)
    then show ?thesis
    proof cases
      case 1
      then show ?thesis using table_entry_typed [OF mk(1,2)] e by (simp add: typed_object_plain)
    next
      case 2
      then have "mk_column c = Inr c" using mk(3) by (simp add: list_all_iff)
      then show ?thesis using column_entry_typed [of c sc t] e 2 by (simp add: typed_object_plain)
    next
      case 3
      then show ?thesis using primary_key_final_typed [OF p raws 4(1,2) 3(1)] 3(2) e by (simp add: typed_object_def)
    next
      case 4
      then show ?thesis using foreign_key_final_typed [OF p raws \<open>sc \<in> _\<close> \<open>t \<in> _\<close> 4(1)] 4(2) e by (simp add: typed_object_def)
    qed
  next
    case 5
    then show ?thesis using relationship_final_typed [OF p raws 5(1)] 5(2) e by (simp add: typed_object_def)
  qed
qed

lemma system_type_kind: "property_path_compatible_with_kind k ''/system_type'' \<Longrightarrow> k = ''data_source''"
  by (auto simp: property_path_compatible_with_kind_def startswith_def FIXED_PATHS_def get_list_def split: if_splits)

lemma compatible_kind: "property_path_compatible_with_kind k p \<Longrightarrow> is_technical_attribute_pointer p \<or> p \<in> set (get_list FIXED_PATHS k)"
  by (auto simp: property_path_compatible_with_kind_def is_technical_attribute_pointer_def split: if_splits)

text \<open>One side of a property that differs between two typed objects of the same identity.\<close>

lemma side_compatible:
  assumes o: "typed_object sn i x" and ok: "comparison_change_property_compatible_with_kind (co_kind i) k"
  shows "comparable_change_value_compatible i k (property_value_dict (property_or_missing (cb_properties x) k))"
proof (cases "map_of (cb_properties x) k")
  case None
  have "property_path_compatible_with_kind (co_kind i) k" using ok by (auto simp: comparison_change_property_compatible_with_kind_def split: if_splits)
  then have "is_technical_attribute_pointer k \<or> k \<in> set (get_list FIXED_PATHS (co_kind i))" by (rule compatible_kind)
  moreover have "k \<notin> set (get_list FIXED_PATHS (co_kind i))" using o None unfolding typed_object_def typed_properties_def by blast
  ultimately have "is_technical_attribute_pointer k" by blast
  then show ?thesis using None by (simp add: property_or_missing_def missing_def property_value_dict_def comparable_change_value_compatible_def)
next
  case (Some v)
  then have v: "cv_has_value v" "is_technical_attribute_pointer k \<or> k = ''/system_type'' \<or> valid_fixed_value k (cv_value v) i"
    using o by (auto simp: typed_object_def typed_properties_def typed_value_def simp del: map_of_eq_Some_iff)
  have "k \<noteq> ''/system_type''" using ok system_type_kind by (auto simp: comparison_change_property_compatible_with_kind_def split: if_splits)
  then show ?thesis using Some v ok by (auto simp: property_or_missing_def property_value_dict_def comparable_change_value_compatible_def Let_def)
qed

lemma change_compatible:
  assumes x: "typed_object sn i x" and y: "typed_object sn' i y" and sys: "sn_system_type sn = sn_system_type sn'"
    and differ: "\<not> property_values_equal (property_or_missing (cb_properties x) k) (property_or_missing (cb_properties y) k)"
  shows "comparison_change_property_compatible_with_kind (co_kind i) k"
proof -
  have "map_of (cb_properties x) k \<noteq> None \<or> map_of (cb_properties y) k \<noteq> None"
  proof (rule ccontr)
    assume "\<not> ?thesis"
    then show False using differ by (simp add: property_or_missing_def)
  qed
  then have path: "property_path_compatible_with_kind (co_kind i) k"
    using x y by (auto simp: typed_object_def typed_properties_def typed_value_def simp del: map_of_eq_Some_iff)
  have "co_kind i \<in> set NAME_ALLOWED_KINDS" if "k = ''/name''"
  proof (rule ccontr)
    assume "co_kind i \<notin> set NAME_ALLOWED_KINDS"
    then have "map_of (cb_properties x) k = map_of (cb_properties y) k" using x y that by (simp add: typed_object_def typed_properties_def)
    then show False using differ by (simp add: property_or_missing_def)
  qed
  moreover have "\<not> (co_kind i = ''data_source'' \<and> k = ''/system_type'')"
  proof
    assume "co_kind i = ''data_source'' \<and> k = ''/system_type''"
    then have "map_of (cb_properties x) k = map_of (cb_properties y) k" using x y sys by (simp add: typed_object_def)
    then show False using differ by (simp add: property_or_missing_def)
  qed
  ultimately show ?thesis using path by (auto simp: comparison_change_property_compatible_with_kind_def)
qed

lemma reference_sides:
  assumes "referenced_alike (cb_properties x)"
  shows "reference_side_coherent (property_value_dict (property_or_missing (cb_properties x) ''/referenced_table_id''))
    (property_value_dict (property_or_missing (cb_properties x) ''/referenced_column_ids''))"
  using assms by (auto simp: referenced_alike_def reference_side_coherent_def property_or_missing_def property_value_dict_def comp_def list_all_iff
      simp del: map_of_eq_Some_iff)

lemma changes_coherent:
  assumes x: "typed_object sn i x" and y: "typed_object sn' i y" and sys: "sn_system_type sn = sn_system_type sn'"
  shows "foreign_key_reference_sides_coherent (map property_change_dict (diff_properties x y))"
proof -
  let ?cs = "diff_properties x y"
  have fields: "field_of (property_change_dict c) ''property'' = JStr (pc_property c)"
    "field_of (property_change_dict c) ''baseline'' = property_value_dict (pc_baseline c)"
    "field_of (property_change_dict c) ''candidate'' = property_value_dict (pc_candidate c)" for c
    by (simp_all add: field_of_def property_change_dict_def)
  show ?thesis
  proof (cases "find (\<lambda>c. field_of c ''property'' = JStr ''/referenced_table_id'') (map property_change_dict ?cs)")
    case None
    then show ?thesis by (simp add: foreign_key_reference_sides_coherent_def)
  next
    case (Some tc)
    show ?thesis
    proof (cases "find (\<lambda>c. field_of c ''property'' = JStr ''/referenced_column_ids'') (map property_change_dict ?cs)")
      case None
      then show ?thesis using Some by (simp add: foreign_key_reference_sides_coherent_def)
    next
      case some_cc: (Some cc)
      have "tc \<in> set (map property_change_dict ?cs) \<and> field_of tc ''property'' = JStr ''/referenced_table_id''"
        "cc \<in> set (map property_change_dict ?cs) \<and> field_of cc ''property'' = JStr ''/referenced_column_ids''"
        using Some some_cc by (auto simp: find_Some_iff)
      then obtain t c where t: "t \<in> set ?cs" "tc = property_change_dict t" "pc_property t = ''/referenced_table_id''"
        and c: "c \<in> set ?cs" "cc = property_change_dict c" "pc_property c = ''/referenced_column_ids''" by (auto simp: fields)
      then have tv: "pc_baseline t = property_or_missing (cb_properties x) ''/referenced_table_id''"
        "pc_candidate t = property_or_missing (cb_properties y) ''/referenced_table_id''"
        "\<not> property_values_equal (pc_baseline t) (pc_candidate t)"
        and cv: "pc_baseline c = property_or_missing (cb_properties x) ''/referenced_column_ids''"
        "pc_candidate c = property_or_missing (cb_properties y) ''/referenced_column_ids''"
        using conjunct1 [OF diff_properties_spec, of x y] by (auto simp: specified_diff_def)
      have "comparison_change_property_compatible_with_kind (co_kind i) ''/referenced_table_id''"
        using tv by (intro change_compatible [OF x y sys]) simp
      then have "co_kind i = ''foreign_key''"
        by (auto simp: comparison_change_property_compatible_with_kind_def property_path_compatible_with_kind_def startswith_def
            FIXED_PATHS_def get_list_def split: if_splits)
      then have "referenced_alike (cb_properties x)" "referenced_alike (cb_properties y)" using x y by (simp_all add: typed_object_def)
      from this [THEN reference_sides] show ?thesis
        using Some some_cc t(2) c(2) tv cv by (simp add: foreign_key_reference_sides_coherent_def fields)
    qed
  qed
qed

section \<open>Property\<close>

text \<open>C32 (type). Producer and validator agree: every property change in the comparison of two loaded snapshots names a
  path that may change on its kind of object, both its sides have values of the type that path requires
  (and are absent only for technical attributes), and the changes of a foreign key keep its referenced table
  and columns together. So a comparison artifact the engine wrote is not refused for its properties when
  it is loaded again.\<close>

theorem comparison_changes_typed:
  assumes "coherent_snapshot x" "coherent_snapshot y" "build_comparison_result sha x y ack = Inr r" "c \<in> set (cr_object_changes r)"
  shows "foreign_key_reference_sides_coherent (map property_change_dict (oc_property_changes c)) \<and>
    (\<forall>p \<in> set (oc_property_changes c).
       comparison_change_property_compatible_with_kind (co_kind (oc_object_identity c)) (pc_property p) \<and>
       comparable_change_value_compatible (oc_object_identity c) (pc_property p) (property_value_dict (pc_baseline p)) \<and>
       comparable_change_value_compatible (oc_object_identity c) (pc_property p) (property_value_dict (pc_candidate p)))"
proof -
  obtain b d where *: "project_snapshot ''baseline'' x = Inr b" "project_snapshot ''candidate'' y = Inr d"
    "validate_pairwise_scanner x y = Inr ()" "cr_object_changes r = fst (compare_projected b d)"
    using assms(3) unfolding build_Inr by auto
  have sys: "sn_system_type x = sn_system_type y" using *(3) by (auto simp: validate_pairwise_scanner_def when_error_def Let_def split: if_splits)
  have "well_keyed b" "well_keyed d" using projection_side [OF assms(1) *(1)] projection_side [OF assms(2) *(2)] by blast+
  from compare_projected_exact [OF this] have "c \<in> specified_changes b d" using assms(4) *(4) by (simp add: exact_comparison_def)
  then consider "oc_property_changes c = []"
    | i l m where "c = change_of Changed i l (diff_properties l m)" "objects_of b i = Some l" "objects_of d i = Some m"
    unfolding specified_changes_def by (auto simp: change_of_def)
  then show ?thesis
  proof cases
    case 2
    note l = projected_typed [OF assms(1) *(1) 2(2)] and m = projected_typed [OF assms(2) *(2) 2(3)]
    have "comparison_change_property_compatible_with_kind (co_kind i) (pc_property p) \<and>
       comparable_change_value_compatible i (pc_property p) (property_value_dict (pc_baseline p)) \<and>
       comparable_change_value_compatible i (pc_property p) (property_value_dict (pc_candidate p))" if "p \<in> set (diff_properties l m)" for p
    proof -
      have p: "pc_baseline p = property_or_missing (cb_properties l) (pc_property p)" "pc_candidate p = property_or_missing (cb_properties m) (pc_property p)"
        "\<not> property_values_equal (pc_baseline p) (pc_candidate p)"
        using that conjunct1 [OF diff_properties_spec, of l m] by (auto simp: specified_diff_def)
      have "comparison_change_property_compatible_with_kind (co_kind i) (pc_property p)" using p(3) unfolding p(1,2) by (rule change_compatible [OF l m sys])
      then show ?thesis using side_compatible [OF l] side_compatible [OF m] by (simp add: p(1,2))
    qed
    then show ?thesis using changes_coherent [OF l m sys] 2(1) by (simp add: change_of_def)
  qed (simp add: foreign_key_reference_sides_coherent_def)
qed

lemma comparison_changes_typed_witness:
  "\<exists>r. build_comparison_result (\<lambda>_. ''d'') small_snapshot edited_snapshot empty_ack = Inr r \<and>
    (\<forall>c \<in> set (cr_object_changes r). foreign_key_reference_sides_coherent (map property_change_dict (oc_property_changes c)))"
proof -
  obtain r where r: "build_comparison_result (\<lambda>_. ''d'') small_snapshot edited_snapshot empty_ack = Inr r"
    using example_comparison by blast
  show ?thesis using comparison_changes_typed [OF small_snapshot_coherent edited_snapshot_coherent r] r by blast
qed

end
