(* ===== verification/Batching.thy ===== *)
theory Batching
  imports Sync
begin

text \<open>
  \<open>integrations/collibra/batching.py\<close>: the conservative counters of an Import command and the greedy
  grouping of the commands of a document into batches under two ceilings, with the integer check of
  \<open>config.py\<close>. An Import document is the list of the payloads of its commands; a payload is a
  dictionary of JSON values. Greedy grouping is proved to keep the order, to respect both ceilings and
  to use the fewest batches of all order-preserving groupings that do.
\<close>

section \<open>Ceilings\<close>

definition DEFAULT_BATCH_MAX_RESOURCES :: int where
  "DEFAULT_BATCH_MAX_RESOURCES = 50000"

definition DEFAULT_BATCH_MAX_ADDITIONAL_CHARACTERISTICS :: int where
  "DEFAULT_BATCH_MAX_ADDITIONAL_CHARACTERISTICS = 500000"

text \<open>The argument may be any value; \<open>None\<close> is \<open>JNull\<close>.\<close>

definition require_strict_positive_int :: "json \<Rightarrow> string \<Rightarrow> int result" where
  "require_strict_positive_int value field_name =
     (case value of
        JInt i \<Rightarrow> if i \<le> 0 then Inl (ValueError (field_name @ '' must be positive'')) else Inr i
      | _ \<Rightarrow> Inl (ValueError (field_name @ '' must be a positive integer'')))"

definition resolve_batch_limits :: "json \<Rightarrow> json \<Rightarrow> (int \<times> int) result" where
  "resolve_batch_limits max_resources max_additional_characteristics =
     try_in (if max_resources = JNull then Inr DEFAULT_BATCH_MAX_RESOURCES
       else require_strict_positive_int max_resources ''max_resources'') (\<lambda>resources.
     try_in (if max_additional_characteristics = JNull then Inr DEFAULT_BATCH_MAX_ADDITIONAL_CHARACTERISTICS
       else require_strict_positive_int max_additional_characteristics ''max_additional_characteristics'') (\<lambda>additional.
       if resources \<le> 0 \<or> additional \<le> 0 then Inl (BatchingError ''batch ceilings must be positive'')
       else if resources > DEFAULT_BATCH_MAX_RESOURCES \<or> additional > DEFAULT_BATCH_MAX_ADDITIONAL_CHARACTERISTICS
       then Inl (BatchingError ''batch ceilings cannot exceed the hard maxima'')
       else Inr (resources, additional)))"

section \<open>Counters\<close>

record CommandCounts =
  cc_resource_count :: int
  cc_attribute_count :: int
  cc_relation_count :: int
  cc_tag_count :: int

definition additional_count :: "CommandCounts \<Rightarrow> int" where
  "additional_count c = cc_attribute_count c + cc_relation_count c + cc_tag_count c"

definition plus_counts :: "CommandCounts \<Rightarrow> CommandCounts \<Rightarrow> CommandCounts" where
  "plus_counts c d = \<lparr>cc_resource_count = cc_resource_count c + cc_resource_count d,
     cc_attribute_count = cc_attribute_count c + cc_attribute_count d,
     cc_relation_count = cc_relation_count c + cc_relation_count d,
     cc_tag_count = cc_tag_count c + cc_tag_count d\<rparr>"

definition ZERO_COUNTS :: CommandCounts where
  "ZERO_COUNTS = \<lparr>cc_resource_count = 0, cc_attribute_count = 0, cc_relation_count = 0, cc_tag_count = 0\<rparr>"

fun entries :: "json \<Rightarrow> int" where
  "entries (JArray vs) = int (length vs)"
| "entries JNull = 0"
| "entries v = 1"

definition entry_count :: "json \<Rightarrow> int" where
  "entry_count container = (case container of JObject kvs \<Rightarrow> sum_list (map entries (vals kvs)) | _ \<Rightarrow> 0)"

type_synonym payload = "(string, json) dict"

definition count_command_payload :: "payload \<Rightarrow> CommandCounts" where
  "count_command_payload p = \<lparr>cc_resource_count = 1, cc_attribute_count = entry_count (get_item p ''attributes''),
     cc_relation_count = entry_count (get_item p ''relations''), cc_tag_count = 0\<rparr>"

record ImportDocument =
  id_commands :: "payload list"

definition batch_document_counts :: "ImportDocument \<Rightarrow> CommandCounts" where
  "batch_document_counts document =
     foldl (\<lambda>total command. plus_counts total (count_command_payload command)) ZERO_COUNTS (id_commands document)"

definition document_to_list :: "ImportDocument \<Rightarrow> json" where
  "document_to_list document = JArray (map JObject (id_commands document))"

definition import_batch_content_identity :: "(string \<Rightarrow> string) \<Rightarrow> ImportDocument \<Rightarrow> ContentIdentity" where
  "import_batch_content_identity sha document = \<lparr>ci_algorithm = ''sha256'', ci_hashing_contract_version = ''1'',
     ci_digest = sha (''gov-import-batch-v1'' @ [CHR 0x0A] @ canonical_json_bytes (document_to_list document))\<rparr>"

section \<open>Grouping\<close>

definition exceeds :: "int \<Rightarrow> int \<Rightarrow> CommandCounts \<Rightarrow> bool" where
  "exceeds max_resources max_additional c \<longleftrightarrow>
     cc_resource_count c > max_resources \<or> additional_count c > max_additional"

fun partition_loop ::
  "int \<Rightarrow> int \<Rightarrow> nat list list \<Rightarrow> nat list \<Rightarrow> CommandCounts \<Rightarrow> (nat \<times> CommandCounts) list \<Rightarrow> nat list list result" where
  "partition_loop mr ma groups current_indexes current [] =
     Inr (if current_indexes \<noteq> [] then groups @ [current_indexes] else groups)"
| "partition_loop mr ma groups current_indexes current ((index, counts) # rest) =
     (if exceeds mr ma counts then Inl (BatchingError ''a single import command exceeds the batch ceiling'')
      else (let combined = plus_counts current counts in
        if current_indexes \<noteq> [] \<and> exceeds mr ma combined
        then partition_loop mr ma (groups @ [current_indexes]) [index] counts rest
        else partition_loop mr ma groups (current_indexes @ [index]) combined rest))"

definition partition_counts :: "CommandCounts list \<Rightarrow> json \<Rightarrow> json \<Rightarrow> nat list list result" where
  "partition_counts counts max_resources max_additional_characteristics =
     try_in (resolve_batch_limits max_resources max_additional_characteristics) (\<lambda>(mr, ma).
       partition_loop mr ma [] [] ZERO_COUNTS (zip [0..<length counts] counts))"

definition partition_document :: "ImportDocument \<Rightarrow> json \<Rightarrow> json \<Rightarrow> ImportDocument list result" where
  "partition_document document max_resources max_additional_characteristics =
     try_in (resolve_batch_limits max_resources max_additional_characteristics) (\<lambda>(mr, ma).
       if id_commands document = [] then Inr []
       else try_in (partition_counts (map count_command_payload (id_commands document)) (JInt mr) (JInt ma)) (\<lambda>groups.
         Inr (map (\<lambda>g. \<lparr>id_commands = map (\<lambda>index. id_commands document ! index) g\<rparr>) groups)))"

section \<open>Greedy grouping, abstractly\<close>

text \<open>Batches of items under a bound that every part of a batch inherits: the greedy grouping, which
  opens a new batch only when the next item does not fit, uses the fewest batches.\<close>

definition greedy_groups :: "('a list \<Rightarrow> bool) \<Rightarrow> 'a list list \<Rightarrow> bool" where
  "greedy_groups fits gs \<longleftrightarrow> (\<forall>g \<in> set gs. g \<noteq> [] \<and> fits g) \<and>
     successively (\<lambda>g h. \<not> fits (g @ [hd h])) gs"

lemma greedy_tail: "greedy_groups fits (g # gs) \<Longrightarrow> greedy_groups fits gs"
  by (cases gs) (auto simp: greedy_groups_def)

lemma greedy_next: "greedy_groups fits (g # h # gs) \<Longrightarrow> \<not> fits (g @ [hd h])"
  by (simp add: greedy_groups_def)

lemma greedy_snoc:
  "greedy_groups fits (gs @ [g, h]) \<longleftrightarrow> greedy_groups fits (gs @ [g]) \<and> h \<noteq> [] \<and> fits h \<and> \<not> fits (g @ [hd h])"
  by (auto simp: greedy_groups_def successively_append_iff)

lemma greedy_grow: "greedy_groups fits (gs @ [g]) \<Longrightarrow> fits (g @ [x]) \<Longrightarrow> greedy_groups fits (gs @ [g @ [x]])"
  by (auto simp: greedy_groups_def successively_append_iff)

lemma greedy_map:
  assumes "greedy_groups (\<lambda>g. fits (map f g)) gs"
  shows "greedy_groups fits (map (map f) gs)"
proof -
  have "successively (\<lambda>g h. \<not> fits (map f g @ [hd (map f h)])) gs =
      successively (\<lambda>g h. \<not> fits (map f (g @ [hd h]))) gs"
    by (rule successively_cong) (use assms in \<open>auto simp: greedy_groups_def hd_map\<close>)
  then show ?thesis using assms by (simp add: greedy_groups_def successively_map)
qed

lemma greedy_overtakes:
  assumes greedy: "greedy_groups fits (g # gs)"
    and split: "g @ concat gs = h @ xs" and h: "fits (p @ h)"
    and part: "\<And>a b c. fits (a @ b @ c) \<Longrightarrow> fits b"
  shows "\<exists>p. p @ concat gs = xs"
proof (rule ccontr)
  assume none: "\<nexists>p. p @ concat gs = xs"
  from split obtain us where us: "g @ us = h" "concat gs = us @ xs"
    using none by (auto simp: append_eq_append_conv2)
  then have "us \<noteq> []" using none by auto
  obtain k ks where gs: "gs = k # ks" using us \<open>us \<noteq> []\<close> by (cases gs) auto
  have "k \<noteq> []" using greedy gs by (auto simp: greedy_groups_def)
  then have "hd k = hd us" using us(2) gs \<open>us \<noteq> []\<close> by (metis concat.simps(2) hd_append2)
  then have "p @ h = p @ (g @ [hd k]) @ tl us" using us(1) \<open>us \<noteq> []\<close> by auto
  then have "fits (g @ [hd k])" using part h by metis
  then show False using greedy_next greedy gs by blast
qed

lemma greedy_fewest:
  assumes "greedy_groups fits gs" "\<forall>h \<in> set hs. fits h" "p @ concat gs = concat hs"
    and part: "\<And>a b c. fits (a @ b @ c) \<Longrightarrow> fits b"
  shows "length gs \<le> length hs"
  using assms(1-3)
proof (induction hs arbitrary: gs p)
  case Nil
  then show ?case by (cases gs) (auto simp: greedy_groups_def)
next
  case (Cons h hs)
  show ?case
  proof (cases gs)
    case Nil
    then show ?thesis by simp
  next
    case (Cons g gs')
    have "p @ concat gs = h @ concat hs" using Cons.prems by simp
    then consider u where "p = h @ u" "u @ concat gs = concat hs" | u where "h = p @ u" "concat gs = u @ concat hs"
      by (auto simp: append_eq_append_conv2)
    then show ?thesis
    proof cases
      case 1
      have "length gs \<le> length hs" by (rule Cons.IH [OF Cons.prems(1) _ 1(2)]) (use Cons.prems(2) in simp)
      then show ?thesis by simp
    next
      case 2
      have "\<exists>q. q @ concat gs' = concat hs"
      proof (rule greedy_overtakes [where p = p and h = u and g = g and fits = fits])
        show "greedy_groups fits (g # gs')" using Cons.prems(1) Cons by simp
        show "g @ concat gs' = u @ concat hs" using 2(2) Cons by simp
        show "fits (p @ u)" using Cons.prems(2) 2(1) by simp
      qed (rule part)
      then obtain q where "q @ concat gs' = concat hs" ..
      then have "length gs' \<le> length hs"
        by (rule Cons.IH [rotated -1]) (use Cons.prems Cons greedy_tail in auto)
      then show ?thesis using Cons by simp
    qed
  qed
qed

section \<open>What the counters promise\<close>

lemma entry_count_nonneg: "0 \<le> entry_count v"
proof -
  have "0 \<le> entries w" for w by (cases w) auto
  then show ?thesis by (auto simp: entry_count_def intro!: sum_list_nonneg split: json.splits)
qed

definition counts_of :: "('a \<Rightarrow> CommandCounts) \<Rightarrow> 'a list \<Rightarrow> CommandCounts" where
  "counts_of cnt xs = foldl (\<lambda>total x. plus_counts total (cnt x)) ZERO_COUNTS xs"

lemma counts_of_snoc: "counts_of cnt (xs @ [x]) = plus_counts (counts_of cnt xs) (cnt x)"
  by (simp add: counts_of_def)

lemma counts_of_Nil [simp]: "counts_of cnt [] = ZERO_COUNTS"
  by (simp add: counts_of_def)

lemma zero_plus [simp]: "plus_counts ZERO_COUNTS c = c"
  by (simp add: plus_counts_def ZERO_COUNTS_def)

lemma plus_assoc: "plus_counts (plus_counts a b) c = plus_counts a (plus_counts b c)"
  by (simp add: plus_counts_def)

lemma counts_of_append: "counts_of cnt (xs @ ys) = plus_counts (counts_of cnt xs) (counts_of cnt ys)"
proof (induction ys rule: rev_induct)
  case Nil
  then show ?case by (simp add: plus_counts_def ZERO_COUNTS_def)
next
  case (snoc y ys)
  then show ?case using counts_of_snoc [of cnt "xs @ ys" y] by (simp add: counts_of_snoc plus_assoc)
qed

definition counted :: "CommandCounts \<Rightarrow> bool" where
  "counted c \<longleftrightarrow> 0 \<le> cc_resource_count c \<and> 0 \<le> additional_count c"

lemma counted_counts_of: "(\<And>x. counted (cnt x)) \<Longrightarrow> counted (counts_of cnt xs)"
proof (induction xs rule: rev_induct)
  case Nil
  then show ?case by (simp add: counted_def ZERO_COUNTS_def additional_count_def)
next
  case (snoc x xs)
  have "counted (counts_of cnt xs)" "counted (cnt x)" using snoc by blast+
  then show ?case by (simp add: counts_of_snoc counted_def plus_counts_def additional_count_def)
qed

lemma counted_payload: "counted (count_command_payload p)"
  using entry_count_nonneg [of "get_item p ''attributes''"] entry_count_nonneg [of "get_item p ''relations''"]
  by (simp add: counted_def count_command_payload_def additional_count_def)

lemma exceeds_part:
  assumes "\<And>x. counted (cnt x)" "\<not> exceeds mr ma (counts_of cnt (xs @ ys @ zs))"
  shows "\<not> exceeds mr ma (counts_of cnt ys)"
  using assms(2) counted_counts_of [of cnt xs] counted_counts_of [of cnt zs] assms(1)
  by (auto simp: counts_of_append exceeds_def counted_def plus_counts_def additional_count_def)

section \<open>The loop builds the greedy grouping\<close>

lemma partition_loop_greedy:
  assumes "current = counts_of cnt cur"
    and "greedy_groups (\<lambda>g. \<not> exceeds mr ma (counts_of cnt g)) (groups @ (if cur = [] then [] else [cur]))"
    and "cur = [] \<longrightarrow> groups = []" and "\<forall>i \<in> set is. \<not> exceeds mr ma (cnt i)"
  shows "\<exists>gs. partition_loop mr ma groups cur current (map (\<lambda>i. (i, cnt i)) is) = Inr gs \<and>
    concat gs = concat groups @ cur @ is \<and> greedy_groups (\<lambda>g. \<not> exceeds mr ma (counts_of cnt g)) gs"
  using assms
proof (induction "is" arbitrary: groups cur current)
  case Nil
  then show ?case by (auto split: if_splits)
next
  case (Cons i rest)
  let ?fits = "\<lambda>g. \<not> exceeds mr ma (counts_of cnt g)"
  have i: "counts_of cnt [i] = cnt i" using counts_of_snoc [of cnt "[]" i] by simp
  have sum: "plus_counts current (cnt i) = counts_of cnt (cur @ [i])" using Cons.prems(1) by (simp add: counts_of_snoc)
  show ?case
  proof (cases "cur \<noteq> [] \<and> exceeds mr ma (counts_of cnt (cur @ [i]))")
    case True
    have "greedy_groups ?fits ((groups @ [cur]) @ (if [i] = [] then [] else [[i]]))"
      using Cons.prems True i greedy_snoc [of ?fits groups cur "[i]"] by simp
    then obtain gs where "partition_loop mr ma (groups @ [cur]) [i] (cnt i) (map (\<lambda>i. (i, cnt i)) rest) = Inr gs"
      "concat gs = concat (groups @ [cur]) @ [i] @ rest" "greedy_groups ?fits gs"
      using Cons.IH [of "cnt i" "[i]" "groups @ [cur]"] Cons.prems(4) i by auto
    then show ?thesis using True Cons.prems(4) by (simp add: sum)
  next
    case False
    have "greedy_groups ?fits (groups @ [cur @ [i]])"
    proof (cases "cur = []")
      case True
      then show ?thesis using Cons.prems i by (simp add: greedy_groups_def)
    next
      case False
      then show ?thesis using Cons.prems(2) \<open>\<not> (cur \<noteq> [] \<and> _)\<close> greedy_grow [of ?fits groups cur i] by simp
    qed
    then obtain gs where "partition_loop mr ma groups (cur @ [i]) (counts_of cnt (cur @ [i])) (map (\<lambda>i. (i, cnt i)) rest) = Inr gs"
      "concat gs = concat groups @ (cur @ [i]) @ rest" "greedy_groups ?fits gs"
      using Cons.IH [of "counts_of cnt (cur @ [i])" "cur @ [i]" groups] Cons.prems(4) by auto
    then show ?thesis using False Cons.prems(4) by (auto simp: sum Let_def)
  qed
qed

lemma partition_loop_fails:
  "i \<in> set is \<Longrightarrow> exceeds mr ma (cnt i) \<Longrightarrow>
   isl (partition_loop mr ma groups cur current (map (\<lambda>i. (i, cnt i)) is))"
  by (induction "is" arbitrary: groups cur current) (auto simp: Let_def)

section \<open>Partitioned documents\<close>

definition commands_fit :: "int \<Rightarrow> int \<Rightarrow> payload list \<Rightarrow> bool" where
  "commands_fit mr ma commands \<longleftrightarrow> \<not> exceeds mr ma (counts_of count_command_payload commands)"

lemma batch_document_counts_eq: "batch_document_counts d = counts_of count_command_payload (id_commands d)"
  by (simp add: batch_document_counts_def counts_of_def)

lemma counts_of_map: "counts_of cnt (map f xs) = counts_of (\<lambda>x. cnt (f x)) xs"
  by (simp add: counts_of_def foldl_map)

lemma commands_fit_part: "commands_fit mr ma (a @ b @ c) \<Longrightarrow> commands_fit mr ma b"
  unfolding commands_fit_def by (rule exceeds_part [OF counted_payload])

lemma require_strict_positive_int_Inr: "require_strict_positive_int v name = Inr i \<longleftrightarrow> v = JInt i \<and> 0 < i"
  by (cases v) (auto simp: require_strict_positive_int_def)

lemma resolve_batch_limits_Inr:
  "resolve_batch_limits x y = Inr (r, a) \<longleftrightarrow>
     (if x = JNull then r = DEFAULT_BATCH_MAX_RESOURCES else x = JInt r) \<and>
     (if y = JNull then a = DEFAULT_BATCH_MAX_ADDITIONAL_CHARACTERISTICS else y = JInt a) \<and>
     0 < r \<and> r \<le> DEFAULT_BATCH_MAX_RESOURCES \<and> 0 < a \<and> a \<le> DEFAULT_BATCH_MAX_ADDITIONAL_CHARACTERISTICS"
proof -
  have *: "(if b then Inr n else require_strict_positive_int v name) = Inr i \<longleftrightarrow>
      (if b then i = n else v = JInt i \<and> 0 < i)" for b n v name i
    by (auto simp: require_strict_positive_int_Inr)
  have **: "(if m \<le> 0 \<or> n \<le> 0 then Inl e else if m > M \<or> n > N then Inl e' else Inr (m, n)) = (Inr (r, a) :: _ result) \<longleftrightarrow>
      m = r \<and> n = a \<and> 0 < r \<and> r \<le> M \<and> 0 < a \<and> a \<le> N" for m n M N :: int and e e'
    by auto
  show ?thesis unfolding resolve_batch_limits_def try_in_Inr * ** by (simp split: if_split) blast
qed

lemma resolve_again: "resolve_batch_limits x y = Inr (r, a) \<Longrightarrow> resolve_batch_limits (JInt r) (JInt a) = Inr (r, a)"
  by (simp add: resolve_batch_limits_Inr)

lemma partition_document_ok:
  assumes "resolve_batch_limits x y = Inr (r, a)" "\<forall>c \<in> set (id_commands d). \<not> exceeds r a (count_command_payload c)"
  shows "\<exists>bs. partition_document d x y = Inr bs \<and> concat (map id_commands bs) = id_commands d \<and>
    greedy_groups (commands_fit r a) (map id_commands bs)"
proof (cases "id_commands d = []")
  case True
  then show ?thesis using assms by (simp add: partition_document_def greedy_groups_def)
next
  case False
  let ?n = "length (id_commands d)"
  let ?at = "\<lambda>i. id_commands d ! i"
  let ?cnt = "\<lambda>i. count_command_payload (?at i)"
  have zip: "zip [0..<?n] (map count_command_payload (id_commands d)) = map (\<lambda>i. (i, ?cnt i)) [0..<?n]"
    by (rule nth_equalityI) auto
  obtain gs where gs: "partition_loop r a [] [] ZERO_COUNTS (map (\<lambda>i. (i, ?cnt i)) [0..<?n]) = Inr gs"
    "concat gs = [0..<?n]" "greedy_groups (\<lambda>g. \<not> exceeds r a (counts_of ?cnt g)) gs"
    using partition_loop_greedy [of ZERO_COUNTS ?cnt "[]" r a "[]" "[0..<?n]"] assms(2)
    by (auto simp: greedy_groups_def)
  let ?bs = "map (\<lambda>g. \<lparr>id_commands = map ?at g\<rparr>) gs"
  have "partition_document d x y = Inr ?bs"
    using False assms(1) gs(1) by (simp add: partition_document_def partition_counts_def resolve_again zip)
  moreover have "concat (map id_commands ?bs) = id_commands d"
    using gs(2) map_nth [of "id_commands d"] by (simp add: comp_def flip: map_concat)
  moreover have "greedy_groups (commands_fit r a) (map (map ?at) gs)"
    by (rule greedy_map) (use gs(3) in \<open>simp add: commands_fit_def counts_of_map\<close>)
  ultimately show ?thesis by (auto simp: comp_def)
qed

lemma partition_document_Inr:
  assumes "partition_document d x y = Inr bs"
  obtains r a where "resolve_batch_limits x y = Inr (r, a)"
    "\<forall>c \<in> set (id_commands d). \<not> exceeds r a (count_command_payload c)"
proof -
  obtain r a where r: "resolve_batch_limits x y = Inr (r, a)"
    using assms by (auto simp: partition_document_def split_result)
  have "\<not> exceeds r a (count_command_payload c)" if c: "c \<in> set (id_commands d)" for c
  proof
    assume bad: "exceeds r a (count_command_payload c)"
    let ?n = "length (id_commands d)"
    let ?cnt = "\<lambda>i. count_command_payload (id_commands d ! i)"
    have zip: "zip [0..<?n] (map count_command_payload (id_commands d)) = map (\<lambda>i. (i, ?cnt i)) [0..<?n]"
      by (rule nth_equalityI) auto
    obtain i where "i < ?n" "id_commands d ! i = c" using c by (auto simp: in_set_conv_nth)
    then have "isl (partition_loop r a [] [] ZERO_COUNTS (map (\<lambda>i. (i, ?cnt i)) [0..<?n]))"
      using bad by (intro partition_loop_fails [where i = i]) auto
    moreover have "id_commands d \<noteq> []" using c by auto
    ultimately show False
      using assms r by (auto simp: partition_document_def partition_counts_def resolve_again zip split_result)
  qed
  then show thesis using that r by blast
qed

lemma partitioned:
  assumes ok: "partition_document d x y = Inr batches"
  obtains r a where "resolve_batch_limits x y = Inr (r, a) \<and> 0 < r \<and> r \<le> 50000 \<and> 0 < a \<and> a \<le> 500000 \<and>
    concat (map id_commands batches) = id_commands d \<and>
    (\<forall>b \<in> set batches. id_commands b \<noteq> [] \<and> cc_resource_count (batch_document_counts b) \<le> r \<and>
       additional_count (batch_document_counts b) \<le> a) \<and>
    (\<forall>others. concat (map id_commands others) = id_commands d \<and>
       (\<forall>b \<in> set others. \<not> exceeds r a (batch_document_counts b)) \<longrightarrow> length batches \<le> length others)"
proof -
  obtain r a where r: "resolve_batch_limits x y = Inr (r, a)"
    and c: "\<forall>c \<in> set (id_commands d). \<not> exceeds r a (count_command_payload c)"
    using ok by (rule partition_document_Inr)
  have greedy: "concat (map id_commands batches) = id_commands d"
    "greedy_groups (commands_fit r a) (map id_commands batches)"
    using partition_document_ok [OF r c] ok by auto
  have "length batches \<le> length others"
    if others: "concat (map id_commands others) = id_commands d"
      "\<forall>b \<in> set others. \<not> exceeds r a (batch_document_counts b)" for others
  proof -
    have "length (map id_commands batches) \<le> length (map id_commands others)"
    proof (rule greedy_fewest [OF greedy(2), where p = "[]"])
      show "\<forall>h \<in> set (map id_commands others). commands_fit r a h"
        using others(2) by (simp add: commands_fit_def batch_document_counts_eq)
      show "[] @ concat (map id_commands batches) = concat (map id_commands others)"
        using greedy(1) others(1) by simp
    qed (rule commands_fit_part)
    then show ?thesis by simp
  qed
  moreover have "\<forall>b \<in> set batches. id_commands b \<noteq> [] \<and> \<not> exceeds r a (batch_document_counts b)"
    using greedy(2) by (auto simp: greedy_groups_def commands_fit_def batch_document_counts_eq)
  moreover have "0 < r \<and> r \<le> 50000 \<and> 0 < a \<and> a \<le> 500000"
    using r unfolding resolve_batch_limits_Inr DEFAULT_BATCH_MAX_RESOURCES_def
      DEFAULT_BATCH_MAX_ADDITIONAL_CHARACTERISTICS_def by blast
  ultimately show thesis using r greedy(1) by (intro that [of r a]) (auto simp: exceeds_def not_less)
qed

text \<open>C25 (bounds). A document is partitioned exactly when both ceilings are positive integers within the
  hard maxima and every single command fits. The batches are then non-empty, hold the commands of the
  document in their order, all fit under both ceilings by the counters of the whole batch, and no
  order-preserving grouping of the commands that fits has fewer batches.\<close>
theorem batches_bounded:
  "((\<exists>batches. partition_document document max_resources max_additional = Inr batches) \<longleftrightarrow>
     (\<exists>r a. resolve_batch_limits max_resources max_additional = Inr (r, a) \<and>
       (\<forall>c \<in> set (id_commands document). \<not> exceeds r a (count_command_payload c)))) \<and>
   (\<forall>batches. partition_document document max_resources max_additional = Inr batches \<longrightarrow>
     (\<exists>r a. resolve_batch_limits max_resources max_additional = Inr (r, a) \<and>
       0 < r \<and> r \<le> 50000 \<and> 0 < a \<and> a \<le> 500000 \<and>
       concat (map id_commands batches) = id_commands document \<and>
       (\<forall>b \<in> set batches. id_commands b \<noteq> [] \<and> cc_resource_count (batch_document_counts b) \<le> r \<and>
          additional_count (batch_document_counts b) \<le> a) \<and>
       (\<forall>others. concat (map id_commands others) = id_commands document \<and>
          (\<forall>b \<in> set others. \<not> exceeds r a (batch_document_counts b)) \<longrightarrow> length batches \<le> length others)))"
  (is "?accepts \<and> (\<forall>bs. _ \<longrightarrow> (\<exists>r a. ?good bs r a))")
proof (intro conjI allI impI)
  show ?accepts using partition_document_ok partition_document_Inr by metis
  fix batches assume "partition_document document max_resources max_additional = Inr batches"
  then obtain r a where "?good batches r a" by (rule partitioned)
  then show "\<exists>r a. ?good batches r a" by blast
qed

text \<open>Three commands with two attributes each under a ceiling of four: two batches.\<close>

definition three_commands :: ImportDocument where
  "three_commands = \<lparr>id_commands = map (\<lambda>i. [(''resourceType'', JStr ''Asset''), (''identifier'', JInt i),
     (''attributes'', JObject [(''t'', JArray [JNull, JNull])])]) [1, 2, 3]\<rparr>"

theorem batches_bounded_witness:
  "\<exists>batches. partition_document three_commands JNull (JInt 4) = Inr batches \<and> length batches = 2 \<and>
     (\<forall>others. concat (map id_commands others) = id_commands three_commands \<and>
        (\<forall>b \<in> set others. \<not> exceeds 50000 4 (batch_document_counts b)) \<longrightarrow> 2 \<le> length others)"
proof -
  have lim: "resolve_batch_limits JNull (JInt 4) = Inr (50000, 4)"
    by code_simp
  have "case partition_document three_commands JNull (JInt 4) of Inl e \<Rightarrow> False | Inr bs \<Rightarrow> length bs = 2"
    by code_simp
  then obtain batches where b: "partition_document three_commands JNull (JInt 4) = Inr batches" "length batches = 2"
    by (cases "partition_document three_commands JNull (JInt 4)") auto
  with batches_bounded [of three_commands JNull "JInt 4"] lim show ?thesis by auto
qed

end
