(* ===== verification/Import_Compile.thy ===== *)
theory Import_Compile
  imports Batching
begin

text \<open>
  The compiler of \<open>integrations/collibra/import_api.py\<close>: a reviewed plan becomes a list of Import v2
  commands. An asset action becomes a command; a relationship creation is attached to the command of
  its later end, so that it never names an asset that a later command creates. \<open>compiled_exactly\<close> of the
  last section says so for every compiled plan, and that the relations of the document are, entry by
  entry, the relationship creations of the plan.
\<close>

section \<open>Identifiers\<close>

definition exact_import_asset_identifier :: "CollibraAssetSpec option \<Rightarrow> json result" where
  "exact_import_asset_identifier desired =
     (case desired of
        None \<Rightarrow> Inl (ImportCompileError ''asset action missing desired spec'')
      | Some asset \<Rightarrow>
          if \<not> non_blank (as_name asset) \<or> \<not> non_blank (as_domain_ref asset)
          then Inl (ImportCompileError ''import_v2 CREATE identifier is empty'')
          else Inr (JObject [(''name'', JStr (as_name asset)), (''domain'', JObject [(''id'', JStr (as_domain_ref asset))])]))"

definition exact_import_identifier_key :: "CollibraAssetSpec option \<Rightarrow> (string \<times> string) result" where
  "exact_import_identifier_key desired =
     try_in (exact_import_asset_identifier desired) (\<lambda>_. case desired of
       None \<Rightarrow> Inl (ImportCompileError ''asset action missing desired spec'')
     | Some asset \<Rightarrow> Inr (as_name asset, as_domain_ref asset))"

definition mutates :: "SyncAction \<Rightarrow> bool" where
  "mutates action \<longleftrightarrow> sa_action_type action = CREATE \<or> sa_action_type action = UPDATE"

definition require_asset_local_identity :: "SyncAction \<Rightarrow> string result" where
  "require_asset_local_identity action =
     (if sa_object_kind action \<noteq> ASSET \<or> \<not> mutates action
      then Inl (ImportCompileError ''asset command missing local identity'')
      else if or_empty (sa_local_id action) = []
      then Inl (ImportCompileError ''import_v2 asset action missing local identity'')
      else (case sa_desired_asset action of
        None \<Rightarrow> Inl (ImportCompileError ''asset action missing desired spec'')
      | Some asset \<Rightarrow>
          if as_local_id asset = [] then Inl (ImportCompileError ''import_v2 asset action missing local identity'')
          else if sa_local_id action \<noteq> Some (as_local_id asset)
          then Inl (ImportCompileError ''import_v2 asset action local_id must equal desired_asset.local_id'')
          else Inr (as_local_id asset)))"

definition reject_inconsistent_asset_local_identities :: "SyncPlan \<Rightarrow> unit result" where
  "reject_inconsistent_asset_local_identities plan = check_each (\<lambda>action.
     if sa_object_kind action = ASSET \<and> mutates action
     then try_in (require_asset_local_identity action) (\<lambda>_. Inr ()) else Inr ()) (sp_actions plan)"

definition reject_duplicate_step ::
  "(string \<times> string, string) dict \<Rightarrow> SyncAction \<Rightarrow> (string \<times> string, string) dict result" where
  "reject_duplicate_step seen action =
     (if \<not> is_action CREATE ASSET action then Inr seen
      else try_in (exact_import_identifier_key (sa_desired_asset action)) (\<lambda>key.
        try_in (require_asset_local_identity action) (\<lambda>local_id.
          if map_of seen key \<noteq> None \<and> map_of seen key \<noteq> Some local_id
          then Inl (ImportCompileError ''import_v2 cannot represent two CREATE assets with the same name and domain'')
          else Inr (AList.update key local_id seen))))"

definition reject_duplicate_create_natural_identifiers :: "SyncPlan \<Rightarrow> unit result" where
  "reject_duplicate_create_natural_identifiers plan =
     try_in (fold_in reject_duplicate_step [] (sp_actions plan)) (\<lambda>_. Inr ())"

definition asset_lookup_step :: "(string, SyncAction) dict \<Rightarrow> SyncAction \<Rightarrow> (string, SyncAction) dict result" where
  "asset_lookup_step found action =
     (if sa_object_kind action \<noteq> ASSET then Inr found
      else if mutates action
      then try_in (require_asset_local_identity action) (\<lambda>local_id. Inr (AList.update local_id action found))
      else if or_empty (sa_local_id action) \<noteq> []
      then Inr (AList.update (or_empty (sa_local_id action)) action found)
      else Inr found)"

definition asset_lookup :: "SyncPlan \<Rightarrow> (string, SyncAction) dict result" where
  "asset_lookup plan = fold_in asset_lookup_step [] (sp_actions plan)"

section \<open>Asset commands\<close>

definition managed_attribute_step ::
  "string list \<Rightarrow> (string, json) dict \<Rightarrow> CollibraAttributeSpec \<Rightarrow> (string, json) dict result" where
  "managed_attribute_step allowed collected attribute =
     (let type_ref = at_attribute_type_ref attribute in
      if type_ref \<notin> set allowed then Inl (ImportCompileError ''import_v2 cannot emit unmanaged attribute types'')
      else if type_ref \<in> set (keys collected)
      then Inl (ImportCompileError ''import_v2 cannot represent multiple values for one attribute type'')
      else Inr (AList.update type_ref (JArray [JObject [(''value'', JStr (at_value attribute))]]) collected))"

definition managed_attributes :: "CollibraAttributeSpec list \<Rightarrow> string list \<Rightarrow> (string, json) dict result" where
  "managed_attributes attributes allowed = fold_in (managed_attribute_step allowed) [] attributes"

definition optional_entry :: "bool \<Rightarrow> string \<Rightarrow> json \<Rightarrow> payload" where
  "optional_entry b name v = (if b then [(name, v)] else [])"

definition asset_command :: "string list \<Rightarrow> SyncAction \<Rightarrow> payload result" where
  "asset_command allowed action =
     (case sa_desired_asset action of
        None \<Rightarrow> Inl (ImportCompileError ''asset action missing desired spec'')
      | Some asset \<Rightarrow>
          if sa_action_type action = CREATE
          then try_in (exact_import_asset_identifier (Some asset)) (\<lambda>identifier.
               try_in (managed_attributes (as_attributes asset) allowed) (\<lambda>attributes.
               Inr ([(''resourceType'', JStr ''Asset''), (''identifier'', identifier),
                   (''type'', JObject [(''id'', JStr (as_asset_type_ref asset))])] @
                 optional_entry (as_display_name asset \<noteq> None) ''displayName'' (JStr (or_empty (as_display_name asset))) @
                 optional_entry (attributes \<noteq> []) ''attributes'' (JObject attributes))))
          else if sa_action_type action = UPDATE
          then if or_empty (sa_remote_id action) = [] then Inl (ImportCompileError ''UPDATE asset missing remote id'')
               else try_in (if ''managed_attributes'' \<in> set (sa_changed_fields action)
                   then try_in (managed_attributes (as_attributes asset) allowed) (\<lambda>attributes.
                     if attributes = [] then Inl (ImportCompileError ''import_v2 cannot represent managed attribute UPDATE'')
                     else Inr [(''attributes'', JObject attributes)])
                   else Inr []) (\<lambda>attributes.
               Inr ([(''resourceType'', JStr ''Asset''), (''identifier'', JObject [(''id'', JStr (or_empty (sa_remote_id action)))])] @
                 optional_entry (''name'' \<in> set (sa_changed_fields action)) ''name'' (JStr (as_name asset)) @
                 optional_entry (''display_name'' \<in> set (sa_changed_fields action) \<and> as_display_name asset \<noteq> None)
                   ''displayName'' (JStr (or_empty (as_display_name asset))) @ attributes))
          else Inl (ImportCompileError ''unsupported asset action for import_v2''))"

section \<open>Relations\<close>

definition asset_identifier :: "SyncAction \<Rightarrow> json result" where
  "asset_identifier action =
     (if sa_action_type action = CREATE then exact_import_asset_identifier (sa_desired_asset action)
      else if or_empty (sa_remote_id action) \<noteq> [] then Inr (JObject [(''id'', JStr (or_empty (sa_remote_id action)))])
      else Inl (ImportCompileError ''relationship endpoint cannot be identified''))"

text \<open>\<open>command.setdefault("relations", {}).setdefault(key, []).append(related)\<close>: only this code writes
  the \<open>relations\<close> entry, so it is a dictionary of lists when it is there.\<close>

definition relation_buckets :: "payload \<Rightarrow> payload" where
  "relation_buckets command = (case map_of command ''relations'' of Some (JObject r) \<Rightarrow> r | _ \<Rightarrow> [])"

definition bucket_entries :: "payload \<Rightarrow> string \<Rightarrow> json list" where
  "bucket_entries buckets key = (case map_of buckets key of Some (JArray vs) \<Rightarrow> vs | _ \<Rightarrow> [])"

definition add_relation :: "string \<Rightarrow> string \<Rightarrow> json \<Rightarrow> payload \<Rightarrow> payload" where
  "add_relation relation_type_ref direction related command =
     (let relations = relation_buckets command; key = relation_type_ref @ '':'' @ direction in
      AList.update ''relations'' (JObject (AList.update key (JArray (bucket_entries relations key @ [related])) relations)) command)"

definition relation_only_command :: "SyncPlan \<Rightarrow> string \<Rightarrow> payload result" where
  "relation_only_command plan source_local_id =
     (case find (\<lambda>action. sa_object_kind action = ASSET \<and> sa_local_id action = Some source_local_id \<and>
          or_empty (sa_remote_id action) \<noteq> []) (sp_actions plan) of
        None \<Rightarrow> Inl (ImportCompileError ''relationship source has no remote identifier'')
      | Some action \<Rightarrow> Inr [(''resourceType'', JStr ''Asset''),
          (''identifier'', JObject [(''id'', JStr (or_empty (sa_remote_id action)))])])"

record import_state =
  im_commands :: "(string, payload) dict"
  im_order :: "string list"

definition relate ::
  "string \<Rightarrow> string \<Rightarrow> string \<Rightarrow> SyncAction \<Rightarrow> import_state \<Rightarrow> import_state result" where
  "relate host relation_type_ref direction related_action st =
     (case map_of (im_commands st) host of
        None \<Rightarrow> Inl (ImportCompileError ''relationship CREATE missing asset command'')
      | Some command \<Rightarrow> try_in (asset_identifier related_action) (\<lambda>related.
          Inr (st\<lparr>im_commands := AList.update host (add_relation relation_type_ref direction related command) (im_commands st)\<rparr>)))"

definition ensure_relation_command :: "SyncPlan \<Rightarrow> string \<Rightarrow> import_state \<Rightarrow> import_state result" where
  "ensure_relation_command plan local_id st =
     (if map_of (im_commands st) local_id \<noteq> None then Inr st
      else try_in (relation_only_command plan local_id) (\<lambda>command.
        Inr \<lparr>im_commands = AList.update local_id command (im_commands st), im_order = im_order st @ [local_id]\<rparr>))"

definition position :: "string \<Rightarrow> string list \<Rightarrow> nat" where
  "position x xs = length (takeWhile (\<lambda>y. y \<noteq> x) xs)"

definition attach_relationship ::
  "SyncPlan \<Rightarrow> (string, SyncAction) dict \<Rightarrow> CollibraRelationshipSpec \<Rightarrow> import_state \<Rightarrow> import_state result" where
  "attach_relationship plan assets_by_local relationship st =
     (let source = rs_source_local_id relationship; target = rs_target_local_id relationship;
          relation_type = rs_relation_type_ref relationship in
      case (map_of assets_by_local source, map_of assets_by_local target) of
        (Some source_action, Some target_action) \<Rightarrow>
          (let source_create = is_action CREATE ASSET source_action; target_create = is_action CREATE ASSET target_action in
           if source_create \<and> target_create
           then if source \<notin> set (im_order st) \<or> target \<notin> set (im_order st)
                then Inl (ImportCompileError ''relationship CREATE missing asset command'')
                else if position target (im_order st) > position source (im_order st)
                then relate target relation_type ''SOURCE'' source_action st
                else relate source relation_type ''TARGET'' target_action st
           else if source_create then relate source relation_type ''TARGET'' target_action st
           else if target_create then relate target relation_type ''SOURCE'' source_action st
           else try_in (ensure_relation_command plan source st) (relate source relation_type ''TARGET'' target_action))
      | _ \<Rightarrow> Inl (ImportCompileError ''relationship endpoint cannot be identified''))"

section \<open>The compiler\<close>

definition compile_action ::
  "SyncPlan \<Rightarrow> string list \<Rightarrow> (string, SyncAction) dict \<Rightarrow> import_state \<Rightarrow> SyncAction \<Rightarrow> import_state result" where
  "compile_action plan allowed assets_by_local st action =
     (if sa_object_kind action = ASSET
      then try_in (asset_command allowed action) (\<lambda>command.
           try_in (require_asset_local_identity action) (\<lambda>local_id.
             if map_of (im_commands st) local_id \<noteq> None then Inl (ImportCompileError ''duplicate import identifier'')
             else Inr \<lparr>im_commands = AList.update local_id command (im_commands st), im_order = im_order st @ [local_id]\<rparr>))
      else if sa_action_type action \<noteq> CREATE
      then Inl (ImportCompileError ''import_v2 cannot represent relationship UPDATE/DELETE'')
      else (case sa_desired_relationship action of
        None \<Rightarrow> Inl (ImportCompileError ''relationship action missing spec'')
      | Some relationship \<Rightarrow> attach_relationship plan assets_by_local relationship st))"

definition command_at :: "(string, payload) dict \<Rightarrow> string \<Rightarrow> payload" where
  "command_at commands key = (case map_of commands key of None \<Rightarrow> [] | Some command \<Rightarrow> command)"

definition compile_import_document :: "SyncPlan \<Rightarrow> CollibraMappingConfig \<Rightarrow> ImportDocument result" where
  "compile_import_document plan mapping_config =
     (let allowed = vals (mc_attribute_type_refs mapping_config); mutating = filter mutates (sp_actions plan) in
      if list_ex (is_action UPDATE RELATIONSHIP) (sp_actions plan)
      then Inl (ImportCompileError ''import_v2 cannot represent relationship UPDATE/DELETE'')
      else try_in (reject_inconsistent_asset_local_identities plan) (\<lambda>_.
           try_in (reject_duplicate_create_natural_identifiers plan) (\<lambda>_.
           try_in (asset_lookup plan) (\<lambda>assets_by_local.
           try_in (fold_in (compile_action plan allowed assets_by_local) \<lparr>im_commands = [], im_order = []\<rparr>
             (ordered_mutating_actions mutating)) (\<lambda>st.
             Inr \<lparr>id_commands = map (command_at (im_commands st)) (im_order st)\<rparr>)))))"

section \<open>What a document says\<close>

text \<open>The relations of a command, as triples of the identifiers of source and target and the relation
  type: a key is the type followed by the direction, which is seen from the related asset.\<close>

definition relation_entries :: "payload \<Rightarrow> (string \<times> json) list" where
  "relation_entries command = concat (map (\<lambda>(key, v). case v of JArray vs \<Rightarrow> map (Pair key) vs | _ \<Rightarrow> []) (relation_buckets command))"

definition identifier_of :: "payload \<Rightarrow> json" where
  "identifier_of command = get_item command ''identifier''"

definition said :: "json \<Rightarrow> string \<times> json \<Rightarrow> json \<times> string \<times> json" where
  "said identifier entry =
     (let (key, related) = entry; n = length key - 7 in
      if drop n key = '':SOURCE'' then (related, take n key, identifier) else (identifier, take n key, related))"

definition relations_of :: "payload \<Rightarrow> (json \<times> string \<times> json) list" where
  "relations_of command = map (said (identifier_of command)) (relation_entries command)"

definition document_relations :: "ImportDocument \<Rightarrow> (json \<times> string \<times> json) list" where
  "document_relations document = concat (map relations_of (id_commands document))"

definition without_relations :: "payload \<Rightarrow> payload" where
  "without_relations command = filter (\<lambda>(k, v). k \<noteq> ''relations'') command"

text \<open>The plan side: how an asset of the plan is identified, and what its relationship creations say.\<close>

definition plan_identifier :: "SyncPlan \<Rightarrow> string \<Rightarrow> json" where
  "plan_identifier plan local_id =
     (case find (\<lambda>a. sa_object_kind a = ASSET \<and> sa_local_id a = Some local_id) (sp_actions plan) of
        None \<Rightarrow> JNull
      | Some a \<Rightarrow> (case asset_identifier a of Inl e \<Rightarrow> JNull | Inr v \<Rightarrow> v))"

definition plan_relation :: "SyncPlan \<Rightarrow> SyncAction \<Rightarrow> json \<times> string \<times> json" where
  "plan_relation plan a =
     (case sa_desired_relationship a of
        None \<Rightarrow> (JNull, [], JNull)
      | Some r \<Rightarrow> (plan_identifier plan (rs_source_local_id r), rs_relation_type_ref r,
          plan_identifier plan (rs_target_local_id r)))"

definition asset_ids :: "SyncPlan \<Rightarrow> string list" where
  "asset_ids plan = map (\<lambda>a. or_empty (sa_local_id a))
     (filter (\<lambda>a. sa_object_kind a = ASSET \<and> or_empty (sa_local_id a) \<noteq> []) (sp_actions plan))"

definition names_remote :: "json \<Rightarrow> bool" where
  "names_remote v \<longleftrightarrow> (\<exists>i. i \<noteq> [] \<and> v = JObject [(''id'', JStr i)])"

section \<open>Adding a relation\<close>

definition wf_relations :: "payload \<Rightarrow> bool" where
  "wf_relations command \<longleftrightarrow> distinct (keys command) \<and>
     (map_of command ''relations'' = None \<or> (\<exists>bs. map_of command ''relations'' = Some (JObject bs) \<and>
        distinct (keys bs) \<and> (\<forall>w \<in> set (vals bs). \<exists>vs. w = JArray vs)))"

lemma update_split:
  assumes "distinct (keys d)" "map_of d k = Some v"
  obtains xs ys where "d = xs @ (k, v) # ys" "k \<notin> set (keys xs)" "k \<notin> set (keys ys)"
    "\<And>w. AList.update k w d = xs @ (k, w) # ys"
proof -
  obtain xs ys where d: "d = xs @ (k, v) # ys" using assms(2) by (meson map_of_SomeD split_list)
  have k: "k \<notin> set (keys xs)" "k \<notin> set (keys ys)" using assms(1) d by auto
  have upd: "AList.update k w (zs @ (k, v) # ys) = zs @ (k, w) # ys" if "k \<notin> set (keys zs)" for zs w
    using that by (induction zs) auto
  show thesis by (rule that [OF d k]) (unfold d, rule upd [OF k(1)])
qed

lemma update_absent: "k \<notin> set (keys d) \<Longrightarrow> AList.update k v d = d @ [(k, v)]"
  by (induction d) auto

lemma update_distinct_map:
  "distinct (keys d) \<Longrightarrow> k \<in> set (keys d) \<Longrightarrow> AList.update k v d = map (\<lambda>(l, w). (l, if l = k then v else w)) d"
proof (induction d)
  case (Cons p d)
  have "map (\<lambda>(l, w). (l, if l = k then v else w)) d = d" if "k \<notin> set (keys d)"
    using that by (intro map_idI) (auto simp: rev_image_eqI)
  then show ?case using Cons by (cases p) (auto simp del: map_idI)
qed simp

lemma wf_buckets:
  "wf_relations c \<Longrightarrow> distinct (keys (relation_buckets c)) \<and> (\<forall>w \<in> set (vals (relation_buckets c)). \<exists>vs. w = JArray vs)"
  unfolding wf_relations_def relation_buckets_def by (elim conjE disjE exE) (simp_all del: map_of_eq_Some_iff)

lemma relations_add_relation:
  "map_of (add_relation t d r c) ''relations'' = Some (JObject
     (AList.update (t @ '':'' @ d) (JArray (bucket_entries (relation_buckets c) (t @ '':'' @ d) @ [r])) (relation_buckets c)))"
  by (simp add: add_relation_def Let_def)

lemma relation_buckets_add:
  "relation_buckets (add_relation t d r c) =
     AList.update (t @ '':'' @ d) (JArray (bucket_entries (relation_buckets c) (t @ '':'' @ d) @ [r])) (relation_buckets c)"
  unfolding relation_buckets_def [of "add_relation t d r c"] relations_add_relation by simp

lemma wf_add_relation: "wf_relations c \<Longrightarrow> wf_relations (add_relation t d r c)"
proof -
  let ?bs = "AList.update (t @ '':'' @ d) (JArray (bucket_entries (relation_buckets c) (t @ '':'' @ d) @ [r])) (relation_buckets c)"
  assume wf: "wf_relations c"
  have "distinct (keys (add_relation t d r c))"
    using wf by (simp add: add_relation_def Let_def distinct_keys_update wf_relations_def)
  moreover have "distinct (keys ?bs)" using wf_buckets [OF wf] by (simp add: distinct_keys_update)
  moreover have "\<exists>vs. w = JArray vs" if "w \<in> set (vals ?bs)" for w
  proof -
    from that obtain k where "(k, w) \<in> set ?bs" by auto
    then have "w = JArray (bucket_entries (relation_buckets c) (t @ '':'' @ d) @ [r]) \<or> (k, w) \<in> set (relation_buckets c)"
      using set_update_subset by fast
    then show ?thesis using wf_buckets [OF wf] by force
  qed
  ultimately show ?thesis unfolding wf_relations_def relations_add_relation by blast
qed

lemma entries_add_relation:
  assumes "wf_relations c"
  shows "mset (relation_entries (add_relation t d r c)) = add_mset (t @ '':'' @ d, r) (mset (relation_entries c))"
proof -
  let ?k = "t @ '':'' @ d" and ?b = "relation_buckets c"
  show ?thesis
  proof (cases "map_of ?b ?k")
    case None
    then have "?k \<notin> set (keys ?b)" by (simp add: map_of_eq_None_iff)
    then show ?thesis using None
      by (simp add: relation_entries_def relation_buckets_add update_absent bucket_entries_def del: append_Cons)
  next
    case (Some v)
    then obtain vs where v: "v = JArray vs" using wf_buckets [OF assms] by (force dest: map_of_SomeD)
    obtain xs ys where b: "?b = xs @ (?k, v) # ys" "\<And>w. AList.update ?k w ?b = xs @ (?k, w) # ys"
      using update_split wf_buckets [OF assms] Some by metis
    have "bucket_entries ?b ?k = vs" using Some v by (simp add: bucket_entries_def)
    then show ?thesis unfolding relation_entries_def relation_buckets_add b(2) by (simp add: b(1) v)
  qed
qed

lemma identifier_add_relation [simp]: "identifier_of (add_relation t d r c) = identifier_of c"
  by (simp add: identifier_of_def get_item_def add_relation_def Let_def)

lemma filter_update: "\<not> P k \<Longrightarrow> filter (\<lambda>(l, w). P l) (AList.update k v d) = filter (\<lambda>(l, w). P l) d"
  by (induction d) auto

lemma without_add_relation [simp]: "without_relations (add_relation t d r c) = without_relations c"
  unfolding without_relations_def add_relation_def Let_def by (rule filter_update) simp

lemma said_source: "said i (t @ '':SOURCE'', r) = (r, t, i)"
  and said_target: "said i (t @ '':TARGET'', r) = (i, t, r)"
  by (simp_all add: said_def)

lemma relations_add_source:
  "wf_relations c \<Longrightarrow> mset (relations_of (add_relation t ''SOURCE'' r c)) =
     add_mset (r, t, identifier_of c) (mset (relations_of c))"
  and relations_add_target:
  "wf_relations c \<Longrightarrow> mset (relations_of (add_relation t ''TARGET'' r c)) =
     add_mset (identifier_of c, t, r) (mset (relations_of c))"
  by (simp_all add: relations_of_def entries_add_relation said_source said_target)

section \<open>The assets of a plan by their identifier\<close>

lemma fold_in_preserves:
  assumes "fold_in f s xs = Inr t" "I [] s"
    and "\<And>ys x s u. x \<in> set xs \<Longrightarrow> I ys s \<Longrightarrow> f s x = Inr u \<Longrightarrow> I (ys @ [x]) u"
  shows "I xs t"
proof -
  have "I (ys @ xs) t" if "fold_in f s xs = Inr t" "I ys s"
    "\<And>ys x s u. x \<in> set xs \<Longrightarrow> I ys s \<Longrightarrow> f s x = Inr u \<Longrightarrow> I (ys @ [x]) u" for ys
    using that
  proof (induction xs arbitrary: ys s)
    case (Cons x xs)
    obtain u where u: "f s x = Inr u" "fold_in f u xs = Inr t" using Cons.prems(1) by (auto simp: split_result)
    have "I ((ys @ [x]) @ xs) t" by (rule Cons.IH [OF u(2)]) (use Cons.prems u in auto)
    then show ?case by simp
  qed simp
  from this [of "[]"] assms show ?thesis by simp
qed

definition plan_asset :: "SyncPlan \<Rightarrow> string \<Rightarrow> SyncAction \<Rightarrow> bool" where
  "plan_asset plan k a \<longleftrightarrow> a \<in> set (sp_actions plan) \<and> sa_object_kind a = ASSET \<and> sa_local_id a = Some k \<and> k \<noteq> []"

lemma plan_asset_unique:
  assumes "distinct (asset_ids plan)" "plan_asset plan k a" "plan_asset plan k b" shows "a = b"
  using assms unfolding asset_ids_def distinct_map plan_asset_def inj_on_def by (auto simp: or_empty_def)

lemma plan_identifier_asset:
  assumes "distinct (asset_ids plan)" "plan_asset plan k a" "asset_identifier a = Inr v"
  shows "plan_identifier plan k = v"
proof -
  let ?P = "\<lambda>a. sa_object_kind a = ASSET \<and> sa_local_id a = Some k"
  have "find ?P (sp_actions plan) \<noteq> None" using assms(2) by (auto simp: find_None_iff plan_asset_def)
  then obtain b where b: "find ?P (sp_actions plan) = Some b" by blast
  then have "plan_asset plan k b" using assms(2) by (auto simp: find_Some_iff plan_asset_def)
  then have "b = a" using plan_asset_unique assms by blast
  then show ?thesis using b assms(3) by (simp add: plan_identifier_def)
qed

lemma require_local_identity:
  "require_asset_local_identity a = Inr k \<Longrightarrow>
     sa_object_kind a = ASSET \<and> mutates a \<and> sa_local_id a = Some k \<and> k \<noteq> []"
  by (auto simp: require_asset_local_identity_def or_empty_def split: if_splits option.splits)

lemma asset_lookup_plan:
  assumes "asset_lookup plan = Inr m" "map_of m k = Some a"
  shows "plan_asset plan k a"
proof -
  have "\<forall>k a. map_of m k = Some a \<longrightarrow> plan_asset plan k a"
  proof (rule fold_in_preserves [where I = "\<lambda>_ m. \<forall>k a. map_of m k = Some a \<longrightarrow> plan_asset plan k a"])
    show "fold_in asset_lookup_step [] (sp_actions plan) = Inr m" using assms(1) by (simp add: asset_lookup_def)
  next
    fix ys x s u
    assume x: "x \<in> set (sp_actions plan)" and s: "\<forall>k a. map_of s k = Some a \<longrightarrow> plan_asset plan k a"
      and u: "asset_lookup_step s x = Inr u"
    consider "u = s" | l where "u = AList.update l x s" "plan_asset plan l x"
      using u x by (auto simp: asset_lookup_step_def split_result plan_asset_def or_empty_def
          dest!: require_local_identity split: if_splits option.splits)
    then show "\<forall>k a. map_of u k = Some a \<longrightarrow> plan_asset plan k a"
    proof cases
      case 2
      then show ?thesis using s by (auto simp del: map_of_eq_Some_iff)
    qed (use s in blast)
  qed simp
  then show ?thesis using assms(2) by blast
qed

section \<open>Asset commands first\<close>

lemma asset_command_form:
  assumes "asset_command allowed a = Inr c" "sa_object_kind a = ASSET"
  shows "distinct (keys c)" "''relations'' \<notin> set (keys c)" "asset_identifier a = Inr (identifier_of c)"
  using assms
  by (auto simp: asset_command_def asset_identifier_def identifier_of_def get_item_def optional_entry_def split_result
      split: option.splits if_splits)

lemma wf_asset_command:
  assumes "asset_command allowed a = Inr c" "sa_object_kind a = ASSET"
  shows "wf_relations c" "relation_entries c = []" "without_relations c = c"
proof -
  have c: "distinct (keys c)" "map_of c ''relations'' = None"
    using asset_command_form [OF assms] by (simp_all only: map_of_None_iff not_False_eq_True)
  then show "wf_relations c" "relation_entries c = []"
    by (simp_all add: wf_relations_def relation_entries_def relation_buckets_def)
  show "without_relations c = c"
    unfolding without_relations_def using c(2) by (intro filter_True) (force simp: map_of_eq_None_iff)
qed

section \<open>The loop\<close>

definition no_forward :: "payload list \<Rightarrow> bool" where
  "no_forward cs \<longleftrightarrow> (\<forall>i < length cs. \<forall>entry \<in> set (relation_entries (cs ! i)).
     names_remote (snd entry) \<or> (\<exists>j \<le> i. snd entry = identifier_of (cs ! j)))"

definition host_command :: "payload \<Rightarrow> bool" where
  "host_command c \<longleftrightarrow> (\<exists>i. i \<noteq> [] \<and> c = [(''resourceType'', JStr ''Asset''), (''identifier'', JObject [(''id'', JStr i)])])"

definition compiled :: "SyncPlan \<Rightarrow> string list \<Rightarrow> SyncAction list \<Rightarrow> SyncAction list \<Rightarrow> import_state \<Rightarrow> bool" where
  "compiled plan allowed assets relationships st \<longleftrightarrow>
     keys (im_commands st) = im_order st \<and> distinct (im_order st) \<and>
     (\<exists>base hosts. traverse (asset_command allowed) assets = Inr base \<and>
        map without_relations (vals (im_commands st)) = base @ hosts \<and> (\<forall>c \<in> set hosts. host_command c)) \<and>
     (\<exists>others. im_order st = map (\<lambda>a. or_empty (sa_local_id a)) assets @ others) \<and>
     (\<forall>(k, c) \<in> set (im_commands st). wf_relations c \<and> identifier_of c = plan_identifier plan k) \<and>
     mset (concat (map relations_of (vals (im_commands st)))) = mset (map (plan_relation plan) relationships) \<and>
     no_forward (vals (im_commands st))"

lemma no_forward_add:
  assumes "no_forward cs" "n < length cs" "wf_relations (cs ! n)"
    and r: "names_remote r \<or> (\<exists>j \<le> n. r = identifier_of (cs ! j))"
  shows "no_forward (cs[n := add_relation t d r (cs ! n)])"
  unfolding no_forward_def
proof (intro allI impI ballI)
  fix i entry
  let ?new = "add_relation t d r (cs ! n)"
  assume i: "i < length (cs[n := ?new])" and entry: "entry \<in> set (relation_entries (cs[n := ?new] ! i))"
  have same: "identifier_of (cs[n := ?new] ! j) = identifier_of (cs ! j)" for j
    using assms(2) by (cases "j = n") simp_all
  have "set (relation_entries ?new) = insert (t @ '':'' @ d, r) (set (relation_entries (cs ! n)))"
    using entries_add_relation [OF assms(3), of t d r] by (metis set_mset_add_mset_insert set_mset_mset)
  then consider "i = n" "snd entry = r" | "entry \<in> set (relation_entries (cs ! i))"
    using entry i by (cases "i = n") auto
  then show "names_remote (snd entry) \<or> (\<exists>j \<le> i. snd entry = identifier_of (cs[n := ?new] ! j))"
  proof cases
    case 1
    then show ?thesis using r unfolding same by simp
  next
    case 2
    then show ?thesis using assms(1) i unfolding same no_forward_def by simp
  qed
qed

lemma position_append: "k \<notin> set xs \<Longrightarrow> position k (xs @ k # ys) = length xs"
  by (induction xs) (auto simp: position_def)

lemma relate_compiled:
  assumes st: "compiled plan allowed assets relationships st" and u: "relate host t d a st = Inr u"
    and d: "d = ''SOURCE'' \<or> d = ''TARGET''"
    and r: "\<And>r. asset_identifier a = Inr r \<Longrightarrow>
      names_remote r \<or> (\<exists>j \<le> position host (im_order st). r = identifier_of (vals (im_commands st) ! j))"
    and x: "\<And>r. asset_identifier a = Inr r \<Longrightarrow> plan_relation plan x =
      (if d = ''SOURCE'' then (r, t, plan_identifier plan host) else (plan_identifier plan host, t, r))"
  shows "compiled plan allowed assets (relationships @ [x]) u"
proof -
  obtain c v where c: "map_of (im_commands st) host = Some c" "asset_identifier a = Inr v"
    "u = st\<lparr>im_commands := AList.update host (add_relation t d v c) (im_commands st)\<rparr>"
    using u by (auto simp: relate_def split_result split: option.splits simp del: map_of_eq_Some_iff)
  have keys: "keys (im_commands st) = im_order st" "distinct (keys (im_commands st))" using st by (auto simp: compiled_def)
  obtain xs ys where split: "im_commands st = xs @ (host, c) # ys" "host \<notin> set (keys xs)"
    "\<And>w. AList.update host w (im_commands st) = xs @ (host, w) # ys"
    using update_split [OF keys(2) c(1)] by metis
  have wf: "wf_relations c" "identifier_of c = plan_identifier plan host"
    using st split(1) by (auto simp: compiled_def)
  have u': "im_order u = im_order st" "im_commands u = xs @ (host, add_relation t d v c) # ys" using c(3) split(3) by simp_all
  have pos: "position host (im_order st) = length xs"
    using position_append [OF split(2)] by (simp flip: keys(1) add: split(1))
  have vals: "vals (im_commands u) = (vals (im_commands st))[length xs := add_relation t d v c]"
    "vals (im_commands st) ! length xs = c"
    using u'(2) split(1) by (simp_all add: nth_append list_update_append)
  have "no_forward (vals (im_commands u))"
    unfolding vals(1) using no_forward_add [of "vals (im_commands st)" "length xs" v t d] st r [OF c(2)] wf(1)
    unfolding vals(2) pos compiled_def by (simp add: split(1))
  moreover have "mset (concat (map relations_of (vals (im_commands u)))) =
      add_mset (plan_relation plan x) (mset (concat (map relations_of (vals (im_commands st)))))"
    using d relations_add_source [OF wf(1)] relations_add_target [OF wf(1)] x [OF c(2)] wf(2)
    by (auto simp: u'(2) split(1))
  moreover have "map without_relations (vals (im_commands u)) = map without_relations (vals (im_commands st))"
    by (simp add: u'(2) split(1))
  moreover have "\<forall>(k, c) \<in> set (im_commands u). wf_relations c \<and> identifier_of c = plan_identifier plan k"
    using st wf_add_relation [OF wf(1)] wf(2) by (auto simp: compiled_def u'(2) split(1))
  moreover have "keys (im_commands u) = keys (im_commands st)" by (simp add: u'(2) split(1))
  ultimately show ?thesis using st u'(1) unfolding compiled_def by simp
qed

lemma no_forward_snoc:
  assumes "no_forward cs" "relation_entries c = []" shows "no_forward (cs @ [c])"
  unfolding no_forward_def
proof (intro allI impI ballI)
  fix i entry assume i: "i < length (cs @ [c])" and entry: "entry \<in> set (relation_entries ((cs @ [c]) ! i))"
  then have i: "i < length cs" using assms(2) by (cases "i = length cs") auto
  then have "names_remote (snd entry) \<or> (\<exists>j \<le> i. snd entry = identifier_of (cs ! j))"
    using assms(1) entry unfolding no_forward_def by (simp add: nth_append)
  then show "names_remote (snd entry) \<or> (\<exists>j \<le> i. snd entry = identifier_of ((cs @ [c]) ! j))"
  proof
    assume "\<exists>j \<le> i. snd entry = identifier_of (cs ! j)"
    then obtain j where "j \<le> i" "snd entry = identifier_of (cs ! j)" by blast
    then have "j \<le> i \<and> snd entry = identifier_of ((cs @ [c]) ! j)" using i by (simp add: nth_append)
    then show ?thesis by blast
  qed blast
qed

lemma ensure_compiled:
  assumes st: "compiled plan allowed assets relationships st" and u: "ensure_relation_command plan k st = Inr u"
    and once: "distinct (asset_ids plan)" and a: "plan_asset plan k a" "\<not> is_action CREATE ASSET a"
  shows "compiled plan allowed assets relationships u"
proof (cases "map_of (im_commands st) k")
  case (Some c)
  then show ?thesis using st u by (simp add: ensure_relation_command_def)
next
  case None
  then obtain c where c: "relation_only_command plan k = Inr c"
    "u = \<lparr>im_commands = AList.update k c (im_commands st), im_order = im_order st @ [k]\<rparr>"
    using u by (auto simp: ensure_relation_command_def split_result)
  obtain b where b: "plan_asset plan k b" "or_empty (sa_remote_id b) \<noteq> []"
    "c = [(''resourceType'', JStr ''Asset''), (''identifier'', JObject [(''id'', JStr (or_empty (sa_remote_id b)))])]"
    using c(1) a(1) by (auto simp: relation_only_command_def find_Some_iff plan_asset_def split: option.splits dest: nth_mem)
  have "b = a" by (rule plan_asset_unique [OF once b(1) a(1)])
  then have "asset_identifier b = Inr (identifier_of c)"
    using a b by (simp add: asset_identifier_def is_action_def plan_asset_def identifier_of_def get_item_def)
  then have "identifier_of c = plan_identifier plan k" using plan_identifier_asset [OF once b(1)] by simp
  moreover have empty: "relation_entries c = []" "relations_of c = []"
    by (simp_all add: relations_of_def b(3) relation_entries_def relation_buckets_def)
  moreover have wf: "wf_relations c" "host_command (without_relations c)"
    using b(2) by (auto simp: b(3) wf_relations_def without_relations_def host_command_def)
  moreover have u': "im_commands u = im_commands st @ [(k, c)]" "im_order u = im_order st @ [k]"
    using None by (simp_all add: c(2) update_absent map_of_eq_None_iff)
  moreover have keys: "keys (im_commands st) = im_order st" using st by (simp add: compiled_def)
  then have "k \<notin> set (im_order st)" using None unfolding map_of_None_iff by simp
  moreover have "no_forward (vals (im_commands st) @ [c])"
    using st empty(1) unfolding compiled_def by (intro no_forward_snoc) simp_all
  moreover obtain base hosts others where base: "traverse (asset_command allowed) assets = Inr base"
    "map without_relations (vals (im_commands st)) = base @ hosts" "\<forall>c \<in> set hosts. host_command c"
    "im_order st = map (\<lambda>a. or_empty (sa_local_id a)) assets @ others" using st unfolding compiled_def by auto
  have "traverse (asset_command allowed) assets = Inr base \<and>
      map without_relations (vals (im_commands u)) = base @ (hosts @ [without_relations c]) \<and>
      (\<forall>c \<in> set (hosts @ [without_relations c]). host_command c)"
    using base wf(2) by (simp add: u' flip: map_map)
  then have "\<exists>base hosts. traverse (asset_command allowed) assets = Inr base \<and>
      map without_relations (vals (im_commands u)) = base @ hosts \<and> (\<forall>c \<in> set hosts. host_command c)" by blast
  moreover have "\<exists>others. im_order u = map (\<lambda>a. or_empty (sa_local_id a)) assets @ others" using base by (simp add: u')
  ultimately show ?thesis using st keys unfolding compiled_def by auto
qed

lemma asset_identifier_remote:
  "plan_asset plan k a \<Longrightarrow> \<not> is_action CREATE ASSET a \<Longrightarrow> asset_identifier a = Inr r \<Longrightarrow> names_remote r"
  by (auto simp: asset_identifier_def is_action_def plan_asset_def names_remote_def split: if_splits)

lemma identifier_at:
  assumes "compiled plan allowed assets relationships st" "k \<in> set (im_order st)"
  shows "identifier_of (vals (im_commands st) ! position k (im_order st)) = plan_identifier plan k"
proof -
  obtain xs ys where order: "im_order st = xs @ k # ys" "k \<notin> set xs" using assms(2) by (metis split_list_first)
  then have n: "position k (im_order st) = length xs" by (simp add: position_append)
  have keys: "keys (im_commands st) = xs @ k # ys" using assms(1) order by (simp add: compiled_def)
  then have "length xs < length (im_commands st)" by (metis length_append length_map less_add_same_cancel1 length_greater_0_conv list.discI)
  moreover have "fst (im_commands st ! length xs) = k" using keys calculation by (metis nth_append_length nth_map)
  ultimately show ?thesis using assms(1) n unfolding compiled_def by (metis (mono_tags, lifting) case_prod_beta nth_map nth_mem)
qed

lemma attach_compiled:
  assumes st: "compiled plan allowed assets relationships st" and once: "distinct (asset_ids plan)"
    and lookup: "asset_lookup plan = Inr m" and u: "attach_relationship plan m r st = Inr u"
    and x: "sa_desired_relationship x = Some r"
  shows "compiled plan allowed assets (relationships @ [x]) u"
proof -
  let ?s = "rs_source_local_id r" and ?t = "rs_target_local_id r" and ?T = "rs_relation_type_ref r"
  obtain a b where ab: "map_of m ?s = Some a" "map_of m ?t = Some b"
    using u by (auto simp: attach_relationship_def Let_def split: option.splits simp del: map_of_eq_Some_iff)
  have a: "plan_asset plan ?s a" and b: "plan_asset plan ?t b" using asset_lookup_plan [OF lookup] ab by blast+
  have idents: "asset_identifier a = Inr v \<Longrightarrow> plan_identifier plan ?s = v"
    "asset_identifier b = Inr v \<Longrightarrow> plan_identifier plan ?t = v" for v
    using plan_identifier_asset [OF once] a b by blast+
  have to_source: "compiled plan allowed assets (relationships @ [x]) w"
    if "compiled plan allowed assets relationships st'" "relate ?s ?T ''TARGET'' b st' = Inr w"
      "\<And>v. asset_identifier b = Inr v \<Longrightarrow>
        names_remote v \<or> (\<exists>j \<le> position ?s (im_order st'). v = identifier_of (vals (im_commands st') ! j))" for st' w
    by (rule relate_compiled [OF that(1,2)]) (use that(3) idents x in \<open>auto simp: plan_relation_def\<close>)
  have to_target: "compiled plan allowed assets (relationships @ [x]) u"
    if "relate ?t ?T ''SOURCE'' a st = Inr u"
      "\<And>v. asset_identifier a = Inr v \<Longrightarrow>
        names_remote v \<or> (\<exists>j \<le> position ?t (im_order st). v = identifier_of (vals (im_commands st) ! j))"
    by (rule relate_compiled [OF st that(1)]) (use that(2) idents x in \<open>auto simp: plan_relation_def\<close>)
  consider (both) "is_action CREATE ASSET a" "is_action CREATE ASSET b" | (source) "is_action CREATE ASSET a" "\<not> is_action CREATE ASSET b"
    | (target) "\<not> is_action CREATE ASSET a" "is_action CREATE ASSET b" | (none) "\<not> is_action CREATE ASSET a" "\<not> is_action CREATE ASSET b"
    by blast
  then show ?thesis
  proof cases
    case both
    then have mem: "?s \<in> set (im_order st)" "?t \<in> set (im_order st)"
      using u ab by (auto simp: attach_relationship_def Let_def split: if_splits simp del: map_of_eq_Some_iff)
    show ?thesis
    proof (cases "position ?t (im_order st) > position ?s (im_order st)")
      case True
      show ?thesis
      proof (rule to_target)
        show "relate ?t ?T ''SOURCE'' a st = Inr u"
          using u ab both mem True by (simp add: attach_relationship_def Let_def del: map_of_eq_Some_iff)
      qed (use True identifier_at [OF st mem(1)] idents(1) in \<open>auto intro!: exI [of _ "position ?s (im_order st)"]\<close>)
    next
      case False
      show ?thesis
      proof (rule to_source [OF st])
        show "relate ?s ?T ''TARGET'' b st = Inr u"
          using u ab both mem False by (simp add: attach_relationship_def Let_def del: map_of_eq_Some_iff)
      qed (use False identifier_at [OF st mem(2)] idents(2) in \<open>auto intro!: exI [of _ "position ?t (im_order st)"]\<close>)
    qed
  next
    case source
    then show ?thesis using u ab asset_identifier_remote [OF b source(2)]
      by (intro to_source [OF st]) (simp_all add: attach_relationship_def Let_def del: map_of_eq_Some_iff)
  next
    case target
    then show ?thesis using u ab asset_identifier_remote [OF a target(1)]
      by (intro to_target) (simp_all add: attach_relationship_def Let_def del: map_of_eq_Some_iff)
  next
    case none
    then obtain st' where "ensure_relation_command plan ?s st = Inr st'" "relate ?s ?T ''TARGET'' b st' = Inr u"
      using u ab by (auto simp: attach_relationship_def Let_def split_result simp del: map_of_eq_Some_iff)
    then show ?thesis using asset_identifier_remote [OF b none(2)] ensure_compiled [OF st _ once a none(1)] to_source by blast
  qed
qed

text \<open>The asset commands come first, in the order of the executor.\<close>

definition assets_compiled :: "SyncPlan \<Rightarrow> string list \<Rightarrow> SyncAction list \<Rightarrow> import_state \<Rightarrow> bool" where
  "assets_compiled plan allowed assets st \<longleftrightarrow>
     keys (im_commands st) = im_order st \<and> distinct (im_order st) \<and>
     im_order st = map (\<lambda>a. or_empty (sa_local_id a)) assets \<and>
     traverse (asset_command allowed) assets = Inr (vals (im_commands st)) \<and>
     (\<forall>(k, c) \<in> set (im_commands st). identifier_of c = plan_identifier plan k \<and>
        wf_relations c \<and> relation_entries c = [] \<and> without_relations c = c)"

lemma traverse_snoc: "traverse f (xs @ [x]) = try_in (traverse f xs) (\<lambda>ys. try_in (f x) (\<lambda>y. Inr (ys @ [y])))"
  by (induction xs) (auto simp: try_in_def split: sum.splits)

lemma compile_asset_step:
  assumes st: "assets_compiled plan allowed assets st" and x: "sa_object_kind x = ASSET" "x \<in> set (sp_actions plan)"
    and once: "distinct (asset_ids plan)" and u: "compile_action plan allowed m st x = Inr u"
  shows "assets_compiled plan allowed (assets @ [x]) u"
proof -
  obtain c k where c: "asset_command allowed x = Inr c" "require_asset_local_identity x = Inr k"
    "map_of (im_commands st) k = None"
    "u = \<lparr>im_commands = AList.update k c (im_commands st), im_order = im_order st @ [k]\<rparr>"
    using u x(1) by (auto simp: compile_action_def split_result split: if_splits)
  have k: "plan_asset plan k x" using require_local_identity [OF c(2)] x(2) by (simp add: plan_asset_def)
  have "identifier_of c = plan_identifier plan k"
    using plan_identifier_asset [OF once k] asset_command_form [OF c(1) x(1)] by simp
  moreover have "AList.update k c (im_commands st) = im_commands st @ [(k, c)]"
    using c(3) by (simp add: update_absent map_of_eq_None_iff)
  moreover have "keys (im_commands st) = im_order st" using st by (simp add: assets_compiled_def)
  then have "k \<notin> set (im_order st)" using c(3) unfolding map_of_None_iff by simp
  moreover have "or_empty (sa_local_id x) = k" using k by (simp add: plan_asset_def or_empty_def)
  ultimately show ?thesis using st wf_asset_command [OF c(1) x(1)] c(1)
    unfolding assets_compiled_def c(4) traverse_snoc by auto
qed

lemma assets_compiled_compiled:
  assumes st: "assets_compiled plan allowed assets st"
  shows "compiled plan allowed assets [] st"
proof -
  have facts: "relation_entries c = []" "without_relations c = c" if "c \<in> set (vals (im_commands st))" for c
    using st that unfolding assets_compiled_def by auto
  have "concat (map relations_of (vals (im_commands st))) = []"
    unfolding concat_eq_Nil_conv using facts(1) by (auto simp: relations_of_def)
  moreover have "no_forward (vals (im_commands st))"
    unfolding no_forward_def using facts(1) by (metis empty_iff list.set(1) nth_mem)
  moreover have "map without_relations (vals (im_commands st)) = vals (im_commands st)"
    using facts(2) by (rule map_idI)
  then have "\<exists>base hosts. traverse (asset_command allowed) assets = Inr base \<and>
      map without_relations (vals (im_commands st)) = base @ hosts \<and> (\<forall>c \<in> set hosts. host_command c)"
    using st unfolding assets_compiled_def by (intro exI [of _ "vals (im_commands st)"] exI [of _ "[]"]) simp
  moreover have "\<exists>others. im_order st = map (\<lambda>a. or_empty (sa_local_id a)) assets @ others"
    using st unfolding assets_compiled_def by simp
  moreover have "keys (im_commands st) = im_order st" "distinct (im_order st)"
    "\<forall>(k, c) \<in> set (im_commands st). wf_relations c \<and> identifier_of c = plan_identifier plan k"
    using st unfolding assets_compiled_def by auto
  ultimately show ?thesis unfolding compiled_def by simp
qed

lemma filter_mutates: "filter (is_action CREATE k) (filter mutates xs) = filter (is_action CREATE k) xs"
  "filter (is_action UPDATE k) (filter mutates xs) = filter (is_action UPDATE k) xs"
  by (auto simp: mutates_def is_action_def intro!: filter_cong)

definition ordered_assets :: "SyncPlan \<Rightarrow> SyncAction list" where
  "ordered_assets plan = sort_key asset_rank (filter (is_action CREATE ASSET) (sp_actions plan)) @
     sort_key (\<lambda>a. or_empty (sa_local_id a)) (filter (is_action UPDATE ASSET) (sp_actions plan))"

lemma compile_compiled:
  assumes doc: "compile_import_document plan config = Inr document" and once: "distinct (asset_ids plan)"
  obtains st relationships where "id_commands document = vals (im_commands st)"
    "compiled plan (vals (mc_attribute_type_refs config)) (ordered_assets plan) relationships st"
    "mset relationships = mset (filter (is_action CREATE RELATIONSHIP) (sp_actions plan))"
    "reject_duplicate_create_natural_identifiers plan = Inr ()"
proof -
  let ?allowed = "vals (mc_attribute_type_refs config)"
  let ?rels = "sort_key (\<lambda>a. or_empty (sa_local_id a)) (filter (is_action CREATE RELATIONSHIP) (sp_actions plan))"
  let ?s = "\<lparr>im_commands = [], im_order = []\<rparr>"
  obtain m st where m: "asset_lookup plan = Inr m" "reject_duplicate_create_natural_identifiers plan = Inr ()"
    and st: "fold_in (compile_action plan ?allowed m) ?s (ordered_assets plan @ ?rels) = Inr st"
    and d: "id_commands document = map (command_at (im_commands st)) (im_order st)"
    using doc unfolding compile_import_document_def ordered_mutating_actions_def filter_mutates ordered_assets_def Let_def
    by (auto simp: split_result split: if_splits)
  obtain mid where mid: "fold_in (compile_action plan ?allowed m) ?s (ordered_assets plan) = Inr mid"
    "fold_in (compile_action plan ?allowed m) mid ?rels = Inr st"
    using st by (auto simp: fold_in_append split_result)
  have "assets_compiled plan ?allowed (ordered_assets plan) mid"
  proof (rule fold_in_preserves [where I = "assets_compiled plan ?allowed", OF mid(1)])
    fix ys x s u
    assume x: "x \<in> set (ordered_assets plan)"
    then have "sa_object_kind x = ASSET" "x \<in> set (sp_actions plan)" by (auto simp: ordered_assets_def is_action_def)
    then show "assets_compiled plan ?allowed ys s \<Longrightarrow> compile_action plan ?allowed m s x = Inr u \<Longrightarrow>
        assets_compiled plan ?allowed (ys @ [x]) u" using compile_asset_step once by blast
  qed (simp add: assets_compiled_def)
  then have mid_ok: "compiled plan ?allowed (ordered_assets plan) [] mid" by (rule assets_compiled_compiled)
  have ok: "compiled plan ?allowed (ordered_assets plan) ?rels st"
  proof (rule fold_in_preserves [where I = "compiled plan ?allowed (ordered_assets plan)", OF mid(2) mid_ok])
    fix ys x s u
    assume x: "x \<in> set ?rels" and s: "compiled plan ?allowed (ordered_assets plan) ys s"
      and u: "compile_action plan ?allowed m s x = Inr u"
    then obtain r where "sa_desired_relationship x = Some r" "attach_relationship plan m r s = Inr u"
      by (auto simp: compile_action_def is_action_def split: option.splits)
    then show "compiled plan ?allowed (ordered_assets plan) (ys @ [x]) u"
      using attach_compiled [OF s once m(1)] by blast
  qed
  have all: "map (command_at (im_commands st)) (keys (im_commands st)) = vals (im_commands st)"
    unfolding map_map
  proof (rule map_cong [OF refl])
    fix p assume "p \<in> set (im_commands st)"
    moreover have "distinct (keys (im_commands st))" using ok by (simp add: compiled_def)
    ultimately have "map_of (im_commands st) (fst p) = Some (snd p)" by simp
    then show "(command_at (im_commands st) \<circ> fst) p = snd p" unfolding comp_def command_at_def by (simp only: option.case)
  qed
  then have "id_commands document = vals (im_commands st)"
    using ok all unfolding d compiled_def by (simp only:)
  then show thesis using ok m(2) by (intro that [of st ?rels]) simp_all
qed

section \<open>Created assets are named once\<close>

lemma duplicates_rejected:
  assumes ok: "reject_duplicate_create_natural_identifiers plan = Inr ()"
    and a: "a \<in> set (sp_actions plan)" "is_action CREATE ASSET a" and b: "b \<in> set (sp_actions plan)" "is_action CREATE ASSET b"
    and same: "asset_identifier a = Inr v" "asset_identifier b = Inr v"
  shows "sa_local_id a = sa_local_id b"
proof -
  let ?I = "\<lambda>ys m. \<forall>a \<in> set ys. is_action CREATE ASSET a \<longrightarrow>
    (\<exists>k l. exact_import_identifier_key (sa_desired_asset a) = Inr k \<and> require_asset_local_identity a = Inr l \<and> map_of m k = Some l)"
  obtain m where m: "fold_in reject_duplicate_step [] (sp_actions plan) = Inr m"
    using ok by (auto simp: reject_duplicate_create_natural_identifiers_def split_result)
  have "?I (sp_actions plan) m"
  proof (rule fold_in_preserves [where I = ?I, OF m])
    fix ys x s u assume s: "?I ys s" and u: "reject_duplicate_step s x = Inr u"
    show "?I (ys @ [x]) u"
    proof (cases "is_action CREATE ASSET x")
      case True
      then obtain k l where k: "exact_import_identifier_key (sa_desired_asset x) = Inr k"
        "require_asset_local_identity x = Inr l" "u = AList.update k l s" "map_of s k = None \<or> map_of s k = Some l"
        using u by (auto simp: reject_duplicate_step_def split_result split: if_splits simp del: map_of_eq_Some_iff)
      have keep: "map_of u k' = Some l'" if "map_of s k' = Some l'" for k' l'
        using k(3,4) that by (auto simp del: map_of_eq_Some_iff)
      have new: "map_of u k = Some l" unfolding k(3) map_of_update by (rule fun_upd_same)
      show ?thesis
      proof (intro ballI impI)
        fix a assume "a \<in> set (ys @ [x])" and create: "is_action CREATE ASSET a"
        then consider "a = x" | "a \<in> set ys" by auto
        then show "\<exists>k l. exact_import_identifier_key (sa_desired_asset a) = Inr k \<and>
            require_asset_local_identity a = Inr l \<and> map_of u k = Some l"
          by cases (use new k(1,2) s create keep in blast)+
      qed
    next
      case False
      then show ?thesis using s u by (auto simp: reject_duplicate_step_def simp del: map_of_eq_Some_iff)
    qed
  qed simp
  then obtain k l k' l' where "exact_import_identifier_key (sa_desired_asset a) = Inr k" "require_asset_local_identity a = Inr l"
    "map_of m k = Some l" "exact_import_identifier_key (sa_desired_asset b) = Inr k'" "require_asset_local_identity b = Inr l'"
    "map_of m k' = Some l'" using a b by metis
  moreover from this same a b have "k = k'"
    by (auto simp: exact_import_identifier_key_def asset_identifier_def exact_import_asset_identifier_def is_action_def
        split: option.splits if_splits)
  ultimately show ?thesis using require_local_identity by (metis option.inject)
qed

lemma created_natural:
  assumes "asset_command allowed a = Inr c" "sa_object_kind a = ASSET"
  shows "''type'' \<in> set (keys c) \<longleftrightarrow> is_action CREATE ASSET a"
    and "''type'' \<in> set (keys c) \<longleftrightarrow> \<not> names_remote (identifier_of c)"
  using assms
  by (auto simp: asset_command_def is_action_def names_remote_def identifier_of_def get_item_def optional_entry_def
      exact_import_asset_identifier_def split_result split: option.splits if_splits)

lemma compiled_created_unique:
  assumes doc: "id_commands document = vals (im_commands st)" and st: "compiled plan allowed (ordered_assets plan) rels st"
    and once: "reject_duplicate_create_natural_identifiers plan = Inr ()"
    and ij: "i < length (id_commands document)" "j < length (id_commands document)"
    and created: "''type'' \<in> set (keys (id_commands document ! i))"
    and same: "identifier_of (id_commands document ! i) = identifier_of (id_commands document ! j)"
  shows "i = j"
proof -
  let ?cs = "id_commands document" and ?as = "ordered_assets plan"
  obtain base hosts others where base: "traverse (asset_command allowed) ?as = Inr base"
    "map without_relations ?cs = base @ hosts" "\<forall>c \<in> set hosts. host_command c"
    "im_order st = map (\<lambda>a. or_empty (sa_local_id a)) ?as @ others" using st doc unfolding compiled_def by auto
  have id: "identifier_of (without_relations c) = identifier_of c" for c
    by (induction c) (auto simp: identifier_of_def get_item_def without_relations_def)
  have ty: "''type'' \<in> set (keys (without_relations c)) \<longleftrightarrow> ''type'' \<in> set (keys c)" for c
    by (force simp: without_relations_def)
  have len: "length ?as = length base" "length ?cs = length base + length hosts"
    using base(1) arg_cong [OF base(2), of length] by (auto simp: traverse_Inr_iff dest: list_all2_lengthD)
  have base_at: "asset_command allowed (?as ! k) = Inr (base ! k)" "is_action CREATE ASSET (?as ! k) \<or> is_action UPDATE ASSET (?as ! k)"
    "?as ! k \<in> set (sp_actions plan)" if "k < length base" for k
    using base(1) that len(1) nth_mem [of k ?as]
    by (auto simp: traverse_Inr_iff list_all2_conv_all_nth ordered_assets_def)
  have at: "without_relations (?cs ! k) = (base @ hosts) ! k" if "k < length ?cs" for k
    using base(2) that by (metis nth_map)
  have remote: "names_remote (identifier_of (?cs ! k)) \<and> ''type'' \<notin> set (keys (?cs ! k))"
    if "k < length ?cs" "\<not> k < length base" for k
  proof -
    have "without_relations (?cs ! k) \<in> set hosts" using at that len(2) by (simp add: nth_append)
    then have "host_command (without_relations (?cs ! k))" using base(3) by blast
    then have "names_remote (identifier_of (without_relations (?cs ! k))) \<and> ''type'' \<notin> set (keys (without_relations (?cs ! k)))"
      by (auto simp: host_command_def names_remote_def identifier_of_def get_item_def)
    then show ?thesis unfolding id ty .
  qed
  have i: "i < length base" using remote ij(1) created by blast
  then have ci: "without_relations (?cs ! i) = base ! i" using at ij(1) by (simp add: nth_append)
  have ki: "sa_object_kind (?as ! i) = ASSET" using base_at(2) [OF i] by (auto simp: is_action_def)
  have nat: "\<not> names_remote (identifier_of (?cs ! i))" "is_action CREATE ASSET (?as ! i)"
    using created_natural [OF base_at(1) [OF i] ki] created unfolding ci [symmetric] id ty by blast+
  then have j: "j < length base" using remote ij(2) same by metis
  then have cj: "without_relations (?cs ! j) = base ! j" using at ij(2) by (simp add: nth_append)
  have kj: "sa_object_kind (?as ! j) = ASSET" using base_at(2) [OF j] by (auto simp: is_action_def)
  have "is_action CREATE ASSET (?as ! j)"
    using created_natural [OF base_at(1) [OF j] kj] nat(1) same unfolding cj [symmetric] id ty by simp
  moreover have "asset_identifier (?as ! i) = Inr (identifier_of (?cs ! i))" "asset_identifier (?as ! j) = Inr (identifier_of (?cs ! i))"
    using asset_command_form(3) [OF base_at(1) [OF i] ki] asset_command_form(3) [OF base_at(1) [OF j] kj] same
    unfolding ci [symmetric] cj [symmetric] id by simp_all
  ultimately have "sa_local_id (?as ! i) = sa_local_id (?as ! j)"
    using duplicates_rejected [OF once] base_at(3) i j nat(2) by blast
  moreover have "distinct (map (\<lambda>a. or_empty (sa_local_id a)) ?as)" using st base(4) unfolding compiled_def by simp
  ultimately show ?thesis using i j len(1) by (simp add: distinct_conv_nth) metis
qed

text \<open>C24 (functional). The Import document of a plan whose assets are listed once says what the plan
  says: its commands are the asset commands of the creations and updates in the order of the executor,
  followed by bare hosts of relations that name a remote asset; the relations attached to the commands are,
  with multiplicities, the relationship creations of the plan; an attached relation names a remote asset by
  its identifier or an asset that the same or an earlier command creates, never a later one; and no
  other command has the identifier of a created asset.\<close>
theorem import_document_exact:
  assumes "compile_import_document plan config = Inr document" "distinct (asset_ids plan)"
  shows "(\<exists>base hosts. traverse (asset_command (vals (mc_attribute_type_refs config))) (ordered_assets plan) = Inr base \<and>
       map without_relations (id_commands document) = base @ hosts \<and> (\<forall>c \<in> set hosts. host_command c)) \<and>
     mset (document_relations document) =
       mset (map (plan_relation plan) (filter (is_action CREATE RELATIONSHIP) (sp_actions plan))) \<and>
     (\<forall>i < length (id_commands document). \<forall>(key, related) \<in> set (relation_entries (id_commands document ! i)).
       names_remote related \<or> (\<exists>j \<le> i. related = identifier_of (id_commands document ! j))) \<and>
     (\<forall>i < length (id_commands document). \<forall>j < length (id_commands document).
       ''type'' \<in> set (keys (id_commands document ! i)) \<and>
       identifier_of (id_commands document ! i) = identifier_of (id_commands document ! j) \<longrightarrow> i = j)"
proof -
  obtain st rels where st: "id_commands document = vals (im_commands st)"
    "compiled plan (vals (mc_attribute_type_refs config)) (ordered_assets plan) rels st"
    "mset rels = mset (filter (is_action CREATE RELATIONSHIP) (sp_actions plan))"
    "reject_duplicate_create_natural_identifiers plan = Inr ()" by (rule compile_compiled [OF assms])
  have "mset (document_relations document) = image_mset (plan_relation plan) (mset rels)"
    using st(2) by (simp add: document_relations_def st(1) compiled_def)
  then have "mset (document_relations document) =
       mset (map (plan_relation plan) (filter (is_action CREATE RELATIONSHIP) (sp_actions plan)))"
    unfolding st(3) by simp
  moreover have "no_forward (id_commands document)" using st(1,2) by (simp add: compiled_def)
  ultimately show ?thesis using st(2) compiled_created_unique [OF st(1,2,4)]
    unfolding compiled_def no_forward_def st(1) by (auto simp: case_prod_beta)
qed

text \<open>A database and a schema are created, the schema belongs to both the new and an existing database,
  and two existing assets are joined.\<close>

definition small_asset :: "string \<Rightarrow> string \<Rightarrow> CollibraAssetSpec" where
  "small_asset local_id name = \<lparr>as_local_id = local_id, as_name = name, as_asset_type_ref = ''type'', as_domain_ref = ''dom'',
     as_display_name = None, as_attributes = [\<lparr>at_attribute_type_ref = ''t'', at_value = local_id\<rparr>]\<rparr>"

definition small_relationship :: "string \<Rightarrow> string \<Rightarrow> SyncAction" where
  "small_relationship s t = blank_action\<lparr>sa_action_type := CREATE, sa_object_kind := RELATIONSHIP, sa_local_id := Some (s @ t),
     sa_desired_relationship := Some \<lparr>rs_local_key = s @ t, rs_source_local_id = s, rs_target_local_id = t,
       rs_relation_type_ref = ''has''\<rparr>\<rparr>"

definition small_plan :: SyncPlan where
  "small_plan = mk_sync_plan
     [blank_action\<lparr>sa_action_type := CREATE, sa_local_id := Some ''db:n'', sa_desired_asset := Some (small_asset ''db:n'' ''n'')\<rparr>,
      blank_action\<lparr>sa_action_type := CREATE, sa_local_id := Some ''sch:s'', sa_desired_asset := Some (small_asset ''sch:s'' ''s'')\<rparr>,
      blank_action\<lparr>sa_local_id := Some ''db:o'', sa_remote_id := Some ''r1''\<rparr>,
      blank_action\<lparr>sa_local_id := Some ''sch:o'', sa_remote_id := Some ''r2''\<rparr>,
      small_relationship ''db:n'' ''sch:s'', small_relationship ''db:o'' ''sch:s'', small_relationship ''db:o'' ''sch:o'']"

definition small_config :: CollibraMappingConfig where
  "small_config = \<lparr>mc_domain_ref = ''dom'', mc_asset_type_refs = [], mc_relation_type_refs = [],
     mc_attribute_type_refs = [(''local_id'', ''t'')]\<rparr>"

theorem import_document_exact_witness:
  "\<exists>document. compile_import_document small_plan small_config = Inr document \<and> length (id_commands document) = 3 \<and>
     mset (document_relations document) =
       mset (map (plan_relation small_plan) (filter (is_action CREATE RELATIONSHIP) (sp_actions small_plan)))"
proof -
  have "case compile_import_document small_plan small_config of Inl e \<Rightarrow> False | Inr d \<Rightarrow> length (id_commands d) = 3"
    by code_simp
  then obtain d where d: "compile_import_document small_plan small_config = Inr d" "length (id_commands d) = 3"
    by (cases "compile_import_document small_plan small_config") auto
  have "distinct (asset_ids small_plan)" by code_simp
  with d show ?thesis using import_document_exact [OF d(1)] by blast
qed

end
