(* ===== verification/Import_Run.thy ===== *)
theory Import_Run
  imports Import_Compile Complex_Main
begin

text \<open>
  \<open>integrations/collibra/jobs.py\<close>, the execution half of \<open>import_api.py\<close> and \<open>synchronization.py\<close>: job
  states, polling, and the two batch lifecycles (\<open>import_v2\<close> and \<open>sync_v2\<close>). The adapter is a record of
  operations on a state; an operation that \<open>getattr\<close> may not find is optional. Telemetry is left out.
  Clock readings are rational numbers.
\<close>

section \<open>Job states\<close>

definition REMOTE_STATES :: "string list" where
  "REMOTE_STATES = [''WAITING'', ''RUNNING'', ''CANCELING'', ''COMPLETED'', ''CANCELED'', ''ERROR'']"

definition REMOTE_TERMINAL_STATES :: "string list" where
  "REMOTE_TERMINAL_STATES = [''COMPLETED'', ''CANCELED'', ''ERROR'']"

definition REMOTE_RESULTS :: "string list" where
  "REMOTE_RESULTS = [''NOT_SET'', ''SUCCESS'', ''COMPLETED_WITH_ERROR'', ''FAILURE'', ''ABORTED'']"

definition NON_TERMINAL_STATES :: "string list" where
  "NON_TERMINAL_STATES = [''WAITING'', ''RUNNING'', ''CANCELING'']"

record JobView =
  jv_job_id :: "string option"
  jv_remote_state :: "string option"
  jv_remote_result :: "string option"
  jv_normalized_state :: string
  jv_normalized_outcome :: "string option"

datatype SubmissionState = NotAttempted | Submitted | Unknown

fun submission_state_as_bool :: "SubmissionState \<Rightarrow> bool option" where
  "submission_state_as_bool Submitted = Some True"
| "submission_state_as_bool NotAttempted = Some False"
| "submission_state_as_bool Unknown = None"

definition is_terminal_success :: "JobView \<Rightarrow> bool" where
  "is_terminal_success view \<longleftrightarrow>
     jv_normalized_state view = ''terminal_success'' \<and> jv_normalized_outcome view = Some ''success''"

definition is_remote_terminal :: "JobView option \<Rightarrow> bool" where
  "is_remote_terminal job = (case job of None \<Rightarrow> False | Some view \<Rightarrow>
     (case jv_remote_state view of None \<Rightarrow> False | Some state \<Rightarrow> state \<noteq> [] \<and> state \<in> set REMOTE_TERMINAL_STATES))"

text \<open>\<open>view.normalized_outcome or view.normalized_state\<close>\<close>

definition outcome_text :: "JobView \<Rightarrow> string" where
  "outcome_text view = (let text = or_empty (jv_normalized_outcome view) in if text \<noteq> [] then text else jv_normalized_state view)"

definition stripped_item :: "payload \<Rightarrow> string \<Rightarrow> string option" where
  "stripped_item kvs key = (case get_item kvs key of JStr s \<Rightarrow> Some (strip s) | _ \<Rightarrow> None)"

definition classify_job :: "json \<Rightarrow> string option \<Rightarrow> JobView" where
  "classify_job p job_id =
     (case p of
        JObject kvs \<Rightarrow>
          (let raw_id = get_item kvs ''id'';
               text = (if \<not> falsy raw_id then py_str raw_id else or_empty job_id);
               remote_id = (if text = [] then None else Some text);
               state = stripped_item kvs ''state''; result = stripped_item kvs ''result'';
               view = (\<lambda>normalized outcome. \<lparr>jv_job_id = remote_id, jv_remote_state = state, jv_remote_result = result,
                 jv_normalized_state = normalized, jv_normalized_outcome = outcome\<rparr>) in
           if or_empty state = [] then view ''uncertain'' (Some ''uncertain'')
           else if or_empty state \<notin> set REMOTE_STATES then view ''unknown'' (Some ''unknown'')
           else if or_empty state \<in> set NON_TERMINAL_STATES then view ''non_terminal'' None
           else if state = Some ''CANCELED'' then view ''cancelled'' (Some ''cancelled'')
           else if state = Some ''ERROR'' then view ''terminal_failure'' (Some ''failure'')
           else if or_empty result = [] \<or> result = Some ''NOT_SET'' then view ''uncertain'' (Some ''uncertain'')
           else if or_empty result \<notin> set REMOTE_RESULTS then view ''unknown'' (Some ''unknown'')
           else if result = Some ''SUCCESS'' then view ''terminal_success'' (Some ''success'')
           else if result = Some ''COMPLETED_WITH_ERROR'' then view ''terminal_failure'' (Some ''completed_with_error'')
           else if result = Some ''ABORTED'' then view ''terminal_failure'' (Some ''aborted'')
           else view ''terminal_failure'' (Some ''failure''))
      | _ \<Rightarrow> \<lparr>jv_job_id = job_id, jv_remote_state = None, jv_remote_result = None, jv_normalized_state = ''uncertain'',
          jv_normalized_outcome = Some ''uncertain''\<rparr>)"

definition timeout_view :: "JobView option \<Rightarrow> JobView" where
  "timeout_view previous = (case previous of
     None \<Rightarrow> \<lparr>jv_job_id = None, jv_remote_state = None, jv_remote_result = None, jv_normalized_state = ''timeout'',
       jv_normalized_outcome = Some ''timeout''\<rparr>
   | Some view \<Rightarrow> view\<lparr>jv_normalized_state := ''timeout'', jv_normalized_outcome := Some ''timeout''\<rparr>)"

definition sanitize_import_error_summary :: "json \<Rightarrow> int" where
  "sanitize_import_error_summary p =
     (case p of
        JObject kvs \<Rightarrow>
          (case get_item kvs ''total'' of
             JInt n \<Rightarrow> if n \<ge> 0 then n else (case get_item kvs ''results'' of JArray vs \<Rightarrow> int (length vs) | _ \<Rightarrow> 0)
           | JBool b \<Rightarrow> (if b then 1 else 0)
           | _ \<Rightarrow> (case get_item kvs ''results'' of JArray vs \<Rightarrow> int (length vs) | _ \<Rightarrow> 0))
      | JArray vs \<Rightarrow> int (length vs)
      | _ \<Rightarrow> 0)"

section \<open>Polling\<close>

record 's Poller =
  po_clock :: "'s \<Rightarrow> rat \<times> 's"
  po_sleep :: "rat \<Rightarrow> 's \<Rightarrow> 's"
  po_fetch :: "string \<Rightarrow> 's \<Rightarrow> json result \<times> 's"

definition validate_finite_poll_seconds :: "rat \<Rightarrow> string \<Rightarrow> rat result" where
  "validate_finite_poll_seconds value field_name =
     (if value \<le> 0 then Inl (ValueError (field_name @ '' must be a finite positive number'')) else Inr value)"

definition validate_job_polling_policy :: "rat \<Rightarrow> rat \<Rightarrow> (rat \<times> rat) result" where
  "validate_job_polling_policy interval_seconds timeout_seconds =
     try_in (validate_finite_poll_seconds interval_seconds ''interval_seconds'') (\<lambda>interval.
     try_in (validate_finite_poll_seconds timeout_seconds ''timeout_seconds'') (\<lambda>timeout.
       if timeout < interval then Inl (ValueError ''timeout_seconds must be >= interval_seconds'')
       else Inr (interval, timeout)))"

text \<open>The loop may run for ever when the clock stands still; \<open>None\<close> is that it does.\<close>

partial_function (option) poll_loop ::
  "'s Poller \<Rightarrow> string \<Rightarrow> rat \<Rightarrow> rat \<Rightarrow> rat \<Rightarrow> JobView option \<Rightarrow> 's \<Rightarrow> (JobView result \<times> 's) option" where
  "poll_loop poller job_id interval timeout started latest s =
     (case po_clock poller s of (now, s1) \<Rightarrow>
      if now - started \<ge> timeout then Some (Inr (timeout_view latest), s1)
      else (case po_fetch poller job_id s1 of
        (Inl e, s2) \<Rightarrow> Some (Inl e, s2)
      | (Inr p, s2) \<Rightarrow>
          (let view = classify_job p (Some job_id) in
           if jv_normalized_state view \<noteq> ''non_terminal'' then Some (Inr view, s2)
           else (case po_clock poller s2 of (later, s3) \<Rightarrow>
             (let remaining = timeout - (later - started) in
              if remaining \<le> 0 then Some (Inr (timeout_view (Some view)), s3)
              else poll_loop poller job_id interval timeout started (Some view)
                (po_sleep poller (min interval remaining) s3))))))"

definition poll_until_terminal :: "'s Poller \<Rightarrow> string \<Rightarrow> rat \<Rightarrow> rat \<Rightarrow> 's \<Rightarrow> (JobView result \<times> 's) option" where
  "poll_until_terminal poller job_id interval_seconds timeout_seconds s =
     (case validate_job_polling_policy interval_seconds timeout_seconds of
        Inl e \<Rightarrow> Some (Inl e, s)
      | Inr (interval, timeout) \<Rightarrow>
          if strip job_id = []
          then Some (Inr \<lparr>jv_job_id = None, jv_remote_state = None, jv_remote_result = None,
            jv_normalized_state = ''uncertain'', jv_normalized_outcome = Some ''uncertain''\<rparr>, s)
          else (case po_clock poller s of (started, t) \<Rightarrow> poll_loop poller job_id interval timeout started None t))"

text \<open>A clock that never goes back, and a sleep that lasts at least as long as asked: the loop ends.\<close>

definition keeps_time :: "('s \<Rightarrow> rat) \<Rightarrow> 's Poller \<Rightarrow> bool" where
  "keeps_time time poller \<longleftrightarrow>
     (\<forall>s. fst (po_clock poller s) = time (snd (po_clock poller s)) \<and> time s \<le> time (snd (po_clock poller s))) \<and>
     (\<forall>s d. 0 < d \<longrightarrow> time s + d \<le> time (po_sleep poller d s)) \<and>
     (\<forall>s j. time s \<le> time (snd (po_fetch poller j s)))"

definition settled_view :: "JobView result \<times> 's \<Rightarrow> bool" where
  "settled_view r \<longleftrightarrow> (\<forall>view. fst r = Inr view \<longrightarrow> jv_normalized_state view \<noteq> ''non_terminal'')"

lemma timeout_view_state [simp]: "jv_normalized_state (timeout_view v) = ''timeout''"
  by (cases v) (simp_all add: timeout_view_def)

lemma poll_loop_ends:
  assumes time: "keeps_time time poller" and pos: "0 < interval"
    and n: "timeout - (time s - started) \<le> of_nat n * interval"
  shows "\<exists>r. poll_loop poller job_id interval timeout started latest s = Some r \<and> settled_view r"
  using n
proof (induction n arbitrary: s latest)
  case 0
  obtain now s1 where now: "po_clock poller s = (now, s1)" by fastforce
  then have "now = time s1" "time s \<le> time s1" using time unfolding keeps_time_def by (metis fst_conv snd_conv)+
  then have "now - started \<ge> timeout" using 0 by simp
  then show ?case using now by (simp add: poll_loop.simps [of poller] settled_view_def)
next
  case (Suc n)
  obtain now s1 where now: "po_clock poller s = (now, s1)" by fastforce
  obtain f s2 where fetch: "po_fetch poller job_id s1 = (f, s2)" by fastforce
  obtain later s3 where later: "po_clock poller s2 = (later, s3)" by fastforce
  have mono: "time s \<le> time s1" "time s1 \<le> time s2" "time s2 \<le> time s3" "later = time s3"
    using time now fetch later unfolding keeps_time_def by (metis fst_conv snd_conv)+
  let ?remaining = "timeout - (later - started)"
  let ?s4 = "po_sleep poller (min interval ?remaining) s3"
  show ?case
  proof (cases "?remaining \<le> 0")
    case True
    then show ?thesis
      by (simp add: poll_loop.simps [of poller] now fetch later Let_def settled_view_def split: sum.split)
  next
    case False
    then have "time s3 + min interval ?remaining \<le> time ?s4" using time pos unfolding keeps_time_def by simp
    moreover have "0 \<le> of_nat n * interval" using pos by simp
    ultimately have "timeout - (time ?s4 - started) \<le> of_nat n * interval"
      using Suc.prems mono by (auto simp: min_def algebra_simps split: if_splits)
    then have "\<exists>r. poll_loop poller job_id interval timeout started latest ?s4 = Some r \<and> settled_view r" for latest
      using Suc.IH by blast
    then show ?thesis using False
      by (cases f) (simp_all add: poll_loop.simps [of poller _ _ _ _ _ s] now fetch later Let_def settled_view_def)
  qed
qed

section \<open>The adapter of the batch lifecycles\<close>

text \<open>\<open>submission.job_id\<close> is the empty string when the submission has none; an error summary is the
  \<open>error_count\<close> of the dictionary the adapter returns, if it has one.\<close>

record 's ImportAdapter = "'s CollibraAdapter" +
  ia_mode :: string
  ia_lookup :: "(string \<Rightarrow> string \<Rightarrow> 's \<Rightarrow> json result \<times> 's) option"
  ia_submit_json_import :: "ImportDocument \<Rightarrow> 's \<Rightarrow> string result \<times> 's"
  ia_poll_job :: "(string \<Rightarrow> 's \<Rightarrow> JobView result \<times> 's) option"
  ia_get_import_errors :: "(string \<Rightarrow> 's \<Rightarrow> int option result \<times> 's) option"
  ia_submit_sync_batch :: "(string \<Rightarrow> ImportDocument \<Rightarrow> 's \<Rightarrow> string result \<times> 's) option"
  ia_submit_sync_finalize :: "(string \<Rightarrow> string \<Rightarrow> 's \<Rightarrow> string result \<times> 's) option"

text \<open>What \<open>except CollibraAdapterError\<close> catches.\<close>

fun adapter_caught :: "error \<Rightarrow> bool" where
  "adapter_caught (AdapterError text operation) = True"
| "adapter_caught (BatchingError text) = True"
| "adapter_caught (ImportCompileError text) = True"
| "adapter_caught (ImportCollisionError text) = True"
| "adapter_caught e = False"

text \<open>The names of the created assets must be absent; \<open>seen\<close> are those already looked up.\<close>

fun prove_absent ::
  "(string \<Rightarrow> string \<Rightarrow> 's \<Rightarrow> json result \<times> 's) \<Rightarrow> (string \<times> string) list \<Rightarrow> SyncAction list \<Rightarrow> 's \<Rightarrow> unit result \<times> 's" where
  "prove_absent lookup seen [] s = (Inr (), s)"
| "prove_absent lookup seen (action # actions) s =
     (case exact_import_identifier_key (sa_desired_asset action) of
        Inl e \<Rightarrow> (Inl (case e of ImportCompileError text \<Rightarrow> ImportCollisionError ''import_v2 CREATE collision check is ambiguous''
          | _ \<Rightarrow> e), s)
      | Inr key \<Rightarrow>
          if key \<in> set seen then prove_absent lookup seen actions s
          else (case lookup (fst key) (snd key) s of
            (Inl e, t) \<Rightarrow> (Inl (case e of ImportCollisionError text \<Rightarrow> e
              | _ \<Rightarrow> ImportCollisionError ''import_v2 CREATE collision check failed''), t)
          | (Inr (JArray []), t) \<Rightarrow> prove_absent lookup (key # seen) actions t
          | (Inr (JArray (m # ms)), t) \<Rightarrow>
              (Inl (ImportCollisionError ''import_v2 CREATE identifier collides with an existing Collibra asset''), t)
          | (Inr _, t) \<Rightarrow> (Inl (ImportCollisionError ''import_v2 CREATE collision check is ambiguous''), t)))"

definition prove_import_create_identifiers_absent :: "'s ImportAdapter \<Rightarrow> SyncPlan \<Rightarrow> 's \<Rightarrow> unit result \<times> 's" where
  "prove_import_create_identifiers_absent adapter plan s =
     (let creates = filter (is_action CREATE ASSET) (sp_actions plan) in
      if creates = [] then (Inr (), s)
      else (case ia_lookup adapter of
        None \<Rightarrow> (Inl (ImportCollisionError ''import_v2 CREATE collision check is unavailable''), s)
      | Some lookup \<Rightarrow> prove_absent lookup [] creates s))"

definition best_effort_import_error_summary :: "'s ImportAdapter \<Rightarrow> string \<Rightarrow> 's \<Rightarrow> int option \<times> 's" where
  "best_effort_import_error_summary adapter job_id s =
     (if job_id = [] then (None, s)
      else (case ia_get_import_errors adapter of
        None \<Rightarrow> (None, s)
      | Some get_errors \<Rightarrow> (case get_errors job_id s of (Inl e, t) \<Rightarrow> (None, t) | (Inr summary, t) \<Rightarrow> (summary, t))))"

section \<open>One batch\<close>

record BatchLifecycleRecord =
  br_batch_index :: nat
  br_content_identity :: ContentIdentity
  br_resource_count :: int
  br_additional_count :: int
  br_submission_state :: SubmissionState
  br_job_id :: "string option"
  br_job :: "JobView option"
  br_observation_error :: "string option"

definition make_batch_lifecycle_record ::
  "(string \<Rightarrow> string) \<Rightarrow> nat \<Rightarrow> ImportDocument \<Rightarrow> SubmissionState \<Rightarrow> string option \<Rightarrow> JobView option \<Rightarrow> string option \<Rightarrow> BatchLifecycleRecord" where
  "make_batch_lifecycle_record sha batch_index batch state job_id job observation_error =
     \<lparr>br_batch_index = batch_index, br_content_identity = import_batch_content_identity sha batch,
      br_resource_count = cc_resource_count (batch_document_counts batch),
      br_additional_count = additional_count (batch_document_counts batch),
      br_submission_state = state, br_job_id = job_id, br_job = job, br_observation_error = observation_error\<rparr>"

definition record_success :: "BatchLifecycleRecord \<Rightarrow> bool" where
  "record_success r \<longleftrightarrow> (case br_job r of None \<Rightarrow> False | Some view \<Rightarrow> is_terminal_success view)"

definition record_outcome :: "BatchLifecycleRecord \<Rightarrow> string option" where
  "record_outcome r = map_option outcome_text (br_job r)"

definition serialize_batch_lifecycle_record :: "BatchLifecycleRecord \<Rightarrow> json" where
  "serialize_batch_lifecycle_record r = JObject
     ([(''additional_characteristic_count'', JInt (br_additional_count r)), (''batch_index'', JInt (int (br_batch_index r))),
       (''content_identity'', content_identity_dict (br_content_identity r)), (''job_id'', opt_to_json (br_job_id r)),
       (''job_result'', (case br_job r of None \<Rightarrow> JNull | Some view \<Rightarrow> opt_to_json (jv_remote_result view))),
       (''job_state'', (case br_job r of None \<Rightarrow> JNull | Some view \<Rightarrow> opt_to_json (jv_remote_state view))),
       (''normalized_outcome'', opt_to_json (record_outcome r)), (''resource_count'', JInt (br_resource_count r)),
       (''submission_state'', JStr (case br_submission_state r of NotAttempted \<Rightarrow> ''not_attempted'' | Submitted \<Rightarrow> ''submitted'' | Unknown \<Rightarrow> ''unknown'')),
       (''submitted'', (case submission_state_as_bool (br_submission_state r) of None \<Rightarrow> JNull | Some b \<Rightarrow> JBool b)),
       (''success'', JBool (record_success r)), (''terminal'', JBool (is_remote_terminal (br_job r)))] @
      optional_entry (br_observation_error r \<noteq> None) ''observation_error'' (JStr (or_empty (br_observation_error r))))"

definition observe_job :: "(string \<Rightarrow> 's \<Rightarrow> JobView result \<times> 's) \<Rightarrow> string \<Rightarrow> 's \<Rightarrow> (JobView + string) result \<times> 's" where
  "observe_job poll_job job_id s =
     (case poll_job job_id s of
        (Inr view, t) \<Rightarrow> (Inr (Inl view), t)
      | (Inl e, t) \<Rightarrow> if adapter_caught e then (Inr (Inr ''could not observe job outcome''), t) else (Inl e, t))"

text \<open>The body of the loop over the batches, up to what the two lifecycles do next.\<close>

datatype batch_end = Uncertain | Unobserved string | Failed JobView | Confirmed

definition run_batch ::
  "(string \<Rightarrow> string) \<Rightarrow> (ImportDocument \<Rightarrow> 's \<Rightarrow> string result \<times> 's) \<Rightarrow> (string \<Rightarrow> 's \<Rightarrow> JobView result \<times> 's) \<Rightarrow> nat \<Rightarrow>
   ImportDocument \<Rightarrow> 's \<Rightarrow> (batch_end \<times> BatchLifecycleRecord) result \<times> 's" where
  "run_batch sha submit poll_job batch_index batch s =
     (let make = make_batch_lifecycle_record sha batch_index batch in
      case submit batch s of
        (Inl e, t) \<Rightarrow> if adapter_caught e then (Inr (Uncertain, make Unknown None None None), t) else (Inl e, t)
      | (Inr job_id, t) \<Rightarrow>
          if job_id = [] then (Inr (Uncertain, make Unknown None None None), t)
          else (case observe_job poll_job job_id t of
            (Inl e, u) \<Rightarrow> (Inl e, u)
          | (Inr (Inr observation_error), u) \<Rightarrow>
              (Inr (Unobserved observation_error, make Submitted (Some job_id) None (Some observation_error)), u)
          | (Inr (Inl view), u) \<Rightarrow>
              (Inr (if is_terminal_success view then Confirmed else Failed view,
                 make Submitted (Some job_id) (Some view) None), u)))"

section \<open>Import lifecycle\<close>

record ImportJobExecutionResult =
  ij_plan :: SyncPlan
  ij_document :: ImportDocument
  ij_submission_state :: SubmissionState
  ij_job_id :: "string option"
  ij_job :: "JobView option"
  ij_success :: bool
  ij_applied_count :: nat
  ij_unchanged_count :: nat
  ij_batch_lifecycle :: "BatchLifecycleRecord list"
  ij_import_error_summary :: "int option"
  ij_error :: "string option"

definition import_job_execution_result ::
  "SyncPlan \<Rightarrow> ImportDocument \<Rightarrow> nat \<Rightarrow> BatchLifecycleRecord list \<Rightarrow> nat \<Rightarrow> bool \<Rightarrow> int option \<Rightarrow> string option \<Rightarrow> ImportJobExecutionResult" where
  "import_job_execution_result plan document unchanged_count batch_lifecycle applied_count success summary error =
     \<lparr>ij_plan = plan, ij_document = document,
      ij_submission_state = (if batch_lifecycle = [] then NotAttempted else br_submission_state (last batch_lifecycle)),
      ij_job_id = (if batch_lifecycle = [] then None else br_job_id (last batch_lifecycle)),
      ij_job = (if batch_lifecycle = [] then None else br_job (last batch_lifecycle)),
      ij_success = success, ij_applied_count = applied_count, ij_unchanged_count = unchanged_count,
      ij_batch_lifecycle = batch_lifecycle, ij_import_error_summary = summary, ij_error = error\<rparr>"

text \<open>The loop: it goes on after a confirmed batch only.\<close>

fun run_batches ::
  "(string \<Rightarrow> string) \<Rightarrow> (ImportDocument \<Rightarrow> 's \<Rightarrow> string result \<times> 's) \<Rightarrow> (string \<Rightarrow> 's \<Rightarrow> JobView result \<times> 's) \<Rightarrow> nat \<Rightarrow> nat \<Rightarrow>
   BatchLifecycleRecord list \<Rightarrow> ImportDocument list \<Rightarrow> 's \<Rightarrow> (batch_end \<times> BatchLifecycleRecord list \<times> nat) result \<times> 's" where
  "run_batches sha submit poll_job index applied records [] s = (Inr (Confirmed, records, applied), s)"
| "run_batches sha submit poll_job index applied records (batch # batches) s =
     (case run_batch sha submit poll_job index batch s of
        (Inl e, t) \<Rightarrow> (Inl e, t)
      | (Inr (Confirmed, r), t) \<Rightarrow>
          run_batches sha submit poll_job (Suc index) (applied + length (id_commands batch)) (records @ [r]) batches t
      | (Inr (stopped, r), t) \<Rightarrow> (Inr (stopped, records @ [r], applied), t))"

definition execute_import_batches_lifecycle ::
  "(string \<Rightarrow> string) \<Rightarrow> 's ImportAdapter \<Rightarrow> SyncPlan \<Rightarrow> ImportDocument \<Rightarrow> ImportDocument list \<Rightarrow> nat \<Rightarrow> 's \<Rightarrow>
   ImportJobExecutionResult result \<times> 's" where
  "execute_import_batches_lifecycle sha adapter plan document batches unchanged_count s =
     (case prove_import_create_identifiers_absent adapter plan s of
        (Inl e, t) \<Rightarrow> (Inl e, t)
      | (Inr _, t) \<Rightarrow> (let finish = import_job_execution_result plan document unchanged_count in
         case ia_poll_job adapter of
           None \<Rightarrow> (Inr (finish [] 0 False None (Some ''import_v2 requires job polling'')), t)
         | Some poll_job \<Rightarrow> (case run_batches sha (ia_submit_json_import adapter) poll_job 0 0 [] batches t of
             (Inl e, u) \<Rightarrow> (Inl e, u)
           | (Inr (Confirmed, records, applied), u) \<Rightarrow> (Inr (finish records applied True None None), u)
           | (Inr (Uncertain, records, applied), u) \<Rightarrow>
               (Inr (finish records applied False None (Some ''import job submission outcome=uncertain'')), u)
           | (Inr (Unobserved error, records, applied), u) \<Rightarrow> (Inr (finish records applied False None (Some error)), u)
           | (Inr (Failed view, records, applied), u) \<Rightarrow>
               (case best_effort_import_error_summary adapter (or_empty (br_job_id (last records))) u of (summary, w) \<Rightarrow>
                 (Inr (finish records applied False summary (Some (''import job outcome='' @ outcome_text view))), w)))))"

section \<open>Synchronization lifecycle\<close>

definition FINALIZATION_STRATEGY_IGNORE :: string where
  "FINALIZATION_STRATEGY_IGNORE = ''IGNORE''"

definition require_ignore_strategy :: "string \<Rightarrow> string result" where
  "require_ignore_strategy strategy =
     (let value = strip strategy in
      if value \<in> {''REMOVE_RESOURCES'', ''CHANGE_STATUS''}
      then Inl (adapter_error ''finalizationStrategy is forbidden'' ''submit_sync_finalize'' None
        (Some ''/rest/2.0/import/synchronize/{id}/finalize/job'') None None None)
      else if value \<noteq> FINALIZATION_STRATEGY_IGNORE
      then Inl (adapter_error ''finalizationStrategy must be IGNORE'' ''submit_sync_finalize'' None
        (Some ''/rest/2.0/import/synchronize/{id}/finalize/job'') None None None)
      else Inr FINALIZATION_STRATEGY_IGNORE)"

record SyncLifecycleResult =
  sl_plan :: SyncPlan
  sl_document :: ImportDocument
  sl_dry_run :: bool
  sl_synchronization_id :: string
  sl_batch_lifecycle :: "BatchLifecycleRecord list"
  sl_finalization_submission_state :: SubmissionState
  sl_finalization_job_id :: "string option"
  sl_finalization_job :: "JobView option"
  sl_success :: bool
  sl_applied_count :: nat
  sl_unchanged_count :: nat
  sl_import_error_summary :: "int option"
  sl_error :: "string option"

definition idle_result :: "SyncPlan \<Rightarrow> ImportDocument \<Rightarrow> bool \<Rightarrow> string \<Rightarrow> nat \<Rightarrow> bool \<Rightarrow> string option \<Rightarrow> SyncLifecycleResult" where
  "idle_result plan document dry_run sync_id unchanged_count success error =
     \<lparr>sl_plan = plan, sl_document = document, sl_dry_run = dry_run, sl_synchronization_id = sync_id,
      sl_batch_lifecycle = [], sl_finalization_submission_state = NotAttempted, sl_finalization_job_id = None,
      sl_finalization_job = None, sl_success = success, sl_applied_count = 0, sl_unchanged_count = unchanged_count,
      sl_import_error_summary = None, sl_error = error\<rparr>"

text \<open>After the last batch: finalize with the IGNORE strategy and poll the finalization job. \<open>done\<close> is the
  result so far.\<close>

definition finalize_sync ::
  "'s ImportAdapter \<Rightarrow> (string \<Rightarrow> string \<Rightarrow> 's \<Rightarrow> string result \<times> 's) \<Rightarrow> (string \<Rightarrow> 's \<Rightarrow> JobView result \<times> 's) \<Rightarrow>
   SyncLifecycleResult \<Rightarrow> 's \<Rightarrow> SyncLifecycleResult result \<times> 's" where
  "finalize_sync adapter submit_finalize poll_job batched s =
     (let uncertain = batched\<lparr>sl_finalization_submission_state := Unknown, sl_success := False,
          sl_error := Some ''sync finalization job outcome=uncertain''\<rparr> in
      case submit_finalize (sl_synchronization_id batched) FINALIZATION_STRATEGY_IGNORE s of
        (Inl e, t) \<Rightarrow> if adapter_caught e then (Inr uncertain, t) else (Inl e, t)
      | (Inr job_id, t) \<Rightarrow>
          if job_id = [] then (Inr uncertain, t)
          else (let submitted = batched\<lparr>sl_finalization_submission_state := Submitted, sl_finalization_job_id := Some job_id\<rparr> in
            case observe_job poll_job job_id t of
              (Inl e, u) \<Rightarrow> (Inl e, u)
            | (Inr (Inr observation_error), u) \<Rightarrow> (Inr (submitted\<lparr>sl_success := False, sl_error := Some observation_error\<rparr>), u)
            | (Inr (Inl view), u) \<Rightarrow>
                if is_terminal_success view
                then (Inr (submitted\<lparr>sl_finalization_job := Some view, sl_success := True, sl_error := None\<rparr>), u)
                else (let records = sl_batch_lifecycle batched in
                  case (if records = [] then (None, u)
                      else best_effort_import_error_summary adapter (or_empty (br_job_id (last records))) u) of (summary, w) \<Rightarrow>
                  (Inr (submitted\<lparr>sl_finalization_job := Some view, sl_success := False, sl_import_error_summary := summary,
                     sl_error := Some (''sync finalization job outcome='' @ outcome_text view)\<rparr>), w))))"

definition run_sync_batches ::
  "(string \<Rightarrow> string) \<Rightarrow> 's ImportAdapter \<Rightarrow> (string \<Rightarrow> ImportDocument \<Rightarrow> 's \<Rightarrow> string result \<times> 's) \<Rightarrow>
   (string \<Rightarrow> 's \<Rightarrow> JobView result \<times> 's) \<Rightarrow> (string \<Rightarrow> string \<Rightarrow> 's \<Rightarrow> string result \<times> 's) \<Rightarrow>
   SyncLifecycleResult \<Rightarrow> ImportDocument list \<Rightarrow> 's \<Rightarrow> SyncLifecycleResult result \<times> 's" where
  "run_sync_batches sha adapter submit_batch poll_job submit_finalize blank batches s =
     (let so_far = (\<lambda>records applied. blank\<lparr>sl_batch_lifecycle := records, sl_applied_count := applied\<rparr>);
          failed = (\<lambda>records applied error. (so_far records applied)\<lparr>sl_success := False, sl_error := Some error\<rparr>) in
      case run_batches sha (submit_batch (sl_synchronization_id blank)) poll_job 0 0 [] batches s of
        (Inl e, t) \<Rightarrow> (Inl e, t)
      | (Inr (Confirmed, records, applied), t) \<Rightarrow> finalize_sync adapter submit_finalize poll_job (so_far records applied) t
      | (Inr (Uncertain, records, applied), t) \<Rightarrow> (Inr (failed records applied ''sync batch job submission outcome=uncertain''), t)
      | (Inr (Unobserved error, records, applied), t) \<Rightarrow> (Inr (failed records applied error), t)
      | (Inr (Failed view, records, applied), t) \<Rightarrow>
          (let failing_id = (if or_empty (jv_job_id view) \<noteq> [] then or_empty (jv_job_id view)
             else or_empty (br_job_id (last records))) in
           case best_effort_import_error_summary adapter failing_id t of (summary, u) \<Rightarrow>
           (Inr ((failed records applied (''sync batch job outcome='' @ outcome_text view))\<lparr>sl_import_error_summary := summary\<rparr>), u)))"

text \<open>\<open>uuid\<close> stands for \<open>str(UUID(text))\<close>, \<open>None\<close> when that raises.\<close>

definition parse_synchronization_id :: "(string \<Rightarrow> string option) \<Rightarrow> string \<Rightarrow> string result" where
  "parse_synchronization_id uuid value =
     (case uuid (strip value) of
        None \<Rightarrow> Inl (ValueError ''collibra_synchronization_id must be a UUID'')
      | Some text \<Rightarrow> Inr text)"

definition execute_sync_v2 ::
  "(string \<Rightarrow> string) \<Rightarrow> (string \<Rightarrow> string option) \<Rightarrow> 's ImportAdapter \<Rightarrow> SyncPlan \<Rightarrow> CollibraMappingConfig \<Rightarrow> bool \<Rightarrow> string \<Rightarrow> json \<Rightarrow> json \<Rightarrow> 's \<Rightarrow>
   SyncLifecycleResult result \<times> 's" where
  "execute_sync_v2 sha uuid adapter plan mapping_config app synchronization_id max_resources max_additional s =
     (case try_in (parse_synchronization_id uuid synchronization_id) (\<lambda>sync_id.
           try_in (compile_import_document plan mapping_config) (\<lambda>document.
           try_in (partition_document document max_resources max_additional) (\<lambda>batches. Inr (sync_id, document, batches)))) of
        Inl e \<Rightarrow> (Inl e, s)
      | Inr (sync_id, document, batches) \<Rightarrow>
          (let unchanged_count = length (plan_of_type UNCHANGED plan) in
           if \<not> app then (Inr (idle_result plan document True sync_id unchanged_count True None), s)
           else if batches = [] then (Inr (idle_result plan document False sync_id unchanged_count True None), s)
           else (case (ia_submit_sync_batch adapter, ia_poll_job adapter, ia_submit_sync_finalize adapter) of
             (Some submit_batch, Some poll_job, Some submit_finalize) \<Rightarrow>
               (case prove_import_create_identifiers_absent adapter plan s of
                  (Inl e, t) \<Rightarrow> (Inl e, t)
                | (Inr _, t) \<Rightarrow> run_sync_batches sha adapter submit_batch poll_job submit_finalize
                    (idle_result plan document False sync_id unchanged_count True None) batches t)
           | _ \<Rightarrow> (Inr (idle_result plan document False sync_id unchanged_count False
               (Some ''sync_v2 requires a live Collibra adapter'')), s))))"

section \<open>The three execution modes\<close>

datatype execution_result =
    CoreRest SyncResult
  | ImportPreview SyncPlan ImportDocument nat
  | ImportJobs ImportJobExecutionResult
  | SyncJobs SyncLifecycleResult

definition execute_collibra_plan ::
  "(string \<Rightarrow> string) \<Rightarrow> (string \<Rightarrow> string option) \<Rightarrow> 's ImportAdapter \<Rightarrow> SyncPlan \<Rightarrow> CollibraMappingConfig \<Rightarrow> bool \<Rightarrow> string \<Rightarrow>
   string \<Rightarrow> json \<Rightarrow> json \<Rightarrow> 's \<Rightarrow> execution_result result \<times> 's" where
  "execute_collibra_plan sha uuid adapter plan mapping_config app execution_mode synchronization_id max_resources max_additional s =
     (let mode = py_lower (strip (if execution_mode = [] then ''core_rest'' else execution_mode)) in
      if mode = ''core_rest'' \<or> ia_mode adapter = ''mock''
      then (case execute_sync_plan (CollibraAdapter.truncate adapter) plan app s of
        (Inl e, t) \<Rightarrow> (Inl e, t) | (Inr r, t) \<Rightarrow> (Inr (CoreRest r), t))
      else if mode = ''sync_v2''
      then if synchronization_id = [] then (Inl (ImportCompileError ''sync_v2 requires a synchronization id''), s)
        else (case execute_sync_v2 sha uuid adapter plan mapping_config app synchronization_id max_resources max_additional s of
          (Inl e, t) \<Rightarrow> (Inl e, t) | (Inr r, t) \<Rightarrow> (Inr (SyncJobs r), t))
      else if mode \<noteq> ''import_v2''
      then (Inl (ImportCompileError ''collibra_execution_mode must be core_rest, import_v2, or sync_v2''), s)
      else (case try_in (compile_import_document plan mapping_config) (\<lambda>document.
              try_in (partition_document document max_resources max_additional) (\<lambda>batches. Inr (document, batches))) of
          Inl e \<Rightarrow> (Inl e, s)
        | Inr (document, batches) \<Rightarrow>
            (let unchanged_count = length (plan_of_type UNCHANGED plan) in
             if \<not> app then (Inr (ImportPreview plan document unchanged_count), s)
             else if batches = [] then (Inr (ImportJobs (import_job_execution_result plan document unchanged_count [] 0 True None None)), s)
             else (case execute_import_batches_lifecycle sha adapter plan document batches unchanged_count s of
               (Inl e, t) \<Rightarrow> (Inl e, t) | (Inr r, t) \<Rightarrow> (Inr (ImportJobs r), t)))))"

section \<open>What a lifecycle reports\<close>

text \<open>The records are those of the first batches in order; all but the last are confirmed, and the last is
  not confirmed exactly when the loop stopped.\<close>

definition reports :: "(string \<Rightarrow> string) \<Rightarrow> nat \<Rightarrow> ImportDocument list \<Rightarrow> BatchLifecycleRecord list \<Rightarrow> bool \<Rightarrow> bool" where
  "reports sha i batches records confirmed \<longleftrightarrow>
     length records \<le> length batches \<and>
     (\<forall>k < length records. br_batch_index (records ! k) = i + k \<and>
        br_content_identity (records ! k) = import_batch_content_identity sha (batches ! k) \<and>
        (Suc k < length records \<longrightarrow> record_success (records ! k))) \<and>
     (if confirmed then length records = length batches \<and> (\<forall>r \<in> set records. record_success r)
      else records \<noteq> [] \<and> \<not> record_success (last records))"

definition confirmed_commands :: "BatchLifecycleRecord list \<Rightarrow> ImportDocument list \<Rightarrow> nat" where
  "confirmed_commands records batches =
     sum_list (map (\<lambda>(r, b). if record_success r then length (id_commands b) else 0) (zip records batches))"

lemma reports_confirmed:
  assumes "reports sha i batches records confirmed"
  shows "confirmed \<longleftrightarrow> length records = length batches \<and> (\<forall>r \<in> set records. record_success r)"
proof (cases confirmed)
  case False
  then have "last records \<in> set records" "\<not> record_success (last records)" using assms by (simp_all add: reports_def)
  then show ?thesis using False by blast
qed (use assms in \<open>simp add: reports_def\<close>)

lemma run_batch_report:
  assumes "run_batch sha submit poll_job i batch s = (Inr (stopped, r), t)"
  shows "br_batch_index r = i" "br_content_identity r = import_batch_content_identity sha batch"
    "record_success r \<longleftrightarrow> stopped = Confirmed"
  using assms
  by (auto simp: run_batch_def Let_def make_batch_lifecycle_record_def record_success_def split: prod.splits sum.splits if_splits)

lemma reports_Cons:
  assumes "br_batch_index r = i" "br_content_identity r = import_batch_content_identity sha batch" "record_success r"
    "reports sha (Suc i) batches records confirmed"
  shows "reports sha i (batch # batches) (r # records) confirmed"
proof -
  have "(\<forall>k < length (r # records). P k) \<longleftrightarrow> P 0 \<and> (\<forall>k < length records. P (Suc k))" for P
    using less_Suc_eq_0_disj by auto
  then show ?thesis using assms unfolding reports_def by (auto split: if_splits)
qed

lemma reports_single:
  "br_batch_index r = i \<Longrightarrow> br_content_identity r = import_batch_content_identity sha batch \<Longrightarrow> \<not> record_success r \<Longrightarrow>
   reports sha i (batch # batches) [r] False"
  by (simp add: reports_def)

lemma run_batches_report:
  assumes "run_batches sha submit poll_job i applied records batches s = (Inr (stopped, records', applied'), t)"
  shows "\<exists>new. records' = records @ new \<and> reports sha i batches new (stopped = Confirmed) \<and>
    applied' = applied + confirmed_commands new batches"
  using assms
proof (induction batches arbitrary: i applied records s)
  case Nil
  then show ?case by (auto simp: reports_def confirmed_commands_def)
next
  case (Cons batch batches)
  obtain e u where e: "run_batch sha submit poll_job i batch s = (e, u)" by fastforce
  then obtain last_end r where r: "e = Inr (last_end, r)" using Cons.prems by (cases e) auto
  note rep = run_batch_report [OF e [unfolded r]]
  show ?case
  proof (cases "last_end = Confirmed")
    case True
    then have "run_batches sha submit poll_job (Suc i) (applied + length (id_commands batch)) (records @ [r]) batches u =
        (Inr (stopped, records', applied'), t)" using Cons.prems e r by simp
    then obtain new where "records' = (records @ [r]) @ new" "reports sha (Suc i) batches new (stopped = Confirmed)"
      "applied' = applied + length (id_commands batch) + confirmed_commands new batches"
      using Cons.IH by blast
    then show ?thesis using True rep reports_Cons [OF rep(1,2)]
      by (intro exI [of _ "r # new"]) (simp add: confirmed_commands_def)
  next
    case False
    then have "records' = records @ [r]" "applied' = applied" "stopped = last_end"
      using Cons.prems e r by (cases last_end; simp)+
    then show ?thesis using False rep reports_single [OF rep(1,2)]
      by (intro exI [of _ "[r]"]) (simp add: confirmed_commands_def)
  qed
qed

text \<open>After the loop has stopped, the batches that follow are never looked at.\<close>

lemma run_batches_stops:
  assumes "run_batches sha submit poll_job i applied records batches s = (Inr (stopped, records', applied'), t)"
    "stopped \<noteq> Confirmed"
  shows "run_batches sha submit poll_job i applied records (take (length records' - length records) batches @ others) s =
    (Inr (stopped, records', applied'), t)"
  using assms(1)
proof (induction batches arbitrary: i applied records s)
  case Nil
  then show ?case using assms(2) by simp
next
  case (Cons batch batches)
  obtain e u where e: "run_batch sha submit poll_job i batch s = (e, u)" by fastforce
  then obtain last_end r where r: "e = Inr (last_end, r)" using Cons.prems by (cases e) auto
  show ?case
  proof (cases "last_end = Confirmed")
    case True
    then have run: "run_batches sha submit poll_job (Suc i) (applied + length (id_commands batch)) (records @ [r]) batches u =
        (Inr (stopped, records', applied'), t)" using Cons.prems e r by simp
    then have "length (records @ [r]) \<le> length records'" using run_batches_report by fastforce
    then have "length records' - length records = Suc (length records' - length (records @ [r]))" by simp
    then show ?thesis using Cons.IH [OF run] e r True by simp
  next
    case False
    then have stop: "records' = records @ [r]" "applied' = applied" "stopped = last_end" "t = u"
      using Cons.prems e r by (cases last_end; simp)+
    show ?thesis unfolding stop using e r False by (cases last_end) simp_all
  qed
qed

lemma finalize_reports:
  assumes "finalize_sync adapter submit_finalize poll_job batched s = (Inr r, t)"
    "sl_finalization_job batched = None"
  shows "sl_batch_lifecycle r = sl_batch_lifecycle batched" "sl_applied_count r = sl_applied_count batched"
    "sl_finalization_submission_state r \<noteq> NotAttempted"
    "sl_success r \<longleftrightarrow> (\<exists>view. sl_finalization_job r = Some view \<and> is_terminal_success view)"
  using assms
  by (auto simp: finalize_sync_def Let_def split: prod.splits sum.splits if_splits)

lemma sync_batches_report:
  assumes "run_sync_batches sha adapter submit_batch poll_job submit_finalize blank batches s = (Inr r, t)"
    "sl_finalization_job blank = None" "sl_finalization_submission_state blank = NotAttempted"
  shows "\<exists>confirmed. reports sha 0 batches (sl_batch_lifecycle r) confirmed \<and>
    sl_applied_count r = confirmed_commands (sl_batch_lifecycle r) batches \<and>
    (sl_finalization_submission_state r \<noteq> NotAttempted \<longleftrightarrow> confirmed) \<and>
    (sl_success r \<longleftrightarrow> confirmed \<and> (\<exists>view. sl_finalization_job r = Some view \<and> is_terminal_success view))"
proof -
  obtain x u where run: "run_batches sha (submit_batch (sl_synchronization_id blank)) poll_job 0 0 [] batches s = (x, u)" by fastforce
  then obtain stopped records applied where x: "x = Inr (stopped, records, applied)"
    using assms(1) by (cases x) (auto simp: run_sync_batches_def Let_def)
  have rep: "reports sha 0 batches records (stopped = Confirmed)" "applied = confirmed_commands records batches"
    using run_batches_report [OF run [unfolded x]] by auto
  show ?thesis
  proof (cases stopped)
    case Confirmed
    then have "finalize_sync adapter submit_finalize poll_job (blank\<lparr>sl_batch_lifecycle := records, sl_applied_count := applied\<rparr>) u = (Inr r, t)"
      using assms(1) run x by (simp add: run_sync_batches_def Let_def)
    from finalize_reports [OF this] rep Confirmed assms(2) show ?thesis by (intro exI [of _ True]) simp
  qed (use assms run x rep in \<open>auto simp: run_sync_batches_def Let_def split: prod.splits intro!: exI [of _ False]\<close>)+
qed

text \<open>C26 (safety). A \<open>sync_v2\<close> run never finalizes early. Its lifecycle records are those of a leading part of the
  batches in order, all but the last confirmed by the server; its applied count is the number of
  commands of the confirmed batches; a finalization is attempted exactly when every batch is confirmed;
  and the run is a success exactly when, moreover, the finalization job itself ended in success (or there
  was nothing to send).\<close>
theorem finalized_after_confirmation:
  assumes "execute_sync_v2 sha uuid adapter plan config True synchronization_id max_resources max_additional s = (Inr r, t)"
  shows "\<exists>document batches. compile_import_document plan config = Inr document \<and>
    partition_document document max_resources max_additional = Inr batches \<and>
    (batches = [] \<and> sl_success r \<and> sl_finalization_submission_state r = NotAttempted \<and> sl_batch_lifecycle r = [] \<or>
     batches \<noteq> [] \<and> length (sl_batch_lifecycle r) \<le> length batches \<and>
     (\<forall>k < length (sl_batch_lifecycle r). br_batch_index (sl_batch_lifecycle r ! k) = k \<and>
        br_content_identity (sl_batch_lifecycle r ! k) = import_batch_content_identity sha (batches ! k) \<and>
        (Suc k < length (sl_batch_lifecycle r) \<longrightarrow> record_success (sl_batch_lifecycle r ! k))) \<and>
     sl_applied_count r = confirmed_commands (sl_batch_lifecycle r) batches \<and>
     (sl_finalization_submission_state r \<noteq> NotAttempted \<longleftrightarrow>
        length (sl_batch_lifecycle r) = length batches \<and> (\<forall>b \<in> set (sl_batch_lifecycle r). record_success b)) \<and>
     (sl_success r \<longleftrightarrow> sl_finalization_submission_state r \<noteq> NotAttempted \<and>
        (\<exists>view. sl_finalization_job r = Some view \<and> is_terminal_success view)))"
proof -
  obtain sync_id document batches where d: "compile_import_document plan config = Inr document"
    "partition_document document max_resources max_additional = Inr batches"
    "parse_synchronization_id uuid synchronization_id = Inr sync_id"
    using assms by (auto simp: execute_sync_v2_def split_result split: sum.splits)
  show ?thesis
  proof (cases "batches = []")
    case True
    then show ?thesis using assms d by (auto simp: execute_sync_v2_def idle_result_def Let_def)
  next
    case False
    let ?blank = "idle_result plan document False sync_id (length (plan_of_type UNCHANGED plan)) True None"
    consider (no_adapter) "sl_batch_lifecycle r = []" "sl_applied_count r = 0" "\<not> sl_success r" "sl_finalization_submission_state r = NotAttempted"
      | (run) submit_batch poll_job submit_finalize w where
        "run_sync_batches sha adapter submit_batch poll_job submit_finalize ?blank batches w = (Inr r, t)"
    proof (cases "ia_submit_sync_batch adapter = None \<or> ia_poll_job adapter = None \<or> ia_submit_sync_finalize adapter = None")
      case True
      then have "r = idle_result plan document False sync_id (length (plan_of_type UNCHANGED plan)) False
          (Some ''sync_v2 requires a live Collibra adapter'')"
        using assms d False by (simp add: execute_sync_v2_def Let_def split: option.splits)
      then show thesis by (intro no_adapter) (simp_all add: idle_result_def)
    next
      case False
      then obtain submit_batch poll_job submit_finalize where ops: "ia_submit_sync_batch adapter = Some submit_batch"
        "ia_poll_job adapter = Some poll_job" "ia_submit_sync_finalize adapter = Some submit_finalize" by auto
      obtain e w where e: "prove_import_create_identifiers_absent adapter plan s = (e, w)" by fastforce
      then have "run_sync_batches sha adapter submit_batch poll_job submit_finalize ?blank batches w = (Inr r, t)"
        using assms d \<open>batches \<noteq> []\<close> by (cases e) (simp_all add: execute_sync_v2_def Let_def ops)
      then show thesis by (rule run)
    qed
    then show ?thesis
    proof cases
      case no_adapter
      then show ?thesis using d False by (auto simp: confirmed_commands_def)
    next
      case run
      obtain confirmed where c: "reports sha 0 batches (sl_batch_lifecycle r) confirmed"
        "sl_applied_count r = confirmed_commands (sl_batch_lifecycle r) batches"
        "sl_finalization_submission_state r \<noteq> NotAttempted \<longleftrightarrow> confirmed"
        "sl_success r \<longleftrightarrow> confirmed \<and> (\<exists>view. sl_finalization_job r = Some view \<and> is_terminal_success view)"
        using sync_batches_report [OF run] by (auto simp: idle_result_def)
      have all: "confirmed \<longleftrightarrow> length (sl_batch_lifecycle r) = length batches \<and> (\<forall>b \<in> set (sl_batch_lifecycle r). record_success b)"
        by (rule reports_confirmed [OF c(1)])
      have first: "length (sl_batch_lifecycle r) \<le> length batches"
        "\<forall>k < length (sl_batch_lifecycle r). br_batch_index (sl_batch_lifecycle r ! k) = k \<and>
          br_content_identity (sl_batch_lifecycle r ! k) = import_batch_content_identity sha (batches ! k) \<and>
          (Suc k < length (sl_batch_lifecycle r) \<longrightarrow> record_success (sl_batch_lifecycle r ! k))"
        using c(1) unfolding reports_def by simp_all
      show ?thesis
        by (rule exI [of _ document], rule exI [of _ batches], intro conjI disjI2 d(1,2) False first c(2))
          (use c(3,4) all in blast)+
    qed
  qed
qed

text \<open>C27 (termination). Polling a job ends when the clock never goes back and a sleep lasts at least as long
  as asked, whatever the server answers, and what it then returns is never a running job.\<close>
theorem poll_ends:
  assumes "keeps_time time poller"
  shows "\<exists>r t. poll_until_terminal poller job_id interval_seconds timeout_seconds s = Some (r, t) \<and>
    (\<forall>view. r = Inr view \<longrightarrow> jv_normalized_state view \<noteq> ''non_terminal'')"
proof (cases "validate_job_polling_policy interval_seconds timeout_seconds")
  case (Inr p)
  obtain started t where start: "po_clock poller s = (started, t)" by fastforce
  have p: "p = (interval_seconds, timeout_seconds)" "0 < interval_seconds"
    using Inr by (auto simp: validate_job_polling_policy_def validate_finite_poll_seconds_def split_result split: if_splits)
  obtain n where "timeout_seconds - (time t - started) \<le> of_nat n * interval_seconds"
    using ex_less_of_nat_mult [OF p(2)] less_imp_le by blast
  from poll_loop_ends [OF assms p(2) this] Inr p(1) start show ?thesis
    by (auto simp: poll_until_terminal_def settled_view_def)
qed (simp add: poll_until_terminal_def)

text \<open>A server that always says that the job is running, on a clock that counts the seconds slept: asked
  every second, the poller gives up after three.\<close>

definition busy_poller :: "rat Poller" where
  "busy_poller = \<lparr>po_clock = (\<lambda>s. (s, s)), po_sleep = (\<lambda>d s. s + d),
     po_fetch = (\<lambda>job_id s. (Inr (JObject [(''state'', JStr ''RUNNING'')]), s))\<rparr>"

theorem poll_ends_witness:
  "\<exists>r t. poll_until_terminal busy_poller ''j'' 1 3 0 = Some (r, t) \<and>
     (\<forall>view. r = Inr view \<longrightarrow> jv_normalized_state view \<noteq> ''non_terminal'')"
proof (rule poll_ends)
  show "keeps_time id busy_poller" by (simp add: keeps_time_def busy_poller_def)
qed

text \<open>Two batches of one command each against a server that accepts the first job and loses the second.\<close>

definition half_adapter :: "nat ImportAdapter" where
  "half_adapter = \<lparr>ad_read_remote_state = (\<lambda>d s. (Inl (TypeError []), s)), ad_create_asset = (\<lambda>a s. (Inl (TypeError []), s)),
     ad_update_asset = (\<lambda>i a m n s. (Inl (TypeError []), s)), ad_create_relationship = (\<lambda>r i j s. (Inl (TypeError []), s)),
     ia_mode = ''live'', ia_lookup = Some (\<lambda>n d s. (Inr (JArray []), s)),
     ia_submit_json_import = (\<lambda>d s. (Inl (TypeError []), s)),
     ia_poll_job = Some (\<lambda>j s. (Inr (classify_job (JObject [(''state'', JStr ''COMPLETED''), (''result'', JStr ''SUCCESS'')]) (Some j)), s)),
     ia_get_import_errors = None,
     ia_submit_sync_batch = Some (\<lambda>i d s. (Inr (if s = 0 then ''job'' else []), Suc s)),
     ia_submit_sync_finalize = Some (\<lambda>i strategy s. (Inr ''final'', s))\<rparr>"

definition half_run :: "SyncLifecycleResult result \<times> nat" where
  "half_run = execute_sync_v2 id Some half_adapter small_plan small_config True ''u'' (JInt 2) JNull 0"

theorem finalized_after_confirmation_witness:
  "\<exists>r t batches. half_run = (Inr r, t) \<and> length batches = 2 \<and> \<not> sl_success r \<and>
     sl_applied_count r = confirmed_commands (sl_batch_lifecycle r) batches"
proof -
  have run: "case half_run of (Inr r, t) \<Rightarrow> \<not> sl_success r \<and> sl_batch_lifecycle r \<noteq> [] | _ \<Rightarrow> False" by code_simp
  then obtain r t where r: "half_run = (Inr r, t)" "\<not> sl_success r" "sl_batch_lifecycle r \<noteq> []"
    by (cases half_run) (auto split: sum.splits)
  have two: "case try_in (compile_import_document small_plan small_config) (\<lambda>d. partition_document d (JInt 2) JNull) of
      Inl e \<Rightarrow> False | Inr bs \<Rightarrow> length bs = 2" by code_simp
  from finalized_after_confirmation [OF r(1) [unfolded half_run_def]] obtain document batches where
    b: "compile_import_document small_plan small_config = Inr document" "partition_document document (JInt 2) JNull = Inr batches"
    "batches = [] \<and> sl_batch_lifecycle r = [] \<or> sl_applied_count r = confirmed_commands (sl_batch_lifecycle r) batches" by blast
  with two r show ?thesis by auto
qed

end
