(* ===== verification/Drift.thy ===== *)
theory Drift
  imports Comparison_Types
begin

text \<open>
  The package \<open>drift\<close>: parsing of a drift policy, the classification of the differences of a comparison by it,
  and the drift result. The documents are parsed YAML (JSON values here); the JSON Schema validator is the
  parameter \<open>schema_errors\<close>, the diagnostics of a document. The theorem of the last section says what
  a verdict means: a difference is expected exactly when a rule selects it whose expectation holds.
\<close>

section \<open>Policies\<close>

definition drift_error :: "string \<Rightarrow> string \<Rightarrow> string \<Rightarrow> error" where
  "drift_error code path message = Diagnostics ''DriftError'' [diagnostic_error code path message]"

definition invalid_policy :: "string \<Rightarrow> string \<Rightarrow> error" where
  "invalid_policy path message = drift_error ''invalid_policy'' path message"

text \<open>\<open>expected\<close> is a dictionary with one or both sides of a property change.\<close>

record drift_expectation =
  ex_baseline :: "ComparablePropertyValue option"
  ex_candidate :: "ComparablePropertyValue option"

record NormalizedDriftRule =
  dr_id :: string
  dr_change :: change_kind
  dr_object_identity :: ComparisonObjectIdentity
  dr_property :: "string option"
  dr_expected :: "drift_expectation option"

record NormalizedDriftPolicy =
  dp_rules :: "NormalizedDriftRule list"

definition expectation_dict :: "drift_expectation \<Rightarrow> json" where
  "expectation_dict e = JObject
     ((case ex_baseline e of None \<Rightarrow> [] | Some v \<Rightarrow> [(''baseline'', property_value_dict v)]) @
      (case ex_candidate e of None \<Rightarrow> [] | Some v \<Rightarrow> [(''candidate'', property_value_dict v)]))"

type_synonym selector_key = "change_kind \<times> string \<times> string option"

definition selector_key :: "NormalizedDriftRule \<Rightarrow> selector_key" where
  "selector_key r = (dr_change r, comparison_identity_bytes (dr_object_identity r), dr_property r)"

definition PRESENCE_ONLY :: string where
  "PRESENCE_ONLY = ''__presence_only__''"

definition expectation_projection :: "NormalizedDriftRule \<Rightarrow> string" where
  "expectation_projection r =
     (case dr_expected r of None \<Rightarrow> PRESENCE_ONLY | Some e \<Rightarrow> canonical_json_bytes (expectation_dict e))"

definition rule_identity_dict :: "NormalizedDriftRule \<Rightarrow> json" where
  "rule_identity_dict r = JObject
     ([(''change'', JStr (change_name (dr_change r))), (''id'', JStr (dr_id r)),
       (''object'', comparison_identity_dict (dr_object_identity r))] @
      (case dr_property r of None \<Rightarrow> [] | Some p \<Rightarrow> [(''property'', JStr p)]) @
      (case dr_expected r of None \<Rightarrow> [] | Some e \<Rightarrow> [(''expected'', expectation_dict e)]))"

definition rule_identity_sort_key :: "NormalizedDriftRule \<Rightarrow> nat \<times> string \<times> string \<times> string \<times> string" where
  "rule_identity_sort_key r = (CHANGE_RANK (dr_change r), comparison_identity_bytes (dr_object_identity r), or_empty (dr_property r),
     (case dr_expected r of None \<Rightarrow> [] | Some e \<Rightarrow> canonical_json_bytes (expectation_dict e)), dr_id r)"

definition policy_identity_dict :: "NormalizedDriftPolicy \<Rightarrow> json" where
  "policy_identity_dict p = JObject [(''drift_policy_schema'', JStr ''governance-drift-policy''), (''drift_policy_version'', JStr ''1''),
     (''rules'', JArray (map rule_identity_dict (sort_key rule_identity_sort_key (dp_rules p))))]"

section \<open>Parsing a policy\<close>

definition rfc6901_escape_segment :: "string \<Rightarrow> string" where
  "rfc6901_escape_segment segment = replace_char CHR ''/'' [CHR 0x7E, CHR ''1''] (replace_char CHR 0x7E [CHR 0x7E, CHR ''0''] segment)"

definition join_pointer :: "string \<Rightarrow> string \<Rightarrow> string result" where
  "join_pointer base segment =
     (if base = ''/'' then Inr (CHR ''/'' # rfc6901_escape_segment segment)
      else if \<not> startswith ''/'' base then Inl (ValueError ''pointer base must start with /'')
      else Inr (base @ CHR ''/'' # rfc6901_escape_segment segment))"

definition CREDENTIAL_KEYS :: "string list" where
  "CREDENTIAL_KEYS = [''password'', ''token'', ''client_secret'']"

definition reject_extra_keys :: "(string, json) dict \<Rightarrow> string \<Rightarrow> string list \<Rightarrow> unit result" where
  "reject_extra_keys raw path allowed =
     (case sort (filter (\<lambda>k. k \<notin> set allowed) (keys raw)) of
        [] \<Rightarrow> Inr ()
      | key # _ \<Rightarrow> try_in (join_pointer path key) (\<lambda>pointer. Inl (invalid_policy pointer
          (if key \<in> set CREDENTIAL_KEYS then ''credential-shaped key is not allowed in drift policy''
           else ''unexpected field in drift policy''))))"

text \<open>\<open>tuple(value)\<close>: a string is the tuple of its characters, a dictionary that of its keys.\<close>

definition tuple_of :: "json \<Rightarrow> json list option" where
  "tuple_of v = (case v of JArray vs \<Rightarrow> Some vs | JStr s \<Rightarrow> Some (map (\<lambda>c. JStr [c]) s) | JObject kvs \<Rightarrow> Some (map (\<lambda>(k, _). JStr k) kvs)
     | _ \<Rightarrow> None)"

text \<open>\<open>None\<close> when the constructor or the access raises \<open>KeyError\<close>, \<open>TypeError\<close> or \<open>ValueError\<close>.\<close>

definition selector_identity :: "(string, json) dict \<Rightarrow> ComparisonObjectIdentity option" where
  "selector_identity object_raw =
     (case (map_of object_raw ''kind'', map_of object_raw ''path'') of
        (Some (JStr kind), Some path) \<Rightarrow>
          (case tuple_of path of
             None \<Rightarrow> None
           | Some vs \<Rightarrow> if list_all (\<lambda>v. str_of v \<noteq> None) vs
               then (case mk_comparison_identity kind (map (\<lambda>v. or_empty (str_of v)) vs) of Inl _ \<Rightarrow> None | Inr i \<Rightarrow> Some i)
               else None)
      | _ \<Rightarrow> None)"

text \<open>\<open>change not in {...}\<close> raises when \<open>change\<close> cannot be hashed.\<close>

definition parse_change :: "json \<Rightarrow> string \<Rightarrow> change_kind result" where
  "parse_change v path =
     (case v of
        JArray _ \<Rightarrow> Inl (TypeError ''unhashable type'')
      | JObject _ \<Rightarrow> Inl (TypeError ''unhashable type'')
      | _ \<Rightarrow> if v = JStr ''added'' then Inr Added else if v = JStr ''removed'' then Inr Removed
          else if v = JStr ''changed'' then Inr Changed
          else Inl (invalid_policy (path @ ''/match/change'') ''drift policy change must be added, removed, or changed''))"

definition parse_property :: "(string, json) dict \<Rightarrow> change_kind \<Rightarrow> string \<Rightarrow> string \<Rightarrow> string option result" where
  "parse_property match_raw change kind path =
     (let wrong = (\<lambda>message. Inl (invalid_policy (path @ ''/match/property'') message)) in
      case map_of match_raw ''property'' of
        None \<Rightarrow> if change = Changed then wrong ''changed drift policy rule requires property selector'' else Inr None
      | Some v \<Rightarrow>
          if change \<noteq> Changed then wrong ''property selector requires change changed''
          else (case v of
             JStr pointer \<Rightarrow>
               (case parse_path pointer of
                  Inl _ \<Rightarrow> wrong ''invalid property pointer''
                | Inr segments \<Rightarrow>
                    if to_pointer segments \<noteq> pointer then wrong ''property pointer is not canonical''
                    else if \<not> comparison_change_property_compatible_with_kind kind pointer
                    then wrong ''property is not compatible with object kind''
                    else Inr (Some pointer))
           | _ \<Rightarrow> wrong ''property selector must be a string''))"

definition normalize_comparable_value :: "json \<Rightarrow> string \<Rightarrow> ComparablePropertyValue result" where
  "normalize_comparable_value raw path =
     (case raw of
        JObject kvs \<Rightarrow>
          try_in (reject_extra_keys kvs path [''has_value'', ''value'']) (\<lambda>_.
          case (get_item kvs ''has_value'', map_of kvs ''value'') of
            (JBool True, None) \<Rightarrow> Inl (invalid_policy path ''comparable property value requires value when has_value is true'')
          | (JBool True, Some v) \<Rightarrow>
              (case try_in (validate_json_value (py_of_json v)) (\<lambda>_. normalize_json_value (py_of_json v)) of
                 Inl _ \<Rightarrow> Inl (invalid_policy (path @ ''/value'') ''expected value must be JSON-compatible'')
               | Inr w \<Rightarrow> Inr \<lparr>cv_has_value = True, cv_value = w\<rparr>)
          | (JBool False, None) \<Rightarrow> Inr missing
          | _ \<Rightarrow> Inl (invalid_policy path ''invalid comparable property value''))
      | _ \<Rightarrow> Inl (invalid_policy path ''comparable property value must be a mapping''))"

definition parse_side :: "(string, json) dict \<Rightarrow> string \<Rightarrow> string \<Rightarrow> ComparablePropertyValue option result" where
  "parse_side expected_raw path name =
     (case map_of expected_raw name of
        None \<Rightarrow> Inr None
      | Some v \<Rightarrow> try_in (normalize_comparable_value v (path @ ''/expected/'' @ name)) (\<lambda>w. Inr (Some w)))"

definition check_side :: "ComparisonObjectIdentity \<Rightarrow> string \<Rightarrow> string \<Rightarrow> string \<Rightarrow> ComparablePropertyValue option \<Rightarrow> unit result" where
  "check_side identity pointer path name side =
     (case side of
        None \<Rightarrow> Inr ()
      | Some v \<Rightarrow> require (comparable_change_value_compatible identity pointer (property_value_dict v))
          (invalid_policy (path @ ''/expected/'' @ name) ''expected value is not compatible with comparison producer contract''))"

definition sides_clash :: "drift_expectation \<Rightarrow> bool" where
  "sides_clash e = (case (ex_baseline e, ex_candidate e) of (Some l, Some r) \<Rightarrow> property_values_equal l r | _ \<Rightarrow> False)"

definition parse_expected ::
  "json \<Rightarrow> change_kind \<Rightarrow> ComparisonObjectIdentity \<Rightarrow> string option \<Rightarrow> string \<Rightarrow> drift_expectation option result" where
  "parse_expected expected_raw change identity property path =
     (if expected_raw = JNull then Inr None
      else case property of
        None \<Rightarrow> Inl (invalid_policy (path @ ''/expected'') ''expected constraints require change changed with property'')
      | Some pointer \<Rightarrow>
          if change \<noteq> Changed
          then Inl (invalid_policy (path @ ''/expected'') ''expected constraints require change changed with property'')
          else (case expected_raw of
            JObject kvs \<Rightarrow>
              try_in (reject_extra_keys kvs (path @ ''/expected'') [''baseline'', ''candidate'']) (\<lambda>_.
              if kvs = [] then Inl (invalid_policy (path @ ''/expected'') ''expected block must not be empty'')
              else try_in (parse_side kvs path ''baseline'') (\<lambda>baseline.
                   try_in (parse_side kvs path ''candidate'') (\<lambda>candidate.
                   try_in (check_side identity pointer path ''baseline'' baseline) (\<lambda>_.
                   try_in (check_side identity pointer path ''candidate'' candidate) (\<lambda>_.
                   let e = \<lparr>ex_baseline = baseline, ex_candidate = candidate\<rparr> in
                   if sides_clash e
                   then Inl (invalid_policy (path @ ''/expected'') ''expected baseline and candidate must not be equal'')
                   else Inr (Some e))))))
          | _ \<Rightarrow> Inl (invalid_policy (path @ ''/expected'') ''expected block must be a mapping'')))"

definition normalize_rule :: "json \<Rightarrow> string \<Rightarrow> NormalizedDriftRule result" where
  "normalize_rule rule_raw path =
     (case rule_raw of
        JObject rule \<Rightarrow>
          try_in (reject_extra_keys rule path [''id'', ''match'', ''expected'']) (\<lambda>_.
          case get_item rule ''id'' of
            JStr rule_id \<Rightarrow>
              if strip rule_id = [] then Inl (invalid_policy (path @ ''/id'') ''drift policy rule id must be non-empty'')
              else (case get_item rule ''match'' of
                JObject match_raw \<Rightarrow>
                  try_in (reject_extra_keys match_raw (path @ ''/match'') [''change'', ''object'', ''property'']) (\<lambda>_.
                  try_in (parse_change (get_item match_raw ''change'') path) (\<lambda>change.
                  case get_item match_raw ''object'' of
                    JObject object_raw \<Rightarrow>
                      try_in (reject_extra_keys object_raw (path @ ''/match/object'') [''kind'', ''path'']) (\<lambda>_.
                      case selector_identity object_raw of
                        None \<Rightarrow> Inl (invalid_policy (path @ ''/match/object'') ''invalid drift policy object selector'')
                      | Some identity \<Rightarrow>
                          if change \<noteq> Changed \<and> co_kind identity \<in> {''data_source'', ''database''}
                          then Inl (invalid_policy (path @ ''/match/object'') ''root object add/remove rules are not supported'')
                          else try_in (parse_property match_raw change (co_kind identity) path) (\<lambda>property.
                               try_in (parse_expected (get_item rule ''expected'') change identity property path) (\<lambda>expected.
                               Inr \<lparr>dr_id = strip rule_id, dr_change = change, dr_object_identity = identity,
                                 dr_property = property, dr_expected = expected\<rparr>)))
                  | _ \<Rightarrow> Inl (invalid_policy (path @ ''/match/object'') ''drift policy object selector must be a mapping'')))
              | _ \<Rightarrow> Inl (invalid_policy (path @ ''/match'') ''drift policy rule match must be a mapping''))
          | _ \<Rightarrow> Inl (invalid_policy (path @ ''/id'') ''drift policy rule id must be a string''))
      | _ \<Rightarrow> Inl (invalid_policy path ''drift policy rule must be a mapping''))"

text \<open>One turn of the loop over the rules: a \<open>DriftError\<close> adds its diagnostics, anything else is raised.\<close>

record policy_loop =
  pl_errors :: "diagnostic list"
  pl_rules :: "NormalizedDriftRule list"

definition policy_step :: "policy_loop \<Rightarrow> nat \<times> json \<Rightarrow> policy_loop result" where
  "policy_step s entry =
     (let (index, rule_raw) = entry; rule_path = ''/rules/'' @ str_nat index in
      case normalize_rule rule_raw rule_path of
        Inl (Diagnostics name errors) \<Rightarrow> Inr (s\<lparr>pl_errors := pl_errors s @ errors\<rparr>)
      | Inl e \<Rightarrow> Inl e
      | Inr rule \<Rightarrow>
          if dr_id rule \<in> dr_id ` set (pl_rules s)
          then Inr (s\<lparr>pl_errors := pl_errors s @ [diagnostic_error ''invalid_policy'' (rule_path @ ''/id'') ''duplicate drift policy rule id'']\<rparr>)
          else Inr (s\<lparr>pl_rules := pl_rules s @ [rule]\<rparr>))"

definition validate_selector_ambiguity :: "NormalizedDriftPolicy \<Rightarrow> unit result" where
  "validate_selector_ambiguity policy =
     (let ambiguous = filter (\<lambda>(key, rules). length (unique (map expectation_projection rules)) > 1) (group_by selector_key (dp_rules policy)) in
      if ambiguous = [] then Inr ()
      else Inl (Diagnostics ''DriftError'' (map (\<lambda>_. diagnostic_error ''ambiguous_drift_policy'' ''/rules''
        ''conflicting expectations for the same drift policy selector'') ambiguous)))"

definition parse_and_normalize_policy :: "(json \<Rightarrow> diagnostic list) \<Rightarrow> json \<Rightarrow> NormalizedDriftPolicy result" where
  "parse_and_normalize_policy schema_errors document =
     (case document of
        JObject doc \<Rightarrow>
          if schema_errors document \<noteq> [] then Inl (Diagnostics ''DriftError'' (schema_errors document))
          else try_in (reject_extra_keys doc ''/'' [''drift_schema'', ''drift_version'', ''rules'']) (\<lambda>_.
            let errors = when_error (get_item doc ''drift_schema'' \<noteq> JStr ''governance-drift-policy'') ''invalid_policy'' ''/drift_schema''
                  ''unsupported drift policy schema'' @
                when_error (get_item doc ''drift_version'' \<noteq> JStr ''1'') ''invalid_policy'' ''/drift_version''
                  ''unsupported drift policy version'' in
            case get_item doc ''rules'' of
              JArray rules_raw \<Rightarrow>
                try_in (fold_in policy_step \<lparr>pl_errors = errors, pl_rules = []\<rparr> (zip [0..<length rules_raw] rules_raw)) (\<lambda>s.
                if pl_errors s \<noteq> [] then Inl (Diagnostics ''DriftError'' (pl_errors s))
                else (let policy = \<lparr>dp_rules = pl_rules s\<rparr> in try_in (validate_selector_ambiguity policy) (\<lambda>_. Inr policy)))
            | _ \<Rightarrow> Inl (Diagnostics ''DriftError'' (errors @
                [diagnostic_error ''invalid_policy'' ''/rules'' ''drift policy rules must be an array''])))
      | _ \<Rightarrow> Inl (invalid_policy ''/'' ''drift policy root must be a mapping''))"

section \<open>Classification\<close>

datatype classification = UnexpectedDrift | ExpectedDifference

fun CLASSIFICATION_RANK :: "classification \<Rightarrow> nat" where
  "CLASSIFICATION_RANK UnexpectedDrift = 0"
| "CLASSIFICATION_RANK ExpectedDifference = 1"

fun classification_name :: "classification \<Rightarrow> string" where
  "classification_name UnexpectedDrift = ''unexpected_drift''"
| "classification_name ExpectedDifference = ''expected_difference''"

text \<open>An entry of \<open>classified_changes\<close>; \<open>ce_property\<close> holds the property with both its values.\<close>

record classified_entry =
  ce_change :: change_kind
  ce_classification :: classification
  ce_matched_rule_ids :: "string list"
  ce_object_identity :: ComparisonObjectIdentity
  ce_parent_identity :: "ComparisonObjectIdentity option"
  ce_reason :: string
  ce_property :: "property_change option"

definition build_policy_index :: "NormalizedDriftPolicy \<Rightarrow> (selector_key, NormalizedDriftRule list) dict" where
  "build_policy_index policy = group_by selector_key (dp_rules policy)"

definition expectation_projection_for_rules :: "NormalizedDriftRule list \<Rightarrow> string result" where
  "expectation_projection_for_rules rules =
     (case unique (map expectation_projection rules) of
        [p] \<Rightarrow> Inr p
      | _ \<Rightarrow> Inl (drift_error ''ambiguous_drift_policy'' ''/rules'' ''ambiguous drift policy expectations''))"

definition comparable_side_matches :: "ComparablePropertyValue \<Rightarrow> ComparablePropertyValue \<Rightarrow> bool" where
  "comparable_side_matches expected actual =
     (if cv_has_value expected \<noteq> cv_has_value actual then False
      else if \<not> cv_has_value expected then True
      else comparable_values_equal (cv_value expected) (cv_value actual))"

definition expectations_satisfied ::
  "drift_expectation option \<Rightarrow> ComparablePropertyValue \<Rightarrow> ComparablePropertyValue \<Rightarrow> bool" where
  "expectations_satisfied expected baseline candidate =
     (case expected of
        None \<Rightarrow> True
      | Some e \<Rightarrow>
          (case ex_baseline e of None \<Rightarrow> True | Some l \<Rightarrow> comparable_side_matches l baseline) \<and>
          (case ex_candidate e of None \<Rightarrow> True | Some r \<Rightarrow> comparable_side_matches r candidate))"

definition rule_ids :: "NormalizedDriftRule list \<Rightarrow> string list" where
  "rule_ids rules = sort (map dr_id rules)"

definition unmatched_entry :: "object_change \<Rightarrow> property_change option \<Rightarrow> classified_entry" where
  "unmatched_entry object_change property_change =
     \<lparr>ce_change = oc_change object_change, ce_classification = UnexpectedDrift, ce_matched_rule_ids = [],
      ce_object_identity = oc_object_identity object_change, ce_parent_identity = oc_parent_identity object_change,
      ce_reason = ''unmatched_difference'', ce_property = property_change\<rparr>"

definition expected_entry :: "object_change \<Rightarrow> property_change option \<Rightarrow> NormalizedDriftRule list \<Rightarrow> classified_entry" where
  "expected_entry object_change property_change rules =
     (unmatched_entry object_change property_change)\<lparr>ce_classification := ExpectedDifference,
        ce_matched_rule_ids := rule_ids rules, ce_reason := ''matched_policy_rule''\<rparr>"

definition classify_object_change ::
  "(selector_key, NormalizedDriftRule list) dict \<Rightarrow> object_change \<Rightarrow> classified_entry result" where
  "classify_object_change index object_change =
     (let rules = get_list index (oc_change object_change, comparison_identity_bytes (oc_object_identity object_change), None) in
      if rules = [] then Inr (unmatched_entry object_change None)
      else try_in (expectation_projection_for_rules rules) (\<lambda>projection.
        if projection \<noteq> PRESENCE_ONLY then Inl AssertionError
        else Inr (expected_entry object_change None rules)))"

definition classify_property_change ::
  "(selector_key, NormalizedDriftRule list) dict \<Rightarrow> object_change \<Rightarrow> property_change \<Rightarrow> classified_entry result" where
  "classify_property_change index object_change property_change =
     (let change = object_change\<lparr>oc_change := Changed\<rparr>;
          rules = get_list index (Changed, comparison_identity_bytes (oc_object_identity object_change), Some (pc_property property_change)) in
      if rules = [] then Inr (unmatched_entry change (Some property_change))
      else try_in (expectation_projection_for_rules rules) (\<lambda>projection.
        if projection = PRESENCE_ONLY then Inr (expected_entry change (Some property_change) rules)
        else if expectations_satisfied (dr_expected (hd rules)) (pc_baseline property_change) (pc_candidate property_change)
        then Inr (expected_entry change (Some property_change) rules)
        else Inr ((unmatched_entry change (Some property_change))\<lparr>ce_matched_rule_ids := rule_ids rules,
               ce_reason := ''expectation_mismatch''\<rparr>)))"

definition classified_sort_key :: "classified_entry \<Rightarrow> nat \<times> string \<times> nat \<times> string \<times> string" where
  "classified_sort_key e = (CLASSIFICATION_RANK (ce_classification e), comparison_identity_bytes (ce_object_identity e),
     CHANGE_RANK (ce_change e), (case ce_property e of None \<Rightarrow> [] | Some c \<Rightarrow> pc_property c), ce_reason e)"

definition classify_change ::
  "(selector_key, NormalizedDriftRule list) dict \<Rightarrow> object_change \<Rightarrow> classified_entry list result" where
  "classify_change index object_change =
     (if oc_change object_change \<noteq> Changed
      then try_in (classify_object_change index object_change) (\<lambda>e. Inr [e])
      else traverse (classify_property_change index object_change) (oc_property_changes object_change))"

definition classify_drift :: "object_change list \<Rightarrow> NormalizedDriftPolicy \<Rightarrow> classified_entry list result" where
  "classify_drift object_changes policy =
     try_in (traverse (classify_change (build_policy_index policy)) object_changes) (\<lambda>ess.
       Inr (sort_key classified_sort_key (concat ess)))"

definition derive_status :: "classified_entry list \<Rightarrow> string" where
  "derive_status classified =
     (if classified = [] then ''no_difference''
      else if list_ex (\<lambda>e. ce_classification e = UnexpectedDrift) classified then ''unexpected_drift''
      else ''expected_difference'')"

section \<open>The drift result\<close>

record drift_summary =
  dm_affected_objects :: nat
  dm_expected_differences :: nat
  dm_property_drift :: nat
  dm_unexpected_drift :: nat

definition build_summary :: "classified_entry list \<Rightarrow> drift_summary" where
  "build_summary classified = \<lparr>
     dm_affected_objects = length (unique (map (\<lambda>e. comparison_identity_bytes (ce_object_identity e)) classified)),
     dm_expected_differences = length (filter (\<lambda>e. ce_classification e = ExpectedDifference) classified),
     dm_property_drift = length (filter (\<lambda>e. ce_classification e = UnexpectedDrift \<and> ce_change e = Changed) classified),
     dm_unexpected_drift = length (filter (\<lambda>e. ce_classification e = UnexpectedDrift) classified)\<rparr>"

definition assert_status_invariants :: "string \<Rightarrow> classified_entry list \<Rightarrow> drift_summary \<Rightarrow> unit result" where
  "assert_status_invariants status classified summary =
     try_in (require (dm_expected_differences summary + dm_unexpected_drift summary = length classified)
       (ValueError ''summary counts do not match classified_changes length'')) (\<lambda>_.
     try_in (require (\<not> (status = ''expected_difference'' \<and> (classified = [] \<or> dm_unexpected_drift summary \<noteq> 0)))
       (ValueError ''expected_difference requires classified changes without unexpected drift'')) (\<lambda>_.
     require (\<not> (status = ''unexpected_drift'' \<and> dm_unexpected_drift summary = 0))
       (ValueError ''unexpected_drift requires unexpected summary count'')))"

record drift_result =
  df_classified_changes :: "classified_entry list"
  df_comparison_content_identity :: ContentIdentity
  df_drift_policy_identity :: "ContentIdentity option"
  df_status :: string
  df_summary :: drift_summary

definition classified_entry_dict :: "classified_entry \<Rightarrow> json" where
  "classified_entry_dict e = JObject
     ((case ce_property e of None \<Rightarrow> [] | Some c \<Rightarrow> [(''baseline'', property_value_dict (pc_baseline c)),
        (''candidate'', property_value_dict (pc_candidate c)), (''property'', JStr (pc_property c))]) @
      [(''change'', JStr (change_name (ce_change e))), (''classification'', JStr (classification_name (ce_classification e))),
       (''matched_rule_ids'', JArray (map JStr (ce_matched_rule_ids e))),
       (''object_identity'', comparison_identity_dict (ce_object_identity e)),
       (''parent_identity'', opt_dict comparison_identity_dict (ce_parent_identity e)), (''reason'', JStr (ce_reason e))])"

definition drift_summary_dict :: "drift_summary \<Rightarrow> json" where
  "drift_summary_dict m = JObject [(''affected_objects'', JInt (int (dm_affected_objects m))),
     (''expected_differences'', JInt (int (dm_expected_differences m))), (''property_drift'', JInt (int (dm_property_drift m))),
     (''unexpected_drift'', JInt (int (dm_unexpected_drift m)))]"

definition drift_without_identity :: "drift_result \<Rightarrow> (string \<times> json) list" where
  "drift_without_identity r = [(''classified_changes'', JArray (map classified_entry_dict (df_classified_changes r))),
     (''comparison_content_identity'', content_identity_dict (df_comparison_content_identity r)),
     (''drift_policy_identity'', opt_dict content_identity_dict (df_drift_policy_identity r)),
     (''drift_schema'', JStr ''governance-drift-result''), (''drift_version'', JStr ''1''), (''status'', JStr (df_status r)),
     (''summary'', drift_summary_dict (df_summary r)), (''writes_performed'', JInt 0)]"

definition drift_result_dict :: "(string \<Rightarrow> string) \<Rightarrow> drift_result \<Rightarrow> json" where
  "drift_result_dict sha r = JObject (drift_without_identity r @
     [(''content_identity'', content_identity_dict (sha256_identity sha DriftResultId (JObject (drift_without_identity r))))])"

definition build_drift_result ::
  "(string \<Rightarrow> string) \<Rightarrow> comparison_result \<Rightarrow> NormalizedDriftPolicy option \<Rightarrow> drift_result result" where
  "build_drift_result sha comparison policy =
     (let comparison_identity = sha256_identity sha SnapshotComparisonId (JObject (comparison_without_identity comparison));
          policy_identity = map_option (\<lambda>p. sha256_identity sha DriftPolicyId (policy_identity_dict p)) policy in
      if cr_status comparison = ''identical''
      then Inr \<lparr>df_classified_changes = [], df_comparison_content_identity = comparison_identity,
             df_drift_policy_identity = policy_identity, df_status = ''no_difference'',
             df_summary = \<lparr>dm_affected_objects = 0, dm_expected_differences = 0, dm_property_drift = 0, dm_unexpected_drift = 0\<rparr>\<rparr>
      else case policy of
        None \<Rightarrow> Inl (drift_error ''missing_drift_policy'' ''/policy'' ''drift policy is required when comparison has differences'')
      | Some p \<Rightarrow>
          try_in (classify_drift (cr_object_changes comparison) p) (\<lambda>classified.
          let status = derive_status classified; summary = build_summary classified in
          try_in (assert_status_invariants status classified summary) (\<lambda>_.
          Inr \<lparr>df_classified_changes = classified, df_comparison_content_identity = comparison_identity,
            df_drift_policy_identity = policy_identity, df_status = status, df_summary = summary\<rparr>)))"

section \<open>What parsing establishes\<close>

definition side_ok :: "ComparablePropertyValue option \<Rightarrow> bool" where
  "side_ok side \<longleftrightarrow> (case side of None \<Rightarrow> True | Some v \<Rightarrow>
     v = missing \<or> cv_has_value v \<and> wf_json (cv_value v) \<and> sorted_json (cv_value v))"

definition expectation_ok :: "drift_expectation option \<Rightarrow> bool" where
  "expectation_ok expected \<longleftrightarrow> (case expected of None \<Rightarrow> True | Some e \<Rightarrow> side_ok (ex_baseline e) \<and> side_ok (ex_candidate e))"

definition wf_drift_rule :: "NormalizedDriftRule \<Rightarrow> bool" where
  "wf_drift_rule r \<longleftrightarrow> expectation_ok (dr_expected r) \<and> (dr_change r \<noteq> Changed \<longrightarrow> dr_property r = None) \<and>
     (dr_property r = None \<longrightarrow> dr_expected r = None)"

lemma wf_member: "wf_json (JObject kvs) \<Longrightarrow> map_of kvs k = Some v \<Longrightarrow> wf_json v"
  by (auto simp: list_all_iff dest!: map_of_SomeD)

lemma wf_get_item: "wf_json (JObject kvs) \<Longrightarrow> wf_json (get_item kvs k)"
  unfolding get_item_def by (cases "map_of kvs k") (simp_all add: wf_member del: map_of_eq_Some_iff wf_json.simps(3))

lemma normalize_comparable_value_ok:
  assumes "normalize_comparable_value raw path = Inr v" "wf_json raw" shows "side_ok (Some v)"
proof -
  obtain kvs where raw: "raw = JObject kvs" using assms(1) by (cases raw) (simp_all add: normalize_comparable_value_def)
  then obtain has_value given where hv: "get_item kvs ''has_value'' = has_value" "map_of kvs ''value'' = given" by blast
  have ok: "(case (has_value, given) of
            (JBool True, None) \<Rightarrow> Inl (invalid_policy path ''comparable property value requires value when has_value is true'')
          | (JBool True, Some v) \<Rightarrow>
              (case try_in (validate_json_value (py_of_json v)) (\<lambda>_. normalize_json_value (py_of_json v)) of
                 Inl _ \<Rightarrow> Inl (invalid_policy (path @ ''/value'') ''expected value must be JSON-compatible'')
               | Inr w \<Rightarrow> Inr \<lparr>cv_has_value = True, cv_value = w\<rparr>)
          | (JBool False, None) \<Rightarrow> Inr missing
          | _ \<Rightarrow> Inl (invalid_policy path ''invalid comparable property value'')) = Inr v"
    using assms(1) unfolding raw hv [symmetric] by (simp add: normalize_comparable_value_def split_result)
  show ?thesis
  proof (cases "v = missing")
    case False
    then obtain x where "has_value = JBool True" "given = Some x"
      using ok by (cases has_value; cases given) (auto split: bool.splits)
    then show ?thesis using ok wf_member [OF assms(2) [unfolded raw]] hv(2)
      by (auto simp: normalize_py_of_json side_ok_def)
  qed (simp add: side_ok_def)
qed

lemma parse_side_ok: "parse_side kvs path name = Inr side \<Longrightarrow> wf_json (JObject kvs) \<Longrightarrow> side_ok side"
  unfolding parse_side_def
  by (cases "map_of kvs name") (auto simp: split_result side_ok_def [of None] simp del: map_of_eq_Some_iff wf_json.simps(3)
      intro: normalize_comparable_value_ok wf_member)

lemma parse_expected_ok:
  assumes "parse_expected raw change identity property path = Inr e" "wf_json raw"
  shows "expectation_ok e \<and> (property = None \<longrightarrow> e = None)"
proof (cases "raw = JNull")
  case True
  then show ?thesis using assms(1) by (simp add: parse_expected_def expectation_ok_def)
next
  case False
  then obtain pointer kvs where p: "property = Some pointer" "raw = JObject kvs"
    using assms(1) by (cases property; cases raw) (auto simp: parse_expected_def split: if_splits)
  obtain b c where "parse_side kvs path ''baseline'' = Inr b" "parse_side kvs path ''candidate'' = Inr c"
    "e = Some \<lparr>ex_baseline = b, ex_candidate = c\<rparr>"
    using assms(1) by (auto simp: parse_expected_def p split_result Let_def split: if_splits)
  then show ?thesis using parse_side_ok assms(2) p by (simp add: expectation_ok_def)
qed

lemma parse_property_change: "parse_property m change kind path = Inr property \<Longrightarrow> change \<noteq> Changed \<Longrightarrow> property = None"
  by (auto simp: parse_property_def Let_def split: option.splits)

lemma normalize_rule_ok:
  assumes "normalize_rule raw path = Inr r" "wf_json raw" shows "wf_drift_rule r"
proof -
  obtain rule where raw: "raw = JObject rule" using assms(1) by (cases raw) (simp_all add: normalize_rule_def)
  obtain i where i: "get_item rule ''id'' = JStr i"
    using assms(1) by (cases "get_item rule ''id''") (simp_all add: normalize_rule_def raw split_result)
  obtain m where m: "get_item rule ''match'' = JObject m"
    using assms(1) by (cases "get_item rule ''match''") (simp_all add: normalize_rule_def raw i split_result split: if_splits)
  obtain q where q: "get_item m ''object'' = JObject q"
    using assms(1) by (cases "get_item m ''object''") (simp_all add: normalize_rule_def raw i m split_result split: if_splits)
  obtain change identity property expected where
    "parse_property m change (co_kind identity) path = Inr property"
    "parse_expected (get_item rule ''expected'') change identity property path = Inr expected"
    "r = \<lparr>dr_id = strip i, dr_change = change, dr_object_identity = identity, dr_property = property, dr_expected = expected\<rparr>"
    using assms(1) by (auto simp: normalize_rule_def raw i m q split_result split: if_splits option.splits)
  then show ?thesis
    using parse_property_change parse_expected_ok wf_get_item [of rule "''expected''"] assms(2)
    by (auto simp: wf_drift_rule_def raw)
qed

definition unambiguous :: "NormalizedDriftRule list \<Rightarrow> bool" where
  "unambiguous rules \<longleftrightarrow> (\<forall>r \<in> set rules. \<forall>q \<in> set rules. selector_key r = selector_key q \<longrightarrow>
     expectation_projection r = expectation_projection q)"

lemma policy_rules_ok:
  assumes "fold_in policy_step s (zip ns raws) = Inr t" "list_all wf_drift_rule (pl_rules s)" "list_all wf_json raws"
  shows "list_all wf_drift_rule (pl_rules t)"
  using assms
proof (induction raws arbitrary: s ns)
  case (Cons raw raws)
  show ?case
  proof (cases ns)
    case Nil
    then show ?thesis using Cons.prems by simp
  next
    case (Cons n ns')
    then obtain u where u: "policy_step s (n, raw) = Inr u" "fold_in policy_step u (zip ns' raws) = Inr t"
      using Cons.prems(1) by (auto simp: split_result)
    have "list_all wf_drift_rule (pl_rules u)"
      using u(1) Cons.prems(2,3) normalize_rule_ok [of raw]
      by (auto simp: policy_step_def Let_def split: sum.splits error.splits if_splits)
    then show ?thesis using Cons.IH [OF u(2)] Cons.prems(3) by simp
  qed
qed simp

lemma unambiguous_iff: "validate_selector_ambiguity policy = Inr () \<longleftrightarrow> unambiguous (dp_rules policy)"
proof -
  have one: "length (unique xs) \<le> 1 \<longleftrightarrow> (\<forall>x \<in> set xs. \<forall>y \<in> set xs. x = y)" for xs :: "string list"
  proof -
    have "length (unique xs) = card (set xs)" using distinct_card [OF distinct_unique, of xs] by simp
    then show ?thesis using card_le_Suc0_iff_eq [of "set xs"] by simp
  qed
  have "validate_selector_ambiguity policy = Inr () \<longleftrightarrow>
      (\<forall>(k, g) \<in> set (group_by selector_key (dp_rules policy)). length (unique (map expectation_projection g)) \<le> 1)"
    by (simp add: validate_selector_ambiguity_def Let_def filter_empty_conv case_prod_beta not_less)
  also have "\<dots> \<longleftrightarrow> (\<forall>p \<in> set (dp_rules policy). \<forall>r \<in> {r \<in> set (dp_rules policy). selector_key r = selector_key p}.
      \<forall>q \<in> {q \<in> set (dp_rules policy). selector_key q = selector_key p}. expectation_projection r = expectation_projection q)"
    unfolding one group_by_eq by (simp del: Collect_conj_eq)
  also have "\<dots> \<longleftrightarrow> unambiguous (dp_rules policy)"
    unfolding unambiguous_def mem_Collect_eq Ball_def by metis
  finally show ?thesis .
qed

lemma parsed_policy_ok:
  assumes "parse_and_normalize_policy schema_errors document = Inr policy" "wf_json document"
  shows "list_all wf_drift_rule (dp_rules policy)" "unambiguous (dp_rules policy)"
proof -
  obtain doc where doc: "document = JObject doc" using assms(1) by (cases document) (simp_all add: parse_and_normalize_policy_def)
  obtain raws where raws: "get_item doc ''rules'' = JArray raws"
    using assms(1) by (cases "get_item doc ''rules''") (simp_all add: parse_and_normalize_policy_def doc split_result Let_def split: if_splits)
  obtain errors t where t: "fold_in policy_step \<lparr>pl_errors = errors, pl_rules = []\<rparr> (zip [0..<length raws] raws) = Inr t"
    "policy = \<lparr>dp_rules = pl_rules t\<rparr>" "validate_selector_ambiguity policy = Inr ()"
    using assms(1) unfolding parse_and_normalize_policy_def doc Let_def
    by (auto simp: raws split_result split: if_splits)
  have "list_all wf_json raws" using wf_get_item [of doc "''rules''"] assms(2) doc raws by simp
  then show "list_all wf_drift_rule (dp_rules policy)" using policy_rules_ok [OF t(1)] t(2) by simp
  show "unambiguous (dp_rules policy)" using t(3) unambiguous_iff by simp
qed

section \<open>What a verdict means\<close>

text \<open>The differences of a comparison: an object that appeared or disappeared, or one changed property.\<close>

type_synonym difference = "change_kind \<times> ComparisonObjectIdentity \<times> ComparisonObjectIdentity option \<times> property_change option"

definition differences :: "object_change list \<Rightarrow> difference list" where
  "differences changes = concat (map (\<lambda>c. map (\<lambda>p. (oc_change c, oc_object_identity c, oc_parent_identity c, p))
     (if oc_change c = Changed then map Some (oc_property_changes c) else [None])) changes)"

text \<open>A rule selects a difference by its kind, object and property; a difference is covered when some rule
  selects it and the expectation of the rule holds for its two values. The verdict on a difference follows.\<close>

definition selects :: "NormalizedDriftRule \<Rightarrow> difference \<Rightarrow> bool" where
  "selects r d \<longleftrightarrow> (case d of (change, object, parent, property) \<Rightarrow> dr_change r = change \<and> dr_object_identity r = object \<and>
     dr_property r = map_option pc_property property)"

text \<open>A side that is not mentioned may be anything; a side that is mentioned must be absent when it is expected absent, and
  else present with the value expected, as canonical JSON.\<close>

definition side_as_expected :: "ComparablePropertyValue option \<Rightarrow> ComparablePropertyValue \<Rightarrow> bool" where
  "side_as_expected expected v \<longleftrightarrow> (case expected of None \<Rightarrow> True | Some e \<Rightarrow>
     if cv_has_value e then cv_has_value v \<and> canonical_json_bytes (cv_value v) = canonical_json_bytes (cv_value e)
     else \<not> cv_has_value v)"

definition expectation_holds :: "NormalizedDriftRule \<Rightarrow> difference \<Rightarrow> bool" where
  "expectation_holds r d \<longleftrightarrow> (case (d, dr_expected r) of
       ((_, _, _, Some c), Some e) \<Rightarrow> side_as_expected (ex_baseline e) (pc_baseline c) \<and> side_as_expected (ex_candidate e) (pc_candidate c)
     | _ \<Rightarrow> True)"

lemma expectations_satisfied_iff:
  "expectations_satisfied expected baseline candidate \<longleftrightarrow> (case expected of None \<Rightarrow> True
     | Some e \<Rightarrow> side_as_expected (ex_baseline e) baseline \<and> side_as_expected (ex_candidate e) candidate)"
proof -
  have "side_as_expected (Some e) v \<longleftrightarrow> comparable_side_matches e v" for e v
    by (auto simp: side_as_expected_def comparable_side_matches_def comparable_values_equal_def canonical_value_fingerprint_def)
  moreover have "side_as_expected None v" for v by (simp add: side_as_expected_def)
  ultimately show ?thesis by (simp add: expectations_satisfied_def split: option.split)
qed

definition selecting :: "NormalizedDriftPolicy \<Rightarrow> difference \<Rightarrow> NormalizedDriftRule list" where
  "selecting policy d = filter (\<lambda>r. selects r d) (dp_rules policy)"

definition covered :: "NormalizedDriftPolicy \<Rightarrow> difference \<Rightarrow> bool" where
  "covered policy d \<longleftrightarrow> (\<exists>r \<in> set (selecting policy d). expectation_holds r d)"

definition verdict :: "NormalizedDriftPolicy \<Rightarrow> difference \<Rightarrow> classified_entry" where
  "verdict policy d = (case d of (change, object, parent, property) \<Rightarrow>
     \<lparr>ce_change = change, ce_classification = (if covered policy d then ExpectedDifference else UnexpectedDrift),
      ce_matched_rule_ids = sort (map dr_id (selecting policy d)), ce_object_identity = object, ce_parent_identity = parent,
      ce_reason = (if covered policy d then ''matched_policy_rule''
        else if selecting policy d = [] then ''unmatched_difference'' else ''expectation_mismatch''),
      ce_property = property\<rparr>)"

lemma side_dict:
  assumes "side_ok (Some v)" shows "wf_json (property_value_dict v)" "sorted_json (property_value_dict v)"
  using assms by (auto simp: side_ok_def property_value_dict_def missing_def less_char_def)

lemma side_dict_inj: "side_ok (Some v) \<Longrightarrow> side_ok (Some w) \<Longrightarrow> property_value_dict v = property_value_dict w \<Longrightarrow> v = w"
  by (auto simp: side_ok_def property_value_dict_def missing_def split: if_splits)

lemma expectation_dict_inj:
  assumes "expectation_ok (Some e)" "expectation_ok (Some f)"
    "canonical_json_bytes (expectation_dict e) = canonical_json_bytes (expectation_dict f)"
  shows "e = f"
proof -
  have dict: "wf_json (expectation_dict e)" "sorted_json (expectation_dict e)" if "expectation_ok (Some e)" for e
    using that side_dict by (auto simp: expectation_dict_def expectation_ok_def split: option.splits)
  have "expectation_dict e = expectation_dict f" using canonical_json_bytes_inj dict assms by blast
  then have "ex_baseline e = ex_baseline f" "ex_candidate e = ex_candidate f"
    using assms(1,2) side_dict_inj by (auto simp: expectation_dict_def expectation_ok_def split: option.splits)
  then show ?thesis by (cases e; cases f) simp
qed

lemma projection_determines:
  assumes "wf_drift_rule r" "wf_drift_rule q" "expectation_projection r = expectation_projection q"
  shows "dr_expected r = dr_expected q"
proof -
  have "canonical_json_bytes (expectation_dict e) \<noteq> PRESENCE_ONLY" for e
    by (simp add: expectation_dict_def PRESENCE_ONLY_def)
  then show ?thesis using assms expectation_dict_inj
    by (auto simp: expectation_projection_def wf_drift_rule_def split: option.splits) metis+
qed

definition good_policy :: "NormalizedDriftPolicy \<Rightarrow> bool" where
  "good_policy policy \<longleftrightarrow> list_all wf_drift_rule (dp_rules policy) \<and> unambiguous (dp_rules policy)"

lemma index_selecting:
  "get_list (build_policy_index policy) (change, comparison_identity_bytes object, map_option pc_property property) =
     selecting policy (change, object, parent, property)"
  unfolding build_policy_index_def get_group_by selecting_def
  by (rule filter_cong) (auto simp: selector_key_def selects_def comparison_identity_bytes_inj)

lemma selecting_rules:
  assumes "good_policy policy" "r \<in> set (selecting policy d)" "q \<in> set (selecting policy d)"
  shows "dr_expected r = dr_expected q" "expectation_projection r = expectation_projection q" "wf_drift_rule r"
proof -
  have sel: "r \<in> set (dp_rules policy)" "q \<in> set (dp_rules policy)" "selector_key r = selector_key q"
    using assms(2,3) by (cases d; auto simp: selecting_def selects_def selector_key_def)+
  then show proj: "expectation_projection r = expectation_projection q"
    using assms(1) unfolding good_policy_def unambiguous_def by blast
  show "wf_drift_rule r" using assms(1) sel(1) by (simp add: good_policy_def list_all_iff)
  moreover have "wf_drift_rule q" using assms(1) sel(2) by (simp add: good_policy_def list_all_iff)
  ultimately show "dr_expected r = dr_expected q" using projection_determines proj by blast
qed

lemma projection_for_selecting:
  assumes "good_policy policy" "selecting policy d = r # rs"
  shows "expectation_projection_for_rules (r # rs) = Inr (expectation_projection r)"
    "covered policy d \<longleftrightarrow> expectation_holds r d"
proof -
  have same: "expectation_projection q = expectation_projection r" "dr_expected q = dr_expected r" if "q \<in> set (r # rs)" for q
    by (rule selecting_rules [OF assms(1), of q d r]; use that assms(2) in simp)+
  have "set (map expectation_projection (r # rs)) = {expectation_projection r}" unfolding set_map
    by (intro equalityI image_subsetI subsetI; use same(1) in fastforce)
  then have "set (unique (map expectation_projection (r # rs))) = {expectation_projection r}"
    "length (unique (map expectation_projection (r # rs))) = 1"
    using distinct_card [OF distinct_unique, of "map expectation_projection (r # rs)"] by (simp_all only: set_unique card_1_singleton_iff) auto
  then have "unique (map expectation_projection (r # rs)) = [expectation_projection r]"
    by (cases "unique (map expectation_projection (r # rs))") (simp_all del: list.map set_unique)
  then show "expectation_projection_for_rules (r # rs) = Inr (expectation_projection r)"
    by (simp add: expectation_projection_for_rules_def del: list.map)
  show "covered policy d \<longleftrightarrow> expectation_holds r d"
  proof -
    have "expectation_holds q d \<longleftrightarrow> expectation_holds r d" if "q \<in> set (r # rs)" for q
      by (simp only: expectation_holds_def same(2) [OF that])
    then show ?thesis unfolding covered_def assms(2) by (meson list.set_intros(1))
  qed
qed

lemma presence_only_iff: "expectation_projection r = PRESENCE_ONLY \<longleftrightarrow> dr_expected r = None"
  by (simp add: expectation_projection_def expectation_dict_def PRESENCE_ONLY_def split: option.splits)

lemma classify_object_verdict:
  assumes "good_policy policy" "oc_change c \<noteq> Changed"
  shows "classify_object_change (build_policy_index policy) c =
    Inr (verdict policy (oc_change c, oc_object_identity c, oc_parent_identity c, None))" (is "_ = Inr (verdict policy ?d)")
proof -
  note index = index_selecting [of policy "oc_change c" "oc_object_identity c" None, simplified]
  show ?thesis
  proof (cases "selecting policy ?d")
    case Nil
    then show ?thesis
      by (simp add: classify_object_change_def index [of "oc_parent_identity c"] verdict_def covered_def unmatched_entry_def)
  next
    case (Cons r rs)
    have r: "wf_drift_rule r" "selects r ?d"
      using selecting_rules(3) [OF assms(1), of r ?d r] Cons by (auto simp: selecting_def filter_eq_Cons_iff)
    then have "dr_expected r = None" by (simp add: wf_drift_rule_def selects_def)
    moreover have "covered policy ?d" using projection_for_selecting(2) [OF assms(1) Cons] by (simp add: expectation_holds_def)
    ultimately show ?thesis
      using projection_for_selecting(1) [OF assms(1) Cons]
      by (simp add: classify_object_change_def index [of "oc_parent_identity c"] Cons verdict_def expected_entry_def
          unmatched_entry_def rule_ids_def presence_only_iff)
  qed
qed

lemma classify_property_verdict:
  assumes "good_policy policy"
  shows "classify_property_change (build_policy_index policy) c p =
    Inr (verdict policy (Changed, oc_object_identity c, oc_parent_identity c, Some p))" (is "_ = Inr (verdict policy ?d)")
proof -
  note index = index_selecting [of policy Changed "oc_object_identity c" "Some p", simplified]
  show ?thesis
  proof (cases "selecting policy ?d")
    case Nil
    then show ?thesis
      by (simp add: classify_property_change_def Let_def index [of "oc_parent_identity c"] verdict_def covered_def
          unmatched_entry_def)
  next
    case (Cons r rs)
    then show ?thesis
      using projection_for_selecting [OF assms Cons]
      by (simp add: classify_property_change_def Let_def index [of "oc_parent_identity c"] verdict_def expected_entry_def
          unmatched_entry_def rule_ids_def presence_only_iff expectation_holds_def expectations_satisfied_iff
          split: option.splits)
  qed
qed

lemma classify_change_verdict:
  assumes "good_policy policy"
  shows "classify_change (build_policy_index policy) c = Inr (map (verdict policy) (differences [c]))"
proof (cases "oc_change c = Changed")
  case True
  then show ?thesis
    using traverse_Inr_map [OF classify_property_verdict [OF assms, of c]]
    by (simp add: classify_change_def differences_def comp_def)
qed (simp add: classify_change_def differences_def classify_object_verdict assms)

lemma classify_drift_verdict:
  assumes "good_policy policy"
  shows "classify_drift changes policy = Inr (sort_key classified_sort_key (map (verdict policy) (differences changes)))"
proof -
  have "concat (map (\<lambda>c. map (verdict policy) (differences [c])) changes) = map (verdict policy) (differences changes)"
    by (induction changes) (simp_all add: differences_def)
  then show ?thesis
    using traverse_Inr_map [of changes "classify_change (build_policy_index policy)", OF classify_change_verdict [OF assms]]
    by (simp add: classify_drift_def)
qed

lemma derive_status_verdict:
  "derive_status (sort_key f (map (verdict policy) ds)) =
     (if ds = [] then ''no_difference'' else if \<forall>d \<in> set ds. covered policy d then ''expected_difference'' else ''unexpected_drift'')"
proof -
  have "ce_classification (verdict policy d) = UnexpectedDrift \<longleftrightarrow> \<not> covered policy d" for d
    by (cases d) (simp add: verdict_def)
  moreover have "sort_key f (map (verdict policy) ds) = [] \<longleftrightarrow> ds = []"
    by (metis length_0_conv length_map length_sort)
  ultimately show ?thesis by (auto simp: derive_status_def list_ex_iff)
qed

lemma status_invariants_hold: "assert_status_invariants (derive_status cs) cs (build_summary cs) = Inr ()"
proof -
  have "length (filter (\<lambda>e. ce_classification e = ExpectedDifference) cs) +
    length (filter (\<lambda>e. ce_classification e = UnexpectedDrift) cs) = length cs"
  proof (induction cs)
    case (Cons e cs)
    then show ?case by (cases "ce_classification e") simp_all
  qed simp
  then have count: "dm_expected_differences (build_summary cs) + dm_unexpected_drift (build_summary cs) = length cs"
    by (simp add: build_summary_def)
  have zero: "dm_unexpected_drift (build_summary cs) = 0 \<longleftrightarrow> \<not> list_ex (\<lambda>e. ce_classification e = UnexpectedDrift) cs"
    by (simp add: build_summary_def list_ex_iff filter_empty_conv)
  show ?thesis
    by (simp add: assert_status_invariants_def derive_status_def count zero require_def del: list_ex_iff)
qed

lemma summary_verdict:
  "dm_expected_differences (build_summary (sort_key f (map (verdict policy) ds))) = length (filter (covered policy) ds)"
  "dm_unexpected_drift (build_summary (sort_key f (map (verdict policy) ds))) = length (filter (\<lambda>d. \<not> covered policy d) ds)"
proof -
  have "ce_classification (verdict policy d) = (if covered policy d then ExpectedDifference else UnexpectedDrift)" for d
    by (cases d) (simp add: verdict_def)
  then show "dm_expected_differences (build_summary (sort_key f (map (verdict policy) ds))) = length (filter (covered policy) ds)"
    "dm_unexpected_drift (build_summary (sort_key f (map (verdict policy) ds))) = length (filter (\<lambda>d. \<not> covered policy d) ds)"
    by (simp_all add: build_summary_def filter_sort filter_map comp_def)
qed

lemma unexpected_first:
  "sorted_wrt (\<lambda>a b. ce_classification a = ExpectedDifference \<longrightarrow> ce_classification b = ExpectedDifference) (sort_key classified_sort_key es)"
proof -
  have "sorted_wrt (\<lambda>a b. classified_sort_key a \<le> classified_sort_key b) (sort_key classified_sort_key es)"
    using sorted_sort_key [of classified_sort_key es] by (simp only: sorted_map)
  moreover have "ce_classification b = ExpectedDifference"
    if "classified_sort_key a \<le> classified_sort_key b" "ce_classification a = ExpectedDifference" for a b
    using that by (cases "ce_classification b") (simp_all add: classified_sort_key_def)
  ultimately show ?thesis by (auto elim: sorted_wrt_mono_rel [rotated])
qed

section \<open>Properties\<close>

text \<open>C35 (functional). For a policy document that parses, a comparison that is not identical always gets a drift
  result: its entries are the verdicts on the differences of the comparison in sort order, the unexpected ones first, each
  expected exactly when a rule with the kind, object and property of the difference exists whose expectation holds for the two
  values (every side it mentions is absent as expected, or present with the expected value), with the identifiers of all rules that
  select it; the summary counts both kinds, and the status is \<open>expected_difference\<close> only when every
  difference is covered. Two rules with one selector never disagree, so which of them is read first is
  irrelevant, and the assertions of the code never fail.\<close>

theorem drift_verdict:
  assumes "parse_and_normalize_policy schema_errors document = Inr policy" "wf_json document"
    "cr_status comparison \<noteq> ''identical''"
  shows "\<exists>r. build_drift_result sha comparison (Some policy) = Inr r \<and>
     df_classified_changes r = sort_key classified_sort_key (map (verdict policy) (differences (cr_object_changes comparison))) \<and>
     sorted_wrt (\<lambda>a b. ce_classification a = ExpectedDifference \<longrightarrow> ce_classification b = ExpectedDifference) (df_classified_changes r) \<and>
     dm_expected_differences (df_summary r) = length (filter (covered policy) (differences (cr_object_changes comparison))) \<and>
     dm_unexpected_drift (df_summary r) = length (filter (\<lambda>d. \<not> covered policy d) (differences (cr_object_changes comparison))) \<and>
     df_status r = (if differences (cr_object_changes comparison) = [] then ''no_difference''
       else if \<forall>d \<in> set (differences (cr_object_changes comparison)). covered policy d then ''expected_difference''
       else ''unexpected_drift'')"
proof -
  have "good_policy policy" using parsed_policy_ok [OF assms(1,2)] by (simp add: good_policy_def)
  note classified = classify_drift_verdict [OF this, of "cr_object_changes comparison"]
  show ?thesis
    by (simp add: build_drift_result_def Let_def assms(3) classified status_invariants_hold derive_status_verdict summary_verdict
        unexpected_first del: sort_key_def)
qed

text \<open>A policy that expects one column to become nullable and another one not to, and a comparison in which both do and a table is
  new.\<close>

definition nullable_rule :: "string \<Rightarrow> string \<Rightarrow> bool \<Rightarrow> json" where
  "nullable_rule i column v = JObject [(''id'', JStr i),
       (''match'', JObject [(''change'', JStr ''changed''),
         (''object'', JObject [(''kind'', JStr ''column''), (''path'', JArray [JStr ''s'', JStr ''t'', JStr column])]),
         (''property'', JStr ''/nullable'')]),
       (''expected'', JObject [(''candidate'', JObject [(''has_value'', JBool True), (''value'', JBool v)])])]"

definition nullable_policy :: json where
  "nullable_policy = JObject [(''drift_schema'', JStr ''governance-drift-policy''), (''drift_version'', JStr ''1''),
     (''rules'', JArray [nullable_rule '' allow-null '' ''c'' True, nullable_rule ''stay'' ''d'' False])]"

definition became_nullable :: "string \<Rightarrow> object_change" where
  "became_nullable column = \<lparr>oc_change = Changed, oc_object_identity = \<lparr>co_kind = ''column'', co_path = [''s'', ''t'', column]\<rparr>,
     oc_parent_identity = Some \<lparr>co_kind = ''table'', co_path = [''s'', ''t'']\<rparr>,
     oc_property_changes = [\<lparr>pc_baseline = \<lparr>cv_has_value = True, cv_value = JBool False\<rparr>,
       pc_candidate = \<lparr>cv_has_value = True, cv_value = JBool True\<rparr>, pc_property = ''/nullable''\<rparr>]\<rparr>"

definition nullable_comparison :: comparison_result where
  "nullable_comparison = \<lparr>cr_baseline = JNull, cr_candidate = JNull, cr_object_changes =
     [\<lparr>oc_change = Added, oc_object_identity = \<lparr>co_kind = ''table'', co_path = [''s'', ''u'']\<rparr>,
       oc_parent_identity = Some \<lparr>co_kind = ''schema'', co_path = [''s'']\<rparr>, oc_property_changes = []\<rparr>,
      became_nullable ''c'', became_nullable ''d''],
     cr_root_alignment = \<lparr>ra_source = None, ra_database = None\<rparr>, cr_status = ''different'',
     cr_summary = \<lparr>sm_added = 1, sm_removed = 0, sm_changed = 2, sm_unchanged = 3, sm_property_changes = 2\<rparr>\<rparr>"

lemma drift_verdict_witness:
  "\<exists>policy r. parse_and_normalize_policy (\<lambda>_. []) nullable_policy = Inr policy \<and>
     build_drift_result (\<lambda>_. ''d'') nullable_comparison (Some policy) = Inr r \<and> df_status r = ''unexpected_drift'' \<and>
     map ce_reason (df_classified_changes r) = [''expectation_mismatch'', ''unmatched_difference'', ''matched_policy_rule''] \<and>
     dm_expected_differences (df_summary r) = 1 \<and> dm_unexpected_drift (df_summary r) = 2"
proof -
  let ?p = "case parse_and_normalize_policy (\<lambda>_. []) nullable_policy of Inr p \<Rightarrow> p | Inl _ \<Rightarrow> \<lparr>dp_rules = []\<rparr>"
  let ?ds = "differences (cr_object_changes nullable_comparison)"
  have p: "parse_and_normalize_policy (\<lambda>_. []) nullable_policy = Inr ?p" "wf_json nullable_policy"
    "cr_status nullable_comparison \<noteq> ''identical''" by code_simp+
  have "map ce_reason (sort_key classified_sort_key (map (verdict ?p) ?ds)) =
      [''expectation_mismatch'', ''unmatched_difference'', ''matched_policy_rule'']"
    "(if ?ds = [] then ''no_difference'' else if \<forall>d \<in> set ?ds. covered ?p d then ''expected_difference''
       else ''unexpected_drift'') = ''unexpected_drift''"
    "length (filter (covered ?p) ?ds) = 1" "length (filter (\<lambda>d. \<not> covered ?p d) ?ds) = 2" by code_simp+
  then show ?thesis using drift_verdict [OF p, of "\<lambda>_. ''d''"] p(1) by metis
qed

end
