(* ===== verification/History.thy ===== *)
theory History
  imports Comparison_Types
begin

text \<open>
  The package \<open>history\<close>, first part: \<open>history/models.py\<close> with the normalization of paths, labels and timestamps, and the
  parser of a persisted history in \<open>history/load.py\<close> from its parsed JSON on (the JSON Schema validator is the
  parameter \<open>schema_errors\<close>). The properties: a history in normal form is loaded back from its dictionary, and
  what the parser accepts is in normal form up to its paths.
\<close>

section \<open>Errors\<close>

definition history_failure :: "string \<Rightarrow> string \<Rightarrow> string \<Rightarrow> error" where
  "history_failure code path message = Diagnostics ''HistoryError'' [diagnostic_error code path message]"

definition invalid_history :: "string \<Rightarrow> string \<Rightarrow> error" where
  "invalid_history path message = history_failure ''invalid_history_artifact'' path message"

section \<open>Paths, labels and timestamps\<close>

text \<open>\<open>str.upper\<close> and \<open>str.casefold\<close> on the code points of the model; the few characters whose upper case or folding
  lies outside of them are kept, since both results are only compared with ASCII strings.\<close>

definition upper_char :: "char \<Rightarrow> string" where
  "upper_char c = (let n = (of_char c :: nat) in
     if n = 223 then ''SS''
     else if 97 \<le> n \<and> n \<le> 122 \<or> 224 \<le> n \<and> n \<le> 254 \<and> n \<noteq> 247 then [char_of (n - 32)] else [c])"

definition py_upper :: "string \<Rightarrow> string" where
  "py_upper s = concat (map upper_char s)"

definition casefold_char :: "char \<Rightarrow> string" where
  "casefold_char c = (if (of_char c :: nat) = 223 then ''ss'' else [lower_char c])"

definition casefold :: "string \<Rightarrow> string" where
  "casefold s = concat (map casefold_char s)"

text \<open>\<open>PurePosixPath(text).parts\<close> of a relative path: the segments that are neither empty nor a dot.\<close>

definition posix_parts :: "string \<Rightarrow> string list" where
  "posix_parts text = filter (\<lambda>part. part \<notin> {[], ''.''}) (split_on CHR ''/'' text)"

definition normalize_history_relative_path :: "json \<Rightarrow> string \<Rightarrow> string result" where
  "normalize_history_relative_path raw path =
     (case raw of
        JStr s \<Rightarrow>
          if strip s = [] then Inl (invalid_history path ''path must be a non-empty relative string'')
          else if CHR 0x00 \<in> set s then Inl (invalid_history path ''path must not contain NUL'')
          else (let text = replace_char CHR 0x5C ''/'' (strip s) in
            if startswith ''//'' text then Inl (invalid_history path ''UNC paths are not allowed'')
            else if startswith ''/'' text then Inl (invalid_history path ''absolute paths are not allowed'')
            else if length text \<ge> 2 \<and> text ! 1 = CHR '':'' then Inl (invalid_history path ''drive-qualified paths are not allowed'')
            else if \<exists>part \<in> set (posix_parts text). py_upper part = ''NUL''
            then Inl (invalid_history path ''NUL device paths are not allowed'')
            else if posix_parts text = [] then Inl (invalid_history path ''path must be a non-empty relative string'')
            else Inr (join [CHR ''/''] (posix_parts text)))
      | _ \<Rightarrow> Inl (invalid_history path ''path must be a non-empty relative string''))"

definition MAX_LABELS :: nat where "MAX_LABELS = 32"
definition MAX_LABEL_KEY_LEN :: nat where "MAX_LABEL_KEY_LEN = 64"
definition MAX_LABEL_VALUE_LEN :: nat where "MAX_LABEL_VALUE_LEN = 256"

definition RESERVED_LABEL_KEYS :: "string list" where
  "RESERVED_LABEL_KEYS = [''password'', ''token'', ''client_secret'', ''authorization'', ''credentials'', ''api_key'', ''secret'']"

type_synonym labels = "(string, string) dict"

definition add_label :: "string \<Rightarrow> labels \<Rightarrow> string \<times> json \<Rightarrow> labels result" where
  "add_label path normalized entry =
     (case entry of
        (raw_key, JStr raw_value) \<Rightarrow>
          (let key = strip raw_key; value = strip raw_value in
           if key = [] \<or> value = [] then Inl (invalid_history path ''label keys and values must be non-empty after trim'')
           else if casefold key \<in> set RESERVED_LABEL_KEYS then Inl (invalid_history path ''label key is reserved'')
           else if length key > MAX_LABEL_KEY_LEN then Inl (invalid_history path ''label key exceeds maximum length of 64'')
           else if length value > MAX_LABEL_VALUE_LEN then Inl (invalid_history path ''label value exceeds maximum length of 256'')
           else if key \<in> set (keys normalized) then Inl (invalid_history path ''duplicate label key after trim'')
           else Inr (normalized @ [(key, value)]))
      | _ \<Rightarrow> Inl (invalid_history path ''label keys and values must be strings''))"

definition normalize_labels :: "json \<Rightarrow> string \<Rightarrow> labels option result" where
  "normalize_labels labels path =
     (case labels of
        JNull \<Rightarrow> Inr None
      | JObject kvs \<Rightarrow>
          if length kvs > MAX_LABELS then Inl (invalid_history path ''labels exceed maximum of 32 entries'')
          else try_in (fold_in (add_label path) [] kvs) (\<lambda>normalized. Inr (Some normalized))
      | _ \<Rightarrow> Inl (invalid_history path ''labels must be a mapping''))"

text \<open>The regular expression \<open>YYYY-MM-DDThh:mm:ss[.f]Z\<close> and then \<open>strptime\<close>, which wants an existing date and time.\<close>

definition digits_at :: "string \<Rightarrow> nat list \<Rightarrow> bool" where
  "digits_at s positions \<longleftrightarrow> list_all (\<lambda>i. is_digit (s ! i)) positions"

definition matches_captured_at :: "string \<Rightarrow> bool" where
  "matches_captured_at s \<longleftrightarrow> length s \<ge> 20 \<and> digits_at s [0, 1, 2, 3, 5, 6, 8, 9, 11, 12, 14, 15, 17, 18] \<and>
     s ! 4 = CHR ''-'' \<and> s ! 7 = CHR ''-'' \<and> s ! 10 = CHR ''T'' \<and> s ! 13 = CHR '':'' \<and> s ! 16 = CHR '':'' \<and>
     last s = CHR ''Z'' \<and>
     (case butlast (drop 19 s) of [] \<Rightarrow> True | c # frac \<Rightarrow> c = CHR ''.'' \<and> frac \<noteq> [] \<and> list_all is_digit frac)"

definition number_at :: "string \<Rightarrow> nat \<Rightarrow> nat \<Rightarrow> nat" where
  "number_at s start n = nat_of_digits 0 (take n (drop start s))"

definition is_leap_year :: "nat \<Rightarrow> bool" where
  "is_leap_year y \<longleftrightarrow> 4 dvd y \<and> (\<not> 100 dvd y \<or> 400 dvd y)"

definition days_in_month :: "nat \<Rightarrow> nat \<Rightarrow> nat" where
  "days_in_month y m = (if m = 2 then if is_leap_year y then 29 else 28 else if m \<in> {4, 6, 9, 11} then 30 else 31)"

definition is_date_time :: "string \<Rightarrow> bool" where
  "is_date_time s \<longleftrightarrow> (let y = number_at s 0 4; m = number_at s 5 2; d = number_at s 8 2 in
     1 \<le> y \<and> 1 \<le> m \<and> m \<le> 12 \<and> 1 \<le> d \<and> d \<le> days_in_month y m \<and>
     number_at s 11 2 < 24 \<and> number_at s 14 2 < 60 \<and> number_at s 17 2 < 60)"

definition validate_captured_at :: "json \<Rightarrow> string \<Rightarrow> string option result" where
  "validate_captured_at raw path =
     (case raw of
        JNull \<Rightarrow> Inr None
      | JStr s \<Rightarrow> if matches_captured_at s \<and> is_date_time s then Inr (Some s)
          else Inl (invalid_history path ''captured_at must be an RFC3339 UTC timestamp'')
      | _ \<Rightarrow> Inl (invalid_history path ''captured_at must be an RFC3339 UTC timestamp''))"

definition parse_content_identity :: "json \<Rightarrow> string \<Rightarrow> ContentIdentity result" where
  "parse_content_identity raw path =
     (case raw of
        JObject kvs \<Rightarrow>
          if set (keys kvs) \<noteq> {''algorithm'', ''digest'', ''hashing_contract_version''}
          then Inl (invalid_history path ''invalid content_identity'')
          else (case (get_item kvs ''algorithm'', get_item kvs ''hashing_contract_version'', get_item kvs ''digest'') of
            (JStr algorithm, JStr version, JStr digest) \<Rightarrow>
              if algorithm = [] \<or> version = [] \<or> digest = [] then Inl (invalid_history path ''invalid content_identity'')
              else Inr \<lparr>ci_algorithm = algorithm, ci_hashing_contract_version = version, ci_digest = digest\<rparr>
          | _ \<Rightarrow> Inl (invalid_history path ''invalid content_identity''))
      | _ \<Rightarrow> Inl (invalid_history path ''invalid content_identity''))"

section \<open>Histories\<close>

record ComparisonPolicy =
  cp_align_source_roots :: bool
  cp_align_database_roots :: bool

definition comparison_policy_dict :: "ComparisonPolicy \<Rightarrow> json" where
  "comparison_policy_dict p = JObject [(''align_database_roots'', JBool (cp_align_database_roots p)),
     (''align_source_roots'', JBool (cp_align_source_roots p))]"

record HistoryEntryState =
  hs_snapshot :: ContentIdentity
  hs_labels :: "labels option"
  hs_context :: "(string, json) dict option"

definition labels_dict :: "labels \<Rightarrow> json" where
  "labels_dict labels = JObject (map (\<lambda>(k, v). (k, JStr v)) labels)"

definition entry_state_dict :: "HistoryEntryState \<Rightarrow> json" where
  "entry_state_dict s = JObject ((''snapshot'', content_identity_dict (hs_snapshot s)) #
     (case hs_labels s of None \<Rightarrow> [] | Some labels \<Rightarrow> [(''labels'', labels_dict labels)]) @
     (case hs_context s of None \<Rightarrow> [] | Some context \<Rightarrow> [(''context'', JObject context)]))"

definition entry_state_identity :: "(string \<Rightarrow> string) \<Rightarrow> HistoryEntryState \<Rightarrow> ContentIdentity" where
  "entry_state_identity sha s = sha256_identity sha HistoryEntryStateId (entry_state_dict s)"

datatype context_form = NoContext | ProvenanceContext | FullContext

definition context_form :: "HistoryEntryState \<Rightarrow> context_form result" where
  "context_form s =
     (case hs_context s of
        None \<Rightarrow> Inr NoContext
      | Some context \<Rightarrow>
          if set (keys context) = {''observations''} then Inr ProvenanceContext
          else if set (keys context) = {''observations'', ''authority'', ''conflicts''} then Inr FullContext
          else Inl (invalid_history ''/context'' ''invalid history context form''))"

record HistoryOperator =
  ho_snapshot_path :: string
  ho_observations_path :: "string option"
  ho_authority_paths :: "string list option"

definition operator_dict :: "HistoryOperator \<Rightarrow> json" where
  "operator_dict op = JObject ((''snapshot_path'', JStr (ho_snapshot_path op)) #
     (case ho_observations_path op of None \<Rightarrow> [] | Some p \<Rightarrow> [(''observations_path'', JStr p)]) @
     (case ho_authority_paths op of None \<Rightarrow> [] | Some ps \<Rightarrow> [(''authority_paths'', JArray (map JStr ps))]))"

record HistoryEntry =
  he_state :: HistoryEntryState
  he_operator :: HistoryOperator
  he_captured_at :: "string option"

definition entry_persisted_dict :: "HistoryEntry \<Rightarrow> json" where
  "entry_persisted_dict e = JObject ([(''operator'', operator_dict (he_operator e)), (''state'', entry_state_dict (he_state e))] @
     (case he_captured_at e of None \<Rightarrow> [] | Some t \<Rightarrow> [(''captured_at'', JStr t)]))"

record GovernanceHistory =
  gh_comparison_policy :: ComparisonPolicy
  gh_entries :: "HistoryEntry list"

definition history_canonical_dict :: "GovernanceHistory \<Rightarrow> json" where
  "history_canonical_dict h = JObject [(''comparison_policy'', comparison_policy_dict (gh_comparison_policy h)),
     (''entries'', JArray (map (\<lambda>e. JObject [(''state'', entry_state_dict (he_state e))]) (gh_entries h))),
     (''history_schema'', JStr ''governance-history''), (''history_version'', JStr ''1'')]"

definition history_content_identity :: "(string \<Rightarrow> string) \<Rightarrow> GovernanceHistory \<Rightarrow> ContentIdentity" where
  "history_content_identity sha h = sha256_identity sha HistoryId (history_canonical_dict h)"

definition history_to_dict :: "(string \<Rightarrow> string) \<Rightarrow> GovernanceHistory \<Rightarrow> json" where
  "history_to_dict sha h = JObject [(''comparison_policy'', comparison_policy_dict (gh_comparison_policy h)),
     (''entries'', JArray (map entry_persisted_dict (gh_entries h))),
     (''history_schema'', JStr ''governance-history''), (''history_version'', JStr ''1''),
     (''content_identity'', content_identity_dict (history_content_identity sha h))]"

definition validate_operator_context_coupling :: "HistoryEntryState \<Rightarrow> HistoryOperator \<Rightarrow> string \<Rightarrow> unit result" where
  "validate_operator_context_coupling state operator entry_path =
     try_in (context_form state) (\<lambda>form.
       let wrong = (\<lambda>message. invalid_history (entry_path @ ''/operator'') message) in
       case form of
         NoContext \<Rightarrow> require (ho_observations_path operator = None \<and> ho_authority_paths operator = None)
           (wrong ''no-context entry operator must contain only snapshot_path'')
       | ProvenanceContext \<Rightarrow> require (ho_observations_path operator \<noteq> None \<and> ho_authority_paths operator = None)
           (wrong ''provenance entry operator requires snapshot_path and observations_path without authority_paths'')
       | FullContext \<Rightarrow> require (ho_observations_path operator \<noteq> None \<and> ho_authority_paths operator \<notin> {None, Some []})
           (wrong ''full-context entry operator requires snapshot_path, observations_path, and non-empty authority_paths''))"

section \<open>Parsing a history\<close>

definition identity_field :: "(string, json) dict \<Rightarrow> string \<Rightarrow> string \<Rightarrow> (string \<times> json) result" where
  "identity_field raw name path =
     try_in (parse_content_identity (get_item raw name) (path @ ''/'' @ name)) (\<lambda>i. Inr (name, content_identity_dict i))"

definition parse_context :: "json \<Rightarrow> string \<Rightarrow> (string, json) dict option result" where
  "parse_context raw path =
     (case raw of
        JNull \<Rightarrow> Inr None
      | JObject kvs \<Rightarrow>
          if set (keys kvs) = {''observations''}
          then try_in (traverse (\<lambda>name. identity_field kvs name path) [''observations'']) (\<lambda>fields. Inr (Some fields))
          else if set (keys kvs) = {''observations'', ''authority'', ''conflicts''}
          then try_in (traverse (\<lambda>name. identity_field kvs name path) [''authority'', ''conflicts'', ''observations''])
            (\<lambda>fields. Inr (Some fields))
          else Inl (invalid_history path ''invalid history context form'')
      | _ \<Rightarrow> Inl (invalid_history path ''invalid history context''))"

definition parse_authority_paths :: "json \<Rightarrow> string \<Rightarrow> string list result" where
  "parse_authority_paths raw path =
     (case raw of
        JArray raw_paths \<Rightarrow>
          if raw_paths = [] then Inl (invalid_history path ''authority_paths must be a non-empty array'')
          else traverse (\<lambda>(index, p). normalize_history_relative_path p (path @ ''/'' @ str_nat index))
            (zip [0..<length raw_paths] raw_paths)
      | _ \<Rightarrow> Inl (invalid_history path ''authority_paths must be a non-empty array''))"

definition optional_field :: "(string, json) dict \<Rightarrow> string \<Rightarrow> (json \<Rightarrow> 'a result) \<Rightarrow> 'a option result" where
  "optional_field raw name parse =
     (case map_of raw name of None \<Rightarrow> Inr None | Some v \<Rightarrow> try_in (parse v) (\<lambda>x. Inr (Some x)))"

definition parse_operator :: "json \<Rightarrow> string \<Rightarrow> HistoryOperator result" where
  "parse_operator raw path =
     (case raw of
        JObject kvs \<Rightarrow>
          if ''conflicts_path'' \<in> set (keys kvs)
          then Inl (invalid_history (path @ ''/conflicts_path'') ''conflicts_path is not allowed'')
          else if \<not> set (keys kvs) \<subseteq> {''snapshot_path'', ''observations_path'', ''authority_paths''} \<or> ''snapshot_path'' \<notin> set (keys kvs)
          then Inl (invalid_history path ''invalid history operator'')
          else try_in (normalize_history_relative_path (get_item kvs ''snapshot_path'') (path @ ''/snapshot_path'')) (\<lambda>snapshot_path.
               try_in (optional_field kvs ''observations_path''
                 (\<lambda>v. normalize_history_relative_path v (path @ ''/observations_path''))) (\<lambda>observations_path.
               try_in (optional_field kvs ''authority_paths''
                 (\<lambda>v. parse_authority_paths v (path @ ''/authority_paths''))) (\<lambda>authority_paths.
               Inr \<lparr>ho_snapshot_path = snapshot_path, ho_observations_path = observations_path,
                 ho_authority_paths = authority_paths\<rparr>)))
      | _ \<Rightarrow> Inl (invalid_history path ''operator is required''))"

text \<open>\<open>labels = None; if name in raw: labels = parse(raw[name])\<close>, where the parser may give \<open>None\<close>, too.\<close>

definition nullable_field :: "(string, json) dict \<Rightarrow> string \<Rightarrow> (json \<Rightarrow> 'a option result) \<Rightarrow> 'a option result" where
  "nullable_field raw name parse = (case map_of raw name of None \<Rightarrow> Inr None | Some v \<Rightarrow> parse v)"

definition parse_entry :: "nat \<times> json \<Rightarrow> HistoryEntry result" where
  "parse_entry numbered =
     (let (index, raw) = numbered; entry_path = ''/entries/'' @ str_nat index in
      case raw of
        JObject kvs \<Rightarrow>
          (case get_item kvs ''state'' of
             JObject state_raw \<Rightarrow>
               try_in (parse_content_identity (get_item state_raw ''snapshot'') (entry_path @ ''/state/snapshot'')) (\<lambda>snapshot.
               try_in (nullable_field state_raw ''labels'' (\<lambda>v. normalize_labels v (entry_path @ ''/state/labels''))) (\<lambda>labels.
               try_in (nullable_field state_raw ''context'' (\<lambda>v. parse_context v (entry_path @ ''/state/context''))) (\<lambda>context.
               if \<not> set (keys state_raw) \<subseteq> {''snapshot'', ''labels'', ''context''}
               then Inl (invalid_history (entry_path @ ''/state'') ''invalid history entry state'')
               else (let state = \<lparr>hs_snapshot = snapshot, hs_labels = labels, hs_context = context\<rparr> in
                 try_in (parse_operator (get_item kvs ''operator'') (entry_path @ ''/operator'')) (\<lambda>operator.
                 try_in (validate_operator_context_coupling state operator entry_path) (\<lambda>_.
                 try_in (nullable_field kvs ''captured_at'' (\<lambda>v. validate_captured_at v (entry_path @ ''/captured_at''))) (\<lambda>captured_at.
                 if \<not> set (keys kvs) \<subseteq> {''state'', ''operator'', ''captured_at''}
                 then Inl (invalid_history entry_path ''invalid history entry'')
                 else Inr \<lparr>he_state = state, he_operator = operator, he_captured_at = captured_at\<rparr>)))))))
           | _ \<Rightarrow> Inl (invalid_history (entry_path @ ''/state'') ''entry state is required''))
      | _ \<Rightarrow> Inl (invalid_history entry_path ''invalid history entry''))"

definition parse_comparison_policy :: "json \<Rightarrow> ComparisonPolicy result" where
  "parse_comparison_policy raw =
     (case raw of
        JObject kvs \<Rightarrow>
          if set (keys kvs) \<noteq> {''align_source_roots'', ''align_database_roots''}
          then Inl (invalid_history ''/comparison_policy'' ''invalid comparison_policy'')
          else (case (get_item kvs ''align_source_roots'', get_item kvs ''align_database_roots'') of
            (JBool s, JBool d) \<Rightarrow> Inr \<lparr>cp_align_source_roots = s, cp_align_database_roots = d\<rparr>
          | _ \<Rightarrow> Inl (invalid_history ''/comparison_policy'' ''comparison_policy fields must be booleans''))
      | _ \<Rightarrow> Inl (invalid_history ''/comparison_policy'' ''comparison_policy is required''))"

definition parse_history_payload :: "(string, json) dict \<Rightarrow> GovernanceHistory result" where
  "parse_history_payload payload =
     try_in (parse_comparison_policy (get_item payload ''comparison_policy'')) (\<lambda>policy.
     case get_item payload ''entries'' of
       JArray entries_raw \<Rightarrow>
         try_in (traverse parse_entry (zip [0..<length entries_raw] entries_raw)) (\<lambda>entries.
         Inr \<lparr>gh_comparison_policy = policy, gh_entries = entries\<rparr>)
     | _ \<Rightarrow> Inl (invalid_history ''/entries'' ''entries must be an array''))"

definition load_history_payload ::
  "(string \<Rightarrow> string) \<Rightarrow> (json \<Rightarrow> diagnostic list) \<Rightarrow> json \<Rightarrow> GovernanceHistory result" where
  "load_history_payload sha schema_errors payload =
     (case payload of
        JObject kvs \<Rightarrow>
          if get_item kvs ''history_schema'' \<noteq> JStr ''governance-history''
          then Inl (history_failure ''unsupported_history_schema'' ''/history_schema'' ''unsupported history schema'')
          else if get_item kvs ''history_version'' \<noteq> JStr ''1''
          then Inl (history_failure ''unsupported_history_version'' ''/history_version'' ''unsupported history version'')
          else if schema_errors payload \<noteq> [] then Inl (Diagnostics ''HistoryError'' (schema_errors payload))
          else (case get_item kvs ''content_identity'' of
            JObject identity_raw \<Rightarrow>
              (let mismatch = history_failure ''history_integrity_mismatch'' ''/content_identity'' ''history content_identity mismatch'' in
               try_in (parse_history_payload kvs) (\<lambda>history.
               case parse_content_identity (JObject identity_raw) ''/content_identity'' of
                 Inl _ \<Rightarrow> Inl mismatch
               | Inr actual \<Rightarrow> if actual \<noteq> history_content_identity sha history then Inl mismatch else Inr history))
          | _ \<Rightarrow> Inl (invalid_history ''/content_identity'' ''history content_identity is required''))
      | _ \<Rightarrow> Inl (history_failure ''history_parse_error'' ''/'' ''history root must be a mapping''))"

section \<open>Stable paths\<close>

text \<open>Normalization strips the text before it drops the segments, so its result need not be a fixed point.\<close>

definition stable_path :: "string \<Rightarrow> bool" where
  "stable_path p \<longleftrightarrow> normalize_history_relative_path (JStr p) ''/'' = Inr p"

lemma normalize_any_path: "normalize_history_relative_path raw path = Inr q \<Longrightarrow> normalize_history_relative_path raw path' = Inr q"
  by (cases raw) (auto simp: normalize_history_relative_path_def Let_def split: if_splits)

lemma stable_pathD: "stable_path p \<Longrightarrow> normalize_history_relative_path (JStr p) path = Inr p"
  unfolding stable_path_def by (rule normalize_any_path)

lemma length_replace: "length (replace_char c [d] s) = length s"
  by (induction s) auto

lemma set_replace_char: "set (replace_char c t s) = (if c \<in> set s then set t else {}) \<union> (set s - {c})"
  by (induction s) auto

lemma replace_char_absent: "c \<notin> set s \<Longrightarrow> replace_char c t s = s"
  by (induction s) auto

lemma set_join: "set (join [c] ss) \<subseteq> insert c (\<Union> (set ` set ss))"
  by (induction "[c]" ss rule: join.induct) auto

lemma set_split_on: "\<Union> (set ` set (split_on c s)) \<subseteq> set s"
proof
  fix x assume "x \<in> \<Union> (set ` set (split_on c s))"
  moreover have "\<Union> (set ` set ss) \<subseteq> set (join [c] ss)" for ss by (induction "[c]" ss rule: join.induct) auto
  ultimately have "x \<in> set (join [c] (split_on c s))" by blast
  then show "x \<in> set s" by (simp add: join_split_on)
qed

lemma length_posix_parts: "length (join [CHR ''/''] (posix_parts s)) \<le> length s"
proof -
  have cons: "length (join [c] (x # xs)) \<le> Suc (length x + length (join [c] xs))"
    "xs \<noteq> [] \<Longrightarrow> length (join [c] (x # xs)) = Suc (length x + length (join [c] xs))" for c :: char and x xs
    by (cases xs; simp)+
  have "length (join [c] (filter P xs)) \<le> length (join [c] xs)" for c :: char and P xs
  proof (induction xs)
    case (Cons x xs)
    show ?case
    proof (cases "xs = []")
      case False
      then show ?thesis using Cons.IH cons(1) [of c x "filter P xs"] cons(2) [of xs c x] by (cases "P x") simp_all
    qed simp
  qed simp
  then show ?thesis unfolding posix_parts_def by (metis join_split_on)
qed

lemma length_strip: "strip s \<noteq> s \<Longrightarrow> length (strip s) < length s"
proof -
  have drop: "length (lstrip t) < length t \<or> lstrip t = t" for t
    unfolding lstrip_def by (cases t) (auto simp: le_imp_less_Suc length_dropWhile_le)
  have le: "length (lstrip t) \<le> length t" for t using drop [of t] by auto
  assume "strip s \<noteq> s"
  then consider "lstrip s \<noteq> s" | "lstrip s = s" "lstrip (rev s) \<noteq> rev s" unfolding strip_def by fastforce
  then show ?thesis
  proof cases
    case 1
    then show ?thesis using drop [of s] le [of "rev (lstrip s)"] by (simp add: strip_def)
  next
    case 2
    then show ?thesis using drop [of "rev s"] by (simp add: strip_def)
  qed
qed

lemma posix_parts_good:
  assumes "p \<in> set (posix_parts text)" shows "p \<noteq> []" "p \<noteq> ''.''" "CHR ''/'' \<notin> set p" "set p \<subseteq> set text"
  using assms split_on_pieces set_split_on [of "CHR ''/''" "text"] by (fastforce simp: posix_parts_def)+

lemma posix_parts_join:
  assumes "ps \<noteq> []" "\<forall>p \<in> set ps. p \<noteq> [] \<and> p \<noteq> ''.'' \<and> CHR ''/'' \<notin> set p"
  shows "posix_parts (join [CHR ''/''] ps) = ps"
  using assms by (simp add: posix_parts_def split_on_join filter_id_conv)

lemma hd_join: "ss \<noteq> [] \<Longrightarrow> hd ss \<noteq> [] \<Longrightarrow> join [c] ss \<noteq> [] \<and> hd (join [c] ss) = hd (hd ss)"
  by (induction "[c]" ss rule: join.induct) auto

lemma stable_normalized:
  assumes "normalize_history_relative_path raw path = Inr q"
  shows "stable_path q \<longleftrightarrow> strip q = q \<and> \<not> (length q \<ge> 2 \<and> q ! 1 = CHR '':'')"
proof -
  obtain s where raw: "raw = JStr s" using assms by (cases raw) (simp_all add: normalize_history_relative_path_def)
  define ps where "ps = posix_parts (replace_char CHR 0x5C ''/'' (strip s))"
  have q: "q = join [CHR ''/''] ps" "ps \<noteq> []" "\<forall>p \<in> set ps. py_upper p \<noteq> ''NUL''" and nul: "CHR 0x00 \<notin> set s"
    using assms by (auto simp: normalize_history_relative_path_def raw Let_def ps_def split: if_splits)
  have ps: "p \<noteq> [] \<and> p \<noteq> ''.'' \<and> CHR ''/'' \<notin> set p \<and> CHR 0x5C \<notin> set p \<and> CHR 0x00 \<notin> set p" if "p \<in> set ps" for p
  proof -
    have "set (strip s) \<subseteq> set s"
      unfolding strip_def lstrip_def by (metis (no_types, lifting) set_dropWhileD set_rev subsetI)
    then show ?thesis
      using posix_parts_good [OF that [unfolded ps_def]] nul by (auto simp: set_replace_char split: if_splits)
  qed
  have chars: "CHR 0x5C \<notin> set q" "CHR 0x00 \<notin> set q" using set_join [of "CHR ''/''" ps] ps by (auto simp: q(1))
  have parts: "posix_parts q = ps" unfolding q(1) by (rule posix_parts_join [OF q(2)]) (use ps in blast)
  have "hd ps \<in> set ps" using q(2) by simp
  from ps [OF this] have "hd ps \<noteq> []" "hd (hd ps) \<noteq> CHR ''/''" using hd_in_set [of "hd ps"] by metis+
  then have "q \<noteq> []" "hd q \<noteq> CHR ''/''" using hd_join [OF q(2), of "CHR ''/''"] by (auto simp: q(1))
  then have slash: "\<not> startswith ''/'' q" "\<not> startswith ''//'' q" by (auto simp: startswith_iff)
  show ?thesis
  proof (cases "strip q = q")
    case True
    then show ?thesis
      using chars parts slash \<open>q \<noteq> []\<close> q
      by (auto simp: stable_path_def normalize_history_relative_path_def Let_def replace_char_absent)
  next
    case False
    have "length (join [CHR ''/''] (posix_parts (replace_char CHR 0x5C ''/'' (strip q)))) < length q"
      using length_posix_parts [of "replace_char CHR 0x5C ''/'' (strip q)"] length_strip [OF False] length_replace [of _ _ "strip q"]
      by simp
    then show ?thesis using False
      by (auto simp: stable_path_def normalize_history_relative_path_def Let_def split: if_splits)
  qed
qed

section \<open>Histories in normal form\<close>

definition valid_label :: "string \<times> string \<Rightarrow> bool" where
  "valid_label entry \<longleftrightarrow> (case entry of (k, v) \<Rightarrow> strip k = k \<and> k \<noteq> [] \<and> strip v = v \<and> v \<noteq> [] \<and>
     casefold k \<notin> set RESERVED_LABEL_KEYS \<and> length k \<le> MAX_LABEL_KEY_LEN \<and> length v \<le> MAX_LABEL_VALUE_LEN)"

definition valid_labels :: "labels \<Rightarrow> bool" where
  "valid_labels ls \<longleftrightarrow> distinct (keys ls) \<and> length ls \<le> MAX_LABELS \<and> list_all valid_label ls"

definition filled_identity :: "ContentIdentity \<Rightarrow> bool" where
  "filled_identity c \<longleftrightarrow> ci_algorithm c \<noteq> [] \<and> ci_hashing_contract_version c \<noteq> [] \<and> ci_digest c \<noteq> []"

definition valid_context :: "(string, json) dict \<Rightarrow> bool" where
  "valid_context ctx \<longleftrightarrow> keys ctx \<in> {[''observations''], [''authority'', ''conflicts'', ''observations'']} \<and>
     (\<forall>(k, v) \<in> set ctx. \<exists>c. filled_identity c \<and> v = content_identity_dict c)"

definition normal_state :: "HistoryEntryState \<Rightarrow> bool" where
  "normal_state s \<longleftrightarrow> filled_identity (hs_snapshot s) \<and> pred_option valid_labels (hs_labels s) \<and> pred_option valid_context (hs_context s)"

definition coupled :: "HistoryEntryState \<Rightarrow> HistoryOperator \<Rightarrow> bool" where
  "coupled s op \<longleftrightarrow> (case hs_context s of
       None \<Rightarrow> ho_observations_path op = None \<and> ho_authority_paths op = None
     | Some ctx \<Rightarrow> ho_observations_path op \<noteq> None \<and>
         (if ''authority'' \<in> set (keys ctx) then ho_authority_paths op \<notin> {None, Some []} else ho_authority_paths op = None))"

definition stable_operator :: "HistoryOperator \<Rightarrow> bool" where
  "stable_operator op \<longleftrightarrow> stable_path (ho_snapshot_path op) \<and> pred_option stable_path (ho_observations_path op) \<and>
     pred_option (list_all stable_path) (ho_authority_paths op)"

definition normal_entry :: "HistoryEntry \<Rightarrow> bool" where
  "normal_entry e \<longleftrightarrow> normal_state (he_state e) \<and> coupled (he_state e) (he_operator e) \<and>
     pred_option (\<lambda>t. matches_captured_at t \<and> is_date_time t) (he_captured_at e)"

definition normal_history :: "GovernanceHistory \<Rightarrow> bool" where
  "normal_history h \<longleftrightarrow> list_all normal_entry (gh_entries h)"

definition stable_history :: "GovernanceHistory \<Rightarrow> bool" where
  "stable_history h \<longleftrightarrow> list_all (\<lambda>e. stable_operator (he_operator e)) (gh_entries h)"

lemma identity_roundtrip: "filled_identity c \<Longrightarrow> parse_content_identity (content_identity_dict c) path = Inr c"
  by (cases c) (auto simp: parse_content_identity_def content_identity_dict_def filled_identity_def get_item_def)

lemma identity_sound:
  assumes "parse_content_identity raw path = Inr c" shows "filled_identity c"
proof -
  obtain kvs where raw: "raw = JObject kvs" using assms by (cases raw) (simp_all add: parse_content_identity_def)
  show ?thesis
  proof (cases "get_item kvs ''algorithm''")
    case a: (JStr x)
    show ?thesis
    proof (cases "get_item kvs ''hashing_contract_version''")
      case v: (JStr y)
      show ?thesis
        using assms by (cases "get_item kvs ''digest''")
          (simp_all add: parse_content_identity_def raw a v filled_identity_def split: if_split_asm, elim conjE, hypsubst, simp)
    qed (use assms in \<open>simp_all add: parse_content_identity_def raw a split: if_split_asm\<close>)
  qed (use assms in \<open>simp_all add: parse_content_identity_def raw split: if_split_asm\<close>)
qed

lemma add_label_Inr:
  "add_label path ls (k, JStr v) = Inr ls' \<longleftrightarrow>
     valid_label (strip k, strip v) \<and> strip k \<notin> set (keys ls) \<and> ls' = ls @ [(strip k, strip v)]"
  by (auto simp: add_label_def valid_label_def Let_def)

lemma add_labels_ok:
  "list_all valid_label ls \<Longrightarrow> distinct (keys (acc @ ls)) \<Longrightarrow>
     fold_in (add_label path) acc (map (\<lambda>(k, v). (k, JStr v)) ls) = Inr (acc @ ls)"
proof (induction ls arbitrary: acc)
  case (Cons l ls)
  obtain k v where l: "l = (k, v)" by (cases l)
  have "valid_label (strip k, strip v)" "strip k = k" "strip v = v" using Cons.prems(1) by (auto simp: valid_label_def l)
  moreover have "k \<notin> set (keys acc)" using Cons.prems(2) by (auto simp: l)
  ultimately have "add_label path acc (k, JStr v) = Inr (acc @ [(k, v)])" using add_label_Inr by metis
  then show ?case using Cons.IH [of "acc @ [(k, v)]"] Cons.prems by (simp add: l)
qed simp

lemma add_labels_sound:
  "fold_in (add_label path) acc kvs = Inr ls \<Longrightarrow> list_all valid_label acc \<Longrightarrow> distinct (keys acc) \<Longrightarrow>
     list_all valid_label ls \<and> distinct (keys ls) \<and> length ls = length acc + length kvs"
proof (induction kvs arbitrary: acc)
  case (Cons kv kvs)
  obtain acc' where step: "add_label path acc kv = Inr acc'" "fold_in (add_label path) acc' kvs = Inr ls"
    using Cons.prems(1) by (auto simp: split_result)
  obtain k v where kv: "kv = (k, JStr v)"
    using step(1) by (cases kv; cases "snd kv") (simp_all add: add_label_def)
  show ?case using Cons.IH [OF step(2)] step(1) Cons.prems(2,3) by (auto simp: kv add_label_Inr)
qed simp

lemma labels_roundtrip: "valid_labels ls \<Longrightarrow> normalize_labels (labels_dict ls) path = Inr (Some ls)"
  using add_labels_ok [of ls "[]"] by (simp add: valid_labels_def normalize_labels_def labels_dict_def)

lemma labels_sound: "normalize_labels raw path = Inr o' \<Longrightarrow> pred_option valid_labels o'"
  using add_labels_sound [of path "[]"]
  by (auto simp: normalize_labels_def valid_labels_def split_result split: json.splits if_splits)

lemma identity_field_roundtrip:
  "map_of ctx k = Some (content_identity_dict c) \<Longrightarrow> filled_identity c \<Longrightarrow>
     identity_field ctx k path = Inr (k, content_identity_dict c)"
  by (simp add: identity_field_def get_item_def identity_roundtrip del: map_of_eq_Some_iff)

lemma context_roundtrip:
  assumes "valid_context ctx" shows "parse_context (JObject ctx) path = Inr (Some ctx)"
proof -
  have fields: "identity_field ctx k path = Inr (k, v)" if *: "map_of ctx k = Some v" for k v
  proof -
    obtain c where "filled_identity c" "v = content_identity_dict c"
      using assms map_of_SomeD [OF *] unfolding valid_context_def by auto
    then show ?thesis using identity_field_roundtrip * by simp
  qed
  consider "keys ctx = [''observations'']" | "keys ctx = [''authority'', ''conflicts'', ''observations'']"
    using assms by (auto simp: valid_context_def)
  then show ?thesis
  proof cases
    case 1
    then obtain v where "ctx = [(''observations'', v)]" by (auto simp: map_eq_Cons_conv)
    then show ?thesis using fields [of "''observations''" v] by (simp add: parse_context_def)
  next
    case 2
    then obtain a c v where "ctx = [(''authority'', a), (''conflicts'', c), (''observations'', v)]"
      by (auto simp: map_eq_Cons_conv)
    then show ?thesis
      using fields [of "''authority''" a] fields [of "''conflicts''" c] fields [of "''observations''" v]
      by (simp add: parse_context_def insert_commute)
  qed
qed

lemma context_sound:
  assumes "parse_context raw path = Inr o'" shows "pred_option valid_context o'"
proof (cases o')
  case (Some ctx)
  obtain kvs where raw: "raw = JObject kvs" using assms Some by (cases raw) (simp_all add: parse_context_def)
  have field: "k = fst f \<and> (\<exists>c. filled_identity c \<and> snd f = content_identity_dict c)" if *: "identity_field kvs k path = Inr f" for k f
  proof -
    obtain c where "parse_content_identity (get_item kvs k) (path @ CHR ''/'' # k) = Inr c" "f = (k, content_identity_dict c)"
      using * by (auto simp: identity_field_def split_result)
    then show ?thesis using identity_sound by fastforce
  qed
  obtain names where names: "names \<in> {[''observations''], [''authority'', ''conflicts'', ''observations'']}"
    "traverse (\<lambda>name. identity_field kvs name path) names = Inr ctx"
  proof -
    have "traverse (\<lambda>name. identity_field kvs name path) [''observations''] = Inr ctx \<or>
        traverse (\<lambda>name. identity_field kvs name path) [''authority'', ''conflicts'', ''observations''] = Inr ctx"
      using assms unfolding Some raw parse_context_def by (simp add: try_in_Inr del: traverse.simps split: if_split_asm)
    then show ?thesis using that by blast
  qed
  have "list_all2 (\<lambda>k f. identity_field kvs k path = Inr f) names ctx" using names(2) by (simp add: traverse_Inr_iff)
  then have "keys ctx = names \<and> (\<forall>(k, v) \<in> set ctx. \<exists>c. filled_identity c \<and> v = content_identity_dict c)"
    by (induction rule: list_all2_induct) (auto dest!: field)
  then show ?thesis using names(1) by (simp add: Some valid_context_def)
qed simp

lemma coupling_iff:
  "pred_option valid_context (hs_context s) \<Longrightarrow> validate_operator_context_coupling s op path = Inr () \<longleftrightarrow> coupled s op"
proof (cases "hs_context s")
  case None
  then show ?thesis by (auto simp: validate_operator_context_coupling_def context_form_def coupled_def require_def Let_def)
next
  case (Some ctx)
  assume "pred_option valid_context (hs_context s)"
  then consider "keys ctx = [''observations'']" | "keys ctx = [''authority'', ''conflicts'', ''observations'']"
    by (auto simp: Some valid_context_def)
  then show ?thesis
  proof cases
    case 1
    then show ?thesis by (auto simp: validate_operator_context_coupling_def context_form_def coupled_def require_def Let_def Some)
  next
    case 2
    then have "set (keys ctx) = {''observations'', ''authority'', ''conflicts''}" "set (keys ctx) \<noteq> {''observations''}"
      "''authority'' \<in> set (keys ctx)" by auto
    then show ?thesis by (simp add: validate_operator_context_coupling_def context_form_def coupled_def require_def Let_def Some)
  qed
qed

section \<open>Loading what was written\<close>

lemma zip_numbered: "traverse (\<lambda>(i, x). f i x) (zip [0..<length xs] xs) = Inr ys \<longleftrightarrow>
    length ys = length xs \<and> (\<forall>i < length xs. f i (xs ! i) = Inr (ys ! i))"
  by (auto simp: traverse_Inr_iff list_all2_conv_all_nth)

lemma authority_paths_roundtrip:
  assumes "list_all stable_path ps" "ps \<noteq> []"
  shows "parse_authority_paths (JArray (map JStr ps)) path = Inr ps"
proof -
  have "normalize_history_relative_path (JStr (ps ! i)) p = Inr (ps ! i)" if "i < length ps" for i p
    using assms(1) that by (intro stable_pathD) (simp add: list_all_length)
  then have "traverse (\<lambda>(i, x). normalize_history_relative_path x (path @ ''/'' @ str_nat i)) (zip [0..<length (map JStr ps)] (map JStr ps)) = Inr ps"
    unfolding zip_numbered by simp
  then show ?thesis using assms(2) by (simp add: parse_authority_paths_def)
qed

lemma authority_paths_nonempty: "parse_authority_paths raw path = Inr ps \<Longrightarrow> ps \<noteq> []"
  by (auto simp: parse_authority_paths_def zip_numbered split: json.splits if_splits)

lemma operator_roundtrip:
  assumes "stable_operator op" "ho_authority_paths op \<noteq> Some []"
  shows "parse_operator (operator_dict op) path = Inr op"
proof -
  have "normalize_history_relative_path (JStr (ho_snapshot_path op)) p = Inr (ho_snapshot_path op)" for p
    using assms(1) by (intro stable_pathD) (simp add: stable_operator_def)
  moreover have "normalize_history_relative_path (JStr q) p = Inr q" if "ho_observations_path op = Some q" for q p
    using assms(1) that by (intro stable_pathD) (simp add: stable_operator_def)
  moreover have "parse_authority_paths (JArray (map JStr ps)) p = Inr ps" if "ho_authority_paths op = Some ps" for ps p
    using assms that by (intro authority_paths_roundtrip) (auto simp: stable_operator_def)
  ultimately show ?thesis
    by (cases op; cases "ho_observations_path op"; cases "ho_authority_paths op")
      (simp_all add: parse_operator_def operator_dict_def get_item_def optional_field_def)
qed

lemma coupled_authority: "coupled s op \<Longrightarrow> ho_authority_paths op \<noteq> Some []"
  by (auto simp: coupled_def split: option.splits if_splits)

lemma state_fields:
  assumes "normal_state s"
  shows "\<exists>kvs. entry_state_dict s = JObject kvs \<and> set (keys kvs) \<subseteq> {''snapshot'', ''labels'', ''context''} \<and>
    (\<forall>p. parse_content_identity (get_item kvs ''snapshot'') p = Inr (hs_snapshot s)) \<and>
    (\<forall>p. nullable_field kvs ''labels'' (\<lambda>v. normalize_labels v p) = Inr (hs_labels s)) \<and>
    (\<forall>p. nullable_field kvs ''context'' (\<lambda>v. parse_context v p) = Inr (hs_context s))"
  using assms
  by (cases "hs_labels s"; cases "hs_context s")
    (simp_all add: entry_state_dict_def normal_state_def get_item_def nullable_field_def identity_roundtrip labels_roundtrip
      context_roundtrip)

lemma parse_entry_Inr:
  "parse_entry (i, raw) = Inr e \<longleftrightarrow> (\<exists>kvs sr. raw = JObject kvs \<and> get_item kvs ''state'' = JObject sr \<and>
     set (keys sr) \<subseteq> {''snapshot'', ''labels'', ''context''} \<and> set (keys kvs) \<subseteq> {''state'', ''operator'', ''captured_at''} \<and>
     (let p = ''/entries/'' @ str_nat i in
       parse_content_identity (get_item sr ''snapshot'') (p @ ''/state/snapshot'') = Inr (hs_snapshot (he_state e)) \<and>
       nullable_field sr ''labels'' (\<lambda>v. normalize_labels v (p @ ''/state/labels'')) = Inr (hs_labels (he_state e)) \<and>
       nullable_field sr ''context'' (\<lambda>v. parse_context v (p @ ''/state/context'')) = Inr (hs_context (he_state e)) \<and>
       parse_operator (get_item kvs ''operator'') (p @ ''/operator'') = Inr (he_operator e) \<and>
       validate_operator_context_coupling (he_state e) (he_operator e) p = Inr () \<and>
       nullable_field kvs ''captured_at'' (\<lambda>v. validate_captured_at v (p @ ''/captured_at'')) = Inr (he_captured_at e)))"
proof (cases raw)
  case (JObject kvs)
  show ?thesis
  proof (cases "get_item kvs ''state''")
    case state: (JObject sr)
    obtain c l x op t where e: "e = \<lparr>he_state = \<lparr>hs_snapshot = c, hs_labels = l, hs_context = x\<rparr>, he_operator = op, he_captured_at = t\<rparr>"
      by (metis HistoryEntry.surjective HistoryEntryState.surjective old.unit.exhaust)
    show ?thesis
      unfolding parse_entry_def JObject state e Let_def try_in_Inr prod.case json.case by (auto simp: state try_in_Inr)
  qed (simp_all add: parse_entry_def JObject Let_def)
qed (simp_all add: parse_entry_def Let_def)

lemma entry_roundtrip:
  assumes "normal_entry e" "stable_operator (he_operator e)"
  shows "parse_entry (i, entry_persisted_dict e) = Inr e"
proof -
  have n: "normal_state (he_state e)" "coupled (he_state e) (he_operator e)"
    "pred_option (\<lambda>t. matches_captured_at t \<and> is_date_time t) (he_captured_at e)"
    using assms(1) by (simp_all add: normal_entry_def)
  obtain kvs where kvs: "entry_state_dict (he_state e) = JObject kvs" "set (keys kvs) \<subseteq> {''snapshot'', ''labels'', ''context''}"
    "\<And>p. parse_content_identity (get_item kvs ''snapshot'') p = Inr (hs_snapshot (he_state e))"
    "\<And>p. nullable_field kvs ''labels'' (\<lambda>v. normalize_labels v p) = Inr (hs_labels (he_state e))"
    "\<And>p. nullable_field kvs ''context'' (\<lambda>v. parse_context v p) = Inr (hs_context (he_state e))"
    using state_fields [OF n(1)] by blast
  have op: "parse_operator (operator_dict (he_operator e)) p = Inr (he_operator e)" for p
    using operator_roundtrip assms(2) coupled_authority n(2) by blast
  have coupling: "validate_operator_context_coupling (he_state e) (he_operator e) p = Inr ()" for p
    using coupling_iff n(1,2) by (simp add: normal_state_def)
  obtain evs where evs: "entry_persisted_dict e = JObject evs" "get_item evs ''state'' = JObject kvs"
    "get_item evs ''operator'' = operator_dict (he_operator e)" "set (keys evs) \<subseteq> {''state'', ''operator'', ''captured_at''}"
    "\<And>p. nullable_field evs ''captured_at'' (\<lambda>v. validate_captured_at v p) = Inr (he_captured_at e)"
    using n(3) kvs(1)
    by (cases "he_captured_at e") (simp_all add: entry_persisted_dict_def get_item_def nullable_field_def validate_captured_at_def)
  show ?thesis unfolding parse_entry_Inr Let_def
    by (rule exI [of _ evs], rule exI [of _ kvs]) (simp only: evs kvs op coupling simp_thms)
qed

lemma identity_nonempty: "\<forall>s. sha s \<noteq> [] \<Longrightarrow> filled_identity (sha256_identity sha k v)"
  by (simp add: filled_identity_def sha256_identity_def)

lemma policy_roundtrip: "parse_comparison_policy (comparison_policy_dict p) = Inr p"
  by (cases p) (simp add: parse_comparison_policy_def comparison_policy_dict_def get_item_def insert_commute)

lemma load_saved_history:
  assumes "normal_history h" "stable_history h" "schema_errors (history_to_dict sha h) = []" "\<forall>s. sha s \<noteq> []"
  shows "load_history_payload sha schema_errors (history_to_dict sha h) = Inr h"
proof -
  have "parse_entry (i, entry_persisted_dict (gh_entries h ! i)) = Inr (gh_entries h ! i)" if "i < length (gh_entries h)" for i
    using assms(1,2) that by (intro entry_roundtrip) (simp_all add: normal_history_def stable_history_def list_all_length)
  then have "traverse (\<lambda>(i, x). parse_entry (i, x)) (zip [0..<length (map entry_persisted_dict (gh_entries h))]
      (map entry_persisted_dict (gh_entries h))) = Inr (gh_entries h)"
    unfolding zip_numbered by simp
  then have entries: "traverse parse_entry (zip [0..<length (gh_entries h)] (map entry_persisted_dict (gh_entries h))) = Inr (gh_entries h)"
    by simp
  let ?kvs = "[(''comparison_policy'', comparison_policy_dict (gh_comparison_policy h)),
     (''entries'', JArray (map entry_persisted_dict (gh_entries h))),
     (''history_schema'', JStr ''governance-history''), (''history_version'', JStr ''1''),
     (''content_identity'', content_identity_dict (history_content_identity sha h))]"
  have parsed: "parse_history_payload ?kvs = Inr h"
    using entries by (simp add: parse_history_payload_def get_item_def policy_roundtrip)
  obtain ikvs where identity: "content_identity_dict (history_content_identity sha h) = JObject ikvs"
    by (simp add: content_identity_dict_def)
  have "parse_content_identity (JObject ikvs) p = Inr (history_content_identity sha h)" for p
    unfolding identity [symmetric] using identity_roundtrip identity_nonempty [OF assms(4)] by (simp add: history_content_identity_def)
  moreover have "get_item ?kvs ''history_schema'' = JStr ''governance-history''" "get_item ?kvs ''history_version'' = JStr ''1''"
    "get_item ?kvs ''content_identity'' = JObject ikvs" using identity by (simp_all add: get_item_def)
  ultimately show ?thesis
    using assms(3) parsed unfolding load_history_payload_def history_to_dict_def json.case by (simp add: Let_def)
qed

lemma entry_sound:
  assumes "parse_entry (i, raw) = Inr e" shows "normal_entry e"
proof -
  obtain kvs sr p where *: "parse_content_identity (get_item sr ''snapshot'') (p @ ''/state/snapshot'') = Inr (hs_snapshot (he_state e))"
    "nullable_field sr ''labels'' (\<lambda>v. normalize_labels v (p @ ''/state/labels'')) = Inr (hs_labels (he_state e))"
    "nullable_field sr ''context'' (\<lambda>v. parse_context v (p @ ''/state/context'')) = Inr (hs_context (he_state e))"
    "validate_operator_context_coupling (he_state e) (he_operator e) p = Inr ()"
    "nullable_field kvs ''captured_at'' (\<lambda>v. validate_captured_at v (p @ ''/captured_at'')) = Inr (he_captured_at e)"
    using assms unfolding parse_entry_Inr Let_def by blast
  have labels: "pred_option valid_labels (hs_labels (he_state e))" and ctx: "pred_option valid_context (hs_context (he_state e))"
    using *(2,3) labels_sound context_sound
    by (cases "map_of sr ''labels''"; cases "map_of sr ''context''"; fastforce simp: nullable_field_def simp del: map_of_eq_Some_iff)+
  moreover have "pred_option (\<lambda>t. matches_captured_at t \<and> is_date_time t) (he_captured_at e)"
    using *(5) by (cases "he_captured_at e")
      (auto simp: nullable_field_def validate_captured_at_def split: option.splits json.splits if_splits)
  ultimately show ?thesis
    using identity_sound [OF *(1)] *(4) coupling_iff [OF ctx] by (simp add: normal_entry_def normal_state_def)
qed

lemma loaded_history_normal:
  assumes "load_history_payload sha schema_errors payload = Inr h" shows "normal_history h"
proof -
  obtain kvs where payload: "payload = JObject kvs" using assms by (cases payload) (simp_all add: load_history_payload_def)
  obtain ikvs where "get_item kvs ''content_identity'' = JObject ikvs"
    using assms by (cases "get_item kvs ''content_identity''") (simp_all add: load_history_payload_def payload split: if_split_asm)
  then have parsed: "parse_history_payload kvs = Inr h"
    using assms unfolding load_history_payload_def payload
    by (cases "parse_content_identity (JObject ikvs) ''/content_identity''")
      (auto simp: Let_def try_in_Inr split: if_split_asm)
  then obtain raws where "get_item kvs ''entries'' = JArray raws"
    by (cases "get_item kvs ''entries''") (auto simp: parse_history_payload_def split_result)
  then have "traverse (\<lambda>(i, x). parse_entry (i, x)) (zip [0..<length raws] raws) = Inr (gh_entries h)"
    using parsed by (auto simp: parse_history_payload_def split_result)
  then show ?thesis unfolding zip_numbered normal_history_def list_all_length using entry_sound by metis
qed

end
