(* ===== verification/History_Append.thy ===== *)
theory History_Append
  imports History Conflicts
begin

text \<open>
  The package \<open>history\<close>, second part: the context of an entry (\<open>history/context.py\<close>), resolving a history against the
  artifacts it names (\<open>history/load.py\<close>) and appending an entry (\<open>history/append.py\<close>). The directory of the history is a
  record: the snapshot files as their parsed JSON, the history file itself, and as functions the loaders of
  observation sets and authority policies. Appending gives the directory with the history file replaced.
\<close>

section \<open>The directory of a history\<close>

datatype file_text = ReadFails | NotText | NotJson | Json json

record authority_diagnostic =
  ad_code :: string
  ad_path :: string
  ad_message :: string
  ad_file_index :: "nat option"

record artifact_store =
  as_history :: "file_text option"
  as_snapshot :: "string \<Rightarrow> file_text"
  as_observations :: "string \<Rightarrow> PropertyObservationSet result"
  as_authority :: "string list \<Rightarrow> authority_diagnostic list + NormalizedAuthorityPolicySet"
  as_writable :: bool

text \<open>What the loaders share: the hash function and the two JSON Schema validators.\<close>

record history_tools =
  ht_sha :: "string \<Rightarrow> string"
  ht_history_errors :: "json \<Rightarrow> diagnostic list"
  ht_snapshot_error :: "json \<Rightarrow> (string \<times> string) option"

section \<open>Errors of the artifacts\<close>

definition SNAPSHOT_CODE_MAP :: "(string, string) dict" where
  "SNAPSHOT_CODE_MAP = [(''read_error'', ''snapshot_read_error''), (''parse_error'', ''snapshot_parse_error''),
     (''invalid_snapshot_root'', ''invalid_snapshot_artifact''), (''invalid_snapshot_payload'', ''invalid_snapshot_artifact''),
     (''unsupported_snapshot_schema'', ''unsupported_snapshot_schema''),
     (''unsupported_snapshot_version'', ''unsupported_snapshot_version''),
     (''missing_content_identity'', ''snapshot_integrity_mismatch''), (''integrity_mismatch'', ''snapshot_integrity_mismatch''),
     (''write_error'', ''write_error'')]"

definition SNAPSHOT_MESSAGES :: "(string, string) dict" where
  "SNAPSHOT_MESSAGES = [(''snapshot_read_error'', ''unable to read snapshot''), (''snapshot_parse_error'', ''invalid snapshot JSON''),
     (''invalid_snapshot_artifact'', ''invalid snapshot artifact''), (''unsupported_snapshot_schema'', ''unsupported snapshot schema''),
     (''unsupported_snapshot_version'', ''unsupported snapshot version''),
     (''snapshot_integrity_mismatch'', ''snapshot content_identity mismatch'')]"

definition str_get :: "(string, string) dict \<Rightarrow> string \<Rightarrow> string \<Rightarrow> string" where
  "str_get d k fallback = (case map_of d k of None \<Rightarrow> fallback | Some v \<Rightarrow> v)"

definition map_snapshot_error :: "diagnostic \<Rightarrow> string \<Rightarrow> diagnostic" where
  "map_snapshot_error d entry_path =
     (let mapped = str_get SNAPSHOT_CODE_MAP (d_code d) ''invalid_snapshot_artifact'';
          logical = (if entry_path \<in> {[], ''/''} then if d_path d = [] then ''/'' else d_path d
            else if d_path d \<in> {[], ''/''} then entry_path else entry_path @ d_path d) in
      diagnostic_error mapped logical (str_get SNAPSHOT_MESSAGES mapped ''invalid snapshot artifact''))"

definition map_observations_error :: "string \<Rightarrow> diagnostic \<Rightarrow> diagnostic" where
  "map_observations_error entry_path d =
     (let (code, message) =
            (if d_code d = ''read_error'' then (''context_read_error'', ''unable to read observations artifact'')
             else if d_code d = ''parse_error'' then (''context_parse_error'', ''invalid observations JSON'')
             else if d_code d = ''unsupported_schema'' then (''invalid_context_artifact'', ''unsupported observations schema'')
             else if d_code d = ''unsupported_version'' then (''invalid_context_artifact'', ''unsupported observations version'')
             else if d_code d = ''integrity_mismatch'' then (''context_integrity_mismatch'', ''observations content_identity mismatch'')
             else (''invalid_context_artifact'', ''invalid observations artifact'')) in
      diagnostic_error code (entry_path @ ''/context/observations'' @ (if d_path d \<in> {[], ''/''} then [] else d_path d)) message)"

definition map_authority_error :: "authority_diagnostic list \<Rightarrow> string \<Rightarrow> diagnostic list" where
  "map_authority_error errors entry_path =
     map (\<lambda>d. let (code, message) =
            (if ad_code d = ''parse_error'' then (''context_parse_error'', ''invalid authority YAML'')
             else if ad_code d = ''missing_authority_file'' then (''context_read_error'', ''unable to read authority file'')
             else (''invalid_context_artifact'', ''invalid authority artifact''));
          logical = entry_path @ ''/context/authority'' @ (case ad_file_index d of None \<Rightarrow> [] | Some i \<Rightarrow> CHR ''/'' # str_nat i);
          suffix = (if ad_path d = [] then [] else if startswith ''/'' (ad_path d) then ad_path d else CHR ''/'' # ad_path d) in
        diagnostic_error code (logical @ suffix) message)
       (sort_key (\<lambda>d. (ad_path d, ad_code d, ad_message d)) errors)"

definition map_comparison_diagnostic :: "nat \<Rightarrow> diagnostic \<Rightarrow> diagnostic" where
  "map_comparison_diagnostic index d =
     (let base = ''/entries/'' @ str_nat index in
      diagnostic_error (d_code d) (if d_path d \<in> {[], ''/''} then base else base @ d_path d) (d_message d))"

text \<open>\<open>except XError as exc: raise HistoryError(map(exc))\<close>: errors of another class pass.\<close>

definition remap :: "string \<Rightarrow> (diagnostic list \<Rightarrow> diagnostic list) \<Rightarrow> 'a result \<Rightarrow> 'a result" where
  "remap name f r = (case r of
       Inl (Diagnostics n errors) \<Rightarrow> Inl (if n = name then Diagnostics ''HistoryError'' (f errors) else Diagnostics n errors)
     | _ \<Rightarrow> r)"

lemma remap_Inr [simp]: "remap name f r = Inr x \<longleftrightarrow> r = Inr x"
  by (auto simp: remap_def split: sum.splits error.splits)

lemma remap_of_Inr [simp]: "remap name f (Inr x) = Inr x"
  by simp

section \<open>Loading artifacts\<close>

definition load_snapshot_artifact :: "history_tools \<Rightarrow> artifact_store \<Rightarrow> string \<Rightarrow> GovernanceSnapshot result" where
  "load_snapshot_artifact tools store path =
     (case as_snapshot store path of
        NotText \<Rightarrow> Inl (snapshot_error ''invalid snapshot JSON'' ''parse_error'' ''/'')
      | ReadFails \<Rightarrow> Inl (snapshot_error (''Unable to read snapshot from '' @ path) ''read_error'' ''/'')
      | NotJson \<Rightarrow> Inl (snapshot_error ''invalid snapshot JSON'' ''parse_error'' ''/'')
      | Json payload \<Rightarrow> load_snapshot_payload (ht_sha tools) (ht_snapshot_error tools) payload)"

definition load_history_artifact :: "history_tools \<Rightarrow> file_text \<Rightarrow> GovernanceHistory result" where
  "load_history_artifact tools file =
     (case file of
        NotText \<Rightarrow> Inl (history_failure ''history_parse_error'' ''/'' ''invalid history JSON'')
      | ReadFails \<Rightarrow> Inl (history_failure ''history_read_error'' ''/'' ''unable to read history artifact'')
      | NotJson \<Rightarrow> Inl (history_failure ''history_parse_error'' ''/'' ''invalid history JSON'')
      | Json payload \<Rightarrow> load_history_payload (ht_sha tools) (ht_history_errors tools) payload)"

definition load_observations_at ::
  "history_tools \<Rightarrow> artifact_store \<Rightarrow> string \<Rightarrow> ContentIdentity option \<Rightarrow> string \<Rightarrow> PropertyObservationSet result" where
  "load_observations_at tools store path expected entry_path =
     try_in (remap ''ObservationsArtifactError'' (map (map_observations_error entry_path)) (as_observations store path)) (\<lambda>set.
     if expected \<notin> {None, Some (observation_set_identity (ht_sha tools) set)}
     then Inl (history_failure ''context_integrity_mismatch'' (entry_path @ ''/context/observations'') ''observations content_identity mismatch'')
     else Inr set)"

definition load_authority_at ::
  "history_tools \<Rightarrow> artifact_store \<Rightarrow> string list \<Rightarrow> ContentIdentity option \<Rightarrow> string \<Rightarrow> NormalizedAuthorityPolicySet result" where
  "load_authority_at tools store paths expected entry_path =
     (case as_authority store paths of
        Inl errors \<Rightarrow> Inl (Diagnostics ''HistoryError'' (map_authority_error errors entry_path))
      | Inr authority \<Rightarrow>
          if expected \<notin> {None, Some (authority_content_identity (ht_sha tools) authority)}
          then Inl (history_failure ''context_integrity_mismatch'' (entry_path @ ''/context/authority'') ''authority content_identity mismatch'')
          else Inr authority)"

section \<open>The context of an entry\<close>

definition build_context_identities ::
  "history_tools \<Rightarrow> PropertyObservationSet option \<Rightarrow> NormalizedAuthorityPolicySet option \<Rightarrow> (string, json) dict option result" where
  "build_context_identities tools observations authority =
     (case (observations, authority) of
        (None, None) \<Rightarrow> Inr None
      | (None, Some _) \<Rightarrow> Inl (history_failure ''invalid_context_artifact'' ''/context'' ''authority requires observations'')
      | (Some obs, None) \<Rightarrow> Inr (Some [(''observations'', content_identity_dict (observation_set_identity (ht_sha tools) obs))])
      | (Some obs, Some auth) \<Rightarrow> Inr (Some
          [(''authority'', content_identity_dict (authority_content_identity (ht_sha tools) auth)),
           (''conflicts'', content_identity_dict (conflict_report_identity (ht_sha tools) (analyze_property_conflicts obs auth))),
           (''observations'', content_identity_dict (observation_set_identity (ht_sha tools) obs))]))"

record ResolvedContext =
  rc_observations :: "PropertyObservationSet option"
  rc_authority :: "NormalizedAuthorityPolicySet option"
  rc_conflicts :: "PropertyConflictReport option"
  rc_context_identity :: "(string, json) dict option"

definition resolve_full_context ::
  "history_tools \<Rightarrow> artifact_store \<Rightarrow> (string, json) dict \<Rightarrow> PropertyObservationSet \<Rightarrow> ContentIdentity \<Rightarrow>
   string list option \<Rightarrow> string \<Rightarrow> ResolvedContext result" where
  "resolve_full_context tools store ctx observations expected_observations authority_paths entry_path =
     try_in (parse_content_identity (get_item ctx ''authority'') (entry_path @ ''/state/context/authority'')) (\<lambda>expected_authority.
     try_in (parse_content_identity (get_item ctx ''conflicts'') (entry_path @ ''/state/context/conflicts'')) (\<lambda>expected_conflicts.
     case authority_paths of
       Some (path # paths) \<Rightarrow>
         try_in (load_authority_at tools store (path # paths) (Some expected_authority) entry_path) (\<lambda>authority.
         let report = analyze_property_conflicts observations authority in
         if conflict_report_identity (ht_sha tools) report \<noteq> expected_conflicts
         then Inl (history_failure ''context_integrity_mismatch'' (entry_path @ ''/state/context/conflicts'')
           ''derived conflicts content_identity mismatch'')
         else Inr \<lparr>rc_observations = Some observations, rc_authority = Some authority, rc_conflicts = Some report,
           rc_context_identity = Some [(''authority'', content_identity_dict expected_authority),
             (''conflicts'', content_identity_dict expected_conflicts), (''observations'', content_identity_dict expected_observations)]\<rparr>)
     | _ \<Rightarrow> Inl (history_failure ''invalid_context_artifact'' (entry_path @ ''/operator/authority_paths'')
         ''authority_paths are required for full-context entries'')))"

definition resolve_entry_context ::
  "history_tools \<Rightarrow> artifact_store \<Rightarrow> HistoryEntryState \<Rightarrow> string option \<Rightarrow> string list option \<Rightarrow> string \<Rightarrow> ResolvedContext result" where
  "resolve_entry_context tools store state observations_path authority_paths entry_path =
     try_in (context_form state) (\<lambda>form.
     case hs_context state of
       None \<Rightarrow> Inr \<lparr>rc_observations = None, rc_authority = None, rc_conflicts = None, rc_context_identity = None\<rparr>
     | Some ctx \<Rightarrow>
         try_in (parse_content_identity (get_item ctx ''observations'') (entry_path @ ''/state/context/observations'')) (\<lambda>expected.
         case observations_path of
           None \<Rightarrow> Inl (history_failure ''invalid_context_artifact'' (entry_path @ ''/operator/observations_path'')
             ''observations_path is required for contextual entries'')
         | Some path \<Rightarrow>
             try_in (load_observations_at tools store path (Some expected) entry_path) (\<lambda>observations.
             if form = ProvenanceContext
             then Inr \<lparr>rc_observations = Some observations, rc_authority = None, rc_conflicts = None,
               rc_context_identity = Some [(''observations'', content_identity_dict expected)]\<rparr>
             else resolve_full_context tools store ctx observations expected authority_paths entry_path)))"

section \<open>Resolving a history\<close>

record ResolvedEntryState =
  re_entry :: HistoryEntry
  re_snapshot :: GovernanceSnapshot
  re_observations :: "PropertyObservationSet option"
  re_authority :: "NormalizedAuthorityPolicySet option"
  re_conflicts :: "PropertyConflictReport option"
  re_projected :: ProjectedSnapshot

record ResolvedHistory =
  rh_history :: GovernanceHistory
  rh_states :: "ResolvedEntryState list"
  rh_comparisons :: "comparison_result list"

definition resolve_entry :: "history_tools \<Rightarrow> artifact_store \<Rightarrow> nat \<Rightarrow> HistoryEntry \<Rightarrow> ResolvedEntryState result" where
  "resolve_entry tools store index entry =
     (let entry_path = ''/entries/'' @ str_nat index; op = he_operator entry in
      try_in (remap ''SnapshotError'' (map (\<lambda>d. map_snapshot_error d (entry_path @ ''/operator/snapshot_path'')))
        (load_snapshot_artifact tools store (ho_snapshot_path op))) (\<lambda>snapshot.
      if snapshot_content_identity (ht_sha tools) snapshot \<noteq> hs_snapshot (he_state entry)
      then Inl (history_failure ''snapshot_integrity_mismatch'' (entry_path @ ''/state/snapshot'') ''snapshot content_identity mismatch'')
      else try_in (resolve_entry_context tools store (he_state entry) (ho_observations_path op) (ho_authority_paths op) entry_path) (\<lambda>context.
      try_in (remap ''ComparisonError'' (map (map_comparison_diagnostic index)) (project_snapshot ''baseline'' snapshot)) (\<lambda>projected.
      Inr \<lparr>re_entry = entry, re_snapshot = snapshot, re_observations = rc_observations context, re_authority = rc_authority context,
        re_conflicts = rc_conflicts context, re_projected = projected\<rparr>))))"

definition history_ack :: "ComparisonPolicy \<Rightarrow> RootAlignmentAck" where
  "history_ack policy = \<lparr>align_source_roots = cp_align_source_roots policy, align_database_roots = cp_align_database_roots policy\<rparr>"

definition compare_adjacent ::
  "history_tools \<Rightarrow> ComparisonPolicy \<Rightarrow> GovernanceSnapshot \<Rightarrow> GovernanceSnapshot \<Rightarrow> nat \<Rightarrow> comparison_result result" where
  "compare_adjacent tools policy left right candidate_index =
     remap ''ComparisonError'' (map (map_comparison_diagnostic candidate_index))
       (build_comparison_result (ht_sha tools) left right (history_ack policy))"

definition resolve_history_artifacts :: "history_tools \<Rightarrow> artifact_store \<Rightarrow> GovernanceHistory \<Rightarrow> ResolvedHistory result" where
  "resolve_history_artifacts tools store history =
     try_in (traverse (\<lambda>(index, entry). resolve_entry tools store index entry)
       (zip [0..<length (gh_entries history)] (gh_entries history))) (\<lambda>states.
     try_in (traverse (\<lambda>(index, left, right). compare_adjacent tools (gh_comparison_policy history) (re_snapshot left) (re_snapshot right) (index + 1))
       (zip [0..<length states] (zip states (tl states)))) (\<lambda>comparisons.
     Inr \<lparr>rh_history = history, rh_states = states, rh_comparisons = comparisons\<rparr>))"

section \<open>Appending an entry\<close>

record append_arguments =
  aa_snapshot_path :: string
  aa_observations_path :: "string option"
  aa_authority_paths :: "string list option"
  aa_labels :: json
  aa_captured_at :: json
  aa_align_source_roots :: "bool option"
  aa_align_database_roots :: "bool option"

definition append_operator :: "append_arguments \<Rightarrow> HistoryOperator result" where
  "append_operator args =
     try_in (normalize_history_relative_path (JStr (aa_snapshot_path args)) ''/operator/snapshot_path'') (\<lambda>snapshot_rel.
     try_in (case aa_observations_path args of None \<Rightarrow> Inr None
       | Some p \<Rightarrow> try_in (normalize_history_relative_path (JStr p) ''/operator/observations_path'') (\<lambda>q. Inr (Some q))) (\<lambda>observations_rel.
     try_in (case aa_authority_paths args of None \<Rightarrow> Inr None
       | Some [] \<Rightarrow> Inl (invalid_history ''/operator/authority_paths'' ''authority_paths must be non-empty when provided'')
       | Some ps \<Rightarrow> try_in (traverse (\<lambda>(index, p). normalize_history_relative_path (JStr p) (''/operator/authority_paths/'' @ str_nat index))
           (zip [0..<length ps] ps)) (\<lambda>qs. Inr (Some qs))) (\<lambda>authority_rels.
     if authority_rels \<noteq> None \<and> observations_rel = None then Inl (invalid_history ''/context'' ''authority requires observations'')
     else Inr \<lparr>ho_snapshot_path = snapshot_rel, ho_observations_path = observations_rel, ho_authority_paths = authority_rels\<rparr>)))"

definition flag_conflicts :: "bool option \<Rightarrow> bool \<Rightarrow> bool" where
  "flag_conflicts given stored \<longleftrightarrow> given \<notin> {None, Some stored}"

definition existing_history ::
  "history_tools \<Rightarrow> artifact_store \<Rightarrow> append_arguments \<Rightarrow> (ResolvedHistory option \<times> ComparisonPolicy) result" where
  "existing_history tools store args =
     (case as_history store of
        None \<Rightarrow> Inr (None, \<lparr>cp_align_source_roots = (aa_align_source_roots args = Some True),
          cp_align_database_roots = (aa_align_database_roots args = Some True)\<rparr>)
      | Some file \<Rightarrow>
          try_in (load_history_artifact tools file) (\<lambda>existing.
          try_in (resolve_history_artifacts tools store existing) (\<lambda>resolved.
          let policy = gh_comparison_policy existing in
          if flag_conflicts (aa_align_source_roots args) (cp_align_source_roots policy)
          then Inl (invalid_history ''/comparison_policy/align_source_roots'' ''align_source_roots conflicts with stored comparison_policy'')
          else if flag_conflicts (aa_align_database_roots args) (cp_align_database_roots policy)
          then Inl (invalid_history ''/comparison_policy/align_database_roots'' ''align_database_roots conflicts with stored comparison_policy'')
          else Inr (Some resolved, policy))))"

definition append_context ::
  "history_tools \<Rightarrow> artifact_store \<Rightarrow> HistoryOperator \<Rightarrow> (string, json) dict option result" where
  "append_context tools store op =
     try_in (case ho_observations_path op of None \<Rightarrow> Inr None
       | Some p \<Rightarrow> try_in (load_observations_at tools store p None ''/'') (\<lambda>x. Inr (Some x))) (\<lambda>observations.
     try_in (case ho_authority_paths op of None \<Rightarrow> Inr None
       | Some ps \<Rightarrow> try_in (load_authority_at tools store ps None ''/'') (\<lambda>x. Inr (Some x))) (\<lambda>authority.
     build_context_identities tools observations authority))"

text \<open>The new entry must compare with the last one, and its state must differ.\<close>

definition check_successor ::
  "history_tools \<Rightarrow> ComparisonPolicy \<Rightarrow> ResolvedEntryState list \<Rightarrow> GovernanceSnapshot \<Rightarrow> HistoryEntryState \<Rightarrow> unit result" where
  "check_successor tools policy states snapshot state =
     (if states = [] then Inr ()
      else try_in (compare_adjacent tools policy (re_snapshot (last states)) snapshot (length states)) (\<lambda>_.
        require (entry_state_identity (ht_sha tools) (he_state (re_entry (last states))) \<noteq> entry_state_identity (ht_sha tools) state)
          (history_failure ''duplicate_history_state'' (''/entries/'' @ str_nat (length states)) ''adjacent history entry state is duplicate'')))"

definition append_history_entry ::
  "history_tools \<Rightarrow> append_arguments \<Rightarrow> artifact_store \<Rightarrow> (GovernanceHistory \<times> artifact_store) result" where
  "append_history_entry tools args store =
     try_in (append_operator args) (\<lambda>op.
     try_in (normalize_labels (aa_labels args) ''/labels'') (\<lambda>labels.
     try_in (validate_captured_at (aa_captured_at args) ''/captured_at'') (\<lambda>captured_at.
     try_in (remap ''SnapshotError'' (map (\<lambda>d. map_snapshot_error d ''/'')) (load_snapshot_artifact tools store (ho_snapshot_path op))) (\<lambda>snapshot.
     try_in (existing_history tools store args) (\<lambda>(resolved, policy).
     try_in (append_context tools store op) (\<lambda>context.
     let state = \<lparr>hs_snapshot = snapshot_content_identity (ht_sha tools) snapshot, hs_labels = labels, hs_context = context\<rparr>;
         states = (case resolved of None \<Rightarrow> [] | Some r \<Rightarrow> rh_states r);
         entries = (case resolved of None \<Rightarrow> [] | Some r \<Rightarrow> gh_entries (rh_history r));
         entry = \<lparr>he_state = state, he_operator = op, he_captured_at = captured_at\<rparr>;
         updated = \<lparr>gh_comparison_policy = policy, gh_entries = entries @ [entry]\<rparr> in
     try_in (validate_operator_context_coupling state op ''/'') (\<lambda>_.
     try_in (check_successor tools policy states snapshot state) (\<lambda>_.
     if \<not> as_writable store then Inl (history_failure ''write_error'' ''/'' ''unable to write history artifact'')
     else Inr (updated, store\<lparr>as_history := Some (Json (history_to_dict (ht_sha tools) updated))\<rparr>)))))))))"

section \<open>Resolving one more entry\<close>

lemma traverse_append: "traverse f xs = Inr as \<Longrightarrow> traverse f ys = Inr bs \<Longrightarrow> traverse f (xs @ ys) = Inr (as @ bs)"
  unfolding traverse_Inr_iff by (rule list_all2_appendI)

lemma numbered_snoc: "zip [0..<length (xs @ [x])] (xs @ [x]) = zip [0..<length xs] xs @ [(length xs, x)]"
  by (simp add: zip_append)

definition adjacent :: "'a list \<Rightarrow> (nat \<times> 'a \<times> 'a) list" where
  "adjacent xs = zip [0..<length xs] (zip xs (tl xs))"

lemma adjacent_snoc:
  "adjacent (xs @ [x]) = (if xs = [] then [] else adjacent xs @ [(length xs - 1, last xs, x)])"
proof (cases "xs = []")
  case False
  show ?thesis
  proof (rule nth_equalityI)
    fix i assume "i < length (adjacent (xs @ [x]))"
    then have i: "i < length xs" by (simp add: adjacent_def)
    then show "adjacent (xs @ [x]) ! i = (if xs = [] then [] else adjacent xs @ [(length xs - 1, last xs, x)]) ! i"
      using False by (cases "i = length xs - 1") (auto simp: adjacent_def nth_append nth_tl last_conv_nth)
  qed (use False in \<open>auto simp: adjacent_def\<close>)
qed (simp add: adjacent_def)

lemma resolve_snoc:
  assumes "resolve_history_artifacts tools store h = Inr r" "resolve_entry tools store (length (gh_entries h)) e = Inr s"
    "rh_states r \<noteq> [] \<Longrightarrow> \<exists>c. compare_adjacent tools (gh_comparison_policy h) (re_snapshot (last (rh_states r))) (re_snapshot s)
       (length (rh_states r)) = Inr c"
  shows "\<exists>r'. resolve_history_artifacts tools store (h\<lparr>gh_entries := gh_entries h @ [e]\<rparr>) = Inr r' \<and> rh_states r' = rh_states r @ [s]"
proof -
  let ?entry = "\<lambda>(index, entry). resolve_entry tools store index entry"
  let ?pair = "\<lambda>(index, left, right). compare_adjacent tools (gh_comparison_policy h) (re_snapshot left) (re_snapshot right) (index + 1)"
  have old: "traverse ?entry (zip [0..<length (gh_entries h)] (gh_entries h)) = Inr (rh_states r)"
    "traverse ?pair (adjacent (rh_states r)) = Inr (rh_comparisons r)"
    using assms(1) by (auto simp: resolve_history_artifacts_def adjacent_def split_result)
  have states: "traverse ?entry (zip [0..<length (gh_entries h @ [e])] (gh_entries h @ [e])) = Inr (rh_states r @ [s])"
    unfolding numbered_snoc by (rule traverse_append [OF old(1)]) (simp add: assms(2))
  obtain cs where "traverse ?pair (adjacent (rh_states r @ [s])) = Inr cs"
  proof (cases "rh_states r = []")
    case True
    then show ?thesis using that [of "[]"] by (simp add: adjacent_def)
  next
    case False
    from assms(3) [OF this] obtain c where
      c: "compare_adjacent tools (gh_comparison_policy h) (re_snapshot (last (rh_states r))) (re_snapshot s) (length (rh_states r)) = Inr c"
      by blast
    have "traverse ?pair [(length (rh_states r) - 1, last (rh_states r), s)] = Inr [c]" using c False by simp
    from traverse_append [OF old(2) this] show ?thesis using that False by (simp add: adjacent_snoc)
  qed
  then show ?thesis using states by (simp add: resolve_history_artifacts_def adjacent_def)
qed

lemma resolve_states: "resolve_history_artifacts tools store h = Inr r \<Longrightarrow> map re_entry (rh_states r) = gh_entries h \<and> rh_history r = h"
proof -
  assume "resolve_history_artifacts tools store h = Inr r"
  then have r: "rh_history r = h" "list_all2 (\<lambda>(i, e) s. resolve_entry tools store i e = Inr s) (zip [0..<length (gh_entries h)] (gh_entries h)) (rh_states r)"
    by (auto simp: resolve_history_artifacts_def split_result traverse_Inr_iff case_prod_unfold)
  have "re_entry s = e" if "resolve_entry tools store i e = Inr s" for i e s
    using that by (auto simp: resolve_entry_def Let_def split_result split: if_splits)
  then have "list_all2 (\<lambda>e s. re_entry s = e) (gh_entries h) (rh_states r)"
    using r(2) by (auto simp: list_all2_conv_all_nth)
  then show ?thesis using r(1) by (auto simp: list_all2_conv_all_nth intro: nth_equalityI)
qed

lemma resolve_other_history [simp]:
  "resolve_history_artifacts tools (store\<lparr>as_history := f\<rparr>) h = resolve_history_artifacts tools store h"
proof -
  let ?other = "store\<lparr>as_history := f\<rparr>"
  have loaders: "load_snapshot_artifact tools ?other = load_snapshot_artifact tools store"
    "load_observations_at tools ?other = load_observations_at tools store"
    "load_authority_at tools ?other = load_authority_at tools store"
    by (simp_all add: load_snapshot_artifact_def load_observations_at_def load_authority_at_def fun_eq_iff)
  have "resolve_full_context tools ?other = resolve_full_context tools store"
    by (intro ext) (simp only: resolve_full_context_def loaders)
  then have "resolve_entry_context tools ?other = resolve_entry_context tools store"
    by (intro ext) (simp only: resolve_entry_context_def loaders)
  then have "resolve_entry tools ?other = resolve_entry tools store"
    by (intro ext) (simp only: resolve_entry_def loaders)
  then show ?thesis by (simp add: resolve_history_artifacts_def)
qed

section \<open>What a successful append establishes\<close>

lemma loaded_coherent: "load_snapshot_artifact tools store path = Inr sn \<Longrightarrow> coherent_snapshot sn"
  by (auto simp: load_snapshot_artifact_def split: file_text.splits dest!: load_Inr parse_sound)

lemma append_Inr:
  "append_history_entry tools args store = Inr (h, store') \<longleftrightarrow> (\<exists>op labels t sn resolved policy ctx.
     append_operator args = Inr op \<and> normalize_labels (aa_labels args) ''/labels'' = Inr labels \<and>
     validate_captured_at (aa_captured_at args) ''/captured_at'' = Inr t \<and>
     load_snapshot_artifact tools store (ho_snapshot_path op) = Inr sn \<and>
     existing_history tools store args = Inr (resolved, policy) \<and> append_context tools store op = Inr ctx \<and>
     (let state = \<lparr>hs_snapshot = snapshot_content_identity (ht_sha tools) sn, hs_labels = labels, hs_context = ctx\<rparr> in
       validate_operator_context_coupling state op ''/'' = Inr () \<and>
       check_successor tools policy (case resolved of None \<Rightarrow> [] | Some r \<Rightarrow> rh_states r) sn state = Inr () \<and> as_writable store \<and>
       h = \<lparr>gh_comparison_policy = policy, gh_entries = (case resolved of None \<Rightarrow> [] | Some r \<Rightarrow> gh_entries (rh_history r)) @
         [\<lparr>he_state = state, he_operator = op, he_captured_at = t\<rparr>]\<rparr> \<and>
       store' = store\<lparr>as_history := Some (Json (history_to_dict (ht_sha tools) h))\<rparr>))"
  unfolding append_history_entry_def Let_def
  by (auto simp: try_in_Inr split: if_split_asm)

lemma context_valid:
  assumes "append_context tools store op = Inr ctx" "\<forall>s. ht_sha tools s \<noteq> []"
  shows "pred_option valid_context ctx"
  using assms(1) identity_nonempty [OF assms(2)]
  by (auto simp: append_context_def build_context_identities_def valid_context_def observation_set_identity_def
      authority_content_identity_def conflict_report_identity_def split_result split: option.splits; blast)

lemma captured_valid: "validate_captured_at raw path = Inr t \<Longrightarrow> pred_option (\<lambda>t. matches_captured_at t \<and> is_date_time t) t"
  by (auto simp: validate_captured_at_def split: json.splits if_splits)

lemma existing_cases:
  assumes "existing_history tools store args = Inr (resolved, policy)"
  shows "case resolved of
      None \<Rightarrow> as_history store = None
    | Some r \<Rightarrow> \<exists>file. as_history store = Some file \<and> load_history_artifact tools file = Inr (rh_history r) \<and>
        resolve_history_artifacts tools store (rh_history r) = Inr r \<and> policy = gh_comparison_policy (rh_history r) \<and>
        map re_entry (rh_states r) = gh_entries (rh_history r)"
proof (cases "as_history store")
  case None
  then show ?thesis using assms by (simp add: existing_history_def)
next
  case (Some f)
  then obtain old r where "load_history_artifact tools f = Inr old" "resolve_history_artifacts tools store old = Inr r"
    "resolved = Some r" "policy = gh_comparison_policy old"
    using assms by (auto simp: existing_history_def Let_def split_result split: if_splits)
  then show ?thesis using resolve_states Some by auto
qed

lemma load_file_normal: "load_history_artifact tools file = Inr h \<Longrightarrow> normal_history h"
  by (auto simp: load_history_artifact_def split: file_text.splits dest: loaded_history_normal)

lemma reload_observations:
  "load_observations_at tools store p e ''/'' = Inr obs \<Longrightarrow>
     load_observations_at tools store p (Some (observation_set_identity (ht_sha tools) obs)) path = Inr obs"
  by (auto simp: load_observations_at_def split_result split: if_splits)

lemma reload_authority:
  "load_authority_at tools store ps e ''/'' = Inr a \<Longrightarrow>
     load_authority_at tools store ps (Some (authority_content_identity (ht_sha tools) a)) path = Inr a"
  by (auto simp: load_authority_at_def split: sum.splits if_splits)

lemma traverse_length: "traverse f xs = Inr ys \<Longrightarrow> length ys = length xs"
  by (simp add: traverse_Inr_iff list_all2_lengthD)

lemma operator_parts:
  assumes "append_operator args = Inr op"
  shows "ho_authority_paths op \<noteq> Some []" "ho_observations_path op = None \<Longrightarrow> ho_authority_paths op = None"
  using assms by (auto simp: append_operator_def split_result split: option.splits list.splits if_splits dest!: traverse_length)

lemma context_resolves:
  assumes op: "append_operator args = Inr op" and ctx: "append_context tools store op = Inr ctx" and sha: "\<forall>s. ht_sha tools s \<noteq> []"
    and state: "hs_context state = ctx"
  shows "\<exists>c. resolve_entry_context tools store state (ho_observations_path op) (ho_authority_paths op) path = Inr c"
proof (cases "ho_observations_path op")
  case None
  then have "ctx = None" using ctx operator_parts(2) [OF op] by (simp add: append_context_def build_context_identities_def)
  then show ?thesis by (simp add: resolve_entry_context_def context_form_def state)
next
  case obs_path: (Some p)
  then obtain obs where obs: "load_observations_at tools store p None ''/'' = Inr obs"
    using ctx by (auto simp: append_context_def split_result)
  note again = reload_observations [OF obs] and known = identity_roundtrip [OF identity_nonempty [OF sha]]
  show ?thesis
  proof (cases "ho_authority_paths op")
    case None
    then have "ctx = Some [(''observations'', content_identity_dict (observation_set_identity (ht_sha tools) obs))]"
      using ctx obs obs_path by (simp add: append_context_def build_context_identities_def)
    then show ?thesis
      using again known by (simp add: resolve_entry_context_def context_form_def state obs_path get_item_def observation_set_identity_def)
  next
    case (Some ps)
    then obtain q qs where ps: "ps = q # qs" using operator_parts(1) [OF op] by (cases ps) auto
    obtain auth where auth: "load_authority_at tools store ps None ''/'' = Inr auth"
      using ctx obs obs_path Some by (auto simp: append_context_def split_result)
    have c: "ctx = Some [(''authority'', content_identity_dict (authority_content_identity (ht_sha tools) auth)),
           (''conflicts'', content_identity_dict (conflict_report_identity (ht_sha tools) (analyze_property_conflicts obs auth))),
           (''observations'', content_identity_dict (observation_set_identity (ht_sha tools) obs))]"
      using ctx obs obs_path auth Some by (simp add: append_context_def build_context_identities_def)
    have form: "context_form state = Inr FullContext" by (simp add: context_form_def state c insert_commute)
    show ?thesis
      using again known reload_authority [OF auth]
      by (simp add: resolve_entry_context_def form state c obs_path get_item_def observation_set_identity_def
          resolve_full_context_def Some ps authority_content_identity_def conflict_report_identity_def Let_def)
  qed
qed

lemma entry_resolves:
  assumes "append_operator args = Inr op" "append_context tools store op = Inr ctx" "\<forall>s. ht_sha tools s \<noteq> []"
    "load_snapshot_artifact tools store (ho_snapshot_path op) = Inr sn" "project_snapshot side sn = Inr p"
    "he_state e = \<lparr>hs_snapshot = snapshot_content_identity (ht_sha tools) sn, hs_labels = labels, hs_context = ctx\<rparr>" "he_operator e = op"
  shows "\<exists>s. resolve_entry tools store i e = Inr s \<and> re_snapshot s = sn"
proof -
  have "project_snapshot ''baseline'' sn = Inr p" using projection_side loaded_coherent assms(4,5) by blast
  moreover obtain c where "resolve_entry_context tools store (he_state e) (ho_observations_path op) (ho_authority_paths op)
      (''/entries/'' @ str_nat i) = Inr c"
    using context_resolves [OF assms(1-3), of "he_state e"] assms(6) by auto
  ultimately show ?thesis using assms(4,6,7) by (simp add: resolve_entry_def Let_def)
qed

lemma append_extends:
  assumes "append_history_entry tools args store = Inr (h, store')" "\<forall>s. ht_sha tools s \<noteq> []"
  shows "store' = store\<lparr>as_history := Some (Json (history_to_dict (ht_sha tools) h))\<rparr> \<and> normal_history h \<and>
    (\<exists>old e sn. gh_entries h = old @ [e] \<and>
      load_snapshot_artifact tools store (ho_snapshot_path (he_operator e)) = Inr sn \<and>
      hs_snapshot (he_state e) = snapshot_content_identity (ht_sha tools) sn \<and>
      (old \<noteq> [] \<longrightarrow> entry_state_identity (ht_sha tools) (he_state (last old)) \<noteq> entry_state_identity (ht_sha tools) (he_state e)) \<and>
      (case as_history store of None \<Rightarrow> old = []
       | Some file \<Rightarrow> load_history_artifact tools file = Inr \<lparr>gh_comparison_policy = gh_comparison_policy h, gh_entries = old\<rparr>))"
proof -
  from assms(1)[unfolded append_Inr Let_def] obtain op labels t sn resolved policy ctx where *:
    "append_operator args = Inr op" "normalize_labels (aa_labels args) ''/labels'' = Inr labels"
    "validate_captured_at (aa_captured_at args) ''/captured_at'' = Inr t"
    "load_snapshot_artifact tools store (ho_snapshot_path op) = Inr sn"
    "existing_history tools store args = Inr (resolved, policy)" "append_context tools store op = Inr ctx"
    and coupling: "validate_operator_context_coupling
      \<lparr>hs_snapshot = snapshot_content_identity (ht_sha tools) sn, hs_labels = labels, hs_context = ctx\<rparr> op ''/'' = Inr ()"
    and successor: "check_successor tools policy (case resolved of None \<Rightarrow> [] | Some r \<Rightarrow> rh_states r) sn
      \<lparr>hs_snapshot = snapshot_content_identity (ht_sha tools) sn, hs_labels = labels, hs_context = ctx\<rparr> = Inr ()"
    and h: "h = \<lparr>gh_comparison_policy = policy, gh_entries = (case resolved of None \<Rightarrow> [] | Some r \<Rightarrow> gh_entries (rh_history r)) @
         [\<lparr>he_state = \<lparr>hs_snapshot = snapshot_content_identity (ht_sha tools) sn, hs_labels = labels, hs_context = ctx\<rparr>,
           he_operator = op, he_captured_at = t\<rparr>]\<rparr>"
    and store': "store' = store\<lparr>as_history := Some (Json (history_to_dict (ht_sha tools) h))\<rparr>" by blast
  define e where "e = \<lparr>he_state = \<lparr>hs_snapshot = snapshot_content_identity (ht_sha tools) sn, hs_labels = labels, hs_context = ctx\<rparr>,
    he_operator = op, he_captured_at = t\<rparr>"
  define old where "old = (case resolved of None \<Rightarrow> [] | Some r \<Rightarrow> gh_entries (rh_history r))"
  have entries: "gh_entries h = old @ [e]" by (simp add: h old_def e_def)
  have e_normal: "normal_entry e"
    using labels_sound [OF *(2)] captured_valid [OF *(3)] context_valid [OF *(6) assms(2)] identity_nonempty [OF assms(2)] coupling
    by (simp add: normal_entry_def e_def normal_state_def coupling_iff snapshot_content_identity_def)
  have past: "case as_history store of None \<Rightarrow> old = []
       | Some file \<Rightarrow> load_history_artifact tools file = Inr \<lparr>gh_comparison_policy = gh_comparison_policy h, gh_entries = old\<rparr>"
    using existing_cases [OF *(5)] by (auto simp: h old_def split: option.splits)
  then have "list_all normal_entry old"
    by (auto split: option.splits dest!: load_file_normal [unfolded normal_history_def])
  moreover have "entry_state_identity (ht_sha tools) (he_state (last old)) \<noteq> entry_state_identity (ht_sha tools) (he_state e)" if some: "old \<noteq> []"
  proof -
    obtain r where r: "resolved = Some r" using some by (cases resolved) (simp_all add: old_def)
    then have states: "map re_entry (rh_states r) = old" using existing_cases [OF *(5)] by (auto simp: old_def)
    then have "rh_states r \<noteq> []" using some by auto
    then have "re_entry (last (rh_states r)) = last old" using states last_map by metis
    then show ?thesis using successor \<open>rh_states r \<noteq> []\<close> by (simp add: check_successor_def r e_def try_in_Inr require_def split: if_splits)
  qed
  ultimately show ?thesis using e_normal entries past store' *(4) by (auto simp: normal_history_def e_def)
qed

lemma append_only_normal:
  "append_history_entry tools args store = Inr (h, store') \<Longrightarrow> \<forall>s. ht_sha tools s \<noteq> [] \<Longrightarrow> normal_history h"
  using append_extends by blast

text \<open>A directory with one snapshot file and no history, and the arguments of a first entry.\<close>

definition example_tools :: history_tools where
  "example_tools = \<lparr>ht_sha = \<lambda>_. ''d'', ht_history_errors = \<lambda>_. [], ht_snapshot_error = \<lambda>_. None\<rparr>"

definition example_store :: artifact_store where
  "example_store = \<lparr>as_history = None, as_snapshot = (\<lambda>_. Json (snapshot_to_dict (\<lambda>_. ''d'') small_snapshot)),
     as_observations = (\<lambda>_. Inl (Diagnostics ''ObservationsArtifactError'' [])), as_authority = (\<lambda>_. Inl []), as_writable = True\<rparr>"

definition example_arguments :: append_arguments where
  "example_arguments = \<lparr>aa_snapshot_path = ''./snapshots//one.json '', aa_observations_path = None, aa_authority_paths = None,
     aa_labels = JObject [('' env '', JStr ''prod'')], aa_captured_at = JStr ''2024-02-29T12:00:00.5Z'',
     aa_align_source_roots = Some True, aa_align_database_roots = None\<rparr>"

definition example_history :: GovernanceHistory where
  "example_history = \<lparr>gh_comparison_policy = \<lparr>cp_align_source_roots = True, cp_align_database_roots = False\<rparr>,
     gh_entries = [\<lparr>he_state = \<lparr>hs_snapshot = snapshot_content_identity (\<lambda>_. ''d'') small_snapshot, hs_labels = Some [(''env'', ''prod'')],
         hs_context = None\<rparr>,
       he_operator = \<lparr>ho_snapshot_path = ''snapshots/one.json'', ho_observations_path = None, ho_authority_paths = None\<rparr>,
       he_captured_at = Some ''2024-02-29T12:00:00.5Z''\<rparr>]\<rparr>"

lemma example_snapshot_loads: "load_snapshot_artifact example_tools example_store path = Inr small_snapshot"
  using load_saved [OF small_snapshot_coherent small_snapshot_canonical, of "\<lambda>_. None"]
  by (simp add: load_snapshot_artifact_def example_store_def example_tools_def)

lemma example_append:
  "append_history_entry example_tools example_arguments example_store =
     Inr (example_history, example_store\<lparr>as_history := Some (Json (history_to_dict (\<lambda>_. ''d'') example_history))\<rparr>)"
proof -
  have "append_operator example_arguments = Inr \<lparr>ho_snapshot_path = ''snapshots/one.json'', ho_observations_path = None, ho_authority_paths = None\<rparr>"
    "normalize_labels (aa_labels example_arguments) ''/labels'' = Inr (Some [(''env'', ''prod'')])"
    "validate_captured_at (aa_captured_at example_arguments) ''/captured_at'' = Inr (Some ''2024-02-29T12:00:00.5Z'')"
    "existing_history example_tools example_store example_arguments = Inr (None, gh_comparison_policy example_history)"
    by code_simp+
  then show ?thesis
    by (simp add: append_history_entry_def example_snapshot_loads append_context_def build_context_identities_def
        validate_operator_context_coupling_def context_form_def check_successor_def Let_def require_def)
      (simp add: example_store_def example_history_def example_tools_def)
qed

section \<open>Properties\<close>

text \<open>C36 (invariant). Appending never rewrites the past: when it succeeds, the history file holds the stored history with
  its policy, its entries unchanged and in order, and one new entry, whose state differs from that of the last
  entry and records the identity of the snapshot that is read at the recorded path; nothing else in the directory
  changes, and every entry is in normal form (labels trimmed and bounded, a valid timestamp, a context of one
  of the three forms with the locators it needs).\<close>

theorem append_only:
  assumes "append_history_entry tools args store = Inr (h, store')" "\<forall>s. ht_sha tools s \<noteq> []"
  shows "store' = store\<lparr>as_history := Some (Json (history_to_dict (ht_sha tools) h))\<rparr> \<and> normal_history h \<and>
    (\<exists>old e sn. gh_entries h = old @ [e] \<and>
      load_snapshot_artifact tools store (ho_snapshot_path (he_operator e)) = Inr sn \<and>
      hs_snapshot (he_state e) = snapshot_content_identity (ht_sha tools) sn \<and>
      (old \<noteq> [] \<longrightarrow> entry_state_identity (ht_sha tools) (he_state (last old)) \<noteq> entry_state_identity (ht_sha tools) (he_state e)) \<and>
      (case as_history store of None \<Rightarrow> old = []
       | Some file \<Rightarrow> load_history_artifact tools file = Inr \<lparr>gh_comparison_policy = gh_comparison_policy h, gh_entries = old\<rparr>))"
  by (rule append_extends [OF assms])

lemma append_only_witness:
  "append_history_entry example_tools example_arguments example_store =
     Inr (example_history, example_store\<lparr>as_history := Some (Json (history_to_dict (\<lambda>_. ''d'') example_history))\<rparr>) \<and>
   normal_history example_history"
proof -
  have "\<forall>s. ht_sha example_tools s \<noteq> []" by (simp add: example_tools_def)
  then show ?thesis using append_only [OF example_append] example_append by blast
qed

text \<open>A history file is sound when it loads and every artifact it names resolves.\<close>

definition sound_history :: "history_tools \<Rightarrow> artifact_store \<Rightarrow> GovernanceHistory \<Rightarrow> bool" where
  "sound_history tools store h \<longleftrightarrow> (\<exists>file r. as_history store = Some file \<and> load_history_artifact tools file = Inr h \<and>
     resolve_history_artifacts tools store h = Inr r)"

text \<open>After a successful append the file loads and resolves; a first entry needs a snapshot that can be projected.\<close>

lemma appended_resolves:
  assumes "append_history_entry tools args store = Inr (h, store')" "\<forall>s. ht_sha tools s \<noteq> []"
    "stable_history h" "ht_history_errors tools (history_to_dict (ht_sha tools) h) = []"
    "length (gh_entries h) = 1 \<Longrightarrow> \<exists>sn p. load_snapshot_artifact tools store (ho_snapshot_path (he_operator (hd (gh_entries h)))) = Inr sn \<and>
       project_snapshot ''baseline'' sn = Inr p"
  shows "sound_history tools store' h"
proof -
  from assms(1)[unfolded append_Inr Let_def] obtain op labels t sn resolved policy ctx where *:
    "append_operator args = Inr op" "load_snapshot_artifact tools store (ho_snapshot_path op) = Inr sn"
    "existing_history tools store args = Inr (resolved, policy)" "append_context tools store op = Inr ctx"
    and successor: "check_successor tools policy (case resolved of None \<Rightarrow> [] | Some r \<Rightarrow> rh_states r) sn
      \<lparr>hs_snapshot = snapshot_content_identity (ht_sha tools) sn, hs_labels = labels, hs_context = ctx\<rparr> = Inr ()"
    and h: "h = \<lparr>gh_comparison_policy = policy, gh_entries = (case resolved of None \<Rightarrow> [] | Some r \<Rightarrow> gh_entries (rh_history r)) @
         [\<lparr>he_state = \<lparr>hs_snapshot = snapshot_content_identity (ht_sha tools) sn, hs_labels = labels, hs_context = ctx\<rparr>,
           he_operator = op, he_captured_at = t\<rparr>]\<rparr>"
    and store': "store' = store\<lparr>as_history := Some (Json (history_to_dict (ht_sha tools) h))\<rparr>" by blast
  have normal: "normal_history h" using append_only_normal [OF assms(1,2)] .
  define e where "e = \<lparr>he_state = \<lparr>hs_snapshot = snapshot_content_identity (ht_sha tools) sn, hs_labels = labels, hs_context = ctx\<rparr>,
    he_operator = op, he_captured_at = t\<rparr>"
  define before where "before = (case resolved of None \<Rightarrow> \<lparr>gh_comparison_policy = policy, gh_entries = []\<rparr> | Some r \<Rightarrow> rh_history r)"
  obtain r where r: "resolve_history_artifacts tools store before = Inr r" "gh_comparison_policy before = policy"
    "rh_states r = (case resolved of None \<Rightarrow> [] | Some r \<Rightarrow> rh_states r)"
  proof (cases resolved)
    case None
    then have "resolve_history_artifacts tools store before = Inr \<lparr>rh_history = before, rh_states = [], rh_comparisons = []\<rparr>"
      "gh_comparison_policy before = policy" by (simp_all add: before_def resolve_history_artifacts_def)
    then show ?thesis using that None by fastforce
  next
    case (Some r)
    then show ?thesis using existing_cases [OF *(3)] that [of r] by (auto simp: before_def)
  qed
  have h_eq: "h = before\<lparr>gh_entries := gh_entries before @ [e]\<rparr>"
    using r(2) by (cases resolved) (simp_all add: h before_def e_def)
  obtain side p where projected: "project_snapshot side sn = Inr p"
  proof (cases "rh_states r = []")
    case True
    then have "gh_entries before = []" using resolve_states [OF r(1)] by simp
    then show ?thesis using assms(5) *(2) that by (auto simp: h_eq e_def)
  next
    case False
    then show ?thesis using successor that by (auto simp: check_successor_def compare_adjacent_def r(3) split_result build_Inr split: if_splits)
  qed
  obtain s where s: "resolve_entry tools store (length (gh_entries before)) e = Inr s" "re_snapshot s = sn"
    using entry_resolves [OF *(1,4) assms(2) *(2) projected, of e] by (auto simp: e_def)
  have "\<exists>c. compare_adjacent tools (gh_comparison_policy before) (re_snapshot (last (rh_states r))) (re_snapshot s) (length (rh_states r)) = Inr c"
    if "rh_states r \<noteq> []"
    using successor that by (auto simp: check_successor_def r(2,3) s(2) split_result split: if_splits)
  from resolve_snoc [OF r(1) s(1) this] obtain r' where "resolve_history_artifacts tools store h = Inr r'" unfolding h_eq by blast
  moreover have "load_history_artifact tools (Json (history_to_dict (ht_sha tools) h)) = Inr h"
    unfolding load_history_artifact_def file_text.case by (rule load_saved_history [OF normal assms(3) _ assms(2), where schema_errors = "ht_history_errors tools"]) (rule assms(4))
  ultimately show ?thesis by (auto simp: sound_history_def store')
qed

text \<open>Every entry of a history that resolves names a snapshot that can be read and projected.\<close>

lemma resolved_projects:
  assumes "resolve_history_artifacts tools store h = Inr r" "e \<in> set (gh_entries h)"
  shows "\<exists>sn p. load_snapshot_artifact tools store (ho_snapshot_path (he_operator e)) = Inr sn \<and> project_snapshot ''baseline'' sn = Inr p"
proof -
  have all: "list_all2 (\<lambda>(i, e) s. resolve_entry tools store i e = Inr s) (zip [0..<length (gh_entries h)] (gh_entries h)) (rh_states r)"
    using assms(1) by (auto simp: resolve_history_artifacts_def split_result traverse_Inr_iff case_prod_unfold)
  obtain i where i: "i < length (gh_entries h)" "gh_entries h ! i = e" using assms(2) by (auto simp: in_set_conv_nth)
  have "resolve_entry tools store i e = Inr (rh_states r ! i)"
    using list_all2_nthD [OF all, of i] i by simp
  then show ?thesis by (auto simp: resolve_entry_def Let_def split_result split: if_splits)
qed

text \<open>C37 (safety). When what was appended can be used: if the paths recorded in the new history are stable under normalization and
  its file passes the schema, then after a successful append the file loads as the history that was returned
  and resolves against the unchanged artifacts (every snapshot and every context is found with the recorded
  identity, is projected, and adjacent snapshots compare), except in exactly one case: a first entry whose snapshot cannot be
  projected, which the code does not check before it writes.\<close>

theorem appended_history_sound:
  assumes "append_history_entry tools args store = Inr (h, store')" "\<forall>s. ht_sha tools s \<noteq> []"
    "stable_history h" "ht_history_errors tools (history_to_dict (ht_sha tools) h) = []"
  shows "sound_history tools store' h \<longleftrightarrow> (length (gh_entries h) = 1 \<longrightarrow>
    (\<exists>sn p. load_snapshot_artifact tools store (ho_snapshot_path (he_operator (hd (gh_entries h)))) = Inr sn \<and>
       project_snapshot ''baseline'' sn = Inr p))"
proof
  assume "sound_history tools store' h"
  then obtain r where r: "resolve_history_artifacts tools store' h = Inr r" by (auto simp: sound_history_def)
  have same: "load_snapshot_artifact tools store' path = load_snapshot_artifact tools store path" for path
    using assms(1) by (auto simp: append_Inr Let_def load_snapshot_artifact_def)
  show "length (gh_entries h) = 1 \<longrightarrow>
    (\<exists>sn p. load_snapshot_artifact tools store (ho_snapshot_path (he_operator (hd (gh_entries h)))) = Inr sn \<and>
       project_snapshot ''baseline'' sn = Inr p)"
  proof
    assume "length (gh_entries h) = 1"
    then have "hd (gh_entries h) \<in> set (gh_entries h)" by (intro hd_in_set) auto
    from resolved_projects [OF r this] show "\<exists>sn p. load_snapshot_artifact tools store (ho_snapshot_path (he_operator (hd (gh_entries h)))) = Inr sn \<and>
       project_snapshot ''baseline'' sn = Inr p" unfolding same .
  qed
qed (rule appended_resolves [OF assms], blast)

lemma appended_history_sound_witness:
  "sound_history example_tools (example_store\<lparr>as_history := Some (Json (history_to_dict (\<lambda>_. ''d'') example_history))\<rparr>) example_history"
proof -
  have "stable_path ''snapshots/one.json''" by code_simp
  then have stable: "stable_history example_history" by (simp add: stable_history_def example_history_def stable_operator_def)
  have "\<exists>p. project_snapshot ''baseline'' small_snapshot = Inr p"
    by (rule projects_when_distinct [OF small_snapshot_coherent]) code_simp
  then have projects: "\<exists>sn p. load_snapshot_artifact example_tools example_store
      (ho_snapshot_path (he_operator (hd (gh_entries example_history)))) = Inr sn \<and> project_snapshot ''baseline'' sn = Inr p"
    using example_snapshot_loads by blast
  have tools: "\<forall>s. ht_sha example_tools s \<noteq> []" "ht_history_errors example_tools (history_to_dict (ht_sha example_tools) example_history) = []"
    by (simp_all add: example_tools_def)
  show ?thesis by (rule appended_history_sound [OF example_append tools(1) stable tools(2), THEN iffD2]) (intro impI projects)
qed

text \<open>A path that is accepted when an entry is appended, and refused or changed when the file is read again.\<close>

lemma drive_like_path_unreadable:
  "normalize_history_relative_path (JStr ''./c:one.json'') ''/'' = Inr ''c:one.json'' \<and>
   normalize_history_relative_path (JStr ''c:one.json'') ''/'' = Inl (invalid_history ''/'' ''drive-qualified paths are not allowed'') \<and>
   normalize_history_relative_path (JStr ''./ one.json'') ''/'' = Inr '' one.json'' \<and>
   normalize_history_relative_path (JStr '' one.json'') ''/'' = Inr ''one.json''"
  by code_simp

end
