(* ===== verification/History_Evolution.thy ===== *)
theory History_Evolution
  imports History_Append
begin

text \<open>
  The package \<open>history\<close>, third part: the evolution of an object or of one of its properties along a resolved history
  (\<open>history/evolution.py\<close>, \<open>history/result.py\<close>). The schema check of the finished result is the parameter
  \<open>schema_error\<close>, the path and validator of its first error. The theorem says that the values a timeline shows
  are those the projected snapshots hold, whichever way the code finds them.
\<close>

section \<open>Snapshot values\<close>

definition snapshot_property_state :: "ProjectedSnapshot \<Rightarrow> ComparisonObjectIdentity \<Rightarrow> string \<Rightarrow> ComparablePropertyValue" where
  "snapshot_property_state projected identity property_path =
     (case map_of (pj_objects projected) identity of
        None \<Rightarrow> missing
      | Some obj \<Rightarrow> (case map_of (cb_properties obj) property_path of None \<Rightarrow> missing | Some v \<Rightarrow> v))"

record availability_side =
  av_provenance :: bool
  av_authority_decision :: bool
  av_conflict :: bool

definition availability_side :: "ResolvedEntryState \<Rightarrow> availability_side result" where
  "availability_side state =
     try_in (context_form (he_state (re_entry state))) (\<lambda>form.
       Inr \<lparr>av_provenance = (form \<noteq> NoContext), av_authority_decision = (form = FullContext), av_conflict = (form = FullContext)\<rparr>)"

definition sides_dict :: "bool \<Rightarrow> bool \<Rightarrow> json" where
  "sides_dict l r = JObject [(''baseline'', JBool l), (''candidate'', JBool r)]"

definition build_availability :: "ResolvedEntryState \<Rightarrow> ResolvedEntryState \<Rightarrow> json result" where
  "build_availability baseline candidate =
     try_in (availability_side baseline) (\<lambda>l. try_in (availability_side candidate) (\<lambda>r.
       Inr (JObject [(''authority_decision'', sides_dict (av_authority_decision l) (av_authority_decision r)),
         (''conflict'', sides_dict (av_conflict l) (av_conflict r)), (''provenance'', sides_dict (av_provenance l) (av_provenance r)),
         (''snapshot'', sides_dict True True)])))"

definition find_object_change :: "comparison_result \<Rightarrow> ComparisonObjectIdentity \<Rightarrow> object_change option" where
  "find_object_change comparison identity = find (\<lambda>c. oc_object_identity c = identity) (cr_object_changes comparison)"

text \<open>The \<open>snapshot\<close> block of a transition; its property has the fields of a property change.\<close>

record snapshot_branch =
  sb_object_change :: "object_change option"
  sb_property :: "property_change option"

definition branch_values ::
  "object_change option \<Rightarrow> ResolvedEntryState \<Rightarrow> ResolvedEntryState \<Rightarrow> ComparisonObjectIdentity \<Rightarrow> string \<Rightarrow>
   ComparablePropertyValue \<times> ComparablePropertyValue" where
  "branch_values object_change baseline candidate obj property =
     (let left = snapshot_property_state (re_projected baseline) obj property;
          right = snapshot_property_state (re_projected candidate) obj property in
      case object_change of
        None \<Rightarrow> (left, right)
      | Some change \<Rightarrow>
          (case oc_change change of
             Changed \<Rightarrow> (case find (\<lambda>p. pc_property p = property) (oc_property_changes change) of
                 Some m \<Rightarrow> (pc_baseline m, pc_candidate m)
               | None \<Rightarrow> (left, right))
           | Added \<Rightarrow> (missing, right)
           | Removed \<Rightarrow> (left, missing)))"

definition build_snapshot_branch ::
  "comparison_result \<Rightarrow> ResolvedEntryState \<Rightarrow> ResolvedEntryState \<Rightarrow> ComparisonObjectIdentity option \<Rightarrow> string option \<Rightarrow> snapshot_branch" where
  "build_snapshot_branch comparison baseline candidate queried_object queried_property =
     (case queried_object of
        None \<Rightarrow> \<lparr>sb_object_change = None, sb_property = None\<rparr>
      | Some obj \<Rightarrow>
          (let object_change = find_object_change comparison obj in
           \<lparr>sb_object_change = object_change,
            sb_property = (case queried_property of
                None \<Rightarrow> None
              | Some property \<Rightarrow>
                  if obj \<in> set (keys (pj_objects (re_projected baseline))) \<or> obj \<in> set (keys (pj_objects (re_projected candidate))) \<or>
                     object_change \<noteq> None
                  then (let (l, r) = branch_values object_change baseline candidate obj property in
                    Some \<lparr>pc_baseline = l, pc_candidate = r, pc_property = property\<rparr>)
                  else None)\<rparr>))"

section \<open>Context values\<close>

definition observations_for :: "PropertyObservationSet option \<Rightarrow> GraphNodeIdentity \<Rightarrow> PropertyPath \<Rightarrow> json list" where
  "observations_for observations obj path =
     (case observations of
        None \<Rightarrow> []
      | Some s \<Rightarrow> map to_value_group_dict (sort_key value_fingerprint
          (filter (\<lambda>ob. ob_object_identity ob = obj \<and> ob_property_path ob = path) (os_observations s))))"

definition provenance_projection :: "PropertyObservationSet option \<Rightarrow> GraphNodeIdentity \<Rightarrow> PropertyPath \<Rightarrow> json" where
  "provenance_projection observations obj path = JObject [(''value_groups'', JArray (observations_for observations obj path))]"

definition find_conflict_result ::
  "PropertyConflictReport option \<Rightarrow> GraphNodeIdentity \<Rightarrow> PropertyPath \<Rightarrow> PropertyConflictResult option" where
  "find_conflict_result report obj path =
     (case report of None \<Rightarrow> None
      | Some r \<Rightarrow> find (\<lambda>c. cr_object_identity c = obj \<and> cr_property_path c = path) (rep_results r))"

definition conflict_state_projection :: "PropertyConflictResult option \<Rightarrow> json" where
  "conflict_state_projection c =
     (case c of
        None \<Rightarrow> JObject [(''has_result'', JBool False)]
      | Some r \<Rightarrow> JObject [(''has_result'', JBool True), (''reason'', JStr (reason_name (cr_reason r))),
          (''state'', JStr (state_name (cr_state r)))])"

definition AUTHORITY_APPLICABLE_REASONS :: "string list" where
  "AUTHORITY_APPLICABLE_REASONS = [''NO_AUTHORITY_RULE'', ''INVALID_OR_AMBIGUOUS_AUTHORITY'', ''AUTHORITATIVE_SOURCE_NOT_OBSERVED'',
     ''AUTHORITATIVE_SOURCE_CONFLICTED'', ''RESOLVED_BY_AUTHORITY'']"

definition authority_decision_projection :: "PropertyConflictResult option \<Rightarrow> json" where
  "authority_decision_projection c =
     (case c of
        None \<Rightarrow> JObject [(''has_result'', JBool False)]
      | Some r \<Rightarrow>
          if reason_name (cr_reason r) \<notin> set AUTHORITY_APPLICABLE_REASONS
          then JObject [(''has_result'', JBool True), (''authority_applicable'', JBool False)]
          else JObject [(''has_result'', JBool True), (''authority_applicable'', JBool True),
            (''outcome'', JStr (reason_name (cr_reason r))), (''winning_rule_key'', opt_dict rule_key_to_dict (cr_winning_rule_key r))])"

definition effective_value_projection :: "PropertyConflictResult option \<Rightarrow> json" where
  "effective_value_projection c =
     (case c of
        None \<Rightarrow> JObject [(''has_result'', JBool False)]
      | Some r \<Rightarrow>
          if \<not> cr_has_effective_value r then JObject [(''has_result'', JBool True), (''has_effective_value'', JBool False)]
          else JObject [(''has_effective_value'', JBool True), (''has_result'', JBool True), (''value'', cr_effective_value r)])"

text \<open>A projection is \<open>None\<close> on a side where the dimension is not available.\<close>

record dimension_block =
  dim_baseline_available :: bool
  dim_candidate_available :: bool
  dim_change :: "(json \<times> json) option"

definition dimension_block :: "bool \<Rightarrow> bool \<Rightarrow> json option \<Rightarrow> json option \<Rightarrow> dimension_block" where
  "dimension_block baseline_available candidate_available baseline_projection candidate_projection =
     \<lparr>dim_baseline_available = baseline_available, dim_candidate_available = candidate_available,
      dim_change = (case (baseline_projection, candidate_projection) of
          (Some l, Some r) \<Rightarrow>
            if baseline_available \<and> candidate_available \<and> canonical_value_fingerprint l \<noteq> canonical_value_fingerprint r
            then Some (l, r) else None
        | _ \<Rightarrow> None)\<rparr>"

definition dimension_dict :: "dimension_block \<Rightarrow> json" where
  "dimension_dict b = JObject [(''available'', sides_dict (dim_baseline_available b) (dim_candidate_available b)),
     (''change'', opt_dict (\<lambda>(l, r). JObject [(''baseline'', l), (''candidate'', r)]) (dim_change b))]"

definition paths_for_governance_object :: "ResolvedEntryState \<Rightarrow> GraphNodeIdentity \<Rightarrow> string list" where
  "paths_for_governance_object state obj =
     (case re_observations state of None \<Rightarrow> []
      | Some s \<Rightarrow> map (\<lambda>ob. to_pointer (ob_property_path ob)) (filter (\<lambda>ob. ob_object_identity ob = obj) (os_observations s))) @
     (case re_conflicts state of None \<Rightarrow> []
      | Some r \<Rightarrow> map (\<lambda>c. to_pointer (cr_property_path c)) (filter (\<lambda>c. cr_object_identity c = obj) (rep_results r)))"

definition object_known_in_context :: "ResolvedEntryState \<Rightarrow> GraphNodeIdentity \<Rightarrow> bool" where
  "object_known_in_context state obj \<longleftrightarrow> paths_for_governance_object state obj \<noteq> []"

record context_entry =
  ce_pointer :: string
  ce_provenance :: dimension_block
  ce_conflict :: dimension_block
  ce_authority_decision :: dimension_block
  ce_effective_value :: dimension_block

definition when_available :: "bool \<Rightarrow> 'a \<Rightarrow> 'a option" where
  "when_available available v = (if available then Some v else None)"

definition context_entry ::
  "ResolvedEntryState \<Rightarrow> ResolvedEntryState \<Rightarrow> availability_side \<Rightarrow> availability_side \<Rightarrow> GraphNodeIdentity \<Rightarrow> string \<Rightarrow> context_entry result" where
  "context_entry baseline candidate base cand obj pointer =
     try_in (parse_path pointer) (\<lambda>path.
       let block = (\<lambda>available project. dimension_block (available base) (available cand)
             (when_available (available base) (project baseline)) (when_available (available cand) (project candidate)));
           found = (\<lambda>s. find_conflict_result (re_conflicts s) obj path) in
       Inr \<lparr>ce_pointer = pointer,
         ce_provenance = block av_provenance (\<lambda>s. provenance_projection (re_observations s) obj path),
         ce_conflict = block av_conflict (\<lambda>s. conflict_state_projection (found s)),
         ce_authority_decision = block av_authority_decision (\<lambda>s. authority_decision_projection (found s)),
         ce_effective_value = block av_authority_decision (\<lambda>s. effective_value_projection (found s))\<rparr>)"

definition materially_changed :: "context_entry \<Rightarrow> bool" where
  "materially_changed e \<longleftrightarrow> dim_change (ce_provenance e) \<noteq> None \<or> dim_change (ce_conflict e) \<noteq> None \<or>
     dim_change (ce_authority_decision e) \<noteq> None \<or> dim_change (ce_effective_value e) \<noteq> None"

definition build_context_property_changes ::
  "ResolvedEntryState \<Rightarrow> ResolvedEntryState \<Rightarrow> GraphNodeIdentity option \<Rightarrow> string option \<Rightarrow> context_entry list result" where
  "build_context_property_changes baseline candidate queried_governance_object queried_property =
     (case queried_governance_object of
        None \<Rightarrow> Inr []
      | Some obj \<Rightarrow>
          try_in (availability_side baseline) (\<lambda>base. try_in (availability_side candidate) (\<lambda>cand.
          case queried_property of
            Some pointer \<Rightarrow> traverse (context_entry baseline candidate base cand obj) [pointer]
          | None \<Rightarrow> try_in (traverse (context_entry baseline candidate base cand obj)
              (canon_set (\<lambda>k. k) (paths_for_governance_object baseline obj @ paths_for_governance_object candidate obj)))
              (\<lambda>entries. Inr (filter materially_changed entries)))))"

definition context_entry_dict :: "context_entry \<Rightarrow> json" where
  "context_entry_dict e = JObject [(''authority_decision'', dimension_dict (ce_authority_decision e)),
     (''conflict'', dimension_dict (ce_conflict e)), (''effective_value'', dimension_dict (ce_effective_value e)),
     (''property'', JStr (ce_pointer e)), (''provenance'', dimension_dict (ce_provenance e))]"

section \<open>Transitions and the result\<close>

record transition =
  tr_availability :: json
  tr_context_property_changes :: "context_entry list"
  tr_from_entry_state_identity :: ContentIdentity
  tr_from_index :: nat
  tr_from_snapshot_identity :: ContentIdentity
  tr_snapshot :: snapshot_branch
  tr_to_entry_state_identity :: ContentIdentity
  tr_to_index :: nat
  tr_to_snapshot_identity :: ContentIdentity

definition build_transition ::
  "(string \<Rightarrow> string) \<Rightarrow> nat \<Rightarrow> nat \<Rightarrow> ResolvedEntryState \<Rightarrow> ResolvedEntryState \<Rightarrow> comparison_result \<Rightarrow>
   ComparisonObjectIdentity option \<Rightarrow> GraphNodeIdentity option \<Rightarrow> string option \<Rightarrow> transition result" where
  "build_transition sha from_index to_index baseline candidate comparison queried_object queried_governance_object queried_property =
     try_in (build_availability baseline candidate) (\<lambda>availability.
     try_in (build_context_property_changes baseline candidate queried_governance_object queried_property) (\<lambda>changes.
     Inr \<lparr>tr_availability = availability, tr_context_property_changes = changes,
       tr_from_entry_state_identity = entry_state_identity sha (he_state (re_entry baseline)), tr_from_index = from_index,
       tr_from_snapshot_identity = hs_snapshot (he_state (re_entry baseline)),
       tr_snapshot = build_snapshot_branch comparison baseline candidate queried_object queried_property,
       tr_to_entry_state_identity = entry_state_identity sha (he_state (re_entry candidate)), tr_to_index = to_index,
       tr_to_snapshot_identity = hs_snapshot (he_state (re_entry candidate))\<rparr>))"

definition transition_dict :: "transition \<Rightarrow> json" where
  "transition_dict t = JObject [(''availability'', tr_availability t),
     (''context_property_changes'', JArray (map context_entry_dict (tr_context_property_changes t))),
     (''from_entry_state_identity'', content_identity_dict (tr_from_entry_state_identity t)), (''from_index'', JInt (int (tr_from_index t))),
     (''from_snapshot_identity'', content_identity_dict (tr_from_snapshot_identity t)),
     (''snapshot'', JObject [(''object_change'', opt_dict object_change_dict (sb_object_change (tr_snapshot t))),
       (''property'', opt_dict property_change_dict (sb_property (tr_snapshot t)))]),
     (''to_entry_state_identity'', content_identity_dict (tr_to_entry_state_identity t)), (''to_index'', JInt (int (tr_to_index t))),
     (''to_snapshot_identity'', content_identity_dict (tr_to_snapshot_identity t))]"

definition object_present_somewhere :: "ResolvedHistory \<Rightarrow> ComparisonObjectIdentity \<Rightarrow> bool" where
  "object_present_somewhere resolved obj \<longleftrightarrow> list_ex (\<lambda>s. obj \<in> set (keys (pj_objects (re_projected s)))) (rh_states resolved)"

definition property_present_somewhere :: "ResolvedHistory \<Rightarrow> ComparisonObjectIdentity \<Rightarrow> string \<Rightarrow> bool" where
  "property_present_somewhere resolved obj property \<longleftrightarrow> list_ex (\<lambda>s. case map_of (pj_objects (re_projected s)) obj of
       None \<Rightarrow> False
     | Some x \<Rightarrow> cv_has_value (snapshot_property_state (re_projected s) obj property) \<or> property \<in> set (keys (cb_properties x)))
     (rh_states resolved)"

definition governance_object_present_somewhere :: "ResolvedHistory \<Rightarrow> GraphNodeIdentity \<Rightarrow> bool" where
  "governance_object_present_somewhere resolved obj \<longleftrightarrow> list_ex (\<lambda>s. object_known_in_context s obj) (rh_states resolved)"

definition governance_property_present_somewhere :: "ResolvedHistory \<Rightarrow> GraphNodeIdentity \<Rightarrow> string \<Rightarrow> bool result" where
  "governance_property_present_somewhere resolved obj property =
     try_in (parse_path property) (\<lambda>path. Inr (list_ex (\<lambda>s.
       (case re_observations s of None \<Rightarrow> False
        | Some x \<Rightarrow> list_ex (\<lambda>ob. ob_object_identity ob = obj \<and> ob_property_path ob = path) (os_observations x)) \<or>
       (case re_conflicts s of None \<Rightarrow> False
        | Some r \<Rightarrow> list_ex (\<lambda>c. cr_object_identity c = obj \<and> cr_property_path c = path) (rep_results r)))
       (rh_states resolved)))"

record evolution =
  ev_comparison_policy :: ComparisonPolicy
  ev_history_content_identity :: ContentIdentity
  ev_queried_governance_object :: "GraphNodeIdentity option"
  ev_queried_object :: "ComparisonObjectIdentity option"
  ev_queried_property :: "string option"
  ev_transitions :: "transition list"

definition evolution_without_identity :: "evolution \<Rightarrow> (string \<times> json) list" where
  "evolution_without_identity e = [(''comparison_policy'', comparison_policy_dict (ev_comparison_policy e)),
     (''evolution_schema'', JStr ''governance-history-evolution''), (''evolution_version'', JStr ''1''),
     (''history_content_identity'', content_identity_dict (ev_history_content_identity e)),
     (''queried_governance_object'', opt_dict identity_to_dict (ev_queried_governance_object e)),
     (''queried_object'', opt_dict comparison_identity_dict (ev_queried_object e)),
     (''queried_property'', opt_dict JStr (ev_queried_property e)),
     (''transitions'', JArray (map transition_dict (ev_transitions e))), (''writes_performed'', JInt 0)]"

definition evolution_dict :: "(string \<Rightarrow> string) \<Rightarrow> evolution \<Rightarrow> json" where
  "evolution_dict sha e = JObject (evolution_without_identity e @
     [(''content_identity'', content_identity_dict (sha256_identity sha HistoryEvolutionId (JObject (evolution_without_identity e))))])"

definition validate_evolution :: "(json \<Rightarrow> (string \<times> string) option) \<Rightarrow> json \<Rightarrow> unit result" where
  "validate_evolution schema_error result = (case schema_error result of
       None \<Rightarrow> Inr ()
     | Some (validator, path) \<Rightarrow> Inl (invalid_history path (''evolution artifact failed schema validation ('' @ validator @ '')'')))"

text \<open>The checks of the query, in the order of the code.\<close>

definition check_query ::
  "ResolvedHistory \<Rightarrow> ComparisonObjectIdentity option \<Rightarrow> GraphNodeIdentity option \<Rightarrow> string option \<Rightarrow> unit result" where
  "check_query resolved queried_object queried_governance_object queried_property =
     try_in (require (queried_object \<noteq> None \<or> queried_governance_object \<noteq> None)
       (invalid_history ''/'' ''at least one of queried_object or queried_governance_object is required'')) (\<lambda>_.
     try_in (case queried_property of None \<Rightarrow> Inr ()
       | Some property \<Rightarrow> try_in (parse_path property) (\<lambda>parsed. require (to_pointer parsed = property)
           (invalid_history ''/queried_property'' ''property pointer is not canonical''))) (\<lambda>_.
     try_in (case queried_object of None \<Rightarrow> Inr ()
       | Some obj \<Rightarrow> try_in (require (object_present_somewhere resolved obj)
           (history_failure ''object_not_found'' ''/queried_object'' ''queried object not found in history'')) (\<lambda>_.
         case queried_property of None \<Rightarrow> Inr ()
         | Some property \<Rightarrow> require (property_present_somewhere resolved obj property)
             (history_failure ''property_not_found'' ''/queried_property'' ''queried property not found for object in history''))) (\<lambda>_.
     case queried_governance_object of None \<Rightarrow> Inr ()
     | Some obj \<Rightarrow> try_in (require (governance_object_present_somewhere resolved obj)
         (history_failure ''object_not_found'' ''/queried_governance_object'' ''queried governance object not found in history context'')) (\<lambda>_.
       case queried_property of None \<Rightarrow> Inr ()
       | Some property \<Rightarrow> try_in (governance_property_present_somewhere resolved obj property) (\<lambda>present. require present
           (history_failure ''property_not_found'' ''/queried_property'' ''queried property not found for governance object in history context''))))))"

definition build_history_evolution ::
  "(string \<Rightarrow> string) \<Rightarrow> (json \<Rightarrow> (string \<times> string) option) \<Rightarrow> ResolvedHistory \<Rightarrow>
   ComparisonObjectIdentity option \<Rightarrow> GraphNodeIdentity option \<Rightarrow> string option \<Rightarrow> evolution result" where
  "build_history_evolution sha schema_error resolved queried_object queried_governance_object queried_property =
     try_in (check_query resolved queried_object queried_governance_object queried_property) (\<lambda>_.
     try_in (traverse (\<lambda>(index, comparison). build_transition sha index (index + 1) (rh_states resolved ! index)
         (rh_states resolved ! (index + 1)) comparison queried_object queried_governance_object queried_property)
       (zip [0..<length (rh_comparisons resolved)] (rh_comparisons resolved))) (\<lambda>transitions.
     let result = \<lparr>ev_comparison_policy = gh_comparison_policy (rh_history resolved),
       ev_history_content_identity = history_content_identity sha (rh_history resolved),
       ev_queried_governance_object = queried_governance_object, ev_queried_object = queried_object,
       ev_queried_property = queried_property, ev_transitions = transitions\<rparr> in
     try_in (validate_evolution schema_error (evolution_dict sha result)) (\<lambda>_. Inr result)))"

section \<open>Values along a timeline\<close>

lemma snapshot_value: "snapshot_property_state p obj k = (case objects_of p obj of None \<Rightarrow> missing | Some x \<Rightarrow> property_or_missing (cb_properties x) k)"
  by (simp add: snapshot_property_state_def objects_of_def property_or_missing_def split: option.splits)

lemma found_change:
  assumes keyed: "well_keyed b" "well_keyed c" and changes: "cr_object_changes r = fst (compare_projected b c)"
  shows "find_object_change r obj = (case (objects_of b obj, objects_of c obj) of
      (None, None) \<Rightarrow> None
    | (None, Some y) \<Rightarrow> Some (change_of Added obj y [])
    | (Some x, None) \<Rightarrow> Some (change_of Removed obj x [])
    | (Some x, Some y) \<Rightarrow> if diff_properties x y = [] then None else Some (change_of Changed obj x (diff_properties x y)))" (is "_ = ?spec")
proof -
  have set: "set (cr_object_changes r) = specified_changes b c"
    using compare_projected_exact [OF keyed] by (simp add: changes exact_comparison_def)
  have spec: "d \<in> specified_changes b c \<and> oc_object_identity d = obj \<longleftrightarrow> ?spec = Some d" for d
    by (auto simp: specified_changes_def change_of_def split: option.splits)
  show ?thesis
  proof (cases "find_object_change r obj")
    case None
    then have "?spec \<noteq> Some d" for d using spec set by (auto simp: find_object_change_def find_None_iff)
    then show ?thesis using None by (cases ?spec) auto
  next
    case (Some d)
    then have "d \<in> set (cr_object_changes r) \<and> oc_object_identity d = obj"
      by (auto simp: find_object_change_def find_Some_iff)
    then show ?thesis using Some set spec by auto
  qed
qed

lemma branch_values_exact:
  assumes "well_keyed (re_projected s)" "well_keyed (re_projected t)"
    "cr_object_changes r = fst (compare_projected (re_projected s) (re_projected t))"
  shows "branch_values (find_object_change r obj) s t obj k =
    (snapshot_property_state (re_projected s) obj k, snapshot_property_state (re_projected t) obj k)"
proof -
  have matched: "pc_baseline m = property_or_missing (cb_properties x) k \<and> pc_candidate m = property_or_missing (cb_properties y) k"
    if m: "find (\<lambda>p. pc_property p = k) (diff_properties x y) = Some m" for x y m
  proof -
    have "m \<in> set (diff_properties x y)" "pc_property m = k" using m by (auto simp: find_Some_iff)
    then show ?thesis using diff_properties_spec [of x y] by (auto simp: specified_diff_def)
  qed
  show ?thesis
    unfolding branch_values_def found_change [OF assms] snapshot_value Let_def
    by (auto simp: change_of_def dest: matched split: option.splits)
qed

lemma resolved_entry_projected:
  "resolve_entry tools store i e = Inr s \<Longrightarrow>
     coherent_snapshot (re_snapshot s) \<and> project_snapshot ''baseline'' (re_snapshot s) = Inr (re_projected s)"
  using loaded_coherent by (auto simp: resolve_entry_def Let_def split_result split: if_splits)

lemma built_transition:
  "build_transition sha i j s t c obj governance_object k = Inr tr \<Longrightarrow>
     tr_from_index tr = i \<and> tr_to_index tr = j \<and> tr_snapshot tr = build_snapshot_branch c s t obj k"
  by (auto simp: build_transition_def split_result)

lemma resolved_pair:
  assumes "resolve_history_artifacts tools store h = Inr r"
  shows "length (rh_states r) = length (gh_entries h)" "length (rh_comparisons r) = length (gh_entries h) - 1"
    "i < length (rh_states r) \<Longrightarrow> well_keyed (re_projected (rh_states r ! i))"
    "i < length (rh_comparisons r) \<Longrightarrow> cr_object_changes (rh_comparisons r ! i) =
       fst (compare_projected (re_projected (rh_states r ! i)) (re_projected (rh_states r ! Suc i)))"
proof -
  have states: "list_all2 (\<lambda>(i, e) s. resolve_entry tools store i e = Inr s) (zip [0..<length (gh_entries h)] (gh_entries h)) (rh_states r)"
    and pairs: "list_all2 (\<lambda>(i, left, right) c. compare_adjacent tools (gh_comparison_policy h) (re_snapshot left) (re_snapshot right) (i + 1) = Inr c)
      (adjacent (rh_states r)) (rh_comparisons r)"
    using assms by (auto simp: resolve_history_artifacts_def split_result traverse_Inr_iff case_prod_unfold adjacent_def)
  show n: "length (rh_states r) = length (gh_entries h)" using list_all2_lengthD [OF states] by simp
  have len: "length (adjacent (rh_states r)) = length (rh_states r) - 1" by (simp add: adjacent_def)
  then show m: "length (rh_comparisons r) = length (gh_entries h) - 1" using list_all2_lengthD [OF pairs] n by simp
  have projected: "coherent_snapshot (re_snapshot (rh_states r ! i)) \<and>
      project_snapshot ''baseline'' (re_snapshot (rh_states r ! i)) = Inr (re_projected (rh_states r ! i))" if "i < length (rh_states r)" for i
  proof -
    have "resolve_entry tools store i (gh_entries h ! i) = Inr (rh_states r ! i)"
      using states that n by (auto simp: list_all2_conv_all_nth)
    then show ?thesis by (rule resolved_entry_projected)
  qed
  then show "i < length (rh_states r) \<Longrightarrow> well_keyed (re_projected (rh_states r ! i))" using projection_side by blast
  assume i: "i < length (rh_comparisons r)"
  then have nth: "adjacent (rh_states r) ! i = (i, rh_states r ! i, rh_states r ! Suc i)" "Suc i < length (rh_states r)"
    using m n by (auto simp: adjacent_def nth_tl)
  then have "build_comparison_result (ht_sha tools) (re_snapshot (rh_states r ! i)) (re_snapshot (rh_states r ! Suc i))
      (history_ack (gh_comparison_policy h)) = Inr (rh_comparisons r ! i)"
    using pairs i by (auto simp: list_all2_conv_all_nth compare_adjacent_def)
  moreover have "project_snapshot ''baseline'' (re_snapshot (rh_states r ! i)) = Inr (re_projected (rh_states r ! i))"
    using projected [of i] nth(2) by simp
  moreover have "project_snapshot ''candidate'' (re_snapshot (rh_states r ! Suc i)) = Inr (re_projected (rh_states r ! Suc i))"
    by (rule projection_side [THEN conjunct2, OF projected [OF nth(2), THEN conjunct1] projected [OF nth(2), THEN conjunct2]])
  ultimately show "cr_object_changes (rh_comparisons r ! i) =
       fst (compare_projected (re_projected (rh_states r ! i)) (re_projected (rh_states r ! Suc i)))"
    unfolding build_Inr by (elim exE conjE) (simp del: Let_def)
qed

section \<open>Properties\<close>

text \<open>C38 (equivalence). The evolution of a property of an object over a resolved history is what the projected snapshots say:
  there is one transition per adjacent pair of entries, in order; its property block is absent only when neither
  snapshot has the object, and otherwise shows the value each of the two snapshots has at the property (missing
  where the object or the property is), so the candidate side of a transition is the baseline side of the next;
  and an object change is reported exactly when the object appeared, disappeared or differs in some property.\<close>

theorem evolution_exact:
  assumes "resolve_history_artifacts tools store h = Inr r"
    "build_history_evolution (ht_sha tools) schema_error r (Some obj) governance_object (Some k) = Inr ev"
  shows "length (ev_transitions ev) = length (gh_entries h) - 1 \<and>
    (\<forall>i < length (ev_transitions ev).
       let at = (\<lambda>j. re_projected (rh_states r ! j)); t = ev_transitions ev ! i in
       tr_from_index t = i \<and> tr_to_index t = Suc i \<and>
       sb_property (tr_snapshot t) =
         (if objects_of (at i) obj = None \<and> objects_of (at (Suc i)) obj = None then None
          else Some \<lparr>pc_baseline = snapshot_property_state (at i) obj k, pc_candidate = snapshot_property_state (at (Suc i)) obj k,
            pc_property = k\<rparr>) \<and>
       (sb_object_change (tr_snapshot t) = None \<longleftrightarrow>
         (case (objects_of (at i) obj, objects_of (at (Suc i)) obj) of
            (None, None) \<Rightarrow> True | (Some x, Some y) \<Rightarrow> diff_properties x y = [] | _ \<Rightarrow> False)))"
proof -
  note pair = resolved_pair [OF assms(1)]
  have "list_all2 (\<lambda>(i, c) t. build_transition (ht_sha tools) i (i + 1) (rh_states r ! i) (rh_states r ! (i + 1)) c (Some obj)
      governance_object (Some k) = Inr t) (zip [0..<length (rh_comparisons r)] (rh_comparisons r)) (ev_transitions ev)"
    using assms(2) by (auto simp: build_history_evolution_def Let_def split_result traverse_Inr_iff case_prod_unfold)
  then have n: "length (ev_transitions ev) = length (rh_comparisons r)"
    and built: "\<And>i. i < length (rh_comparisons r) \<Longrightarrow> build_transition (ht_sha tools) i (Suc i) (rh_states r ! i) (rh_states r ! Suc i)
      (rh_comparisons r ! i) (Some obj) governance_object (Some k) = Inr (ev_transitions ev ! i)"
    by (auto simp: list_all2_conv_all_nth)
  have "let at = (\<lambda>j. re_projected (rh_states r ! j)); t = ev_transitions ev ! i in
       tr_from_index t = i \<and> tr_to_index t = Suc i \<and>
       sb_property (tr_snapshot t) =
         (if objects_of (at i) obj = None \<and> objects_of (at (Suc i)) obj = None then None
          else Some \<lparr>pc_baseline = snapshot_property_state (at i) obj k, pc_candidate = snapshot_property_state (at (Suc i)) obj k,
            pc_property = k\<rparr>) \<and>
       (sb_object_change (tr_snapshot t) = None \<longleftrightarrow>
         (case (objects_of (at i) obj, objects_of (at (Suc i)) obj) of
            (None, None) \<Rightarrow> True | (Some x, Some y) \<Rightarrow> diff_properties x y = [] | _ \<Rightarrow> False))" if i: "i < length (rh_comparisons r)" for i
  proof -
    have keyed: "well_keyed (re_projected (rh_states r ! i))" "well_keyed (re_projected (rh_states r ! Suc i))"
      using pair(1-3) i by auto
    have t: "tr_from_index (ev_transitions ev ! i) = i" "tr_to_index (ev_transitions ev ! i) = Suc i"
      "tr_snapshot (ev_transitions ev ! i) = build_snapshot_branch (rh_comparisons r ! i) (rh_states r ! i) (rh_states r ! Suc i) (Some obj) (Some k)"
      using built_transition [OF built [OF i]] by simp_all
    have member: "obj \<in> set (keys (pj_objects p)) \<longleftrightarrow> objects_of p obj \<noteq> None" for p
      unfolding objects_of_def map_of_None_iff by simp
    note found = found_change [OF keyed pair(4) [OF i], of obj]
    have none: "find_object_change (rh_comparisons r ! i) obj = None"
      if "objects_of (re_projected (rh_states r ! i)) obj = None" "objects_of (re_projected (rh_states r ! Suc i)) obj = None"
      using that by (simp add: found)
    show ?thesis
      unfolding Let_def t build_snapshot_branch_def option.case member
      using branch_values_exact [OF keyed pair(4) [OF i], of obj k] none found by (auto split: option.splits)
  qed
  then show ?thesis using n pair(2) by simp
qed

text \<open>A history of two snapshots: the second lost the description of its table, and a column may be null.\<close>

definition timeline_store :: artifact_store where
  "timeline_store = example_store\<lparr>as_snapshot := (\<lambda>p. Json (snapshot_to_dict (\<lambda>_. ''d'') (if p = ''a.json'' then small_snapshot else edited_snapshot)))\<rparr>"

definition timeline_entry :: "string \<Rightarrow> GovernanceSnapshot \<Rightarrow> HistoryEntry" where
  "timeline_entry path sn = \<lparr>he_state = \<lparr>hs_snapshot = snapshot_content_identity (\<lambda>_. ''d'') sn, hs_labels = None, hs_context = None\<rparr>,
     he_operator = \<lparr>ho_snapshot_path = path, ho_observations_path = None, ho_authority_paths = None\<rparr>, he_captured_at = None\<rparr>"

definition timeline :: GovernanceHistory where
  "timeline = \<lparr>gh_comparison_policy = \<lparr>cp_align_source_roots = False, cp_align_database_roots = False\<rparr>,
     gh_entries = [timeline_entry ''a.json'' small_snapshot, timeline_entry ''b.json'' edited_snapshot]\<rparr>"

definition first_entries :: "GovernanceSnapshot \<Rightarrow> entry list" where
  "first_entries sn = (let ds = hd (gm_data_sources (sn_model sn)) in project_entries ds (hd (ds_databases ds)) (gm_relationships (sn_model sn)))"

lemma projects_as:
  assumes "coherent_snapshot sn" "distinct (map en_identity (first_entries sn))"
  shows "project_snapshot side sn = Inr (spec_projection sn (first_entries sn))"
proof -
  obtain ds db where v: "validate_snapshot_shape_and_envelope side sn = Inr (ds, db)" "gm_data_sources (sn_model sn) = [ds]"
    "ds_databases ds = [db]" and p: "projectable ds db (gm_relationships (sn_model sn))" by (rule coherent_projectable [OF assms(1)])
  show ?thesis using projection_eq [OF p v(1) refl] assms(2) v(2,3) by (simp add: first_entries_def)
qed

lemma timeline_entry_resolves:
  assumes "coherent_snapshot sn" "canonical_snapshot sn" "distinct (map en_identity (first_entries sn))"
    "as_snapshot timeline_store path = Json (snapshot_to_dict (\<lambda>_. ''d'') sn)"
  shows "\<exists>s. resolve_entry example_tools timeline_store i (timeline_entry path sn) = Inr s \<and> re_snapshot s = sn \<and>
    re_projected s = spec_projection sn (first_entries sn) \<and> re_entry s = timeline_entry path sn"
proof -
  have "load_snapshot_artifact example_tools timeline_store path = Inr sn"
    using load_saved [OF assms(1,2), of "\<lambda>_. None" "\<lambda>_. ''d''"] assms(4) by (simp add: load_snapshot_artifact_def example_tools_def)
  then show ?thesis
    using projects_as [OF assms(1,3)]
    by (simp add: resolve_entry_def timeline_entry_def Let_def example_tools_def resolve_entry_context_def context_form_def)
qed

definition queried_column :: ComparisonObjectIdentity where
  "queried_column = \<lparr>co_kind = ''column'', co_path = [''public'', ''orders'', ''id'']\<rparr>"

lemma timeline_resolves:
  "\<exists>r. resolve_history_artifacts example_tools timeline_store timeline = Inr r \<and>
     (\<exists>ev. build_history_evolution (ht_sha example_tools) (\<lambda>_. None) r (Some queried_column) None (Some ''/nullable'') = Inr ev)"
proof -
  have facts: "canonical_snapshot edited_snapshot" "distinct (map en_identity (first_entries small_snapshot))"
    "distinct (map en_identity (first_entries edited_snapshot))"
    "map_option (\<lambda>x. ''/nullable'' \<in> set (keys (cb_properties x)))
       (objects_of (spec_projection small_snapshot (first_entries small_snapshot)) queried_column) = Some True"
    "(case parse_path ''/nullable'' of Inr p \<Rightarrow> to_pointer p = ''/nullable'' | Inl _ \<Rightarrow> False)" by code_simp+
  obtain s where s: "resolve_entry example_tools timeline_store 0 (timeline_entry ''a.json'' small_snapshot) = Inr s"
    "re_snapshot s = small_snapshot" "re_projected s = spec_projection small_snapshot (first_entries small_snapshot)"
    "re_entry s = timeline_entry ''a.json'' small_snapshot"
    using timeline_entry_resolves [OF small_snapshot_coherent small_snapshot_canonical facts(2), of "''a.json''"]
    by (auto simp: timeline_store_def)
  obtain t where t: "resolve_entry example_tools timeline_store 1 (timeline_entry ''b.json'' edited_snapshot) = Inr t"
    "re_snapshot t = edited_snapshot" "re_entry t = timeline_entry ''b.json'' edited_snapshot"
    using timeline_entry_resolves [OF edited_snapshot_coherent facts(1,3), of "''b.json''"] by (auto simp: timeline_store_def)
  obtain c where c: "compare_adjacent example_tools (gh_comparison_policy timeline) small_snapshot edited_snapshot 1 = Inr c"
    using example_comparison [of "ht_sha example_tools"] by (auto simp: compare_adjacent_def history_ack_def timeline_def empty_ack_def)
  have r: "resolve_history_artifacts example_tools timeline_store timeline = Inr \<lparr>rh_history = timeline, rh_states = [s, t], rh_comparisons = [c]\<rparr>"
    using s(1,2) t(1,2) c by (simp add: resolve_history_artifacts_def timeline_def)
  obtain x where x: "map_of (pj_objects (re_projected s)) queried_column = Some x" "''/nullable'' \<in> set (keys (cb_properties x))"
    using facts(4) s(3) by (auto simp: objects_of_def)
  then have present: "queried_column \<in> set (keys (pj_objects (re_projected s)))"
    using map_of_SomeD by (force simp del: map_of_eq_Some_iff)
  obtain p where path: "parse_path ''/nullable'' = Inr p" "to_pointer p = ''/nullable''" using facts(5) by (auto split: sum.splits)
  have "check_query \<lparr>rh_history = timeline, rh_states = [s, t], rh_comparisons = [c]\<rparr> (Some queried_column) None (Some ''/nullable'') = Inr ()"
    using present x path by (simp add: check_query_def require_def object_present_somewhere_def property_present_somewhere_def del: map_of_eq_Some_iff)
  moreover have "context_form (he_state (timeline_entry path sn)) = Inr NoContext" for path sn
    by (simp add: timeline_entry_def context_form_def)
  ultimately show ?thesis
    using s(4) t(3) by (simp add: r build_history_evolution_def build_transition_def build_availability_def availability_side_def
        build_context_property_changes_def validate_evolution_def Let_def)
qed

lemma evolution_exact_witness:
  "\<exists>r ev. resolve_history_artifacts example_tools timeline_store timeline = Inr r \<and>
     build_history_evolution (ht_sha example_tools) (\<lambda>_. None) r (Some queried_column) None (Some ''/nullable'') = Inr ev \<and>
     length (ev_transitions ev) = 1"
proof -
  obtain r ev where r: "resolve_history_artifacts example_tools timeline_store timeline = Inr r"
    and ev: "build_history_evolution (ht_sha example_tools) (\<lambda>_. None) r (Some queried_column) None (Some ''/nullable'') = Inr ev"
    using timeline_resolves by blast
  have "length (gh_entries timeline) = 2" by (simp add: timeline_def)
  then show ?thesis using evolution_exact [OF r ev] r ev by auto
qed

end
