(* ===== verification/Policy.thy ===== *)
theory Policy
  imports History
begin

text \<open>
  The package \<open>policy\<close>: governance policies (\<open>policy/models.py\<close>), loading them from the files a configuration names
  (\<open>policy/load.py\<close>, \<open>policy/schema.py\<close>, \<open>policy/parse.py\<close>, \<open>policy/errors.py\<close>, with the path check of
  \<open>config_contract/paths.py\<close>), their evaluation on a model (\<open>policy/evaluate.py\<close>) and the report that is the gate
  (\<open>policy/report.py\<close>). The YAML parser and the JSON Schema validator are parameters.
\<close>

section \<open>Policies\<close>

datatype PolicySeverity = ErrorSeverity | WarningSeverity

datatype RuleType = RequireOwner | RequireDescription | RequireRelationship

datatype ObjectKind = DataSourceKind | DatabaseKind | SchemaKind | TableKind | ColumnKind | RelationshipKind

fun severity_name :: "PolicySeverity \<Rightarrow> string" where
  "severity_name ErrorSeverity = ''error''"
| "severity_name WarningSeverity = ''warning''"

fun rule_type_name :: "RuleType \<Rightarrow> string" where
  "rule_type_name RequireOwner = ''require_owner''"
| "rule_type_name RequireDescription = ''require_description''"
| "rule_type_name RequireRelationship = ''require_relationship''"

fun object_kind_name :: "ObjectKind \<Rightarrow> string" where
  "object_kind_name DataSourceKind = ''data_source''"
| "object_kind_name DatabaseKind = ''database''"
| "object_kind_name SchemaKind = ''schema''"
| "object_kind_name TableKind = ''table''"
| "object_kind_name ColumnKind = ''column''"
| "object_kind_name RelationshipKind = ''relationship''"

definition OWNER_KINDS :: "ObjectKind list" where
  "OWNER_KINDS = [DataSourceKind, DatabaseKind, SchemaKind, TableKind]"

definition DESCRIPTION_KINDS :: "ObjectKind list" where
  "DESCRIPTION_KINDS = [DataSourceKind, DatabaseKind, SchemaKind, TableKind, ColumnKind, RelationshipKind]"

definition RELATIONSHIP_KINDS :: "ObjectKind list" where
  "RELATIONSHIP_KINDS = [TableKind]"

fun RULE_ALLOWED_KINDS :: "RuleType \<Rightarrow> ObjectKind list" where
  "RULE_ALLOWED_KINDS RequireOwner = OWNER_KINDS"
| "RULE_ALLOWED_KINDS RequireDescription = DESCRIPTION_KINDS"
| "RULE_ALLOWED_KINDS RequireRelationship = RELATIONSHIP_KINDS"

record PolicySelector =
  sel_kind :: ObjectKind
  sel_object_id :: "string option"
  sel_id_prefix :: "string option"

definition opt_member :: "string \<Rightarrow> string option \<Rightarrow> (string \<times> json) list" where
  "opt_member name v = (case v of None \<Rightarrow> [] | Some s \<Rightarrow> [(name, JStr s)])"

definition policy_selector_dict :: "PolicySelector \<Rightarrow> json" where
  "policy_selector_dict s = JObject ((''kind'', JStr (object_kind_name (sel_kind s))) #
     opt_member ''id'' (sel_object_id s) @ opt_member ''id_prefix'' (sel_id_prefix s))"

record NormalizedPolicy =
  np_id :: string
  np_severity :: PolicySeverity
  np_rule_type :: RuleType
  np_select :: PolicySelector
  np_description :: "string option"

definition policy_dict :: "NormalizedPolicy \<Rightarrow> json" where
  "policy_dict p = JObject ([(''id'', JStr (np_id p)),
     (''rule'', JObject [(''select'', policy_selector_dict (np_select p)), (''type'', JStr (rule_type_name (np_rule_type p)))]),
     (''severity'', JStr (severity_name (np_severity p)))] @ opt_member ''description'' (np_description p))"

record NormalizedPolicySet =
  nps_policies :: "NormalizedPolicy list"

definition mk_normalized_policy_set :: "NormalizedPolicy list \<Rightarrow> NormalizedPolicySet" where
  "mk_normalized_policy_set policies = \<lparr>nps_policies = sort_key np_id policies\<rparr>"

definition normalized_policy_set_dict :: "NormalizedPolicySet \<Rightarrow> json" where
  "normalized_policy_set_dict s = JObject [(''policies'', JArray (map policy_dict (nps_policies s))),
     (''policy_schema'', JStr ''governance-policy''), (''policy_version'', JStr ''1'')]"

definition policy_identity :: "(string \<Rightarrow> string) \<Rightarrow> NormalizedPolicySet \<Rightarrow> ContentIdentity" where
  "policy_identity sha s = sha256_identity sha PolicyId (normalized_policy_set_dict s)"

record PolicyViolation =
  pv_policy_id :: string
  pv_rule_type :: RuleType
  pv_severity :: PolicySeverity
  pv_object_kind :: ObjectKind
  pv_object_id :: string
  pv_reason :: string
  pv_object_name :: "string option"

definition violation_dict :: "PolicyViolation \<Rightarrow> json" where
  "violation_dict v = JObject ([(''object_id'', JStr (pv_object_id v)),
     (''object_kind'', JStr (object_kind_name (pv_object_kind v))), (''policy_id'', JStr (pv_policy_id v)),
     (''reason'', JStr (pv_reason v)), (''rule_type'', JStr (rule_type_name (pv_rule_type v))),
     (''severity'', JStr (severity_name (pv_severity v)))] @ opt_member ''object_name'' (pv_object_name v))"

section \<open>Evaluation\<close>

text \<open>The objects \<open>_iter_objects\<close> yields; \<open>getattr(obj, name, None)\<close> is \<open>None\<close> for a class without the attribute.\<close>

datatype governed =
    GDataSource DataSource | GDatabase Database | GSchema Schema | GTable Table | GColumn Column
  | GRelationship Relationship

fun g_kind :: "governed \<Rightarrow> ObjectKind" where
  "g_kind (GDataSource x) = DataSourceKind"
| "g_kind (GDatabase x) = DatabaseKind"
| "g_kind (GSchema x) = SchemaKind"
| "g_kind (GTable x) = TableKind"
| "g_kind (GColumn x) = ColumnKind"
| "g_kind (GRelationship x) = RelationshipKind"

fun g_id :: "governed \<Rightarrow> string" where
  "g_id (GDataSource x) = ds_id x"
| "g_id (GDatabase x) = db_id x"
| "g_id (GSchema x) = sc_id x"
| "g_id (GTable x) = t_id x"
| "g_id (GColumn x) = c_id x"
| "g_id (GRelationship x) = rl_id x"

fun g_name :: "governed \<Rightarrow> string" where
  "g_name (GDataSource x) = ds_name x"
| "g_name (GDatabase x) = db_name x"
| "g_name (GSchema x) = sc_name x"
| "g_name (GTable x) = t_name x"
| "g_name (GColumn x) = c_name x"
| "g_name (GRelationship x) = rl_name x"

fun g_ownership :: "governed \<Rightarrow> Ownership option" where
  "g_ownership (GDataSource x) = ds_ownership x"
| "g_ownership (GDatabase x) = db_ownership x"
| "g_ownership (GSchema x) = sc_ownership x"
| "g_ownership (GTable x) = t_ownership x"
| "g_ownership _ = None"

fun g_description :: "governed \<Rightarrow> json" where
  "g_description (GDataSource x) = ds_description x"
| "g_description (GDatabase x) = db_description x"
| "g_description (GSchema x) = sc_description x"
| "g_description (GTable x) = t_description x"
| "g_description (GColumn x) = c_description x"
| "g_description (GRelationship x) = rl_description x"

definition iter_objects :: "GovernanceModel \<Rightarrow> governed list" where
  "iter_objects model =
     concat (map (\<lambda>data_source. GDataSource data_source # concat (map (\<lambda>database. GDatabase database #
       concat (map (\<lambda>schema. GSchema schema # concat (map (\<lambda>table. GTable table # map GColumn (t_columns table))
         (sc_tables schema))) (db_schemas database))) (ds_databases data_source))) (gm_data_sources model)) @
     map GRelationship (gm_relationships model)"

definition select_objects :: "GovernanceModel \<Rightarrow> PolicySelector \<Rightarrow> governed list" where
  "select_objects model selector = filter (\<lambda>obj.
     g_kind obj = sel_kind selector \<and>
     (case sel_object_id selector of None \<Rightarrow> True | Some i \<Rightarrow> g_id obj = i) \<and>
     (case sel_id_prefix selector of None \<Rightarrow> True | Some p \<Rightarrow> startswith p (g_id obj))) (iter_objects model)"

definition mk_violation :: "NormalizedPolicy \<Rightarrow> governed \<Rightarrow> string \<Rightarrow> PolicyViolation" where
  "mk_violation policy obj reason = \<lparr>pv_policy_id = np_id policy, pv_rule_type = np_rule_type policy,
     pv_severity = np_severity policy, pv_object_kind = g_kind obj, pv_object_id = g_id obj, pv_reason = reason,
     pv_object_name = Some (g_name obj)\<rparr>"

text \<open>\<open>description is None or not str(description).strip()\<close>: the text of a value that is not a string is never blank.\<close>

definition blank_description :: "json \<Rightarrow> bool" where
  "blank_description v = (case v of JNull \<Rightarrow> True | JStr s \<Rightarrow> strip s = [] | _ \<Rightarrow> False)"

definition evaluate_one :: "GovernanceModel \<Rightarrow> NormalizedPolicy \<Rightarrow> PolicyViolation list" where
  "evaluate_one model policy = concat (map (\<lambda>obj.
     case np_rule_type policy of
       RequireOwner \<Rightarrow>
         (case g_ownership obj of
            None \<Rightarrow> [mk_violation policy obj ''ownership is required but missing'']
          | Some ownership \<Rightarrow> if strip (ow_owner_name ownership) = []
              then [mk_violation policy obj ''ownership is required but missing''] else [])
     | RequireDescription \<Rightarrow>
         if blank_description (g_description obj)
         then [mk_violation policy obj ''description is required but missing''] else []
     | RequireRelationship \<Rightarrow>
         if list_ex (\<lambda>rel. rl_from_table_id rel = g_id obj \<or> rl_to_table_id rel = g_id obj) (gm_relationships model)
         then [] else [mk_violation policy obj ''table must participate in at least one relationship''])
     (select_objects model (np_select policy)))"

definition violation_sort_key :: "PolicyViolation \<Rightarrow> nat \<times> string \<times> string \<times> string \<times> string \<times> string" where
  "violation_sort_key v = (if pv_severity v = ErrorSeverity then 0 else 1, pv_policy_id v,
     object_kind_name (pv_object_kind v), pv_object_id v, rule_type_name (pv_rule_type v), pv_reason v)"

definition evaluate_policies :: "GovernanceModel \<Rightarrow> NormalizedPolicySet \<Rightarrow> PolicyViolation list" where
  "evaluate_policies model policy_set =
     sort_key violation_sort_key (concat (map (evaluate_one model) (nps_policies policy_set)))"

definition build_policy_report :: "PolicyViolation list \<Rightarrow> ContentIdentity \<Rightarrow> ContentIdentity \<Rightarrow> json" where
  "build_policy_report violations policy_id snapshot_id =
     JObject [(''ok'', JBool (\<not> list_ex (\<lambda>v. pv_severity v = ErrorSeverity) violations)),
       (''policy_identity'', content_identity_dict policy_id),
       (''report_schema'', JStr ''governance-policy-report''), (''report_version'', JStr ''1''),
       (''snapshot_identity'', content_identity_dict snapshot_id),
       (''violations'', JArray (map violation_dict violations))]"

section \<open>Errors of policy files\<close>

text \<open>A diagnostic names its file; \<open>PolicyError\<close> carries the class and the sorted diagnostics. Other exceptions pass through.\<close>

record PolicyDiagnosticError =
  pd_code :: string
  pd_path :: string
  pd_message :: string
  pd_source :: string

datatype policy_exception =
    PolicyError string "PolicyDiagnosticError list"
  | Uncaught error

definition policy_diagnostic :: "string \<Rightarrow> string \<Rightarrow> string \<Rightarrow> string \<Rightarrow> PolicyDiagnosticError" where
  "policy_diagnostic code path message source = \<lparr>pd_code = code, pd_path = path, pd_message = message, pd_source = source\<rparr>"

definition policy_error :: "string \<Rightarrow> PolicyDiagnosticError list \<Rightarrow> policy_exception" where
  "policy_error cls errors = PolicyError cls (sort_key (\<lambda>e. (pd_source e, pd_path e, pd_code e, pd_message e)) errors)"

definition policy_diagnostics_failure :: "PolicyDiagnosticError list \<Rightarrow> json" where
  "policy_diagnostics_failure errors = JObject
     [(''diagnostic_schema'', JStr ''governance-policy-diagnostics''), (''diagnostic_version'', JStr ''1''),
      (''errors'', JArray (map (\<lambda>e. JObject [(''code'', JStr (pd_code e)), (''message'', JStr (pd_message e)),
         (''path'', JStr (pd_path e)), (''source'', JStr (pd_source e))])
         (sort_key (\<lambda>e. (pd_source e, pd_path e, pd_code e, pd_message e)) errors))),
      (''ok'', JBool False)]"

definition semantic_error :: "string \<Rightarrow> string \<Rightarrow> string \<Rightarrow> policy_exception" where
  "semantic_error source path message =
     policy_error ''PolicySemanticError'' [policy_diagnostic ''semantic_validation_failed'' path message source]"

section \<open>Reading policy files\<close>

text \<open>\<open>config_contract/paths.py\<close>.\<close>

definition normalize_relative_path :: "string \<Rightarrow> string \<Rightarrow> string result" where
  "normalize_relative_path raw pointer =
     (let failure = (\<lambda>message. Diagnostics ''ConfigSemanticError'' [diagnostic_error ''semantic_validation_failed'' pointer message]) in
      if strip raw = [] then Inl (failure ''path must be a non-empty relative string'')
      else (let text = replace_char CHR 0x5C ''/'' (strip raw) in
        if startswith ''/'' text \<or> length text \<ge> 2 \<and> text ! 1 = CHR '':''
        then Inl (failure ''path must be relative to the configuration file directory'')
        else if ''..'' \<in> set (posix_parts text) then Inl (failure ''path must not escape the configuration file directory'')
        else if posix_parts text = [] then Inl (failure ''path must be a non-empty relative string'')
        else Inr (join ''/'' (posix_parts text))))"

text \<open>What is found under a path: reading may fail, which is reported, the bytes may not be UTF-8, which is not, and the text may
  not be YAML.\<close>

datatype policy_file = Unreadable | NotUtf8 | NotYaml | Yaml json

definition parse_policy_yaml :: "policy_file \<Rightarrow> string \<Rightarrow> policy_exception + json" where
  "parse_policy_yaml file source =
     (case file of
        Unreadable \<Rightarrow> Inl (policy_error ''PolicyParseError'' [policy_diagnostic ''parse_error'' [] ''unable to read policy file'' source])
      | NotUtf8 \<Rightarrow> Inl (Uncaught (ValueError ''invalid UTF-8''))
      | NotYaml \<Rightarrow> Inl (policy_error ''PolicyParseError'' [policy_diagnostic ''parse_error'' [] ''invalid YAML in policy file'' source])
      | Yaml document \<Rightarrow> Inr document)"

text \<open>
  What the code reads of the errors \<open>Draft202012Validator(load_schema()).iter_errors(document)\<close> yields. Paths of one
  document hold a key or a position at the same place, so the order between the two is never asked for.
\<close>

datatype path_item = Key string | Position nat

record ValidationError =
  ve_absolute_path :: "path_item list"
  ve_validator :: string

fun path_item_key :: "path_item \<Rightarrow> nat \<times> string" where
  "path_item_key (Key s) = (0, s)"
| "path_item_key (Position n) = (n, [])"

fun path_item_text :: "path_item \<Rightarrow> string" where
  "path_item_text (Key s) = s"
| "path_item_text (Position n) = str_nat n"

definition pointer_from_path :: "path_item list \<Rightarrow> string" where
  "pointer_from_path path = concat (map (\<lambda>i. ''/'' @
     replace_char CHR ''/'' ''~1'' (replace_char CHR ''~'' ''~0'' (path_item_text i))) path)"

definition safe_schema_message :: "string \<Rightarrow> string" where
  "safe_schema_message validator = (case map_of
     [(''required'', ''missing required property''), (''additionalProperties'', ''unknown property is not allowed''),
      (''const'', ''value is not an allowed constant''), (''enum'', ''value is not an allowed enumeration member''),
      (''type'', ''value has an invalid type''), (''minLength'', ''string is empty or too short'')] validator of
       Some message \<Rightarrow> message | None \<Rightarrow> ''policy failed structural validation'')"

definition validate_policy_structure ::
  "(json \<Rightarrow> ValidationError list) \<Rightarrow> json \<Rightarrow> string \<Rightarrow> policy_exception + (string \<times> json) list" where
  "validate_policy_structure iter_errors document source =
     (let unsupported = policy_error ''UnsupportedPolicyVersionError''
        [policy_diagnostic ''unsupported_policy_version'' ''/policy_version'' ''unsupported policy_version'' source] in
      case document of
        JObject kvs \<Rightarrow>
          if get_item kvs ''policy_version'' \<notin> {JNull, JStr ''1''} then Inl unsupported
          else (let errors = sort_key (\<lambda>e. map path_item_key (ve_absolute_path e)) (iter_errors document) in
            if \<exists>e \<in> set errors. ve_validator e = ''const'' \<and> ve_absolute_path e = [Key ''policy_version''] then Inl unsupported
            else if errors \<noteq> [] then Inl (policy_error ''PolicySchemaError''
              (map (\<lambda>e. policy_diagnostic ''schema_validation_failed'' (pointer_from_path (ve_absolute_path e))
                 (safe_schema_message (ve_validator e)) source) errors))
            else Inr kvs)
      | _ \<Rightarrow> Inl (policy_error ''PolicySchemaError''
          [policy_diagnostic ''schema_validation_failed'' [] ''policy root must be a mapping'' source]))"

section \<open>Normalization\<close>

text \<open>\<open>value in {...}\<close> raises for a list or a mapping, which has no hash; any other value is compared by equality.\<close>

definition member_named :: "('a \<Rightarrow> string) \<Rightarrow> 'a list \<Rightarrow> json \<Rightarrow> policy_exception + 'a option" where
  "member_named name members v =
     (case v of
        JArray _ \<Rightarrow> Inl (Uncaught (TypeError ''unhashable type''))
      | JObject _ \<Rightarrow> Inl (Uncaught (TypeError ''unhashable type''))
      | _ \<Rightarrow> Inr (find (\<lambda>m. v = JStr (name m)) members))"

definition optional_text :: "string \<Rightarrow> string \<Rightarrow> string \<Rightarrow> json \<Rightarrow> policy_exception + string option" where
  "optional_text source path message v =
     (case v of
        JNull \<Rightarrow> Inr None
      | JStr s \<Rightarrow> if strip s = [] then Inl (semantic_error source path message) else Inr (Some (strip s))
      | _ \<Rightarrow> Inl (semantic_error source path message))"

definition normalize_selector ::
  "string \<Rightarrow> string \<Rightarrow> RuleType \<Rightarrow> (string \<times> json) list \<Rightarrow> policy_exception + PolicySelector" where
  "normalize_selector source pointer rule_type select_raw =
     try_in (member_named object_kind_name DESCRIPTION_KINDS (get_item select_raw ''kind'')) (\<lambda>named.
     case named of
       None \<Rightarrow> Inl (semantic_error source (pointer @ ''/kind'') ''unsupported object kind'')
     | Some kind \<Rightarrow>
         if kind \<notin> set (RULE_ALLOWED_KINDS rule_type)
         then Inl (semantic_error source (pointer @ ''/kind'') (''kind is not valid for rule type '' @ rule_type_name rule_type))
         else if get_item select_raw ''id'' \<noteq> JNull \<and> get_item select_raw ''id_prefix'' \<noteq> JNull
         then Inl (semantic_error source pointer ''id and id_prefix are mutually exclusive'')
         else
           try_in (optional_text source (pointer @ ''/id'') ''id must be a non-empty string'' (get_item select_raw ''id'')) (\<lambda>object_id.
           try_in (optional_text source (pointer @ ''/id_prefix'') ''id_prefix must be a non-empty string''
             (get_item select_raw ''id_prefix'')) (\<lambda>id_prefix.
           Inr \<lparr>sel_kind = kind, sel_object_id = object_id, sel_id_prefix = id_prefix\<rparr>)))"

definition normalize_policy ::
  "string \<Rightarrow> string \<Rightarrow> (string \<times> json) list \<Rightarrow> policy_exception + NormalizedPolicy" where
  "normalize_policy source pointer entry =
     (case get_item entry ''id'' of
        JStr policy_id \<Rightarrow>
          if strip policy_id = [] then Inl (semantic_error source (pointer @ ''/id'') ''policy id is required'')
          else
            try_in (member_named severity_name [ErrorSeverity, WarningSeverity] (get_item entry ''severity'')) (\<lambda>named.
            case named of
              None \<Rightarrow> Inl (semantic_error source (pointer @ ''/severity'') ''severity must be error or warning'')
            | Some severity \<Rightarrow>
                (case get_item entry ''rule'' of
                   JObject rule \<Rightarrow>
                     try_in (member_named rule_type_name [RequireOwner, RequireDescription, RequireRelationship]
                       (get_item rule ''type'')) (\<lambda>rule_named.
                     case rule_named of
                       None \<Rightarrow> Inl (semantic_error source (pointer @ ''/rule/type'') ''unsupported rule type'')
                     | Some rule_type \<Rightarrow>
                         (case get_item rule ''select'' of
                            JObject select_raw \<Rightarrow>
                              try_in (normalize_selector source (pointer @ ''/rule/select'') rule_type select_raw) (\<lambda>selector.
                              try_in (optional_text source (pointer @ ''/description'')
                                ''description must be a non-empty string when provided'' (get_item entry ''description'')) (\<lambda>description.
                              Inr \<lparr>np_id = strip policy_id, np_severity = severity, np_rule_type = rule_type,
                                np_select = selector, np_description = description\<rparr>))
                          | _ \<Rightarrow> Inl (semantic_error source (pointer @ ''/rule/select'') ''select must be a mapping'')))
                 | _ \<Rightarrow> Inl (semantic_error source (pointer @ ''/rule'') ''rule must be a mapping'')))
      | _ \<Rightarrow> Inl (semantic_error source (pointer @ ''/id'') ''policy id is required''))"

text \<open>The loop catches \<open>PolicySemanticError\<close> and keeps its diagnostics.\<close>

type_synonym normalized_document = "NormalizedPolicy list \<times> PolicyDiagnosticError list"

definition normalize_entry ::
  "string \<Rightarrow> normalized_document \<Rightarrow> nat \<times> json \<Rightarrow> policy_exception + normalized_document" where
  "normalize_entry source acc numbered =
     (case (acc, numbered) of ((normalized, errors), (index, entry)) \<Rightarrow>
       (let pointer = ''/policies/'' @ str_nat index in
        case entry of
          JObject kvs \<Rightarrow>
            (case normalize_policy source pointer kvs of
               Inr policy \<Rightarrow> Inr (normalized @ [policy], errors)
             | Inl (PolicyError cls raised) \<Rightarrow>
                 if cls = ''PolicySemanticError'' then Inr (normalized, errors @ raised) else Inl (PolicyError cls raised)
             | Inl e \<Rightarrow> Inl e)
        | _ \<Rightarrow> Inr (normalized, errors @ [policy_diagnostic ''semantic_validation_failed'' pointer ''policy must be a mapping'' source])))"

definition normalize_document :: "string \<Rightarrow> (string \<times> json) list \<Rightarrow> policy_exception + normalized_document" where
  "normalize_document source document =
     (case get_item document ''policies'' of
        JArray policies_raw \<Rightarrow> fold_in (normalize_entry source) ([], []) (zip [0..<length policies_raw] policies_raw)
      | _ \<Rightarrow> Inr ([], [policy_diagnostic ''semantic_validation_failed'' ''/policies'' ''policies must be an array'' source]))"

section \<open>Loading\<close>

record loading =
  ld_collected :: "NormalizedPolicy list"
  ld_seen_ids :: "(string, string) dict"
  ld_errors :: "PolicyDiagnosticError list"

definition register_policy :: "string \<Rightarrow> loading \<Rightarrow> NormalizedPolicy \<Rightarrow> loading" where
  "register_policy source st policy =
     (if np_id policy \<in> set (keys (ld_seen_ids st))
      then st\<lparr>ld_errors := ld_errors st @ [policy_diagnostic ''duplicate_policy_id'' ''/policies'' ''duplicate policy id'' source]\<rparr>
      else st\<lparr>ld_seen_ids := AList.update (np_id policy) source (ld_seen_ids st), ld_collected := ld_collected st @ [policy]\<rparr>)"

definition load_policy_file ::
  "(json \<Rightarrow> ValidationError list) \<Rightarrow> (string \<Rightarrow> policy_file option) \<Rightarrow> loading \<Rightarrow> nat \<times> string \<Rightarrow> policy_exception + loading" where
  "load_policy_file iter_errors files st numbered =
     (case numbered of (index, relative) \<Rightarrow>
       (let source = replace_char CHR 0x5C ''/'' relative;
            failed = (\<lambda>code message. Inr (st\<lparr>ld_errors := ld_errors st @ [policy_diagnostic code [] message source]\<rparr>)) in
        if isl (normalize_relative_path relative (''/policies/files/'' @ str_nat index))
        then failed ''semantic_validation_failed'' ''policy path is not safe''
        else (case files relative of
          None \<Rightarrow> failed ''missing_policy_file'' ''policy file does not exist''
        | Some file \<Rightarrow>
            try_in (parse_policy_yaml file source) (\<lambda>document.
            try_in (validate_policy_structure iter_errors document source) (\<lambda>kvs.
            try_in (normalize_document source kvs) (\<lambda>(file_policies, file_errors).
            Inr (fold (\<lambda>policy st. register_policy source st policy) file_policies
              (st\<lparr>ld_errors := ld_errors st @ file_errors\<rparr>))))))))"

definition load_normalized_policies ::
  "(json \<Rightarrow> ValidationError list) \<Rightarrow> (string \<Rightarrow> policy_file option) \<Rightarrow> string list \<Rightarrow> policy_exception + NormalizedPolicySet" where
  "load_normalized_policies iter_errors files policy_files =
     (if policy_files = [] then Inr (mk_normalized_policy_set [])
      else
        try_in (fold_in (load_policy_file iter_errors files) \<lparr>ld_collected = [], ld_seen_ids = [], ld_errors = []\<rparr>
          (zip [0..<length policy_files] policy_files)) (\<lambda>st.
        if ld_errors st \<noteq> [] then Inl (policy_error ''PolicySemanticError'' (ld_errors st))
        else Inr (mk_normalized_policy_set (ld_collected st))))"

section \<open>What a loaded set promises\<close>

definition trimmed :: "string \<Rightarrow> bool" where
  "trimmed s \<longleftrightarrow> strip s = s \<and> s \<noteq> []"

definition wf_selector :: "RuleType \<Rightarrow> PolicySelector \<Rightarrow> bool" where
  "wf_selector rule_type s \<longleftrightarrow> sel_kind s \<in> set (RULE_ALLOWED_KINDS rule_type) \<and>
     pred_option trimmed (sel_object_id s) \<and> pred_option trimmed (sel_id_prefix s) \<and>
     (sel_object_id s = None \<or> sel_id_prefix s = None)"

definition wf_policy :: "NormalizedPolicy \<Rightarrow> bool" where
  "wf_policy p \<longleftrightarrow> trimmed (np_id p) \<and> wf_selector (np_rule_type p) (np_select p) \<and> pred_option trimmed (np_description p)"

definition wf_normalized_set :: "NormalizedPolicySet \<Rightarrow> bool" where
  "wf_normalized_set s \<longleftrightarrow> list_all wf_policy (nps_policies s) \<and> distinct (map np_id (nps_policies s)) \<and>
     sorted (map np_id (nps_policies s))"

lemma trimmed_strip: "trimmed (strip s) \<longleftrightarrow> strip s \<noteq> []"
  by (simp add: trimmed_def)

lemma optional_text_Inr:
  "optional_text source path message v = Inr t \<Longrightarrow> pred_option trimmed t \<and> (v = JNull \<longrightarrow> t = None)"
  by (cases v) (auto simp: optional_text_def trimmed_strip split: if_splits)

lemma optional_text_simps:
  "optional_text source path message JNull = Inr None"
  "trimmed s \<Longrightarrow> optional_text source path message (JStr s) = Inr (Some s)"
  by (simp_all add: optional_text_def trimmed_def)

lemma member_named_Inr: "member_named name members v = Inr (Some m) \<Longrightarrow> m \<in> set members"
  by (cases v) (auto simp: member_named_def find_Some_iff)

lemma member_named_roundtrip:
  "member_named severity_name [ErrorSeverity, WarningSeverity] (JStr (severity_name a)) = Inr (Some a)"
  "member_named rule_type_name [RequireOwner, RequireDescription, RequireRelationship] (JStr (rule_type_name b)) = Inr (Some b)"
  "member_named object_kind_name DESCRIPTION_KINDS (JStr (object_kind_name c)) = Inr (Some c)"
  by (cases a, simp_all add: member_named_def) (cases b, simp_all, cases c, simp_all add: DESCRIPTION_KINDS_def)

lemma normalize_selector_wf: "normalize_selector source pointer rule_type raw = Inr s \<Longrightarrow> wf_selector rule_type s"
proof -
  assume norm: "normalize_selector source pointer rule_type raw = Inr s"
  let ?i = "get_item raw ''id''" and ?p = "get_item raw ''id_prefix''"
  obtain named where named: "member_named object_kind_name DESCRIPTION_KINDS (get_item raw ''kind'') = Inr named"
    using norm by (auto simp: normalize_selector_def split_result)
  then obtain kind where kind: "named = Some kind" using norm by (cases named) (simp_all add: normalize_selector_def)
  then have allowed: "kind \<in> set (RULE_ALLOWED_KINDS rule_type)" and one: "?i = JNull \<or> ?p = JNull"
    using norm named by (auto simp: normalize_selector_def split: if_split_asm)
  then obtain i p where parts: "optional_text source (pointer @ ''/id'') ''id must be a non-empty string'' ?i = Inr i"
      "optional_text source (pointer @ ''/id_prefix'') ''id_prefix must be a non-empty string'' ?p = Inr p"
      "s = \<lparr>sel_kind = kind, sel_object_id = i, sel_id_prefix = p\<rparr>"
    using norm named kind by (auto simp: normalize_selector_def split_result split: if_split_asm)
  show ?thesis
    using optional_text_Inr [OF parts(1)] optional_text_Inr [OF parts(2)] allowed one by (auto simp: parts(3) wf_selector_def)
qed

lemma selector_roundtrip:
  assumes "wf_selector rule_type s" "policy_selector_dict s = JObject kvs"
  shows "normalize_selector source pointer rule_type kvs = Inr s"
proof -
  have kvs: "kvs = (''kind'', JStr (object_kind_name (sel_kind s))) #
      opt_member ''id'' (sel_object_id s) @ opt_member ''id_prefix'' (sel_id_prefix s)"
    using assms(2) by (simp add: policy_selector_dict_def)
  show ?thesis
    using assms(1) unfolding kvs wf_selector_def
    by (cases s; cases "sel_object_id s"; cases "sel_id_prefix s")
      (auto simp: normalize_selector_def get_item_def opt_member_def member_named_roundtrip optional_text_simps)
qed

lemma normalize_policy_wf: "normalize_policy source pointer kvs = Inr p \<Longrightarrow> wf_policy p"
proof -
  assume norm: "normalize_policy source pointer kvs = Inr p"
  obtain i where i: "get_item kvs ''id'' = JStr i" using norm by (cases "get_item kvs ''id''") (simp_all add: normalize_policy_def)
  then have "strip i \<noteq> []" using norm by (auto simp: normalize_policy_def split: if_split_asm)
  then obtain named where "member_named severity_name [ErrorSeverity, WarningSeverity] (get_item kvs ''severity'') = Inr named"
    using norm by (auto simp: normalize_policy_def i split_result split: if_split_asm)
  then obtain severity where severity:
      "member_named severity_name [ErrorSeverity, WarningSeverity] (get_item kvs ''severity'') = Inr (Some severity)"
    using norm \<open>strip i \<noteq> []\<close> by (cases named) (simp_all add: normalize_policy_def i)
  obtain rule where rule: "get_item kvs ''rule'' = JObject rule"
    using norm severity \<open>strip i \<noteq> []\<close> by (cases "get_item kvs ''rule''") (simp_all add: normalize_policy_def i)
  let ?named = "member_named rule_type_name [RequireOwner, RequireDescription, RequireRelationship] (get_item rule ''type'')"
  obtain rule_named where "?named = Inr rule_named"
    using norm severity \<open>strip i \<noteq> []\<close> by (auto simp: normalize_policy_def i rule split_result)
  then obtain rule_type where rule_type: "?named = Inr (Some rule_type)"
    using norm severity \<open>strip i \<noteq> []\<close> by (cases rule_named) (simp_all add: normalize_policy_def i rule)
  obtain raw where raw: "get_item rule ''select'' = JObject raw"
    using norm severity rule_type \<open>strip i \<noteq> []\<close> by (cases "get_item rule ''select''") (simp_all add: normalize_policy_def i rule)
  obtain sel d where "normalize_selector source (pointer @ ''/rule/select'') rule_type raw = Inr sel"
      "optional_text source (pointer @ ''/description'') ''description must be a non-empty string when provided''
        (get_item kvs ''description'') = Inr d"
      "p = \<lparr>np_id = strip i, np_severity = severity, np_rule_type = rule_type, np_select = sel, np_description = d\<rparr>"
    using norm severity rule_type \<open>strip i \<noteq> []\<close> by (auto simp: normalize_policy_def i rule raw split_result)
  then show ?thesis
    using normalize_selector_wf optional_text_Inr \<open>strip i \<noteq> []\<close> by (fastforce simp: wf_policy_def trimmed_strip)
qed

lemma policy_roundtrip_normalized:
  assumes "wf_policy p" "policy_dict p = JObject kvs" shows "normalize_policy source pointer kvs = Inr p"
proof -
  obtain skvs where skvs: "policy_selector_dict (np_select p) = JObject skvs" by (simp add: policy_selector_dict_def)
  have kvs: "kvs = [(''id'', JStr (np_id p)),
     (''rule'', JObject [(''select'', JObject skvs), (''type'', JStr (rule_type_name (np_rule_type p)))]),
     (''severity'', JStr (severity_name (np_severity p)))] @ opt_member ''description'' (np_description p)"
    using assms(2) by (simp add: policy_dict_def skvs)
  have "normalize_selector source q (np_rule_type p) skvs = Inr (np_select p)" for q
    using assms(1) by (intro selector_roundtrip [OF _ skvs]) (simp add: wf_policy_def)
  then show ?thesis
    using assms(1) unfolding kvs wf_policy_def
    by (cases p; cases "np_description p")
      (auto simp: normalize_policy_def get_item_def opt_member_def member_named_roundtrip optional_text_simps trimmed_def)
qed

section \<open>The loading loop\<close>

definition loading_inv :: "loading \<Rightarrow> bool" where
  "loading_inv st \<longleftrightarrow> list_all wf_policy (ld_collected st) \<and> distinct (map np_id (ld_collected st)) \<and>
     keys (ld_seen_ids st) = map np_id (ld_collected st)"

lemma register_inv: "loading_inv st \<Longrightarrow> wf_policy p \<Longrightarrow> loading_inv (register_policy source st p)"
  by (auto simp: loading_inv_def register_policy_def keys_update)

lemma registers_inv:
  "loading_inv st \<Longrightarrow> list_all wf_policy ps \<Longrightarrow> loading_inv (fold (\<lambda>p st. register_policy source st p) ps st)"
  by (induction ps arbitrary: st) (auto simp: register_inv)

lemma normalize_entries_wf:
  "fold_in (normalize_entry source) acc raws = Inr (ps, errors) \<Longrightarrow> list_all wf_policy (fst acc) \<Longrightarrow> list_all wf_policy ps"
proof (induction raws arbitrary: acc)
  case (Cons raw raws)
  obtain acc' where step: "normalize_entry source acc raw = Inr acc'" "fold_in (normalize_entry source) acc' raws = Inr (ps, errors)"
    using Cons.prems(1) by (auto simp: split_result)
  have "list_all wf_policy (fst acc')"
    using step(1) Cons.prems(2)
    by (auto simp: normalize_entry_def Let_def split: prod.splits json.splits sum.splits policy_exception.splits if_split_asm
        dest: normalize_policy_wf)
  then show ?case using Cons.IH step(2) by blast
qed simp

lemma load_file_inv: "load_policy_file iter_errors files st x = Inr t \<Longrightarrow> loading_inv st \<Longrightarrow> loading_inv t"
proof -
  assume load: "load_policy_file iter_errors files st x = Inr t" and inv: "loading_inv st"
  have more: "loading_inv (st\<lparr>ld_errors := es\<rparr>)" for es using inv by (simp add: loading_inv_def)
  have "list_all wf_policy ps" if "normalize_document source kvs = Inr (ps, es)" for source kvs ps es
    using that normalize_entries_wf by (cases "get_item kvs ''policies''") (fastforce simp: normalize_document_def)+
  then show ?thesis
    using load more by (auto simp: load_policy_file_def Let_def split_result intro!: registers_inv
        split: prod.splits option.splits if_split_asm)
qed

lemma load_loop_inv: "fold_in (load_policy_file iter_errors files) st xs = Inr t \<Longrightarrow> loading_inv st \<Longrightarrow> loading_inv t"
  by (induction xs arbitrary: st) (auto simp: split_result dest: load_file_inv)

lemma loaded_wf:
  assumes "load_normalized_policies iter_errors files policy_files = Inr s" shows "wf_normalized_set s"
proof (cases "policy_files = []")
  case False
  then obtain st where st: "fold_in (load_policy_file iter_errors files) \<lparr>ld_collected = [], ld_seen_ids = [], ld_errors = []\<rparr>
      (zip [0..<length policy_files] policy_files) = Inr st" "s = mk_normalized_policy_set (ld_collected st)"
    using assms by (auto simp: load_normalized_policies_def split_result split: if_split_asm)
  have "loading_inv st" using load_loop_inv [OF st(1)] by (simp add: loading_inv_def)
  then show ?thesis by (simp add: st(2) loading_inv_def wf_normalized_set_def mk_normalized_policy_set_def)
qed (use assms in \<open>auto simp: load_normalized_policies_def wf_normalized_set_def mk_normalized_policy_set_def\<close>)

lemma normalize_written:
  assumes "list_all wf_policy ps"
  shows "fold_in (normalize_entry source) (acc, errors) (zip [k..<k + length ps] (map policy_dict ps)) = Inr (acc @ ps, errors)"
  using assms
proof (induction ps arbitrary: acc k)
  case (Cons p ps)
  obtain kvs where kvs: "policy_dict p = JObject kvs" by (simp add: policy_dict_def)
  have "normalize_entry source (acc, errors) (k, policy_dict p) = Inr (acc @ [p], errors)"
    using policy_roundtrip_normalized [OF _ kvs] Cons.prems by (simp add: normalize_entry_def kvs Let_def)
  then show ?case using Cons.IH [of "acc @ [p]" "Suc k"] Cons.prems by (simp add: upt_conv_Cons del: upt_Suc)
qed simp

lemma register_distinct:
  assumes "distinct (map np_id (ld_collected st @ ps))" "keys (ld_seen_ids st) = map np_id (ld_collected st)"
  shows "ld_collected (fold (\<lambda>p st. register_policy source st p) ps st) = ld_collected st @ ps \<and>
    ld_errors (fold (\<lambda>p st. register_policy source st p) ps st) = ld_errors st"
  using assms
proof (induction ps arbitrary: st)
  case (Cons p ps)
  have fresh: "np_id p \<notin> set (keys (ld_seen_ids st))" unfolding Cons.prems(2) using Cons.prems(1) by simp
  then have "register_policy source st p =
      st\<lparr>ld_seen_ids := AList.update (np_id p) source (ld_seen_ids st), ld_collected := ld_collected st @ [p]\<rparr>"
    by (simp add: register_policy_def)
  then show ?case using Cons.IH [of "register_policy source st p"] Cons.prems fresh by (simp add: keys_update del: set_map)
qed simp

text \<open>
  C40 (roundtrip). What the loader accepts is in normal form (ids, selector texts and descriptions trimmed and not empty,
  ids distinct and sorted, each rule on a kind it can be asked of, id and prefix never together), and written to one file
  as its identity dictionary, under a safe relative path, it is loaded back as the same policy set, provided the schema
  validator, which is a parameter, accepts that dictionary.
\<close>

theorem policy_files_roundtrip:
  assumes "load_normalized_policies iter_errors files policy_files = Inr s"
    and "files' path = Some (Yaml (normalized_policy_set_dict s))" "normalize_relative_path path ''/policies/files/0'' = Inr q"
    and "iter_errors (normalized_policy_set_dict s) = []"
  shows "wf_normalized_set s \<and> load_normalized_policies iter_errors files' [path] = Inr s"
proof
  show wf: "wf_normalized_set s" using assms(1) by (rule loaded_wf)
  let ?src = "replace_char CHR 0x5C ''/'' path" and ?st = "\<lparr>ld_collected = [], ld_seen_ids = [], ld_errors = []\<rparr>"
  have "normalize_document ?src
      [(''policies'', JArray (map policy_dict (nps_policies s))), (''policy_schema'', JStr ''governance-policy''), (''policy_version'', JStr ''1'')]
      = Inr (nps_policies s, [])"
    using normalize_written [of "nps_policies s" ?src "[]" "[]" 0] wf
    by (simp add: normalize_document_def get_item_def wf_normalized_set_def)
  moreover have "validate_policy_structure iter_errors (normalized_policy_set_dict s) ?src =
      Inr [(''policies'', JArray (map policy_dict (nps_policies s))), (''policy_schema'', JStr ''governance-policy''), (''policy_version'', JStr ''1'')]"
    using assms(4) by (simp add: validate_policy_structure_def normalized_policy_set_dict_def get_item_def)
  moreover have "str_nat 0 = ''0''" by code_simp
  ultimately have loaded: "load_policy_file iter_errors files' ?st (0, path) =
      Inr (fold (\<lambda>p st. register_policy ?src st p) (nps_policies s) ?st)"
    using assms(2,3) by (simp add: load_policy_file_def parse_policy_yaml_def Let_def)
  have "ld_collected (fold (\<lambda>p st. register_policy ?src st p) (nps_policies s) ?st) = nps_policies s \<and>
      ld_errors (fold (\<lambda>p st. register_policy ?src st p) (nps_policies s) ?st) = []"
    using register_distinct [of ?st "nps_policies s" ?src] wf by (simp add: wf_normalized_set_def)
  then show "load_normalized_policies iter_errors files' [path] = Inr s"
    using loaded wf by (simp add: load_normalized_policies_def mk_normalized_policy_set_def wf_normalized_set_def sort_key_id)
qed

section \<open>The gate, specified\<close>

text \<open>The objects of a model, each with the path that leads to it, and what each rule asks of an object.\<close>

inductive governs :: "GovernanceModel \<Rightarrow> governed \<Rightarrow> bool" for model where
  data_source: "d \<in> set (gm_data_sources model) \<Longrightarrow> governs model (GDataSource d)"
| database: "governs model (GDataSource d) \<Longrightarrow> b \<in> set (ds_databases d) \<Longrightarrow> governs model (GDatabase b)"
| schema: "governs model (GDatabase b) \<Longrightarrow> s \<in> set (db_schemas b) \<Longrightarrow> governs model (GSchema s)"
| table: "governs model (GSchema s) \<Longrightarrow> t \<in> set (sc_tables s) \<Longrightarrow> governs model (GTable t)"
| column: "governs model (GTable t) \<Longrightarrow> c \<in> set (t_columns t) \<Longrightarrow> governs model (GColumn c)"
| relationship: "r \<in> set (gm_relationships model) \<Longrightarrow> governs model (GRelationship r)"

inductive_simps governs_simps:
  "governs model (GDataSource d)" "governs model (GDatabase b)" "governs model (GSchema s)"
  "governs model (GTable t)" "governs model (GColumn c)" "governs model (GRelationship r)"

text \<open>Kind, id and name of an object, and the objects of a model by kind, each as often as it occurs.\<close>

fun described :: "governed \<Rightarrow> ObjectKind \<times> string \<times> string" where
  "described (GDataSource x) = (DataSourceKind, ds_id x, ds_name x)"
| "described (GDatabase x) = (DatabaseKind, db_id x, db_name x)"
| "described (GSchema x) = (SchemaKind, sc_id x, sc_name x)"
| "described (GTable x) = (TableKind, t_id x, t_name x)"
| "described (GColumn x) = (ColumnKind, c_id x, c_name x)"
| "described (GRelationship x) = (RelationshipKind, rl_id x, rl_name x)"

definition objects_by_kind :: "GovernanceModel \<Rightarrow> governed list" where
  "objects_by_kind model =
     (let sources = gm_data_sources model; databases = concat (map ds_databases sources); schemas = concat (map db_schemas databases);
          tables = concat (map sc_tables schemas); columns = concat (map t_columns tables) in
      map GDataSource sources @ map GDatabase databases @ map GSchema schemas @ map GTable tables @ map GColumn columns @
      map GRelationship (gm_relationships model))"

definition selects :: "PolicySelector \<Rightarrow> governed \<Rightarrow> bool" where
  "selects sel x \<longleftrightarrow> (case described x of (kind, i, _) \<Rightarrow> kind = sel_kind sel \<and>
     (\<forall>j. sel_object_id sel = Some j \<longrightarrow> i = j) \<and> (\<forall>p. sel_id_prefix sel = Some p \<longrightarrow> (\<exists>rest. i = p @ rest)))"

lemma described_eq: "described x = (g_kind x, g_id x, g_name x)"
  by (cases x) simp_all

fun complies :: "GovernanceModel \<Rightarrow> RuleType \<Rightarrow> governed \<Rightarrow> bool" where
  "complies model RequireOwner x = (\<exists>w. g_ownership x = Some w \<and> strip (ow_owner_name w) \<noteq> [])"
| "complies model RequireDescription x = (g_description x \<noteq> JNull \<and> (\<forall>s. g_description x = JStr s \<longrightarrow> strip s \<noteq> []))"
| "complies model RequireRelationship x =
     (case described x of (_, i, _) \<Rightarrow> \<exists>r \<in> set (gm_relationships model). rl_from_table_id r = i \<or> rl_to_table_id r = i)"

fun missing_reason :: "RuleType \<Rightarrow> string" where
  "missing_reason RequireOwner = ''ownership is required but missing''"
| "missing_reason RequireDescription = ''description is required but missing''"
| "missing_reason RequireRelationship = ''table must participate in at least one relationship''"

definition violation_of :: "NormalizedPolicy \<Rightarrow> governed \<Rightarrow> PolicyViolation" where
  "violation_of p x = (case described x of (kind, i, name) \<Rightarrow>
     \<lparr>pv_policy_id = np_id p, pv_rule_type = np_rule_type p, pv_severity = np_severity p, pv_object_kind = kind, pv_object_id = i,
      pv_reason = missing_reason (np_rule_type p), pv_object_name = Some name\<rparr>)"

lemma violation_of_eq: "violation_of p x = mk_violation p x (missing_reason (np_rule_type p))"
  by (simp add: violation_of_def mk_violation_def described_eq)

definition violates :: "GovernanceModel \<Rightarrow> NormalizedPolicy \<Rightarrow> governed \<Rightarrow> bool" where
  "violates model p x \<longleftrightarrow> governs model x \<and> selects (np_select p) x \<and> \<not> complies model (np_rule_type p) x"

lemma set_iter_objects: "x \<in> set (iter_objects model) \<longleftrightarrow> governs model x"
proof
  assume "governs model x"
  then show "x \<in> set (iter_objects model)" by (induction) (auto simp: iter_objects_def image_iff)
next
  assume "x \<in> set (iter_objects model)"
  then show "governs model x" by (auto simp: iter_objects_def intro!: governs.intros intro: governs.intros)
qed

lemma set_select_objects: "x \<in> set (select_objects model sel) \<longleftrightarrow> governs model x \<and> selects sel x"
  by (auto simp: select_objects_def selects_def described_eq set_iter_objects startswith_iff split: option.splits)

lemma mset_concat_Cons: "mset (concat (map (\<lambda>x. f x # g x) xs)) = mset (map f xs) + mset (concat (map g xs))"
  by (induction xs) simp_all

lemma concat_concat_map: "concat (map (\<lambda>x. concat (map h (k x))) xs) = concat (map h (concat (map k xs)))"
  by (induction xs) simp_all

lemma mset_iter_objects: "mset (iter_objects model) = mset (objects_by_kind model)"
proof -
  have columns: "concat (map (\<lambda>t. map GColumn (t_columns t)) ts) = map GColumn (concat (map t_columns ts))" for ts
    by (induction ts) simp_all
  show ?thesis by (simp add: iter_objects_def objects_by_kind_def Let_def mset_concat_Cons concat_concat_map columns del: mset_map)
qed

lemma blank_description_iff: "blank_description v \<longleftrightarrow> v = JNull \<or> (\<exists>s. v = JStr s \<and> strip s = [])"
  by (cases v) (simp_all add: blank_description_def)

lemma evaluate_one_violations: "evaluate_one model p = map (violation_of p) (filter (violates model p) (iter_objects model))"
proof -
  have concat_if: "concat (map (\<lambda>x. if P x then [f x] else []) xs) = map f (filter P xs)" for P :: "governed \<Rightarrow> bool" and f :: "governed \<Rightarrow> PolicyViolation" and xs
    by (induction xs) simp_all
  have "evaluate_one model p = concat (map (\<lambda>x. if \<not> complies model (np_rule_type p) x then [violation_of p x] else [])
      (select_objects model (np_select p)))"
    unfolding evaluate_one_def
    by (rule arg_cong [where f = concat], rule map_cong [OF refl], cases "np_rule_type p")
      (auto simp: violation_of_eq blank_description_iff list_ex_iff described_eq split: option.splits)
  also have "\<dots> = map (violation_of p) (filter (\<lambda>x. \<not> complies model (np_rule_type p) x) (select_objects model (np_select p)))"
    by (rule concat_if)
  also have "filter (\<lambda>x. \<not> complies model (np_rule_type p) x) (select_objects model (np_select p)) = filter (violates model p) (iter_objects model)"
  proof -
    have "select_objects model sel = filter (selects sel) (iter_objects model)" for sel
      unfolding select_objects_def by (rule filter_cong) (auto simp: selects_def described_eq startswith_iff split: option.splits)
    then show ?thesis by (auto simp: violates_def set_iter_objects intro!: filter_cong)
  qed
  finally show ?thesis .
qed

lemma set_evaluate_one: "v \<in> set (evaluate_one model p) \<longleftrightarrow> (\<exists>x. violates model p x \<and> v = violation_of p x)"
  by (auto simp: evaluate_one_violations set_iter_objects violates_def)

lemma mset_evaluate_policies:
  "mset (evaluate_policies model s) =
   mset (concat (map (\<lambda>p. map (violation_of p) (filter (violates model p) (objects_by_kind model))) (nps_policies s)))"
proof -
  have "mset (evaluate_one model p) = mset (map (violation_of p) (filter (violates model p) (objects_by_kind model)))" for p
    by (simp add: evaluate_one_violations mset_iter_objects)
  then have "mset (concat (map (evaluate_one model) ps)) =
      mset (concat (map (\<lambda>p. map (violation_of p) (filter (violates model p) (objects_by_kind model))) ps))" for ps
    by (induction ps) simp_all
  then show ?thesis by (simp add: evaluate_policies_def)
qed

lemma violations_ordered:
  "sorted (map (\<lambda>v. (pv_severity v \<noteq> ErrorSeverity, pv_policy_id v, object_kind_name (pv_object_kind v), pv_object_id v))
     (evaluate_policies model s))"
proof -
  have "sorted_wrt (\<lambda>v w. violation_sort_key v \<le> violation_sort_key w) (evaluate_policies model s)"
    using sorted_sort_key [of violation_sort_key "concat (map (evaluate_one model) (nps_policies s))"]
    by (simp only: evaluate_policies_def sorted_map)
  then show ?thesis
    unfolding sorted_map
    by (rule sorted_wrt_mono_rel [rotated]) (auto simp: violation_sort_key_def split: if_splits)
qed

lemma set_evaluate_policies:
  "v \<in> set (evaluate_policies model s) \<longleftrightarrow> (\<exists>p x. p \<in> set (nps_policies s) \<and> violates model p x \<and> v = violation_of p x)"
  by (auto simp: evaluate_policies_def set_evaluate_one)

lemma violation_of_fields [simp]:
  "pv_policy_id (violation_of p x) = np_id p" "pv_severity (violation_of p x) = np_severity p"
  "pv_rule_type (violation_of p x) = np_rule_type p" "pv_object_kind (violation_of p x) = g_kind x"
  by (simp_all add: violation_of_eq mk_violation_def)

lemma report_ok:
  "(\<not> list_ex (\<lambda>v. pv_severity v = ErrorSeverity) (evaluate_policies model s)) =
   (\<forall>p \<in> set (nps_policies s). np_severity p = ErrorSeverity \<longrightarrow>
      (\<forall>x. governs model x \<and> selects (np_select p) x \<longrightarrow> complies model (np_rule_type p) x))"
proof -
  have "(\<not> list_ex (\<lambda>v. pv_severity v = ErrorSeverity) (evaluate_policies model s)) =
      (\<forall>v. v \<in> set (evaluate_policies model s) \<longrightarrow> pv_severity v \<noteq> ErrorSeverity)" by (auto simp: list_ex_iff)
  then show ?thesis
    unfolding set_evaluate_policies violates_def by (metis violation_of_fields(2))
qed

lemma violation_names_policy:
  assumes "wf_normalized_set s" "p \<in> set (nps_policies s)"
  shows "(\<exists>v \<in> set (evaluate_policies model s). pv_policy_id v = np_id p) \<longleftrightarrow> (\<exists>x. violates model p x)"
proof -
  have "q = p" if "q \<in> set (nps_policies s)" "np_id q = np_id p" for q
    using assms that by (auto simp: wf_normalized_set_def distinct_map dest: inj_onD)
  then show ?thesis
    unfolding Bex_def set_evaluate_policies using assms(2) by (metis violation_of_fields(1))
qed

lemma violation_kinds:
  assumes "wf_normalized_set s" "v \<in> set (evaluate_policies model s)"
  shows "pv_object_kind v \<in> set (RULE_ALLOWED_KINDS (pv_rule_type v))"
  using assms by (auto simp: set_evaluate_policies violates_def selects_def described_eq
      wf_normalized_set_def list_all_iff wf_policy_def wf_selector_def)

text \<open>
  C39 (equivalence). The gate: with policies from the loader, the report is \<open>ok\<close> exactly when every object of the model that
  a policy of severity error selects complies with it. The violations are exactly one per policy and occurrence of an offending
  object in the model, with id, rule and severity of the policy, kind, id and name of the object and the reason, errors before
  warnings and then by policy, kind and id; a policy id occurs in them exactly when that
  policy is violated; and a rule is only ever reported for a kind of object it can be asked of.
\<close>

theorem policy_gate_exact:
  assumes "load_normalized_policies iter_errors files policy_files = Inr s"
  shows "let violations = evaluate_policies model s in
    build_policy_report violations policy_id snapshot_id = JObject [
      (''ok'', JBool (\<forall>p \<in> set (nps_policies s). np_severity p = ErrorSeverity \<longrightarrow>
         (\<forall>x. governs model x \<and> selects (np_select p) x \<longrightarrow> complies model (np_rule_type p) x))),
      (''policy_identity'', content_identity_dict policy_id),
      (''report_schema'', JStr ''governance-policy-report''), (''report_version'', JStr ''1''),
      (''snapshot_identity'', content_identity_dict snapshot_id),
      (''violations'', JArray (map violation_dict violations))] \<and>
    mset violations =
      mset (concat (map (\<lambda>p. map (violation_of p) (filter (violates model p) (objects_by_kind model))) (nps_policies s))) \<and>
    set (objects_by_kind model) = {x. governs model x} \<and>
    sorted (map (\<lambda>v. (pv_severity v \<noteq> ErrorSeverity, pv_policy_id v, object_kind_name (pv_object_kind v), pv_object_id v)) violations) \<and>
    (\<forall>p \<in> set (nps_policies s). (\<exists>v \<in> set violations. pv_policy_id v = np_id p) \<longleftrightarrow> (\<exists>x. violates model p x)) \<and>
    (\<forall>v \<in> set violations. pv_object_kind v \<in> set (RULE_ALLOWED_KINDS (pv_rule_type v)))"
proof -
  have wf: "wf_normalized_set s" using assms by (rule loaded_wf)
  have "set (objects_by_kind model) = {x. governs model x}"
    using mset_iter_objects [of model] set_iter_objects [of _ model] by (auto dest!: mset_eq_setD)
  moreover have "build_policy_report (evaluate_policies model s) policy_id snapshot_id = JObject [
      (''ok'', JBool (\<forall>p \<in> set (nps_policies s). np_severity p = ErrorSeverity \<longrightarrow>
         (\<forall>x. governs model x \<and> selects (np_select p) x \<longrightarrow> complies model (np_rule_type p) x))),
      (''policy_identity'', content_identity_dict policy_id),
      (''report_schema'', JStr ''governance-policy-report''), (''report_version'', JStr ''1''),
      (''snapshot_identity'', content_identity_dict snapshot_id),
      (''violations'', JArray (map violation_dict (evaluate_policies model s)))]"
    by (simp add: build_policy_report_def report_ok)
  ultimately show ?thesis
    unfolding Let_def using mset_evaluate_policies violations_ordered violation_names_policy [OF wf] violation_kinds [OF wf]
    by (intro conjI ballI)
qed

section \<open>An example\<close>

definition example_policies :: "json" where
  "example_policies = JObject [(''policy_schema'', JStr ''governance-policy''), (''policy_version'', JStr ''1''),
     (''policies'', JArray [
        JObject [(''id'', JStr ''table-owner''), (''severity'', JStr ''error''),
          (''rule'', JObject [(''type'', JStr ''require_owner''), (''select'', JObject [(''kind'', JStr ''table'')])])],
        JObject [(''id'', JStr '' described ''), (''severity'', JStr ''warning''), (''description'', JStr ''every column''),
          (''rule'', JObject [(''type'', JStr ''require_description''),
             (''select'', JObject [(''kind'', JStr ''column''), (''id_prefix'', JStr ''col:'')])])]])]"

definition example_set :: NormalizedPolicySet where
  "example_set = \<lparr>nps_policies = [
     \<lparr>np_id = ''described'', np_severity = WarningSeverity, np_rule_type = RequireDescription,
       np_select = \<lparr>sel_kind = ColumnKind, sel_object_id = None, sel_id_prefix = Some ''col:''\<rparr>,
       np_description = Some ''every column''\<rparr>,
     \<lparr>np_id = ''table-owner'', np_severity = ErrorSeverity, np_rule_type = RequireOwner,
       np_select = \<lparr>sel_kind = TableKind, sel_object_id = None, sel_id_prefix = None\<rparr>, np_description = None\<rparr>]\<rparr>"

text \<open>A validator that accepts any mapping with an array of policies, and one file.\<close>

definition example_validator :: "json \<Rightarrow> ValidationError list" where
  "example_validator document = (case document of
     JObject kvs \<Rightarrow> (case get_item kvs ''policies'' of JArray _ \<Rightarrow> [] | _ \<Rightarrow> [\<lparr>ve_absolute_path = [], ve_validator = ''required''\<rparr>])
   | _ \<Rightarrow> [])"

definition example_files :: "string \<Rightarrow> policy_file option" where
  "example_files path = (if path = ''policies/main.yaml'' then Some (Yaml example_policies)
     else if path = ''saved.yaml'' then Some (Yaml (normalized_policy_set_dict example_set)) else None)"

lemma example_loads: "load_normalized_policies example_validator example_files [''policies/main.yaml''] = Inr example_set"
  by code_simp

definition example_table :: "Ownership option \<Rightarrow> Table" where
  "example_table owner = \<lparr>t_id = ''tbl:s/d/p/t'', t_name = ''t'', t_schema_id = ''sch:s/d/p'',
     t_columns = [\<lparr>c_id = ''col:s/d/p/t/a'', c_name = ''a'', c_data_type = ''int'', c_ordinal_position = 1, c_nullable = True,
       c_description = JNull, c_technical_attributes = []\<rparr>], t_primary_key = None, t_foreign_keys = [],
     t_description = JNull, t_ownership = owner, t_technical_attributes = []\<rparr>"

definition example_governed :: "Ownership option \<Rightarrow> GovernanceModel" where
  "example_governed owner = \<lparr>gm_data_sources = [\<lparr>ds_id = ''ds:s'', ds_name = ''s'', ds_system_type = ''postgresql'',
     ds_databases = [\<lparr>db_id = ''db:s/d'', db_name = ''d'', db_datasource_id = ''ds:s'',
       db_schemas = [\<lparr>sc_id = ''sch:s/d/p'', sc_name = ''p'', sc_database_id = ''db:s/d'', sc_tables = [example_table owner],
         sc_description = JNull, sc_ownership = None\<rparr>], db_description = JNull, db_ownership = None\<rparr>],
     ds_description = JNull, ds_ownership = None, ds_technical_attributes = []\<rparr>], gm_relationships = []\<rparr>"

theorem policy_files_roundtrip_witness:
  "wf_normalized_set example_set \<and> load_normalized_policies example_validator example_files [''saved.yaml''] = Inr example_set"
proof (rule policy_files_roundtrip [OF example_loads])
  show "example_files ''saved.yaml'' = Some (Yaml (normalized_policy_set_dict example_set))" by (simp add: example_files_def)
  show "normalize_relative_path ''saved.yaml'' ''/policies/files/0'' = Inr ''saved.yaml''" by code_simp
  show "example_validator (normalized_policy_set_dict example_set) = []" by code_simp
qed

lemma example_table_governed: "governs (example_governed owner) (GTable (example_table owner))"
  unfolding set_iter_objects [symmetric] by (simp add: iter_objects_def example_governed_def)

text \<open>Without an owner the gate is closed: the report of the theorem says \<open>ok: false\<close>.\<close>

theorem policy_gate_exact_witness:
  "\<forall>i j. get_item (case build_policy_report (evaluate_policies (example_governed None) example_set) i j of
     JObject kvs \<Rightarrow> kvs | _ \<Rightarrow> []) ''ok'' = JBool False"
proof (intro allI)
  fix i j
  have "\<not> (\<forall>p \<in> set (nps_policies example_set). np_severity p = ErrorSeverity \<longrightarrow>
      (\<forall>x. governs (example_governed None) x \<and> selects (np_select p) x \<longrightarrow> complies (example_governed None) (np_rule_type p) x))"
    using example_table_governed [of None] by (auto simp: example_set_def selects_def example_table_def)
  then show "get_item (case build_policy_report (evaluate_policies (example_governed None) example_set) i j of
     JObject kvs \<Rightarrow> kvs | _ \<Rightarrow> []) ''ok'' = JBool False"
    using policy_gate_exact [OF example_loads, of "example_governed None" i j] by (simp add: Let_def get_item_def)
qed

end
