(* ===== verification/Reconciliation.thy ===== *)
theory Reconciliation
  imports Conflicts Sync
begin

text \<open>
  The package \<open>reconciliation\<close>, first part: the projection of graph identities to local ids
  (\<open>domain/physical_projection.py\<close>), the mapped properties and their values (\<open>reconciliation/targets.py\<close>), when a decision
  may reach Collibra (\<open>reconciliation/safety.py\<close>), the index of the scanned objects (\<open>reconciliation/physical_index.py\<close>)
  and the overlay of effective values on the desired state (\<open>reconciliation/overlay.py\<close>). The theorems: the overlay
  changes exactly the decided fields, and the cross check lets no foreign identity reach a local id.
\<close>

section \<open>Physical projection\<close>

record PhysicalProjection =
  pj_object_kind :: string
  pj_local_id :: string
  pj_node :: GraphNodeIdentity

definition projection_to_dict :: "PhysicalProjection \<Rightarrow> json" where
  "projection_to_dict p = JObject [(''local_id'', JStr (pj_local_id p)), (''node'', identity_to_dict (pj_node p)),
     (''object_kind'', JStr (pj_object_kind p))]"

definition projected_as :: "string \<Rightarrow> GraphNodeIdentity \<Rightarrow> string result \<Rightarrow> PhysicalProjection option result" where
  "projected_as object_kind node made = try_in made (\<lambda>local_id.
     Inr (Some \<lparr>pj_object_kind = object_kind, pj_local_id = local_id, pj_node = node\<rparr>))"

definition root_data_source :: "GraphNodeIdentity \<Rightarrow> bool" where
  "root_data_source i \<longleftrightarrow> gi_kind i = NODE_KIND_DATA_SOURCE \<and> gi_parent i = None"

definition project_physical_identity :: "GraphNodeIdentity \<Rightarrow> PhysicalProjection option result" where
  "project_physical_identity i =
     (let ns = gi_namespace i in
      if gi_kind i = NODE_KIND_DATA_SOURCE \<and> gi_parent i = None
      then projected_as ''database'' i (make_database_id ns (gi_logical_id i))
      else if gi_kind i = NODE_KIND_DATASET then
        (case gi_parent i of
           None \<Rightarrow> Inr None
         | Some parent \<Rightarrow>
             if \<not> root_data_source parent then Inr None
             else if gi_namespace parent \<noteq> ns then Inr None
             else projected_as ''schema'' i (make_schema_id ns (gi_logical_id parent) (gi_logical_id i)))
      else if gi_kind i = NODE_KIND_TABLE then
        (case gi_parent i of
           None \<Rightarrow> Inr None
         | Some dataset \<Rightarrow>
             if gi_kind dataset \<noteq> NODE_KIND_DATASET then Inr None
             else (case gi_parent dataset of
               None \<Rightarrow> Inr None
             | Some data_source \<Rightarrow>
                 if \<not> root_data_source data_source then Inr None
                 else if ns \<noteq> gi_namespace dataset \<or> gi_namespace dataset \<noteq> gi_namespace data_source then Inr None
                 else projected_as ''table'' i
                   (make_table_id ns (gi_logical_id data_source) (gi_logical_id dataset) (gi_logical_id i))))
      else if gi_kind i = NODE_KIND_COLUMN then
        (case gi_parent i of
           None \<Rightarrow> Inr None
         | Some table \<Rightarrow>
             if gi_kind table \<noteq> NODE_KIND_TABLE then Inr None
             else (case gi_parent table of
               None \<Rightarrow> Inr None
             | Some dataset \<Rightarrow>
                 if gi_kind dataset \<noteq> NODE_KIND_DATASET then Inr None
                 else (case gi_parent dataset of
                   None \<Rightarrow> Inr None
                 | Some data_source \<Rightarrow>
                     if \<not> root_data_source data_source then Inr None
                     else if ns \<noteq> gi_namespace table \<or> gi_namespace table \<noteq> gi_namespace dataset \<or>
                       gi_namespace dataset \<noteq> gi_namespace data_source then Inr None
                     else projected_as ''column'' i (make_column_id ns (gi_logical_id data_source)
                       (gi_logical_id dataset) (gi_logical_id table) (gi_logical_id i)))))
      else Inr None)"

definition project_physical_local_id :: "GraphNodeIdentity \<Rightarrow> string option result" where
  "project_physical_local_id i = try_in (project_physical_identity i) (\<lambda>projected. Inr (map_option pj_local_id projected))"

section \<open>Targets\<close>

definition PATH_NAME :: PropertyPath where "PATH_NAME = [''name'']"
definition PATH_DESCRIPTION :: PropertyPath where "PATH_DESCRIPTION = [''description'']"
definition PATH_DATA_TYPE :: PropertyPath where "PATH_DATA_TYPE = [''attributes'', ''data_type'']"
definition PATH_OWNERSHIP :: PropertyPath where "PATH_OWNERSHIP = [''attributes'', ''ownership'']"

lemmas path_defs = PATH_NAME_def PATH_DESCRIPTION_def PATH_DATA_TYPE_def PATH_OWNERSHIP_def

datatype TargetField = DisplayNameField | DescriptionField | DataTypeField | OwnerField

record RepresentableTargetValue =
  rt_field :: TargetField
  rt_has_value :: bool
  rt_value :: "string option"

definition is_ownership_applicable :: "string \<Rightarrow> bool" where
  "is_ownership_applicable kind \<longleftrightarrow> kind \<in> {NODE_KIND_DATA_SOURCE, NODE_KIND_DATASET, NODE_KIND_TABLE}"

definition is_data_type_applicable :: "string \<Rightarrow> bool" where
  "is_data_type_applicable kind \<longleftrightarrow> kind = NODE_KIND_COLUMN"

definition mapped_property_paths_for_kind :: "string \<Rightarrow> PropertyPath list" where
  "mapped_property_paths_for_kind kind = [PATH_NAME, PATH_DESCRIPTION] @
     (if is_data_type_applicable kind then [PATH_DATA_TYPE] else []) @
     (if is_ownership_applicable kind then [PATH_OWNERSHIP] else [])"

definition target_field_for_path :: "PropertyPath \<Rightarrow> TargetField option" where
  "target_field_for_path path =
     (let pointer = to_pointer path in
      if pointer = ''/name'' then Some DisplayNameField
      else if pointer = ''/description'' then Some DescriptionField
      else if pointer = ''/attributes/data_type'' then Some DataTypeField
      else if pointer = ''/attributes/ownership'' then Some OwnerField
      else None)"

definition path_applicable_to_identity :: "PropertyPath \<Rightarrow> GraphNodeIdentity \<Rightarrow> bool" where
  "path_applicable_to_identity path i =
     (case target_field_for_path path of
        None \<Rightarrow> False
      | Some DataTypeField \<Rightarrow> is_data_type_applicable (gi_kind i)
      | Some OwnerField \<Rightarrow> is_ownership_applicable (gi_kind i)
      | Some _ \<Rightarrow> True)"

text \<open>\<open>normalize_json_value\<close> of a JSON value is its canonical form (\<open>normalize_py_of_json\<close>).\<close>

definition text_target :: "TargetField \<Rightarrow> string \<Rightarrow> RepresentableTargetValue" where
  "text_target field s = \<lparr>rt_field = field, rt_has_value = True, rt_value = Some s\<rparr>"

definition null_target :: "TargetField \<Rightarrow> RepresentableTargetValue" where
  "null_target field = \<lparr>rt_field = field, rt_has_value = False, rt_value = None\<rparr>"

definition convert_effective_value ::
  "PropertyPath \<Rightarrow> GraphNodeIdentity \<Rightarrow> json \<Rightarrow> bool \<Rightarrow> RepresentableTargetValue option" where
  "convert_effective_value path i value has_effective_value =
     (if \<not> path_applicable_to_identity path i then None
      else (case target_field_for_path path of
        None \<Rightarrow> None
      | Some field \<Rightarrow>
          if \<not> has_effective_value then None
          else (case (field, canon value) of
            (OwnerField, JNull) \<Rightarrow> Some (null_target field)
          | (OwnerField, JArray [JObject owner]) \<Rightarrow>
              (case (get_item owner ''name'', get_item owner ''type'') of
                 (JStr name, JStr _) \<Rightarrow> if strip name = [] then None else Some (text_target field name)
               | _ \<Rightarrow> None)
          | (OwnerField, _) \<Rightarrow> None
          | (_, JNull) \<Rightarrow> Some (null_target field)
          | (_, JStr s) \<Rightarrow> if field \<noteq> DescriptionField \<and> strip s = [] then None else Some (text_target field s)
          | _ \<Rightarrow> None)))"

section \<open>Safety\<close>

definition REASON_SAFE :: string where "REASON_SAFE = ''safe''"
definition REASON_UNRESOLVED :: string where "REASON_UNRESOLVED = ''unresolved_conflict''"
definition REASON_INVALID :: string where "REASON_INVALID = ''invalid_or_ambiguous_authority''"
definition REASON_UNSUPPORTED :: string where "REASON_UNSUPPORTED = ''unsupported_effective_value''"
definition REASON_NOT_MAPPED :: string where "REASON_NOT_MAPPED = ''not_reconciliation_mapped''"

definition SAFE_STATES :: "ConflictState list" where
  "SAFE_STATES = [SINGLE_OBSERVATION, AGREEMENT, RESOLVED_BY_AUTHORITY]"

record ReconciliationAssessment =
  am_applicable :: bool
  am_safe :: bool
  am_reason :: string

definition conflict_decision_safe :: "PropertyConflictResult \<Rightarrow> bool" where
  "conflict_decision_safe r \<longleftrightarrow> cr_state r \<in> set SAFE_STATES"

definition assess_reconciliation ::
  "PropertyConflictResult \<Rightarrow> GraphNodeIdentity option \<Rightarrow> PropertyPath option \<Rightarrow> ReconciliationAssessment" where
  "assess_reconciliation r identity property_path =
     (let object_identity = (case identity of None \<Rightarrow> cr_object_identity r | Some i \<Rightarrow> i);
          path = (case property_path of None \<Rightarrow> cr_property_path r | Some p \<Rightarrow> p);
          unsafe = (\<lambda>reason. \<lparr>am_applicable = True, am_safe = False, am_reason = reason\<rparr>) in
      if target_field_for_path path = None \<or> \<not> path_applicable_to_identity path object_identity
      then \<lparr>am_applicable = False, am_safe = False, am_reason = REASON_NOT_MAPPED\<rparr>
      else if cr_state r = UNRESOLVED_CONFLICT then unsafe REASON_UNRESOLVED
      else if cr_state r = INVALID_OR_AMBIGUOUS_AUTHORITY then unsafe REASON_INVALID
      else if cr_state r \<notin> set SAFE_STATES then unsafe REASON_UNRESOLVED
      else if \<not> cr_has_effective_value r then unsafe REASON_UNSUPPORTED
      else if convert_effective_value path object_identity (cr_effective_value r) True = None then unsafe REASON_UNSUPPORTED
      else \<lparr>am_applicable = True, am_safe = True, am_reason = REASON_SAFE\<rparr>)"

abbreviation assess :: "PropertyConflictResult \<Rightarrow> ReconciliationAssessment" where
  "assess r \<equiv> assess_reconciliation r None None"

section \<open>The physical index\<close>

definition CODE_OBJECT_IDENTITY_CONFLICT :: string where
  "CODE_OBJECT_IDENTITY_CONFLICT = ''reconciliation_object_identity_conflict''"

definition objects_diagnostic_path :: "string \<Rightarrow> string" where
  "objects_diagnostic_path local_id = ''/objects/'' @ escape_segment local_id"

record PhysicalReconciliationIndex =
  ix_by_local_id :: "(string, GraphNodeIdentity) dict"
  ix_namespace :: string

definition put_identity ::
  "(string, GraphNodeIdentity) dict \<Rightarrow> string \<Rightarrow> GraphNodeIdentity \<Rightarrow> (string, GraphNodeIdentity) dict result" where
  "put_identity m local_id identity =
     (if map_of m local_id \<noteq> None \<and> map_of m local_id \<noteq> Some identity
      then Inl (Diagnostics ''ReconciliationError'' [diagnostic_error CODE_OBJECT_IDENTITY_CONFLICT
        (objects_diagnostic_path local_id)
        ''physical reconciliation index has conflicting GraphNodeIdentity for the same local_id''])
      else Inr (AList.update local_id identity m))"

definition index_column ::
  "string \<Rightarrow> GraphNodeIdentity \<Rightarrow> (string, GraphNodeIdentity) dict \<Rightarrow> Column \<Rightarrow> (string, GraphNodeIdentity) dict result" where
  "index_column ns table_identity m c =
     try_in (mk_node_identity ns NODE_KIND_COLUMN (c_name c) (Some table_identity)) (\<lambda>i. put_identity m (c_id c) i)"

definition index_table ::
  "string \<Rightarrow> GraphNodeIdentity \<Rightarrow> (string, GraphNodeIdentity) dict \<Rightarrow> Table \<Rightarrow> (string, GraphNodeIdentity) dict result" where
  "index_table ns schema_identity m t =
     try_in (mk_node_identity ns NODE_KIND_TABLE (t_name t) (Some schema_identity)) (\<lambda>i.
     try_in (put_identity m (t_id t) i) (\<lambda>m. fold_in (index_column ns i) m (t_columns t)))"

definition index_schema ::
  "string \<Rightarrow> GraphNodeIdentity \<Rightarrow> (string, GraphNodeIdentity) dict \<Rightarrow> Schema \<Rightarrow> (string, GraphNodeIdentity) dict result" where
  "index_schema ns db_identity m s =
     try_in (mk_node_identity ns NODE_KIND_DATASET (sc_name s) (Some db_identity)) (\<lambda>i.
     try_in (put_identity m (sc_id s) i) (\<lambda>m. fold_in (index_table ns i) m (sc_tables s)))"

definition index_database ::
  "string \<Rightarrow> (string, GraphNodeIdentity) dict \<Rightarrow> Database \<Rightarrow> (string, GraphNodeIdentity) dict result" where
  "index_database ns m d =
     try_in (mk_node_identity ns NODE_KIND_DATA_SOURCE (db_name d) None) (\<lambda>i.
     try_in (put_identity m (db_id d) i) (\<lambda>m. fold_in (index_schema ns i) m (db_schemas d)))"

definition build_physical_reconciliation_index :: "GovernanceModel \<Rightarrow> string \<Rightarrow> PhysicalReconciliationIndex result" where
  "build_physical_reconciliation_index model namespace =
     (if strip namespace = [] then Inl (ValueError ''namespace must be a non-empty string'')
      else (let ns = strip namespace in
        try_in (fold_in (\<lambda>m data_source. fold_in (index_database ns) m (ds_databases data_source)) [] (gm_data_sources model)) (\<lambda>m.
        Inr \<lparr>ix_by_local_id = m, ix_namespace = ns\<rparr>)))"

definition check_known ::
  "PhysicalReconciliationIndex \<Rightarrow> (string, GraphNodeIdentity) dict \<times> diagnostic list \<Rightarrow> GraphNodeIdentity \<Rightarrow>
   ((string, GraphNodeIdentity) dict \<times> diagnostic list) result" where
  "check_known index st identity =
     (case st of (by_candidate, errors) \<Rightarrow>
       (let failed = (\<lambda>candidate message.
          errors @ [diagnostic_error CODE_OBJECT_IDENTITY_CONFLICT (objects_diagnostic_path candidate) message]) in
        try_in (project_physical_local_id identity) (\<lambda>projected.
        case projected of
          None \<Rightarrow> Inr (by_candidate, errors)
        | Some candidate \<Rightarrow>
            if map_of by_candidate candidate \<noteq> None \<and> map_of by_candidate candidate \<noteq> Some identity
            then Inr (by_candidate, failed candidate
              ''external known_objects project to the same local_id with conflicting GraphNodeIdentity'')
            else Inr (AList.update candidate identity by_candidate,
              if map_of (ix_by_local_id index) candidate \<noteq> None \<and> map_of (ix_by_local_id index) candidate \<noteq> Some identity
              then failed candidate
                ''external known_object GraphNodeIdentity conflicts with PhysicalReconciliationIndex identity for local_id''
              else errors))))"

definition cross_check_known_objects ::
  "GraphNodeIdentity list \<Rightarrow> PhysicalReconciliationIndex \<Rightarrow> unit result" where
  "cross_check_known_objects known_objects index =
     try_in (fold_in (check_known index) ([], []) known_objects) (\<lambda>(by_candidate, errors).
     if errors \<noteq> [] then Inl (Diagnostics ''ReconciliationError''
       (vals (dict_of (map (\<lambda>e. ((d_path e, d_code e, d_message e), e)) errors))))
     else Inr ())"

section \<open>The overlay\<close>

record OverlayResult =
  ov_desired :: CollibraDesiredState
  ov_applied_results :: "PropertyConflictResult list"

definition remote_by_local_id :: "CollibraRemoteState \<Rightarrow> (string, CollibraRemoteAsset) dict" where
  "remote_by_local_id remote = index_by rm_local_id (filter (\<lambda>a. rm_local_id a \<noteq> []) (rem_assets remote))"

definition attr_map :: "CollibraAttributeSpec list \<Rightarrow> (string, string) dict" where
  "attr_map attrs = dict_of (map (\<lambda>a. (at_attribute_type_ref a, at_value a)) attrs)"

definition remote_attr_map :: "CollibraRemoteAsset \<Rightarrow> (string, string) dict" where
  "remote_attr_map asset = dict_of (map (\<lambda>a. (ra_attribute_type_ref a, ra_value a)) (rm_managed_attributes asset))"

definition set_or_remove_attr :: "(string, string) dict \<Rightarrow> string \<Rightarrow> bool \<Rightarrow> string option \<Rightarrow> (string, string) dict" where
  "set_or_remove_attr attrs type_ref has_value v =
     (case v of Some s \<Rightarrow> if has_value then AList.update type_ref s attrs else AList.delete type_ref attrs
      | None \<Rightarrow> AList.delete type_ref attrs)"

definition attrs_tuple :: "(string, string) dict \<Rightarrow> CollibraAttributeSpec list result" where
  "attrs_tuple attrs = traverse (\<lambda>(t, v). mk_attribute t v) (sort_key (\<lambda>x. x) attrs)"

fun type_key :: "TargetField \<Rightarrow> string" where
  "type_key DisplayNameField = ''display_name''"
| "type_key DescriptionField = ''description''"
| "type_key DataTypeField = ''data_type''"
| "type_key OwnerField = ''owner''"

definition apply_target_to_asset ::
  "CollibraMappingConfig \<Rightarrow> CollibraRemoteAsset option \<Rightarrow> RepresentableTargetValue \<Rightarrow> CollibraAssetSpec \<Rightarrow>
   CollibraAssetSpec result" where
  "apply_target_to_asset cfg remote_asset converted asset =
     (let attrs = attr_map (as_attributes asset) in
      if rt_field converted = DisplayNameField
      then mk_asset (asset\<lparr>as_display_name := (if rt_has_value converted then rt_value converted
        else case remote_asset of None \<Rightarrow> None | Some remote \<Rightarrow> rm_display_name remote)\<rparr>)
      else
        try_in (ref (mc_attribute_type_refs cfg) (type_key (rt_field converted))) (\<lambda>type_ref.
        let attrs' = (if rt_has_value converted then set_or_remove_attr attrs type_ref True (rt_value converted)
          else (case remote_asset of
            None \<Rightarrow> set_or_remove_attr attrs type_ref False None
          | Some remote \<Rightarrow>
              (case map_of (remote_attr_map remote) type_ref of
                 Some v \<Rightarrow> AList.update type_ref v attrs
               | None \<Rightarrow> AList.delete type_ref attrs))) in
        try_in (attrs_tuple attrs') (\<lambda>specs. mk_asset (asset\<lparr>as_attributes := specs\<rparr>))))"

type_synonym result_index = "(string \<times> string, PropertyConflictResult) dict"

definition result_lookup :: "PropertyConflictReport \<Rightarrow> result_index" where
  "result_lookup report = index_by (\<lambda>r. (canonical_bytes (cr_object_identity r), to_pointer (cr_property_path r))) (rep_results report)"

type_synonym overlay_state = "(string, CollibraAssetSpec) dict \<times> PropertyConflictResult list"

definition overlay_path ::
  "CollibraMappingConfig \<Rightarrow> result_index \<Rightarrow> CollibraRemoteAsset option \<Rightarrow> string \<Rightarrow> GraphNodeIdentity \<Rightarrow> overlay_state \<Rightarrow>
   PropertyPath \<Rightarrow> overlay_state result" where
  "overlay_path cfg results remote_asset local_id identity st path =
     (if \<not> path_applicable_to_identity path identity then Inr st
      else (case map_of results (canonical_bytes identity, to_pointer path) of
        None \<Rightarrow> Inr st
      | Some r \<Rightarrow>
          if \<not> am_applicable (assess r) \<or> \<not> am_safe (assess r) then Inr st
          else if cr_state r \<notin> set SAFE_STATES \<or> \<not> cr_has_effective_value r then Inr st
          else (case convert_effective_value path identity (cr_effective_value r) True of
            None \<Rightarrow> Inr st
          | Some converted \<Rightarrow>
              (case map_of (fst st) local_id of
                 None \<Rightarrow> Inl (KeyError local_id)
               | Some asset \<Rightarrow> try_in (apply_target_to_asset cfg remote_asset converted asset) (\<lambda>updated.
                   Inr (AList.update local_id updated (fst st), snd st @ [r]))))))"

definition overlay_object ::
  "CollibraMappingConfig \<Rightarrow> result_index \<Rightarrow> (string, CollibraRemoteAsset) dict \<Rightarrow> overlay_state \<Rightarrow>
   string \<times> GraphNodeIdentity \<Rightarrow> overlay_state result" where
  "overlay_object cfg results remote_map st entry =
     (case entry of (local_id, identity) \<Rightarrow>
       if map_of (fst st) local_id = None then Inr st
       else fold_in (overlay_path cfg results (map_of remote_map local_id) local_id identity) st
         [PATH_NAME, PATH_DESCRIPTION, PATH_DATA_TYPE, PATH_OWNERSHIP])"

definition asset_of :: "(string, CollibraAssetSpec) dict \<Rightarrow> string \<Rightarrow> CollibraAssetSpec result" where
  "asset_of assets_by_id local_id = (case map_of assets_by_id local_id of None \<Rightarrow> Inl (KeyError local_id) | Some a \<Rightarrow> Inr a)"

definition apply_reconciliation_overlay ::
  "CollibraDesiredState \<Rightarrow> CollibraRemoteState \<Rightarrow> PropertyConflictReport \<Rightarrow> CollibraMappingConfig \<Rightarrow>
   PhysicalReconciliationIndex \<Rightarrow> OverlayResult result" where
  "apply_reconciliation_overlay baseline_desired remote_state conflict_report cfg index =
     try_in (fold_in (overlay_object cfg (result_lookup conflict_report) (remote_by_local_id remote_state))
       (index_by as_local_id (des_assets baseline_desired), []) (ix_by_local_id index)) (\<lambda>(assets_by_id, applied).
     try_in (traverse (\<lambda>asset. asset_of assets_by_id (as_local_id asset)) (des_assets baseline_desired)) (\<lambda>ordered_assets.
     Inr \<lparr>ov_desired = mk_desired_state ordered_assets (des_relationships baseline_desired), ov_applied_results = applied\<rparr>))"

definition get_asset_attr :: "CollibraMappingConfig \<Rightarrow> TargetField \<Rightarrow> CollibraAssetSpec \<Rightarrow> string option result" where
  "get_asset_attr cfg field asset =
     (if field = DisplayNameField then Inr (as_display_name asset)
      else try_in (ref (mc_attribute_type_refs cfg) (type_key field)) (\<lambda>type_ref.
        Inr (map_option at_value (find (\<lambda>a. at_attribute_type_ref a = type_ref) (as_attributes asset)))))"

definition get_remote_attr :: "CollibraMappingConfig \<Rightarrow> TargetField \<Rightarrow> CollibraRemoteAsset option \<Rightarrow> string option result" where
  "get_remote_attr cfg field remote =
     (case remote of
        None \<Rightarrow> Inr None
      | Some r \<Rightarrow>
          if field = DisplayNameField then Inr (rm_display_name r)
          else try_in (ref (mc_attribute_type_refs cfg) (type_key field)) (\<lambda>type_ref.
            Inr (map_option ra_value (find (\<lambda>a. ra_attribute_type_ref a = type_ref) (rm_managed_attributes r)))))"

section \<open>Attributes as a finite map\<close>

definition overlay_asset :: "CollibraAssetSpec \<Rightarrow> bool" where
  "overlay_asset a \<longleftrightarrow> wf_asset a \<and> distinct (map at_attribute_type_ref (as_attributes a))"

abbreviation attrs_of :: "CollibraAssetSpec \<Rightarrow> string \<Rightarrow> string option" where
  "attrs_of a \<equiv> map_of (attr_map (as_attributes a))"

lemma attr_map_Some:
  assumes "distinct (map at_attribute_type_ref xs)"
  shows "map_of (attr_map xs) t = Some v \<longleftrightarrow> \<lparr>at_attribute_type_ref = t, at_value = v\<rparr> \<in> set xs"
proof -
  have same: "(t, v) = (at_attribute_type_ref a, at_value a) \<longleftrightarrow> \<lparr>at_attribute_type_ref = t, at_value = v\<rparr> = a" for a
    by (cases a) auto
  have "distinct (keys (rev (map (\<lambda>a. (at_attribute_type_ref a, at_value a)) xs)))"
    using assms by (simp add: rev_map [symmetric] comp_def)
  then have "map_of (attr_map xs) t = Some v \<longleftrightarrow> (t, v) \<in> set (map (\<lambda>a. (at_attribute_type_ref a, at_value a)) xs)"
    unfolding attr_map_def map_of_dict_of by (simp add: map_of_eq_Some_iff del: set_map)
  also have "\<dots> \<longleftrightarrow> \<lparr>at_attribute_type_ref = t, at_value = v\<rparr> \<in> set xs"
    unfolding set_map image_iff same by simp
  finally show ?thesis .
qed

lemma find_attr:
  assumes "distinct (map at_attribute_type_ref xs)"
  shows "map_option at_value (find (\<lambda>a. at_attribute_type_ref a = t) xs) = map_of (attr_map xs) t"
proof (cases "find (\<lambda>a. at_attribute_type_ref a = t) xs")
  case None
  then have "map_of (attr_map xs) t \<noteq> Some v" for v
    unfolding attr_map_Some [OF assms] by (force simp: find_None_iff)
  then have "map_of (attr_map xs) t = None" by (cases "map_of (attr_map xs) t") auto
  then show ?thesis using None by simp
next
  case (Some a)
  then have mem: "a \<in> set xs" and key: "at_attribute_type_ref a = t" by (auto simp: find_Some_iff)
  have "\<lparr>at_attribute_type_ref = t, at_value = at_value a\<rparr> = a" using key by (cases a) simp
  with mem have "map_of (attr_map xs) t = Some (at_value a)" unfolding attr_map_Some [OF assms] by metis
  then show ?thesis using Some by simp
qed

lemma map_eqI: "(\<And>t v. m t = Some v \<longleftrightarrow> n t = Some v) \<Longrightarrow> m = n"
  by (rule ext) (metis not_None_eq)

lemma put_or_drop:
  assumes "distinct (keys d)" "e = (case n of Some v \<Rightarrow> AList.update u v d | None \<Rightarrow> AList.delete u d)"
  shows "distinct (keys e) \<and> set (keys e) \<subseteq> insert u (set (keys d)) \<and> map_of e = (map_of d)(u := n)"
proof (cases n)
  case None
  then show ?thesis using assms distinct_delete [of d u] delete_keys [of u d] by (simp add: delete_conv') blast
next
  case (Some v)
  then show ?thesis using assms distinct_keys_update [of u v d] keys_update [of u v d] by (auto simp: update_conv')
qed

lemma mk_asset_same:
  "mk_asset a = Inr a \<longleftrightarrow> (\<forall>s \<in> {as_local_id a, as_name a, as_asset_type_ref a, as_domain_ref a}. strip s \<noteq> []) \<and>
     (\<forall>n. as_display_name a = Some n \<longrightarrow> strip n \<noteq> []) \<and> sorted (map at_attribute_type_ref (as_attributes a))"
proof -
  have "sort_key f xs = xs \<longleftrightarrow> sorted (map f xs)" for f :: "CollibraAttributeSpec \<Rightarrow> string" and xs
    by (metis sort_key_id sorted_sort_key_map)
  moreover have "a\<lparr>as_attributes := xs\<rparr> = a \<longleftrightarrow> xs = as_attributes a" for xs by (cases a) auto
  ultimately show ?thesis
    by (auto simp: mk_asset_def require_all_def split_result require_non_empty_ok split: option.splits if_splits)
qed

lemma sorted_fst: "sorted xs \<Longrightarrow> sorted (map fst xs)" for xs :: "(string \<times> string) list"
  by (induction xs) (auto simp: less_eq_prod_def)

lemma attrs_tuple_ok:
  assumes "\<forall>t \<in> set (keys d). strip t \<noteq> []"
  shows "attrs_tuple d = Inr (map (\<lambda>(t, v). \<lparr>at_attribute_type_ref = t, at_value = v\<rparr>) (sort_key (\<lambda>x. x) d))"
  unfolding attrs_tuple_def using assms
  by (intro traverse_Inr_map) (auto simp: mk_attribute_def require_all_def require_non_empty_ok split_result)

lemma with_attributes:
  assumes a: "overlay_asset a" and d: "distinct (keys d)" "\<forall>t \<in> set (keys d). strip t \<noteq> []"
  shows "\<exists>b. try_in (attrs_tuple d) (\<lambda>specs. mk_asset (a\<lparr>as_attributes := specs\<rparr>)) = Inr b \<and> overlay_asset b \<and>
    b = a\<lparr>as_attributes := as_attributes b\<rparr> \<and> attrs_of b = map_of d"
proof -
  let ?s = "sort_key (\<lambda>x. x) d" and ?f = "\<lambda>(t, v). \<lparr>at_attribute_type_ref = t, at_value = v\<rparr>"
  have keys: "map at_attribute_type_ref (map ?f xs) = map fst xs" for xs :: "(string \<times> string) list"
    by (induction xs) auto
  have distinct: "distinct (map at_attribute_type_ref (map ?f ?s))" unfolding keys using d(1) by simp
  have sorted: "sorted (map at_attribute_type_ref (map ?f ?s))"
    unfolding keys using sorted_fst [of ?s] sorted_sort_key_map [of "\<lambda>x. x" d] by simp
  let ?b = "a\<lparr>as_attributes := map ?f ?s\<rparr>"
  have made: "mk_asset ?b = Inr ?b"
    using a sorted unfolding overlay_asset_def wf_asset_def mk_asset_same by simp
  have "overlay_asset ?b"
    using made distinct d(2) by (auto simp: overlay_asset_def wf_asset_def wf_attribute_def list_all_iff)
  moreover have "attrs_of ?b t = Some v \<longleftrightarrow> map_of d t = Some v" for t v
  proof -
    have "attrs_of ?b t = Some v \<longleftrightarrow> (t, v) \<in> set d" using distinct by (auto simp: attr_map_Some)
    then show ?thesis using d(1) by simp
  qed
  then have "attrs_of ?b = map_of d" by (rule map_eqI)
  moreover have "try_in (attrs_tuple d) (\<lambda>specs. mk_asset (a\<lparr>as_attributes := specs\<rparr>)) = Inr ?b"
    unfolding attrs_tuple_ok [OF d(2)] try_in_simps by (rule made)
  moreover have "?b = a\<lparr>as_attributes := as_attributes ?b\<rparr>" by simp
  ultimately show ?thesis by blast
qed

section \<open>Applying one target\<close>

definition target_ref :: "CollibraMappingConfig \<Rightarrow> TargetField \<Rightarrow> string" where
  "target_ref cfg field = the_ref (mc_attribute_type_refs cfg) (type_key field)"

definition field_of :: "CollibraMappingConfig \<Rightarrow> CollibraAssetSpec \<Rightarrow> TargetField \<Rightarrow> string option" where
  "field_of cfg a field = (if field = DisplayNameField then as_display_name a else attrs_of a (target_ref cfg field))"

definition remote_field_of :: "CollibraMappingConfig \<Rightarrow> CollibraRemoteAsset \<Rightarrow> TargetField \<Rightarrow> string option" where
  "remote_field_of cfg r field =
     (if field = DisplayNameField then rm_display_name r else map_of (remote_attr_map r) (target_ref cfg field))"

text \<open>What an effective value does to a field: a value replaces it; null omits it, or keeps the remote value if there is one.\<close>

definition new_value :: "CollibraMappingConfig \<Rightarrow> CollibraRemoteAsset option \<Rightarrow> RepresentableTargetValue \<Rightarrow> string option" where
  "new_value cfg remote t = (if rt_has_value t then rt_value t
     else case remote of None \<Rightarrow> None | Some r \<Rightarrow> remote_field_of cfg r (rt_field t))"

definition overlay_config :: "CollibraMappingConfig \<Rightarrow> bool" where
  "overlay_config cfg \<longleftrightarrow> config_ok cfg \<and> distinct (map (the_ref (mc_attribute_type_refs cfg)) ATTRIBUTE_TYPE_KEYS)"

definition named_remote :: "CollibraRemoteAsset option \<Rightarrow> bool" where
  "named_remote remote \<longleftrightarrow> (\<forall>r n. remote = Some r \<longrightarrow> rm_display_name r = Some n \<longrightarrow> strip n \<noteq> [])"

definition representable :: "RepresentableTargetValue \<Rightarrow> bool" where
  "representable t \<longleftrightarrow> (rt_has_value t \<longrightarrow> (\<exists>s. rt_value t = Some s \<and> (rt_field t = DisplayNameField \<longrightarrow> strip s \<noteq> [])))"

lemma converted_representable:
  "convert_effective_value path i v e = Some t \<Longrightarrow> representable t \<and> target_field_for_path path = Some (rt_field t)"
  by (auto simp: convert_effective_value_def representable_def text_target_def null_target_def
      split: if_split_asm option.splits TargetField.splits json.splits list.splits)

lemma target_ref_ok:
  assumes "overlay_config cfg" "field \<noteq> DisplayNameField"
  shows "ref (mc_attribute_type_refs cfg) (type_key field) = Inr (target_ref cfg field)" "strip (target_ref cfg field) \<noteq> []"
  using ref_ok [of ATTRIBUTE_TYPE_KEYS "mc_attribute_type_refs cfg" "type_key field"] assms
  by (cases field; simp add: overlay_config_def config_ok_def ATTRIBUTE_TYPE_KEYS_def target_ref_def)+

lemma target_ref_inj:
  assumes "overlay_config cfg" "f \<noteq> DisplayNameField" "g \<noteq> DisplayNameField"
  shows "target_ref cfg f = target_ref cfg g \<longleftrightarrow> f = g"
  using assms by (cases f; cases g) (auto simp: overlay_config_def ATTRIBUTE_TYPE_KEYS_def target_ref_def)

lemma apply_target:
  assumes cfg: "overlay_config cfg" and a: "overlay_asset a" and t: "representable t" and r: "named_remote remote"
  shows "\<exists>b. apply_target_to_asset cfg remote t a = Inr b \<and> overlay_asset b \<and>
    b = a\<lparr>as_display_name := as_display_name b, as_attributes := as_attributes b\<rparr> \<and>
    field_of cfg b = (field_of cfg a)(rt_field t := new_value cfg remote t) \<and>
    (\<forall>u. (\<forall>f. f \<noteq> DisplayNameField \<longrightarrow> u \<noteq> target_ref cfg f) \<longrightarrow> attrs_of b u = attrs_of a u)"
proof (cases "rt_field t = DisplayNameField")
  case True
  let ?n = "new_value cfg remote t"
  let ?b = "a\<lparr>as_display_name := ?n\<rparr>"
  have name: "?n = (if rt_has_value t then rt_value t else case remote of None \<Rightarrow> None | Some x \<Rightarrow> rm_display_name x)"
    using True by (simp add: new_value_def remote_field_of_def split: option.splits)
  have "\<forall>n. ?n = Some n \<longrightarrow> strip n \<noteq> []"
    using t r True by (auto simp: name representable_def named_remote_def split: if_splits option.splits)
  then have made: "mk_asset ?b = Inr ?b"
    using a unfolding overlay_asset_def wf_asset_def mk_asset_same by simp
  have "overlay_asset ?b" using a made by (simp add: overlay_asset_def wf_asset_def)
  moreover have "field_of cfg ?b = (field_of cfg a)(rt_field t := ?n)" using True by (auto simp: field_of_def)
  ultimately show ?thesis
    using made True by (intro exI [of _ ?b]) (simp add: apply_target_to_asset_def name [symmetric] Let_def)
next
  case False
  let ?u = "target_ref cfg (rt_field t)" and ?d = "attr_map (as_attributes a)"
  let ?n = "new_value cfg remote t"
  let ?e = "case ?n of Some v \<Rightarrow> AList.update ?u v ?d | None \<Rightarrow> AList.delete ?u ?d"
  have old: "distinct (keys ?d)" "\<forall>k \<in> set (keys ?d). strip k \<noteq> []"
    using a by (auto simp: attr_map_def keys_dict_of overlay_asset_def wf_asset_def list_all_iff wf_attribute_def)
  have "distinct (keys ?e)" "set (keys ?e) \<subseteq> insert ?u (set (keys ?d))" and e3: "map_of ?e = (map_of ?d)(?u := ?n)"
    using put_or_drop [OF old(1) refl] by blast+
  then have e: "distinct (keys ?e)" "\<forall>k \<in> set (keys ?e). strip k \<noteq> []"
    using old(2) target_ref_ok(2) [OF cfg False] by blast+
  have "apply_target_to_asset cfg remote t a = try_in (attrs_tuple ?e) (\<lambda>specs. mk_asset (a\<lparr>as_attributes := specs\<rparr>))"
    using False t target_ref_ok(1) [OF cfg False]
    by (auto simp: apply_target_to_asset_def new_value_def remote_field_of_def representable_def set_or_remove_attr_def Let_def
        split: option.splits)
  then obtain b where b: "apply_target_to_asset cfg remote t a = Inr b" "overlay_asset b"
      "b = a\<lparr>as_attributes := as_attributes b\<rparr>" "attrs_of b = (map_of ?d)(?u := ?n)"
    using with_attributes [OF a e(1,2)] unfolding e3 by auto
  have same: "as_display_name b = as_display_name a" by (subst b(3)) simp
  from same have "field_of cfg b f = ((field_of cfg a)(rt_field t := ?n)) f" for f
    using target_ref_inj [OF cfg False, of f] False by (cases "f = DisplayNameField") (auto simp: field_of_def b(4))
  then have "field_of cfg b = (field_of cfg a)(rt_field t := ?n)" by (rule ext)
  moreover have "b = a\<lparr>as_display_name := as_display_name b, as_attributes := as_attributes b\<rparr>"
    using b(3) same by (metis CollibraAssetSpec.surjective CollibraAssetSpec.update_convs(5))
  ultimately show ?thesis using b(1,2,4) False by (intro exI [of _ b]) auto
qed

section \<open>The overlay, specified\<close>

fun path_of :: "TargetField \<Rightarrow> PropertyPath" where
  "path_of DisplayNameField = PATH_NAME"
| "path_of DescriptionField = PATH_DESCRIPTION"
| "path_of DataTypeField = PATH_DATA_TYPE"
| "path_of OwnerField = PATH_OWNERSHIP"

text \<open>The target a field of an object is decided to have, if its conflict result is safe and representable.\<close>

definition decided :: "result_index \<Rightarrow> GraphNodeIdentity \<Rightarrow> TargetField \<Rightarrow> RepresentableTargetValue option" where
  "decided results i f = (case map_of results (canonical_bytes i, to_pointer (path_of f)) of
     None \<Rightarrow> None
   | Some r \<Rightarrow> if am_safe (assess r) then convert_effective_value (path_of f) i (cr_effective_value r) True else None)"

definition expected_field ::
  "CollibraMappingConfig \<Rightarrow> result_index \<Rightarrow> GraphNodeIdentity \<Rightarrow> CollibraRemoteAsset option \<Rightarrow> CollibraAssetSpec \<Rightarrow>
   TargetField \<Rightarrow> string option" where
  "expected_field cfg results i remote a f = (case decided results i f of None \<Rightarrow> field_of cfg a f | Some t \<Rightarrow> new_value cfg remote t)"

definition overlaid ::
  "CollibraMappingConfig \<Rightarrow> result_index \<Rightarrow> GraphNodeIdentity \<Rightarrow> CollibraRemoteAsset option \<Rightarrow> TargetField set \<Rightarrow>
   CollibraAssetSpec \<Rightarrow> CollibraAssetSpec \<Rightarrow> bool" where
  "overlaid cfg results i remote F a b \<longleftrightarrow> overlay_asset b \<and>
     b = a\<lparr>as_display_name := as_display_name b, as_attributes := as_attributes b\<rparr> \<and>
     (\<forall>f. field_of cfg b f = (if f \<in> F then expected_field cfg results i remote a f else field_of cfg a f)) \<and>
     (\<forall>u. (\<forall>f. f \<noteq> DisplayNameField \<longrightarrow> u \<noteq> target_ref cfg f) \<longrightarrow> attrs_of b u = attrs_of a u)"

lemma field_of_path: "target_field_for_path (path_of f) = Some f"
  by (cases f) (simp_all add: target_field_for_path_def to_pointer_def path_defs)

lemma assess_safe:
  "am_safe (assess r) \<longleftrightarrow> path_applicable_to_identity (cr_property_path r) (cr_object_identity r) \<and> cr_state r \<in> set SAFE_STATES \<and>
     cr_has_effective_value r \<and>
     convert_effective_value (cr_property_path r) (cr_object_identity r) (cr_effective_value r) True \<noteq> None"
  by (auto simp: assess_reconciliation_def Let_def SAFE_STATES_def path_applicable_to_identity_def split: option.splits)

lemma safe_applicable: "am_safe (assess r) \<Longrightarrow> am_applicable (assess r)"
  by (auto simp: assess_reconciliation_def Let_def split: if_split_asm)

lemma convert_applicable: "convert_effective_value path i v e = Some t \<Longrightarrow> path_applicable_to_identity path i"
  by (auto simp: convert_effective_value_def split: if_split_asm)

lemma overlay_path_step:
  assumes cfg: "overlay_config cfg" and r: "named_remote remote"
    and b: "overlaid cfg results i remote F a b" "f \<notin> F" "map_of (fst st) l = Some b"
    and applied: "\<forall>r \<in> set (snd st). am_safe (assess r)"
  shows "\<exists>st' c. overlay_path cfg results remote l i st (path_of f) = Inr st' \<and> map_of (fst st') l = Some c \<and>
    overlaid cfg results i remote (insert f F) a c \<and> (\<forall>l'. l' \<noteq> l \<longrightarrow> map_of (fst st') l' = map_of (fst st) l') \<and>
    (\<forall>r \<in> set (snd st'). am_safe (assess r))"
proof (cases "decided results i f")
  case None
  have "overlay_path cfg results remote l i st (path_of f) = Inr st"
    using None by (auto simp: overlay_path_def decided_def split: option.splits if_split_asm)
  moreover have "overlaid cfg results i remote (insert f F) a b"
    using b(1,2) None by (auto simp: overlaid_def expected_field_def)
  ultimately show ?thesis using b(3) applied by blast
next
  case (Some t)
  then obtain r where r': "map_of results (canonical_bytes i, to_pointer (path_of f)) = Some r" "am_safe (assess r)"
      "convert_effective_value (path_of f) i (cr_effective_value r) True = Some t"
    by (auto simp: decided_def split: option.splits if_split_asm)
  have t: "representable t" "rt_field t = f" using converted_representable [OF r'(3)] field_of_path [of f] by auto
  obtain c where c: "apply_target_to_asset cfg remote t b = Inr c" "overlay_asset c"
      "c = b\<lparr>as_display_name := as_display_name c, as_attributes := as_attributes c\<rparr>"
      "field_of cfg c = (field_of cfg b)(f := new_value cfg remote t)"
      "\<forall>u. (\<forall>f. f \<noteq> DisplayNameField \<longrightarrow> u \<noteq> target_ref cfg f) \<longrightarrow> attrs_of c u = attrs_of b u"
    using apply_target [OF cfg _ t(1) r, of b] b(1) unfolding t(2) overlaid_def by auto
  have "overlay_path cfg results remote l i st (path_of f) = Inr (AList.update l c (fst st), snd st @ [r])"
    using convert_applicable [OF r'(3)] r' b(3) c(1) safe_applicable [OF r'(2)] r'(2) [unfolded assess_safe]
    by (simp add: overlay_path_def)
  moreover have "c = a\<lparr>as_display_name := as_display_name c, as_attributes := as_attributes c\<rparr>"
  proof -
    have "b = a\<lparr>as_display_name := as_display_name b, as_attributes := as_attributes b\<rparr>" using b(1) by (simp add: overlaid_def)
    then show ?thesis using c(3)
      by (metis (no_types, lifting) CollibraAssetSpec.surjective CollibraAssetSpec.update_convs(5,6))
  qed
  then have "overlaid cfg results i remote (insert f F) a c"
    using b(1,2) c(2,4,5) Some by (auto simp: overlaid_def expected_field_def)
  ultimately show ?thesis using applied r'(2) by (intro exI [of _ "(AList.update l c (fst st), snd st @ [r])"] exI [of _ c]) auto
qed

lemma overlay_object_step:
  assumes cfg: "overlay_config cfg" and r: "named_remote (map_of remotes l)"
    and a: "map_of (fst st) l = Some a" "overlay_asset a" and applied: "\<forall>r \<in> set (snd st). am_safe (assess r)"
  shows "\<exists>st' c. overlay_object cfg results remotes st (l, i) = Inr st' \<and> map_of (fst st') l = Some c \<and>
    overlaid cfg results i (map_of remotes l) UNIV a c \<and> (\<forall>l'. l' \<noteq> l \<longrightarrow> map_of (fst st') l' = map_of (fst st) l') \<and>
    (\<forall>r \<in> set (snd st'). am_safe (assess r))"
proof -
  note step = overlay_path_step [OF cfg r]
  have a0: "overlaid cfg results i (map_of remotes l) {} a a" using a(2) by (simp add: overlaid_def)
  obtain s1 c1 where 1: "overlay_path cfg results (map_of remotes l) l i st PATH_NAME = Inr s1" "map_of (fst s1) l = Some c1"
      "overlaid cfg results i (map_of remotes l) {DisplayNameField} a c1" "\<forall>l'. l' \<noteq> l \<longrightarrow> map_of (fst s1) l' = map_of (fst st) l'"
      "\<forall>r \<in> set (snd s1). am_safe (assess r)"
    using step [OF a0 _ a(1) applied, of DisplayNameField] by auto
  obtain s2 c2 where 2: "overlay_path cfg results (map_of remotes l) l i s1 PATH_DESCRIPTION = Inr s2" "map_of (fst s2) l = Some c2"
      "overlaid cfg results i (map_of remotes l) {DescriptionField, DisplayNameField} a c2"
      "\<forall>l'. l' \<noteq> l \<longrightarrow> map_of (fst s2) l' = map_of (fst s1) l'" "\<forall>r \<in> set (snd s2). am_safe (assess r)"
    using step [OF 1(3) _ 1(2,5), of DescriptionField] by auto
  obtain s3 c3 where 3: "overlay_path cfg results (map_of remotes l) l i s2 PATH_DATA_TYPE = Inr s3" "map_of (fst s3) l = Some c3"
      "overlaid cfg results i (map_of remotes l) {DataTypeField, DescriptionField, DisplayNameField} a c3"
      "\<forall>l'. l' \<noteq> l \<longrightarrow> map_of (fst s3) l' = map_of (fst s2) l'" "\<forall>r \<in> set (snd s3). am_safe (assess r)"
    using step [OF 2(3) _ 2(2,5), of DataTypeField] by auto
  obtain s4 c4 where 4: "overlay_path cfg results (map_of remotes l) l i s3 PATH_OWNERSHIP = Inr s4" "map_of (fst s4) l = Some c4"
      "overlaid cfg results i (map_of remotes l) {OwnerField, DataTypeField, DescriptionField, DisplayNameField} a c4"
      "\<forall>l'. l' \<noteq> l \<longrightarrow> map_of (fst s4) l' = map_of (fst s3) l'" "\<forall>r \<in> set (snd s4). am_safe (assess r)"
    using step [OF 3(3) _ 3(2,5), of OwnerField] by auto
  have all: "{OwnerField, DataTypeField, DescriptionField, DisplayNameField} = UNIV"
    using TargetField.exhaust by blast
  have "overlay_object cfg results remotes st (l, i) = Inr s4"
    using a(1) 1(1) 2(1) 3(1) 4(1) by (simp add: overlay_object_def)
  then show ?thesis using 1(4) 2(4) 3(4) 4(2,3,4,5) unfolding all by (intro exI [of _ s4] exI [of _ c4]) simp
qed

definition reconciled ::
  "CollibraMappingConfig \<Rightarrow> result_index \<Rightarrow> (string, CollibraRemoteAsset) dict \<Rightarrow> string \<Rightarrow> GraphNodeIdentity option \<Rightarrow>
   CollibraAssetSpec \<Rightarrow> CollibraAssetSpec \<Rightarrow> bool" where
  "reconciled cfg results remotes l i a b \<longleftrightarrow> (case i of None \<Rightarrow> b = a | Some i \<Rightarrow> overlaid cfg results i (map_of remotes l) UNIV a b)"

definition loop_inv ::
  "CollibraMappingConfig \<Rightarrow> result_index \<Rightarrow> (string, CollibraRemoteAsset) dict \<Rightarrow> (string, CollibraAssetSpec) dict \<Rightarrow>
   (string, GraphNodeIdentity) dict \<Rightarrow> overlay_state \<Rightarrow> bool" where
  "loop_inv cfg results remotes base seen st \<longleftrightarrow> (\<forall>r \<in> set (snd st). am_safe (assess r)) \<and>
     (\<forall>l. map_of base l = None \<longrightarrow> map_of (fst st) l = None) \<and>
     (\<forall>l a. map_of base l = Some a \<longrightarrow>
        (\<exists>b. map_of (fst st) l = Some b \<and> reconciled cfg results remotes l (map_of seen l) a b))"

lemma overlay_loop:
  assumes cfg: "overlay_config cfg" and remotes: "\<forall>l. named_remote (map_of remotes l)" and idx: "distinct (keys idx)"
    and base: "\<forall>l a. map_of base l = Some a \<longrightarrow> overlay_asset a"
  shows "\<exists>st. fold_in (overlay_object cfg results remotes) (base, []) idx = Inr st \<and> loop_inv cfg results remotes base idx st"
proof (rule fold_in_invariant)
  show "loop_inv cfg results remotes base [] (base, [])" by (simp add: loop_inv_def reconciled_def)
next
  fix ys x st
  assume "\<exists>zs. idx = ys @ x # zs" and inv: "loop_inv cfg results remotes base ys st"
  then obtain zs where zs: "idx = ys @ x # zs" by blast
  obtain l i where x: "x = (l, i)" by (cases x)
  have fresh: "map_of ys l = None" using idx by (auto simp: zs x map_of_eq_None_iff)
  have seen: "map_of (ys @ [(l, i)]) l' = (if l' = l then Some i else map_of ys l')" for l'
    using fresh by (auto simp: map_add_def split: option.splits)
  show "\<exists>u. overlay_object cfg results remotes st x = Inr u \<and> loop_inv cfg results remotes base (ys @ [x]) u"
  proof (cases "map_of base l")
    case None
    then have "overlay_object cfg results remotes st x = Inr st" using inv by (simp add: loop_inv_def overlay_object_def x)
    moreover have "loop_inv cfg results remotes base (ys @ [x]) st"
      using inv None unfolding loop_inv_def x seen by auto
    ultimately show ?thesis by blast
  next
    case (Some a)
    then have "\<exists>b. map_of (fst st) l = Some b \<and> reconciled cfg results remotes l (map_of ys l) a b"
      using inv by (simp add: loop_inv_def)
    then have "map_of (fst st) l = Some a" by (simp add: reconciled_def fresh)
    moreover have "\<forall>r \<in> set (snd st). am_safe (assess r)" using inv by (simp add: loop_inv_def)
    ultimately obtain st' c where st': "overlay_object cfg results remotes st (l, i) = Inr st'" "map_of (fst st') l = Some c"
        "overlaid cfg results i (map_of remotes l) UNIV a c" "\<forall>l'. l' \<noteq> l \<longrightarrow> map_of (fst st') l' = map_of (fst st) l'"
        "\<forall>r \<in> set (snd st'). am_safe (assess r)"
      using overlay_object_step [OF cfg remotes [rule_format]] base Some by metis
    have "loop_inv cfg results remotes base (ys @ [x]) st'"
      unfolding loop_inv_def x seen
    proof (intro conjI allI impI)
      show "\<forall>r \<in> set (snd st'). am_safe (assess r)" by (rule st'(5))
      show "map_of (fst st') l' = None" if "map_of base l' = None" for l'
        using that Some inv st'(4) by (cases "l' = l") (auto simp: loop_inv_def)
      show "\<exists>b. map_of (fst st') l' = Some b \<and>
          reconciled cfg results remotes l' (if l' = l then Some i else map_of ys l') a' b" if "map_of base l' = Some a'" for l' a'
        using that Some inv st'(2,3,4) by (cases "l' = l") (auto simp: loop_inv_def reconciled_def)
    qed
    then show ?thesis using st'(1) unfolding x by blast
  qed
qed

section \<open>The overlay keeps a closed state\<close>

lemma overlaid_managed:
  assumes cfg: "overlay_config cfg" and a: "managed_asset cfg a" "overlay_asset a" and b: "overlaid cfg results i remote F a b"
  shows "managed_asset cfg b"
proof -
  have base: "as_local_id b = as_local_id a" "as_domain_ref b = as_domain_ref a" "as_asset_type_ref b = as_asset_type_ref a"
    using b unfolding overlaid_def
    by (metis CollibraAssetSpec.select_convs(1) CollibraAssetSpec.surjective CollibraAssetSpec.update_convs(5,6),
        metis CollibraAssetSpec.select_convs(4) CollibraAssetSpec.surjective CollibraAssetSpec.update_convs(5,6),
        metis CollibraAssetSpec.select_convs(3) CollibraAssetSpec.surjective CollibraAssetSpec.update_convs(5,6))
  have da: "distinct (map at_attribute_type_ref (as_attributes a))" and db: "distinct (map at_attribute_type_ref (as_attributes b))"
    using a(2) b by (simp_all add: overlay_asset_def overlaid_def)
  let ?vals = "set (vals (mc_attribute_type_refs cfg))" and ?l = "the_ref (mc_attribute_type_refs cfg) ''local_id''"
  have target: "target_ref cfg f \<in> ?vals" if "f \<noteq> DisplayNameField" for f
    using cfg that the_ref_in [of ATTRIBUTE_TYPE_KEYS "mc_attribute_type_refs cfg" "type_key f"]
    by (cases f) (simp_all add: overlay_config_def config_ok_def ATTRIBUTE_TYPE_KEYS_def target_ref_def)
  have other: "attrs_of b u = attrs_of a u" if "\<And>f. f \<noteq> DisplayNameField \<Longrightarrow> u \<noteq> target_ref cfg f" for u
    using b that by (simp add: overlaid_def)
  have "at_attribute_type_ref x \<in> ?vals" if x: "x \<in> set (as_attributes b)" for x
  proof (cases "\<exists>f. f \<noteq> DisplayNameField \<and> at_attribute_type_ref x = target_ref cfg f")
    case True
    then show ?thesis using target by auto
  next
    case False
    have "\<lparr>at_attribute_type_ref = at_attribute_type_ref x, at_value = at_value x\<rparr> = x" by (cases x) simp
    then have "attrs_of b (at_attribute_type_ref x) = Some (at_value x)" unfolding attr_map_Some [OF db] using x by metis
    then have "attrs_of a (at_attribute_type_ref x) = Some (at_value x)" using False other by metis
    then show ?thesis using a(1) unfolding attr_map_Some [OF da] managed_asset_def by fastforce
  qed
  moreover have "?l \<noteq> target_ref cfg f" if "f \<noteq> DisplayNameField" for f
    using cfg that by (cases f) (simp_all add: overlay_config_def ATTRIBUTE_TYPE_KEYS_def target_ref_def)
  then have "attrs_of b ?l = attrs_of a ?l" by (rule other)
  then have "attribute_spec cfg ''local_id'' (as_local_id b) \<in> set (as_attributes b)"
    using a(1) attr_map_Some [OF da, of ?l "as_local_id a"] attr_map_Some [OF db, of ?l "as_local_id a"]
    by (simp add: managed_asset_def attribute_spec_def base(1))
  ultimately show ?thesis using a(1) b by (simp add: managed_asset_def overlaid_def overlay_asset_def base)
qed

text \<open>The overlay is a function on the assets of the baseline.\<close>

lemma overlay_function:
  assumes cfg: "overlay_config cfg" and d: "closed_state cfg d" "list_all overlay_asset (des_assets d)"
    and idx: "distinct (keys (ix_by_local_id index))" and remote: "\<forall>a \<in> set (rem_assets remote). named_remote (Some a)"
  shows "\<exists>ov g. apply_reconciliation_overlay d remote report cfg index = Inr ov \<and>
    des_assets (ov_desired ov) = map g (des_assets d) \<and>
    (\<forall>a \<in> set (des_assets d). as_local_id (g a) = as_local_id a \<and>
       g a = a\<lparr>as_display_name := as_display_name (g a), as_attributes := as_attributes (g a)\<rparr> \<and>
       reconciled cfg (result_lookup report) (remote_by_local_id remote) (as_local_id a)
         (map_of (ix_by_local_id index) (as_local_id a)) a (g a)) \<and>
    des_relationships (ov_desired ov) = des_relationships d \<and> closed_state cfg (ov_desired ov) \<and>
    (\<forall>r \<in> set (ov_applied_results ov). am_safe (assess r))"
proof -
  define results where "results = result_lookup report"
  define remotes where "remotes = remote_by_local_id remote"
  let ?base = "index_by as_local_id (des_assets d)"
  have ids: "distinct (map as_local_id (des_assets d))" "sorted (map as_local_id (des_assets d))"
    "sorted (map rs_local_key (des_relationships d))" using d(1) by (simp_all add: closed_state_def)
  have base: "map_of ?base l = Some a \<longleftrightarrow> a \<in> set (des_assets d) \<and> as_local_id a = l" for l a
    unfolding map_of_index_by using last_with_Some last_with_distinct [OF ids(1)] by metis
  have "named_remote (map_of remotes l)" for l
    using remote last_with_Some unfolding remotes_def remote_by_local_id_def map_of_index_by named_remote_def by fastforce
  then obtain st where st: "fold_in (overlay_object cfg results remotes) (?base, []) (ix_by_local_id index) = Inr st"
      "loop_inv cfg results remotes ?base (ix_by_local_id index) st"
    using overlay_loop [OF cfg _ idx, of remotes ?base results] d(2) base by (auto simp: list_all_iff)
  have found: "\<exists>b. map_of (fst st) (as_local_id a) = Some b \<and>
      reconciled cfg results remotes (as_local_id a) (map_of (ix_by_local_id index) (as_local_id a)) a b"
    if "a \<in> set (des_assets d)" for a using st(2) that by (simp add: loop_inv_def base)
  define g where "g a = (case map_of (fst st) (as_local_id a) of Some b \<Rightarrow> b | None \<Rightarrow> a)" for a
  have g: "reconciled cfg results remotes (as_local_id a) (map_of (ix_by_local_id index) (as_local_id a)) a (g a)"
    if "a \<in> set (des_assets d)" for a using found [OF that] by (auto simp: g_def)
  have same: "g a = a\<lparr>as_display_name := as_display_name (g a), as_attributes := as_attributes (g a)\<rparr>"
    if "a \<in> set (des_assets d)" for a
    using g [OF that] by (auto simp: reconciled_def overlaid_def split: option.splits)
  then have local: "as_local_id (g a) = as_local_id a" if "a \<in> set (des_assets d)" for a
    using that by (metis CollibraAssetSpec.select_convs(1) CollibraAssetSpec.surjective CollibraAssetSpec.update_convs(5,6))
  let ?new = "map g (des_assets d)"
  have locals: "map as_local_id ?new = map as_local_id (des_assets d)" using local by simp
  have "traverse (\<lambda>asset. asset_of (fst st) (as_local_id asset)) (des_assets d) = Inr ?new"
    by (rule traverse_Inr_map) (use found in \<open>force simp: asset_of_def g_def\<close>)
  then have "apply_reconciliation_overlay d remote report cfg index =
      Inr \<lparr>ov_desired = mk_desired_state ?new (des_relationships d), ov_applied_results = snd st\<rparr>"
    using st(1) by (simp add: apply_reconciliation_overlay_def results_def remotes_def case_prod_beta)
  moreover have "mk_desired_state ?new (des_relationships d) = \<lparr>des_assets = ?new, des_relationships = des_relationships d\<rparr>"
    using sort_key_id [of as_local_id ?new, unfolded locals, OF ids(2)] sort_key_id [OF ids(3)] by (simp add: mk_desired_state_def)
  moreover have "\<forall>a \<in> set (des_assets d). as_local_id (g a) = as_local_id a \<and>
       g a = a\<lparr>as_display_name := as_display_name (g a), as_attributes := as_attributes (g a)\<rparr> \<and>
       reconciled cfg results remotes (as_local_id a) (map_of (ix_by_local_id index) (as_local_id a)) a (g a)"
    using g same local by blast
  moreover have "closed_state cfg \<lparr>des_assets = ?new, des_relationships = des_relationships d\<rparr>"
  proof -
    have "managed_asset cfg (g a)" if "a \<in> set (des_assets d)" for a
      using g [OF that] d that overlaid_managed [OF cfg, of a]
      by (auto simp: reconciled_def closed_state_def list_all_iff split: option.splits)
    moreover have "as_local_id ` set ?new = as_local_id ` set (des_assets d)" using locals by (metis set_map)
    ultimately show ?thesis
      using d(1) unfolding closed_state_def CollibraDesiredState.select_convs locals by (auto simp: list_all_iff)
  qed
  moreover have "\<forall>r \<in> set (snd st). am_safe (assess r)" using st(2) by (simp add: loop_inv_def)
  ultimately show ?thesis
    unfolding results_def remotes_def by (intro exI [of _ "\<lparr>ov_desired = mk_desired_state ?new (des_relationships d), ov_applied_results = snd st\<rparr>"] exI [of _ g]) simp
qed

text \<open>
  C7 (refinement). The overlay refines a field-wise specification. For a desired state as the mapping makes it (with one
  attribute of each type per asset) and remote assets without blank display names, it does not raise and changes nothing
  but decided fields: a field whose conflict result is safe and representable gets its effective value, or for null is
  omitted on a new asset and keeps the remote value on an existing one; every other field, other attributes and
  the relationships stay as they were. The result is again a closed desired state, and only safe results are applied.
\<close>

theorem overlay_exact:
  assumes cfg: "overlay_config cfg" and d: "closed_state cfg d" "list_all overlay_asset (des_assets d)"
    and idx: "distinct (keys (ix_by_local_id index))" and remote: "\<forall>a \<in> set (rem_assets remote). named_remote (Some a)"
  shows "\<exists>ov. apply_reconciliation_overlay d remote report cfg index = Inr ov \<and>
    list_all2 (\<lambda>a b. b = a\<lparr>as_display_name := as_display_name b, as_attributes := as_attributes b\<rparr> \<and>
        (\<forall>f. field_of cfg b f = (case map_of (ix_by_local_id index) (as_local_id a) of
           None \<Rightarrow> field_of cfg a f
         | Some i \<Rightarrow> expected_field cfg (result_lookup report) i (map_of (remote_by_local_id remote) (as_local_id a)) a f)) \<and>
        (\<forall>u. (\<forall>f. f \<noteq> DisplayNameField \<longrightarrow> u \<noteq> target_ref cfg f) \<longrightarrow> attrs_of b u = attrs_of a u))
      (des_assets d) (des_assets (ov_desired ov)) \<and>
    des_relationships (ov_desired ov) = des_relationships d \<and> closed_state cfg (ov_desired ov) \<and>
    (\<forall>r \<in> set (ov_applied_results ov). am_safe (assess r))"
proof -
  obtain ov g where ov: "apply_reconciliation_overlay d remote report cfg index = Inr ov"
      "des_assets (ov_desired ov) = map g (des_assets d)" and
    g: "\<forall>a \<in> set (des_assets d). as_local_id (g a) = as_local_id a \<and>
       g a = a\<lparr>as_display_name := as_display_name (g a), as_attributes := as_attributes (g a)\<rparr> \<and>
       reconciled cfg (result_lookup report) (remote_by_local_id remote) (as_local_id a)
         (map_of (ix_by_local_id index) (as_local_id a)) a (g a)" and
    rest: "des_relationships (ov_desired ov) = des_relationships d" "closed_state cfg (ov_desired ov)"
      "\<forall>r \<in> set (ov_applied_results ov). am_safe (assess r)"
    using overlay_function [OF assms, of report] by (elim exE conjE) blast
  have "list_all2 (\<lambda>a b. b = a\<lparr>as_display_name := as_display_name b, as_attributes := as_attributes b\<rparr> \<and>
        (\<forall>f. field_of cfg b f = (case map_of (ix_by_local_id index) (as_local_id a) of
           None \<Rightarrow> field_of cfg a f
         | Some i \<Rightarrow> expected_field cfg (result_lookup report) i (map_of (remote_by_local_id remote) (as_local_id a)) a f)) \<and>
        (\<forall>u. (\<forall>f. f \<noteq> DisplayNameField \<longrightarrow> u \<noteq> target_ref cfg f) \<longrightarrow> attrs_of b u = attrs_of a u))
      (des_assets d) (des_assets (ov_desired ov))"
    unfolding ov(2) list_all2_map2 list_all2_same
  proof (intro ballI conjI)
    fix a assume a: "a \<in> set (des_assets d)"
    show "g a = a\<lparr>as_display_name := as_display_name (g a), as_attributes := as_attributes (g a)\<rparr>" using g a by blast
    have rec: "reconciled cfg (result_lookup report) (remote_by_local_id remote) (as_local_id a)
         (map_of (ix_by_local_id index) (as_local_id a)) a (g a)" using g a by blast
    show "\<forall>f. field_of cfg (g a) f = (case map_of (ix_by_local_id index) (as_local_id a) of
        None \<Rightarrow> field_of cfg a f
      | Some i \<Rightarrow> expected_field cfg (result_lookup report) i (map_of (remote_by_local_id remote) (as_local_id a)) a f)"
      "\<forall>u. (\<forall>f. f \<noteq> DisplayNameField \<longrightarrow> u \<noteq> target_ref cfg f) \<longrightarrow> attrs_of (g a) u = attrs_of a u"
      using rec by (cases "map_of (ix_by_local_id index) (as_local_id a)"; simp add: reconciled_def overlaid_def)+
  qed
  then show ?thesis using ov(1) rest by blast
qed

section \<open>An overlay that raises\<close>

text \<open>
  The hypothesis on display names is needed: the remote state may hold a blank display name, which the planner treats as
  absent, but keeping it for a null effective value builds an asset that the constructor refuses.
\<close>

lemma blank_remote_name_raises:
  assumes "overlay_asset a" "rm_display_name remote = Some []"
  shows "apply_target_to_asset cfg (Some remote) (null_target DisplayNameField) a =
    Inl (ValueError ''display_name must not be empty when provided'')"
  using assms unfolding overlay_asset_def wf_asset_def mk_asset_same
  by (simp add: apply_target_to_asset_def null_target_def mk_asset_def require_all_def require_non_empty_def strip_def lstrip_def)

section \<open>The index of a scanned model\<close>

definition index_entries :: "string \<Rightarrow> GovernanceModel \<Rightarrow> (string \<times> GraphNodeIdentity) list" where
  "index_entries ns m =
     (let node = (\<lambda>kind name parent. GraphNodeIdentity ns kind (strip name) parent) in
      concat (map (\<lambda>ds. concat (map (\<lambda>d. let di = node NODE_KIND_DATA_SOURCE (db_name d) None in
        (db_id d, di) # concat (map (\<lambda>s. let si = node NODE_KIND_DATASET (sc_name s) (Some di) in
          (sc_id s, si) # concat (map (\<lambda>t. let ti = node NODE_KIND_TABLE (t_name t) (Some si) in
            (t_id t, ti) # map (\<lambda>c. (c_id c, node NODE_KIND_COLUMN (c_name c) (Some ti))) (t_columns t))
          (sc_tables s))) (db_schemas d))) (ds_databases ds))) (gm_data_sources m)))"

abbreviation put_entries ::
  "(string, GraphNodeIdentity) dict \<Rightarrow> (string \<times> GraphNodeIdentity) list \<Rightarrow> (string, GraphNodeIdentity) dict result" where
  "put_entries \<equiv> fold_in (\<lambda>m (l, i). put_identity m l i)"

lemma fold_in_concat: "fold_in f s (concat (map g xs)) = fold_in (\<lambda>s x. fold_in f s (g x)) s xs"
  by (induction xs arbitrary: s) (simp_all add: fold_in_append)

lemma fold_in_map_entries: "fold_in f s (map g xs) = fold_in (\<lambda>s x. f s (g x)) s xs"
  by (induction xs arbitrary: s) simp_all

lemma fold_in_cong_on: "(\<And>s x. x \<in> set xs \<Longrightarrow> f s x = g s x) \<Longrightarrow> fold_in f s xs = fold_in g s xs"
  by (induction xs arbitrary: s) (auto simp: try_in_def split: sum.splits)

lemma kinds_stripped:
  "strip NODE_KIND_DATA_SOURCE = NODE_KIND_DATA_SOURCE" "strip NODE_KIND_DATASET = NODE_KIND_DATASET"
  "strip NODE_KIND_TABLE = NODE_KIND_TABLE" "strip NODE_KIND_COLUMN = NODE_KIND_COLUMN"
  by code_simp+

lemma built_names:
  assumes "built_model m" "ds \<in> set (gm_data_sources m)" "d \<in> set (ds_databases ds)"
  shows "strip (db_name d) \<noteq> [] \<and> (\<forall>s \<in> set (db_schemas d). strip (sc_name s) \<noteq> [] \<and> (\<forall>t \<in> set (sc_tables s).
    strip (t_name t) \<noteq> [] \<and> (\<forall>c \<in> set (t_columns t). strip (c_name c) \<noteq> [])))"
  using assms by (auto simp: built_model_def built_database_def built_schema_def built_table_def list_all_iff
      mk_database_def mk_schema_def mk_table_def mk_column_def require_all_def split_result require_non_empty_ok split: if_split_asm)

lemma build_index_entries:
  assumes "built_model m" "strip ns \<noteq> []"
  shows "build_physical_reconciliation_index m ns =
    try_in (put_entries [] (index_entries (strip ns) m)) (\<lambda>d. Inr \<lparr>ix_by_local_id = d, ix_namespace = strip ns\<rparr>)"
proof -
  let ?node = "\<lambda>kind name parent. GraphNodeIdentity (strip ns) kind (strip name) parent"
  have node: "mk_node_identity (strip ns) NODE_KIND_DATA_SOURCE name None = Inr (?node NODE_KIND_DATA_SOURCE name None)"
    "mk_node_identity (strip ns) NODE_KIND_DATASET name (Some p) = Inr (?node NODE_KIND_DATASET name (Some p))"
    "mk_node_identity (strip ns) NODE_KIND_TABLE name (Some p) = Inr (?node NODE_KIND_TABLE name (Some p))"
    "mk_node_identity (strip ns) NODE_KIND_COLUMN name (Some p) = Inr (?node NODE_KIND_COLUMN name (Some p))"
    if "strip name \<noteq> []" for name p
    using that assms(2) by (simp_all add: mk_node_identity_def require_non_empty_str_def kinds_stripped) (simp_all add: kind_defs)
  have columns: "fold_in (index_column (strip ns) ti) d cs =
      put_entries d (map (\<lambda>c. (c_id c, ?node NODE_KIND_COLUMN (c_name c) (Some ti))) cs)"
    if "\<forall>c \<in> set cs. strip (c_name c) \<noteq> []" for ti d cs
    unfolding fold_in_map_entries by (rule fold_in_cong_on) (use that in \<open>simp add: index_column_def node(4)\<close>)
  have tables: "fold_in (index_table (strip ns) si) d ts = put_entries d (concat (map (\<lambda>t.
      let ti = ?node NODE_KIND_TABLE (t_name t) (Some si) in
      (t_id t, ti) # map (\<lambda>c. (c_id c, ?node NODE_KIND_COLUMN (c_name c) (Some ti))) (t_columns t)) ts))"
    if "\<forall>t \<in> set ts. strip (t_name t) \<noteq> [] \<and> (\<forall>c \<in> set (t_columns t). strip (c_name c) \<noteq> [])" for si d ts
    unfolding fold_in_concat by (rule fold_in_cong_on) (use that in \<open>simp add: index_table_def node(3) columns Let_def\<close>)
  have schemas: "fold_in (index_schema (strip ns) di) d ss = put_entries d (concat (map (\<lambda>s.
      let si = ?node NODE_KIND_DATASET (sc_name s) (Some di) in
      (sc_id s, si) # concat (map (\<lambda>t. let ti = ?node NODE_KIND_TABLE (t_name t) (Some si) in
        (t_id t, ti) # map (\<lambda>c. (c_id c, ?node NODE_KIND_COLUMN (c_name c) (Some ti))) (t_columns t)) (sc_tables s))) ss))"
    if "\<forall>s \<in> set ss. strip (sc_name s) \<noteq> [] \<and> (\<forall>t \<in> set (sc_tables s). strip (t_name t) \<noteq> [] \<and>
      (\<forall>c \<in> set (t_columns t). strip (c_name c) \<noteq> []))" for di d ss
    unfolding fold_in_concat by (rule fold_in_cong_on) (use that in \<open>simp add: index_schema_def node(2) tables Let_def fold_in_concat\<close>)
  have "fold_in (\<lambda>d ds. fold_in (index_database (strip ns)) d (ds_databases ds)) [] (gm_data_sources m) =
      put_entries [] (index_entries (strip ns) m)"
    unfolding index_entries_def Let_def fold_in_concat
    by (intro fold_in_cong_on)
      (use built_names [OF assms(1)] in \<open>simp add: index_database_def node(1) schemas Let_def fold_in_concat\<close>)
  then show ?thesis using assms(2) by (simp add: build_physical_reconciliation_index_def Let_def)
qed

lemma put_entries_ok:
  "put_entries [] es = Inr d \<longleftrightarrow> (\<forall>l i j. (l, i) \<in> set es \<longrightarrow> (l, j) \<in> set es \<longrightarrow> i = j) \<and> d = dict_of es"
proof (induction es arbitrary: d rule: rev_induct)
  case (snoc e es)
  obtain l i where e: "e = (l, i)" by (cases e)
  define single where "single es \<longleftrightarrow> (\<forall>l i j. (l, i) \<in> set es \<longrightarrow> (l, j) \<in> set es \<longrightarrow> i = j)" for es :: "(string \<times> GraphNodeIdentity) list"
  have IH: "put_entries [] es = Inr d \<longleftrightarrow> single es \<and> d = dict_of es" for d using snoc.IH by (simp add: single_def)
  have "put_entries [] (es @ [e]) = Inr d \<longleftrightarrow> single (es @ [e]) \<and> d = dict_of (es @ [e])"
  proof (cases "single es")
    case False
    then show ?thesis using IH by (auto simp: e fold_in_append split_result single_def)
  next
    case True
    have lookup: "map_of (dict_of es) l = Some j \<longleftrightarrow> (l, j) \<in> set es" for j
      using True map_of_SomeD [of "rev es" l] weak_map_of_SomeI [of l _ "rev es"]
      unfolding map_of_dict_of single_def by (metis set_rev)
    have one: "single (es @ [e]) \<longleftrightarrow> (\<forall>j. (l, j) \<in> set es \<longrightarrow> j = i)" using True unfolding e single_def by auto
    have two: "map_of (dict_of es) l \<noteq> None \<and> map_of (dict_of es) l \<noteq> Some i \<longleftrightarrow> \<not> (\<forall>j. (l, j) \<in> set es \<longrightarrow> j = i)"
      using lookup True unfolding single_def by (metis not_None_eq)
    have "put_entries [] es = Inr (dict_of es)" using IH True by simp
    then have "put_entries [] (es @ [e]) = put_identity (dict_of es) l i"
      by (cases "put_identity (dict_of es) l i") (simp_all add: e fold_in_append)
    then show ?thesis unfolding one put_identity_def two by (auto simp: e dict_of_snoc)
  qed
  then show ?case by (simp only: single_def)
qed auto

text \<open>The index of a built model maps each object id to the identity of its path, and building it fails on a contradiction only.\<close>

lemma index_exact:
  assumes "built_model m" "strip ns \<noteq> []"
  shows "build_physical_reconciliation_index m ns = Inr ix \<longleftrightarrow>
    (\<forall>l i j. (l, i) \<in> set (index_entries (strip ns) m) \<longrightarrow> (l, j) \<in> set (index_entries (strip ns) m) \<longrightarrow> i = j) \<and>
    ix = \<lparr>ix_by_local_id = dict_of (index_entries (strip ns) m), ix_namespace = strip ns\<rparr>"
  unfolding build_index_entries [OF assms] by (auto simp: split_result put_entries_ok)

section \<open>The cross check\<close>

definition consistent_known :: "PhysicalReconciliationIndex \<Rightarrow> GraphNodeIdentity list \<Rightarrow> bool" where
  "consistent_known index known \<longleftrightarrow> (\<forall>i \<in> set known. \<forall>c. project_physical_local_id i = Inr (Some c) \<longrightarrow>
     map_of (ix_by_local_id index) c \<in> {None, Some i} \<and>
     (\<forall>j \<in> set known. project_physical_local_id j = Inr (Some c) \<longrightarrow> j = i))"

definition known_inv ::
  "PhysicalReconciliationIndex \<Rightarrow> GraphNodeIdentity list \<Rightarrow> (string, GraphNodeIdentity) dict \<times> diagnostic list \<Rightarrow> bool" where
  "known_inv index known st \<longleftrightarrow> (snd st = [] \<longleftrightarrow> consistent_known index known) \<and>
     (\<forall>c i. map_of (fst st) c = Some i \<longrightarrow> i \<in> set known \<and> project_physical_local_id i = Inr (Some c)) \<and>
     (\<forall>c. map_of (fst st) c = None \<longrightarrow> (\<forall>i \<in> set known. project_physical_local_id i \<noteq> Inr (Some c)))"

lemma known_inv_snoc:
  assumes inv: "known_inv index known (m, es)" and i: "project_physical_local_id i = Inr projected"
    and es': "es' = [] \<longleftrightarrow> consistent_known index (known @ [i])"
    and m': "m' = m \<and> (\<forall>c. projected = Some c \<longrightarrow> map_of m c \<noteq> None) \<or> (\<exists>c. projected = Some c \<and> map_of m' = (map_of m)(c \<mapsto> i))"
  shows "known_inv index (known @ [i]) (m', es')"
proof -
  have old: "j \<in> set known \<and> project_physical_local_id j = Inr (Some c)" if "map_of m c = Some j" for c j
    using inv that by (simp add: known_inv_def)
  have new: "project_physical_local_id j \<noteq> Inr (Some c)" if "map_of m c = None" "j \<in> set known" for c j
    using inv that by (simp add: known_inv_def)
  have "j \<in> set (known @ [i]) \<and> project_physical_local_id j = Inr (Some c)" if "map_of m' c = Some j" for c j
    using m' old that i by (auto split: if_split_asm)
  moreover have "project_physical_local_id j \<noteq> Inr (Some c)" if "map_of m' c = None" "j \<in> set (known @ [i])" for c j
    using m' new that i by (auto split: if_split_asm)
  ultimately show ?thesis using es' by (simp add: known_inv_def)
qed

lemma check_known_step:
  assumes inv: "known_inv index known st" and i: "project_physical_local_id i = Inr projected"
  shows "\<exists>st'. check_known index st i = Inr st' \<and> known_inv index (known @ [i]) st'"
proof -
  obtain m es where st: "st = (m, es)" by (cases st)
  note snoc = known_inv_snoc [OF inv [unfolded st] i]
  have es: "es = [] \<longleftrightarrow> consistent_known index known" using inv by (simp add: known_inv_def st)
  show ?thesis
  proof (cases projected)
    case None
    then have "consistent_known index (known @ [i]) \<longleftrightarrow> consistent_known index known"
      using i by (auto simp: consistent_known_def)
    then have "known_inv index (known @ [i]) (m, es)" using es None by (intro snoc) auto
    moreover have "check_known index st i = Inr (m, es)" using i None by (simp add: check_known_def st)
    ultimately show ?thesis by blast
  next
    case (Some c)
    have found: "j \<in> set known \<and> project_physical_local_id j = Inr (Some c)" if "map_of m c = Some j" for j
      using inv that by (simp add: known_inv_def st)
    have absent: "project_physical_local_id j \<noteq> Inr (Some c)" if "map_of m c = None" "j \<in> set known" for j
      using inv that by (simp add: known_inv_def st)
    show ?thesis
    proof (cases "map_of m c \<noteq> None \<and> map_of m c \<noteq> Some i")
      case True
      then obtain j where "map_of m c = Some j" "j \<noteq> i" by auto
      then have "\<not> consistent_known index (known @ [i])" using found i Some unfolding consistent_known_def by auto
      then have "known_inv index (known @ [i]) (m, es @ [x])" for x using True Some by (intro snoc) auto
      moreover have "\<exists>x. check_known index st i = Inr (m, es @ [x])" using i Some True by (simp add: check_known_def st)
      ultimately show ?thesis by blast
    next
      case False
      let ?bad = "map_of (ix_by_local_id index) c \<noteq> None \<and> map_of (ix_by_local_id index) c \<noteq> Some i"
      have alone: "j = i" if "j \<in> set known" "project_physical_local_id j = Inr (Some c)" "consistent_known index known" for j
      proof -
        have "map_of m c \<noteq> None" using absent that(1,2) by blast
        then have "i \<in> set known" using False found by auto
        then show ?thesis using that i Some unfolding consistent_known_def by blast
      qed
      have "consistent_known index (known @ [i]) \<longleftrightarrow> consistent_known index known \<and> \<not> ?bad"
      proof
        assume "consistent_known index (known @ [i])"
        then show "consistent_known index known \<and> \<not> ?bad" using i Some unfolding consistent_known_def by auto
      next
        assume *: "consistent_known index known \<and> \<not> ?bad"
        then have "j = i" if "j \<in> set known" "project_physical_local_id j = Inr (Some c)" for j using alone that by blast
        then show "consistent_known index (known @ [i])" using * i Some unfolding consistent_known_def by auto
      qed
      then have "known_inv index (known @ [i]) (AList.update c i m, if ?bad then es @ [x] else es)" for x
        using es Some by (intro snoc) auto
      moreover have "\<exists>x. check_known index st i = Inr (AList.update c i m, if ?bad then es @ [x] else es)"
        using i Some False by (auto simp: check_known_def st)
      ultimately show ?thesis by blast
    qed
  qed
qed

text \<open>
  The cross check passes exactly when every known object that projects to a local id is the only one to do so and is the
  object the index holds there, if any.
\<close>

lemma cross_check_exact:
  assumes "\<forall>i \<in> set known. \<exists>c. project_physical_local_id i = Inr c"
  shows "cross_check_known_objects known index = Inr () \<longleftrightarrow> consistent_known index known"
proof -
  have "\<exists>st. fold_in (check_known index) ([], []) known = Inr st \<and> known_inv index known st"
  proof (rule fold_in_invariant)
    show "known_inv index [] ([], [])" by (simp add: known_inv_def consistent_known_def)
    show "\<exists>u. check_known index st i = Inr u \<and> known_inv index (ys @ [i]) u"
      if known: "\<exists>zs. known = ys @ i # zs" and inv: "known_inv index ys st" for ys i st
    proof -
      obtain c where "project_physical_local_id i = Inr c" using known assms by auto
      then show ?thesis by (rule check_known_step [OF inv])
    qed
  qed
  then obtain m es where "fold_in (check_known index) ([], []) known = Inr (m, es)" "known_inv index known (m, es)" by auto
  then show ?thesis by (simp add: cross_check_known_objects_def known_inv_def)
qed

section \<open>An example\<close>

definition example_desired :: CollibraDesiredState where
  "example_desired = mk_desired_state (model_assets mock_config example_model) (model_rels mock_config example_model)"

definition example_table_identity :: GraphNodeIdentity where
  "example_table_identity = GraphNodeIdentity ''s'' ''table'' ''t'' (Some (GraphNodeIdentity ''s'' ''dataset'' ''p''
     (Some (GraphNodeIdentity ''s'' ''data_source'' ''d'' None))))"

definition example_decision :: PropertyConflictResult where
  "example_decision = mk_conflict_result example_table_identity PATH_DESCRIPTION SINGLE_OBSERVATION SingleObservation []
     (Some (JStr ''orders'')) None"

definition example_index :: PhysicalReconciliationIndex where
  "example_index = \<lparr>ix_by_local_id = dict_of (index_entries ''s'' example_model), ix_namespace = ''s''\<rparr>"

lemma example_index_built: "build_physical_reconciliation_index example_model ''s'' = Inr example_index"
  by code_simp

lemma example_desired_closed: "closed_state mock_config example_desired"
proof -
  have "map_to_desired_state example_model mock_config = Inr example_desired"
    unfolding example_desired_def by (rule map_to_desired_state_iff [OF mock_config_accepted example_model_built, THEN iffD2]) code_simp
  then show ?thesis by (rule mapped_closed [OF mock_config_accepted example_model_built])
qed

theorem overlay_exact_witness:
  "\<exists>ov b. apply_reconciliation_overlay example_desired \<lparr>rem_assets = [], rem_relationships = [], rem_unmanaged_assets_ignored = 0,
       rem_unmanaged_relationships_ignored = 0\<rparr> \<lparr>rep_results = [example_decision]\<rparr> mock_config example_index = Inr ov \<and>
     b \<in> set (des_assets (ov_desired ov)) \<and> field_of mock_config b DescriptionField = Some ''orders''"
proof -
  let ?remote = "\<lparr>rem_assets = [], rem_relationships = [], rem_unmanaged_assets_ignored = 0,
    rem_unmanaged_relationships_ignored = 0\<rparr> :: CollibraRemoteState"
  let ?report = "\<lparr>rep_results = [example_decision]\<rparr>"
  have cfg: "overlay_config mock_config" by code_simp
  have assets: "list_all overlay_asset (des_assets example_desired)" by code_simp
  have idx: "distinct (keys (ix_by_local_id example_index))" by code_simp
  have remote: "\<forall>a \<in> set (rem_assets ?remote). named_remote (Some a)" by simp
  obtain ov where ov: "apply_reconciliation_overlay example_desired ?remote ?report mock_config example_index = Inr ov"
      "list_all2 (\<lambda>a b. b = a\<lparr>as_display_name := as_display_name b, as_attributes := as_attributes b\<rparr> \<and>
        (\<forall>f. field_of mock_config b f = (case map_of (ix_by_local_id example_index) (as_local_id a) of
           None \<Rightarrow> field_of mock_config a f
         | Some i \<Rightarrow> expected_field mock_config (result_lookup ?report) i (map_of (remote_by_local_id ?remote) (as_local_id a)) a f)) \<and>
        (\<forall>u. (\<forall>f. f \<noteq> DisplayNameField \<longrightarrow> u \<noteq> target_ref mock_config f) \<longrightarrow> attrs_of b u = attrs_of a u))
      (des_assets example_desired) (des_assets (ov_desired ov))"
    using overlay_exact [OF cfg example_desired_closed assets idx remote, of ?report] by blast
  have "\<exists>a \<in> set (des_assets example_desired). as_local_id a = ''tbl:s/d/p/t''" by code_simp
  then obtain n where n: "n < length (des_assets example_desired)" "as_local_id (des_assets example_desired ! n) = ''tbl:s/d/p/t''"
    by (metis in_set_conv_nth)
  have "map_of (ix_by_local_id example_index) ''tbl:s/d/p/t'' = Some example_table_identity" by code_simp
  moreover have "decided (result_lookup ?report) example_table_identity DescriptionField = Some (text_target DescriptionField ''orders'')"
    by code_simp
  ultimately have "field_of mock_config (des_assets (ov_desired ov) ! n) DescriptionField = Some ''orders''"
    using list_all2_nthD [OF ov(2) n(1)] n(2) by (simp add: expected_field_def new_value_def text_target_def)
  moreover have "des_assets (ov_desired ov) ! n \<in> set (des_assets (ov_desired ov))"
    using n(1) list_all2_lengthD [OF ov(2)] by simp
  ultimately show ?thesis using ov(1) by blast
qed

end
