(* ===== verification/Assumptions.thy ===== *)
theory Assumptions
  imports Reconciliation
begin

text \<open>
  The package \<open>reconciliation\<close>, second part: \<open>reconciliation/assumptions.py\<close>. A plan records, for every mapped property an
  action writes or the overlay changed, the decision it rests on; plan generation is refused while such a decision is
  unsafe, and applying a saved plan recomputes the decisions on the saved boundary. The theorems: a plan that passes
  writes only decided values, and recomputing with the same decisions gives the saved assumptions back.
\<close>

section \<open>Entries\<close>

definition decision_from_result :: "PropertyConflictResult \<Rightarrow> json" where
  "decision_from_result r = JObject ([(''reason'', JStr (reason_name (cr_reason r))), (''state'', JStr (state_name (cr_state r))),
     (''value_groups'', JArray (map to_value_group_dict (cr_value_groups r)))] @
     (if cr_has_effective_value r then [(''effective_value'', cr_effective_value r)] else []) @
     (case cr_winning_rule_key r of None \<Rightarrow> [] | Some k \<Rightarrow> [(''winning_rule_key'', rule_key_to_dict k)]))"

definition assumptions_dict :: "json list \<Rightarrow> json" where
  "assumptions_dict actions = JObject [(''actions'', JArray actions),
     (''assumptions_schema'', JStr ''governance-reconciliation-assumptions''), (''assumptions_version'', JStr ''1'')]"

definition empty_assumptions :: json where
  "empty_assumptions = assumptions_dict []"

definition assumptions_content_identity :: "(string \<Rightarrow> string) \<Rightarrow> json \<Rightarrow> ContentIdentity" where
  "assumptions_content_identity sha assumptions = sha256_identity sha ReconciliationAssumptionsId assumptions"

definition ROLE_MUTATION :: string where "ROLE_MUTATION = ''mutation''"
definition ROLE_OVERLAY :: string where "ROLE_OVERLAY = ''overlay''"

definition roles :: "string list \<Rightarrow> json" where
  "roles names = JArray (map JStr (sort (unique names)))"

definition property_dict :: "json \<Rightarrow> json \<Rightarrow> string \<Rightarrow> json \<Rightarrow> json" where
  "property_dict decision object pointer role_list = JObject [(''decision'', decision), (''object'', object),
     (''property'', JStr pointer), (''roles'', role_list)]"

definition decision_of :: "PropertyConflictResult option \<Rightarrow> json" where
  "decision_of r = (case r of None \<Rightarrow> JNull | Some r \<Rightarrow> decision_from_result r)"

definition property_entry :: "GraphNodeIdentity \<Rightarrow> PropertyPath \<Rightarrow> json \<Rightarrow> PropertyConflictResult option \<Rightarrow> json" where
  "property_entry identity path role_list r =
     property_dict (decision_of r) (identity_to_dict identity) (to_pointer path) role_list"

section \<open>Identities of saved entries\<close>

lemma size_member: "(k, v) \<in> set kvs \<Longrightarrow> size v < size (JObject kvs)"
  by (induction kvs) auto

lemma size_get_item: "size (get_item kvs k) < size (JObject kvs)"
proof (cases "map_of kvs k")
  case None
  then show ?thesis by (cases kvs) (simp_all add: get_item_def)
next
  case (Some v)
  then show ?thesis using size_member [OF map_of_SomeD] by (simp add: get_item_def)
qed

function parent_from_dict :: "json \<Rightarrow> GraphNodeIdentity option result" where
  "parent_from_dict JNull = Inr None"
| "parent_from_dict (JObject kvs) =
     try_in (str_item kvs ''namespace'') (\<lambda>ns.
     try_in (str_item kvs ''kind'') (\<lambda>kind.
     try_in (str_item kvs ''logical_id'') (\<lambda>logical_id.
     try_in (parent_from_dict (get_item kvs ''parent'')) (\<lambda>parent.
     try_in (mk_node_identity ns kind logical_id parent) (\<lambda>i. Inr (Some i))))))"
| "parent_from_dict (JBool b) = Inl (TypeError ''parent must be a mapping or null'')"
| "parent_from_dict (JInt i) = Inl (TypeError ''parent must be a mapping or null'')"
| "parent_from_dict (JFloat t) = Inl (TypeError ''parent must be a mapping or null'')"
| "parent_from_dict (JStr s) = Inl (TypeError ''parent must be a mapping or null'')"
| "parent_from_dict (JArray vs) = Inl (TypeError ''parent must be a mapping or null'')"
  by pat_completeness auto
termination by (relation "measure size") (use size_get_item in auto)

definition identity_from_saved_object :: "json \<Rightarrow> GraphNodeIdentity result" where
  "identity_from_saved_object payload =
     (case payload of
        JObject kvs \<Rightarrow>
          try_in (str_item kvs ''namespace'') (\<lambda>ns.
          try_in (str_item kvs ''kind'') (\<lambda>kind.
          try_in (str_item kvs ''logical_id'') (\<lambda>logical_id.
          try_in (parent_from_dict (get_item kvs ''parent'')) (\<lambda>parent. mk_node_identity ns kind logical_id parent))))
      | _ \<Rightarrow> Inl (TypeError ''object is not subscriptable''))"

text \<open>\<open>item[key]\<close> of an entry, and the key by which its properties are sorted.\<close>

definition entry_item :: "json \<Rightarrow> string \<Rightarrow> json result" where
  "entry_item entry key = (case entry of JObject kvs \<Rightarrow> item kvs key | _ \<Rightarrow> Inl (TypeError ''object is not subscriptable''))"

definition property_sort_key :: "json \<Rightarrow> (string \<times> string) result" where
  "property_sort_key entry =
     try_in (entry_item entry ''object'') (\<lambda>object.
     try_in (identity_from_saved_object object) (\<lambda>identity.
     try_in (entry_item entry ''property'') (\<lambda>pointer. Inr (canonical_bytes identity, py_str pointer))))"

definition sorted_by :: "('a \<Rightarrow> 'k::linorder result) \<Rightarrow> 'a list \<Rightarrow> 'a list result" where
  "sorted_by key xs = try_in (traverse key xs) (\<lambda>ks. Inr (map snd (sort_key fst (zip ks xs))))"

definition action_sort_key :: "json \<Rightarrow> (string \<times> string \<times> string) result" where
  "action_sort_key entry =
     try_in (entry_item entry ''object_kind'') (\<lambda>k.
     try_in (entry_item entry ''local_id'') (\<lambda>l.
     try_in (entry_item entry ''action_type'') (\<lambda>t. Inr (py_str k, py_str l, py_str t))))"

section \<open>Building the assumptions\<close>

definition attr_changed ::
  "CollibraMappingConfig \<Rightarrow> CollibraAssetSpec \<Rightarrow> CollibraAssetSpec \<Rightarrow> CollibraRemoteAsset option \<Rightarrow> TargetField \<Rightarrow> (bool \<times> bool) result" where
  "attr_changed cfg baseline rec remote field =
     try_in (get_asset_attr cfg field baseline) (\<lambda>base_val.
     try_in (get_asset_attr cfg field rec) (\<lambda>rec_val.
     try_in (get_remote_attr cfg field remote) (\<lambda>remote_val.
     Inr (rec_val \<noteq> remote_val, base_val \<noteq> rec_val))))"

record boundary_context =
  bc_config :: CollibraMappingConfig
  bc_index :: PhysicalReconciliationIndex
  bc_baseline :: "(string, CollibraAssetSpec) dict"
  bc_reconciled :: "(string, CollibraAssetSpec) dict"
  bc_remote :: "(string, CollibraRemoteAsset) dict"
  bc_results :: result_index

definition lookup_result :: "boundary_context \<Rightarrow> GraphNodeIdentity \<Rightarrow> PropertyPath \<Rightarrow> PropertyConflictResult option" where
  "lookup_result bc identity path = map_of (bc_results bc) (canonical_bytes identity, to_pointer path)"

definition changed_roles :: "SyncActionType \<Rightarrow> bool \<Rightarrow> bool \<Rightarrow> string list" where
  "changed_roles action_type mutation_material overlay_changed =
     (if action_type = UPDATE then (if mutation_material then [ROLE_MUTATION] else []) @ (if overlay_changed then [ROLE_OVERLAY] else [])
      else if overlay_changed then [ROLE_OVERLAY] else [])"

text \<open>The entry of a path of an action that is not a creation: none when its field plays no role.\<close>

definition changed_property ::
  "boundary_context \<Rightarrow> SyncActionType \<Rightarrow> GraphNodeIdentity \<Rightarrow> CollibraAssetSpec \<Rightarrow> CollibraAssetSpec \<Rightarrow> CollibraRemoteAsset option \<Rightarrow>
   PropertyPath \<Rightarrow> json list result" where
  "changed_property bc action_type identity baseline rec remote path =
     (case target_field_for_path path of
        None \<Rightarrow> Inr []
      | Some field \<Rightarrow>
          try_in (attr_changed (bc_config bc) baseline rec remote field) (\<lambda>(mutation_material, overlay_changed).
          let names = changed_roles action_type mutation_material overlay_changed in
          Inr (if names = [] then [] else [property_entry identity path (roles names) (lookup_result bc identity path)])))"

definition action_properties ::
  "boundary_context \<Rightarrow> SyncActionType \<Rightarrow> GraphNodeIdentity \<Rightarrow> CollibraAssetSpec \<Rightarrow> CollibraAssetSpec \<Rightarrow> CollibraRemoteAsset option \<Rightarrow>
   json list result" where
  "action_properties bc action_type identity baseline rec remote =
     (let paths = mapped_property_paths_for_kind (gi_kind identity) in
      if action_type = CREATE
      then Inr (map (\<lambda>path. property_entry identity path (roles [ROLE_MUTATION]) (lookup_result bc identity path)) paths)
      else try_in (traverse (changed_property bc action_type identity baseline rec remote) paths) (\<lambda>found. Inr (concat found)))"

definition action_dict :: "json \<Rightarrow> json \<Rightarrow> json \<Rightarrow> json list \<Rightarrow> json" where
  "action_dict action_type local_id object_kind properties = JObject [(''action_type'', action_type), (''local_id'', local_id),
     (''object_kind'', object_kind), (''properties'', JArray properties)]"

definition action_entry :: "boundary_context \<Rightarrow> SyncAction \<Rightarrow> json list result" where
  "action_entry bc action =
     (if sa_object_kind action \<noteq> ASSET \<or> sa_action_type action = REMOTE_ONLY \<or> or_empty (sa_local_id action) = [] then Inr []
      else (let local_id = or_empty (sa_local_id action) in
        case (map_of (ix_by_local_id (bc_index bc)) local_id, map_of (bc_baseline bc) local_id, map_of (bc_reconciled bc) local_id) of
          (Some identity, Some baseline, Some rec) \<Rightarrow>
            try_in (action_properties bc (sa_action_type action) identity baseline rec (map_of (bc_remote bc) local_id)) (\<lambda>properties.
            if properties = [] then Inr []
            else try_in (sorted_by property_sort_key properties) (\<lambda>ordered.
              Inr [action_dict (JStr (action_type_value (sa_action_type action))) (JStr local_id) (JStr ''asset'') ordered]))
        | _ \<Rightarrow> Inr []))"

definition boundary_of ::
  "CollibraDesiredState \<Rightarrow> CollibraDesiredState \<Rightarrow> CollibraRemoteState \<Rightarrow> PropertyConflictReport \<Rightarrow> CollibraMappingConfig \<Rightarrow>
   PhysicalReconciliationIndex \<Rightarrow> boundary_context" where
  "boundary_of baseline_desired reconciled_desired remote_state report cfg index =
     \<lparr>bc_config = cfg, bc_index = index, bc_baseline = index_by as_local_id (des_assets baseline_desired),
      bc_reconciled = index_by as_local_id (des_assets reconciled_desired), bc_remote = remote_by_local_id remote_state,
      bc_results = result_lookup report\<rparr>"

definition build_reconciliation_assumptions ::
  "CollibraDesiredState \<Rightarrow> CollibraDesiredState \<Rightarrow> CollibraRemoteState \<Rightarrow> SyncPlan \<Rightarrow> PropertyConflictReport \<Rightarrow>
   CollibraMappingConfig \<Rightarrow> PhysicalReconciliationIndex \<Rightarrow> json result" where
  "build_reconciliation_assumptions baseline_desired reconciled_desired remote_state plan report cfg index =
     try_in (traverse (action_entry (boundary_of baseline_desired reconciled_desired remote_state report cfg index)) (sp_actions plan)) (\<lambda>entries.
     try_in (sorted_by action_sort_key (concat entries)) (\<lambda>ordered. Inr (assumptions_dict ordered)))"

section \<open>Recomputing and validating\<close>

text \<open>\<open>saved.get(key) or []\<close>: a list; anything else that is not falsy is iterated only if it is a list.\<close>

definition or_list :: "json \<Rightarrow> string \<Rightarrow> json list result" where
  "or_list entry key =
     (case entry of
        JObject kvs \<Rightarrow> (let v = get_item kvs key in
          if falsy v then Inr [] else (case v of JArray vs \<Rightarrow> Inr vs | _ \<Rightarrow> Inl (TypeError ''entries must be a list'')))
      | _ \<Rightarrow> Inl AttributeError)"

definition recompute_property :: "result_index \<Rightarrow> json \<Rightarrow> json result" where
  "recompute_property results entry =
     try_in (entry_item entry ''object'') (\<lambda>object.
     try_in (identity_from_saved_object object) (\<lambda>identity.
     try_in (entry_item entry ''property'') (\<lambda>raw.
     let pointer = py_str raw in
     try_in (entry_item entry ''roles'') (\<lambda>role_list.
     Inr (property_dict (decision_of (map_of results (canonical_bytes identity, pointer))) object pointer role_list)))))"

definition recompute_action :: "result_index \<Rightarrow> json \<Rightarrow> json result" where
  "recompute_action results action =
     try_in (or_list action ''properties'') (\<lambda>saved.
     try_in (traverse (recompute_property results) saved) (\<lambda>found.
     try_in (sorted_by property_sort_key found) (\<lambda>properties.
     try_in (entry_item action ''action_type'') (\<lambda>action_type.
     try_in (entry_item action ''local_id'') (\<lambda>local_id.
     try_in (entry_item action ''object_kind'') (\<lambda>object_kind.
     Inr (action_dict action_type local_id object_kind properties)))))))"

definition recompute_assumptions_on_saved_boundary :: "json \<Rightarrow> PropertyConflictReport \<Rightarrow> json result" where
  "recompute_assumptions_on_saved_boundary saved_assumptions report =
     try_in (or_list saved_assumptions ''actions'') (\<lambda>actions.
     try_in (traverse (recompute_action (result_lookup report)) actions) (\<lambda>recomputed.
     try_in (sorted_by action_sort_key recomputed) (\<lambda>ordered. Inr (assumptions_dict ordered))))"

definition safety_code :: "string \<Rightarrow> string" where
  "safety_code reason =
     (if reason = REASON_UNSUPPORTED then ''unsupported_effective_value''
      else if reason = REASON_INVALID then ''invalid_or_ambiguous_authority''
      else ''unresolved_property_conflict'')"

definition property_errors :: "result_index \<Rightarrow> nat \<Rightarrow> nat \<times> json \<Rightarrow> diagnostic list result" where
  "property_errors results action_index numbered =
     (case numbered of (prop_index, entry) \<Rightarrow>
       (case entry of
          JObject kvs \<Rightarrow>
            if get_item kvs ''decision'' = JNull then Inr []
            else try_in (item kvs ''object'') (\<lambda>object.
              try_in (identity_from_saved_object object) (\<lambda>identity.
              try_in (item kvs ''property'') (\<lambda>raw.
              case map_of results (canonical_bytes identity, py_str raw) of
                None \<Rightarrow> Inr []
              | Some r \<Rightarrow>
                  if am_applicable (assess r) \<and> \<not> am_safe (assess r)
                  then Inr [diagnostic_error (safety_code (am_reason (assess r)))
                    (''/actions/'' @ str_nat action_index @ ''/properties/'' @ str_nat prop_index)
                    (''reconciliation blocked: '' @ am_reason (assess r))]
                  else Inr [])))
        | _ \<Rightarrow> Inl AttributeError))"

definition action_errors :: "result_index \<Rightarrow> nat \<times> json \<Rightarrow> diagnostic list result" where
  "action_errors results numbered =
     (case numbered of (action_index, action) \<Rightarrow>
       try_in (or_list action ''properties'') (\<lambda>properties.
       try_in (traverse (property_errors results action_index) (zip [0..<length properties] properties)) (\<lambda>found. Inr (concat found))))"

definition validate_assumptions_safety :: "json \<Rightarrow> PropertyConflictReport \<Rightarrow> unit result" where
  "validate_assumptions_safety assumptions report =
     try_in (or_list assumptions ''actions'') (\<lambda>actions.
     try_in (traverse (action_errors (result_lookup report)) (zip [0..<length actions] actions)) (\<lambda>found.
     if concat found \<noteq> [] then Inl (Diagnostics ''ReconciliationError'' (concat found)) else Inr ()))"

section \<open>Saved entries are read back\<close>

lemma str_item_simps [simp]:
  "str_item ((k, JStr s) # kvs) k = Inr s"
  "k \<noteq> k' \<Longrightarrow> str_item ((k, v) # kvs) k' = str_item kvs k'"
  by (simp_all add: str_item_def item_def py_str_def)

lemma stripped_identity:
  "wf_identity (GraphNodeIdentity ns k l p) \<Longrightarrow> mk_node_identity ns k l p = Inr (GraphNodeIdentity ns k l p)"
  by (auto simp: mk_node_identity_def require_non_empty_str_def stripped_def)

lemma parent_read_back: "wf_identity i \<Longrightarrow> parent_from_dict (identity_to_dict i) = Inr (Some i)"
proof (induction i rule: identity_to_dict.induct)
  case (1 ns k l p)
  have "parent_from_dict (case p of None \<Rightarrow> JNull | Some q \<Rightarrow> identity_to_dict q) = Inr p"
    using 1 by (cases p) auto
  then show ?case using stripped_identity [OF "1.prems"] by (simp add: get_item_def)
qed

lemma identity_read_back: "wf_identity i \<Longrightarrow> identity_from_saved_object (identity_to_dict i) = Inr i"
proof (cases i)
  case (GraphNodeIdentity ns k l p)
  assume wf: "wf_identity i"
  have "parent_from_dict (case p of None \<Rightarrow> JNull | Some q \<Rightarrow> identity_to_dict q) = Inr p"
    using wf parent_read_back by (cases p) (auto simp: GraphNodeIdentity)
  then show ?thesis using stripped_identity wf by (simp add: GraphNodeIdentity identity_from_saved_object_def get_item_def)
qed

lemma property_entry_items:
  "entry_item (property_entry i path rl r) ''object'' = Inr (identity_to_dict i)"
  "entry_item (property_entry i path rl r) ''property'' = Inr (JStr (to_pointer path))"
  "entry_item (property_entry i path rl r) ''roles'' = Inr rl"
  by (simp_all add: entry_item_def property_entry_def property_dict_def item_def)

lemma property_key: "wf_identity i \<Longrightarrow> property_sort_key (property_entry i path rl r) = Inr (canonical_bytes i, to_pointer path)"
  by (simp add: property_sort_key_def property_entry_items identity_read_back py_str_def)

lemma action_entry_items:
  "entry_item (action_dict t l k ps) ''action_type'' = Inr t" "entry_item (action_dict t l k ps) ''local_id'' = Inr l"
  "entry_item (action_dict t l k ps) ''object_kind'' = Inr k" "or_list (action_dict t l k ps) ''properties'' = Inr ps"
  "or_list (assumptions_dict actions) ''actions'' = Inr actions"
  by (simp_all add: entry_item_def action_dict_def item_def or_list_def get_item_def falsy_def assumptions_dict_def)

lemma insort_map: "insort_key h (g x) (map g ys) = map g (insort_key (\<lambda>x. h (g x)) x ys)"
  by (induction ys) auto

lemma sort_map: "sort_key h (map g xs) = map g (sort_key (\<lambda>x. h (g x)) xs)"
  by (induction xs) (simp_all add: insort_map)

lemma sorted_by_known:
  assumes "\<And>x. x \<in> set xs \<Longrightarrow> key x = Inr (f x)" shows "sorted_by key xs = Inr (sort_key f xs)"
proof -
  have "zip (map f xs) xs = map (\<lambda>x. (f x, x)) xs" by (induction xs) auto
  then show ?thesis
    using traverse_Inr_map [of xs key f] assms by (simp add: sorted_by_def sort_map comp_def)
qed

lemma sorted_by_perm: "sorted_by key xs = Inr ys \<Longrightarrow> set ys = set xs"
proof -
  assume "sorted_by key xs = Inr ys"
  then obtain ks where ks: "traverse key xs = Inr ks" "ys = map snd (sort_key fst (zip ks xs))"
    by (auto simp: sorted_by_def split_result)
  have "length ks = length xs" using ks(1) by (auto simp: traverse_Inr_iff dest: list_all2_lengthD)
  then have "map snd (zip ks xs) = xs" by simp
  then show ?thesis using ks(2) by (metis set_map set_sort)
qed

section \<open>What validation rules out\<close>

lemma validated_property:
  assumes "validate_assumptions_safety (assumptions_dict actions) report = Inr ()"
    and "action_dict t l k ps \<in> set actions" "e \<in> set ps"
  shows "\<exists>m n. property_errors (result_lookup report) m (n, e) = Inr []"
proof -
  let ?R = "result_lookup report"
  obtain found where found: "traverse (action_errors ?R) (zip [0..<length actions] actions) = Inr found" "concat found = []"
    using assms(1) by (auto simp: validate_assumptions_safety_def action_entry_items split_result split: if_split_asm)
  obtain m where m: "m < length actions" "actions ! m = action_dict t l k ps" using assms(2) by (auto simp: in_set_conv_nth)
  then have "action_errors ?R (m, action_dict t l k ps) = Inr (found ! m)" "found ! m = []"
    using found by (auto simp: traverse_Inr_iff list_all2_conv_all_nth)
  then obtain es where es: "traverse (property_errors ?R m) (zip [0..<length ps] ps) = Inr es" "concat es = []"
    by (auto simp: action_errors_def action_entry_items split_result)
  obtain n where n: "n < length ps" "ps ! n = e" using assms(3) by (auto simp: in_set_conv_nth)
  then have "property_errors ?R m (n, e) = Inr (es ! n)" "es ! n = []"
    using es by (auto simp: traverse_Inr_iff list_all2_conv_all_nth)
  then show ?thesis by metis
qed

lemma decision_not_null: "decision_from_result r \<noteq> JNull"
  by (simp add: decision_from_result_def)

lemma safe_entry:
  assumes "property_errors results m (n, property_entry i path rl (Some r)) = Inr []" "wf_identity i"
    and "map_of results (canonical_bytes i, to_pointer path) = Some r" "am_applicable (assess r)"
  shows "am_safe (assess r)"
proof (rule ccontr)
  assume "\<not> am_safe (assess r)"
  then have "property_errors results m (n, property_entry i path rl (Some r)) \<noteq> Inr []"
    using assms(2-4) by (simp add: property_errors_def property_entry_def property_dict_def decision_of_def decision_not_null
        get_item_def item_def identity_read_back py_str_def)
  then show False using assms(1) by simp
qed

lemma convert_cong: "to_pointer p = to_pointer q \<Longrightarrow> convert_effective_value p i v e = convert_effective_value q i v e"
  by (simp add: convert_effective_value_def path_applicable_to_identity_def target_field_for_path_def)

lemma applicable_cong: "to_pointer p = to_pointer q \<Longrightarrow> path_applicable_to_identity p i = path_applicable_to_identity q i"
  by (simp add: path_applicable_to_identity_def target_field_for_path_def)

lemma assess_applicable:
  "am_applicable (assess r) \<longleftrightarrow> path_applicable_to_identity (cr_property_path r) (cr_object_identity r)"
  by (auto simp: assess_reconciliation_def Let_def path_applicable_to_identity_def split: option.splits)

lemma looked_up:
  assumes "map_of (result_lookup report) (canonical_bytes i, pointer) = Some r"
  shows "cr_object_identity r = i \<and> to_pointer (cr_property_path r) = pointer"
  using assms last_with_Some unfolding result_lookup_def map_of_index_by by fastforce

lemma mapped_paths: "path_of f \<in> set (mapped_property_paths_for_kind (gi_kind i)) \<longleftrightarrow> path_applicable_to_identity (path_of f) i"
  by (cases f) (auto simp: mapped_property_paths_for_kind_def path_applicable_to_identity_def field_of_path
      target_field_for_path_def to_pointer_def path_defs)

section \<open>A plan that passes writes decided values\<close>

lemma asset_attr_ok:
  assumes "overlay_config cfg" "overlay_asset a" shows "get_asset_attr cfg f a = Inr (field_of cfg a f)"
proof (cases "f = DisplayNameField")
  case False
  then show ?thesis
    using target_ref_ok(1) [OF assms(1) False] assms(2) by (simp add: get_asset_attr_def field_of_def find_attr overlay_asset_def)
qed (simp add: get_asset_attr_def field_of_def)

text \<open>The entry of a written field is in the boundary of its action.\<close>

lemma action_properties_entry:
  assumes cfg: "overlay_config (bc_config bc)" "overlay_asset baseline" "overlay_asset rec"
    and f: "path_of f \<in> set (mapped_property_paths_for_kind (gi_kind i))"
    and written: "action_type = CREATE \<or> action_type = UPDATE \<and> get_remote_attr (bc_config bc) f remote \<noteq> Inr (field_of (bc_config bc) rec f)"
    and props: "action_properties bc action_type i baseline rec remote = Inr properties"
  shows "\<exists>rl. property_entry i (path_of f) rl (lookup_result bc i (path_of f)) \<in> set properties"
proof (cases "action_type = CREATE")
  case True
  then have "properties = map (\<lambda>path. property_entry i path (roles [ROLE_MUTATION]) (lookup_result bc i path))
      (mapped_property_paths_for_kind (gi_kind i))" using props by (simp add: action_properties_def)
  then show ?thesis using f by (intro exI [of _ "roles [ROLE_MUTATION]"]) simp
next
  case False
  let ?cfg = "bc_config bc" and ?paths = "mapped_property_paths_for_kind (gi_kind i)"
  obtain found where found: "traverse (changed_property bc action_type i baseline rec remote) ?paths = Inr found" "properties = concat found"
    using props False by (auto simp: action_properties_def split_result)
  obtain n where n: "n < length ?paths" "?paths ! n = path_of f" using f by (auto simp: in_set_conv_nth)
  then have step: "changed_property bc action_type i baseline rec remote (path_of f) = Inr (found ! n)" "found ! n \<in> set found"
    using found(1) by (auto simp: traverse_Inr_iff list_all2_conv_all_nth)
  then obtain rv where "get_remote_attr ?cfg f remote = Inr rv"
    by (auto simp: changed_property_def field_of_path attr_changed_def split_result)
  moreover from this have "rv \<noteq> field_of ?cfg rec f" using written False by auto
  ultimately have "changed_property bc action_type i baseline rec remote (path_of f) = Inr [property_entry i (path_of f)
      (roles (changed_roles UPDATE True (field_of ?cfg baseline f \<noteq> field_of ?cfg rec f))) (lookup_result bc i (path_of f))]"
    using written False asset_attr_ok [OF cfg(1,2), of f] asset_attr_ok [OF cfg(1,3), of f]
    by (auto simp: changed_property_def field_of_path attr_changed_def changed_roles_def Let_def)
  then obtain rl where "[property_entry i (path_of f) rl (lookup_result bc i (path_of f))] \<in> set found" using step by auto
  then show ?thesis using found(2) by force
qed

lemma boundary_entry:
  assumes cfg: "overlay_config (bc_config bc)" and action: "sa_object_kind a = ASSET" "sa_local_id a = Some l" "l \<noteq> []"
    and found: "map_of (ix_by_local_id (bc_index bc)) l = Some i" "map_of (bc_baseline bc) l = Some baseline" "map_of (bc_reconciled bc) l = Some rec"
    and ok: "overlay_asset baseline" "overlay_asset rec"
    and f: "path_of f \<in> set (mapped_property_paths_for_kind (gi_kind i))"
    and written: "sa_action_type a = CREATE \<or> sa_action_type a = UPDATE \<and>
      get_remote_attr (bc_config bc) f (map_of (bc_remote bc) l) \<noteq> Inr (field_of (bc_config bc) rec f)"
    and entry: "action_entry bc a = Inr entries"
  shows "\<exists>t k ps rl. action_dict t (JStr l) k ps \<in> set entries \<and> property_entry i (path_of f) rl (lookup_result bc i (path_of f)) \<in> set ps"
proof -
  obtain properties where properties: "action_properties bc (sa_action_type a) i baseline rec (map_of (bc_remote bc) l) = Inr properties"
    using entry action found written by (auto simp: action_entry_def or_empty_def split_result)
  then obtain rl where rl: "property_entry i (path_of f) rl (lookup_result bc i (path_of f)) \<in> set properties"
    using action_properties_entry [OF cfg ok f written] by blast
  then have "properties \<noteq> []" by auto
  then obtain ps where "sorted_by property_sort_key properties = Inr ps"
      "entries = [action_dict (JStr (action_type_value (sa_action_type a))) (JStr l) (JStr ''asset'') ps]"
    using entry action found written properties by (auto simp: action_entry_def or_empty_def split_result)
  then show ?thesis using rl sorted_by_perm by fastforce
qed

lemma boundary_safe:
  assumes built: "build_reconciliation_assumptions d0 d1 remote plan report cfg index = Inr A"
    and valid: "validate_assumptions_safety A report = Inr ()"
    and a: "a \<in> set (sp_actions plan)" and entry: "\<And>entries. action_entry (boundary_of d0 d1 remote report cfg index) a = Inr entries \<Longrightarrow>
      \<exists>t k ps rl. action_dict t (JStr l) k ps \<in> set entries \<and> property_entry i (path_of f) rl (Some r) \<in> set ps"
    and i: "wf_identity i" and r: "map_of (result_lookup report) (canonical_bytes i, to_pointer (path_of f)) = Some r"
    and f: "path_applicable_to_identity (path_of f) i"
  shows "am_safe (assess r) \<and> (\<exists>t. decided (result_lookup report) i f = Some t)"
proof -
  obtain entries ordered where *: "traverse (action_entry (boundary_of d0 d1 remote report cfg index)) (sp_actions plan) = Inr entries"
      "sorted_by action_sort_key (concat entries) = Inr ordered" "A = assumptions_dict ordered"
    using built by (auto simp: build_reconciliation_assumptions_def split_result)
  obtain n where "n < length (sp_actions plan)" "sp_actions plan ! n = a" using a by (auto simp: in_set_conv_nth)
  then have n: "action_entry (boundary_of d0 d1 remote report cfg index) a = Inr (entries ! n)" "entries ! n \<in> set entries"
    using *(1) by (auto simp: traverse_Inr_iff list_all2_conv_all_nth)
  obtain t k ps rl where e: "action_dict t (JStr l) k ps \<in> set (entries ! n)" "property_entry i (path_of f) rl (Some r) \<in> set ps"
    using entry [OF n(1)] by blast
  have "action_dict t (JStr l) k ps \<in> set ordered" using e(1) n(2) sorted_by_perm [OF *(2)] by auto
  then obtain m n where checked: "property_errors (result_lookup report) m (n, property_entry i (path_of f) rl (Some r)) = Inr []"
    using validated_property [OF valid [unfolded *(3)] _ e(2)] by blast
  have key: "cr_object_identity r = i" "to_pointer (cr_property_path r) = to_pointer (path_of f)" using looked_up [OF r] by auto
  have "am_applicable (assess r)" unfolding assess_applicable key(1) using f applicable_cong [OF key(2)] by simp
  then have safe: "am_safe (assess r)" using safe_entry [OF checked i r] by blast
  then have "convert_effective_value (path_of f) i (cr_effective_value r) True \<noteq> None"
    unfolding assess_safe key(1) using convert_cong [OF key(2)] by simp
  then show ?thesis using safe r by (auto simp: decided_def)
qed

lemma overlay_exact_indexed:
  assumes cfg: "overlay_config cfg" and d: "closed_state cfg d" "list_all overlay_asset (des_assets d)"
    and idx: "distinct (keys (ix_by_local_id index))" and remote: "\<forall>a \<in> set (rem_assets remote). named_remote (Some a)"
    and ov: "apply_reconciliation_overlay d remote report cfg index = Inr ov"
    and b: "b \<in> set (des_assets (ov_desired ov))" and i: "map_of (ix_by_local_id index) (as_local_id b) = Some i"
  shows "overlay_asset b \<and> (\<exists>a \<in> set (des_assets d). as_local_id a = as_local_id b \<and>
    overlaid cfg (result_lookup report) i (map_of (remote_by_local_id remote) (as_local_id b)) UNIV a b)"
proof -
  obtain ov' g where "apply_reconciliation_overlay d remote report cfg index = Inr ov'"
      "des_assets (ov_desired ov') = map g (des_assets d)" and
    g: "\<forall>a \<in> set (des_assets d). as_local_id (g a) = as_local_id a \<and>
       g a = a\<lparr>as_display_name := as_display_name (g a), as_attributes := as_attributes (g a)\<rparr> \<and>
       reconciled cfg (result_lookup report) (remote_by_local_id remote) (as_local_id a)
         (map_of (ix_by_local_id index) (as_local_id a)) a (g a)"
    using overlay_function [OF cfg d idx remote, of report] by (elim exE conjE) blast
  then have "des_assets (ov_desired ov) = map g (des_assets d)" using ov by simp
  then obtain a where a: "a \<in> set (des_assets d)" "b = g a" using b by auto
  then have "overlaid cfg (result_lookup report) i (map_of (remote_by_local_id remote) (as_local_id b)) UNIV a b"
    using g i by (auto simp: reconciled_def)
  then show ?thesis using a g by (auto simp: overlaid_def)
qed

text \<open>
  C6 (safety). Nothing undecided is written. When the overlay, the planner and the builder of the assumptions are composed
  as plan generation does and the assumptions pass validation, then for every asset the plan creates or updates and
  every mapped field of it that the creation writes or the update changes: if the sources decided on that field
  at all, the decision is safe and representable and the field of the written asset is what the decision says.
\<close>

theorem plan_writes_decided_values:
  assumes cfg: "overlay_config cfg" and d: "closed_state cfg d" "list_all overlay_asset (des_assets d)"
    and idx: "distinct (keys (ix_by_local_id index))" "\<forall>i \<in> set (vals (ix_by_local_id index)). wf_identity i"
    and remote: "\<forall>a \<in> set (rem_assets remote). named_remote (Some a) \<and> rm_remote_id a \<noteq> []"
      "\<forall>y \<in> set (rem_relationships remote). rr_remote_id y \<noteq> []"
    and ov: "apply_reconciliation_overlay d remote report cfg index = Inr ov"
    and plan: "build_sync_plan (ov_desired ov) remote = Inr plan"
    and built: "build_reconciliation_assumptions d (ov_desired ov) remote plan report cfg index = Inr A"
    and valid: "validate_assumptions_safety A report = Inr ()"
    and action: "action \<in> set (sp_actions plan)" "sa_object_kind action = ASSET" "sa_local_id action = Some l" "l \<noteq> []"
      "sa_desired_asset action = Some b"
    and i: "map_of (ix_by_local_id index) l = Some i" "path_applicable_to_identity (path_of f) i"
    and written: "sa_action_type action = CREATE \<or> sa_action_type action = UPDATE \<and>
      get_remote_attr cfg f (map_of (remote_by_local_id remote) l) \<noteq> Inr (field_of cfg b f)"
    and decision: "map_of (result_lookup report) (canonical_bytes i, to_pointer (path_of f)) = Some r"
  shows "am_safe (assess r) \<and> (\<exists>t. decided (result_lookup report) i f = Some t \<and>
    field_of cfg b f = new_value cfg (map_of (remote_by_local_id remote) l) t)"
proof -
  have named: "\<forall>a \<in> set (rem_assets remote). named_remote (Some a)" using remote(1) by blast
  have "\<exists>x. asset_verdict x (last_with as_local_id x (des_assets (ov_desired ov))) (last_with rm_local_id x (rem_assets remote)) = Some action"
  proof -
    have "action \<in> {a. \<exists>i. asset_verdict i (last_with as_local_id i (des_assets (ov_desired ov))) (last_with rm_local_id i (rem_assets remote)) = Some a} \<union>
        {a. \<exists>k. relationship_verdict (last_with desired_key k (des_relationships (ov_desired ov)))
          (last_with remote_key k (rem_relationships remote)) = Some a}"
      using build_sync_plan_exact [of remote "ov_desired ov"] remote plan action(1) by auto
    moreover have "relationship_verdict x y \<noteq> Some action" for x y
      using action(2,5) by (cases x; cases y) (auto simp: blank_action_def)
    ultimately show ?thesis by blast
  qed
  then obtain x where "asset_verdict x (last_with as_local_id x (des_assets (ov_desired ov))) (last_with rm_local_id x (rem_assets remote)) = Some action"
    by blast
  then have b: "last_with as_local_id l (des_assets (ov_desired ov)) = Some b"
    using action(3,5) asset_verdict_desired
    by (cases "last_with as_local_id x (des_assets (ov_desired ov))"; cases "last_with rm_local_id x (rem_assets remote)")
      (auto simp: blank_action_def)
  have bl: "b \<in> set (des_assets (ov_desired ov))" "as_local_id b = l" using last_with_Some [OF b] by auto
  obtain a where a: "a \<in> set (des_assets d)" "as_local_id a = l" and ob: "overlay_asset b"
      and over: "overlaid cfg (result_lookup report) i (map_of (remote_by_local_id remote) l) UNIV a b"
    using overlay_exact_indexed [OF cfg d idx(1) named ov bl(1)] i(1) bl(2) by auto
  let ?bc = "boundary_of d (ov_desired ov) remote report cfg index"
  have "distinct (map as_local_id (des_assets d))" using d(1) by (simp add: closed_state_def)
  then have la: "map_of (bc_baseline ?bc) l = Some a"
    using a last_with_distinct by (force simp: boundary_of_def map_of_index_by)
  have lb: "map_of (bc_reconciled ?bc) l = Some b" using b by (simp add: boundary_of_def map_of_index_by)
  have oa: "overlay_asset a" using d(2) a(1) by (simp add: list_all_iff)
  have wf: "wf_identity i" using idx(2) i(1) by (force dest: map_of_SomeD)
  have "am_safe (assess r) \<and> (\<exists>t. decided (result_lookup report) i f = Some t)"
  proof (rule boundary_safe [OF built valid action(1) _ wf decision i(2)])
    fix entries assume entries: "action_entry ?bc action = Inr entries"
    have "lookup_result ?bc i (path_of f) = Some r" using decision by (simp add: lookup_result_def boundary_of_def)
    moreover have "path_of f \<in> set (mapped_property_paths_for_kind (gi_kind i))" using i(2) unfolding mapped_paths .
    ultimately show "\<exists>t k ps rl. action_dict t (JStr l) k ps \<in> set entries \<and> property_entry i (path_of f) rl (Some r) \<in> set ps"
      using boundary_entry [OF _ action(2,3,4) _ la lb oa ob _ _ entries, of i f] cfg i(1) written by (simp add: boundary_of_def)
  qed
  then show ?thesis using over by (auto simp: overlaid_def expected_field_def)
qed

section \<open>The saved boundary\<close>

text \<open>What is fixed in assumptions: actions with their local ids, and for each the properties with their roles.\<close>

type_synonym boundary_property = "GraphNodeIdentity \<times> PropertyPath \<times> json"
type_synonym boundary = "(string \<times> string \<times> boundary_property list) list"

definition decision_at :: "result_index \<Rightarrow> GraphNodeIdentity \<Rightarrow> PropertyPath \<Rightarrow> PropertyConflictResult option" where
  "decision_at results i p = map_of results (canonical_bytes i, to_pointer p)"

definition rendered_property :: "result_index \<Rightarrow> boundary_property \<Rightarrow> json" where
  "rendered_property results = (\<lambda>(i, p, rl). property_entry i p rl (decision_at results i p))"

definition rendered_action :: "result_index \<Rightarrow> string \<times> string \<times> boundary_property list \<Rightarrow> json" where
  "rendered_action results = (\<lambda>(t, l, ps). action_dict (JStr t) (JStr l) (JStr ''asset'') (map (rendered_property results) ps))"

definition rendered :: "result_index \<Rightarrow> boundary \<Rightarrow> json" where
  "rendered results acts = assumptions_dict (map (rendered_action results) acts)"

definition property_place :: "boundary_property \<Rightarrow> string \<times> string" where
  "property_place = (\<lambda>(i, p, rl). (canonical_bytes i, to_pointer p))"

definition action_place :: "string \<times> string \<times> boundary_property list \<Rightarrow> string \<times> string \<times> string" where
  "action_place = (\<lambda>(t, l, ps). (''asset'', l, t))"

definition wf_properties :: "boundary_property list \<Rightarrow> bool" where
  "wf_properties ps \<longleftrightarrow> (\<forall>(i, p, rl) \<in> set ps. wf_identity i) \<and> sorted (map property_place ps)"

definition wf_boundary :: "boundary \<Rightarrow> bool" where
  "wf_boundary acts \<longleftrightarrow> (\<forall>(t, l, ps) \<in> set acts. wf_properties ps) \<and> sorted (map action_place acts)"

lemma sorted_by_map:
  assumes "\<And>x. x \<in> set xs \<Longrightarrow> key (g x) = Inr (k x)" shows "sorted_by key (map g xs) = Inr (map g (sort_key k xs))"
proof -
  have "zip (map k xs) (map g xs) = map (\<lambda>x. (k x, g x)) xs" by (induction xs) auto
  moreover have "traverse key (map g xs) = Inr (map k xs)"
    unfolding traverse_map by (rule traverse_Inr_map) (use assms in simp)
  ultimately show ?thesis by (simp add: sorted_by_def sort_map comp_def)
qed

lemma property_place_key:
  "(\<forall>(i, p, rl) \<in> set ps. wf_identity i) \<Longrightarrow> x \<in> set ps \<Longrightarrow> property_sort_key (rendered_property results x) = Inr (property_place x)"
  by (auto simp: rendered_property_def property_place_def property_key)

lemma action_place_key: "action_sort_key (rendered_action results x) = Inr (action_place x)"
  by (cases x) (simp add: rendered_action_def action_place_def action_sort_key_def action_entry_items py_str_def)

lemma sorted_properties:
  "(\<forall>(i, p, rl) \<in> set ps. wf_identity i) \<Longrightarrow> sorted_by property_sort_key (map (rendered_property results) ps) =
   Inr (map (rendered_property results) (sort_key property_place ps))"
  by (rule sorted_by_map) (rule property_place_key)

lemma sorted_actions:
  "sorted_by action_sort_key (map (rendered_action results) acts) = Inr (map (rendered_action results) (sort_key action_place acts))"
  by (rule sorted_by_map) (rule action_place_key)

lemma changed_property_rendered:
  assumes "changed_property bc ty i a b remote path = Inr es" "bc_results bc = results"
  shows "\<exists>ps. es = map (rendered_property results) ps \<and> (\<forall>(j, p, rl) \<in> set ps. j = i)"
proof (cases "es = []")
  case False
  then obtain rl where "es = [rendered_property results (i, path, rl)]"
    using assms by (auto simp: changed_property_def split_result Let_def rendered_property_def lookup_result_def decision_at_def
        split: option.splits if_split_asm)
  then show ?thesis by (intro exI [of _ "[(i, path, rl)]"]) simp
qed simp

lemma rendered_concat:
  assumes "traverse f xs = Inr ess" "\<And>x es. x \<in> set xs \<Longrightarrow> f x = Inr es \<Longrightarrow> \<exists>ps. es = map g ps \<and> (\<forall>p \<in> set ps. Q p)"
  shows "\<exists>ps. concat ess = map g ps \<and> (\<forall>p \<in> set ps. Q p)"
  using assms
proof (induction xs arbitrary: ess)
  case (Cons x xs)
  then obtain es ess' where es: "f x = Inr es" "traverse f xs = Inr ess'" "ess = es # ess'" by (auto simp: split_result)
  obtain ps where "es = map g ps" "\<forall>p \<in> set ps. Q p" using Cons.prems(2) [OF _ es(1)] by auto
  moreover obtain qs where "concat ess' = map g qs" "\<forall>p \<in> set qs. Q p" using Cons.IH [OF es(2)] Cons.prems(2) by auto
  ultimately show ?case by (intro exI [of _ "ps @ qs"]) (auto simp: es(3))
qed simp

lemma action_properties_rendered:
  assumes "action_properties bc ty i a b remote = Inr es"
  shows "\<exists>ps. es = map (rendered_property (bc_results bc)) ps \<and> (\<forall>(j, p, rl) \<in> set ps. j = i)"
proof (cases "ty = CREATE")
  case True
  let ?ps = "map (\<lambda>path. (i, path, roles [ROLE_MUTATION])) (mapped_property_paths_for_kind (gi_kind i))"
  have "es = map (rendered_property (bc_results bc)) ?ps"
    using assms True by (auto simp: action_properties_def rendered_property_def lookup_result_def decision_at_def comp_def)
  then show ?thesis by (intro exI [of _ ?ps]) auto
next
  case False
  then obtain ess where ess: "traverse (changed_property bc ty i a b remote) (mapped_property_paths_for_kind (gi_kind i)) = Inr ess"
      "es = concat ess" using assms by (auto simp: action_properties_def split_result)
  show ?thesis unfolding ess(2)
    by (rule rendered_concat [OF ess(1)]) (use changed_property_rendered [OF _ refl] in blast)
qed

lemma action_entry_rendered:
  assumes "action_entry bc action = Inr es" "\<forall>i \<in> set (vals (ix_by_local_id (bc_index bc))). wf_identity i"
  shows "\<exists>acts. es = map (rendered_action (bc_results bc)) acts \<and> (\<forall>(t, l, ps) \<in> set acts. wf_properties ps)"
proof (cases "es = []")
  case False
  then obtain i a b where found: "map_of (ix_by_local_id (bc_index bc)) (or_empty (sa_local_id action)) = Some i"
      "map_of (bc_baseline bc) (or_empty (sa_local_id action)) = Some a" "map_of (bc_reconciled bc) (or_empty (sa_local_id action)) = Some b"
    using assms(1) by (auto simp: action_entry_def Let_def split: if_split_asm option.splits)
  obtain properties ordered where *: "action_properties bc (sa_action_type action) i a b (map_of (bc_remote bc) (or_empty (sa_local_id action))) = Inr properties"
      "sorted_by property_sort_key properties = Inr ordered"
      "es = [action_dict (JStr (action_type_value (sa_action_type action))) (JStr (or_empty (sa_local_id action))) (JStr ''asset'') ordered]"
    using assms(1) False found by (auto simp: action_entry_def Let_def split_result split: if_split_asm)
  obtain ps where ps: "properties = map (rendered_property (bc_results bc)) ps" "\<forall>(j, p, rl) \<in> set ps. j = i"
    using action_properties_rendered [OF *(1)] by blast
  have "wf_identity i" using assms(2) found(1) by (force dest: map_of_SomeD)
  then have wf: "\<forall>(j, p, rl) \<in> set ps. wf_identity j" using ps(2) by auto
  have "ordered = map (rendered_property (bc_results bc)) (sort_key property_place ps)"
    using *(2) unfolding ps(1) sorted_properties [OF wf] by simp
  moreover have "wf_properties (sort_key property_place ps)" using wf by (simp add: wf_properties_def)
  ultimately show ?thesis
    by (intro exI [of _ "[(action_type_value (sa_action_type action), or_empty (sa_local_id action), sort_key property_place ps)]"])
      (simp add: *(3) rendered_action_def)
qed simp

lemma built_rendered:
  assumes "build_reconciliation_assumptions d0 d1 remote plan report cfg index = Inr A"
    and "\<forall>i \<in> set (vals (ix_by_local_id index)). wf_identity i"
  shows "\<exists>acts. wf_boundary acts \<and> A = rendered (result_lookup report) acts"
proof -
  let ?bc = "boundary_of d0 d1 remote report cfg index"
  obtain entries ordered where *: "traverse (action_entry ?bc) (sp_actions plan) = Inr entries"
      "sorted_by action_sort_key (concat entries) = Inr ordered" "A = assumptions_dict ordered"
    using assms(1) by (auto simp: build_reconciliation_assumptions_def split_result)
  have "\<exists>acts. concat entries = map (rendered_action (bc_results ?bc)) acts \<and> (\<forall>x \<in> set acts. case x of (t, l, ps) \<Rightarrow> wf_properties ps)"
    by (rule rendered_concat [OF *(1)]) (use assms(2) action_entry_rendered [of ?bc] in \<open>simp add: boundary_of_def\<close>)
  then obtain acts where acts: "concat entries = map (rendered_action (result_lookup report)) acts"
      "\<forall>(t, l, ps) \<in> set acts. wf_properties ps" by (auto simp: boundary_of_def)
  have "ordered = map (rendered_action (result_lookup report)) (sort_key action_place acts)"
    using *(2) unfolding acts(1) sorted_actions by simp
  then show ?thesis
    using acts(2) by (intro exI [of _ "sort_key action_place acts"]) (simp add: *(3) rendered_def wf_boundary_def)
qed

lemma recompute_rendered:
  assumes "wf_boundary acts"
  shows "recompute_assumptions_on_saved_boundary (rendered old acts) report = Inr (rendered (result_lookup report) acts)"
proof -
  let ?new = "result_lookup report"
  have entry: "recompute_property ?new (property_entry i p rl r) = Inr (property_entry i p rl (decision_at ?new i p))"
    if "wf_identity i" for i p rl r
    using that unfolding recompute_property_def property_entry_items try_in_simps identity_read_back [OF that]
    by (simp add: property_entry_def py_str_def decision_at_def Let_def)
  have property: "recompute_property ?new (rendered_property old x) = Inr (rendered_property ?new x)"
    if x: "x \<in> set ps" and wf: "wf_properties ps" for x ps
  proof -
    obtain i p rl where p: "x = (i, p, rl)" by (cases x)
    have "wf_identity i" using x wf unfolding wf_properties_def p by blast
    then show ?thesis using entry by (simp add: p rendered_property_def)
  qed
  have action: "recompute_action ?new (rendered_action old x) = Inr (rendered_action ?new x)" if x: "x \<in> set acts" for x
  proof -
    obtain t l ps where p: "x = (t, l, ps)" by (cases x)
    have wf: "wf_properties ps" using assms x by (auto simp: wf_boundary_def p)
    have "traverse (recompute_property ?new) (map (rendered_property old) ps) = Inr (map (rendered_property ?new) ps)"
      unfolding traverse_map by (rule traverse_Inr_map) (use property wf in simp)
    moreover have "sorted_by property_sort_key (map (rendered_property ?new) ps) = Inr (map (rendered_property ?new) ps)"
      using sorted_properties [of ps ?new] wf by (simp add: wf_properties_def sort_key_id)
    ultimately show ?thesis by (simp add: p recompute_action_def rendered_action_def action_entry_items)
  qed
  have "traverse (recompute_action ?new) (map (rendered_action old) acts) = Inr (map (rendered_action ?new) acts)"
    unfolding traverse_map by (rule traverse_Inr_map) (use action in simp)
  moreover have "sorted_by action_sort_key (map (rendered_action ?new) acts) = Inr (map (rendered_action ?new) acts)"
    using sorted_actions [of ?new acts] assms by (simp add: wf_boundary_def sort_key_id)
  ultimately show ?thesis by (simp add: recompute_assumptions_on_saved_boundary_def rendered_def action_entry_items)
qed

lemma rendered_eq:
  "rendered r acts = rendered q acts \<longleftrightarrow>
   (\<forall>(t, l, ps) \<in> set acts. \<forall>(i, p, rl) \<in> set ps. decision_of (decision_at r i p) = decision_of (decision_at q i p))"
  by (fastforce simp: rendered_def assumptions_dict_def rendered_action_def action_dict_def rendered_property_def property_entry_def
      property_dict_def)

text \<open>
  C8 (equivalence). The boundary of saved assumptions is fixed and only their decisions are recomputed: against any later conflict
  report the recomputation gives the same actions, properties and roles in the same order with the decisions of that
  report. So a saved plan is found unchanged exactly when every decision in its boundary is what it was, whatever else
  the sources now say; in particular nothing changed when the report did not.
\<close>

theorem recomputed_on_boundary:
  assumes "build_reconciliation_assumptions d0 d1 remote plan report cfg index = Inr A"
    and "\<forall>i \<in> set (vals (ix_by_local_id index)). wf_identity i"
  shows "recompute_assumptions_on_saved_boundary A report = Inr A \<and>
    (\<exists>acts. A = rendered (result_lookup report) acts \<and>
      (\<forall>later. recompute_assumptions_on_saved_boundary A later = Inr (rendered (result_lookup later) acts) \<and>
        (recompute_assumptions_on_saved_boundary A later = Inr A \<longleftrightarrow>
          (\<forall>(t, l, ps) \<in> set acts. \<forall>(i, p, rl) \<in> set ps.
             decision_of (decision_at (result_lookup later) i p) = decision_of (decision_at (result_lookup report) i p)))))"
proof -
  obtain acts where acts: "wf_boundary acts" "A = rendered (result_lookup report) acts" using built_rendered [OF assms] by blast
  have "recompute_assumptions_on_saved_boundary A later = Inr (rendered (result_lookup later) acts)" for later
    unfolding acts(2) by (rule recompute_rendered [OF acts(1)])
  then show ?thesis using acts(2) rendered_eq by (intro conjI exI [of _ acts]) simp_all
qed

section \<open>An example\<close>

definition mini_asset :: "CollibraAttributeSpec list \<Rightarrow> CollibraAssetSpec" where
  "mini_asset attributes = \<lparr>as_local_id = ''db:s/d'', as_name = ''d'', as_asset_type_ref = ''mock:asset-type:database'',
     as_domain_ref = ''mock:domain:governance'', as_display_name = Some ''d'', as_attributes = attributes\<rparr>"

definition mini_local_id :: CollibraAttributeSpec where
  "mini_local_id = \<lparr>at_attribute_type_ref = ''mock:attribute-type:local-id'', at_value = ''db:s/d''\<rparr>"

definition mini_desired :: CollibraDesiredState where
  "mini_desired = \<lparr>des_assets = [mini_asset [mini_local_id]], des_relationships = []\<rparr>"

definition mini_reconciled :: CollibraAssetSpec where
  "mini_reconciled = mini_asset [\<lparr>at_attribute_type_ref = ''mock:attribute-type:description'', at_value = ''core''\<rparr>, mini_local_id]"

definition mini_identity :: GraphNodeIdentity where
  "mini_identity = GraphNodeIdentity ''s'' ''data_source'' ''d'' None"

definition mini_decision :: PropertyConflictResult where
  "mini_decision = mk_conflict_result mini_identity PATH_DESCRIPTION SINGLE_OBSERVATION SingleObservation [] (Some (JStr ''core'')) None"

definition mini_report :: PropertyConflictReport where
  "mini_report = \<lparr>rep_results = [mini_decision]\<rparr>"

definition mini_index :: PhysicalReconciliationIndex where
  "mini_index = \<lparr>ix_by_local_id = [(''db:s/d'', mini_identity)], ix_namespace = ''s''\<rparr>"

definition mini_remote :: CollibraRemoteState where
  "mini_remote = \<lparr>rem_assets = [], rem_relationships = [], rem_unmanaged_assets_ignored = 0, rem_unmanaged_relationships_ignored = 0\<rparr>"

definition mini_overlay :: OverlayResult where
  "mini_overlay = \<lparr>ov_desired = \<lparr>des_assets = [mini_reconciled], des_relationships = []\<rparr>, ov_applied_results = [mini_decision]\<rparr>"

definition mini_action :: SyncAction where
  "mini_action = blank_action\<lparr>sa_action_type := CREATE, sa_local_id := Some ''db:s/d'',
     sa_reason := ''desired asset has no managed remote match'', sa_desired_asset := Some mini_reconciled\<rparr>"

definition mini_assumptions :: json where
  "mini_assumptions = assumptions_dict [action_dict (JStr ''create'') (JStr ''db:s/d'') (JStr ''asset'')
     [property_entry mini_identity PATH_OWNERSHIP (JArray [JStr ''mutation'']) None,
      property_entry mini_identity PATH_DESCRIPTION (JArray [JStr ''mutation'']) (Some mini_decision),
      property_entry mini_identity PATH_NAME (JArray [JStr ''mutation'']) None]]"

lemma mini_overlay_applied: "apply_reconciliation_overlay mini_desired mini_remote mini_report mock_config mini_index = Inr mini_overlay"
  by code_simp

lemma mini_plan: "build_sync_plan (ov_desired mini_overlay) mini_remote = Inr \<lparr>sp_actions = [mini_action]\<rparr>"
  by code_simp

lemma mini_built: "build_reconciliation_assumptions mini_desired (ov_desired mini_overlay) mini_remote
     \<lparr>sp_actions = [mini_action]\<rparr> mini_report mock_config mini_index = Inr mini_assumptions"
  by code_simp

lemma mini_valid: "validate_assumptions_safety mini_assumptions mini_report = Inr ()"
  by code_simp

theorem plan_writes_decided_values_witness:
  "am_safe (assess mini_decision) \<and> field_of mock_config mini_reconciled DescriptionField = Some ''core''"
proof -
  have cfg: "overlay_config mock_config" and d: "closed_state mock_config mini_desired" "list_all overlay_asset (des_assets mini_desired)"
    and idx: "distinct (keys (ix_by_local_id mini_index))" "\<forall>i \<in> set (vals (ix_by_local_id mini_index)). wf_identity i"
    and r: "map_of (result_lookup mini_report) (canonical_bytes mini_identity, to_pointer (path_of DescriptionField)) = Some mini_decision"
    and t: "decided (result_lookup mini_report) mini_identity DescriptionField = Some (text_target DescriptionField ''core'')"
    and i: "map_of (ix_by_local_id mini_index) ''db:s/d'' = Some mini_identity"
      "path_applicable_to_identity (path_of DescriptionField) mini_identity"
    by code_simp+
  have remote: "\<forall>a \<in> set (rem_assets mini_remote). named_remote (Some a) \<and> rm_remote_id a \<noteq> []"
      "\<forall>y \<in> set (rem_relationships mini_remote). rr_remote_id y \<noteq> []"
    by (simp_all add: mini_remote_def)
  have action: "mini_action \<in> set (sp_actions \<lparr>sp_actions = [mini_action]\<rparr>)" "sa_object_kind mini_action = ASSET"
      "sa_local_id mini_action = Some ''db:s/d''" "''db:s/d'' \<noteq> []" "sa_desired_asset mini_action = Some mini_reconciled"
      "sa_action_type mini_action = CREATE"
    by (simp_all add: mini_action_def blank_action_def)
  have "am_safe (assess mini_decision) \<and> (\<exists>t. decided (result_lookup mini_report) mini_identity DescriptionField = Some t \<and>
      field_of mock_config mini_reconciled DescriptionField = new_value mock_config (map_of (remote_by_local_id mini_remote) ''db:s/d'') t)"
    by (rule plan_writes_decided_values [OF cfg d idx remote mini_overlay_applied mini_plan mini_built mini_valid action(1-5) i _ r])
      (simp add: action(6))
  then show ?thesis by (simp add: t new_value_def text_target_def)
qed

theorem recomputed_on_boundary_witness:
  "recompute_assumptions_on_saved_boundary mini_assumptions mini_report = Inr mini_assumptions"
proof -
  have "\<forall>i \<in> set (vals (ix_by_local_id mini_index)). wf_identity i" by code_simp
  then show ?thesis using recomputed_on_boundary [OF mini_built] by blast
qed

end
