(* ===== verification/Saved_Plan.thy ===== *)
theory Saved_Plan
  imports Policy Assumptions Import_Run
begin

text \<open>
  The package \<open>plans\<close>: the saved plan (\<open>plans/models.py\<close>, \<open>plans/build.py\<close>), its loader with the integrity checks
  (\<open>plans/load.py\<close>, \<open>plans/schema.py\<close>, \<open>plans/errors.py\<close>), the identities a plan is bound to
  (\<open>plans/remote_identity.py\<close>, \<open>plans/target_context.py\<close>), and the stale and apply results (\<open>plans/stale.py\<close>,
  \<open>plans/apply_result.py\<close>). SHA-256, the JSON Schema validator, UUID functions and the URL normalizer are parameters; a
  file holds the dictionary that is dumped, not its text.
\<close>

section \<open>Diagnostics\<close>

datatype plan_exception =
    PlanParseError "diagnostic list"
  | PlanSchemaError "diagnostic list"
  | UnsupportedPlanVersionError "diagnostic list"
  | PlanIntegrityError "diagnostic list"
  | PlanRaised error

text \<open>The constructor of \<open>PlanError\<close> sorts its diagnostics; an exception of another class is \<open>PlanRaised\<close>.\<close>

definition plan_errors :: "diagnostic list \<Rightarrow> diagnostic list" where
  "plan_errors errors = sort_key (\<lambda>e. (d_path e, d_code e, d_message e)) errors"

definition lift_raised :: "'a result \<Rightarrow> plan_exception + 'a" where
  "lift_raised r = (case r of Inl e \<Rightarrow> Inl (PlanRaised e) | Inr x \<Rightarrow> Inr x)"

definition diagnostic_dict :: "diagnostic \<Rightarrow> json" where
  "diagnostic_dict e = JObject [(''code'', JStr (d_code e)), (''message'', JStr (d_message e)), (''path'', JStr (d_path e))]"

definition plan_diagnostics_failure :: "diagnostic list \<Rightarrow> json" where
  "plan_diagnostics_failure errors = JObject
     [(''diagnostic_schema'', JStr ''governance-plan-diagnostics''), (''diagnostic_version'', JStr ''1''),
      (''errors'', JArray (map diagnostic_dict (plan_errors errors))), (''ok'', JBool False)]"

lemma lift_raised_Inr [split_result]: "lift_raised r = Inr x \<longleftrightarrow> r = Inr x"
  by (cases r) (simp_all add: lift_raised_def)

lemma lift_raised_simps [simp]: "lift_raised (Inr x) = Inr x" "lift_raised (Inl e) = Inl (PlanRaised e)"
  by (simp_all add: lift_raised_def)

section \<open>The saved plan\<close>

definition PLANNER_CONTRACT_VERSION :: string where "PLANNER_CONTRACT_VERSION = ''1''"
definition PLAN_SCHEMA :: string where "PLAN_SCHEMA = ''governance-plan''"
definition PLAN_VERSION :: string where "PLAN_VERSION = ''1''"
definition PLAN_VERSION_V2 :: string where "PLAN_VERSION_V2 = ''2''"

record SavedGovernancePlan =
  sg_sync_plan :: SyncPlan
  sg_config_identity :: ContentIdentity
  sg_snapshot_identity :: ContentIdentity
  sg_policy_identity :: ContentIdentity
  sg_mapping_identity :: ContentIdentity
  sg_target_context :: "(string, string) dict"
  sg_target_context_identity :: ContentIdentity
  sg_remote_state_identity :: ContentIdentity
  sg_planner_contract_version :: string
  sg_scanner_contract_version :: string
  sg_plan_schema :: string
  sg_plan_version :: string
  sg_reconciliation_assumptions :: "json option"
  sg_reconciliation_assumptions_identity :: "ContentIdentity option"

text \<open>\<open>__post_init__\<close>: a plan of version 2 without assumptions gets the empty ones, and their identity.\<close>

definition mk_saved_plan :: "(string \<Rightarrow> string) \<Rightarrow> SavedGovernancePlan \<Rightarrow> SavedGovernancePlan" where
  "mk_saved_plan sha p =
     (if sg_plan_version p \<noteq> PLAN_VERSION_V2 then p
      else (let assumptions = (case sg_reconciliation_assumptions p of None \<Rightarrow> empty_assumptions | Some a \<Rightarrow> a);
                identity = (case sg_reconciliation_assumptions_identity p of
                  None \<Rightarrow> assumptions_content_identity sha assumptions | Some i \<Rightarrow> i) in
        p\<lparr>sg_reconciliation_assumptions := Some assumptions, sg_reconciliation_assumptions_identity := Some identity\<rparr>))"

definition saved_plan_payload :: "SavedGovernancePlan \<Rightarrow> (string \<times> json) list result" where
  "saved_plan_payload p =
     (let payload = [(''actions'', JArray (map action_to_dict (sp_actions (sg_sync_plan p)))),
        (''config_identity'', content_identity_dict (sg_config_identity p)),
        (''mapping_identity'', content_identity_dict (sg_mapping_identity p)),
        (''plan_schema'', JStr (sg_plan_schema p)), (''plan_version'', JStr (sg_plan_version p)),
        (''planner_contract_version'', JStr (sg_planner_contract_version p)),
        (''policy_identity'', content_identity_dict (sg_policy_identity p)),
        (''remote_state_identity'', content_identity_dict (sg_remote_state_identity p)),
        (''scanner_contract_version'', JStr (sg_scanner_contract_version p)),
        (''snapshot_identity'', content_identity_dict (sg_snapshot_identity p)),
        (''target_context'', JObject (map (\<lambda>(k, v). (k, JStr v)) (sg_target_context p))),
        (''target_context_identity'', content_identity_dict (sg_target_context_identity p))] in
      if sg_plan_version p = PLAN_VERSION_V2
      then (case (sg_reconciliation_assumptions p, sg_reconciliation_assumptions_identity p) of
          (None, _) \<Rightarrow> Inl (ValueError ''reconciliation_assumptions required for plan_version 2'')
        | (_, None) \<Rightarrow> Inl (ValueError ''reconciliation_assumptions_identity required for plan_version 2'')
        | (Some a, Some i) \<Rightarrow> Inr (payload @
            [(''reconciliation_assumptions'', a), (''reconciliation_assumptions_identity'', content_identity_dict i)]))
      else Inr payload)"

definition saved_plan_content_identity :: "(string \<Rightarrow> string) \<Rightarrow> SavedGovernancePlan \<Rightarrow> ContentIdentity result" where
  "saved_plan_content_identity sha p =
     try_in (saved_plan_payload p) (\<lambda>payload. plan_identity sha (sg_plan_version p) (JObject payload))"

definition saved_plan_to_dict :: "(string \<Rightarrow> string) \<Rightarrow> SavedGovernancePlan \<Rightarrow> json result" where
  "saved_plan_to_dict sha p =
     try_in (saved_plan_payload p) (\<lambda>payload.
     try_in (saved_plan_content_identity sha p) (\<lambda>identity.
     Inr (JObject (payload @ [(''content_identity'', content_identity_dict identity)]))))"

section \<open>The JSON Schema check\<close>

text \<open>
  \<open>iter_errors version document\<close> stands for the errors of \<open>Draft202012Validator(load_schema(version))\<close>; beside path and
  validator the code reads their message here. A version that is a list or a mapping has no hash.
\<close>

record PlanValidationError = ValidationError +
  ve_message :: string

definition unsupported_version :: plan_exception where
  "unsupported_version = UnsupportedPlanVersionError
     [diagnostic_error ''unsupported_plan_version'' ''/plan_version'' ''unsupported plan_version'']"

definition validate_plan_structure ::
  "(string \<Rightarrow> json \<Rightarrow> PlanValidationError list) \<Rightarrow> json \<Rightarrow> plan_exception + (string \<times> json) list" where
  "validate_plan_structure iter_errors document =
     (case document of
        JObject kvs \<Rightarrow>
          (case get_item kvs ''plan_version'' of
             JStr version \<Rightarrow>
               if version \<notin> {''1'', ''2''} then Inl unsupported_version
               else (let errors = sort_key (\<lambda>e. map path_item_key (ve_absolute_path e)) (iter_errors version document) in
                 if \<exists>e \<in> set errors. ve_validator e = ''const'' \<and> ve_absolute_path e = [Key ''plan_version'']
                 then Inl unsupported_version
                 else if errors \<noteq> [] then Inl (PlanSchemaError (plan_errors (map (\<lambda>e.
                     diagnostic_error ''schema_validation_failed'' (pointer_from_path (ve_absolute_path e)) (ve_message e)) errors)))
                 else Inr kvs)
           | JArray _ \<Rightarrow> Inl (PlanRaised (TypeError ''unhashable type''))
           | JObject _ \<Rightarrow> Inl (PlanRaised (TypeError ''unhashable type''))
           | _ \<Rightarrow> Inl unsupported_version)
      | _ \<Rightarrow> Inl (PlanSchemaError [diagnostic_error ''schema_validation_failed'' [] ''plan root must be a mapping'']))"

section \<open>Loading\<close>

datatype plan_file = UnreadablePlan | NotUtf8Plan | NotJson | PlanDocument json

fun contains :: "string \<Rightarrow> string \<Rightarrow> bool" where
  "contains needle [] = (needle = [])"
| "contains needle (c # cs) = (startswith needle (c # cs) \<or> contains needle cs)"

definition load_identity :: "json \<Rightarrow> plan_exception + ContentIdentity" where
  "load_identity payload =
     (case payload of
        JObject kvs \<Rightarrow>
          try_in (lift_raised (str_item kvs ''algorithm'')) (\<lambda>a.
          try_in (lift_raised (str_item kvs ''hashing_contract_version'')) (\<lambda>h.
          try_in (lift_raised (str_item kvs ''digest'')) (\<lambda>d.
          Inr \<lparr>ci_algorithm = a, ci_hashing_contract_version = h, ci_digest = d\<rparr>)))
      | _ \<Rightarrow> Inl (PlanSchemaError [diagnostic_error ''malformed_action'' [] ''identity payload must be a mapping'']))"

definition identity_at :: "(string \<times> json) list \<Rightarrow> string \<Rightarrow> plan_exception + ContentIdentity" where
  "identity_at kvs key = try_in (lift_raised (item kvs key)) load_identity"

text \<open>\<open>recomputed.to_dict() != {"algorithm": stored.get("algorithm"), ...}\<close>.\<close>

definition identity_matches :: "ContentIdentity \<Rightarrow> json \<Rightarrow> bool" where
  "identity_matches c stored = (case stored of
     JObject kvs \<Rightarrow> get_item kvs ''algorithm'' = JStr (ci_algorithm c) \<and> get_item kvs ''digest'' = JStr (ci_digest c) \<and>
       get_item kvs ''hashing_contract_version'' = JStr (ci_hashing_contract_version c)
   | _ \<Rightarrow> False)"

definition load_actions :: "(string \<times> json) list \<Rightarrow> plan_exception + SyncPlan" where
  "load_actions kvs =
     try_in (lift_raised (item kvs ''actions'')) (\<lambda>actions.
     case plan_from_dict (JObject [(''actions'', actions)]) of
       Inr plan \<Rightarrow> Inr plan
     | Inl (ValueError message) \<Rightarrow> Inl (PlanSchemaError [diagnostic_error
         (if contains ''unsupported'' (py_lower message) \<or> contains ''DELETE'' message
          then ''unsupported_action_type'' else ''malformed_action'') ''/actions'' ''saved plan actions are invalid''])
     | Inl e \<Rightarrow> Inl (PlanRaised e))"

definition load_assumptions ::
  "(string \<Rightarrow> string) \<Rightarrow> string \<Rightarrow> (string \<times> json) list \<Rightarrow> plan_exception + (json \<times> ContentIdentity) option" where
  "load_assumptions sha version kvs =
     (if version \<noteq> ''2'' then Inr None
      else
        try_in (lift_raised (item kvs ''reconciliation_assumptions'')) (\<lambda>assumptions.
        try_in (identity_at kvs ''reconciliation_assumptions_identity'') (\<lambda>stored.
        if assumptions_content_identity sha assumptions \<noteq> stored
        then Inl (PlanIntegrityError [diagnostic_error ''content_identity_mismatch'' ''/reconciliation_assumptions_identity''
          ''reconciliation assumptions identity mismatch''])
        else Inr (Some (assumptions, stored)))))"

text \<open>\<open>document["target_context"][key]\<close>.\<close>

definition context_item :: "(string \<times> json) list \<Rightarrow> string \<Rightarrow> plan_exception + string" where
  "context_item kvs key =
     try_in (lift_raised (item kvs ''target_context'')) (\<lambda>target.
     case target of JObject ts \<Rightarrow> lift_raised (str_item ts key) | _ \<Rightarrow> Inl (PlanRaised (TypeError ''target_context'')))"

definition from_validated_document :: "(string \<Rightarrow> string) \<Rightarrow> (string \<times> json) list \<Rightarrow> plan_exception + SavedGovernancePlan" where
  "from_validated_document sha kvs =
     try_in (lift_raised (str_item kvs ''plan_version'')) (\<lambda>version.
     try_in (lift_raised (plan_identity sha version (JObject (filter (\<lambda>(k, v). k \<noteq> ''content_identity'') kvs)))) (\<lambda>recomputed.
     if \<not> identity_matches recomputed (get_item kvs ''content_identity'')
     then Inl (PlanIntegrityError [diagnostic_error ''content_identity_mismatch'' ''/content_identity''
       ''saved plan content identity mismatch''])
     else
       try_in (load_actions kvs) (\<lambda>plan.
       try_in (load_assumptions sha version kvs) (\<lambda>assumptions.
       try_in (identity_at kvs ''config_identity'') (\<lambda>config.
       try_in (identity_at kvs ''snapshot_identity'') (\<lambda>snapshot.
       try_in (identity_at kvs ''policy_identity'') (\<lambda>policy.
       try_in (identity_at kvs ''mapping_identity'') (\<lambda>mapping.
       try_in (context_item kvs ''mode'') (\<lambda>mode.
       try_in (context_item kvs ''provider'') (\<lambda>provider.
       try_in (identity_at kvs ''target_context_identity'') (\<lambda>target.
       try_in (identity_at kvs ''remote_state_identity'') (\<lambda>remote.
       try_in (lift_raised (str_item kvs ''planner_contract_version'')) (\<lambda>planner.
       try_in (lift_raised (str_item kvs ''scanner_contract_version'')) (\<lambda>scanner.
       try_in (lift_raised (str_item kvs ''plan_schema'')) (\<lambda>schema.
       Inr (mk_saved_plan sha \<lparr>sg_sync_plan = plan, sg_config_identity = config, sg_snapshot_identity = snapshot,
         sg_policy_identity = policy, sg_mapping_identity = mapping,
         sg_target_context = [(''mode'', mode), (''provider'', provider)], sg_target_context_identity = target,
         sg_remote_state_identity = remote, sg_planner_contract_version = planner, sg_scanner_contract_version = scanner,
         sg_plan_schema = schema, sg_plan_version = version, sg_reconciliation_assumptions = map_option fst assumptions,
         sg_reconciliation_assumptions_identity = map_option snd assumptions\<rparr>))))))))))))))))"

definition load_saved_plan ::
  "(string \<Rightarrow> json \<Rightarrow> PlanValidationError list) \<Rightarrow> (string \<Rightarrow> string) \<Rightarrow> plan_file \<Rightarrow> plan_exception + SavedGovernancePlan" where
  "load_saved_plan iter_errors sha target =
     (case target of
        UnreadablePlan \<Rightarrow> Inl (PlanParseError [diagnostic_error ''parse_error'' [] ''unable to read saved plan file''])
      | NotUtf8Plan \<Rightarrow> Inl (PlanRaised (ValueError ''invalid UTF-8''))
      | NotJson \<Rightarrow> Inl (PlanParseError [diagnostic_error ''parse_error'' [] ''invalid JSON in saved plan file''])
      | PlanDocument document \<Rightarrow>
          try_in (validate_plan_structure iter_errors document) (\<lambda>kvs. from_validated_document sha kvs))"

section \<open>What a plan is bound to\<close>

text \<open>\<open>plans/remote_identity.py\<close>: the managed remote state without the counts of ignored objects.\<close>

definition remote_relationship_key :: "CollibraRemoteRelationship \<Rightarrow> string \<times> string \<times> string \<times> string \<times> string" where
  "remote_relationship_key r = (or_empty (rr_local_key r), rr_source_local_id r, rr_target_local_id r,
     rr_relation_type_ref r, rr_remote_id r)"

definition projected_remote_asset :: "CollibraRemoteAsset \<Rightarrow> json" where
  "projected_remote_asset a = JObject [(''asset_type_ref'', JStr (rm_asset_type_ref a)),
     (''display_name'', opt_to_json (rm_display_name a)), (''domain_ref'', JStr (rm_domain_ref a)),
     (''local_id'', JStr (rm_local_id a)),
     (''managed_attributes'', JArray (map (\<lambda>x. JObject [(''attribute_type_ref'', JStr (ra_attribute_type_ref x)),
        (''value'', JStr (ra_value x))]) (rm_managed_attributes a))),
     (''name'', JStr (rm_name a)), (''remote_id'', JStr (rm_remote_id a))]"

definition projected_remote_relationship :: "CollibraRemoteRelationship \<Rightarrow> json" where
  "projected_remote_relationship r = JObject [(''local_key'', opt_to_json (rr_local_key r)),
     (''relation_type_ref'', JStr (rr_relation_type_ref r)), (''remote_id'', JStr (rr_remote_id r)),
     (''source_local_id'', JStr (rr_source_local_id r)), (''source_remote_id'', JStr (rr_source_remote_id r)),
     (''target_local_id'', JStr (rr_target_local_id r)), (''target_remote_id'', JStr (rr_target_remote_id r))]"

definition remote_state_identity_projection :: "CollibraRemoteState \<Rightarrow> json" where
  "remote_state_identity_projection remote = JObject
     [(''assets'', JArray (map projected_remote_asset (sort_key rm_local_id (rem_assets remote)))),
      (''relationships'', JArray (map projected_remote_relationship (sort_key remote_relationship_key (rem_relationships remote))))]"

definition compute_remote_state_identity_value :: "(string \<Rightarrow> string) \<Rightarrow> CollibraRemoteState \<Rightarrow> ContentIdentity" where
  "compute_remote_state_identity_value sha remote = sha256_identity sha RemoteStateId (remote_state_identity_projection remote)"

text \<open>
  \<open>plans/target_context.py\<close> with the identifiers of \<open>integrations/collibra/synchronization.py\<close>. Of \<open>Settings\<close> these are
  the fields it reads. \<open>endpoint_of\<close> is \<open>normalize_base_url\<close>, \<open>uuid\<close> is \<open>str(UUID(text))\<close> and \<open>uuid5\<close> is
  \<open>str(uuid5(GOV_SYNC_NAMESPACE, key))\<close>.
\<close>

record runtime_settings =
  se_collibra_mode :: string
  se_collibra_base_url :: string
  se_collibra_execution_mode :: string
  se_collibra_synchronization_id :: string
  se_postgres_source_name :: string

record identifier_functions =
  id_endpoint_of :: "string \<Rightarrow> string result"
  id_uuid :: "string \<Rightarrow> string option"
  id_uuid5 :: "string \<Rightarrow> string"

definition derive_synchronization_id :: "identifier_functions \<Rightarrow> string \<Rightarrow> string \<Rightarrow> string \<Rightarrow> string" where
  "derive_synchronization_id ids provider source_name endpoint = id_uuid5 ids (provider @ ''|'' @ source_name @ ''|'' @ endpoint)"

definition effective_synchronization_id :: "identifier_functions \<Rightarrow> runtime_settings \<Rightarrow> string result" where
  "effective_synchronization_id ids settings =
     (let raw = strip (se_collibra_synchronization_id settings) in
      if raw \<noteq> [] then parse_synchronization_id (id_uuid ids) raw
      else
        try_in (if py_lower (strip (se_collibra_mode settings)) = ''live''
          then id_endpoint_of ids (se_collibra_base_url settings) else Inr []) (\<lambda>endpoint.
        Inr (derive_synchronization_id ids ''collibra'' (se_postgres_source_name settings) endpoint)))"

definition mode_error :: error where
  "mode_error = ValueError (''collibra_mode must be '' @ [CHR 0x27] @ ''mock'' @ [CHR 0x27] @ '' or '' @ [CHR 0x27] @ ''live'' @ [CHR 0x27])"

definition build_collibra_target_context_projection ::
  "identifier_functions \<Rightarrow> string \<Rightarrow> string \<Rightarrow> string \<Rightarrow> string \<Rightarrow> string \<Rightarrow> (string \<times> json) list result" where
  "build_collibra_target_context_projection ids mode base_url execution_mode synchronization_id source_name =
     (let normalized_mode = py_lower (strip mode) in
      if normalized_mode \<notin> {''mock'', ''live''} then Inl mode_error
      else
        try_in (if normalized_mode = ''mock'' then Inr [] else id_endpoint_of ids base_url) (\<lambda>endpoint.
        let projection = [(''endpoint'', if normalized_mode = ''mock'' then JNull else JStr endpoint),
              (''mode'', JStr normalized_mode), (''provider'', JStr ''collibra'')];
            execution = strip (if execution_mode = [] then ''core_rest'' else execution_mode) in
        if execution = ''import_v2'' then Inr (projection @ [(''execution'', JStr ''import_v2'')])
        else if execution = ''sync_v2'' then
          try_in (if strip synchronization_id \<noteq> [] then parse_synchronization_id (id_uuid ids) (strip synchronization_id)
                  else Inr (derive_synchronization_id ids ''collibra'' source_name endpoint)) (\<lambda>effective.
          Inr (projection @ [(''execution'', JStr ''sync_v2''), (''effective_synchronization_id'', JStr effective)]))
        else Inr projection))"

definition build_target_context_projection :: "identifier_functions \<Rightarrow> runtime_settings \<Rightarrow> (string \<times> json) list result" where
  "build_target_context_projection ids settings =
     (let execution = se_collibra_execution_mode settings in
      try_in (if execution = ''sync_v2'' then effective_synchronization_id ids settings else Inr []) (\<lambda>sync_id.
      build_collibra_target_context_projection ids (py_lower (strip (se_collibra_mode settings))) (se_collibra_base_url settings)
        execution sync_id (se_postgres_source_name settings)))"

definition target_context_public :: "(string \<times> json) list \<Rightarrow> (string, string) dict result" where
  "target_context_public projection =
     try_in (str_item projection ''mode'') (\<lambda>mode.
     try_in (str_item projection ''provider'') (\<lambda>provider. Inr [(''mode'', mode), (''provider'', provider)]))"

definition target_context_identity :: "(string \<Rightarrow> string) \<Rightarrow> (string \<times> json) list \<Rightarrow> ContentIdentity" where
  "target_context_identity sha projection = sha256_identity sha TargetContextId (JObject projection)"

text \<open>\<open>CollibraMappingConfig.to_identity_dict\<close>.\<close>

definition mapping_identity_dict :: "CollibraMappingConfig \<Rightarrow> json" where
  "mapping_identity_dict c = (let refs = (\<lambda>d. JObject (map (\<lambda>(k, v). (k, JStr v)) (sort_key fst d))) in
     JObject [(''attribute_type_refs'', refs (mc_attribute_type_refs c)), (''asset_type_refs'', refs (mc_asset_type_refs c)),
       (''domain_ref'', JStr (mc_domain_ref c)), (''relation_type_refs'', refs (mc_relation_type_refs c))])"

definition mapping_identity :: "(string \<Rightarrow> string) \<Rightarrow> CollibraMappingConfig \<Rightarrow> ContentIdentity" where
  "mapping_identity sha c = sha256_identity sha MappingId (mapping_identity_dict c)"

text \<open>\<open>plans/build.py\<close>.\<close>

definition build_saved_plan ::
  "(string \<Rightarrow> string) \<Rightarrow> identifier_functions \<Rightarrow> runtime_settings \<Rightarrow> SyncPlan \<Rightarrow> ContentIdentity \<Rightarrow> GovernanceSnapshot \<Rightarrow> NormalizedPolicySet \<Rightarrow>
   CollibraMappingConfig \<Rightarrow> ContentIdentity \<Rightarrow> json option \<Rightarrow> SavedGovernancePlan result" where
  "build_saved_plan sha ids settings plan config snapshot policy_set mapping_config remote_identity reconciliation_assumptions =
     try_in (build_target_context_projection ids settings) (\<lambda>projection.
      let assumptions = (case reconciliation_assumptions of None \<Rightarrow> empty_assumptions | Some a \<Rightarrow> a) in
      try_in (target_context_public projection) (\<lambda>public.
      Inr (mk_saved_plan sha \<lparr>sg_sync_plan = plan, sg_config_identity = config,
        sg_snapshot_identity = snapshot_content_identity sha snapshot, sg_policy_identity = policy_identity sha policy_set,
        sg_mapping_identity = mapping_identity sha mapping_config, sg_target_context = public,
        sg_target_context_identity = target_context_identity sha projection, sg_remote_state_identity = remote_identity,
        sg_planner_contract_version = PLANNER_CONTRACT_VERSION, sg_scanner_contract_version = SCANNER_CONTRACT_VERSION,
        sg_plan_schema = PLAN_SCHEMA, sg_plan_version = PLAN_VERSION_V2, sg_reconciliation_assumptions = Some assumptions,
        sg_reconciliation_assumptions_identity = Some (assumptions_content_identity sha assumptions)\<rparr>)))"

section \<open>Stale and apply results\<close>

record mismatch =
  mi_category :: string
  mi_kind :: string
  mi_message :: string
  mi_expected :: json
  mi_observed :: json

definition identity_mismatch :: "string \<Rightarrow> ContentIdentity \<Rightarrow> ContentIdentity \<Rightarrow> string \<Rightarrow> mismatch" where
  "identity_mismatch category expected observed message = \<lparr>mi_category = category, mi_kind = ''identity'', mi_message = message,
     mi_expected = content_identity_dict expected, mi_observed = content_identity_dict observed\<rparr>"

definition version_mismatch :: "string \<Rightarrow> string \<Rightarrow> string \<Rightarrow> string \<Rightarrow> mismatch" where
  "version_mismatch category expected observed message = \<lparr>mi_category = category, mi_kind = ''version'', mi_message = message,
     mi_expected = JStr expected, mi_observed = JStr observed\<rparr>"

text \<open>The names of the members depend on the kind: \<open>expected_identity\<close> or \<open>expected_version\<close>.\<close>

definition mismatch_dict :: "mismatch \<Rightarrow> json" where
  "mismatch_dict m = JObject [(''category'', JStr (mi_category m)), (''expected_'' @ mi_kind m, mi_expected m),
     (''kind'', JStr (mi_kind m)), (''message'', JStr (mi_message m)), (''observed_'' @ mi_kind m, mi_observed m)]"

definition build_stale_result :: "mismatch list \<Rightarrow> json" where
  "build_stale_result mismatches = JObject
     [(''mismatches'', JArray (map mismatch_dict (sort_key (\<lambda>m. (mi_category m, mi_kind m, mi_message m)) mismatches))),
      (''result_schema'', JStr ''governance-stale-plan-result''), (''result_version'', JStr ''1''), (''stale'', JBool True)]"

definition build_apply_result :: "SyncPlan \<Rightarrow> SyncResult \<Rightarrow> ContentIdentity \<Rightarrow> json" where
  "build_apply_result plan r plan_content_identity = JObject
     [(''action_counts'', JObject [(''create'', JInt (int (length (plan_of_type CREATE plan)))),
        (''remote_only'', JInt (int (length (plan_of_type REMOTE_ONLY plan)))),
        (''unchanged'', JInt (int (length (plan_of_type UNCHANGED plan)))),
        (''update'', JInt (int (length (plan_of_type UPDATE plan))))]),
      (''applied_count'', JInt (int (sr_applied_count r))), (''dry_run'', JBool (sr_dry_run r)), (''error'', opt_to_json (sr_error r)),
      (''failed_action'', (case sr_failed_action r of None \<Rightarrow> JNull | Some a \<Rightarrow> action_to_dict a)),
      (''plan_content_identity'', content_identity_dict plan_content_identity),
      (''result_schema'', JStr ''governance-apply-result''), (''result_version'', JStr ''1''), (''stale'', JBool False),
      (''success'', JBool (sr_success r)), (''unchanged_count'', JInt (int (sr_unchanged_count r)))]"

section \<open>Saved plans are read back\<close>

definition wf_saved_plan :: "(string \<Rightarrow> string) \<Rightarrow> SavedGovernancePlan \<Rightarrow> bool" where
  "wf_saved_plan sha p \<longleftrightarrow> wf_sync_plan (sg_sync_plan p) \<and> keys (sg_target_context p) = [''mode'', ''provider''] \<and>
     (if sg_plan_version p = PLAN_VERSION_V2
      then (case sg_reconciliation_assumptions p of None \<Rightarrow> False
        | Some a \<Rightarrow> sg_reconciliation_assumptions_identity p = Some (assumptions_content_identity sha a))
      else sg_plan_version p = PLAN_VERSION \<and> sg_reconciliation_assumptions p = None \<and>
        sg_reconciliation_assumptions_identity p = None)"

lemmas plan_constants = PLAN_VERSION_V2_def PLAN_VERSION_def

lemma load_identity_dict [simp]: "load_identity (content_identity_dict c) = Inr c"
  by (simp add: load_identity_def content_identity_dict_def str_item_def item_def)

lemma identity_at_dict: "map_of kvs key = Some (content_identity_dict c) \<Longrightarrow> identity_at kvs key = Inr c"
  by (simp add: identity_at_def item_def)

lemma identity_matches_dict [simp]: "identity_matches c (content_identity_dict c)"
  by (simp add: identity_matches_def content_identity_dict_def get_item_def)

lemma load_actions_dict:
  "wf_sync_plan p \<Longrightarrow> map_of kvs ''actions'' = Some (JArray (map action_to_dict (sp_actions p))) \<Longrightarrow> load_actions kvs = Inr p"
  using plan_roundtrip [of p] by (simp add: load_actions_def item_def plan_to_dict_def)

lemma mk_saved_plan_wf: "wf_saved_plan sha p \<Longrightarrow> mk_saved_plan sha p = p"
  by (cases p) (auto simp: wf_saved_plan_def mk_saved_plan_def Let_def split: option.splits if_splits)

lemma saved_plan_payload_keys:
  assumes "saved_plan_payload p = Inr kvs" shows "''content_identity'' \<notin> set (keys kvs)" "distinct (keys kvs)"
  using assms by (auto simp: saved_plan_payload_def Let_def split: if_splits option.splits)

lemma saved_plan_dict:
  assumes "wf_saved_plan sha p"
  shows "\<exists>kvs c. saved_plan_payload p = Inr kvs \<and> plan_identity sha (sg_plan_version p) (JObject kvs) = Inr c \<and>
    saved_plan_content_identity sha p = Inr c \<and>
    saved_plan_to_dict sha p = Inr (JObject (kvs @ [(''content_identity'', content_identity_dict c)]))"
proof -
  obtain kvs where kvs: "saved_plan_payload p = Inr kvs"
    using assms by (auto simp: wf_saved_plan_def saved_plan_payload_def Let_def split: option.splits if_splits)
  moreover obtain c where "plan_identity sha (sg_plan_version p) (JObject kvs) = Inr c"
    using assms by (auto simp: wf_saved_plan_def plan_identity_def plan_constants split: if_splits)
  ultimately show ?thesis by (simp add: saved_plan_to_dict_def saved_plan_content_identity_def)
qed

lemma saved_plan_eta:
  "\<lparr>sg_sync_plan = sg_sync_plan p, sg_config_identity = sg_config_identity p, sg_snapshot_identity = sg_snapshot_identity p,
     sg_policy_identity = sg_policy_identity p, sg_mapping_identity = sg_mapping_identity p, sg_target_context = sg_target_context p,
     sg_target_context_identity = sg_target_context_identity p, sg_remote_state_identity = sg_remote_state_identity p,
     sg_planner_contract_version = sg_planner_contract_version p, sg_scanner_contract_version = sg_scanner_contract_version p,
     sg_plan_schema = sg_plan_schema p, sg_plan_version = sg_plan_version p,
     sg_reconciliation_assumptions = sg_reconciliation_assumptions p,
     sg_reconciliation_assumptions_identity = sg_reconciliation_assumptions_identity p\<rparr> = p"
  by simp

lemma read_saved_plan:
  assumes wf: "wf_saved_plan sha p" and d: "saved_plan_to_dict sha p = Inr d" and valid: "iter_errors (sg_plan_version p) d = []"
  shows "load_saved_plan iter_errors sha (PlanDocument d) = Inr p"
proof -
  obtain kvs c where *: "saved_plan_payload p = Inr kvs"
      "plan_identity sha (sg_plan_version p) (JObject kvs) = Inr c" "d = JObject (kvs @ [(''content_identity'', content_identity_dict c)])"
    using saved_plan_dict [OF wf] d by auto
  define whole where "whole = kvs @ [(''content_identity'', content_identity_dict c)]"
  have version: "sg_plan_version p \<in> {''1'', ''2''}" using wf by (auto simp: wf_saved_plan_def plan_constants split: if_splits)
  have at: "map_of whole k = Some v" if "map_of kvs k = Some v" for k v using that by (simp add: whole_def map_add_def)
  note parts = *(1) [unfolded saved_plan_payload_def Let_def]
  have found: "map_of whole ''actions'' = Some (JArray (map action_to_dict (sp_actions (sg_sync_plan p))))"
      "map_of whole ''config_identity'' = Some (content_identity_dict (sg_config_identity p))"
      "map_of whole ''mapping_identity'' = Some (content_identity_dict (sg_mapping_identity p))"
      "map_of whole ''plan_schema'' = Some (JStr (sg_plan_schema p))" "map_of whole ''plan_version'' = Some (JStr (sg_plan_version p))"
      "map_of whole ''planner_contract_version'' = Some (JStr (sg_planner_contract_version p))"
      "map_of whole ''policy_identity'' = Some (content_identity_dict (sg_policy_identity p))"
      "map_of whole ''remote_state_identity'' = Some (content_identity_dict (sg_remote_state_identity p))"
      "map_of whole ''scanner_contract_version'' = Some (JStr (sg_scanner_contract_version p))"
      "map_of whole ''snapshot_identity'' = Some (content_identity_dict (sg_snapshot_identity p))"
      "map_of whole ''target_context'' = Some (JObject (map (\<lambda>(k, v). (k, JStr v)) (sg_target_context p)))"
      "map_of whole ''target_context_identity'' = Some (content_identity_dict (sg_target_context_identity p))"
    using parts by (auto intro!: at split: if_splits option.splits)
  have rest: "filter (\<lambda>(k, v). k \<noteq> ''content_identity'') whole = kvs"
    using saved_plan_payload_keys(1) [OF *(1)] by (force simp: whole_def filter_id_conv)
  have stored: "get_item whole ''content_identity'' = content_identity_dict c"
    using saved_plan_payload_keys(1) [OF *(1)] map_of_eq_None_iff [of kvs "''content_identity''"]
    by (simp add: whole_def get_item_def map_add_def)
  obtain m q where ctx: "sg_target_context p = [(''mode'', m), (''provider'', q)]"
    using wf by (cases "sg_target_context p" rule: list.exhaust)
      (auto simp: wf_saved_plan_def neq_Nil_conv length_Suc_conv Cons_eq_map_conv)
  have contexts: "context_item whole ''mode'' = Inr m" "context_item whole ''provider'' = Inr q"
    by (simp_all add: context_item_def item_def found(11) ctx str_item_def)
  let ?found = "map_option (\<lambda>a. (a, assumptions_content_identity sha a)) (sg_reconciliation_assumptions p)"
  have assumptions: "load_assumptions sha (sg_plan_version p) whole = Inr ?found"
  proof (cases "sg_plan_version p = PLAN_VERSION_V2")
    case True
    then obtain a where a: "sg_reconciliation_assumptions p = Some a"
        "sg_reconciliation_assumptions_identity p = Some (assumptions_content_identity sha a)"
      using wf by (auto simp: wf_saved_plan_def split: option.splits)
    then have "map_of whole ''reconciliation_assumptions'' = Some a"
        "map_of whole ''reconciliation_assumptions_identity'' = Some (content_identity_dict (assumptions_content_identity sha a))"
      using parts True by (auto intro!: at)
    then show ?thesis using True a by (simp add: load_assumptions_def plan_constants item_def identity_at_dict)
  next
    case False
    then show ?thesis using wf by (simp add: wf_saved_plan_def load_assumptions_def plan_constants)
  qed
  have same: "map_option fst ?found = sg_reconciliation_assumptions p" "map_option snd ?found = sg_reconciliation_assumptions_identity p"
    using wf by (auto simp: wf_saved_plan_def split: option.splits if_splits)
  have actions: "load_actions whole = Inr (sg_sync_plan p)"
    using wf by (intro load_actions_dict found(1)) (simp add: wf_saved_plan_def)
  have "from_validated_document sha whole = Inr (mk_saved_plan sha p)"
    unfolding from_validated_document_def rest stored
    by (simp add: str_item_def item_def found identity_at_dict *(2) actions assumptions contexts ctx [symmetric] same saved_plan_eta
        del: option.map_comp)
  then show ?thesis
    using version valid mk_saved_plan_wf [OF wf]
    by (auto simp: load_saved_plan_def validate_plan_structure_def *(3) whole_def [symmetric] get_item_def found(5))
qed

text \<open>What the loader lets through.\<close>

lemma load_identity_str: "load_identity v = Inr c \<Longrightarrow> \<exists>kvs. v = JObject kvs"
  by (cases v) (simp_all add: load_identity_def)

lemma load_actions_wf: "load_actions kvs = Inr plan \<Longrightarrow> wf_sync_plan plan"
proof -
  assume "load_actions kvs = Inr plan"
  then obtain actions where *: "(case plan_from_dict (JObject [(''actions'', actions)]) of
       Inr plan \<Rightarrow> Inr plan
     | Inl (ValueError message) \<Rightarrow> Inl (PlanSchemaError [diagnostic_error
         (if contains ''unsupported'' (py_lower message) \<or> contains ''DELETE'' message
          then ''unsupported_action_type'' else ''malformed_action'') ''/actions'' ''saved plan actions are invalid''])
     | Inl e \<Rightarrow> Inl (PlanRaised e)) = Inr plan"
    unfolding load_actions_def split_result by blast
  then show ?thesis
  proof (cases "plan_from_dict (JObject [(''actions'', actions)])")
    case (Inl e)
    then show ?thesis using * by (cases e) simp_all
  next
    case (Inr q)
    then show ?thesis using * plan_from_dict_wf by simp
  qed
qed

lemma plan_identity_Inr:
  "plan_identity sha version v = Inr c \<longleftrightarrow>
   (\<exists>k. (version, k) \<in> {(''1'', PlanId), (''2'', PlanV2Id)} \<and> c = sha256_identity sha k v)"
  by (auto simp: plan_identity_def)

lemma loaded_saved_plan:
  assumes "load_saved_plan iter_errors sha target = Inr p"
  shows "\<exists>kvs k. target = PlanDocument (JObject kvs) \<and> wf_saved_plan sha p \<and>
    get_item kvs ''plan_version'' = JStr (sg_plan_version p) \<and>
    (sg_plan_version p, k) \<in> {(''1'', PlanId), (''2'', PlanV2Id)} \<and> load_actions kvs = Inr (sg_sync_plan p) \<and>
    identity_matches (sha256_identity sha k (JObject (filter (\<lambda>(k, v). k \<noteq> ''content_identity'') kvs))) (get_item kvs ''content_identity'')"
proof -
  from assms obtain v kvs where v: "target = PlanDocument v" "validate_plan_structure iter_errors v = Inr kvs"
      "from_validated_document sha kvs = Inr p"
    by (auto simp: load_saved_plan_def split_result split: plan_file.splits)
  from v(2) obtain version where vk: "v = JObject kvs" "get_item kvs ''plan_version'' = JStr version"
    by (auto simp: validate_plan_structure_def Let_def split: json.splits if_splits)
  have str: "str_item kvs ''plan_version'' = Inr version"
    using vk(2) by (auto simp: str_item_def item_def get_item_def split: option.splits)
  note opened = v(3) [unfolded from_validated_document_def str lift_raised_simps try_in_simps]
  obtain k where k: "(version, k) \<in> {(''1'', PlanId), (''2'', PlanV2Id)}"
      "identity_matches (sha256_identity sha k (JObject (filter (\<lambda>(k, v). k \<noteq> ''content_identity'') kvs))) (get_item kvs ''content_identity'')"
    using opened by (auto simp: split_result plan_identity_Inr split: if_splits)
  obtain plan assumptions q where q: "load_actions kvs = Inr plan" "load_assumptions sha version kvs = Inr assumptions"
      "p = mk_saved_plan sha q" "sg_sync_plan q = plan" "sg_plan_version q = version"
      "sg_reconciliation_assumptions q = map_option fst assumptions"
      "sg_reconciliation_assumptions_identity q = map_option snd assumptions"
      "keys (sg_target_context q) = [''mode'', ''provider'']"
    using opened by (auto simp: split_result split: if_splits)
  have same: "sg_sync_plan p = plan" "sg_plan_version p = version" "sg_target_context p = sg_target_context q"
    using q(3-5) by (auto simp: mk_saved_plan_def Let_def)
  have "wf_saved_plan sha p"
  proof (cases "version = ''2''")
    case True
    then obtain a where "assumptions = Some (a, assumptions_content_identity sha a)"
      using q(2) by (auto simp: load_assumptions_def split_result split: if_splits)
    then have "sg_reconciliation_assumptions p = Some a" "sg_reconciliation_assumptions_identity p = Some (assumptions_content_identity sha a)"
      using q True by (simp_all add: mk_saved_plan_def plan_constants)
    then show ?thesis using q same True load_actions_wf by (auto simp: wf_saved_plan_def plan_constants)
  next
    case False
    then have "assumptions = None" "version = ''1''" using q(2) k(1) by (auto simp: load_assumptions_def)
    then show ?thesis using q same load_actions_wf by (auto simp: wf_saved_plan_def plan_constants mk_saved_plan_def)
  qed
  then show ?thesis using v(1) vk k q(1) same by auto
qed

lemma identity_matches_digest:
  "identity_matches (sha256_identity sha k v) stored \<Longrightarrow> identity_matches (sha256_identity sha l w) stored \<Longrightarrow>
   sha (identity_preimage k v) = sha (identity_preimage l w)"
  by (auto simp: identity_matches_def sha256_identity_def split: json.splits)

lemma wf_json_filter: "wf_json (JObject kvs) \<Longrightarrow> wf_json (JObject (filter P kvs))"
  by (auto simp: distinct_map_filter list_all_iff)

lemma canon_object_length: "canon (JObject xs) = canon (JObject ys) \<Longrightarrow> length xs = length ys"
proof -
  assume "canon (JObject xs) = canon (JObject ys)"
  then have "length (sort_key fst (map (\<lambda>(k, v). (k, canon v)) xs)) = length (sort_key fst (map (\<lambda>(k, v). (k, canon v)) ys))"
    by simp
  then show ?thesis by simp
qed

section \<open>Integrity of saved plans\<close>

definition payload_of :: "(string \<times> json) list \<Rightarrow> json" where
  "payload_of kvs = JObject (filter (\<lambda>(k, v). k \<noteq> ''content_identity'') kvs)"

lemma load_actions_delete:
  assumes "get_item kvs ''actions'' = JArray raw" "JObject a \<in> set raw" "get_item a ''action_type'' = JStr ''delete''"
  shows "load_actions kvs \<noteq> Inr plan"
proof
  assume *: "load_actions kvs = Inr plan"
  have "item kvs ''actions'' = Inr (JArray raw)" using assms(1) by (auto simp: item_def get_item_def split: option.splits)
  moreover obtain e where "plan_from_dict (JObject [(''actions'', JArray raw)]) = Inl e"
    using delete_actions_refused [of "[(''actions'', JArray raw)]" raw a] assms(2,3)
    by (auto simp: get_item_def isl_def)
  ultimately show False using * by (cases e) (simp_all add: load_actions_def)
qed

lemma tampered_plan_refused:
  assumes loaded: "load_saved_plan iter_errors sha (PlanDocument (JObject kvs)) = Inr p"
    and wf: "wf_json (JObject kvs)" "wf_json (JObject kvs')"
    and same: "get_item kvs' ''content_identity'' = get_item kvs ''content_identity''"
    and changed: "canon (payload_of kvs') \<noteq> canon (payload_of kvs)"
    and sha: "\<forall>k l. sha (identity_preimage k (payload_of kvs')) = sha (identity_preimage l (payload_of kvs)) \<longrightarrow>
      identity_preimage k (payload_of kvs') = identity_preimage l (payload_of kvs)"
  shows "load_saved_plan iter_errors sha (PlanDocument (JObject kvs')) \<noteq> Inr p'"
proof
  assume loaded': "load_saved_plan iter_errors sha (PlanDocument (JObject kvs')) = Inr p'"
  obtain k where k: "identity_matches (sha256_identity sha k (payload_of kvs)) (get_item kvs ''content_identity'')"
    using loaded_saved_plan [OF loaded] by (auto simp: payload_of_def)
  obtain l where l: "identity_matches (sha256_identity sha l (payload_of kvs')) (get_item kvs' ''content_identity'')"
    using loaded_saved_plan [OF loaded'] by (auto simp: payload_of_def)
  have "sha (identity_preimage l (payload_of kvs')) = sha (identity_preimage k (payload_of kvs))"
    using identity_matches_digest l k unfolding same by blast
  then have "identity_preimage l (payload_of kvs') = identity_preimage k (payload_of kvs)" using sha by blast
  moreover have "wf_json (payload_of kvs')" "wf_json (payload_of kvs)"
    using wf wf_json_filter unfolding payload_of_def by blast+
  ultimately show False using changed identity_preimage_eq_iff by blast
qed

text \<open>
  C3 (roundtrip). A saved plan and its file: a plan whose actions, context and assumptions are in order has a dictionary, and
  if that dictionary passes the JSON Schema it is loaded back as the very same plan, assumptions and identities
  included. Every plan the loader returns is such a plan, so loading, saving and loading again changes nothing.
\<close>

theorem saved_plan_file_roundtrip:
  assumes "wf_saved_plan sha p \<or> load_saved_plan iter_errors sha target = Inr p"
  shows "wf_saved_plan sha p \<and> (\<exists>d. saved_plan_to_dict sha p = Inr d \<and>
    (iter_errors (sg_plan_version p) d = [] \<longrightarrow> load_saved_plan iter_errors sha (PlanDocument d) = Inr p))"
proof -
  have wf: "wf_saved_plan sha p" using assms loaded_saved_plan by blast
  then obtain d where "saved_plan_to_dict sha p = Inr d" using saved_plan_dict by blast
  then show ?thesis using wf read_saved_plan [OF wf] by blast
qed

text \<open>
  C4 (error). What the loader refuses. First, if a file loads, then a file with the same stored content identity and another
  payload does not load, unless SHA-256 collides on the two payloads (both files being JSON objects without repeated keys). Second, a
  file with a delete action never loads, whatever the rest of it says.
\<close>

theorem saved_plan_refused:
  "(\<forall>kvs kvs' p. load_saved_plan iter_errors sha (PlanDocument (JObject kvs)) = Inr p \<longrightarrow>
      wf_json (JObject kvs) \<longrightarrow> wf_json (JObject kvs') \<longrightarrow>
      get_item kvs' ''content_identity'' = get_item kvs ''content_identity'' \<longrightarrow>
      canon (payload_of kvs') \<noteq> canon (payload_of kvs) \<longrightarrow>
      (\<forall>k l. sha (identity_preimage k (payload_of kvs')) = sha (identity_preimage l (payload_of kvs)) \<longrightarrow>
        identity_preimage k (payload_of kvs') = identity_preimage l (payload_of kvs)) \<longrightarrow>
      isl (load_saved_plan iter_errors sha (PlanDocument (JObject kvs')))) \<and>
   (\<forall>kvs raw a. get_item kvs ''actions'' = JArray raw \<longrightarrow> JObject a \<in> set raw \<longrightarrow> get_item a ''action_type'' = JStr ''delete'' \<longrightarrow>
      isl (load_saved_plan iter_errors sha (PlanDocument (JObject kvs))))"
proof (intro conjI allI impI)
  fix kvs kvs' p
  assume *: "load_saved_plan iter_errors sha (PlanDocument (JObject kvs)) = Inr p" "wf_json (JObject kvs)" "wf_json (JObject kvs')"
    "get_item kvs' ''content_identity'' = get_item kvs ''content_identity''" "canon (payload_of kvs') \<noteq> canon (payload_of kvs)"
    "\<forall>k l. sha (identity_preimage k (payload_of kvs')) = sha (identity_preimage l (payload_of kvs)) \<longrightarrow>
      identity_preimage k (payload_of kvs') = identity_preimage l (payload_of kvs)"
  show "isl (load_saved_plan iter_errors sha (PlanDocument (JObject kvs')))"
    using tampered_plan_refused [OF *] by (cases "load_saved_plan iter_errors sha (PlanDocument (JObject kvs'))") auto
next
  fix kvs raw a
  assume "get_item kvs ''actions'' = JArray raw" "JObject a \<in> set raw" "get_item a ''action_type'' = JStr ''delete''"
  then show "isl (load_saved_plan iter_errors sha (PlanDocument (JObject kvs)))"
    using loaded_saved_plan load_actions_delete
    by (cases "load_saved_plan iter_errors sha (PlanDocument (JObject kvs))") (simp, blast)
qed

section \<open>An example\<close>

definition example_identity :: "string \<Rightarrow> ContentIdentity" where
  "example_identity d = \<lparr>ci_algorithm = ''sha256'', ci_hashing_contract_version = ''1'', ci_digest = d\<rparr>"

definition example_saved :: SavedGovernancePlan where
  "example_saved = mk_saved_plan (\<lambda>s. s) \<lparr>sg_sync_plan = \<lparr>sp_actions = [mini_action]\<rparr>, sg_config_identity = example_identity ''a'',
     sg_snapshot_identity = example_identity ''b'', sg_policy_identity = example_identity ''c'',
     sg_mapping_identity = example_identity ''d'', sg_target_context = [(''mode'', ''mock''), (''provider'', ''collibra'')],
     sg_target_context_identity = example_identity ''e'', sg_remote_state_identity = example_identity ''f'',
     sg_planner_contract_version = PLANNER_CONTRACT_VERSION, sg_scanner_contract_version = SCANNER_CONTRACT_VERSION,
     sg_plan_schema = PLAN_SCHEMA, sg_plan_version = PLAN_VERSION_V2, sg_reconciliation_assumptions = None,
     sg_reconciliation_assumptions_identity = None\<rparr>"

definition example_members :: "(string \<times> json) list" where
  "example_members = (case saved_plan_to_dict (\<lambda>s. s) example_saved of Inr (JObject kvs) \<Rightarrow> kvs | _ \<Rightarrow> [])"

lemma example_saved_wf: "wf_saved_plan (\<lambda>s. s) example_saved"
  by code_simp

lemma example_saved_dict: "saved_plan_to_dict (\<lambda>s. s) example_saved = Inr (JObject example_members)"
  using saved_plan_dict [OF example_saved_wf] by (auto simp: example_members_def)

lemma example_members_wf:
  "wf_json (JObject example_members)" "''note'' \<notin> set (keys example_members)"
proof -
  obtain kvs c where *: "saved_plan_payload example_saved = Inr kvs"
      "example_members = kvs @ [(''content_identity'', content_identity_dict c)]"
    using saved_plan_dict [OF example_saved_wf] example_saved_dict by auto
  have identities: "wf_json (content_identity_dict i)" for i by (simp add: content_identity_dict_def)
  have "wf_json (action_to_dict mini_action)" "wf_json empty_assumptions" by code_simp+
  then have "list_all (\<lambda>(k, v). wf_json v) kvs" "''note'' \<notin> set (keys kvs)"
    using *(1) identities
    by (auto simp: saved_plan_payload_def Let_def example_saved_def mk_saved_plan_def plan_constants)
  then show "wf_json (JObject example_members)" "''note'' \<notin> set (keys example_members)"
    using saved_plan_payload_keys [OF *(1)] identities by (auto simp: *(2))
qed

theorem saved_plan_file_roundtrip_witness:
  "load_saved_plan (\<lambda>_ _. []) (\<lambda>s. s) (PlanDocument (JObject example_members)) = Inr example_saved"
  using saved_plan_file_roundtrip [OF disjI1 [OF example_saved_wf], of "\<lambda>_ _. []"] example_saved_dict by auto

theorem saved_plan_refused_witness:
  "isl (load_saved_plan (\<lambda>_ _. []) (\<lambda>s. s) (PlanDocument (JObject ((''note'', JNull) # example_members)))) \<and>
   isl (load_saved_plan (\<lambda>_ _. []) (\<lambda>s. s) (PlanDocument (JObject ((''actions'', JArray [JObject [(''action_type'', JStr ''delete'')]]) #
     filter (\<lambda>(k, v). k \<noteq> ''actions'') example_members))))"
proof -
  note refused = saved_plan_refused [of "\<lambda>_ _. []" "\<lambda>s. s"]
  have loaded: "load_saved_plan (\<lambda>_ _. []) (\<lambda>s. s) (PlanDocument (JObject example_members)) = Inr example_saved"
    using read_saved_plan [OF example_saved_wf example_saved_dict] by simp
  have wf: "wf_json (JObject ((''note'', JNull) # example_members))" using example_members_wf by simp
  have "length (filter (\<lambda>(k, v). k \<noteq> ''content_identity'') ((''note'', JNull) # example_members)) \<noteq>
      length (filter (\<lambda>(k, v). k \<noteq> ''content_identity'') example_members)" by simp
  then have changed: "canon (payload_of ((''note'', JNull) # example_members)) \<noteq> canon (payload_of example_members)"
    unfolding payload_of_def by (rule contrapos_nn) (rule canon_object_length)
  have same: "get_item ((''note'', JNull) # example_members) ''content_identity'' = get_item example_members ''content_identity''"
    by (simp add: get_item_def)
  have "isl (load_saved_plan (\<lambda>_ _. []) (\<lambda>s. s) (PlanDocument (JObject ((''note'', JNull) # example_members))))"
    using conjunct1 [OF refused, rule_format, OF loaded example_members_wf(1) wf same changed] by blast
  moreover have "isl (load_saved_plan (\<lambda>_ _. []) (\<lambda>s. s) (PlanDocument (JObject ((''actions'', JArray [JObject [(''action_type'', JStr ''delete'')]]) #
     filter (\<lambda>(k, v). k \<noteq> ''actions'') example_members))))"
    by (rule conjunct2 [OF refused, rule_format, of _ "[JObject [(''action_type'', JStr ''delete'')]]" "[(''action_type'', JStr ''delete'')]"])
      (simp_all add: get_item_def)
  ultimately show ?thesis ..
qed

end
