(* ===== verification/Lifecycle.thy ===== *)
theory Lifecycle
  imports Saved_Plan Convergence
begin

text \<open>
  The commands \<open>governance plan\<close> and \<open>governance apply\<close> (\<open>_cmd_plan_generate\<close> and \<open>_cmd_apply\<close> of \<open>cli.py\<close>): how the
  components are composed, in the order of the code, with every early return. What the two commands get from
  parts that are not modelled (the configuration and its environment, the metadata source, the providers of
  observations, the target adapter and the plan file) is a record of functions, the \<open>host\<close>. The theorems: only a
  plan whose every assumption still holds is executed, and a generated plan is executed as it was generated as long
  as what it rests on stays the same.
\<close>

section \<open>Outcomes\<close>

text \<open>How a command ends; \<open>Raised\<close> is an exception that \<open>main\<close> handles.\<close>

datatype 'r outcome =
    UsageError string
  | PlanRefused plan_exception
  | ConfigRefused error
  | PolicyRefused policy_exception
  | ReconciliationRefused error
  | Operational error
  | PolicyGateClosed json
  | Stale json
  | Planned SavedGovernancePlan json
  | Completed bool ContentIdentity 'r
  | Raised error

fun is_operational_error :: "error \<Rightarrow> bool" where
  "is_operational_error (ValueError _) = True"
| "is_operational_error (MappingError _) = True"
| "is_operational_error (BatchingError _) = True"
| "is_operational_error (ImportCompileError _) = True"
| "is_operational_error (ImportCollisionError _) = True"
| "is_operational_error (AdapterError _ _) = True"
| "is_operational_error (Diagnostics kind _) = (kind \<in> {''MetadataDiscoveryError'', ''InventoryExportError'',
     ''SnapshotCompatibilityError'', ''SnapshotIntegrityError'', ''SnapshotIOError''})"
| "is_operational_error _ = False"

fun is_adapter_error :: "error \<Rightarrow> bool" where
  "is_adapter_error (BatchingError _) = True"
| "is_adapter_error (ImportCompileError _) = True"
| "is_adapter_error (ImportCollisionError _) = True"
| "is_adapter_error (AdapterError _ _) = True"
| "is_adapter_error _ = False"

fun raised_as :: "string \<Rightarrow> error \<Rightarrow> bool" where
  "raised_as kind (Diagnostics k _) = (k = kind)"
| "raised_as kind _ = False"

definition CONFIG_ERRORS :: "string list" where
  "CONFIG_ERRORS = [''ConfigContractError'', ''ConfigParseError'', ''ConfigSchemaError'', ''ConfigSemanticError'',
     ''UnsupportedConfigVersionError'', ''AuthorityError'', ''ConfigResolutionError'']"

text \<open>The exit code of \<open>main\<close>: an uncaught configuration error keeps its own code, any other exception ends with 1.\<close>

fun exit_code :: "'r outcome \<Rightarrow> nat" where
  "exit_code (UsageError _) = 2"
| "exit_code (PlanRefused _) = 4"
| "exit_code (ConfigRefused _) = 4"
| "exit_code (PolicyRefused _) = 4"
| "exit_code (ReconciliationRefused _) = 4"
| "exit_code (Operational _) = 1"
| "exit_code (PolicyGateClosed _) = 3"
| "exit_code (Stale _) = 5"
| "exit_code (Planned _ _) = 0"
| "exit_code (Completed success _ _) = (if success then 0 else 1)"
| "exit_code (Raised e) = (if raised_as ''ConfigSemanticError'' e then 4 else 1)"

text \<open>A call inside a \<open>try\<close>: its exception becomes the outcome the handlers give it.\<close>

definition handling :: "(error \<Rightarrow> 'r outcome) \<Rightarrow> 'a result \<Rightarrow> 'r outcome + 'a" where
  "handling f r = (case r of Inl e \<Rightarrow> Inl (f e) | Inr x \<Rightarrow> Inr x)"

lemma handling_simps [simp]: "handling f (Inr x) = Inr x" "handling f (Inl e) = Inl (f e)"
  by (simp_all add: handling_def)

lemma handling_Inr [split_result]: "handling f r = Inr x \<longleftrightarrow> r = Inr x"
  by (cases r) simp_all

lemma handling_Inl [split_result]: "handling f r = Inl z \<longleftrightarrow> (\<exists>e. r = Inl e \<and> z = f e)"
  by (cases r) auto

definition configuring :: "error \<Rightarrow> 'r outcome" where
  "configuring e = (if \<exists>k \<in> set CONFIG_ERRORS. raised_as k e then ConfigRefused e else Raised e)"

definition resolving :: "error \<Rightarrow> 'r outcome" where
  "resolving e = (if raised_as ''ConfigResolutionError'' e then ConfigRefused e else Raised e)"

definition choosing_mapping :: "error \<Rightarrow> 'r outcome" where
  "choosing_mapping e = (if raised_as ''CliOperationalError'' e then Operational e else Raised e)"

text \<open>\<open>except ConfigResolutionError\<close>, then \<open>except ValueError\<close>.\<close>

definition validating_runtime :: "error \<Rightarrow> 'r outcome" where
  "validating_runtime e = (if raised_as ''ConfigResolutionError'' e then ConfigRefused e
     else case e of ValueError _ \<Rightarrow> ConfigRefused e | MappingError _ \<Rightarrow> ConfigRefused e | _ \<Rightarrow> Raised e)"

definition reconciling :: "error \<Rightarrow> 'r outcome" where
  "reconciling e = (if raised_as ''ReconciliationError'' e then ReconciliationRefused e else Raised e)"

definition scanning :: "error \<Rightarrow> 'r outcome" where
  "scanning e = (if is_operational_error e then Operational e else Raised e)"

definition reading :: "error \<Rightarrow> 'r outcome" where
  "reading e = (if raised_as ''ConfigResolutionError'' e then ConfigRefused e else scanning e)"

definition planning :: "error \<Rightarrow> 'r outcome" where
  "planning e = (if raised_as ''ReconciliationError'' e then ReconciliationRefused e else reading e)"

definition executing :: "error \<Rightarrow> 'r outcome" where
  "executing e = (if is_adapter_error e then Operational e else Raised e)"

section \<open>The host\<close>

text \<open>
  \<open>OperationRuntime\<close>: the fields the two commands read. \<open>or_identity_projection\<close> is \<open>canonical.identity_projection()\<close>.
\<close>

record operation_runtime =
  or_kind_v2 :: bool
  or_identity_projection :: json
  or_has_targets :: bool
  or_authority :: NormalizedAuthorityPolicySet
  or_policy_files :: "string list"

type_synonym source_paths = "string list \<times> string list \<times> string list"

text \<open>
  The record of functions: \<open>load_operation_runtime\<close>, \<open>settings_for_operation\<close>, \<open>_resolve_mapping_for_operation\<close>,
  \<open>validate_collibra_runtime\<close>, \<open>_compose_reconciliation_bundle_for_operation\<close>, \<open>scan_model_from_runtime\<close>,
  \<open>_collibra_binding_for_operation\<close> with the adapter its capabilities use, \<open>execute_collibra_plan\<close> with the settings of
  that binding, and \<open>dry_run_collibra_plan_result\<close>. For both kinds of configuration the target projection is that of the
  settings: the one of a v2 binding is built from the same five fields.
\<close>

record ('s, 'r) host =
  ho_operation :: "operation_runtime result"
  ho_settings :: "runtime_settings result"
  ho_identifiers :: identifier_functions
  ho_mapping :: "string \<Rightarrow> CollibraMappingConfig result"
  ho_validate_runtime :: "unit result"
  ho_policy_schema :: "json \<Rightarrow> ValidationError list"
  ho_policy_files :: "string \<Rightarrow> policy_file option"
  ho_bundle :: "source_paths \<Rightarrow> (PropertyObservationSet \<times> GraphNodeIdentity list) result"
  ho_scan :: "GovernanceModel result"
  ho_adapter :: "CollibraMappingConfig \<Rightarrow> 's CollibraAdapter result"
  ho_execute :: "'s CollibraAdapter \<Rightarrow> SyncPlan \<Rightarrow> 's \<Rightarrow> 'r result \<times> 's"
  ho_preview :: "CollibraMappingConfig \<Rightarrow> SyncPlan \<Rightarrow> 'r result"
  ho_success :: "'r \<Rightarrow> bool"
  ho_plan_schema :: "string \<Rightarrow> json \<Rightarrow> PlanValidationError list"
  ho_plan_file :: plan_file

definition has_reconciliation_source_flags :: "source_paths \<Rightarrow> bool" where
  "has_reconciliation_source_flags paths = (case paths of (odcs, dbt, openlineage) \<Rightarrow> odcs \<noteq> [] \<or> dbt \<noteq> [] \<or> openlineage \<noteq> [])"

definition effective_mode :: "runtime_settings \<Rightarrow> string result" where
  "effective_mode settings =
     (let mode = py_lower (strip (se_collibra_mode settings)) in
      if mode \<notin> {''mock'', ''live''} then Inl mode_error else Inr mode)"

definition load_policies :: "('s, 'r) host \<Rightarrow> operation_runtime \<Rightarrow> 'r outcome + NormalizedPolicySet" where
  "load_policies host run =
     (case load_normalized_policies (ho_policy_schema host) (ho_policy_files host) (or_policy_files run) of
        Inr s \<Rightarrow> Inr s
      | Inl (Uncaught e) \<Rightarrow> Inl (Raised e)
      | Inl e \<Rightarrow> Inl (PolicyRefused e))"

definition observed_config_identity :: "(string \<Rightarrow> string) \<Rightarrow> operation_runtime \<Rightarrow> ContentIdentity" where
  "observed_config_identity sha run = sha256_identity sha (if or_kind_v2 run then ConfigV2 else Config) (or_identity_projection run)"

definition target_required :: error where
  "target_required = Diagnostics ''CliOperationalError'' []"

section \<open>Generating a plan\<close>

record plan_args =
  pa_config :: "string option"
  pa_output :: "string option"
  pa_sources :: source_paths

record plan_inputs =
  pi_run :: operation_runtime
  pi_settings :: runtime_settings
  pi_mapping :: CollibraMappingConfig
  pi_policies :: NormalizedPolicySet
  pi_model :: GovernanceModel
  pi_snapshot :: GovernanceSnapshot
  pi_index :: PhysicalReconciliationIndex
  pi_report :: PropertyConflictReport

text \<open>Up to the conflict report: nothing is asked of the target yet.\<close>

definition plan_inputs_of :: "(string \<Rightarrow> string) \<Rightarrow> plan_args \<Rightarrow> ('s, 'r) host \<Rightarrow> 'r outcome + plan_inputs" where
  "plan_inputs_of sha args host =
     (if or_empty (pa_config args) = [] then Inl (UsageError ''plan generation requires --config'')
      else if or_empty (pa_output args) = [] then Inl (UsageError ''plan generation requires --output'')
      else
        try_in (handling configuring (ho_operation host)) (\<lambda>run.
        try_in (handling resolving (ho_settings host)) (\<lambda>settings.
        if \<not> or_has_targets run then Inl (Operational target_required)
        else
          try_in (handling ConfigRefused (effective_mode settings)) (\<lambda>mode.
          try_in (handling choosing_mapping (ho_mapping host mode)) (\<lambda>mapping_config.
          try_in (handling validating_runtime (ho_validate_runtime host)) (\<lambda>_.
          try_in (handling validating_runtime (build_target_context_projection (ho_identifiers host) settings)) (\<lambda>_.
          try_in (load_policies host run) (\<lambda>policy_set.
          try_in (handling reconciling (ho_bundle host (pa_sources args))) (\<lambda>(observations, known_objects).
          try_in (handling scanning (ho_scan host)) (\<lambda>model.
          try_in (handling Raised (snapshot_from_model model)) (\<lambda>snapshot.
          let violations = evaluate_policies model policy_set in
          if list_ex (\<lambda>v. pv_severity v = ErrorSeverity) violations
          then Inl (PolicyGateClosed (build_policy_report violations (policy_identity sha policy_set) (snapshot_content_identity sha snapshot)))
          else
            try_in (handling reconciling (build_physical_reconciliation_index model (se_postgres_source_name settings))) (\<lambda>index.
            try_in (handling reconciling (cross_check_known_objects known_objects index)) (\<lambda>_.
            Inr \<lparr>pi_run = run, pi_settings = settings, pi_mapping = mapping_config, pi_policies = policy_set, pi_model = model,
              pi_snapshot = snapshot, pi_index = index,
              pi_report = analyze_property_conflicts observations (or_authority run)\<rparr>)))))))))))))"

text \<open>From the remote state on: overlay, plan, assumptions, and the check that no decision it rests on is unsafe.\<close>

definition decide_plan :: "plan_inputs \<Rightarrow> CollibraDesiredState \<Rightarrow> CollibraRemoteState \<Rightarrow> (SyncPlan \<times> json) result" where
  "decide_plan inputs desired0 remote =
     try_in (apply_reconciliation_overlay desired0 remote (pi_report inputs) (pi_mapping inputs) (pi_index inputs)) (\<lambda>overlay.
     try_in (build_sync_plan (ov_desired overlay) remote) (\<lambda>plan.
     try_in (build_reconciliation_assumptions desired0 (ov_desired overlay) remote plan (pi_report inputs) (pi_mapping inputs)
       (pi_index inputs)) (\<lambda>assumptions.
     try_in (validate_assumptions_safety assumptions (pi_report inputs)) (\<lambda>_. Inr (plan, assumptions)))))"

definition save_plan ::
  "(string \<Rightarrow> string) \<Rightarrow> ('s, 'r) host \<Rightarrow> plan_inputs \<Rightarrow> CollibraRemoteState \<Rightarrow> SyncPlan \<times> json \<Rightarrow> SavedGovernancePlan result" where
  "save_plan sha host inputs remote chosen =
     build_saved_plan sha (ho_identifiers host) (pi_settings inputs) (fst chosen) (observed_config_identity sha (pi_run inputs))
       (pi_snapshot inputs) (pi_policies inputs) (pi_mapping inputs) (compute_remote_state_identity_value sha remote)
       (Some (snd chosen))"

definition plan_generate :: "(string \<Rightarrow> string) \<Rightarrow> plan_args \<Rightarrow> ('s, 'r) host \<Rightarrow> 's \<Rightarrow> 'r outcome \<times> 's" where
  "plan_generate sha args host s =
     (case try_in (plan_inputs_of sha args host) (\<lambda>inputs.
           try_in (handling planning (map_to_desired_state (pi_model inputs) (pi_mapping inputs))) (\<lambda>desired0.
           try_in (handling planning (ho_adapter host (pi_mapping inputs))) (\<lambda>adapter. Inr (inputs, desired0, adapter)))) of
        Inl out \<Rightarrow> (out, s)
      | Inr (inputs, desired0, adapter) \<Rightarrow>
          (case ad_read_remote_state adapter desired0 s of
             (Inl e, t) \<Rightarrow> (planning e, t)
           | (Inr remote, t) \<Rightarrow>
               (case try_in (handling planning (decide_plan inputs desired0 remote)) (\<lambda>chosen.
                     try_in (handling Raised (save_plan sha host inputs remote chosen)) (\<lambda>saved.
                     try_in (handling Raised (saved_plan_to_dict sha saved)) (\<lambda>document. Inr (saved, document)))) of
                  Inl out \<Rightarrow> (out, t)
                | Inr (saved, document) \<Rightarrow> (Planned saved document, t))))"

section \<open>Applying a plan\<close>

record apply_args =
  aa_apply :: bool
  aa_confirm_live :: bool
  aa_sources :: source_paths

definition LEGACY_MESSAGE :: string where
  "LEGACY_MESSAGE = ''legacy plan missing reconciliation assumptions; regenerate v2''"

definition legacy_mismatch :: "SavedGovernancePlan \<Rightarrow> mismatch" where
  "legacy_mismatch saved = version_mismatch ''reconciliation'' PLAN_VERSION_V2 (sg_plan_version saved) LEGACY_MESSAGE"

definition load_plan_file :: "(string \<Rightarrow> string) \<Rightarrow> ('s, 'r) host \<Rightarrow> 'r outcome + SavedGovernancePlan" where
  "load_plan_file sha host =
     (case load_saved_plan (ho_plan_schema host) sha (ho_plan_file host) of
        Inr p \<Rightarrow> Inr p
      | Inl (PlanRaised e) \<Rightarrow> Inl (Raised e)
      | Inl e \<Rightarrow> Inl (PlanRefused e))"

text \<open>The decisions of a version 2 plan are recomputed on its own boundary before anything else is looked at.\<close>

definition recheck_assumptions ::
  "(string \<Rightarrow> string) \<Rightarrow> apply_args \<Rightarrow> ('s, 'r) host \<Rightarrow> operation_runtime \<Rightarrow> SavedGovernancePlan \<Rightarrow> 'r outcome + unit" where
  "recheck_assumptions sha args host run saved =
     (if sg_plan_version saved = PLAN_VERSION \<and> has_reconciliation_source_flags (aa_sources args)
      then Inl (Stale (build_stale_result [legacy_mismatch saved]))
      else if sg_plan_version saved \<noteq> PLAN_VERSION_V2 then Inr ()
      else
        try_in (handling reconciling (ho_bundle host (aa_sources args))) (\<lambda>(observations, known_objects).
        let report = analyze_property_conflicts observations (or_authority run) in
        case (sg_reconciliation_assumptions saved, sg_reconciliation_assumptions_identity saved) of
          (Some assumptions, Some expected) \<Rightarrow>
            try_in (handling Raised (recompute_assumptions_on_saved_boundary assumptions report)) (\<lambda>recomputed.
            let observed = assumptions_content_identity sha recomputed in
            if observed \<noteq> expected
            then Inl (Stale (build_stale_result
              [identity_mismatch ''reconciliation'' expected observed ''reconciliation assumptions identity changed'']))
            else Inr ())
        | _ \<Rightarrow> Inl (Stale (build_stale_result [legacy_mismatch saved]))))"

definition validate_apply_flags :: "string \<Rightarrow> apply_args \<Rightarrow> 'r outcome + unit" where
  "validate_apply_flags mode args =
     (if aa_confirm_live args \<and> mode \<noteq> ''live''
      then Inl (UsageError ''--confirm-live is only valid when effective mode is live'')
      else if mode = ''live'' \<and> aa_apply args \<and> \<not> aa_confirm_live args
      then Inl (UsageError ''live apply requires --confirm-live'')
      else Inr ())"

text \<open>\<open>if observed != expected: mismatches.append(...)\<close>.\<close>

definition identity_check :: "string \<Rightarrow> string \<Rightarrow> ContentIdentity \<Rightarrow> ContentIdentity \<Rightarrow> mismatch list" where
  "identity_check category message expected observed =
     (if observed \<noteq> expected then [identity_mismatch category expected observed message] else [])"

definition version_check :: "string \<Rightarrow> string \<Rightarrow> string \<Rightarrow> string \<Rightarrow> mismatch list" where
  "version_check category message expected observed =
     (if expected \<noteq> observed then [version_mismatch category expected observed message] else [])"

record observed_identities =
  ob_config :: ContentIdentity
  ob_snapshot :: ContentIdentity
  ob_policy :: ContentIdentity
  ob_mapping :: ContentIdentity
  ob_target :: ContentIdentity

definition plan_mismatches :: "SavedGovernancePlan \<Rightarrow> observed_identities \<Rightarrow> mismatch list" where
  "plan_mismatches saved ob =
     identity_check ''config'' ''governance config identity changed'' (sg_config_identity saved) (ob_config ob) @
     identity_check ''snapshot'' ''source snapshot identity changed'' (sg_snapshot_identity saved) (ob_snapshot ob) @
     identity_check ''policy'' ''policy identity changed'' (sg_policy_identity saved) (ob_policy ob) @
     identity_check ''mapping'' ''mapping identity changed'' (sg_mapping_identity saved) (ob_mapping ob) @
     identity_check ''target_context'' ''effective target context changed'' (sg_target_context_identity saved) (ob_target ob) @
     version_check ''planner_contract'' ''planner contract version changed'' (sg_planner_contract_version saved) PLANNER_CONTRACT_VERSION @
     version_check ''scanner_contract'' ''scanner contract version changed'' (sg_scanner_contract_version saved) SCANNER_CONTRACT_VERSION"

record apply_inputs =
  ai_saved :: SavedGovernancePlan
  ai_mapping :: CollibraMappingConfig
  ai_model :: GovernanceModel
  ai_mismatches :: "mismatch list"
  ai_target_fresh :: bool

definition inconsistent_context :: plan_exception where
  "inconsistent_context = PlanIntegrityError [diagnostic_error ''target_context_inconsistent'' ''/target_context''
     ''saved target_context is inconsistent with target_context_identity and effective runtime'']"

definition apply_inputs_of :: "(string \<Rightarrow> string) \<Rightarrow> apply_args \<Rightarrow> ('s, 'r) host \<Rightarrow> 'r outcome + apply_inputs" where
  "apply_inputs_of sha args host =
     (if aa_confirm_live args \<and> \<not> aa_apply args then Inl (UsageError ''--confirm-live requires --apply'')
      else
        try_in (load_plan_file sha host) (\<lambda>saved.
        try_in (handling configuring (ho_operation host)) (\<lambda>run.
        try_in (handling Raised (ho_settings host)) (\<lambda>settings.
        try_in (recheck_assumptions sha args host run saved) (\<lambda>_.
        try_in (handling ConfigRefused (effective_mode settings)) (\<lambda>mode.
        try_in (validate_apply_flags mode args) (\<lambda>_.
        try_in (load_policies host run) (\<lambda>policy_set.
        if \<not> or_has_targets run then Inl (Operational target_required)
        else
          try_in (handling choosing_mapping (ho_mapping host mode)) (\<lambda>mapping_config.
          try_in (handling validating_runtime (ho_validate_runtime host)) (\<lambda>_.
          try_in (handling validating_runtime (build_target_context_projection (ho_identifiers host) settings)) (\<lambda>projection.
          try_in (handling Raised (target_context_public projection)) (\<lambda>public.
          let observed_target = target_context_identity sha projection in
          if \<not> dict_eq (sg_target_context saved) public \<and> observed_target = sg_target_context_identity saved
          then Inl (PlanRefused inconsistent_context)
          else
            try_in (handling scanning (ho_scan host)) (\<lambda>model.
            try_in (handling Raised (snapshot_from_model model)) (\<lambda>snapshot.
            Inr \<lparr>ai_saved = saved, ai_mapping = mapping_config, ai_model = model,
              ai_mismatches = plan_mismatches saved \<lparr>ob_config = observed_config_identity sha run,
                ob_snapshot = snapshot_content_identity sha snapshot, ob_policy = policy_identity sha policy_set,
                ob_mapping = mapping_identity sha mapping_config, ob_target = observed_target\<rparr>,
              ai_target_fresh = (observed_target = sg_target_context_identity saved \<and> dict_eq (sg_target_context saved) public)\<rparr>))))))))))))))"

definition execute_saved ::
  "(string \<Rightarrow> string) \<Rightarrow> apply_args \<Rightarrow> ('s, 'r) host \<Rightarrow> SavedGovernancePlan \<Rightarrow> CollibraMappingConfig \<Rightarrow>
   's CollibraAdapter \<Rightarrow> 's \<Rightarrow> 'r outcome \<times> 's" where
  "execute_saved sha args host saved mapping_config adapter s =
     (let plan = sg_sync_plan saved in
      case (if aa_apply args then ho_execute host adapter plan s else (ho_preview host mapping_config plan, s)) of
        (Inl e, t) \<Rightarrow> (executing e, t)
      | (Inr r, t) \<Rightarrow>
          (case saved_plan_content_identity sha saved of
             Inl e \<Rightarrow> (Raised e, t)
           | Inr c \<Rightarrow> (Completed (ho_success host r) c r, t)))"

definition apply_saved :: "(string \<Rightarrow> string) \<Rightarrow> apply_args \<Rightarrow> ('s, 'r) host \<Rightarrow> 's \<Rightarrow> 'r outcome \<times> 's" where
  "apply_saved sha args host s =
     (case apply_inputs_of sha args host of
        Inl out \<Rightarrow> (out, s)
      | Inr inputs \<Rightarrow>
          if ai_target_fresh inputs then
            (case try_in (handling reading (map_to_desired_state (ai_model inputs) (ai_mapping inputs))) (\<lambda>desired.
                  try_in (handling reading (ho_adapter host (ai_mapping inputs))) (\<lambda>adapter. Inr (desired, adapter))) of
               Inl out \<Rightarrow> (out, s)
             | Inr (desired, adapter) \<Rightarrow>
                 (case ad_read_remote_state adapter desired s of
                    (Inl e, t) \<Rightarrow> (reading e, t)
                  | (Inr remote, t) \<Rightarrow>
                      (let mismatches = ai_mismatches inputs @ identity_check ''remote_state'' ''remote state identity changed''
                         (sg_remote_state_identity (ai_saved inputs)) (compute_remote_state_identity_value sha remote) in
                       if mismatches \<noteq> [] then (Stale (build_stale_result mismatches), t)
                       else execute_saved sha args host (ai_saved inputs) (ai_mapping inputs) adapter t)))
          else if ai_mismatches inputs \<noteq> [] then (Stale (build_stale_result (ai_mismatches inputs)), s)
          else
            (case try_in (handling reading (ho_validate_runtime host)) (\<lambda>_. handling reading (ho_adapter host (ai_mapping inputs))) of
               Inl out \<Rightarrow> (out, s)
             | Inr adapter \<Rightarrow> execute_saved sha args host (ai_saved inputs) (ai_mapping inputs) adapter s))"

section \<open>What a plan to be executed must still satisfy\<close>

definition flags_allow :: "string \<Rightarrow> apply_args \<Rightarrow> bool" where
  "flags_allow mode args \<longleftrightarrow> (aa_confirm_live args \<longrightarrow> aa_apply args \<and> mode = ''live'') \<and>
     (mode = ''live'' \<and> aa_apply args \<longrightarrow> aa_confirm_live args)"

text \<open>The decisions in the boundary of a version 2 plan, made again, have the identity the plan was saved with.\<close>

definition decisions_hold ::
  "(string \<Rightarrow> string) \<Rightarrow> source_paths \<Rightarrow> ('s, 'r) host \<Rightarrow> operation_runtime \<Rightarrow> SavedGovernancePlan \<Rightarrow> bool" where
  "decisions_hold sha sources host run saved \<longleftrightarrow>
     (if sg_plan_version saved = PLAN_VERSION_V2
      then (\<exists>observations known assumptions again.
        ho_bundle host sources = Inr (observations, known) \<and> sg_reconciliation_assumptions saved = Some assumptions \<and>
        recompute_assumptions_on_saved_boundary assumptions (analyze_property_conflicts observations (or_authority run)) = Inr again \<and>
        sg_reconciliation_assumptions_identity saved = Some (assumptions_content_identity sha again))
      else sg_plan_version saved = PLAN_VERSION \<longrightarrow> \<not> has_reconciliation_source_flags sources)"

definition still_valid ::
  "(string \<Rightarrow> string) \<Rightarrow> apply_args \<Rightarrow> ('s, 'r) host \<Rightarrow> SavedGovernancePlan \<Rightarrow> CollibraMappingConfig \<Rightarrow> GovernanceModel \<Rightarrow> bool" where
  "still_valid sha args host saved cfg model \<longleftrightarrow>
     (\<exists>run settings mode policies projection public snapshot.
       ho_operation host = Inr run \<and> or_has_targets run \<and> ho_settings host = Inr settings \<and>
       effective_mode settings = Inr mode \<and> flags_allow mode args \<and>
       decisions_hold sha (aa_sources args) host run saved \<and>
       load_normalized_policies (ho_policy_schema host) (ho_policy_files host) (or_policy_files run) = Inr policies \<and>
       ho_mapping host mode = Inr cfg \<and> ho_validate_runtime host = Inr () \<and>
       build_target_context_projection (ho_identifiers host) settings = Inr projection \<and>
       target_context_public projection = Inr public \<and> dict_eq (sg_target_context saved) public \<and>
       ho_scan host = Inr model \<and> snapshot_from_model model = Inr snapshot \<and>
       sg_config_identity saved = observed_config_identity sha run \<and>
       sg_snapshot_identity saved = snapshot_content_identity sha snapshot \<and>
       sg_policy_identity saved = policy_identity sha policies \<and> sg_mapping_identity saved = mapping_identity sha cfg \<and>
       sg_target_context_identity saved = target_context_identity sha projection \<and>
       sg_planner_contract_version saved = PLANNER_CONTRACT_VERSION \<and>
       sg_scanner_contract_version saved = SCANNER_CONTRACT_VERSION)"

lemma identity_check_Nil [simp]: "identity_check category message expected observed = [] \<longleftrightarrow> expected = observed"
  by (auto simp: identity_check_def)

lemma version_check_Nil [simp]: "version_check category message expected observed = [] \<longleftrightarrow> expected = observed"
  by (auto simp: version_check_def)

lemma plan_mismatches_Nil:
  "plan_mismatches saved ob = [] \<longleftrightarrow> sg_config_identity saved = ob_config ob \<and> sg_snapshot_identity saved = ob_snapshot ob \<and>
     sg_policy_identity saved = ob_policy ob \<and> sg_mapping_identity saved = ob_mapping ob \<and>
     sg_target_context_identity saved = ob_target ob \<and> sg_planner_contract_version saved = PLANNER_CONTRACT_VERSION \<and>
     sg_scanner_contract_version saved = SCANNER_CONTRACT_VERSION"
  by (simp add: plan_mismatches_def)

lemma validate_apply_flags_Inr:
  "validate_apply_flags mode args = Inr u \<longleftrightarrow> (aa_confirm_live args \<longrightarrow> mode = ''live'') \<and>
     (mode = ''live'' \<and> aa_apply args \<longrightarrow> aa_confirm_live args)"
  by (auto simp: validate_apply_flags_def)

lemma load_plan_file_Inr: "load_plan_file sha host = Inr p \<longleftrightarrow> load_saved_plan (ho_plan_schema host) sha (ho_plan_file host) = Inr p"
  by (auto simp: load_plan_file_def split: sum.splits plan_exception.splits)

lemma load_policies_Inr: "load_policies host run = Inr s \<longleftrightarrow>
    load_normalized_policies (ho_policy_schema host) (ho_policy_files host) (or_policy_files run) = Inr s"
  by (auto simp: load_policies_def split: sum.splits policy_exception.splits)

text \<open>Going through a function body that may return early.\<close>

lemma try_in_InrE: "try_in r f = Inr y \<Longrightarrow> (\<And>x. r = Inr x \<Longrightarrow> f x = Inr y \<Longrightarrow> P) \<Longrightarrow> P"
  by (cases r) simp_all

lemma if_InrE: "(if b then Inl e else r) = Inr y \<Longrightarrow> (\<not> b \<Longrightarrow> r = Inr y \<Longrightarrow> P) \<Longrightarrow> P"
  by (cases b) simp_all

text \<open>Without simplifying the rest of the body before the value it is given is known.\<close>

lemma try_in_weak_cong: "r = q \<Longrightarrow> try_in r f = try_in q f"
  by simp

lemma recheck_assumptions_Inr:
  "recheck_assumptions sha args host run saved = Inr u \<longleftrightarrow> decisions_hold sha (aa_sources args) host run saved"
proof (cases "sg_plan_version saved = PLAN_VERSION_V2")
  case True
  then have v: "sg_plan_version saved \<noteq> PLAN_VERSION" by (simp add: plan_constants)
  show ?thesis
  proof (cases "ho_bundle host (aa_sources args)")
    case (Inl e)
    then show ?thesis using True v by (simp add: recheck_assumptions_def decisions_hold_def)
  next
    case (Inr b)
    obtain observations known where b: "b = (observations, known)" by (cases b)
    show ?thesis
      using True v Inr b
      by (cases "sg_reconciliation_assumptions saved"; cases "sg_reconciliation_assumptions_identity saved")
        (auto simp: recheck_assumptions_def decisions_hold_def Let_def split_result)
  qed
next
  case False
  then show ?thesis by (simp add: recheck_assumptions_def decisions_hold_def)
qed

lemma apply_inputs_valid:
  fixes host :: "('s, 'r) host"
  assumes "apply_inputs_of sha args host = Inr inputs" "ai_mismatches inputs = []"
  shows "ai_target_fresh inputs \<and> load_saved_plan (ho_plan_schema host) sha (ho_plan_file host) = Inr (ai_saved inputs) \<and>
    still_valid sha args host (ai_saved inputs) (ai_mapping inputs) (ai_model inputs)"
  using assms(1) unfolding apply_inputs_of_def Let_def
proof (elim if_InrE try_in_InrE)
  fix saved run settings x mode y policies cfg z projection public model snapshot
  assume *: "load_plan_file sha host = Inr saved" "handling configuring (ho_operation host) = (Inr run :: 'r outcome + _)"
      "handling Raised (ho_settings host) = (Inr settings :: 'r outcome + _)" "recheck_assumptions sha args host run saved = Inr x"
      "handling ConfigRefused (effective_mode settings) = (Inr mode :: 'r outcome + _)" "validate_apply_flags mode args = (Inr y :: 'r outcome + _)" "load_policies host run = Inr policies"
      "handling choosing_mapping (ho_mapping host mode) = (Inr cfg :: 'r outcome + _)" "handling validating_runtime (ho_validate_runtime host) = (Inr z :: 'r outcome + _)"
      "handling validating_runtime (build_target_context_projection (ho_identifiers host) settings) = (Inr projection :: 'r outcome + _)"
      "handling Raised (target_context_public projection) = (Inr public :: 'r outcome + _)" "handling scanning (ho_scan host) = (Inr model :: 'r outcome + _)"
      "handling Raised (snapshot_from_model model) = (Inr snapshot :: 'r outcome + _)"
      "\<not> (aa_confirm_live args \<and> \<not> aa_apply args)" "\<not> \<not> or_has_targets run"
      "\<not> (\<not> dict_eq (sg_target_context saved) public \<and> target_context_identity sha projection = sg_target_context_identity saved)"
      "Inr \<lparr>ai_saved = saved, ai_mapping = cfg, ai_model = model,
         ai_mismatches = plan_mismatches saved \<lparr>ob_config = observed_config_identity sha run,
           ob_snapshot = snapshot_content_identity sha snapshot, ob_policy = policy_identity sha policies,
           ob_mapping = mapping_identity sha cfg, ob_target = target_context_identity sha projection\<rparr>,
         ai_target_fresh = (target_context_identity sha projection = sg_target_context_identity saved \<and>
           dict_eq (sg_target_context saved) public)\<rparr> = (Inr inputs :: 'r outcome + apply_inputs)"
  note ok = *(1-13) [unfolded handling_Inr load_plan_file_Inr load_policies_Inr recheck_assumptions_Inr validate_apply_flags_Inr]
  have fields: "ai_saved inputs = saved" "ai_mapping inputs = cfg" "ai_model inputs = model"
    using *(17) by (simp_all only: sum.inject) auto
  have "plan_mismatches saved \<lparr>ob_config = observed_config_identity sha run,
      ob_snapshot = snapshot_content_identity sha snapshot, ob_policy = policy_identity sha policies,
      ob_mapping = mapping_identity sha cfg, ob_target = target_context_identity sha projection\<rparr> = []"
    using *(17) assms(2) by (simp only: sum.inject) (metis apply_inputs.select_convs(4))
  note matching = this [unfolded plan_mismatches_Nil observed_identities.select_convs]
  have fresh: "dict_eq (sg_target_context saved) public"
    using *(16) matching by metis
  have inputs: "ai_saved inputs = saved" "ai_mapping inputs = cfg" "ai_model inputs = model" "dict_eq (sg_target_context saved) public"
      "sg_config_identity saved = observed_config_identity sha run" "sg_snapshot_identity saved = snapshot_content_identity sha snapshot"
      "sg_policy_identity saved = policy_identity sha policies" "sg_mapping_identity saved = mapping_identity sha cfg"
      "sg_target_context_identity saved = target_context_identity sha projection"
      "sg_planner_contract_version saved = PLANNER_CONTRACT_VERSION" "sg_scanner_contract_version saved = SCANNER_CONTRACT_VERSION"
    using matching fresh fields by blast+
  have flags: "flags_allow mode args" "or_has_targets run" using ok(6) *(14,15) unfolding flags_allow_def by blast+
  have "still_valid sha args host saved cfg model"
    unfolding still_valid_def by (intro exI conjI) (rule ok(2-5,7-13) [simplified] inputs(4-11) flags)+
  moreover have "ai_target_fresh inputs" using *(17) matching fresh by (simp only: sum.inject) (metis apply_inputs.select_convs(5))
  ultimately show ?thesis using ok(1) inputs(1-3) by simp
qed

lemma valid_apply_inputs:
  assumes "load_saved_plan (ho_plan_schema host) sha (ho_plan_file host) = Inr saved" "still_valid sha args host saved cfg model"
  shows "apply_inputs_of sha args host = Inr \<lparr>ai_saved = saved, ai_mapping = cfg, ai_model = model, ai_mismatches = [],
    ai_target_fresh = True\<rparr>"
proof -
  obtain run settings mode policies projection public snapshot where
    *: "ho_operation host = Inr run" "or_has_targets run" "ho_settings host = Inr settings"
      "effective_mode settings = Inr mode" "flags_allow mode args"
      "decisions_hold sha (aa_sources args) host run saved"
      "load_normalized_policies (ho_policy_schema host) (ho_policy_files host) (or_policy_files run) = Inr policies"
      "ho_mapping host mode = Inr cfg" "ho_validate_runtime host = Inr ()"
      "build_target_context_projection (ho_identifiers host) settings = Inr projection"
      "target_context_public projection = Inr public" "dict_eq (sg_target_context saved) public"
      "ho_scan host = Inr model" "snapshot_from_model model = Inr snapshot" and
    identities: "sg_config_identity saved = observed_config_identity sha run"
      "sg_snapshot_identity saved = snapshot_content_identity sha snapshot"
      "sg_policy_identity saved = policy_identity sha policies" "sg_mapping_identity saved = mapping_identity sha cfg"
      "sg_target_context_identity saved = target_context_identity sha projection"
      "sg_planner_contract_version saved = PLANNER_CONTRACT_VERSION" "sg_scanner_contract_version saved = SCANNER_CONTRACT_VERSION"
    using assms(2) unfolding still_valid_def by (elim exE conjE) (rule that)
  note loaded = load_plan_file_Inr [THEN iffD2, OF assms(1)] load_policies_Inr [THEN iffD2, OF *(7)]
    recheck_assumptions_Inr [THEN iffD2, OF *(6), of "()"]
  have flags: "validate_apply_flags mode args = Inr ()" "\<not> (aa_confirm_live args \<and> \<not> aa_apply args)"
    using *(5) unfolding flags_allow_def validate_apply_flags_Inr by blast+
  have "plan_mismatches saved \<lparr>ob_config = observed_config_identity sha run, ob_snapshot = snapshot_content_identity sha snapshot,
      ob_policy = policy_identity sha policies, ob_mapping = mapping_identity sha cfg,
      ob_target = target_context_identity sha projection\<rparr> = []"
    by (simp add: plan_mismatches_Nil identities)
  then show ?thesis using flags(2) by (simp add: apply_inputs_of_def *(1-4,8-14) loaded flags(1) identities(5) cong: try_in_weak_cong if_weak_cong)
qed

section \<open>Only a valid plan is executed\<close>

text \<open>An early return is neither a completion nor a plan.\<close>

definition unfinished :: "'r outcome \<Rightarrow> bool" where
  "unfinished out \<longleftrightarrow> (\<forall>success c r. out \<noteq> Completed success c r) \<and> (\<forall>saved document. out \<noteq> Planned saved document)"

definition refuses :: "'r outcome + 'a \<Rightarrow> bool" where
  "refuses r \<longleftrightarrow> (\<forall>out. r = Inl out \<longrightarrow> unfinished out)"

named_theorems refuses_intro \<open>a function body ends early only with an unfinished outcome\<close>

lemma refuses_basic [refuses_intro]:
  "refuses (Inr x)"
  "unfinished out \<Longrightarrow> refuses (Inl out)"
  "(\<And>e. unfinished (f e)) \<Longrightarrow> refuses (handling f r)"
  by (auto simp: refuses_def handling_Inl)

lemma refuses_try_in [refuses_intro]: "refuses r \<Longrightarrow> (\<And>x. refuses (f x)) \<Longrightarrow> refuses (try_in r f)"
  by (auto simp: refuses_def try_in_Inl)

lemma refuses_if [refuses_intro]: "refuses r \<Longrightarrow> refuses q \<Longrightarrow> refuses (if b then r else q)"
  by simp

lemma refuses_case [refuses_intro]: "(\<And>a b. refuses (f a b)) \<Longrightarrow> refuses (case p of (a, b) \<Rightarrow> f a b)"
  by (cases p) simp

lemma refuses_option [refuses_intro]:
  "refuses r \<Longrightarrow> (\<And>x. refuses (f x)) \<Longrightarrow> refuses (case v of None \<Rightarrow> r | Some x \<Rightarrow> f x)"
  by (cases v) simp_all

lemma unfinished_outcomes [refuses_intro]:
  "unfinished (UsageError m)" "unfinished (PlanRefused p)" "unfinished (ConfigRefused e)" "unfinished (PolicyRefused q)"
  "unfinished (ReconciliationRefused e)" "unfinished (Operational e)" "unfinished (PolicyGateClosed j)" "unfinished (Stale j)"
  "unfinished (Raised e)"
  by (simp_all add: unfinished_def)

lemma unfinished_handlers [refuses_intro]:
  "unfinished (configuring e)" "unfinished (resolving e)" "unfinished (choosing_mapping e)" "unfinished (validating_runtime e)"
  "unfinished (reconciling e)" "unfinished (scanning e)" "unfinished (reading e)" "unfinished (planning e)"
  by (simp_all add: unfinished_def configuring_def resolving_def choosing_mapping_def validating_runtime_def reconciling_def
      scanning_def reading_def planning_def split: error.splits)

lemma load_refuses [refuses_intro]: "refuses (load_plan_file sha host)" "refuses (load_policies host run)"
  by (auto simp: refuses_def unfinished_def load_plan_file_def load_policies_def
      split: sum.splits plan_exception.splits policy_exception.splits)

lemma recheck_refuses [refuses_intro]:
  "refuses (recheck_assumptions sha args host run saved)" "refuses (validate_apply_flags mode args)"
  unfolding recheck_assumptions_def validate_apply_flags_def Let_def by (intro refuses_intro)+

lemma apply_inputs_refuses: "refuses (apply_inputs_of sha args host)"
  unfolding apply_inputs_of_def Let_def by (intro refuses_intro)

lemma apply_saved_valid:
  assumes "load_saved_plan (ho_plan_schema host) sha (ho_plan_file host) = Inr saved" "still_valid sha args host saved cfg model"
    and "map_to_desired_state model cfg = Inr desired" "ho_adapter host cfg = Inr adapter"
    and "ad_read_remote_state adapter desired s = (Inr remote, u)"
    and "sg_remote_state_identity saved = compute_remote_state_identity_value sha remote"
  shows "apply_saved sha args host s = execute_saved sha args host saved cfg adapter u"
  using valid_apply_inputs [OF assms(1,2)] assms(3-6) by (simp add: apply_saved_def)

text \<open>
  C1 (safety). The apply gate. Either the command is the execution of the saved plan itself, and then the file passed its
  integrity checks, the decisions of its boundary made again have the saved identity, and configuration, snapshot,
  policies, mapping, target and the remote state just read have the identities the plan was bound to, under the
  planner and scanner contracts it was made with, with live writes confirmed; or the command does not complete and the
  target has at most been read.
\<close>

theorem apply_only_when_valid:
  fixes host :: "('s, 'r) host"
  shows "(\<exists>saved cfg model desired adapter remote u.
      load_saved_plan (ho_plan_schema host) sha (ho_plan_file host) = Inr saved \<and> still_valid sha args host saved cfg model \<and>
      map_to_desired_state model cfg = Inr desired \<and> ho_adapter host cfg = Inr adapter \<and>
      ad_read_remote_state adapter desired s = (Inr remote, u) \<and>
      sg_remote_state_identity saved = compute_remote_state_identity_value sha remote \<and>
      apply_saved sha args host s = execute_saved sha args host saved cfg adapter u) \<or>
    ((\<forall>success c r. fst (apply_saved sha args host s) \<noteq> Completed success c r) \<and>
     (snd (apply_saved sha args host s) = s \<or>
      (\<exists>cfg adapter desired. ho_adapter host cfg = Inr adapter \<and>
         snd (apply_saved sha args host s) = snd (ad_read_remote_state adapter desired s))))"
  (is "?executed \<or> ?refused")
proof (cases "apply_inputs_of sha args host")
  case (Inl out)
  then show ?thesis using apply_inputs_refuses [of sha args host] by (simp add: apply_saved_def refuses_def unfinished_def)
next
  case (Inr inputs)
  show ?thesis
  proof (cases "ai_target_fresh inputs")
    case fresh: True
    let ?ready = "try_in (handling reading (map_to_desired_state (ai_model inputs) (ai_mapping inputs))) (\<lambda>desired.
        try_in (handling reading (ho_adapter host (ai_mapping inputs))) (\<lambda>adapter. Inr (desired, adapter)))
        :: 'r outcome + CollibraDesiredState \<times> 's CollibraAdapter"
    have refuses: "refuses ?ready" by (intro refuses_intro)
    show ?thesis
    proof (cases ?ready)
      case (Inl out)
      then have "apply_saved sha args host s = (out, s)" using Inr fresh by (simp add: apply_saved_def)
      then show ?thesis using Inl refuses by (simp add: refuses_def unfinished_def)
    next
      case ready: (Inr da)
      obtain desired adapter where da: "da = (desired, adapter)" by (cases da)
      have made: "map_to_desired_state (ai_model inputs) (ai_mapping inputs) = Inr desired" "ho_adapter host (ai_mapping inputs) = Inr adapter"
        using ready by (auto simp: da split_result)
      obtain r u where u: "ad_read_remote_state adapter desired s = (r, u)" by (cases "ad_read_remote_state adapter desired s")
      have read: "\<exists>cfg adapter' desired'. ho_adapter host cfg = Inr adapter' \<and> u = snd (ad_read_remote_state adapter' desired' s)"
        using made(2) u by (metis snd_conv)
      show ?thesis
      proof (cases r)
        case (Inl e)
        then have "apply_saved sha args host s = (reading e, u)" using Inr fresh ready u by (simp add: apply_saved_def da)
        moreover have "unfinished (reading e :: 'r outcome)" by (intro refuses_intro)
        ultimately show ?thesis using read by (simp add: unfinished_def)
      next
        case remote: (Inr remote)
        let ?mismatches = "ai_mismatches inputs @ identity_check ''remote_state'' ''remote state identity changed''
          (sg_remote_state_identity (ai_saved inputs)) (compute_remote_state_identity_value sha remote)"
        show ?thesis
        proof (cases "?mismatches = []")
          case False
          then have "apply_saved sha args host s = (Stale (build_stale_result ?mismatches), u)"
            using Inr fresh ready u remote by (simp add: apply_saved_def da)
          then show ?thesis using read by simp
        next
          case True
          then have v: "load_saved_plan (ho_plan_schema host) sha (ho_plan_file host) = Inr (ai_saved inputs)"
              "still_valid sha args host (ai_saved inputs) (ai_mapping inputs) (ai_model inputs)"
              "sg_remote_state_identity (ai_saved inputs) = compute_remote_state_identity_value sha remote"
            using apply_inputs_valid [OF Inr] by simp_all
          have u': "ad_read_remote_state adapter desired s = (Inr remote, u)" using u remote by simp
          have ?executed by (intro exI conjI) (rule v made u' apply_saved_valid [OF v(1,2) made u' v(3)])+
          then show ?thesis by (rule disjI1)
        qed
      qed
    qed
  next
    case False
    then have "ai_mismatches inputs \<noteq> []" using apply_inputs_valid [OF Inr] by blast
    then show ?thesis using False Inr by (simp add: apply_saved_def)
  qed
qed

section \<open>A generated plan is well-formed\<close>

lemma index_identities_wf:
  assumes "build_physical_reconciliation_index model ns = Inr index"
  shows "\<forall>i \<in> set (vals (ix_by_local_id index)). wf_identity i"
proof -
  define good where "good m \<longleftrightarrow> (\<forall>i \<in> set (vals m). wf_identity i)" for m :: "(string, GraphNodeIdentity) dict"
  have put: "good n" if "put_identity m l i = Inr n" "good m" "wf_identity i" for m l i n
    using that set_update_subset [of l i m] by (fastforce simp: put_identity_def good_def split: if_splits)
  have loop: "good n" if "fold_in f m xs = Inr n" "good m" "\<And>x m n. f m x = Inr n \<Longrightarrow> good m \<Longrightarrow> good n"
    for f :: "(string, GraphNodeIdentity) dict \<Rightarrow> 'x \<Rightarrow> (string, GraphNodeIdentity) dict result" and m n xs
    by (rule fold_in_preserves [where I = "\<lambda>_. good", OF that(1,2)]) (rule that(3))
  have column: "good n" if "index_column ns p m c = Inr n" "good m" "wf_identity p" for ns p m c n
    using that put mk_node_identity_wf [of ns _ _ "Some p"] unfolding index_column_def split_result by fastforce
  have table: "good n" if t: "index_table ns p m t = Inr n" and p: "good m" "wf_identity p" for ns p m t n
  proof -
    from t obtain i k where i: "mk_node_identity ns NODE_KIND_TABLE (t_name t) (Some p) = Inr i" "put_identity m (t_id t) i = Inr k"
        "fold_in (index_column ns i) k (t_columns t) = Inr n" by (auto simp: index_table_def split_result)
    then have "wf_identity i" using mk_node_identity_wf p(2) by fastforce
    then show ?thesis using loop [OF i(3)] put [OF i(2) p(1)] column by blast
  qed
  have schema: "good n" if t: "index_schema ns p m t = Inr n" and p: "good m" "wf_identity p" for ns p m t n
  proof -
    from t obtain i k where i: "mk_node_identity ns NODE_KIND_DATASET (sc_name t) (Some p) = Inr i" "put_identity m (sc_id t) i = Inr k"
        "fold_in (index_table ns i) k (sc_tables t) = Inr n" by (auto simp: index_schema_def split_result)
    then have "wf_identity i" using mk_node_identity_wf p(2) by fastforce
    then show ?thesis using loop [OF i(3)] put [OF i(2) p(1)] table by blast
  qed
  have database: "good n" if t: "index_database ns m t = Inr n" and p: "good m" for ns m t n
  proof -
    from t obtain i k where i: "mk_node_identity ns NODE_KIND_DATA_SOURCE (db_name t) None = Inr i" "put_identity m (db_id t) i = Inr k"
        "fold_in (index_schema ns i) k (db_schemas t) = Inr n" by (auto simp: index_database_def split_result)
    then have "wf_identity i" using mk_node_identity_wf [OF i(1)] by simp
    then show ?thesis using loop [OF i(3)] put [OF i(2) p(1)] schema by blast
  qed
  from assms obtain m where m: "fold_in (\<lambda>m data_source. fold_in (index_database (strip ns)) m (ds_databases data_source)) []
      (gm_data_sources model) = Inr m" "ix_by_local_id index = m"
    by (auto simp: build_physical_reconciliation_index_def Let_def split_result split: if_splits)
  have "good m"
  proof (rule loop [OF m(1)])
    show "good []" by (simp add: good_def)
    show "good n" if "fold_in (index_database (strip ns)) m (ds_databases x) = Inr n" "good m" for x m n
      using loop [OF that] database by blast
  qed
  then show ?thesis by (simp add: good_def m(2))
qed

lemma mk_asset_wf: "mk_asset a = Inr b \<Longrightarrow> list_all wf_attribute (as_attributes a) \<Longrightarrow> wf_asset b"
  using mk_asset_fixed [of a b] by (simp add: wf_asset_def list_all_iff)

lemma attrs_tuple_wf: "attrs_tuple d = Inr specs \<Longrightarrow> list_all wf_attribute specs"
  unfolding attrs_tuple_def
  by (erule traverse_all) (auto simp: mk_attribute_def wf_attribute_def split_result)

lemma apply_target_wf:
  assumes "apply_target_to_asset cfg remote t a = Inr b" "wf_asset a" shows "wf_asset b"
proof (cases "rt_field t = DisplayNameField")
  case True
  then have "mk_asset (a\<lparr>as_display_name := (if rt_has_value t then rt_value t
      else case remote of None \<Rightarrow> None | Some r \<Rightarrow> rm_display_name r)\<rparr>) = Inr b"
    using assms(1) unfolding apply_target_to_asset_def Let_def by simp
  then show ?thesis by (rule mk_asset_wf) (use assms(2) in \<open>simp add: wf_asset_def\<close>)
next
  case False
  then obtain attrs specs where "attrs_tuple attrs = Inr specs" "mk_asset (a\<lparr>as_attributes := specs\<rparr>) = Inr b"
    using assms(1) unfolding apply_target_to_asset_def Let_def by (simp only: if_False) (elim try_in_InrE, rule that)
  then show ?thesis using mk_asset_wf attrs_tuple_wf [of attrs specs] by simp
qed

lemma overlay_wf:
  assumes ov: "apply_reconciliation_overlay d remote report cfg index = Inr ov" and d: "\<forall>a \<in> set (des_assets d). wf_asset a"
  shows "(\<forall>a \<in> set (des_assets (ov_desired ov)). wf_asset a) \<and>
    set (des_relationships (ov_desired ov)) = set (des_relationships d)"
proof -
  define good where "good st \<longleftrightarrow> (\<forall>a \<in> set (vals (fst st)). wf_asset a)" for st :: overlay_state
  let ?results = "result_lookup report" and ?remotes = "remote_by_local_id remote"
  have path: "good st'" if step: "overlay_path cfg ?results r l i st p = Inr st'" and st: "good st" for r l i st p st'
  proof (cases "st' = st")
    case False
    then obtain t a b where "map_of (fst st) l = Some a" "apply_target_to_asset cfg r t a = Inr b" "fst st' = AList.update l b (fst st)"
      using step by (fastforce simp: overlay_path_def split_result split: if_split_asm option.splits)
    moreover then have "wf_asset b" using st apply_target_wf by (fastforce simp: good_def dest: map_of_SomeD)
    ultimately show ?thesis using st set_update_subset [of l b "fst st"] by (fastforce simp: good_def)
  qed (use st in simp)
  have object: "good st'" if step: "overlay_object cfg ?results ?remotes st e = Inr st'" and st: "good st" for st e st'
  proof (cases "map_of (fst st) (fst e) = None")
    case True
    then show ?thesis using step st by (simp add: overlay_object_def split: prod.splits)
  next
    case False
    then have "fold_in (overlay_path cfg ?results (map_of ?remotes (fst e)) (fst e) (snd e)) st
        [PATH_NAME, PATH_DESCRIPTION, PATH_DATA_TYPE, PATH_OWNERSHIP] = Inr st'"
      using step by (simp add: overlay_object_def split: prod.splits)
    then show ?thesis using st by (rule fold_in_preserves [where I = "\<lambda>_. good"]) (rule path)
  qed
  from ov obtain st assets where st: "fold_in (overlay_object cfg ?results ?remotes) (index_by as_local_id (des_assets d), [])
        (ix_by_local_id index) = Inr st"
      "traverse (\<lambda>asset. asset_of (fst st) (as_local_id asset)) (des_assets d) = Inr assets"
      "ov_desired ov = mk_desired_state assets (des_relationships d)"
    by (auto simp: apply_reconciliation_overlay_def split_result)
  have "good (index_by as_local_id (des_assets d), [])" using d index_by_key by (fastforce simp: good_def)
  then have "good st" by (rule fold_in_preserves [where I = "\<lambda>_. good", OF st(1)]) (rule object)
  moreover have "\<exists>l. map_of (fst st) l = Some a" if "a \<in> set assets" for a
    using st(2) that by (auto simp: traverse_Inr_iff list_all2_conv_all_nth in_set_conv_nth asset_of_def split: option.splits)
  ultimately have "\<forall>a \<in> set assets. wf_asset a" by (fastforce simp: good_def dest: map_of_SomeD)
  then show ?thesis by (simp add: st(3) mk_desired_state_def)
qed

lemma planned_actions_wf:
  assumes plan: "build_sync_plan d r = Inr p" and d: "\<forall>a \<in> set (des_assets d). wf_asset a"
    "\<forall>x \<in> set (des_relationships d). wf_relationship_spec x"
  shows "wf_sync_plan p"
proof -
  let ?R = "index_by rm_local_id (rem_assets r)" and ?D = "index_by as_local_id (des_assets d)"
  let ?R' = "index_by remote_key (rem_relationships r)" and ?D' = "index_by desired_key (des_relationships d)"
  have made: "wf_sync_action b" if "mk_sync_action a = Inr b" "pred_option wf_asset (sa_desired_asset a)"
      "pred_option wf_relationship_spec (sa_desired_relationship a)" for a b
    using mk_sync_action_fixed [OF that(1)] mk_sync_action_Inr [OF that(1)] that(2,3)
    by (auto simp: wf_sync_action_def split: option.splits)
  have parts: "wf_sync_action a" if "desired_asset_action ?R (k, x) = Inr a" "wf_asset x" for k x a
    using that by (auto simp: desired_asset_action_def Let_def blank_action_def intro!: made split: option.splits if_split_asm)
  have parts2: "wf_sync_action a" if "remote_asset_action e = Inr a" for e a
    using that by (auto simp: remote_asset_action_def blank_action_def intro!: made)
  have parts3: "wf_sync_action a" if "desired_relationship_action ?R' x = Inr a" "wf_relationship_spec (snd x)" for x a
    using that by (cases x) (auto simp: desired_relationship_action_def blank_action_def intro!: made split: option.splits)
  have spec: "wf_relationship_spec (snd x)" if "x \<in> set ?D'" for x
    using that d(2) index_by_key [of "fst x" "snd x"] by simp
  have parts4: "wf_sync_action a" if "remote_relationship_action e = Inr a" for e a
    using that by (auto simp: remote_relationship_action_def blank_action_def intro!: made)
  from plan obtain a b c e where *: "traverse (desired_asset_action ?R) ?D = Inr a"
      "traverse remote_asset_action (absent_from ?R ?D) = Inr b" "traverse (desired_relationship_action ?R') ?D' = Inr c"
      "traverse remote_relationship_action (absent_from ?R' ?D') = Inr e" "p = mk_sync_plan (a @ b @ c @ e)"
    by (auto simp: build_sync_plan_def Let_def split_result)
  have all: "list_all wf_sync_action ys" if "traverse f xs = Inr ys" "\<forall>x \<in> set xs. \<forall>y. f x = Inr y \<longrightarrow> wf_sync_action y" for f xs ys
    using that by (induction xs arbitrary: ys) (auto simp: split_result)
  have "list_all wf_sync_action a" by (rule all [OF *(1)]) (use parts d(1) in \<open>auto dest!: index_by_key\<close>)
  moreover have "list_all wf_sync_action b" by (rule all [OF *(2)]) (use parts2 in blast)
  moreover have "list_all wf_sync_action c" by (rule all [OF *(3)]) (use parts3 spec in blast)
  moreover have "list_all wf_sync_action e" by (rule all [OF *(4)]) (use parts4 in blast)
  ultimately show ?thesis by (auto simp: wf_sync_plan_def *(5) mk_sync_plan_def list_all_iff)
qed

section \<open>From plan to apply\<close>

lemma case_InrE: "(case p of (a, b) \<Rightarrow> f a b) = Inr y \<Longrightarrow> (\<And>a b. p = (a, b) \<Longrightarrow> f a b = Inr y \<Longrightarrow> P) \<Longrightarrow> P"
  by (cases p) simp

lemma plan_inputs_facts:
  assumes "plan_inputs_of sha args host = Inr inputs"
  shows "\<exists>mode projection observations known. ho_operation host = Inr (pi_run inputs) \<and> or_has_targets (pi_run inputs) \<and>
    ho_settings host = Inr (pi_settings inputs) \<and> effective_mode (pi_settings inputs) = Inr mode \<and>
    ho_mapping host mode = Inr (pi_mapping inputs) \<and> ho_validate_runtime host = Inr () \<and>
    build_target_context_projection (ho_identifiers host) (pi_settings inputs) = Inr projection \<and>
    load_normalized_policies (ho_policy_schema host) (ho_policy_files host) (or_policy_files (pi_run inputs)) = Inr (pi_policies inputs) \<and>
    ho_bundle host (pa_sources args) = Inr (observations, known) \<and>
    pi_report inputs = analyze_property_conflicts observations (or_authority (pi_run inputs)) \<and>
    ho_scan host = Inr (pi_model inputs) \<and> snapshot_from_model (pi_model inputs) = Inr (pi_snapshot inputs) \<and>
    (\<exists>ns. build_physical_reconciliation_index (pi_model inputs) ns = Inr (pi_index inputs))"
  using assms unfolding plan_inputs_of_def Let_def
  by (elim if_InrE try_in_InrE case_InrE) (auto simp: handling_Inr load_policies_Inr)

lemma generated_plan:
  fixes host :: "('s, 'r) host"
  assumes "plan_generate sha args host s = (Planned saved document, t)"
  shows "\<exists>inputs desired adapter remote assumptions. plan_inputs_of sha args host = Inr inputs \<and>
    map_to_desired_state (pi_model inputs) (pi_mapping inputs) = Inr desired \<and> ho_adapter host (pi_mapping inputs) = Inr adapter \<and>
    ad_read_remote_state adapter desired s = (Inr remote, t) \<and>
    decide_plan inputs desired remote = Inr (sg_sync_plan saved, assumptions) \<and>
    save_plan sha host inputs remote (sg_sync_plan saved, assumptions) = Inr saved \<and>
    saved_plan_to_dict sha saved = Inr document"
proof -
  let ?before = "try_in (plan_inputs_of sha args host) (\<lambda>inputs.
     try_in (handling planning (map_to_desired_state (pi_model inputs) (pi_mapping inputs))) (\<lambda>desired0.
     try_in (handling planning (ho_adapter host (pi_mapping inputs))) (\<lambda>adapter. Inr (inputs, desired0, adapter))))"
  have stays: "sg_sync_plan saved = plan" if "save_plan sha host inputs remote (plan, assumptions) = Inr saved" for inputs remote plan assumptions
    using that by (auto simp: save_plan_def build_saved_plan_def mk_saved_plan_def Let_def split_result)
  have "refuses ?before" unfolding plan_inputs_of_def Let_def by (intro refuses_intro)
  then obtain inputs desired adapter where before: "?before = Inr (inputs, desired, adapter)"
    using assms by (cases ?before) (auto simp: plan_generate_def refuses_def unfinished_def)
  have made: "plan_inputs_of sha args host = Inr inputs" "map_to_desired_state (pi_model inputs) (pi_mapping inputs) = Inr desired"
      "ho_adapter host (pi_mapping inputs) = Inr adapter"
    using before by (auto simp: split_result)
  obtain r u where read: "ad_read_remote_state adapter desired s = (r, u)" by (cases "ad_read_remote_state adapter desired s")
  have "unfinished (planning e :: 'r outcome)" for e by (intro refuses_intro)
  then obtain remote where remote: "r = Inr remote"
    using assms before read by (cases r) (auto simp: plan_generate_def unfinished_def)
  let ?after = "try_in (handling planning (decide_plan inputs desired remote)) (\<lambda>chosen.
     try_in (handling Raised (save_plan sha host inputs remote chosen)) (\<lambda>saved.
     try_in (handling Raised (saved_plan_to_dict sha saved)) (\<lambda>document. Inr (saved, document)))) :: 'r outcome + SavedGovernancePlan \<times> json"
  have "refuses ?after" by (intro refuses_intro)
  then have "?after = Inr (saved, document) \<and> u = t"
    using assms before read remote by (cases ?after) (auto simp: plan_generate_def refuses_def unfinished_def)
  then obtain plan assumptions where "decide_plan inputs desired remote = Inr (plan, assumptions)"
      "save_plan sha host inputs remote (plan, assumptions) = Inr saved" "saved_plan_to_dict sha saved = Inr document" "u = t"
    by (auto simp: split_result)
  moreover from this(2) have "sg_sync_plan saved = plan" by (rule stays)
  ultimately show ?thesis using made read remote by blast
qed

lemma saved_plan_fields:
  assumes "save_plan sha host inputs remote (plan, assumptions) = Inr saved"
  shows "\<exists>projection public. build_target_context_projection (ho_identifiers host) (pi_settings inputs) = Inr projection \<and>
    target_context_public projection = Inr public \<and> keys public = [''mode'', ''provider''] \<and>
    saved = \<lparr>sg_sync_plan = plan, sg_config_identity = observed_config_identity sha (pi_run inputs),
      sg_snapshot_identity = snapshot_content_identity sha (pi_snapshot inputs),
      sg_policy_identity = policy_identity sha (pi_policies inputs), sg_mapping_identity = mapping_identity sha (pi_mapping inputs),
      sg_target_context = public, sg_target_context_identity = target_context_identity sha projection,
      sg_remote_state_identity = compute_remote_state_identity_value sha remote,
      sg_planner_contract_version = PLANNER_CONTRACT_VERSION, sg_scanner_contract_version = SCANNER_CONTRACT_VERSION,
      sg_plan_schema = PLAN_SCHEMA, sg_plan_version = PLAN_VERSION_V2, sg_reconciliation_assumptions = Some assumptions,
      sg_reconciliation_assumptions_identity = Some (assumptions_content_identity sha assumptions)\<rparr>"
  using assms by (auto simp: save_plan_def build_saved_plan_def mk_saved_plan_def target_context_public_def Let_def split_result)

text \<open>Made again from the same report, the decisions of generated assumptions are the same.\<close>

lemma decided_again:
  assumes "decide_plan inputs desired remote = Inr (plan, assumptions)" "build_physical_reconciliation_index model ns = Inr (pi_index inputs)"
  shows "recompute_assumptions_on_saved_boundary assumptions (pi_report inputs) = Inr assumptions"
proof -
  obtain overlay :: OverlayResult where "build_reconciliation_assumptions desired (ov_desired overlay) remote plan (pi_report inputs) (pi_mapping inputs)
      (pi_index inputs) = Inr assumptions"
    using assms(1) by (auto simp: decide_plan_def split_result)
  from built_rendered [OF this index_identities_wf [OF assms(2)]] show ?thesis using recompute_rendered by auto
qed

lemma decided_plan_wf:
  assumes "decide_plan inputs desired remote = Inr (plan, assumptions)" "closed_state cfg desired"
  shows "wf_sync_plan plan"
proof -
  obtain overlay where *: "apply_reconciliation_overlay desired remote (pi_report inputs) (pi_mapping inputs) (pi_index inputs) = Inr overlay"
      "build_sync_plan (ov_desired overlay) remote = Inr plan"
    using assms(1) by (auto simp: decide_plan_def split_result)
  have d: "\<forall>a \<in> set (des_assets desired). wf_asset a" "\<forall>x \<in> set (des_relationships desired). wf_relationship_spec x"
    using assms(2) by (simp_all add: closed_state_def managed_asset_def list_all_iff)
  show ?thesis by (rule planned_actions_wf [OF *(2)]) (use overlay_wf [OF *(1) d(1)] d(2) in auto)
qed

lemma dict_eq_refl [simp]: "dict_eq d d"
  by (simp add: dict_eq_def)

lemma generated_plan_applies:
  fixes host :: "('s, 'r) host"
  assumes gen: "plan_generate sha pargs host s = (Planned saved document, t)"
    and cfg: "ho_settings host = Inr settings" "effective_mode settings = Inr mode" "ho_mapping host mode = Inr cfg"
      "mk_mapping_config jd ja jr jt = Inr cfg"
    and model: "ho_scan host = Inr model" "built_model model" "map_to_desired_state model cfg = Inr desired"
    and adapter: "ho_adapter host cfg = Inr adapter" "ad_read_remote_state adapter desired s = (Inr remote, t)"
    and args: "flags_allow mode args" "aa_sources args = pa_sources pargs" "ho_plan_schema host PLAN_VERSION_V2 document = []"
    and later: "ad_read_remote_state adapter desired u = (Inr remote', v)"
      "compute_remote_state_identity_value sha remote' = compute_remote_state_identity_value sha remote"
  shows "(\<exists>inputs assumptions. plan_inputs_of sha pargs host = Inr inputs \<and>
      decide_plan inputs desired remote = Inr (sg_sync_plan saved, assumptions)) \<and>
    apply_saved sha args (host\<lparr>ho_plan_file := PlanDocument document\<rparr>) u = execute_saved sha args host saved cfg adapter v"
proof -
  let ?host = "host\<lparr>ho_plan_file := PlanDocument document\<rparr>"
  obtain inputs assumptions where inputs: "plan_inputs_of sha pargs host = Inr inputs"
      "decide_plan inputs desired remote = Inr (sg_sync_plan saved, assumptions)"
      "save_plan sha host inputs remote (sg_sync_plan saved, assumptions) = Inr saved" "saved_plan_to_dict sha saved = Inr document"
      and same: "pi_mapping inputs = cfg" "pi_model inputs = model"
  proof -
    obtain inputs desired0 adapter0 remote0 assumptions where *: "plan_inputs_of sha pargs host = Inr inputs"
        "map_to_desired_state (pi_model inputs) (pi_mapping inputs) = Inr desired0" "ho_adapter host (pi_mapping inputs) = Inr adapter0"
        "ad_read_remote_state adapter0 desired0 s = (Inr remote0, t)"
        "decide_plan inputs desired0 remote0 = Inr (sg_sync_plan saved, assumptions)"
        "save_plan sha host inputs remote0 (sg_sync_plan saved, assumptions) = Inr saved" "saved_plan_to_dict sha saved = Inr document"
      using generated_plan [OF gen] by blast
    have "pi_mapping inputs = cfg" "pi_model inputs = model" using plan_inputs_facts [OF *(1)] cfg(1-3) model(1) by auto
    moreover then have "desired0 = desired" "adapter0 = adapter" using *(2,3) model(3) adapter(1) by auto
    moreover then have "remote0 = remote" using *(4) adapter(2) by simp
    ultimately show thesis using * that by blast
  qed
  obtain projection observations known ns where facts: "ho_operation host = Inr (pi_run inputs)" "or_has_targets (pi_run inputs)"
      "pi_settings inputs = settings" "ho_validate_runtime host = Inr ()"
      "build_target_context_projection (ho_identifiers host) settings = Inr projection"
      "load_normalized_policies (ho_policy_schema host) (ho_policy_files host) (or_policy_files (pi_run inputs)) = Inr (pi_policies inputs)"
      "ho_bundle host (pa_sources pargs) = Inr (observations, known)"
      "pi_report inputs = analyze_property_conflicts observations (or_authority (pi_run inputs))"
      "snapshot_from_model model = Inr (pi_snapshot inputs)"
      "build_physical_reconciliation_index model ns = Inr (pi_index inputs)"
    using plan_inputs_facts [OF inputs(1)] cfg(1) unfolding same by auto
  obtain public where public: "target_context_public projection = Inr public" "keys public = [''mode'', ''provider'']" and
    saved: "sg_config_identity saved = observed_config_identity sha (pi_run inputs)"
      "sg_snapshot_identity saved = snapshot_content_identity sha (pi_snapshot inputs)"
      "sg_policy_identity saved = policy_identity sha (pi_policies inputs)" "sg_mapping_identity saved = mapping_identity sha cfg"
      "sg_target_context saved = public" "sg_target_context_identity saved = target_context_identity sha projection"
      "sg_remote_state_identity saved = compute_remote_state_identity_value sha remote"
      "sg_planner_contract_version saved = PLANNER_CONTRACT_VERSION" "sg_scanner_contract_version saved = SCANNER_CONTRACT_VERSION"
      "sg_plan_version saved = PLAN_VERSION_V2" "sg_reconciliation_assumptions saved = Some assumptions"
      "sg_reconciliation_assumptions_identity saved = Some (assumptions_content_identity sha assumptions)"
  proof -
    obtain projection' public where *: "build_target_context_projection (ho_identifiers host) (pi_settings inputs) = Inr projection'"
        "target_context_public projection' = Inr public" "keys public = [''mode'', ''provider'']"
      and made: "saved = \<lparr>sg_sync_plan = sg_sync_plan saved, sg_config_identity = observed_config_identity sha (pi_run inputs),
      sg_snapshot_identity = snapshot_content_identity sha (pi_snapshot inputs),
      sg_policy_identity = policy_identity sha (pi_policies inputs), sg_mapping_identity = mapping_identity sha (pi_mapping inputs),
      sg_target_context = public, sg_target_context_identity = target_context_identity sha projection',
      sg_remote_state_identity = compute_remote_state_identity_value sha remote,
      sg_planner_contract_version = PLANNER_CONTRACT_VERSION, sg_scanner_contract_version = SCANNER_CONTRACT_VERSION,
      sg_plan_schema = PLAN_SCHEMA, sg_plan_version = PLAN_VERSION_V2, sg_reconciliation_assumptions = Some assumptions,
      sg_reconciliation_assumptions_identity = Some (assumptions_content_identity sha assumptions)\<rparr>"
      using saved_plan_fields [OF inputs(3)] by (elim exE conjE) (rule that)
    have "projection' = projection" using *(1) facts(3,5) by simp
    then show thesis using * by (intro that; (subst made)?) (simp_all add: same)
  qed
  have "closed_state cfg desired" using mapped_closed [OF cfg(4) model(2,3)] .
  then have wf: "wf_saved_plan sha saved"
    using decided_plan_wf [OF inputs(2)] public(2) by (simp add: wf_saved_plan_def saved)
  have loaded: "load_saved_plan (ho_plan_schema ?host) sha (ho_plan_file ?host) = Inr saved"
    using read_saved_plan [OF wf inputs(4), of "ho_plan_schema host"] args(3) by (simp add: saved)
  have "decisions_hold sha (aa_sources args) ?host (pi_run inputs) saved"
    using decided_again [OF inputs(2) facts(10)] facts(7,8) by (simp add: decisions_hold_def saved args(2))
  then have valid: "still_valid sha args ?host saved cfg model"
    unfolding still_valid_def using facts public(1) saved cfg(1-3) model(1) args(1)
    by (intro exI [of _ "pi_run inputs"] exI [of _ settings] exI [of _ mode] exI [of _ "pi_policies inputs"] exI [of _ projection]
        exI [of _ public] exI [of _ "pi_snapshot inputs"]) simp
  have "ho_adapter ?host cfg = Inr adapter" using adapter(1) by simp
  moreover have "sg_remote_state_identity saved = compute_remote_state_identity_value sha remote'"
    unfolding saved(7) later(2) by (rule refl)
  ultimately have "apply_saved sha args ?host u = execute_saved sha args ?host saved cfg adapter v"
    using apply_saved_valid [OF loaded valid model(3) _ later(1)] by blast
  moreover have "execute_saved sha args ?host saved cfg adapter v = execute_saved sha args host saved cfg adapter v"
    by (simp add: execute_saved_def Let_def cong del: sum.case_cong_weak prod.case_cong_weak if_weak_cong)
  ultimately show ?thesis using inputs(1,2) by auto
qed

text \<open>
  C2 (liveness). A generated plan can be applied: when nothing it rests on has changed, that is, the same configuration,
  policies, sources and metadata and a remote state with the same identity, and when the schema validator of saved plans, which is
  a parameter, accepts the document that was written, then that file passes every other check of \<open>apply\<close>, and the command is the
  execution of exactly the actions that were decided when the plan was made, never a stale result. The mapping and the model are
  ones their constructors accept, and the flags of \<open>apply\<close> fit the mode.
\<close>

theorem generated_plan_is_executed:
  fixes host :: "('s, 'r) host"
  assumes "plan_generate sha pargs host s = (Planned saved document, t)"
    and "ho_settings host = Inr settings" "effective_mode settings = Inr mode" "ho_mapping host mode = Inr cfg"
    and "mk_mapping_config jd ja jr jt = Inr cfg"
    and "ho_scan host = Inr model" "built_model model" "map_to_desired_state model cfg = Inr desired"
    and "ho_adapter host cfg = Inr adapter" "ad_read_remote_state adapter desired s = (Inr remote, t)"
    and "flags_allow mode args" "aa_sources args = pa_sources pargs" "ho_plan_schema host PLAN_VERSION_V2 document = []"
    and "ad_read_remote_state adapter desired u = (Inr remote', v)"
    and "compute_remote_state_identity_value sha remote' = compute_remote_state_identity_value sha remote"
  shows "(\<exists>inputs assumptions. plan_inputs_of sha pargs host = Inr inputs \<and>
      decide_plan inputs desired remote = Inr (sg_sync_plan saved, assumptions)) \<and>
    apply_saved sha args (host\<lparr>ho_plan_file := PlanDocument document\<rparr>) u = execute_saved sha args host saved cfg adapter v"
  by (rule generated_plan_applies [OF assms])

section \<open>Unresolved settings\<close>

text \<open>
  When an environment reference cannot be resolved, \<open>plan\<close> reports it with its own exit code; \<open>apply\<close> resolves the settings
  outside every handler and ends as an unexpected error.
\<close>

lemma unresolved_settings_differ:
  fixes host :: "('s, 'r) host"
  assumes "ho_operation host = Inr run" "ho_settings host = Inl (Diagnostics ''ConfigResolutionError'' ds)"
    and "or_empty (pa_config pargs) \<noteq> []" "or_empty (pa_output pargs) \<noteq> []"
    and "load_saved_plan (ho_plan_schema host) sha (ho_plan_file host) = Inr saved" "aa_confirm_live args \<longrightarrow> aa_apply args"
  shows "exit_code (fst (plan_generate sha pargs host s)) = 4 \<and> exit_code (fst (apply_saved sha args host s)) = 1"
proof -
  have "plan_inputs_of sha pargs host = Inl (ConfigRefused (Diagnostics ''ConfigResolutionError'' ds))"
    using assms(1-4) by (simp add: plan_inputs_of_def resolving_def cong: try_in_weak_cong)
  then have "plan_generate sha pargs host s = (ConfigRefused (Diagnostics ''ConfigResolutionError'' ds), s)"
    by (simp add: plan_generate_def cong: try_in_weak_cong)
  moreover have "apply_inputs_of sha args host = Inl (Raised (Diagnostics ''ConfigResolutionError'' ds))"
    using assms(1,2,6) load_plan_file_Inr [THEN iffD2, OF assms(5)]
    by (simp add: apply_inputs_of_def cong: try_in_weak_cong)
  ultimately show ?thesis by (simp add: apply_saved_def)
qed

section \<open>An example\<close>

text \<open>One database without tables on the mock tenant, no policies and no observations.\<close>

definition demo_model :: GovernanceModel where
  "demo_model = \<lparr>gm_data_sources = [\<lparr>ds_id = ''ds:s'', ds_name = ''s'', ds_system_type = ''pg'', ds_databases =
     [\<lparr>db_id = ''db:s/d'', db_name = ''d'', db_datasource_id = ''ds:s'', db_schemas = [],
       db_description = JNull, db_ownership = None\<rparr>], ds_description = JNull, ds_ownership = None, ds_technical_attributes = []\<rparr>], gm_relationships = []\<rparr>"

definition demo_settings :: runtime_settings where
  "demo_settings = \<lparr>se_collibra_mode = ''mock'', se_collibra_base_url = [], se_collibra_execution_mode = ''core_rest'',
     se_collibra_synchronization_id = [], se_postgres_source_name = ''s''\<rparr>"

definition demo_host :: "(MockState, SyncResult) host" where
  "demo_host = \<lparr>ho_operation = Inr \<lparr>or_kind_v2 = False, or_identity_projection = JObject [], or_has_targets = True,
       or_authority = \<lparr>ps_rules = []\<rparr>, or_policy_files = []\<rparr>,
     ho_settings = Inr demo_settings,
     ho_identifiers = \<lparr>id_endpoint_of = (\<lambda>url. Inr url), id_uuid = (\<lambda>x. Some x), id_uuid5 = (\<lambda>key. key)\<rparr>,
     ho_mapping = (\<lambda>mode. Inr mock_config), ho_validate_runtime = Inr (), ho_policy_schema = (\<lambda>_. []), ho_policy_files = (\<lambda>_. None),
     ho_bundle = (\<lambda>_. Inr (\<lparr>os_observations = []\<rparr>, [])), ho_scan = Inr demo_model,
     ho_adapter = (\<lambda>cfg. Inr (mock_adapter (\<lambda>i. ''asset:'' @ i) cfg)),
     ho_execute = (\<lambda>adapter plan. execute_sync_plan adapter plan True), ho_preview = (\<lambda>_ plan. Inr (dry_run_sync_result plan)),
     ho_success = sr_success, ho_plan_schema = (\<lambda>_ _. []), ho_plan_file = UnreadablePlan\<rparr>"

definition demo_plan_args :: plan_args where
  "demo_plan_args = \<lparr>pa_config = Some ''governance.yaml'', pa_output = Some ''out.gplan'', pa_sources = ([], [], [])\<rparr>"

definition demo_apply_args :: apply_args where
  "demo_apply_args = \<lparr>aa_apply = True, aa_confirm_live = False, aa_sources = ([], [], [])\<rparr>"

definition demo_adapter :: "MockState CollibraAdapter" where
  "demo_adapter = mock_adapter (\<lambda>i. ''asset:'' @ i) mock_config"

definition demo_desired :: CollibraDesiredState where
  "demo_desired = mk_desired_state (model_assets mock_config demo_model) (model_rels mock_config demo_model)"

lemma demo_generated:
  "\<exists>saved document. fst (plan_generate (\<lambda>_. []) demo_plan_args demo_host mock_init) = Planned saved document"
proof -
  have "(case fst (plan_generate (\<lambda>_. []) demo_plan_args demo_host mock_init) of Planned saved document \<Rightarrow> True | _ \<Rightarrow> False)"
    by code_simp
  then show ?thesis by (simp split: outcome.splits)
qed

lemma demo_built: "built_model demo_model"
  by code_simp

lemma demo_mapped: "map_to_desired_state demo_model mock_config = Inr demo_desired"
  unfolding demo_desired_def by (rule map_to_desired_state_iff [OF mock_config_accepted demo_built, THEN iffD2]) code_simp

lemma demo_read: "\<exists>remote t. ad_read_remote_state demo_adapter demo_desired mock_init = (Inr remote, t) \<and>
    (\<exists>remote' v. ad_read_remote_state demo_adapter demo_desired t = (Inr remote', v))"
proof -
  have "\<not> isl (fst (ad_read_remote_state demo_adapter demo_desired mock_init))"
    "\<not> isl (fst (ad_read_remote_state demo_adapter demo_desired (snd (ad_read_remote_state demo_adapter demo_desired mock_init))))"
    by code_simp+
  then show ?thesis by (metis prod.collapse sum.collapse(2))
qed

theorem generated_plan_is_executed_witness:
  "\<exists>saved document t v. plan_generate (\<lambda>_. []) demo_plan_args demo_host mock_init = (Planned saved document, t) \<and>
     apply_saved (\<lambda>_. []) demo_apply_args (demo_host\<lparr>ho_plan_file := PlanDocument document\<rparr>) t =
     execute_saved (\<lambda>_. []) demo_apply_args demo_host saved mock_config demo_adapter v"
proof -
  obtain saved document t where gen: "plan_generate (\<lambda>_. []) demo_plan_args demo_host mock_init = (Planned saved document, t)"
    using demo_generated by (metis prod.collapse)
  obtain remote t' remote' v where read: "ad_read_remote_state demo_adapter demo_desired mock_init = (Inr remote, t')"
      "ad_read_remote_state demo_adapter demo_desired t' = (Inr remote', v)"
    using demo_read by blast
  have host: "ho_settings demo_host = Inr demo_settings" "ho_mapping demo_host ''mock'' = Inr mock_config" "ho_scan demo_host = Inr demo_model"
      "ho_adapter demo_host mock_config = Inr demo_adapter" "ho_plan_schema demo_host PLAN_VERSION_V2 document = []"
    by (simp_all add: demo_host_def demo_adapter_def)
  have mode: "effective_mode demo_settings = Inr ''mock''" by code_simp
  have flags: "flags_allow ''mock'' demo_apply_args" "aa_sources demo_apply_args = pa_sources demo_plan_args"
    by (simp_all add: flags_allow_def demo_apply_args_def demo_plan_args_def)
  obtain inputs desired adapter r where "plan_inputs_of (\<lambda>_. []) demo_plan_args demo_host = Inr inputs"
      "map_to_desired_state (pi_model inputs) (pi_mapping inputs) = Inr desired" "ho_adapter demo_host (pi_mapping inputs) = Inr adapter"
      "ad_read_remote_state adapter desired mock_init = (Inr r, t)"
    using generated_plan [OF gen] by blast
  moreover from plan_inputs_facts [OF this(1)] host mode have "pi_model inputs = demo_model" "pi_mapping inputs = mock_config" by auto
  ultimately have "t = t'" using read(1) host(4) demo_mapped by simp
  have "compute_remote_state_identity_value (\<lambda>_. []) remote' = compute_remote_state_identity_value (\<lambda>_. []) remote"
    by (simp add: compute_remote_state_identity_value_def sha256_identity_def)
  then have "apply_saved (\<lambda>_. []) demo_apply_args (demo_host\<lparr>ho_plan_file := PlanDocument document\<rparr>) t =
      execute_saved (\<lambda>_. []) demo_apply_args demo_host saved mock_config demo_adapter v"
    using generated_plan_is_executed [OF gen host(1) mode host(2) mock_config_accepted host(3) demo_built demo_mapped host(4) _ flags host(5)]
      read unfolding \<open>t = t'\<close> by blast
  then show ?thesis using gen by blast
qed

theorem apply_only_when_valid_witness:
  "\<forall>success c r. fst (apply_saved (\<lambda>_. []) demo_apply_args demo_host mock_init) \<noteq> Completed success c r"
proof -
  have "load_saved_plan (ho_plan_schema demo_host) (\<lambda>_. []) (ho_plan_file demo_host) \<noteq> Inr saved" for saved
    by (simp add: demo_host_def load_saved_plan_def)
  then show ?thesis using apply_only_when_valid [of demo_host "\<lambda>_. []" demo_apply_args mock_init] by blast
qed

end
