(* ===== verification/Spec2Isabelle.thy ===== *)
theory Spec2Isabelle
  imports Conflicts Impact Convergence Snapshot_Roundtrip Comparison_Types Import_Run Drift History_Evolution Lifecycle
begin

text \<open>
  The Governance-as-Code engine (\<open>src/src/governance\<close>): a command line tool that scans or imports metadata of data
  systems, normalizes it into canonical models, compares snapshots of it, classifies the differences by
  policies and pushes the result into a Collibra tenant. The library models the engine's own logic,
  component by component, with one theory per component; this root theory imports all of them.

  \<^bold>\<open>How the parts work together.\<close> Everything the engine persists is a canonical JSON value with a SHA-256 identity
  (Json). Provider data becomes a graph of nodes and edges with provenance (Graph, Merge), property observations
  with provenance (Observations), authority rules that say which source wins for which property (Authority), and
  from the last two a report of conflicts (Conflicts). The graph is searched for what a change reaches
  (Impact). A scanner's result is a metadata model (Model) inside a snapshot (Snapshot, Snapshot_Roundtrip). Two
  snapshots are projected onto structured identities (Projection, Projection_Spec) and compared (Comparison,
  Comparison_Types); a drift policy then decides which differences were expected (Drift). A history is an append-only list
  of snapshots with their context (History, History_Append), whose evolution can be queried (History_Evolution). On the
  other side a model is mapped to a desired Collibra state (Collibra_Mapping, on the records of Collibra), compared
  with the remote state into a plan and applied through an adapter (Sync, Adapter), for which the repository has a
  mock tenant (Mock); Convergence puts the three together. The import path compiles a plan to import
  commands, packs them into batches and runs the remote jobs (Import_Compile, Batching, Import_Run). Before a plan
  leaves the engine, policies decide whether its actions are allowed (Policy); with external metadata sources the
  desired state is reconciled property by property with what they say (Reconciliation), and the decisions the
  plan rests on are written down as assumptions that are recomputed before it is applied (Assumptions). The plan is
  saved as a document with identities of everything it was computed from (Saved_Plan), and the two commands
  that write and execute it, with all their checks in order, close the circle (Lifecycle).

  \<^bold>\<open>Theories and sources.\<close>
  \<^item> Prelude: exceptions as values, the loops \<open>traverse\<close> and \<open>fold_in\<close>, dictionaries as association lists in insertion
    order, stable sorting, strings; the locale \<open>canonical_key\<close> (sorting and deduplicating by an injective key),
    interpreted for each canonical-bytes function. Merge: the locale of compatible duplicates that merge.
  \<^item> Json: \<open>identity/\<close>. Injectivity of the serialization on normalized values and of the hashed bytes.
  \<^item> Graph: \<open>domain/graph.py\<close>. Observations: \<open>domain/observations.py\<close>. Authority: \<open>domain/authority.py\<close>. Conflicts:
    \<open>domain/conflicts.py\<close>. The normal forms, that building does not depend on the order of its input and loses
    nothing, and what a conflict is decided to.
  \<^item> Impact: \<open>domain/impact.py\<close>, \<open>domain/lineage.py\<close>. The layered search as a \<open>while_option\<close> loop with its termination
    measure, exactness against reachability, minimal paths.
  \<^item> Model: \<open>domain/models.py\<close>. Snapshot, Snapshot_Roundtrip: \<open>snapshots/\<close>. What a loaded snapshot guarantees, and that a saved
    one is loaded back.
  \<^item> Projection, Projection_Spec, Comparison, Comparison_Types: \<open>comparison/\<close>. Refinement of an abstract projection, exactness and
    invertibility of a comparison, types of the changes.
  \<^item> Drift: \<open>drift/\<close>. What a verdict means.
  \<^item> History, History_Append, History_Evolution: \<open>history/\<close>. The directory is an explicit state; appending keeps the past and
    leaves a history that loads and resolves; the evolution shows the projected values.
  \<^item> Collibra, Collibra_Mapping, Sync, Adapter, Mock, Convergence, Import_Compile, Batching, Import_Run: \<open>integrations/collibra/\<close>. The adapter is a
    locale whose laws the mock tenant satisfies.
  \<^item> Policy: \<open>policy/\<close>. The gate of a plan, action by action. Reconciliation: \<open>reconciliation/\<close>. Assumptions:
    \<open>reconciliation/assumptions.py\<close>. The overlay changes a property only where its decision says so.
  \<^item> Saved_Plan: \<open>plans/\<close>. What a loaded plan guarantees, and that a saved one is loaded back.
  \<^item> Lifecycle: \<open>_cmd_plan_generate\<close> and \<open>_cmd_apply\<close> of \<open>cli.py\<close>. What was checked before an action was executed, and that a
    plan that was just generated is executed when nothing has changed.

  \<^bold>\<open>Conventions.\<close> A Python string is a list of characters with code points 0 to 255. A raise is a value of the type
  \<open>error\<close>, with the code, path and message of each diagnostic; where a message ends in an interpolated value the
  value is left out, except where \<open>py_repr\<close> is written. A dictionary is an association list in insertion order;
  equality of dictionary values is structural. A set that is only iterated is a list of its members. Records hold
  the dataclass fields, with the checks of \<open>__post_init__\<close> in a constructor function \<open>mk_...\<close>. Clock readings are
  rational numbers. Integers are unbounded, as in Python.

  \<^bold>\<open>Bounds and fuel.\<close> There is no fuel: recursion is structural except for the impact search (\<open>while_option\<close>, proved to
  end because each layer settles a node or ends) and the polling loop (\<open>partial_function (option)\<close>, proved to
  return on a clock that never goes back and reaches the deadline).

  \<^bold>\<open>Parameters.\<close> SHA-256 (only non-empty digests are assumed, and only where a digest is parsed again), UUID parsing and
  \<open>uuid5\<close>, the JSON Schema validator (its diagnostics of a document), file reading with JSON or YAML parsing (the parsed
  document or that it failed), the remote tenant behind the adapter, and the loaders of observation and
  authority files in a history, the normalization of a URL, and in Lifecycle the host of a command: a record of the functions
  that read the configuration, the external sources and the scanned database, with a state they thread.

  \<^bold>\<open>Not modelled.\<close> The commands of the command line other than generating and applying a plan, and the text they
  print; the importers of dbt, ODCS and OpenLineage documents and the explanation of a reconciliation; the configuration
  contract and the loader of comparison documents; the GitHub workflow, the live HTTP client, the PostgreSQL
  scanner, plugin discovery, the conformance kit and file output, which are input and output around the logic above or
  third-party interfaces. Recursion limits, telemetry and the text of JSON files (indentation) are left out.
\<close>

end
